(* ===== verification/Prelude.thy ===== *)
theory Prelude
  imports Main "HOL-Library.Char_ord" "HOL-Library.List_Lexorder" "HOL-Library.Sublist"
begin

text \<open>
  Shared vocabulary of the development: Go's strings, times and audit events as HOL types,
  the string functions of Go's standard library that several components call, and the
  generic lemmas on lists, options and keyed maps that the component theories use.

  A Go \<^verbatim>\<open>string\<close> and a Go \<^verbatim>\<open>[]byte\<close> are both byte sequences, so both are \<open>string\<close>
  (a list of 8-bit characters) and the conversions between them are the identity.
  A \<^verbatim>\<open>time.Time\<close> is the number of nanoseconds since Go's zero time, so that
  \<^verbatim>\<open>t.IsZero()\<close> is \<open>t = 0\<close>; a \<^verbatim>\<open>time.Duration\<close> is a number of nanoseconds. Both are
  unbounded here: the components only compare and add them.
\<close>

type_synonym bytes = string
type_synonym gotime = int
type_synonym duration = int

abbreviation (input) minute :: duration where "minute \<equiv> 60000000000"
abbreviation (input) hour :: duration where "hour \<equiv> 3600000000000"

section \<open>Collections of facts\<close>

named_theorems model_defs \<open>definitions that component proofs unfold\<close>
named_theorems go_string \<open>facts about Go's string functions\<close>

section \<open>Audit events\<close>

text \<open>
  Components hand events to an audit sink as a dotted type, a tenant and a payload. The
  payload is kept as the list of its fields; its rendering as JSON text is not modelled.
\<close>

datatype audit_val = AStr string | AInt int

record audit_event =
  ae_type :: string
  ae_tenant :: string
  ae_fields :: "(string \<times> audit_val) list"

abbreviation audit_ev :: "string \<Rightarrow> string \<Rightarrow> (string \<times> audit_val) list \<Rightarrow> audit_event" where
  "audit_ev ty tn fs \<equiv> \<lparr>ae_type = ty, ae_tenant = tn, ae_fields = fs\<rparr>"

section \<open>Results\<close>

text \<open>A Go call that returns either a value or an error is a sum; \<open>Inl\<close> carries the error.\<close>

fun is_ok :: "'e + 'a \<Rightarrow> bool" where
  "is_ok (Inl _) = False"
| "is_ok (Inr _) = True"

lemma is_ok_iff: "is_ok r \<longleftrightarrow> (\<exists>a. r = Inr a)"
  by (cases r) auto

section \<open>String functions of the Go standard library\<close>

text \<open>
  \<^verbatim>\<open>strings.HasPrefix\<close>, \<^verbatim>\<open>HasSuffix\<close>, \<^verbatim>\<open>TrimPrefix\<close>, \<^verbatim>\<open>TrimSuffix\<close>, \<^verbatim>\<open>TrimSpace\<close> and
  \<^verbatim>\<open>ToLower\<close>. The last two follow Go on ASCII input; on other bytes Go consults the
  Unicode tables, and these definitions leave the byte alone.
\<close>

definition has_prefix :: "string \<Rightarrow> string \<Rightarrow> bool" where
  "has_prefix s p = (take (length p) s = p)"

definition has_suffix :: "string \<Rightarrow> string \<Rightarrow> bool" where
  "has_suffix s p = (length p \<le> length s \<and> drop (length s - length p) s = p)"

definition trim_prefix :: "string \<Rightarrow> string \<Rightarrow> string" where
  "trim_prefix s p = (if has_prefix s p then drop (length p) s else s)"

definition trim_suffix :: "string \<Rightarrow> string \<Rightarrow> string" where
  "trim_suffix s p = (if has_suffix s p then take (length s - length p) s else s)"

definition is_space :: "char \<Rightarrow> bool" where
  "is_space c = (c \<in> {CHR 0x20, CHR 0x09, CHR 0x0A, CHR 0x0B, CHR 0x0C, CHR 0x0D})"

definition trim_func :: "(char \<Rightarrow> bool) \<Rightarrow> string \<Rightarrow> string" where
  "trim_func P s = rev (dropWhile P (rev (dropWhile P s)))"

definition trim_space :: "string \<Rightarrow> string" where
  "trim_space s = trim_func is_space s"

definition lower_char :: "char \<Rightarrow> char" where
  "lower_char c = (let n = (of_char c :: nat)
     in if 65 \<le> n \<and> n \<le> 90 then char_of (n + 32) else c)"

definition to_lower :: "string \<Rightarrow> string" where
  "to_lower s = map lower_char s"

text \<open>
  \<^verbatim>\<open>strings.IndexByte\<close> and \<^verbatim>\<open>strings.LastIndex\<close> for one byte: \<open>None\<close> is Go's \<open>-1\<close>.
\<close>

fun index_byte :: "string \<Rightarrow> char \<Rightarrow> nat option" where
  "index_byte [] c = None"
| "index_byte (x # xs) c = (if x = c then Some 0 else map_option Suc (index_byte xs c))"

definition last_index_byte :: "string \<Rightarrow> char \<Rightarrow> nat option" where
  "last_index_byte s c = map_option (\<lambda>i. length s - 1 - i) (index_byte (rev s) c)"

text \<open>\<^verbatim>\<open>strings.Split\<close> at one byte: always at least one part.\<close>

fun split_byte :: "char \<Rightarrow> string \<Rightarrow> string list" where
  "split_byte c [] = [[]]"
| "split_byte c (x # xs) =
     (if x = c then [] # split_byte c xs
      else (case split_byte c xs of [] \<Rightarrow> [[x]] | p # ps \<Rightarrow> (x # p) # ps))"

text \<open>\<^verbatim>\<open>strings.Join\<close>.\<close>

fun join_with :: "string \<Rightarrow> string list \<Rightarrow> string" where
  "join_with sep [] = []"
| "join_with sep [x] = x"
| "join_with sep (x # y # xs) = x @ sep @ join_with sep (y # xs)"

subsection \<open>Laws\<close>

lemma has_prefix_iff [go_string]: "has_prefix s p \<longleftrightarrow> (\<exists>t. s = p @ t)"
  by (metis append_eq_conv_conj append_take_drop_id has_prefix_def)

lemma has_suffix_iff [go_string]: "has_suffix s p \<longleftrightarrow> (\<exists>t. s = t @ p)"
proof
  assume "has_suffix s p"
  then show "\<exists>t. s = t @ p"
    by (metis append_take_drop_id has_suffix_def)
next
  assume "\<exists>t. s = t @ p"
  then show "has_suffix s p" by (auto simp: has_suffix_def)
qed

lemma trim_prefix_append [simp]: "trim_prefix (p @ t) p = t"
  by (simp add: trim_prefix_def has_prefix_def)

lemma trim_func_idem [simp]: "trim_func P (trim_func P s) = trim_func P s"
proof -
  define a where "a = dropWhile P s"
  define b where "b = rev (dropWhile P (rev a))"
  have "dropWhile P b = b"
  proof (cases b)
    case (Cons x xs)
    obtain ys where "a = b @ ys"
      unfolding b_def by (metis rev_append rev_rev_ident takeWhile_dropWhile_id)
    with Cons have "a = x # xs @ ys" by simp
    then have "\<not> P x" unfolding a_def by (metis hd_dropWhile list.sel(1) neq_Nil_conv)
    with Cons show ?thesis by simp
  qed simp
  then show ?thesis by (simp add: trim_func_def a_def [symmetric] b_def [symmetric]) (simp add: b_def)
qed

lemma trim_space_idem [simp]: "trim_space (trim_space s) = trim_space s"
  by (simp add: trim_space_def)

lemma index_byte_Some:
  "index_byte s c = Some i \<Longrightarrow> i < length s \<and> s ! i = c \<and> c \<notin> set (take i s)"
  by (induction s arbitrary: i) (auto split: if_splits)

lemma index_byte_None: "index_byte s c = None \<longleftrightarrow> c \<notin> set s"
  by (induction s) auto

lemma split_byte_ne [simp]: "split_byte c s \<noteq> []"
  by (induction s) (auto split: list.splits)

lemma split_byte_no_sep:
  "p \<in> set (split_byte c s) \<Longrightarrow> c \<notin> set p"
  by (induction s arbitrary: p) (auto split: list.splits if_splits)

lemma join_with_Cons:
  "xs \<noteq> [] \<Longrightarrow> join_with sep (x # xs) = x @ sep @ join_with sep xs"
  by (cases xs) auto

lemma join_split_byte: "join_with [c] (split_byte c s) = s"
proof (induction s)
  case (Cons x xs)
  show ?case
  proof (cases "split_byte c xs")
    case (Cons p ps)
    with Cons.IH show ?thesis
      by (cases ps) auto
  qed simp
qed simp

lemma split_byte_plain: "c \<notin> set p \<Longrightarrow> split_byte c p = [p]"
  by (induction p) auto

lemma split_byte_append_sep:
  "c \<notin> set p \<Longrightarrow> split_byte c (p @ c # s) = p # split_byte c s"
  by (induction p) auto

section \<open>Tenant-scoped keys\<close>

text \<open>
  Several in-memory stores key their maps by \<^verbatim>\<open>tenantID + "|" + id\<close>. The key determines the
  tenant and the id as long as the tenant holds no separator.
\<close>

definition tenant_key :: "string \<Rightarrow> string \<Rightarrow> string" where
  "tenant_key t k = t @ ''|'' @ k"

definition plain_tenant :: "string \<Rightarrow> bool" where
  "plain_tenant t = (CHR ''|'' \<notin> set t)"

lemma append_sep_inject:
  assumes "c \<notin> set a" and "c \<notin> set b"
  shows "a @ c # x = b @ c # y \<longleftrightarrow> a = b \<and> x = y"
  using assms
proof (induction a arbitrary: b)
  case Nil
  then show ?case by (cases b) auto
next
  case (Cons z a)
  then show ?case by (cases b) auto
qed

lemma tenant_key_inject:
  "plain_tenant t \<Longrightarrow> plain_tenant t' \<Longrightarrow> tenant_key t k = tenant_key t' k' \<longleftrightarrow> t = t' \<and> k = k'"
  by (simp add: tenant_key_def plain_tenant_def append_sep_inject)

lemma tenant_key_same_tenant [simp]: "tenant_key t k = tenant_key t k' \<longleftrightarrow> k = k'"
  by (simp add: tenant_key_def)

section \<open>Lists\<close>

lemma distinct_length_le_card:
  "distinct xs \<Longrightarrow> set xs \<subseteq> A \<Longrightarrow> finite A \<Longrightarrow> length xs \<le> card A"
  by (metis card_mono distinct_card)

lemma map_filter_append: "List.map_filter f (xs @ ys) = List.map_filter f xs @ List.map_filter f ys"
  by (simp add: List.map_filter_def)

section \<open>Decimal numbers\<close>

text \<open>\<^verbatim>\<open>strconv.Atoi\<close> with its range check for 64-bit integers, and the \<^verbatim>\<open>%d\<close> rendering of a number.\<close>

definition digit_val :: "char \<Rightarrow> nat option" where
  "digit_val c = (let n = (of_char c :: nat) in if 48 \<le> n \<and> n \<le> 57 then Some (n - 48) else None)"

fun digits_val :: "nat \<Rightarrow> string \<Rightarrow> nat option" where
  "digits_val acc [] = Some acc"
| "digits_val acc (c # cs) = (case digit_val c of None \<Rightarrow> None | Some d \<Rightarrow> digits_val (10 * acc + d) cs)"

definition atoi :: "string \<Rightarrow> int option" where
  "atoi s =
     (let neg = (s \<noteq> [] \<and> hd s = CHR ''-''); ds = (if s \<noteq> [] \<and> hd s \<in> {CHR ''-'', CHR ''+''} then tl s else s)
      in if ds = [] then None
         else case digits_val 0 ds of
                None \<Rightarrow> None
              | Some n \<Rightarrow> if neg then (if n \<le> 2 ^ 63 then Some (- int n) else None)
                          else (if n < 2 ^ 63 then Some (int n) else None))"

definition digit_char :: "nat \<Rightarrow> char" where
  "digit_char d = char_of (48 + d)"

fun itoa :: "nat \<Rightarrow> string" where
  "itoa n = (if n < 10 then [digit_char n] else itoa (n div 10) @ [digit_char (n mod 10)])"

declare itoa.simps [simp del]

lemma digit_val_char: "d < 10 \<Longrightarrow> digit_val (digit_char d) = Some d"
  by (simp add: digit_val_def digit_char_def)

lemma digits_val_append: "digits_val acc (xs @ ys) = Option.bind (digits_val acc xs) (\<lambda>a. digits_val a ys)"
  by (induction xs arbitrary: acc) (auto split: option.split)

lemma digits_val_itoa: "digits_val 0 (itoa n) = Some n"
proof (induction n rule: itoa.induct)
  case (1 n)
  show ?case
  proof (cases "n < 10")
    case True
    then show ?thesis by (subst itoa.simps) (simp add: digit_val_char)
  next
    case False
    with 1 show ?thesis by (subst itoa.simps) (simp add: digits_val_append digit_val_char)
  qed
qed

lemma itoa_digits: "c \<in> set (itoa n) \<Longrightarrow> digit_val c \<noteq> None"
proof (induction n rule: itoa.induct)
  case (1 n)
  then show ?case
    by (subst (asm) (2) itoa.simps) (auto simp: digit_val_char split: if_splits)
qed

lemma itoa_ne [simp]: "itoa n \<noteq> []"
  by (subst itoa.simps) simp

lemma digit_val_signs [simp]: "digit_val CHR ''-'' = None" "digit_val CHR ''+'' = None" "digit_val CHR '':'' = None"
  by (simp_all add: digit_val_def)

lemma colon_itoa [simp]: "CHR '':'' \<notin> set (itoa n)"
  using itoa_digits [of "CHR '':''" n] by auto

lemma atoi_itoa: "n < 2 ^ 63 \<Longrightarrow> atoi (itoa n) = Some (int n)"
proof -
  assume n: "n < 2 ^ 63"
  have "hd (itoa n) \<in> set (itoa n)" by simp
  then have "digit_val (hd (itoa n)) \<noteq> None" by (rule itoa_digits)
  then have "hd (itoa n) \<noteq> CHR ''-''" "hd (itoa n) \<noteq> CHR ''+''" by auto
  then show ?thesis using n by (simp add: atoi_def Let_def digits_val_itoa)
qed

end
