(* ===== verification/Lifecycle.thy ===== *)
theory Lifecycle
  imports Prelude
begin

text \<open>
  The lifecycle state machine of an identity (\<^verbatim>\<open>internal/orchestrator/lifecycle.go\<close>): its
  states, the registry of allowed transitions with the event each emits, and the registry of
  external side effects. A Go \<^verbatim>\<open>State\<close> is a string type, so a state read from a database row or
  a request can be any string: the registries decide which are known.
\<close>

section \<open>States and registries\<close>

type_synonym state_name = string

definition StateRequested :: state_name where [model_defs]: "StateRequested = ''requested''"
definition StateIssued :: state_name where [model_defs]: "StateIssued = ''issued''"
definition StateDeployed :: state_name where [model_defs]: "StateDeployed = ''deployed''"
definition StateRenewing :: state_name where [model_defs]: "StateRenewing = ''renewing''"
definition StateRevoked :: state_name where [model_defs]: "StateRevoked = ''revoked''"
definition StateRetired :: state_name where [model_defs]: "StateRetired = ''retired''"

lemmas state_names =
  StateRequested_def StateIssued_def StateDeployed_def StateRenewing_def StateRevoked_def
  StateRetired_def

type_synonym edge = "state_name \<times> state_name"

definition transitionEvents :: "(edge \<times> string) list" where
  "transitionEvents =
    [((StateRequested, StateIssued), ''identity.issued''),
     ((StateIssued, StateDeployed), ''identity.deployed''),
     ((StateIssued, StateRevoked), ''identity.revoked''),
     ((StateDeployed, StateRenewing), ''identity.renewing''),
     ((StateDeployed, StateRevoked), ''identity.revoked''),
     ((StateRenewing, StateDeployed), ''identity.renewed''),
     ((StateRenewing, StateRevoked), ''identity.revoked''),
     ((StateRevoked, StateRetired), ''identity.retired'')]"

definition sideEffects :: "(edge \<times> string) list" where
  "sideEffects =
    [((StateRequested, StateIssued), ''ca.issue''),
     ((StateIssued, StateDeployed), ''connector.deploy''),
     ((StateDeployed, StateRenewing), ''ca.renew''),
     ((StateRenewing, StateDeployed), ''connector.deploy''),
     ((StateIssued, StateRevoked), ''revocation.publish''),
     ((StateDeployed, StateRevoked), ''revocation.publish''),
     ((StateRenewing, StateRevoked), ''revocation.publish'')]"

definition CanTransition :: "state_name \<Rightarrow> state_name \<Rightarrow> bool" where
  "CanTransition from to = (map_of transitionEvents (from, to) \<noteq> None)"

definition EventTypeFor :: "state_name \<Rightarrow> state_name \<Rightarrow> string option" where
  "EventTypeFor from to = map_of transitionEvents (from, to)"

definition LifecycleEventTypes :: "string set" where
  "LifecycleEventTypes = set (map snd transitionEvents)"

definition sideEffectFor :: "state_name \<Rightarrow> state_name \<Rightarrow> string option" where
  "sideEffectFor from to = map_of sideEffects (from, to)"

definition isLifecycleTransition :: "string \<Rightarrow> bool" where
  "isLifecycleTransition ty = list_ex (\<lambda>known. ty = known) (map snd transitionEvents)"

section \<open>Facts about the registries\<close>

lemma CanTransition_iff:
  "CanTransition from to \<longleftrightarrow>
     (from = StateRequested \<and> to = StateIssued) \<or>
     (from = StateIssued \<and> (to = StateDeployed \<or> to = StateRevoked)) \<or>
     (from = StateDeployed \<and> (to = StateRenewing \<or> to = StateRevoked)) \<or>
     (from = StateRenewing \<and> (to = StateDeployed \<or> to = StateRevoked)) \<or>
     (from = StateRevoked \<and> to = StateRetired)"
  unfolding CanTransition_def transitionEvents_def
  by (auto split: if_splits)

lemma CanTransition_EventTypeFor: "CanTransition from to \<longleftrightarrow> (\<exists>ty. EventTypeFor from to = Some ty)"
  by (auto simp: CanTransition_def EventTypeFor_def)

lemma EventTypeFor_lifecycle:
  "EventTypeFor from to = Some ty \<Longrightarrow> isLifecycleTransition ty"
  by (force simp: EventTypeFor_def isLifecycleTransition_def list_ex_iff dest: map_of_SomeD)

lemma isLifecycleTransition_iff: "isLifecycleTransition ty \<longleftrightarrow> ty \<in> LifecycleEventTypes"
  by (auto simp: isLifecycleTransition_def LifecycleEventTypes_def list_ex_iff)

lemma sideEffectFor_CanTransition:
  "sideEffectFor from to = Some d \<Longrightarrow> CanTransition from to"
  unfolding sideEffectFor_def sideEffects_def CanTransition_iff
  by (auto split: if_splits)

lemma CanTransition_not_self: "\<not> CanTransition s s"
  unfolding CanTransition_iff by (auto simp: state_names)

text \<open>A run of the state machine: the states an identity passes through.\<close>

inductive lifecycle_path :: "state_name \<Rightarrow> state_name list \<Rightarrow> state_name \<Rightarrow> bool" where
  path_nil: "lifecycle_path s [] s"
| path_step: "CanTransition s t \<Longrightarrow> lifecycle_path t ts u \<Longrightarrow> lifecycle_path s (t # ts) u"

inductive_cases lifecycle_path_NilE: "lifecycle_path s [] u"
inductive_cases lifecycle_path_ConsE: "lifecycle_path s (t # ts) u"

lemma lifecycle_path_Nil [simp]: "lifecycle_path s [] u \<longleftrightarrow> s = u"
  by (auto intro: path_nil elim: lifecycle_path_NilE)

lemma lifecycle_path_Cons [simp]:
  "lifecycle_path s (t # ts) u \<longleftrightarrow> CanTransition s t \<and> lifecycle_path t ts u"
  by (auto intro: path_step elim: lifecycle_path_ConsE)

lemma lifecycle_path_snoc:
  "lifecycle_path s ts u \<Longrightarrow> CanTransition u v \<Longrightarrow> lifecycle_path s (ts @ [v]) v"
  by (induction ts arbitrary: s) auto

lemma from_retired: "lifecycle_path StateRetired ts u \<Longrightarrow> ts = [] \<and> u = StateRetired"
  by (cases ts) (auto simp: CanTransition_iff state_names)

lemma from_revoked: "lifecycle_path StateRevoked ts u \<Longrightarrow> ts = [] \<or> ts = [StateRetired]"
  using from_retired by (cases ts) (auto simp: CanTransition_iff state_names)

text \<open>C28: Revocation is final. Once a run of the lifecycle state machine passes through
  \<^verbatim>\<open>revoked\<close>, what is left of the run is either nothing or the single step to \<^verbatim>\<open>retired\<close>:
  a revoked identity is never issued, deployed or renewed again, and \<^verbatim>\<open>retired\<close> is terminal.
\<close>

theorem revoked_is_final:
  assumes "lifecycle_path StateRequested (ts @ StateRevoked # us) u"
  shows "us = [] \<and> u = StateRevoked \<or> us = [StateRetired] \<and> u = StateRetired"
proof -
  have "lifecycle_path s (ts @ StateRevoked # us) u \<Longrightarrow> lifecycle_path StateRevoked us u" for s
    by (induction ts arbitrary: s) auto
  with assms have "lifecycle_path StateRevoked us u" by blast
  with from_revoked [OF this] show ?thesis by auto
qed

theorem revoked_is_final_witness:
  "lifecycle_path StateRequested ([StateIssued, StateDeployed] @ StateRevoked # [StateRetired]) StateRetired
   \<and> ([StateRetired] = [] \<and> StateRetired = StateRevoked \<or>
      [StateRetired] = [StateRetired] \<and> StateRetired = StateRetired)"
proof -
  have h: "lifecycle_path StateRequested ([StateIssued, StateDeployed] @ StateRevoked # [StateRetired]) StateRetired"
    by (simp add: CanTransition_iff)
  show ?thesis using h revoked_is_final [OF h] by simp
qed

end
