(* ===== verification/Outbox.thy ===== *)
theory Outbox
  imports Prelude
begin

text \<open>
  The transactional outbox (\<^verbatim>\<open>internal/orchestrator/outbox.go\<close>) and its retention sweep
  (\<^verbatim>\<open>internal/outboxgc\<close>): the table of external calls, the enqueue, claim and finalize
  statements as functions on that table, the per-tenant, per-destination circuit breaker, and
  the retry delay. The table is the list of its rows in id order; every statement is one
  function, and a transaction is their composition. Database faults, which roll a transaction
  back, are not modelled.
\<close>

section \<open>Rows\<close>

datatype row_status = Pending | Processing | Delivered | Failed

record 'p entry =
  en_TenantID :: string
  en_Destination :: string
  en_IdempotencyKey :: string
  en_Payload :: 'p

record 'p outbox_row = "'p entry" +
  ob_id :: nat
  ob_status :: row_status
  ob_attempts :: nat
  ob_last_error :: "string option"
  ob_next_attempt_at :: gotime
  ob_worker_id :: "string option"
  ob_lease_until :: "gotime option"
  ob_delivered_at :: "gotime option"

record 'p outbox_table =
  ot_rows :: "'p outbox_row list"
  ot_next_id :: nat

definition empty_outbox :: "'p outbox_table" where
  "empty_outbox = \<lparr>ot_rows = [], ot_next_id = 1\<rparr>"

text \<open>The row an insert creates: the column defaults of migrations 0003 and 0032.\<close>

definition new_row :: "nat \<Rightarrow> gotime \<Rightarrow> 'p entry \<Rightarrow> 'p outbox_row" where
  "new_row i now e =
     \<lparr>en_TenantID = en_TenantID e, en_Destination = en_Destination e,
      en_IdempotencyKey = en_IdempotencyKey e, en_Payload = en_Payload e,
      ob_id = i, ob_status = Pending, ob_attempts = 0, ob_last_error = None,
      ob_next_attempt_at = now, ob_worker_id = None, ob_lease_until = None,
      ob_delivered_at = None\<rparr>"

definition Enqueue :: "gotime \<Rightarrow> 'p entry \<Rightarrow> 'p outbox_table \<Rightarrow> 'p outbox_table \<times> nat" where
  "Enqueue now e t =
     (t\<lparr>ot_rows := ot_rows t @ [new_row (ot_next_id t) now e], ot_next_id := Suc (ot_next_id t)\<rparr>,
      ot_next_id t)"

definition has_key :: "string \<Rightarrow> string \<Rightarrow> 'p outbox_table \<Rightarrow> bool" where
  "has_key tn k t = list_ex (\<lambda>r. en_TenantID r = tn \<and> en_IdempotencyKey r = k) (ot_rows t)"

definition EnqueueIfAbsent :: "gotime \<Rightarrow> 'p entry \<Rightarrow> 'p outbox_table \<Rightarrow> 'p outbox_table \<times> bool" where
  "EnqueueIfAbsent now e t =
     (if has_key (en_TenantID e) (en_IdempotencyKey e) t then (t, False)
      else (fst (Enqueue now e t), True))"

section \<open>Configuration and circuit breaker\<close>

datatype CircuitState = CircuitClosed | CircuitOpen | CircuitHalfOpen

type_synonym circuitKey = "string \<times> string"

record outboxCircuit =
  ci_state :: CircuitState
  ci_failures :: nat
  ci_openUntil :: gotime
  ci_updatedAt :: gotime
  ci_lastError :: string

record CircuitTransition =
  ct_TenantID :: string
  ct_Destination :: string
  ct_From :: CircuitState
  ct_To :: CircuitState
  ct_Failures :: nat
  ct_OpenUntil :: gotime

record outbox_config =
  oc_maxAttempts :: nat
  oc_leaseTTL :: duration
  oc_deliveryTimeout :: duration
  oc_maxInFlightPerDestination :: nat
  oc_maxInFlightPerTenant :: nat
  oc_workerID :: string
  oc_circuitFailureThreshold :: int
  oc_circuitOpenDuration :: duration

definition default_outbox_config :: "string \<Rightarrow> outbox_config" where
  "default_outbox_config w =
     \<lparr>oc_maxAttempts = 10, oc_leaseTTL = 30000000000, oc_deliveryTimeout = 25000000000,
      oc_maxInFlightPerDestination = 1,
      oc_maxInFlightPerTenant = 2, oc_workerID = w, oc_circuitFailureThreshold = 3,
      oc_circuitOpenDuration = 30000000000\<rparr>"

text \<open>
  The circuits are an association list, the model of Go's map: one entry per key, and an
  iteration visits every entry once.
\<close>

type_synonym circuits = "(circuitKey \<times> outboxCircuit) list"

definition circuit_key_string :: "circuitKey \<Rightarrow> string" where
  "circuit_key_string k = fst k @ [CHR 0x1F] @ snd k"

fun upd_circuit :: "circuitKey \<Rightarrow> outboxCircuit \<Rightarrow> circuits \<Rightarrow> circuits" where
  "upd_circuit k c [] = [(k, c)]"
| "upd_circuit k c ((k', c') # cs) =
     (if k = k' then (k, c) # cs else (k', c') # upd_circuit k c cs)"

text \<open>One circuit in \<^verbatim>\<open>reserveHalfOpenProbes\<close>: the new circuit, blocked?, reserved?\<close>

definition reserve_probe :: "gotime \<Rightarrow> outboxCircuit \<Rightarrow> outboxCircuit \<times> bool \<times> bool" where
  "reserve_probe now c =
     (case ci_state c of
        CircuitOpen \<Rightarrow>
          (if now < ci_openUntil c then (c, True, False)
           else (c\<lparr>ci_state := CircuitHalfOpen, ci_updatedAt := now\<rparr>, False, True))
      | CircuitHalfOpen \<Rightarrow> (c, True, False)
      | CircuitClosed \<Rightarrow> (c, False, False))"

definition reserveHalfOpenProbes ::
  "outbox_config \<Rightarrow> gotime \<Rightarrow> circuits \<Rightarrow> circuits \<times> circuitKey list \<times> circuitKey list" where
  "reserveHalfOpenProbes cfg now cs =
     (if oc_circuitFailureThreshold cfg \<le> 0 then (cs, [], [])
      else (map (\<lambda>(k, c). (k, fst (reserve_probe now c))) cs,
            map fst (filter (\<lambda>(k, c). fst (snd (reserve_probe now c))) cs),
            map fst (filter (\<lambda>(k, c). snd (snd (reserve_probe now c))) cs)))"

definition releaseUnclaimedHalfOpenProbes ::
  "circuitKey list \<Rightarrow> circuitKey \<Rightarrow> gotime \<Rightarrow> circuits \<Rightarrow> circuits" where
  "releaseUnclaimedHalfOpenProbes reserved claimed now cs =
     map (\<lambda>(k, c). if k \<in> set reserved \<and> k \<noteq> claimed \<and> ci_state c = CircuitHalfOpen
            then (k, c\<lparr>ci_state := CircuitOpen, ci_openUntil := now, ci_updatedAt := now\<rparr>)
            else (k, c)) cs"

definition circuit_fail :: "outbox_config \<Rightarrow> string \<Rightarrow> gotime \<Rightarrow> outboxCircuit \<Rightarrow> outboxCircuit" where
  "circuit_fail cfg err now c0 =
     (let c = c0\<lparr>ci_failures := Suc (ci_failures c0), ci_lastError := err, ci_updatedAt := now\<rparr>
      in if ci_state c = CircuitHalfOpen \<or> oc_circuitFailureThreshold cfg \<le> int (ci_failures c)
         then c\<lparr>ci_state := CircuitOpen, ci_openUntil := now + oc_circuitOpenDuration cfg\<rparr>
         else c)"

definition fresh_circuit :: outboxCircuit where
  "fresh_circuit = \<lparr>ci_state = CircuitClosed, ci_failures = 0, ci_openUntil = 0,
                    ci_updatedAt = 0, ci_lastError = ''''\<rparr>"

definition recordCircuitFailure ::
  "outbox_config \<Rightarrow> circuitKey \<Rightarrow> string \<Rightarrow> gotime \<Rightarrow> circuits \<Rightarrow> circuits \<times> CircuitTransition list" where
  "recordCircuitFailure cfg k err now cs =
     (if oc_circuitFailureThreshold cfg \<le> 0 then (cs, [])
      else let c0 = (case map_of cs k of None \<Rightarrow> fresh_circuit | Some c \<Rightarrow> c);
               c = circuit_fail cfg err now c0
           in (upd_circuit k c cs,
               if ci_state c0 \<noteq> ci_state c
               then [\<lparr>ct_TenantID = fst k, ct_Destination = snd k, ct_From = ci_state c0,
                      ct_To = ci_state c, ct_Failures = ci_failures c, ct_OpenUntil = ci_openUntil c\<rparr>]
               else []))"

definition recordCircuitSuccess ::
  "outbox_config \<Rightarrow> circuitKey \<Rightarrow> gotime \<Rightarrow> circuits \<Rightarrow> circuits \<times> CircuitTransition list" where
  "recordCircuitSuccess cfg k now cs =
     (if oc_circuitFailureThreshold cfg \<le> 0 then (cs, [])
      else (case map_of cs k of
              None \<Rightarrow> (cs, [])
            | Some c0 \<Rightarrow>
                (upd_circuit k (c0\<lparr>ci_state := CircuitClosed, ci_failures := 0, ci_openUntil := 0,
                                    ci_updatedAt := now, ci_lastError := ''''\<rparr>) cs,
                 if ci_state c0 \<noteq> CircuitClosed
                 then [\<lparr>ct_TenantID = fst k, ct_Destination = snd k, ct_From = ci_state c0,
                        ct_To = CircuitClosed, ct_Failures = 0, ct_OpenUntil = 0\<rparr>]
                 else [])))"

section \<open>Claiming and finalizing\<close>

definition recover_lease :: "gotime \<Rightarrow> 'p outbox_row \<Rightarrow> 'p outbox_row" where
  "recover_lease now r =
     (case ob_lease_until r of
        Some l \<Rightarrow> (if ob_status r = Processing \<and> l \<le> now
                    then r\<lparr>ob_status := Pending, ob_worker_id := None, ob_lease_until := None\<rparr>
                    else r)
      | None \<Rightarrow> r)"

definition recover_leases :: "gotime \<Rightarrow> 'p outbox_row list \<Rightarrow> 'p outbox_row list" where
  "recover_leases now rs = map (recover_lease now) rs"

definition live_lease :: "gotime \<Rightarrow> 'p outbox_row \<Rightarrow> bool" where
  "live_lease now r =
     (ob_status r = Processing \<and> (case ob_lease_until r of None \<Rightarrow> False | Some l \<Rightarrow> now < l))"

definition in_flight_destination :: "gotime \<Rightarrow> string \<Rightarrow> 'p outbox_row list \<Rightarrow> nat" where
  "in_flight_destination now d rs = length (filter (\<lambda>p. live_lease now p \<and> en_Destination p = d) rs)"

definition in_flight_tenant :: "gotime \<Rightarrow> string \<Rightarrow> 'p outbox_row list \<Rightarrow> nat" where
  "in_flight_tenant now tn rs = length (filter (\<lambda>p. live_lease now p \<and> en_TenantID p = tn) rs)"

definition due :: "gotime \<Rightarrow> 'p outbox_row \<Rightarrow> bool" where
  "due cutoff r = (ob_status r = Pending \<and> ob_next_attempt_at r \<le> cutoff)"

definition row_before :: "'p outbox_row \<Rightarrow> 'p outbox_row \<Rightarrow> bool" where
  "row_before a b = (ob_next_attempt_at a < ob_next_attempt_at b \<or>
     ob_next_attempt_at a = ob_next_attempt_at b \<and> ob_id a < ob_id b)"

text \<open>The \<^verbatim>\<open>WHERE\<close> clause of the candidate query.\<close>

definition candidate ::
  "outbox_config \<Rightarrow> gotime \<Rightarrow> gotime \<Rightarrow> string list \<Rightarrow> string list \<Rightarrow> string list \<Rightarrow>
   'p outbox_row list \<Rightarrow> 'p outbox_row \<Rightarrow> bool" where
  "candidate cfg cutoff now seenTenants seenDestinations blocked rs r =
     (due cutoff r
      \<and> en_TenantID r \<notin> set seenTenants
      \<and> en_Destination r \<notin> set seenDestinations
      \<and> circuit_key_string (en_TenantID r, en_Destination r) \<notin> set blocked
      \<and> in_flight_destination now (en_Destination r) rs < oc_maxInFlightPerDestination cfg
      \<and> in_flight_tenant now (en_TenantID r) rs < oc_maxInFlightPerTenant cfg
      \<and> \<not> list_ex (\<lambda>old. due cutoff old \<and> en_TenantID old = en_TenantID r
              \<and> en_Destination old = en_Destination r \<and> row_before old r) rs)"

text \<open>\<^verbatim>\<open>ORDER BY next_attempt_at, id LIMIT 1\<close>.\<close>

fun first_row :: "'p outbox_row list \<Rightarrow> 'p outbox_row option" where
  "first_row [] = None"
| "first_row (r # rs) =
     (case first_row rs of None \<Rightarrow> Some r | Some s \<Rightarrow> Some (if row_before s r then s else r))"

definition claim_row :: "outbox_config \<Rightarrow> gotime \<Rightarrow> 'p outbox_row \<Rightarrow> 'p outbox_row" where
  "claim_row cfg now r =
     r\<lparr>ob_status := Processing, ob_attempts := Suc (ob_attempts r),
       ob_worker_id := Some (oc_workerID cfg), ob_lease_until := Some (now + oc_leaseTTL cfg),
       ob_last_error := None\<rparr>"

definition claimOne ::
  "outbox_config \<Rightarrow> gotime \<Rightarrow> gotime \<Rightarrow> string list \<Rightarrow> string list \<Rightarrow>
   'p outbox_table \<times> circuits \<Rightarrow> ('p outbox_table \<times> circuits) \<times> 'p outbox_row option" where
  "claimOne cfg cutoff now seenTenants seenDestinations s =
     (let (t, cs) = s;
          (cs1, blocked, reserved) = reserveHalfOpenProbes cfg now cs;
          rs = recover_leases now (ot_rows t)
      in case first_row (filter (candidate cfg cutoff now seenTenants seenDestinations
                                   (map circuit_key_string blocked) rs) rs) of
           None \<Rightarrow> ((t\<lparr>ot_rows := rs\<rparr>, releaseUnclaimedHalfOpenProbes reserved ('''', '''') now cs1), None)
         | Some r \<Rightarrow>
             ((t\<lparr>ot_rows := map (\<lambda>q. if ob_id q = ob_id r then claim_row cfg now q else q) rs\<rparr>,
               releaseUnclaimedHalfOpenProbes reserved
                 (en_TenantID r, en_Destination r) now cs1),
              Some (claim_row cfg now r)))"

text \<open>The row a worker still holds, the guard of both finalize statements.\<close>

definition holds_lease :: "outbox_config \<Rightarrow> 'p outbox_row \<Rightarrow> 'p outbox_row \<Rightarrow> bool" where
  "holds_lease cfg claim r =
     (ob_id r = ob_id claim \<and> en_TenantID r = en_TenantID claim \<and> ob_status r = Processing
      \<and> ob_worker_id r = Some (oc_workerID cfg))"

datatype finalize_error = LeaseLost nat

definition finalizeClaim ::
  "outbox_config \<Rightarrow> (nat \<Rightarrow> duration) \<Rightarrow> gotime \<Rightarrow> 'p outbox_row \<Rightarrow> string option \<Rightarrow>
   'p outbox_table \<times> circuits \<Rightarrow> finalize_error + ('p outbox_table \<times> circuits)" where
  "finalizeClaim cfg retryDelay now claim deliverErr s =
     (let (t, cs) = s; k = (en_TenantID claim, en_Destination claim)
      in if length (filter (holds_lease cfg claim) (ot_rows t)) \<noteq> 1 then Inl (LeaseLost (ob_id claim))
         else case deliverErr of
           Some err \<Rightarrow>
             Inr (t\<lparr>ot_rows := map (\<lambda>r. if holds_lease cfg claim r
                      then r\<lparr>ob_last_error := Some err,
                             ob_next_attempt_at := now + retryDelay (ob_attempts claim),
                             ob_status := (if oc_maxAttempts cfg \<le> ob_attempts claim then Failed else Pending),
                             ob_worker_id := None, ob_lease_until := None\<rparr>
                      else r) (ot_rows t)\<rparr>,
                  fst (recordCircuitFailure cfg k err now cs))
         | None \<Rightarrow>
             Inr (t\<lparr>ot_rows := map (\<lambda>r. if holds_lease cfg claim r
                      then r\<lparr>ob_status := Delivered, ob_delivered_at := Some now,
                             ob_last_error := None, ob_worker_id := None, ob_lease_until := None\<rparr>
                      else r) (ot_rows t)\<rparr>,
                  fst (recordCircuitSuccess cfg k now cs)))"

section \<open>Retry delay\<close>

abbreviation (input) second :: duration where "second \<equiv> 1000000000"
abbreviation (input) capDelay :: duration where "capDelay \<equiv> 300000000000"

text \<open>The loop of \<^verbatim>\<open>defaultOutboxBackoff\<close>: \<open>n\<close> iterations are left. Go's integer division truncates.\<close>

fun backoff_loop :: "nat \<Rightarrow> duration \<Rightarrow> duration" where
  "backoff_loop 0 delay = (if delay > capDelay then capDelay else delay)"
| "backoff_loop (Suc n) delay = (if delay \<ge> capDelay div 2 then capDelay else backoff_loop n (delay * 2))"

definition defaultOutboxBackoff :: "int \<Rightarrow> duration" where
  "defaultOutboxBackoff attempts =
     (if attempts \<le> 0 then second else backoff_loop (nat (attempts - 1)) second)"

text \<open>\<open>rnd\<close> is the value \<^verbatim>\<open>rand.Int63n(span + 1)\<close> draws: between 0 and \<open>span\<close>.\<close>

definition defaultOutboxJitter :: "(int \<Rightarrow> int) \<Rightarrow> duration \<Rightarrow> duration" where
  "defaultOutboxJitter rnd base =
     (if base \<le> 0 then 0
      else let floor = base div 2; span = base - floor
           in if span \<le> 0 then base else floor + rnd (span + 1))"

definition retryDelay :: "(int \<Rightarrow> duration) \<Rightarrow> (duration \<Rightarrow> duration) \<Rightarrow> int \<Rightarrow> duration" where
  "retryDelay backoff jitter attempts =
     (let base = backoff attempts
      in if base \<le> 0 then 0
         else let delay = jitter base
              in if delay < 0 then 0 else if delay > base then base else delay)"

section \<open>Retention sweep\<close>

definition Sweep :: "gotime \<Rightarrow> duration \<Rightarrow> 'p outbox_table \<Rightarrow> 'p outbox_table \<times> nat" where
  "Sweep now retention t =
     (let gone = (\<lambda>r. ob_status r = Delivered \<and>
                   (case ob_delivered_at r of None \<Rightarrow> False | Some d \<Rightarrow> d < now - retention))
      in (t\<lparr>ot_rows := filter (\<lambda>r. \<not> gone r) (ot_rows t)\<rparr>, length (filter gone (ot_rows t))))"

section \<open>Enqueueing\<close>

text \<open>
  What the orchestrator relies on when it enqueues a side effect: an insert-if-absent on a
  keyed table. The laws are discharged for \<^const>\<open>EnqueueIfAbsent\<close> below.
\<close>

locale idempotent_enqueue =
  fixes enq :: "'e \<Rightarrow> 't \<Rightarrow> 't \<times> bool"
    and key :: "'e \<Rightarrow> 'k"
    and has :: "'k \<Rightarrow> 't \<Rightarrow> bool"
  assumes enq_present: "has (key e) t \<Longrightarrow> enq e t = (t, False)"
    and enq_absent: "\<not> has (key e) t \<Longrightarrow> snd (enq e t)"
    and enq_has: "has k (fst (enq e t)) \<longleftrightarrow> k = key e \<or> has k t"
begin

lemma enq_inserted_iff: "snd (enq e t) \<longleftrightarrow> \<not> has (key e) t"
  using enq_present enq_absent by (metis snd_conv)

lemma enq_twice: "enq e (fst (enq e t)) = (fst (enq e t), False)"
  by (rule enq_present) (simp add: enq_has)

lemma enq_fold_has:
  "has k (fold (\<lambda>e u. fst (enq e u)) es t) \<longleftrightarrow> k \<in> key ` set es \<or> has k t"
  by (induction es arbitrary: t) (auto simp: enq_has)

lemma enq_fold_present:
  "(\<And>e. e \<in> set es \<Longrightarrow> has (key e) t) \<Longrightarrow> fold (\<lambda>e u. fst (enq e u)) es t = t"
  by (induction es) (auto simp: enq_present)

end

definition entry_key :: "'p entry \<Rightarrow> string \<times> string" where
  "entry_key e = (en_TenantID e, en_IdempotencyKey e)"

definition has_entry_key :: "string \<times> string \<Rightarrow> 'p outbox_table \<Rightarrow> bool" where
  "has_entry_key k t = has_key (fst k) (snd k) t"

lemma new_row_fields [simp]:
  "en_TenantID (new_row i now e) = en_TenantID e"
  "en_Destination (new_row i now e) = en_Destination e"
  "en_IdempotencyKey (new_row i now e) = en_IdempotencyKey e"
  "en_Payload (new_row i now e) = en_Payload e"
  "ob_id (new_row i now e) = i"
  "ob_status (new_row i now e) = Pending"
  "ob_delivered_at (new_row i now e) = None"
  by (simp_all add: new_row_def)

interpretation ob: idempotent_enqueue "EnqueueIfAbsent now" entry_key has_entry_key for now
  by unfold_locales
    (auto simp: EnqueueIfAbsent_def Enqueue_def has_entry_key_def has_key_def entry_key_def)

lemma EnqueueIfAbsent_rows:
  "ot_rows (fst (EnqueueIfAbsent now e t)) =
     (if has_entry_key (entry_key e) t then ot_rows t
      else ot_rows t @ [new_row (ot_next_id t) now e])"
  by (simp add: EnqueueIfAbsent_def Enqueue_def has_entry_key_def entry_key_def)

text \<open>No two rows of the table share a tenant and an idempotency key.\<close>

definition keys_unique :: "'p outbox_table \<Rightarrow> bool" where
  "keys_unique t = distinct (map (\<lambda>r. (en_TenantID r, en_IdempotencyKey r)) (ot_rows t))"

lemma keys_unique_EnqueueIfAbsent: "keys_unique t \<Longrightarrow> keys_unique (fst (EnqueueIfAbsent now e t))"
  by (auto simp: keys_unique_def EnqueueIfAbsent_rows has_entry_key_def has_key_def entry_key_def
      list_ex_iff)

section \<open>The table invariant\<close>

definition ids_wf :: "'p outbox_table \<Rightarrow> bool" where
  "ids_wf t = (distinct (map ob_id (ot_rows t)) \<and> (\<forall>r \<in> set (ot_rows t). ob_id r < ot_next_id t))"

lemma ids_wf_EnqueueIfAbsent: "ids_wf t \<Longrightarrow> ids_wf (fst (EnqueueIfAbsent now e t))"
  by (force simp: ids_wf_def EnqueueIfAbsent_def Enqueue_def)

lemma recover_lease_fields [simp]:
  "ob_id (recover_lease now r) = ob_id r"
  "en_TenantID (recover_lease now r) = en_TenantID r"
  "en_Destination (recover_lease now r) = en_Destination r"
  "en_IdempotencyKey (recover_lease now r) = en_IdempotencyKey r"
  by (auto simp: recover_lease_def split: option.splits)

lemma claim_row_fields [simp]:
  "ob_id (claim_row cfg now r) = ob_id r"
  "en_TenantID (claim_row cfg now r) = en_TenantID r"
  "en_Destination (claim_row cfg now r) = en_Destination r"
  "en_IdempotencyKey (claim_row cfg now r) = en_IdempotencyKey r"
  "ob_status (claim_row cfg now r) = Processing"
  by (auto simp: claim_row_def)

lemma ids_recover_leases [simp]: "map ob_id (recover_leases now rs) = map ob_id rs"
  by (simp add: recover_leases_def)

lemma first_row_in: "first_row rs = Some r \<Longrightarrow> r \<in> set rs"
  by (induction rs arbitrary: r) (auto split: option.splits if_splits)

lemma first_row_None: "first_row rs = None \<longleftrightarrow> rs = []"
  by (cases rs) (auto split: option.splits)

lemma first_row_least: "first_row rs = Some r \<Longrightarrow> s \<in> set rs \<Longrightarrow> \<not> row_before s r"
proof (induction rs arbitrary: r)
  case (Cons a rs)
  show ?case
  proof (cases "first_row rs")
    case None
    with Cons.prems show ?thesis by (auto simp: first_row_None row_before_def)
  next
    case (Some b)
    have b: "s \<in> set rs \<Longrightarrow> \<not> row_before s b" using Cons.IH Some by blast
    from Cons.prems Some have r: "r = (if row_before b a then b else a)" by simp
    show ?thesis
      using Cons.prems(2) b unfolding r by (auto simp: row_before_def split: if_splits)
  qed
qed simp

text \<open>What a successful claim establishes about the row it picked.\<close>

lemma claimOne_Some:
  assumes "claimOne cfg cutoff now sts sds (t, cs) = ((t', cs'), Some q)"
  obtains r cs1 blocked reserved where
    "reserveHalfOpenProbes cfg now cs = (cs1, blocked, reserved)"
    "r \<in> set (recover_leases now (ot_rows t))"
    "candidate cfg cutoff now sts sds (map circuit_key_string blocked) (recover_leases now (ot_rows t)) r"
    "q = claim_row cfg now r"
    "ot_rows t' = map (\<lambda>s. if ob_id s = ob_id r then claim_row cfg now s else s) (recover_leases now (ot_rows t))"
    "ot_next_id t' = ot_next_id t"
proof -
  obtain cs1 blocked reserved where pr: "reserveHalfOpenProbes cfg now cs = (cs1, blocked, reserved)"
    by (metis prod_cases3)
  with assms show ?thesis
    by (auto simp: claimOne_def Let_def split: option.splits dest!: first_row_in intro!: that [OF pr])
qed

lemma filter_update_unique:
  assumes "distinct (map ob_id rs)"
  shows "length (filter P (map (\<lambda>s. if ob_id s = i then f s else s) rs)) \<le> Suc (length (filter P rs))"
  using assms
proof (induction rs)
  case (Cons a rs)
  show ?case
  proof (cases "ob_id a = i")
    case True
    with Cons.prems have "ob_id s \<noteq> i" if "s \<in> set rs" for s
      using that by (metis distinct.simps(2) image_eqI list.set_map list.simps(9))
    then have "map (\<lambda>s. if ob_id s = i then f s else s) rs = rs"
      by (intro map_idI) simp
    with True show ?thesis by simp
  qed (use Cons in auto)
qed simp

section \<open>Properties\<close>

lemma backoff_loop_min: "0 < d \<Longrightarrow> backoff_loop n d = min (d * 2 ^ n) capDelay"
proof (induction n arbitrary: d)
  case (Suc n)
  show ?case
  proof (cases "capDelay div 2 \<le> d")
    case True
    then have "capDelay \<le> d * 2" by simp
    also have "\<dots> \<le> d * 2 ^ Suc n"
      using Suc.prems by simp
    finally show ?thesis using True by simp
  next
    case False
    then show ?thesis using Suc by (simp add: mult.assoc)
  qed
qed simp

text \<open>
  The default retry backoff is capped exponential: the loop of
  \<^verbatim>\<open>defaultOutboxBackoff\<close>, with its early exit, computes \<open>2 ^ (n - 1)\<close> seconds for the \<open>n\<close>-th
  attempt, cut off at five minutes, for every attempt count (one second for a non-positive one).
\<close>

theorem defaultOutboxBackoff_closed_form:
  "defaultOutboxBackoff attempts = min (second * 2 ^ nat (attempts - 1)) capDelay"
  by (simp add: defaultOutboxBackoff_def backoff_loop_min)

lemma defaultOutboxBackoff_le: "defaultOutboxBackoff attempts \<le> capDelay"
  by (simp add: defaultOutboxBackoff_def backoff_loop_min)

lemma retryDelay_le: "0 \<le> retryDelay backoff jitter n \<and> retryDelay backoff jitter n \<le> max 0 (backoff n)"
  by (auto simp: retryDelay_def Let_def)

text \<open>
  The delay before a retry never exceeds the base backoff and is never negative, whatever
  the jitter function returns, and it is at most five minutes with the default backoff.
\<close>

theorem retryDelay_bounds:
  "0 \<le> retryDelay backoff jitter n \<and> retryDelay backoff jitter n \<le> max 0 (backoff n)
   \<and> retryDelay defaultOutboxBackoff jitter n \<le> capDelay"
  using retryDelay_le [of backoff jitter n] retryDelay_le [of defaultOutboxBackoff jitter n]
    defaultOutboxBackoff_le [of n] by auto

lemma reserveHalfOpenProbes_blocked:
  assumes "reserveHalfOpenProbes cfg now cs = (cs1, blocked, reserved)"
    and "0 < oc_circuitFailureThreshold cfg" and "map_of cs k = Some c"
    and "ci_state c = CircuitHalfOpen \<or> ci_state c = CircuitOpen \<and> now < ci_openUntil c"
  shows "k \<in> set blocked"
proof -
  have "(k, c) \<in> set cs" using assms(3) by (rule map_of_SomeD)
  moreover have "fst (snd (reserve_probe now c))"
    using assms(4) by (auto simp: reserve_probe_def)
  ultimately show ?thesis
    using assms(1,2) by (force simp: reserveHalfOpenProbes_def)
qed

text \<open>
  A claim respects every admission rule of the dispatcher. The row it marks processing was
  due, belongs to no tenant and no destination already served in this round, has no older due row
  of the same tenant and destination before it, is not behind an open or probing circuit, and
  after the claim neither its destination nor its tenant has more live leases than the caps allow.
\<close>

theorem claimOne_admission:
  assumes "claimOne cfg cutoff now sts sds (t, cs) = ((t', cs'), Some q)" and "ids_wf t"
  shows "en_TenantID q \<notin> set sts \<and> en_Destination q \<notin> set sds
    \<and> in_flight_destination now (en_Destination q) (ot_rows t') \<le> oc_maxInFlightPerDestination cfg
    \<and> in_flight_tenant now (en_TenantID q) (ot_rows t') \<le> oc_maxInFlightPerTenant cfg
    \<and> (\<forall>old \<in> set (recover_leases now (ot_rows t)).
          due cutoff old \<and> en_TenantID old = en_TenantID q \<and> en_Destination old = en_Destination q
          \<longrightarrow> \<not> row_before old q)
    \<and> (0 < oc_circuitFailureThreshold cfg \<longrightarrow>
        (case map_of cs (en_TenantID q, en_Destination q) of
           None \<Rightarrow> True
         | Some c \<Rightarrow> ci_state c = CircuitClosed \<or> ci_state c = CircuitOpen \<and> ci_openUntil c \<le> now))"
proof -
  let ?rs = "recover_leases now (ot_rows t)"
  obtain r cs1 blocked reserved where
    pr: "reserveHalfOpenProbes cfg now cs = (cs1, blocked, reserved)" and
    "r \<in> set ?rs" and
    cand: "candidate cfg cutoff now sts sds (map circuit_key_string blocked) ?rs r" and
    q: "q = claim_row cfg now r" and
    rows: "ot_rows t' = map (\<lambda>s. if ob_id s = ob_id r then claim_row cfg now s else s) ?rs" and
    "ot_next_id t' = ot_next_id t"
    by (rule claimOne_Some [OF assms(1)])
  have dist: "distinct (map ob_id ?rs)" using assms(2) by (simp add: ids_wf_def)
  have flight:
    "in_flight_destination now d (ot_rows t') \<le> Suc (in_flight_destination now d ?rs)"
    "in_flight_tenant now tn (ot_rows t') \<le> Suc (in_flight_tenant now tn ?rs)" for d tn
    using filter_update_unique [OF dist]
    unfolding rows in_flight_destination_def in_flight_tenant_def by blast+
  have caps: "in_flight_destination now (en_Destination q) (ot_rows t') \<le> oc_maxInFlightPerDestination cfg"
    "in_flight_tenant now (en_TenantID q) (ot_rows t') \<le> oc_maxInFlightPerTenant cfg"
    using cand flight(1) [of "en_Destination r"] flight(2) [of "en_TenantID r"]
    by (auto simp: candidate_def q)
  have open_key: "(en_TenantID r, en_Destination r) \<notin> set blocked"
    using cand by (force simp: candidate_def)
  have circ: "ci_state c = CircuitClosed \<or> ci_state c = CircuitOpen \<and> ci_openUntil c \<le> now"
    if "0 < oc_circuitFailureThreshold cfg" "map_of cs (en_TenantID r, en_Destination r) = Some c" for c
    using reserveHalfOpenProbes_blocked [OF pr that] open_key by (cases "ci_state c") force+
  show ?thesis
    using cand caps circ
    by (auto simp: candidate_def q claim_row_def list_ex_iff row_before_def split: option.splits)
qed

definition witness_entry :: "string entry" where
  "witness_entry = \<lparr>en_TenantID = ''t1'', en_Destination = ''ca.issue'', en_IdempotencyKey = ''k'',
                    en_Payload = ''p''\<rparr>"

theorem claimOne_admission_witness:
  "\<exists>t' cs' q. claimOne (default_outbox_config ''w'') 5 5 [] []
       (fst (Enqueue 0 witness_entry empty_outbox), []) = ((t', cs'), Some q)
     \<and> ids_wf (fst (Enqueue 0 witness_entry empty_outbox))
     \<and> in_flight_destination 5 (en_Destination q) (ot_rows t') \<le> 1"
proof -
  let ?t = "fst (Enqueue 0 witness_entry empty_outbox)"
  have wf: "ids_wf ?t"
    by (simp add: ids_wf_def Enqueue_def empty_outbox_def)
  obtain t' cs' q where
    c: "claimOne (default_outbox_config ''w'') 5 5 [] [] (?t, []) = ((t', cs'), Some q)"
    by (simp add: claimOne_def reserveHalfOpenProbes_def recover_leases_def recover_lease_def
        Enqueue_def empty_outbox_def new_row_def witness_entry_def candidate_def due_def
        default_outbox_config_def in_flight_destination_def in_flight_tenant_def live_lease_def
        row_before_def circuit_key_string_def)
  from claimOne_admission [OF c wf] c wf show ?thesis
    by (auto simp: default_outbox_config_def)
qed

section \<open>No undelivered work is lost\<close>

text \<open>The steps of the outbox over time: any interleaving of producers, workers and the sweep.\<close>

inductive outbox_step ::
  "outbox_config \<Rightarrow> 'p outbox_table \<times> circuits \<Rightarrow> 'p outbox_table \<times> circuits \<Rightarrow> bool" for cfg where
  step_enqueue: "outbox_step cfg (t, cs) (fst (Enqueue now e t), cs)"
| step_enqueue_if_absent: "outbox_step cfg (t, cs) (fst (EnqueueIfAbsent now e t), cs)"
| step_claim: "outbox_step cfg s (fst (claimOne cfg cutoff now sts sds s))"
| step_finalize: "finalizeClaim cfg delay now claim err s = Inr s' \<Longrightarrow> outbox_step cfg s s'"
| step_sweep: "outbox_step cfg (t, cs) (fst (Sweep now retention t), cs)"

definition same_call :: "'p outbox_row \<Rightarrow> 'p outbox_row \<Rightarrow> bool" where
  "same_call r r' = (ob_id r' = ob_id r \<and> entry.truncate r' = entry.truncate r)"

lemma same_call_refl [simp]: "same_call r r"
  by (simp add: same_call_def)

lemma same_call_trans: "same_call a b \<Longrightarrow> same_call b c \<Longrightarrow> same_call a c"
  by (simp add: same_call_def)

lemma same_call_claim: "same_call r (claim_row cfg now (recover_lease now r))"
  by (auto simp: same_call_def claim_row_def recover_lease_def entry.truncate_def split: option.splits)

lemma same_call_recover: "same_call r (recover_lease now r)"
  by (auto simp: same_call_def recover_lease_def entry.truncate_def split: option.splits)

lemma claimOne_rows:
  "ot_rows (fst (fst (claimOne cfg cutoff now sts sds (t, cs)))) =
     (case snd (claimOne cfg cutoff now sts sds (t, cs)) of
        None \<Rightarrow> map (recover_lease now) (ot_rows t)
      | Some q \<Rightarrow> map (\<lambda>s. if ob_id s = ob_id q then claim_row cfg now (recover_lease now s)
                        else recover_lease now s) (ot_rows t))"
  by (auto simp: claimOne_def Let_def recover_leases_def split: prod.splits option.splits)

text \<open>Claims and finalizations rewrite rows in place and keep the call each row stands for.\<close>

lemma same_call_map:
  "(\<And>x. same_call x (f x)) \<Longrightarrow> rows' = map f rows \<Longrightarrow> r \<in> set rows \<Longrightarrow> \<exists>r' \<in> set rows'. same_call r r'"
  by (metis image_eqI list.set_map)

lemma claimOne_same_calls:
  obtains f where "\<And>x. same_call x (f x)"
    and "ot_rows (fst (fst (claimOne cfg cutoff now sts sds (t, cs)))) = map f (ot_rows t)"
proof (cases "snd (claimOne cfg cutoff now sts sds (t, cs))")
  case None
  show ?thesis by (rule that [of "recover_lease now"]) (simp_all add: same_call_recover None claimOne_rows)
next
  case (Some q)
  show ?thesis
    by (rule that [of "\<lambda>x. if ob_id x = ob_id q then claim_row cfg now (recover_lease now x)
          else recover_lease now x"])
      (simp_all add: same_call_recover same_call_claim Some claimOne_rows)
qed

lemma finalizeClaim_same_calls:
  assumes "finalizeClaim cfg delay now claim err (t, cs) = Inr s'"
  obtains f where "\<And>x. same_call x (f x)" and "ot_rows (fst s') = map f (ot_rows t)"
proof (cases err)
  case None
  with assms show ?thesis
    by (intro that [of "\<lambda>r. if holds_lease cfg claim r
          then r\<lparr>ob_status := Delivered, ob_delivered_at := Some now, ob_last_error := None,
                 ob_worker_id := None, ob_lease_until := None\<rparr> else r"])
      (auto simp: finalizeClaim_def Let_def same_call_def entry.truncate_def split: if_splits)
next
  case (Some e)
  with assms show ?thesis
    by (intro that [of "\<lambda>r. if holds_lease cfg claim r
          then r\<lparr>ob_last_error := Some e, ob_next_attempt_at := now + delay (ob_attempts claim),
                 ob_status := (if oc_maxAttempts cfg \<le> ob_attempts claim then Failed else Pending),
                 ob_worker_id := None, ob_lease_until := None\<rparr> else r"])
      (auto simp: finalizeClaim_def Let_def same_call_def entry.truncate_def split: if_splits)
qed

lemma outbox_step_keeps:
  assumes "outbox_step cfg s s'" and "r \<in> set (ot_rows (fst s))" and "ob_status r \<noteq> Delivered"
  shows "\<exists>r' \<in> set (ot_rows (fst s')). same_call r r'"
  using assms
proof (induction rule: outbox_step.induct)
  case (step_claim s cutoff now sts sds)
  obtain t cs where s: "s = (t, cs)" by (cases s)
  with step_claim show ?case
    using claimOne_same_calls [of cfg cutoff now sts sds t cs] same_call_map by (metis fst_conv)
next
  case (step_finalize delay now claim err s s')
  obtain t cs where s: "s = (t, cs)" by (cases s)
  from step_finalize show ?case
    using finalizeClaim_same_calls [of cfg delay now claim err t cs s'] same_call_map
    unfolding s by (metis fst_conv)
next
  case (step_enqueue t cs now e)
  then show ?case by (auto simp: Enqueue_def intro!: bexI [of _ r])
next
  case (step_enqueue_if_absent t cs now e)
  then show ?case by (auto simp: EnqueueIfAbsent_rows intro!: bexI [of _ r])
next
  case (step_sweep t cs now retention)
  then show ?case by (auto simp: Sweep_def Let_def intro!: bexI [of _ r])
qed

text \<open>C2: At-least-once delivery is not lost to bookkeeping. In any interleaving of enqueues, claims,
  lease recoveries, finalizations and retention sweeps, a call that is in the table stays in the
  table with the same id, tenant, destination, key and payload, unless at some point of the run it
  was marked delivered.
\<close>

theorem undelivered_never_lost:
  assumes "(outbox_step cfg)\<^sup>*\<^sup>* s s'" and "r \<in> set (ot_rows (fst s))"
  shows "(\<exists>r' \<in> set (ot_rows (fst s')). same_call r r')
    \<or> (\<exists>u r'. (outbox_step cfg)\<^sup>*\<^sup>* s u \<and> (outbox_step cfg)\<^sup>*\<^sup>* u s'
          \<and> r' \<in> set (ot_rows (fst u)) \<and> same_call r r' \<and> ob_status r' = Delivered)"
  using assms(1)
proof (induction rule: rtranclp_induct)
  case base
  with assms(2) show ?case by (auto intro!: bexI [of _ r])
next
  case (step v w)
  show ?case
  proof (cases "\<exists>r' \<in> set (ot_rows (fst v)). same_call r r'")
    case True
    then obtain r' where r': "r' \<in> set (ot_rows (fst v))" "same_call r r'" by blast
    show ?thesis
    proof (cases "ob_status r' = Delivered")
      case True
      with r' step.hyps show ?thesis by blast
    next
      case False
      with outbox_step_keeps [OF step.hyps(2) r'(1)] r'(2) show ?thesis
        by (blast intro: same_call_trans)
    qed
  next
    case False
    with step show ?thesis by (meson rtranclp.rtrancl_into_rtrancl)
  qed
qed

theorem undelivered_never_lost_witness:
  "\<exists>s :: string outbox_table \<times> circuits. \<exists>s' r. (outbox_step (default_outbox_config ''w''))\<^sup>*\<^sup>* s s'
     \<and> r \<in> set (ot_rows (fst s)) \<and> (\<exists>r' \<in> set (ot_rows (fst s')). same_call r r')"
proof -
  let ?cfg = "default_outbox_config ''w''"
  let ?t = "fst (Enqueue 0 witness_entry empty_outbox)"
  let ?r = "new_row 1 0 witness_entry"
  let ?s' = "fst (claimOne ?cfg 5 5 [] [] (?t, []))"
  have run: "(outbox_step ?cfg)\<^sup>*\<^sup>* (?t, []) ?s'" by (blast intro: step_claim)
  have mem: "?r \<in> set (ot_rows (fst (?t, [])))" by (simp add: Enqueue_def empty_outbox_def)
  have kept: "\<exists>r' \<in> set (ot_rows (fst ?s')). same_call ?r r'"
    by (rule outbox_step_keeps [OF step_claim mem]) simp
  from undelivered_never_lost [OF run mem] kept run mem show ?thesis by blast
qed

end
