(* ===== verification/Orchestrator.thy ===== *)
theory Orchestrator
  imports Lifecycle Outbox
begin

text \<open>
  The command side of the event-sourced spine (\<^verbatim>\<open>internal/orchestrator/orchestrator.go\<close>): a
  lifecycle transition appends an event to the log and then, in a second transaction, projects
  the new status and enqueues the side effect; \<^verbatim>\<open>ReconcileOutbox\<close> heals what a crash between the
  two lost. The two halves of \<^verbatim>\<open>transition\<close> are separate functions so that other requests and a
  crash can come between them.

  An event's JSON body is represented by the value it encodes; a body that does not decode as the
  type its reader expects is any other constructor. Body fields that are copied and never
  inspected are left out of the records below.
\<close>

section \<open>Events\<close>

record transitionPayload =
  tp_IdentityID :: string
  tp_From :: state_name
  tp_To :: state_name
  tp_Reason :: string
  tp_IdempotencyKey :: string

record ctSubmissionPayloadEnvelope =
  cte_SubmissionID :: string
  cte_EntryType :: string
  cte_IdempotencyKey :: string

record ResponseIntegrationDestination =
  rid_ID :: string
  rid_Provider :: string
  rid_Table :: string

datatype event_data =
    TransitionData transitionPayload
  | DiscoveryRunData string
  | RemediationData string
  | ResponseData "ResponseIntegrationDestination list"
  | CTQueuedData string "ctSubmissionPayloadEnvelope option list"
  | PQCStartedData "(string \<times> string) list"
  | OtherData string

record event =
  ev_ID :: string
  ev_Type :: string
  ev_TenantID :: string
  ev_Sequence :: nat
  ev_Time :: gotime
  ev_SchemaVersion :: int
  ev_Data :: event_data

text \<open>The body of an outbox row: the event's own data, caller-supplied bytes, or one element of the event's data.\<close>

datatype outbox_body =
    DataBody event_data
  | BytesBody bytes
  | ResponseBody string ResponseIntegrationDestination
  | CTBody ctSubmissionPayloadEnvelope
  | PQCBody string string

datatype orch_error =
    TypeRequired
  | TenantRequired
  | IdentityNotFound string
  | TransitionError string state_name state_name
  | TransformFailed
  | UnknownSchemaVersion string int nat
  | DecodeFailed string nat
  | InvalidCapability nat string
  | CTPayloadDecodeFailed nat
  | CTKeyFieldsRequired
  | ReissueFieldsRequired nat
  | UnsupportedTable string
  | UnsupportedProvider string

definition schemaVersionOf :: "event \<Rightarrow> int" where
  "schemaVersionOf e = (if ev_SchemaVersion e = 0 then 1 else ev_SchemaVersion e)"

text \<open>The rows of \<^verbatim>\<open>knownSchemaVersions\<close> for the event types this theory handles.\<close>

definition knownSchemaVersions :: "(string \<times> int list) list" where
  "knownSchemaVersions =
    [(''identity.issued'', [1, 2]), (''identity.deployed'', [1, 2]), (''identity.revoked'', [1, 2]),
     (''identity.renewing'', [1, 2]), (''identity.renewed'', [1, 2]), (''identity.retired'', [1, 2]),
     (''discovery.run.queued'', [1]), (''remediation.playbook_run.recorded'', [1]),
     (''response.integration.dispatched'', [1]), (''pqc.migration.started'', [1])]"

definition ValidateSchemaVersion :: "event \<Rightarrow> orch_error option" where
  "ValidateSchemaVersion e =
     (case map_of knownSchemaVersions (ev_Type e) of
        None \<Rightarrow> None
      | Some vs \<Rightarrow> if schemaVersionOf e \<in> set vs then None
                   else Some (UnknownSchemaVersion (ev_Type e) (schemaVersionOf e) (ev_Sequence e)))"

section \<open>State\<close>

record IdentityTransition =
  it_FromState :: state_name
  it_ToState :: state_name
  it_EventType :: string
  it_Reason :: string
  it_OccurredAt :: gotime

record orch =
  or_log :: "event list"
  or_identities :: "string \<times> string \<Rightarrow> state_name option"
  or_transitions :: "((string \<times> string \<times> nat) \<times> IdentityTransition) list"
  or_outbox :: "outbox_body outbox_table"
  or_checkpoint :: nat

definition last_seq :: "event list \<Rightarrow> nat" where
  "last_seq l = (if l = [] then 0 else ev_Sequence (last l))"

text \<open>\<^verbatim>\<open>Log.Append\<close>: \<open>i\<close> is the fresh id, \<open>now\<close> the append time.\<close>

definition append_event ::
  "string \<Rightarrow> gotime \<Rightarrow> string \<Rightarrow> string \<Rightarrow> int \<Rightarrow> event_data \<Rightarrow> event list \<Rightarrow> orch_error + (event list \<times> event)" where
  "append_event i now ty tn v d l =
     (if ty = '''' then Inl TypeRequired
      else if tn = '''' then Inl TenantRequired
      else let e = \<lparr>ev_ID = i, ev_Type = ty, ev_TenantID = tn, ev_Sequence = Suc (last_seq l),
                    ev_Time = now, ev_SchemaVersion = (if v = 0 then 1 else v), ev_Data = d\<rparr>
           in Inr (l @ [e], e))"

section \<open>Projection of a lifecycle event\<close>

definition SetIdentityStatusTx :: "string \<Rightarrow> string \<Rightarrow> state_name \<Rightarrow> orch \<Rightarrow> orch" where
  "SetIdentityStatusTx tn i s st =
     (if or_identities st (tn, i) = None then st
      else st\<lparr>or_identities := (or_identities st)((tn, i) \<mapsto> s)\<rparr>)"

fun upsert :: "'k \<Rightarrow> 'v \<Rightarrow> ('k \<times> 'v) list \<Rightarrow> ('k \<times> 'v) list" where
  "upsert k v [] = [(k, v)]"
| "upsert k v ((k', v') # xs) = (if k = k' then (k, v) # xs else (k', v') # upsert k v xs)"

definition AppendIdentityTransitionTx ::
  "string \<Rightarrow> string \<Rightarrow> nat \<Rightarrow> IdentityTransition \<Rightarrow> orch \<Rightarrow> orch" where
  "AppendIdentityTransitionTx tn i sq t st =
     st\<lparr>or_transitions := upsert (tn, i, sq) t (or_transitions st)\<rparr>"

text \<open>\<^verbatim>\<open>Projector.ApplyTx\<close> on a lifecycle event; its branches for other event types write other tables.\<close>

definition ApplyTx :: "event \<Rightarrow> orch \<Rightarrow> orch_error + orch" where
  "ApplyTx e st =
     (case ValidateSchemaVersion e of
        Some err \<Rightarrow> Inl err
      | None \<Rightarrow>
          if isLifecycleTransition (ev_Type e)
          then (case ev_Data e of
                  TransitionData pl \<Rightarrow>
                    Inr (AppendIdentityTransitionTx (ev_TenantID e) (tp_IdentityID pl) (ev_Sequence e)
                           \<lparr>it_FromState = tp_From pl, it_ToState = tp_To pl, it_EventType = ev_Type e,
                            it_Reason = tp_Reason pl, it_OccurredAt = ev_Time e\<rparr>
                           (SetIdentityStatusTx (ev_TenantID e) (tp_IdentityID pl) (tp_To pl) st))
                | _ \<Rightarrow> Inl (DecodeFailed (ev_Type e) (ev_Sequence e)))
          else Inr st)"

section \<open>Transition\<close>

definition transitionOutboxIdempotencyKey :: "string \<Rightarrow> string \<Rightarrow> string" where
  "transitionOutboxIdempotencyKey eventID requestKey =
     (let k = trim_space requestKey in if k = '''' then eventID else ''transition:'' @ k)"

record transition_request =
  tr_tenant :: string
  tr_identity :: string
  tr_to :: state_name
  tr_reason :: string
  tr_payload :: bytes
  tr_key :: string
  tr_transform :: "(string \<Rightarrow> string \<Rightarrow> string \<Rightarrow> bytes \<Rightarrow> bytes option) option"

type_synonym staged = "event \<times> outbox_body entry option"

text \<open>Up to the second transaction: the event is in the log, the effect is only in memory.\<close>

definition transition_begin ::
  "string \<Rightarrow> gotime \<Rightarrow> transition_request \<Rightarrow> orch \<Rightarrow> orch \<times> (orch_error + staged)" where
  "transition_begin newID now r st =
     (case or_identities st (tr_tenant r, tr_identity r) of
        None \<Rightarrow> (st, Inl (IdentityNotFound (tr_identity r)))
      | Some from \<Rightarrow>
     (case EventTypeFor from (tr_to r) of
        None \<Rightarrow> (st, Inl (TransitionError (tr_identity r) from (tr_to r)))
      | Some evType \<Rightarrow>
          let key = trim_space (tr_key r);
              data = TransitionData \<lparr>tp_IdentityID = tr_identity r, tp_From = from, tp_To = tr_to r,
                                     tp_Reason = tr_reason r, tp_IdempotencyKey = key\<rparr>;
              version = (if key \<noteq> '''' then 2 else 0)
          in case append_event newID now evType (tr_tenant r) version data (or_log st) of
               Inl err \<Rightarrow> (st, Inl err)
             | Inr (l, ev) \<Rightarrow>
                 let st1 = st\<lparr>or_log := l\<rparr>
                 in case sideEffectFor from (tr_to r) of
                      None \<Rightarrow> (st1, Inr (ev, None))
                    | Some dest \<Rightarrow>
                        let k = transitionOutboxIdempotencyKey (ev_ID ev) key;
                            staged = (\<lambda>b. (st1, Inr (ev, Some \<lparr>en_TenantID = tr_tenant r,
                                        en_Destination = dest, en_IdempotencyKey = k, en_Payload = b\<rparr>)))
                        in if tr_payload r = [] then staged (DataBody data)
                           else case tr_transform r of
                                  None \<Rightarrow> staged (BytesBody (tr_payload r))
                                | Some f \<Rightarrow>
                                    (case f (tr_tenant r) dest k (tr_payload r) of
                                       None \<Rightarrow> (st1, Inl TransformFailed)
                                     | Some b \<Rightarrow> staged (BytesBody b))))"

text \<open>The second transaction: project, then enqueue; an error rolls both back.\<close>

definition transition_commit :: "gotime \<Rightarrow> staged \<Rightarrow> orch \<Rightarrow> orch_error + orch" where
  "transition_commit now p st =
     (case ApplyTx (fst p) st of
        Inl err \<Rightarrow> Inl err
      | Inr st' \<Rightarrow>
          (case snd p of
             None \<Rightarrow> Inr st'
           | Some e \<Rightarrow> Inr (st'\<lparr>or_outbox := fst (EnqueueIfAbsent now e (or_outbox st'))\<rparr>)))"

definition transition ::
  "string \<Rightarrow> gotime \<Rightarrow> transition_request \<Rightarrow> orch \<Rightarrow> orch \<times> orch_error option" where
  "transition newID now r st =
     (case transition_begin newID now r st of
        (st1, Inl err) \<Rightarrow> (st1, Some err)
      | (st1, Inr p) \<Rightarrow>
          (case transition_commit now p st1 of
             Inl err \<Rightarrow> (st1, Some err)
           | Inr st2 \<Rightarrow> (st2, None)))"

definition History :: "orch \<Rightarrow> string \<Rightarrow> string \<Rightarrow> (nat \<times> IdentityTransition) list" where
  "History st tn i =
     sort_key fst (List.map_filter (\<lambda>((tn', i', sq), t). if tn' = tn \<and> i' = i then Some (sq, t) else None)
                     (or_transitions st))"

definition State :: "orch \<Rightarrow> string \<Rightarrow> string \<Rightarrow> state_name" where
  "State st tn i =
     (let h = History st tn i in if h = [] then StateRequested else it_ToState (snd (last h)))"

section \<open>Reconciliation\<close>

definition ctSubmissionOutboxKey :: "ctSubmissionPayloadEnvelope \<Rightarrow> orch_error + string" where
  "ctSubmissionOutboxKey p =
     (if cte_SubmissionID p = '''' \<or> cte_EntryType p = '''' \<or> cte_IdempotencyKey p = ''''
      then Inl CTKeyFieldsRequired
      else Inr (''ct.submit:'' @ cte_IdempotencyKey p @ '':'' @ cte_EntryType p @ '':'' @ cte_SubmissionID p))"

definition NormalizeServiceNowTable :: "string \<Rightarrow> string option" where
  "NormalizeServiceNowTable table =
     (let t = to_lower (trim_space table)
      in if t = '''' \<or> t = ''incident'' then Some ''incident''
         else if t = ''change_request'' then Some ''change_request''
         else if t = ''sc_task'' then Some ''sc_task''
         else None)"

definition responseIntegrationOutboxPayload ::
  "ResponseIntegrationDestination \<Rightarrow> orch_error + (string \<times> outbox_body)" where
  "responseIntegrationOutboxPayload dst =
     (if rid_Provider dst = ''splunk'' then Inr (''response.splunk'', ResponseBody ''response.splunk'' dst)
      else if rid_Provider dst = ''jira'' then Inr (''response.jira'', ResponseBody ''response.jira'' dst)
      else if rid_Provider dst = ''slack'' then Inr (''notification.response'', ResponseBody ''notification.response'' dst)
      else if rid_Provider dst = ''servicenow''
      then (case NormalizeServiceNowTable (rid_Table dst) of
              None \<Rightarrow> Inl (UnsupportedTable (rid_Table dst))
            | Some t \<Rightarrow> Inr (''itsm.servicenow'', ResponseBody ''itsm.servicenow'' (dst\<lparr>rid_Table := t\<rparr>)))
      else Inl (UnsupportedProvider (rid_Provider dst)))"

text \<open>A loop that enqueues one entry per element and stops at the first error.\<close>

fun collect :: "('a \<Rightarrow> orch_error + 'e) \<Rightarrow> 'a list \<Rightarrow> 'e list \<times> orch_error option" where
  "collect f [] = ([], None)"
| "collect f (x # xs) =
     (case f x of
        Inl err \<Rightarrow> ([], Some err)
      | Inr e \<Rightarrow> (e # fst (collect f xs), snd (collect f xs)))"

text \<open>
  What one replayed event asks \<^verbatim>\<open>ReconcileOutbox\<close> to enqueue, in order, and the error that ends it,
  if any: the branches of the replay callback.
\<close>

definition reconcile_effects :: "event \<Rightarrow> outbox_body entry list \<times> orch_error option" where
  "reconcile_effects ev =
     (let tn = ev_TenantID ev; ty = ev_Type ev;
          entry = (\<lambda>dest k b. \<lparr>en_TenantID = tn, en_Destination = dest, en_IdempotencyKey = k, en_Payload = b\<rparr>);
          own = (\<lambda>dest. ([entry dest (ev_ID ev) (DataBody (ev_Data ev))], None));
          bad = ([], Some (DecodeFailed ty (ev_Sequence ev)))
      in if ty = ''itsm.ticket.requested'' then own ''itsm.servicenow''
         else if ty = ''ct.submission.queued''
         then (case ev_Data ev of
                 CTQueuedData cap ps \<Rightarrow>
                   if cap \<noteq> '''' \<and> cap \<noteq> ''CAP-REV-06'' then ([], Some (InvalidCapability (ev_Sequence ev) cap))
                   else collect (\<lambda>p. case p of
                            None \<Rightarrow> Inl (CTPayloadDecodeFailed (ev_Sequence ev))
                          | Some p \<Rightarrow> (case ctSubmissionOutboxKey p of
                                         Inl err \<Rightarrow> Inl err
                                       | Inr k \<Rightarrow> Inr (entry ''ct.submit'' k (CTBody p)))) ps
               | _ \<Rightarrow> bad)
         else if ty \<in> {''discovery.run.queued'', ''remediation.playbook_run.recorded'',
                        ''response.integration.dispatched'', ''pqc.migration.started''}
                 \<or> isLifecycleTransition ty
         then (case ValidateSchemaVersion ev of
                 Some err \<Rightarrow> ([], Some err)
               | None \<Rightarrow>
                   if ty = ''discovery.run.queued''
                   then (case ev_Data ev of DiscoveryRunData _ \<Rightarrow> own ''discovery.run'' | _ \<Rightarrow> bad)
                   else if ty = ''remediation.playbook_run.recorded''
                   then (case ev_Data ev of
                           RemediationData action \<Rightarrow>
                             if action \<noteq> ''right_size'' then ([], None) else own ''connector.right_size''
                         | _ \<Rightarrow> bad)
                   else if ty = ''response.integration.dispatched''
                   then (case ev_Data ev of
                           ResponseData dsts \<Rightarrow>
                             collect (\<lambda>dst. case responseIntegrationOutboxPayload dst of
                                 Inl err \<Rightarrow> Inl err
                               | Inr (d, b) \<Rightarrow> Inr (entry d (ev_ID ev @ '':'' @ rid_ID dst) b)) dsts
                         | _ \<Rightarrow> bad)
                   else if ty = ''pqc.migration.started''
                   then (case ev_Data ev of
                           PQCStartedData rs \<Rightarrow>
                             collect (\<lambda>(run, asset).
                                 if run = '''' \<or> asset = '''' then Inl (ReissueFieldsRequired (ev_Sequence ev))
                                 else Inr (entry ''pqc.migration.reissue''
                                             (''pqc-migration:'' @ run @ '':'' @ asset) (PQCBody run asset))) rs
                         | _ \<Rightarrow> bad)
                   else (case ev_Data ev of
                           TransitionData pl \<Rightarrow>
                             (case sideEffectFor (tp_From pl) (tp_To pl) of
                                None \<Rightarrow> ([], None)
                              | Some dest \<Rightarrow>
                                  ([entry dest (transitionOutboxIdempotencyKey (ev_ID ev) (tp_IdempotencyKey pl))
                                      (DataBody (ev_Data ev))], None))
                         | _ \<Rightarrow> bad))
         else ([], None))"

text \<open>The enqueues of one transaction, and how many of them inserted a row.\<close>

fun enqueue_all ::
  "gotime \<Rightarrow> 'p entry list \<Rightarrow> 'p outbox_table \<Rightarrow> 'p outbox_table \<times> nat" where
  "enqueue_all now [] t = (t, 0)"
| "enqueue_all now (e # es) t =
     (let (t1, ins) = EnqueueIfAbsent now e t; (t2, n) = enqueue_all now es t1
      in (t2, (if ins then 1 else 0) + n))"

type_synonym reconcile_state = "outbox_body outbox_table \<times> nat \<times> nat"

definition reconcile_event ::
  "gotime \<Rightarrow> event \<Rightarrow> reconcile_state \<Rightarrow> reconcile_state \<times> orch_error option" where
  "reconcile_event now ev s =
     (let (t, cp, healed) = s; (es, err) = reconcile_effects ev; (t', n) = enqueue_all now es t
      in case err of
           Some e \<Rightarrow> ((t, cp, healed + n), Some e)
         | None \<Rightarrow> ((t', max cp (ev_Sequence ev), healed + n), None))"

fun reconcile_loop ::
  "gotime \<Rightarrow> event list \<Rightarrow> reconcile_state \<Rightarrow> reconcile_state \<times> orch_error option" where
  "reconcile_loop now [] s = (s, None)"
| "reconcile_loop now (ev # evs) s =
     (case reconcile_event now ev s of
        (s', None) \<Rightarrow> reconcile_loop now evs s'
      | (s', Some err) \<Rightarrow> (s', Some err))"

definition ReconcileOutbox :: "gotime \<Rightarrow> orch \<Rightarrow> orch \<times> nat \<times> orch_error option" where
  "ReconcileOutbox now st =
     (let ((t, cp, healed), err) =
            reconcile_loop now (filter (\<lambda>ev. or_checkpoint st + 1 \<le> ev_Sequence ev) (or_log st))
              (or_outbox st, or_checkpoint st, 0)
      in (st\<lparr>or_outbox := t, or_checkpoint := cp\<rparr>, healed, err))"

section \<open>Keys of the table\<close>

definition keys_of :: "'p outbox_table \<Rightarrow> (string \<times> string) list" where
  "keys_of t = map (\<lambda>r. (en_TenantID r, en_IdempotencyKey r)) (ot_rows t)"

lemma has_entry_key_keys_of: "has_entry_key k t \<longleftrightarrow> k \<in> set (keys_of t)"
  by (cases k) (auto simp: has_entry_key_def has_key_def keys_of_def list_ex_iff image_iff)

lemma keys_unique_keys_of: "keys_unique t \<longleftrightarrow> distinct (keys_of t)"
  by (simp add: keys_unique_def keys_of_def)

lemma same_call_key:
  "same_call a b \<Longrightarrow> en_TenantID b = en_TenantID a \<and> en_IdempotencyKey b = en_IdempotencyKey a"
  by (simp add: same_call_def entry.truncate_def)

lemma keys_of_same_calls:
  "(\<And>x. same_call x (f x)) \<Longrightarrow> ot_rows t' = map f (ot_rows t) \<Longrightarrow> keys_of t' = keys_of t"
  by (simp add: keys_of_def same_call_key)

lemma keys_of_claimOne: "keys_of (fst (fst (claimOne cfg cutoff now sts sds (t, cs)))) = keys_of t"
  by (rule claimOne_same_calls [of cfg cutoff now sts sds t cs]) (rule keys_of_same_calls)

lemma keys_of_finalizeClaim:
  "finalizeClaim cfg delay now claim err (t, cs) = Inr s' \<Longrightarrow> keys_of (fst s') = keys_of t"
  by (rule finalizeClaim_same_calls) (assumption, rule keys_of_same_calls)

lemma enqueue_all_fold:
  "fst (enqueue_all now es t) = fold (\<lambda>e u. fst (EnqueueIfAbsent now e u)) es t"
  by (induction es arbitrary: t) (simp_all add: Let_def split_beta)

lemma enqueue_all_has:
  "has_entry_key k (fst (enqueue_all now es t)) \<longleftrightarrow> k \<in> entry_key ` set es \<or> has_entry_key k t"
  by (simp add: enqueue_all_fold ob.enq_fold_has)

lemma enqueue_all_present:
  "(\<And>e. e \<in> set es \<Longrightarrow> has_entry_key (entry_key e) t) \<Longrightarrow> enqueue_all now es t = (t, 0)"
  by (induction es) (simp_all add: ob.enq_present)

lemma enqueue_all_unique: "keys_unique t \<Longrightarrow> keys_unique (fst (enqueue_all now es t))"
  unfolding enqueue_all_fold by (induction es arbitrary: t) (simp_all add: keys_unique_EnqueueIfAbsent)

text \<open>With unique keys, a key that is present is on exactly one row.\<close>

lemma unique_key_once:
  assumes "keys_unique t" and "has_key tn k t"
  shows "length (filter (\<lambda>r. en_TenantID r = tn \<and> en_IdempotencyKey r = k) (ot_rows t)) = 1"
proof -
  let ?P = "\<lambda>r. en_TenantID r = tn \<and> en_IdempotencyKey r = k"
  have "distinct (map (\<lambda>r. (en_TenantID r, en_IdempotencyKey r)) (filter ?P (ot_rows t)))"
    using assms(1) by (simp add: keys_unique_def distinct_map_filter)
  then have "length (filter ?P (ot_rows t)) \<le> card {(tn, k)}"
    using distinct_length_le_card [of _ "{(tn, k)}"] by fastforce
  then have "length (filter ?P (ot_rows t)) \<le> 1" by simp
  moreover from assms(2) have "filter ?P (ot_rows t) \<noteq> []"
    by (auto simp: has_key_def list_ex_iff filter_empty_conv)
  ultimately show ?thesis by (simp add: le_Suc_eq)
qed

section \<open>What reconciliation does\<close>

lemma reconcile_loop_ok:
  assumes "\<And>ev. ev \<in> set evs \<Longrightarrow> snd (reconcile_effects ev) = None"
  obtains t' h' where
    "reconcile_loop now evs (t, cp, h) = ((t', fold max (map ev_Sequence evs) cp, h'), None)"
    "\<And>k. has_entry_key k t' \<longleftrightarrow>
       has_entry_key k t \<or> (\<exists>ev \<in> set evs. k \<in> entry_key ` set (fst (reconcile_effects ev)))"
    "keys_unique t \<Longrightarrow> keys_unique t'"
  using assms
proof (induction evs arbitrary: t cp h thesis)
  case Nil
  then show ?case by simp
next
  case (Cons ev evs)
  let ?es = "fst (reconcile_effects ev)"
  let ?t = "fst (enqueue_all now ?es t)" and ?n = "snd (enqueue_all now ?es t)"
  have step: "reconcile_event now ev (t, cp, h) = ((?t, max cp (ev_Sequence ev), h + ?n), None)"
    using Cons.prems(2) [of ev]
    by (simp add: reconcile_event_def Let_def split_beta)
  show ?case
  proof (rule Cons.IH [of ?t "max cp (ev_Sequence ev)" "h + ?n"])
    fix t' h'
    assume ih: "reconcile_loop now evs (?t, max cp (ev_Sequence ev), h + ?n)
        = ((t', fold max (map ev_Sequence evs) (max cp (ev_Sequence ev)), h'), None)"
      "\<And>k. has_entry_key k t' \<longleftrightarrow>
         has_entry_key k ?t \<or> (\<exists>ev \<in> set evs. k \<in> entry_key ` set (fst (reconcile_effects ev)))"
      "keys_unique ?t \<Longrightarrow> keys_unique t'"
    show thesis
    proof (rule Cons.prems(1))
      show "reconcile_loop now (ev # evs) (t, cp, h)
          = ((t', fold max (map ev_Sequence (ev # evs)) cp, h'), None)"
        using step ih(1) by (simp add: max.commute)
    next
      show "has_entry_key k t' \<longleftrightarrow> has_entry_key k t \<or>
          (\<exists>ev \<in> set (ev # evs). k \<in> entry_key ` set (fst (reconcile_effects ev)))" for k
        unfolding ih(2) enqueue_all_has by auto
    next
      show "keys_unique t'" if "keys_unique t"
        using ih(3) that enqueue_all_unique by blast
    qed
  qed (use Cons.prems(2) in simp)
qed

lemma fold_max_ge: "(x :: nat) \<le> fold max xs x"
proof (induction xs arbitrary: x)
  case (Cons a xs)
  show ?case using Cons [of "max a x"] by simp
qed simp

lemma fold_max_member: "y \<in> set xs \<Longrightarrow> y \<le> fold max xs (x :: nat)"
proof (induction xs arbitrary: x)
  case (Cons a xs)
  then show ?case using fold_max_ge [of "max a x" xs] by auto
qed simp

lemma fold_max_le: "(\<And>y. y \<in> set xs \<Longrightarrow> y \<le> b) \<Longrightarrow> x \<le> b \<Longrightarrow> fold max xs (x :: nat) \<le> b"
  by (induction xs arbitrary: x) simp_all

section \<open>Crashes, interleavings and reconciliation\<close>

lemma EventTypeFor_names:
  "EventTypeFor from to = Some ty \<Longrightarrow>
     ty \<in> {''identity.issued'', ''identity.deployed'', ''identity.revoked'', ''identity.renewing'',
            ''identity.renewed'', ''identity.retired''}"
  by (auto simp: EventTypeFor_def transitionEvents_def split: if_splits)

text \<open>What a begun transition leaves in the log, and that reconciliation would enqueue the same call.\<close>

lemma transition_event_effects:
  assumes "EventTypeFor from to = Some (ev_Type ev)" and "ev_SchemaVersion ev \<in> {1, 2}"
    and "ev_Data ev = TransitionData pl" and "tp_From pl = from" and "tp_To pl = to"
  shows "reconcile_effects ev =
    (case sideEffectFor from to of
       None \<Rightarrow> ([], None)
     | Some dest \<Rightarrow>
         ([\<lparr>en_TenantID = ev_TenantID ev, en_Destination = dest,
            en_IdempotencyKey = transitionOutboxIdempotencyKey (ev_ID ev) (tp_IdempotencyKey pl),
            en_Payload = DataBody (ev_Data ev)\<rparr>], None))"
proof -
  have "ValidateSchemaVersion ev = None"
    using EventTypeFor_names [OF assms(1)] assms(2)
    by (auto simp: ValidateSchemaVersion_def knownSchemaVersions_def schemaVersionOf_def)
  then show ?thesis
    using EventTypeFor_names [OF assms(1)] EventTypeFor_lifecycle [OF assms(1)] assms(3-5)
    by (auto simp: reconcile_effects_def Let_def split: option.splits)
qed

text \<open>The call an entry or a row stands for, without its payload.\<close>

definition call_of :: "('p, 'x) entry_scheme \<Rightarrow> string \<times> string \<times> string" where
  "call_of e = (en_TenantID e, en_Destination e, en_IdempotencyKey e)"

lemma transition_begin_cases:
  assumes "transition_begin newID now r st = (st', res)"
  obtains (rejected) err where "st' = st" "res = Inl err"
  | (appended) ev frm pl where
      "or_identities st (tr_tenant r, tr_identity r) = Some frm"
      "EventTypeFor frm (tr_to r) = Some (ev_Type ev)"
      "st' = st\<lparr>or_log := or_log st @ [ev]\<rparr>"
      "ev_Sequence ev = Suc (last_seq (or_log st))" "ev_TenantID ev = tr_tenant r"
      "ev_SchemaVersion ev \<in> {1, 2}" "ev_Data ev = TransitionData pl"
      "pl = \<lparr>tp_IdentityID = tr_identity r, tp_From = frm, tp_To = tr_to r, tp_Reason = tr_reason r,
             tp_IdempotencyKey = trim_space (tr_key r)\<rparr>"
      "res = Inl TransformFailed \<or> (\<exists>eo. res = Inr (ev, eo) \<and>
         map_option call_of eo = map_option (\<lambda>d. (tr_tenant r, d,
           transitionOutboxIdempotencyKey newID (trim_space (tr_key r)))) (sideEffectFor frm (tr_to r)))"
      "ev_ID ev = newID"
proof (cases "or_identities st (tr_tenant r, tr_identity r)")
  case None
  with assms show ?thesis by (intro rejected) (auto simp: transition_begin_def)
next
  case (Some frm)
  show ?thesis
  proof (cases "EventTypeFor frm (tr_to r)")
    case None
    with Some assms show ?thesis by (intro rejected) (auto simp: transition_begin_def)
  next
    case ty: (Some ty)
    show ?thesis
    proof (cases "tr_tenant r = ''''")
      case True
      with Some ty assms show ?thesis
        using EventTypeFor_names [OF ty]
        by (intro rejected [of TenantRequired]) (auto simp: transition_begin_def append_event_def Let_def)
    next
      case False
      let ?pl = "\<lparr>tp_IdentityID = tr_identity r, tp_From = frm, tp_To = tr_to r,
          tp_Reason = tr_reason r, tp_IdempotencyKey = trim_space (tr_key r)\<rparr>"
      let ?ev = "\<lparr>ev_ID = newID, ev_Type = ty, ev_TenantID = tr_tenant r,
          ev_Sequence = Suc (last_seq (or_log st)), ev_Time = now,
          ev_SchemaVersion = (if trim_space (tr_key r) \<noteq> '''' then 2 else 1),
          ev_Data = TransitionData ?pl\<rparr>"
      have "ty \<noteq> ''''" using EventTypeFor_names [OF ty] by auto
      with False Some ty assms show ?thesis
        by (intro appended [of frm ?ev ?pl])
          (auto simp: transition_begin_def append_event_def Let_def call_of_def
            split: option.splits if_splits)
    qed
  qed
qed

record system =
  sy_orch :: orch
  sy_circuits :: circuits
  sy_inflight :: "staged list"
  sy_accepted :: "staged list"
  sy_swept :: "(string \<times> string) set"

text \<open>
  One step of the running system: a request begins or commits, the process crashes and loses what
  it had staged, another event is appended, the boot pass reconciles, an outbox worker claims or
  finalizes a row, the retention sweep deletes old delivered rows. Two fields only record history:
  \<open>sy_accepted\<close> what every accepted request staged, \<open>sy_swept\<close> the keys of the rows that were swept.
\<close>

inductive sys_step :: "outbox_config \<Rightarrow> system \<Rightarrow> system \<Rightarrow> bool" for cfg where
  sys_begin: "transition_begin newID now r (sy_orch s) = (st', Inr p) \<Longrightarrow>
     sys_step cfg s (s\<lparr>sy_orch := st', sy_inflight := p # sy_inflight s, sy_accepted := p # sy_accepted s\<rparr>)"
| sys_begin_failed: "transition_begin newID now r (sy_orch s) = (st', Inl err) \<Longrightarrow>
     sys_step cfg s (s\<lparr>sy_orch := st'\<rparr>)"
| sys_commit: "p \<in> set (sy_inflight s) \<Longrightarrow> transition_commit now p (sy_orch s) = Inr st' \<Longrightarrow>
     sys_step cfg s (s\<lparr>sy_orch := st', sy_inflight := remove1 p (sy_inflight s)\<rparr>)"
| sys_crash: "sys_step cfg s (s\<lparr>sy_circuits := [], sy_inflight := []\<rparr>)"
| sys_other: "append_event newID now ty tn v d (or_log (sy_orch s)) = Inr (l, ev) \<Longrightarrow>
     reconcile_effects ev = ([], None) \<Longrightarrow>
     sys_step cfg s (s\<lparr>sy_orch := (sy_orch s)\<lparr>or_log := l\<rparr>\<rparr>)"
| sys_reconcile: "ReconcileOutbox now (sy_orch s) = (st', healed, err) \<Longrightarrow>
     sys_step cfg s (s\<lparr>sy_orch := st'\<rparr>)"
| sys_claim: "claimOne cfg cutoff now sts sds (or_outbox (sy_orch s), sy_circuits s) = ((t', cs'), q) \<Longrightarrow>
     sys_step cfg s (s\<lparr>sy_orch := (sy_orch s)\<lparr>or_outbox := t'\<rparr>, sy_circuits := cs'\<rparr>)"
| sys_finalize: "finalizeClaim cfg delay now claim e (or_outbox (sy_orch s), sy_circuits s) = Inr (t', cs') \<Longrightarrow>
     sys_step cfg s (s\<lparr>sy_orch := (sy_orch s)\<lparr>or_outbox := t'\<rparr>, sy_circuits := cs'\<rparr>)"
| sys_sweep: "Sweep now retention (or_outbox (sy_orch s)) = (t', n) \<Longrightarrow>
     sys_step cfg s (s\<lparr>sy_orch := (sy_orch s)\<lparr>or_outbox := t'\<rparr>,
       sy_swept := sy_swept s \<union> (set (keys_of (or_outbox (sy_orch s))) - set (keys_of t'))\<rparr>)"

definition init_orch :: "(string \<times> string \<Rightarrow> state_name option) \<Rightarrow> orch" where
  "init_orch ids = \<lparr>or_log = [], or_identities = ids, or_transitions = [], or_outbox = empty_outbox,
                    or_checkpoint = 0\<rparr>"

definition init_system :: "(string \<times> string \<Rightarrow> state_name option) \<Rightarrow> system" where
  "init_system ids = \<lparr>sy_orch = init_orch ids, sy_circuits = [], sy_inflight = [], sy_accepted = [], sy_swept = {}\<rparr>"

definition demanded :: "event list \<Rightarrow> (string \<times> string) set" where
  "demanded evs = (\<Union>ev \<in> set evs. entry_key ` set (fst (reconcile_effects ev)))"

text \<open>\<open>X\<close> are the keys of rows that were swept.\<close>

definition orch_inv :: "(string \<times> string) set \<Rightarrow> orch \<Rightarrow> bool" where
  "orch_inv X st =
     ((\<forall>ev \<in> set (or_log st). snd (reconcile_effects ev) = None \<and> ev_Sequence ev \<le> last_seq (or_log st))
      \<and> or_checkpoint st \<le> last_seq (or_log st)
      \<and> keys_unique (or_outbox st)
      \<and> demanded (filter (\<lambda>ev. ev_Sequence ev \<le> or_checkpoint st) (or_log st))
          \<subseteq> {k. has_entry_key k (or_outbox st)} \<union> X)"

lemma orch_inv_append:
  assumes "orch_inv X st" and "snd (reconcile_effects ev) = None" and "ev_Sequence ev = Suc (last_seq (or_log st))"
  shows "orch_inv X (st\<lparr>or_log := or_log st @ [ev]\<rparr>)"
proof -
  have "last_seq (or_log st @ [ev]) = Suc (last_seq (or_log st))"
    using assms(3) by (simp add: last_seq_def)
  with assms show ?thesis by (fastforce simp: orch_inv_def)
qed

lemma orch_inv_outbox:
  assumes "orch_inv X st" and "keys_unique t'"
    and "\<And>k. has_entry_key k (or_outbox st) \<Longrightarrow> has_entry_key k t'"
  shows "orch_inv X (st\<lparr>or_outbox := t'\<rparr>)"
  using assms by (auto simp: orch_inv_def)

lemma orch_inv_keys_of:
  "orch_inv X st \<Longrightarrow> keys_of t' = keys_of (or_outbox st) \<Longrightarrow> orch_inv X (st\<lparr>or_outbox := t'\<rparr>)"
  by (rule orch_inv_outbox) (auto simp: orch_inv_def keys_unique_keys_of has_entry_key_keys_of)

lemma orch_inv_irrelevant [simp]:
  "orch_inv X (st\<lparr>or_identities := x\<rparr>) = orch_inv X st" "orch_inv X (st\<lparr>or_transitions := y\<rparr>) = orch_inv X st"
  by (simp_all add: orch_inv_def)

lemma ApplyTx_inv: "ApplyTx e st = Inr st' \<Longrightarrow> orch_inv X st' = orch_inv X st \<and> or_outbox st' = or_outbox st"
  by (auto simp: ApplyTx_def AppendIdentityTransitionTx_def SetIdentityStatusTx_def
      split: option.splits if_splits event_data.splits)

lemma transition_commit_inv:
  assumes "transition_commit now p st = Inr st'" and "orch_inv X st"
  shows "orch_inv X st'"
proof -
  from assms(1) obtain st1 where st1: "ApplyTx (fst p) st = Inr st1"
    by (auto simp: transition_commit_def split: sum.splits)
  with assms(2) have inv: "orch_inv X st1" by (simp add: ApplyTx_inv)
  show ?thesis
  proof (cases "snd p")
    case None
    with st1 assms(1) inv show ?thesis by (simp add: transition_commit_def)
  next
    case (Some e)
    have "orch_inv X (st1\<lparr>or_outbox := fst (EnqueueIfAbsent now e (or_outbox st1))\<rparr>)"
      using inv by (intro orch_inv_outbox) (auto simp: orch_inv_def keys_unique_EnqueueIfAbsent ob.enq_has)
    with Some st1 assms(1) show ?thesis by (simp add: transition_commit_def)
  qed
qed

text \<open>What the boot pass establishes from a state that satisfies the invariant.\<close>

lemma ReconcileOutbox_inv:
  assumes "orch_inv X st"
  obtains t' h where
    "ReconcileOutbox now st = (st\<lparr>or_outbox := t', or_checkpoint := last_seq (or_log st)\<rparr>, h, None)"
    "keys_unique t'" "demanded (or_log st) \<subseteq> {k. has_entry_key k t'} \<union> X"
    "\<And>k. has_entry_key k (or_outbox st) \<Longrightarrow> has_entry_key k t'"
proof -
  let ?evs = "filter (\<lambda>ev. or_checkpoint st + 1 \<le> ev_Sequence ev) (or_log st)"
  have ok: "snd (reconcile_effects ev) = None" if "ev \<in> set ?evs" for ev
    using assms that by (simp add: orch_inv_def)
  obtain t' h where r:
    "reconcile_loop now ?evs (or_outbox st, or_checkpoint st, 0)
       = ((t', fold max (map ev_Sequence ?evs) (or_checkpoint st), h), None)"
    "\<And>k. has_entry_key k t' \<longleftrightarrow> has_entry_key k (or_outbox st) \<or>
       (\<exists>ev \<in> set ?evs. k \<in> entry_key ` set (fst (reconcile_effects ev)))"
    "keys_unique (or_outbox st) \<Longrightarrow> keys_unique t'"
    using reconcile_loop_ok [of ?evs now "or_outbox st" "or_checkpoint st" 0] ok by metis
  have cp: "fold max (map ev_Sequence ?evs) (or_checkpoint st) = last_seq (or_log st)" (is "?cp = _")
  proof (rule antisym)
    show "?cp \<le> last_seq (or_log st)"
      using assms by (intro fold_max_le) (auto simp: orch_inv_def)
    show "last_seq (or_log st) \<le> ?cp"
    proof (cases "last_seq (or_log st) \<le> or_checkpoint st")
      case True
      then show ?thesis using fold_max_ge by (rule le_trans)
    next
      case False
      then have "last (or_log st) \<in> set ?evs" "last_seq (or_log st) = ev_Sequence (last (or_log st))"
        by (auto simp: last_seq_def split: if_splits)
      then show ?thesis by (auto intro!: fold_max_member)
    qed
  qed
  have "demanded (or_log st) \<subseteq> {k. has_entry_key k t'} \<union> X"
  proof
    fix k
    assume "k \<in> demanded (or_log st)"
    then obtain ev where ev: "ev \<in> set (or_log st)" "k \<in> entry_key ` set (fst (reconcile_effects ev))"
      by (auto simp: demanded_def)
    show "k \<in> {k. has_entry_key k t'} \<union> X"
    proof (cases "ev_Sequence ev \<le> or_checkpoint st")
      case True
      with ev assms have "has_entry_key k (or_outbox st) \<or> k \<in> X"
        unfolding orch_inv_def demanded_def by fastforce
      then show ?thesis by (auto simp: r(2))
    next
      case False
      with ev show ?thesis by (force simp: r(2))
    qed
  qed
  moreover have "keys_unique t'" using assms r(3) by (simp add: orch_inv_def)
  ultimately show ?thesis
    using r(1,2) cp by (intro that [of t' h]) (auto simp: ReconcileOutbox_def)
qed

lemma ReconcileOutbox_log: "or_log (fst (ReconcileOutbox now st)) = or_log st"
  by (simp add: ReconcileOutbox_def Let_def split_beta)

lemma orch_inv_Sweep:
  assumes "orch_inv X st" and "Sweep now retention (or_outbox st) = (t', n)"
  shows "orch_inv (X \<union> (set (keys_of (or_outbox st)) - set (keys_of t'))) (st\<lparr>or_outbox := t'\<rparr>)"
proof -
  have "keys_unique t'"
    using assms by (auto simp: orch_inv_def Sweep_def Let_def keys_unique_def distinct_map_filter)
  with assms(1) show ?thesis by (auto simp: orch_inv_def has_entry_key_keys_of)
qed

lemma sys_step_inv: "sys_step cfg s s' \<Longrightarrow> orch_inv (sy_swept s) (sy_orch s) \<Longrightarrow> orch_inv (sy_swept s') (sy_orch s')"
proof (induction rule: sys_step.induct)
  case (sys_begin newID now r s st' p)
  from sys_begin(1) show ?case
    by (cases rule: transition_begin_cases)
      (auto simp: sys_begin(2) transition_event_effects split: option.splits intro!: orch_inv_append)
next
  case (sys_begin_failed newID now r s st' err)
  from sys_begin_failed(1) show ?case
    by (cases rule: transition_begin_cases)
      (auto simp: sys_begin_failed(2) transition_event_effects split: option.splits intro!: orch_inv_append)
next
  case (sys_commit p s now st')
  then show ?case by (auto intro: transition_commit_inv)
next
  case (sys_other newID now ty tn v d s l ev)
  then show ?case
    by (auto simp: append_event_def Let_def split: if_splits intro!: orch_inv_append)
next
  case (sys_reconcile now s st' healed err)
  show ?case
    by (rule ReconcileOutbox_inv [OF sys_reconcile(2), of now])
      (use sys_reconcile in \<open>auto simp: orch_inv_def\<close>)
next
  case (sys_claim cutoff now sts sds s t' cs' q)
  then show ?case
    using keys_of_claimOne [of cfg cutoff now sts sds "or_outbox (sy_orch s)" "sy_circuits s"]
    by (auto intro: orch_inv_keys_of)
next
  case (sys_finalize delay now claim e s t' cs')
  then show ?case
    by (auto intro!: orch_inv_keys_of dest: keys_of_finalizeClaim)
next
  case (sys_sweep now retention s t' n)
  then show ?case by (simp add: orch_inv_Sweep)
qed simp

text \<open>
  What a recorded transition asks for, read off the table of side effects: one call to the destination
  of the edge, under the key of the request if it carried one and else under the id of the event.
\<close>

definition asks :: "event \<Rightarrow> string \<times> string \<times> string \<Rightarrow> bool" where
  "asks ev c =
     (isLifecycleTransition (ev_Type ev) \<and> (case ev_Data ev of
        TransitionData pl \<Rightarrow>
          (case sideEffectFor (tp_From pl) (tp_To pl) of
             None \<Rightarrow> False
           | Some dest \<Rightarrow>
               c = (ev_TenantID ev, dest,
                    if trim_space (tp_IdempotencyKey pl) = '''' then ev_ID ev else ''transition:'' @ trim_space (tp_IdempotencyKey pl)))
      | _ \<Rightarrow> False))"

definition calls :: "'p outbox_table \<Rightarrow> (string \<times> string \<times> string) set" where
  "calls t = call_of ` set (ot_rows t)"

lemma calls_EnqueueIfAbsent: "calls (fst (EnqueueIfAbsent now e t)) \<subseteq> insert (call_of e) (calls t)"
  by (auto simp: calls_def EnqueueIfAbsent_rows new_row_def call_of_def)

lemma calls_enqueue_all: "calls (fst (enqueue_all now es t)) \<subseteq> call_of ` set es \<union> calls t"
proof (induction es arbitrary: t)
  case (Cons e es)
  show ?case
    using Cons [of "fst (EnqueueIfAbsent now e t)"] calls_EnqueueIfAbsent [of now e t] by (auto simp: Let_def split_beta)
qed simp

lemma calls_reconcile_loop:
  "reconcile_loop now evs (t, cp, h) = ((t', cp', h'), err) \<Longrightarrow>
     calls t' \<subseteq> calls t \<union> (\<Union>ev \<in> set evs. call_of ` set (fst (reconcile_effects ev)))"
proof (induction evs arbitrary: t cp h)
  case (Cons ev evs)
  obtain t1 cp1 h1 e1 where r: "reconcile_event now ev (t, cp, h) = ((t1, cp1, h1), e1)" by (metis surj_pair)
  then have "calls t1 \<subseteq> calls t \<union> call_of ` set (fst (reconcile_effects ev))"
    using calls_enqueue_all [of now "fst (reconcile_effects ev)" t] by (auto simp: reconcile_event_def Let_def split_beta split: option.splits)
  with r Cons.prems Cons.IH [of t1 cp1 h1] show ?case by (fastforce split: option.splits)
qed simp

lemma calls_ReconcileOutbox:
  "calls (or_outbox (fst (ReconcileOutbox now st)))
     \<subseteq> calls (or_outbox st) \<union> (\<Union>ev \<in> set (or_log st). call_of ` set (fst (reconcile_effects ev)))"
proof -
  obtain t cp h err where r: "reconcile_loop now (filter (\<lambda>ev. or_checkpoint st + 1 \<le> ev_Sequence ev) (or_log st))
      (or_outbox st, or_checkpoint st, 0) = ((t, cp, h), err)" by (metis surj_pair)
  then have "or_outbox (fst (ReconcileOutbox now st)) = t" by (simp add: ReconcileOutbox_def)
  with calls_reconcile_loop [OF r] show ?thesis by auto
qed

lemma calls_same: "(\<And>x. same_call x (f x)) \<Longrightarrow> ot_rows t' = map f (ot_rows t) \<Longrightarrow> calls t' = calls t"
  by (simp add: calls_def image_image call_of_def same_call_def entry.truncate_def)

lemma calls_claimOne: "calls (fst (fst (claimOne cfg cutoff now sts sds (t, cs)))) = calls t"
  by (rule claimOne_same_calls [of cfg cutoff now sts sds t cs]) (rule calls_same)

lemma calls_finalizeClaim: "finalizeClaim cfg delay now claim err (t, cs) = Inr s' \<Longrightarrow> calls (fst s') = calls t"
  by (rule finalizeClaim_same_calls) (assumption, rule calls_same)

lemma lifecycle_names:
  "isLifecycleTransition ty \<Longrightarrow> ty \<notin> {''itsm.ticket.requested'', ''ct.submission.queued'', ''discovery.run.queued'', ''remediation.playbook_run.recorded'',
     ''response.integration.dispatched'', ''pqc.migration.started''}"
  by (auto simp: isLifecycleTransition_def transitionEvents_def)

lemma effectless_asks: "reconcile_effects ev = ([], None) \<Longrightarrow> \<not> asks ev c"
  using lifecycle_names [of "ev_Type ev"]
  by (auto simp: asks_def reconcile_effects_def Let_def split: event_data.splits option.splits)

lemma transition_asks:
  assumes "EventTypeFor from to = Some (ev_Type ev)" and "ev_SchemaVersion ev \<in> {1, 2}"
    and "ev_Data ev = TransitionData pl" and "tp_From pl = from" and "tp_To pl = to"
  shows "call_of ` set (fst (reconcile_effects ev)) = {c. asks ev c}"
  using EventTypeFor_lifecycle [OF assms(1)] assms(3-5)
  by (auto simp: transition_event_effects [OF assms] asks_def call_of_def transitionOutboxIdempotencyKey_def Let_def split: option.splits)

text \<open>The log asks for exactly what replaying it enqueues, and every staged call and every row is asked for.\<close>

definition sys_asked :: "system \<Rightarrow> bool" where
  "sys_asked s =
     ((\<forall>ev \<in> set (or_log (sy_orch s)). call_of ` set (fst (reconcile_effects ev)) = {c. asks ev c})
      \<and> (\<forall>p \<in> set (sy_inflight s) \<union> set (sy_accepted s). \<forall>e. snd p = Some e \<longrightarrow> (\<exists>ev \<in> set (or_log (sy_orch s)). asks ev (call_of e)))
      \<and> (\<forall>c \<in> calls (or_outbox (sy_orch s)). \<exists>ev \<in> set (or_log (sy_orch s)). asks ev c))"

lemma begun_asks:
  assumes "transition_begin newID now r st = (st', Inr (ev, Some e))"
  shows "asks ev (call_of e)"
  using assms
proof (cases rule: transition_begin_cases)
  case (appended ev' frm pl)
  with EventTypeFor_lifecycle [OF appended(2)] show ?thesis
    by (cases "sideEffectFor frm (tr_to r)") (auto simp: asks_def transitionOutboxIdempotencyKey_def trim_space_idem Let_def)
qed simp

lemma sys_asked_append:
  assumes "sys_asked s" and "call_of ` set (fst (reconcile_effects ev)) = {c. asks ev c}"
  shows "sys_asked (s\<lparr>sy_orch := (sy_orch s)\<lparr>or_log := or_log (sy_orch s) @ [ev]\<rparr>\<rparr>)"
  using assms unfolding sys_asked_def by auto

lemma commit_asked:
  assumes "transition_commit now p st = Inr st'"
  shows "or_log st' = or_log st" and "calls (or_outbox st') \<subseteq> calls (or_outbox st) \<union> {call_of e |e. snd p = Some e}"
proof -
  obtain st1 where st1: "ApplyTx (fst p) st = Inr st1" using assms by (auto simp: transition_commit_def split: sum.splits)
  then have same: "or_log st1 = or_log st" "or_outbox st1 = or_outbox st"
    by (auto simp: ApplyTx_def AppendIdentityTransitionTx_def SetIdentityStatusTx_def split: option.splits if_splits event_data.splits)
  with st1 assms show "or_log st' = or_log st" by (auto simp: transition_commit_def split: option.splits)
  from same st1 assms calls_EnqueueIfAbsent [of now _ "or_outbox st"]
  show "calls (or_outbox st') \<subseteq> calls (or_outbox st) \<union> {call_of e |e. snd p = Some e}"
    by (fastforce simp: transition_commit_def split: option.splits)
qed

lemma sys_step_asked: "sys_step cfg s s' \<Longrightarrow> sys_asked s \<Longrightarrow> sys_asked s'"
proof (induction rule: sys_step.induct)
  case (sys_begin newID now r s st' p)
  from sys_begin(1) show ?case
  proof (cases rule: transition_begin_cases)
    case (appended ev frm pl)
    have ask: "asks (fst p) (call_of e)" if "snd p = Some e" for e
      using begun_asks [of newID now r "sy_orch s" st' "fst p" e] sys_begin(1) that by (cases p) simp
    have "call_of ` set (fst (reconcile_effects ev)) = {c. asks ev c}"
      using appended by (intro transition_asks [of frm "tr_to r" ev pl]) simp_all
    from sys_asked_append [OF sys_begin(2) this] ask appended show ?thesis
      by (auto simp: sys_asked_def)
  qed simp
next
  case (sys_begin_failed newID now r s st' err)
  from sys_begin_failed(1) show ?case
  proof (cases rule: transition_begin_cases)
    case (appended ev frm pl)
    have "call_of ` set (fst (reconcile_effects ev)) = {c. asks ev c}"
      using appended by (intro transition_asks [of frm "tr_to r" ev pl]) simp_all
    from sys_asked_append [OF sys_begin_failed(2) this] appended show ?thesis by simp
  qed (use sys_begin_failed(2) in simp)
next
  case (sys_commit p s now st')
  have "set (remove1 p (sy_inflight s)) \<subseteq> set (sy_inflight s)" by (rule set_remove1_subset)
  moreover have "calls (or_outbox st') \<subseteq> calls (or_outbox (sy_orch s)) \<union> {call_of e |e. snd p = Some e}" and log: "or_log st' = or_log (sy_orch s)"
    by (rule commit_asked [OF sys_commit(2)])+
  moreover have "\<exists>ev \<in> set (or_log (sy_orch s)). asks ev (call_of e)" if "snd p = Some e" for e
    using sys_commit(1,3) that unfolding sys_asked_def by blast
  ultimately have "\<forall>c \<in> calls (or_outbox st'). \<exists>ev \<in> set (or_log (sy_orch s)). asks ev c"
    using sys_commit(3) unfolding sys_asked_def by blast
  with sys_commit(3) \<open>set (remove1 p (sy_inflight s)) \<subseteq> set (sy_inflight s)\<close> log show ?case
    unfolding sys_asked_def by auto
next
  case (sys_other newID now ty tn v d s l ev)
  have "call_of ` set (fst (reconcile_effects ev)) = {c. asks ev c}"
    using effectless_asks [OF sys_other(2)] sys_other(2) by simp
  from sys_asked_append [OF sys_other(3) this] sys_other(1) show ?case
    by (auto simp: append_event_def Let_def split: if_splits)
next
  case (sys_reconcile now s st' healed err)
  have "calls (or_outbox st') \<subseteq> calls (or_outbox (sy_orch s)) \<union> (\<Union>ev \<in> set (or_log (sy_orch s)). call_of ` set (fst (reconcile_effects ev)))"
    using calls_ReconcileOutbox [of now "sy_orch s"] sys_reconcile(1) by simp
  moreover have log: "or_log st' = or_log (sy_orch s)" using ReconcileOutbox_log [of now "sy_orch s"] sys_reconcile(1) by simp
  moreover have "(\<Union>ev \<in> set (or_log (sy_orch s)). call_of ` set (fst (reconcile_effects ev))) = (\<Union>ev \<in> set (or_log (sy_orch s)). {c. asks ev c})"
    using sys_reconcile(2) by (simp add: sys_asked_def)
  ultimately have "calls (or_outbox st') \<subseteq> calls (or_outbox (sy_orch s)) \<union> (\<Union>ev \<in> set (or_log (sy_orch s)). {c. asks ev c})" by simp
  moreover have "calls (or_outbox (sy_orch s)) \<subseteq> (\<Union>ev \<in> set (or_log (sy_orch s)). {c. asks ev c})"
    using sys_reconcile(2) by (auto simp: sys_asked_def)
  ultimately have "\<forall>c \<in> calls (or_outbox st'). \<exists>ev \<in> set (or_log (sy_orch s)). asks ev c" by blast
  with sys_reconcile(2) log show ?case unfolding sys_asked_def by simp
next
  case (sys_claim cutoff now sts sds s t' cs' q)
  then show ?case
    using calls_claimOne [of cfg cutoff now sts sds "or_outbox (sy_orch s)" "sy_circuits s"] by (simp add: sys_asked_def)
next
  case (sys_finalize delay now claim e s t' cs')
  then show ?case by (auto simp: sys_asked_def dest: calls_finalizeClaim)
next
  case (sys_sweep now retention s t' n)
  then have "calls t' \<subseteq> calls (or_outbox (sy_orch s))" by (auto simp: Sweep_def Let_def calls_def)
  with sys_sweep(2) show ?case by (auto simp: sys_asked_def)
qed (auto simp: sys_asked_def)

lemma reachable_inv:
  assumes "(sys_step cfg)\<^sup>*\<^sup>* (init_system ids) s"
  shows "orch_inv (sy_swept s) (sy_orch s) \<and> sys_asked s"
  using assms
proof (induction rule: rtranclp_induct)
  case base
  show ?case
    by (simp add: init_system_def init_orch_def orch_inv_def empty_outbox_def keys_unique_def demanded_def sys_asked_def calls_def)
qed (auto intro: sys_step_inv sys_step_asked)

definition rows_for :: "string \<Rightarrow> string \<Rightarrow> 'p outbox_table \<Rightarrow> 'p outbox_row list" where
  "rows_for tn k t = filter (\<lambda>r. en_TenantID r = tn \<and> en_IdempotencyKey r = k) (ot_rows t)"

lemma rows_for_unique: "keys_unique t \<Longrightarrow> length (rows_for tn k t) \<le> 1"
  using unique_key_once [of t tn k] unfolding rows_for_def
  by (cases "has_key tn k t") (auto simp: has_key_def list_ex_iff filter_empty_conv)

lemma demanded_asks:
  assumes "sys_asked s" and "ev \<in> set (or_log (sy_orch s))" and "asks ev (tn, dest, k)"
  shows "(tn, k) \<in> demanded (or_log (sy_orch s))"
proof -
  from assms obtain e where "e \<in> set (fst (reconcile_effects ev))" "call_of e = (tn, dest, k)"
    unfolding sys_asked_def by (metis (mono_tags, lifting) imageE mem_Collect_eq)
  then have "(tn, k) \<in> entry_key ` set (fst (reconcile_effects ev))" by (force simp: call_of_def entry_key_def)
  with assms(2) show ?thesis by (auto simp: demanded_def)
qed


definition demo_ids :: "string \<times> string \<Rightarrow> state_name option" where
  "demo_ids = [(''t1'', ''id1'') \<mapsto> StateRequested]"

definition demo_request :: "state_name \<Rightarrow> string \<Rightarrow> transition_request" where
  "demo_request s k = \<lparr>tr_tenant = ''t1'', tr_identity = ''id1'', tr_to = s, tr_reason = '''', tr_payload = [],
                       tr_key = k, tr_transform = None\<rparr>"

lemmas transition_eval =
  transition_begin_def transition_commit_def append_event_def last_seq_def ApplyTx_def
  AppendIdentityTransitionTx_def SetIdentityStatusTx_def ValidateSchemaVersion_def
  knownSchemaVersions_def schemaVersionOf_def EventTypeFor_def transitionEvents_def
  sideEffectFor_def sideEffects_def isLifecycleTransition_def state_names
  transitionOutboxIdempotencyKey_def demo_request_def trim_space_def trim_func_def is_space_def Let_def


section \<open>Limits of the guarantee\<close>

text \<open>Delivery and retention of the only row of a log with one issued identity, and a later boot.\<close>

definition demo_after_issue :: orch where
  "demo_after_issue = fst (transition ''e1'' 1 (demo_request StateIssued '''') (init_orch demo_ids))"

definition demo_delivered :: "outbox_body outbox_table" where
  "demo_delivered =
     (let (s, q) = claimOne (default_outbox_config ''w'') 2 2 [] [] (or_outbox demo_after_issue, [])
      in case q of
           None \<Rightarrow> fst s
         | Some c \<Rightarrow> (case finalizeClaim (default_outbox_config ''w'') (\<lambda>_. 0) 3 c None s of
                         Inl _ \<Rightarrow> fst s | Inr s' \<Rightarrow> fst s'))"

lemma demo_after_issue_eval:
  "demo_after_issue = \<lparr>
     or_log = [\<lparr>ev_ID = ''e1'', ev_Type = ''identity.issued'', ev_TenantID = ''t1'', ev_Sequence = 1,
               ev_Time = 1, ev_SchemaVersion = 1,
               ev_Data = TransitionData \<lparr>tp_IdentityID = ''id1'', tp_From = StateRequested,
                 tp_To = StateIssued, tp_Reason = '''', tp_IdempotencyKey = ''''\<rparr>\<rparr>],
     or_identities = [(''t1'', ''id1'') \<mapsto> StateIssued],
     or_transitions = [((''t1'', ''id1'', 1), \<lparr>it_FromState = StateRequested, it_ToState = StateIssued,
        it_EventType = ''identity.issued'', it_Reason = '''', it_OccurredAt = 1\<rparr>)],
     or_outbox = \<lparr>ot_rows = [new_row 1 1 \<lparr>en_TenantID = ''t1'', en_Destination = ''ca.issue'',
        en_IdempotencyKey = ''e1'',
        en_Payload = DataBody (TransitionData \<lparr>tp_IdentityID = ''id1'', tp_From = StateRequested,
                 tp_To = StateIssued, tp_Reason = '''', tp_IdempotencyKey = ''''\<rparr>)\<rparr>], ot_next_id = 2\<rparr>,
     or_checkpoint = 0\<rparr>"
  by (simp add: demo_after_issue_def transition_def transition_eval init_orch_def demo_ids_def
      EnqueueIfAbsent_def Enqueue_def has_key_def empty_outbox_def)

lemma demo_delivered_eval:
  "ot_rows demo_delivered = map (\<lambda>r. r\<lparr>ob_status := Delivered, ob_attempts := 1,
     ob_delivered_at := Some 3\<rparr>) (ot_rows (or_outbox demo_after_issue))"
  by (simp add: demo_delivered_def demo_after_issue_eval claimOne_def reserveHalfOpenProbes_def
      recover_leases_def recover_lease_def new_row_def candidate_def due_def default_outbox_config_def
      in_flight_destination_def in_flight_tenant_def live_lease_def row_before_def circuit_key_string_def
      claim_row_def finalizeClaim_def holds_lease_def Let_def)

text \<open>
  Retention and reconciliation together deliver a side effect twice. An identity is issued
  without any crash, its call is delivered, the retention sweep deletes the delivered row, and the
  next boot pass, whose checkpoint has not moved since the last boot, enqueues the same call again
  as a pending row.
\<close>

theorem sweep_then_reconcile_redelivers:
  "(\<exists>r \<in> set (ot_rows demo_delivered). en_IdempotencyKey r = ''e1'' \<and> ob_status r = Delivered)
   \<and> (let swept = fst (Sweep (4 + 24 * hour) (24 * hour) demo_delivered);
          (st', healed, err) = ReconcileOutbox 9 (demo_after_issue\<lparr>or_outbox := swept\<rparr>)
      in healed = 1 \<and> err = None
         \<and> (\<exists>r \<in> set (ot_rows (or_outbox st')). en_IdempotencyKey r = ''e1'' \<and> ob_status r = Pending))"
  using demo_delivered_eval
  by (simp add: demo_after_issue_eval Sweep_def Let_def ReconcileOutbox_def reconcile_event_def
      reconcile_effects_def EnqueueIfAbsent_def Enqueue_def has_key_def transition_eval new_row_def)

text \<open>
  Two concurrent requests can undo a revocation. When a revoke and a deploy of the same issued
  identity both read the status before either commits, both events are appended, both commits
  succeed, and the identity ends as deployed although its revocation was recorded first.
\<close>

theorem concurrent_transitions_undo_revocation:
  "\<exists>st1 p1 st2 p2 st3 st4.
     transition_begin ''e2'' 2 (demo_request StateRevoked '''') demo_after_issue = (st1, Inr p1)
     \<and> transition_begin ''e3'' 3 (demo_request StateDeployed '''') st1 = (st2, Inr p2)
     \<and> transition_commit 4 p1 st2 = Inr st3 \<and> or_identities st3 (''t1'', ''id1'') = Some StateRevoked
     \<and> transition_commit 5 p2 st3 = Inr st4 \<and> or_identities st4 (''t1'', ''id1'') = Some StateDeployed
     \<and> map ev_Type (or_log st4) = [''identity.issued'', ''identity.revoked'', ''identity.deployed'']
     \<and> \<not> CanTransition StateRevoked StateDeployed"
  by (simp add: demo_after_issue_eval transition_eval CanTransition_def)

text \<open>
  A transition that reuses a request key changes the state but loses its effect. When the
  tenant already has an outbox row for the request's idempotency key, whatever destination that
  row is for, the transition succeeds, sets the new status, and leaves the outbox as it was.
\<close>

theorem reused_request_key_drops_effect:
  assumes "or_identities st (tr_tenant r, tr_identity r) = Some frm"
    and "CanTransition frm (tr_to r)" and "tr_tenant r \<noteq> ''''" and "tr_transform r = None"
    and "trim_space (tr_key r) \<noteq> ''''"
    and "has_key (tr_tenant r) (''transition:'' @ trim_space (tr_key r)) (or_outbox st)"
  shows "\<exists>st'. transition newID now r st = (st', None)
    \<and> or_identities st' (tr_tenant r, tr_identity r) = Some (tr_to r) \<and> or_outbox st' = or_outbox st"
proof -
  from assms(2) obtain ty where ty: "EventTypeFor frm (tr_to r) = Some ty"
    by (auto simp: CanTransition_EventTypeFor)
  have valid: "map_of knownSchemaVersions ty = Some [1, 2]" "ty \<noteq> ''''"
    using EventTypeFor_names [OF ty] by (auto simp: knownSchemaVersions_def)
  have "EnqueueIfAbsent now \<lparr>en_TenantID = tr_tenant r, en_Destination = d,
      en_IdempotencyKey = transitionOutboxIdempotencyKey newID (trim_space (tr_key r)), en_Payload = b\<rparr>
      (or_outbox st) = (or_outbox st, False)" for d b
    using assms(5,6) by (simp add: EnqueueIfAbsent_def transitionOutboxIdempotencyKey_def)
  then show ?thesis
    using assms(1,3-5) ty valid EventTypeFor_lifecycle [OF ty]
    by (auto simp: transition_def transition_begin_def append_event_def transition_commit_def ApplyTx_def
        ValidateSchemaVersion_def schemaVersionOf_def AppendIdentityTransitionTx_def
        SetIdentityStatusTx_def Let_def split: option.splits)
qed

theorem reused_request_key_drops_effect_witness:
  "\<exists>st. has_key ''t1'' ''transition:k'' (or_outbox st)
     \<and> (\<exists>st'. transition ''e2'' 2 (demo_request StateRevoked ''k'') st = (st', None)
          \<and> or_identities st' (''t1'', ''id1'') = Some StateRevoked \<and> or_outbox st' = or_outbox st)"
proof -
  let ?st = "fst (transition ''e1'' 1 (demo_request StateIssued ''k'') (init_orch demo_ids))"
  have k: "has_key ''t1'' ''transition:k'' (or_outbox ?st)"
    and i: "or_identities ?st (''t1'', ''id1'') = Some StateIssued"
    by (simp_all add: transition_def transition_eval init_orch_def demo_ids_def
        EnqueueIfAbsent_def Enqueue_def has_key_def empty_outbox_def)
  have "\<exists>st'. transition ''e2'' 2 (demo_request StateRevoked ''k'') ?st = (st', None)
      \<and> or_identities st' (tr_tenant (demo_request StateRevoked ''k''), tr_identity (demo_request StateRevoked ''k''))
          = Some (tr_to (demo_request StateRevoked ''k'')) \<and> or_outbox st' = or_outbox ?st"
    by (rule reused_request_key_drops_effect [where frm = StateIssued])
      (use k i in \<open>simp_all add: demo_request_def trim_space_def trim_func_def is_space_def CanTransition_iff\<close>)
  with k show ?thesis by (auto simp: demo_request_def)
qed

section \<open>Serial requests follow the state machine\<close>

lemma upsert_fresh: "k \<notin> fst ` set xs \<Longrightarrow> upsert k v xs = xs @ [(k, v)]"
  by (induction k v xs rule: upsert.induct) auto

definition raw_history :: "orch \<Rightarrow> string \<Rightarrow> string \<Rightarrow> (nat \<times> IdentityTransition) list" where
  "raw_history st tn i =
     List.map_filter (\<lambda>((tn', i', sq), t). if tn' = tn \<and> i' = i then Some (sq, t) else None)
       (or_transitions st)"

definition serial_inv :: "orch \<Rightarrow> bool" where
  "serial_inv st =
     ((\<forall>x \<in> fst ` set (or_transitions st). snd (snd x) \<le> last_seq (or_log st))
      \<and> (\<forall>tn i. sorted (map fst (raw_history st tn i)))
      \<and> (\<forall>tn i s. or_identities st (tn, i) = Some s \<longrightarrow>
           lifecycle_path StateRequested (map (it_ToState \<circ> snd) (raw_history st tn i)) s))"

lemma raw_history_seq:
  "x \<in> set (raw_history st tn i) \<Longrightarrow> \<exists>y \<in> fst ` set (or_transitions st). snd (snd y) = fst x"
  by (force simp: raw_history_def List.map_filter_def split: if_splits)

lemma serial_inv_History: "serial_inv st \<Longrightarrow> History st tn i = raw_history st tn i"
  unfolding History_def raw_history_def [symmetric]
  by (rule sort_key_id_if_sorted) (simp add: serial_inv_def)

lemma lifecycle_path_last:
  "lifecycle_path s ts u \<Longrightarrow> u = (if ts = [] then s else last ts)"
  by (induction rule: lifecycle_path.induct) auto

lemma serial_inv_project:
  assumes "serial_inv st" and "or_identities st (tn, i) = Some frm" and "CanTransition frm (it_ToState t)"
    and "sq = Suc (last_seq (or_log st))" and "last_seq l = sq"
  shows "serial_inv (st\<lparr>or_log := l, or_identities := (or_identities st)((tn, i) \<mapsto> it_ToState t),
           or_transitions := upsert (tn, i, sq) t (or_transitions st), or_outbox := ob, or_checkpoint := cp\<rparr>)"
    (is "serial_inv ?st'")
proof -
  have "(tn, i, sq) \<notin> fst ` set (or_transitions st)"
    using assms(1,4) by (force simp: serial_inv_def)
  then have trans: "or_transitions ?st' = or_transitions st @ [((tn, i, sq), t)]"
    by (simp add: upsert_fresh)
  have raw: "raw_history ?st' tn' i' =
      raw_history st tn' i' @ (if tn' = tn \<and> i' = i then [(sq, t)] else [])" for tn' i'
    unfolding raw_history_def trans map_filter_append by (auto simp: List.map_filter_def)
  have seqs: "fst x \<le> last_seq (or_log st)" if "x \<in> set (raw_history st tn' i')" for x tn' i'
    using raw_history_seq [OF that] assms(1) by (auto simp: serial_inv_def)
  have bound: "\<forall>x \<in> fst ` set (or_transitions ?st'). snd (snd x) \<le> last_seq (or_log ?st')"
    unfolding trans using assms(1,4,5) by (fastforce simp: serial_inv_def)
  have "sorted (map fst (raw_history ?st' tn' i'))" for tn' i'
    unfolding raw using assms(1,4) seqs [of _ tn' i'] by (auto simp: serial_inv_def sorted_append le_Suc_eq)
  moreover have "lifecycle_path StateRequested (map (it_ToState \<circ> snd) (raw_history ?st' tn' i')) s"
    if "or_identities ?st' (tn', i') = Some s" for tn' i' s
    using that assms(1-3) unfolding raw
    by (auto simp: serial_inv_def intro: lifecycle_path_snoc [OF _ assms(3)] split: if_splits)
  ultimately show ?thesis using bound by (simp add: serial_inv_def)
qed

lemma transition_commit_begun:
  assumes "isLifecycleTransition (ev_Type ev)" and "map_of knownSchemaVersions (ev_Type ev) = Some [1, 2]"
    and "ev_SchemaVersion ev \<in> {1, 2}" and "ev_Data ev = TransitionData pl"
    and "or_identities st (ev_TenantID ev, tp_IdentityID pl) \<noteq> None"
  shows "\<exists>ob. transition_commit now (ev, eo) st = Inr (st
    \<lparr>or_identities := (or_identities st)((ev_TenantID ev, tp_IdentityID pl) \<mapsto> tp_To pl),
     or_transitions := upsert (ev_TenantID ev, tp_IdentityID pl, ev_Sequence ev)
       \<lparr>it_FromState = tp_From pl, it_ToState = tp_To pl, it_EventType = ev_Type ev,
        it_Reason = tp_Reason pl, it_OccurredAt = ev_Time ev\<rparr> (or_transitions st),
     or_outbox := ob\<rparr>)"
proof -
  have "ValidateSchemaVersion ev = None"
    using assms(2,3) by (auto simp: ValidateSchemaVersion_def schemaVersionOf_def)
  with assms show ?thesis
    by (intro exI [of _ "case eo of None \<Rightarrow> or_outbox st | Some e \<Rightarrow> fst (EnqueueIfAbsent now e (or_outbox st))"])
      (auto simp: transition_commit_def ApplyTx_def AppendIdentityTransitionTx_def
        SetIdentityStatusTx_def split: option.splits)
qed

lemma transition_serial_inv:
  assumes "serial_inv st"
  shows "serial_inv (fst (transition newID now r st))"
proof -
  obtain st1 res where b: "transition_begin newID now r st = (st1, res)" by (cases "transition_begin newID now r st")
  from b show ?thesis
  proof (cases rule: transition_begin_cases)
    case (rejected err)
    with assms b show ?thesis by (simp add: transition_def)
  next
    case (appended ev frm pl)
    have sq: "last_seq (or_log st @ [ev]) = Suc (last_seq (or_log st))"
      using appended(4) by (simp add: last_seq_def)
    have grown: "serial_inv st1"
      using assms sq unfolding appended(3) by (force simp: serial_inv_def raw_history_def)
    from appended(9) show ?thesis
    proof
      assume "res = Inl TransformFailed"
      with grown b show ?thesis by (simp add: transition_def)
    next
      assume "\<exists>eo. res = Inr (ev, eo) \<and> map_option call_of eo = map_option (\<lambda>d. (tr_tenant r, d,
           transitionOutboxIdempotencyKey newID (trim_space (tr_key r)))) (sideEffectFor frm (tr_to r))"
      then obtain eo where eo: "res = Inr (ev, eo)" by blast
      have names: "map_of knownSchemaVersions (ev_Type ev) = Some [1, 2]"
        using EventTypeFor_names [OF appended(2)] by (auto simp: knownSchemaVersions_def)
      have present: "or_identities st1 (ev_TenantID ev, tp_IdentityID pl) \<noteq> None"
        using appended(1,3,5,8) by simp
      obtain ob where c: "transition_commit now (ev, eo) st1 = Inr (st1
        \<lparr>or_identities := (or_identities st1)((ev_TenantID ev, tp_IdentityID pl) \<mapsto> tp_To pl),
         or_transitions := upsert (ev_TenantID ev, tp_IdentityID pl, ev_Sequence ev)
           \<lparr>it_FromState = tp_From pl, it_ToState = tp_To pl, it_EventType = ev_Type ev,
            it_Reason = tp_Reason pl, it_OccurredAt = ev_Time ev\<rparr> (or_transitions st1),
         or_outbox := ob\<rparr>)"
        using transition_commit_begun [OF EventTypeFor_lifecycle [OF appended(2)] names appended(6,7) present]
        by blast
      let ?t = "\<lparr>it_FromState = tp_From pl, it_ToState = tp_To pl, it_EventType = ev_Type ev,
            it_Reason = tp_Reason pl, it_OccurredAt = ev_Time ev\<rparr>"
      have "CanTransition frm (it_ToState ?t)"
        using appended(2,8) by (auto simp: CanTransition_EventTypeFor)
      then have "serial_inv (st\<lparr>or_log := or_log st @ [ev],
          or_identities := (or_identities st)((tr_tenant r, tr_identity r) \<mapsto> it_ToState ?t),
          or_transitions := upsert (tr_tenant r, tr_identity r, ev_Sequence ev) ?t (or_transitions st),
          or_outbox := ob, or_checkpoint := or_checkpoint st\<rparr>)"
        using assms appended(1,4) sq by (intro serial_inv_project) simp_all
      then show ?thesis using b eo c appended(3,5,8) by (simp add: transition_def)
    qed
  qed
qed

definition run_transitions :: "(string \<times> gotime \<times> transition_request) list \<Rightarrow> orch \<Rightarrow> orch" where
  "run_transitions rs st = fold (\<lambda>(i, now, r) st. fst (transition i now r st)) rs st"

text \<open>C29: Served one at a time, transitions implement the lifecycle state machine. Starting from
  identities in the requested state, after any sequence of transition requests, accepted or
  rejected, the recorded history of every identity is a run of the state machine from requested to
  the identity's current status, and the state read from the history is that status.
\<close>

theorem serial_transitions_refine_lifecycle:
  assumes "\<And>k s. ids k = Some s \<Longrightarrow> s = StateRequested"
    and "or_identities (run_transitions rs (init_orch ids)) (tn, i) = Some s"
  shows "lifecycle_path StateRequested
      (map (it_ToState \<circ> snd) (History (run_transitions rs (init_orch ids)) tn i)) s
    \<and> State (run_transitions rs (init_orch ids)) tn i = s"
proof -
  have "serial_inv (init_orch ids)"
    using assms(1) by (auto simp: serial_inv_def init_orch_def raw_history_def List.map_filter_def)
  then have inv: "serial_inv (run_transitions rs (init_orch ids))"
    unfolding run_transitions_def
    by (induction rs arbitrary: ids rule: rev_induct) (auto simp: transition_serial_inv)
  then have path: "lifecycle_path StateRequested
      (map (it_ToState \<circ> snd) (History (run_transitions rs (init_orch ids)) tn i)) s"
    using assms(2) by (simp add: serial_inv_History) (simp add: serial_inv_def)
  from lifecycle_path_last [OF path] have "State (run_transitions rs (init_orch ids)) tn i = s"
    by (simp add: State_def Let_def last_map)
  with path show ?thesis by blast
qed

theorem serial_transitions_refine_lifecycle_witness:
  "State (run_transitions [(''e1'', 1, demo_request StateIssued '''')] (init_orch demo_ids)) ''t1'' ''id1''
     = StateIssued"
proof -
  have st: "or_identities (run_transitions [(''e1'', 1, demo_request StateIssued '''')] (init_orch demo_ids)) (''t1'', ''id1'')
      = Some StateIssued"
    using demo_after_issue_eval by (simp add: run_transitions_def demo_after_issue_def)
  have ids: "s = StateRequested" if "demo_ids k = Some s" for k s
    using that by (auto simp: demo_ids_def split: if_splits)
  from serial_transitions_refine_lifecycle [OF ids st] show ?thesis by simp
qed

end
