(* ===== verification/Idempotency.thy ===== *)
theory Idempotency
  imports Prelude
begin

text \<open>
  The idempotency seam: the interface \<^verbatim>\<open>idem.Idempotencer\<close> as a locale, its PostgreSQL provider
  (\<^verbatim>\<open>internal/orchestrator/idempotency.go\<close>) and its in-memory provider (\<^verbatim>\<open>internal/idem\<close>).

  The guarded operation \<open>fn\<close> acts on a world \<open>'w\<close> and returns an error or the bytes to record. The
  database claim blocks a concurrent claim of the same key until the transaction ends, so one call
  of the PostgreSQL \<^verbatim>\<open>Do\<close> is one function; its first argument says whether the update of the row and the commit
  go through, and when they do not the claim is rolled back while the world keeps what \<open>fn\<close> did. The in-memory \<^verbatim>\<open>Do\<close> releases its mutex while \<open>fn\<close> runs,
  so it is also given as the two critical sections around \<open>fn\<close>.
\<close>

type_synonym ('w, 'e) op = "'w \<Rightarrow> 'w \<times> ('e + bytes)"

datatype 'e idem_error = InProgress | NotFound | OpError 'e | CommitError

section \<open>The interface\<close>

locale idempotencer =
  fixes do_op :: "string \<Rightarrow> string \<Rightarrow> ('w, 'e) op \<Rightarrow> 's \<times> 'w \<Rightarrow> ('s \<times> 'w) \<times> ('e idem_error + bytes)"
    and recorded :: "'s \<Rightarrow> string \<Rightarrow> string \<Rightarrow> bytes option"
    and idle :: "'s \<Rightarrow> bool"
    and ok_tenant :: "string \<Rightarrow> bool"
  assumes do_replay: "recorded s tn k = Some r \<Longrightarrow> do_op tn k fn (s, w) = ((s, w), Inr r)"
    and do_success: "idle s \<Longrightarrow> recorded s tn k = None \<Longrightarrow> fn w = (w', Inr r) \<Longrightarrow>
      \<exists>s'. do_op tn k fn (s, w) = ((s', w'), Inr r) \<and> idle s' \<and> recorded s' tn k = Some r"
    and do_failure: "idle s \<Longrightarrow> recorded s tn k = None \<Longrightarrow> fn w = (w', Inl e) \<Longrightarrow>
      do_op tn k fn (s, w) = ((s, w'), Inl (OpError e))"
    and do_other: "ok_tenant tn \<Longrightarrow> ok_tenant tn' \<Longrightarrow> (tn', k') \<noteq> (tn, k) \<Longrightarrow>
      recorded (fst (fst (do_op tn k fn (s, w)))) tn' k' = recorded s tn' k'"
begin

text \<open>A retry loop: the same key is presented with each operation in turn.\<close>

fun retry :: "string \<Rightarrow> string \<Rightarrow> ('w, 'e) op list \<Rightarrow> 's \<times> 'w \<Rightarrow> ('s \<times> 'w) \<times> ('e idem_error + bytes) list" where
  "retry tn k [] sw = (sw, [])"
| "retry tn k (fn # fns) sw =
     (let (sw1, r) = do_op tn k fn sw; (sw2, rs) = retry tn k fns sw1 in (sw2, r # rs))"

lemma retry_recorded:
  "recorded s tn k = Some r \<Longrightarrow> retry tn k fns (s, w) = ((s, w), replicate (length fns) (Inr r))"
  by (induction fns) (simp_all add: do_replay)

text \<open>Once an attempt has succeeded the world never changes again, whatever operations follow.\<close>

lemma retry_at_most_once:
  assumes "idle s" and "recorded s tn k = None" and "fn w = (w', Inr r)"
  shows "snd (fst (retry tn k (fn # fns) (s, w))) = w'
    \<and> snd (retry tn k (fn # fns) (s, w)) = replicate (Suc (length fns)) (Inr r)"
proof -
  from do_success [OF assms(1,2), where fn = fn, OF assms(3)] obtain s' where
    "do_op tn k fn (s, w) = ((s', w'), Inr r)" "recorded s' tn k = Some r" by blast
  then show ?thesis by (simp add: retry_recorded)
qed

text \<open>A failed attempt leaves no record, so the retry executes.\<close>

lemma retry_after_failure:
  assumes "idle s" and "recorded s tn k = None" and "fn w = (w', Inl e)"
  shows "retry tn k (fn # fns) (s, w) =
    (let (sw, rs) = retry tn k fns (s, w') in (sw, Inl (OpError e) # rs))"
  by (simp add: do_failure [OF assms(1,2), where fn = fn, OF assms(3)])

end

section \<open>The PostgreSQL provider\<close>

datatype key_status = KeyPending | KeyCompleted bytes

type_synonym idempotency_keys = "string \<times> string \<Rightarrow> key_status option"

definition Do ::
  "bool \<Rightarrow> string \<Rightarrow> string \<Rightarrow> ('w, 'e) op \<Rightarrow> idempotency_keys \<times> 'w \<Rightarrow> (idempotency_keys \<times> 'w) \<times> ('e idem_error + bytes)" where
  "Do commits tenantID key fn s =
     (let (keys, w) = s
      in case keys (tenantID, key) of
           Some KeyPending \<Rightarrow> ((keys, w), Inl InProgress)
         | Some (KeyCompleted stored) \<Rightarrow> ((keys, w), if commits then Inr stored else Inl CommitError)
         | None \<Rightarrow>
             (case fn w of
                (w', Inl e) \<Rightarrow> ((keys, w'), Inl (OpError e))
              | (w', Inr out) \<Rightarrow>
                  if commits then ((keys((tenantID, key) \<mapsto> KeyCompleted out), w'), Inr out)
                  else ((keys, w'), Inl CommitError)))"

definition Result :: "string \<Rightarrow> string \<Rightarrow> idempotency_keys \<Rightarrow> 'e idem_error + bytes" where
  "Result tenantID key keys =
     (case keys (tenantID, key) of
        None \<Rightarrow> Inl NotFound
      | Some KeyPending \<Rightarrow> Inl InProgress
      | Some (KeyCompleted r) \<Rightarrow> Inr r)"

definition pg_recorded :: "idempotency_keys \<Rightarrow> string \<Rightarrow> string \<Rightarrow> bytes option" where
  "pg_recorded keys tn k = (case keys (tn, k) of Some (KeyCompleted r) \<Rightarrow> Some r | _ \<Rightarrow> None)"

definition pg_idle :: "idempotency_keys \<Rightarrow> bool" where
  "pg_idle keys = (\<forall>k. keys k \<noteq> Some KeyPending)"

lemma pg_recorded_None: "pg_idle keys \<Longrightarrow> pg_recorded keys tn k = None \<longleftrightarrow> keys (tn, k) = None"
  by (auto simp: pg_recorded_def pg_idle_def split: option.splits key_status.splits)

lemma pg_recorded_Some: "pg_recorded keys tn k = Some r \<longleftrightarrow> keys (tn, k) = Some (KeyCompleted r)"
  by (auto simp: pg_recorded_def split: option.splits key_status.splits)

interpretation pg: idempotencer "Do True" pg_recorded pg_idle "\<lambda>_. True"
proof
  fix s tn k and fn :: "('w, 'e) op" and w w' r
  assume a: "pg_idle s" "pg_recorded s tn k = None" "fn w = (w', Inr r)"
  have "Do True tn k fn (s, w) = ((s((tn, k) \<mapsto> KeyCompleted r), w'), Inr r)"
    using a by (simp add: Do_def pg_recorded_None)
  then show "\<exists>s'. Do True tn k fn (s, w) = ((s', w'), Inr r) \<and> pg_idle s' \<and> pg_recorded s' tn k = Some r"
    using a by (auto simp: pg_idle_def pg_recorded_def)
qed (auto simp: Do_def pg_recorded_None pg_recorded_Some, auto simp: pg_recorded_def Do_def
    split: option.splits key_status.splits prod.splits sum.splits)

section \<open>The in-memory provider\<close>

record memory =
  me_done :: "string \<Rightarrow> bytes option"
  me_inflight :: "string set"

definition NewMemory :: memory where
  "NewMemory = \<lparr>me_done = Map.empty, me_inflight = {}\<rparr>"

datatype claim = Replayed bytes | Busy | Claimed

text \<open>The first critical section.\<close>

definition mem_claim :: "string \<Rightarrow> memory \<Rightarrow> memory \<times> claim" where
  "mem_claim full m =
     (case me_done m full of
        Some r \<Rightarrow> (m, Replayed r)
      | None \<Rightarrow>
          if full \<in> me_inflight m then (m, Busy)
          else (m\<lparr>me_inflight := insert full (me_inflight m)\<rparr>, Claimed))"

text \<open>The second critical section.\<close>

definition mem_settle :: "string \<Rightarrow> 'e + bytes \<Rightarrow> memory \<Rightarrow> memory" where
  "mem_settle full res m =
     (let m1 = m\<lparr>me_inflight := me_inflight m - {full}\<rparr>
      in case res of Inl _ \<Rightarrow> m1 | Inr r \<Rightarrow> m1\<lparr>me_done := (me_done m1)(full \<mapsto> r)\<rparr>)"

definition Memory_Do ::
  "string \<Rightarrow> string \<Rightarrow> ('w, 'e) op \<Rightarrow> memory \<times> 'w \<Rightarrow> (memory \<times> 'w) \<times> ('e idem_error + bytes)" where
  "Memory_Do tenantID key fn s =
     (let (m, w) = s; full = tenant_key tenantID key
      in case mem_claim full m of
           (m1, Replayed r) \<Rightarrow> ((m1, w), Inr r)
         | (m1, Busy) \<Rightarrow> ((m1, w), Inl InProgress)
         | (m1, Claimed) \<Rightarrow>
             (case fn w of (w', res) \<Rightarrow> ((mem_settle full res m1, w'), map_sum OpError id res)))"

definition mem_recorded :: "memory \<Rightarrow> string \<Rightarrow> string \<Rightarrow> bytes option" where
  "mem_recorded m tn k = me_done m (tenant_key tn k)"

definition mem_idle :: "memory \<Rightarrow> bool" where
  "mem_idle m = (me_inflight m = {})"

interpretation mem: idempotencer Memory_Do mem_recorded mem_idle plain_tenant
  by unfold_locales
    (auto simp: Memory_Do_def mem_recorded_def mem_claim_def mem_settle_def mem_idle_def Let_def
      tenant_key_inject split: option.splits prod.splits claim.splits sum.splits)

section \<open>Concurrent callers of the in-memory provider\<close>

text \<open>
  The mutex makes the two critical sections atomic; between them any other caller may run. The
  state holds the keys whose operation is running and the results recorded so far, newest first.
\<close>

inductive mem_step ::
  "memory \<times> string list \<times> (string \<times> bytes) list \<Rightarrow> memory \<times> string list \<times> (string \<times> bytes) list \<Rightarrow> bool"
where
  mem_start: "mem_claim full m = (m', Claimed) \<Longrightarrow> mem_step (m, run, hist) (m', full # run, hist)"
| mem_turned_away: "mem_claim full m = (m', c) \<Longrightarrow> c \<noteq> Claimed \<Longrightarrow> mem_step (m, run, hist) (m', run, hist)"
| mem_succeed: "full \<in> set run \<Longrightarrow>
    mem_step (m, run, hist) (mem_settle full (Inr r :: unit + bytes) m, remove1 full run, (full, r) # hist)"
| mem_fail: "full \<in> set run \<Longrightarrow>
    mem_step (m, run, hist) (mem_settle full (Inl ()) m, remove1 full run, hist)"

definition mem_inv :: "memory \<times> string list \<times> (string \<times> bytes) list \<Rightarrow> bool" where
  "mem_inv s = (case s of (m, run, hist) \<Rightarrow>
     distinct run \<and> set run = me_inflight m \<and> distinct (map fst hist)
     \<and> set run \<inter> fst ` set hist = {} \<and> me_done m = map_of hist)"

lemma mem_step_inv: "mem_step s s' \<Longrightarrow> mem_inv s \<Longrightarrow> mem_inv s'"
proof (induction rule: mem_step.induct)
  case (mem_start full m m' run hist)
  then show ?case
    by (auto simp: mem_inv_def mem_claim_def split: option.splits if_splits)
next
  case (mem_turned_away full m m' c run hist)
  then show ?case by (auto simp: mem_inv_def mem_claim_def split: option.splits if_splits)
next
  case (mem_succeed full run m hist r)
  then show ?case by (auto simp: mem_inv_def mem_settle_def set_remove1_eq)
next
  case (mem_fail full run m hist)
  then show ?case by (auto simp: mem_inv_def mem_settle_def set_remove1_eq)
qed

text \<open>C31: The in-memory provider runs a key's operation to success at most once under any
  interleaving of callers: no key has two running operations, no key has two recorded successes,
  no operation runs for a key that already has a result, and the recorded result is the one a
  replay returns.
\<close>

theorem memory_single_flight:
  assumes "mem_step\<^sup>*\<^sup>* (NewMemory, [], []) (m, run, hist)"
  shows "distinct run \<and> distinct (map fst hist) \<and> set run \<inter> fst ` set hist = {}
    \<and> (\<forall>(full, r) \<in> set hist. mem_claim full m = (m, Replayed r))"
proof -
  have "mem_inv (NewMemory, [], [])" by (simp add: mem_inv_def NewMemory_def)
  with assms have "mem_inv (m, run, hist)"
    by (induction rule: rtranclp_induct) (auto intro: mem_step_inv)
  then show ?thesis
    by (auto simp: mem_inv_def mem_claim_def)
qed

theorem memory_single_flight_witness:
  "\<exists>m run hist. mem_step\<^sup>*\<^sup>* (NewMemory, [], []) (m, run, hist) \<and> hist = [(''t1|k'', ''r'')]
     \<and> distinct run \<and> mem_claim ''t1|k'' m = (m, Replayed ''r'')"
proof -
  let ?m1 = "NewMemory\<lparr>me_inflight := {''t1|k''}\<rparr>"
  let ?m2 = "mem_settle ''t1|k'' (Inr ''r'' :: unit + bytes) ?m1"
  have "mem_step (NewMemory, [], []) (?m1, [''t1|k''], [])"
    by (rule mem_start) (simp add: mem_claim_def NewMemory_def)
  moreover have "mem_step (?m1, [''t1|k''], []) (?m2, remove1 ''t1|k'' [''t1|k''], [(''t1|k'', ''r'')])"
    by (rule mem_succeed) simp
  ultimately have run: "mem_step\<^sup>*\<^sup>* (NewMemory, [], []) (?m2, remove1 ''t1|k'' [''t1|k''], [(''t1|k'', ''r'')])"
    by (rule converse_rtranclp_into_rtranclp [OF _ r_into_rtranclp])
  from memory_single_flight [OF this] have "mem_claim ''t1|k'' ?m2 = (?m2, Replayed ''r'')" by simp
  with run show ?thesis
    by (intro exI [of _ ?m2] exI [of _ "remove1 ''t1|k'' [''t1|k'']"] exI [of _ "[(''t1|k'', ''r'')]"] conjI) simp_all
qed

section \<open>Replays of the PostgreSQL provider\<close>

text \<open>
  The first success under an idempotency key fixes the result for good. When the key is
  unclaimed, the operation succeeds and the transaction commits, the call returns its result and the world it produced; any
  later call under the same tenant and key, with whatever operation, returns that result and
  changes neither the world nor the table; \<^verbatim>\<open>Result\<close> reads it back; and no other key of any tenant
  is affected.
\<close>

theorem Do_records_first_success:
  fixes fn :: "('w, 'e) op"
  assumes "keys (tn, k) = None" and "fn w = (w', Inr r)"
  shows "\<exists>keys'. Do True tn k fn (keys, w) = ((keys', w'), Inr r)
    \<and> (\<forall>(fn' :: ('w, 'e) op) w''. Do True tn k fn' (keys', w'') = ((keys', w''), Inr r))
    \<and> Result tn k keys' = Inr r
    \<and> (\<forall>x. x \<noteq> (tn, k) \<longrightarrow> keys' x = keys x)"
  using assms by (auto simp: Do_def Result_def)

definition demo_op :: "bytes \<Rightarrow> (nat, unit) op" where
  "demo_op out n = (Suc n, Inr out)"

theorem Do_records_first_success_witness:
  "\<exists>keys'. Do True ''t1'' ''k'' (demo_op ''ok'') (Map.empty, 0) = ((keys', 1), Inr ''ok'')
     \<and> Do True ''t1'' ''k'' (demo_op ''again'') (keys', 1) = ((keys', 1), Inr ''ok'')"
proof -
  have "demo_op ''ok'' 0 = (1, Inr ''ok'')" by (simp add: demo_op_def)
  from Do_records_first_success [of Map.empty "''t1''" "''k''" "demo_op ''ok''" 0 1 "''ok''", OF _ this] obtain keys' where
    "Do True ''t1'' ''k'' (demo_op ''ok'') (Map.empty, 0) = ((keys', 1), Inr ''ok'')"
    "Do True ''t1'' ''k'' (demo_op ''again'') (keys', 1) = ((keys', 1), Inr ''ok'')" by auto
  then show ?thesis by blast
qed

end
