(* ===== verification/Authz.thy ===== *)
theory Authz
  imports Prelude
begin

text \<open>
  Role-based access control (\<^verbatim>\<open>internal/authz/authz.go\<close>): permissions, built-in and custom roles,
  scopes, and the allow/deny decision. A Go map of roles is a function to \<open>option\<close>; the catalogue
  in name order is read off the list of known names.
\<close>

type_synonym Permission = string

named_theorems perm_defs \<open>the permission constants\<close>

section \<open>Permissions\<close>

definition OwnersRead :: Permission where [perm_defs]: "OwnersRead = ''owners:read''"
definition OwnersWrite :: Permission where [perm_defs]: "OwnersWrite = ''owners:write''"
definition IssuersRead :: Permission where [perm_defs]: "IssuersRead = ''issuers:read''"
definition IssuersWrite :: Permission where [perm_defs]: "IssuersWrite = ''issuers:write''"
definition IdentitiesRead :: Permission where [perm_defs]: "IdentitiesRead = ''identities:read''"
definition IdentitiesWrite :: Permission where [perm_defs]: "IdentitiesWrite = ''identities:write''"
definition CertsRead :: Permission where [perm_defs]: "CertsRead = ''certs:read''"
definition CertsWrite :: Permission where [perm_defs]: "CertsWrite = ''certs:write''"
definition AuditRead :: Permission where [perm_defs]: "AuditRead = ''audit:read''"
definition AuditWrite :: Permission where [perm_defs]: "AuditWrite = ''audit:write''"
definition PrivacyRead :: Permission where [perm_defs]: "PrivacyRead = ''privacy:read''"
definition PrivacyWrite :: Permission where [perm_defs]: "PrivacyWrite = ''privacy:write''"
definition GraphRead :: Permission where [perm_defs]: "GraphRead = ''graph:read''"
definition RiskRead :: Permission where [perm_defs]: "RiskRead = ''risk:read''"
definition AgentsRead :: Permission where [perm_defs]: "AgentsRead = ''agents:read''"
definition AgentsWrite :: Permission where [perm_defs]: "AgentsWrite = ''agents:write''"
definition AgentsHeartbeat :: Permission where [perm_defs]: "AgentsHeartbeat = ''agents:heartbeat''"
definition AgentsJobPoll :: Permission where [perm_defs]: "AgentsJobPoll = ''agents:job.poll''"
definition AgentsJobComplete :: Permission where [perm_defs]: "AgentsJobComplete = ''agents:job.complete''"
definition AgentsJobReport :: Permission where [perm_defs]: "AgentsJobReport = ''agents:job.report''"
definition DiscoveryRead :: Permission where [perm_defs]: "DiscoveryRead = ''discovery:read''"
definition DiscoveryWrite :: Permission where [perm_defs]: "DiscoveryWrite = ''discovery:write''"
definition NHIRead :: Permission where [perm_defs]: "NHIRead = ''nhi:read''"
definition PolicyRead :: Permission where [perm_defs]: "PolicyRead = ''policy:read''"
definition PolicyWrite :: Permission where [perm_defs]: "PolicyWrite = ''policy:write''"
definition NotificationsRead :: Permission where [perm_defs]: "NotificationsRead = ''notifications:read''"
definition NotificationsWrite :: Permission where [perm_defs]: "NotificationsWrite = ''notifications:write''"
definition ConnectorsRead :: Permission where [perm_defs]: "ConnectorsRead = ''connectors:read''"
definition ConnectorsWrite :: Permission where [perm_defs]: "ConnectorsWrite = ''connectors:write''"
definition LifecycleRead :: Permission where [perm_defs]: "LifecycleRead = ''lifecycle:read''"
definition IncidentsRead :: Permission where [perm_defs]: "IncidentsRead = ''incidents:read''"
definition IncidentsWrite :: Permission where [perm_defs]: "IncidentsWrite = ''incidents:write''"
definition PrivateEgress :: Permission where [perm_defs]: "PrivateEgress = ''egress:private''"
definition AccessRead :: Permission where [perm_defs]: "AccessRead = ''access:read''"
definition AccessWrite :: Permission where [perm_defs]: "AccessWrite = ''access:write''"
definition AccessRoleAssign :: Permission where [perm_defs]: "AccessRoleAssign = ''access:role.assign''"
definition SecretsRead :: Permission where [perm_defs]: "SecretsRead = ''secrets:read''"
definition SecretsWrite :: Permission where [perm_defs]: "SecretsWrite = ''secrets:write''"
definition ProfilesRead :: Permission where [perm_defs]: "ProfilesRead = ''profiles:read''"
definition ProfilesWrite :: Permission where [perm_defs]: "ProfilesWrite = ''profiles:write''"
definition CertsRequest :: Permission where [perm_defs]: "CertsRequest = ''certs:request''"
definition CertsIssue :: Permission where [perm_defs]: "CertsIssue = ''certs:issue''"
definition KeysRead :: Permission where [perm_defs]: "KeysRead = ''keys:read''"
definition KeysWrite :: Permission where [perm_defs]: "KeysWrite = ''keys:write''"

definition Wildcard :: Permission where [perm_defs]: "Wildcard = ''*''"

definition allResourcePermissions :: "Permission list" where
  "allResourcePermissions =
     [OwnersRead, OwnersWrite, IssuersRead, IssuersWrite, IdentitiesRead, IdentitiesWrite,
      CertsRead, CertsWrite, AuditWrite, PrivacyRead, PrivacyWrite, GraphRead, RiskRead,
      AgentsRead, AgentsWrite, AgentsHeartbeat, AgentsJobPoll, AgentsJobComplete,
      AgentsJobReport, DiscoveryRead, DiscoveryWrite, NHIRead, PolicyRead, PolicyWrite,
      NotificationsRead, NotificationsWrite, ConnectorsRead, ConnectorsWrite, LifecycleRead,
      IncidentsRead, IncidentsWrite, PrivateEgress, AccessRead, AccessWrite, AccessRoleAssign,
      ProfilesRead, ProfilesWrite, CertsRequest, CertsIssue, SecretsRead, SecretsWrite, KeysRead,
      KeysWrite]"

section \<open>Roles\<close>

record Role =
  ro_Name :: string
  ro_Permissions :: "Permission list"

fun perms_allow :: "Permission list \<Rightarrow> Permission \<Rightarrow> bool" where
  "perms_allow [] p = False"
| "perms_allow (have # rest) p = (if have = Wildcard \<or> have = p then True else perms_allow rest p)"

definition Allows :: "Role \<Rightarrow> Permission \<Rightarrow> bool" where
  "Allows r p = perms_allow (ro_Permissions r) p"

definition withoutPermissions :: "Permission list \<Rightarrow> Permission list \<Rightarrow> Permission list" where
  "withoutPermissions perms dropped = filter (\<lambda>p. p \<notin> set dropped) perms"

fun add_unseen :: "Permission set \<Rightarrow> Permission list \<Rightarrow> Permission list" where
  "add_unseen seen [] = []"
| "add_unseen seen (p # ps) =
     (if p \<in> seen then add_unseen seen ps else p # add_unseen (insert p seen) ps)"

definition withPermissions :: "Permission list \<Rightarrow> Permission list \<Rightarrow> Permission list" where
  "withPermissions perms add =
     (let out = add_unseen {} perms in out @ add_unseen (set out) add)"

definition readOnly :: "Permission list" where
  "readOnly =
     [OwnersRead, IssuersRead, IdentitiesRead, CertsRead, PrivacyRead, GraphRead, RiskRead,
      AgentsRead, DiscoveryRead, NHIRead, PolicyRead, NotificationsRead, ConnectorsRead,
      LifecycleRead, IncidentsRead, AccessRead, ProfilesRead, SecretsRead, KeysRead]"

definition agent_perms :: "Permission list" where
  "agent_perms =
     [CertsRead, AgentsHeartbeat, AgentsJobPoll, AgentsJobComplete, AgentsJobReport,
      DiscoveryWrite]"

definition mcp_perms :: "Permission list" where
  "mcp_perms =
     [OwnersRead, IssuersRead, IdentitiesRead, CertsRead, AuditRead, PrivacyRead, GraphRead,
      RiskRead, AgentsRead, DiscoveryRead, DiscoveryWrite, NHIRead, PolicyRead,
      NotificationsRead, ConnectorsRead, LifecycleRead, IncidentsRead, AccessRead, ProfilesRead,
      CertsRequest, SecretsRead, KeysRead]"

definition cli_perms :: "Permission list" where
  "cli_perms = withPermissions (withoutPermissions allResourcePermissions [AccessRoleAssign]) [AuditRead]"

definition builtin_table :: "(string \<times> Permission list) list" where
  "builtin_table =
     [(''admin'', [Wildcard]), (''operator'', allResourcePermissions), (''viewer'', readOnly),
      (''auditor'', [AuditRead]), (''agent'', agent_perms), (''mcp'', mcp_perms), (''cli'', cli_perms),
      (''ra-officer'', [ProfilesRead, ProfilesWrite, CertsRead, CertsRequest])]"

definition BuiltinRoles :: "(string \<times> Role) list" where
  "BuiltinRoles = map (\<lambda>(n, ps). (n, \<lparr>ro_Name = n, ro_Permissions = ps\<rparr>)) builtin_table"

section \<open>Scopes, grants, principals\<close>

record Scope =
  sc_TenantID :: string
  sc_Project :: string
  sc_Profile :: string
  sc_Issuer :: string

definition dimensionCovers :: "string \<Rightarrow> string \<Rightarrow> bool" where
  "dimensionCovers grant target = (grant = '''' \<or> grant = target)"

definition Covers :: "Scope \<Rightarrow> Scope \<Rightarrow> bool" where
  "Covers g t =
     (if sc_TenantID g \<noteq> sc_TenantID t then False
      else dimensionCovers (sc_Project g) (sc_Project t)
           \<and> dimensionCovers (sc_Profile g) (sc_Profile t)
           \<and> dimensionCovers (sc_Issuer g) (sc_Issuer t))"

record Grant =
  gr_Role :: Role
  gr_Scope :: Scope

record Principal =
  pr_TenantID :: string
  pr_Subject :: string
  pr_Grants :: "Grant list"

definition Can :: "Principal \<Rightarrow> Permission \<Rightarrow> Scope \<Rightarrow> bool" where
  "Can p perm target =
     (if pr_TenantID p \<noteq> sc_TenantID target then False
      else list_ex (\<lambda>g. Covers (gr_Scope g) target \<and> Allows (gr_Role g) perm) (pr_Grants p))"

section \<open>Registry\<close>

type_synonym Registry = "(string \<times> Role) list"

fun put_role :: "string \<Rightarrow> Role \<Rightarrow> Registry \<Rightarrow> Registry" where
  "put_role n r [] = [(n, r)]"
| "put_role n r ((n', r') # rs) = (if n = n' then (n, r) # rs else (n', r') # put_role n r rs)"

definition NewRegistry :: "Role list \<Rightarrow> Registry" where
  "NewRegistry custom = fold (\<lambda>r reg. put_role (ro_Name r) r reg) custom BuiltinRoles"

definition Registry_Role :: "Registry \<Rightarrow> string \<Rightarrow> Role option" where
  "Registry_Role reg name = map_of reg name"

definition Registry_Roles :: "Registry \<Rightarrow> Role list" where
  "Registry_Roles reg = sort_key ro_Name (map snd reg)"

section \<open>Decisions\<close>

lemma perms_allow_iff: "perms_allow ps p \<longleftrightarrow> Wildcard \<in> set ps \<or> p \<in> set ps"
  by (induction ps) auto

lemma Allows_iff: "Allows r p \<longleftrightarrow> Wildcard \<in> set (ro_Permissions r) \<or> p \<in> set (ro_Permissions r)"
  by (simp add: Allows_def perms_allow_iff)

lemma add_unseen_set: "set (add_unseen seen ps) = set ps - seen"
  by (induction ps arbitrary: seen) auto

lemma add_unseen_distinct: "distinct (add_unseen seen ps)"
  by (induction ps arbitrary: seen) (auto simp: add_unseen_set)

lemma withPermissions_set: "set (withPermissions ps add) = set ps \<union> set add"
  by (auto simp: withPermissions_def Let_def add_unseen_set)

lemma cli_perms_set:
  "set cli_perms = (set allResourcePermissions - {AccessRoleAssign}) \<union> {AuditRead}"
  by (auto simp: cli_perms_def withPermissions_set withoutPermissions_def)

text \<open>Coverage is a partial preorder on scopes inside one tenant.\<close>

lemma Covers_refl: "Covers g g"
  by (simp add: Covers_def dimensionCovers_def)

lemma dimensionCovers_trans:
  "dimensionCovers a b \<Longrightarrow> dimensionCovers b c \<Longrightarrow> dimensionCovers a c"
  by (auto simp: dimensionCovers_def)

lemma Covers_trans: "Covers g t \<Longrightarrow> Covers t u \<Longrightarrow> Covers g u"
  by (auto simp: Covers_def split: if_splits intro: dimensionCovers_trans)

lemma Covers_antisym: "Covers g t \<Longrightarrow> Covers t g \<Longrightarrow> g = (t :: Scope)"
  by (auto simp: Covers_def dimensionCovers_def split: if_splits)

lemma Can_iff:
  "Can p perm target \<longleftrightarrow> pr_TenantID p = sc_TenantID target \<and>
     (\<exists>g \<in> set (pr_Grants p). Covers (gr_Scope g) target \<and> Allows (gr_Role g) perm)"
  by (auto simp: Can_def list_ex_iff)

lemma Covers_iff:
  "Covers g t \<longleftrightarrow> sc_TenantID g = sc_TenantID t \<and> sc_Project g \<in> {'''', sc_Project t} \<and> sc_Profile g \<in> {'''', sc_Profile t}
     \<and> sc_Issuer g \<in> {'''', sc_Issuer t}"
  by (simp add: Covers_def dimensionCovers_def)

lemma Can_covered:
  assumes "Can p perm target" and "Covers target t"
  shows "Can p perm t"
proof -
  have "sc_TenantID t = sc_TenantID target" using assms(2) by (simp add: Covers_def split: if_splits)
  with assms Covers_trans [OF _ assms(2)] show ?thesis by (auto simp: Can_iff)
qed

text \<open>C30: Authorization never crosses a tenant, never widens a grant and honours every grant. A principal
  may perform an action exactly when it has a grant such that the principal, the target and the grant
  are in one tenant, the grant's role holds the permission or the wildcard, and every dimension the
  grant is narrowed to is exactly the target's. What is allowed on a scope is allowed on every scope it
  covers.
\<close>

theorem Can_sound:
  "(Can p perm target \<longleftrightarrow>
      (\<exists>g \<in> set (pr_Grants p).
          sc_TenantID (gr_Scope g) = pr_TenantID p \<and> sc_TenantID target = pr_TenantID p
        \<and> (perm \<in> set (ro_Permissions (gr_Role g)) \<or> Wildcard \<in> set (ro_Permissions (gr_Role g)))
        \<and> sc_Project (gr_Scope g) \<in> {'''', sc_Project target}
        \<and> sc_Profile (gr_Scope g) \<in> {'''', sc_Profile target}
        \<and> sc_Issuer (gr_Scope g) \<in> {'''', sc_Issuer target}))
   \<and> (Can p perm target \<longrightarrow> (\<forall>t. Covers target t \<longrightarrow> Can p perm t))"
  (is "?iff \<and> ?mono")
proof
  show ?iff
    by (cases "pr_TenantID p = sc_TenantID target") (simp_all add: Can_iff Covers_iff Allows_iff conj_ac disj_ac)
  show ?mono by (blast intro: Can_covered)
qed

definition demo_scope :: "string \<Rightarrow> Scope" where
  "demo_scope proj = \<lparr>sc_TenantID = ''t1'', sc_Project = proj, sc_Profile = '''', sc_Issuer = ''''\<rparr>"

definition demo_principal :: Principal where
  "demo_principal = \<lparr>pr_TenantID = ''t1'', pr_Subject = ''alice'',
     pr_Grants = [\<lparr>gr_Role = \<lparr>ro_Name = ''viewer'', ro_Permissions = readOnly\<rparr>, gr_Scope = demo_scope ''''\<rparr>]\<rparr>"

theorem Can_sound_witness:
  "Can demo_principal CertsRead (demo_scope ''web'') \<and> \<not> Can demo_principal CertsIssue (demo_scope ''web'')"
  unfolding Can_sound [THEN conjunct1]
  by (simp add: demo_principal_def demo_scope_def readOnly_def perm_defs Wildcard_def)

text \<open>Which built-in roles hold a given permission, computed from the table.\<close>

definition builtin_allows :: "string \<Rightarrow> Permission \<Rightarrow> bool" where
  "builtin_allows name perm =
     (case map_of BuiltinRoles name of None \<Rightarrow> False | Some r \<Rightarrow> Allows r perm)"

lemma builtin_allows_iff:
  "builtin_allows name perm \<longleftrightarrow> (\<exists>ps. map_of builtin_table name = Some ps \<and> (Wildcard \<in> set ps \<or> perm \<in> set ps))"
proof -
  have "map_of (map (\<lambda>(n, ps). (n, \<lparr>ro_Name = n, ro_Permissions = ps\<rparr>)) t) name
      = map_option (\<lambda>ps. \<lparr>ro_Name = name, ro_Permissions = ps\<rparr>) (map_of t name)" for t
    by (induction t) auto
  then show ?thesis
    by (auto simp: builtin_allows_def BuiltinRoles_def Allows_iff split: option.splits)
qed

text \<open>
  The registration-authority separation holds for every built-in role. Only the
  administrator, operator and CLI roles can issue certificates; the registration officer can
  request but not issue; only the administrator and operator can assign roles; and reading the
  audit log is held by the administrator, auditor, MCP and CLI roles alone.
\<close>

theorem builtin_separation_of_duties:
  "(builtin_allows name CertsIssue \<longleftrightarrow> name \<in> {''admin'', ''operator'', ''cli''})
   \<and> (builtin_allows name AccessRoleAssign \<longleftrightarrow> name \<in> {''admin'', ''operator''})
   \<and> (builtin_allows name AuditRead \<longleftrightarrow> name \<in> {''admin'', ''auditor'', ''mcp'', ''cli''})
   \<and> builtin_allows ''ra-officer'' CertsRequest"
  unfolding builtin_allows_iff builtin_table_def
  by (auto simp: perm_defs cli_perms_set allResourcePermissions_def readOnly_def agent_perms_def
      mcp_perms_def split: if_splits)

section \<open>Registry lookups\<close>

lemma map_of_put_role: "map_of (put_role n r reg) m = (if m = n then Some r else map_of reg m)"
  by (induction n r reg rule: put_role.induct) auto

lemma put_role_names: "distinct (map fst reg) \<Longrightarrow> distinct (map fst (put_role n r reg))
    \<and> set (map fst (put_role n r reg)) = insert n (set (map fst reg))"
  by (induction n r reg rule: put_role.induct) auto

lemma NewRegistry_lookup:
  "map_of (NewRegistry custom) name =
     (case filter (\<lambda>r. ro_Name r = name) (rev custom) of
        [] \<Rightarrow> map_of BuiltinRoles name
      | r # _ \<Rightarrow> Some r)"
  unfolding NewRegistry_def
  by (induction custom rule: rev_induct) (auto simp: map_of_put_role)

text \<open>
  A custom role overrides a built-in of the same name, the last definition given for a name
  wins, every other name keeps its built-in meaning, and the listed catalogue is sorted by name.
\<close>

theorem registry_overrides:
  "Registry_Role (NewRegistry custom) name =
     (case filter (\<lambda>r. ro_Name r = name) (rev custom) of
        [] \<Rightarrow> map_of BuiltinRoles name
      | r # _ \<Rightarrow> Some r)
   \<and> sorted (map ro_Name (Registry_Roles (NewRegistry custom)))"
  by (simp add: Registry_Role_def NewRegistry_lookup Registry_Roles_def)

end
