(* ===== verification/Approval.thy ===== *)
theory Approval
  imports Prelude
begin

text \<open>
  Just-in-time issuance with approvals (\<^verbatim>\<open>internal/approval/approval.go\<close>): the request record, the
  \<^verbatim>\<open>Store\<close> interface as a locale, the manager's operations over any store, and the in-memory store
  as its provider. A store call that fails is \<open>None\<close>. The \<^verbatim>\<open>Issuer\<close> is a parameter: what its
  \<open>n\<close>-th call returns; the manager's state keeps the request each call was made for. Notifications
  have no effect on the manager and are left out.
\<close>

section \<open>Requests\<close>

datatype approval_state = AwaitingApproval | Approved | Denied | Issued | Expired

datatype decision = Approve_decision | Deny_decision

record Approval =
  ap_Approver :: string
  ap_Decision :: decision
  ap_At :: gotime

record Request =
  rq_ID :: string
  rq_TenantID :: string
  rq_Kind :: string
  rq_Resource :: string
  rq_Requester :: string
  rq_RequiredApprovals :: int
  rq_Approvals :: "Approval list"
  rq_State :: approval_state
  rq_CredentialID :: string
  rq_Payload :: bytes
  rq_CreatedAt :: gotime
  rq_ExpiresAt :: gotime

definition approveCount :: "Request \<Rightarrow> int" where
  "approveCount req = int (length (filter (\<lambda>a. ap_Decision a = Approve_decision) (rq_Approvals req)))"

record RequestSpec =
  rs_ID :: string
  rs_Kind :: string
  rs_Resource :: string
  rs_Requester :: string
  rs_Payload :: bytes
  rs_RequiredApprovals :: int
  rs_TTL :: duration

section \<open>The manager\<close>

record approval_config =
  ac_TenantID :: string
  ac_Policy :: "(string \<Rightarrow> string \<Rightarrow> string \<Rightarrow> bool \<times> string) option"
  ac_Issue :: "nat \<Rightarrow> string \<Rightarrow> string \<Rightarrow> string \<Rightarrow> string option"
  ac_DefaultTTL :: duration
  ac_DefaultRequiredApprovals :: int

text \<open>\<^verbatim>\<open>New\<close>: the store and the issuer are given, so only the tenant can be missing.\<close>

definition New :: "approval_config \<Rightarrow> approval_config option" where
  "New cfg =
     (if ac_TenantID cfg = '''' then None
      else let c1 = (if ac_DefaultTTL cfg \<le> 0 then cfg\<lparr>ac_DefaultTTL := hour\<rparr> else cfg)
           in Some (if ac_DefaultRequiredApprovals c1 \<le> 0
                    then c1\<lparr>ac_DefaultRequiredApprovals := 2\<rparr> else c1))"

record 'st manager =
  am_store :: 'st
  am_audit :: "audit_event list"
  am_calls :: "Request list"

datatype approval_error =
    StoreError | FieldsRequired | UnknownRequest string | RequestExpired string
  | SelfApproval | NotPermitted string string | IssueFailed | AlreadyIssued string

type_synonym 'st approval_result = "'st manager \<times> (approval_error + Request)"

definition note_audit ::
  "approval_config \<Rightarrow> string \<Rightarrow> (string \<times> audit_val) list \<Rightarrow> 'st manager \<Rightarrow> 'st manager" where
  "note_audit cfg event fs m = m\<lparr>am_audit := am_audit m @ [audit_ev event (ac_TenantID cfg) fs]\<rparr>"

text \<open>\<open>save\<close> and \<open>get\<close> are the operations of the \<^verbatim>\<open>Store\<close> interface.\<close>

type_synonym 'st save_op = "Request \<Rightarrow> 'st \<Rightarrow> 'st option"
type_synonym 'st get_op = "string \<Rightarrow> string \<Rightarrow> 'st \<Rightarrow> Request option option"

text \<open>A save whose error the caller discards.\<close>

definition save_quietly :: "'st save_op \<Rightarrow> Request \<Rightarrow> 'st manager \<Rightarrow> 'st manager" where
  "save_quietly save req m = (case save req (am_store m) of None \<Rightarrow> m | Some s \<Rightarrow> m\<lparr>am_store := s\<rparr>)"

definition save_and_return :: "'st save_op \<Rightarrow> Request \<Rightarrow> 'st manager \<Rightarrow> 'st approval_result" where
  "save_and_return save req m =
     (case save req (am_store m) of
        None \<Rightarrow> (m, Inl StoreError)
      | Some s \<Rightarrow> (m\<lparr>am_store := s\<rparr>, Inr req))"

definition RequestIssuance ::
  "'st save_op \<Rightarrow> approval_config \<Rightarrow> gotime \<Rightarrow> RequestSpec \<Rightarrow> 'st manager \<Rightarrow> 'st approval_result" where
  "RequestIssuance save cfg now spec m =
     (if rs_ID spec = '''' \<or> rs_Requester spec = '''' \<or> rs_Resource spec = '''' then (m, Inl FieldsRequired)
      else let ttl = (if rs_TTL spec \<le> 0 then ac_DefaultTTL cfg else rs_TTL spec);
               kind = (if rs_Kind spec = '''' then ''cert_issuance'' else rs_Kind spec);
               required = (if rs_RequiredApprovals spec \<le> 0 then ac_DefaultRequiredApprovals cfg
                           else rs_RequiredApprovals spec);
               req = \<lparr>rq_ID = rs_ID spec, rq_TenantID = ac_TenantID cfg, rq_Kind = kind,
                      rq_Resource = rs_Resource spec, rq_Requester = rs_Requester spec,
                      rq_RequiredApprovals = required, rq_Approvals = [], rq_State = AwaitingApproval,
                      rq_CredentialID = '''', rq_Payload = rs_Payload spec, rq_CreatedAt = now,
                      rq_ExpiresAt = now + ttl\<rparr>
           in case save req (am_store m) of
                None \<Rightarrow> (m, Inl StoreError)
              | Some s \<Rightarrow>
                  (note_audit cfg ''approval.requested''
                     [(''id'', AStr (rq_ID req)), (''requester'', AStr (rq_Requester req)),
                      (''resource'', AStr (rq_Resource req)), (''required'', AInt required)]
                     (m\<lparr>am_store := s\<rparr>), Inr req))"

definition policy_verdict :: "approval_config \<Rightarrow> string \<Rightarrow> string \<Rightarrow> string \<Rightarrow> string option" where
  "policy_verdict cfg tenantID reqID approver =
     (case ac_Policy cfg of
        None \<Rightarrow> None
      | Some can \<Rightarrow> (case can tenantID reqID approver of (allowed, reason) \<Rightarrow>
                       if allowed then None else Some reason))"

definition has_approved :: "string \<Rightarrow> Request \<Rightarrow> bool" where
  "has_approved approver req =
     list_ex (\<lambda>a. ap_Approver a = approver \<and> ap_Decision a = Approve_decision) (rq_Approvals req)"

text \<open>The part of \<^verbatim>\<open>Approve\<close> after every guard has passed: record, and issue on quorum.\<close>

definition record_approval ::
  "'st save_op \<Rightarrow> approval_config \<Rightarrow> gotime \<Rightarrow> string \<Rightarrow> string \<Rightarrow> string \<Rightarrow> Request \<Rightarrow> 'st manager \<Rightarrow>
   'st approval_result" where
  "record_approval save cfg now tenantID reqID approver req0 m0 =
     (let req = req0\<lparr>rq_Approvals := rq_Approvals req0 @
                 [\<lparr>ap_Approver = approver, ap_Decision = Approve_decision, ap_At = now\<rparr>]\<rparr>;
          m = note_audit cfg ''approval.approved'' [(''id'', AStr (rq_ID req)),
                (''approver'', AStr approver), (''requester'', AStr (rq_Requester req))] m0
      in if approveCount req \<ge> rq_RequiredApprovals req
         then let approved = req\<lparr>rq_State := Approved\<rparr>;
                  m1 = m\<lparr>am_calls := am_calls m @ [approved]\<rparr>
              in case ac_Issue cfg (length (am_calls m)) tenantID reqID (rq_Resource req) of
                   None \<Rightarrow> (save_quietly save approved m1, Inl IssueFailed)
                 | Some credID \<Rightarrow>
                     save_and_return save (approved\<lparr>rq_State := Issued, rq_CredentialID := credID\<rparr>)
                       (note_audit cfg ''approval.issued''
                          [(''id'', AStr (rq_ID req)), (''credential_id'', AStr credID)] m1)
         else save_and_return save req m)"

definition Approve ::
  "'st save_op \<Rightarrow> 'st get_op \<Rightarrow> approval_config \<Rightarrow> gotime \<Rightarrow> string \<Rightarrow> string \<Rightarrow> string \<Rightarrow> 'st manager \<Rightarrow>
   'st approval_result" where
  "Approve save get cfg now tenantID reqID approver m =
     (case get tenantID reqID (am_store m) of
        None \<Rightarrow> (m, Inl StoreError)
      | Some None \<Rightarrow> (m, Inl (UnknownRequest reqID))
      | Some (Some req) \<Rightarrow>
          if rq_State req = Issued \<or> rq_State req = Denied then (m, Inr req)
          else if rq_State req = Expired then (m, Inl (RequestExpired reqID))
          else if now > rq_ExpiresAt req
          then (note_audit cfg ''approval.expired'' [(''id'', AStr (rq_ID req))]
                  (save_quietly save (req\<lparr>rq_State := Expired\<rparr>) m), Inl (RequestExpired reqID))
          else if approver = rq_Requester req
          then (note_audit cfg ''approval.refused'' [(''id'', AStr (rq_ID req)), (''approver'', AStr approver),
                  (''reason'', AStr ''self-approval'')] m, Inl SelfApproval)
          else (case policy_verdict cfg tenantID reqID approver of
                  Some reason \<Rightarrow>
                    (note_audit cfg ''approval.refused'' [(''id'', AStr (rq_ID req)),
                       (''approver'', AStr approver), (''reason'', AStr reason)] m,
                     Inl (NotPermitted approver reason))
                | None \<Rightarrow>
                    if has_approved approver req then (m, Inr req)
                    else record_approval save cfg now tenantID reqID approver req m))"

definition Deny ::
  "'st save_op \<Rightarrow> 'st get_op \<Rightarrow> approval_config \<Rightarrow> gotime \<Rightarrow> string \<Rightarrow> string \<Rightarrow> string \<Rightarrow> string \<Rightarrow>
   'st manager \<Rightarrow> 'st approval_result" where
  "Deny save get cfg now tenantID reqID approver reason m =
     (case get tenantID reqID (am_store m) of
        None \<Rightarrow> (m, Inl StoreError)
      | Some None \<Rightarrow> (m, Inl (UnknownRequest reqID))
      | Some (Some req) \<Rightarrow>
          if rq_State req = Issued then (m, Inl (AlreadyIssued reqID))
          else if rq_State req = Denied then (m, Inr req)
          else let req' = req\<lparr>rq_Approvals := rq_Approvals req @
                       [\<lparr>ap_Approver = approver, ap_Decision = Deny_decision, ap_At = now\<rparr>],
                     rq_State := Denied\<rparr>
               in case save req' (am_store m) of
                    None \<Rightarrow> (m, Inl StoreError)
                  | Some s \<Rightarrow>
                      (note_audit cfg ''approval.denied'' [(''id'', AStr (rq_ID req)),
                         (''approver'', AStr approver), (''reason'', AStr reason)]
                         (m\<lparr>am_store := s\<rparr>), Inr req'))"

definition Approval_Get ::
  "'st get_op \<Rightarrow> string \<Rightarrow> string \<Rightarrow> 'st manager \<Rightarrow> approval_error + Request" where
  "Approval_Get get tenantID reqID m =
     (case get tenantID reqID (am_store m) of
        None \<Rightarrow> Inl StoreError
      | Some None \<Rightarrow> Inl (UnknownRequest reqID)
      | Some (Some req) \<Rightarrow> Inr req)"

section \<open>The in-memory store\<close>

type_synonym memory_store = "string \<Rightarrow> Request option"

definition MemoryStore_Save :: "memory_store save_op" where
  "MemoryStore_Save req s = Some (s(tenant_key (rq_TenantID req) (rq_ID req) \<mapsto> req))"

definition MemoryStore_Get :: "memory_store get_op" where
  "MemoryStore_Get tenantID i s = Some (s (tenant_key tenantID i))"

section \<open>Well-formed requests\<close>

definition approvers :: "Request \<Rightarrow> string list" where
  "approvers r = map ap_Approver (filter (\<lambda>a. ap_Decision a = Approve_decision) (rq_Approvals r))"

definition req_wf :: "Request \<Rightarrow> bool" where
  "req_wf r =
     (distinct (approvers r) \<and> rq_Requester r \<notin> set (approvers r) \<and> 0 < rq_RequiredApprovals r
      \<and> (rq_State r = Issued \<longrightarrow> rq_RequiredApprovals r \<le> approveCount r)
      \<and> (\<forall>a \<in> set (rq_Approvals r). ap_Decision a = Approve_decision \<longrightarrow> ap_At a \<le> rq_ExpiresAt r))"

lemma approveCount_approvers: "approveCount r = int (length (approvers r))"
  by (simp add: approveCount_def approvers_def)

lemma has_approved_iff: "has_approved a r \<longleftrightarrow> a \<in> set (approvers r)"
  by (auto simp: has_approved_def approvers_def list_ex_iff image_iff)

lemma req_wf_approve:
  assumes "req_wf r" and "approver \<noteq> rq_Requester r" and "\<not> has_approved approver r" and "now \<le> rq_ExpiresAt r"
    and "s = Issued \<Longrightarrow> rq_RequiredApprovals r \<le> approveCount r + 1"
  shows "req_wf (r\<lparr>rq_Approvals := rq_Approvals r @
      [\<lparr>ap_Approver = approver, ap_Decision = Approve_decision, ap_At = now\<rparr>], rq_State := s, rq_CredentialID := c\<rparr>)"
  using assms by (auto simp: req_wf_def approvers_def approveCount_def has_approved_def list_ex_iff)

lemma req_wf_state: "req_wf r \<Longrightarrow> s \<noteq> Issued \<Longrightarrow> req_wf (r\<lparr>rq_State := s\<rparr>)"
  by (auto simp: req_wf_def approvers_def approveCount_def)

lemma req_wf_deny:
  "req_wf r \<Longrightarrow> req_wf (r\<lparr>rq_Approvals := rq_Approvals r @
      [\<lparr>ap_Approver = approver, ap_Decision = Deny_decision, ap_At = now\<rparr>], rq_State := Denied\<rparr>)"
  by (auto simp: req_wf_def approvers_def approveCount_def)

section \<open>The store interface\<close>

text \<open>
  What the manager relies on: a saved request is read back under its tenant and id, and a save
  changes nothing else. \<open>ok\<close> restricts the tenants for which the provider keeps keys apart.
\<close>

locale approval_store =
  fixes save :: "'st save_op" and get :: "'st get_op" and ok :: "string \<Rightarrow> bool"
  assumes get_save_same: "save req s = Some s' \<Longrightarrow> get (rq_TenantID req) (rq_ID req) s' = Some (Some req)"
    and get_save_other: "ok tn \<Longrightarrow> ok (rq_TenantID req) \<Longrightarrow> (tn, i) \<noteq> (rq_TenantID req, rq_ID req) \<Longrightarrow>
      save req s = Some s' \<Longrightarrow> get tn i s' = get tn i s"
begin

definition store_inv :: "'st \<Rightarrow> bool" where
  "store_inv s = (\<forall>tn i r. ok tn \<longrightarrow> get tn i s = Some (Some r) \<longrightarrow> rq_TenantID r = tn \<and> rq_ID r = i \<and> req_wf r)"

definition manager_inv :: "'st manager \<Rightarrow> bool" where
  "manager_inv m = (store_inv (am_store m) \<and>
     (\<forall>r \<in> set (am_calls m). req_wf r \<and> rq_RequiredApprovals r \<le> approveCount r))"

lemma store_inv_save:
  assumes "store_inv s" and "save req s = Some s'" and "req_wf req" and "ok (rq_TenantID req)"
  shows "store_inv s'"
  unfolding store_inv_def
proof (intro allI impI)
  fix tn i r
  assume tn: "ok tn" and r: "get tn i s' = Some (Some r)"
  show "rq_TenantID r = tn \<and> rq_ID r = i \<and> req_wf r"
  proof (cases "(tn, i) = (rq_TenantID req, rq_ID req)")
    case True
    with r get_save_same [OF assms(2)] assms(3) show ?thesis by simp
  next
    case False
    have "get tn i s = Some (Some r)"
      using get_save_other [OF tn assms(4) False assms(2)] r by simp
    with assms(1) tn show ?thesis unfolding store_inv_def by blast
  qed
qed

lemma manager_inv_note [simp]: "manager_inv (note_audit cfg e f m) = manager_inv m"
  by (simp add: manager_inv_def note_audit_def)

lemma manager_inv_save:
  "manager_inv m \<Longrightarrow> save req (am_store m) = Some s \<Longrightarrow> req_wf req \<Longrightarrow> ok (rq_TenantID req) \<Longrightarrow>
     manager_inv (m\<lparr>am_store := s\<rparr>)"
  using store_inv_save by (auto simp: manager_inv_def)

lemma manager_inv_save_quietly:
  "manager_inv m \<Longrightarrow> req_wf req \<Longrightarrow> ok (rq_TenantID req) \<Longrightarrow> manager_inv (save_quietly save req m)"
  by (auto simp: save_quietly_def intro: manager_inv_save split: option.splits)

lemma manager_inv_save_and_return:
  "manager_inv m \<Longrightarrow> req_wf req \<Longrightarrow> ok (rq_TenantID req) \<Longrightarrow> manager_inv (fst (save_and_return save req m))"
  by (auto simp: save_and_return_def intro: manager_inv_save split: option.splits)

lemma manager_inv_call:
  "manager_inv m \<Longrightarrow> req_wf r \<Longrightarrow> rq_RequiredApprovals r \<le> approveCount r \<Longrightarrow>
     manager_inv (m\<lparr>am_calls := am_calls m @ [r]\<rparr>)"
  by (auto simp: manager_inv_def)

lemma RequestIssuance_inv:
  assumes "manager_inv m" and "ok (ac_TenantID cfg)" and "0 < ac_DefaultRequiredApprovals cfg"
  shows "manager_inv (fst (RequestIssuance save cfg now spec m))"
proof -
  have step: "manager_inv (fst (case save req (am_store m) of None \<Rightarrow> (m, Inl StoreError)
      | Some s \<Rightarrow> (note_audit cfg e f (m\<lparr>am_store := s\<rparr>), Inr req)))"
    if "req_wf req" "rq_TenantID req = ac_TenantID cfg" for req e f
    using assms(1,2) that by (auto split: option.splits intro: manager_inv_save)
  show ?thesis
    unfolding RequestIssuance_def Let_def
    using assms by (auto simp del: manager_inv_note intro!: step simp: req_wf_def approvers_def)
qed

lemma record_approval_inv:
  assumes "manager_inv m" and "ok (rq_TenantID r)" and "req_wf r" and "approver \<noteq> rq_Requester r"
    and "\<not> has_approved approver r" and "now \<le> rq_ExpiresAt r" and "rq_State r \<noteq> Issued"
  shows "manager_inv (fst (record_approval save cfg now tn i approver r m))"
proof -
  let ?as = "rq_Approvals r @ [\<lparr>ap_Approver = approver, ap_Decision = Approve_decision, ap_At = now\<rparr>]"
  have wf: "req_wf (r\<lparr>rq_Approvals := ?as, rq_State := s, rq_CredentialID := c\<rparr>)"
    if "s = Issued \<Longrightarrow> rq_RequiredApprovals r \<le> approveCount r + 1" for s c
    using req_wf_approve [OF assms(3-6) that] .
  have same: "r\<lparr>rq_Approvals := ?as\<rparr> = r\<lparr>rq_Approvals := ?as, rq_State := rq_State r, rq_CredentialID := rq_CredentialID r\<rparr>"
    and same': "r\<lparr>rq_Approvals := ?as, rq_State := s\<rparr> = r\<lparr>rq_Approvals := ?as, rq_State := s, rq_CredentialID := rq_CredentialID r\<rparr>" for s
    by simp_all
  have count: "approveCount (r\<lparr>rq_Approvals := ?as\<rparr>) = approveCount r + 1"
    "approveCount (r\<lparr>rq_Approvals := ?as, rq_State := s\<rparr>) = approveCount r + 1" for s
    by (simp_all add: approveCount_def)
  have wf_now: "req_wf (r\<lparr>rq_Approvals := ?as\<rparr>)" using wf [of "rq_State r"] assms(7) same by metis
  have wf_approved: "req_wf (r\<lparr>rq_Approvals := ?as, rq_State := Approved\<rparr>)"
    using wf [of Approved "rq_CredentialID r"] same' by simp
  show ?thesis
  proof (cases "approveCount (r\<lparr>rq_Approvals := ?as\<rparr>) \<ge> rq_RequiredApprovals r")
    case False
    with assms(1,2) wf_now show ?thesis
      by (simp add: record_approval_def Let_def manager_inv_save_and_return)
  next
    case True
    let ?m = "note_audit cfg ''approval.approved'' [(''id'', AStr (rq_ID r)), (''approver'', AStr approver),
        (''requester'', AStr (rq_Requester r))] m"
    let ?m1 = "?m\<lparr>am_calls := am_calls ?m @ [r\<lparr>rq_Approvals := ?as, rq_State := Approved\<rparr>]\<rparr>"
    have m1: "manager_inv ?m1"
      using assms(1) wf_approved True count by (intro manager_inv_call) simp_all
    have issued: "req_wf (r\<lparr>rq_Approvals := ?as, rq_State := Issued, rq_CredentialID := c\<rparr>)" for c
      using wf [of Issued] True count by simp
    show ?thesis
    proof (cases "ac_Issue cfg (length (am_calls ?m)) tn i (rq_Resource r)")
      case None
      with True m1 assms(2) wf_approved show ?thesis
        by (simp add: record_approval_def Let_def manager_inv_save_quietly)
    next
      case (Some c)
      with True m1 assms(2) issued [of c] show ?thesis
        by (simp add: record_approval_def Let_def manager_inv_save_and_return)
    qed
  qed
qed
end

text \<open>Any sequence of calls by anyone, at any times, for any tenants the store keeps apart.\<close>

inductive approval_step ::
  "'st save_op \<Rightarrow> 'st get_op \<Rightarrow> (string \<Rightarrow> bool) \<Rightarrow> approval_config \<Rightarrow> 'st manager \<Rightarrow> 'st manager \<Rightarrow> bool"
  for save get ok cfg where
  step_request: "approval_step save get ok cfg m (fst (RequestIssuance save cfg now spec m))"
| step_approve: "ok tn \<Longrightarrow> approval_step save get ok cfg m (fst (Approve save get cfg now tn i approver m))"
| step_deny: "ok tn \<Longrightarrow> approval_step save get ok cfg m (fst (Deny save get cfg now tn i approver reason m))"

context approval_store
begin

lemma stored_wf:
  "manager_inv m \<Longrightarrow> ok tn \<Longrightarrow> get tn i (am_store m) = Some (Some r) \<Longrightarrow>
     rq_TenantID r = tn \<and> rq_ID r = i \<and> req_wf r"
  by (auto simp: manager_inv_def store_inv_def)

lemma Approve_inv:
  assumes "manager_inv m" and "ok tn"
  shows "manager_inv (fst (Approve save get cfg now tn i approver m))"
proof (cases "\<exists>r. get tn i (am_store m) = Some (Some r)")
  case True
  then obtain r where r: "get tn i (am_store m) = Some (Some r)" by blast
  with assms have wf: "rq_TenantID r = tn" "req_wf r" using stored_wf by blast+
  then have "manager_inv (save_quietly save (r\<lparr>rq_State := Expired\<rparr>) m)"
    using assms by (intro manager_inv_save_quietly req_wf_state) simp_all
  with r assms wf show ?thesis
    by (auto simp: Approve_def split: option.splits intro!: record_approval_inv)
next
  case False
  with assms show ?thesis by (auto simp: Approve_def split: option.splits)
qed

lemma Deny_inv:
  assumes "manager_inv m" and "ok tn"
  shows "manager_inv (fst (Deny save get cfg now tn i approver reason m))"
proof (cases "\<exists>r. get tn i (am_store m) = Some (Some r)")
  case True
  then obtain r where r: "get tn i (am_store m) = Some (Some r)" by blast
  with assms have wf: "rq_TenantID r = tn" "req_wf r" using stored_wf by blast+
  let ?r = "r\<lparr>rq_Approvals := rq_Approvals r @
      [\<lparr>ap_Approver = approver, ap_Decision = Deny_decision, ap_At = now\<rparr>], rq_State := Denied\<rparr>"
  have "manager_inv (m\<lparr>am_store := s\<rparr>)" if "save ?r (am_store m) = Some s" for s
    using manager_inv_save [OF assms(1) that req_wf_deny [OF wf(2)]] wf assms(2) by simp
  with r assms(1) show ?thesis by (auto simp: Deny_def Let_def split: option.splits)
next
  case False
  with assms show ?thesis by (auto simp: Deny_def split: option.splits)
qed

lemma run_inv:
  assumes "(approval_step save get ok cfg)\<^sup>*\<^sup>* m m'" and "manager_inv m"
    and "ok (ac_TenantID cfg)" and "0 < ac_DefaultRequiredApprovals cfg"
  shows "manager_inv m'"
  using assms(1,2)
proof (induction rule: rtranclp_induct)
  case (step m1 m2)
  from step.hyps(2) step.IH [OF step.prems] assms(3,4) show ?case
    by (cases rule: approval_step.cases) (auto intro: RequestIssuance_inv Approve_inv Deny_inv)
qed

end

interpretation ms: approval_store MemoryStore_Save MemoryStore_Get plain_tenant
  by unfold_locales (auto simp: MemoryStore_Save_def MemoryStore_Get_def tenant_key_inject)

section \<open>Dual control\<close>

definition new_manager :: "memory_store manager" where
  "new_manager = \<lparr>am_store = Map.empty, am_audit = [], am_calls = []\<rparr>"

abbreviation (input) mem_step_approval where
  "mem_step_approval \<equiv> approval_step MemoryStore_Save MemoryStore_Get plain_tenant"

lemma New_defaults:
  "New cfg0 = Some cfg \<Longrightarrow> 0 < ac_DefaultRequiredApprovals cfg \<and> 0 < ac_DefaultTTL cfg"
  by (auto simp: New_def Let_def split: if_splits)

lemma new_manager_inv: "ms.manager_inv new_manager"
  by (simp add: ms.manager_inv_def ms.store_inv_def new_manager_def MemoryStore_Get_def)

lemma quorum_of_wf:
  assumes "req_wf r" and "rq_RequiredApprovals r \<le> approveCount r"
  shows "\<exists>A. finite A \<and> rq_RequiredApprovals r \<le> int (card A) \<and> rq_Requester r \<notin> A
    \<and> (\<forall>p \<in> A. \<exists>a \<in> set (rq_Approvals r). ap_Approver a = p \<and> ap_Decision a = Approve_decision
         \<and> ap_At a \<le> rq_ExpiresAt r)"
proof (intro exI [of _ "set (approvers r)"] conjI)
  show "rq_RequiredApprovals r \<le> int (card (set (approvers r)))"
    using assms by (simp add: req_wf_def approveCount_approvers distinct_card)
qed (use assms in \<open>auto simp: req_wf_def approvers_def\<close>)

text \<open>C27: Nothing is issued without dual control. However requests, approvals and denials are
  interleaved, every call of the issuer was made for a request that at that moment carried approvals by
  at least its required number of distinct people, none of them the requester and each given
  before the request expired, and that number is at least one; and the same holds of every request
  the store reports as issued.
\<close>

theorem issued_only_with_quorum:
  assumes "New cfg0 = Some cfg" and "plain_tenant (ac_TenantID cfg)"
    and "(mem_step_approval cfg)\<^sup>*\<^sup>* new_manager m"
    and "r \<in> set (am_calls m)
      \<or> plain_tenant tn \<and> MemoryStore_Get tn i (am_store m) = Some (Some r) \<and> rq_State r = Issued"
  shows "0 < rq_RequiredApprovals r \<and>
    (\<exists>A. finite A \<and> rq_RequiredApprovals r \<le> int (card A) \<and> rq_Requester r \<notin> A
      \<and> (\<forall>p \<in> A. \<exists>a \<in> set (rq_Approvals r). ap_Approver a = p \<and> ap_Decision a = Approve_decision
           \<and> ap_At a \<le> rq_ExpiresAt r))"
proof -
  have "ms.manager_inv m"
    using ms.run_inv [OF assms(3) new_manager_inv assms(2)] New_defaults [OF assms(1)] by blast
  then have "req_wf r \<and> rq_RequiredApprovals r \<le> approveCount r"
    using assms(4) ms.stored_wf [of m tn i r] by (auto simp: ms.manager_inv_def req_wf_def)
  then show ?thesis using quorum_of_wf [of r] by (auto simp: req_wf_def)
qed

definition demo_cfg :: approval_config where
  "demo_cfg = \<lparr>ac_TenantID = ''t1'', ac_Policy = None, ac_Issue = (\<lambda>n t i r. Some ''cred''),
               ac_DefaultTTL = hour, ac_DefaultRequiredApprovals = 2\<rparr>"

definition demo_spec :: RequestSpec where
  "demo_spec = \<lparr>rs_ID = ''r1'', rs_Kind = '''', rs_Resource = ''cn=web'', rs_Requester = ''alice'',
                rs_Payload = '''', rs_RequiredApprovals = 0, rs_TTL = 0\<rparr>"

definition demo_approve :: "string \<Rightarrow> memory_store manager \<Rightarrow> memory_store manager" where
  "demo_approve who m = fst (Approve MemoryStore_Save MemoryStore_Get demo_cfg 5 ''t1'' ''r1'' who m)"

definition demo_requested :: "memory_store manager" where
  "demo_requested = fst (RequestIssuance MemoryStore_Save demo_cfg 0 demo_spec new_manager)"

lemmas approval_eval =
  Approve_def RequestIssuance_def record_approval_def save_and_return_def save_quietly_def note_audit_def
  MemoryStore_Save_def MemoryStore_Get_def tenant_key_def policy_verdict_def has_approved_def
  approveCount_def Let_def

theorem issued_only_with_quorum_witness:
  "\<exists>m r. (mem_step_approval demo_cfg)\<^sup>*\<^sup>* new_manager m \<and> r \<in> set (am_calls m)
     \<and> 0 < rq_RequiredApprovals r \<and> rq_Requester r = ''alice''"
proof -
  let ?m1 = demo_requested
  let ?m2 = "demo_approve ''bob'' ?m1"
  let ?m3 = "demo_approve ''carol'' ?m2"
  have t1: "plain_tenant ''t1''" by (simp add: plain_tenant_def)
  have "(mem_step_approval demo_cfg)\<^sup>*\<^sup>* new_manager ?m1"
    unfolding demo_requested_def by (rule r_into_rtranclp) (rule step_request)
  also have "mem_step_approval demo_cfg ?m1 ?m2"
    unfolding demo_approve_def by (rule step_approve) (rule t1)
  also have "mem_step_approval demo_cfg ?m2 ?m3"
    unfolding demo_approve_def by (rule step_approve) (rule t1)
  finally have run: "(mem_step_approval demo_cfg)\<^sup>*\<^sup>* new_manager ?m3" .
  obtain r where r: "r \<in> set (am_calls ?m3)" "rq_Requester r = ''alice''"
    by (simp add: demo_approve_def demo_requested_def new_manager_def approval_eval demo_cfg_def demo_spec_def)
  have "New demo_cfg = Some demo_cfg" "plain_tenant (ac_TenantID demo_cfg)"
    by (simp_all add: New_def demo_cfg_def plain_tenant_def)
  from issued_only_with_quorum [OF this run disjI1 [OF r(1)]] run r show ?thesis by blast
qed

section \<open>Terminal states\<close>

text \<open>
  A decision is final for approvers. Once a stored request is issued or denied, no approval
  and no denial, by anyone at any time, changes the store or calls the issuer; an approval returns
  the request as it is, and a denial of an issued request is an error.
\<close>

theorem decided_requests_are_final:
  assumes "MemoryStore_Get tn i (am_store m) = Some (Some r)" and "rq_State r = Issued \<or> rq_State r = Denied"
  shows "Approve MemoryStore_Save MemoryStore_Get cfg now tn i approver m = (m, Inr r)
    \<and> Deny MemoryStore_Save MemoryStore_Get cfg now tn i approver reason m =
        (m, if rq_State r = Issued then Inl (AlreadyIssued i) else Inr r)"
  using assms by (auto simp: Approve_def Deny_def)

theorem decided_requests_are_final_witness:
  "\<exists>m r. MemoryStore_Get ''t1'' ''r1'' (am_store m) = Some (Some r) \<and> rq_State r = Denied
     \<and> Approve MemoryStore_Save MemoryStore_Get demo_cfg 9 ''t1'' ''r1'' ''carol'' m = (m, Inr r)"
proof -
  let ?m = "fst (Deny MemoryStore_Save MemoryStore_Get demo_cfg 5 ''t1'' ''r1'' ''bob'' ''no'' demo_requested)"
  obtain r where r: "MemoryStore_Get ''t1'' ''r1'' (am_store ?m) = Some (Some r)" "rq_State r = Denied"
    by (simp add: demo_requested_def new_manager_def approval_eval Deny_def demo_cfg_def demo_spec_def)
  from decided_requests_are_final [OF r(1) disjI2 [OF r(2)], of demo_cfg 9 "''carol''"] r show ?thesis by blast
qed

text \<open>
  A request whose issuance failed cannot be retried by its approvers. When quorum was
  reached but the issuer returned an error, the stored request stays approved, and a repeated
  approval by anyone who already approved reports success while it neither calls the issuer nor
  changes the store.
\<close>

theorem failed_issuance_is_not_retried:
  assumes "MemoryStore_Get tn i (am_store m) = Some (Some r)" and "rq_State r = Approved"
    and "now \<le> rq_ExpiresAt r" and "approver \<noteq> rq_Requester r" and "has_approved approver r"
    and "policy_verdict cfg tn i approver = None"
  shows "Approve MemoryStore_Save MemoryStore_Get cfg now tn i approver m = (m, Inr r)"
  using assms by (simp add: Approve_def)

definition failing_cfg :: approval_config where
  "failing_cfg = demo_cfg\<lparr>ac_Issue := (\<lambda>n t i r. if n = 0 then None else Some ''cred'')\<rparr>"

theorem failed_issuance_is_not_retried_witness:
  "\<exists>m r. MemoryStore_Get ''t1'' ''r1'' (am_store m) = Some (Some r) \<and> rq_State r = Approved
     \<and> Approve MemoryStore_Save MemoryStore_Get failing_cfg 9 ''t1'' ''r1'' ''carol'' m = (m, Inr r)"
proof -
  let ?m1 = "fst (RequestIssuance MemoryStore_Save failing_cfg 0 demo_spec new_manager)"
  let ?m2 = "fst (Approve MemoryStore_Save MemoryStore_Get failing_cfg 5 ''t1'' ''r1'' ''bob'' ?m1)"
  let ?m3 = "fst (Approve MemoryStore_Save MemoryStore_Get failing_cfg 6 ''t1'' ''r1'' ''carol'' ?m2)"
  obtain r where r: "MemoryStore_Get ''t1'' ''r1'' (am_store ?m3) = Some (Some r)" "rq_State r = Approved"
    "9 \<le> rq_ExpiresAt r" "''carol'' \<noteq> rq_Requester r" "has_approved ''carol'' r"
    by (simp add: new_manager_def approval_eval demo_cfg_def failing_cfg_def demo_spec_def)
  have "policy_verdict failing_cfg ''t1'' ''r1'' ''carol'' = None"
    by (simp add: policy_verdict_def failing_cfg_def demo_cfg_def)
  from failed_issuance_is_not_retried [OF r this] r show ?thesis by blast
qed

text \<open>
  A request id can be reopened. \<^verbatim>\<open>RequestIssuance\<close> with the id of a stored request, in whatever
  state, replaces it: an issued or denied request becomes a fresh one awaiting approval, with no
  approvals, no credential and the new requester.
\<close>

theorem RequestIssuance_overwrites:
  assumes "rs_ID spec \<noteq> ''''" and "rs_Requester spec \<noteq> ''''" and "rs_Resource spec \<noteq> ''''"
  shows "\<exists>r. MemoryStore_Get (ac_TenantID cfg) (rs_ID spec)
        (am_store (fst (RequestIssuance MemoryStore_Save cfg now spec m))) = Some (Some r)
    \<and> rq_State r = AwaitingApproval \<and> rq_Approvals r = [] \<and> rq_CredentialID r = ''''
    \<and> rq_Requester r = rs_Requester spec"
  using assms by (simp add: approval_eval)

theorem RequestIssuance_overwrites_witness:
  "\<exists>m r. MemoryStore_Get ''t1'' ''r1'' (am_store m) = Some (Some r) \<and> rq_State r = Issued
     \<and> (\<exists>r'. MemoryStore_Get (ac_TenantID demo_cfg) (rs_ID demo_spec)
           (am_store (fst (RequestIssuance MemoryStore_Save demo_cfg 9 demo_spec m))) = Some (Some r')
         \<and> rq_State r' = AwaitingApproval)"
proof -
  let ?m = "demo_approve ''carol'' (demo_approve ''bob'' demo_requested)"
  obtain r where r: "MemoryStore_Get ''t1'' ''r1'' (am_store ?m) = Some (Some r)" "rq_State r = Issued"
    by (simp add: demo_approve_def demo_requested_def new_manager_def approval_eval demo_cfg_def demo_spec_def)
  have "\<exists>r'. MemoryStore_Get (ac_TenantID demo_cfg) (rs_ID demo_spec)
           (am_store (fst (RequestIssuance MemoryStore_Save demo_cfg 9 demo_spec ?m))) = Some (Some r')
         \<and> rq_State r' = AwaitingApproval"
    using RequestIssuance_overwrites [of demo_spec demo_cfg 9 ?m] by (auto simp: demo_spec_def)
  with r show ?thesis by blast
qed

end
