(* ===== verification/AuditChain.thy ===== *)
theory AuditChain
  imports Prelude
begin

text \<open>
  The tamper-evident audit chain (\<^verbatim>\<open>internal/audit\<close>): sealing and verifying a hash chain over
  records, the tenant-scoped search that derives records from the event log, signed evidence
  bundles, and the retention pass that archives a prefix and prunes it.

  Parameters: \<open>H\<close> is \<^verbatim>\<open>crypto.SHA256Hex\<close>, \<open>canon\<close> the JSON text of a record's covered fields (\<open>None\<close>
  where \<^verbatim>\<open>json.Marshal\<close> fails, as it does for a \<^verbatim>\<open>RawMessage\<close> that is not JSON), \<open>sign\<close>/\<open>verify\<close> the JWS
  of a bundle's JSON, \<open>ledger\<close> the feature catalogue and \<open>redact\<close> the privacy redaction of an event.
\<close>

section \<open>Records and the chain\<close>

record Actor =
  actor_Subject :: string
  actor_Roles :: "string list"

record Record =
  rc_Sequence :: nat
  rc_StreamSequence :: nat
  rc_ID :: string
  rc_Type :: string
  rc_TenantID :: string
  rc_Time :: gotime
  rc_Actor :: "Actor option"
  rc_Data :: bytes
  rc_Hash :: string

text \<open>The hash-covered fields: everything but the stream sequence and the hash itself.\<close>

record recordCore =
  co_Sequence :: nat
  co_ID :: string
  co_Type :: string
  co_TenantID :: string
  co_Time :: gotime
  co_Actor :: "Actor option"
  co_Data :: bytes

definition core_of :: "Record \<Rightarrow> recordCore" where
  "core_of r = \<lparr>co_Sequence = rc_Sequence r, co_ID = rc_ID r, co_Type = rc_Type r, co_TenantID = rc_TenantID r,
                co_Time = rc_Time r, co_Actor = rc_Actor r, co_Data = rc_Data r\<rparr>"

type_synonym canon = "recordCore \<Rightarrow> bytes option"
type_synonym hash = "bytes \<Rightarrow> string"

definition link :: "hash \<Rightarrow> canon \<Rightarrow> string \<Rightarrow> Record \<Rightarrow> string option" where
  "link H canon prevHash r =
     (case canon (core_of r) of None \<Rightarrow> None | Some c \<Rightarrow> Some (H (prevHash @ c)))"

text \<open>The records with their hashes filled in, and the head.\<close>

fun SealFrom :: "hash \<Rightarrow> canon \<Rightarrow> string \<Rightarrow> Record list \<Rightarrow> Record list \<times> string" where
  "SealFrom H canon prev [] = ([], prev)"
| "SealFrom H canon prev (r # rs) =
     (case link H canon prev r of
        None \<Rightarrow> (let (rs', head) = SealFrom H canon prev rs in (r\<lparr>rc_Hash := ''''\<rparr> # rs', head))
      | Some h \<Rightarrow> (let (rs', head) = SealFrom H canon h rs in (r\<lparr>rc_Hash := h\<rparr> # rs', head)))"

definition Seal :: "hash \<Rightarrow> canon \<Rightarrow> Record list \<Rightarrow> Record list \<times> string" where
  "Seal H canon rs = SealFrom H canon '''' rs"

definition chainHead :: "Record list \<Rightarrow> string" where
  "chainHead rs = (if rs = [] then '''' else rc_Hash (last rs))"

datatype chain_error = MarshalFailed | TamperDetected nat nat string

fun verify_loop :: "hash \<Rightarrow> canon \<Rightarrow> nat \<Rightarrow> string \<Rightarrow> Record list \<Rightarrow> chain_error + string" where
  "verify_loop H canon i prev [] = Inr prev"
| "verify_loop H canon i prev (r # rs) =
     (case link H canon prev r of
        None \<Rightarrow> Inl MarshalFailed
      | Some want \<Rightarrow>
          if rc_Hash r \<noteq> want then Inl (TamperDetected i (rc_Sequence r) (rc_Type r))
          else verify_loop H canon (Suc i) want rs)"

definition VerifyChainFrom :: "hash \<Rightarrow> canon \<Rightarrow> string \<Rightarrow> Record list \<Rightarrow> chain_error + string" where
  "VerifyChainFrom H canon seed rs = verify_loop H canon 0 seed rs"

definition VerifyChain :: "hash \<Rightarrow> canon \<Rightarrow> Record list \<Rightarrow> chain_error + string" where
  "VerifyChain H canon rs = VerifyChainFrom H canon '''' rs"

section \<open>Search over the event log\<close>

record log_event =
  le_Sequence :: nat
  le_ID :: string
  le_Type :: string
  le_TenantID :: string
  le_Time :: gotime
  le_Actor :: "Actor option"
  le_Data :: bytes

record Query =
  q_TenantID :: string
  q_Types :: "string list"
  q_FeatureID :: string
  q_Action :: string
  q_Since :: gotime
  q_Until :: gotime
  q_AsOfSequence :: nat
  q_Contains :: string
  q_Limit :: int

definition tenant_query :: "string \<Rightarrow> Query" where
  "tenant_query tn = \<lparr>q_TenantID = tn, q_Types = [], q_FeatureID = '''', q_Action = '''', q_Since = 0,
                      q_Until = 0, q_AsOfSequence = 0, q_Contains = '''', q_Limit = 0\<rparr>"

record Checkpoint =
  cp_TenantID :: string
  cp_BoundarySeq :: nat
  cp_BoundaryHash :: string
  cp_RecordCount :: nat
  cp_ArchiveURI :: string

type_synonym checkpoints = "string \<Rightarrow> Checkpoint option"
type_synonym ledger = "string \<Rightarrow> string \<Rightarrow> string list option"

definition searchSeed :: "checkpoints \<Rightarrow> string \<Rightarrow> nat \<times> string \<times> nat" where
  "searchSeed cps tn =
     (if tn = '''' then (0, '''', 0)
      else case cps tn of
             None \<Rightarrow> (0, '''', 0)
           | Some cp \<Rightarrow> (cp_BoundarySeq cp + 1, cp_BoundaryHash cp, cp_RecordCount cp))"

definition str_contains :: "string \<Rightarrow> string \<Rightarrow> bool" where
  "str_contains s p = list_ex (\<lambda>t. has_prefix t p) (suffixes s)"

definition matches :: "ledger \<Rightarrow> Query \<Rightarrow> log_event \<Rightarrow> nat \<Rightarrow> bool" where
  "matches ledger q e tenantSequence =
     (if q_AsOfSequence q \<noteq> 0 \<and> tenantSequence > q_AsOfSequence q then False
      else if q_Since q \<noteq> 0 \<and> le_Time e < q_Since q then False
      else if q_Until q \<noteq> 0 \<and> le_Time e > q_Until q then False
      else if q_Types q \<noteq> [] \<and> le_Type e \<notin> set (q_Types q) then False
      else if (case ledger (q_FeatureID q) (q_Action q) of None \<Rightarrow> False | Some ts \<Rightarrow> le_Type e \<notin> set ts) then False
      else if q_Contains q \<noteq> '''' \<and> \<not> str_contains (le_Type e) (q_Contains q)
              \<and> \<not> str_contains (le_Data e) (q_Contains q) then False
      else True)"

text \<open>The replay callback of \<^verbatim>\<open>Search\<close>: the ordinal counts the tenant's events, matching or not.\<close>

fun search_loop ::
  "ledger \<Rightarrow> (log_event \<Rightarrow> log_event) \<Rightarrow> Query \<Rightarrow> nat \<Rightarrow> log_event list \<Rightarrow> Record list" where
  "search_loop ledger redact q ordinal [] = []"
| "search_loop ledger redact q ordinal (e # es) =
     (if le_TenantID e \<noteq> q_TenantID q then search_loop ledger redact q ordinal es
      else let red = redact e; n = Suc ordinal; rest = search_loop ledger redact q n es
           in if \<not> matches ledger q red n then rest
              else \<lparr>rc_Sequence = n, rc_StreamSequence = le_Sequence e, rc_ID = le_ID e, rc_Type = le_Type e,
                    rc_TenantID = le_TenantID e, rc_Time = le_Time e, rc_Actor = le_Actor red,
                    rc_Data = le_Data red, rc_Hash = ''''\<rparr> # rest)"

datatype audit_error = MissingTenant | ChainError chain_error | BadSignature | HeadMismatch

record service =
  sv_H :: hash
  sv_canon :: canon
  sv_ledger :: ledger
  sv_redact :: "string \<Rightarrow> log_event \<Rightarrow> log_event"

definition Search ::
  "service \<Rightarrow> checkpoints \<Rightarrow> log_event list \<Rightarrow> Query \<Rightarrow> audit_error + Record list" where
  "Search sv cps log q =
     (if q_TenantID q = '''' then Inl MissingTenant
      else let (frm, seed, ordinal) = searchSeed cps (q_TenantID q);
               out = search_loop (sv_ledger sv) (sv_redact sv (q_TenantID q)) q ordinal
                       (filter (\<lambda>e. frm \<le> le_Sequence e) log);
               out = (if q_Limit q > 0 \<and> int (length out) > q_Limit q then take (nat (q_Limit q)) out else out)
           in Inr (fst (SealFrom (sv_H sv) (sv_canon sv) seed out)))"

text \<open>\<^verbatim>\<open>Service.VerifyChain\<close>.\<close>

definition Service_VerifyChain ::
  "service \<Rightarrow> checkpoints \<Rightarrow> log_event list \<Rightarrow> string \<Rightarrow> audit_error + string" where
  "Service_VerifyChain sv cps log tn =
     (case Search sv cps log (tenant_query tn) of
        Inl err \<Rightarrow> Inl err
      | Inr recs \<Rightarrow>
          (case VerifyChainFrom (sv_H sv) (sv_canon sv) (fst (snd (searchSeed cps tn))) recs of
             Inl err \<Rightarrow> Inl (ChainError err)
           | Inr head \<Rightarrow> Inr head))"

section \<open>Evidence bundles\<close>

record Bundle =
  bu_TenantID :: string
  bu_GeneratedAt :: gotime
  bu_Query :: Query
  bu_Records :: "Record list"
  bu_Count :: nat
  bu_PrevHash :: string
  bu_ChainHead :: string

definition Export ::
  "service \<Rightarrow> (Bundle \<Rightarrow> 'j) \<Rightarrow> gotime \<Rightarrow> checkpoints \<Rightarrow> log_event list \<Rightarrow> Query \<Rightarrow> audit_error + 'j" where
  "Export sv sign now cps log q =
     (case Search sv cps log q of
        Inl err \<Rightarrow> Inl err
      | Inr recs \<Rightarrow>
          Inr (sign \<lparr>bu_TenantID = q_TenantID q, bu_GeneratedAt = now, bu_Query = q, bu_Records = recs,
                     bu_Count = length recs, bu_PrevHash = fst (snd (searchSeed cps (q_TenantID q))),
                     bu_ChainHead = chainHead recs\<rparr>))"

definition VerifyBundle ::
  "hash \<Rightarrow> canon \<Rightarrow> ('j \<Rightarrow> Bundle option) \<Rightarrow> 'j \<Rightarrow> audit_error + Bundle" where
  "VerifyBundle H canon verify signed =
     (case verify signed of
        None \<Rightarrow> Inl BadSignature
      | Some b \<Rightarrow>
          (case VerifyChainFrom H canon (bu_PrevHash b) (bu_Records b) of
             Inl err \<Rightarrow> Inl (ChainError err)
           | Inr head \<Rightarrow> if head \<noteq> bu_ChainHead b then Inl HeadMismatch else Inr b))"

text \<open>What survives the bundle's JSON: the stream sequence is not serialized.\<close>

definition wire :: "Bundle \<Rightarrow> Bundle" where
  "wire b = b\<lparr>bu_Records := map (\<lambda>r. r\<lparr>rc_StreamSequence := 0\<rparr>) (bu_Records b)\<rparr>"

section \<open>Retention\<close>

record 'j audit_store =
  as_log :: "log_event list"
  as_checkpoints :: checkpoints
  as_archive :: "(string \<times> nat \<times> 'j) list"

datatype retention_error = RetentionSearch audit_error | MissingStreamSequence | SegmentRejected audit_error

text \<open>
  \<^verbatim>\<open>archiveTenant\<close>; \<open>uri\<close> names the archive object, \<open>archived\<close> builds the payload of the event that
  records the run, and \<open>i\<close> and \<open>sq\<close> are the id and stream sequence the log gives it.
\<close>

definition archiveTenant ::
  "service \<Rightarrow> (Bundle \<Rightarrow> 'j) \<Rightarrow> ('j \<Rightarrow> Bundle option) \<Rightarrow> (string \<Rightarrow> nat \<Rightarrow> string) \<Rightarrow>
   (nat \<Rightarrow> nat \<Rightarrow> string \<Rightarrow> string \<Rightarrow> bytes) \<Rightarrow> gotime \<Rightarrow> string \<Rightarrow> nat \<Rightarrow> string \<Rightarrow> gotime \<Rightarrow> 'j audit_store \<Rightarrow>
   'j audit_store \<times> (retention_error + nat)" where
  "archiveTenant sv sign verify uri archived now i sq tn cutoff st =
     (case Search sv (as_checkpoints st) (as_log st) (tenant_query tn) of
        Inl err \<Rightarrow> (st, Inl (RetentionSearch err))
      | Inr recs \<Rightarrow>
          let segment = takeWhile (\<lambda>r. rc_Time r \<le> cutoff) recs
          in if segment = [] then (st, Inr 0)
             else let boundary = last segment; prevSeed = fst (snd (searchSeed (as_checkpoints st) tn))
                  in if rc_StreamSequence boundary = 0 then (st, Inl MissingStreamSequence)
                     else let signed = sign \<lparr>bu_TenantID = tn, bu_GeneratedAt = now, bu_Query = tenant_query tn,
                                  bu_Records = segment, bu_Count = length segment, bu_PrevHash = prevSeed,
                                  bu_ChainHead = rc_Hash boundary\<rparr>
                          in case VerifyBundle (sv_H sv) (sv_canon sv) verify signed of
                               Inl err \<Rightarrow> (st, Inl (SegmentRejected err))
                             | Inr _ \<Rightarrow>
                                 let u = uri tn (rc_Sequence boundary);
                                     st1 = st\<lparr>as_archive := as_archive st @ [(tn, rc_Sequence boundary, signed)],
                                       as_checkpoints := (as_checkpoints st)(tn \<mapsto>
                                         \<lparr>cp_TenantID = tn, cp_BoundarySeq = rc_StreamSequence boundary,
                                          cp_BoundaryHash = rc_Hash boundary, cp_RecordCount = rc_Sequence boundary,
                                          cp_ArchiveURI = u\<rparr>)\<rparr>;
                                     pruned = takeWhile (\<lambda>r. rc_StreamSequence r \<noteq> 0) segment;
                                     kept = filter (\<lambda>e. le_Sequence e \<notin> rc_StreamSequence ` set pruned) (as_log st)
                                 in if pruned \<noteq> segment then (st1\<lparr>as_log := kept\<rparr>, Inl MissingStreamSequence)
                                    else (st1\<lparr>as_log := kept
                                            @ [\<lparr>le_Sequence = sq, le_ID = i, le_Type = ''audit.archived'', le_TenantID = tn,
                                                le_Time = now, le_Actor = None,
                                                le_Data = archived (length segment) (rc_Sequence boundary)
                                                            (rc_Hash boundary) u\<rparr>]\<rparr>,
                                          Inr (length segment)))"

section \<open>Sealing and verifying\<close>

lemma link_core: "core_of r = core_of r' \<Longrightarrow> link H canon p r = link H canon p r'"
  by (simp add: link_def)

lemma core_of_update [simp]:
  "core_of (r\<lparr>rc_Hash := h\<rparr>) = core_of r" "core_of (r\<lparr>rc_StreamSequence := n\<rparr>) = core_of r"
  by (simp_all add: core_of_def)

lemma SealFrom_append:
  "SealFrom H canon seed (xs @ ys) =
     (fst (SealFrom H canon seed xs) @ fst (SealFrom H canon (snd (SealFrom H canon seed xs)) ys),
      snd (SealFrom H canon (snd (SealFrom H canon seed xs)) ys))"
  by (induction xs arbitrary: seed) (simp_all add: split_beta Let_def split: option.splits)

lemma SealFrom_map:
  assumes "\<And>r h. f (r\<lparr>rc_Hash := h\<rparr>) = f r"
  shows "map f (fst (SealFrom H canon seed rs)) = map f rs"
  using assms by (induction rs arbitrary: seed) (simp_all add: split_beta Let_def split: option.splits)

lemma SealFrom_length [simp]: "length (fst (SealFrom H canon seed rs)) = length rs"
  using SealFrom_map [of "\<lambda>_. ()" H canon seed rs] by (metis length_map)

lemma SealFrom_Nil_iff [simp]: "fst (SealFrom H canon seed rs) = [] \<longleftrightarrow> rs = []"
  by (metis SealFrom_length length_0_conv)

definition canonical :: "canon \<Rightarrow> Record list \<Rightarrow> bool" where
  "canonical canon rs = (\<forall>r \<in> set rs. canon (core_of r) \<noteq> None)"

lemma canonical_simps [simp]:
  "canonical canon []"
  "canonical canon (r # rs) \<longleftrightarrow> (\<exists>c. canon (core_of r) = Some c) \<and> canonical canon rs"
  "canonical canon (xs @ ys) \<longleftrightarrow> canonical canon xs \<and> canonical canon ys"
  by (auto simp: canonical_def)

lemma verify_seal:
  "canonical canon rs \<Longrightarrow>
     verify_loop H canon i seed (fst (SealFrom H canon seed rs)) = Inr (snd (SealFrom H canon seed rs))"
  by (induction rs arbitrary: seed i) (auto simp: link_def split_beta Let_def)

lemma SealFrom_head:
  "canonical canon rs \<Longrightarrow> rs \<noteq> [] \<Longrightarrow>
     rc_Hash (last (fst (SealFrom H canon seed rs))) = snd (SealFrom H canon seed rs)"
  by (induction rs arbitrary: seed) (auto simp: link_def split_beta Let_def)

lemma verify_core:
  assumes "\<And>r. core_of (f r) = core_of r" and "\<And>r. rc_Hash (f r) = rc_Hash r"
    and "\<And>r. rc_Type (f r) = rc_Type r" and "\<And>r. rc_Sequence (f r) = rc_Sequence r"
  shows "verify_loop H canon i seed (map f rs) = verify_loop H canon i seed rs"
  using assms by (induction rs arbitrary: i seed) (auto simp: link_def split: option.splits)

lemma verify_snoc:
  "verify_loop H canon i seed (rs @ [r]) = Inr h \<longleftrightarrow>
     (\<exists>p. verify_loop H canon i seed rs = Inr p \<and> link H canon p r = Some h \<and> rc_Hash r = h)"
  by (induction rs arbitrary: i seed) (auto split: option.splits)

section \<open>Tamper evidence\<close>

text \<open>The byte strings that verifying a chain hashes.\<close>

fun chain_inputs :: "hash \<Rightarrow> canon \<Rightarrow> string \<Rightarrow> Record list \<Rightarrow> bytes list" where
  "chain_inputs H canon prev [] = []"
| "chain_inputs H canon prev (r # rs) =
     (case canon (core_of r) of
        None \<Rightarrow> []
      | Some c \<Rightarrow> (prev @ c) # chain_inputs H canon (H (prev @ c)) rs)"

lemma chain_inputs_snoc:
  "verify_loop H canon i seed rs = Inr p \<Longrightarrow> canon (core_of r) = Some c \<Longrightarrow>
     chain_inputs H canon seed (rs @ [r]) = chain_inputs H canon seed rs @ [p @ c]"
  by (induction rs arbitrary: i seed) (auto simp: link_def split: option.splits if_splits)

lemma verified_head_cases:
  "verify_loop H canon i seed rs = Inr h \<Longrightarrow> rs = [] \<and> h = seed \<or> rs \<noteq> [] \<and> h \<in> range H"
  by (cases rs rule: rev_cases) (auto simp: verify_snoc link_def split: option.splits)

lemma same_head_same_text:
  assumes "\<And>x. H x \<noteq> '''' \<and> CHR 0x7B \<notin> set (H x)" and "\<And>r c. canon r = Some c \<Longrightarrow> \<exists>t. c = CHR 0x7B # t"
    and "VerifyChain H canon rs = Inr h" and "VerifyChain H canon rs' = Inr h"
  shows "map (canon \<circ> core_of) rs = map (canon \<circ> core_of) rs'
    \<or> (\<exists>x \<in> set (chain_inputs H canon '''' rs). \<exists>y \<in> set (chain_inputs H canon '''' rs').
          x \<noteq> y \<and> H x = H y)"
  using assms(3,4) unfolding VerifyChain_def VerifyChainFrom_def
proof (induction rs arbitrary: rs' h rule: rev_induct)
  case Nil
  then have "h \<notin> range H" using assms(1) by (metis Inr_inject rangeE verify_loop.simps(1))
  with verified_head_cases [OF Nil(2)] show ?case by simp
next
  case (snoc r rs)
  then obtain p where p: "verify_loop H canon 0 '''' rs = Inr p" "link H canon p r = Some h"
    by (auto simp: verify_snoc)
  then obtain c where c: "canon (core_of r) = Some c" "h = H (p @ c)"
    by (auto simp: link_def split: option.splits)
  show ?case
  proof (cases rs' rule: rev_cases)
    case Nil
    with snoc.prems(2) c(2) assms(1) [of "p @ c"] show ?thesis by simp
  next
    case (snoc ys r')
    with snoc.prems(2) obtain p' where p': "verify_loop H canon 0 '''' ys = Inr p'" "link H canon p' r' = Some h"
      by (auto simp: verify_snoc)
    then obtain c' where c': "canon (core_of r') = Some c'" "h = H (p' @ c')"
      by (auto simp: link_def split: option.splits)
    note ins = chain_inputs_snoc [OF p(1) c(1)] chain_inputs_snoc [OF p'(1) c'(1)]
    show ?thesis
    proof (cases "p @ c = p' @ c'")
      case False
      then show ?thesis using c(2) c'(2) ins snoc by (intro disjI2) auto
    next
      case True
      have brace: "CHR 0x7B \<notin> set p" "CHR 0x7B \<notin> set p'"
        using verified_head_cases [OF p(1)] verified_head_cases [OF p'(1)] assms(1) by auto
      obtain t t' where t: "c = CHR 0x7B # t" "c' = CHR 0x7B # t'"
        using assms(2) c(1) c'(1) by blast
      from True have eq: "p = p'" "c = c'" unfolding t append_sep_inject [OF brace] by simp_all
      from snoc.IH [OF p(1) p'(1) [folded eq(1)]] c(1) c'(1) eq(2) ins show ?thesis
        unfolding snoc by auto
    qed
  qed
qed

lemma same_text_same_hashes:
  "map (canon \<circ> core_of) rs = map (canon \<circ> core_of) rs' \<Longrightarrow> verify_loop H canon i seed rs = Inr h \<Longrightarrow>
     verify_loop H canon j seed rs' = Inr h' \<Longrightarrow> map rc_Hash rs = map rc_Hash rs'"
proof (induction rs arbitrary: rs' i j seed)
  case (Cons r rs)
  from Cons.prems(1) obtain r' ys where rs': "rs' = r' # ys" "canon (core_of r) = canon (core_of r')" "map (canon \<circ> core_of) rs = map (canon \<circ> core_of) ys"
    by (auto simp: Cons_eq_map_conv o_def)
  from rs'(2) have "link H canon seed r = link H canon seed r'" by (simp add: link_def)
  with Cons.prems(2,3) Cons.IH [OF rs'(3)] rs'(1) show ?case by (auto split: option.splits if_splits)
qed simp

text \<open>
  Two records say the same: all fields but the stream sequence agree, the data as JSON values (\<open>compact\<close> is
  the text of a JSON value without insignificant spacing, which \<^verbatim>\<open>json.Marshal\<close> writes for a raw message).
\<close>

definition same_record :: "(bytes \<Rightarrow> bytes) \<Rightarrow> Record \<Rightarrow> Record \<Rightarrow> bool" where
  "same_record compact r r' =
     (rc_Sequence r = rc_Sequence r' \<and> rc_ID r = rc_ID r' \<and> rc_Type r = rc_Type r' \<and> rc_TenantID r = rc_TenantID r' \<and> rc_Time r = rc_Time r'
      \<and> rc_Actor r = rc_Actor r' \<and> compact (rc_Data r) = compact (rc_Data r') \<and> rc_Hash r = rc_Hash r')"

text \<open>The JSON text of a core determines its fields: it is a documented property of encoding valid UTF-8 text.\<close>

definition canon_faithful :: "canon \<Rightarrow> (bytes \<Rightarrow> bytes) \<Rightarrow> recordCore set \<Rightarrow> bool" where
  "canon_faithful canon compact C =
     (\<forall>c \<in> C. \<forall>c' \<in> C. canon c = canon c' \<longrightarrow>
        co_Sequence c = co_Sequence c' \<and> co_ID c = co_ID c' \<and> co_Type c = co_Type c' \<and> co_TenantID c = co_TenantID c'
        \<and> co_Time c = co_Time c' \<and> co_Actor c = co_Actor c' \<and> compact (co_Data c) = compact (co_Data c'))"

lemma faithful_same_record:
  assumes "canon_faithful canon compact (core_of ` R)" and "r \<in> R" and "r' \<in> R" and "canon (core_of r) = canon (core_of r')"
    and "rc_Hash r = rc_Hash r'"
  shows "same_record compact r r'"
proof -
  have "co_Sequence (core_of r) = co_Sequence (core_of r') \<and> co_ID (core_of r) = co_ID (core_of r') \<and> co_Type (core_of r) = co_Type (core_of r')
      \<and> co_TenantID (core_of r) = co_TenantID (core_of r') \<and> co_Time (core_of r) = co_Time (core_of r')
      \<and> co_Actor (core_of r) = co_Actor (core_of r') \<and> compact (co_Data (core_of r)) = compact (co_Data (core_of r'))"
    using assms(1-4) unfolding canon_faithful_def by blast
  with assms(5) show ?thesis by (simp add: same_record_def core_of_def)
qed

lemma SealFrom_cores: "core_of ` set (fst (SealFrom H canon seed rs)) = core_of ` set rs"
proof -
  have "map core_of (fst (SealFrom H canon seed rs)) = map core_of rs" by (rule SealFrom_map) simp
  then show ?thesis by (metis list.set_map)
qed

text \<open>C3: The chain is tamper evident. Sealing a list of records gives a list that verifies with the
  sealed head; and any list that verifies with that head is the sealed list, record by record with
  every field (sequence, id, type, tenant, time, actor, data as a JSON value, hash), unless two of
  the inputs hashed during the two verifications are a hash collision. So altering, dropping,
  inserting or reordering any record while keeping the signed head takes a collision. The
  hypotheses say that a hash is a nonempty text without an opening brace, that the JSON of a
  record starts with one, and that the JSON of the records at hand determines their fields.
\<close>

theorem chain_tamper_evident:
  assumes "\<And>x. H x \<noteq> '''' \<and> CHR 0x7B \<notin> set (H x)" and "\<And>r c. canon r = Some c \<Longrightarrow> \<exists>t. c = CHR 0x7B # t"
    and "canon_faithful canon compact (core_of ` (set rs \<union> set rs'))"
    and "\<forall>r \<in> set rs. canon (core_of r) \<noteq> None" and "Seal H canon rs = (sealed, h)"
  shows "VerifyChain H canon sealed = Inr h
    \<and> (VerifyChain H canon rs' = Inr h \<longrightarrow>
         list_all2 (same_record compact) sealed rs'
         \<or> (\<exists>x \<in> set (chain_inputs H canon '''' sealed). \<exists>y \<in> set (chain_inputs H canon '''' rs'). x \<noteq> y \<and> H x = H y))"
proof
  from assms(5) have sealed: "SealFrom H canon '''' rs = (sealed, h)" by (simp add: Seal_def)
  show v: "VerifyChain H canon sealed = Inr h"
    using verify_seal [of canon rs H 0 "''''"] assms(4) by (simp add: sealed canonical_def VerifyChain_def VerifyChainFrom_def)
  have cores: "canon_faithful canon compact (core_of ` (set sealed \<union> set rs'))"
    using assms(3) SealFrom_cores [of H canon "''''" rs] by (simp add: sealed image_Un)
  show "VerifyChain H canon rs' = Inr h \<longrightarrow> list_all2 (same_record compact) sealed rs'
         \<or> (\<exists>x \<in> set (chain_inputs H canon '''' sealed). \<exists>y \<in> set (chain_inputs H canon '''' rs'). x \<noteq> y \<and> H x = H y)"
  proof
    assume v': "VerifyChain H canon rs' = Inr h"
    have same: "list_all2 (same_record compact) sealed rs'" if eq: "map (canon \<circ> core_of) sealed = map (canon \<circ> core_of) rs'"
    proof -
      have "map rc_Hash sealed = map rc_Hash rs'"
        using same_text_same_hashes [OF eq] v v' by (simp add: VerifyChain_def VerifyChainFrom_def)
      with eq have "list_all2 (\<lambda>r r'. canon (core_of r) = canon (core_of r') \<and> rc_Hash r = rc_Hash r') sealed rs'"
        by (auto simp: list_all2_conv_all_nth list_eq_iff_nth_eq)
      then show ?thesis
        by (rule list.rel_mono_strong) (auto intro: faithful_same_record [OF cores])
    qed
    have "map (canon \<circ> core_of) sealed = map (canon \<circ> core_of) rs'
        \<or> (\<exists>x \<in> set (chain_inputs H canon '''' sealed). \<exists>y \<in> set (chain_inputs H canon '''' rs'). x \<noteq> y \<and> H x = H y)"
      by (rule same_head_same_text [OF assms(1) _ v v']) (rule assms(2))
    then show "list_all2 (same_record compact) sealed rs'
         \<or> (\<exists>x \<in> set (chain_inputs H canon '''' sealed). \<exists>y \<in> set (chain_inputs H canon '''' rs'). x \<noteq> y \<and> H x = H y)"
      by (rule disj_forward) (erule same, assumption)
  qed
qed

text \<open>A toy hash and canonical form for the concrete runs below: an injective text without braces.\<close>

definition demo_H :: hash where
  "demo_H x = ''h'' @ map (\<lambda>c. if c = CHR 0x7B then CHR ''('' else c) x"

definition demo_canon :: canon where
  "demo_canon c = Some (CHR 0x7B # co_ID c)"

definition demo_event :: "nat \<Rightarrow> string \<Rightarrow> log_event" where
  "demo_event n i = \<lparr>le_Sequence = n, le_ID = i, le_Type = ''x'', le_TenantID = ''t1'', le_Time = int n,
                     le_Actor = None, le_Data = ''''\<rparr>"

definition demo_record :: "string \<Rightarrow> Record" where
  "demo_record i = \<lparr>rc_Sequence = 1, rc_StreamSequence = 1, rc_ID = i, rc_Type = ''x'', rc_TenantID = ''t1'',
                    rc_Time = 1, rc_Actor = None, rc_Data = '''', rc_Hash = ''h('' @ i\<rparr>"

lemmas demo_defs = demo_H_def demo_canon_def demo_event_def demo_record_def core_of_def

text \<open>A second canonical form with the data, and two lists that differ in spacing and stream sequence only.\<close>

definition demo_compact :: "bytes \<Rightarrow> bytes" where
  "demo_compact = filter (\<lambda>c. c \<noteq> CHR '' '')"

definition demo_json :: canon where
  "demo_json c = Some (CHR 0x7B # co_ID c @ '' '' @ demo_compact (co_Data c))"

definition demo_entry :: "nat \<Rightarrow> string \<Rightarrow> bytes \<Rightarrow> string \<Rightarrow> Record" where
  "demo_entry n i d h = (demo_record i)\<lparr>rc_StreamSequence := n, rc_Data := d, rc_Hash := h\<rparr>"

definition demo_stored :: "Record list" where
  "demo_stored = [demo_entry 0 ''a'' ''[ 1]'' ''h(a [1]'', demo_entry 0 ''b'' ''2'' ''hh(a [1](b 2'']"

theorem chain_tamper_evident_witness:
  "list_all2 (same_record demo_compact) (fst (Seal demo_H demo_json [demo_entry 4 ''a'' ''[1]'' '''', demo_entry 7 ''b'' ''2'' ''''])) demo_stored"
proof -
  let ?rs = "[demo_entry 4 ''a'' ''[1]'' '''', demo_entry 7 ''b'' ''2'' '''']" and ?h = "''hh(a [1](b 2''"
  note d = demo_defs demo_json_def demo_entry_def demo_stored_def demo_compact_def
  obtain sealed where sealed: "Seal demo_H demo_json ?rs = (sealed, ?h)"
    by (simp add: Seal_def link_def d)
  have v: "VerifyChain demo_H demo_json demo_stored = Inr ?h"
    by (simp add: VerifyChain_def VerifyChainFrom_def link_def d)
  have f: "canon_faithful demo_json demo_compact (core_of ` (set ?rs \<union> set demo_stored))"
    by (simp add: canon_faithful_def d)
  have no_collision: "\<not> (\<exists>x \<in> set (chain_inputs demo_H demo_json '''' sealed). \<exists>y \<in> set (chain_inputs demo_H demo_json '''' demo_stored).
      x \<noteq> y \<and> demo_H x = demo_H y)"
    using sealed by (auto simp: Seal_def link_def d)
  have "VerifyChain demo_H demo_json sealed = Inr ?h
    \<and> (VerifyChain demo_H demo_json demo_stored = Inr ?h \<longrightarrow> list_all2 (same_record demo_compact) sealed demo_stored
         \<or> (\<exists>x \<in> set (chain_inputs demo_H demo_json '''' sealed). \<exists>y \<in> set (chain_inputs demo_H demo_json '''' demo_stored). x \<noteq> y \<and> demo_H x = demo_H y))"
    by (rule chain_tamper_evident [OF _ _ f _ sealed]) (auto simp: demo_H_def demo_json_def split: if_splits)
  with v no_collision have "list_all2 (same_record demo_compact) sealed demo_stored" by blast
  with sealed show ?thesis by simp
qed

section \<open>Search\<close>

definition unsealed :: "service \<Rightarrow> checkpoints \<Rightarrow> log_event list \<Rightarrow> Query \<Rightarrow> Record list" where
  "unsealed sv cps log q =
     (let (frm, seed, ordinal) = searchSeed cps (q_TenantID q);
          out = search_loop (sv_ledger sv) (sv_redact sv (q_TenantID q)) q ordinal
                  (filter (\<lambda>e. frm \<le> le_Sequence e) log)
      in if q_Limit q > 0 \<and> int (length out) > q_Limit q then take (nat (q_Limit q)) out else out)"

lemma Search_unsealed:
  "Search sv cps log q =
     (if q_TenantID q = '''' then Inl MissingTenant
      else Inr (fst (SealFrom (sv_H sv) (sv_canon sv) (fst (snd (searchSeed cps (q_TenantID q))))
                      (unsealed sv cps log q))))"
  by (auto simp: Search_def unsealed_def Let_def split: prod.splits)

lemma search_loop_append:
  "search_loop l red q n (xs @ ys) =
     search_loop l red q n xs
     @ search_loop l red q (n + length (filter (\<lambda>e. le_TenantID e = q_TenantID q) xs)) ys"
  by (induction xs arbitrary: n) (simp_all add: Let_def)

lemma search_loop_tenant: "r \<in> set (search_loop l red q n es) \<Longrightarrow> rc_TenantID r = q_TenantID q"
  by (induction es arbitrary: n) (auto simp: Let_def split: if_splits)

lemma search_loop_filter:
  "search_loop l red q n (filter (\<lambda>e. le_TenantID e = q_TenantID q) es) = search_loop l red q n es"
  by (induction es arbitrary: n) (simp_all add: Let_def)

text \<open>
  Audit queries are confined to their tenant. A query without a tenant is refused; every
  record of an answer belongs to the query's tenant; and the answer, hashes and sequence numbers
  included, does not depend on other tenants' events in any way: removing them from the log gives
  the same answer.
\<close>

theorem Search_tenant_isolation:
  "(q_TenantID q = '''' \<longrightarrow> Search sv cps log q = Inl MissingTenant)
   \<and> (\<forall>recs. Search sv cps log q = Inr recs \<longrightarrow> (\<forall>r \<in> set recs. rc_TenantID r = q_TenantID q))
   \<and> Search sv cps (filter (\<lambda>e. le_TenantID e = q_TenantID q) log) q = Search sv cps log q"
proof (intro conjI allI impI)
  fix recs
  assume "Search sv cps log q = Inr recs"
  then have "recs = fst (SealFrom (sv_H sv) (sv_canon sv) (fst (snd (searchSeed cps (q_TenantID q))))
      (unsealed sv cps log q))" by (simp add: Search_unsealed split: if_splits)
  moreover have "rc_TenantID r = q_TenantID q" if "r \<in> set (unsealed sv cps log q)" for r
    using that by (auto simp: unsealed_def Let_def split: if_splits prod.splits
        dest!: in_set_takeD dest: search_loop_tenant)
  ultimately have "set (map rc_TenantID recs) \<subseteq> {q_TenantID q}"
    by (auto simp: SealFrom_map simp del: set_map) (auto)
  then show "\<forall>r \<in> set recs. rc_TenantID r = q_TenantID q" by auto
next
  have "search_loop l red q n (filter (\<lambda>e. frm \<le> le_Sequence e) (filter (\<lambda>e. le_TenantID e = q_TenantID q) log))
      = search_loop l red q n (filter (\<lambda>e. frm \<le> le_Sequence e) log)" for l red n frm
    using search_loop_filter [of l red q n "filter (\<lambda>e. frm \<le> le_Sequence e) log"]
    by (simp add: conj_commute)
  then show "Search sv cps (filter (\<lambda>e. le_TenantID e = q_TenantID q) log) q = Search sv cps log q"
    by (simp only: Search_unsealed unsealed_def)
qed (simp add: Search_unsealed)

definition demo_service :: service where
  "demo_service = \<lparr>sv_H = demo_H, sv_canon = demo_canon, sv_ledger = (\<lambda>f a. None), sv_redact = (\<lambda>t e. e)\<rparr>"

theorem Search_tenant_isolation_witness:
  "\<exists>recs. Search demo_service Map.empty [demo_event 1 ''a'', (demo_event 2 ''b'')\<lparr>le_TenantID := ''t2''\<rparr>]
        (tenant_query ''t1'') = Inr recs
     \<and> length recs = 1 \<and> rc_TenantID (hd recs) = ''t1''"
proof -
  let ?log = "[demo_event 1 ''a'', (demo_event 2 ''b'')\<lparr>le_TenantID := ''t2''\<rparr>]"
  have s: "Search demo_service Map.empty ?log (tenant_query ''t1'') = Inr [demo_record ''a'']"
    by (simp add: Search_def searchSeed_def demo_service_def tenant_query_def matches_def link_def demo_defs)
  have "rc_TenantID (demo_record ''a'') = q_TenantID (tenant_query ''t1'')"
    using Search_tenant_isolation [of "tenant_query ''t1''" demo_service Map.empty ?log] s by simp
  with s show ?thesis by (auto simp: tenant_query_def)
qed

text \<open>
  \<^verbatim>\<open>Service.VerifyChain\<close> cannot detect tampering with the event log. For any log at all,
  altered, truncated or reordered, whose records have a canonical form, it reports success: the
  hashes it checks were computed from the same log by the search it runs first.
\<close>

theorem Service_VerifyChain_never_detects:
  assumes "tn \<noteq> ''''" and "\<And>c. sv_canon sv c \<noteq> None"
  shows "\<exists>head. Service_VerifyChain sv cps log tn = Inr head"
proof -
  have "canonical (sv_canon sv) rs" for rs using assms(2) by (simp add: canonical_def)
  then show ?thesis
    using assms(1)
    by (simp add: Service_VerifyChain_def Search_unsealed tenant_query_def VerifyChainFrom_def verify_seal)
qed

theorem Service_VerifyChain_never_detects_witness:
  "\<exists>head. Service_VerifyChain demo_service Map.empty [demo_event 1 ''forged''] ''t1'' = Inr head"
  by (rule Service_VerifyChain_never_detects) (simp_all add: demo_service_def demo_canon_def)

section \<open>Bundles\<close>

lemma verify_wire:
  "verify_loop H canon i seed (map (\<lambda>r. r\<lparr>rc_StreamSequence := n\<rparr>) rs) = verify_loop H canon i seed rs"
  by (rule verify_core) simp_all

text \<open>
  An exported bundle verifies offline exactly when it is not an empty continuation. For every
  query whose matching records have a canonical form, verifying the exported bundle succeeds and
  gives back the bundle if the query matched something or the tenant has no sealed checkpoint; an
  export with no records of a tenant with a checkpoint is rejected as if it had been tampered with.
\<close>

theorem Export_VerifyBundle:
  assumes "Export sv sign now cps log q = Inr signed" and "\<And>b. verify (sign b) = Some (wire b)"
    and "\<And>c. sv_canon sv c \<noteq> None" and "Search sv cps log q = Inr recs"
  shows "VerifyBundle (sv_H sv) (sv_canon sv) verify signed =
    (if recs = [] \<and> fst (snd (searchSeed cps (q_TenantID q))) \<noteq> '''' then Inl HeadMismatch
     else Inr (wire \<lparr>bu_TenantID = q_TenantID q, bu_GeneratedAt = now, bu_Query = q, bu_Records = recs,
            bu_Count = length recs, bu_PrevHash = fst (snd (searchSeed cps (q_TenantID q))),
            bu_ChainHead = chainHead recs\<rparr>))"
proof -
  let ?seed = "fst (snd (searchSeed cps (q_TenantID q)))" and ?out = "unsealed sv cps log q"
  have canon: "canonical (sv_canon sv) ?out" using assms(3) by (simp add: canonical_def)
  have recs: "recs = fst (SealFrom (sv_H sv) (sv_canon sv) ?seed ?out)"
    using assms(4) by (simp add: Search_unsealed split: if_splits)
  have "VerifyChainFrom (sv_H sv) (sv_canon sv) ?seed (map (\<lambda>r. r\<lparr>rc_StreamSequence := 0\<rparr>) recs)
      = Inr (snd (SealFrom (sv_H sv) (sv_canon sv) ?seed ?out))"
    by (simp add: VerifyChainFrom_def verify_wire recs verify_seal [OF canon])
  moreover have "snd (SealFrom (sv_H sv) (sv_canon sv) ?seed ?out)
      = (if recs = [] then ?seed else chainHead recs)"
    using SealFrom_head [OF canon] by (auto simp: recs chainHead_def)
  ultimately show ?thesis
    using assms(1,2,4) by (auto simp: Export_def VerifyBundle_def wire_def chainHead_def)
qed

definition demo_checkpoints :: checkpoints where
  "demo_checkpoints = [''t1'' \<mapsto> \<lparr>cp_TenantID = ''t1'', cp_BoundarySeq = 5, cp_BoundaryHash = ''hb'',
                       cp_RecordCount = 5, cp_ArchiveURI = ''''\<rparr>]"

theorem Export_VerifyBundle_witness:
  "VerifyBundle demo_H demo_canon Some
     (wire \<lparr>bu_TenantID = ''t1'', bu_GeneratedAt = 7, bu_Query = tenant_query ''t1'', bu_Records = [],
       bu_Count = 0, bu_PrevHash = ''hb'', bu_ChainHead = ''''\<rparr>) = Inl HeadMismatch"
proof -
  have s: "Search demo_service demo_checkpoints [] (tenant_query ''t1'') = Inr []"
    by (simp add: Search_def searchSeed_def demo_checkpoints_def tenant_query_def)
  have e: "Export demo_service wire 7 demo_checkpoints [] (tenant_query ''t1'') =
      Inr (wire \<lparr>bu_TenantID = ''t1'', bu_GeneratedAt = 7, bu_Query = tenant_query ''t1'', bu_Records = [],
       bu_Count = 0, bu_PrevHash = ''hb'', bu_ChainHead = ''''\<rparr>)"
    by (simp add: Export_def s) (simp add: tenant_query_def searchSeed_def demo_checkpoints_def chainHead_def)
  have v: "Some (wire b) = Some (wire b)" for b :: Bundle by simp
  show ?thesis
    using Export_VerifyBundle [where verify = Some, OF e v _ s]
    by (simp add: demo_service_def demo_canon_def tenant_query_def searchSeed_def demo_checkpoints_def)
qed

section \<open>Retention\<close>

definition mk_record :: "(log_event \<Rightarrow> log_event) \<Rightarrow> nat \<times> log_event \<Rightarrow> Record" where
  "mk_record red x = (case x of (n, e) \<Rightarrow>
     \<lparr>rc_Sequence = n, rc_StreamSequence = le_Sequence e, rc_ID = le_ID e, rc_Type = le_Type e,
      rc_TenantID = le_TenantID e, rc_Time = le_Time e, rc_Actor = le_Actor (red e),
      rc_Data = le_Data (red e), rc_Hash = ''''\<rparr>)"

lemma mk_record_fields [simp]:
  "rc_Sequence (mk_record red x) = fst x" "rc_StreamSequence (mk_record red x) = le_Sequence (snd x)"
  "rc_Time (mk_record red x) = le_Time (snd x)" "rc_Type (mk_record red x) = le_Type (snd x)"
  by (simp_all add: mk_record_def split: prod.splits)

definition tenant_events :: "checkpoints \<Rightarrow> log_event list \<Rightarrow> string \<Rightarrow> log_event list" where
  "tenant_events cps log tn =
     filter (\<lambda>e. le_TenantID e = tn \<and> fst (searchSeed cps tn) \<le> le_Sequence e) log"

lemma unsealed_tenant_query:
  assumes "sv_ledger sv '''' '''' = None"
  shows "unsealed sv cps log (tenant_query tn) =
    map (mk_record (sv_redact sv tn))
      (enumerate (Suc (snd (snd (searchSeed cps tn)))) (tenant_events cps log tn))"
proof -
  have all: "matches (sv_ledger sv) (tenant_query tn) e n" for e n
    using assms by (simp add: matches_def tenant_query_def)
  have tn: "q_TenantID (tenant_query tn) = tn" by (simp add: tenant_query_def)
  have "search_loop (sv_ledger sv) red (tenant_query tn) n es =
      map (mk_record red) (enumerate (Suc n) (filter (\<lambda>e. le_TenantID e = tn) es))" for red n es
    by (induction es arbitrary: n) (simp_all add: all tn Let_def mk_record_def)
  then show ?thesis
    by (simp add: unsealed_def tenant_events_def tenant_query_def split_beta conj_commute)
qed

lemma filter_after_prefix:
  assumes "sorted_wrt (<) (map f xs)" and "0 < k" and "k \<le> length xs"
  shows "filter (\<lambda>x. (f (xs ! (k - 1)) :: nat) < f x) xs = drop k xs"
proof -
  let ?b = "f (xs ! (k - 1))"
  have le: "f x \<le> ?b" if x: "x \<in> set (take k xs)" for x
  proof -
    from x obtain j where j: "j < k" "x = xs ! j" using assms(3) by (auto simp: in_set_conv_nth)
    moreover have "k - 1 < length xs" "j < k - 1 \<or> j = k - 1" using assms(2,3) j(1) by linarith+
    ultimately show ?thesis
      using sorted_wrt_nth_less [OF assms(1), of j "k - 1"] by (auto simp: less_imp_le)
  qed
  have gt: "?b < f x" if x: "x \<in> set (drop k xs)" for x
  proof -
    from x obtain j where "j < length xs - k" "x = xs ! (k + j)" using assms(3) by (auto simp: in_set_conv_nth)
    then show ?thesis using assms sorted_wrt_nth_less [OF assms(1), of "k - 1" "k + j"] by auto
  qed
  have "filter (\<lambda>x. ?b < f x) (take k xs @ drop k xs) = drop k xs"
    unfolding filter_append using le gt by (auto simp: filter_empty_conv filter_id_conv not_less)
  then show ?thesis by simp
qed

lemma sorted_wrt_filter_map: "sorted_wrt R (map f xs) \<Longrightarrow> sorted_wrt R (map f (filter P xs))"
  by (simp add: sorted_wrt_map sorted_wrt_filter)

text \<open>The log after a prune, as the next search sees it.\<close>

lemma tenant_events_after_prune:
  assumes "sorted_wrt (<) (map le_Sequence log)" and "0 < k" and "k \<le> length (tenant_events cps log tn)"
    and "\<And>e. e \<in> set log \<Longrightarrow> le_Sequence e < le_Sequence a" and "le_TenantID a = tn"
    and "cps' tn = Some cp" and "tn \<noteq> ''''" and "cp_BoundarySeq cp = le_Sequence (tenant_events cps log tn ! (k - 1))"
  shows "tenant_events cps'
      (filter (\<lambda>e. le_Sequence e \<notin> le_Sequence ` set (take k (tenant_events cps log tn))) log @ [a]) tn
    = drop k (tenant_events cps log tn) @ [a]"
proof -
  let ?T = "tenant_events cps log tn" and ?b = "cp_BoundarySeq cp" and ?frm = "fst (searchSeed cps tn)"
  have sorted: "sorted_wrt (<) (map le_Sequence ?T)"
    unfolding tenant_events_def by (rule sorted_wrt_filter_map [OF assms(1)])
  have bT: "?T ! (k - 1) \<in> set ?T" using assms(2,3) by (intro nth_mem) simp
  then have "?frm \<le> ?b" and a: "?b < le_Sequence a"
    using assms(4,8) by (auto simp: tenant_events_def)
  have after: "filter (\<lambda>e. ?b < le_Sequence e) ?T = drop k ?T"
    unfolding assms(8) by (rule filter_after_prefix [OF sorted assms(2,3)])
  have pruned: "le_Sequence e \<le> ?b" if "e \<in> set (take k ?T)" for e
  proof (rule ccontr)
    assume "\<not> le_Sequence e \<le> ?b"
    then have "e \<in> set (drop k ?T)" using after that by (auto dest: in_set_takeD simp flip: after)
    moreover have "distinct ?T" using sorted by (metis distinct_map strict_sorted_iff)
    ultimately show False using that set_take_disj_set_drop_if_distinct [of ?T k k] by blast
  qed
  have "filter (\<lambda>e. le_TenantID e = tn \<and> ?b + 1 \<le> le_Sequence e)
      (filter (\<lambda>e. le_Sequence e \<notin> le_Sequence ` set (take k ?T)) log)
      = filter (\<lambda>e. ?b < le_Sequence e) ?T"
    unfolding tenant_events_def filter_filter
    using \<open>?frm \<le> ?b\<close> pruned by (intro filter_cong) (auto simp: tenant_events_def Suc_le_eq image_iff leD)
  then show ?thesis
    using assms(5-7) a after by (simp add: tenant_events_def [of cps'] searchSeed_def Suc_le_eq)
qed

text \<open>The tenant's events as the sealed records a search over all of them returns.\<close>

definition sealed :: "service \<Rightarrow> string \<Rightarrow> string \<Rightarrow> nat \<Rightarrow> log_event list \<Rightarrow> Record list \<times> string" where
  "sealed sv tn seed m T =
     SealFrom (sv_H sv) (sv_canon sv) seed (map (mk_record (sv_redact sv tn)) (enumerate m T))"

lemma tenant_search:
  assumes "tn \<noteq> ''''" and "sv_ledger sv '''' '''' = None"
  shows "Search sv cps log (tenant_query tn) =
    Inr (fst (sealed sv tn (fst (snd (searchSeed cps tn))) (Suc (snd (snd (searchSeed cps tn))))
      (tenant_events cps log tn)))"
  using assms by (simp add: Search_unsealed unsealed_tenant_query sealed_def) (simp add: tenant_query_def)

lemma sealed_length [simp]: "length (fst (sealed sv tn seed m T)) = length T"
  by (simp add: sealed_def)

lemma sealed_streams: "map rc_StreamSequence (fst (sealed sv tn seed m T)) = map le_Sequence T"
  by (simp add: sealed_def SealFrom_map o_def) (simp add: enumerate_eq_zip flip: map_map [of le_Sequence snd, unfolded o_def])

lemma sealed_sequences: "map rc_Sequence (fst (sealed sv tn seed m T)) = [m ..< m + length T]"
  by (simp add: sealed_def SealFrom_map o_def)

lemma sealed_append:
  "sealed sv tn seed m (T @ U) =
     (fst (sealed sv tn seed m T) @ fst (sealed sv tn (snd (sealed sv tn seed m T)) (m + length T) U),
      snd (sealed sv tn (snd (sealed sv tn seed m T)) (m + length T) U))"
  by (simp add: sealed_def enumerate_append_eq SealFrom_append)

lemma sealed_split:
  assumes "n \<le> length T"
  shows "take n (fst (sealed sv tn seed m T)) = fst (sealed sv tn seed m (take n T))"
    and "drop n (fst (sealed sv tn seed m T)) = fst (sealed sv tn (snd (sealed sv tn seed m (take n T))) (m + n) (drop n T))"
proof -
  have "fst (sealed sv tn seed m T) = fst (sealed sv tn seed m (take n T))
      @ fst (sealed sv tn (snd (sealed sv tn seed m (take n T))) (m + n) (drop n T))"
    using sealed_append [of sv tn seed m "take n T" "drop n T"] assms by simp
  moreover have "length (fst (sealed sv tn seed m (take n T))) = n" using assms by simp
  ultimately show "take n (fst (sealed sv tn seed m T)) = fst (sealed sv tn seed m (take n T))"
    "drop n (fst (sealed sv tn seed m T)) = fst (sealed sv tn (snd (sealed sv tn seed m (take n T))) (m + n) (drop n T))"
    by simp_all
qed

text \<open>The last record of a nonempty sealed list: its stream sequence, sequence number and hash.\<close>

lemma sealed_last:
  assumes "T \<noteq> []" and "\<And>c. sv_canon sv c \<noteq> None"
  shows "rc_StreamSequence (last (fst (sealed sv tn seed m T))) = le_Sequence (last T)"
    and "rc_Sequence (last (fst (sealed sv tn seed m T))) = m + length T - 1"
    and "rc_Hash (last (fst (sealed sv tn seed m T))) = snd (sealed sv tn seed m T)"
proof -
  have ne: "fst (sealed sv tn seed m T) \<noteq> []" using assms(1) by (metis length_0_conv sealed_length)
  show "rc_StreamSequence (last (fst (sealed sv tn seed m T))) = le_Sequence (last T)"
    using arg_cong [OF sealed_streams, of last sv tn seed m T] ne assms(1) by (simp add: last_map)
  show "rc_Sequence (last (fst (sealed sv tn seed m T))) = m + length T - 1"
    using arg_cong [OF sealed_sequences, of last sv tn seed m T] ne assms(1) by (simp add: last_map)
  have "canonical (sv_canon sv) rs" for rs using assms(2) by (simp add: canonical_def)
  then show "rc_Hash (last (fst (sealed sv tn seed m T))) = snd (sealed sv tn seed m T)"
    using assms(1) unfolding sealed_def
    by (intro SealFrom_head) (auto simp: enumerate_eq_zip)
qed

lemma archiveTenant_success:
  assumes "archiveTenant sv sign verify uri archived now i sq tn cutoff st = (st', Inr n)" and "0 < n"
    and "Search sv (as_checkpoints st) (as_log st) (tenant_query tn) = Inr recs"
    and "\<And>r. r \<in> set recs \<Longrightarrow> rc_StreamSequence r \<noteq> 0"
  obtains signed b cp a where
    "n \<le> length recs"
    "VerifyBundle (sv_H sv) (sv_canon sv) verify signed = Inr b"
    "signed = sign \<lparr>bu_TenantID = tn, bu_GeneratedAt = now, bu_Query = tenant_query tn,
        bu_Records = take n recs, bu_Count = n, bu_PrevHash = fst (snd (searchSeed (as_checkpoints st) tn)),
        bu_ChainHead = rc_Hash (last (take n recs))\<rparr>"
    "as_archive st' = as_archive st @ [(tn, rc_Sequence (last (take n recs)), signed)]"
    "as_checkpoints st' tn = Some cp" "cp_BoundarySeq cp = rc_StreamSequence (last (take n recs))"
    "cp_BoundaryHash cp = rc_Hash (last (take n recs))" "cp_RecordCount cp = rc_Sequence (last (take n recs))"
    "as_log st' = filter (\<lambda>e. le_Sequence e \<notin> rc_StreamSequence ` set (take n recs)) (as_log st) @ [a]"
    "le_Sequence a = sq" "le_TenantID a = tn" "le_Type a = ''audit.archived''"
proof -
  define segment where "segment = takeWhile (\<lambda>r. rc_Time r \<le> cutoff) recs"
  have all: "takeWhile (\<lambda>r. 0 < rc_StreamSequence r) segment = segment"
    using assms(4) by (auto simp: takeWhile_eq_all_conv segment_def dest: set_takeWhileD)
  have n: "n = length segment" "segment \<noteq> []"
    using assms(1-3) by (auto simp: archiveTenant_def segment_def Let_def split: if_splits sum.splits)
  have seg: "segment = take n recs" using n(1) unfolding segment_def by (metis takeWhile_eq_take)
  have le: "n \<le> length recs" using n(1) length_takeWhile_le [of _ recs] by (simp add: segment_def)
  have nz: "rc_StreamSequence (last segment) \<noteq> 0"
    using assms(4) n(2) set_takeWhileD [of _ _ recs] last_in_set [OF n(2)] unfolding segment_def by blast
  let ?signed = "sign \<lparr>bu_TenantID = tn, bu_GeneratedAt = now, bu_Query = tenant_query tn, bu_Records = segment,
      bu_Count = length segment, bu_PrevHash = fst (snd (searchSeed (as_checkpoints st) tn)),
      bu_ChainHead = rc_Hash (last segment)\<rparr>"
  let ?u = "uri tn (rc_Sequence (last segment))"
  let ?cp = "\<lparr>cp_TenantID = tn, cp_BoundarySeq = rc_StreamSequence (last segment),
      cp_BoundaryHash = rc_Hash (last segment), cp_RecordCount = rc_Sequence (last segment), cp_ArchiveURI = ?u\<rparr>"
  let ?a = "\<lparr>le_Sequence = sq, le_ID = i, le_Type = ''audit.archived'', le_TenantID = tn, le_Time = now,
      le_Actor = None, le_Data = archived (length segment) (rc_Sequence (last segment)) (rc_Hash (last segment)) ?u\<rparr>"
  obtain b where "VerifyBundle (sv_H sv) (sv_canon sv) verify ?signed = Inr b"
    and st': "st' = st\<lparr>as_archive := as_archive st @ [(tn, rc_Sequence (last segment), ?signed)],
      as_checkpoints := (as_checkpoints st)(tn \<mapsto> ?cp),
      as_log := filter (\<lambda>e. le_Sequence e \<notin> rc_StreamSequence ` set segment) (as_log st) @ [?a]\<rparr>"
    using assms(1,3) n(2) nz
    by (auto simp: archiveTenant_def Let_def segment_def [symmetric] all split: sum.splits if_splits)
  then show ?thesis
    using le n(1) by (intro that [of ?signed b ?cp ?a, folded seg]) simp_all
qed

text \<open>
  Retention keeps the chain. When a retention pass archives \<open>n > 0\<close> records of a tenant, a
  search afterwards returns exactly the records that were not archived, with the sequence numbers
  and hashes they had before, followed by the record of the pass itself; and the archived bundle
  verifies offline and holds exactly the \<open>n\<close> records that were pruned.
\<close>

theorem archiveTenant_keeps_chain:
  assumes "archiveTenant sv sign verify uri archived now i sq tn cutoff st = (st', Inr n)" and "0 < n"
    and "Search sv (as_checkpoints st) (as_log st) (tenant_query tn) = Inr recs"
    and "sorted_wrt (<) (map le_Sequence (as_log st))"
    and "\<And>e. e \<in> set (as_log st) \<Longrightarrow> 0 < le_Sequence e \<and> le_Sequence e < sq"
    and "\<And>c. sv_canon sv c \<noteq> None" and "\<And>b. verify (sign b) = Some (wire b)"
    and "sv_ledger sv '''' '''' = None"
  shows "(\<exists>r. Search sv (as_checkpoints st') (as_log st') (tenant_query tn) = Inr (drop n recs @ [r])
           \<and> rc_Type r = ''audit.archived'')
    \<and> (\<exists>m signed b. as_archive st' = as_archive st @ [(tn, m, signed)]
         \<and> VerifyBundle (sv_H sv) (sv_canon sv) verify signed = Inr b
         \<and> bu_Records b = map (\<lambda>r. r\<lparr>rc_StreamSequence := 0\<rparr>) (take n recs))"
proof -
  let ?cps = "as_checkpoints st"
  let ?T = "tenant_events ?cps (as_log st) tn" and ?seed = "fst (snd (searchSeed ?cps tn))"
    and ?m = "Suc (snd (snd (searchSeed ?cps tn)))"
  have tn: "tn \<noteq> ''''" using assms(3) by (auto simp: Search_def tenant_query_def)
  have recs: "recs = fst (sealed sv tn ?seed ?m ?T)"
    using assms(3) tenant_search [OF tn assms(8)] by simp
  have pos: "rc_StreamSequence r \<noteq> 0" if "r \<in> set recs" for r
  proof -
    have "rc_StreamSequence r \<in> set (map le_Sequence ?T)"
      using that unfolding recs sealed_streams [of sv tn ?seed ?m ?T, symmetric] by simp
    then show ?thesis using assms(5) by (auto simp: tenant_events_def)
  qed
  obtain signed b cp a where ok: "n \<le> length recs"
    "VerifyBundle (sv_H sv) (sv_canon sv) verify signed = Inr b"
    "signed = sign \<lparr>bu_TenantID = tn, bu_GeneratedAt = now, bu_Query = tenant_query tn,
        bu_Records = take n recs, bu_Count = n, bu_PrevHash = ?seed, bu_ChainHead = rc_Hash (last (take n recs))\<rparr>"
    "as_archive st' = as_archive st @ [(tn, rc_Sequence (last (take n recs)), signed)]"
    and cp: "as_checkpoints st' tn = Some cp" "cp_BoundarySeq cp = rc_StreamSequence (last (take n recs))"
    "cp_BoundaryHash cp = rc_Hash (last (take n recs))" "cp_RecordCount cp = rc_Sequence (last (take n recs))"
    and log': "as_log st' = filter (\<lambda>e. le_Sequence e \<notin> rc_StreamSequence ` set (take n recs)) (as_log st) @ [a]"
    and a: "le_Sequence a = sq" "le_TenantID a = tn" "le_Type a = ''audit.archived''"
    by (rule archiveTenant_success [OF assms(1-3) pos])
  have n: "n \<le> length ?T" "take n ?T \<noteq> []" using ok(1) assms(2) by (auto simp: recs)
  note split = sealed_split [OF n(1), of sv tn ?seed ?m, folded recs]
  note bd = sealed_last [OF n(2) assms(6), of tn ?seed ?m, folded split(1)]
  have last_T: "last (take n ?T) = ?T ! (n - 1)" using n assms(2) by (simp add: last_conv_nth)
  have streams: "rc_StreamSequence ` set (take n recs) = le_Sequence ` set (take n ?T)"
    using sealed_streams [of sv tn ?seed ?m "take n ?T"] unfolding split(1) by (metis list.set_map)
  have T': "tenant_events (as_checkpoints st') (as_log st') tn = drop n ?T @ [a]"
    unfolding log' streams using assms(2,4,5) n(1) a cp(1,2) bd(1) last_T tn
    by (intro tenant_events_after_prune) auto
  have "searchSeed (as_checkpoints st') tn
      = (Suc (cp_BoundarySeq cp), snd (sealed sv tn ?seed ?m (take n ?T)), ?m + n - 1)"
    using tn cp bd n by (simp add: searchSeed_def)
  then have "Search sv (as_checkpoints st') (as_log st') (tenant_query tn) =
      Inr (fst (sealed sv tn (snd (sealed sv tn ?seed ?m (take n ?T))) (?m + n) (drop n ?T @ [a])))"
    using tenant_search [OF tn assms(8)] T' by simp
  then have "\<exists>r. Search sv (as_checkpoints st') (as_log st') (tenant_query tn) = Inr (drop n recs @ [r])
      \<and> rc_Type r = ''audit.archived''"
    using a(3) by (auto simp: split(2) sealed_append)
      (simp add: sealed_def Let_def link_def split: option.splits)
  moreover have "bu_Records b = map (\<lambda>r. r\<lparr>rc_StreamSequence := 0\<rparr>) (take n recs)"
    using ok(2,3) assms(7) by (auto simp: VerifyBundle_def wire_def split: sum.splits if_splits)
  ultimately show ?thesis using ok by blast
qed

definition demo_store :: "Bundle audit_store" where
  "demo_store = \<lparr>as_log = [demo_event 1 ''a'', demo_event 9 ''b''], as_checkpoints = Map.empty, as_archive = []\<rparr>"

theorem archiveTenant_keeps_chain_witness:
  "\<exists>st' recs r. archiveTenant demo_service wire Some (\<lambda>t n. ''u'') (\<lambda>a b c d. ''{}'') 10 ''e'' 10 ''t1'' 5 demo_store = (st', Inr 1)
     \<and> Search demo_service (as_checkpoints demo_store) (as_log demo_store) (tenant_query ''t1'') = Inr recs
     \<and> Search demo_service (as_checkpoints st') (as_log st') (tenant_query ''t1'') = Inr (drop 1 recs @ [r])"
proof -
  let ?recs = "[demo_record ''a'', (demo_record ''b'')\<lparr>rc_Sequence := 2, rc_StreamSequence := 9, rc_Time := 9,
      rc_Hash := ''hh(a(b''\<rparr>]"
  have s: "Search demo_service (as_checkpoints demo_store) (as_log demo_store) (tenant_query ''t1'') = Inr ?recs"
    by (simp add: Search_def searchSeed_def demo_store_def demo_service_def tenant_query_def matches_def link_def demo_defs)
  obtain st' where run: "archiveTenant demo_service wire Some (\<lambda>t n. ''u'') (\<lambda>a b c d. ''{}'') 10 ''e'' 10 ''t1'' 5 demo_store
      = (st', Inr 1)"
    by (simp add: archiveTenant_def s)
      (simp add: Let_def VerifyBundle_def VerifyChainFrom_def wire_def link_def demo_service_def demo_store_def
        searchSeed_def demo_defs)
  have "\<exists>r. Search demo_service (as_checkpoints st') (as_log st') (tenant_query ''t1'') = Inr (drop 1 ?recs @ [r])
      \<and> rc_Type r = ''audit.archived''"
    by (rule archiveTenant_keeps_chain [OF run _ s, THEN conjunct1])
      (auto simp: demo_store_def demo_event_def demo_service_def demo_canon_def)
  with run s show ?thesis by blast
qed

end
