(* ===== verification/Graph.thy ===== *)
theory Graph
  imports Prelude
begin

text \<open>
  The credential graph (\<^verbatim>\<open>internal/graph/graph.go\<close>): nodes, deduplicated edges, neighbours,
  breadth-first reachability and the blast radius. Go's maps are association lists with one entry
  per key, its sets of strings are finite sets; results are sorted by id, so no map order shows.
\<close>

section \<open>The graph\<close>

record Node =
  n_ID :: string
  n_Kind :: string
  n_Name :: string
  n_Attrs :: "(string \<times> string) list"

record Edge =
  e_From :: string
  e_To :: string
  e_Type :: string

record Graph =
  g_nodes :: "(string \<times> Node) list"
  g_out :: "(string \<times> Edge list) list"
  g_edges :: "Edge list"
  g_seen :: "string set"

definition Graph_New :: Graph where
  "Graph_New = \<lparr>g_nodes = [], g_out = [], g_edges = [], g_seen = {}\<rparr>"

fun put :: "'k \<Rightarrow> 'v \<Rightarrow> ('k \<times> 'v) list \<Rightarrow> ('k \<times> 'v) list" where
  "put k v [] = [(k, v)]"
| "put k v ((k', v') # xs) = (if k = k' then (k, v) # xs else (k', v') # put k v xs)"

definition out_edges :: "Graph \<Rightarrow> string \<Rightarrow> Edge list" where
  "out_edges g i = (case map_of (g_out g) i of None \<Rightarrow> [] | Some es \<Rightarrow> es)"

definition AddNode :: "Node \<Rightarrow> Graph \<Rightarrow> Graph" where
  "AddNode n g = g\<lparr>g_nodes := put (n_ID n) n (g_nodes g)\<rparr>"

definition edge_key :: "Edge \<Rightarrow> string" where
  "edge_key e = e_From e @ ''|'' @ e_Type e @ ''|'' @ e_To e"

definition AddEdge :: "Edge \<Rightarrow> Graph \<Rightarrow> Graph" where
  "AddEdge e g =
     (if edge_key e \<in> g_seen g then g
      else g\<lparr>g_seen := insert (edge_key e) (g_seen g), g_edges := g_edges g @ [e],
             g_out := put (e_From e) (out_edges g (e_From e) @ [e]) (g_out g)\<rparr>)"

definition Graph_Node :: "Graph \<Rightarrow> string \<Rightarrow> Node option" where
  "Graph_Node g i = map_of (g_nodes g) i"

definition Order :: "Graph \<Rightarrow> nat" where "Order g = length (g_nodes g)"

definition Size :: "Graph \<Rightarrow> nat" where "Size g = length (g_edges g)"

definition Nodes :: "Graph \<Rightarrow> Node list" where
  "Nodes g = sort_key n_ID (map snd (g_nodes g))"

definition Edges :: "Graph \<Rightarrow> Edge list" where "Edges g = g_edges g"

section \<open>Queries\<close>

definition allows :: "string list \<Rightarrow> string \<Rightarrow> bool" where
  "allows types t = (if types = [] then True else list_ex (\<lambda>want. want = t) types)"

fun neighbors_loop :: "Graph \<Rightarrow> string list \<Rightarrow> string set \<Rightarrow> Edge list \<Rightarrow> Node list" where
  "neighbors_loop g types seen [] = []"
| "neighbors_loop g types seen (e # es) =
     (if \<not> allows types (e_Type e) \<or> e_To e \<in> seen then neighbors_loop g types seen es
      else case map_of (g_nodes g) (e_To e) of
             None \<Rightarrow> neighbors_loop g types seen es
           | Some n \<Rightarrow> n # neighbors_loop g types (insert (e_To e) seen) es)"

definition Neighbors :: "Graph \<Rightarrow> string \<Rightarrow> string list \<Rightarrow> Node list" where
  "Neighbors g i types = sort_key n_ID (neighbors_loop g types {} (out_edges g i))"

text \<open>The inner loop of \<^verbatim>\<open>Reachable\<close> over the edges of one node.\<close>

fun scan ::
  "Graph \<Rightarrow> string list \<Rightarrow> Edge list \<Rightarrow> string set \<times> string list \<times> Node list \<Rightarrow>
   string set \<times> string list \<times> Node list" where
  "scan g types [] s = s"
| "scan g types (e # es) (visited, queue, out) =
     (if \<not> allows types (e_Type e) \<or> e_To e \<in> visited then scan g types es (visited, queue, out)
      else case map_of (g_nodes g) (e_To e) of
             None \<Rightarrow> scan g types es (insert (e_To e) visited, queue, out)
           | Some n \<Rightarrow> scan g types es (insert (e_To e) visited, queue @ [e_To e], out @ [n]))"

text \<open>Every id an edge points to: what bounds the outer loop.\<close>

definition targets :: "Graph \<Rightarrow> string set" where
  "targets g = e_To ` set (concat (map snd (g_out g)))"

lemma finite_targets: "finite (targets g)"
  by (simp add: targets_def)

lemma out_edges_targets: "e \<in> set (out_edges g i) \<Longrightarrow> e_To e \<in> targets g"
proof (cases "map_of (g_out g) i")
  case (Some es)
  assume "e \<in> set (out_edges g i)"
  with Some have "e \<in> set es" "(i, es) \<in> set (g_out g)" by (simp_all add: out_edges_def map_of_SomeD)
  then show ?thesis by (force simp: targets_def)
qed (simp add: out_edges_def)

lemma scan_visited:
  assumes "scan g types es (v, q, out) = (v', q', out')"
  shows "v \<subseteq> v' \<and> v' \<subseteq> v \<union> e_To ` set es \<and> (v' = v \<longrightarrow> q' = q)"
  using assms
proof (induction es arbitrary: v q out)
  case (Cons e es)
  show ?case
  proof (cases "\<not> allows types (e_Type e) \<or> e_To e \<in> v")
    case True
    with Cons.prems have "scan g types es (v, q, out) = (v', q', out')" by simp
    from Cons.IH [OF this] show ?thesis by auto
  next
    case False
    with Cons.prems obtain q1 out1 where "scan g types es (insert (e_To e) v, q1, out1) = (v', q', out')"
      by (auto split: option.splits)
    from Cons.IH [OF this] False show ?thesis by auto
  qed
qed simp

function bfs :: "Graph \<Rightarrow> string list \<Rightarrow> string set \<Rightarrow> string list \<Rightarrow> Node list \<Rightarrow> Node list" where
  "bfs g types visited [] out = out"
| "bfs g types visited (cur # queue) out =
     (case scan g types (out_edges g cur) (visited, queue, out) of
        (v, q, o') \<Rightarrow> bfs g types v q o')"
  by pat_completeness auto

termination
proof (relation "measures [\<lambda>(g, types, v, q, out). card (targets g - v), \<lambda>(g, types, v, q, out). length q]",
    goal_cases)
  case (2 g types v cur q out v' x q' out')
  then have sc: "scan g types (out_edges g cur) (v, q, out) = (v', q', out')" by simp
  note vis = scan_visited [OF sc]
  show ?case
  proof (cases "v' = v")
    case True
    with vis show ?thesis by simp
  next
    case False
    with vis obtain y where "y \<in> v'" "y \<notin> v" "y \<in> targets g" using out_edges_targets by fastforce
    with vis have "targets g - v' \<subset> targets g - v" by blast
    then show ?thesis using psubset_card_mono [of "targets g - v"] finite_targets by simp
  qed
qed simp

definition Reachable :: "Graph \<Rightarrow> string \<Rightarrow> string list \<Rightarrow> Node list" where
  "Reachable g i types = sort_key n_ID (bfs g types {i} [i] [])"

definition Reaches :: "Graph \<Rightarrow> string \<Rightarrow> string \<Rightarrow> bool" where
  "Reaches g i to = (if i = to then False else list_ex (\<lambda>n. n_ID n = to) (Reachable g i []))"

record Impact =
  im_Node :: "Node option"
  im_Affected :: "Node list"
  im_ByKind :: "string \<Rightarrow> Node list"

definition BlastRadius :: "Graph \<Rightarrow> string \<Rightarrow> Impact" where
  "BlastRadius g i =
     (let affected = Reachable g i []
      in \<lparr>im_Node = map_of (g_nodes g) i, im_Affected = affected,
          im_ByKind = (\<lambda>k. filter (\<lambda>n. n_Kind n = k) affected)\<rparr>)"

section \<open>Reachability\<close>

text \<open>One allowed edge to an existing node.\<close>

definition g_step :: "Graph \<Rightarrow> string list \<Rightarrow> string \<Rightarrow> string \<Rightarrow> bool" where
  "g_step g types u v =
     (\<exists>e \<in> set (out_edges g u). allows types (e_Type e) \<and> e_To e = v \<and> map_of (g_nodes g) v \<noteq> None)"

text \<open>Nodes are stored under their own id.\<close>

definition nodes_wf :: "Graph \<Rightarrow> bool" where
  "nodes_wf g = (\<forall>i n. map_of (g_nodes g) i = Some n \<longrightarrow> n_ID n = i)"

lemma map_of_put: "map_of (put k v xs) x = (if x = k then Some v else map_of xs x)"
  by (induction k v xs rule: put.induct) auto

lemma nodes_wf_New [simp]: "nodes_wf Graph_New" by (simp add: nodes_wf_def Graph_New_def)

lemma nodes_wf_AddNode: "nodes_wf g \<Longrightarrow> nodes_wf (AddNode n g)"
  by (simp add: nodes_wf_def AddNode_def map_of_put)

lemma nodes_wf_AddEdge: "nodes_wf g \<Longrightarrow> nodes_wf (AddEdge e g)"
  by (simp add: nodes_wf_def AddEdge_def)

text \<open>
  The invariant of the search from \<open>s\<close>: what has been collected is what has been visited and
  exists, everything collected or queued is reachable, and every node that has left the queue has
  all its targets visited.
\<close>

definition bfs_inv :: "Graph \<Rightarrow> string list \<Rightarrow> string \<Rightarrow> string set \<Rightarrow> string set \<times> string list \<times> Node list \<Rightarrow> bool" where
  "bfs_inv g types s pending st = (case st of (v, q, out) \<Rightarrow>
     s \<in> v \<and> distinct (map n_ID out)
     \<and> set out = {n. \<exists>i \<in> v - {s}. map_of (g_nodes g) i = Some n}
     \<and> (\<forall>i \<in> v. i = s \<or> map_of (g_nodes g) i = None \<or> (g_step g types)\<^sup>*\<^sup>* s i)
     \<and> set q \<subseteq> {i \<in> v. (g_step g types)\<^sup>*\<^sup>* s i}
     \<and> (\<forall>i \<in> v. (i = s \<or> map_of (g_nodes g) i \<noteq> None) \<longrightarrow> i \<in> pending \<or> i \<in> set q \<or>
          (\<forall>e \<in> set (out_edges g i). allows types (e_Type e) \<longrightarrow> e_To e \<in> v)))"

lemma scan_inv:
  assumes "nodes_wf g" and "bfs_inv g types s {cur} (v, q, out)" and "(g_step g types)\<^sup>*\<^sup>* s cur"
    and "set es \<subseteq> set (out_edges g cur)"
  shows "bfs_inv g types s {cur} (scan g types es (v, q, out))
    \<and> (\<forall>e \<in> set es. allows types (e_Type e) \<longrightarrow> e_To e \<in> fst (scan g types es (v, q, out)))"
  using assms(2,4)
proof (induction es arbitrary: v q out)
  case (Cons e es)
  show ?case
  proof (cases "\<not> allows types (e_Type e) \<or> e_To e \<in> v")
    case True
    obtain v' q' out' where sc: "scan g types es (v, q, out) = (v', q', out')" by (metis prod_cases3)
    from Cons.IH [OF Cons.prems(1)] Cons.prems(2) True scan_visited [OF sc] sc show ?thesis by auto
  next
    case new: False
    show ?thesis
    proof (cases "map_of (g_nodes g) (e_To e)")
      case None
      obtain v' q' out' where sc: "scan g types es (insert (e_To e) v, q, out) = (v', q', out')" by (metis prod_cases3)
      have "bfs_inv g types s {cur} (insert (e_To e) v, q, out)"
        using Cons.prems(1) None new by (auto simp: bfs_inv_def)
      from Cons.IH [OF this] Cons.prems(2) None new scan_visited [OF sc] sc show ?thesis by auto
    next
      case (Some n)
      obtain v' q' out' where sc: "scan g types es (insert (e_To e) v, q @ [e_To e], out @ [n]) = (v', q', out')"
        by (metis prod_cases3)
      have "g_step g types cur (e_To e)"
        using Cons.prems(2) Some new by (auto simp: g_step_def)
      with assms(3) have reach: "(g_step g types)\<^sup>*\<^sup>* s (e_To e)" by simp
      have id: "n_ID n = e_To e" using assms(1) Some by (simp add: nodes_wf_def)
      have "bfs_inv g types s {cur} (insert (e_To e) v, q @ [e_To e], out @ [n])"
        using Cons.prems(1) Some new reach id assms(1)
        by (auto simp: bfs_inv_def nodes_wf_def)
      from Cons.IH [OF this] Cons.prems(2) Some new scan_visited [OF sc] sc show ?thesis by auto
    qed
  qed
qed simp

lemma bfs_correct:
  assumes "nodes_wf g" and "bfs_inv g types s {} (v, q, out)"
  shows "distinct (map n_ID (bfs g types v q out))
    \<and> set (bfs g types v q out) = {n. \<exists>i. i \<noteq> s \<and> (g_step g types)\<^sup>*\<^sup>* s i \<and> map_of (g_nodes g) i = Some n}"
  using assms
proof (induction g types v q out rule: bfs.induct [case_names finished next_node])
  case (finished g types v out)
  have closed: "i \<in> v" if "(g_step g types)\<^sup>*\<^sup>* s i" for i
    using that
  proof (induction rule: rtranclp_induct)
    case base
    then show ?case using finished by (simp add: bfs_inv_def)
  next
    case (step i j)
    have "i = s \<or> map_of (g_nodes g) i \<noteq> None"
      using step(1) by (cases rule: rtranclp.cases) (auto simp: g_step_def)
    with step(2,3) finished show ?case by (auto simp: bfs_inv_def g_step_def)
  qed
  then show ?case using finished by (fastforce simp: bfs_inv_def)
next
  case (next_node g types v cur q out)
  obtain v' q' out' where sc: "scan g types (out_edges g cur) (v, q, out) = (v', q', out')" by (metis prod_cases3)
  have "bfs_inv g types s {cur} (v, q, out)" and "(g_step g types)\<^sup>*\<^sup>* s cur"
    using next_node.prems(2) by (auto simp: bfs_inv_def)
  from scan_inv [OF next_node.prems(1) this order_refl] have inv: "bfs_inv g types s {cur} (v', q', out')"
    and done_cur: "\<forall>e \<in> set (out_edges g cur). allows types (e_Type e) \<longrightarrow> e_To e \<in> v'"
    by (simp_all add: sc)
  then have "bfs_inv g types s {} (v', q', out')"
    by (auto simp: bfs_inv_def)
  from next_node.IH [OF sc [symmetric] refl next_node.prems(1) this] show ?case by (simp add: sc)
qed

text \<open>C32: The blast radius is exactly the forward-reachable set. The breadth-first search ends on
  every graph, cycles included, and returns, sorted by id and without repetition, precisely the
  existing nodes other than the start that a path of allowed edges through existing nodes leads
  to; the blast radius groups these by kind without losing or adding any.
\<close>

theorem Reachable_correct:
  assumes "nodes_wf g"
  shows "set (Reachable g s types) =
      {n. \<exists>i. i \<noteq> s \<and> (g_step g types)\<^sup>*\<^sup>* s i \<and> map_of (g_nodes g) i = Some n}
    \<and> sorted (map n_ID (Reachable g s types)) \<and> distinct (map n_ID (Reachable g s types))
    \<and> im_Affected (BlastRadius g s) = Reachable g s []
    \<and> (\<forall>n k. n \<in> set (im_ByKind (BlastRadius g s) k) \<longleftrightarrow> n \<in> set (Reachable g s []) \<and> n_Kind n = k)"
proof -
  have "bfs_inv g types s {} ({s}, [s], [])" by (simp add: bfs_inv_def)
  note r = bfs_correct [OF assms this]
  have "distinct (map n_ID (sort_key n_ID xs)) \<longleftrightarrow> distinct (map n_ID xs)" for xs
    by (metis distinct_map distinct_sort inj_on_cong set_sort)
  with r show ?thesis by (auto simp: Reachable_def BlastRadius_def Let_def)
qed

definition demo_node :: "string \<Rightarrow> Node" where
  "demo_node i = \<lparr>n_ID = i, n_Kind = ''workload'', n_Name = i, n_Attrs = []\<rparr>"

definition demo_edge :: "string \<Rightarrow> string \<Rightarrow> Edge" where
  "demo_edge u v = \<lparr>e_From = u, e_To = v, e_Type = ''CONNECTS_TO''\<rparr>"

definition demo_graph :: Graph where
  "demo_graph = AddEdge (demo_edge ''b'' ''a'') (AddEdge (demo_edge ''a'' ''b'')
     (AddNode (demo_node ''b'') (AddNode (demo_node ''a'') Graph_New)))"

theorem Reachable_correct_witness:
  "nodes_wf demo_graph \<and> demo_node ''b'' \<in> set (Reachable demo_graph ''a'' [])"
proof -
  have wf: "nodes_wf demo_graph"
    unfolding demo_graph_def by (intro nodes_wf_AddEdge nodes_wf_AddNode nodes_wf_New)
  have "g_step demo_graph [] ''a'' ''b''"
    by (auto simp: g_step_def demo_graph_def AddEdge_def AddNode_def Graph_New_def edge_key_def demo_edge_def
        demo_node_def out_edges_def allows_def)
  moreover have "map_of (g_nodes demo_graph) ''b'' = Some (demo_node ''b'')"
    by (simp add: demo_graph_def AddEdge_def AddNode_def Graph_New_def edge_key_def demo_edge_def demo_node_def)
  ultimately have "demo_node ''b'' \<in> set (Reachable demo_graph ''a'' [])"
    unfolding Reachable_correct [OF wf, THEN conjunct1] by (intro CollectI exI [of _ "''b''"]) auto
  with wf show ?thesis by blast
qed

section \<open>Edges\<close>

definition plain_source :: "Edge \<Rightarrow> bool" where
  "plain_source e = (CHR ''|'' \<notin> set (e_From e) \<and> CHR ''|'' \<notin> set (e_Type e))"

lemma edge_key_inject:
  "plain_source e \<Longrightarrow> plain_source e' \<Longrightarrow> edge_key e = edge_key e' \<longleftrightarrow> e = (e' :: Edge)"
  by (auto simp: plain_source_def edge_key_def append_sep_inject)

definition edges_wf :: "Graph \<Rightarrow> bool" where
  "edges_wf g = (g_seen g = edge_key ` set (g_edges g) \<and> distinct (g_edges g)
     \<and> (\<forall>u. out_edges g u = filter (\<lambda>e. e_From e = u) (g_edges g)))"

lemma edges_wf_AddEdge:
  assumes "edges_wf g"
  shows "edges_wf (AddEdge e g)"
proof (cases "edge_key e \<in> g_seen g")
  case False
  have "out_edges (AddEdge e g) u = filter (\<lambda>e. e_From e = u) (g_edges (AddEdge e g))" for u
    using assms False by (simp add: edges_wf_def AddEdge_def out_edges_def map_of_put)
  with assms False show ?thesis by (auto simp: edges_wf_def AddEdge_def)
qed (use assms in \<open>simp add: AddEdge_def\<close>)

lemma g_edges_AddEdge:
  "g_edges (AddEdge e g) = (if edge_key e \<in> g_seen g then g_edges g else g_edges g @ [e])"
  by (simp add: AddEdge_def)

lemma edges_wf_build: "edges_wf (fold AddEdge es Graph_New)"
  by (induction es rule: rev_induct)
    (simp_all add: edges_wf_AddEdge, simp add: edges_wf_def Graph_New_def out_edges_def)

text \<open>
  Building a graph records each relationship exactly once. Adding any list of edges whose
  sources and types contain no bar yields a graph with exactly the distinct edges of the list,
  whose adjacency lists are those edges by source, in insertion order. With a bar in a source, two
  different edges can share a deduplication key and the second one is silently dropped.
\<close>

theorem AddEdge_exact:
  "(list_all plain_source es \<longrightarrow>
     set (Edges (fold AddEdge es Graph_New)) = set es \<and> distinct (Edges (fold AddEdge es Graph_New))
     \<and> (\<forall>u. out_edges (fold AddEdge es Graph_New) u = filter (\<lambda>e. e_From e = u) (Edges (fold AddEdge es Graph_New))))
   \<and> Edges (fold AddEdge [\<lparr>e_From = ''a'', e_To = ''b|OWNS|c'', e_Type = ''OWNS''\<rparr>,
                          \<lparr>e_From = ''a|OWNS|b'', e_To = ''c'', e_Type = ''OWNS''\<rparr>] Graph_New)
     = [\<lparr>e_From = ''a'', e_To = ''b|OWNS|c'', e_Type = ''OWNS''\<rparr>]"
proof (intro conjI impI)
  assume plain: "list_all plain_source es"
  have "set (g_edges (fold AddEdge es Graph_New)) = set es"
    using plain
  proof (induction es rule: rev_induct)
    case (snoc e es)
    show ?case
    proof (cases "edge_key e \<in> g_seen (fold AddEdge es Graph_New)")
      case True
      with edges_wf_build [of es] snoc have "e \<in> set es"
        by (auto simp: edges_wf_def edge_key_inject list_all_iff)
      with True snoc show ?thesis by (auto simp: g_edges_AddEdge)
    qed (use snoc in \<open>simp add: g_edges_AddEdge\<close>)
  qed (simp add: Graph_New_def)
  with edges_wf_build [of es] show "set (Edges (fold AddEdge es Graph_New)) = set es" "distinct (Edges (fold AddEdge es Graph_New))"
    "\<forall>u. out_edges (fold AddEdge es Graph_New) u = filter (\<lambda>e. e_From e = u) (Edges (fold AddEdge es Graph_New))"
    by (simp_all add: Edges_def edges_wf_def)
qed (simp add: AddEdge_def edge_key_def Graph_New_def Edges_def)

theorem AddEdge_exact_witness:
  "set (Edges (fold AddEdge [demo_edge ''a'' ''b'', demo_edge ''a'' ''b''] Graph_New)) = {demo_edge ''a'' ''b''}"
  using AddEdge_exact [of "[demo_edge ''a'' ''b'', demo_edge ''a'' ''b'']"]
  by (simp add: plain_source_def demo_edge_def)

end
