(* ===== verification/KmipTtlv.thy ===== *)
theory KmipTtlv
  imports Prelude "HOL-Library.Word"
begin

unbundle bit_operations_syntax

text \<open>
  The KMIP tag/type/length/value codec (\<^verbatim>\<open>ee/kmip/ttlv.go\<close> and the encoders of \<^verbatim>\<open>ee/kmip/wire.go\<close>).
  Bytes are \<open>8 word\<close>, tags and lengths \<open>32 word\<close>. Go's \<^verbatim>\<open>int\<close> is 64 bits wide: the lengths it holds
  here come from 32-bit nf and slice lengths and cannot overflow it, so they are \<open>nat\<close>.
\<close>

type_synonym byte = "8 word"

section \<open>Big-endian nf\<close>

definition be24 :: "byte \<Rightarrow> byte \<Rightarrow> byte \<Rightarrow> 32 word" where
  "be24 a b c = push_bit 16 (ucast a) OR push_bit 8 (ucast b) OR ucast c"

definition Uint32 :: "byte list \<Rightarrow> 32 word" where
  "Uint32 bs = push_bit 24 (ucast (bs ! 0)) OR push_bit 16 (ucast (bs ! 1))
               OR push_bit 8 (ucast (bs ! 2)) OR ucast (bs ! 3)"

definition PutUint32 :: "32 word \<Rightarrow> byte list" where
  "PutUint32 w = [ucast (drop_bit 24 w), ucast (drop_bit 16 w), ucast (drop_bit 8 w), ucast w]"

section \<open>Nodes and limits\<close>

datatype ttlv = TTLV (tv_Tag: "32 word") (tv_Type: byte) (tv_Length: "32 word") (tv_Value: "byte list")
  (tv_Children: "ttlv list")

abbreviation (input) TTLVStructure :: byte where "TTLVStructure \<equiv> 1"
abbreviation (input) TTLVInteger :: byte where "TTLVInteger \<equiv> 2"
abbreviation (input) TTLVEnumeration :: byte where "TTLVEnumeration \<equiv> 5"
abbreviation (input) TTLVTextString :: byte where "TTLVTextString \<equiv> 7"
abbreviation (input) TTLVByteString :: byte where "TTLVByteString \<equiv> 8"
abbreviation (input) TTLVDateTime :: byte where "TTLVDateTime \<equiv> 9"

record TTLVLimits =
  MaxFrameSize :: int
  MaxFields :: int
  MaxDepth :: int

definition DefaultTTLVLimits :: TTLVLimits where
  "DefaultTTLVLimits = \<lparr>MaxFrameSize = 1048576, MaxFields = 4096, MaxDepth = 16\<rparr>"

definition normalizeTTLVLimits :: "TTLVLimits \<Rightarrow> TTLVLimits" where
  "normalizeTTLVLimits l =
     \<lparr>MaxFrameSize = (if MaxFrameSize l \<le> 0 then MaxFrameSize DefaultTTLVLimits else MaxFrameSize l),
      MaxFields = (if MaxFields l \<le> 0 then MaxFields DefaultTTLVLimits else MaxFields l),
      MaxDepth = (if MaxDepth l \<le> 0 then MaxDepth DefaultTTLVLimits else MaxDepth l)\<rparr>"

definition ttlvPadding :: "nat \<Rightarrow> nat" where
  "ttlvPadding n = (if n mod 8 \<noteq> 0 then 8 - n mod 8 else 0)"

datatype ttlv_error =
    EmptyFrame | FrameTooLarge | DepthExceeded | TruncatedHeader | FieldsExceeded | ValueTooLong
  | ValueBeyondFrame | BadLength byte nat | UnsupportedType byte | TrailingBytes nat
  | NotRequestMessage | RequestHeaderMissing | ProtocolVersionMissing | IntegerChildMissing "32 word"
  | EnumChildMissing "32 word" | BatchItemNotStructure | BatchCountMismatch

section \<open>The parser\<close>

text \<open>
  The part of \<^verbatim>\<open>parseItem\<close> before the value is looked at: tag, type, value length and total size.
  The parser's field counter is threaded through as \<open>nf\<close>.
\<close>

definition parse_header ::
  "TTLVLimits \<Rightarrow> byte list \<Rightarrow> int \<Rightarrow> int \<Rightarrow> ttlv_error + (32 word \<times> byte \<times> nat \<times> nat)" where
  "parse_header lim frame depth nf =
     (if depth > MaxDepth lim then Inl DepthExceeded
      else if length frame < 8 then Inl TruncatedHeader
      else if nf + 1 > MaxFields lim then Inl FieldsExceeded
      else let tag = be24 (frame ! 0) (frame ! 1) (frame ! 2);
               rawLength = Uint32 (take 4 (drop 4 frame));
               len = unat rawLength;
               size_total = 8 + len + ttlvPadding len
           in if rawLength > word_of_int (MaxFrameSize lim) then Inl ValueTooLong
              else if size_total < 8 \<or> size_total > length frame then Inl ValueBeyondFrame
              else Inr (tag, frame ! 3, len, size_total))"

lemma parse_header_total:
  "parse_header lim frame depth nf = Inr (tag, typ, len, size_total) \<Longrightarrow>
     8 + len \<le> size_total \<and> size_total \<le> length frame"
  by (auto simp: parse_header_def Let_def split: if_splits)

definition primitive :: "byte \<Rightarrow> nat \<Rightarrow> ttlv_error option" where
  "primitive typ len =
     (if typ \<in> {2, 5, 10} then (if len \<noteq> 4 then Some (BadLength typ len) else None)
      else if typ \<in> {3, 6, 9} then (if len \<noteq> 8 then Some (BadLength typ len) else None)
      else if typ \<in> {4, 7, 8} then None
      else Some (UnsupportedType typ))"

text \<open>
  The loop over a structure's value, with \<^verbatim>\<open>parseItem\<close> unfolded in it; the lemma
  \<open>parse_children_loop\<close> below gives it the form of the code.
\<close>

function parse_children ::
  "TTLVLimits \<Rightarrow> byte list \<Rightarrow> int \<Rightarrow> int \<Rightarrow> ttlv_error + (ttlv list \<times> int)" where
  "parse_children lim value depth nf =
     (if value = [] then Inr ([], nf)
      else case parse_header lim value depth nf of
        Inl err \<Rightarrow> Inl err
      | Inr (tag, typ, len, size_total) \<Rightarrow>
          (let val = take len (drop 8 value)
           in case (if typ = TTLVStructure
                    then (case parse_children lim val (depth + 1) (nf + 1) of
                            Inl err \<Rightarrow> Inl err
                          | Inr (cs, f) \<Rightarrow> Inr (TTLV tag typ (of_nat len) [] cs, f))
                    else (case primitive typ len of
                            Some err \<Rightarrow> Inl err
                          | None \<Rightarrow> Inr (TTLV tag typ (of_nat len) val [], nf + 1))) of
                Inl err \<Rightarrow> Inl err
              | Inr (child, f) \<Rightarrow>
                  (case parse_children lim (drop size_total value) depth f of
                     Inl err \<Rightarrow> Inl err
                   | Inr (rest, f') \<Rightarrow> Inr (child # rest, f'))))"
  by pat_completeness auto

termination
  by (relation "measure (\<lambda>(lim, value, depth, nf). length value)")
    (auto dest!: parse_header_total parse_header_total [OF sym] simp: min_def)

declare parse_children.simps [simp del]

definition parseItem ::
  "TTLVLimits \<Rightarrow> byte list \<Rightarrow> int \<Rightarrow> int \<Rightarrow> ttlv_error + (ttlv \<times> nat \<times> int)" where
  "parseItem lim frame depth nf =
     (case parse_header lim frame depth nf of
        Inl err \<Rightarrow> Inl err
      | Inr (tag, typ, len, size_total) \<Rightarrow>
          (let val = take len (drop 8 frame)
           in if typ = TTLVStructure
              then (case parse_children lim val (depth + 1) (nf + 1) of
                      Inl err \<Rightarrow> Inl err
                    | Inr (cs, f) \<Rightarrow> Inr (TTLV tag typ (of_nat len) [] cs, size_total, f))
              else (case primitive typ len of
                      Some err \<Rightarrow> Inl err
                    | None \<Rightarrow> Inr (TTLV tag typ (of_nat len) val [], size_total, nf + 1))))"

text \<open>The loop of the code: parse an item at the offset, advance by its size.\<close>

lemma parse_children_loop:
  "parse_children lim value depth nf =
     (if value = [] then Inr ([], nf)
      else case parseItem lim value depth nf of
        Inl err \<Rightarrow> Inl err
      | Inr (child, n, f) \<Rightarrow>
          (case parse_children lim (drop n value) depth f of
             Inl err \<Rightarrow> Inl err
           | Inr (rest, f') \<Rightarrow> Inr (child # rest, f')))"
  by (subst parse_children.simps)
    (auto simp: parseItem_def Let_def split: sum.splits option.splits prod.splits)

definition ParseTTLVWithLimits :: "byte list \<Rightarrow> TTLVLimits \<Rightarrow> ttlv_error + ttlv" where
  "ParseTTLVWithLimits frame limits =
     (let lim = normalizeTTLVLimits limits
      in if frame = [] then Inl EmptyFrame
         else if int (length frame) > MaxFrameSize lim then Inl FrameTooLarge
         else case parseItem lim frame 1 0 of
                Inl err \<Rightarrow> Inl err
              | Inr (root, n, _) \<Rightarrow>
                  if n \<noteq> length frame then Inl (TrailingBytes (length frame - n)) else Inr root)"

definition ParseTTLV :: "byte list \<Rightarrow> ttlv_error + ttlv" where
  "ParseTTLV frame = ParseTTLVWithLimits frame DefaultTTLVLimits"

section \<open>The encoder\<close>

definition encodeItem :: "32 word \<Rightarrow> byte \<Rightarrow> byte list \<Rightarrow> byte list" where
  "encodeItem tag typ value =
     [ucast (drop_bit 16 tag), ucast (drop_bit 8 tag), ucast tag, typ]
     @ PutUint32 (of_nat (length value)) @ value @ replicate (ttlvPadding (length value)) 0"

definition encodeStructure :: "32 word \<Rightarrow> byte list list \<Rightarrow> byte list" where
  "encodeStructure tag children = encodeItem tag TTLVStructure (concat children)"

definition encodeInteger :: "32 word \<Rightarrow> 32 word \<Rightarrow> byte list" where
  "encodeInteger tag value = encodeItem tag TTLVInteger (PutUint32 value)"

definition encodeEnumeration :: "32 word \<Rightarrow> 32 word \<Rightarrow> byte list" where
  "encodeEnumeration tag value = encodeItem tag TTLVEnumeration (PutUint32 value)"

definition encodeText :: "32 word \<Rightarrow> byte list \<Rightarrow> byte list" where
  "encodeText tag value = encodeItem tag TTLVTextString value"

definition encodeBytes :: "32 word \<Rightarrow> byte list \<Rightarrow> byte list" where
  "encodeBytes tag value = encodeItem tag TTLVByteString value"

section \<open>Request messages\<close>

definition FirstChild :: "ttlv \<Rightarrow> 32 word \<Rightarrow> ttlv option" where
  "FirstChild n tag = find (\<lambda>child. tv_Tag child = tag) (tv_Children n)"

definition ChildrenByTag :: "ttlv \<Rightarrow> 32 word \<Rightarrow> ttlv list" where
  "ChildrenByTag n tag = filter (\<lambda>child. tv_Tag child = tag) (tv_Children n)"

text \<open>Both return Go's \<^verbatim>\<open>int32\<close> of the field, read as a signed number.\<close>

definition typed_child :: "byte \<Rightarrow> (32 word \<Rightarrow> ttlv_error) \<Rightarrow> ttlv \<Rightarrow> 32 word \<Rightarrow> ttlv_error + int" where
  "typed_child typ missing parent tag =
     (case FirstChild parent tag of
        None \<Rightarrow> Inl (missing tag)
      | Some child \<Rightarrow>
          if tv_Type child \<noteq> typ \<or> length (tv_Value child) \<noteq> 4 then Inl (missing tag)
          else Inr (sint (Uint32 (tv_Value child))))"

definition integerChild :: "ttlv \<Rightarrow> 32 word \<Rightarrow> ttlv_error + int" where
  "integerChild = typed_child TTLVInteger IntegerChildMissing"

definition enumChild :: "ttlv \<Rightarrow> 32 word \<Rightarrow> ttlv_error + int" where
  "enumChild = typed_child TTLVEnumeration EnumChildMissing"

record RequestMessage =
  rm_ProtocolMajor :: int
  rm_ProtocolMinor :: int
  rm_BatchCount :: int
  rm_BatchItems :: "(int \<times> ttlv option) list"

fun decode_items :: "ttlv list \<Rightarrow> ttlv_error + (int \<times> ttlv option) list" where
  "decode_items [] = Inr []"
| "decode_items (item # items) =
     (if tv_Type item \<noteq> TTLVStructure then Inl BatchItemNotStructure
      else case enumChild item 0x42005c of
             Inl err \<Rightarrow> Inl err
           | Inr op \<Rightarrow>
               (case decode_items items of
                  Inl err \<Rightarrow> Inl err
                | Inr rest \<Rightarrow> Inr ((op, FirstChild item 0x420079) # rest)))"

definition structure_child :: "ttlv \<Rightarrow> 32 word \<Rightarrow> ttlv option" where
  "structure_child n tag =
     (case FirstChild n tag of
        None \<Rightarrow> None
      | Some c \<Rightarrow> if tv_Type c = TTLVStructure then Some c else None)"

definition DecodeRequestMessage :: "byte list \<Rightarrow> ttlv_error + RequestMessage" where
  "DecodeRequestMessage frame =
     (case ParseTTLV frame of
        Inl err \<Rightarrow> Inl err
      | Inr root \<Rightarrow>
     (if tv_Tag root \<noteq> 0x420078 \<or> tv_Type root \<noteq> TTLVStructure then Inl NotRequestMessage
      else case structure_child root 0x420077 of
        None \<Rightarrow> Inl RequestHeaderMissing
      | Some header \<Rightarrow>
     (case structure_child header 0x420069 of
        None \<Rightarrow> Inl ProtocolVersionMissing
      | Some version \<Rightarrow>
     (case integerChild version 0x42006a of Inl err \<Rightarrow> Inl err | Inr major \<Rightarrow>
     (case integerChild version 0x42006b of Inl err \<Rightarrow> Inl err | Inr minor \<Rightarrow>
     (case integerChild header 0x42000d of Inl err \<Rightarrow> Inl err | Inr batchCount \<Rightarrow>
     (case decode_items (ChildrenByTag root 0x42000f) of Inl err \<Rightarrow> Inl err | Inr items \<Rightarrow>
        if batchCount \<noteq> int (length items) then Inl BatchCountMismatch
        else Inr \<lparr>rm_ProtocolMajor = major, rm_ProtocolMinor = minor, rm_BatchCount = batchCount,
                   rm_BatchItems = items\<rparr>)))))))"

section \<open>Trees\<close>

text \<open>The encoding the encoders give a whole tree, and the trees that are encodings of themselves.\<close>

fun encode_ttlv :: "ttlv \<Rightarrow> byte list" where
  "encode_ttlv (TTLV tag typ len val cs) =
     (if typ = TTLVStructure then encodeStructure tag (map encode_ttlv cs) else encodeItem tag typ val)"

fun wf_ttlv :: "ttlv \<Rightarrow> bool" where
  "wf_ttlv (TTLV tag typ len val cs) =
     (tag < 2 ^ 24 \<and>
      (if typ = TTLVStructure
       then val = [] \<and> list_all wf_ttlv cs \<and> len = of_nat (length (concat (map encode_ttlv cs)))
       else cs = [] \<and> len = of_nat (length val) \<and> primitive typ (length val) = None))"

fun ttlv_depth :: "ttlv \<Rightarrow> nat" where
  "ttlv_depth (TTLV tag typ len val cs) = Suc (foldr max (map ttlv_depth cs) 0)"

fun ttlv_count :: "ttlv \<Rightarrow> nat" where
  "ttlv_count (TTLV tag typ len val cs) = Suc (sum_list (map ttlv_count cs))"

section \<open>Field round trips\<close>

lemma Uint32_PutUint32 [simp]: "Uint32 (PutUint32 w) = w"
proof (rule bit_word_eqI)
  fix n
  assume "n < LENGTH(32)"
  then consider "n < 8" | "8 \<le> n" "n < 16" | "16 \<le> n" "n < 24" | "24 \<le> n" "n < 32" by (simp, linarith)
  then show "bit (Uint32 (PutUint32 w)) n = bit w n"
    by cases (auto simp: Uint32_def PutUint32_def bit_simps)
qed

lemma be24_bytes:
  assumes "tag < 2 ^ 24"
  shows "be24 (ucast (drop_bit 16 tag)) (ucast (drop_bit 8 tag)) (ucast tag) = tag"
proof (rule bit_word_eqI)
  fix n
  assume "n < LENGTH(32)"
  then consider "n < 8" | "8 \<le> n" "n < 16" | "16 \<le> n" "n < 24" | "24 \<le> n" by linarith
  then show "bit (be24 (ucast (drop_bit 16 tag)) (ucast (drop_bit 8 tag)) (ucast tag)) n = bit tag n"
  proof cases
    case 4
    have "take_bit 24 tag = tag"
    proof -
      have "unat tag < 2 ^ 24" using assms by (simp add: word_less_nat_alt)
      then have "take_bit 24 (unat tag) = unat tag" by (rule take_bit_nat_eq_self)
      then show ?thesis by (simp only: word_unat_eq_iff unsigned_take_bit_eq)
    qed
    then have "\<not> bit tag n" using 4 by (metis bit_take_bit_iff not_less)
    with 4 show ?thesis by (auto simp: be24_def bit_simps)
  qed (auto simp: be24_def bit_simps)
qed

lemma length_PutUint32 [simp]: "length (PutUint32 w) = 4"
  by (simp add: PutUint32_def)

lemma length_encodeItem [simp]:
  "length (encodeItem tag typ v) = 8 + length v + ttlvPadding (length v)"
  by (simp add: encodeItem_def)

lemma length_encode_ttlv_pos: "8 \<le> length (encode_ttlv t)"
  by (cases t) (simp add: encodeStructure_def)

lemma encode_ttlv_ne [simp]: "encode_ttlv t \<noteq> []"
  using length_encode_ttlv_pos [of t] by (metis length_0_conv not_numeral_le_zero)

section \<open>Parsing what was encoded\<close>

lemma parse_header_encodeItem:
  assumes "d \<le> MaxDepth lim" and "nf + 1 \<le> MaxFields lim" and "tag < 2 ^ 24"
    and "int (length v) \<le> MaxFrameSize lim" and "MaxFrameSize lim < 2 ^ 32"
  shows "parse_header lim (encodeItem tag typ v @ rest) d nf =
    Inr (tag, typ, length v, length (encodeItem tag typ v))"
proof -
  let ?w = "of_nat (length v) :: 32 word"
  let ?frame = "encodeItem tag typ v @ rest"
  have len: "unat ?w = length v" using assms(4,5) by (simp add: unat_of_nat take_bit_eq_mod)
  have cap: "\<not> word_of_int (MaxFrameSize lim) < ?w"
  proof -
    have "uint (word_of_int (MaxFrameSize lim) :: 32 word) = MaxFrameSize lim"
      using assms(4,5) by (simp add: uint_word_of_int)
    moreover have "uint ?w = int (length v)" using len by (metis uint_nat)
    ultimately show ?thesis using assms(4) by (simp only: word_less_alt not_less)
  qed
  have bytes: "?frame ! 0 = ucast (drop_bit 16 tag)" "?frame ! 1 = ucast (drop_bit 8 tag)" "?frame ! 2 = ucast tag"
    "?frame ! 3 = typ" "take 4 (drop 4 ?frame) = PutUint32 ?w"
    by (simp_all add: encodeItem_def PutUint32_def numeral_2_eq_2 numeral_3_eq_3)
  have "be24 (?frame ! 0) (?frame ! 1) (?frame ! 2) = tag"
    unfolding bytes by (rule be24_bytes [OF assms(3)])
  moreover have "Uint32 (take 4 (drop 4 ?frame)) = ?w" unfolding bytes by simp
  ultimately show ?thesis
    using assms(1,2) len cap bytes(4) by (simp add: parse_header_def Let_def)
qed

lemma take_drop_encodeItem:
  "take (length v) (drop 8 (encodeItem tag typ v @ rest)) = v"
  "take (length v) (drop 8 (encodeItem tag typ v)) = v"
  by (simp_all add: encodeItem_def PutUint32_def)

text \<open>What it takes for a list of trees to fit the limits at depth \<open>d\<close> with \<open>nf\<close> fields already counted.\<close>

definition fits :: "TTLVLimits \<Rightarrow> int \<Rightarrow> int \<Rightarrow> ttlv list \<Rightarrow> bool" where
  "fits lim d nf ts =
     ((\<forall>t \<in> set ts. wf_ttlv t \<and> d + int (ttlv_depth t) - 1 \<le> MaxDepth lim
        \<and> int (length (encode_ttlv t)) \<le> MaxFrameSize lim)
      \<and> nf + int (sum_list (map ttlv_count ts)) \<le> MaxFields lim \<and> MaxFrameSize lim < 2 ^ 32)"

lemma foldr_max_ge: "x \<in> set xs \<Longrightarrow> (x :: nat) \<le> foldr max xs 0"
  by (induction xs) auto

lemma length_concat_member: "x \<in> set xs \<Longrightarrow> length x \<le> length (concat xs)"
  by (induction xs) auto

lemma fits_children:
  assumes "fits lim d nf [TTLV tag 1 len val cs]"
  shows "fits lim (d + 1) (nf + 1) cs"
proof -
  have "int (length (concat (map encode_ttlv cs))) \<le> MaxFrameSize lim"
    using assms by (simp add: fits_def encodeStructure_def)
  moreover have "length (encode_ttlv c) \<le> length (concat (map encode_ttlv cs))" if "c \<in> set cs" for c
    using that by (intro length_concat_member) simp
  moreover have "ttlv_depth c \<le> foldr max (map ttlv_depth cs) 0" if "c \<in> set cs" for c
    using that by (intro foldr_max_ge) simp
  ultimately show ?thesis
    using assms by (fastforce simp: fits_def list_all_iff algebra_simps)
qed

lemma parse_children_encode:
  assumes "\<And>c d nf rest. c \<in> set cs \<Longrightarrow> fits lim d nf [c] \<Longrightarrow>
      parseItem lim (encode_ttlv c @ rest) d nf = Inr (c, length (encode_ttlv c), nf + int (ttlv_count c))"
    and "fits lim d nf cs"
  shows "parse_children lim (concat (map encode_ttlv cs)) d nf = Inr (cs, nf + int (sum_list (map ttlv_count cs)))"
  using assms
proof (induction cs arbitrary: nf)
  case Nil
  then show ?case by (simp add: parse_children.simps)
next
  case (Cons c cs)
  have "fits lim d nf [c]" "fits lim d (nf + int (ttlv_count c)) cs"
    using Cons.prems(2) by (auto simp: fits_def)
  with Cons show ?case
    by (subst parse_children_loop) (simp add: Cons.prems(1))
qed

lemma parseItem_encode:
  "fits lim d nf [t] \<Longrightarrow>
     parseItem lim (encode_ttlv t @ rest) d nf = Inr (t, length (encode_ttlv t), nf + int (ttlv_count t))"
proof (induction t arbitrary: d nf rest)
  case (TTLV tag ty len vs cs)
  have lim: "d \<le> MaxDepth lim" "nf + 1 \<le> MaxFields lim" "tag < 2 ^ 24" "MaxFrameSize lim < 2 ^ 32"
    using TTLV.prems by (auto simp: fits_def)
  show ?case
  proof (cases "ty = TTLVStructure")
    case True
    let ?v = "concat (map encode_ttlv cs)"
    have "int (length ?v) \<le> MaxFrameSize lim"
      using TTLV.prems True by (simp add: fits_def encodeStructure_def)
    note hd = parse_header_encodeItem [OF lim(1-3) this lim(4), of ty rest]
    have "parse_children lim ?v (d + 1) (nf + 1) = Inr (cs, nf + 1 + int (sum_list (map ttlv_count cs)))"
      by (rule parse_children_encode)
        (use TTLV.IH fits_children TTLV.prems True in auto)
    then show ?thesis
      using TTLV.prems True hd
      by (simp add: parseItem_def encodeStructure_def take_drop_encodeItem fits_def algebra_simps)
  next
    case False
    have "int (length vs) \<le> MaxFrameSize lim"
      using TTLV.prems False by (simp add: fits_def)
    note hd = parse_header_encodeItem [OF lim(1-3) this lim(4), of ty rest]
    then show ?thesis
      using TTLV.prems False
      by (simp add: parseItem_def take_drop_encodeItem fits_def)
  qed
qed

text \<open>C33: The TTLV codec round-trips. Every well-formed tree within the limits is parsed back from
  its encoding exactly: structures of any nesting, values of every type, with padding, and nothing
  left over. Well-formed means 24-bit tags, declared lengths that match, and the value sizes the
  fixed-size types require.
\<close>

theorem ttlv_round_trip:
  assumes "wf_ttlv t" and "lim = normalizeTTLVLimits limits"
    and "int (length (encode_ttlv t)) \<le> MaxFrameSize lim" and "MaxFrameSize lim < 2 ^ 32"
    and "int (ttlv_depth t) \<le> MaxDepth lim" and "int (ttlv_count t) \<le> MaxFields lim"
  shows "ParseTTLVWithLimits (encode_ttlv t) limits = Inr t"
proof -
  have "fits lim 1 0 [t]" using assms by (simp add: fits_def)
  from parseItem_encode [OF this, of "[]"] show ?thesis
    using assms(2,3) by (simp add: ParseTTLVWithLimits_def)
qed

definition demo_tree :: ttlv where
  "demo_tree = TTLV 0x420078 1 24 [] [TTLV 0x42000d 2 4 [0, 0, 0, 1] [], TTLV 0x420094 7 0 [] []]"

theorem ttlv_round_trip_witness:
  "wf_ttlv demo_tree \<and> ParseTTLVWithLimits (encode_ttlv demo_tree) DefaultTTLVLimits = Inr demo_tree"
proof -
  have wf: "wf_ttlv demo_tree"
    by (simp add: demo_tree_def encodeItem_def ttlvPadding_def primitive_def)
  have "ParseTTLVWithLimits (encode_ttlv demo_tree) DefaultTTLVLimits = Inr demo_tree"
    by (rule ttlv_round_trip [OF wf refl])
      (simp_all add: demo_tree_def encodeStructure_def encodeItem_def ttlvPadding_def normalizeTTLVLimits_def
        DefaultTTLVLimits_def)
  with wf show ?thesis by blast
qed

section \<open>Limits on untrusted frames\<close>

lemma parse_header_limits:
  "parse_header lim frame d nf = Inr h \<Longrightarrow> d \<le> MaxDepth lim \<and> nf + 1 \<le> MaxFields lim"
  by (auto simp: parse_header_def split: if_splits)

lemma parse_children_bounds:
  "parse_children lim bs d nf = Inr (ts, nf') \<Longrightarrow>
     nf' = nf + int (sum_list (map ttlv_count ts))
     \<and> (ts \<noteq> [] \<longrightarrow> nf' \<le> MaxFields lim \<and> d + int (foldr max (map ttlv_depth ts) 0) - 1 \<le> MaxDepth lim)"
proof (induction "length bs" arbitrary: bs d nf ts nf' rule: less_induct)
  case less
  show ?case
  proof (cases "bs = []")
    case True
    with less.prems show ?thesis by (simp add: parse_children.simps)
  next
    case False
    with less.prems obtain t n f rest where item: "parseItem lim bs d nf = Inr (t, n, f)"
      and rest: "parse_children lim (drop n bs) d f = Inr (rest, nf')" and ts: "ts = t # rest"
      by (subst (asm) parse_children_loop) (auto split: sum.splits)
    from item obtain tag ty len where hd: "parse_header lim bs d nf = Inr (tag, ty, len, n)"
      by (auto simp: parseItem_def Let_def split: sum.splits if_splits option.splits)
    note tot = parse_header_total [OF hd]
    have t: "f = nf + int (ttlv_count t) \<and> f \<le> MaxFields lim \<and> d + int (ttlv_depth t) - 1 \<le> MaxDepth lim"
    proof (cases "ty = TTLVStructure")
      case True
      with item hd obtain cs where cs: "parse_children lim (take len (drop 8 bs)) (d + 1) (nf + 1) = Inr (cs, f)"
        and "t = TTLV tag ty (of_nat len) [] cs"
        by (auto simp: parseItem_def Let_def split: sum.splits)
      moreover have "length (take len (drop 8 bs)) < length bs" using tot by (simp add: min_def)
      ultimately show ?thesis
        using less.hyps [OF _ cs] parse_header_limits [OF hd] by (cases "cs = []") auto
    next
      case False
      with item hd parse_header_limits [OF hd] show ?thesis
        by (auto simp: parseItem_def Let_def split: option.splits)
    qed
    have "length (drop n bs) < length bs" using tot False by simp
    from less.hyps [OF this rest] t show ?thesis by (auto simp: ts max_def)
  qed
qed

text \<open>
  The parser enforces its limits on every input. Whatever bytes it is given, parsing ends,
  and a tree it accepts has no more nodes than the field cap, is nested no deeper than the depth
  cap, and came from a frame no larger than the frame cap.
\<close>

theorem ParseTTLV_bounds:
  assumes "ParseTTLVWithLimits frame limits = Inr t" and "lim = normalizeTTLVLimits limits"
  shows "int (ttlv_count t) \<le> MaxFields lim \<and> int (ttlv_depth t) \<le> MaxDepth lim
    \<and> int (length frame) \<le> MaxFrameSize lim"
proof -
  from assms obtain n f where item: "parseItem lim frame 1 0 = Inr (t, n, f)" and ne: "frame \<noteq> []"
    and sz: "n = length frame" "int (length frame) \<le> MaxFrameSize lim"
    by (auto simp: ParseTTLVWithLimits_def Let_def split: sum.splits if_splits)
  from item ne have "parse_children lim frame 1 0 = Inr ([t], f)"
    by (subst parse_children_loop) (simp add: sz(1) parse_children.simps [of lim "[]"])
  from parse_children_bounds [OF this] sz(2) show ?thesis by simp
qed

theorem ParseTTLV_bounds_witness:
  "\<exists>t. ParseTTLVWithLimits (encode_ttlv demo_tree) DefaultTTLVLimits = Inr t
     \<and> int (ttlv_count t) \<le> MaxFields (normalizeTTLVLimits DefaultTTLVLimits)"
proof -
  have "fits (normalizeTTLVLimits DefaultTTLVLimits) 1 0 [demo_tree]"
    by (simp add: fits_def demo_tree_def encodeStructure_def encodeItem_def ttlvPadding_def primitive_def
        normalizeTTLVLimits_def DefaultTTLVLimits_def)
  from parseItem_encode [OF this, of "[]"]
  have "ParseTTLVWithLimits (encode_ttlv demo_tree) DefaultTTLVLimits = Inr demo_tree"
    by (simp add: ParseTTLVWithLimits_def)
      (simp add: normalizeTTLVLimits_def DefaultTTLVLimits_def demo_tree_def encodeStructure_def encodeItem_def
        ttlvPadding_def)
  with ParseTTLV_bounds [OF this refl] show ?thesis by blast
qed

end
