(* ===== verification/DynSecret.thy ===== *)
theory DynSecret
  imports Prelude
begin

text \<open>
  The dynamic-secrets lease engine (\<^verbatim>\<open>internal/dynsecret/dynsecret.go\<close>): issuing, renewing, revoking
  and expiring leases, the durable revocation queue as a locale with the in-memory queue as its
  provider, and the worker that drains the queue. A \<^verbatim>\<open>Provider\<close> is a pair of functions on the world
  of its backend: \<open>Generate\<close> returns a credential or fails, \<open>Revoke\<close> reports success. The engine's
  maps are association lists, visited in list order.
\<close>

section \<open>Leases and the queue interface\<close>

datatype lease_state = LeaseActive | LeaseRevoked

record Lease =
  ls_ID :: string
  ls_TenantID :: string
  ls_Provider :: string
  ls_Role :: string
  ls_BackendRef :: string
  ls_State :: lease_state
  ls_IssuedAt :: gotime
  ls_ExpiresAt :: gotime

record RevokeItem =
  ri_LeaseID :: string
  ri_Provider :: string
  ri_BackendRef :: string

definition item_of :: "Lease \<Rightarrow> RevokeItem" where
  "item_of l = \<lparr>ri_LeaseID = ls_ID l, ri_Provider = ls_Provider l, ri_BackendRef = ls_BackendRef l\<rparr>"

record 'q queue_ops =
  qo_Enqueue :: "RevokeItem \<Rightarrow> 'q \<Rightarrow> 'q option"
  qo_Pending :: "'q \<Rightarrow> RevokeItem list option"
  qo_Done :: "string \<Rightarrow> 'q \<Rightarrow> 'q option"

text \<open>What is waiting in a queue that can be read.\<close>

definition pending :: "'q queue_ops \<Rightarrow> 'q \<Rightarrow> RevokeItem list" where
  "pending ops q = (case qo_Pending ops q of None \<Rightarrow> [] | Some xs \<Rightarrow> xs)"

text \<open>What the engine relies on: items are kept by lease, and only \<^verbatim>\<open>Done\<close> removes one.\<close>

locale revoke_queue =
  fixes ops :: "'q queue_ops"
  assumes pending_ok: "qo_Pending ops q = Some (pending ops q)"
    and enqueue_ok: "\<exists>q'. qo_Enqueue ops it q = Some q'"
    and enqueue_pending: "qo_Enqueue ops it q = Some q' \<Longrightarrow>
      set (pending ops q') = insert it {x \<in> set (pending ops q). ri_LeaseID x \<noteq> ri_LeaseID it}"
    and done_ok: "\<exists>q'. qo_Done ops i q = Some q'"
    and done_pending: "qo_Done ops i q = Some q' \<Longrightarrow>
      set (pending ops q') = {x \<in> set (pending ops q). ri_LeaseID x \<noteq> i}"

section \<open>The engine\<close>

record 'w provider =
  pv_Generate :: "string \<Rightarrow> duration \<Rightarrow> string \<Rightarrow> 'w \<Rightarrow> 'w \<times> (string \<times> bytes) option"
  pv_Revoke :: "string \<Rightarrow> 'w \<Rightarrow> 'w \<times> bool"

record ('q, 'w) engine_cfg =
  ec_TenantID :: string
  ec_Providers :: "string \<Rightarrow> 'w provider option"
  ec_Queue :: "'q queue_ops"
  ec_Gate :: "(string \<Rightarrow> string \<Rightarrow> bool \<times> string) option"

record ('q, 'w) engine =
  en_leases :: "(string \<times> Lease) list"
  en_idem :: "string \<Rightarrow> string option"
  en_queue :: 'q
  en_world :: 'w
  en_audit :: "audit_event list"

datatype dyn_error =
    UnknownProvider string | PolicyDenied string | GenerateFailed | LeaseNotFound string
  | LeaseNotActive string | EnqueueFailed | PendingFailed | DoneFailed

definition state_name_of :: "lease_state \<Rightarrow> string" where
  "state_name_of s = (case s of LeaseActive \<Rightarrow> ''active'' | LeaseRevoked \<Rightarrow> ''revoked'')"

definition lease_audit ::
  "('q, 'w) engine_cfg \<Rightarrow> string \<Rightarrow> Lease \<Rightarrow> ('q, 'w) engine \<Rightarrow> ('q, 'w) engine" where
  "lease_audit cfg event l e = e\<lparr>en_audit := en_audit e @ [audit_ev event (ec_TenantID cfg)
     [(''lease'', AStr (ls_ID l)), (''provider'', AStr (ls_Provider l)), (''role'', AStr (ls_Role l)),
      (''backend_ref'', AStr (ls_BackendRef l)), (''state'', AStr (state_name_of (ls_State l)))]]\<rparr>"

fun put_lease :: "string \<Rightarrow> Lease \<Rightarrow> (string \<times> Lease) list \<Rightarrow> (string \<times> Lease) list" where
  "put_lease k v [] = [(k, v)]"
| "put_lease k v ((k', v') # xs) = (if k = k' then (k, v) # xs else (k', v') # put_lease k v xs)"

text \<open>
  \<^verbatim>\<open>Issue\<close>; \<open>hexid\<close> is the hexadecimal text of the twelve random bytes drawn for the lease id, and
  the secret is returned only by the call that generated it. A replay finds the lease through the
  idempotency map; a lease that map names is always present, so the zero lease is unreachable.
\<close>

definition Issue ::
  "('q, 'w) engine_cfg \<Rightarrow> gotime \<Rightarrow> string \<Rightarrow> string \<Rightarrow> string \<Rightarrow> duration \<Rightarrow> string \<Rightarrow> ('q, 'w) engine \<Rightarrow>
   ('q, 'w) engine \<times> (dyn_error + (Lease option \<times> bytes option))" where
  "Issue cfg now hexid provider role ttl idempotencyKey e =
     (case ec_Providers cfg provider of
        None \<Rightarrow> (e, Inl (UnknownProvider provider))
      | Some p \<Rightarrow>
     (case (case ec_Gate cfg of None \<Rightarrow> None
            | Some gate \<Rightarrow> (case gate provider role of (allowed, reason) \<Rightarrow> if allowed then None else Some reason)) of
        Some reason \<Rightarrow> (e, Inl (PolicyDenied reason))
      | None \<Rightarrow>
     (case (if idempotencyKey = '''' then None else en_idem e idempotencyKey) of
        Some i \<Rightarrow> (e, Inr (map_of (en_leases e) i, None))
      | None \<Rightarrow>
          let leaseID = ''lease-'' @ hexid
          in case pv_Generate p role ttl leaseID (en_world e) of
               (w', None) \<Rightarrow> (e\<lparr>en_world := w'\<rparr>, Inl GenerateFailed)
             | (w', Some (ref, secret)) \<Rightarrow>
                 let lease = \<lparr>ls_ID = leaseID, ls_TenantID = ec_TenantID cfg, ls_Provider = provider,
                              ls_Role = role, ls_BackendRef = ref, ls_State = LeaseActive, ls_IssuedAt = now,
                              ls_ExpiresAt = now + ttl\<rparr>
                 in (lease_audit cfg ''dynsecret.lease.issued'' lease
                       (e\<lparr>en_world := w', en_leases := put_lease leaseID lease (en_leases e),
                          en_idem := (if idempotencyKey = '''' then en_idem e
                                      else (en_idem e)(idempotencyKey \<mapsto> leaseID))\<rparr>),
                     Inr (Some lease, Some secret)))))"

definition Renew ::
  "('q, 'w) engine_cfg \<Rightarrow> string \<Rightarrow> duration \<Rightarrow> ('q, 'w) engine \<Rightarrow> ('q, 'w) engine \<times> (dyn_error + Lease)" where
  "Renew cfg leaseID ext e =
     (case map_of (en_leases e) leaseID of
        None \<Rightarrow> (e, Inl (LeaseNotFound leaseID))
      | Some l \<Rightarrow>
          if ls_State l \<noteq> LeaseActive then (e, Inl (LeaseNotActive leaseID))
          else let l' = l\<lparr>ls_ExpiresAt := ls_ExpiresAt l + ext\<rparr>
               in (lease_audit cfg ''dynsecret.lease.renewed'' l'
                     (e\<lparr>en_leases := put_lease leaseID l' (en_leases e)\<rparr>), Inr l'))"

definition Revoke ::
  "('q, 'w) engine_cfg \<Rightarrow> string \<Rightarrow> ('q, 'w) engine \<Rightarrow> ('q, 'w) engine \<times> dyn_error option" where
  "Revoke cfg leaseID e =
     (case map_of (en_leases e) leaseID of
        None \<Rightarrow> (e, Some (LeaseNotFound leaseID))
      | Some l \<Rightarrow>
          if ls_State l = LeaseRevoked then (e, None)
          else let l' = l\<lparr>ls_State := LeaseRevoked\<rparr>;
                   e1 = e\<lparr>en_leases := put_lease leaseID l' (en_leases e)\<rparr>
               in case qo_Enqueue (ec_Queue cfg) (item_of l') (en_queue e1) of
                    None \<Rightarrow> (e1, Some EnqueueFailed)
                  | Some q \<Rightarrow> (lease_audit cfg ''dynsecret.lease.revoked'' l' (e1\<lparr>en_queue := q\<rparr>), None))"

definition GetLease :: "('q, 'w) engine \<Rightarrow> string \<Rightarrow> dyn_error + Lease" where
  "GetLease e leaseID =
     (case map_of (en_leases e) leaseID of None \<Rightarrow> Inl (LeaseNotFound leaseID) | Some l \<Rightarrow> Inr l)"

fun revoke_each ::
  "('q, 'w) engine_cfg \<Rightarrow> string list \<Rightarrow> ('q, 'w) engine \<Rightarrow> ('q, 'w) engine \<times> dyn_error option" where
  "revoke_each cfg [] e = (e, None)"
| "revoke_each cfg (i # is) e =
     (case Revoke cfg i e of
        (e', Some err) \<Rightarrow> (e', Some err)
      | (e', None) \<Rightarrow> revoke_each cfg is e')"

definition due_leases :: "gotime \<Rightarrow> ('q, 'w) engine \<Rightarrow> string list" where
  "due_leases now e =
     map fst (filter (\<lambda>(i, l). ls_State l = LeaseActive \<and> \<not> now < ls_ExpiresAt l) (en_leases e))"

definition ExpireDue ::
  "('q, 'w) engine_cfg \<Rightarrow> gotime \<Rightarrow> ('q, 'w) engine \<Rightarrow> ('q, 'w) engine \<times> (dyn_error + nat)" where
  "ExpireDue cfg now e =
     (let due = due_leases now e
      in case revoke_each cfg due e of
           (e', Some err) \<Rightarrow> (e', Inl err)
         | (e', None) \<Rightarrow> (e', Inr (length due)))"

fun run_items ::
  "('q, 'w) engine_cfg \<Rightarrow> RevokeItem list \<Rightarrow> nat \<Rightarrow> ('q, 'w) engine \<Rightarrow> ('q, 'w) engine \<times> nat \<times> dyn_error option" where
  "run_items cfg [] n e = (e, n, None)"
| "run_items cfg (it # its) n e =
     (case ec_Providers cfg (ri_Provider it) of
        None \<Rightarrow> run_items cfg its n e
      | Some p \<Rightarrow>
          (case pv_Revoke p (ri_BackendRef it) (en_world e) of
             (w', False) \<Rightarrow> run_items cfg its n (e\<lparr>en_world := w'\<rparr>)
           | (w', True) \<Rightarrow>
               (case qo_Done (ec_Queue cfg) (ri_LeaseID it) (en_queue e) of
                  None \<Rightarrow> (e\<lparr>en_world := w'\<rparr>, n, Some DoneFailed)
                | Some q \<Rightarrow> run_items cfg its (Suc n) (e\<lparr>en_world := w', en_queue := q\<rparr>))))"

definition RunRevocations ::
  "('q, 'w) engine_cfg \<Rightarrow> ('q, 'w) engine \<Rightarrow> ('q, 'w) engine \<times> nat \<times> dyn_error option" where
  "RunRevocations cfg e =
     (case qo_Pending (ec_Queue cfg) (en_queue e) of
        None \<Rightarrow> (e, 0, Some PendingFailed)
      | Some items \<Rightarrow> run_items cfg items 0 e)"

text \<open>A restarted process: the maps are in memory, the queue and the backends are not.\<close>

definition restart :: "('q, 'w) engine \<Rightarrow> ('q, 'w) engine" where
  "restart e = e\<lparr>en_leases := [], en_idem := Map.empty\<rparr>"

section \<open>The in-memory queue\<close>

text \<open>The map is keyed by the item's own lease id, so it is the list of its items.\<close>

type_synonym memory_queue = "RevokeItem list"

definition MemoryQueue_Enqueue :: "RevokeItem \<Rightarrow> memory_queue \<Rightarrow> memory_queue option" where
  "MemoryQueue_Enqueue it q = Some (filter (\<lambda>x. ri_LeaseID x \<noteq> ri_LeaseID it) q @ [it])"

definition MemoryQueue_Pending :: "memory_queue \<Rightarrow> RevokeItem list option" where
  "MemoryQueue_Pending q = Some q"

definition MemoryQueue_Done :: "string \<Rightarrow> memory_queue \<Rightarrow> memory_queue option" where
  "MemoryQueue_Done i q = Some (filter (\<lambda>x. ri_LeaseID x \<noteq> i) q)"

definition memory_queue_ops :: "memory_queue queue_ops" where
  "memory_queue_ops = \<lparr>qo_Enqueue = MemoryQueue_Enqueue, qo_Pending = MemoryQueue_Pending, qo_Done = MemoryQueue_Done\<rparr>"

section \<open>Facts about the maps\<close>

lemma map_of_put_lease: "map_of (put_lease k v xs) x = (if x = k then Some v else map_of xs x)"
  by (induction k v xs rule: put_lease.induct) auto

lemma keys_put_lease: "distinct (map fst xs) \<Longrightarrow> distinct (map fst (put_lease k v xs))
    \<and> set (map fst (put_lease k v xs)) = insert k (set (map fst xs))"
  by (induction k v xs rule: put_lease.induct) auto

lemma lease_audit_fields [simp]:
  "en_leases (lease_audit cfg ev l e) = en_leases e" "en_queue (lease_audit cfg ev l e) = en_queue e"
  "en_world (lease_audit cfg ev l e) = en_world e" "en_idem (lease_audit cfg ev l e) = en_idem e"
  by (simp_all add: lease_audit_def)

section \<open>Expiry and the revocation worker\<close>

context revoke_queue
begin

text \<open>Pending items after one revocation: nothing else is lost, and the lease's item is there.\<close>

lemma Revoke_active:
  assumes "ec_Queue cfg = ops" and "map_of (en_leases e) i = Some l" and "ls_State l = LeaseActive"
  obtains e' where "Revoke cfg i e = (e', None)"
    "en_leases e' = put_lease i (l\<lparr>ls_State := LeaseRevoked\<rparr>) (en_leases e)"
    "en_world e' = en_world e"
    "set (pending ops (en_queue e')) =
       insert (item_of l) {x \<in> set (pending ops (en_queue e)). ri_LeaseID x \<noteq> ls_ID l}"
proof -
  have it: "item_of (l\<lparr>ls_State := LeaseRevoked\<rparr>) = item_of l" by (simp add: item_of_def)
  obtain q where q: "qo_Enqueue ops (item_of l) (en_queue e) = Some q" using enqueue_ok by blast
  let ?l = "l\<lparr>ls_State := LeaseRevoked\<rparr>"
  let ?e = "lease_audit cfg ''dynsecret.lease.revoked'' ?l
      (e\<lparr>en_leases := put_lease i ?l (en_leases e), en_queue := q\<rparr>)"
  have "Revoke cfg i e = (?e, None)" using assms q it by (simp add: Revoke_def Let_def)
  moreover have "ri_LeaseID (item_of l) = ls_ID l" by (simp add: item_of_def)
  ultimately show ?thesis using enqueue_pending [OF q] by (intro that [of ?e]) simp_all
qed

lemma revoke_each_active:
  assumes "ec_Queue cfg = ops" and "distinct is"
    and "\<And>i. i \<in> set is \<Longrightarrow> \<exists>l. map_of (en_leases e) i = Some l \<and> ls_State l = LeaseActive \<and> ls_ID l = i"
  shows "\<exists>e'. revoke_each cfg is e = (e', None) \<and> en_world e' = en_world e
    \<and> (\<forall>i. map_of (en_leases e') i =
         (if i \<in> set is then map_option (\<lambda>l. l\<lparr>ls_State := LeaseRevoked\<rparr>) (map_of (en_leases e) i)
          else map_of (en_leases e) i))
    \<and> (\<forall>i \<in> set is. \<forall>l. map_of (en_leases e) i = Some l \<longrightarrow> item_of l \<in> set (pending ops (en_queue e')))
    \<and> (\<forall>x \<in> set (pending ops (en_queue e)). ri_LeaseID x \<notin> set is \<longrightarrow> x \<in> set (pending ops (en_queue e')))
    \<and> (\<forall>x \<in> set (pending ops (en_queue e')). x \<in> set (pending ops (en_queue e)) \<or>
         (\<exists>i \<in> set is. \<exists>l. map_of (en_leases e) i = Some l \<and> x = item_of l))"
  using assms(2,3)
proof (induction "is" arbitrary: e)
  case (Cons i js)
  from Cons.prems(2) [of i] obtain l where l: "map_of (en_leases e) i = Some l" "ls_State l = LeaseActive" "ls_ID l = i"
    by auto
  obtain e1 where e1: "Revoke cfg i e = (e1, None)"
    "en_leases e1 = put_lease i (l\<lparr>ls_State := LeaseRevoked\<rparr>) (en_leases e)" "en_world e1 = en_world e"
    "set (pending ops (en_queue e1)) = insert (item_of l) {x \<in> set (pending ops (en_queue e)). ri_LeaseID x \<noteq> i}"
    by (rule Revoke_active [OF assms(1) l(1,2)]) (simp add: l(3))
  have lk: "map_of (en_leases e1) j = (if j = i then Some (l\<lparr>ls_State := LeaseRevoked\<rparr>) else map_of (en_leases e) j)" for j
    by (simp add: e1(2) map_of_put_lease)
  have "\<exists>l. map_of (en_leases e1) j = Some l \<and> ls_State l = LeaseActive \<and> ls_ID l = j" if "j \<in> set js" for j
    using Cons.prems that by (auto simp: lk)
  then obtain e' where ih: "revoke_each cfg js e1 = (e', None)" "en_world e' = en_world e1"
    "\<forall>j. map_of (en_leases e') j = (if j \<in> set js then map_option (\<lambda>l. l\<lparr>ls_State := LeaseRevoked\<rparr>) (map_of (en_leases e1) j)
       else map_of (en_leases e1) j)"
    "\<forall>j \<in> set js. \<forall>l. map_of (en_leases e1) j = Some l \<longrightarrow> item_of l \<in> set (pending ops (en_queue e'))"
    "\<forall>x \<in> set (pending ops (en_queue e1)). ri_LeaseID x \<notin> set js \<longrightarrow> x \<in> set (pending ops (en_queue e'))"
    "\<forall>x \<in> set (pending ops (en_queue e')). x \<in> set (pending ops (en_queue e1)) \<or>
         (\<exists>j \<in> set js. \<exists>l. map_of (en_leases e1) j = Some l \<and> x = item_of l)"
    using Cons.IH [of e1] Cons.prems(1) by auto
  have fresh: "i \<notin> set js" using Cons.prems(1) by simp
  have id: "ri_LeaseID (item_of l) = i" using l(3) by (simp add: item_of_def)
  have "item_of l \<in> set (pending ops (en_queue e'))" using ih(5) e1(4) fresh id by simp
  moreover have "item_of l' \<in> set (pending ops (en_queue e'))"
    if "j \<in> set js" "map_of (en_leases e) j = Some l'" for j l'
  proof -
    have "j \<noteq> i" using that(1) fresh by blast
    then have "map_of (en_leases e1) j = Some l'" using that(2) by (simp add: lk)
    with ih(4) that(1) show ?thesis by blast
  qed
  moreover have "x \<in> set (pending ops (en_queue e'))"
    if "x \<in> set (pending ops (en_queue e))" "ri_LeaseID x \<notin> set (i # js)" for x
    using ih(5) that e1(4) by auto
  moreover have "x \<in> set (pending ops (en_queue e)) \<or>
       (\<exists>j \<in> set (i # js). \<exists>l. map_of (en_leases e) j = Some l \<and> x = item_of l)"
    if "x \<in> set (pending ops (en_queue e'))" for x
    using ih(6) that e1(4) l(1) fresh by (auto simp: lk split: if_splits)
  ultimately show ?case
    using e1(1,3) ih(1-3) fresh l(1) by (intro exI [of _ e']) (auto simp: lk)
qed simp

text \<open>
  One pass of the worker over items whose providers are registered and whose backends accept:
  every item is revoked at its backend and taken off the queue. \<open>live\<close> tells which credentials the
  backends still honour.
\<close>

lemma run_items_all:
  fixes live :: "string \<Rightarrow> string \<Rightarrow> 'w \<Rightarrow> bool"
  assumes "ec_Queue cfg = ops"
    and "\<And>it. it \<in> set its \<Longrightarrow> ec_Providers cfg (ri_Provider it) \<noteq> None"
    and "\<And>pn p ref w. ec_Providers cfg pn = Some p \<Longrightarrow> snd (pv_Revoke p ref w)"
    and "\<And>pn p ref w. ec_Providers cfg pn = Some p \<Longrightarrow> \<not> live pn ref (fst (pv_Revoke p ref w))"
    and "\<And>pn p ref w pn' ref'. ec_Providers cfg pn = Some p \<Longrightarrow> live pn' ref' (fst (pv_Revoke p ref w)) \<Longrightarrow> live pn' ref' w"
  shows "\<exists>e'. run_items cfg its n e = (e', n + length its, None) \<and> en_leases e' = en_leases e
    \<and> set (pending ops (en_queue e')) = {x \<in> set (pending ops (en_queue e)). ri_LeaseID x \<notin> ri_LeaseID ` set its}
    \<and> (\<forall>it \<in> set its. \<not> live (ri_Provider it) (ri_BackendRef it) (en_world e'))
    \<and> (\<forall>pn ref. live pn ref (en_world e') \<longrightarrow> live pn ref (en_world e))"
  using assms(2)
proof (induction its arbitrary: n e)
  case (Cons it its)
  obtain p where p: "ec_Providers cfg (ri_Provider it) = Some p" using Cons.prems [of it] by auto
  obtain w' where w': "pv_Revoke p (ri_BackendRef it) (en_world e) = (w', True)"
    using assms(3) [OF p] by (metis prod.collapse)
  obtain q where q: "qo_Done ops (ri_LeaseID it) (en_queue e) = Some q" using done_ok by blast
  let ?e = "e\<lparr>en_world := w', en_queue := q\<rparr>"
  obtain e' where ih: "run_items cfg its (Suc n) ?e = (e', Suc n + length its, None)" "en_leases e' = en_leases ?e"
    "set (pending ops (en_queue e')) = {x \<in> set (pending ops q). ri_LeaseID x \<notin> ri_LeaseID ` set its}"
    "\<forall>it \<in> set its. \<not> live (ri_Provider it) (ri_BackendRef it) (en_world e')"
    "\<forall>pn ref. live pn ref (en_world e') \<longrightarrow> live pn ref w'"
    using Cons.IH [of "Suc n" ?e] Cons.prems by auto
  have "\<not> live (ri_Provider it) (ri_BackendRef it) w'"
    using assms(4) [OF p, of "ri_BackendRef it" "en_world e"] w' by simp
  moreover have "live pn ref (en_world e)" if "live pn ref w'" for pn ref
    using assms(5) [OF p, of pn ref "ri_BackendRef it" "en_world e"] w' that by simp
  ultimately show ?case
    using p w' q assms(1) ih done_pending [OF q] by (intro exI [of _ e']) auto
qed simp

end

interpretation mq: revoke_queue memory_queue_ops
  by unfold_locales
    (auto simp: memory_queue_ops_def pending_def MemoryQueue_Enqueue_def MemoryQueue_Pending_def MemoryQueue_Done_def)

lemma pending_memory [simp]: "pending memory_queue_ops q = q"
  by (simp add: pending_def memory_queue_ops_def MemoryQueue_Pending_def)

section \<open>The engine invariant\<close>

definition engine_wf :: "(memory_queue, 'w) engine_cfg \<Rightarrow> (memory_queue, 'w) engine \<Rightarrow> bool" where
  "engine_wf cfg e =
     (distinct (map fst (en_leases e))
      \<and> (\<forall>i l. map_of (en_leases e) i = Some l \<longrightarrow> ls_ID l = i \<and> ec_Providers cfg (ls_Provider l) \<noteq> None)
      \<and> (\<forall>x \<in> set (en_queue e). ec_Providers cfg (ri_Provider x) \<noteq> None)
      \<and> (\<forall>k i. en_idem e k = Some i \<longrightarrow> map_of (en_leases e) i \<noteq> None))"

lemma engine_wf_put:
  assumes "engine_wf cfg e" and "ls_ID l = i" and "ec_Providers cfg (ls_Provider l) \<noteq> None"
  shows "engine_wf cfg (e\<lparr>en_leases := put_lease i l (en_leases e)\<rparr>)"
  using assms keys_put_lease [of "en_leases e" i l] by (auto simp: engine_wf_def map_of_put_lease)

lemma engine_wf_audit [simp]: "engine_wf cfg (lease_audit cfg ev l e) = engine_wf cfg e"
  by (simp add: engine_wf_def)

lemma engine_wf_world [simp]: "engine_wf cfg (e\<lparr>en_world := w\<rparr>) = engine_wf cfg e"
  by (simp add: engine_wf_def)

lemma engine_wf_idem:
  "engine_wf cfg e \<Longrightarrow> map_of (en_leases e) i \<noteq> None \<Longrightarrow>
   engine_wf cfg (e\<lparr>en_idem := (en_idem e)(k \<mapsto> i)\<rparr>)"
  unfolding engine_wf_def by (elim conjE, intro conjI allI impI) (simp_all split: if_splits, fastforce+)

lemma engine_wf_open:
  assumes "engine_wf cfg e" and "ls_ID l = i" and "ec_Providers cfg (ls_Provider l) \<noteq> None"
  shows "engine_wf cfg (e\<lparr>en_world := w', en_leases := put_lease i l (en_leases e),
      en_idem := (if b then en_idem e else (en_idem e)(k \<mapsto> i))\<rparr>)"
proof (cases b)
  case True
  with engine_wf_put [of cfg "e\<lparr>en_world := w'\<rparr>" l i] assms show ?thesis by simp
next
  case False
  let ?e = "e\<lparr>en_world := w', en_leases := put_lease i l (en_leases e)\<rparr>"
  have "engine_wf cfg ?e"
    using engine_wf_put [of cfg "e\<lparr>en_world := w'\<rparr>" l i] assms by simp
  then have "engine_wf cfg (?e\<lparr>en_idem := (en_idem ?e)(k \<mapsto> i)\<rparr>)"
    by (rule engine_wf_idem) (simp add: map_of_put_lease)
  with False show ?thesis by simp
qed

lemma engine_wf_Issue:
  assumes "engine_wf cfg e"
  shows "engine_wf cfg (fst (Issue cfg now hexid provider role ttl k e))"
proof -
  note put = engine_wf_open [OF assms, where b = True, simplified] engine_wf_open [OF assms, where b = False, simplified]
  define i where "i = ''lease-'' @ hexid"
  show ?thesis
  proof (cases "ec_Providers cfg provider")
    case (Some p)
    obtain w' r where g: "pv_Generate p role ttl i (en_world e) = (w', r)"
      by (cases "pv_Generate p role ttl i (en_world e)")
    show ?thesis
      unfolding Issue_def Let_def i_def [symmetric]
      using Some assms by (simp add: g put split_beta split: option.split)
  qed (use assms in \<open>simp add: Issue_def\<close>)
qed

lemma engine_wf_Renew: "engine_wf cfg e \<Longrightarrow> engine_wf cfg (fst (Renew cfg i ext e))"
  by (auto simp: Renew_def Let_def split: option.splits intro!: engine_wf_put)
    (auto simp: engine_wf_def)

lemma engine_wf_Revoke:
  assumes "engine_wf cfg e" and "ec_Queue cfg = memory_queue_ops"
  shows "engine_wf cfg (fst (Revoke cfg i e))"
proof (cases "map_of (en_leases e) i")
  case (Some l)
  have "engine_wf cfg (e\<lparr>en_leases := put_lease i (l\<lparr>ls_State := LeaseRevoked\<rparr>) (en_leases e)\<rparr>)"
    using assms(1) Some by (intro engine_wf_put) (auto simp: engine_wf_def)
  with Some assms show ?thesis
    by (auto simp: Revoke_def Let_def memory_queue_ops_def MemoryQueue_Enqueue_def item_of_def engine_wf_def)
qed (use assms in \<open>simp add: Revoke_def\<close>)

lemma engine_wf_restart: "engine_wf cfg e \<Longrightarrow> engine_wf cfg (restart e)"
  by (simp add: engine_wf_def restart_def)

lemma due_leases_active:
  assumes "distinct (map fst ls)" and "i \<in> set (map fst (filter (\<lambda>(i, l). P l) ls))"
  shows "\<exists>l. map_of ls i = Some l \<and> P l"
proof -
  from assms(2) obtain l where "(i, l) \<in> set ls" "P l" by auto
  with assms(1) map_of_is_SomeI show ?thesis by fastforce
qed

text \<open>C34: An expired lease's credential dies. After one expiry sweep and one pass of the revocation
  worker, with every backend reachable, no lease that was active and past its expiry is active any
  more, none of their credentials is honoured by its backend, and the revocation queue is empty.
  \<open>live\<close> is what the backends honour; a successful revoke ends the named credential and revives none.
\<close>

theorem expired_leases_self_destruct:
  fixes live :: "string \<Rightarrow> string \<Rightarrow> 'w \<Rightarrow> bool"
  assumes "engine_wf cfg e" and "ec_Queue cfg = memory_queue_ops"
    and "\<And>pn p ref w. ec_Providers cfg pn = Some p \<Longrightarrow> snd (pv_Revoke p ref w)"
    and "\<And>pn p ref w. ec_Providers cfg pn = Some p \<Longrightarrow> \<not> live pn ref (fst (pv_Revoke p ref w))"
    and "\<And>pn p ref w pn' ref'. ec_Providers cfg pn = Some p \<Longrightarrow> live pn' ref' (fst (pv_Revoke p ref w)) \<Longrightarrow> live pn' ref' w"
    and "map_of (en_leases e) i = Some l" and "ls_State l = LeaseActive" and "ls_ExpiresAt l \<le> now"
  shows "\<exists>e1 e2 n m. ExpireDue cfg now e = (e1, Inr n) \<and> RunRevocations cfg e1 = (e2, m, None)
    \<and> map_of (en_leases e2) i = Some (l\<lparr>ls_State := LeaseRevoked\<rparr>)
    \<and> \<not> live (ls_Provider l) (ls_BackendRef l) (en_world e2)
    \<and> en_queue e2 = []"
proof -
  let ?due = "due_leases now e" and ?pend = "\<lambda>e. set (pending memory_queue_ops (en_queue e))"
  have dist: "distinct ?due"
    using assms(1) by (simp add: engine_wf_def due_leases_def distinct_map_filter)
  have act: "\<exists>l. map_of (en_leases e) j = Some l \<and> ls_State l = LeaseActive \<and> ls_ID l = j" if "j \<in> set ?due" for j
    using due_leases_active [of "en_leases e" j "\<lambda>l. ls_State l = LeaseActive \<and> \<not> now < ls_ExpiresAt l"] that assms(1)
    by (auto simp: due_leases_def engine_wf_def)
  from mq.revoke_each_active [OF assms(2) dist act] obtain e1 where
    e1: "revoke_each cfg ?due e = (e1, None)"
      "\<forall>i. map_of (en_leases e1) i = (if i \<in> set ?due then map_option (\<lambda>l. l\<lparr>ls_State := LeaseRevoked\<rparr>)
         (map_of (en_leases e) i) else map_of (en_leases e) i)"
      "\<forall>i \<in> set ?due. \<forall>l. map_of (en_leases e) i = Some l \<longrightarrow> item_of l \<in> ?pend e1"
      "\<forall>x \<in> ?pend e1. x \<in> ?pend e \<or> (\<exists>i \<in> set ?due. \<exists>l. map_of (en_leases e) i = Some l \<and> x = item_of l)"
    by blast
  have i: "i \<in> set ?due"
    using map_of_SomeD [OF assms(6)] assms(7,8) by (force simp: due_leases_def)
  have reg: "ec_Providers cfg (ri_Provider it) \<noteq> None" if "it \<in> ?pend e1" for it
    using e1(4) that assms(1) by (auto simp: engine_wf_def item_of_def)
  have "\<exists>e'. run_items cfg (pending memory_queue_ops (en_queue e1)) 0 e1
        = (e', 0 + length (pending memory_queue_ops (en_queue e1)), None) \<and> en_leases e' = en_leases e1
      \<and> ?pend e' = {x \<in> ?pend e1. ri_LeaseID x \<notin> ri_LeaseID ` ?pend e1}
      \<and> (\<forall>it \<in> ?pend e1. \<not> live (ri_Provider it) (ri_BackendRef it) (en_world e'))
      \<and> (\<forall>pn ref. live pn ref (en_world e') \<longrightarrow> live pn ref (en_world e1))"
    by (rule mq.run_items_all [OF assms(2)]) (fact reg assms(3) assms(4) assms(5))+
  then obtain e2 where
    e2: "run_items cfg (pending memory_queue_ops (en_queue e1)) 0 e1
        = (e2, 0 + length (pending memory_queue_ops (en_queue e1)), None)" "en_leases e2 = en_leases e1"
      "?pend e2 = {x \<in> ?pend e1. ri_LeaseID x \<notin> ri_LeaseID ` ?pend e1}"
      "\<forall>it \<in> ?pend e1. \<not> live (ri_Provider it) (ri_BackendRef it) (en_world e2)"
    by blast
  have "x \<notin> ?pend e2" for x
    unfolding e2(3) by simp
  then have "en_queue e2 = []"
    by (cases "en_queue e2") auto
  moreover have "\<not> live (ls_Provider l) (ls_BackendRef l) (en_world e2)"
    using e2(4) e1(3) i assms(6) by (force simp: item_of_def)
  ultimately show ?thesis
    using e1(1,2) e2(1,2) i assms(2,6) by (simp add: ExpireDue_def RunRevocations_def mq.pending_ok)
qed

text \<open>A backend whose world is the list of the accounts it honours.\<close>

definition account_provider :: "string list provider" where
  "account_provider =
     \<lparr>pv_Generate = (\<lambda>role ttl leaseID w. (leaseID # w, Some (leaseID, ''pw''))),
      pv_Revoke = (\<lambda>ref w. (filter (\<lambda>a. a \<noteq> ref) w, True))\<rparr>"

definition sample_cfg :: "(memory_queue, string list) engine_cfg" where
  "sample_cfg = \<lparr>ec_TenantID = ''t1'', ec_Providers = [''db'' \<mapsto> account_provider],
     ec_Queue = memory_queue_ops, ec_Gate = None\<rparr>"

definition sample_lease :: Lease where
  "sample_lease = \<lparr>ls_ID = ''lease-a'', ls_TenantID = ''t1'', ls_Provider = ''db'', ls_Role = ''ro'',
     ls_BackendRef = ''u1'', ls_State = LeaseActive, ls_IssuedAt = 0, ls_ExpiresAt = 60\<rparr>"

definition sample_engine :: "(memory_queue, string list) engine" where
  "sample_engine = \<lparr>en_leases = [(''lease-a'', sample_lease)], en_idem = Map.empty, en_queue = [],
     en_world = [''u1'', ''u2''], en_audit = []\<rparr>"

theorem expired_leases_self_destruct_witness:
  "\<exists>e1 e2 n m. ExpireDue sample_cfg 60 sample_engine = (e1, Inr n) \<and> RunRevocations sample_cfg e1 = (e2, m, None)
    \<and> map_of (en_leases e2) ''lease-a'' = Some (sample_lease\<lparr>ls_State := LeaseRevoked\<rparr>)
    \<and> ''u1'' \<notin> set (en_world e2) \<and> en_queue e2 = []"
proof -
  have "\<exists>e1 e2 n m. ExpireDue sample_cfg 60 sample_engine = (e1, Inr n) \<and> RunRevocations sample_cfg e1 = (e2, m, None)
    \<and> map_of (en_leases e2) ''lease-a'' = Some (sample_lease\<lparr>ls_State := LeaseRevoked\<rparr>)
    \<and> \<not> (\<lambda>pn ref w. ref \<in> set w) (ls_Provider sample_lease) (ls_BackendRef sample_lease) (en_world e2)
    \<and> en_queue e2 = []"
    by (rule expired_leases_self_destruct [where live = "\<lambda>pn ref w. ref \<in> set w"])
      (auto simp: sample_engine_def sample_lease_def sample_cfg_def account_provider_def engine_wf_def split: if_splits)
  then show ?thesis by (simp add: sample_lease_def)
qed

section \<open>What the worker keeps and what a failed enqueue loses\<close>

context revoke_queue
begin

lemma run_items_keeps:
  assumes "ec_Queue cfg = ops" and "run_items cfg its n e = (e', m, r)"
    and "x \<in> set (pending ops (en_queue e))" and "x \<notin> set (pending ops (en_queue e'))"
  shows "\<exists>it \<in> set its. ri_LeaseID it = ri_LeaseID x
    \<and> (\<exists>p w. ec_Providers cfg (ri_Provider it) = Some p \<and> snd (pv_Revoke p (ri_BackendRef it) w))"
  using assms(2,3)
proof (induction its arbitrary: n e)
  case Nil
  with assms(4) show ?case by simp
next
  case (Cons it its)
  show ?case
  proof (cases "ec_Providers cfg (ri_Provider it)")
    case None
    with Cons show ?thesis by fastforce
  next
    case (Some p)
    obtain w' ok where w: "pv_Revoke p (ri_BackendRef it) (en_world e) = (w', ok)" by (rule prod.exhaust)
    obtain q where q: "qo_Done ops (ri_LeaseID it) (en_queue e) = Some q" using done_ok by blast
    show ?thesis
    proof (cases "ok \<and> ri_LeaseID it = ri_LeaseID x")
      case True
      with Some w show ?thesis by (metis list.set_intros(1) snd_conv)
    next
      case False
      with Cons.prems Some w q assms(1) done_pending [OF q]
      have "\<exists>n e1. run_items cfg its n e1 = (e', m, r) \<and> x \<in> set (pending ops (en_queue e1))"
        by (cases ok) (auto, fastforce+)
      with Cons.IH show ?thesis by fastforce
    qed
  qed
qed

lemma run_items_subset:
  assumes "ec_Queue cfg = ops" and "run_items cfg its n e = (e', m, r)"
  shows "set (pending ops (en_queue e')) \<subseteq> set (pending ops (en_queue e)) \<and> en_leases e' = en_leases e \<and> r = None"
  using assms(2)
proof (induction its arbitrary: n e)
  case (Cons it its)
  obtain q where q: "qo_Done ops (ri_LeaseID it) (en_queue e) = Some q" using done_ok by blast
  show ?case
    using Cons.prems Cons.IH [of n e] Cons.IH [of n "e\<lparr>en_world := w\<rparr>" for w]
      Cons.IH [of "Suc n" "e\<lparr>en_world := w, en_queue := q\<rparr>" for w] done_pending [OF q] q assms(1)
    by (fastforce split: option.splits prod.splits bool.splits)
qed simp

end

text \<open>
  The revocation worker never drops a revocation. Whatever the backends answer, a pass of the
  worker in the same or in a restarted process adds nothing to the queue, returns no error, and
  takes an item off only after the item's provider, registered in this process, reported the
  credential revoked; everything else stays queued for the next pass.
\<close>

theorem RunRevocations_keeps_unrevoked:
  assumes "ec_Queue cfg = memory_queue_ops" and "distinct (map ri_LeaseID (en_queue e))"
    and "RunRevocations cfg (restart e) = (e', n, r)"
  shows "r = None \<and> set (en_queue e') \<subseteq> set (en_queue e)
    \<and> (\<forall>x \<in> set (en_queue e) - set (en_queue e').
         \<exists>p w. ec_Providers cfg (ri_Provider x) = Some p \<and> snd (pv_Revoke p (ri_BackendRef x) w))"
proof -
  have run: "run_items cfg (en_queue e) 0 (restart e) = (e', n, r)"
    using assms(1,3) by (simp add: RunRevocations_def mq.pending_ok restart_def)
  have "\<exists>p w. ec_Providers cfg (ri_Provider x) = Some p \<and> snd (pv_Revoke p (ri_BackendRef x) w)"
    if "x \<in> set (en_queue e)" "x \<notin> set (en_queue e')" for x
  proof -
    from mq.run_items_keeps [OF assms(1) run, of x] that obtain it where
      it: "it \<in> set (en_queue e)" "ri_LeaseID it = ri_LeaseID x"
        "\<exists>p w. ec_Providers cfg (ri_Provider it) = Some p \<and> snd (pv_Revoke p (ri_BackendRef it) w)"
      by (auto simp: restart_def)
    have "it = x" using assms(2) it(1,2) that(1) by (simp add: distinct_map inj_on_def)
    with it(3) show ?thesis by simp
  qed
  with mq.run_items_subset [OF assms(1) run] show ?thesis by (simp add: restart_def)
qed

definition sample_item :: RevokeItem where
  "sample_item = \<lparr>ri_LeaseID = ''lease-b'', ri_Provider = ''aws'', ri_BackendRef = ''k9''\<rparr>"

theorem RunRevocations_keeps_unrevoked_witness:
  "en_queue (fst (RunRevocations sample_cfg (restart (sample_engine\<lparr>en_queue := [sample_item]\<rparr>)))) = [sample_item]
   \<and> set (en_queue (fst (RunRevocations sample_cfg (restart (sample_engine\<lparr>en_queue := [sample_item, item_of sample_lease]\<rparr>)))))
     \<subseteq> {sample_item, item_of sample_lease}"
proof
  show "en_queue (fst (RunRevocations sample_cfg (restart (sample_engine\<lparr>en_queue := [sample_item]\<rparr>)))) = [sample_item]"
    by (simp add: RunRevocations_def sample_cfg_def mq.pending_ok restart_def sample_item_def)
  let ?e = "sample_engine\<lparr>en_queue := [sample_item, item_of sample_lease]\<rparr>"
  show "set (en_queue (fst (RunRevocations sample_cfg (restart ?e)))) \<subseteq> {sample_item, item_of sample_lease}"
    using RunRevocations_keeps_unrevoked [of sample_cfg ?e "fst (RunRevocations sample_cfg (restart ?e))"
        "fst (snd (RunRevocations sample_cfg (restart ?e)))" "snd (snd (RunRevocations sample_cfg (restart ?e)))"]
    by (simp add: sample_cfg_def sample_item_def item_of_def sample_lease_def)
qed

text \<open>
  A revocation whose enqueue fails is lost. \<^verbatim>\<open>Revoke\<close> marks the lease revoked before it
  enqueues, so after a failed enqueue the caller gets an error, but a second \<^verbatim>\<open>Revoke\<close> succeeds
  without doing anything, \<^verbatim>\<open>Renew\<close> is refused, no later expiry sweep picks the lease up, and nothing
  was put on the queue: the backend credential outlives its lease.
\<close>

theorem failed_enqueue_orphans_credential:
  assumes "map_of (en_leases e) i = Some l" and "ls_State l = LeaseActive"
    and "distinct (map fst (en_leases e))"
    and "qo_Enqueue (ec_Queue cfg) (item_of l) (en_queue e) = None"
  shows "\<exists>e1. Revoke cfg i e = (e1, Some EnqueueFailed)
    \<and> en_queue e1 = en_queue e \<and> en_world e1 = en_world e
    \<and> Revoke cfg' i e1 = (e1, None)
    \<and> Renew cfg' i ext e1 = (e1, Inl (LeaseNotActive i))
    \<and> i \<notin> set (due_leases now e1)"
proof -
  let ?l = "l\<lparr>ls_State := LeaseRevoked\<rparr>"
  let ?e = "e\<lparr>en_leases := put_lease i ?l (en_leases e)\<rparr>"
  have it: "item_of ?l = item_of l" by (simp add: item_of_def)
  have lk: "map_of (en_leases ?e) i = Some ?l" by (simp add: map_of_put_lease)
  have keys: "distinct (map fst (en_leases ?e))"
    using keys_put_lease [OF assms(3), of i ?l] by simp
  have "i \<notin> set (due_leases now ?e)"
  proof
    assume "i \<in> set (due_leases now ?e)"
    from due_leases_active [OF keys this [unfolded due_leases_def]] lk show False by simp
  qed
  then show ?thesis
    using assms it lk by (intro exI [of _ ?e]) (simp add: Revoke_def Renew_def Let_def)
qed

definition down_cfg :: "(memory_queue, string list) engine_cfg" where
  "down_cfg = sample_cfg\<lparr>ec_Queue := memory_queue_ops\<lparr>qo_Enqueue := \<lambda>it q. None\<rparr>\<rparr>"

theorem failed_enqueue_orphans_credential_witness:
  "\<exists>e1. Revoke down_cfg ''lease-a'' sample_engine = (e1, Some EnqueueFailed)
    \<and> en_queue e1 = en_queue sample_engine \<and> en_world e1 = en_world sample_engine
    \<and> Revoke sample_cfg ''lease-a'' e1 = (e1, None)
    \<and> Renew sample_cfg ''lease-a'' 60 e1 = (e1, Inl (LeaseNotActive ''lease-a''))
    \<and> ''lease-a'' \<notin> set (due_leases 1000 e1)"
  by (rule failed_enqueue_orphans_credential [where l = sample_lease])
    (simp_all add: sample_engine_def sample_lease_def down_cfg_def)

end
