(* ===== verification/SecretShare.thy ===== *)
theory SecretShare
  imports Approval
begin

text \<open>
  One-time secret links (\<^verbatim>\<open>internal/secretshare/secretshare.go\<close>). \<open>H\<close> is SHA-256 in hexadecimal;
  the two draws of random bytes are arguments, \<open>None\<close> when the source fails. A \<^verbatim>\<open>Sharer\<close> holds its
  lock through every operation, so an operation is one function on the state. \<open>sr_dropped\<close> collects
  the contents that each secret buffer has when the package lets go of it without handing it to the
  caller, so that zeroization can be stated.
\<close>

section \<open>Definitions\<close>

text \<open>\<^verbatim>\<open>hex.EncodeToString\<close>.\<close>

definition hex_digit :: "nat \<Rightarrow> char" where
  "hex_digit n = ''0123456789abcdef'' ! n"

definition hex_encode :: "bytes \<Rightarrow> string" where
  "hex_encode bs = concat (map (\<lambda>b. [hex_digit (of_char b div 16), hex_digit (of_char b mod 16)]) bs)"

definition Wipe :: "bytes \<Rightarrow> bytes" where
  "Wipe b = map (\<lambda>_. CHR 0x00) b"

record link =
  lk_secret :: bytes
  lk_shareID :: string
  lk_expiresAt :: gotime
  lk_viewed :: bool

record sharer =
  sr_links :: "(string \<times> link) list"
  sr_audit :: "audit_event list"
  sr_dropped :: "bytes list"

definition NewSharer :: sharer where
  "NewSharer = \<lparr>sr_links = [], sr_audit = [], sr_dropped = []\<rparr>"

datatype share_error = RandomFailed | LinkNotFound | LinkExpired

definition share_audit :: "string \<Rightarrow> string \<Rightarrow> string \<Rightarrow> string \<Rightarrow> audit_event" where
  "share_audit event tenant shareID tokenHash =
     audit_ev event tenant [(''share_id'', AStr shareID), (''token_sha256'', AStr tokenHash)]"

text \<open>Assignment to and deletion from the map of links.\<close>

definition remove_link :: "string \<Rightarrow> (string \<times> link) list \<Rightarrow> (string \<times> link) list" where
  "remove_link h ls = filter (\<lambda>p. fst p \<noteq> h) ls"

definition Create ::
  "(bytes \<Rightarrow> string) \<Rightarrow> string \<Rightarrow> bytes option \<Rightarrow> bytes option \<Rightarrow> gotime \<Rightarrow> bytes \<Rightarrow> duration \<Rightarrow> sharer \<Rightarrow>
   sharer \<times> (share_error + bytes)" where
  "Create H tenant rnd1 rnd2 now secret ttl s =
     (case rnd1 of
        None \<Rightarrow> (s, Inl RandomFailed)
      | Some tb \<Rightarrow>
          let token = hex_encode tb; tokenHash = H token
          in case rnd2 of
               None \<Rightarrow> (s, Inl RandomFailed)
             | Some idb \<Rightarrow>
                 let shareID = hex_encode idb;
                     l = \<lparr>lk_secret = secret, lk_shareID = shareID, lk_expiresAt = now + ttl, lk_viewed = False\<rparr>;
                     lost = (case map_of (sr_links s) tokenHash of None \<Rightarrow> [] | Some l' \<Rightarrow> [lk_secret l'])
                 in (s\<lparr>sr_links := (tokenHash, l) # remove_link tokenHash (sr_links s),
                       sr_audit := sr_audit s @ [share_audit ''secret.shared'' tenant shareID tokenHash],
                       sr_dropped := sr_dropped s @ lost\<rparr>, Inr token))"

definition View ::
  "(bytes \<Rightarrow> string) \<Rightarrow> string \<Rightarrow> gotime \<Rightarrow> bytes \<Rightarrow> sharer \<Rightarrow> sharer \<times> (share_error + bytes)" where
  "View H tenant now token s =
     (let tokenHash = H token
      in case map_of (sr_links s) tokenHash of
           None \<Rightarrow> (s, Inl LinkNotFound)
         | Some l \<Rightarrow>
             if lk_viewed l \<or> lk_expiresAt l < now
             then (s\<lparr>sr_links := remove_link tokenHash (sr_links s),
                     sr_dropped := sr_dropped s @ [Wipe (lk_secret l)]\<rparr>, Inl LinkExpired)
             else (s\<lparr>sr_links := remove_link tokenHash (sr_links s),
                     sr_audit := sr_audit s @ [share_audit ''secret.share.viewed'' tenant (lk_shareID l) tokenHash]\<rparr>,
                   Inr (lk_secret l)))"

definition Destroy :: "sharer \<Rightarrow> sharer" where
  "Destroy s = s\<lparr>sr_links := [], sr_dropped := sr_dropped s @ map (\<lambda>p. Wipe (lk_secret (snd p))) (sr_links s)\<rparr>"

text \<open>\<^verbatim>\<open>NewChangeApprovals\<close>: the approval manager with \<open>apply\<close> as its issuer; the tenant is dropped from the call.\<close>

definition NewChangeApprovals ::
  "string \<Rightarrow> (nat \<Rightarrow> string \<Rightarrow> string \<Rightarrow> string option) \<Rightarrow> approval_config option" where
  "NewChangeApprovals tenantID apply =
     New \<lparr>ac_TenantID = tenantID, ac_Policy = None, ac_Issue = (\<lambda>n tn reqID resource. apply n reqID resource),
          ac_DefaultTTL = 0, ac_DefaultRequiredApprovals = 0\<rparr>"

section \<open>Sequences of operations\<close>

datatype share_op =
    OpCreate "bytes option" "bytes option" gotime bytes duration
  | OpView gotime bytes
  | OpDestroy

datatype share_outcome =
    Shared string bytes gotime
  | Viewed string gotime bytes
  | NoEffect

text \<open>An operation and what it did: the token's hash with the secret and its expiry, or with the time of the view.\<close>

fun share_do :: "(bytes \<Rightarrow> string) \<Rightarrow> string \<Rightarrow> share_op \<Rightarrow> sharer \<Rightarrow> sharer \<times> share_outcome" where
  "share_do H tn (OpCreate r1 r2 now secret ttl) s =
     (case Create H tn r1 r2 now secret ttl s of
        (s', Inl _) \<Rightarrow> (s', NoEffect)
      | (s', Inr token) \<Rightarrow> (s', Shared (H token) secret (now + ttl)))"
| "share_do H tn (OpView now token) s =
     (case View H tn now token s of
        (s', Inl _) \<Rightarrow> (s', NoEffect)
      | (s', Inr v) \<Rightarrow> (s', Viewed (H token) now v))"
| "share_do H tn OpDestroy s = (Destroy s, NoEffect)"

fun share_run :: "(bytes \<Rightarrow> string) \<Rightarrow> string \<Rightarrow> share_op list \<Rightarrow> sharer \<Rightarrow> sharer \<times> share_outcome list" where
  "share_run H tn [] s = (s, [])"
| "share_run H tn (x # xs) s =
     (let (s1, out) = share_do H tn x s; (s2, outs) = share_run H tn xs s1 in (s2, out # outs))"

definition is_shared :: "string \<Rightarrow> share_outcome \<Rightarrow> bool" where
  "is_shared h out = (case out of Shared h' _ _ \<Rightarrow> h' = h | _ \<Rightarrow> False)"

definition is_viewed :: "string \<Rightarrow> share_outcome \<Rightarrow> bool" where
  "is_viewed h out = (case out of Viewed h' _ _ \<Rightarrow> h' = h | _ \<Rightarrow> False)"

abbreviation count_if :: "('a \<Rightarrow> bool) \<Rightarrow> 'a list \<Rightarrow> nat" where
  "count_if P xs \<equiv> length (filter P xs)"

section \<open>Facts\<close>

lemma map_of_remove_link: "map_of (remove_link h ls) k = (if k = h then None else map_of ls k)"
  unfolding remove_link_def by (induction ls) auto

lemma share_run_append:
  "share_run H tn (xs @ ys) s =
     (let (s1, o1) = share_run H tn xs s; (s2, o2) = share_run H tn ys s1 in (s2, o1 @ o2))"
  by (induction xs arbitrary: s) (auto simp: split_beta Let_def)

text \<open>Every operation stores a link, redeems one, or only forgets links.\<close>

lemma share_do_cases:
  obtains (shared) h v x l where "snd (share_do H tn op s) = Shared h v x"
      "map_of (sr_links (fst (share_do H tn op s))) = (map_of (sr_links s))(h \<mapsto> l)"
      "\<not> lk_viewed l" "lk_secret l = v" "lk_expiresAt l = x"
  | (viewed) h now l where "snd (share_do H tn op s) = Viewed h now (lk_secret l)"
      "map_of (sr_links s) h = Some l" "now \<le> lk_expiresAt l"
      "map_of (sr_links (fst (share_do H tn op s))) = (map_of (sr_links s))(h := None)"
  | (idle) "snd (share_do H tn op s) = NoEffect"
      "map_of (sr_links (fst (share_do H tn op s))) \<subseteq>\<^sub>m map_of (sr_links s)"
proof (cases op)
  case (OpCreate r1 r2 now secret ttl)
  show ?thesis
  proof (cases "r1 = None \<or> r2 = None")
    case True
    with OpCreate show ?thesis by (intro idle) (auto simp: Create_def Let_def split: option.splits)
  next
    case False
    then obtain tb idb where "r1 = Some tb" "r2 = Some idb" by auto
    with OpCreate show ?thesis
      by (intro shared [of "H (hex_encode tb)" secret "now + ttl"
            "\<lparr>lk_secret = secret, lk_shareID = hex_encode idb, lk_expiresAt = now + ttl, lk_viewed = False\<rparr>"])
        (auto simp: Create_def Let_def map_of_remove_link)
  qed
next
  case (OpView now token)
  show ?thesis
  proof (cases "map_of (sr_links s) (H token)")
    case None
    with OpView show ?thesis by (intro idle) (auto simp: View_def)
  next
    case (Some l)
    show ?thesis
    proof (cases "lk_viewed l \<or> lk_expiresAt l < now")
      case True
      with Some OpView show ?thesis
        by (intro idle) (auto simp: View_def Let_def map_le_def dom_def map_of_remove_link split: if_splits)
    next
      case False
      with Some OpView show ?thesis
        by (intro viewed [of "H token" now l]) (auto simp: View_def Let_def map_of_remove_link)
    qed
  qed
next
  case OpDestroy
  then show ?thesis by (intro idle) (auto simp: Destroy_def)
qed

text \<open>
  What holds of the links after outcomes \<open>outs\<close>: views and the pending link of a token are paid for
  by as many creations, a pending link carries what its creation stored, and every view returned
  what a creation under the same hash stored, no later than that creation's expiry.
\<close>

definition waiting :: "sharer \<Rightarrow> string \<Rightarrow> nat" where
  "waiting s h = (if map_of (sr_links s) h = None then 0 else 1)"

definition share_inv :: "sharer \<Rightarrow> share_outcome list \<Rightarrow> bool" where
  "share_inv s outs =
     ((\<forall>h. count_if (is_viewed h) outs + waiting s h \<le> count_if (is_shared h) outs)
      \<and> (\<forall>h l. map_of (sr_links s) h = Some l \<longrightarrow>
           \<not> lk_viewed l \<and> Shared h (lk_secret l) (lk_expiresAt l) \<in> set outs)
      \<and> (\<forall>h now v. Viewed h now v \<in> set outs \<longrightarrow> (\<exists>x. Shared h v x \<in> set outs \<and> now \<le> x)))"

lemma waiting_le: "map_of (sr_links s') \<subseteq>\<^sub>m map_of (sr_links s) \<Longrightarrow> waiting s' h \<le> waiting s h"
  by (auto simp: waiting_def map_le_def dom_def)

lemma is_outcome_simps [simp]:
  "is_shared h (Shared h' v x) = (h' = h)" "is_shared h (Viewed h' now v) = False" "is_shared h NoEffect = False"
  "is_viewed h (Viewed h' now v) = (h' = h)" "is_viewed h (Shared h' v x) = False" "is_viewed h NoEffect = False"
  by (simp_all add: is_shared_def is_viewed_def)

lemma share_inv_do:
  assumes "share_inv s outs"
  shows "share_inv (fst (share_do H tn op s)) (outs @ [snd (share_do H tn op s)])"
proof -
  let ?s = "fst (share_do H tn op s)" and ?out = "snd (share_do H tn op s)"
  have cnt: "count_if (is_viewed k) outs + waiting s k \<le> count_if (is_shared k) outs" for k
    using assms by (simp add: share_inv_def)
  have lnk: "\<not> lk_viewed l \<and> Shared h (lk_secret l) (lk_expiresAt l) \<in> set outs"
    if "map_of (sr_links s) h = Some l" for h l
    using assms that by (simp add: share_inv_def)
  have vwd: "\<exists>x. Shared h v x \<in> set outs \<and> now \<le> x" if "Viewed h now v \<in> set outs" for h now v
    using assms that by (simp add: share_inv_def)
  have "count_if (is_viewed k) (outs @ [?out]) + waiting ?s k \<le> count_if (is_shared k) (outs @ [?out])" for k
  proof (rule share_do_cases [of H tn op s])
    assume "?out = NoEffect" and sub: "map_of (sr_links ?s) \<subseteq>\<^sub>m map_of (sr_links s)"
    with cnt [of k] waiting_le [OF sub, of k] show ?thesis by simp
  qed (use cnt [of k] in \<open>auto simp: waiting_def split: if_splits\<close>)
  moreover have "\<not> lk_viewed l \<and> Shared h (lk_secret l) (lk_expiresAt l) \<in> set (outs @ [?out])"
    if "map_of (sr_links ?s) h = Some l" for h l
  proof (rule share_do_cases [of H tn op s])
    assume "map_of (sr_links ?s) \<subseteq>\<^sub>m map_of (sr_links s)"
    with that have "map_of (sr_links s) h = Some l" by (force simp: map_le_def dom_def)
    with lnk show ?thesis by simp
  qed (use that lnk in \<open>auto split: if_splits\<close>)
  moreover have "\<exists>x. Shared h v x \<in> set (outs @ [?out]) \<and> now \<le> x" if "Viewed h now v \<in> set (outs @ [?out])" for h now v
  proof (rule share_do_cases [of H tn op s])
    fix h' now' l
    assume "?out = Viewed h' now' (lk_secret l)" "map_of (sr_links s) h' = Some l" "now' \<le> lk_expiresAt l"
    with that lnk vwd show ?thesis by auto
  next
    fix h' v' e
    assume "?out = Shared h' v' e"
    with that vwd [of h now v] show ?thesis by auto
  qed (use that vwd in auto)
  ultimately show ?thesis unfolding share_inv_def by (intro conjI allI impI) (assumption | blast)+
qed

lemma share_inv_run:
  "share_inv s outs \<Longrightarrow> share_inv (fst (share_run H tn xs s)) (outs @ snd (share_run H tn xs s))"
proof (induction xs arbitrary: s outs)
  case (Cons x xs)
  from Cons.IH [OF share_inv_do [OF Cons.prems]] show ?case by (simp add: split_beta Let_def)
qed simp

text \<open>Buffers that are let go of are zero as long as no creation meets a pending link under its own hash.\<close>

definition zeroed :: "bytes \<Rightarrow> bool" where
  "zeroed b = (\<forall>c \<in> set b. c = CHR 0x00)"

lemma zeroed_Wipe [simp]: "zeroed (Wipe b)"
  by (auto simp: zeroed_def Wipe_def)

lemma share_do_dropped:
  assumes "\<forall>b \<in> set (sr_dropped s). zeroed b"
    and "\<And>h v x. snd (share_do H tn op s) = Shared h v x \<Longrightarrow> map_of (sr_links s) h = None"
  shows "\<forall>b \<in> set (sr_dropped (fst (share_do H tn op s))). zeroed b"
proof (cases op)
  case (OpCreate r1 r2 now secret ttl)
  show ?thesis
  proof (cases "r1 = None \<or> r2 = None")
    case True
    with OpCreate assms(1) show ?thesis by (auto simp: Create_def Let_def split: option.split)
  next
    case False
    then obtain tb idb where r: "r1 = Some tb" "r2 = Some idb" by auto
    have "map_of (sr_links s) (H (hex_encode tb)) = None"
      by (rule assms(2)) (simp add: OpCreate r Create_def Let_def)
    with OpCreate r assms(1) show ?thesis by (simp add: Create_def Let_def)
  qed
next
  case (OpView now token)
  show ?thesis
  proof (cases "map_of (sr_links s) (H token)")
    case (Some l)
    with OpView assms(1) show ?thesis by (simp add: View_def Let_def)
  qed (use OpView assms(1) in \<open>simp add: View_def\<close>)
qed (use assms(1) in \<open>auto simp: Destroy_def\<close>)

lemma share_run_dropped:
  assumes "share_inv s outs" and "\<forall>b \<in> set (sr_dropped s). zeroed b"
    and "\<And>h. count_if (is_shared h) (outs @ snd (share_run H tn ops s)) \<le> 1"
  shows "\<forall>b \<in> set (sr_dropped (fst (share_run H tn ops s))). zeroed b"
  using assms
proof (induction ops arbitrary: s outs)
  case (Cons op ops)
  let ?s = "fst (share_do H tn op s)" and ?out = "snd (share_do H tn op s)"
  have fresh: "map_of (sr_links s) h = None" if "?out = Shared h v x" for h v x
  proof (rule ccontr)
    assume "map_of (sr_links s) h \<noteq> None"
    then have "waiting s h = 1" by (simp add: waiting_def)
    with Cons.prems(1) have "1 \<le> count_if (is_shared h) outs" unfolding share_inv_def by (metis add_leD2)
    with Cons.prems(3) [of h] that show False by (simp add: split_beta Let_def)
  qed
  have "\<forall>b \<in> set (sr_dropped ?s). zeroed b"
    by (rule share_do_dropped [OF Cons.prems(2)]) (fact fresh)
  with Cons.IH [OF share_inv_do [OF Cons.prems(1)]] Cons.prems(3) show ?case
    by (simp add: split_beta Let_def)
qed simp

text \<open>C36: A shared secret is redeemed at most once and never late. Over any sequence of creations,
  views and shutdowns, a token's hash is redeemed at most as often as a link was created under it;
  what a view returns was stored under that hash and had not expired. When no two creations
  share a token hash, each link is thus viewed at most once, and every secret buffer that the
  package let go of without returning it was zeroed first.
\<close>

theorem shared_secret_single_use:
  assumes "share_run H tn ops NewSharer = (s, outs)"
  shows "count_if (is_viewed h) outs \<le> count_if (is_shared h) outs
    \<and> (Viewed h now v \<in> set outs \<longrightarrow> (\<exists>x. Shared h v x \<in> set outs \<and> now \<le> x))
    \<and> ((\<forall>k. count_if (is_shared k) outs \<le> 1) \<longrightarrow>
         count_if (is_viewed h) outs \<le> 1 \<and> (\<forall>b \<in> set (sr_dropped s). zeroed b))"
proof -
  have init: "share_inv NewSharer []" by (simp add: share_inv_def NewSharer_def waiting_def)
  from share_inv_run [OF init, of H tn ops] assms have inv: "share_inv s outs" by simp
  have le: "count_if (is_viewed h) outs \<le> count_if (is_shared h) outs"
    using inv unfolding share_inv_def by (metis add_leD1)
  have "\<forall>b \<in> set (sr_dropped s). zeroed b" if "\<forall>k. count_if (is_shared k) outs \<le> 1"
    using share_run_dropped [OF init, of H tn ops] that assms by (simp add: NewSharer_def)
  with le inv show ?thesis by (auto simp: share_inv_def intro: order_trans)
qed

text \<open>Two links, one viewed twice and one that expires before its only view.\<close>

definition sample_ops :: "share_op list" where
  "sample_ops = [OpCreate (Some ''a'') (Some ''x'') 0 ''pw'' 10, OpCreate (Some ''b'') (Some ''y'') 0 ''key'' 10,
     OpView 5 ''61'', OpView 6 ''61'', OpView 11 ''62'']"

definition sample_H :: "bytes \<Rightarrow> string" where
  "sample_H t = ''h'' @ t"

lemma sample_run:
  "snd (share_run sample_H ''t1'' sample_ops NewSharer) =
     [Shared ''h61'' ''pw'' 10, Shared ''h62'' ''key'' 10, Viewed ''h61'' 5 ''pw'', NoEffect, NoEffect]"
  by code_simp

theorem shared_secret_single_use_witness:
  "(\<exists>x. Shared ''h61'' ''pw'' x \<in> set (snd (share_run sample_H ''t1'' sample_ops NewSharer)) \<and> 5 \<le> x)
   \<and> count_if (is_viewed ''h61'') (snd (share_run sample_H ''t1'' sample_ops NewSharer)) \<le> 1
   \<and> list_all zeroed (sr_dropped (fst (share_run sample_H ''t1'' sample_ops NewSharer)))"
proof -
  have "count_if (is_shared k) (snd (share_run sample_H ''t1'' sample_ops NewSharer)) \<le> 1" for k
    by (auto simp: sample_run)
  moreover have "Viewed ''h61'' 5 ''pw'' \<in> set (snd (share_run sample_H ''t1'' sample_ops NewSharer))"
    by (simp add: sample_run)
  ultimately show ?thesis
    using shared_secret_single_use [where H = sample_H and tn = "''t1''" and ops = sample_ops and h = "''h61''"
        and now = 5 and v = "''pw''", OF prod.collapse [symmetric]]
    unfolding list_all_iff by blast
qed

end
