(* ===== verification/SecretStore.thy ===== *)
theory SecretStore
  imports Prelude
begin

text \<open>
  The versioned secret store (\<^verbatim>\<open>internal/secretstore/secretstore.go\<close>): envelope-encrypted versions
  per path, write-ahead events, soft and hard deletion, rollback, and the replay of the event log.

  Sealing under the key-encryption key is a pair of parameters: \<open>sl_Seal r v a\<close> seals value \<open>v\<close> with
  associated data \<open>a\<close>, drawing on randomness \<open>r\<close>, and \<open>sl_Open c a\<close> opens a container. The legacy
  JSON envelope of old events is a parameter too: \<open>norm\<close> is \<^verbatim>\<open>crypto.NormalizeEnvelope\<close>. Whether the
  audit sink accepts an event is the argument \<open>ok\<close> of the operations that depend on it. The KEK's
  memory handling is not modelled.
\<close>

section \<open>The store\<close>

record sealer =
  sl_Seal :: "bytes \<Rightarrow> bytes \<Rightarrow> bytes \<Rightarrow> bytes option"
  sl_Open :: "bytes \<Rightarrow> bytes \<Rightarrow> bytes option"

record rev =
  rv_Version :: int
  rv_Sealed :: bytes
  rv_CreatedAt :: gotime
  rv_Deleted :: bool

text \<open>An event's JSON body: a version-written record, the path of a deletion, or something that does not decode.\<close>

datatype sink_data =
    WriteEvent (we_Path: string) (we_Version: int) (we_Sealed: bytes) (we_Envelope: "bytes option")
  | PathData string
  | Undecodable

record sink_record =
  sk_Type :: string
  sk_TenantID :: string
  sk_Data :: sink_data

record store =
  st_versions :: "string \<Rightarrow> rev list"
  st_idem :: "string \<Rightarrow> int option"
  st_events :: "sink_record list"

definition NewStore :: store where
  "NewStore = \<lparr>st_versions = (\<lambda>_. []), st_idem = Map.empty, st_events = []\<rparr>"

datatype secret_error =
    EmptyPath | SealFailed | OpenFailed | EventFailed | SecretNotFound string | SecretDeleted string
  | VersionNotFound string int | DecodeError | BadEnvelope string int | NoCiphertext string int
  | LocalKEKRequired | RefTooDeep string

definition AAD :: "string \<Rightarrow> string \<Rightarrow> bytes" where
  "AAD tenantID path = tenantID @ ''|'' @ path"

definition EventVersionWritten :: string where
  "EventVersionWritten = ''secret.version.written''"

definition emit :: "string \<Rightarrow> string \<Rightarrow> sink_data \<Rightarrow> store \<Rightarrow> store" where
  "emit ty tn d s = s\<lparr>st_events := st_events s @ [\<lparr>sk_Type = ty, sk_TenantID = tn, sk_Data = d\<rparr>]\<rparr>"

definition Put ::
  "sealer \<Rightarrow> string \<Rightarrow> bytes \<Rightarrow> gotime \<Rightarrow> bool \<Rightarrow> string \<Rightarrow> bytes \<Rightarrow> string \<Rightarrow> store \<Rightarrow> store \<times> (secret_error + int)" where
  "Put sl tn rnd now ok path v idempotencyKey s =
     (if path = '''' then (s, Inl EmptyPath)
      else case (if idempotencyKey = '''' then None else st_idem s idempotencyKey) of
             Some n \<Rightarrow> (s, Inr n)
           | None \<Rightarrow>
               (case sl_Seal sl rnd v (AAD tn path) of
                  None \<Rightarrow> (s, Inl SealFailed)
                | Some sealed \<Rightarrow>
                    let next = int (length (st_versions s path)) + 1
                    in if \<not> ok then (s, Inl EventFailed)
                       else let s1 = emit EventVersionWritten tn (WriteEvent path next sealed None) s;
                                r = \<lparr>rv_Version = next, rv_Sealed = sealed, rv_CreatedAt = now, rv_Deleted = False\<rparr>
                            in (s1\<lparr>st_versions := (st_versions s1)(path := st_versions s1 path @ [r]),
                                   st_idem := (if idempotencyKey = '''' then st_idem s1
                                               else (st_idem s1)(idempotencyKey \<mapsto> next))\<rparr>, Inr next)))"

definition Get :: "sealer \<Rightarrow> string \<Rightarrow> string \<Rightarrow> store \<Rightarrow> secret_error + (bytes \<times> int)" where
  "Get sl tn path s =
     (let revs = st_versions s path
      in if revs = [] then Inl (SecretNotFound path)
         else let r = last revs
              in if rv_Deleted r then Inl (SecretDeleted path)
                 else case sl_Open sl (rv_Sealed r) (AAD tn path) of
                        None \<Rightarrow> Inl OpenFailed
                      | Some pt \<Rightarrow> Inr (pt, rv_Version r))"

definition GetVersion :: "sealer \<Rightarrow> string \<Rightarrow> string \<Rightarrow> int \<Rightarrow> store \<Rightarrow> secret_error + bytes" where
  "GetVersion sl tn path version s =
     (case find (\<lambda>r. rv_Version r = version \<and> \<not> rv_Deleted r) (st_versions s path) of
        None \<Rightarrow> Inl (VersionNotFound path version)
      | Some r \<Rightarrow> (case sl_Open sl (rv_Sealed r) (AAD tn path) of None \<Rightarrow> Inl OpenFailed | Some pt \<Rightarrow> Inr pt))"

definition Versions :: "string \<Rightarrow> store \<Rightarrow> int list" where
  "Versions path s = map rv_Version (filter (\<lambda>r. \<not> rv_Deleted r) (st_versions s path))"

definition Rollback ::
  "sealer \<Rightarrow> string \<Rightarrow> bytes \<Rightarrow> gotime \<Rightarrow> bool \<Rightarrow> string \<Rightarrow> int \<Rightarrow> store \<Rightarrow> store \<times> (secret_error + int)" where
  "Rollback sl tn rnd now ok path toVersion s =
     (case GetVersion sl tn path toVersion s of
        Inl err \<Rightarrow> (s, Inl err)
      | Inr pt \<Rightarrow> Put sl tn rnd now ok path pt '''' s)"

definition Delete :: "string \<Rightarrow> gotime \<Rightarrow> bool \<Rightarrow> string \<Rightarrow> store \<Rightarrow> store \<times> secret_error option" where
  "Delete tn now ok path s =
     (if st_versions s path = [] then (s, Some (SecretNotFound path))
      else if \<not> ok then (s, Some EventFailed)
      else let next = int (length (st_versions s path)) + 1;
               s1 = emit ''secret.deleted'' tn (PathData path) s;
               r = \<lparr>rv_Version = next, rv_Sealed = [], rv_CreatedAt = now, rv_Deleted = True\<rparr>
           in (s1\<lparr>st_versions := (st_versions s1)(path := st_versions s1 path @ [r])\<rparr>, None))"

definition Purge :: "string \<Rightarrow> bool \<Rightarrow> string \<Rightarrow> store \<Rightarrow> store \<times> secret_error option" where
  "Purge tn ok path s =
     (if \<not> ok then (s, Some EventFailed)
      else let s1 = emit ''secret.purged'' tn (PathData path) s
           in (s1\<lparr>st_versions := (st_versions s1)(path := [])\<rparr>, None))"

section \<open>Replay of the event log\<close>

datatype Rev = SealedRev bytes | LegacyRev bytes

text \<open>\<open>open_legacy\<close> opens a legacy envelope when the wrapper is a local KEK.\<close>

definition Rev_Open ::
  "sealer \<Rightarrow> (bytes \<Rightarrow> bytes \<Rightarrow> bytes option) option \<Rightarrow> string \<Rightarrow> string \<Rightarrow> Rev \<Rightarrow> secret_error + bytes" where
  "Rev_Open sl open_legacy tn path rv =
     (case rv of
        SealedRev c \<Rightarrow> (case sl_Open sl c (AAD tn path) of None \<Rightarrow> Inl OpenFailed | Some pt \<Rightarrow> Inr pt)
      | LegacyRev env \<Rightarrow>
          (case open_legacy of
             None \<Rightarrow> Inl LocalKEKRequired
           | Some f \<Rightarrow> (case f env (AAD tn path) of None \<Rightarrow> Inl OpenFailed | Some pt \<Rightarrow> Inr pt)))"

definition replay_record ::
  "(bytes \<Rightarrow> bytes option) \<Rightarrow> string \<Rightarrow> sink_record \<Rightarrow> (string \<Rightarrow> Rev list) \<Rightarrow> secret_error + (string \<Rightarrow> Rev list)" where
  "replay_record norm tn r out =
     (if sk_Type r \<noteq> EventVersionWritten \<or> sk_TenantID r \<noteq> tn then Inr out
      else case sk_Data r of
             WriteEvent path version sealed env \<Rightarrow>
               if sealed \<noteq> [] then Inr (out(path := out path @ [SealedRev sealed]))
               else (case env of
                       Some e \<Rightarrow>
                         (case norm e of
                            None \<Rightarrow> Inl (BadEnvelope path version)
                          | Some e' \<Rightarrow> Inr (out(path := out path @ [LegacyRev e'])))
                     | None \<Rightarrow> Inl (NoCiphertext path version))
           | _ \<Rightarrow> Inl DecodeError)"

fun replay_loop ::
  "(bytes \<Rightarrow> bytes option) \<Rightarrow> string \<Rightarrow> sink_record list \<Rightarrow> (string \<Rightarrow> Rev list) \<Rightarrow> secret_error + (string \<Rightarrow> Rev list)" where
  "replay_loop norm tn [] out = Inr out"
| "replay_loop norm tn (r # rs) out =
     (case replay_record norm tn r out of Inl err \<Rightarrow> Inl err | Inr out' \<Rightarrow> replay_loop norm tn rs out')"

definition Reconstruct ::
  "(bytes \<Rightarrow> bytes option) \<Rightarrow> sink_record list \<Rightarrow> string \<Rightarrow> secret_error + (string \<Rightarrow> Rev list)" where
  "Reconstruct norm records tenantID = replay_loop norm tenantID records (\<lambda>_. [])"

section \<open>The invariant\<close>

text \<open>Versions are numbered from one without gaps.\<close>

definition numbered :: "rev list \<Rightarrow> bool" where
  "numbered rs = (\<forall>i < length rs. rv_Version (rs ! i) = int i + 1)"

definition store_wf :: "store \<Rightarrow> bool" where
  "store_wf s = (\<forall>path. numbered (st_versions s path))"

lemma emit_fields [simp]:
  "st_versions (emit ty tn d s) = st_versions s" "st_idem (emit ty tn d s) = st_idem s"
  "st_events (emit ty tn d s) = st_events s @ [\<lparr>sk_Type = ty, sk_TenantID = tn, sk_Data = d\<rparr>]"
  by (simp_all add: emit_def)

lemma Put_cases:
  obtains (same) "fst (Put sl tn rnd now ok path v key s) = s"
  | (written) c where "ok" "path \<noteq> ''''" "sl_Seal sl rnd v (AAD tn path) = Some c"
      "snd (Put sl tn rnd now ok path v key s) = Inr (int (length (st_versions s path)) + 1)"
      "st_versions (fst (Put sl tn rnd now ok path v key s)) = (st_versions s)(path := st_versions s path @
         [\<lparr>rv_Version = int (length (st_versions s path)) + 1, rv_Sealed = c, rv_CreatedAt = now, rv_Deleted = False\<rparr>])"
      "st_events (fst (Put sl tn rnd now ok path v key s)) = st_events s @
         [\<lparr>sk_Type = EventVersionWritten, sk_TenantID = tn,
           sk_Data = WriteEvent path (int (length (st_versions s path)) + 1) c None\<rparr>]"
proof (cases "path = '''' \<or> (key \<noteq> '''' \<and> st_idem s key \<noteq> None) \<or> sl_Seal sl rnd v (AAD tn path) = None \<or> \<not> ok")
  case True
  then have "fst (Put sl tn rnd now ok path v key s) = s"
    by (auto simp: Put_def Let_def split: option.split)
  then show ?thesis by (rule same)
next
  case False
  then obtain c where c: "sl_Seal sl rnd v (AAD tn path) = Some c" by auto
  have n: "(if key = '''' then None else st_idem s key) = None" using False by auto
  from False c n show ?thesis by (intro written [of c]) (simp_all add: Put_def Let_def)
qed

lemma numbered_Nil [simp]: "numbered []"
  by (simp add: numbered_def)

lemma numbered_snoc: "numbered rs \<Longrightarrow> rv_Version r = int (length rs) + 1 \<Longrightarrow> numbered (rs @ [r])"
  by (simp add: numbered_def nth_append less_Suc_eq)

lemma store_wf_Put:
  assumes "store_wf s"
  shows "store_wf (fst (Put sl tn rnd now ok path v key s))"
proof (rule Put_cases [of sl tn rnd now ok path v key s])
  assume "fst (Put sl tn rnd now ok path v key s) = s"
  with assms show ?thesis by simp
qed (use assms in \<open>auto simp: store_wf_def intro!: numbered_snoc\<close>)

lemma store_wf_Delete: "store_wf s \<Longrightarrow> store_wf (fst (Delete tn now ok path s))"
  by (auto simp: Delete_def Let_def store_wf_def intro!: numbered_snoc)

lemma store_wf_Purge: "store_wf s \<Longrightarrow> store_wf (fst (Purge tn ok path s))"
  by (auto simp: Purge_def Let_def store_wf_def)

lemma store_wf_Rollback: "store_wf s \<Longrightarrow> store_wf (fst (Rollback sl tn rnd now ok path k s))"
  by (auto simp: Rollback_def store_wf_Put split: sum.split)

lemma version_le: "store_wf s \<Longrightarrow> r \<in> set (st_versions s path) \<Longrightarrow> rv_Version r \<le> int (length (st_versions s path))"
  by (auto simp: store_wf_def numbered_def in_set_conv_nth)

lemma GetVersion_snoc:
  assumes "st_versions s' path = st_versions s path @ [r]" and "rv_Version r \<noteq> k"
  shows "GetVersion sl tn path k s' = GetVersion sl tn path k s"
proof -
  have "find P (xs @ [r]) = find P xs" if "\<not> P r" for P xs
    using that by (induction xs) auto
  with assms show ?thesis by (simp add: GetVersion_def)
qed

section \<open>Rollback\<close>

text \<open>
  Rollback brings back an old version as a new one. When version \<open>k\<close> of a path can be read,
  a rollback to it, also over a tombstone, appends one version that \<^verbatim>\<open>Get\<close> then returns with version \<open>k\<close>'s
  value, keeps every earlier version and every other path readable as before, and records exactly
  one event; when the event cannot be recorded, nothing changes. The hypothesis on the sealer is
  that what it seals opens again under the same associated data.
\<close>

theorem Rollback_restores:
  assumes "\<forall>r v a c. sl_Seal sl r v a = Some c \<longrightarrow> sl_Open sl c a = Some v"
    and "store_wf s" and "path \<noteq> ''''" and "GetVersion sl tn path k s = Inr pt"
    and "sl_Seal sl rnd pt (AAD tn path) \<noteq> None"
  shows "Rollback sl tn rnd now False path k s = (s, Inl EventFailed)
    \<and> (\<exists>s' n. Rollback sl tn rnd now True path k s = (s', Inr n)
        \<and> n = int (length (st_versions s path)) + 1
        \<and> Get sl tn path s' = Inr (pt, n)
        \<and> (\<forall>j. j \<noteq> n \<longrightarrow> GetVersion sl tn path j s' = GetVersion sl tn path j s)
        \<and> (\<forall>p. p \<noteq> path \<longrightarrow> st_versions s' p = st_versions s p)
        \<and> length (st_events s') = Suc (length (st_events s)))"
proof -
  from assms(5) obtain c where c: "sl_Seal sl rnd pt (AAD tn path) = Some c" by auto
  let ?s = "fst (Rollback sl tn rnd now True path k s)"
  have fail: "Rollback sl tn rnd now False path k s = (s, Inl EventFailed)"
    using assms(3,4) c by (simp add: Rollback_def Put_def Let_def)
  have res: "Rollback sl tn rnd now True path k s = (?s, Inr (int (length (st_versions s path)) + 1))"
    "st_versions ?s = (st_versions s)(path := st_versions s path @
       [\<lparr>rv_Version = int (length (st_versions s path)) + 1, rv_Sealed = c, rv_CreatedAt = now, rv_Deleted = False\<rparr>])"
    "length (st_events ?s) = Suc (length (st_events s))"
    using assms(3,4) c by (simp_all add: Rollback_def Put_def Let_def)
  have "Get sl tn path ?s = Inr (pt, int (length (st_versions s path)) + 1)"
    using res(2) assms(1) c by (simp add: Get_def)
  moreover have "GetVersion sl tn path j ?s = GetVersion sl tn path j s" if "j \<noteq> int (length (st_versions s path)) + 1" for j
    using res(2) that by (intro GetVersion_snoc) auto
  ultimately show ?thesis using fail res by (intro conjI exI) auto
qed

text \<open>A sealer that prefixes the associated data, and a store whose secret was written twice and deleted.\<close>

definition sample_sealer :: sealer where
  "sample_sealer = \<lparr>sl_Seal = (\<lambda>r v a. Some (a @ ''#'' @ v)),
     sl_Open = (\<lambda>c a. if has_prefix c (a @ ''#'') then Some (drop (length a + 1) c) else None)\<rparr>"

lemma sample_sealer_opens: "\<forall>r v a c. sl_Seal sample_sealer r v a = Some c \<longrightarrow> sl_Open sample_sealer c a = Some v"
  by (auto simp: sample_sealer_def has_prefix_def)

definition sample_store :: store where
  "sample_store =
     (let put = (\<lambda>v k s. fst (Put sample_sealer ''t1'' '''' 1 True ''db/pw'' v k s))
      in fst (Delete ''t1'' 2 True ''db/pw'' (put ''new'' '''' (put ''old'' ''k1'' NewStore))))"

lemma store_wf_NewStore: "store_wf NewStore"
  by (simp add: store_wf_def NewStore_def)

theorem Rollback_restores_witness:
  "Rollback sample_sealer ''t1'' '''' 3 False ''db/pw'' 1 sample_store = (sample_store, Inl EventFailed)
   \<and> (\<exists>s' n. Rollback sample_sealer ''t1'' '''' 3 True ''db/pw'' 1 sample_store = (s', Inr n)
        \<and> n = int (length (st_versions sample_store ''db/pw'')) + 1
        \<and> Get sample_sealer ''t1'' ''db/pw'' s' = Inr (''old'', n)
        \<and> length (st_events s') = Suc (length (st_events sample_store)))"
proof -
  have wf: "store_wf sample_store"
    by (simp add: sample_store_def store_wf_Put store_wf_Delete store_wf_NewStore)
  have old: "GetVersion sample_sealer ''t1'' ''db/pw'' 1 sample_store = Inr ''old''"
    by code_simp
  have "sl_Seal sample_sealer '''' ''old'' (AAD ''t1'' ''db/pw'') \<noteq> None"
    by (simp add: sample_sealer_def)
  from Rollback_restores [OF sample_sealer_opens wf _ old this, of 3] show ?thesis by blast
qed

section \<open>Replay\<close>

datatype store_op =
    DoPut bytes gotime bool string bytes string
  | DoRollback bytes gotime bool string int
  | DoDelete gotime bool string
  | DoPurge bool string

fun store_do :: "sealer \<Rightarrow> string \<Rightarrow> store_op \<Rightarrow> store \<Rightarrow> store" where
  "store_do sl tn (DoPut rnd now ok path v k) s = fst (Put sl tn rnd now ok path v k s)"
| "store_do sl tn (DoRollback rnd now ok path k) s = fst (Rollback sl tn rnd now ok path k s)"
| "store_do sl tn (DoDelete now ok path) s = fst (Delete tn now ok path s)"
| "store_do sl tn (DoPurge ok path) s = fst (Purge tn ok path s)"

definition store_run :: "sealer \<Rightarrow> string \<Rightarrow> store_op list \<Rightarrow> store \<Rightarrow> store" where
  "store_run sl tn ops s = fold (store_do sl tn) ops s"

definition live_revs :: "store \<Rightarrow> string \<Rightarrow> Rev list" where
  "live_revs s path = map (SealedRev \<circ> rv_Sealed) (filter (\<lambda>r. \<not> rv_Deleted r) (st_versions s path))"

definition purges :: "string \<Rightarrow> store_op \<Rightarrow> bool" where
  "purges path x = (case x of DoPurge ok p \<Rightarrow> ok \<and> p = path | _ \<Rightarrow> False)"

lemma replay_loop_append:
  "replay_loop norm tn (xs @ ys) out =
     (case replay_loop norm tn xs out of Inl err \<Rightarrow> Inl err | Inr out' \<Rightarrow> replay_loop norm tn ys out')"
  by (induction xs arbitrary: out) (auto split: sum.split)

text \<open>The log decodes, and what it yields for a path ends with the live versions of that path.\<close>

definition replay_inv :: "(bytes \<Rightarrow> bytes option) \<Rightarrow> string \<Rightarrow> store \<Rightarrow> (string \<Rightarrow> Rev list) \<Rightarrow> bool" where
  "replay_inv norm tn s old =
     (Reconstruct norm (st_events s) tn = Inr (\<lambda>path. old path @ live_revs s path))"

lemma replay_inv_Put:
  assumes "replay_inv norm tn s old" and "\<And>r v a c. sl_Seal sl r v a = Some c \<Longrightarrow> c \<noteq> []"
  shows "replay_inv norm tn (fst (Put sl tn rnd now ok path v key s)) old"
proof (rule Put_cases [of sl tn rnd now ok path v key s])
  assume "fst (Put sl tn rnd now ok path v key s) = s"
  with assms(1) show ?thesis by simp
next
  fix c
  assume c: "sl_Seal sl rnd v (AAD tn path) = Some c"
    and vs: "st_versions (fst (Put sl tn rnd now ok path v key s)) = (st_versions s)(path := st_versions s path @
         [\<lparr>rv_Version = int (length (st_versions s path)) + 1, rv_Sealed = c, rv_CreatedAt = now, rv_Deleted = False\<rparr>])"
    and ev: "st_events (fst (Put sl tn rnd now ok path v key s)) = st_events s @
         [\<lparr>sk_Type = EventVersionWritten, sk_TenantID = tn,
           sk_Data = WriteEvent path (int (length (st_versions s path)) + 1) c None\<rparr>]"
  show ?thesis
    using assms(1) assms(2) [OF c]
    by (auto simp: replay_inv_def Reconstruct_def ev replay_loop_append replay_record_def live_revs_def vs fun_eq_iff)
qed

text \<open>A purge moves the live versions of the path into the history that only the log remembers.\<close>

lemma replay_inv_do:
  assumes "replay_inv norm tn s old" and "\<And>r v a c. sl_Seal sl r v a = Some c \<Longrightarrow> c \<noteq> []"
  shows "replay_inv norm tn (store_do sl tn x s)
    (\<lambda>path. if purges path x then old path @ live_revs s path else old path)"
proof (cases x)
  case (DoPut rnd now ok path v k)
  with replay_inv_Put [OF assms] show ?thesis by (simp add: purges_def)
next
  case (DoRollback rnd now ok path k)
  have "replay_inv norm tn (store_do sl tn x s) old"
    using DoRollback assms replay_inv_Put [OF assms] by (auto simp: Rollback_def split: sum.split)
  with DoRollback show ?thesis by (simp add: purges_def)
next
  case (DoDelete now ok path)
  have "replay_inv norm tn (store_do sl tn x s) old"
    using DoDelete assms(1)
    by (auto simp: Delete_def Let_def replay_inv_def Reconstruct_def replay_loop_append replay_record_def
        EventVersionWritten_def live_revs_def fun_eq_iff)
  with DoDelete show ?thesis by (simp add: purges_def)
next
  case (DoPurge ok path)
  with assms(1) show ?thesis
    by (cases ok) (auto simp: Purge_def Let_def replay_inv_def Reconstruct_def replay_loop_append
        replay_record_def EventVersionWritten_def live_revs_def purges_def fun_eq_iff)
qed

lemma replay_inv_run:
  assumes "\<And>r v a c. sl_Seal sl r v a = Some c \<Longrightarrow> c \<noteq> []" and "replay_inv norm tn s old"
  shows "\<exists>old'. replay_inv norm tn (fold (store_do sl tn) ops s) old'
    \<and> (\<forall>path. (\<forall>x \<in> set ops. \<not> purges path x) \<longrightarrow> old' path = old path)"
  using assms(2)
proof (induction ops arbitrary: s old)
  case (Cons x ops)
  from Cons.IH [OF replay_inv_do [OF Cons.prems assms(1)]] show ?case by fastforce
qed auto

text \<open>
  The version history is a projection of the event log. Whatever writes, rollbacks, deletions
  and purges ran, and whichever of their events the sink refused, \<^verbatim>\<open>Reconstruct\<close> succeeds on the
  recorded events; for a path that was never purged it yields exactly the live versions, in
  order. For any path the live versions are the tail of what it yields, so a purged path's old
  versions come back on replay: the purge event is not replayed.
\<close>

theorem Reconstruct_projects_log:
  assumes "\<forall>r v a. sl_Seal sl r v a \<noteq> Some []"
  shows "\<exists>out. Reconstruct norm (st_events (store_run sl tn ops NewStore)) tn = Inr out
    \<and> (\<forall>path. \<exists>old. out path = old @ live_revs (store_run sl tn ops NewStore) path)
    \<and> (\<forall>path. (\<forall>x \<in> set ops. \<not> purges path x) \<longrightarrow> out path = live_revs (store_run sl tn ops NewStore) path)
    \<and> Reconstruct norm (st_events (store_run sl tn (ops @ [DoPurge True p]) NewStore)) tn = Inr out
    \<and> live_revs (store_run sl tn (ops @ [DoPurge True p]) NewStore) p = []"
proof -
  have "replay_inv norm tn NewStore (\<lambda>_. [])"
    by (simp add: replay_inv_def NewStore_def Reconstruct_def live_revs_def)
  moreover have "c \<noteq> []" if "sl_Seal sl r v a = Some c" for r v a c
    using assms that by auto
  ultimately obtain old where
    old: "replay_inv norm tn (store_run sl tn ops NewStore) old"
      "\<forall>path. (\<forall>x \<in> set ops. \<not> purges path x) \<longrightarrow> old path = []"
    using replay_inv_run [of sl norm tn NewStore "\<lambda>_. []" ops] by (auto simp: store_run_def)
  let ?s = "store_run sl tn ops NewStore"
  have p: "store_run sl tn (ops @ [DoPurge True p]) NewStore = store_do sl tn (DoPurge True p) ?s"
    by (simp add: store_run_def)
  have "Reconstruct norm (st_events (store_do sl tn (DoPurge True p) ?s)) tn = Reconstruct norm (st_events ?s) tn"
    by (auto simp: Purge_def Let_def Reconstruct_def replay_loop_append replay_record_def EventVersionWritten_def
        split: sum.split)
  moreover have "live_revs (store_do sl tn (DoPurge True p) ?s) p = []"
    by (simp add: Purge_def Let_def live_revs_def)
  ultimately show ?thesis
    unfolding p using old by (auto simp: replay_inv_def)
qed

theorem Reconstruct_projects_log_witness:
  "\<exists>out. Reconstruct Some (st_events (store_run sample_sealer ''t1'' [DoPut '''' 1 True ''a'' ''v1'' ''''] NewStore)) ''t1'' = Inr out
    \<and> out ''a'' = [SealedRev ''t1|a#v1'']
    \<and> Reconstruct Some (st_events (store_run sample_sealer ''t1'' ([DoPut '''' 1 True ''a'' ''v1'' ''''] @ [DoPurge True ''a'']) NewStore)) ''t1'' = Inr out"
proof -
  have ne: "\<forall>r v a. sl_Seal sample_sealer r v a \<noteq> Some []"
    by (auto simp: sample_sealer_def)
  have "live_revs (store_run sample_sealer ''t1'' [DoPut '''' 1 True ''a'' ''v1'' ''''] NewStore) ''a'' = [SealedRev ''t1|a#v1'']"
    by code_simp
  with Reconstruct_projects_log [where sl = sample_sealer and norm = Some and tn = "''t1''"
      and ops = "[DoPut '''' 1 True ''a'' ''v1'' '''']" and p = "''a''", OF ne]
  show ?thesis by (fastforce simp: purges_def)
qed

text \<open>
  An idempotency key names a write, not a write to a path. A write that repeats a key used
  before, for another path, with another value, or after the path was purged, is answered with the
  number of the first write and stores nothing, so a path that holds no secret stays empty.
\<close>

theorem Put_reused_key_stores_nothing:
  assumes "key \<noteq> ''''" and "path1 \<noteq> ''''" and "path2 \<noteq> ''''"
    and "Put sl tn rnd1 now1 ok1 path1 v1 key s = (s1, Inr n)"
  shows "Put sl tn rnd2 now2 ok2 path2 v2 key s1 = (s1, Inr n)
    \<and> snd (Put sl tn rnd2 now2 ok2 path1 v2 key (fst (Purge tn True path1 s1))) = Inr n
    \<and> Get sl tn path1 (fst (Put sl tn rnd2 now2 ok2 path1 v2 key (fst (Purge tn True path1 s1)))) = Inl (SecretNotFound path1)"
proof -
  have key: "st_idem s1 key = Some n"
    using assms by (auto simp: Put_def Let_def split: option.splits if_splits)
  let ?p = "fst (Purge tn True path1 s1)"
  have "st_idem ?p key = Some n" "st_versions ?p path1 = []" using key by (simp_all add: Purge_def Let_def)
  then have "Put sl tn rnd2 now2 ok2 path1 v2 key ?p = (?p, Inr n)"
    using assms(1,2) by (simp add: Put_def)
  with \<open>st_versions ?p path1 = []\<close> key assms(1,3) show ?thesis by (simp add: Put_def Get_def)
qed

theorem Put_reused_key_stores_nothing_witness:
  "snd (Put sample_sealer ''t1'' '''' 2 True ''b'' ''other'' ''k'' (fst (Put sample_sealer ''t1'' '''' 1 True ''a'' ''v1'' ''k'' NewStore))) = Inr 1"
proof -
  have one: "Put sample_sealer ''t1'' '''' 1 True ''a'' ''v1'' ''k'' NewStore
      = (fst (Put sample_sealer ''t1'' '''' 1 True ''a'' ''v1'' ''k'' NewStore), Inr 1)"
    by (simp add: Put_def sample_sealer_def NewStore_def Let_def)
  from Put_reused_key_stores_nothing [OF _ _ _ one, of "''b''" "''''" 2 True "''other''"] show ?thesis by simp
qed

end
