(* ===== verification/SecretAccess.thy ===== *)
theory SecretAccess
  imports SecretStore
begin

text \<open>
  What sits on top of the secret store: environments with inheritance and references
  (\<^verbatim>\<open>internal/secretstore/env.go\<close>), the dotenv format, and the HTTP surface with its access decisions
  (\<^verbatim>\<open>internal/secretstore/access.go\<close>).
\<close>

section \<open>Environments and references\<close>

record env_resolver =
  er_base :: store
  er_envs :: "string \<Rightarrow> store option"

definition AddEnvironment :: "string \<Rightarrow> store \<Rightarrow> env_resolver \<Rightarrow> env_resolver" where
  "AddEnvironment name override e = e\<lparr>er_envs := (er_envs e)(name \<mapsto> override)\<rparr>"

definition lookup :: "sealer \<Rightarrow> string \<Rightarrow> env_resolver \<Rightarrow> string \<Rightarrow> string \<Rightarrow> secret_error + bytes" where
  "lookup sl tn e env path =
     (let from_base = (case Get sl tn path (er_base e) of Inl err \<Rightarrow> Inl err | Inr (v, n) \<Rightarrow> Inr v)
      in case (if env = '''' then None else er_envs e env) of
           None \<Rightarrow> from_base
         | Some st \<Rightarrow> (case Get sl tn path st of Inl _ \<Rightarrow> from_base | Inr (v, n) \<Rightarrow> Inr v))"

definition is_ref :: "bytes \<Rightarrow> bool" where
  "is_ref v = (has_prefix v ''${ref:'' \<and> has_suffix v ''}'')"

definition ref_target :: "bytes \<Rightarrow> string" where
  "ref_target v = drop 6 (take (length v - 1) v)"

function resolve ::
  "sealer \<Rightarrow> string \<Rightarrow> env_resolver \<Rightarrow> string \<Rightarrow> string \<Rightarrow> nat \<Rightarrow> secret_error + bytes" where
  "resolve sl tn e env path depth =
     (if depth > 16 then Inl (RefTooDeep path)
      else case lookup sl tn e env path of
             Inl err \<Rightarrow> Inl err
           | Inr v \<Rightarrow> if is_ref v then resolve sl tn e env (ref_target v) (depth + 1) else Inr v)"
  by pat_completeness auto
termination
  by (relation "measure (\<lambda>(sl, tn, e, env, path, depth). 17 - depth)") auto

declare resolve.simps [simp del]

definition Resolve :: "sealer \<Rightarrow> string \<Rightarrow> env_resolver \<Rightarrow> string \<Rightarrow> string \<Rightarrow> secret_error + bytes" where
  "Resolve sl tn e env path = resolve sl tn e env path 0"

text \<open>The specification: follow a path's reference once, and \<open>n\<close> times.\<close>

definition follow :: "sealer \<Rightarrow> string \<Rightarrow> env_resolver \<Rightarrow> string \<Rightarrow> string \<Rightarrow> string option" where
  "follow sl tn e env path =
     (case lookup sl tn e env path of
        Inl _ \<Rightarrow> None
      | Inr v \<Rightarrow> if is_ref v then Some (ref_target v) else None)"

fun follow_n :: "sealer \<Rightarrow> string \<Rightarrow> env_resolver \<Rightarrow> string \<Rightarrow> nat \<Rightarrow> string \<Rightarrow> string option" where
  "follow_n sl tn e env 0 path = Some path"
| "follow_n sl tn e env (Suc n) path =
     (case follow sl tn e env path of None \<Rightarrow> None | Some p \<Rightarrow> follow_n sl tn e env n p)"

lemma resolve_follow:
  assumes "depth \<le> 17"
  shows "resolve sl tn e env path depth = Inr v \<longleftrightarrow>
    (\<exists>n p. n + depth \<le> 16 \<and> follow_n sl tn e env n path = Some p \<and> lookup sl tn e env p = Inr v \<and> \<not> is_ref v)"
  using assms
proof (induction sl tn e env path depth rule: resolve.induct)
  case (1 sl tn e env path depth)
  show ?case
  proof (cases "lookup sl tn e env path")
    case (Inl err)
    then have "follow_n sl tn e env n path = Some p \<longleftrightarrow> n = 0 \<and> p = path" for n p
      by (cases n) (auto simp: follow_def)
    with Inl show ?thesis by (subst resolve.simps) auto
  next
    case (Inr w)
    show ?thesis
    proof (cases "is_ref w \<and> \<not> 16 < depth")
      case True
      then have f: "follow sl tn e env path = Some (ref_target w)" using Inr by (simp add: follow_def)
      have "(\<exists>n p. n + depth \<le> 16 \<and> follow_n sl tn e env n path = Some p \<and> lookup sl tn e env p = Inr v \<and> \<not> is_ref v)
          \<longleftrightarrow> (\<exists>n p. n + (depth + 1) \<le> 16 \<and> follow_n sl tn e env n (ref_target w) = Some p \<and> lookup sl tn e env p = Inr v \<and> \<not> is_ref v)"
        (is "?L = ?R")
      proof
        assume ?L
        then obtain n p where np: "n + depth \<le> 16" "follow_n sl tn e env n path = Some p"
          "lookup sl tn e env p = Inr v" "\<not> is_ref v" by blast
        then obtain m where "n = Suc m" using Inr True by (cases n) auto
        with np f show ?R by (intro exI [of _ m] exI [of _ p]) simp
      next
        assume ?R
        then obtain n p where "n + (depth + 1) \<le> 16" "follow_n sl tn e env n (ref_target w) = Some p"
          "lookup sl tn e env p = Inr v" "\<not> is_ref v" by blast
        with f show ?L by (intro exI [of _ "Suc n"] exI [of _ p]) simp
      qed
      with 1 Inr True show ?thesis by (subst resolve.simps) simp
    next
      case False
      then have "follow_n sl tn e env n path = Some p \<longleftrightarrow> n = 0 \<and> p = path" if "depth \<le> 16" for n p
        using Inr that by (cases n) (auto simp: follow_def)
      with False Inr show ?thesis by (subst resolve.simps) auto
    qed
  qed
qed

lemma resolve_deep:
  assumes "follow_n sl tn e env n path = Some p" and "n + depth = 17"
  shows "resolve sl tn e env path depth = Inl (RefTooDeep p)"
  using assms
proof (induction n arbitrary: path depth)
  case 0
  then show ?case by (subst resolve.simps) simp
next
  case (Suc n)
  then show ?case by (subst resolve.simps) (auto simp: follow_def split: option.splits sum.splits if_splits)
qed

lemma follow_n_cycle:
  assumes "follow_n sl tn e env (Suc k) path = Some path"
  shows "\<exists>p. follow_n sl tn e env n path = Some p"
proof -
  have add: "follow_n sl tn e env (a + b) q = Option.bind (follow_n sl tn e env a q) (follow_n sl tn e env b)" for a b q
    by (induction a arbitrary: q) (auto split: option.split)
  have loop: "follow_n sl tn e env (j * Suc k) path = Some path" for j
  proof (induction j)
    case (Suc j)
    then show ?case unfolding mult_Suc add assms by simp
  qed simp
  have "follow_n sl tn e env (n + (n * Suc k - n)) path = Some path"
    using loop [of n] by simp
  then show ?thesis unfolding add by (cases "follow_n sl tn e env n path") auto
qed

text \<open>
  References resolve exactly along chains of at most sixteen. \<^verbatim>\<open>Resolve\<close> returns \<open>v\<close> if and only
  if following references at most sixteen times from the path leads to a value \<open>v\<close> that is not a
  reference itself; a chain that comes back to its start, or is longer, always ends in the
  too-deep error: resolution terminates whatever the store holds.
\<close>

theorem Resolve_correct:
  "(Resolve sl tn e env path = Inr v \<longleftrightarrow>
      (\<exists>n \<le> 16. \<exists>p. follow_n sl tn e env n path = Some p \<and> lookup sl tn e env p = Inr v \<and> \<not> is_ref v))
   \<and> (follow_n sl tn e env (Suc k) path = Some path \<longrightarrow> (\<exists>p. Resolve sl tn e env path = Inl (RefTooDeep p)))"
proof
  show "Resolve sl tn e env path = Inr v \<longleftrightarrow>
      (\<exists>n \<le> 16. \<exists>p. follow_n sl tn e env n path = Some p \<and> lookup sl tn e env p = Inr v \<and> \<not> is_ref v)"
    unfolding Resolve_def resolve_follow [OF le0] by auto
  show "follow_n sl tn e env (Suc k) path = Some path \<longrightarrow> (\<exists>p. Resolve sl tn e env path = Inl (RefTooDeep p))"
    using follow_n_cycle [of sl tn e env k path 17] resolve_deep [of sl tn e env 17 path _ 0]
    unfolding Resolve_def by auto
qed

definition sample_resolver :: env_resolver where
  "sample_resolver =
     (let put = (\<lambda>p v s. fst (Put sample_sealer ''t1'' '''' 1 True p v '''' s))
      in \<lparr>er_base = put ''loop'' ''${ref:loop}'' (put ''app'' ''${ref:db}'' (put ''db'' ''pw'' NewStore)),
          er_envs = [''prod'' \<mapsto> put ''db'' ''prodpw'' NewStore]\<rparr>)"

theorem Resolve_correct_witness:
  "(\<exists>n \<le> 16. \<exists>p. follow_n sample_sealer ''t1'' sample_resolver ''prod'' n ''app'' = Some p
      \<and> lookup sample_sealer ''t1'' sample_resolver ''prod'' p = Inr ''prodpw'' \<and> \<not> is_ref ''prodpw'')
   \<and> (\<exists>p. Resolve sample_sealer ''t1'' sample_resolver '''' ''loop'' = Inl (RefTooDeep p))"
proof
  have "Resolve sample_sealer ''t1'' sample_resolver ''prod'' ''app'' = Inr ''prodpw''" by code_simp
  with Resolve_correct [of sample_sealer "''t1''" sample_resolver "''prod''" "''app''" "''prodpw''"]
  show "\<exists>n \<le> 16. \<exists>p. follow_n sample_sealer ''t1'' sample_resolver ''prod'' n ''app'' = Some p
      \<and> lookup sample_sealer ''t1'' sample_resolver ''prod'' p = Inr ''prodpw'' \<and> \<not> is_ref ''prodpw''" by blast
  have "follow_n sample_sealer ''t1'' sample_resolver '''' (Suc 0) ''loop'' = Some ''loop''" by code_simp
  with Resolve_correct [of sample_sealer "''t1''" sample_resolver "''''" "''loop''" "''''" 0]
  show "\<exists>p. Resolve sample_sealer ''t1'' sample_resolver '''' ''loop'' = Inl (RefTooDeep p)" by blast
qed

section \<open>The dotenv format\<close>

definition is_quote :: "char \<Rightarrow> bool" where
  "is_quote c = (c = CHR 0x22 \<or> c = CHR 0x27)"

text \<open>A Go map read by iteration is a list of entries with distinct keys; one that is built is a HOL map.\<close>

definition parse_line :: "string \<Rightarrow> (string \<rightharpoonup> string) \<Rightarrow> (string \<rightharpoonup> string)" where
  "parse_line raw out =
     (let line = trim_space raw
      in if line = '''' \<or> has_prefix line ''#'' then out
         else case index_byte line CHR ''='' of
                None \<Rightarrow> out
              | Some i \<Rightarrow>
                  if i = 0 then out
                  else out(trim_space (take i line) \<mapsto> trim_func is_quote (trim_space (drop (Suc i) line))))"

definition ParseDotEnv :: "bytes \<Rightarrow> (string \<rightharpoonup> string)" where
  "ParseDotEnv b = fold parse_line (split_byte CHR 0x0A b) Map.empty"

definition dotenv_line :: "string \<times> string \<Rightarrow> string" where
  "dotenv_line p = fst p @ ''='' @ snd p"

definition RenderDotEnv :: "(string \<times> string) list \<Rightarrow> bytes" where
  "RenderDotEnv m = concat (map (\<lambda>p. dotenv_line p @ [CHR 0x0A]) (sort_key fst m))"

text \<open>Entries that the format can carry: it has no escapes.\<close>

definition plain_entry :: "string \<times> string \<Rightarrow> bool" where
  "plain_entry p =
     (let k = fst p; v = snd p
      in k \<noteq> '''' \<and> CHR ''='' \<notin> set k \<and> CHR 0x0A \<notin> set k \<and> trim_space k = k \<and> \<not> has_prefix k ''#''
         \<and> CHR 0x0A \<notin> set v \<and> trim_space v = v \<and> trim_func is_quote v = v)"

lemma trim_func_fixed: "trim_func P s = s \<longleftrightarrow> s = [] \<or> (\<not> P (hd s) \<and> \<not> P (last s))"
proof
  assume fixed: "trim_func P s = s"
  have "length (trim_func P s) \<le> length (dropWhile P s)"
    unfolding trim_func_def by (metis length_dropWhile_le length_rev)
  then have "dropWhile P s = s"
    using fixed length_dropWhile_le [of P s] by (metis dropWhile_eq_drop drop_eq_Nil le_antisym length_drop
        append_eq_append_conv append_self_conv2 takeWhile_dropWhile_id)
  moreover from this have "dropWhile P (rev s) = rev s"
    using fixed by (metis rev_rev_ident trim_func_def)
  ultimately show "s = [] \<or> (\<not> P (hd s) \<and> \<not> P (last s))"
    by (metis dropWhile_eq_self_iff hd_rev rev_is_Nil_conv)
next
  assume "s = [] \<or> (\<not> P (hd s) \<and> \<not> P (last s))"
  then show "trim_func P s = s"
    by (auto simp: trim_func_def dropWhile_eq_self_iff [THEN iffD2] hd_rev)
qed

lemma index_byte_append: "c \<notin> set a \<Longrightarrow> index_byte (a @ c # b) c = Some (length a)"
  by (induction a) auto

lemma parse_dotenv_line:
  assumes "plain_entry p"
  shows "parse_line (dotenv_line p) out = out(fst p \<mapsto> snd p)"
proof -
  obtain k v where p: "p = (k, v)" by (cases p)
  have k: "k \<noteq> []" "CHR ''='' \<notin> set k" "trim_space k = k" "\<not> has_prefix k ''#''"
    and v: "trim_space v = v" "trim_func is_quote v = v"
    using assms by (simp_all add: plain_entry_def Let_def p)
  have "trim_space (k @ ''='' @ v) = k @ ''='' @ v"
    using k(1,3) v(1) unfolding trim_space_def trim_func_fixed
    by (cases "v = []") (auto simp: is_space_def)
  moreover have "\<not> has_prefix (k @ ''='' @ v) ''#''"
    using k(1,4) by (cases k) (auto simp: has_prefix_def)
  ultimately show ?thesis
    using k v by (simp add: p dotenv_line_def parse_line_def Let_def index_byte_append)
qed

lemma split_lines:
  "(\<And>l. l \<in> set ls \<Longrightarrow> c \<notin> set l) \<Longrightarrow> split_byte c (concat (map (\<lambda>l. l @ [c]) ls)) = ls @ [[]]"
  by (induction ls) (simp_all add: split_byte_append_sep)

lemma fold_parse_lines:
  "(\<And>p. p \<in> set ps \<Longrightarrow> plain_entry p) \<Longrightarrow> distinct (map fst ps) \<Longrightarrow> fold parse_line (map dotenv_line ps) m = m ++ map_of ps"
proof (induction ps arbitrary: m)
  case (Cons p ps)
  have "map_of ps (fst p) = None" using Cons.prems(2) by (simp add: map_of_eq_None_iff)
  then have "m(fst p \<mapsto> snd p) ++ map_of ps = m ++ map_of (p # ps)"
    by (auto simp: map_add_def fun_eq_iff split: option.split)
  moreover have "fold parse_line (map dotenv_line (p # ps)) m = m(fst p \<mapsto> snd p) ++ map_of ps"
    using Cons by (simp add: parse_dotenv_line)
  ultimately show ?case by (simp only:)
qed simp

text \<open>
  Rendering and parsing a dotenv file are inverse. For a map whose keys are non-empty and free
  of separators, surrounding blanks and a leading \<open>#\<close>, and whose values are free of newlines,
  surrounding blanks and surrounding quotes, parsing the rendering gives the map back.
\<close>

theorem dotenv_round_trip:
  assumes "distinct (map fst m)" and "\<forall>p \<in> set m. plain_entry p"
  shows "ParseDotEnv (RenderDotEnv m) = map_of m"
proof -
  let ?m = "sort_key fst m"
  have set: "set ?m = set m" by simp
  have d: "distinct (map fst ?m)"
    using assms(1) by (metis distinct_map distinct_sort set_sort)
  have "CHR 0x0A \<notin> set l" if "l \<in> set (map dotenv_line ?m)" for l
    using that assms(2) by (auto simp: dotenv_line_def plain_entry_def Let_def)
  then have "split_byte CHR 0x0A (concat (map (\<lambda>l. l @ [CHR 0x0A]) (map dotenv_line ?m))) = map dotenv_line ?m @ [[]]"
    by (rule split_lines)
  then have "split_byte CHR 0x0A (RenderDotEnv m) = map dotenv_line ?m @ [[]]"
    by (simp add: RenderDotEnv_def comp_def)
  then have "ParseDotEnv (RenderDotEnv m) = parse_line [] (fold parse_line (map dotenv_line ?m) Map.empty)"
    by (simp add: ParseDotEnv_def)
  also have "\<dots> = map_of ?m"
    using assms(2) d by (subst fold_parse_lines) (auto simp: parse_line_def trim_space_def trim_func_def)
  also have "\<dots> = map_of m"
    using map_of_inject_set [OF d assms(1)] set by simp
  finally show ?thesis .
qed

theorem dotenv_round_trip_witness:
  "ParseDotEnv (RenderDotEnv [(''PORT'', ''80''), (''HOST'', ''a b'')]) = map_of [(''PORT'', ''80''), (''HOST'', ''a b'')]"
  by (rule dotenv_round_trip) (simp_all add: plain_entry_def trim_space_def trim_func_def is_space_def is_quote_def has_prefix_def)

section \<open>The HTTP surface\<close>

record http_request =
  hr_Tenant :: string
  hr_Principal :: string
  hr_Path :: string
  hr_Method :: string
  hr_HasVersions :: bool
  hr_Rollback :: string
  hr_Body :: bytes
  hr_IdempotencyKey :: string

datatype http_body = Message | Secret bytes int | VersionNo int | VersionList "int list"

type_synonym http_response = "nat \<times> http_body"

type_synonym authorizer = "string \<Rightarrow> string \<Rightarrow> string \<Rightarrow> string \<Rightarrow> bool \<times> string"

definition deny :: "string \<Rightarrow> http_request \<Rightarrow> string \<Rightarrow> audit_event" where
  "deny tn r reason = audit_ev ''secret.access.denied'' tn
     [(''principal'', AStr (hr_Principal r)), (''path'', AStr (hr_Path r)), (''reason'', AStr reason)]"

definition secret_path :: "http_request \<Rightarrow> string" where
  "secret_path r = trim_prefix (hr_Path r) ''/secrets/''"

definition access_action :: "http_request \<Rightarrow> string" where
  "access_action r = (if hr_Method r = ''PUT'' \<or> hr_Method r = ''POST'' then ''write'' else ''read'')"

definition refusal :: "string \<Rightarrow> authorizer option \<Rightarrow> http_request \<Rightarrow> string option" where
  "refusal tn authz r =
     (case authz of
        None \<Rightarrow> None
      | Some allow \<Rightarrow> (case allow tn (hr_Principal r) (secret_path r) (access_action r) of (allowed, reason) \<Rightarrow>
                          if allowed then None else Some reason))"

text \<open>
  The handler's result: the store, the access events it emitted, and the response. \<^verbatim>\<open>io.LimitReader\<close>
  cuts the body at one mebibyte. Errors while writing the response are left out, as they change
  neither the store nor what was sent.
\<close>

definition ServeHTTP ::
  "sealer \<Rightarrow> string \<Rightarrow> authorizer option \<Rightarrow> bytes \<Rightarrow> gotime \<Rightarrow> bool \<Rightarrow> http_request \<Rightarrow> store \<Rightarrow>
   store \<times> audit_event list \<times> http_response" where
  "ServeHTTP sl tn authz rnd now ok r s =
     (if hr_Tenant r \<noteq> tn then (s, [deny tn r ''cross-tenant''], 403, Message)
      else let path = secret_path r;
               access = [audit_ev ''secret.access'' tn [(''principal'', AStr (hr_Principal r)), (''path'', AStr path),
                          (''action'', AStr (access_action r)), (''decision'', AStr ''allow'')]]
           in if path = '''' then (s, [], 400, Message)
              else case refusal tn authz r of
                     Some reason \<Rightarrow> (s, [deny tn r reason], 403, Message)
                   | None \<Rightarrow>
                       if hr_Method r = ''GET''
                       then (if hr_HasVersions r then (s, [], 200, VersionList (Versions path s))
                             else case Get sl tn path s of
                                    Inl _ \<Rightarrow> (s, [], 404, Message)
                                  | Inr (v, n) \<Rightarrow> (s, access, 200, Secret v n))
                       else if hr_Method r = ''PUT''
                       then (case Put sl tn rnd now ok path (take (2 ^ 20) (hr_Body r)) (hr_IdempotencyKey r) s of
                               (s', Inl _) \<Rightarrow> (s', [], 500, Message)
                             | (s', Inr n) \<Rightarrow> (s', access, 200, VersionNo n))
                       else if hr_Method r = ''POST''
                       then (if hr_Rollback r = '''' then (s, access, 400, Message)
                             else case atoi (hr_Rollback r) of
                                    None \<Rightarrow> (s, [], 400, Message)
                                  | Some k \<Rightarrow>
                                      (case Rollback sl tn rnd now ok path k s of
                                         (s', Inl _) \<Rightarrow> (s', [], 400, Message)
                                       | (s', Inr n) \<Rightarrow> (s', [], 200, VersionNo n)))
                       else (s, access, 405, Message))"

lemma Rollback_versions:
  "p \<noteq> path \<Longrightarrow> st_versions (fst (Rollback sl tn rnd now ok path k s)) p = st_versions s p"
  by (rule Put_cases [of sl tn rnd now ok path "case GetVersion sl tn path k s of Inl _ \<Rightarrow> [] | Inr pt \<Rightarrow> pt" "''''" s])
    (auto simp: Rollback_def split: sum.split)

lemma Put_versions:
  "p \<noteq> path \<Longrightarrow> st_versions (fst (Put sl tn rnd now ok path v key s)) p = st_versions s p"
  by (rule Put_cases [of sl tn rnd now ok path v key s]) auto

text \<open>
  Access control of the secret surface. A request of another tenant, or one the authorizer
  refuses, gets 403, changes nothing and is recorded as denied. A response carries a secret only
  to a \<^verbatim>\<open>GET\<close> of this tenant that the authorizer lets read exactly that path, is what the store
  holds there, and is recorded as an access. The store changes only for a request of this tenant
  allowed to write, and only at that path. A rollback that succeeds is not recorded as an access.
\<close>

theorem ServeHTTP_access_control:
  assumes "ServeHTTP sl tn authz rnd now ok r s = (s', evs, status, body)"
  shows "(hr_Tenant r \<noteq> tn \<or> (secret_path r \<noteq> '''' \<and> refusal tn authz r \<noteq> None) \<longrightarrow>
           s' = s \<and> status = 403 \<and> body = Message \<and> map ae_type evs = [''secret.access.denied''])
    \<and> (body = Secret v n \<longrightarrow>
         hr_Tenant r = tn \<and> hr_Method r = ''GET'' \<and> refusal tn authz r = None \<and> access_action r = ''read''
         \<and> Get sl tn (secret_path r) s = Inr (v, n) \<and> s' = s \<and> map ae_type evs = [''secret.access''])
    \<and> (s' \<noteq> s \<longrightarrow> hr_Tenant r = tn \<and> refusal tn authz r = None \<and> access_action r = ''write''
         \<and> (\<forall>p. p \<noteq> secret_path r \<longrightarrow> st_versions s' p = st_versions s p))
    \<and> (hr_Method r = ''POST'' \<and> status = 200 \<longrightarrow> evs = [])"
proof (cases "hr_Tenant r \<noteq> tn \<or> secret_path r = '''' \<or> refusal tn authz r \<noteq> None")
  case True
  with assms show ?thesis by (auto simp: ServeHTTP_def Let_def deny_def split: if_splits option.splits)
next
  case False
  then have ok: "hr_Tenant r = tn" "secret_path r \<noteq> []" "refusal tn authz r = None" by auto
  consider (get) "hr_Method r = ''GET''" | (put) "hr_Method r = ''PUT''" | (post) "hr_Method r = ''POST''"
    | (other) "hr_Method r \<notin> {''GET'', ''PUT'', ''POST''}" by blast
  then show ?thesis
  proof cases
    case get
    with ok assms show ?thesis
      by (auto simp: ServeHTTP_def Let_def access_action_def split: if_splits sum.splits)
  next
    case put
    let ?p = "Put sl tn rnd now ok (secret_path r) (take (2 ^ 20) (hr_Body r)) (hr_IdempotencyKey r) s"
    have "s' = fst ?p" "body \<noteq> Secret v n"
      using put ok assms by (auto simp: ServeHTTP_def Let_def split: prod.splits sum.splits)
    with put ok show ?thesis by (simp add: access_action_def Put_versions)
  next
    case post
    have "s' = s \<or> (\<exists>k. s' = fst (Rollback sl tn rnd now ok (secret_path r) k s))" "body \<noteq> Secret v n"
      "status = 200 \<longrightarrow> evs = []"
      using post ok assms
      by (auto simp: ServeHTTP_def Let_def split: prod.splits sum.splits option.splits if_splits, metis fst_conv, metis fst_conv)
    with post ok show ?thesis by (auto simp: access_action_def Rollback_versions)
  next
    case other
    with ok assms show ?thesis by (auto simp: ServeHTTP_def Let_def)
  qed
qed

definition sample_request :: "string \<Rightarrow> string \<Rightarrow> http_request" where
  "sample_request tenant meth = \<lparr>hr_Tenant = tenant, hr_Principal = ''alice'', hr_Path = ''/secrets/db'', hr_Method = meth,
     hr_HasVersions = False, hr_Rollback = '''', hr_Body = ''v'', hr_IdempotencyKey = ''''\<rparr>"

definition read_only :: authorizer where
  "read_only tn who path action = (action = ''read'', ''read only'')"

theorem ServeHTTP_access_control_witness:
  "fst (ServeHTTP sample_sealer ''t1'' (Some read_only) '''' 1 True (sample_request ''t2'' ''GET'') (er_base sample_resolver)) = er_base sample_resolver
   \<and> Get sample_sealer ''t1'' (secret_path (sample_request ''t1'' ''GET'')) (er_base sample_resolver) = Inr (''pw'', 1)"
proof
  obtain s' evs status body where
    eq: "ServeHTTP sample_sealer ''t1'' (Some read_only) '''' 1 True (sample_request ''t2'' ''GET'') (er_base sample_resolver) = (s', evs, status, body)"
    by (rule prod_cases4)
  with ServeHTTP_access_control [OF eq]
  show "fst (ServeHTTP sample_sealer ''t1'' (Some read_only) '''' 1 True (sample_request ''t2'' ''GET'') (er_base sample_resolver)) = er_base sample_resolver"
    by (simp add: sample_request_def)
  have get: "Get sample_sealer ''t1'' ''db'' (er_base sample_resolver) = Inr (''pw'', 1)" by code_simp
  have "ServeHTTP sample_sealer ''t1'' (Some read_only) '''' 1 True (sample_request ''t1'' ''GET'') (er_base sample_resolver)
      = (er_base sample_resolver, [audit_ev ''secret.access'' ''t1'' [(''principal'', AStr ''alice''), (''path'', AStr ''db''),
          (''action'', AStr ''read''), (''decision'', AStr ''allow'')]], 200, Secret ''pw'' 1)"
    by (simp add: ServeHTTP_def sample_request_def secret_path_def trim_prefix_def has_prefix_def refusal_def
        read_only_def access_action_def get)
  from ServeHTTP_access_control [OF this, of "''pw''" 1]
  show "Get sample_sealer ''t1'' (secret_path (sample_request ''t1'' ''GET'')) (er_base sample_resolver) = Inr (''pw'', 1)"
    by blast
qed

end
