(* ===== verification/Transit.thy ===== *)
theory Transit
  imports Prelude
begin

text \<open>
  Encryption as a service (\<^verbatim>\<open>internal/transit/transit.go\<close>): named, versioned keys, the ciphertext
  format, and the operations of a tenant's key ring and of the service that holds one ring per
  tenant. AES-GCM, HMAC-SHA256 and the signature scheme are parameters, as is the random source: an
  operation that draws key material takes it as an argument, \<open>None\<close> when the source fails. Indexing
  past the end of a key's version list, a panic in Go, is the error \<open>TransitPanic\<close>.
\<close>

section \<open>Base64 without padding\<close>

text \<open>\<^verbatim>\<open>base64.RawStdEncoding\<close>; decoding skips line breaks and ignores left-over low bits, as Go's does.\<close>

definition b64_alphabet :: string where
  "b64_alphabet = ''ABCDEFGHIJKLMNOPQRSTUVWXYZabcdefghijklmnopqrstuvwxyz0123456789+/''"

definition b64_char :: "nat \<Rightarrow> char" where
  "b64_char n = b64_alphabet ! n"

definition b64_val :: "char \<Rightarrow> nat option" where
  "b64_val c = index_byte b64_alphabet c"

fun b64_groups :: "nat list \<Rightarrow> nat list" where
  "b64_groups [] = []"
| "b64_groups [a] = [a div 4, (a mod 4) * 16]"
| "b64_groups [a, b] = [a div 4, (a mod 4) * 16 + b div 16, (b mod 16) * 4]"
| "b64_groups (a # b # c # xs) =
     [a div 4, (a mod 4) * 16 + b div 16, (b mod 16) * 4 + c div 64, c mod 64] @ b64_groups xs"

definition b64_encode :: "bytes \<Rightarrow> string" where
  "b64_encode bs = map b64_char (b64_groups (map of_char bs))"

fun b64_ungroup :: "nat list \<Rightarrow> nat list option" where
  "b64_ungroup [] = Some []"
| "b64_ungroup [p] = None"
| "b64_ungroup [p, q] = Some [p * 4 + q div 16]"
| "b64_ungroup [p, q, r] = Some [p * 4 + q div 16, (q mod 16) * 16 + r div 4]"
| "b64_ungroup (p # q # r # t # xs) =
     map_option (\<lambda>ys. [p * 4 + q div 16, (q mod 16) * 16 + r div 4, (r mod 4) * 64 + t] @ ys) (b64_ungroup xs)"

definition b64_decode :: "string \<Rightarrow> bytes option" where
  "b64_decode s =
     (case those (map b64_val (filter (\<lambda>c. c \<noteq> CHR 0x0A \<and> c \<noteq> CHR 0x0D) s)) of
        None \<Rightarrow> None
      | Some vs \<Rightarrow> map_option (map char_of) (b64_ungroup vs))"

section \<open>Keys and rings\<close>

definition KindAEAD :: string where "KindAEAD = ''aead''"
definition KindHMAC :: string where "KindHMAC = ''hmac''"
definition KindSign :: string where "KindSign = ''sign''"

text \<open>Entry 0 of each version list is Go's \<^verbatim>\<open>nil\<close> placeholder; versions count from one.\<close>

record namedKey =
  nk_kind :: string
  nk_aead :: "bytes list"
  nk_hmac :: "bytes list"
  nk_sign :: "bytes list"
  nk_latest :: nat

record keyring =
  kr_tenantID :: string
  kr_keys :: "string \<Rightarrow> namedKey option"
  kr_audit :: "audit_event list"

record transit_crypto =
  tc_Seal :: "bytes \<Rightarrow> bytes \<Rightarrow> bytes \<Rightarrow> bytes \<Rightarrow> bytes option"
  tc_Open :: "bytes \<Rightarrow> bytes \<Rightarrow> bytes \<Rightarrow> bytes option"
  tc_HMAC :: "bytes \<Rightarrow> bytes \<Rightarrow> bytes"
  tc_Sign :: "bytes \<Rightarrow> bytes \<Rightarrow> bytes \<Rightarrow> bytes option"
  tc_Public :: "bytes \<Rightarrow> bytes"
  tc_Verify :: "bytes \<Rightarrow> bytes \<Rightarrow> bytes \<Rightarrow> bool"

datatype transit_error =
    KeyExists string | UnknownKey string | UnknownKind string | KeySourceFailed | WrongKind string
  | CryptoFailed | Malformed | BadVersion | BadEncoding | UnknownVersion int | SignatureInvalid | TransitPanic

definition NewKeyring :: "string \<Rightarrow> keyring" where
  "NewKeyring tn = \<lparr>kr_tenantID = tn, kr_keys = Map.empty, kr_audit = []\<rparr>"

definition ring_event :: "string \<Rightarrow> string \<Rightarrow> keyring \<Rightarrow> keyring" where
  "ring_event ev name k = k\<lparr>kr_audit := kr_audit k @ [audit_ev ev (kr_tenantID k) [(''key'', AStr name)]]\<rparr>"

definition CreateKey :: "bytes option \<Rightarrow> string \<Rightarrow> string \<Rightarrow> keyring \<Rightarrow> keyring \<times> transit_error option" where
  "CreateKey fresh name kind k =
     (if kr_keys k name \<noteq> None then (k, Some (KeyExists name))
      else if kind \<notin> {KindAEAD, KindHMAC, KindSign} then (k, Some (UnknownKind kind))
      else case fresh of
             None \<Rightarrow> (k, Some KeySourceFailed)
           | Some key \<Rightarrow>
               let nk = \<lparr>nk_kind = kind,
                         nk_aead = (if kind = KindAEAD then [[], key] else []),
                         nk_hmac = (if kind = KindHMAC then [[], key] else []),
                         nk_sign = (if kind = KindSign then [[], key] else []), nk_latest = 1\<rparr>
               in (ring_event ''transit.key.created'' name (k\<lparr>kr_keys := (kr_keys k)(name \<mapsto> nk)\<rparr>), None))"

definition Keyring_Kind :: "string \<Rightarrow> keyring \<Rightarrow> transit_error + string" where
  "Keyring_Kind name k = (case kr_keys k name of None \<Rightarrow> Inl (UnknownKey name) | Some nk \<Rightarrow> Inr (nk_kind nk))"

text \<open>\<^verbatim>\<open>Rotate\<close>: a key of none of the three kinds, which \<^verbatim>\<open>CreateKey\<close> never makes, would only count up.\<close>

definition Rotate :: "bytes option \<Rightarrow> string \<Rightarrow> keyring \<Rightarrow> keyring \<times> (transit_error + nat)" where
  "Rotate fresh name k =
     (case kr_keys k name of
        None \<Rightarrow> (k, Inl (UnknownKey name))
      | Some nk \<Rightarrow>
          let bump = (\<lambda>nk'. let nk'' = nk'\<lparr>nk_latest := nk_latest nk + 1\<rparr>
                in (ring_event ''transit.key.rotated'' name (k\<lparr>kr_keys := (kr_keys k)(name \<mapsto> nk'')\<rparr>), Inr (nk_latest nk'')))
          in if nk_kind nk \<in> {KindAEAD, KindHMAC, KindSign}
             then (case fresh of
                     None \<Rightarrow> (k, Inl KeySourceFailed)
                   | Some key \<Rightarrow>
                       if nk_kind nk = KindAEAD then bump (nk\<lparr>nk_aead := nk_aead nk @ [key]\<rparr>)
                       else if nk_kind nk = KindHMAC then bump (nk\<lparr>nk_hmac := nk_hmac nk @ [key]\<rparr>)
                       else bump (nk\<lparr>nk_sign := nk_sign nk @ [key]\<rparr>))
             else bump nk)"

definition ring_aad :: "keyring \<Rightarrow> string \<Rightarrow> bytes \<Rightarrow> bytes" where
  "ring_aad k name extra = kr_tenantID k @ ''|'' @ name @ ''|'' @ extra"

section \<open>Ciphertexts\<close>

definition format_ct :: "nat \<Rightarrow> bytes \<Rightarrow> string" where
  "format_ct ver ct = ''trv:'' @ itoa ver @ '':'' @ b64_encode ct"

text \<open>\<^verbatim>\<open>strings.SplitN(s, ":", 3)\<close>.\<close>

definition split3 :: "string \<Rightarrow> string list" where
  "split3 s = (case split_byte CHR '':'' s of a # b # c # r \<Rightarrow> [a, b, join_with '':'' (c # r)] | ps \<Rightarrow> ps)"

definition parseCT :: "string \<Rightarrow> transit_error + (int \<times> bytes)" where
  "parseCT s =
     (case split3 s of
        [a, b, c] \<Rightarrow>
          if a \<noteq> ''trv'' then Inl Malformed
          else (case atoi b of
                  None \<Rightarrow> Inl BadVersion
                | Some ver \<Rightarrow> (case b64_decode c of None \<Rightarrow> Inl BadEncoding | Some ct \<Rightarrow> Inr (ver, ct)))
      | _ \<Rightarrow> Inl Malformed)"

definition CiphertextVersion :: "string \<Rightarrow> transit_error + int" where
  "CiphertextVersion s = (case parseCT s of Inl err \<Rightarrow> Inl err | Inr (ver, ct) \<Rightarrow> Inr ver)"

section \<open>Operations\<close>

definition Encrypt ::
  "transit_crypto \<Rightarrow> bytes \<Rightarrow> string \<Rightarrow> bytes \<Rightarrow> bytes \<Rightarrow> keyring \<Rightarrow> keyring \<times> (transit_error + string)" where
  "Encrypt tc rnd name plaintext aad k =
     (case kr_keys k name of
        None \<Rightarrow> (k, Inl (WrongKind name))
      | Some nk \<Rightarrow>
          if nk_kind nk \<noteq> KindAEAD then (k, Inl (WrongKind name))
          else if \<not> nk_latest nk < length (nk_aead nk) then (k, Inl TransitPanic)
          else case tc_Seal tc rnd (nk_aead nk ! nk_latest nk) plaintext (ring_aad k name aad) of
                 None \<Rightarrow> (k, Inl CryptoFailed)
               | Some ct \<Rightarrow> (ring_event ''transit.encrypt'' name k, Inr (format_ct (nk_latest nk) ct)))"

definition Decrypt ::
  "transit_crypto \<Rightarrow> string \<Rightarrow> string \<Rightarrow> bytes \<Rightarrow> keyring \<Rightarrow> keyring \<times> (transit_error + bytes)" where
  "Decrypt tc name ciphertext aad k =
     (case kr_keys k name of
        None \<Rightarrow> (k, Inl (WrongKind name))
      | Some nk \<Rightarrow>
          if nk_kind nk \<noteq> KindAEAD then (k, Inl (WrongKind name))
          else case parseCT ciphertext of
                 Inl err \<Rightarrow> (k, Inl err)
               | Inr (ver, ct) \<Rightarrow>
                   if ver < 1 \<or> ver \<ge> int (length (nk_aead nk)) then (k, Inl (UnknownVersion ver))
                   else case tc_Open tc (nk_aead nk ! nat ver) ct (ring_aad k name aad) of
                          None \<Rightarrow> (k, Inl CryptoFailed)
                        | Some pt \<Rightarrow> (ring_event ''transit.decrypt'' name k, Inr pt))"

definition Rewrap ::
  "transit_crypto \<Rightarrow> bytes \<Rightarrow> string \<Rightarrow> string \<Rightarrow> bytes \<Rightarrow> keyring \<Rightarrow> keyring \<times> (transit_error + string)" where
  "Rewrap tc rnd name ciphertext aad k =
     (case Decrypt tc name ciphertext aad k of
        (k1, Inl err) \<Rightarrow> (k1, Inl err)
      | (k1, Inr pt) \<Rightarrow>
          (case Encrypt tc rnd name pt aad k1 of
             (k2, Inl err) \<Rightarrow> (k2, Inl err)
           | (k2, Inr out) \<Rightarrow> (ring_event ''transit.rewrap'' name k2, Inr out)))"

definition HMAC :: "transit_crypto \<Rightarrow> string \<Rightarrow> bytes \<Rightarrow> keyring \<Rightarrow> keyring \<times> (transit_error + bytes)" where
  "HMAC tc name data k =
     (case kr_keys k name of
        None \<Rightarrow> (k, Inl (WrongKind name))
      | Some nk \<Rightarrow>
          if nk_kind nk \<noteq> KindHMAC then (k, Inl (WrongKind name))
          else if \<not> nk_latest nk < length (nk_hmac nk) then (k, Inl TransitPanic)
          else (ring_event ''transit.hmac'' name k, Inr (tc_HMAC tc (nk_hmac nk ! nk_latest nk) data)))"

definition Sign ::
  "transit_crypto \<Rightarrow> bytes \<Rightarrow> string \<Rightarrow> bytes \<Rightarrow> keyring \<Rightarrow> keyring \<times> (transit_error + (bytes \<times> bytes))" where
  "Sign tc rnd name message k =
     (case kr_keys k name of
        None \<Rightarrow> (k, Inl (WrongKind name))
      | Some nk \<Rightarrow>
          if nk_kind nk \<noteq> KindSign then (k, Inl (WrongKind name))
          else if \<not> nk_latest nk < length (nk_sign nk) then (k, Inl TransitPanic)
          else let key = nk_sign nk ! nk_latest nk
               in case tc_Sign tc rnd key message of
                    None \<Rightarrow> (k, Inl CryptoFailed)
                  | Some sig \<Rightarrow> (ring_event ''transit.sign'' name k, Inr (sig, tc_Public tc key)))"

definition Verify_transit ::
  "transit_crypto \<Rightarrow> bytes \<Rightarrow> bytes \<Rightarrow> bytes \<Rightarrow> keyring \<Rightarrow> keyring \<times> transit_error option" where
  "Verify_transit tc message sig pubDER k =
     (if tc_Verify tc pubDER message sig then (ring_event ''transit.verify'' ''signature'' k, None)
      else (k, Some SignatureInvalid))"

definition Destroy_ring :: "keyring \<Rightarrow> keyring" where
  "Destroy_ring k = k\<lparr>kr_keys := Map.empty\<rparr>"

section \<open>The service\<close>

type_synonym transit_service = "string \<Rightarrow> keyring option"

text \<open>\<^verbatim>\<open>Service.ring\<close>: the tenant's ring, created on first use.\<close>

definition ring :: "string \<Rightarrow> transit_service \<Rightarrow> keyring" where
  "ring tn s = (case s tn of Some k \<Rightarrow> k | None \<Rightarrow> NewKeyring tn)"

text \<open>Every method of \<^verbatim>\<open>Service\<close> is the ring's method on the tenant's ring.\<close>

definition on_ring :: "string \<Rightarrow> (keyring \<Rightarrow> keyring \<times> 'r) \<Rightarrow> transit_service \<Rightarrow> transit_service \<times> 'r" where
  "on_ring tn f s = (case f (ring tn s) of (k, r) \<Rightarrow> (s(tn \<mapsto> k), r))"

record KeyInfo =
  ki_Name :: string
  ki_Kind :: string
  ki_Version :: nat

definition Service_CreateKey ::
  "bytes option \<Rightarrow> string \<Rightarrow> string \<Rightarrow> string \<Rightarrow> transit_service \<Rightarrow> transit_service \<times> (transit_error + KeyInfo)" where
  "Service_CreateKey fresh tn name kind s =
     (case on_ring tn (CreateKey fresh name kind) s of
        (s', Some err) \<Rightarrow> (s', Inl err)
      | (s', None) \<Rightarrow> (s', Inr \<lparr>ki_Name = name, ki_Kind = kind, ki_Version = 1\<rparr>))"

definition Service_Rotate ::
  "bytes option \<Rightarrow> string \<Rightarrow> string \<Rightarrow> transit_service \<Rightarrow> transit_service \<times> (transit_error + KeyInfo)" where
  "Service_Rotate fresh tn name s =
     (case on_ring tn (Rotate fresh name) s of
        (s', Inl err) \<Rightarrow> (s', Inl err)
      | (s', Inr version) \<Rightarrow>
          (case Keyring_Kind name (ring tn s') of
             Inl err \<Rightarrow> (s', Inl err)
           | Inr kind \<Rightarrow> (s', Inr \<lparr>ki_Name = name, ki_Kind = kind, ki_Version = version\<rparr>)))"

definition Service_Encrypt where
  "Service_Encrypt tc rnd tn name pt aad = on_ring tn (Encrypt tc rnd name pt aad)"

definition Service_Decrypt where
  "Service_Decrypt tc tn name ct aad = on_ring tn (Decrypt tc name ct aad)"

definition Service_Rewrap where
  "Service_Rewrap tc rnd tn name ct aad = on_ring tn (Rewrap tc rnd name ct aad)"

definition Service_HMAC where
  "Service_HMAC tc tn name data = on_ring tn (HMAC tc name data)"

definition Service_Sign where
  "Service_Sign tc rnd tn name message = on_ring tn (Sign tc rnd name message)"

definition Service_Verify where
  "Service_Verify tc tn message sig pubDER = on_ring tn (Verify_transit tc message sig pubDER)"

definition Service_Destroy :: "transit_service \<Rightarrow> transit_service" where
  "Service_Destroy s = Map.empty"

section \<open>Round trip of the encoding\<close>

lemma index_byte_nth: "distinct s \<Longrightarrow> n < length s \<Longrightarrow> index_byte s (s ! n) = Some n"
proof (induction s arbitrary: n)
  case (Cons x xs)
  then show ?case by (cases n) (auto dest: nth_mem)
qed simp

lemma b64_val_char: "n < 64 \<Longrightarrow> b64_val (b64_char n) = Some n"
  unfolding b64_val_def b64_char_def by (rule index_byte_nth) (simp_all add: b64_alphabet_def)

lemma b64_char_plain: "n < 64 \<Longrightarrow> b64_char n \<noteq> CHR 0x0A \<and> b64_char n \<noteq> CHR 0x0D"
  using b64_val_char [of n] by (auto simp: b64_val_def b64_alphabet_def)

lemma b64_groups_bound: "\<forall>x \<in> set xs. x < 256 \<Longrightarrow> \<forall>y \<in> set (b64_groups xs). y < 64"
  by (induction xs rule: b64_groups.induct) (auto simp: less_mult_imp_div_less)

lemma b64_ungroup_groups: "\<forall>x \<in> set xs. x < 256 \<Longrightarrow> b64_ungroup (b64_groups xs) = Some xs"
proof (induction xs rule: b64_groups.induct)
  case (3 a b)
  have "(a mod 4 * 16 + b div 16) div 16 = a mod 4" "(a mod 4 * 16 + b div 16) mod 16 = b div 16"
    using 3 by auto
  then show ?case by simp
next
  case (4 a b c xs)
  have "(a mod 4 * 16 + b div 16) div 16 = a mod 4" "(a mod 4 * 16 + b div 16) mod 16 = b div 16"
    "(b mod 16 * 4 + c div 64) div 4 = b mod 16" "(b mod 16 * 4 + c div 64) mod 4 = c div 64"
    using 4 by auto
  with 4 show ?case by simp
qed auto

lemma those_map_Some: "(\<And>x. x \<in> set xs \<Longrightarrow> f x = Some (g x)) \<Longrightarrow> those (map f xs) = Some (map g xs)"
  by (induction xs) auto

lemma b64_round_trip: "b64_decode (b64_encode bs) = Some bs"
proof -
  let ?ns = "map of_char bs :: nat list"
  have b: "\<forall>x \<in> set ?ns. x < 256" by simp
  have g: "\<forall>y \<in> set (b64_groups ?ns). y < 64" by (rule b64_groups_bound [OF b])
  have "filter (\<lambda>c. c \<noteq> CHR 0x0A \<and> c \<noteq> CHR 0x0D) (b64_encode bs) = b64_encode bs"
    using g by (auto simp: b64_encode_def b64_char_plain intro!: filter_True)
  moreover have "those (map b64_val (b64_encode bs)) = Some (b64_groups ?ns)"
    unfolding b64_encode_def map_map comp_def using g
    by (subst those_map_Some [where g = "\<lambda>x. x"]) (auto simp: b64_val_char)
  ultimately show ?thesis using b64_ungroup_groups [OF b] by (simp add: b64_decode_def comp_def)
qed

lemma parseCT_format:
  assumes "ver < 2 ^ 63"
  shows "parseCT (format_ct ver ct) = Inr (int ver, ct)"
proof -
  have s: "split_byte CHR '':'' (''trv:'' @ t) = ''trv'' # split_byte CHR '':'' t" for t
    using split_byte_append_sep [of "CHR '':''" "''trv''" t] by simp
  have "split_byte CHR '':'' (itoa ver @ CHR '':'' # b64_encode ct) = itoa ver # split_byte CHR '':'' (b64_encode ct)"
    by (simp add: split_byte_append_sep)
  moreover have "join_with '':'' (split_byte CHR '':'' (b64_encode ct)) = b64_encode ct"
    by (rule join_split_byte)
  ultimately have "split3 (format_ct ver ct) = [''trv'', itoa ver, b64_encode ct]"
    unfolding split3_def format_ct_def s by (cases "split_byte CHR '':'' (b64_encode ct)") auto
  with assms show ?thesis by (simp add: parseCT_def atoi_itoa b64_round_trip)
qed

section \<open>Rings only grow\<close>

text \<open>Every version list reaches its latest version, so no operation indexes past the end.\<close>

definition key_wf :: "namedKey \<Rightarrow> bool" where
  "key_wf nk = (1 \<le> nk_latest nk \<and> nk_kind nk \<in> {KindAEAD, KindHMAC, KindSign}
     \<and> (nk_kind nk = KindAEAD \<longrightarrow> length (nk_aead nk) = Suc (nk_latest nk))
     \<and> (nk_kind nk = KindHMAC \<longrightarrow> length (nk_hmac nk) = Suc (nk_latest nk))
     \<and> (nk_kind nk = KindSign \<longrightarrow> length (nk_sign nk) = Suc (nk_latest nk)))"

definition ring_wf :: "keyring \<Rightarrow> bool" where
  "ring_wf k = (\<forall>name nk. kr_keys k name = Some nk \<longrightarrow> key_wf nk)"

text \<open>\<open>k'\<close> has every key of \<open>k\<close>, of the same kind, with the same versions and perhaps more.\<close>

definition ring_le :: "keyring \<Rightarrow> keyring \<Rightarrow> bool" where
  "ring_le k k' = (kr_tenantID k' = kr_tenantID k \<and>
     (\<forall>name nk. kr_keys k name = Some nk \<longrightarrow>
        (\<exists>nk'. kr_keys k' name = Some nk' \<and> nk_kind nk' = nk_kind nk \<and> prefix (nk_aead nk) (nk_aead nk')
           \<and> nk_latest nk \<le> nk_latest nk')))"

lemma ring_event_fields [simp]:
  "kr_keys (ring_event ev name k) = kr_keys k" "kr_tenantID (ring_event ev name k) = kr_tenantID k"
  "ring_aad (ring_event ev name k) n x = ring_aad k n x"
  by (simp_all add: ring_event_def ring_aad_def)

lemma ring_event_wf [simp]: "ring_wf (ring_event ev name k) = ring_wf k"
  by (simp add: ring_wf_def)

lemma ring_le_refl [simp]: "ring_le k k"
  by (auto simp: ring_le_def)

lemma ring_le_trans:
  assumes "ring_le a b" and "ring_le b c"
  shows "ring_le a c"
  unfolding ring_le_def
proof (intro conjI allI impI)
  show "kr_tenantID c = kr_tenantID a" using assms by (simp add: ring_le_def)
  fix name nk
  assume "kr_keys a name = Some nk"
  with assms(1) obtain nb where b: "kr_keys b name = Some nb" "nk_kind nb = nk_kind nk"
    "prefix (nk_aead nk) (nk_aead nb)" "nk_latest nk \<le> nk_latest nb"
    unfolding ring_le_def by blast
  with assms(2) obtain nc where "kr_keys c name = Some nc" "nk_kind nc = nk_kind nb"
    "prefix (nk_aead nb) (nk_aead nc)" "nk_latest nb \<le> nk_latest nc"
    unfolding ring_le_def by blast
  with b show "\<exists>nk'. kr_keys c name = Some nk' \<and> nk_kind nk' = nk_kind nk
      \<and> prefix (nk_aead nk) (nk_aead nk') \<and> nk_latest nk \<le> nk_latest nk'"
    by (auto intro: prefix_order.trans)
qed

lemma ring_le_event [simp]: "ring_le k (ring_event ev name k)"
  by (auto simp: ring_le_def)

lemmas kind_defs = KindAEAD_def KindHMAC_def KindSign_def

lemma Rotate_cases:
  obtains (same) "fst (Rotate fresh name k) = k"
  | (rotated) nk nk' where "kr_keys k name = Some nk" "kr_tenantID (fst (Rotate fresh name k)) = kr_tenantID k"
      "kr_keys (fst (Rotate fresh name k)) = (kr_keys k)(name \<mapsto> nk')" "snd (Rotate fresh name k) = Inr (nk_latest nk')"
      "nk_kind nk' = nk_kind nk" "nk_latest nk' = Suc (nk_latest nk)" "prefix (nk_aead nk) (nk_aead nk')"
      "key_wf nk \<Longrightarrow> key_wf nk'"
proof (cases "kr_keys k name")
  case None
  then have "fst (Rotate fresh name k) = k" by (simp add: Rotate_def)
  then show ?thesis by (rule same)
next
  case (Some nk)
  show ?thesis
  proof (cases "nk_kind nk \<in> {KindAEAD, KindHMAC, KindSign} \<and> fresh = None")
    case True
    with Some have "fst (Rotate fresh name k) = k" by (auto simp: Rotate_def Let_def)
    then show ?thesis by (rule same)
  next
    case False
    let ?nk = "(if nk_kind nk = KindAEAD then nk\<lparr>nk_aead := nk_aead nk @ [the fresh]\<rparr>
      else if nk_kind nk = KindHMAC then nk\<lparr>nk_hmac := nk_hmac nk @ [the fresh]\<rparr>
      else if nk_kind nk = KindSign then nk\<lparr>nk_sign := nk_sign nk @ [the fresh]\<rparr> else nk)\<lparr>nk_latest := nk_latest nk + 1\<rparr>"
    from False Some show ?thesis
      by (intro rotated [of nk ?nk]) (auto simp: Rotate_def Let_def key_wf_def kind_defs split: option.split)
  qed
qed

lemma Rotate_grows: "ring_wf k \<Longrightarrow> ring_wf (fst (Rotate fresh name k)) \<and> ring_le k (fst (Rotate fresh name k))"
  by (rule Rotate_cases [of fresh name k]) (auto simp: ring_wf_def ring_le_def)

lemma CreateKey_grows:
  "ring_wf k \<Longrightarrow> ring_wf (fst (CreateKey fresh name kind k)) \<and> ring_le k (fst (CreateKey fresh name kind k))"
  by (auto simp: CreateKey_def Let_def ring_wf_def ring_le_def key_wf_def kind_defs split: option.split)

text \<open>What can happen to a ring between an encryption and a decryption, short of its destruction.\<close>

inductive ring_step :: "transit_crypto \<Rightarrow> keyring \<Rightarrow> keyring \<Rightarrow> bool" for tc where
  "ring_step tc k (fst (CreateKey fresh name kind k))"
| "ring_step tc k (fst (Rotate fresh name k))"
| "ring_step tc k (fst (Encrypt tc rnd name pt aad k))"
| "ring_step tc k (fst (Decrypt tc name ct aad k))"
| "ring_step tc k (fst (HMAC tc name data k))"
| "ring_step tc k (fst (Sign tc rnd name message k))"
| "ring_step tc k (fst (Verify_transit tc message sig pubDER k))"

lemma idle_keys:
  "\<exists>ev. fst (Encrypt tc rnd name pt aad k) \<in> {k, ring_event ev name k}"
  "\<exists>ev. fst (Decrypt tc name ct aad k) \<in> {k, ring_event ev name k}"
  "\<exists>ev. fst (HMAC tc name data k) \<in> {k, ring_event ev name k}"
  "\<exists>ev. fst (Sign tc rnd name message k) \<in> {k, ring_event ev name k}"
  "\<exists>ev. fst (Verify_transit tc message sig pubDER k) \<in> {k, ring_event ev ''signature'' k}"
  by (auto simp: Encrypt_def Decrypt_def HMAC_def Sign_def Verify_transit_def Let_def split: option.split sum.split)

lemma ring_step_grows:
  assumes "ring_step tc k k'" and "ring_wf k"
  shows "ring_wf k' \<and> ring_le k k'"
proof -
  have ev: "ring_wf k' \<and> ring_le k k'" if "\<exists>ev. k' \<in> {k, ring_event ev name k}" for name
    using that assms(2) by auto
  from assms(1) show ?thesis
    by cases (use assms(2) CreateKey_grows Rotate_grows ev idle_keys in \<open>metis+\<close>)
qed

lemma ring_steps_grow: "(ring_step tc)\<^sup>*\<^sup>* k k' \<Longrightarrow> ring_wf k \<Longrightarrow> ring_wf k' \<and> ring_le k k'"
proof (induction rule: rtranclp_induct)
  case (step b c)
  then have "ring_wf b" "ring_le k b" by auto
  with ring_step_grows [OF step.hyps(2)] show ?case by (meson ring_le_trans)
qed simp

section \<open>Ciphertexts outlive rotation\<close>

lemma Encrypt_Some:
  assumes "Encrypt tc rnd name pt aad k = (k', Inr c)"
  obtains nk ct where "kr_keys k name = Some nk" "nk_kind nk = KindAEAD" "nk_latest nk < length (nk_aead nk)"
    "tc_Seal tc rnd (nk_aead nk ! nk_latest nk) pt (ring_aad k name aad) = Some ct"
    "k' = ring_event ''transit.encrypt'' name k" "c = format_ct (nk_latest nk) ct"
  using assms by (auto simp: Encrypt_def split: option.splits if_splits)

lemma Decrypt_format:
  assumes "kr_keys k name = Some nk" and "nk_kind nk = KindAEAD" and "1 \<le> ver" and "ver < length (nk_aead nk)"
    and "ver < 2 ^ 63" and "tc_Open tc (nk_aead nk ! ver) ct (ring_aad k name aad) = Some pt"
  shows "Decrypt tc name (format_ct ver ct) aad k = (ring_event ''transit.decrypt'' name k, Inr pt)"
  using assms by (simp add: Decrypt_def parseCT_format)

text \<open>C35: A ciphertext stays readable through every rotation and rewrapping raises it to the latest key
  version. After a successful encryption, whatever keys are created, rotated and used on the ring,
  decryption under the same name and associated data returns the plaintext; if rewrapping
  succeeds, the new ciphertext names the latest version and decrypts to the same plaintext, and it
  never indexes past the key's versions. The hypotheses are that AES-GCM opens what it sealed and
  that fewer than \<open>2\<^sup>6\<^sup>3\<close> versions exist.
\<close>

theorem ciphertext_survives_rotation:
  assumes "\<forall>r key p a ct. tc_Seal tc r key p a = Some ct \<longrightarrow> tc_Open tc key ct a = Some p"
    and "ring_wf k" and "Encrypt tc rnd name pt aad k = (k1, Inr c)" and "(ring_step tc)\<^sup>*\<^sup>* k1 k2"
    and "kr_keys k2 name = Some nk" and "nk_latest nk < 2 ^ 63"
  shows "snd (Decrypt tc name c aad k2) = Inr pt
    \<and> snd (Rewrap tc rnd' name c aad k2) \<noteq> Inl TransitPanic
    \<and> (\<forall>k3 c'. Rewrap tc rnd' name c aad k2 = (k3, Inr c') \<longrightarrow>
         CiphertextVersion c' = Inr (int (nk_latest nk)) \<and> snd (Decrypt tc name c' aad k3) = Inr pt)"
proof -
  obtain nk0 ct where e: "kr_keys k name = Some nk0" "nk_kind nk0 = KindAEAD" "nk_latest nk0 < length (nk_aead nk0)"
    "tc_Seal tc rnd (nk_aead nk0 ! nk_latest nk0) pt (ring_aad k name aad) = Some ct"
    "k1 = ring_event ''transit.encrypt'' name k" "c = format_ct (nk_latest nk0) ct"
    by (rule Encrypt_Some [OF assms(3)])
  have wf1: "ring_wf k1" using assms(2) e(5) by simp
  from ring_steps_grow [OF assms(4) wf1] have g: "ring_wf k2" "ring_le k1 k2" by auto
  have tn: "ring_aad k2 name aad = ring_aad k name aad"
    using g(2) e(5) by (simp add: ring_le_def ring_aad_def)
  have nk: "nk_kind nk = KindAEAD" "prefix (nk_aead nk0) (nk_aead nk)" "nk_latest nk0 \<le> nk_latest nk" "key_wf nk"
  proof -
    have "kr_keys k1 name = Some nk0" using e(1,5) by simp
    with g(2) obtain nk' where "kr_keys k2 name = Some nk'" "nk_kind nk' = nk_kind nk0"
      "prefix (nk_aead nk0) (nk_aead nk')" "nk_latest nk0 \<le> nk_latest nk'"
      unfolding ring_le_def by blast
    with g(1) assms(5) e(2) show "nk_kind nk = KindAEAD" "prefix (nk_aead nk0) (nk_aead nk)"
      "nk_latest nk0 \<le> nk_latest nk" "key_wf nk"
      by (auto simp: ring_wf_def)
  qed
  have same: "nk_aead nk ! nk_latest nk0 = nk_aead nk0 ! nk_latest nk0" "nk_latest nk0 < length (nk_aead nk)"
    using nk(2) e(3) by (auto simp: prefix_def nth_append)
  have one: "1 \<le> nk_latest nk0" using assms(2) e(1) by (auto simp: ring_wf_def key_wf_def)
  have dec: "Decrypt tc name c aad k2 = (ring_event ''transit.decrypt'' name k2, Inr pt)"
    unfolding e(6) using assms(1,5,6) nk same one e(4) tn by (intro Decrypt_format) auto
  have len: "nk_latest nk < length (nk_aead nk)" "1 \<le> nk_latest nk" using nk(1,4) by (auto simp: key_wf_def)
  have rew: "CiphertextVersion c' = Inr (int (nk_latest nk)) \<and> snd (Decrypt tc name c' aad k3) = Inr pt"
    if "Rewrap tc rnd' name c aad k2 = (k3, Inr c')" for k3 c'
  proof -
    from that dec assms(5) nk(1) len obtain ct' where
      ct': "tc_Seal tc rnd' (nk_aead nk ! nk_latest nk) pt (ring_aad k2 name aad) = Some ct'"
        "c' = format_ct (nk_latest nk) ct'" "kr_keys k3 = kr_keys k2" "ring_aad k3 name aad = ring_aad k2 name aad"
      by (auto simp: Rewrap_def Encrypt_def split: option.splits)
    then have "Decrypt tc name c' aad k3 = (ring_event ''transit.decrypt'' name k3, Inr pt)"
      using assms(1,5,6) nk(1) len by (auto intro!: Decrypt_format)
    with ct'(2) assms(6) show ?thesis by (simp add: CiphertextVersion_def parseCT_format)
  qed
  moreover have "snd (Rewrap tc rnd' name c aad k2) \<noteq> Inl TransitPanic"
    using dec assms(5) nk(1) len by (auto simp: Rewrap_def Encrypt_def split: option.split)
  ultimately show ?thesis using dec by simp
qed

text \<open>A sealing that keeps the key and the associated data beside the plaintext.\<close>

definition sample_crypto :: transit_crypto where
  "sample_crypto = \<lparr>tc_Seal = (\<lambda>r key p a. Some (key @ a @ p)),
     tc_Open = (\<lambda>key ct a. if has_prefix ct (key @ a) then Some (drop (length (key @ a)) ct) else None),
     tc_HMAC = (\<lambda>key d. key @ d), tc_Sign = (\<lambda>r key m. Some (key @ m)), tc_Public = (\<lambda>key. key),
     tc_Verify = (\<lambda>pub m sig. sig = pub @ m)\<rparr>"

definition sample_ring :: keyring where
  "sample_ring = fst (CreateKey (Some ''K1'') ''app'' KindAEAD (NewKeyring ''t1''))"

theorem ciphertext_survives_rotation_witness:
  "\<exists>k1 c. Encrypt sample_crypto '''' ''app'' ''hello'' '''' sample_ring = (k1, Inr c)
     \<and> snd (Decrypt sample_crypto ''app'' c '''' (fst (Rotate (Some ''K2'') ''app'' k1))) = Inr ''hello''"
proof -
  let ?k1 = "fst (Encrypt sample_crypto '''' ''app'' ''hello'' '''' sample_ring)"
  have e: "Encrypt sample_crypto '''' ''app'' ''hello'' '''' sample_ring = (?k1, Inr (format_ct 1 ''K1t1|app|hello''))"
    by (simp add: Encrypt_def sample_ring_def CreateKey_def NewKeyring_def kind_defs Let_def sample_crypto_def ring_aad_def)
  have law: "\<forall>r key p a ct. tc_Seal sample_crypto r key p a = Some ct \<longrightarrow> tc_Open sample_crypto key ct a = Some p"
    by (auto simp: sample_crypto_def has_prefix_def)
  have wf: "ring_wf sample_ring"
    unfolding sample_ring_def by (rule CreateKey_grows [THEN conjunct1]) (simp add: ring_wf_def NewKeyring_def)
  have step: "(ring_step sample_crypto)\<^sup>*\<^sup>* ?k1 (fst (Rotate (Some ''K2'') ''app'' ?k1))"
    by (rule r_into_rtranclp) (rule ring_step.intros)
  have "\<exists>nk. kr_keys (fst (Rotate (Some ''K2'') ''app'' ?k1)) ''app'' = Some nk \<and> nk_latest nk = 2"
    by (simp add: Encrypt_def Rotate_def sample_ring_def CreateKey_def NewKeyring_def kind_defs Let_def sample_crypto_def)
  then obtain nk where nk: "kr_keys (fst (Rotate (Some ''K2'') ''app'' ?k1)) ''app'' = Some nk" "nk_latest nk < 2 ^ 63"
    by auto
  from ciphertext_survives_rotation [OF law wf e step nk] e show ?thesis by blast
qed

end
