(* ===== verification/Breakglass.thy ===== *)
theory Breakglass
  imports Prelude
begin

text \<open>
  Emergency issuance and the emergency administrator (\<^verbatim>\<open>internal/breakglass\<close>): the operator quorum,
  offline issuance of self-verifying bundles, their reconciliation into the audit log, and the
  administrator login with its lockout.

  The escrow key and the certificate functions are parameters. The signature is taken over the
  manifest value rather than over its JSON text. Password hashing is a parameter too: \<open>ad_Check\<close> is
  true when \<^verbatim>\<open>VerifyArgon2id\<close> accepts without an error.
\<close>

section \<open>Quorum and offline issuance\<close>

record Quorum =
  qu_Threshold :: int
  qu_Operators :: "string list"

datatype bg_error =
    BadThreshold | NotAnOperator string | QuorumNotMet nat int | ReasonRequired | CertSignFailed
  | ManifestSignFailed | BundleSignatureInvalid | NotChained | SinkFailed | ConfigInvalid

fun count_approvals :: "string list \<Rightarrow> string list \<Rightarrow> string set \<Rightarrow> nat \<Rightarrow> bg_error + nat" where
  "count_approvals ops [] seen n = Inr n"
| "count_approvals ops (a # as) seen n =
     (if a \<notin> set ops then Inl (NotAnOperator a)
      else if a \<in> seen then count_approvals ops as seen n
      else count_approvals ops as (insert a seen) (Suc n))"

definition Quorum_Verify :: "Quorum \<Rightarrow> string list \<Rightarrow> bg_error option" where
  "Quorum_Verify q approvals =
     (if qu_Threshold q \<le> 0 then Some BadThreshold
      else case count_approvals (qu_Operators q) approvals {} 0 of
             Inl err \<Rightarrow> Some err
           | Inr n \<Rightarrow> if int n < qu_Threshold q then Some (QuorumNotMet n (qu_Threshold q)) else None)"

record EmergencyRequest =
  eq_ID :: string
  eq_Subject :: string
  eq_CSRDer :: bytes
  eq_Reason :: string
  eq_Approvals :: "string list"

record Bundle =
  bu_RequestID :: string
  bu_Subject :: string
  bu_CertDER :: bytes
  bu_Reason :: string
  bu_Approvals :: "string list"
  bu_IssuedAt :: gotime
  bu_Signature :: bytes

record manifest =
  mf_RequestID :: string
  mf_Subject :: string
  mf_CertSHA256 :: string
  mf_Reason :: string
  mf_Approvals :: "string list"
  mf_IssuedAt :: int

definition manifest_of :: "(bytes \<Rightarrow> string) \<Rightarrow> Bundle \<Rightarrow> manifest" where
  "manifest_of H b = \<lparr>mf_RequestID = bu_RequestID b, mf_Subject = bu_Subject b, mf_CertSHA256 = H (bu_CertDER b),
     mf_Reason = bu_Reason b, mf_Approvals = sort (bu_Approvals b), mf_IssuedAt = bu_IssuedAt b div 1000000000\<rparr>"

record bg_config =
  bc_TenantID :: string
  bc_Quorum :: Quorum
  bc_CACertDER :: bytes
  bc_SignLeaf :: "bytes \<Rightarrow> bytes \<Rightarrow> duration \<Rightarrow> bytes option"
  bc_SignManifest :: "manifest \<Rightarrow> bytes option"

definition NewService :: "bg_config \<Rightarrow> bg_config option" where
  "NewService cfg =
     (if bc_TenantID cfg = '''' \<or> bc_CACertDER cfg = []
         \<or> qu_Threshold (bc_Quorum cfg) \<le> 0 \<or> int (length (qu_Operators (bc_Quorum cfg))) < qu_Threshold (bc_Quorum cfg)
      then None else Some cfg)"

definition IssueOffline ::
  "(bytes \<Rightarrow> string) \<Rightarrow> bg_config \<Rightarrow> gotime \<Rightarrow> EmergencyRequest \<Rightarrow> duration \<Rightarrow> bg_error + Bundle" where
  "IssueOffline H cfg now req ttl =
     (if eq_Reason req = '''' then Inl ReasonRequired
      else case Quorum_Verify (bc_Quorum cfg) (eq_Approvals req) of
             Some err \<Rightarrow> Inl err
           | None \<Rightarrow>
               (case bc_SignLeaf cfg (bc_CACertDER cfg) (eq_CSRDer req) ttl of
                  None \<Rightarrow> Inl CertSignFailed
                | Some der \<Rightarrow>
                    let b = \<lparr>bu_RequestID = eq_ID req, bu_Subject = eq_Subject req, bu_CertDER = der,
                             bu_Reason = eq_Reason req, bu_Approvals = eq_Approvals req, bu_IssuedAt = now,
                             bu_Signature = []\<rparr>
                    in case bc_SignManifest cfg (manifest_of H b) of
                         None \<Rightarrow> Inl ManifestSignFailed
                       | Some sig \<Rightarrow> Inr (b\<lparr>bu_Signature := sig\<rparr>)))"

text \<open>\<open>ver\<close> checks a manifest signature under the break-glass key, \<open>chained\<close> a leaf against the CA.\<close>

definition Verify_bundle ::
  "(bytes \<Rightarrow> string) \<Rightarrow> (manifest \<Rightarrow> bytes \<Rightarrow> bool) \<Rightarrow> (bytes \<Rightarrow> bytes \<Rightarrow> bool) \<Rightarrow> bytes \<Rightarrow> Bundle \<Rightarrow> bg_error option" where
  "Verify_bundle H ver chained ca b =
     (if \<not> ver (manifest_of H b) (bu_Signature b) then Some BundleSignatureInvalid
      else if \<not> chained (bu_CertDER b) ca then Some NotChained
      else None)"

definition bundle_event :: "string \<Rightarrow> Bundle \<Rightarrow> audit_event" where
  "bundle_event tn b = audit_ev ''breakglass.issued'' tn [(''request_id'', AStr (bu_RequestID b)),
     (''subject'', AStr (bu_Subject b)), (''reason'', AStr (bu_Reason b)),
     (''issued_at'', AInt (bu_IssuedAt b div 1000000000)), (''approvals'', AInt (int (length (bu_Approvals b))))]"

text \<open>\<open>sink\<close> tells whether the audit sink accepts its \<open>n\<close>-th event.\<close>

fun reconcile_bundles ::
  "(Bundle \<Rightarrow> bg_error option) \<Rightarrow> (nat \<Rightarrow> bool) \<Rightarrow> string \<Rightarrow> Bundle list \<Rightarrow> nat \<Rightarrow> audit_event list \<Rightarrow>
   audit_event list \<times> nat \<times> bg_error option" where
  "reconcile_bundles check sink tn [] n evs = (evs, n, None)"
| "reconcile_bundles check sink tn (b # bs) n evs =
     (case check b of
        Some err \<Rightarrow> (evs, n, Some err)
      | None \<Rightarrow>
          if \<not> sink n then (evs, n, Some SinkFailed)
          else reconcile_bundles check sink tn bs (Suc n)
                 (evs @ [bundle_event tn b]))"

definition Reconcile ::
  "(bytes \<Rightarrow> string) \<Rightarrow> (manifest \<Rightarrow> bytes \<Rightarrow> bool) \<Rightarrow> (bytes \<Rightarrow> bytes \<Rightarrow> bool) \<Rightarrow> bytes \<Rightarrow> (nat \<Rightarrow> bool) \<Rightarrow> string \<Rightarrow> Bundle list \<Rightarrow>
   audit_event list \<times> nat \<times> bg_error option" where
  "Reconcile H ver chained ca sink tn bundles =
     reconcile_bundles (Verify_bundle H ver chained ca) sink tn bundles 0 []"

lemma count_approvals_card:
  assumes "finite seen" and "n = card seen"
  shows "count_approvals ops as seen n = Inr m \<longleftrightarrow> set as \<subseteq> set ops \<and> m = card (seen \<union> set as)"
  using assms
proof (induction ops as seen n rule: count_approvals.induct)
  case (2 ops a as seen n)
  have "insert a (seen \<union> set as) = seen \<union> set as" if "a \<in> seen" using that by auto
  with 2 show ?case by auto
qed auto

lemma Quorum_Verify_iff:
  "Quorum_Verify q as = None \<longleftrightarrow>
     0 < qu_Threshold q \<and> set as \<subseteq> set (qu_Operators q) \<and> qu_Threshold q \<le> int (card (set as))"
proof (cases "count_approvals (qu_Operators q) as {} 0")
  case (Inl err)
  then have "\<not> set as \<subseteq> set (qu_Operators q)"
    using count_approvals_card [of "{}" 0 "qu_Operators q" as "card (set as)"] by auto
  with Inl show ?thesis by (auto simp: Quorum_Verify_def)
next
  case (Inr n)
  with count_approvals_card [of "{}" 0 "qu_Operators q" as n] show ?thesis by (auto simp: Quorum_Verify_def)
qed

lemma reconcile_bundles_prefix:
  assumes "\<And>n. sink n"
  shows "reconcile_bundles check sink tn bs n evs = (evs', n', r) \<Longrightarrow>
    n' = n + length (takeWhile (\<lambda>b. check b = None) bs) \<and> length evs' = length evs + (n' - n)
    \<and> (r = None \<longleftrightarrow> (\<forall>b \<in> set bs. check b = None))"
proof (induction bs arbitrary: n evs)
  case (Cons b bs)
  show ?case
  proof (cases "check b")
    case None
    with Cons.prems assms [of n] have "reconcile_bundles check sink tn bs (Suc n) (evs @ [bundle_event tn b]) = (evs', n', r)"
      by simp
    with Cons.IH [of "Suc n" "evs @ [bundle_event tn b]"] None show ?thesis by auto
  next
    case (Some err)
    with Cons.prems have "n' = n" "evs' = evs" "r = Some err" by simp_all
    with Some show ?thesis by simp
  qed
qed auto

text \<open>C37: Emergency issuance needs a quorum and yields a bundle that recovery accepts. A bundle is
  issued exactly when a reason is given, every approval is by an authorized operator, the number of
  distinct operators reaches the positive threshold, and the escrow key signs; the bundle carries
  those approvals and verifies offline. Reconciling a batch records one event for each bundle of
  its longest verifying prefix, and no more, and succeeds exactly when all of them verify. The
  hypotheses say that a signature made by the escrow key, and a leaf made by the CA, are accepted.
\<close>

theorem emergency_issuance:
  assumes "\<forall>m sig. bc_SignManifest cfg m = Some sig \<longrightarrow> ver m sig"
    and "\<forall>csr ttl der. bc_SignLeaf cfg (bc_CACertDER cfg) csr ttl = Some der \<longrightarrow> chained der (bc_CACertDER cfg)"
    and "\<forall>n. sink n"
  shows "(IssueOffline H cfg now req ttl = Inr b \<longrightarrow>
           eq_Reason req \<noteq> '''' \<and> bu_Approvals b = eq_Approvals req
           \<and> set (bu_Approvals b) \<subseteq> set (qu_Operators (bc_Quorum cfg))
           \<and> 0 < qu_Threshold (bc_Quorum cfg) \<and> qu_Threshold (bc_Quorum cfg) \<le> int (card (set (bu_Approvals b)))
           \<and> Verify_bundle H ver chained (bc_CACertDER cfg) b = None)
    \<and> (Reconcile H ver chained ca sink tn bundles = (evs, n, r) \<longrightarrow>
           n = length (takeWhile (\<lambda>b. Verify_bundle H ver chained ca b = None) bundles) \<and> length evs = n
           \<and> (r = None \<longleftrightarrow> (\<forall>b \<in> set bundles. Verify_bundle H ver chained ca b = None)))"
proof (intro conjI impI)
  assume "IssueOffline H cfg now req ttl = Inr b"
  then obtain der sig where i: "eq_Reason req \<noteq> ''''" "Quorum_Verify (bc_Quorum cfg) (eq_Approvals req) = None"
    "bc_SignLeaf cfg (bc_CACertDER cfg) (eq_CSRDer req) ttl = Some der"
    "bu_CertDER b = der" "bu_Signature b = sig" "bu_Approvals b = eq_Approvals req"
    "bc_SignManifest cfg (manifest_of H b) = Some sig"
    by (auto simp: IssueOffline_def Let_def manifest_of_def split: option.splits if_splits)
  then show "eq_Reason req \<noteq> ''''" "bu_Approvals b = eq_Approvals req"
    "set (bu_Approvals b) \<subseteq> set (qu_Operators (bc_Quorum cfg))" "0 < qu_Threshold (bc_Quorum cfg)"
    "qu_Threshold (bc_Quorum cfg) \<le> int (card (set (bu_Approvals b)))"
    by (simp_all add: Quorum_Verify_iff)
  show "Verify_bundle H ver chained (bc_CACertDER cfg) b = None"
    using i assms(1,2) by (simp add: Verify_bundle_def)
next
  assume "Reconcile H ver chained ca sink tn bundles = (evs, n, r)"
  then have "reconcile_bundles (Verify_bundle H ver chained ca) sink tn bundles 0 [] = (evs, n, r)"
    by (simp add: Reconcile_def)
  from reconcile_bundles_prefix [OF _ this] assms(3)
  show "n = length (takeWhile (\<lambda>b. Verify_bundle H ver chained ca b = None) bundles)" "length evs = n"
    "r = None \<longleftrightarrow> (\<forall>b \<in> set bundles. Verify_bundle H ver chained ca b = None)"
    by auto
qed

definition sample_bg :: bg_config where
  "sample_bg = \<lparr>bc_TenantID = ''t1'', bc_Quorum = \<lparr>qu_Threshold = 2, qu_Operators = [''a'', ''b'', ''c'']\<rparr>,
     bc_CACertDER = ''ca'', bc_SignLeaf = (\<lambda>ca csr ttl. Some (ca @ csr)), bc_SignManifest = (\<lambda>m. Some (mf_CertSHA256 m))\<rparr>"

definition sample_emergency :: EmergencyRequest where
  "sample_emergency = \<lparr>eq_ID = ''r1'', eq_Subject = ''s'', eq_CSRDer = ''csr'', eq_Reason = ''outage'',
     eq_Approvals = [''a'', ''b'', ''a'']\<rparr>"

theorem emergency_issuance_witness:
  "\<exists>b. IssueOffline (\<lambda>x. x) sample_bg 5 sample_emergency 60 = Inr b
     \<and> Verify_bundle (\<lambda>x. x) (\<lambda>m sig. sig = mf_CertSHA256 m) (\<lambda>der ca. has_prefix der ca) ''ca'' b = None"
proof -
  obtain b where b: "IssueOffline (\<lambda>x. x) sample_bg 5 sample_emergency 60 = Inr b"
    by (simp add: IssueOffline_def sample_bg_def sample_emergency_def Quorum_Verify_def)
  have "Verify_bundle (\<lambda>x. x) (\<lambda>m sig. sig = mf_CertSHA256 m) (\<lambda>der ca. has_prefix der ca) (bc_CACertDER sample_bg) b = None"
    using emergency_issuance [of sample_bg "\<lambda>m sig. sig = mf_CertSHA256 m" "\<lambda>der ca. has_prefix der ca" "\<lambda>_. True"
        "\<lambda>x. x" 5 sample_emergency 60 b] b
    by (simp add: sample_bg_def has_prefix_def)
  with b show ?thesis by (auto simp: sample_bg_def)
qed

section \<open>The emergency administrator\<close>

record admin_config =
  ad_Enabled :: bool
  ad_TenantID :: string
  ad_Sessions :: "(string \<Rightarrow> string \<Rightarrow> string option) option"
  ad_MaxFailures :: int
  ad_Lockout :: duration
  ad_Hash :: "bytes \<Rightarrow> bytes option"
  ad_Check :: "bytes \<Rightarrow> bytes \<Rightarrow> bool"

record adminCredential =
  cr_hash :: bytes
  cr_failures :: int
  cr_lockedUntil :: gotime

record admin_service =
  as_creds :: "string \<Rightarrow> adminCredential option"
  as_audit :: "audit_event list"

datatype admin_error = AdminDisabled | InvalidCredentials | AdminLocked | AuditFailed | HashFailed | NoSessions | SessionFailed

definition NewAdminService :: "admin_config \<Rightarrow> admin_config" where
  "NewAdminService cfg =
     (let c1 = (if ad_MaxFailures cfg \<le> 0 then cfg\<lparr>ad_MaxFailures := 5\<rparr> else cfg)
      in if ad_Lockout c1 \<le> 0 then c1\<lparr>ad_Lockout := 15 * minute\<rparr> else c1)"

definition admin_tenant :: "admin_config \<Rightarrow> string" where
  "admin_tenant cfg = (if ad_TenantID cfg = '''' then ''default'' else ad_TenantID cfg)"

definition SetPassword :: "admin_config \<Rightarrow> string \<Rightarrow> bytes \<Rightarrow> admin_service \<Rightarrow> admin_service \<times> admin_error option" where
  "SetPassword cfg actor pw s =
     (if \<not> ad_Enabled cfg then (s, Some AdminDisabled)
      else case ad_Hash cfg pw of
             None \<Rightarrow> (s, Some HashFailed)
           | Some h \<Rightarrow> (s\<lparr>as_creds := (as_creds s)(actor \<mapsto> \<lparr>cr_hash = h, cr_failures = 0, cr_lockedUntil = 0\<rparr>)\<rparr>, None))"

text \<open>
  An audited outcome: \<open>ok\<close> tells whether the sink accepts the event; a refused event replaces the
  answer by the sink's error.
\<close>

definition audited ::
  "admin_config \<Rightarrow> bool \<Rightarrow> string \<Rightarrow> string \<Rightarrow> (admin_error + string) \<Rightarrow> admin_service \<Rightarrow> admin_service \<times> (admin_error + string)" where
  "audited cfg ok actor outcome answer s =
     (if ok then (s\<lparr>as_audit := as_audit s @ [audit_ev ''breakglass.admin_login'' (admin_tenant cfg)
                      [(''actor_id'', AStr actor), (''outcome'', AStr outcome)]]\<rparr>, answer)
      else (s, Inl AuditFailed))"

definition Authenticate ::
  "admin_config \<Rightarrow> bool \<Rightarrow> gotime \<Rightarrow> string \<Rightarrow> bytes \<Rightarrow> admin_service \<Rightarrow> admin_service \<times> (admin_error + string)" where
  "Authenticate cfg ok now actor pw s =
     (if \<not> ad_Enabled cfg then audited cfg ok actor ''disabled'' (Inl AdminDisabled) s
      else case as_creds s actor of
             None \<Rightarrow> audited cfg ok actor ''invalid_credentials'' (Inl InvalidCredentials) s
           | Some cred \<Rightarrow>
               if cr_lockedUntil cred \<noteq> 0 \<and> now < cr_lockedUntil cred
               then audited cfg ok actor ''locked'' (Inl AdminLocked) s
               else if \<not> ad_Check cfg (cr_hash cred) pw
               then let c1 = cred\<lparr>cr_failures := cr_failures cred + 1\<rparr>;
                        lock = (ad_MaxFailures cfg \<le> cr_failures c1);
                        c2 = (if lock then c1\<lparr>cr_lockedUntil := now + ad_Lockout cfg\<rparr> else c1)
                    in audited cfg ok actor (if lock then ''locked'' else ''invalid_credentials'')
                         (Inl (if lock then AdminLocked else InvalidCredentials))
                         (s\<lparr>as_creds := (as_creds s)(actor \<mapsto> c2)\<rparr>)
               else let s1 = s\<lparr>as_creds := (as_creds s)(actor \<mapsto> cred\<lparr>cr_failures := 0, cr_lockedUntil := 0\<rparr>)\<rparr>
                    in case ad_Sessions cfg of
                         None \<Rightarrow> (s1, Inl NoSessions)
                       | Some issue \<Rightarrow>
                           audited cfg ok actor ''success''
                             (case issue actor (admin_tenant cfg) of None \<Rightarrow> Inl SessionFailed | Some t \<Rightarrow> Inr t) s1)"

lemma audited_creds [simp]: "as_creds (fst (audited cfg ok actor oc r s)) = as_creds s"
  by (simp add: audited_def)

lemma audited_result [simp]: "snd (audited cfg True actor oc r s) = r"
  by (simp add: audited_def)

text \<open>Login attempts one after the other, as times and passwords.\<close>

fun attempts :: "admin_config \<Rightarrow> string \<Rightarrow> (gotime \<times> bytes) list \<Rightarrow> admin_service \<Rightarrow> admin_service" where
  "attempts cfg actor [] s = s"
| "attempts cfg actor ((now, pw) # xs) s = attempts cfg actor xs (fst (Authenticate cfg True now actor pw s))"

lemma attempts_append: "attempts cfg actor (xs @ ys) s = attempts cfg actor ys (attempts cfg actor xs s)"
  by (induction xs arbitrary: s) auto

lemma wrong_attempts:
  assumes "ad_Enabled cfg" and "as_creds s actor = Some c" and "cr_lockedUntil c = 0"
    and "\<forall>(now, pw) \<in> set xs. \<not> ad_Check cfg (cr_hash c) pw"
    and "cr_failures c + int (length xs) < ad_MaxFailures cfg"
  shows "as_creds (attempts cfg actor xs s) actor = Some (c\<lparr>cr_failures := cr_failures c + int (length xs)\<rparr>)"
  using assms
proof (induction xs arbitrary: s c)
  case (Cons x xs)
  obtain now pw where x: "x = (now, pw)" by (cases x)
  let ?c = "c\<lparr>cr_failures := cr_failures c + 1\<rparr>"
  have "as_creds (fst (Authenticate cfg True now actor pw s)) actor = Some ?c"
    using Cons.prems x by (simp add: Authenticate_def Let_def)
  from Cons.IH [OF Cons.prems(1) this] Cons.prems(3-5) show ?case by (auto simp: x)
qed simp

lemma lock_answer:
  assumes "ad_Enabled cfg" and "as_creds s actor = Some c" and "cr_lockedUntil c \<noteq> 0" and "t < cr_lockedUntil c"
  shows "snd (Authenticate cfg True t actor pw s) = Inl AdminLocked \<and> as_creds (fst (Authenticate cfg True t actor pw s)) = as_creds s"
  using assms by (simp add: Authenticate_def)

text \<open>
  The emergency login locks after the configured number of failures. From a fresh credential,
  once as many wrong passwords in a row as the limit allows have been tried, every attempt before
  the last failure plus the lockout time is refused as locked, the right password included, without
  looking at it or changing the credential. When the lockout is over the failure count still
  stands, so a single further wrong password locks the account again.
\<close>

theorem admin_lockout:
  assumes "ad_Enabled cfg" and "as_creds s actor = Some \<lparr>cr_hash = h, cr_failures = 0, cr_lockedUntil = 0\<rparr>"
    and "\<forall>(t, pw) \<in> set xs. \<not> ad_Check cfg h pw" and "\<not> ad_Check cfg h pw"
    and "int (length xs) + 1 = ad_MaxFailures cfg" and "0 < now + ad_Lockout cfg"
    and "s' = attempts cfg actor (xs @ [(now, pw)]) s"
  shows "(t < now + ad_Lockout cfg \<longrightarrow>
           snd (Authenticate cfg True t actor any s') = Inl AdminLocked
           \<and> as_creds (fst (Authenticate cfg True t actor any s')) = as_creds s')
    \<and> (now + ad_Lockout cfg \<le> t \<and> \<not> ad_Check cfg h any \<longrightarrow>
           snd (Authenticate cfg True t actor any s') = Inl AdminLocked
           \<and> as_creds (fst (Authenticate cfg True t actor any s')) actor =
               Some \<lparr>cr_hash = h, cr_failures = ad_MaxFailures cfg + 1, cr_lockedUntil = t + ad_Lockout cfg\<rparr>)"
proof -
  have "as_creds (attempts cfg actor xs s) actor = Some \<lparr>cr_hash = h, cr_failures = int (length xs), cr_lockedUntil = 0\<rparr>"
    using wrong_attempts [OF assms(1,2), of xs] assms(3,5) by simp
  then have c: "as_creds s' actor = Some \<lparr>cr_hash = h, cr_failures = ad_MaxFailures cfg, cr_lockedUntil = now + ad_Lockout cfg\<rparr>"
    using assms(1,4,5) by (simp add: assms(7) attempts_append Authenticate_def Let_def)
  show ?thesis
    using c assms(1,6) lock_answer [OF assms(1) c, of t any] by (auto simp: Authenticate_def Let_def)
qed

definition sample_admin :: admin_config where
  "sample_admin = \<lparr>ad_Enabled = True, ad_TenantID = ''t1'', ad_Sessions = Some (\<lambda>a tn. Some ''session''),
     ad_MaxFailures = 2, ad_Lockout = 100, ad_Hash = Some, ad_Check = (=)\<rparr>"

definition sample_admin_state :: admin_service where
  "sample_admin_state = fst (SetPassword sample_admin ''root'' ''pw'' \<lparr>as_creds = Map.empty, as_audit = []\<rparr>)"

theorem admin_lockout_witness:
  "snd (Authenticate sample_admin True 50 ''root'' ''pw''
      (attempts sample_admin ''root'' ([(1, ''x'')] @ [(2, ''y'')]) sample_admin_state)) = Inl AdminLocked"
  using admin_lockout [of sample_admin sample_admin_state "''root''" "''pw''" "[(1, ''x'')]" "''y''" 2 _ 50 "''pw''", OF _ _ _ _ _ _ refl]
  by (simp add: sample_admin_def sample_admin_state_def SetPassword_def)

end
