(* ===== verification/Bulkhead.thy ===== *)
theory Bulkhead
  imports Prelude
begin

text \<open>
  Bounded worker pools (\<^verbatim>\<open>internal/bulkhead\<close>). A pool's workers are goroutines that receive from a
  channel, so a pool is a state machine: a worker is on its way to the receive, blocked in it, running
  a task, or gone. Tasks are natural numbers; whether a task panics is chosen by the step that ends
  it. \<^verbatim>\<open>Submit\<close> holds the pool's lock and never blocks: its \<^verbatim>\<open>select\<close> hands the task to a blocked
  receiver, or puts it in the buffer if there is room, or takes the default branch. It counts an
  accepted task only after the send, and the workers do not take the lock, so a call is two steps
  with worker steps in between; \<open>po_counting\<close> says that a submitter holds the lock between the two.
\<close>

section \<open>Pools\<close>

datatype Reason = ReasonFull | ReasonClosed | ReasonUnknown

record Rejected =
  rj_Pool :: string
  rj_Reason :: Reason
  rj_Capacity :: nat

definition Retryable :: "Rejected \<Rightarrow> bool" where
  "Retryable e = (rj_Reason e = ReasonFull)"

record Config =
  cf_Name :: string
  cf_Workers :: int
  cf_Queue :: int

record Pool =
  po_name :: string
  po_workers :: nat
  po_cap :: nat
  po_queue :: "nat list"
  po_closed :: bool
  po_arriving :: nat
  po_waiting :: nat
  po_running :: "nat list"
  po_exited :: nat
  po_counting :: bool
  po_submitted :: nat
  po_completed :: nat
  po_rejected :: nat
  po_panicked :: nat

definition NewPool :: "Config \<Rightarrow> Pool" where
  "NewPool cfg =
     (let workers = (if cf_Workers cfg < 1 then 1 else cf_Workers cfg);
          queue = (if cf_Queue cfg < 0 then 0 else cf_Queue cfg)
      in \<lparr>po_name = cf_Name cfg, po_workers = nat workers, po_cap = nat queue, po_queue = [], po_closed = False,
          po_arriving = nat workers, po_waiting = 0, po_running = [], po_exited = 0,
          po_counting = False, po_submitted = 0, po_completed = 0, po_rejected = 0, po_panicked = 0\<rparr>)"

definition Submit_send :: "nat \<Rightarrow> Pool \<Rightarrow> Pool \<times> Rejected option" where
  "Submit_send task p =
     (let reject = (\<lambda>reason. (p\<lparr>po_rejected := po_rejected p + 1\<rparr>,
            Some \<lparr>rj_Pool = po_name p, rj_Reason = reason, rj_Capacity = po_cap p\<rparr>))
      in if po_closed p then reject ReasonClosed
         else if po_waiting p > 0
         then (p\<lparr>po_waiting := po_waiting p - 1, po_running := task # po_running p, po_counting := True\<rparr>, None)
         else if length (po_queue p) < po_cap p
         then (p\<lparr>po_queue := po_queue p @ [task], po_counting := True\<rparr>, None)
         else reject ReasonFull)"

definition Submit_count :: "Pool \<Rightarrow> Pool" where
  "Submit_count p = p\<lparr>po_submitted := po_submitted p + 1, po_counting := False\<rparr>"

text \<open>A call that no worker runs into.\<close>

definition Submit :: "nat \<Rightarrow> Pool \<Rightarrow> Pool \<times> Rejected option" where
  "Submit task p = (case Submit_send task p of (p1, None) \<Rightarrow> (Submit_count p1, None) | (p1, Some e) \<Rightarrow> (p1, Some e))"

text \<open>\<^verbatim>\<open>Close\<close> up to its wait: the channel is closed, which wakes the blocked workers.\<close>

definition Close :: "Pool \<Rightarrow> Pool" where
  "Close p =
     (if po_closed p then p
      else p\<lparr>po_closed := True, po_arriving := po_arriving p + po_waiting p, po_waiting := 0\<rparr>)"

text \<open>\<^verbatim>\<open>worker\<close> and \<^verbatim>\<open>run\<close>: a worker reaches the receive; a running task ends, with or without a panic.\<close>

definition worker_receive :: "Pool \<Rightarrow> Pool" where
  "worker_receive p =
     (case po_queue p of
        t # ts \<Rightarrow> p\<lparr>po_queue := ts, po_arriving := po_arriving p - 1, po_running := t # po_running p\<rparr>
      | [] \<Rightarrow> if po_closed p then p\<lparr>po_arriving := po_arriving p - 1, po_exited := po_exited p + 1\<rparr>
              else p\<lparr>po_arriving := po_arriving p - 1, po_waiting := po_waiting p + 1\<rparr>)"

definition run_end :: "nat \<Rightarrow> bool \<Rightarrow> Pool \<Rightarrow> Pool" where
  "run_end t panics p =
     (let p1 = p\<lparr>po_running := remove1 t (po_running p), po_arriving := po_arriving p + 1\<rparr>
      in if panics then p1\<lparr>po_panicked := po_panicked p1 + 1\<rparr> else p1\<lparr>po_completed := po_completed p1 + 1\<rparr>)"

inductive worker_step :: "Pool \<Rightarrow> Pool \<Rightarrow> bool" where
  receive: "po_arriving p > 0 \<Longrightarrow> worker_step p (worker_receive p)"
| finish: "t \<in> set (po_running p) \<Longrightarrow> worker_step p (run_end t panics p)"

inductive pool_step :: "Pool \<Rightarrow> Pool \<Rightarrow> bool" where
  submit: "\<not> po_counting p \<Longrightarrow> pool_step p (fst (Submit_send t p))"
| count: "po_counting p \<Longrightarrow> pool_step p (Submit_count p)"
| close: "\<not> po_counting p \<Longrightarrow> pool_step p (Close p)"
| worker: "worker_step p p' \<Longrightarrow> pool_step p p'"

inductive_cases worker_stepE: "worker_step p p'"
inductive_cases pool_stepE: "pool_step p p'"

record Stats =
  sa_Name :: string
  sa_Workers :: nat
  sa_Capacity :: nat
  sa_Queued :: nat
  sa_Submitted :: nat
  sa_Completed :: nat
  sa_Rejected :: nat
  sa_Panicked :: nat

definition Pool_Stats :: "Pool \<Rightarrow> Stats" where
  "Pool_Stats p = \<lparr>sa_Name = po_name p, sa_Workers = po_workers p, sa_Capacity = po_cap p,
     sa_Queued = length (po_queue p), sa_Submitted = po_submitted p, sa_Completed = po_completed p,
     sa_Rejected = po_rejected p, sa_Panicked = po_panicked p\<rparr>"

section \<open>Sets of pools\<close>

type_synonym pool_set = "(string \<times> Pool) list"

fun put_pool :: "string \<Rightarrow> Pool \<Rightarrow> pool_set \<Rightarrow> pool_set" where
  "put_pool n p [] = [(n, p)]"
| "put_pool n p ((n', p') # xs) = (if n = n' then (n, p) # xs else (n', p') # put_pool n p xs)"

definition NewSet :: "Config list \<Rightarrow> pool_set" where
  "NewSet cfgs = fold (\<lambda>c s. put_pool (cf_Name c) (NewPool c) s) cfgs []"

definition DefaultConfigs :: "Config list" where
  "DefaultConfigs =
     [\<lparr>cf_Name = ''api'', cf_Workers = 8, cf_Queue = 256\<rparr>, \<lparr>cf_Name = ''projections'', cf_Workers = 2, cf_Queue = 128\<rparr>,
      \<lparr>cf_Name = ''outbox'', cf_Workers = 4, cf_Queue = 256\<rparr>, \<lparr>cf_Name = ''signing'', cf_Workers = 4, cf_Queue = 64\<rparr>,
      \<lparr>cf_Name = ''query'', cf_Workers = 4, cf_Queue = 64\<rparr>, \<lparr>cf_Name = ''policy'', cf_Workers = 4, cf_Queue = 64\<rparr>,
      \<lparr>cf_Name = ''protocols'', cf_Workers = 8, cf_Queue = 256\<rparr>, \<lparr>cf_Name = ''agent'', cf_Workers = 16, cf_Queue = 1024\<rparr>,
      \<lparr>cf_Name = ''cbom'', cf_Workers = 4, cf_Queue = 64\<rparr>]"

definition Default :: pool_set where
  "Default = NewSet DefaultConfigs"

definition Set_Pool :: "string \<Rightarrow> pool_set \<Rightarrow> Pool option" where
  "Set_Pool name s = map_of s name"

definition Set_Submit :: "string \<Rightarrow> nat \<Rightarrow> pool_set \<Rightarrow> pool_set \<times> Rejected option" where
  "Set_Submit name task s =
     (case map_of s name of
        None \<Rightarrow> (s, Some \<lparr>rj_Pool = name, rj_Reason = ReasonUnknown, rj_Capacity = 0\<rparr>)
      | Some p \<Rightarrow> (case Submit task p of (p', r) \<Rightarrow> (put_pool name p' s, r)))"

definition Set_Close :: "pool_set \<Rightarrow> pool_set" where
  "Set_Close s = map (\<lambda>(n, p). (n, Close p)) s"

definition Set_Stats :: "pool_set \<Rightarrow> Stats list" where
  "Set_Stats s = sort_key sa_Name (map (Pool_Stats \<circ> snd) s)"

section \<open>The invariant\<close>

definition pool_inv :: "Pool \<Rightarrow> bool" where
  "pool_inv p =
     (po_submitted p + (if po_counting p then 1 else 0) = po_completed p + po_panicked p + length (po_queue p) + length (po_running p)
      \<and> \<not> (po_counting p \<and> po_closed p)
      \<and> length (po_queue p) \<le> po_cap p
      \<and> po_arriving p + po_waiting p + length (po_running p) + po_exited p = po_workers p
      \<and> 1 \<le> po_workers p
      \<and> (0 < po_waiting p \<longrightarrow> po_queue p = [] \<and> \<not> po_closed p)
      \<and> (0 < po_exited p \<longrightarrow> po_queue p = [] \<and> po_closed p))"

lemma pool_inv_New: "pool_inv (NewPool cfg)"
  by (auto simp: pool_inv_def NewPool_def Let_def)

lemma pool_inv_Submit: "pool_inv p \<Longrightarrow> \<not> po_counting p \<Longrightarrow> pool_inv (fst (Submit_send t p))"
  by (auto simp: pool_inv_def Submit_send_def Let_def)

lemma pool_inv_count: "pool_inv p \<Longrightarrow> po_counting p \<Longrightarrow> pool_inv (Submit_count p)"
  by (auto simp: pool_inv_def Submit_count_def)

lemma pool_inv_Close: "pool_inv p \<Longrightarrow> \<not> po_counting p \<Longrightarrow> pool_inv (Close p)"
  by (auto simp: pool_inv_def Close_def)

lemma pool_inv_receive: "pool_inv p \<Longrightarrow> 0 < po_arriving p \<Longrightarrow> pool_inv (worker_receive p)"
  by (auto simp: pool_inv_def worker_receive_def split: list.split)

lemma pool_inv_finish:
  assumes "pool_inv p" and "t \<in> set (po_running p)"
  shows "pool_inv (run_end t panics p)"
proof -
  obtain n where "length (po_running p) = Suc n"
    using assms(2) by (cases "po_running p") auto
  with assms show ?thesis
    by (cases panics) (simp_all add: pool_inv_def run_end_def Let_def length_remove1)
qed

lemma pool_inv_step: "pool_step p p' \<Longrightarrow> pool_inv p \<Longrightarrow> pool_inv p'"
  by (auto elim!: pool_stepE worker_stepE simp: pool_inv_Submit pool_inv_count pool_inv_Close pool_inv_receive pool_inv_finish)

lemma pool_config_step: "pool_step p p' \<Longrightarrow> po_workers p' = po_workers p \<and> po_cap p' = po_cap p"
  by (auto elim!: pool_stepE worker_stepE simp: Submit_send_def Submit_count_def Close_def worker_receive_def run_end_def Let_def split: list.split)

lemma pool_inv_steps: "pool_step\<^sup>*\<^sup>* p p' \<Longrightarrow> pool_inv p \<Longrightarrow> pool_inv p' \<and> po_workers p' = po_workers p \<and> po_cap p' = po_cap p"
  by (induction rule: rtranclp_induct) (auto simp: pool_inv_step dest: pool_config_step)

text \<open>What a closed pool still has to do; every step of a worker takes something off it.\<close>

definition work_left :: "Pool \<Rightarrow> nat" where
  "work_left p = 3 * length (po_queue p) + 2 * length (po_running p) + po_arriving p"

lemma worker_step_drains:
  assumes "worker_step p p'" and "po_closed p"
  shows "work_left p' < work_left p \<and> po_closed p'"
  using assms(1)
proof cases
  case receive
  with assms(2) show ?thesis by (auto simp: work_left_def worker_receive_def split: list.split)
next
  case (finish t panics)
  obtain n where "length (po_running p) = Suc n"
    using finish(2) by (cases "po_running p") auto
  with finish assms(2) show ?thesis
    by (cases panics) (simp_all add: work_left_def run_end_def Let_def length_remove1)
qed

lemma closed_progress:
  assumes "pool_inv p" and "po_closed p" and "po_exited p \<noteq> po_workers p"
  shows "\<exists>p'. worker_step p p'"
proof (cases "po_arriving p")
  case 0
  with assms have "po_running p \<noteq> []" by (auto simp: pool_inv_def)
  then have "hd (po_running p) \<in> set (po_running p)" by simp
  then show ?thesis using worker_step.finish by blast
next
  case (Suc n)
  then have "0 < po_arriving p" by simp
  then show ?thesis using worker_step.receive by blast
qed

text \<open>C39: A pool accounts for every task and sheds instead of queueing without bound. In every state a
  pool can reach, the accepted tasks are the completed, panicked, queued and running ones (while a
  submitter is between its send and its count, the counter is one short), at most the configured
  number of tasks run and at most the capacity are queued; while a worker waits no submission is
  rejected. A closed pool that still has workers can take a step, every worker step brings it nearer
  to the end, and when all workers are gone every accepted task has been run and counted.
\<close>

theorem pool_accounting:
  assumes "pool_step\<^sup>*\<^sup>* (NewPool cfg) p"
  shows "po_submitted p + (if po_counting p then 1 else 0) = po_completed p + po_panicked p + length (po_queue p) + length (po_running p)
    \<and> length (po_running p) \<le> nat (max 1 (cf_Workers cfg)) \<and> length (po_queue p) \<le> nat (max 0 (cf_Queue cfg))
    \<and> (0 < po_waiting p \<longrightarrow> snd (Submit t p) = None)
    \<and> (po_closed p \<and> po_exited p \<noteq> po_workers p \<longrightarrow> (\<exists>p'. worker_step p p'))
    \<and> (po_closed p \<longrightarrow> (\<forall>p'. worker_step p p' \<longrightarrow> work_left p' < work_left p))
    \<and> (po_exited p = po_workers p \<longrightarrow> po_submitted p = po_completed p + po_panicked p)"
proof -
  from pool_inv_steps [OF assms pool_inv_New] have inv: "pool_inv p"
    and cfg: "po_workers p = nat (max 1 (cf_Workers cfg))" "po_cap p = nat (max 0 (cf_Queue cfg))"
    by (auto simp: NewPool_def Let_def max_def)
  have "0 < po_waiting p \<longrightarrow> snd (Submit t p) = None"
    using inv by (simp add: pool_inv_def Submit_def Submit_send_def)
  moreover have "po_exited p = po_workers p \<longrightarrow> po_queue p = [] \<and> po_running p = []"
    using inv by (auto simp: pool_inv_def)
  moreover have "length (po_running p) \<le> po_workers p" using inv by (auto simp: pool_inv_def)
  ultimately show ?thesis
    using inv cfg closed_progress [OF inv] worker_step_drains by (auto simp: pool_inv_def)
qed

definition sample_pool :: Config where
  "sample_pool = \<lparr>cf_Name = ''api'', cf_Workers = 1, cf_Queue = 0\<rparr>"

theorem pool_accounting_witness:
  "snd (Submit 7 (worker_receive (NewPool sample_pool))) = None"
proof -
  have "pool_step\<^sup>*\<^sup>* (NewPool sample_pool) (worker_receive (NewPool sample_pool))"
    by (rule r_into_rtranclp, rule pool_step.worker, rule worker_step.receive) (simp add: NewPool_def sample_pool_def)
  from pool_accounting [OF this, of 7] show ?thesis
    by (simp add: worker_receive_def NewPool_def sample_pool_def)
qed

section \<open>Isolation\<close>

lemma map_of_put_pool: "map_of (put_pool n p s) x = (if x = n then Some p else map_of s x)"
  by (induction n p s rule: put_pool.induct) auto

lemma Set_Submit_isolated: "m \<noteq> name \<Longrightarrow> Set_Pool m (fst (Set_Submit name task s)) = Set_Pool m s"
  by (simp add: Set_Submit_def Set_Pool_def map_of_put_pool split: option.split prod.split)

lemma Default_pools: "c \<in> set DefaultConfigs \<Longrightarrow> Set_Pool (cf_Name c) Default = Some (NewPool c)"
  unfolding DefaultConfigs_def Default_def NewSet_def Set_Pool_def by (auto simp: map_of_put_pool)

end
