(* ===== verification/Dispatch.thy ===== *)
theory Dispatch
  imports Outbox
begin

text \<open>
  The worker side of the outbox (\<^verbatim>\<open>internal/orchestrator/outbox.go\<close>): the constructor and
  its options, the delivery of one claimed message with its deadline, the \<^verbatim>\<open>Dispatch\<close> loop with
  its round-robin sets, and the read-only queries. The loop runs one worker against the table;
  the handler, the retry jitter and the clock are arguments indexed by the moment of the call, so
  they may answer differently every time. Fuel bounds the loop, and the theorems show how much
  of it is enough.
\<close>

section \<open>Constructor options\<close>

datatype outbox_option =
    WithMaxAttempts int
  | WithLeaseTTL duration
  | WithDeliveryTimeout duration
  | WithCircuitBreaker int duration
  | WithMaxInFlightPerDestination int
  | WithMaxInFlightPerTenant int
  | WithWorkerID string

text \<open>
  The attempt cap is compared with attempt counts only, where a negative cap and the cap zero
  behave alike.
\<close>

fun apply_option :: "outbox_option \<Rightarrow> outbox_config \<Rightarrow> outbox_config" where
  "apply_option (WithMaxAttempts n) o1 = o1\<lparr>oc_maxAttempts := nat n\<rparr>"
| "apply_option (WithLeaseTTL n) o1 = (if 0 < n then o1\<lparr>oc_leaseTTL := n\<rparr> else o1)"
| "apply_option (WithDeliveryTimeout n) o1 = (if 0 < n then o1\<lparr>oc_deliveryTimeout := n\<rparr> else o1)"
| "apply_option (WithCircuitBreaker th openFor) o1 =
     (let o2 = o1\<lparr>oc_circuitFailureThreshold := th\<rparr>
      in if 0 < openFor then o2\<lparr>oc_circuitOpenDuration := openFor\<rparr> else o2)"
| "apply_option (WithMaxInFlightPerDestination n) o1 =
     (if 0 < n then o1\<lparr>oc_maxInFlightPerDestination := nat n\<rparr> else o1)"
| "apply_option (WithMaxInFlightPerTenant n) o1 =
     (if 0 < n then o1\<lparr>oc_maxInFlightPerTenant := nat n\<rparr> else o1)"
| "apply_option (WithWorkerID i) o1 = (if i \<noteq> '''' then o1\<lparr>oc_workerID := i\<rparr> else o1)"

definition NewOutbox :: "string \<Rightarrow> outbox_option list \<Rightarrow> outbox_config" where
  "NewOutbox w opts = fold apply_option opts (default_outbox_config w)"

section \<open>Delivery\<close>

text \<open>
  What one call of the handler leaves behind: its error, whether the error is a deadline error,
  whether the deadline of the delivery context had passed, and whether the caller's own context
  had ended.
\<close>

record delivery =
  dv_err :: "string option"
  dv_err_is_deadline :: bool
  dv_deadline_passed :: bool
  dv_parent_done :: bool

definition deliver :: "(duration \<Rightarrow> string) \<Rightarrow> outbox_config \<Rightarrow> delivery \<Rightarrow> string option \<times> bool" where
  "deliver dur_string cfg d =
     (let timedOut = (0 < oc_deliveryTimeout cfg \<and> \<not> dv_parent_done d
                      \<and> dv_deadline_passed d \<and> dv_err_is_deadline d)
      in case dv_err d of
           None \<Rightarrow> (None, False)
         | Some e \<Rightarrow>
             (if timedOut
              then (Some (''outbox delivery timed out after '' @ dur_string (oc_deliveryTimeout cfg) @ '': '' @ e), True)
              else (Some e, False)))"

section \<open>The dispatch loop\<close>

record 'p worker_env =
  we_clock :: "nat \<Rightarrow> gotime"
  we_handler :: "nat \<Rightarrow> 'p outbox_row \<Rightarrow> delivery"
  we_delay :: "nat \<Rightarrow> nat \<Rightarrow> duration"
  we_dur_string :: "duration \<Rightarrow> string"

type_synonym 'p worker_state = "'p outbox_table \<times> circuits"

fun Dispatch_loop ::
  "nat \<Rightarrow> outbox_config \<Rightarrow> 'p worker_env \<Rightarrow> gotime \<Rightarrow> string list \<Rightarrow> string list \<Rightarrow> nat \<Rightarrow> nat \<Rightarrow>
   'p worker_state \<Rightarrow> ('p worker_state \<times> nat \<times> finalize_error option) option" where
  "Dispatch_loop 0 cfg env cutoff sts sds processed n s = None"
| "Dispatch_loop (Suc fuel) cfg env cutoff sts sds processed n s =
     (case claimOne cfg cutoff (we_clock env n) sts sds s of
        (s1, None) \<Rightarrow>
          (if sts = [] \<and> sds = [] then Some (s1, processed, None)
           else Dispatch_loop fuel cfg env cutoff [] [] processed (Suc n) s1)
      | (s1, Some claim) \<Rightarrow>
          (case finalizeClaim cfg (we_delay env n) (we_clock env (Suc n)) claim
                  (fst (deliver (we_dur_string env) cfg (we_handler env n claim))) s1 of
             Inl e \<Rightarrow> Some (s1, Suc processed, Some e)
           | Inr s2 \<Rightarrow>
               Dispatch_loop fuel cfg env cutoff (List.insert (en_TenantID claim) sts)
                 (List.insert (en_Destination claim) sds) (Suc processed) (n + 2) s2))"

definition Dispatch ::
  "nat \<Rightarrow> outbox_config \<Rightarrow> 'p worker_env \<Rightarrow> 'p worker_state \<Rightarrow>
   ('p worker_state \<times> nat \<times> finalize_error option) option" where
  "Dispatch fuel cfg env s = Dispatch_loop fuel cfg env (we_clock env 0) [] [] 0 1 s"

section \<open>Queries\<close>

text \<open>\<^verbatim>\<open>COALESCE(last_error, '')\<close> of the row; ids grow with insertion, so table order is id order.\<close>

definition Pending_rows :: "string \<Rightarrow> 'p outbox_table \<Rightarrow> 'p outbox_row list" where
  "Pending_rows tn t = filter (\<lambda>r. en_TenantID r = tn \<and> ob_status r \<noteq> Delivered) (ot_rows t)"

definition Get_row :: "string \<Rightarrow> nat \<Rightarrow> 'p outbox_table \<Rightarrow> 'p outbox_row option" where
  "Get_row tn i t = find (\<lambda>r. en_TenantID r = tn \<and> ob_id r = i) (ot_rows t)"

section \<open>Termination of a dispatch pass\<close>

text \<open>
  The work a row can still cause in a pass with the given cutoff: none once it is settled or
  scheduled past the cutoff, otherwise one claim per attempt that is left, and one for a row that is
  pending although it has none left.
\<close>

definition row_work :: "outbox_config \<Rightarrow> gotime \<Rightarrow> 'p outbox_row \<Rightarrow> nat" where
  "row_work cfg cutoff r =
     (if ob_status r = Processing \<or> due cutoff r then max 1 (oc_maxAttempts cfg - ob_attempts r) else 0)"

definition table_work :: "outbox_config \<Rightarrow> gotime \<Rightarrow> 'p outbox_table \<Rightarrow> nat" where
  "table_work cfg cutoff t = sum_list (map (row_work cfg cutoff) (ot_rows t))"

lemma row_work_recover: "row_work cfg cutoff (recover_lease now r) \<le> row_work cfg cutoff r"
  by (auto simp: row_work_def recover_lease_def due_def split: option.splits)

lemma sum_list_strict_at:
  fixes f g :: "'a \<Rightarrow> nat"
  assumes "\<And>x. x \<in> set xs \<Longrightarrow> f x \<le> g x" and "y \<in> set xs" and "f y < g y"
  shows "sum_list (map f xs) < sum_list (map g xs)"
proof -
  obtain us vs where xs: "xs = us @ y # vs" using assms(2) by (auto dest: split_list)
  have "sum_list (map f us) \<le> sum_list (map g us)" "sum_list (map f vs) \<le> sum_list (map g vs)"
    using assms(1) by (auto simp: xs intro!: sum_list_mono)
  with assms(3) show ?thesis by (simp add: xs)
qed

lemma filter_key_unique:
  "distinct (map f xs) \<Longrightarrow> y \<in> set xs \<Longrightarrow> filter (\<lambda>x. f x = f y) xs = [y]"
proof (induction xs)
  case (Cons a xs)
  then show ?case
    by (cases "y = a") (auto simp: filter_empty_conv image_iff dest: sym)
qed simp

text \<open>The row a claim and its finalization leave behind.\<close>

definition settled_row ::
  "outbox_config \<Rightarrow> (nat \<Rightarrow> duration) \<Rightarrow> gotime \<Rightarrow> string option \<Rightarrow> 'p outbox_row \<Rightarrow> 'p outbox_row" where
  "settled_row cfg delay now err r =
     (case err of
        None \<Rightarrow> r\<lparr>ob_status := Delivered, ob_delivered_at := Some now, ob_last_error := None,
                 ob_worker_id := None, ob_lease_until := None\<rparr>
      | Some e \<Rightarrow> r\<lparr>ob_last_error := Some e, ob_next_attempt_at := now + delay (ob_attempts r),
                   ob_status := (if oc_maxAttempts cfg \<le> ob_attempts r then Failed else Pending),
                   ob_worker_id := None, ob_lease_until := None\<rparr>)"

lemma claim_finalize_rows:
  assumes "claimOne cfg cutoff now sts sds (t, cs) = ((t', cs'), Some q)" and "ids_wf t"
  obtains s where "finalizeClaim cfg delay now' q err (t', cs') = Inr s"
    and "ot_rows (fst s) = map (\<lambda>r. if ob_id r = ob_id q then settled_row cfg delay now' err q
                                    else recover_lease now r) (ot_rows t)"
    and "\<exists>r0 \<in> set (ot_rows t). ob_id r0 = ob_id q \<and> q = claim_row cfg now (recover_lease now r0)
           \<and> due cutoff (recover_lease now r0)"
    and "ot_next_id (fst s) = ot_next_id t"
proof -
  let ?rs = "recover_leases now (ot_rows t)"
  obtain r cs1 blocked reserved where r: "r \<in> set ?rs"
    "candidate cfg cutoff now sts sds (map circuit_key_string blocked) ?rs r"
    and q: "q = claim_row cfg now r"
    and rows: "ot_rows t' = map (\<lambda>s. if ob_id s = ob_id r then claim_row cfg now s else s) ?rs"
    and nid: "ot_next_id t' = ot_next_id t"
    by (rule claimOne_Some [OF assms(1)])
  from r(1) obtain r0 where r0: "r0 \<in> set (ot_rows t)" "r = recover_lease now r0"
    by (auto simp: recover_leases_def)
  have uniq: "s = r0" if "s \<in> set (ot_rows t)" "ob_id s = ob_id q" for s
    using assms(2) that r0 inj_on_eq_iff [of ob_id "set (ot_rows t)" s r0]
    by (auto simp: ids_wf_def distinct_map q)
  have rows': "ot_rows t' = map (\<lambda>s. if ob_id s = ob_id q then q else recover_lease now s) (ot_rows t)"
    using uniq by (auto simp: rows recover_leases_def q r0(2))
  have holds: "holds_lease cfg q (if ob_id s = ob_id q then q else recover_lease now s)
      \<longleftrightarrow> ob_id s = ob_id q" for s
    by (auto simp: holds_lease_def q claim_row_def)
  have holds_q: "s = q" if "s \<in> set (ot_rows t')" "holds_lease cfg q s" for s
    using that by (auto simp: rows' holds_lease_def)
  have one: "length (filter (holds_lease cfg q) (ot_rows t')) = 1"
  proof -
    have "filter (\<lambda>s. ob_id s = ob_id r0) (ot_rows t) = [r0]"
      using assms(2) r0(1) by (intro filter_key_unique) (simp_all add: ids_wf_def)
    then show ?thesis by (simp add: rows' filter_map o_def holds) (simp add: q r0(2))
  qed
  have settle: "map (\<lambda>s. if holds_lease cfg q s then settled_row cfg delay now' err q else s) (ot_rows t') =
    map (\<lambda>r. if holds_lease cfg q r
          then (case err of
             None \<Rightarrow> r\<lparr>ob_status := Delivered, ob_delivered_at := Some now',
               ob_last_error := None, ob_worker_id := None, ob_lease_until := None\<rparr>
           | Some e \<Rightarrow> r\<lparr>ob_last_error := Some e, ob_next_attempt_at := now' + delay (ob_attempts q),
               ob_status := (if oc_maxAttempts cfg \<le> ob_attempts q then Failed else Pending),
               ob_worker_id := None, ob_lease_until := None\<rparr>)
          else r) (ot_rows t')"
    by (rule map_cong) (auto simp: settled_row_def split: option.splits dest: holds_q)
  show ?thesis
  proof (rule that)
    show "finalizeClaim cfg delay now' q err (t', cs') = Inr (t'\<lparr>ot_rows :=
        map (\<lambda>s. if holds_lease cfg q s then settled_row cfg delay now' err q else s) (ot_rows t')\<rparr>,
        case err of None \<Rightarrow> fst (recordCircuitSuccess cfg (en_TenantID q, en_Destination q) now' cs')
        | Some e \<Rightarrow> fst (recordCircuitFailure cfg (en_TenantID q, en_Destination q) e now' cs'))"
      using one settle by (simp add: finalizeClaim_def split: option.splits)
  qed (use r0 r(2) holds in \<open>auto simp: rows' q nid candidate_def intro!: bexI [of _ r0]\<close>)
qed

section \<open>The circuits across a claim\<close>

lemma reserveHalfOpenProbes_keys:
  "reserveHalfOpenProbes cfg now cs = (cs1, blocked, reserved) \<Longrightarrow> map fst cs1 = map fst cs"
  by (auto simp: reserveHalfOpenProbes_def split: if_splits)

lemma releaseUnclaimedHalfOpenProbes_keys:
  "map fst (releaseUnclaimedHalfOpenProbes reserved claimed now cs) = map fst cs"
  by (auto simp: releaseUnclaimedHalfOpenProbes_def)

lemma claimOne_circuit_keys:
  "map fst (snd (fst (claimOne cfg cutoff now sts sds (t, cs)))) = map fst cs"
  by (auto simp: claimOne_def Let_def releaseUnclaimedHalfOpenProbes_keys
      split: prod.splits option.splits dest: reserveHalfOpenProbes_keys)

lemma set_upd_circuit: "fst ` set (upd_circuit k c cs) = insert k (fst ` set cs)"
proof (induction cs)
  case (Cons a cs)
  then show ?case by (cases a; cases "k = fst a") auto
qed simp

lemma upd_circuit_distinct: "distinct (map fst cs) \<Longrightarrow> distinct (map fst (upd_circuit k c cs))"
proof (induction cs)
  case (Cons a cs)
  have "fst a \<notin> fst ` set (upd_circuit k c cs)" if "fst a \<noteq> k"
    using Cons.prems that by (simp add: set_upd_circuit)
  with Cons show ?case by (cases a) auto
qed simp

lemma finalizeClaim_circuits_distinct:
  assumes "finalizeClaim cfg delay now claim err (t, cs) = Inr s" and "distinct (map fst cs)"
  shows "distinct (map fst (snd s))"
  using assms
  by (auto simp: finalizeClaim_def Let_def recordCircuitFailure_def recordCircuitSuccess_def
      upd_circuit_distinct split: if_splits option.splits)

text \<open>The circuits that keep a claim away from their tenant and destination.\<close>

definition circuit_blocks :: "gotime \<Rightarrow> outboxCircuit \<Rightarrow> bool" where
  "circuit_blocks now c =
     (ci_state c = CircuitHalfOpen \<or> ci_state c = CircuitOpen \<and> now < ci_openUntil c)"

lemma reserve_probe_blocked: "fst (snd (reserve_probe now c)) \<longleftrightarrow> circuit_blocks now c"
  by (auto simp: reserve_probe_def circuit_blocks_def split: CircuitState.splits)

lemma reserve_probe_reserved: "snd (snd (reserve_probe now c)) \<Longrightarrow> \<not> circuit_blocks now c"
  by (auto simp: reserve_probe_def circuit_blocks_def split: CircuitState.splits if_splits)

lemma reserve_probe_blocked_same: "circuit_blocks now c \<Longrightarrow> fst (reserve_probe now c) = c"
  by (auto simp: reserve_probe_def circuit_blocks_def split: CircuitState.splits)

lemma blocking_circuit_survives_release:
  assumes "reserveHalfOpenProbes cfg now cs = (cs1, blocked, reserved)" and "distinct (map fst cs)"
    and "(k, c) \<in> set cs" and "circuit_blocks now c"
  shows "(k, c) \<in> set (releaseUnclaimedHalfOpenProbes reserved claimed now cs1)"
proof -
  have "k \<notin> set reserved"
    using assms reserve_probe_reserved
    by (force simp: reserveHalfOpenProbes_def dest: eq_key_imp_eq_value split: if_splits)
  moreover have "(k, c) \<in> set cs1"
    using assms by (force simp: reserveHalfOpenProbes_def reserve_probe_blocked_same split: if_splits)
  ultimately show ?thesis
    by (force simp: releaseUnclaimedHalfOpenProbes_def)
qed

lemma blocking_circuit_survives_claim:
  assumes "distinct (map fst cs)" and "(k, c) \<in> set cs" and "circuit_blocks now c"
  shows "(k, c) \<in> set (snd (fst (claimOne cfg cutoff now sts sds (t, cs))))"
  using blocking_circuit_survives_release [OF _ assms]
  by (auto simp: claimOne_def Let_def split: prod.splits option.splits)

section \<open>What a finished pass leaves behind\<close>

text \<open>
  The reasons for which a due row may stay unclaimed at the end of a pass: the in-flight cap of
  its destination or of its tenant is reached by live leases, or a circuit of its key is open
  or probing.
\<close>

definition held_back :: "outbox_config \<Rightarrow> gotime \<Rightarrow> 'p worker_state \<Rightarrow> 'p outbox_row \<Rightarrow> bool" where
  "held_back cfg now s r =
     (oc_maxInFlightPerDestination cfg \<le> in_flight_destination now (en_Destination r) (ot_rows (fst s))
      \<or> oc_maxInFlightPerTenant cfg \<le> in_flight_tenant now (en_TenantID r) (ot_rows (fst s))
      \<or> list_ex (\<lambda>(k, c). circuit_key_string k = circuit_key_string (en_TenantID r, en_Destination r)
                    \<and> circuit_blocks now c) (snd s))"

lemma reserveHalfOpenProbes_blocking:
  "reserveHalfOpenProbes cfg now cs = (cs1, blocked, reserved) \<Longrightarrow> k \<in> set blocked \<Longrightarrow>
   \<exists>c. (k, c) \<in> set cs \<and> circuit_blocks now c"
  by (force simp: reserveHalfOpenProbes_def reserve_probe_blocked split: if_splits)

lemma claimOne_None_held_back:
  assumes none: "claimOne cfg cutoff now [] [] (t, cs) = (s', None)" and dist: "distinct (map fst cs)"
    and r: "r \<in> set (ot_rows (fst s'))" "due cutoff r"
  shows "held_back cfg now s' r"
proof -
  obtain cs1 blocked reserved where pr: "reserveHalfOpenProbes cfg now cs = (cs1, blocked, reserved)"
    by (metis prod_cases3)
  let ?rs = "recover_leases now (ot_rows t)"
  let ?same = "\<lambda>q. due cutoff q \<and> en_TenantID q = en_TenantID r \<and> en_Destination q = en_Destination r"
  have s': "s' = (t\<lparr>ot_rows := ?rs\<rparr>, releaseUnclaimedHalfOpenProbes reserved ('''', '''') now cs1)"
    and nocand: "q \<in> set ?rs \<Longrightarrow> \<not> candidate cfg cutoff now [] [] (map circuit_key_string blocked) ?rs q" for q
    using none pr by (auto simp: claimOne_def Let_def first_row_None filter_empty_conv split: option.splits)
  have "r \<in> set (filter ?same ?rs)" using r by (simp add: s')
  then obtain m where m: "first_row (filter ?same ?rs) = Some m"
    using first_row_None [of "filter ?same ?rs"] by (cases "first_row (filter ?same ?rs)") (auto simp: filter_empty_conv)
  have m_in: "m \<in> set ?rs" "?same m" using first_row_in [OF m] by auto
  have least: "\<not> row_before q m" if "q \<in> set ?rs" "?same q" for q
    using first_row_least [OF m, of q] that by simp
  show ?thesis
  proof (rule ccontr)
    assume free: "\<not> held_back cfg now s' r"
    have "circuit_key_string (en_TenantID r, en_Destination r) \<notin> circuit_key_string ` set blocked"
      using free reserveHalfOpenProbes_blocking [OF pr]
        blocking_circuit_survives_release [OF pr dist, where claimed = "('''', '''')"]
      by (fastforce simp: held_back_def s' list_ex_iff)
    then have "candidate cfg cutoff now [] [] (map circuit_key_string blocked) ?rs m"
      using m_in least free by (auto simp: candidate_def held_back_def s' list_ex_iff)
    with nocand m_in show False by blast
  qed
qed

lemma claimOne_None_table:
  assumes "claimOne cfg cutoff now sts sds (t, cs) = ((t', cs'), None)" and "ids_wf t"
  shows "ids_wf t'" and "table_work cfg cutoff' t' \<le> table_work cfg cutoff' t"
proof -
  have t': "t' = t\<lparr>ot_rows := recover_leases now (ot_rows t)\<rparr>"
    using assms(1) by (auto simp: claimOne_def Let_def split: prod.splits option.splits)
  then show "ids_wf t'" using assms(2) by (auto simp: ids_wf_def recover_leases_def o_def)
  show "table_work cfg cutoff' t' \<le> table_work cfg cutoff' t"
    by (simp add: t' table_work_def recover_leases_def o_def sum_list_mono row_work_recover)
qed

lemma settled_row_work:
  assumes "due cutoff r"
  shows "row_work cfg cutoff (settled_row cfg delay now' err (claim_row cfg now r)) < row_work cfg cutoff r"
  using assms by (auto simp: row_work_def settled_row_def claim_row_def due_def split: option.splits)

lemma claim_finalize_progress:
  assumes claim: "claimOne cfg cutoff now sts sds (t, cs) = ((t', cs'), Some q)" and "ids_wf t"
  obtains t2 cs2 where "finalizeClaim cfg delay now' q err (t', cs') = Inr (t2, cs2)"
    and "ids_wf t2" and "table_work cfg cutoff t2 < table_work cfg cutoff t"
proof -
  let ?f = "\<lambda>r. if ob_id r = ob_id q then settled_row cfg delay now' err q else recover_lease now r"
  obtain s r0 where fin: "finalizeClaim cfg delay now' q err (t', cs') = Inr s"
    and rows: "ot_rows (fst s) = map ?f (ot_rows t)"
    and nid: "ot_next_id (fst s) = ot_next_id t"
    and r0: "r0 \<in> set (ot_rows t)" "ob_id r0 = ob_id q"
      "q = claim_row cfg now (recover_lease now r0)" "due cutoff (recover_lease now r0)"
    by (rule claim_finalize_rows [OF assms]) blast
  have ids: "map ob_id (ot_rows (fst s)) = map ob_id (ot_rows t)"
    by (simp add: rows settled_row_def split: option.splits)
  have id_set: "ob_id ` set (ot_rows (fst s)) = ob_id ` set (ot_rows t)"
    using ids by (metis list.set_map)
  have uniq: "r = r0" if "r \<in> set (ot_rows t)" "ob_id r = ob_id q" for r
    using assms(2) that r0(1,2) inj_on_eq_iff [of ob_id "set (ot_rows t)" r r0]
    by (auto simp: ids_wf_def distinct_map)
  have "row_work cfg cutoff (settled_row cfg delay now' err q) < row_work cfg cutoff (recover_lease now r0)"
    by (subst r0(3)) (rule settled_row_work [OF r0(4)])
  then have less0: "row_work cfg cutoff (?f r0) < row_work cfg cutoff r0"
    using row_work_recover [of cfg cutoff now r0] r0(2) by simp
  have "table_work cfg cutoff (fst s) < table_work cfg cutoff t"
    unfolding table_work_def rows map_map o_def
    using uniq less0 row_work_recover by (intro sum_list_strict_at [OF _ r0(1)]) fastforce+
  moreover have "ids_wf (fst s)"
    using assms(2) ids id_set unfolding ids_wf_def nid by (metis imageE image_eqI)
  ultimately show ?thesis using fin by (intro that [of "fst s" "snd s"]) simp_all
qed

lemma Dispatch_loop_drains:
  assumes "ids_wf t" and "distinct (map fst cs)"
    and "2 * table_work cfg cutoff t + (if sts = [] \<and> sds = [] then 1 else 2) \<le> fuel"
  shows "\<exists>s' k i. Dispatch_loop fuel cfg env cutoff sts sds p n (t, cs) = Some (s', p + k, None)
     \<and> k \<le> table_work cfg cutoff t \<and> (outbox_step cfg)\<^sup>*\<^sup>* (t, cs) s'
     \<and> (\<forall>r \<in> set (ot_rows (fst s')). due cutoff r \<longrightarrow> held_back cfg (we_clock env i) s' r)"
  using assms
proof (induction fuel arbitrary: sts sds p n t cs)
  case 0
  then show ?case by (simp split: if_splits)
next
  case (Suc fuel)
  obtain t1 cs1 cl where claim: "claimOne cfg cutoff (we_clock env n) sts sds (t, cs) = ((t1, cs1), cl)"
    by (metis prod_cases3 surj_pair)
  then have step1: "outbox_step cfg (t, cs) (t1, cs1)"
    by (metis fst_conv outbox_step.step_claim)
  have dist1: "distinct (map fst cs1)"
    using claimOne_circuit_keys [of cfg cutoff "we_clock env n" sts sds t cs] Suc.prems(2)
    by (simp add: claim)
  show ?case
  proof (cases cl)
    case None
    note wf1 = claimOne_None_table(1) [OF claim [unfolded None] Suc.prems(1)]
    note le1 = claimOne_None_table(2) [OF claim [unfolded None] Suc.prems(1), of cutoff]
    show ?thesis
    proof (cases "sts = [] \<and> sds = []")
      case True
      with claim None Suc.prems(2) step1 show ?thesis
        by (intro exI [of _ "(t1, cs1)"] exI [of _ 0] exI [of _ n])
          (auto intro: claimOne_None_held_back)
    next
      case False
      with Suc.prems(3) le1 have "2 * table_work cfg cutoff t1 + 1 \<le> fuel" by auto
      from Suc.IH [of t1 cs1 "[]" "[]" p "Suc n"] this wf1 dist1 obtain s' k i where
        "Dispatch_loop fuel cfg env cutoff [] [] p (Suc n) (t1, cs1) = Some (s', p + k, None)"
        "k \<le> table_work cfg cutoff t1" "(outbox_step cfg)\<^sup>*\<^sup>* (t1, cs1) s'"
        "\<forall>r \<in> set (ot_rows (fst s')). due cutoff r \<longrightarrow> held_back cfg (we_clock env i) s' r"
        by auto
      with claim None False le1 step1 show ?thesis
        by (intro exI [of _ s'] exI [of _ k] exI [of _ i]) (auto intro: converse_rtranclp_into_rtranclp)
    qed
  next
    case (Some q)
    let ?err = "fst (deliver (we_dur_string env) cfg (we_handler env n q))"
    obtain t2 cs2 where fin: "finalizeClaim cfg (we_delay env n) (we_clock env (Suc n)) q ?err (t1, cs1) = Inr (t2, cs2)"
      and wf2: "ids_wf t2" and less: "table_work cfg cutoff t2 < table_work cfg cutoff t"
      by (rule claim_finalize_progress [OF claim [unfolded Some] Suc.prems(1)])
    have dist2: "distinct (map fst cs2)"
      using finalizeClaim_circuits_distinct [OF fin dist1] by simp
    have step2: "outbox_step cfg (t1, cs1) (t2, cs2)"
      using fin by (rule outbox_step.step_finalize)
    let ?sts = "List.insert (en_TenantID q) sts" and ?sds = "List.insert (en_Destination q) sds"
    have "2 * table_work cfg cutoff t2 + (if ?sts = [] \<and> ?sds = [] then 1 else 2) \<le> fuel"
      using Suc.prems(3) less by (simp split: if_splits)
    from Suc.IH [OF wf2 dist2 this, of "Suc p" "n + 2"] obtain s' k i where
      "Dispatch_loop fuel cfg env cutoff ?sts ?sds (Suc p) (n + 2) (t2, cs2) = Some (s', Suc p + k, None)"
      "k \<le> table_work cfg cutoff t2" "(outbox_step cfg)\<^sup>*\<^sup>* (t2, cs2) s'"
      "\<forall>r \<in> set (ot_rows (fst s')). due cutoff r \<longrightarrow> held_back cfg (we_clock env i) s' r"
      by blast
    with claim Some fin less step1 step2 show ?thesis
      by (intro exI [of _ s'] exI [of _ "Suc k"] exI [of _ i])
        (auto intro: converse_rtranclp_into_rtranclp)
  qed
qed

section \<open>Properties\<close>

text \<open>C7: A dispatch pass always ends and drains the backlog. Whatever the handler, the jitter and
  the clock answer, the loop returns without an error after at most one delivery per attempt a row
  has left (one for a row that was left pending with none), its run is one of claims and finalizations of the outbox, and every row that is still
  due at the cutoff is held back by an in-flight cap or by a circuit that is open or probing. Twice
  the remaining work plus one iterations are enough.
\<close>

theorem Dispatch_drains:
  assumes "ids_wf t" and "distinct (map fst cs)" and "2 * table_work cfg (we_clock env 0) t < fuel"
  shows "\<exists>s' k i. Dispatch fuel cfg env (t, cs) = Some (s', k, None)
     \<and> k \<le> table_work cfg (we_clock env 0) t \<and> (outbox_step cfg)\<^sup>*\<^sup>* (t, cs) s'
     \<and> (\<forall>r \<in> set (ot_rows (fst s')). due (we_clock env 0) r \<longrightarrow> held_back cfg (we_clock env i) s' r)"
  using Dispatch_loop_drains [OF assms(1,2), of cfg "we_clock env 0" "[]" "[]" fuel env 0 1] assms(3)
  by (simp add: Dispatch_def)

definition witness_env :: "string worker_env" where
  "witness_env = \<lparr>we_clock = (\<lambda>n. 5 + int n),
     we_handler = (\<lambda>n r. \<lparr>dv_err = None, dv_err_is_deadline = False, dv_deadline_passed = False,
                           dv_parent_done = False\<rparr>),
     we_delay = (\<lambda>n k. 0), we_dur_string = (\<lambda>d. '''')\<rparr>"

theorem Dispatch_drains_witness:
  "\<exists>s' k. Dispatch 30 (NewOutbox ''w'' []) witness_env
             (fst (Enqueue 0 witness_entry empty_outbox), []) = Some (s', k, None) \<and> k \<le> 10"
proof -
  let ?t = "fst (Enqueue 0 witness_entry empty_outbox)"
  have wf: "ids_wf ?t" by (simp add: ids_wf_def Enqueue_def empty_outbox_def)
  have work: "table_work (NewOutbox ''w'' []) (we_clock witness_env 0) ?t = 10"
    by (simp add: table_work_def row_work_def Enqueue_def empty_outbox_def new_row_def due_def
        witness_env_def NewOutbox_def default_outbox_config_def)
  show ?thesis
    using Dispatch_drains [OF wf, of "[]" "NewOutbox ''w'' []" witness_env 30] unfolding work by auto
qed

text \<open>
  A circuit that waits for the result of its probe lets nothing through: as long as it is half
  open, every claim leaves it as it is and claims no row of its tenant and destination. Only a
  finalization of one of its rows changes it, and one that finds the lease lost does not.
\<close>

theorem half_open_stuck:
  assumes "0 < oc_circuitFailureThreshold cfg" and "distinct (map fst cs)"
    and "map_of cs k = Some c" and "ci_state c = CircuitHalfOpen"
  shows "map_of (snd (fst (claimOne cfg cutoff now sts sds (t, cs)))) k = Some c
    \<and> (\<forall>q. snd (claimOne cfg cutoff now sts sds (t, cs)) = Some q \<longrightarrow> (en_TenantID q, en_Destination q) \<noteq> k)"
proof
  have blocks: "circuit_blocks now c" using assms(4) by (simp add: circuit_blocks_def)
  show "map_of (snd (fst (claimOne cfg cutoff now sts sds (t, cs)))) k = Some c"
    using blocking_circuit_survives_claim [OF assms(2) map_of_SomeD [OF assms(3)] blocks] assms(2)
    by (simp add: claimOne_circuit_keys)
  show "\<forall>q. snd (claimOne cfg cutoff now sts sds (t, cs)) = Some q \<longrightarrow> (en_TenantID q, en_Destination q) \<noteq> k"
  proof (intro allI impI notI)
    fix q
    assume q: "snd (claimOne cfg cutoff now sts sds (t, cs)) = Some q" "(en_TenantID q, en_Destination q) = k"
    then obtain t' cs' where "claimOne cfg cutoff now sts sds (t, cs) = ((t', cs'), Some q)"
      by (metis prod.collapse)
    then obtain r cs1 blocked reserved where
      pr: "reserveHalfOpenProbes cfg now cs = (cs1, blocked, reserved)" and
      cand: "candidate cfg cutoff now sts sds (map circuit_key_string blocked) (recover_leases now (ot_rows t)) r"
      and "q = claim_row cfg now r"
      by (rule claimOne_Some)
    moreover have "k \<in> set blocked"
      using reserveHalfOpenProbes_blocked [OF pr assms(1,3)] assms(4) by blast
    ultimately show False using q(2) by (force simp: candidate_def)
  qed
qed

end
