(* ===== verification/AcmePolicy.thy ===== *)
theory AcmePolicy
  imports Prelude
begin

text \<open>
  The pre-issuance policies of the ACME server (\<^verbatim>\<open>internal/protocols/acme\<close>): the CAA check, the
  wildcard rule, the choice of the validation method and the dispatch to the validators. The DNS
  resolver and the validators are parameters; a lookup that fails is \<open>None\<close>. \<^verbatim>\<open>strings.EqualFold\<close> is
  equality after \<open>to_lower\<close>, which agrees with Go on ASCII.
\<close>

section \<open>CAA\<close>

record CAARecord =
  ca_Flag :: nat
  ca_Tag :: string
  ca_Value :: string

datatype acme_error =
    NoResolver | CAALookup string | CAANoIssuer string | CAANotAuthorized string
  | WildcardNotPermitted string | WildcardNeedsDNS01 string string | UnknownMethod string
  | UnmanagedZone string | UnknownChallenge string | NotConfigured string | ValidationFailed

type_synonym caa_resolver = "string \<Rightarrow> CAARecord list option"

definition authorizes :: "string \<Rightarrow> string \<Rightarrow> bool" where
  "authorizes issuer v =
     (let f0 = trim_space v;
          field = (case index_byte f0 CHR '';'' of None \<Rightarrow> f0 | Some i \<Rightarrow> trim_space (take i f0))
      in if field = '''' then False else to_lower field = to_lower issuer)"

definition caa_evaluate :: "string \<Rightarrow> string \<Rightarrow> CAARecord list \<Rightarrow> bool \<Rightarrow> acme_error option" where
  "caa_evaluate issuer name records wildcard =
     (let issue = filter (\<lambda>r. to_lower (ca_Tag r) = ''issue'') records;
          issuewild = filter (\<lambda>r. to_lower (ca_Tag r) = ''issuewild'') records;
          relevant = (if wildcard \<and> issuewild \<noteq> [] then issuewild else issue)
      in if relevant = [] then Some (CAANoIssuer name)
         else if list_ex (\<lambda>r. authorizes issuer (ca_Value r)) relevant then None
         else Some (CAANotAuthorized name))"

fun caa_walk :: "caa_resolver \<Rightarrow> string \<Rightarrow> bool \<Rightarrow> string list \<Rightarrow> acme_error option" where
  "caa_walk res issuer wildcard [] = None"
| "caa_walk res issuer wildcard (l # ls) =
     (let name = join_with ''.'' (l # ls)
      in case res name of
           None \<Rightarrow> Some (CAALookup name)
         | Some records \<Rightarrow>
             if records = [] then caa_walk res issuer wildcard ls
             else caa_evaluate issuer name records wildcard)"

definition CAA_Check :: "caa_resolver option \<Rightarrow> string \<Rightarrow> string \<Rightarrow> bool \<Rightarrow> acme_error option" where
  "CAA_Check resolver issuer domain wildcard =
     (case resolver of
        None \<Rightarrow> Some NoResolver
      | Some res \<Rightarrow>
          caa_walk res issuer wildcard (split_byte CHR ''.'' (trim_suffix (trim_prefix domain ''*.'') ''.'')))"

section \<open>Wildcards and validation methods\<close>

definition ChallengeHTTP01 :: string where "ChallengeHTTP01 = ''http-01''"
definition ChallengeDNS01 :: string where "ChallengeDNS01 = ''dns-01''"
definition ChallengeTLSALPN01 :: string where "ChallengeTLSALPN01 = ''tls-alpn-01''"

lemmas challenge_defs = ChallengeHTTP01_def ChallengeDNS01_def ChallengeTLSALPN01_def

definition IsWildcard :: "string \<Rightarrow> bool" where
  "IsWildcard domain = has_prefix domain ''*.''"

definition CheckWildcard :: "bool \<Rightarrow> string \<Rightarrow> string \<Rightarrow> acme_error option" where
  "CheckWildcard allowWildcards domain meth =
     (if \<not> IsWildcard domain then None
      else if \<not> allowWildcards then Some (WildcardNotPermitted domain)
      else if meth \<noteq> ChallengeDNS01 then Some (WildcardNeedsDNS01 domain meth)
      else None)"

record MethodContext =
  mc_Domain :: string
  mc_Wildcard :: bool
  mc_Port80Reachable :: bool
  mc_DNSManaged :: bool
  mc_Override :: string

definition knownMethod :: "string \<Rightarrow> bool" where
  "knownMethod m = (m \<in> {ChallengeHTTP01, ChallengeDNS01, ChallengeTLSALPN01})"

text \<open>\<^verbatim>\<open>SelectMethod\<close> without its rationale text.\<close>

definition SelectMethod :: "MethodContext \<Rightarrow> acme_error + string" where
  "SelectMethod c =
     (if mc_Override c \<noteq> ''''
      then (if knownMethod (mc_Override c) then Inr (mc_Override c) else Inl (UnknownMethod (mc_Override c)))
      else if mc_Wildcard c
      then (if mc_DNSManaged c then Inr ChallengeDNS01 else Inl (UnmanagedZone (mc_Domain c)))
      else if \<not> mc_Port80Reachable c
      then (if mc_DNSManaged c then Inr ChallengeDNS01 else Inr ChallengeTLSALPN01)
      else Inr ChallengeHTTP01)"

type_synonym validator = "string \<Rightarrow> string \<Rightarrow> string \<Rightarrow> string \<Rightarrow> acme_error option"

record Validators =
  vs_HTTP01 :: "validator option"
  vs_DNS01 :: "validator option"
  vs_TLSALPN01 :: "validator option"

definition Validate_challenge :: "Validators \<Rightarrow> string \<Rightarrow> string \<Rightarrow> string \<Rightarrow> string \<Rightarrow> acme_error option" where
  "Validate_challenge m challengeType domain token keyAuth =
     (case (if challengeType = ChallengeHTTP01 then Some (vs_HTTP01 m)
            else if challengeType = ChallengeDNS01 then Some (vs_DNS01 m)
            else if challengeType = ChallengeTLSALPN01 then Some (vs_TLSALPN01 m)
            else None) of
        None \<Rightarrow> Some (UnknownChallenge challengeType)
      | Some None \<Rightarrow> Some (NotConfigured challengeType)
      | Some (Some v) \<Rightarrow> v challengeType domain token keyAuth)"

section \<open>What the CAA check decides\<close>

text \<open>The names from the domain up to its last label, and the record set that governs one of them.\<close>

fun ancestors :: "string list \<Rightarrow> string list" where
  "ancestors [] = []"
| "ancestors (l # ls) = join_with ''.'' (l # ls) # ancestors ls"

definition caa_names :: "string \<Rightarrow> string list" where
  "caa_names domain = ancestors (split_byte CHR ''.'' (trim_suffix (trim_prefix domain ''*.'') ''.''))"

definition governing :: "caa_resolver \<Rightarrow> string \<Rightarrow> string option" where
  "governing res domain = find (\<lambda>n. res n \<noteq> Some []) (caa_names domain)"

definition tagged :: "string \<Rightarrow> CAARecord list \<Rightarrow> bool" where
  "tagged tag records = (\<exists>r \<in> set records. to_lower (ca_Tag r) = tag)"

definition grants :: "string \<Rightarrow> bool \<Rightarrow> CAARecord list \<Rightarrow> bool" where
  "grants issuer wildcard records =
     (let tag = (if wildcard \<and> tagged ''issuewild'' records then ''issuewild'' else ''issue'')
      in \<exists>r \<in> set records. to_lower (ca_Tag r) = tag \<and> authorizes issuer (ca_Value r))"

lemma caa_evaluate_None: "caa_evaluate issuer name records wildcard = None \<longleftrightarrow> grants issuer wildcard records"
  by (auto simp: caa_evaluate_def Let_def grants_def tagged_def list_ex_iff filter_empty_conv)

lemma caa_walk_None:
  "caa_walk res issuer wildcard ls = None \<longleftrightarrow>
     (case find (\<lambda>n. res n \<noteq> Some []) (ancestors ls) of
        None \<Rightarrow> True
      | Some n \<Rightarrow> (\<exists>records. res n = Some records \<and> grants issuer wildcard records))"
proof (induction ls)
  case (Cons l ls)
  show ?case
  proof (cases "res (join_with ''.'' (l # ls))")
    case (Some records)
    with Cons show ?thesis by (cases "records = []") (auto simp: Let_def caa_evaluate_None simp del: join_with.simps)
  qed (simp add: Let_def del: join_with.simps)
qed simp

text \<open>
  The CAA check follows the closest record set. With a resolver, issuance is allowed exactly
  when no name from the domain up to its last label publishes a CAA set, or the first name whose
  lookup does not come back empty was looked up without error and its set names the issuer in an
  \<open>issue\<close> property, or for a wildcard request in an \<open>issuewild\<close> property as soon as the set has one;
  a failed lookup before that and a missing resolver refuse.
\<close>

theorem CAA_Check_correct:
  "CAA_Check None issuer domain wildcard = Some NoResolver
   \<and> (CAA_Check (Some res) issuer domain wildcard = None \<longleftrightarrow>
        (case governing res domain of
           None \<Rightarrow> True
         | Some n \<Rightarrow> (\<exists>records. res n = Some records \<and> grants issuer wildcard records)))"
  unfolding CAA_Check_def governing_def caa_names_def by (simp add: caa_walk_None)

text \<open>A set that only asks for reports refuses every issuer, although RFC 8659 lets it restrict nobody.\<close>

lemma iodef_only_refuses:
  assumes "res ''example.com'' = Some [\<lparr>ca_Flag = 0, ca_Tag = ''iodef'', ca_Value = ''mailto:a@example.com''\<rparr>]"
  shows "CAA_Check (Some res) issuer ''example.com'' wildcard = Some (CAANoIssuer ''example.com'')"
  using assms by (simp add: CAA_Check_def trim_prefix_def has_prefix_def trim_suffix_def has_suffix_def
      caa_evaluate_def to_lower_def lower_char_def)

text \<open>A critical property the checker does not know is skipped: the flag never matters.\<close>

lemma critical_flag_ignored:
  "caa_evaluate issuer name (map (\<lambda>r. r\<lparr>ca_Flag := f r\<rparr>) records) wildcard = caa_evaluate issuer name records wildcard"
  by (simp add: caa_evaluate_def Let_def filter_map comp_def list_ex_iff)

text \<open>Without an override the chosen method suits a wildcard; with one it need not.\<close>

lemma SelectMethod_wildcard:
  assumes "mc_Wildcard c" and "mc_Override c = ''''" and "SelectMethod c = Inr m"
  shows "CheckWildcard True domain m = None"
  using assms by (auto simp: SelectMethod_def CheckWildcard_def split: if_splits)

lemma SelectMethod_override_unchecked:
  "\<exists>c m. mc_Wildcard c \<and> SelectMethod c = Inr m \<and> m \<noteq> ChallengeDNS01"
  by (intro exI [of _ "\<lparr>mc_Domain = ''*.a'', mc_Wildcard = True, mc_Port80Reachable = True, mc_DNSManaged = False, mc_Override = ''http-01''\<rparr>"]
      exI [of _ "''http-01''"])
    (simp add: SelectMethod_def knownMethod_def challenge_defs)

end
