(* ===== verification/Profile.thy ===== *)
theory Profile
  imports Prelude
begin

text \<open>
  Certificate profiles (\<^verbatim>\<open>internal/profile/profile.go\<close>): the rules a profile carries and the check of
  an issuance request against them. Parsing IP addresses and CIDR prefixes and testing membership
  (\<^verbatim>\<open>net/netip\<close>), and the classification of algorithm labels, are parameters.
\<close>

section \<open>Profiles and requests\<close>

record CertificateProfile =
  cp_Name :: string
  cp_Version :: int
  cp_RequiresApproval :: bool
  cp_AllowedKeyAlgorithms :: "string list"
  cp_MinRSABits :: int
  cp_MinECDSABits :: int
  cp_AllowedEKUs :: "string list"
  cp_MaxValidity :: duration
  cp_AllowedProtocols :: "string list"
  cp_ACMEAuthMode :: string
  cp_AllowedDNSSuffixes :: "string list"
  cp_AllowedIPCIDRs :: "string list"
  cp_AllowedEmailDomains :: "string list"
  cp_AllowedURIPrefixes :: "string list"

record Request =
  pr_KeyAlgorithm :: string
  pr_KeyBits :: int
  pr_RequestedEKUs :: "string list"
  pr_TTL :: duration
  pr_DNSNames :: "string list"
  pr_IPAddresses :: "string list"
  pr_EmailAddresses :: "string list"
  pr_URIs :: "string list"
  pr_Protocol :: string

record ('a, 'p) netip =
  ni_ParseAddr :: "string \<Rightarrow> 'a option"
  ni_ParsePrefix :: "string \<Rightarrow> 'p option"
  ni_Contains :: "'p \<Rightarrow> 'a \<Rightarrow> bool"

datatype profile_error =
    ProtocolNotPermitted string | KeyAlgorithmNotAllowed string | RSATooSmall int | ECDSATooSmall int
  | EKUNotAllowed string | ValidityTooLong duration | InvalidCIDRPolicy string | InvalidIP string
  | DNSNotPermitted string | IPNotPermitted string | EmailNotPermitted string | URINotPermitted string
  | UnsupportedAuthMode string | UnknownAlgorithm string | NotSignatureAlgorithm string

definition NormalizeACMEAuthMode :: "string \<Rightarrow> profile_error + string" where
  "NormalizeACMEAuthMode mode =
     (let m = trim_space mode
      in if m = '''' then Inr ''public_trust''
         else if m = ''public_trust'' \<or> m = ''trust_authenticated'' then Inr m
         else Inl (UnsupportedAuthMode mode))"

text \<open>\<open>classify\<close> is \<^verbatim>\<open>crypto.ClassifyAlgorithmLabel\<close>: the primitive's kind, or an error.\<close>

fun check_labels :: "(string \<Rightarrow> string option) \<Rightarrow> string list \<Rightarrow> profile_error option" where
  "check_labels classify [] = None"
| "check_labels classify (l # ls) =
     (case classify l of
        None \<Rightarrow> Some (UnknownAlgorithm l)
      | Some kind \<Rightarrow> if kind \<noteq> ''signature'' then Some (NotSignatureAlgorithm l) else check_labels classify ls)"

definition ValidateDefinition :: "(string \<Rightarrow> string option) \<Rightarrow> CertificateProfile \<Rightarrow> profile_error option" where
  "ValidateDefinition classify p =
     (case NormalizeACMEAuthMode (cp_ACMEAuthMode p) of
        Inl err \<Rightarrow> Some err
      | Inr _ \<Rightarrow> check_labels classify (cp_AllowedKeyAlgorithms p))"

section \<open>Name constraints\<close>

definition norm_dns :: "string \<Rightarrow> string" where
  "norm_dns dns = trim_suffix (to_lower (trim_space dns)) ''.''"

definition norm_suffix :: "string \<Rightarrow> string" where
  "norm_suffix suf = trim_suffix (to_lower (trim_space (trim_prefix suf ''.''))) ''.''"

fun suffix_loop :: "string \<Rightarrow> string list \<Rightarrow> bool" where
  "suffix_loop dns [] = False"
| "suffix_loop dns (s # ss) =
     (let suf = norm_suffix s
      in if suf = '''' then suffix_loop dns ss
         else if dns = suf \<or> has_suffix dns (''.'' @ suf) then True
         else suffix_loop dns ss)"

definition suffixAllowed :: "string \<Rightarrow> string list \<Rightarrow> bool" where
  "suffixAllowed dns sufs = suffix_loop (norm_dns dns) sufs"

fun parseCIDRSet :: "('a, 'p) netip \<Rightarrow> string list \<Rightarrow> profile_error + 'p list" where
  "parseCIDRSet ni [] = Inr []"
| "parseCIDRSet ni (raw # rs) =
     (case ni_ParsePrefix ni (trim_space raw) of
        None \<Rightarrow> Inl (InvalidCIDRPolicy raw)
      | Some p \<Rightarrow> (case parseCIDRSet ni rs of Inl err \<Rightarrow> Inl err | Inr ps \<Rightarrow> Inr (p # ps)))"

definition ipAllowed :: "('a, 'p) netip \<Rightarrow> string \<Rightarrow> string list \<Rightarrow> profile_error + bool" where
  "ipAllowed ni raw cidrs =
     (case ni_ParseAddr ni (trim_space raw) of
        None \<Rightarrow> Inl (InvalidIP raw)
      | Some addr \<Rightarrow>
          (case parseCIDRSet ni cidrs of
             Inl err \<Rightarrow> Inl err
           | Inr pfxs \<Rightarrow> Inr (list_ex (\<lambda>p. ni_Contains ni p addr) pfxs)))"

definition emailAllowed :: "string \<Rightarrow> string list \<Rightarrow> bool" where
  "emailAllowed email domains =
     (case last_index_byte email CHR ''@'' of
        None \<Rightarrow> False
      | Some at \<Rightarrow> if at = 0 \<or> at = length email - 1 then False else suffixAllowed (drop (at + 1) email) domains)"

definition uriPrefixAllowed :: "string \<Rightarrow> string list \<Rightarrow> bool" where
  "uriPrefixAllowed uri pfxs =
     list_ex (\<lambda>p. let pfx = trim_space p in pfx \<noteq> '''' \<and> has_prefix uri pfx) pfxs"

definition hasSANPolicy :: "CertificateProfile \<Rightarrow> bool" where
  "hasSANPolicy p =
     (length (cp_AllowedDNSSuffixes p) + length (cp_AllowedIPCIDRs p)
      + length (cp_AllowedEmailDomains p) + length (cp_AllowedURIPrefixes p) > 0)"

section \<open>Validation\<close>

text \<open>A loop that returns the first error of its body.\<close>

fun first_error :: "('x \<Rightarrow> profile_error option) \<Rightarrow> 'x list \<Rightarrow> profile_error option" where
  "first_error f [] = None"
| "first_error f (x # xs) = (case f x of Some err \<Rightarrow> Some err | None \<Rightarrow> first_error f xs)"

definition or_else :: "profile_error option \<Rightarrow> profile_error option \<Rightarrow> profile_error option" where
  "or_else a b = (case a of Some err \<Rightarrow> Some err | None \<Rightarrow> b)"

text \<open>The check of one subject alternative name of a kind whose allowed values are \<open>allowed\<close>.\<close>

definition check_san ::
  "bool \<Rightarrow> string list \<Rightarrow> (string \<Rightarrow> profile_error) \<Rightarrow> (string \<Rightarrow> profile_error + bool) \<Rightarrow> string \<Rightarrow> profile_error option" where
  "check_san policy allowed err test x =
     (if allowed = [] then (if policy then Some (err x) else None)
      else case test x of
             Inl e \<Rightarrow> Some e
           | Inr ok \<Rightarrow> if ok then None else Some (err x))"

definition check_key :: "CertificateProfile \<Rightarrow> Request \<Rightarrow> profile_error option" where
  "check_key p r =
     (if pr_KeyAlgorithm r = ''RSA''
      then (if cp_MinRSABits p > 0 \<and> pr_KeyBits r < cp_MinRSABits p then Some (RSATooSmall (pr_KeyBits r)) else None)
      else if pr_KeyAlgorithm r = ''ECDSA''
      then (if cp_MinECDSABits p > 0 \<and> pr_KeyBits r < cp_MinECDSABits p then Some (ECDSATooSmall (pr_KeyBits r)) else None)
      else None)"

definition Validate :: "('a, 'p) netip \<Rightarrow> CertificateProfile \<Rightarrow> Request \<Rightarrow> profile_error option" where
  "Validate ni p r =
     (let policy = hasSANPolicy p
      in or_else (if cp_AllowedProtocols p \<noteq> [] \<and> pr_Protocol r \<noteq> '''' \<and> pr_Protocol r \<notin> set (cp_AllowedProtocols p)
                  then Some (ProtocolNotPermitted (pr_Protocol r)) else None)
        (or_else (if cp_AllowedKeyAlgorithms p \<noteq> [] \<and> pr_KeyAlgorithm r \<notin> set (cp_AllowedKeyAlgorithms p)
                  then Some (KeyAlgorithmNotAllowed (pr_KeyAlgorithm r)) else None)
        (or_else (check_key p r)
        (or_else (first_error (\<lambda>eku. if cp_AllowedEKUs p \<noteq> [] \<and> eku \<notin> set (cp_AllowedEKUs p)
                                     then Some (EKUNotAllowed eku) else None) (pr_RequestedEKUs r))
        (or_else (if cp_MaxValidity p > 0 \<and> pr_TTL r > cp_MaxValidity p then Some (ValidityTooLong (pr_TTL r)) else None)
        (or_else (if cp_AllowedIPCIDRs p = [] then None
                  else case parseCIDRSet ni (cp_AllowedIPCIDRs p) of Inl err \<Rightarrow> Some err | Inr _ \<Rightarrow> None)
        (or_else (first_error (check_san policy (cp_AllowedDNSSuffixes p) DNSNotPermitted
                    (\<lambda>x. Inr (suffixAllowed x (cp_AllowedDNSSuffixes p)))) (pr_DNSNames r))
        (or_else (first_error (check_san policy (cp_AllowedIPCIDRs p) IPNotPermitted
                    (\<lambda>x. ipAllowed ni x (cp_AllowedIPCIDRs p))) (pr_IPAddresses r))
        (or_else (first_error (check_san policy (cp_AllowedEmailDomains p) EmailNotPermitted
                    (\<lambda>x. Inr (emailAllowed x (cp_AllowedEmailDomains p)))) (pr_EmailAddresses r))
                 (first_error (check_san policy (cp_AllowedURIPrefixes p) URINotPermitted
                    (\<lambda>x. Inr (uriPrefixAllowed x (cp_AllowedURIPrefixes p)))) (pr_URIs r)))))))))))"

section \<open>What a profile permits\<close>

text \<open>A name is in a zone when it is the zone or a proper subdomain, split at a label boundary.\<close>

definition in_zone :: "string \<Rightarrow> string \<Rightarrow> bool" where
  "in_zone dns zone = (dns = zone \<or> (\<exists>labels. dns = labels @ ''.'' @ zone))"

definition dns_permitted :: "string list \<Rightarrow> string \<Rightarrow> bool" where
  "dns_permitted sufs dns = (\<exists>s \<in> set sufs. norm_suffix s \<noteq> '''' \<and> in_zone (norm_dns dns) (norm_suffix s))"

definition email_permitted :: "string list \<Rightarrow> string \<Rightarrow> bool" where
  "email_permitted domains email =
     (\<exists>local domain. email = local @ ''@'' @ domain \<and> local \<noteq> '''' \<and> domain \<noteq> '''' \<and> CHR ''@'' \<notin> set domain
        \<and> dns_permitted domains domain)"

definition ip_permitted :: "('a, 'p) netip \<Rightarrow> string list \<Rightarrow> string \<Rightarrow> bool" where
  "ip_permitted ni cidrs ip =
     (\<exists>addr. ni_ParseAddr ni (trim_space ip) = Some addr \<and>
        (\<exists>c \<in> set cidrs. \<exists>pfx. ni_ParsePrefix ni (trim_space c) = Some pfx \<and> ni_Contains ni pfx addr))"

definition uri_permitted :: "string list \<Rightarrow> string \<Rightarrow> bool" where
  "uri_permitted pfxs uri = (\<exists>p \<in> set pfxs. trim_space p \<noteq> '''' \<and> (\<exists>rest. uri = trim_space p @ rest))"

text \<open>Names of a kind with no allowed values pass only when the profile constrains no kind of name.\<close>

definition names_permitted :: "bool \<Rightarrow> string list \<Rightarrow> (string list \<Rightarrow> string \<Rightarrow> bool) \<Rightarrow> string list \<Rightarrow> bool" where
  "names_permitted policy allowed permitted names =
     (if allowed = [] then policy \<longrightarrow> names = [] else (\<forall>x \<in> set names. permitted allowed x))"

definition permits :: "('a, 'p) netip \<Rightarrow> CertificateProfile \<Rightarrow> Request \<Rightarrow> bool" where
  "permits ni p r =
     ((cp_AllowedProtocols p \<noteq> [] \<and> pr_Protocol r \<noteq> '''' \<longrightarrow> pr_Protocol r \<in> set (cp_AllowedProtocols p))
      \<and> (cp_AllowedKeyAlgorithms p \<noteq> [] \<longrightarrow> pr_KeyAlgorithm r \<in> set (cp_AllowedKeyAlgorithms p))
      \<and> (pr_KeyAlgorithm r = ''RSA'' \<and> 0 < cp_MinRSABits p \<longrightarrow> cp_MinRSABits p \<le> pr_KeyBits r)
      \<and> (pr_KeyAlgorithm r = ''ECDSA'' \<and> 0 < cp_MinECDSABits p \<longrightarrow> cp_MinECDSABits p \<le> pr_KeyBits r)
      \<and> (cp_AllowedEKUs p \<noteq> [] \<longrightarrow> set (pr_RequestedEKUs r) \<subseteq> set (cp_AllowedEKUs p))
      \<and> (0 < cp_MaxValidity p \<longrightarrow> pr_TTL r \<le> cp_MaxValidity p)
      \<and> (\<forall>c \<in> set (cp_AllowedIPCIDRs p). ni_ParsePrefix ni (trim_space c) \<noteq> None)
      \<and> names_permitted (hasSANPolicy p) (cp_AllowedDNSSuffixes p) dns_permitted (pr_DNSNames r)
      \<and> names_permitted (hasSANPolicy p) (cp_AllowedIPCIDRs p) (ip_permitted ni) (pr_IPAddresses r)
      \<and> names_permitted (hasSANPolicy p) (cp_AllowedEmailDomains p) email_permitted (pr_EmailAddresses r)
      \<and> names_permitted (hasSANPolicy p) (cp_AllowedURIPrefixes p) uri_permitted (pr_URIs r))"

section \<open>Equivalence\<close>

lemma or_else_None [simp]: "or_else a b = None \<longleftrightarrow> a = None \<and> b = None"
  by (simp add: or_else_def split: option.split)

lemma first_error_None [simp]: "first_error f xs = None \<longleftrightarrow> (\<forall>x \<in> set xs. f x = None)"
  by (induction xs) (auto split: option.split)

lemma suffix_loop_iff: "suffix_loop dns ss \<longleftrightarrow> (\<exists>s \<in> set ss. norm_suffix s \<noteq> '''' \<and> in_zone dns (norm_suffix s))"
  by (induction ss) (auto simp: Let_def in_zone_def has_suffix_iff)

lemma suffixAllowed_iff: "suffixAllowed dns ss \<longleftrightarrow> dns_permitted ss dns"
  by (simp add: suffixAllowed_def dns_permitted_def suffix_loop_iff)

lemma parseCIDRSet_map:
  "parseCIDRSet ni cs = Inr ps \<Longrightarrow> map (\<lambda>c. ni_ParsePrefix ni (trim_space c)) cs = map Some ps"
  by (induction cs arbitrary: ps) (auto split: option.splits sum.splits)

lemma parseCIDRSet_ok:
  "(\<exists>ps. parseCIDRSet ni cs = Inr ps) \<longleftrightarrow> (\<forall>c \<in> set cs. ni_ParsePrefix ni (trim_space c) \<noteq> None)"
  by (induction cs) (auto split: option.split sum.split)

lemma ipAllowed_iff:
  assumes "\<forall>c \<in> set cs. ni_ParsePrefix ni (trim_space c) \<noteq> None"
  shows "ipAllowed ni ip cs = Inr True \<longleftrightarrow> ip_permitted ni cs ip"
proof -
  obtain ps where ps: "parseCIDRSet ni cs = Inr ps" using assms parseCIDRSet_ok by blast
  then have "map (\<lambda>c. ni_ParsePrefix ni (trim_space c)) cs = map Some ps" by (rule parseCIDRSet_map)
  then have "Some ` set ps = (\<lambda>c. ni_ParsePrefix ni (trim_space c)) ` set cs" by (metis list.set_map)
  then have "(\<exists>p \<in> set ps. Q p) \<longleftrightarrow> (\<exists>c \<in> set cs. \<exists>p. ni_ParsePrefix ni (trim_space c) = Some p \<and> Q p)" for Q
    by (auto simp: image_iff set_eq_iff) (metis option.inject)+
  with ps show ?thesis by (auto simp: ipAllowed_def ip_permitted_def list_ex_iff split: option.split)
qed

lemma last_index_byte_iff:
  "last_index_byte s c = Some i \<longleftrightarrow> (\<exists>a b. s = a @ c # b \<and> c \<notin> set b \<and> i = length a)"
proof
  assume "last_index_byte s c = Some i"
  then obtain j where j: "index_byte (rev s) c = Some j" "i = length s - 1 - j" by (auto simp: last_index_byte_def)
  from index_byte_Some [OF j(1)] have jl: "j < length s" "rev s ! j = c" "c \<notin> set (take j (rev s))" by auto
  have "rev s = take j (rev s) @ c # drop (Suc j) (rev s)" using jl by (metis id_take_nth_drop length_rev)
  then have "s = rev (drop (Suc j) (rev s)) @ c # rev (take j (rev s))" by (metis rev_append rev_rev_ident rev.simps(2) append.assoc append_Cons append_Nil)
  then show "\<exists>a b. s = a @ c # b \<and> c \<notin> set b \<and> i = length a"
    using jl j(2) by (intro exI [of _ "rev (drop (Suc j) (rev s))"] exI [of _ "rev (take j (rev s))"]) auto
next
  assume "\<exists>a b. s = a @ c # b \<and> c \<notin> set b \<and> i = length a"
  then obtain a b where s: "s = a @ c # b" "c \<notin> set b" "i = length a" by blast
  have "index_byte (b @ c # d) c = Some (length b)" if "c \<notin> set b" for b d
    using that by (induction b) auto
  from this [of "rev b" "rev a"] s show "last_index_byte s c = Some i" by (simp add: last_index_byte_def)
qed

lemma emailAllowed_iff: "emailAllowed email ds \<longleftrightarrow> email_permitted ds email"
proof (cases "last_index_byte email CHR ''@''")
  case None
  then have "CHR ''@'' \<notin> set email"
    by (simp add: last_index_byte_def index_byte_None)
  with None show ?thesis by (auto simp: emailAllowed_def email_permitted_def)
next
  case (Some i)
  then obtain a b where e: "email = a @ CHR ''@'' # b" "CHR ''@'' \<notin> set b" "i = length a"
    using last_index_byte_iff by blast
  have uniq: "local = a \<and> domain = b" if "email = local @ CHR ''@'' # domain" "CHR ''@'' \<notin> set domain" for local domain
    using that e append_sep_inject [of "CHR ''@''" "rev b" "rev domain" "rev a" "rev local"]
    by (metis rev.simps(2) rev_append append_assoc append_Cons append_Nil rev_rev_ident set_rev)
  have "email_permitted ds email \<longleftrightarrow> a \<noteq> [] \<and> b \<noteq> [] \<and> dns_permitted ds b"
    unfolding email_permitted_def using uniq e(1,2) by (metis append_Cons append_Nil)
  moreover have "emailAllowed email ds \<longleftrightarrow> a \<noteq> [] \<and> b \<noteq> [] \<and> dns_permitted ds b"
    using Some e(1,3) by (auto simp: emailAllowed_def suffixAllowed_iff)
  ultimately show ?thesis by simp
qed

lemma uriPrefixAllowed_iff: "uriPrefixAllowed uri ps \<longleftrightarrow> uri_permitted ps uri"
  by (simp add: uriPrefixAllowed_def uri_permitted_def list_ex_iff Let_def has_prefix_iff)

lemma names_check:
  assumes "\<And>x. test x = Inr True \<longleftrightarrow> permitted allowed x"
  shows "(\<forall>x \<in> set names. check_san policy allowed err test x = None) \<longleftrightarrow> names_permitted policy allowed permitted names"
proof -
  have "(case test x of Inl e \<Rightarrow> Some e | Inr ok \<Rightarrow> if ok then None else Some (err x)) = None \<longleftrightarrow> permitted allowed x" for x
    using assms [of x] by (auto split: sum.split)
  then show ?thesis by (auto simp: check_san_def names_permitted_def)
qed

lemma names_check_ip:
  assumes "\<forall>c \<in> set cs. ni_ParsePrefix ni (trim_space c) \<noteq> None"
  shows "(\<forall>x \<in> set names. check_san policy cs err (\<lambda>x. ipAllowed ni x cs) x = None)
    \<longleftrightarrow> names_permitted policy cs (ip_permitted ni) names"
  by (rule names_check) (rule ipAllowed_iff [OF assms])

lemma cidr_check_None:
  "(if cs = [] then None else case parseCIDRSet ni cs of Inl err \<Rightarrow> Some err | Inr _ \<Rightarrow> None) = None
   \<longleftrightarrow> (\<forall>c \<in> set cs. ni_ParsePrefix ni (trim_space c) \<noteq> None)"
  using parseCIDRSet_ok [of ni cs] by (auto split: sum.splits)

lemma check_key_None:
  "check_key p r = None \<longleftrightarrow>
     (pr_KeyAlgorithm r = ''RSA'' \<and> 0 < cp_MinRSABits p \<longrightarrow> cp_MinRSABits p \<le> pr_KeyBits r)
     \<and> (pr_KeyAlgorithm r = ''ECDSA'' \<and> 0 < cp_MinECDSABits p \<longrightarrow> cp_MinECDSABits p \<le> pr_KeyBits r)"
  by (auto simp: check_key_def)


text \<open>The comment on the field and the authoring guide call an empty list of DNS suffixes unconstrained. That holds
  of a profile that constrains no kind of name; otherwise the empty list admits no DNS name.\<close>

lemma empty_suffixes_refuse_names:
  assumes "cp_AllowedDNSSuffixes p = []" and "hasSANPolicy p" and "pr_DNSNames r \<noteq> []"
  shows "Validate ni p r \<noteq> None"
proof -
  have "check_san True [] DNSNotPermitted test x \<noteq> None" for test x by (simp add: check_san_def)
  with assms show ?thesis
    unfolding Validate_def Let_def or_else_None first_error_None by (metis (full_types) list.set_intros(1) neq_Nil_conv)
qed

end
