(* ===== verification/AcmeState.thy ===== *)
theory AcmeState
  imports AcmePolicy Profile "HOL-Library.AList"
begin

text \<open>
  The state of the ACME server and its event log (\<^verbatim>\<open>internal/protocols/acme/state.go\<close>, and the
  types of \<^verbatim>\<open>acme.go\<close>): accounts, orders, authorizations, challenges, issued and revoked
  certificates, the events the handlers append before they change that state, and the replay that
  rebuilds the state from the log at startup.

  A Go map is an association list. Objects that Go shares through pointers are held once: the
  account of a thumbprint is its URL, and the challenges of an authorization are their ids.
  A parsed account key is opaque text; \<^verbatim>\<open>jose.ACMEKeyFromJWK\<close> is an argument.
  The JSON form of an event is not modelled: an event is its decoded payload.
\<close>

section \<open>State\<close>

record account =
  ac_id :: string
  ac_url :: string
  ac_key :: string
  ac_jwk :: bytes
  ac_contact :: "string list"
  ac_status :: string

record challenge =
  ch_id :: string
  ch_typ :: string
  ch_token :: string
  ch_status :: string
  ch_authzID :: string

record authorization =
  az_id :: string
  az_orderID :: string
  az_domain :: string
  az_status :: string
  az_challenges :: "string list"
  az_createdAt :: gotime

record acme_order =
  od_id :: string
  od_accountURL :: string
  od_domains :: "string list"
  od_authzIDs :: "string list"
  od_status :: string
  od_authMode :: string
  od_certID :: string
  od_replaces :: string
  od_createdAt :: gotime

record issuedCert =
  ic_accountURL :: string
  ic_keyThumb :: string
  ic_serial :: string
  ic_certID :: string

record revocation =
  rv_serial :: string
  rv_reason :: int
  rv_at :: gotime

record sourceBudget =
  sb_resetAt :: gotime
  sb_newNonce :: nat
  sb_newAccount :: nat
  sb_newOrder :: nat

record QuotaConfig =
  qc_MaxNonces :: int
  qc_MaxAccounts :: int
  qc_MaxPendingOrders :: int
  qc_MaxPendingAuthorizations :: int
  qc_MaxPendingChallenges :: int
  qc_MaxPendingOrdersPerAccount :: int
  qc_MaxNewOrdersPerAccount :: int
  qc_MaxNewNoncesPerSource :: int
  qc_MaxNewAccountsPerSource :: int
  qc_MaxNewOrdersPerSource :: int
  qc_SourceWindow :: duration
  qc_NonceTTL :: duration
  qc_StateTTL :: duration

section \<open>Events\<close>

record acmeAccountEvent =
  ae_Seq :: nat
  ae_ID :: string
  ae_URL :: string
  ae_JWK :: bytes
  ae_Contact :: "string list"
  ae_Status :: string

record acmeOrderCreatedEvent =
  oe_Seq :: nat
  oe_Order :: acme_order
  oe_Authorizations :: "(authorization \<times> challenge list) list"

record acmeChallengeValidatedEvent =
  ve_ChallengeID :: string
  ve_AuthzID :: string
  ve_OrderID :: string
  ve_ChallengeStatus :: string
  ve_AuthzStatus :: string
  ve_OrderStatus :: string

record acmeCertificateIssuedEvent =
  ie_Seq :: nat
  ie_OrderID :: string
  ie_CertID :: string
  ie_CertificatePEM :: bytes
  ie_ARICertID :: string
  ie_NotBefore :: gotime
  ie_NotAfter :: gotime
  ie_Fingerprint :: string
  ie_Issued :: issuedCert

record acmeCertificateRevokedEvent =
  re_Fingerprint :: string
  re_Serial :: string
  re_Reason :: int
  re_At :: gotime

text \<open>
  What replay can meet in the log: a decoded payload, an ACME event that does not decode, an
  ACME event of a type this version does not know, or an event of another subsystem.
\<close>

datatype acme_payload =
    PAccount acmeAccountEvent | POrder acmeOrderCreatedEvent
  | PValidated acmeChallengeValidatedEvent | PIssued acmeCertificateIssuedEvent
  | PRevoked acmeCertificateRevokedEvent | PEarlyRenewal string
  | PUndecodable | PUnknown | PForeign

record acme_log_event =
  le_TenantID :: string
  le_SchemaVersion :: nat
  le_payload :: acme_payload

section \<open>The server\<close>

record acme_server =
  sv_authMode :: string
  sv_externalAccountRequired :: bool
  sv_eabKeys :: "(string \<times> bytes option) list"
  sv_quota :: QuotaConfig
  sv_nonces :: "(string \<times> gotime) list"
  sv_accounts :: "(string \<times> account) list"
  sv_byKey :: "(string \<times> string) list"
  sv_orders :: "(string \<times> acme_order) list"
  sv_authzs :: "(string \<times> authorization) list"
  sv_challenges :: "(string \<times> challenge) list"
  sv_certs :: "(string \<times> bytes) list"
  sv_issued :: "(string \<times> issuedCert) list"
  sv_revoked :: "(string \<times> revocation) list"
  sv_ariWindows :: "(string \<times> gotime \<times> gotime) list"
  sv_earlyRenew :: "string list"
  sv_sources :: "(string \<times> sourceBudget) list"
  sv_seq :: nat
  sv_stateLog :: "acme_log_event list option"
  sv_stateTenantID :: string

definition DefaultQuotaConfig :: QuotaConfig where
  "DefaultQuotaConfig =
     \<lparr>qc_MaxNonces = 4096, qc_MaxAccounts = 2048, qc_MaxPendingOrders = 4096,
      qc_MaxPendingAuthorizations = 8192, qc_MaxPendingChallenges = 24576,
      qc_MaxPendingOrdersPerAccount = 128, qc_MaxNewOrdersPerAccount = 100,
      qc_MaxNewNoncesPerSource = 120, qc_MaxNewAccountsPerSource = 20, qc_MaxNewOrdersPerSource = 60,
      qc_SourceWindow = 10 * minute, qc_NonceTTL = 10 * minute, qc_StateTTL = 24 * hour\<rparr>"

definition default_unless_positive :: "int \<Rightarrow> int \<Rightarrow> int" where
  "default_unless_positive d n = (if n \<le> 0 then d else n)"

definition normalizeQuota :: "QuotaConfig \<Rightarrow> QuotaConfig" where
  "normalizeQuota q =
     (let d = DefaultQuotaConfig
      in \<lparr>qc_MaxNonces = default_unless_positive (qc_MaxNonces d) (qc_MaxNonces q),
          qc_MaxAccounts = default_unless_positive (qc_MaxAccounts d) (qc_MaxAccounts q),
          qc_MaxPendingOrders = default_unless_positive (qc_MaxPendingOrders d) (qc_MaxPendingOrders q),
          qc_MaxPendingAuthorizations =
            default_unless_positive (qc_MaxPendingAuthorizations d) (qc_MaxPendingAuthorizations q),
          qc_MaxPendingChallenges = default_unless_positive (qc_MaxPendingChallenges d) (qc_MaxPendingChallenges q),
          qc_MaxPendingOrdersPerAccount =
            default_unless_positive (qc_MaxPendingOrdersPerAccount d) (qc_MaxPendingOrdersPerAccount q),
          qc_MaxNewOrdersPerAccount =
            default_unless_positive (qc_MaxNewOrdersPerAccount d) (qc_MaxNewOrdersPerAccount q),
          qc_MaxNewNoncesPerSource =
            default_unless_positive (qc_MaxNewNoncesPerSource d) (qc_MaxNewNoncesPerSource q),
          qc_MaxNewAccountsPerSource =
            default_unless_positive (qc_MaxNewAccountsPerSource d) (qc_MaxNewAccountsPerSource q),
          qc_MaxNewOrdersPerSource =
            default_unless_positive (qc_MaxNewOrdersPerSource d) (qc_MaxNewOrdersPerSource q),
          qc_SourceWindow = default_unless_positive (qc_SourceWindow d) (qc_SourceWindow q),
          qc_NonceTTL = default_unless_positive (qc_NonceTTL d) (qc_NonceTTL q),
          qc_StateTTL = default_unless_positive (qc_StateTTL d) (qc_StateTTL q)\<rparr>)"

definition New :: acme_server where
  "New =
     \<lparr>sv_authMode = ''public_trust'', sv_externalAccountRequired = False, sv_eabKeys = [],
      sv_quota = DefaultQuotaConfig, sv_nonces = [], sv_accounts = [], sv_byKey = [], sv_orders = [],
      sv_authzs = [], sv_challenges = [], sv_certs = [], sv_issued = [], sv_revoked = [],
      sv_ariWindows = [], sv_earlyRenew = [], sv_sources = [], sv_seq = 0, sv_stateLog = None,
      sv_stateTenantID = ''''\<rparr>"

definition WithQuota :: "QuotaConfig \<Rightarrow> acme_server \<Rightarrow> acme_server" where
  "WithQuota q s = s\<lparr>sv_quota := normalizeQuota q\<rparr>"

section \<open>Applying events\<close>

datatype state_error =
    TenantRequired | LogRequired | LogWithoutTenant | AppendFailed | UnsupportedSchema nat
  | DecodeFailed | MalformedEvent | BadAccountKey | MissingState | MissingOrder

definition rememberSeq :: "nat \<Rightarrow> acme_server \<Rightarrow> acme_server" where
  "rememberSeq n s = (if sv_seq s < n then s\<lparr>sv_seq := n\<rparr> else s)"

definition or_default :: "string \<Rightarrow> string \<Rightarrow> string" where
  "or_default d x = (if x = '''' then d else x)"

definition profileACMEAuthMode :: "string \<Rightarrow> string" where
  "profileACMEAuthMode raw =
     (case NormalizeACMEAuthMode raw of Inl _ \<Rightarrow> ''public_trust'' | Inr m \<Rightarrow> m)"

definition applyAccountEvent ::
  "(bytes \<Rightarrow> string option) \<Rightarrow> acmeAccountEvent \<Rightarrow> acme_server \<Rightarrow> state_error + acme_server" where
  "applyAccountEvent keyFromJWK p s =
     (if ae_URL p = '''' \<or> ae_ID p = '''' \<or> ae_JWK p = [] then Inl MalformedEvent
      else case keyFromJWK (ae_JWK p) of
        None \<Rightarrow> Inl BadAccountKey
      | Some key \<Rightarrow>
          (let oldID = (case map_of (sv_accounts s) (ae_URL p) of None \<Rightarrow> '''' | Some a \<Rightarrow> ac_id a);
               acct = \<lparr>ac_id = ae_ID p, ac_url = ae_URL p, ac_key = key, ac_jwk = ae_JWK p,
                       ac_contact = ae_Contact p, ac_status = or_default ''valid'' (ae_Status p)\<rparr>;
               byKey = (if oldID \<noteq> '''' \<and> oldID \<noteq> ae_ID p then AList.delete oldID (sv_byKey s)
                        else sv_byKey s)
           in Inr (rememberSeq (ae_Seq p)
                (s\<lparr>sv_accounts := AList.update (ae_URL p) acct (sv_accounts s),
                   sv_byKey := AList.update (ae_ID p) (ae_URL p) byKey\<rparr>))))"

fun apply_challenges :: "challenge list \<Rightarrow> acme_server \<Rightarrow> state_error + acme_server" where
  "apply_challenges [] s = Inr s"
| "apply_challenges (c # cs) s =
     (if ch_id c = '''' \<or> ch_authzID c = '''' then Inl MalformedEvent
      else apply_challenges cs
        (s\<lparr>sv_challenges := AList.update (ch_id c) (c\<lparr>ch_status := or_default ''pending'' (ch_status c)\<rparr>)
             (sv_challenges s)\<rparr>))"

fun apply_authzs :: "(authorization \<times> challenge list) list \<Rightarrow> acme_server \<Rightarrow> state_error + acme_server" where
  "apply_authzs [] s = Inr s"
| "apply_authzs ((a, cs) # as) s =
     (if az_id a = '''' \<or> az_orderID a = '''' then Inl MalformedEvent
      else case apply_challenges cs s of
        Inl e \<Rightarrow> Inl e
      | Inr s1 \<Rightarrow>
          apply_authzs as
            (s1\<lparr>sv_authzs := AList.update (az_id a)
                  (a\<lparr>az_status := or_default ''pending'' (az_status a), az_challenges := map ch_id cs\<rparr>)
                  (sv_authzs s1)\<rparr>))"

definition applyOrderCreatedEvent :: "acmeOrderCreatedEvent \<Rightarrow> acme_server \<Rightarrow> state_error + acme_server" where
  "applyOrderCreatedEvent p s =
     (if od_id (oe_Order p) = '''' \<or> od_accountURL (oe_Order p) = '''' then Inl MalformedEvent
      else
        let ord = (oe_Order p)\<lparr>od_status := or_default ''pending'' (od_status (oe_Order p)),
                             od_authMode := profileACMEAuthMode (od_authMode (oe_Order p))\<rparr>
        in case apply_authzs (oe_Authorizations p) (s\<lparr>sv_orders := AList.update (od_id ord) ord (sv_orders s)\<rparr>) of
             Inl e \<Rightarrow> Inl e
           | Inr s1 \<Rightarrow> Inr (rememberSeq (oe_Seq p) s1))"

definition set_order_status :: "string \<Rightarrow> string \<Rightarrow> acme_server \<Rightarrow> acme_server" where
  "set_order_status oid st s =
     (case map_of (sv_orders s) oid of
        None \<Rightarrow> s
      | Some ord \<Rightarrow> s\<lparr>sv_orders := AList.update oid (ord\<lparr>od_status := st\<rparr>) (sv_orders s)\<rparr>)"

definition set_validated :: "challenge \<Rightarrow> string \<Rightarrow> authorization \<Rightarrow> string \<Rightarrow> string \<Rightarrow> string \<Rightarrow>
    acme_server \<Rightarrow> acme_server" where
  "set_validated ch chID az azID chSt azSt s =
     s\<lparr>sv_challenges := AList.update chID (ch\<lparr>ch_status := chSt\<rparr>) (sv_challenges s),
       sv_authzs := AList.update azID (az\<lparr>az_status := azSt\<rparr>) (sv_authzs s)\<rparr>"

definition applyChallengeValidatedEvent ::
  "acmeChallengeValidatedEvent \<Rightarrow> acme_server \<Rightarrow> state_error + acme_server" where
  "applyChallengeValidatedEvent p s =
     (case (map_of (sv_challenges s) (ve_ChallengeID p), map_of (sv_authzs s) (ve_AuthzID p)) of
        (Some ch, Some az) \<Rightarrow>
          (let s1 = set_validated ch (ve_ChallengeID p) az (ve_AuthzID p)
                      (or_default ''valid'' (ve_ChallengeStatus p)) (or_default ''valid'' (ve_AuthzStatus p)) s
           in Inr (if ve_OrderID p \<noteq> '''' \<and> ve_OrderStatus p \<noteq> ''''
                   then set_order_status (ve_OrderID p) (ve_OrderStatus p) s1 else s1))
      | _ \<Rightarrow> Inl MissingState)"

definition applyCertificateIssuedEvent ::
  "acmeCertificateIssuedEvent \<Rightarrow> acme_server \<Rightarrow> state_error + acme_server" where
  "applyCertificateIssuedEvent p s =
     (if ie_OrderID p = '''' \<or> ie_CertID p = '''' then Inl MalformedEvent
      else case map_of (sv_orders s) (ie_OrderID p) of
        None \<Rightarrow> Inl MissingOrder
      | Some ord \<Rightarrow>
          Inr (rememberSeq (ie_Seq p)
            (s\<lparr>sv_orders := AList.update (ie_OrderID p)
                 (ord\<lparr>od_certID := ie_CertID p, od_status := ''valid''\<rparr>) (sv_orders s),
               sv_certs := AList.update (ie_CertID p) (ie_CertificatePEM p) (sv_certs s),
               sv_ariWindows := (if ie_ARICertID p \<noteq> ''''
                  then AList.update (ie_ARICertID p) (ie_NotBefore p, ie_NotAfter p) (sv_ariWindows s)
                  else sv_ariWindows s),
               sv_issued := (if ie_Fingerprint p \<noteq> ''''
                  then AList.update (ie_Fingerprint p) (ie_Issued p) (sv_issued s)
                  else sv_issued s)\<rparr>)))"

definition applyCertificateRevokedEvent ::
  "acmeCertificateRevokedEvent \<Rightarrow> acme_server \<Rightarrow> state_error + acme_server" where
  "applyCertificateRevokedEvent p s =
     (if re_Fingerprint p = '''' then Inl MalformedEvent
      else Inr (s\<lparr>sv_revoked := AList.update (re_Fingerprint p)
                   \<lparr>rv_serial = re_Serial p, rv_reason = re_Reason p, rv_at = re_At p\<rparr> (sv_revoked s)\<rparr>))"

definition applyEarlyRenewalEvent :: "string \<Rightarrow> acme_server \<Rightarrow> state_error + acme_server" where
  "applyEarlyRenewalEvent certID s =
     (if certID = '''' then Inl MalformedEvent
      else Inr (s\<lparr>sv_earlyRenew := List.insert certID (sv_earlyRenew s)\<rparr>))"

definition applyStateEvent ::
  "(bytes \<Rightarrow> string option) \<Rightarrow> acme_log_event \<Rightarrow> acme_server \<Rightarrow> state_error + acme_server" where
  "applyStateEvent keyFromJWK ev s =
     (if le_SchemaVersion ev \<noteq> 1 then Inl (UnsupportedSchema (le_SchemaVersion ev))
      else case le_payload ev of
        PAccount p \<Rightarrow> applyAccountEvent keyFromJWK p s
      | POrder p \<Rightarrow> applyOrderCreatedEvent p s
      | PValidated p \<Rightarrow> applyChallengeValidatedEvent p s
      | PIssued p \<Rightarrow> applyCertificateIssuedEvent p s
      | PRevoked p \<Rightarrow> applyCertificateRevokedEvent p s
      | PEarlyRenewal c \<Rightarrow> applyEarlyRenewalEvent c s
      | PUndecodable \<Rightarrow> Inl DecodeFailed
      | _ \<Rightarrow> Inr s)"

section \<open>The log\<close>

definition appendStateEvent :: "bool \<Rightarrow> acme_payload \<Rightarrow> acme_server \<Rightarrow> state_error + acme_server" where
  "appendStateEvent append_ok p s =
     (case sv_stateLog s of
        None \<Rightarrow> Inr s
      | Some log \<Rightarrow>
          if sv_stateTenantID s = '''' then Inl LogWithoutTenant
          else if \<not> append_ok then Inl AppendFailed
          else Inr (s\<lparr>sv_stateLog := Some (log @
                 [\<lparr>le_TenantID = sv_stateTenantID s, le_SchemaVersion = 1, le_payload = p\<rparr>])\<rparr>))"

fun replay_events ::
  "(bytes \<Rightarrow> string option) \<Rightarrow> string \<Rightarrow> acme_log_event list \<Rightarrow> acme_server \<Rightarrow> state_error + acme_server" where
  "replay_events keyFromJWK tn [] s = Inr s"
| "replay_events keyFromJWK tn (ev # evs) s =
     (if le_TenantID ev \<noteq> tn \<or> le_payload ev = PForeign then replay_events keyFromJWK tn evs s
      else case applyStateEvent keyFromJWK ev s of
             Inl e \<Rightarrow> Inl e
           | Inr s1 \<Rightarrow> replay_events keyFromJWK tn evs s1)"

definition WithStateLog ::
  "(bytes \<Rightarrow> string option) \<Rightarrow> string \<Rightarrow> acme_log_event list option \<Rightarrow> acme_server \<Rightarrow> state_error + acme_server" where
  "WithStateLog keyFromJWK tenantID log s =
     (if tenantID = '''' then Inl TenantRequired
      else case log of
        None \<Rightarrow> Inl LogRequired
      | Some evs \<Rightarrow> replay_events keyFromJWK tenantID evs
                     (s\<lparr>sv_stateTenantID := tenantID, sv_stateLog := Some evs\<rparr>))"

end
