(* ===== verification/AcmeServer.thy ===== *)
theory AcmeServer
  imports AcmeState
begin

text \<open>
  The request handlers of the ACME server (\<^verbatim>\<open>internal/protocols/acme/acme.go\<close> and
  \<^verbatim>\<open>parse.go\<close>). A handler that releases the mutex around a call to the outside is split at that
  point, so that the theorems cover the interleavings: \<^verbatim>\<open>acceptChallenge\<close> releases it around the
  validator, \<^verbatim>\<open>finalize\<close> around the certificate authority and \<^verbatim>\<open>revokeCert\<close> around the revocation
  hook. What the handlers call outside the package is the record \<open>acme_env\<close>: the JOSE and
  certificate functions, the JSON and base64 decoders, the validation policy, the validator and
  the authority. Random draws, the clock, the outcome of a log append and the answers of the
  limiter and the hooks are arguments of the handler that uses them.
\<close>

section \<open>Messages and the environment\<close>

record ACMEMessage =
  am_Nonce :: string
  am_Kid :: string
  am_JWK :: bytes
  am_Payload :: bytes

record newAccountRequest =
  na_Contact :: "string list"
  na_OnlyReturnExisting :: bool
  na_ExternalAccountBinding :: bytes

record cert_details =
  cd_ARICertID :: "string option"
  cd_Fingerprint :: "string option"
  cd_KeyThumb :: "string option"
  cd_Validity :: "(gotime \<times> gotime \<times> string) option"

record acme_env =
  en_ParseJWS :: "bytes \<Rightarrow> ACMEMessage option"
  en_KeyFromJWK :: "bytes \<Rightarrow> string option"
  en_Thumbprint :: "string \<Rightarrow> string"
  en_Verify :: "ACMEMessage \<Rightarrow> string \<Rightarrow> bool"
  en_VerifyEAB :: "ACMEMessage \<Rightarrow> bytes \<Rightarrow> string \<Rightarrow> string \<Rightarrow> string \<Rightarrow> bool"
  en_account_json :: "bytes \<Rightarrow> newAccountRequest option"
  en_order_json :: "bytes \<Rightarrow> ((string \<times> string) list \<times> string) option"
  en_finalize_json :: "bytes \<Rightarrow> string option"
  en_revoke_json :: "bytes \<Rightarrow> (string \<times> int option) option"
  en_keychange_json :: "bytes \<Rightarrow> (string \<times> bytes) option"
  en_base64url :: "string \<Rightarrow> bytes option"
  en_pem_details :: "bytes \<Rightarrow> cert_details option"
  en_certFingerprint :: "bytes \<Rightarrow> string"
  en_dvPolicy :: "(string \<Rightarrow> (string list \<times> bool) option) option"

datatype acme_response =
    Problem nat string
  | RateLimited duration
  | NonceResp string
  | AccountResp nat string "string list"
  | AccountStatusResp string
  | OrderResp nat acme_order
  | AuthzResp authorization "challenge list"
  | ChallengeResp challenge
  | CertResp bytes
  | RenewalResp "gotime \<times> gotime"
  | EmptyResp nat
  | Panic bool

text \<open>\<open>Panic b\<close>: the handler dereferences a nil account; \<open>b\<close> tells whether it holds the mutex then.\<close>

section \<open>Renewal information\<close>

definition ParseCertID :: "(string \<Rightarrow> bytes option) \<Rightarrow> string \<Rightarrow> (bytes \<times> bytes) option" where
  "ParseCertID b64 certID =
     (case split_byte CHR ''.'' certID of
        [p, q] \<Rightarrow>
          (if p = '''' \<or> q = '''' then None
           else case (b64 p, b64 q) of
             (Some akid, Some serial) \<Rightarrow> (if akid = [] \<or> serial = [] then None else Some (akid, serial))
           | _ \<Rightarrow> None)
      | _ \<Rightarrow> None)"

definition ValidCertID :: "(string \<Rightarrow> bytes option) \<Rightarrow> string \<Rightarrow> bool" where
  "ValidCertID b64 certID = (ParseCertID b64 certID \<noteq> None)"

text \<open>Go's integer division truncates; the lifetime divided here is negated first.\<close>

definition trunc_div :: "int \<Rightarrow> int \<Rightarrow> int" where
  "trunc_div a b = sgn a * (\<bar>a\<bar> div b)"

definition SuggestWindow :: "gotime \<Rightarrow> gotime \<Rightarrow> gotime \<Rightarrow> bool \<Rightarrow> gotime \<times> gotime" where
  "SuggestWindow notBefore notAfter now early =
     (if early then (now - minute, max (now + hour) notAfter)
      else let lifetime = notAfter - notBefore
           in if lifetime \<le> 0 then (notBefore, notAfter)
              else (notAfter + trunc_div (- lifetime) 3, notAfter + trunc_div (- lifetime) 6))"

definition RenewNow :: "gotime \<times> gotime \<Rightarrow> gotime \<Rightarrow> bool" where
  "RenewNow w now = (\<not> now < fst w)"

section \<open>Parsers of request payloads\<close>

definition ParseOrderRequest :: "acme_env \<Rightarrow> bytes \<Rightarrow> (string list \<times> string) option" where
  "ParseOrderRequest env payload =
     (case en_order_json env payload of
        None \<Rightarrow> None
      | Some (ids, replaces) \<Rightarrow>
          if ids = [] then None
          else if list_ex (\<lambda>(ty, v). ty \<noteq> ''dns'' \<or> v = '''') ids then None
          else if replaces \<noteq> '''' \<and> \<not> ValidCertID (en_base64url env) replaces then None
          else Some (map snd ids, replaces))"

definition ParseFinalizeRequest :: "acme_env \<Rightarrow> bytes \<Rightarrow> bytes option" where
  "ParseFinalizeRequest env payload =
     (case en_finalize_json env payload of
        None \<Rightarrow> None
      | Some csr \<Rightarrow> (case en_base64url env csr of
          None \<Rightarrow> None
        | Some der \<Rightarrow> if der = [] then None else Some der))"

definition ParseRevokeRequest :: "acme_env \<Rightarrow> bytes \<Rightarrow> (bytes \<times> int) option" where
  "ParseRevokeRequest env payload =
     (case en_revoke_json env payload of
        None \<Rightarrow> None
      | Some (cert, reason) \<Rightarrow> (case en_base64url env cert of
          None \<Rightarrow> None
        | Some der \<Rightarrow>
            if der = [] then None
            else case reason of
              None \<Rightarrow> Some (der, 0)
            | Some r \<Rightarrow> if r < 0 then None else Some (der, r)))"

definition ParseKeyChangeInner :: "acme_env \<Rightarrow> bytes \<Rightarrow> (string \<times> bytes) option" where
  "ParseKeyChangeInner env payload =
     (case en_keychange_json env payload of
        None \<Rightarrow> None
      | Some (acct, oldKey) \<Rightarrow> if acct = '''' \<or> oldKey = [] then None else Some (acct, oldKey))"

section \<open>Budgets and expiry\<close>

definition consumeSource :: "string \<Rightarrow> string \<Rightarrow> gotime \<Rightarrow> acme_server \<Rightarrow> acme_server \<times> bool" where
  "consumeSource source kind now s =
     (let fresh = \<lparr>sb_resetAt = now + qc_SourceWindow (sv_quota s), sb_newNonce = 0, sb_newAccount = 0, sb_newOrder = 0\<rparr>;
          b = (case map_of (sv_sources s) source of
                 None \<Rightarrow> fresh
               | Some b0 \<Rightarrow> if \<not> now < sb_resetAt b0 then fresh else b0);
          put = (\<lambda>b'. s\<lparr>sv_sources := AList.update source b' (sv_sources s)\<rparr>)
      in if kind = ''nonce'' then
           (if qc_MaxNewNoncesPerSource (sv_quota s) \<le> int (sb_newNonce b) then (put b, False)
            else (put (b\<lparr>sb_newNonce := Suc (sb_newNonce b)\<rparr>), True))
         else if kind = ''account'' then
           (if qc_MaxNewAccountsPerSource (sv_quota s) \<le> int (sb_newAccount b) then (put b, False)
            else (put (b\<lparr>sb_newAccount := Suc (sb_newAccount b)\<rparr>), True))
         else if kind = ''order'' then
           (if qc_MaxNewOrdersPerSource (sv_quota s) \<le> int (sb_newOrder b) then (put b, False)
            else (put (b\<lparr>sb_newOrder := Suc (sb_newOrder b)\<rparr>), True))
         else (put b, True))"

definition delete_authz :: "string \<Rightarrow> acme_server \<Rightarrow> acme_server" where
  "delete_authz azID s =
     (case map_of (sv_authzs s) azID of
        None \<Rightarrow> s
      | Some az \<Rightarrow>
          s\<lparr>sv_challenges := fold AList.delete (az_challenges az) (sv_challenges s),
            sv_authzs := AList.delete azID (sv_authzs s)\<rparr>)"

definition deleteOrderState :: "string \<Rightarrow> acme_server \<Rightarrow> acme_server" where
  "deleteOrderState oid s =
     (case map_of (sv_orders s) oid of
        None \<Rightarrow> s
      | Some ord \<Rightarrow>
          (let s1 = fold delete_authz (od_authzIDs ord) s
           in s1\<lparr>sv_orders := AList.delete oid (sv_orders s1)\<rparr>))"

definition order_expired :: "gotime \<Rightarrow> QuotaConfig \<Rightarrow> acme_order \<Rightarrow> bool" where
  "order_expired now q ord = (od_status ord \<noteq> ''valid'' \<and> qc_StateTTL q < now - od_createdAt ord)"

definition pruneExpired :: "gotime \<Rightarrow> acme_server \<Rightarrow> acme_server" where
  "pruneExpired now s =
     (let s1 = s\<lparr>sv_nonces := filter (\<lambda>(n, created). \<not> (created \<noteq> 0 \<and> qc_NonceTTL (sv_quota s) < now - created)) (sv_nonces s),
                sv_sources := filter (\<lambda>(k, b). now < sb_resetAt b) (sv_sources s)\<rparr>
      in fold deleteOrderState
           (map fst (filter (\<lambda>(i, ord). order_expired now (sv_quota s) ord) (sv_orders s))) s1)"

definition mintNonce :: "gotime \<Rightarrow> string \<Rightarrow> acme_server \<Rightarrow> acme_server option" where
  "mintNonce now drawn s =
     (if qc_MaxNonces (sv_quota s) \<le> int (length (sv_nonces s)) then None
      else Some (s\<lparr>sv_nonces := AList.update drawn now (sv_nonces s)\<rparr>))"

definition pendingOrders :: "string \<Rightarrow> acme_server \<Rightarrow> nat" where
  "pendingOrders url s =
     length (filter (\<lambda>(i, ord). od_status ord \<noteq> ''valid'' \<and> (url = '''' \<or> od_accountURL ord = url)) (sv_orders s))"

definition pendingAuthzs :: "acme_server \<Rightarrow> nat" where
  "pendingAuthzs s = length (filter (\<lambda>(i, az). az_status az \<noteq> ''valid'') (sv_authzs s))"

definition pendingChallenges :: "acme_server \<Rightarrow> nat" where
  "pendingChallenges s =
     length (filter (\<lambda>(i, ch). ch_status ch \<noteq> ''valid''
       \<and> (case map_of (sv_authzs s) (ch_authzID ch) of None \<Rightarrow> True | Some az \<Rightarrow> az_status az \<noteq> ''valid''))
       (sv_challenges s))"

section \<open>Nonces and the JWS wrapper\<close>

definition newNonce :: "gotime \<Rightarrow> string \<Rightarrow> string \<Rightarrow> acme_server \<Rightarrow> acme_server \<times> acme_response" where
  "newNonce now source drawn s =
     (let (s1, ok) = consumeSource source ''nonce'' now (pruneExpired now s)
      in if \<not> ok then (s1, RateLimited (qc_SourceWindow (sv_quota s)))
         else case mintNonce now drawn s1 of
           None \<Rightarrow> (s1, RateLimited (qc_SourceWindow (sv_quota s)))
         | Some s2 \<Rightarrow> (s2, NonceResp drawn))"

text \<open>The first locked section: the nonce is consumed and the key found.\<close>

definition jws_begin ::
  "acme_env \<Rightarrow> gotime \<Rightarrow> bytes \<Rightarrow> acme_server \<Rightarrow>
   acme_server \<times> (acme_response + ACMEMessage \<times> string option \<times> string)" where
  "jws_begin env now body s =
     (if 1048576 < int (length body) then (s, Inl (Problem 413 ''malformed''))
      else case en_ParseJWS env body of
        None \<Rightarrow> (s, Inl (Problem 400 ''malformed''))
      | Some msg \<Rightarrow>
          (let s1 = pruneExpired now s
           in if map_of (sv_nonces s1) (am_Nonce msg) = None then (s1, Inl (Problem 400 ''badNonce''))
              else
                let s2 = s1\<lparr>sv_nonces := AList.delete (am_Nonce msg) (sv_nonces s1)\<rparr>
                in if am_Kid msg \<noteq> '''' then
                     (case map_of (sv_accounts s2) (am_Kid msg) of
                        None \<Rightarrow> (s2, Inl (Problem 400 ''accountDoesNotExist''))
                      | Some acct \<Rightarrow> (s2, Inr (msg, Some (am_Kid msg), ac_key acct)))
                   else if am_JWK msg \<noteq> [] then
                     (case en_KeyFromJWK env (am_JWK msg) of
                        None \<Rightarrow> (s2, Inl (Problem 400 ''badPublicKey''))
                      | Some key \<Rightarrow> (s2, Inr (msg, None, key)))
                   else (s2, Inl (Problem 400 ''malformed''))))"

text \<open>The second locked section: every response carries a fresh nonce.\<close>

definition jws_nonce :: "gotime \<Rightarrow> string \<Rightarrow> acme_server \<Rightarrow> acme_server \<times> acme_response option" where
  "jws_nonce now drawn s =
     (let s1 = pruneExpired now s
      in case mintNonce now drawn s1 of
           None \<Rightarrow> (s1, Some (RateLimited (qc_SourceWindow (sv_quota s))))
         | Some s2 \<Rightarrow> (s2, None))"

definition jws ::
  "acme_env \<Rightarrow> gotime \<Rightarrow> gotime \<Rightarrow> string \<Rightarrow> bytes \<Rightarrow>
   (ACMEMessage \<Rightarrow> string option \<Rightarrow> acme_server \<Rightarrow> acme_server \<times> acme_response) \<Rightarrow>
   acme_server \<Rightarrow> acme_server \<times> acme_response" where
  "jws env now now2 drawn body h s =
     (case jws_begin env now body s of
        (s1, Inl r) \<Rightarrow> (s1, r)
      | (s1, Inr (msg, acct, key)) \<Rightarrow>
          if \<not> en_Verify env msg key then (s1, Problem 401 ''unauthorized'')
          else (case jws_nonce now2 drawn s1 of
                  (s2, Some r) \<Rightarrow> (s2, r)
                | (s2, None) \<Rightarrow> h msg acct s2))"

section \<open>Accounts\<close>

definition accountEventFrom :: "account \<Rightarrow> nat \<Rightarrow> acmeAccountEvent" where
  "accountEventFrom a n =
     \<lparr>ae_Seq = n, ae_ID = ac_id a, ae_URL = ac_url a, ae_JWK = ac_jwk a, ae_Contact = ac_contact a,
      ae_Status = ac_status a\<rparr>"

text \<open>The checks on an external account binding.\<close>

definition check_binding :: "acme_env \<Rightarrow> string \<Rightarrow> string \<Rightarrow> bytes \<Rightarrow> acme_server \<Rightarrow> acme_response option" where
  "check_binding env base thumb eab s =
     (if sv_externalAccountRequired s \<and> eab = [] then Some (Problem 400 ''externalAccountRequired'')
      else if eab = [] then None
      else case en_ParseJWS env eab of
        None \<Rightarrow> Some (Problem 400 ''malformed'')
      | Some m \<Rightarrow>
          (case map_of (sv_eabKeys s) (trim_space (am_Kid m)) of
             None \<Rightarrow> Some (Problem 401 ''unauthorized'')
           | Some None \<Rightarrow> Some (Problem 500 ''serverInternal'')
           | Some (Some macKey) \<Rightarrow>
               if en_VerifyEAB env m macKey (trim_space (am_Kid m)) (base @ ''/acme/new-account'') thumb then None
               else Some (Problem 401 ''unauthorized'')))"

definition empty_account_request :: newAccountRequest where
  "empty_account_request = \<lparr>na_Contact = [], na_OnlyReturnExisting = False, na_ExternalAccountBinding = []\<rparr>"

definition create_account ::
  "acme_env \<Rightarrow> bool \<Rightarrow> string \<Rightarrow> string \<Rightarrow> ACMEMessage \<Rightarrow> newAccountRequest \<Rightarrow> acme_server \<Rightarrow> acme_server \<times> acme_response" where
  "create_account env append_ok base key msg req s =
     (let n = Suc (sv_seq s);
          acct = \<lparr>ac_id = en_Thumbprint env key, ac_url = base @ ''/acme/acct/'' @ itoa n, ac_key = key,
                  ac_jwk = am_JWK msg, ac_contact = na_Contact req, ac_status = ''valid''\<rparr>;
          s1 = s\<lparr>sv_seq := n\<rparr>
      in case appendStateEvent append_ok (PAccount (accountEventFrom acct n)) s1 of
           Inl e \<Rightarrow> (s1, Problem 500 ''serverInternal'')
         | Inr s2 \<Rightarrow>
             (s2\<lparr>sv_byKey := AList.update (ac_id acct) (ac_url acct) (sv_byKey s2),
                 sv_accounts := AList.update (ac_url acct) acct (sv_accounts s2)\<rparr>,
              AccountResp 201 (ac_url acct) (ac_contact acct)))"

definition update_contact ::
  "bool \<Rightarrow> account \<Rightarrow> ACMEMessage \<Rightarrow> string list \<Rightarrow> acme_server \<Rightarrow> acme_server \<times> acme_response" where
  "update_contact append_ok acct msg contact s =
     (let updated = acct\<lparr>ac_contact := contact, ac_jwk := (if ac_jwk acct = [] then am_JWK msg else ac_jwk acct)\<rparr>
      in case appendStateEvent append_ok (PAccount (accountEventFrom updated 0)) s of
           Inl e \<Rightarrow> (s, Problem 500 ''serverInternal'')
         | Inr s1 \<Rightarrow> (s1\<lparr>sv_accounts := AList.update (ac_url acct) updated (sv_accounts s1)\<rparr>,
                      AccountResp 200 (ac_url acct) contact))"

definition newAccount ::
  "acme_env \<Rightarrow> bool \<Rightarrow> gotime \<Rightarrow> string \<Rightarrow> string \<Rightarrow> ACMEMessage \<Rightarrow> string option \<Rightarrow> acme_server \<Rightarrow> acme_server \<times> acme_response" where
  "newAccount env append_ok now source base msg acct0 s =
     (case en_KeyFromJWK env (am_JWK msg) of
        None \<Rightarrow> (s, Problem 400 ''badPublicKey'')
      | Some key \<Rightarrow>
          (case (if am_Payload msg = [] then Some empty_account_request else en_account_json env (am_Payload msg)) of
             None \<Rightarrow> (s, Problem 400 ''malformed'')
           | Some req \<Rightarrow>
               (let s1 = pruneExpired now s; thumb = en_Thumbprint env key
                in case Option.bind (map_of (sv_byKey s1) thumb) (map_of (sv_accounts s1)) of
                     Some acct \<Rightarrow>
                       (if na_Contact req \<noteq> [] then update_contact append_ok acct msg (na_Contact req) s1
                        else (s1, AccountResp 200 (ac_url acct) (ac_contact acct)))
                   | None \<Rightarrow>
                       if na_OnlyReturnExisting req then (s1, Problem 400 ''accountDoesNotExist'')
                       else
                         let (s2, ok) = consumeSource source ''account'' now s1
                         in if \<not> ok then (s2, RateLimited (qc_SourceWindow (sv_quota s)))
                            else if qc_MaxAccounts (sv_quota s) \<le> int (length (sv_accounts s2))
                            then (s2, RateLimited (qc_SourceWindow (sv_quota s)))
                            else case check_binding env base thumb (na_ExternalAccountBinding req) s2 of
                                   Some r \<Rightarrow> (s2, r)
                                 | None \<Rightarrow> create_account env append_ok base key msg req s2)))"

text \<open>Key rollover: the inner message is signed by the new key and names the account and its old key.\<close>

definition keyChange ::
  "acme_env \<Rightarrow> bool \<Rightarrow> ACMEMessage \<Rightarrow> string option \<Rightarrow> acme_server \<Rightarrow> acme_server \<times> acme_response" where
  "keyChange env append_ok msg acct0 s =
     (case Option.bind acct0 (map_of (sv_accounts s)) of
        None \<Rightarrow> (s, Problem 401 ''unauthorized'')
      | Some acct \<Rightarrow>
        (case en_ParseJWS env (am_Payload msg) of
           None \<Rightarrow> (s, Problem 400 ''malformed'')
         | Some inner \<Rightarrow>
         (case en_KeyFromJWK env (am_JWK inner) of
            None \<Rightarrow> (s, Problem 400 ''badPublicKey'')
          | Some newKey \<Rightarrow>
            if \<not> en_Verify env inner newKey then (s, Problem 400 ''malformed'')
            else
             (case ParseKeyChangeInner env (am_Payload inner) of
                None \<Rightarrow> (s, Problem 400 ''malformed'')
              | Some (bodyAccount, bodyOldKey) \<Rightarrow>
              (case en_KeyFromJWK env bodyOldKey of
                 None \<Rightarrow> (s, Problem 400 ''malformed'')
               | Some oldKey \<Rightarrow>
                 if bodyAccount \<noteq> ac_url acct then (s, Problem 403 ''unauthorized'')
                 else if en_Thumbprint env oldKey \<noteq> en_Thumbprint env (ac_key acct) then (s, Problem 403 ''unauthorized'')
                 else
                   let newThumb = en_Thumbprint env newKey
                   in if (case map_of (sv_byKey s) newThumb of None \<Rightarrow> False | Some other \<Rightarrow> other \<noteq> ac_url acct)
                      then (s, Problem 409 ''accountDoesNotExist'')
                      else
                        let updated = acct\<lparr>ac_id := newThumb, ac_key := newKey, ac_jwk := am_JWK inner\<rparr>
                        in case appendStateEvent append_ok (PAccount (accountEventFrom updated 0)) s of
                             Inl e \<Rightarrow> (s, Problem 500 ''serverInternal'')
                           | Inr s1 \<Rightarrow>
                               (s1\<lparr>sv_byKey := AList.update newThumb (ac_url acct)
                                     (AList.delete (en_Thumbprint env (ac_key acct)) (sv_byKey s1)),
                                   sv_accounts := AList.update (ac_url acct) updated (sv_accounts s1)\<rparr>,
                                AccountStatusResp (ac_url acct)))))))"

definition valid_eab_key :: "string \<times> bytes \<Rightarrow> bool" where
  "valid_eab_key kk = (trim_space (fst kk) \<noteq> '''' \<and> 16 \<le> length (snd kk))"

definition WithExternalAccountBindings ::
  "bool \<Rightarrow> (string \<times> bytes) list \<Rightarrow> acme_server \<Rightarrow> acme_server option" where
  "WithExternalAccountBindings required keys s =
     (if \<not> list_all valid_eab_key keys \<or> \<not> distinct (map (trim_space \<circ> fst) keys)
         \<or> required \<and> keys = [] then None
      else Some (s\<lparr>sv_eabKeys := map (\<lambda>(k, v). (trim_space k, Some v)) keys,
                   sv_externalAccountRequired := required\<rparr>))"

section \<open>Orders\<close>

definition defaultChallengeTypes :: "string list" where
  "defaultChallengeTypes = [ChallengeHTTP01, ChallengeDNS01, ChallengeTLSALPN01]"

datatype dv_error = DVLookup | DVUnknownMethod | DVMethodNotAllowed

definition challengeTypesForDomain :: "acme_env \<Rightarrow> string \<Rightarrow> dv_error + string list" where
  "challengeTypesForDomain env domain =
     (case en_dvPolicy env of
        None \<Rightarrow> Inr defaultChallengeTypes
      | Some policy \<Rightarrow>
          (case policy domain of
             None \<Rightarrow> Inl DVLookup
           | Some (methods, constrained) \<Rightarrow>
               if \<not> constrained then Inr defaultChallengeTypes
               else
                 let ms = filter (\<lambda>m. m \<noteq> '''') (map trim_space methods)
                 in if list_ex (\<lambda>m. \<not> knownMethod m) ms then Inl DVUnknownMethod
                    else let cts = filter (\<lambda>m. m \<in> set ms) defaultChallengeTypes
                         in if cts = [] then Inl DVMethodNotAllowed else Inr cts))"

definition challengeAllowed :: "acme_env \<Rightarrow> string \<Rightarrow> string \<Rightarrow> dv_error option" where
  "challengeAllowed env domain ct =
     (case challengeTypesForDomain env domain of
        Inl e \<Rightarrow> Some e
      | Inr cts \<Rightarrow> if ct \<in> set cts then None else Some DVMethodNotAllowed)"

definition writeDVPolicyProblem :: "dv_error \<Rightarrow> acme_response" where
  "writeDVPolicyProblem e =
     (if e = DVMethodNotAllowed then Problem 400 ''unauthorized'' else Problem 500 ''serverInternal'')"

fun types_for_all :: "acme_env \<Rightarrow> string list \<Rightarrow> dv_error + (string \<times> string list) list" where
  "types_for_all env [] = Inr []"
| "types_for_all env (d # ds) =
     (case challengeTypesForDomain env d of
        Inl e \<Rightarrow> Inl e
      | Inr cts \<Rightarrow> (case types_for_all env ds of Inl e \<Rightarrow> Inl e | Inr rest \<Rightarrow> Inr ((d, cts) # rest)))"

fun mk_challenges :: "(nat \<Rightarrow> string) \<Rightarrow> string \<Rightarrow> string \<Rightarrow> string list \<Rightarrow> nat \<Rightarrow> challenge list" where
  "mk_challenges tok azID st [] n = []"
| "mk_challenges tok azID st (ct # cts) n =
     \<lparr>ch_id = itoa (Suc n), ch_typ = ct, ch_token = tok (Suc n), ch_status = st, ch_authzID = azID\<rparr>
       # mk_challenges tok azID st cts (Suc n)"

text \<open>One authorization per identifier; the ids are drawn from the sequence in the order of creation.\<close>

fun mk_authzs ::
  "(nat \<Rightarrow> string) \<Rightarrow> string \<Rightarrow> string \<Rightarrow> gotime \<Rightarrow> (string \<times> string list) list \<Rightarrow> nat \<Rightarrow>
   (authorization \<times> challenge list) list \<times> nat" where
  "mk_authzs tok oid st now [] n = ([], n)"
| "mk_authzs tok oid st now ((d, cts) # ds) n =
     (let azID = itoa (Suc n);
          chs = mk_challenges tok azID st cts (Suc n);
          (rest, m) = mk_authzs tok oid st now ds (Suc n + length cts)
      in ((\<lparr>az_id = azID, az_orderID = oid, az_domain = d, az_status = st,
            az_challenges = map ch_id chs, az_createdAt = now\<rparr>, chs) # rest, m))"

definition put_authz :: "authorization \<times> challenge list \<Rightarrow> acme_server \<Rightarrow> acme_server" where
  "put_authz ac s =
     s\<lparr>sv_authzs := AList.update (az_id (fst ac)) (fst ac) (sv_authzs s),
       sv_challenges := fold (\<lambda>c m. AList.update (ch_id c) c m) (snd ac) (sv_challenges s)\<rparr>"

definition create_order ::
  "bool \<Rightarrow> (nat \<Rightarrow> string) \<Rightarrow> gotime \<Rightarrow> string \<Rightarrow> string \<Rightarrow> string \<Rightarrow> (string \<times> string list) list \<Rightarrow>
   acme_server \<Rightarrow> acme_server \<times> acme_response" where
  "create_order append_ok tok now url authMode replaces types s =
     (let trusted = (authMode = ''trust_authenticated'');
          oid = itoa (Suc (sv_seq s));
          (azs, n) = mk_authzs tok oid (if trusted then ''valid'' else ''pending'') now types (Suc (sv_seq s));
          ord = \<lparr>od_id = oid, od_accountURL = url, od_domains = map fst types,
               od_authzIDs = map (az_id \<circ> fst) azs,
               od_status = (if trusted then ''ready'' else ''pending''), od_authMode = authMode,
               od_certID = '''', od_replaces = replaces, od_createdAt = now\<rparr>;
          s1 = s\<lparr>sv_seq := n\<rparr>
      in case appendStateEvent append_ok (POrder \<lparr>oe_Seq = n, oe_Order = ord, oe_Authorizations = azs\<rparr>) s1 of
           Inl e \<Rightarrow> (s1, Problem 500 ''serverInternal'')
         | Inr s2 \<Rightarrow>
             (let s3 = fold put_authz azs s2
              in (s3\<lparr>sv_orders := AList.update oid ord (sv_orders s3)\<rparr>, OrderResp 201 ord)))"

text \<open>\<open>limit\<close> is the account limiter's answer: \<open>None\<close> an error, otherwise allowed and the retry delay.\<close>

definition newOrder ::
  "acme_env \<Rightarrow> bool \<Rightarrow> (nat \<Rightarrow> string) \<Rightarrow> (bool \<times> duration) option \<Rightarrow> gotime \<Rightarrow> string \<Rightarrow> ACMEMessage \<Rightarrow>
   string option \<Rightarrow> acme_server \<Rightarrow> acme_server \<times> acme_response" where
  "newOrder env append_ok tok limit now source msg acct0 s =
     (case Option.bind acct0 (map_of (sv_accounts s)) of
        None \<Rightarrow> (s, Problem 401 ''unauthorized'')
      | Some acct \<Rightarrow>
        (case ParseOrderRequest env (am_Payload msg) of
           None \<Rightarrow> (s, Problem 400 ''malformed'')
         | Some (domains, replaces) \<Rightarrow>
         (case (if 0 < qc_MaxNewOrdersPerAccount (sv_quota s) then limit else Some (True, 0)) of
            None \<Rightarrow> (s, Problem 500 ''serverInternal'')
          | Some (allowed, retryAfter) \<Rightarrow>
          if \<not> allowed then (s, RateLimited retryAfter)
          else
            let authMode = or_default ''public_trust'' (sv_authMode s);
                trusted = (authMode = ''trust_authenticated'')
            in case (if trusted then Inr (map (\<lambda>d. (d, [ChallengeHTTP01])) domains) else types_for_all env domains) of
                 Inl e \<Rightarrow> (s, writeDVPolicyProblem e)
               | Inr types \<Rightarrow>
                   let (s1, ok) = consumeSource source ''order'' now (pruneExpired now s);
                       q = sv_quota s; limited = RateLimited (qc_SourceWindow q);
                       authzDelta = (if trusted then 0 else length domains);
                       challengeDelta = (if trusted then 0 else sum_list (map (length \<circ> snd) types))
                   in if \<not> ok then (s1, limited)
                      else if qc_MaxPendingOrders q \<le> int (pendingOrders '''' s1) then (s1, limited)
                      else if qc_MaxPendingOrdersPerAccount q \<le> int (pendingOrders (ac_url acct) s1) then (s1, limited)
                      else if qc_MaxPendingAuthorizations q < int (pendingAuthzs s1 + authzDelta) then (s1, limited)
                      else if qc_MaxPendingChallenges q < int (pendingChallenges s1 + challengeDelta) then (s1, limited)
                      else create_order append_ok tok now (ac_url acct) authMode replaces types s1)))"

definition getAuthz :: "string \<Rightarrow> acme_server \<Rightarrow> acme_response" where
  "getAuthz i s =
     (case map_of (sv_authzs s) i of
        None \<Rightarrow> Problem 404 ''malformed''
      | Some az \<Rightarrow> AuthzResp az (List.map_filter (map_of (sv_challenges s)) (az_challenges az)))"

definition getOrder :: "string \<Rightarrow> acme_server \<Rightarrow> acme_response" where
  "getOrder i s =
     (case map_of (sv_orders s) i of None \<Rightarrow> Problem 404 ''malformed'' | Some ord \<Rightarrow> OrderResp 200 ord)"

definition getCert :: "string \<Rightarrow> acme_server \<Rightarrow> acme_response" where
  "getCert i s =
     (case map_of (sv_certs s) i of None \<Rightarrow> Problem 404 ''malformed'' | Some pem \<Rightarrow> CertResp pem)"

section \<open>Challenges\<close>

text \<open>The call the validator receives: the type, the domain, the token and the key authorization.\<close>

type_synonym validation = "string \<times> string \<times> string \<times> string"

definition accept_begin ::
  "acme_env \<Rightarrow> string \<Rightarrow> string option \<Rightarrow> acme_server \<Rightarrow> acme_response + validation" where
  "accept_begin env i acct0 s =
     (case map_of (sv_challenges s) i of
        None \<Rightarrow> Inl (Problem 404 ''malformed'')
      | Some ch \<Rightarrow>
          (case map_of (sv_authzs s) (ch_authzID ch) of
             None \<Rightarrow> Inl (Problem 404 ''malformed'')
           | Some az \<Rightarrow>
               (case challengeAllowed env (az_domain az) (ch_typ ch) of
                  Some e \<Rightarrow> Inl (writeDVPolicyProblem e)
                | None \<Rightarrow>
                    (case Option.bind acct0 (map_of (sv_accounts s)) of
                       None \<Rightarrow> Inl (Panic False)
                     | Some acct \<Rightarrow>
                         Inr (ch_typ ch, az_domain az, ch_token ch,
                              ch_token ch @ ''.'' @ en_Thumbprint env (ac_key acct))))))"

text \<open>
  Between the two locked sections: the managed publication of the DNS record, where it is configured,
  and the validator. \<open>None\<close> lets the handler go on.
\<close>

definition accept_checks ::
  "(validation \<Rightarrow> bool) option \<Rightarrow> (validation \<Rightarrow> bool) \<Rightarrow> validation \<Rightarrow> acme_response option" where
  "accept_checks present validate v =
     (if fst v = ChallengeDNS01 \<and> (case present of None \<Rightarrow> False | Some p \<Rightarrow> \<not> p v)
      then Some (Problem 400 ''unauthorized'')
      else if \<not> validate v then Some (Problem 400 ''unauthorized'')
      else None)"

definition others_valid :: "acme_order \<Rightarrow> string \<Rightarrow> acme_server \<Rightarrow> bool" where
  "others_valid ord azID s =
     list_all (\<lambda>i. i = azID \<or> (case map_of (sv_authzs s) i of None \<Rightarrow> False | Some az \<Rightarrow> az_status az = ''valid''))
       (od_authzIDs ord)"

definition allAuthzValid :: "acme_order \<Rightarrow> acme_server \<Rightarrow> bool" where
  "allAuthzValid ord s =
     list_all (\<lambda>i. case map_of (sv_authzs s) i of None \<Rightarrow> False | Some az \<Rightarrow> az_status az = ''valid'')
       (od_authzIDs ord)"

definition challengeValidatedEventFrom ::
  "challenge \<Rightarrow> authorization \<Rightarrow> acme_order option \<Rightarrow> string \<Rightarrow> acmeChallengeValidatedEvent" where
  "challengeValidatedEventFrom ch az mo orderStatus =
     \<lparr>ve_ChallengeID = ch_id ch, ve_AuthzID = az_id az,
      ve_OrderID = (case mo of None \<Rightarrow> az_orderID az | Some ord \<Rightarrow> od_id ord),
      ve_ChallengeStatus = ''valid'', ve_AuthzStatus = ''valid'',
      ve_OrderStatus = (case mo of None \<Rightarrow> '''' | Some _ \<Rightarrow> orderStatus)\<rparr>"

definition accept_commit :: "bool \<Rightarrow> string \<Rightarrow> acme_server \<Rightarrow> acme_server \<times> acme_response" where
  "accept_commit append_ok i s =
     (case map_of (sv_challenges s) i of
        None \<Rightarrow> (s, Problem 404 ''malformed'')
      | Some ch \<Rightarrow>
          (case map_of (sv_authzs s) (ch_authzID ch) of
             None \<Rightarrow> (s, Problem 404 ''malformed'')
           | Some az \<Rightarrow>
               (let mo = map_of (sv_orders s) (az_orderID az);
                    orderStatus = (case mo of None \<Rightarrow> ''''
                      | Some ord \<Rightarrow> if others_valid ord (az_id az) s then ''ready'' else od_status ord)
                in case appendStateEvent append_ok (PValidated (challengeValidatedEventFrom ch az mo orderStatus)) s of
                     Inl e \<Rightarrow> (s, Problem 500 ''serverInternal'')
                   | Inr s1 \<Rightarrow>
                       (let s2 = set_validated ch i az (ch_authzID ch) ''valid'' ''valid'' s1
                        in ((case map_of (sv_orders s2) (az_orderID az) of
                               None \<Rightarrow> s2
                             | Some ord \<Rightarrow> if allAuthzValid ord s2
                                        then set_order_status (az_orderID az) ''ready'' s2 else s2),
                            ChallengeResp (ch\<lparr>ch_status := ''valid''\<rparr>))))))"

text \<open>The whole handler, run without interruption.\<close>

definition acceptChallenge ::
  "acme_env \<Rightarrow> (validation \<Rightarrow> bool) option \<Rightarrow> (validation \<Rightarrow> bool) \<Rightarrow> bool \<Rightarrow> string \<Rightarrow> ACMEMessage \<Rightarrow>
   string option \<Rightarrow> acme_server \<Rightarrow> acme_server \<times> acme_response" where
  "acceptChallenge env present validate append_ok i msg acct0 s =
     (case accept_begin env i acct0 s of
        Inl r \<Rightarrow> (s, r)
      | Inr v \<Rightarrow>
          (case accept_checks present validate v of
             Some r \<Rightarrow> (s, r)
           | None \<Rightarrow> accept_commit append_ok i s))"

section \<open>Issuance and revocation\<close>

datatype issue_call = IssueCall (ic_order: string) (ic_csr: bytes) (ic_names: "string list")

definition finalize_begin :: "acme_env \<Rightarrow> string \<Rightarrow> ACMEMessage \<Rightarrow> acme_server \<Rightarrow> acme_response + issue_call" where
  "finalize_begin env i msg s =
     (case map_of (sv_orders s) i of
        None \<Rightarrow> Inl (Problem 404 ''malformed'')
      | Some ord \<Rightarrow>
          if od_status ord = ''valid'' \<and> od_certID ord \<noteq> '''' then Inl (OrderResp 200 ord)
          else if od_status ord \<noteq> ''ready'' then Inl (Problem 403 ''orderNotReady'')
          else case ParseFinalizeRequest env (am_Payload msg) of
                 None \<Rightarrow> Inl (Problem 400 ''badCSR'')
               | Some csr \<Rightarrow> Inr (IssueCall (od_id ord) csr (od_domains ord)))"

definition certificateIssuedEventFrom ::
  "acme_env \<Rightarrow> string \<Rightarrow> string \<Rightarrow> string \<Rightarrow> bytes \<Rightarrow> string \<Rightarrow> nat \<Rightarrow> acmeCertificateIssuedEvent" where
  "certificateIssuedEventFrom env oid certID url pem serial n =
     (case en_pem_details env pem of
        None \<Rightarrow>
          \<lparr>ie_Seq = n, ie_OrderID = oid, ie_CertID = certID, ie_CertificatePEM = pem, ie_ARICertID = '''',
           ie_NotBefore = 0, ie_NotAfter = 0, ie_Fingerprint = '''',
           ie_Issued = \<lparr>ic_accountURL = url, ic_keyThumb = '''', ic_serial = serial, ic_certID = certID\<rparr>\<rparr>
      | Some d \<Rightarrow>
          \<lparr>ie_Seq = n, ie_OrderID = oid, ie_CertID = certID, ie_CertificatePEM = pem,
           ie_ARICertID = (case cd_ARICertID d of None \<Rightarrow> '''' | Some c \<Rightarrow> c),
           ie_NotBefore = (case cd_Validity d of None \<Rightarrow> 0 | Some (nb, na, sn) \<Rightarrow> nb),
           ie_NotAfter = (case cd_Validity d of None \<Rightarrow> 0 | Some (nb, na, sn) \<Rightarrow> na),
           ie_Fingerprint = (case cd_Fingerprint d of None \<Rightarrow> '''' | Some f \<Rightarrow> f),
           ie_Issued = \<lparr>ic_accountURL = url,
             ic_keyThumb = (case cd_KeyThumb d of None \<Rightarrow> '''' | Some t \<Rightarrow> t),
             ic_serial = (if serial = '''' then (case cd_Validity d of None \<Rightarrow> '''' | Some (nb, na, sn) \<Rightarrow> sn) else serial),
             ic_certID = certID\<rparr>\<rparr>)"

definition finalize_commit ::
  "acme_env \<Rightarrow> bool \<Rightarrow> string \<Rightarrow> bytes \<Rightarrow> string \<Rightarrow> string option \<Rightarrow> acme_server \<Rightarrow> acme_server \<times> acme_response" where
  "finalize_commit env append_ok oid pem serial acct0 s =
     (let n = Suc (sv_seq s); s1 = s\<lparr>sv_seq := n\<rparr>
      in case Option.bind acct0 (map_of (sv_accounts s)) of
           None \<Rightarrow> (s1, Panic True)
         | Some acct \<Rightarrow>
             (let p = certificateIssuedEventFrom env oid (itoa n) (ac_url acct) pem serial n
              in case appendStateEvent append_ok (PIssued p) s1 of
                   Inl e \<Rightarrow> (s1, Problem 500 ''serverInternal'')
                 | Inr s2 \<Rightarrow>
                     (case applyCertificateIssuedEvent p s2 of
                        Inl e \<Rightarrow> (s2, Problem 500 ''serverInternal'')
                      | Inr s3 \<Rightarrow> (s3, (case map_of (sv_orders s3) oid of
                                         None \<Rightarrow> Problem 500 ''serverInternal''
                                       | Some ord \<Rightarrow> OrderResp 200 ord)))))"

text \<open>\<open>issue\<close> is the authority: the certificate and its serial, or an error.\<close>

definition finalize ::
  "acme_env \<Rightarrow> (issue_call \<Rightarrow> (bytes \<times> string) option) \<Rightarrow> bool \<Rightarrow> string \<Rightarrow> ACMEMessage \<Rightarrow> string option \<Rightarrow>
   acme_server \<Rightarrow> acme_server \<times> acme_response" where
  "finalize env issue append_ok i msg acct0 s =
     (case finalize_begin env i msg s of
        Inl r \<Rightarrow> (s, r)
      | Inr c \<Rightarrow>
          (case issue c of
             None \<Rightarrow> (s, Problem 500 ''serverInternal'')
           | Some (pem, serial) \<Rightarrow> finalize_commit env append_ok (ic_order c) pem serial acct0 s))"

definition may_revoke :: "acme_env \<Rightarrow> ACMEMessage \<Rightarrow> string option \<Rightarrow> issuedCert \<Rightarrow> bool" where
  "may_revoke env msg acct0 ic =
     (case acct0 of
        Some url \<Rightarrow> ic_accountURL ic = url
      | None \<Rightarrow>
          am_JWK msg \<noteq> [] \<and>
          (case en_KeyFromJWK env (am_JWK msg) of
             None \<Rightarrow> False
           | Some key \<Rightarrow> ic_keyThumb ic \<noteq> '''' \<and> en_Thumbprint env key = ic_keyThumb ic))"

definition revoke_begin ::
  "acme_env \<Rightarrow> ACMEMessage \<Rightarrow> string option \<Rightarrow> acme_server \<Rightarrow> acme_response + string \<times> string \<times> int" where
  "revoke_begin env msg acct0 s =
     (case ParseRevokeRequest env (am_Payload msg) of
        None \<Rightarrow> Inl (Problem 400 ''malformed'')
      | Some (der, reason) \<Rightarrow>
          (let fp = en_certFingerprint env der
           in if fp = '''' then Inl (Problem 400 ''malformed'')
              else case map_of (sv_issued s) fp of
                     None \<Rightarrow> Inl (Problem 404 ''malformed'')
                   | Some ic \<Rightarrow>
                       if map_of (sv_revoked s) fp \<noteq> None then Inl (Problem 400 ''alreadyRevoked'')
                       else if \<not> may_revoke env msg acct0 ic then Inl (Problem 403 ''unauthorized'')
                       else Inr (fp, ic_serial ic, reason)))"

definition revoke_commit :: "bool \<Rightarrow> string \<Rightarrow> string \<Rightarrow> int \<Rightarrow> gotime \<Rightarrow> acme_server \<Rightarrow> acme_server \<times> acme_response" where
  "revoke_commit append_ok fp serial reason at s =
     (if map_of (sv_revoked s) fp \<noteq> None then (s, EmptyResp 200)
      else case appendStateEvent append_ok
                  (PRevoked \<lparr>re_Fingerprint = fp, re_Serial = serial, re_Reason = reason, re_At = at\<rparr>) s of
             Inl e \<Rightarrow> (s, Problem 500 ''serverInternal'')
           | Inr s1 \<Rightarrow>
               (s1\<lparr>sv_revoked := AList.update fp \<lparr>rv_serial = serial, rv_reason = reason, rv_at = at\<rparr> (sv_revoked s1)\<rparr>,
                EmptyResp 200))"

definition revokeCert ::
  "acme_env \<Rightarrow> (string \<times> string \<times> int \<Rightarrow> bool) option \<Rightarrow> bool \<Rightarrow> gotime \<Rightarrow> ACMEMessage \<Rightarrow> string option \<Rightarrow>
   acme_server \<Rightarrow> acme_server \<times> acme_response" where
  "revokeCert env hook append_ok now msg acct0 s =
     (case revoke_begin env msg acct0 s of
        Inl r \<Rightarrow> (s, r)
      | Inr (fp, serial, reason) \<Rightarrow>
          if (case hook of None \<Rightarrow> False | Some h \<Rightarrow> \<not> h (fp, serial, reason))
          then (s, Problem 500 ''serverInternal'')
          else revoke_commit append_ok fp serial reason now s)"

definition IsRevoked :: "string \<Rightarrow> acme_server \<Rightarrow> string \<times> bool" where
  "IsRevoked fp s = (case map_of (sv_revoked s) fp of None \<Rightarrow> ('''', False) | Some r \<Rightarrow> (rv_serial r, True))"

definition renewalInfo :: "acme_env \<Rightarrow> gotime \<Rightarrow> string \<Rightarrow> acme_server \<Rightarrow> acme_response" where
  "renewalInfo env now certid s =
     (if \<not> ValidCertID (en_base64url env) certid then Problem 400 ''malformed''
      else case map_of (sv_ariWindows s) certid of
             None \<Rightarrow> Problem 404 ''malformed''
           | Some (nb, na) \<Rightarrow> RenewalResp (SuggestWindow nb na now (certid \<in> set (sv_earlyRenew s))))"

definition MarkEarlyRenewal :: "bool \<Rightarrow> string \<Rightarrow> acme_server \<Rightarrow> state_error + acme_server" where
  "MarkEarlyRenewal append_ok certID s =
     (if certID \<in> set (sv_earlyRenew s) then Inr s
      else case appendStateEvent append_ok (PEarlyRenewal certID) s of
             Inl e \<Rightarrow> Inl e
           | Inr s1 \<Rightarrow> Inr (s1\<lparr>sv_earlyRenew := List.insert certID (sv_earlyRenew s1)\<rparr>))"

end
