(* ===== verification/AcmeSafety.thy ===== *)
theory AcmeSafety
  imports AcmeServer
begin

text \<open>
  Runs of the ACME server. A run interleaves the locked sections of any number of requests; two
  ghost components remember which validations the validator accepted and which issuance calls were
  made. The invariant ties an order to its authorizations and the authorizations to accepted
  validations, and the theorems read it off: no certificate is asked for before every name of the
  order was validated.
\<close>

section \<open>Identifiers\<close>

text \<open>The ids handed out so far.\<close>

definition known :: "nat \<Rightarrow> string \<Rightarrow> bool" where
  "known n i = (\<exists>m \<le> n. i = itoa m)"

lemma itoa_inject [simp]: "itoa m = itoa n \<longleftrightarrow> m = n"
  using digits_val_itoa by (metis option.inject)

lemma known_mono: "known n i \<Longrightarrow> n \<le> m \<Longrightarrow> known m i"
  by (auto simp: known_def intro: order_trans)

lemma known_itoa [simp]: "known n (itoa m) \<longleftrightarrow> m \<le> n"
  by (auto simp: known_def)

lemma known_not_fresh: "known n i \<Longrightarrow> n < m \<Longrightarrow> i \<noteq> itoa m"
  by (auto simp: known_def)

section \<open>Runs\<close>

text \<open>
  The requests on a challenge: one that has read the challenge, one whose checks let the handler go on, and,
  as a ghost, the validations the validator has accepted.
\<close>

datatype stage = Begun | Passed | Accepted

type_synonym checks = "(stage \<times> string \<times> validation) set"

record run_state =
  rs_server :: acme_server
  rs_checks :: checks
  rs_calls :: "issue_call set"

text \<open>
  The commit of a revocation belongs to a request that passed the checks in some earlier state.
  In a timely run no order expires while its certificate is being issued. An early renewal names
  a certificate; what the empty name does is a theorem of \<open>AcmeReplay\<close>.
\<close>

inductive acme_step :: "acme_env \<Rightarrow> bool \<Rightarrow> run_state \<Rightarrow> run_state \<Rightarrow> bool" for env timely where
  step_nonce: "acme_step env timely r (r\<lparr>rs_server := fst (newNonce now src drawn (rs_server r))\<rparr>)"
| step_begin: "acme_step env timely r (r\<lparr>rs_server := fst (jws_begin env now body (rs_server r))\<rparr>)"
| step_fresh: "acme_step env timely r (r\<lparr>rs_server := fst (jws_nonce now drawn (rs_server r))\<rparr>)"
| step_account: "acme_step env timely r (r\<lparr>rs_server := fst (newAccount env ok now src base msg acct (rs_server r))\<rparr>)"
| step_key: "acme_step env timely r (r\<lparr>rs_server := fst (keyChange env ok msg acct (rs_server r))\<rparr>)"
| step_order: "acme_step env timely r (r\<lparr>rs_server := fst (newOrder env ok tok limit now src msg acct (rs_server r))\<rparr>)"
| step_challenge: "accept_begin env i acct (rs_server r) = Inr v \<Longrightarrow>
    acme_step env timely r (r\<lparr>rs_checks := insert (Begun, i, v) (rs_checks r)\<rparr>)"
| step_validate: "(Begun, i, v) \<in> rs_checks r \<Longrightarrow>
    acme_step env timely r (r\<lparr>rs_checks := rs_checks r \<union> (if validate v then {(Accepted, i, v)} else {})
      \<union> (if accept_checks present validate v = None then {(Passed, i, v)} else {})\<rparr>)"
| step_accept: "(Passed, i, v) \<in> rs_checks r \<Longrightarrow>
    acme_step env timely r (r\<lparr>rs_server := fst (accept_commit ok i (rs_server r))\<rparr>)"
| step_issue: "finalize_begin env i msg (rs_server r) = Inr c \<Longrightarrow>
    acme_step env timely r (r\<lparr>rs_calls := insert c (rs_calls r)\<rparr>)"
| step_finalize: "c \<in> rs_calls r \<Longrightarrow>
    (timely \<Longrightarrow> map_of (sv_orders (rs_server r)) (ic_order c) \<noteq> None) \<Longrightarrow>
    acme_step env timely r (r\<lparr>rs_server := fst (finalize_commit env ok (ic_order c) pem serial acct (rs_server r))\<rparr>)"
| step_revoke: "revoke_begin env msg acct s0 = Inr (fp, serial, reason) \<Longrightarrow>
    acme_step env timely r (r\<lparr>rs_server := fst (revoke_commit ok fp serial reason now (rs_server r))\<rparr>)"
| step_early: "MarkEarlyRenewal ok certID (rs_server r) = Inr s' \<Longrightarrow> certID \<noteq> '''' \<Longrightarrow>
    acme_step env timely r (r\<lparr>rs_server := s'\<rparr>)"

definition initial_run :: "acme_server \<Rightarrow> run_state" where
  "initial_run s = \<lparr>rs_server = s, rs_checks = {}, rs_calls = {}\<rparr>"

section \<open>The invariant\<close>

definition names_validated :: "checks \<Rightarrow> string \<Rightarrow> bool" where
  "names_validated V d = (\<exists>i ty tok ka. (Accepted, i, ty, d, tok, ka) \<in> V)"

text \<open>An order against the authorizations: one per name, and validated where the status says so.\<close>

definition order_ok ::
  "(string \<rightharpoonup> authorization) \<Rightarrow> nat \<Rightarrow> checks \<Rightarrow> string \<Rightarrow> acme_order \<Rightarrow> bool" where
  "order_ok A n V k ord =
     (od_id ord = k \<and> known n k
      \<and> list_all2 (\<lambda>i d. \<exists>az. A i = Some az \<and> az_domain az = d \<and> az_orderID az = k) (od_authzIDs ord) (od_domains ord)
      \<and> (od_status ord \<in> {''ready'', ''valid''} \<longrightarrow>
           (\<forall>i \<in> set (od_authzIDs ord). \<exists>az. A i = Some az \<and> az_status az = ''valid''))
      \<and> (od_authMode ord \<noteq> ''trust_authenticated'' \<longrightarrow>
           (\<forall>i \<in> set (od_authzIDs ord). \<forall>az. A i = Some az \<longrightarrow> az_status az = ''valid'' \<longrightarrow> names_validated V (az_domain az))))"

definition challenge_ok :: "nat \<Rightarrow> string \<Rightarrow> challenge \<Rightarrow> bool" where
  "challenge_ok n i ch = (ch_id ch = i \<and> known n i \<and> known n (ch_authzID ch))"

definition validated_ok ::
  "(string \<rightharpoonup> authorization) \<Rightarrow> (string \<rightharpoonup> challenge) \<Rightarrow> nat \<Rightarrow> stage \<times> string \<times> validation \<Rightarrow> bool" where
  "validated_ok A C n v =
     (known n (fst (snd v)) \<and>
      (\<forall>ch az. C (fst (snd v)) = Some ch \<longrightarrow> A (ch_authzID ch) = Some az \<longrightarrow> az_domain az = fst (snd (snd (snd v)))))"

definition call_ok :: "(string \<rightharpoonup> acme_order) \<Rightarrow> nat \<Rightarrow> issue_call \<Rightarrow> bool" where
  "call_ok O1 n c =
     (known n (ic_order c) \<and>
      (\<forall>ord. O1 (ic_order c) = Some ord \<longrightarrow> od_status ord \<in> {''ready'', ''valid''}))"

definition core_inv ::
  "(string \<rightharpoonup> acme_order) \<Rightarrow> (string \<rightharpoonup> authorization) \<Rightarrow> (string \<rightharpoonup> challenge) \<Rightarrow> nat \<Rightarrow>
   checks \<Rightarrow> issue_call set \<Rightarrow> bool" where
  "core_inv O1 A C n V I =
     ((\<forall>k ord. O1 k = Some ord \<longrightarrow> order_ok A n V k ord)
      \<and> (\<forall>i az. A i = Some az \<longrightarrow> az_id az = i \<and> known n i)
      \<and> (\<forall>i ch. C i = Some ch \<longrightarrow> challenge_ok n i ch)
      \<and> (\<forall>v \<in> V. validated_ok A C n v)
      \<and> (\<forall>c \<in> I. call_ok O1 n c))"

definition acme_inv :: "acme_server \<Rightarrow> checks \<Rightarrow> issue_call set \<Rightarrow> bool" where
  "acme_inv s V I =
     core_inv (map_of (sv_orders s)) (map_of (sv_authzs s)) (map_of (sv_challenges s)) (sv_seq s) V I"

lemma list_all2_snd_mono:
  "list_all2 P xs ys \<Longrightarrow> (\<And>x y. x \<in> set xs \<Longrightarrow> P x y \<Longrightarrow> Q x y) \<Longrightarrow> list_all2 Q xs ys"
  by (erule list.rel_mono_strong)

text \<open>Removing orders together with only their own authorizations keeps the invariant.\<close>

lemma core_inv_shrink:
  assumes inv: "core_inv O1 A C n V I" and "O2 \<subseteq>\<^sub>m O1" and "A2 \<subseteq>\<^sub>m A" and "C2 \<subseteq>\<^sub>m C" and "n \<le> m"
    and keep: "\<And>k ord i. O2 k = Some ord \<Longrightarrow> i \<in> set (od_authzIDs ord) \<Longrightarrow> A2 i = A i"
  shows "core_inv O2 A2 C2 m V I"
proof -
  have sub: "O2 k = Some ord \<Longrightarrow> O1 k = Some ord" "A2 i = Some az \<Longrightarrow> A i = Some az"
    "C2 j = Some ch \<Longrightarrow> C j = Some ch" for k ord i az j ch
    using assms(2-4) by (auto simp: map_le_def dom_def)
  have "order_ok A2 m V k ord" if k: "O2 k = Some ord" for k ord
  proof -
    have ok: "order_ok A n V k ord" using inv sub(1) [OF k] by (simp add: core_inv_def)
    have same: "i \<in> set (od_authzIDs ord) \<Longrightarrow> A2 i = A i" for i using keep [OF k] .
    show ?thesis
      using ok same known_mono [OF _ assms(5)] unfolding order_ok_def
      by (auto elim!: list_all2_snd_mono)
  qed
  moreover have "challenge_ok m j ch" if "C2 j = Some ch" for j ch
    using inv sub(3) [OF that] known_mono [OF _ assms(5)] by (auto simp: core_inv_def challenge_ok_def)
  moreover have "validated_ok A2 C2 m v" if "v \<in> V" for v
    using inv that sub known_mono [OF _ assms(5)] unfolding core_inv_def validated_ok_def by blast
  moreover have "call_ok O2 m c" if "c \<in> I" for c
    using inv that sub known_mono [OF _ assms(5)] unfolding core_inv_def call_ok_def by blast
  moreover have "A2 i = Some az \<Longrightarrow> az_id az = i \<and> known m i" for i az
    using inv sub(2) known_mono [OF _ assms(5)] unfolding core_inv_def by blast
  ultimately show ?thesis by (simp add: core_inv_def)
qed

section \<open>Operations that leave the orders alone\<close>

definition same_core :: "acme_server \<Rightarrow> acme_server \<Rightarrow> bool" where
  "same_core s s' = (sv_orders s' = sv_orders s \<and> sv_authzs s' = sv_authzs s
     \<and> sv_challenges s' = sv_challenges s \<and> sv_seq s' = sv_seq s)"

lemma same_core_refl [simp]: "same_core s s"
  by (simp add: same_core_def)

lemma same_core_trans: "same_core a b \<Longrightarrow> same_core b c \<Longrightarrow> same_core a c"
  by (simp add: same_core_def)

lemma same_core_inv: "same_core s s' \<Longrightarrow> acme_inv s' V I = acme_inv s V I"
  by (simp add: same_core_def acme_inv_def)

lemma appendStateEvent_core: "appendStateEvent ok p s = Inr s' \<Longrightarrow> same_core s s'"
  by (auto simp: appendStateEvent_def same_core_def split: option.splits if_splits)

lemma consumeSource_core: "same_core s (fst (consumeSource src kind now s))"
  by (simp add: consumeSource_def same_core_def Let_def)

lemma consumeSource_core': "consumeSource src kind now s = (s', ok) \<Longrightarrow> same_core s s'"
  using consumeSource_core [of s src kind now] by simp

lemma mintNonce_core: "mintNonce now drawn s = Some s' \<Longrightarrow> same_core s s'"
  by (auto simp: mintNonce_def same_core_def split: if_splits)

section \<open>Expiry\<close>

lemma fold_delete_map_le: "map_of (fold AList.delete ks m) \<subseteq>\<^sub>m map_of m"
proof (induction ks arbitrary: m)
  case (Cons k ks)
  have "map_of (AList.delete k m) \<subseteq>\<^sub>m map_of m" by (auto simp: map_le_def AList.delete_conv')
  with Cons show ?case by (auto intro: map_le_trans)
qed simp

lemma delete_authz_core:
  "sv_orders (delete_authz i s) = sv_orders s" "sv_seq (delete_authz i s) = sv_seq s"
  "map_of (sv_authzs (delete_authz i s)) = (map_of (sv_authzs s))(i := None)"
  "map_of (sv_challenges (delete_authz i s)) \<subseteq>\<^sub>m map_of (sv_challenges s)"
  by (auto simp: delete_authz_def AList.delete_conv' fold_delete_map_le split: option.splits)

lemma fold_delete_authz_core:
  "sv_orders (fold delete_authz is s) = sv_orders s" "sv_seq (fold delete_authz is s) = sv_seq s"
  "map_of (sv_authzs (fold delete_authz is s)) = map_of (sv_authzs s) |` (- set is)"
  "map_of (sv_challenges (fold delete_authz is s)) \<subseteq>\<^sub>m map_of (sv_challenges s)"
proof (induction "is" arbitrary: s)
  case (Cons i "is")
  {
    case 1 show ?case by (simp add: Cons delete_authz_core)
  next
    case 2 show ?case by (simp add: Cons delete_authz_core)
  next
    case 3 show ?case by (auto simp: Cons(3) delete_authz_core(3) restrict_map_def fun_eq_iff)
  next
    case 4 show ?case using Cons(4) delete_authz_core(4) by (auto intro: map_le_trans)
  }
qed (simp_all add: restrict_map_def)

lemma list_all2_in_set: "list_all2 P xs ys \<Longrightarrow> x \<in> set xs \<Longrightarrow> \<exists>y. P x y"
  by (induction rule: list_all2_induct) auto

lemma order_authz_owner:
  assumes "core_inv O1 A C n V I" and "O1 k = Some ord" and "i \<in> set (od_authzIDs ord)"
  obtains az where "A i = Some az" and "az_orderID az = k"
proof -
  have "list_all2 (\<lambda>i d. \<exists>az. A i = Some az \<and> az_domain az = d \<and> az_orderID az = k) (od_authzIDs ord) (od_domains ord)"
    using assms(1,2) by (simp add: core_inv_def order_ok_def)
  from list_all2_in_set [OF this assms(3)] that show ?thesis by blast
qed

lemma deleteOrderState_inv:
  assumes inv: "acme_inv s V I"
  shows "acme_inv (deleteOrderState oid s) V I"
proof (cases "map_of (sv_orders s) oid")
  case (Some ord)
  let ?s1 = "fold delete_authz (od_authzIDs ord) s"
  let ?O2 = "(map_of (sv_orders s))(oid := None)"
  have "core_inv ?O2 (map_of (sv_authzs ?s1)) (map_of (sv_challenges ?s1)) (sv_seq s) V I"
  proof (rule core_inv_shrink [OF inv [unfolded acme_inv_def]])
    show "map_of (sv_authzs ?s1) i = map_of (sv_authzs s) i"
      if "?O2 k = Some ord'" "i \<in> set (od_authzIDs ord')" for k ord' i
    proof -
      have k: "k \<noteq> oid" "map_of (sv_orders s) k = Some ord'" using that(1) by (auto split: if_splits)
      have "i \<notin> set (od_authzIDs ord)"
        using order_authz_owner [OF inv [unfolded acme_inv_def] k(2) that(2)]
          order_authz_owner [OF inv [unfolded acme_inv_def] Some] k(1) by (metis option.inject)
      then show ?thesis by (simp add: fold_delete_authz_core restrict_map_def)
    qed
    show "map_of (sv_authzs ?s1) \<subseteq>\<^sub>m map_of (sv_authzs s)"
      by (auto simp: fold_delete_authz_core map_le_def restrict_map_def)
  qed (simp_all add: fold_delete_authz_core)
  then show ?thesis
    by (simp add: deleteOrderState_def Some acme_inv_def AList.delete_conv' fold_delete_authz_core Let_def)
qed (simp add: deleteOrderState_def inv)

lemma fold_deleteOrderState_inv: "acme_inv s V I \<Longrightarrow> acme_inv (fold deleteOrderState ks s) V I"
  by (induction ks arbitrary: s) (auto intro: deleteOrderState_inv)

lemma pruneExpired_inv: "acme_inv s V I \<Longrightarrow> acme_inv (pruneExpired now s) V I"
  unfolding pruneExpired_def Let_def
  by (rule fold_deleteOrderState_inv) (simp add: acme_inv_def)

lemma newNonce_inv: "acme_inv s V I \<Longrightarrow> acme_inv (fst (newNonce now src drawn s)) V I"
  using pruneExpired_inv [of s V I now]
  by (auto simp: newNonce_def split: prod.splits option.splits
      dest!: consumeSource_core' mintNonce_core dest: same_core_inv [of _ _ V I])

lemma jws_begin_inv: "acme_inv s V I \<Longrightarrow> acme_inv (fst (jws_begin env now body s)) V I"
proof -
  assume "acme_inv s V I"
  then have p: "acme_inv (pruneExpired now s) V I" by (rule pruneExpired_inv)
  have "acme_inv ((pruneExpired now s)\<lparr>sv_nonces := ns\<rparr>) V I" for ns
    using p by (simp add: acme_inv_def)
  with \<open>acme_inv s V I\<close> p show ?thesis
    by (auto simp: jws_begin_def Let_def split: option.splits)
qed

lemma jws_nonce_inv: "acme_inv s V I \<Longrightarrow> acme_inv (fst (jws_nonce now drawn s)) V I"
  using pruneExpired_inv [of s V I now]
  by (auto simp: jws_nonce_def Let_def split: option.splits dest!: mintNonce_core dest: same_core_inv [of _ _ V I])

section \<open>Accounts\<close>

lemma acme_inv_seq: "acme_inv s V I \<Longrightarrow> sv_seq s \<le> n \<Longrightarrow> acme_inv (s\<lparr>sv_seq := n\<rparr>) V I"
  unfolding acme_inv_def by (auto intro: core_inv_shrink)

lemma same_core_update:
  "same_core s s' \<Longrightarrow> same_core s (s'\<lparr>sv_accounts := a\<rparr>)"
  "same_core s s' \<Longrightarrow> same_core s (s'\<lparr>sv_byKey := k, sv_accounts := a\<rparr>)"
  "same_core s s' \<Longrightarrow> same_core s (s'\<lparr>sv_revoked := rv\<rparr>)"
  "same_core s s' \<Longrightarrow> same_core s (s'\<lparr>sv_earlyRenew := er\<rparr>)"
  by (simp_all add: same_core_def)

lemma update_contact_core: "same_core s (fst (update_contact ok acct msg contact s))"
  by (auto simp: update_contact_def Let_def same_core_def split: sum.splits
      dest!: appendStateEvent_core)

lemma keyChange_core: "same_core s (fst (keyChange env ok msg acct s))"
proof -
  have "same_core s (s'\<lparr>sv_byKey := k, sv_accounts := a\<rparr>)"
    if "appendStateEvent ok p s = Inr s'" for p s' k a
    using appendStateEvent_core [OF that] by (rule same_core_update)
  then show ?thesis
    by (auto simp: keyChange_def Let_def split: option.split sum.split)
qed

lemma create_account_inv:
  assumes "acme_inv s V I"
  shows "acme_inv (fst (create_account env ok base key msg req s)) V I"
proof -
  let ?s1 = "s\<lparr>sv_seq := Suc (sv_seq s)\<rparr>"
  have inv1: "acme_inv ?s1 V I" using assms by (rule acme_inv_seq) simp
  moreover have "acme_inv (s2\<lparr>sv_byKey := k, sv_accounts := a\<rparr>) V I"
    if "appendStateEvent ok p ?s1 = Inr s2" for p s2 k a
    using same_core_inv [OF same_core_update(2) [OF appendStateEvent_core [OF that]]] inv1 by blast
  ultimately show ?thesis
    by (auto simp: create_account_def Let_def split: sum.split)
qed

lemma newAccount_inv:
  assumes "acme_inv s V I"
  shows "acme_inv (fst (newAccount env ok now src base msg acct s)) V I"
proof -
  have p: "acme_inv (pruneExpired now s) V I" using assms by (rule pruneExpired_inv)
  have upd: "acme_inv (fst (update_contact ok a msg c (pruneExpired now s))) V I" for a c
    using same_core_inv [OF update_contact_core] p by blast
  have con: "acme_inv s2 V I" if "consumeSource src ''account'' now (pruneExpired now s) = (s2, b)" for s2 b
    using same_core_inv [OF consumeSource_core' [OF that]] p by blast
  show ?thesis
    using assms p upd con
    by (auto simp: newAccount_def Let_def intro!: create_account_inv split: option.split prod.split)
qed

section \<open>Orders\<close>

lemma fold_update_Some:
  "map_of (fold (\<lambda>x m. AList.update (f x) (g x) m) xs m) i = Some v \<Longrightarrow>
   (\<exists>x \<in> set xs. f x = i \<and> g x = v) \<or> map_of m i = Some v"
  by (induction xs arbitrary: m) (force simp: AList.update_conv' split: if_splits)+

lemma fold_update_other:
  "i \<notin> f ` set xs \<Longrightarrow> map_of (fold (\<lambda>x m. AList.update (f x) (g x) m) xs m) i = map_of m i"
  by (induction xs arbitrary: m) (auto simp: AList.update_conv')

lemma fold_update_in:
  "distinct (map f xs) \<Longrightarrow> x \<in> set xs \<Longrightarrow>
   map_of (fold (\<lambda>x m. AList.update (f x) (g x) m) xs m) (f x) = Some (g x)"
proof (induction xs arbitrary: m)
  case (Cons y ys)
  show ?case
  proof (cases "x \<in> set ys")
    case False
    with Cons.prems have "x = y" "f y \<notin> f ` set ys" by auto
    then show ?thesis by (simp add: fold_update_other AList.update_conv')
  qed (use Cons in auto)
qed simp

lemma put_authz_fields:
  "sv_authzs (fold put_authz azs s) = fold (\<lambda>x m. AList.update (az_id (fst x)) (fst x) m) azs (sv_authzs s)"
  "sv_challenges (fold put_authz azs s) =
     fold (\<lambda>c m. AList.update (ch_id c) c m) (concat (map snd azs)) (sv_challenges s)"
  "sv_orders (fold put_authz azs s) = sv_orders s" "sv_seq (fold put_authz azs s) = sv_seq s"
  by (induction azs arbitrary: s) (simp_all add: put_authz_def)

lemma mk_challenges_ids:
  "c \<in> set (mk_challenges tok azID st cts n) \<Longrightarrow>
   (\<exists>j. n < j \<and> j \<le> n + length cts \<and> ch_id c = itoa j) \<and> ch_authzID c = azID \<and> ch_status c = st"
proof (induction cts arbitrary: n)
  case (Cons ct cts)
  show ?case
  proof (cases "c \<in> set (mk_challenges tok azID st cts (Suc n))")
    case True
    from Cons.IH [OF this] show ?thesis by (auto intro: Suc_lessD)
  next
    case False
    with Cons.prems have "c = \<lparr>ch_id = itoa (Suc n), ch_typ = ct, ch_token = tok (Suc n), ch_status = st, ch_authzID = azID\<rparr>"
      by simp
    then show ?thesis by (auto intro!: exI [of _ "Suc n"])
  qed
qed simp

text \<open>A new authorization: its own id and those of its challenges are drawn after \<open>n\<close> and up to \<open>m\<close>.\<close>

definition drawn :: "nat \<Rightarrow> nat \<Rightarrow> string \<Rightarrow> bool" where
  "drawn n m i = (\<exists>j. n < j \<and> j \<le> m \<and> i = itoa j)"

definition new_authz :: "string \<Rightarrow> string \<Rightarrow> nat \<Rightarrow> nat \<Rightarrow> authorization \<times> challenge list \<Rightarrow> bool" where
  "new_authz oid st n m ac =
     (az_orderID (fst ac) = oid \<and> az_status (fst ac) = st \<and> drawn n m (az_id (fst ac))
      \<and> (\<forall>c \<in> set (snd ac). drawn n m (ch_id c) \<and> ch_authzID c = az_id (fst ac)))"

lemma drawn_mono: "drawn n m i \<Longrightarrow> n' \<le> n \<Longrightarrow> m \<le> m' \<Longrightarrow> drawn n' m' i"
  by (auto simp: drawn_def)

lemma drawn_known: "drawn n m i \<Longrightarrow> known m i \<and> \<not> known n i"
  by (auto simp: drawn_def)

lemma new_authz_mono: "new_authz oid st n m ac \<Longrightarrow> n' \<le> n \<Longrightarrow> new_authz oid st n' m ac"
  by (auto simp: new_authz_def intro: drawn_mono)

lemma mk_authzs_props:
  assumes "mk_authzs tok oid st now types n = (azs, m)"
  shows "n \<le> m \<and> map (az_domain \<circ> fst) azs = map fst types \<and> distinct (map (az_id \<circ> fst) azs)
    \<and> list_all (new_authz oid st n m) azs"
  using assms
proof (induction types arbitrary: n azs m)
  case (Cons t ts)
  obtain d cts where t: "t = (d, cts)" by (cases t)
  obtain rest where rest: "mk_authzs tok oid st now ts (Suc n + length cts) = (rest, m)"
    and azs: "azs = (\<lparr>az_id = itoa (Suc n), az_orderID = oid, az_domain = d, az_status = st,
        az_challenges = map ch_id (mk_challenges tok (itoa (Suc n)) st cts (Suc n)), az_createdAt = now\<rparr>,
        mk_challenges tok (itoa (Suc n)) st cts (Suc n)) # rest"
    using Cons.prems by (auto simp: t Let_def split: prod.splits)
  note IH = Cons.IH [OF rest]
  have le: "Suc n + length cts \<le> m" using IH by simp
  have "drawn n m (ch_id c)" "ch_authzID c = itoa (Suc n)"
    if "c \<in> set (mk_challenges tok (itoa (Suc n)) st cts (Suc n))" for c
    using mk_challenges_ids [OF that] le by (auto simp: drawn_def intro: order_trans Suc_lessD)
  moreover have "drawn n m (itoa (Suc n))" using le by (auto simp: drawn_def)
  ultimately have "new_authz oid st n m (hd azs)" by (simp add: azs new_authz_def)
  moreover have "list_all (new_authz oid st n m) rest"
    using IH by (auto simp: list_all_iff intro: new_authz_mono)
  moreover have "itoa (Suc n) \<notin> (az_id \<circ> fst) ` set rest"
  proof
    assume "itoa (Suc n) \<in> (az_id \<circ> fst) ` set rest"
    then have "drawn (Suc n + length cts) m (itoa (Suc n))"
      using IH by (auto simp: list_all_iff new_authz_def)
    then show False by (simp add: drawn_def)
  qed
  ultimately show ?case using IH le by (auto simp: azs t)
qed simp

text \<open>Adding an order with fresh ids keeps the invariant.\<close>

lemma core_inv_new_order:
  assumes inv: "core_inv O1 A C n V I" and "n \<le> m"
    and A': "\<And>i. known n i \<Longrightarrow> A' i = A i"
    and A'_new: "\<And>i az. A' i = Some az \<Longrightarrow> A i = Some az \<or> az_id az = i \<and> known m i"
    and C': "\<And>i. known n i \<Longrightarrow> C' i = C i"
    and C'_new: "\<And>i ch. C' i = Some ch \<Longrightarrow> C i = Some ch \<or> challenge_ok m i ch"
    and oid: "\<not> known n oid" and ord: "order_ok A' m V oid ord"
  shows "core_inv (O1(oid \<mapsto> ord)) A' C' m V I"
proof -
  have known_authz: "A i = Some az \<Longrightarrow> az_id az = i \<and> known n i" for i az
    using inv by (simp add: core_inv_def)
  have same: "A i = Some az \<Longrightarrow> A' i = Some az" for i az
    using known_authz A' by metis
  have old: "order_ok A' m V k ord'" if k: "O1 k = Some ord'" for k ord'
  proof -
    have ok: "order_ok A n V k ord'" using inv k by (simp add: core_inv_def)
    have "A' i = A i" if "i \<in> set (od_authzIDs ord')" for i
      using order_authz_owner [OF inv k that] same by metis
    then show ?thesis
      using ok known_mono [OF _ assms(2)] unfolding order_ok_def
      by (auto elim!: list_all2_snd_mono)
  qed
  have "challenge_ok m i ch" if "C' i = Some ch" for i ch
    using C'_new [OF that] inv known_mono [OF _ assms(2)] by (auto simp: core_inv_def challenge_ok_def)
  moreover have "validated_ok A' C' m v" if "v \<in> V" for v
  proof -
    have v: "validated_ok A C n v" using inv that by (simp add: core_inv_def)
    have "known n (ch_authzID ch)" if "C (fst (snd v)) = Some ch" for ch
      using inv that by (simp add: core_inv_def challenge_ok_def)
    then have "A' (ch_authzID ch) = A (ch_authzID ch)" if "C (fst (snd v)) = Some ch" for ch
      using A' that by blast
    moreover have "known n (fst (snd v))" using v by (simp add: validated_ok_def)
    ultimately show ?thesis using v C' known_mono [OF _ assms(2)] unfolding validated_ok_def by auto
  qed
  moreover have "call_ok (O1(oid \<mapsto> ord)) m c" if "c \<in> I" for c
  proof -
    have "call_ok O1 n c" using inv that by (simp add: core_inv_def)
    with oid known_mono [OF _ assms(2)] show ?thesis by (auto simp: call_ok_def)
  qed
  moreover have "A' i = Some az \<Longrightarrow> az_id az = i \<and> known m i" for i az
    using A'_new known_authz known_mono [OF _ assms(2)] by blast
  ultimately show ?thesis using old ord by (simp add: core_inv_def)
qed

lemma create_order_inv:
  assumes inv: "acme_inv s V I"
  shows "acme_inv (fst (create_order ok tok now url mode replaces types s)) V I"
proof -
  let ?st = "if mode = ''trust_authenticated'' then ''valid'' else ''pending''"
  let ?n = "Suc (sv_seq s)" and ?oid = "itoa (Suc (sv_seq s))"
  obtain azs m where mk: "mk_authzs tok ?oid ?st now types ?n = (azs, m)" by fastforce
  note P = mk_authzs_props [OF mk]
  let ?s1 = "s\<lparr>sv_seq := m\<rparr>"
  let ?ord = "\<lparr>od_id = ?oid, od_accountURL = url, od_domains = map fst types,
       od_authzIDs = map (az_id \<circ> fst) azs,
       od_status = (if mode = ''trust_authenticated'' then ''ready'' else ''pending''), od_authMode = mode,
       od_certID = '''', od_replaces = replaces, od_createdAt = now\<rparr>"
  have le: "sv_seq s \<le> m" using P by simp
  have new: "new_authz ?oid ?st ?n m ac" if "ac \<in> set azs" for ac
    using P that by (simp add: list_all_iff)
  let ?A' = "map_of (sv_authzs (fold put_authz azs s))"
  let ?C' = "map_of (sv_challenges (fold put_authz azs s))"
  have lookup: "?A' (az_id (fst ac)) = Some (fst ac)" if "ac \<in> set azs" for ac
    using fold_update_in [of "\<lambda>x. az_id (fst x)" azs ac fst] P that by (simp add: put_authz_fields comp_def)
  have "core_inv ((map_of (sv_orders s))(?oid \<mapsto> ?ord)) ?A' ?C' m V I"
  proof (rule core_inv_new_order [OF inv [unfolded acme_inv_def] le])
    fix i assume i: "known (sv_seq s) i"
    then have "i \<notin> (\<lambda>x. az_id (fst x)) ` set azs" "i \<notin> ch_id ` set (concat (map snd azs))"
      using new drawn_known known_mono [of "sv_seq s" i ?n] by (fastforce simp: new_authz_def)+
    then show "?A' i = map_of (sv_authzs s) i" "?C' i = map_of (sv_challenges s) i"
      by (simp_all add: put_authz_fields fold_update_other)
  next
    fix i az assume "?A' i = Some az"
    then show "map_of (sv_authzs s) i = Some az \<or> az_id az = i \<and> known m i"
      using fold_update_Some [of "\<lambda>x. az_id (fst x)" fst azs "sv_authzs s" i az] new drawn_known
      by (fastforce simp: put_authz_fields new_authz_def)
  next
    fix i ch assume "?C' i = Some ch"
    then show "map_of (sv_challenges s) i = Some ch \<or> challenge_ok m i ch"
      using fold_update_Some [of ch_id "\<lambda>c. c" "concat (map snd azs)" "sv_challenges s" i ch] new drawn_known
      by (fastforce simp: put_authz_fields new_authz_def challenge_ok_def)
  next
    have "list_all2 (\<lambda>i d. \<exists>az. ?A' i = Some az \<and> az_domain az = d \<and> az_orderID az = ?oid)
            (map (az_id \<circ> fst) azs) (map (az_domain \<circ> fst) azs)"
      using lookup new by (auto simp: list.rel_map new_authz_def intro!: list.rel_refl_strong)
    then show "order_ok ?A' m V ?oid ?ord"
      using P lookup new by (auto simp: order_ok_def new_authz_def)
  qed simp
  moreover have "acme_inv ?s1 V I" using inv le by (rule acme_inv_seq)
  moreover have "acme_inv ((fold put_authz azs s2)\<lparr>sv_orders := AList.update ?oid ?ord (sv_orders s2)\<rparr>) V I"
    if "appendStateEvent ok p ?s1 = Inr s2" for p s2
    using calculation(1) appendStateEvent_core [OF that]
    by (simp add: acme_inv_def put_authz_fields AList.update_conv' same_core_def)
  ultimately show ?thesis
    by (auto simp: create_order_def mk Let_def put_authz_fields(3) split: sum.split)
qed

lemma newOrder_inv:
  assumes "acme_inv s V I"
  shows "acme_inv (fst (newOrder env ok tok limit now src msg acct s)) V I"
proof -
  have "acme_inv s2 V I" if "consumeSource src ''order'' now (pruneExpired now s) = (s2, b)" for s2 b
    using same_core_inv [OF consumeSource_core' [OF that]] pruneExpired_inv [OF assms] by blast
  with assms show ?thesis
    by (auto simp: newOrder_def Let_def intro!: create_order_inv split: option.split prod.split sum.split)
qed

section \<open>Validation\<close>

text \<open>Marking an authorization and its challenge valid, for a name that was validated.\<close>

lemma core_inv_set_valid:
  assumes inv: "core_inv O1 A C n V I" and ch: "C i = Some ch" and az: "A j = Some az"
    and val: "names_validated V (az_domain az)"
  shows "core_inv O1 (A(j \<mapsto> az\<lparr>az_status := ''valid''\<rparr>)) (C(i \<mapsto> ch\<lparr>ch_status := st\<rparr>)) n V I"
proof -
  let ?A = "A(j \<mapsto> az\<lparr>az_status := ''valid''\<rparr>)"
  have keeps: "\<exists>b. ?A k = Some b \<and> az_domain b = az_domain a \<and> az_orderID b = az_orderID a
      \<and> (b = a \<or> az_status b = ''valid'')" if "A k = Some a" for k a
    using that az by (cases "k = j") auto
  have "order_ok ?A n V k ord" if k: "O1 k = Some ord" for k ord
  proof -
    have ok: "order_ok A n V k ord" using inv k by (simp add: core_inv_def)
    have "list_all2 (\<lambda>i d. \<exists>az. ?A i = Some az \<and> az_domain az = d \<and> az_orderID az = k) (od_authzIDs ord) (od_domains ord)"
    proof (rule list_all2_snd_mono)
      show "list_all2 (\<lambda>i d. \<exists>az. A i = Some az \<and> az_domain az = d \<and> az_orderID az = k) (od_authzIDs ord) (od_domains ord)"
        using ok by (simp add: order_ok_def)
    qed (use keeps in blast)
    with ok val show ?thesis unfolding order_ok_def by auto
  qed
  moreover have "challenge_ok n k c" if "(C(i \<mapsto> ch\<lparr>ch_status := st\<rparr>)) k = Some c" for k c
    using inv ch that by (auto simp: core_inv_def challenge_ok_def split: if_splits)
  moreover have "validated_ok ?A (C(i \<mapsto> ch\<lparr>ch_status := st\<rparr>)) n v" if "v \<in> V" for v
  proof -
    have "validated_ok A C n v" using inv that by (simp add: core_inv_def)
    with ch az show ?thesis by (auto simp: validated_ok_def)
  qed
  moreover have "az_id b = k \<and> known n k" if "?A k = Some b" for k b
  proof (cases "k = j")
    case True
    then show ?thesis using inv az that by (auto simp: core_inv_def)
  next
    case False
    then show ?thesis using inv that by (simp add: core_inv_def)
  qed
  moreover have "\<forall>c \<in> I. call_ok O1 n c" using inv by (simp add: core_inv_def)
  ultimately show ?thesis unfolding core_inv_def by blast
qed

text \<open>Moving an order forward once all of its authorizations are valid.\<close>

lemma core_inv_set_order:
  assumes inv: "core_inv O1 A C n V I" and k: "O1 k = Some ord"
    and valid: "\<forall>i \<in> set (od_authzIDs ord). \<exists>az. A i = Some az \<and> az_status az = ''valid''"
    and ord': "od_id ord' = od_id ord" "od_domains ord' = od_domains ord" "od_authzIDs ord' = od_authzIDs ord"
      "od_authMode ord' = od_authMode ord" "od_status ord' \<in> {''ready'', ''valid''}"
  shows "core_inv (O1(k \<mapsto> ord')) A C n V I"
proof -
  have "order_ok A n V k ord" using inv k by (simp add: core_inv_def)
  then have "order_ok A n V k ord'" using valid ord' by (simp add: order_ok_def)
  moreover have "call_ok (O1(k \<mapsto> ord')) n c" if "c \<in> I" for c
  proof -
    have "call_ok O1 n c" using inv that by (simp add: core_inv_def)
    then show ?thesis using ord'(5) by (simp add: call_ok_def)
  qed
  ultimately show ?thesis using inv by (simp add: core_inv_def)
qed

lemma accept_commit_inv:
  assumes inv: "acme_inv s V I" and v: "(Accepted, i, v) \<in> V"
  shows "acme_inv (fst (accept_commit ok i s)) V I"
proof -
  have "acme_inv (case map_of (sv_orders s2) (az_orderID az) of None \<Rightarrow> s2
      | Some ord \<Rightarrow> if allAuthzValid ord s2 then set_order_status (az_orderID az) ''ready'' s2 else s2) V I"
    if ch: "map_of (sv_challenges s) i = Some ch" and az: "map_of (sv_authzs s) (ch_authzID ch) = Some az"
      and app: "appendStateEvent ok p s = Inr s1"
      and s2: "s2 = set_validated ch i az (ch_authzID ch) ''valid'' ''valid'' s1" for ch az p s1 s2
  proof -
    have "validated_ok (map_of (sv_authzs s)) (map_of (sv_challenges s)) (sv_seq s) (Accepted, i, v)"
      using inv v by (simp add: acme_inv_def core_inv_def)
    then have "names_validated V (az_domain az)"
      using ch az v unfolding validated_ok_def names_validated_def by (metis fst_conv prod.collapse snd_conv)
    from core_inv_set_valid [OF inv [unfolded acme_inv_def] ch az this]
    have inv2: "acme_inv s2 V I"
      using appendStateEvent_core [OF app]
      by (simp add: acme_inv_def s2 set_validated_def same_core_def AList.update_conv')
    show ?thesis
    proof (cases "map_of (sv_orders s2) (az_orderID az)")
      case (Some ord)
      have "acme_inv (set_order_status (az_orderID az) ''ready'' s2) V I" if all: "allAuthzValid ord s2"
      proof -
        have "\<forall>i \<in> set (od_authzIDs ord). \<exists>az. map_of (sv_authzs s2) i = Some az \<and> az_status az = ''valid''"
          using all by (auto simp: allAuthzValid_def list_all_iff split: option.splits)
        from core_inv_set_order [OF inv2 [unfolded acme_inv_def] Some this, of "ord\<lparr>od_status := ''ready''\<rparr>"]
        show ?thesis by (simp add: acme_inv_def set_order_status_def Some AList.update_conv')
      qed
      with Some inv2 show ?thesis by simp
    qed (simp add: inv2)
  qed
  with inv show ?thesis
    by (auto simp: accept_commit_def Let_def split: option.splits sum.splits)
qed

section \<open>Issuance\<close>

lemma rememberSeq_fields [simp]:
  "sv_orders (rememberSeq n s) = sv_orders s" "sv_authzs (rememberSeq n s) = sv_authzs s"
  "sv_challenges (rememberSeq n s) = sv_challenges s" "sv_seq (rememberSeq n s) = max n (sv_seq s)"
  by (simp_all add: rememberSeq_def)

lemma certificateIssuedEventFrom_fields [simp]:
  "ie_OrderID (certificateIssuedEventFrom env oid certID url pem serial n) = oid"
  "ie_CertID (certificateIssuedEventFrom env oid certID url pem serial n) = certID"
  "ie_Seq (certificateIssuedEventFrom env oid certID url pem serial n) = n"
  "ic_accountURL (ie_Issued (certificateIssuedEventFrom env oid certID url pem serial n)) = url"
  by (auto simp: certificateIssuedEventFrom_def split: option.splits)

lemma applyCertificateIssuedEvent_inv:
  assumes inv: "acme_inv s V I" and c: "c \<in> I" and p: "ie_OrderID p = ic_order c"
    and app: "applyCertificateIssuedEvent p s = Inr s'"
  shows "acme_inv s' V I"
proof -
  obtain ord where ord: "map_of (sv_orders s) (ic_order c) = Some ord"
    using app p by (auto simp: applyCertificateIssuedEvent_def split: if_splits option.splits)
  let ?ord' = "ord\<lparr>od_certID := ie_CertID p, od_status := ''valid''\<rparr>"
  have "order_ok (map_of (sv_authzs s)) (sv_seq s) V (ic_order c) ord"
    using inv ord by (simp add: acme_inv_def core_inv_def)
  moreover have "od_status ord \<in> {''ready'', ''valid''}"
    using inv c ord by (simp add: acme_inv_def core_inv_def call_ok_def)
  ultimately have "\<forall>i \<in> set (od_authzIDs ord). \<exists>az. map_of (sv_authzs s) i = Some az \<and> az_status az = ''valid''"
    by (auto simp: order_ok_def)
  then have "core_inv ((map_of (sv_orders s))(ic_order c \<mapsto> ?ord')) (map_of (sv_authzs s))
      (map_of (sv_challenges s)) (sv_seq s) V I"
    by (rule core_inv_set_order [OF inv [unfolded acme_inv_def] ord]) simp_all
  then have "core_inv ((map_of (sv_orders s))(ic_order c \<mapsto> ?ord')) (map_of (sv_authzs s))
      (map_of (sv_challenges s)) (max (ie_Seq p) (sv_seq s)) V I"
    by (rule core_inv_shrink) auto
  then show ?thesis
    using app p ord
    by (auto simp: applyCertificateIssuedEvent_def acme_inv_def AList.update_conv' split: if_splits)
qed

lemma finalize_commit_inv:
  assumes inv: "acme_inv s V I" and c: "c \<in> I"
  shows "acme_inv (fst (finalize_commit env ok (ic_order c) pem serial acct s)) V I"
proof -
  have inv1: "acme_inv (s\<lparr>sv_seq := Suc (sv_seq s)\<rparr>) V I" using inv by (rule acme_inv_seq) simp
  have inv2: "acme_inv s2 V I" if "appendStateEvent ok p (s\<lparr>sv_seq := Suc (sv_seq s)\<rparr>) = Inr s2" for p s2
    using same_core_inv [OF appendStateEvent_core [OF that]] inv1 by blast
  have inv3: "acme_inv s3 V I"
    if "appendStateEvent ok q (s\<lparr>sv_seq := Suc (sv_seq s)\<rparr>) = Inr s2"
      "applyCertificateIssuedEvent (certificateIssuedEventFrom env (ic_order c) certID url pem serial n) s2 = Inr s3"
    for q s2 s3 certID url n
    using applyCertificateIssuedEvent_inv [OF inv2 [OF that(1)] c _ that(2)] by simp
  show ?thesis
    using inv1 inv2 inv3 by (auto simp: finalize_commit_def Let_def split: option.split sum.split)
qed

section \<open>The invariant holds in every run\<close>

lemma names_validated_mono: "V \<subseteq> W \<Longrightarrow> names_validated V d \<Longrightarrow> names_validated W d"
  unfolding names_validated_def by blast

lemma acme_inv_insert:
  assumes inv: "acme_inv s V I" and ok: "validated_ok (map_of (sv_authzs s)) (map_of (sv_challenges s)) (sv_seq s) x"
  shows "acme_inv s (insert x V) I"
proof -
  have "order_ok A n V k ord \<Longrightarrow> order_ok A n (insert x V) k ord" for A n k ord
    using names_validated_mono [of V "insert x V"] by (auto simp: order_ok_def)
  with inv ok show ?thesis by (auto simp: acme_inv_def core_inv_def)
qed

lemma validated_ok_stage: "validated_ok A C n (st, i, v) \<longleftrightarrow> validated_ok A C n (st', i, v)"
  by (simp add: validated_ok_def)

lemma step_validate_inv:
  assumes inv: "acme_inv s V I" and b: "(Begun, i, v) \<in> V"
  shows "acme_inv s (V \<union> (if a then {(Accepted, i, v)} else {}) \<union> (if p then {(Passed, i, v)} else {})) I"
proof -
  have ok: "validated_ok (map_of (sv_authzs s)) (map_of (sv_challenges s)) (sv_seq s) (st, i, v)" for st
    using inv b validated_ok_stage [of _ _ _ Begun i v st] unfolding acme_inv_def core_inv_def by blast
  from acme_inv_insert [OF inv ok] acme_inv_insert [OF acme_inv_insert [OF inv ok] ok] inv show ?thesis
    by (auto simp: insert_commute)
qed

text \<open>A request goes on only after the validator accepted its challenge.\<close>

definition passed_ok :: "checks \<Rightarrow> bool" where
  "passed_ok V = (\<forall>i v. (Passed, i, v) \<in> V \<longrightarrow> (Accepted, i, v) \<in> V)"

lemma accept_checks_None: "accept_checks present validate v = None \<Longrightarrow> validate v"
  by (simp add: accept_checks_def split: if_splits)

lemma acme_step_passed: "acme_step env timely r r' \<Longrightarrow> passed_ok (rs_checks r) \<Longrightarrow> passed_ok (rs_checks r')"
  by (induction rule: acme_step.induct) (auto simp: passed_ok_def dest: accept_checks_None)

lemma step_challenge_inv:
  assumes inv: "acme_inv s V I" and begin_ok: "accept_begin env i acct s = Inr v"
  shows "acme_inv s (insert (Begun, i, v) V) I"
proof -
  obtain ch az where ch: "map_of (sv_challenges s) i = Some ch" and
    az: "map_of (sv_authzs s) (ch_authzID ch) = Some az" and d: "fst (snd v) = az_domain az"
    using begin_ok by (auto simp: accept_begin_def split: option.splits)
  have "validated_ok (map_of (sv_authzs s)) (map_of (sv_challenges s)) (sv_seq s) (Begun, i, v)"
    using inv ch az d by (auto simp: acme_inv_def core_inv_def validated_ok_def challenge_ok_def)
  with inv show ?thesis by (rule acme_inv_insert)
qed

lemma step_issue_inv:
  assumes inv: "acme_inv s V I" and fin: "finalize_begin env i msg s = Inr c"
  shows "acme_inv s V (insert c I)"
proof -
  obtain ord where ord: "map_of (sv_orders s) i = Some ord" "od_status ord = ''ready''" "ic_order c = od_id ord"
    using fin by (auto simp: finalize_begin_def split: option.splits if_splits)
  moreover have "od_id ord = i \<and> known (sv_seq s) i"
    using inv ord(1) by (simp add: acme_inv_def core_inv_def order_ok_def)
  ultimately show ?thesis using inv by (simp add: acme_inv_def core_inv_def call_ok_def)
qed

lemma acme_step_inv:
  "acme_step env timely r r' \<Longrightarrow> acme_inv (rs_server r) (rs_checks r) (rs_calls r) \<Longrightarrow> passed_ok (rs_checks r) \<Longrightarrow>
   acme_inv (rs_server r') (rs_checks r') (rs_calls r')"
proof (induction rule: acme_step.induct)
  case (step_accept i v r ok)
  then have "(Accepted, i, v) \<in> rs_checks r" unfolding passed_ok_def by blast
  with step_accept show ?case by (simp add: accept_commit_inv)
next
  case (step_validate i v r validate present)
  then show ?case using step_validate_inv by simp
next
  case (step_key r ok msg acct)
  then show ?case using same_core_inv [OF keyChange_core] by simp
next
  case (step_revoke msg acct s0 fp serial reason r ok now)
  have "same_core (rs_server r) (fst (revoke_commit ok fp serial reason now (rs_server r)))"
    by (auto simp: revoke_commit_def split: sum.split intro!: same_core_update(3) dest: appendStateEvent_core)
  with step_revoke show ?case using same_core_inv by auto
next
  case (step_early ok certID r s')
  then have "same_core (rs_server r) s'"
    by (auto simp: MarkEarlyRenewal_def split: if_splits sum.splits intro!: same_core_update(4)
        dest: appendStateEvent_core)
  with step_early show ?case using same_core_inv by auto
qed (simp_all add: newNonce_inv jws_begin_inv jws_nonce_inv newAccount_inv newOrder_inv
    step_challenge_inv step_issue_inv finalize_commit_inv)

lemma acme_run_inv:
  assumes "(acme_step env timely)\<^sup>*\<^sup>* (initial_run s0) r"
    and "sv_orders s0 = []" and "sv_authzs s0 = []" and "sv_challenges s0 = []"
  shows "acme_inv (rs_server r) (rs_checks r) (rs_calls r) \<and> passed_ok (rs_checks r)"
  using assms(1)
proof (induction rule: rtranclp_induct)
  case base
  show ?case using assms(2-4) by (simp add: initial_run_def acme_inv_def core_inv_def passed_ok_def)
next
  case (step y z)
  then show ?case using acme_step_inv acme_step_passed by blast
qed

end
