(* ===== verification/AcmeReplay.thy ===== *)
theory AcmeReplay
  imports AcmeSafety
begin

text \<open>
  Restart of the ACME server: the log the handlers wrote rebuilds the state they left. Expiry is
  the one thing the log does not record, so the rebuilt server may still hold an order that the
  running one held and dropped; everything the running server holds is there unchanged.
\<close>

section \<open>Replay\<close>

lemma replay_events_append:
  "replay_events key tn (evs @ evs') s =
     (case replay_events key tn evs s of Inl e \<Rightarrow> Inl e | Inr s' \<Rightarrow> replay_events key tn evs' s')"
  by (induction evs arbitrary: s) (auto split: sum.splits)

text \<open>The orders, authorizations and challenges a server holds, the tables that expiry empties.\<close>

datatype table = Orders | Authzs | Challenges

definition held :: "acme_server \<Rightarrow> (table \<times> string) set" where
  "held s = {Orders} \<times> dom (map_of (sv_orders s)) \<union> {Authzs} \<times> dom (map_of (sv_authzs s))
     \<union> {Challenges} \<times> dom (map_of (sv_challenges s))"

text \<open>The accounts: indexed by URL and by the thumbprint of their key, which the stored JWK gives back.\<close>

definition account_url :: "nat \<Rightarrow> string \<Rightarrow> bool" where
  "account_url n url = (\<exists>b m. m \<le> n \<and> url = b @ ''/acme/acct/'' @ itoa m)"

text \<open>The counter is past every id in use, so the next ids are new.\<close>

definition ids_drawn :: "acme_server \<Rightarrow> bool" where
  "ids_drawn r =
     ((\<forall>x \<in> held r. known (sv_seq r) (snd x)) \<and> (\<forall>i \<in> dom (map_of (sv_certs r)). known (sv_seq r) i)
      \<and> (\<forall>url \<in> dom (map_of (sv_accounts r)). account_url (sv_seq r) url))"

text \<open>What a rebuilt server \<open>r\<close> has of the running server \<open>s\<close>.\<close>

definition restores :: "acme_server \<Rightarrow> acme_server \<Rightarrow> bool" where
  "restores r s =
     (map_of (sv_accounts r) = map_of (sv_accounts s) \<and> map_of (sv_byKey r) = map_of (sv_byKey s)
      \<and> map_of (sv_orders s) \<subseteq>\<^sub>m map_of (sv_orders r) \<and> map_of (sv_authzs s) \<subseteq>\<^sub>m map_of (sv_authzs r)
      \<and> map_of (sv_challenges s) \<subseteq>\<^sub>m map_of (sv_challenges r) \<and> map_of (sv_certs r) = map_of (sv_certs s)
      \<and> map_of (sv_issued r) = map_of (sv_issued s) \<and> map_of (sv_ariWindows r) = map_of (sv_ariWindows s)
      \<and> map_of (sv_revoked r) = map_of (sv_revoked s) \<and> set (sv_earlyRenew r) = set (sv_earlyRenew s)
      \<and> ids_drawn r)"

text \<open>A replayed event \<open>r\<close> to \<open>r'\<close> keeps the orders and adds only what the running server \<open>s\<close> has.\<close>

definition grows :: "acme_server \<Rightarrow> acme_server \<Rightarrow> acme_server \<Rightarrow> bool" where
  "grows r r' s = (dom (map_of (sv_orders r)) \<subseteq> dom (map_of (sv_orders r')) \<and> held r' \<subseteq> held r \<union> held s)"

definition account_ok :: "acme_env \<Rightarrow> nat \<Rightarrow> string \<Rightarrow> account \<Rightarrow> bool" where
  "account_ok env n url a =
     (ac_url a = url \<and> account_url n url \<and> ac_id a = en_Thumbprint env (ac_key a)
      \<and> en_KeyFromJWK env (ac_jwk a) = Some (ac_key a) \<and> ac_jwk a \<noteq> [] \<and> ac_status a = ''valid'')"

definition accounts_ok :: "acme_env \<Rightarrow> acme_server \<Rightarrow> bool" where
  "accounts_ok env s =
     ((\<forall>url a. map_of (sv_accounts s) url = Some a \<longrightarrow>
         account_ok env (sv_seq s) url a \<and> map_of (sv_byKey s) (ac_id a) = Some url)
      \<and> (\<forall>t url. map_of (sv_byKey s) t = Some url \<longrightarrow>
           (\<exists>a. map_of (sv_accounts s) url = Some a \<and> ac_id a = t)))"

lemma slash_itoa [simp]: "CHR ''/'' \<notin> set (itoa n)"
  using itoa_digits [of "CHR ''/''" n] by (auto simp: digit_val_def)

lemma account_url_fresh: "\<not> account_url n (b @ ''/acme/acct/'' @ itoa (Suc n))"
proof
  assume "account_url n (b @ ''/acme/acct/'' @ itoa (Suc n))"
  then obtain c m where "m \<le> n" "b @ ''/acme/acct/'' @ itoa (Suc n) = c @ ''/acme/acct/'' @ itoa m"
    by (auto simp: account_url_def)
  then have "takeWhile (\<lambda>x. x \<noteq> CHR ''/'') (rev (b @ ''/acme/acct/'' @ itoa (Suc n)))
      = takeWhile (\<lambda>x. x \<noteq> CHR ''/'') (rev (c @ ''/acme/acct/'' @ itoa m))" by simp
  moreover have "takeWhile (\<lambda>x. x \<noteq> CHR ''/'') (rev (b' @ ''/acme/acct/'' @ itoa k)) = rev (itoa k)" for b' k
  proof -
    have "x \<in> set (rev (itoa k)) \<Longrightarrow> x \<noteq> CHR ''/''" for x using slash_itoa [of k] by auto
    then show ?thesis using takeWhile_append2 [of "rev (itoa k)" "\<lambda>x. x \<noteq> CHR ''/''"] by simp
  qed
  ultimately have "itoa (Suc n) = itoa m" by simp
  with \<open>m \<le> n\<close> show False by simp
qed

lemma account_url_mono: "account_url n url \<Longrightarrow> n \<le> m \<Longrightarrow> account_url m url"
proof -
  assume url: "account_url n url" and le: "n \<le> m"
  from url obtain b k where "k \<le> n" "url = b @ ''/acme/acct/'' @ itoa k"
    unfolding account_url_def by blast
  with le show "account_url m url" unfolding account_url_def by (intro exI [of _ b] exI [of _ k]) simp
qed

lemma account_ok_mono: "account_ok env n url a \<Longrightarrow> n \<le> m \<Longrightarrow> account_ok env m url a"
  by (auto simp: account_ok_def intro: account_url_mono)

lemma account_url_ne: "account_url n url \<Longrightarrow> url \<noteq> ''''"
  by (auto simp: account_url_def)

lemma ids_drawn_keep:
  assumes "ids_drawn r" and "sv_seq r \<le> sv_seq r'"
    and "\<And>x. x \<in> held r' \<Longrightarrow> x \<in> held r \<or> known (sv_seq r') (snd x)"
    and "\<And>i. i \<in> dom (map_of (sv_certs r')) \<Longrightarrow> i \<in> dom (map_of (sv_certs r)) \<or> known (sv_seq r') i"
    and "\<And>u. u \<in> dom (map_of (sv_accounts r')) \<Longrightarrow> u \<in> dom (map_of (sv_accounts r)) \<or> account_url (sv_seq r') u"
  shows "ids_drawn r'"
  using assms known_mono [OF _ assms(2)] account_url_mono [OF _ assms(2)] unfolding ids_drawn_def by metis

lemma rememberSeq_other [simp]:
  "sv_accounts (rememberSeq n s) = sv_accounts s" "sv_byKey (rememberSeq n s) = sv_byKey s"
  "sv_certs (rememberSeq n s) = sv_certs s" "sv_issued (rememberSeq n s) = sv_issued s"
  "sv_revoked (rememberSeq n s) = sv_revoked s" "sv_ariWindows (rememberSeq n s) = sv_ariWindows s"
  "sv_earlyRenew (rememberSeq n s) = sv_earlyRenew s"
  by (simp_all add: rememberSeq_def)

lemma rememberSeq_core:
  "sv_orders (rememberSeq n s) = sv_orders s" "sv_authzs (rememberSeq n s) = sv_authzs s"
  "sv_challenges (rememberSeq n s) = sv_challenges s"
  by (simp_all add: rememberSeq_def)

lemma held_rememberSeq [simp]: "held (rememberSeq n s) = held s"
  by (simp add: held_def rememberSeq_def)

lemma sv_seq_rememberSeq [simp]: "sv_seq (rememberSeq n s) = max n (sv_seq s)"
  by (simp add: rememberSeq_def)

section \<open>What expiry and budgets leave alone\<close>

definition same_durable :: "acme_server \<Rightarrow> acme_server \<Rightarrow> bool" where
  "same_durable s s' =
     (sv_accounts s' = sv_accounts s \<and> sv_byKey s' = sv_byKey s \<and> sv_certs s' = sv_certs s
      \<and> sv_issued s' = sv_issued s \<and> sv_revoked s' = sv_revoked s \<and> sv_ariWindows s' = sv_ariWindows s
      \<and> sv_earlyRenew s' = sv_earlyRenew s \<and> sv_stateLog s' = sv_stateLog s
      \<and> sv_stateTenantID s' = sv_stateTenantID s \<and> sv_authMode s' = sv_authMode s
      \<and> sv_seq s \<le> sv_seq s'
      \<and> map_of (sv_orders s') \<subseteq>\<^sub>m map_of (sv_orders s) \<and> map_of (sv_authzs s') \<subseteq>\<^sub>m map_of (sv_authzs s)
      \<and> map_of (sv_challenges s') \<subseteq>\<^sub>m map_of (sv_challenges s))"

lemma same_durable_refl [simp]: "same_durable s s"
  by (simp add: same_durable_def)

lemma same_durable_trans: "same_durable a b \<Longrightarrow> same_durable b c \<Longrightarrow> same_durable a c"
  unfolding same_durable_def by (auto intro: map_le_trans)

lemma delete_authz_durable: "same_durable s (delete_authz i s)"
  using delete_authz_core [of i s]
  by (auto simp: same_durable_def delete_authz_def map_le_def AList.delete_conv' split: option.splits)

lemma fold_durable: "(\<And>x s. same_durable s (f x s)) \<Longrightarrow> same_durable s (fold f xs s)"
  by (induction xs arbitrary: s) (auto intro: same_durable_trans)

lemma deleteOrderState_durable: "same_durable s (deleteOrderState k s)"
proof (cases "map_of (sv_orders s) k")
  case (Some ord)
  let ?s1 = "fold delete_authz (od_authzIDs ord) s"
  have "same_durable s ?s1" by (rule fold_durable) (rule delete_authz_durable)
  moreover have "same_durable ?s1 (?s1\<lparr>sv_orders := AList.delete k (sv_orders ?s1)\<rparr>)"
    by (auto simp: same_durable_def AList.delete_conv' map_le_def)
  ultimately show ?thesis by (simp add: deleteOrderState_def Some Let_def same_durable_trans)
qed (simp add: deleteOrderState_def)

lemma pruneExpired_durable: "same_durable s (pruneExpired now s)"
proof -
  let ?s1 = "s\<lparr>sv_nonces := filter (\<lambda>(n, created). \<not> (created \<noteq> 0 \<and> qc_NonceTTL (sv_quota s) < now - created)) (sv_nonces s),
                sv_sources := filter (\<lambda>(k, b). now < sb_resetAt b) (sv_sources s)\<rparr>"
  have "same_durable s ?s1" by (simp add: same_durable_def)
  then show ?thesis
    unfolding pruneExpired_def Let_def
    by (rule same_durable_trans) (rule fold_durable, rule deleteOrderState_durable)
qed

lemma consumeSource_durable: "consumeSource src kind now s = (s', b) \<Longrightarrow> same_durable s s'"
  by (auto simp: consumeSource_def Let_def same_durable_def split: if_splits)

lemma mintNonce_durable: "mintNonce now d s = Some s' \<Longrightarrow> same_durable s s'"
  by (auto simp: mintNonce_def same_durable_def split: if_splits)

lemma newNonce_durable: "same_durable s (fst (newNonce now src d s))"
  by (auto simp: newNonce_def split: prod.splits option.splits
      intro: same_durable_trans [OF pruneExpired_durable] same_durable_trans
      dest!: consumeSource_durable mintNonce_durable)

lemma jws_begin_durable: "same_durable s (fst (jws_begin env now body s))"
proof -
  have "same_durable (pruneExpired now s) ((pruneExpired now s)\<lparr>sv_nonces := ns\<rparr>)" for ns
    by (simp add: same_durable_def)
  then show ?thesis
    using pruneExpired_durable [of s now]
    by (auto simp: jws_begin_def Let_def split: option.splits intro: same_durable_trans)
qed

lemma jws_nonce_durable: "same_durable s (fst (jws_nonce now d s))"
  by (auto simp: jws_nonce_def Let_def split: option.splits
      intro: pruneExpired_durable same_durable_trans [OF pruneExpired_durable] dest!: mintNonce_durable)

lemma restores_durable: "restores r s \<Longrightarrow> same_durable s s' \<Longrightarrow> restores r s'"
  unfolding restores_def same_durable_def by (auto intro: map_le_trans)

lemma accounts_ok_same:
  assumes ok: "accounts_ok env s"
    and eq: "sv_accounts s' = sv_accounts s" "sv_byKey s' = sv_byKey s" "sv_seq s \<le> sv_seq s'"
  shows "accounts_ok env s'"
  using ok account_ok_mono [OF _ eq(3)] unfolding accounts_ok_def eq(1,2) by blast

lemma accounts_ok_durable: "accounts_ok env s \<Longrightarrow> same_durable s s' \<Longrightarrow> accounts_ok env s'"
  unfolding same_durable_def by (blast intro: accounts_ok_same)

section \<open>The simulation\<close>

text \<open>
  The state \<open>s\<close> with a log whose replay rebuilds it. \<open>s0\<close> is the configured server before replay, and \<open>E\<close>
  is what the running server has ever held.
\<close>

definition replays ::
  "acme_env \<Rightarrow> string \<Rightarrow> acme_server \<Rightarrow> acme_server \<Rightarrow> issue_call set \<Rightarrow> (table \<times> string) set \<Rightarrow> bool" where
  "replays env tn s0 s I E =
     (sv_stateTenantID s = tn \<and> sv_authMode s = sv_authMode s0 \<and> accounts_ok env s \<and>
      (\<exists>log. sv_stateLog s = Some log
         \<and> (\<forall>l. \<exists>r. replay_events (en_KeyFromJWK env) tn log (s0\<lparr>sv_stateLog := l\<rparr>) = Inr r \<and> restores r s \<and> held r \<subseteq> E
               \<and> (\<forall>c \<in> I. ic_order c \<in> dom (map_of (sv_orders r))))))"

lemma replays_more: "replays env tn s0 s I E \<Longrightarrow> replays env tn s0 s I (E \<union> F)"
  unfolding replays_def by (metis le_supI1)

lemma replays_durable: "replays env tn s0 s I E \<Longrightarrow> same_durable s s' \<Longrightarrow> replays env tn s0 s' I E"
proof -
  assume "replays env tn s0 s I E" and d: "same_durable s s'"
  moreover have "sv_stateTenantID s' = sv_stateTenantID s" "sv_authMode s' = sv_authMode s"
    "sv_stateLog s' = sv_stateLog s" using d by (simp_all add: same_durable_def)
  ultimately show ?thesis
    using restores_durable [OF _ d] accounts_ok_durable [OF _ d] unfolding replays_def by metis
qed

text \<open>
  One appended event: when the replay of the old log can apply it and the result restores the new
  state, the new state replays.
\<close>

lemma replays_append:
  assumes rep: "replays env tn s0 s I E" and "tn \<noteq> ''''" and p: "p \<noteq> PForeign"
    and app: "appendStateEvent ok p s = Inr s1"
    and log: "sv_stateLog s2 = sv_stateLog s1" "sv_stateTenantID s2 = sv_stateTenantID s1"
      "sv_authMode s2 = sv_authMode s1"
    and acc: "accounts_ok env s2"
    and sim: "\<And>r. restores r s \<Longrightarrow> \<forall>c \<in> I. ic_order c \<in> dom (map_of (sv_orders r)) \<Longrightarrow>
        \<exists>r'. applyStateEvent (en_KeyFromJWK env) \<lparr>le_TenantID = tn, le_SchemaVersion = 1, le_payload = p\<rparr> r = Inr r'
           \<and> restores r' s2 \<and> grows r r' s2"
  shows "replays env tn s0 s2 I (E \<union> held s2)"
proof -
  obtain evs where lg: "sv_stateLog s = Some evs"
    and ex: "\<And>l. \<exists>r. replay_events (en_KeyFromJWK env) tn evs (s0\<lparr>sv_stateLog := l\<rparr>) = Inr r \<and> restores r s \<and> held r \<subseteq> E
        \<and> (\<forall>c \<in> I. ic_order c \<in> dom (map_of (sv_orders r)))"
    and tn: "sv_stateTenantID s = tn" "sv_authMode s = sv_authMode s0"
    using rep unfolding replays_def by blast
  let ?ev = "\<lparr>le_TenantID = tn, le_SchemaVersion = 1, le_payload = p\<rparr>"
  have s1: "s1 = s\<lparr>sv_stateLog := Some (evs @ [?ev])\<rparr>"
    using app lg tn(1) assms(2) by (auto simp: appendStateEvent_def split: if_splits)
  have "\<exists>r'. replay_events (en_KeyFromJWK env) tn (evs @ [?ev]) (s0\<lparr>sv_stateLog := l\<rparr>) = Inr r' \<and> restores r' s2
      \<and> held r' \<subseteq> E \<union> held s2 \<and> (\<forall>c \<in> I. ic_order c \<in> dom (map_of (sv_orders r')))" for l
  proof -
    obtain r where r: "replay_events (en_KeyFromJWK env) tn evs (s0\<lparr>sv_stateLog := l\<rparr>) = Inr r"
      and rs: "restores r s" "\<forall>c \<in> I. ic_order c \<in> dom (map_of (sv_orders r))" "held r \<subseteq> E"
      using ex by blast
    obtain r' where r': "applyStateEvent (en_KeyFromJWK env) ?ev r = Inr r'" "restores r' s2"
      "grows r r' s2"
      using sim [OF rs(1,2)] by blast
    have "replay_events (en_KeyFromJWK env) tn (evs @ [?ev]) (s0\<lparr>sv_stateLog := l\<rparr>) = Inr r'"
      using r r'(1) p by (simp add: replay_events_append)
    then show ?thesis using r' rs(2,3) unfolding grows_def by blast
  qed
  moreover have "sv_stateLog s2 = Some (evs @ [?ev])" "sv_stateTenantID s2 = tn" "sv_authMode s2 = sv_authMode s0"
    using log tn by (simp_all add: s1)
  ultimately show ?thesis using acc unfolding replays_def by blast
qed

text \<open>Applying an account event to a rebuilt server does to it what the handler does to the running one.\<close>

lemma restores_account:
  assumes rs: "restores r s" and p: "ae_URL p \<noteq> ''''" "ae_ID p \<noteq> ''''" "ae_JWK p \<noteq> []" "ae_Status p = ''valid''"
    and key: "en_KeyFromJWK env (ae_JWK p) = Some k"
    and old: "oldID = (case map_of (sv_accounts s) (ae_URL p) of None \<Rightarrow> '''' | Some a \<Rightarrow> ac_id a)"
    and acc: "map_of (sv_accounts s2) = (map_of (sv_accounts s))(ae_URL p \<mapsto>
        \<lparr>ac_id = ae_ID p, ac_url = ae_URL p, ac_key = k, ac_jwk = ae_JWK p, ac_contact = ae_Contact p, ac_status = ''valid''\<rparr>)"
    and byKey: "map_of (sv_byKey s2) = (if oldID \<noteq> '''' \<and> oldID \<noteq> ae_ID p then (map_of (sv_byKey s))(oldID := None)
        else map_of (sv_byKey s))(ae_ID p \<mapsto> ae_URL p)"
    and rest: "sv_orders s2 = sv_orders s" "sv_authzs s2 = sv_authzs s" "sv_challenges s2 = sv_challenges s"
      "sv_certs s2 = sv_certs s" "sv_issued s2 = sv_issued s" "sv_ariWindows s2 = sv_ariWindows s"
      "sv_revoked s2 = sv_revoked s" "sv_earlyRenew s2 = sv_earlyRenew s"
    and url: "account_url (ae_Seq p) (ae_URL p) \<or> map_of (sv_accounts s) (ae_URL p) \<noteq> None"
  shows "\<exists>r'. applyStateEvent (en_KeyFromJWK env) \<lparr>le_TenantID = tn, le_SchemaVersion = 1, le_payload = PAccount p\<rparr> r = Inr r'
      \<and> restores r' s2 \<and> grows r r' s2"
proof -
  have same: "map_of (sv_accounts r) = map_of (sv_accounts s)" "map_of (sv_byKey r) = map_of (sv_byKey s)"
    using rs by (simp_all add: restores_def)
  obtain r' where run: "applyStateEvent (en_KeyFromJWK env) \<lparr>le_TenantID = tn, le_SchemaVersion = 1, le_payload = PAccount p\<rparr> r = Inr r'"
    using p key by (simp add: applyStateEvent_def applyAccountEvent_def Let_def)
  have flds: "held r' = held r" "sv_certs r' = sv_certs r" "dom (map_of (sv_accounts r')) = insert (ae_URL p) (dom (map_of (sv_accounts r)))"
    "sv_seq r' = max (ae_Seq p) (sv_seq r)" "sv_orders r' = sv_orders r"
    using run p key by (auto simp: applyStateEvent_def applyAccountEvent_def Let_def rememberSeq_core held_def AList.update_conv')
  have "ids_drawn r'"
  proof (rule ids_drawn_keep [of r])
    show "ids_drawn r" using rs by (simp add: restores_def)
    show "u \<in> dom (map_of (sv_accounts r)) \<or> account_url (sv_seq r') u" if "u \<in> dom (map_of (sv_accounts r'))" for u
      using that url account_url_mono [of "ae_Seq p" u "sv_seq r'"] by (auto simp: flds same)
  qed (simp_all add: flds)
  moreover have "map_of (sv_accounts r') = map_of (sv_accounts s2) \<and> map_of (sv_byKey r') = map_of (sv_byKey s2)
      \<and> sv_orders r' = sv_orders r \<and> sv_authzs r' = sv_authzs r \<and> sv_challenges r' = sv_challenges r \<and> sv_certs r' = sv_certs r
      \<and> sv_issued r' = sv_issued r \<and> sv_ariWindows r' = sv_ariWindows r \<and> sv_revoked r' = sv_revoked r \<and> sv_earlyRenew r' = sv_earlyRenew r"
    using run p key
    by (auto simp: applyStateEvent_def applyAccountEvent_def Let_def same acc byKey old rememberSeq_core AList.update_conv' AList.delete_conv' or_default_def
        fun_eq_iff)
  ultimately show ?thesis using run rs flds by (simp add: restores_def rest grows_def)
qed

lemma accounts_ok_put:
  assumes ok: "accounts_ok env s" and seq: "sv_seq s \<le> sv_seq s2"
    and new: "account_ok env (sv_seq s2) url a"
    and acc: "map_of (sv_accounts s2) = (map_of (sv_accounts s))(url \<mapsto> a)"
    and byKey: "map_of (sv_byKey s2) = B(ac_id a \<mapsto> url)"
      "\<And>t u. B t = Some u \<Longrightarrow> map_of (sv_byKey s) t = Some u \<and> (u = url \<longrightarrow> t = ac_id a)"
      "\<And>t u. map_of (sv_byKey s) t = Some u \<Longrightarrow> u \<noteq> url \<Longrightarrow> B t = Some u"
    and free: "\<And>u. map_of (sv_byKey s) (ac_id a) = Some u \<Longrightarrow> u = url"
  shows "accounts_ok env s2"
proof -
  have "account_ok env (sv_seq s2) u b \<and> map_of (sv_byKey s2) (ac_id b) = Some u"
    if b: "map_of (sv_accounts s2) u = Some b" for u b
  proof (cases "u = url")
    case True
    then show ?thesis using b new by (simp add: acc byKey(1))
  next
    case False
    then have old: "map_of (sv_accounts s) u = Some b" using b by (simp add: acc)
    then have "map_of (sv_byKey s) (ac_id b) = Some u" using ok by (simp add: accounts_ok_def)
    moreover have "ac_id b \<noteq> ac_id a" using calculation free False by auto
    ultimately show ?thesis
      using ok old byKey(3) False account_ok_mono [OF _ seq] by (auto simp: accounts_ok_def byKey(1))
  qed
  moreover have "\<exists>b. map_of (sv_accounts s2) u = Some b \<and> ac_id b = t" if t: "map_of (sv_byKey s2) t = Some u" for t u
  proof (cases "t = ac_id a")
    case True
    then show ?thesis using t by (auto simp: acc byKey(1))
  next
    case False
    then have "B t = Some u" using t by (simp add: byKey(1))
    then have "map_of (sv_byKey s) t = Some u" "u \<noteq> url" using byKey(2) False by auto
    then show ?thesis using ok by (auto simp: accounts_ok_def acc)
  qed
  ultimately show ?thesis by (simp add: accounts_ok_def)
qed

lemma byKey_owner:
  "accounts_ok env s \<Longrightarrow> map_of (sv_byKey s) t = Some url \<Longrightarrow> map_of (sv_accounts s) url = Some a \<Longrightarrow> t = ac_id a"
  unfolding accounts_ok_def by (metis option.inject)

lemma byKey_account: "accounts_ok env s \<Longrightarrow> map_of (sv_byKey s) t = Some url \<Longrightarrow> map_of (sv_accounts s) url \<noteq> None"
  unfolding accounts_ok_def by (metis option.distinct(1))

lemma appendStateEvent_fields:
  assumes "appendStateEvent ok p s = Inr s1"
  shows "s1 = s\<lparr>sv_stateLog := sv_stateLog s1\<rparr>"
  using assms by (auto simp: appendStateEvent_def split: option.splits if_splits)

lemma appendStateEvent_same:
  assumes "appendStateEvent ok p s = Inr s1"
  shows "sv_accounts s1 = sv_accounts s" "sv_byKey s1 = sv_byKey s" "sv_orders s1 = sv_orders s"
    "sv_authzs s1 = sv_authzs s" "sv_challenges s1 = sv_challenges s" "sv_certs s1 = sv_certs s"
    "sv_issued s1 = sv_issued s" "sv_revoked s1 = sv_revoked s" "sv_ariWindows s1 = sv_ariWindows s"
    "sv_earlyRenew s1 = sv_earlyRenew s" "sv_seq s1 = sv_seq s"
  by (subst appendStateEvent_fields [OF assms], simp)+

lemma same_durable_seq: "sv_seq s \<le> n \<Longrightarrow> same_durable s (s\<lparr>sv_seq := n\<rparr>)"
  by (simp add: same_durable_def)

lemma create_account_replays:
  assumes rep: "replays env tn s0 s I E" and tn: "tn \<noteq> ''''"
    and H: "en_KeyFromJWK env [] = None" "\<And>k. en_Thumbprint env k \<noteq> ''''"
    and key: "en_KeyFromJWK env (am_JWK msg) = Some key"
    and free: "map_of (sv_byKey s) (en_Thumbprint env key) = None"
  shows "replays env tn s0 (fst (create_account env ok base key msg req s)) I (E \<union> held (fst (create_account env ok base key msg req s)))"
proof -
  let ?n = "Suc (sv_seq s)" and ?s1 = "s\<lparr>sv_seq := Suc (sv_seq s)\<rparr>"
  let ?url = "base @ ''/acme/acct/'' @ itoa ?n"
  let ?a = "\<lparr>ac_id = en_Thumbprint env key, ac_url = ?url, ac_key = key,
             ac_jwk = am_JWK msg, ac_contact = na_Contact req, ac_status = ''valid''\<rparr>"
  have rep1: "replays env tn s0 ?s1 I E" using rep by (rule replays_durable) (simp add: same_durable_seq)
  have jwk: "am_JWK msg \<noteq> []" using key H(1) by auto
  have ok1: "accounts_ok env s" using rep by (simp add: replays_def)
  have fresh: "map_of (sv_accounts s) ?url = None"
    using ok1 account_url_fresh [of "sv_seq s" base] unfolding accounts_ok_def account_ok_def
    by (cases "map_of (sv_accounts s) ?url") blast+
  show ?thesis
  proof (cases "appendStateEvent ok (PAccount (accountEventFrom ?a ?n)) ?s1")
    case (Inl e)
    then show ?thesis using replays_more [OF rep1] by (simp add: create_account_def)
  next
    case (Inr s2)
    let ?s3 = "s2\<lparr>sv_byKey := AList.update (ac_id ?a) (ac_url ?a) (sv_byKey s2),
                 sv_accounts := AList.update (ac_url ?a) ?a (sv_accounts s2)\<rparr>"
    note flds = appendStateEvent_same [OF Inr, simplified]
    have none: "map_of (sv_byKey s) t \<noteq> Some ?url" for t
      using ok1 fresh unfolding accounts_ok_def by (metis option.distinct(1))
    have url: "account_url ?n ?url" unfolding account_url_def by (intro exI [of _ base] exI [of _ ?n]) simp
    have acc: "accounts_ok env ?s3"
    proof (rule accounts_ok_put [OF ok1, where a = ?a and url = ?url and B = "map_of (sv_byKey s)"])
      show "map_of (sv_byKey s) t = Some u \<and> (u = ?url \<longrightarrow> t = ac_id ?a)" if "map_of (sv_byKey s) t = Some u" for t u
        using that none by blast
    qed (use url key jwk free in \<open>simp_all add: flds AList.update_conv' account_ok_def\<close>)
    have "replays env tn s0 ?s3 I (E \<union> held ?s3)"
    proof (rule replays_append [OF rep1 tn _ Inr _ _ _ acc])
      fix r assume rs: "restores r ?s1"
      show "\<exists>r'. applyStateEvent (en_KeyFromJWK env)
            \<lparr>le_TenantID = tn, le_SchemaVersion = 1, le_payload = PAccount (accountEventFrom ?a ?n)\<rparr> r = Inr r'
          \<and> restores r' ?s3 \<and> grows r r' ?s3"
        using jwk H(2) key fresh
        by (intro restores_account [OF rs, where k = key and oldID = "''''"])
          (use url in \<open>simp_all add: accountEventFrom_def AList.update_conv' flds\<close>)
    qed simp_all
    then show ?thesis using Inr by (simp add: create_account_def)
  qed
qed

lemma update_contact_replays:
  assumes rep: "replays env tn s0 s I E" and tn: "tn \<noteq> ''''"
    and H: "\<And>k. en_Thumbprint env k \<noteq> ''''"
    and acct: "map_of (sv_accounts s) url = Some a"
  shows "replays env tn s0 (fst (update_contact ok a msg contact s)) I (E \<union> held (fst (update_contact ok a msg contact s)))"
proof -
  have ok1: "accounts_ok env s" using rep by (simp add: replays_def)
  have a: "account_ok env (sv_seq s) url a" "map_of (sv_byKey s) (ac_id a) = Some url"
    using ok1 acct by (auto simp: accounts_ok_def)
  then have a': "ac_url a = url" "ac_id a \<noteq> ''''" "ac_jwk a \<noteq> []" "url \<noteq> ''''"
    "en_KeyFromJWK env (ac_jwk a) = Some (ac_key a)" "ac_status a = ''valid''"
    using H account_url_ne by (auto simp: account_ok_def)
  let ?u = "a\<lparr>ac_contact := contact, ac_jwk := (if ac_jwk a = [] then am_JWK msg else ac_jwk a)\<rparr>"
  show ?thesis
  proof (cases "appendStateEvent ok (PAccount (accountEventFrom ?u 0)) s")
    case (Inl e)
    then show ?thesis using replays_more [OF rep] by (simp add: update_contact_def)
  next
    case (Inr s1)
    let ?s2 = "s1\<lparr>sv_accounts := AList.update (ac_url a) ?u (sv_accounts s1)\<rparr>"
    note flds = appendStateEvent_same [OF Inr]
    have u: "a\<lparr>ac_contact := contact\<rparr> = \<lparr>ac_id = ac_id a, ac_url = url, ac_key = ac_key a, ac_jwk = ac_jwk a, ac_contact = contact, ac_status = ''valid''\<rparr>"
      using a' by (cases a) simp
    have acc: "accounts_ok env ?s2"
    proof (rule accounts_ok_put [OF ok1, where a = ?u and url = url and B = "map_of (sv_byKey s)"])
      show "map_of (sv_byKey s) t = Some u \<and> (u = url \<longrightarrow> t = ac_id ?u)" if "map_of (sv_byKey s) t = Some u" for t u
        using that byKey_owner [OF ok1 _ acct] by auto
    qed (use a a' in \<open>auto simp: flds AList.update_conv' account_ok_def\<close>)
    have "replays env tn s0 ?s2 I (E \<union> held ?s2)"
    proof (rule replays_append [OF rep tn _ Inr _ _ _ acc])
      fix r assume rs: "restores r s"
      show "\<exists>r'. applyStateEvent (en_KeyFromJWK env)
            \<lparr>le_TenantID = tn, le_SchemaVersion = 1, le_payload = PAccount (accountEventFrom ?u 0)\<rparr> r = Inr r'
          \<and> restores r' ?s2 \<and> grows r r' ?s2"
        using a a' acct
        by (intro restores_account [OF rs, where k = "ac_key a" and oldID = "ac_id a"])
          (simp_all add: accountEventFrom_def AList.update_conv' flds fun_upd_idem u)
    qed simp_all
    then show ?thesis using Inr by (simp add: update_contact_def)
  qed
qed

lemma newAccount_replays:
  assumes rep: "replays env tn s0 s I E" and tn: "tn \<noteq> ''''"
    and H: "en_KeyFromJWK env [] = None" "\<And>k. en_Thumbprint env k \<noteq> ''''"
  shows "replays env tn s0 (fst (newAccount env ok now src base msg acct s)) I (E \<union> held (fst (newAccount env ok now src base msg acct s)))"
proof -
  have p: "replays env tn s0 (pruneExpired now s) I E" using replays_durable [OF rep pruneExpired_durable] .
  have con: "replays env tn s0 s2 I E" "map_of (sv_byKey s2) t = map_of (sv_byKey (pruneExpired now s)) t"
    if "consumeSource src ''account'' now (pruneExpired now s) = (s2, b)" for s2 b t
    using replays_durable [OF p consumeSource_durable [OF that]] consumeSource_durable [OF that]
    by (simp_all add: same_durable_def)
  have ok1: "accounts_ok env (pruneExpired now s)" using p by (simp add: replays_def)
  have none: "map_of (sv_byKey (pruneExpired now s)) t = None"
    if "Option.bind (map_of (sv_byKey (pruneExpired now s)) t) (map_of (sv_accounts (pruneExpired now s))) = None" for t
    using that byKey_account [OF ok1] by (cases "map_of (sv_byKey (pruneExpired now s)) t") auto
  have upd: "replays env tn s0 (fst (update_contact ok a msg c (pruneExpired now s))) I (E \<union> held (fst (update_contact ok a msg c (pruneExpired now s))))"
    if "Option.bind t (map_of (sv_accounts (pruneExpired now s))) = Some a" for a c t
    using that update_contact_replays [OF p tn H(2)] by (cases t) auto
  have create: "replays env tn s0 (fst (create_account env ok base key msg req s2)) I (E \<union> held (fst (create_account env ok base key msg req s2)))"
    if "en_KeyFromJWK env (am_JWK msg) = Some key"
      "Option.bind (map_of (sv_byKey (pruneExpired now s)) (en_Thumbprint env key)) (map_of (sv_accounts (pruneExpired now s))) = None"
      "consumeSource src ''account'' now (pruneExpired now s) = (s2, b)" for key req s2 b
    using create_account_replays [OF con(1) [OF that(3)] tn H that(1)] con(2) [OF that(3)] none [OF that(2)] by simp
  show ?thesis
    using replays_more [OF rep] replays_more [OF p] replays_more [OF con(1)] upd create by (auto simp: newAccount_def Let_def split: option.split prod.split)
qed

lemma keyChange_replays:
  assumes rep: "replays env tn s0 s I E" and tn: "tn \<noteq> ''''"
    and H: "en_KeyFromJWK env [] = None" "\<And>k. en_Thumbprint env k \<noteq> ''''"
  shows "replays env tn s0 (fst (keyChange env ok msg acct s)) I (E \<union> held (fst (keyChange env ok msg acct s)))"
proof -
  have ok1: "accounts_ok env s" using rep by (simp add: replays_def)
  have rot: "replays env tn s0 (s1\<lparr>sv_byKey := AList.update (en_Thumbprint env k) (ac_url a)
            (AList.delete (en_Thumbprint env (ac_key a)) (sv_byKey s1)),
          sv_accounts := AList.update (ac_url a) (a\<lparr>ac_id := en_Thumbprint env k, ac_key := k, ac_jwk := j\<rparr>) (sv_accounts s1)\<rparr>) I (E \<union> held (s1\<lparr>sv_byKey := AList.update (en_Thumbprint env k) (ac_url a)
            (AList.delete (en_Thumbprint env (ac_key a)) (sv_byKey s1)),
          sv_accounts := AList.update (ac_url a) (a\<lparr>ac_id := en_Thumbprint env k, ac_key := k, ac_jwk := j\<rparr>) (sv_accounts s1)\<rparr>))"
    if bind: "Option.bind acct (map_of (sv_accounts s)) = Some a" and k: "en_KeyFromJWK env j = Some k"
      and app: "appendStateEvent ok (PAccount (accountEventFrom (a\<lparr>ac_id := en_Thumbprint env k, ac_key := k, ac_jwk := j\<rparr>) 0)) s = Inr s1"
      and free: "\<And>u. map_of (sv_byKey s) (en_Thumbprint env k) = Some u \<Longrightarrow> u = ac_url a" for a k j s1
  proof -
    obtain url where acct: "map_of (sv_accounts s) url = Some a" using bind by (cases acct) auto
    have a: "account_ok env (sv_seq s) url a" "map_of (sv_byKey s) (ac_id a) = Some url"
      using ok1 acct by (auto simp: accounts_ok_def)
    have a': "ac_url a = url" "ac_id a = en_Thumbprint env (ac_key a)" "url \<noteq> ''''" "account_url (sv_seq s) url"
      "ac_status a = ''valid''"
      using a(1) account_url_ne by (auto simp: account_ok_def)
    have jwk: "j \<noteq> []" using k H(1) by auto
    let ?u = "a\<lparr>ac_id := en_Thumbprint env k, ac_key := k, ac_jwk := j\<rparr>"
    let ?s2 = "s1\<lparr>sv_byKey := AList.update (en_Thumbprint env k) (ac_url a)
            (AList.delete (en_Thumbprint env (ac_key a)) (sv_byKey s1)),
          sv_accounts := AList.update (ac_url a) ?u (sv_accounts s1)\<rparr>"
    note flds = appendStateEvent_same [OF app]
    have u: "?u = \<lparr>ac_id = en_Thumbprint env k, ac_url = url, ac_key = k, ac_jwk = j, ac_contact = ac_contact a, ac_status = ''valid''\<rparr>"
      using a' by (cases a) simp
    let ?B = "(map_of (sv_byKey s))(ac_id a := None)"
    have acc: "accounts_ok env ?s2"
    proof (rule accounts_ok_put [OF ok1, where a = ?u and url = url and B = ?B])
      show "map_of (sv_byKey s) t = Some w \<and> (w = url \<longrightarrow> t = ac_id ?u)" if "?B t = Some w" for t w
        using that byKey_owner [OF ok1 _ acct] by (auto split: if_splits)
      show "?B t = Some w" if "map_of (sv_byKey s) t = Some w" "w \<noteq> url" for t w
        using that a(2) by auto
    qed (use a' jwk k free in \<open>auto simp: flds AList.update_conv' AList.delete_conv' account_ok_def\<close>)
    show ?thesis
    proof (rule replays_append [OF rep tn _ app _ _ _ acc])
      fix r assume rs: "restores r s"
      show "\<exists>r'. applyStateEvent (en_KeyFromJWK env)
            \<lparr>le_TenantID = tn, le_SchemaVersion = 1, le_payload = PAccount (accountEventFrom ?u 0)\<rparr> r = Inr r'
          \<and> restores r' ?s2 \<and> grows r r' ?s2"
        using a' jwk k acct H(2)
        by (intro restores_account [OF rs, where k = k and oldID = "ac_id a"])
          (simp_all add: u accountEventFrom_def AList.update_conv' AList.delete_conv' flds)
    qed simp_all
  qed
  show ?thesis
    using replays_more [OF rep] by (auto simp: keyChange_def Let_def intro!: rot split: option.splits sum.split)
qed

section \<open>Orders in the log\<close>

definition plain_authz :: "string \<Rightarrow> authorization \<times> challenge list \<Rightarrow> bool" where
  "plain_authz st ac =
     (az_id (fst ac) \<noteq> '''' \<and> az_orderID (fst ac) \<noteq> '''' \<and> az_status (fst ac) = st
      \<and> az_challenges (fst ac) = map ch_id (snd ac)
      \<and> (\<forall>c \<in> set (snd ac). ch_id c \<noteq> '''' \<and> ch_authzID c \<noteq> '''' \<and> ch_status c = st))"

lemma mk_authzs_plain:
  "oid \<noteq> '''' \<Longrightarrow> mk_authzs tok oid st now types n = (azs, m) \<Longrightarrow> list_all (plain_authz st) azs"
proof (induction types arbitrary: n azs m)
  case (Cons t ts)
  obtain d cts where t: "t = (d, cts)" by (cases t)
  have "plain_authz st (\<lparr>az_id = itoa (Suc n), az_orderID = oid, az_domain = d, az_status = st,
        az_challenges = map ch_id (mk_challenges tok (itoa (Suc n)) st cts (Suc n)), az_createdAt = now\<rparr>,
        mk_challenges tok (itoa (Suc n)) st cts (Suc n))"
    using Cons.prems(1) mk_challenges_ids [of _ tok "itoa (Suc n)" st cts "Suc n"]
    by (fastforce simp: plain_authz_def)
  with Cons show ?case by (auto simp: t Let_def split: prod.splits)
qed simp

lemma apply_challenges_plain:
  "\<forall>c \<in> set cs. ch_id c \<noteq> '''' \<and> ch_authzID c \<noteq> '''' \<and> ch_status c = st \<Longrightarrow> st \<noteq> '''' \<Longrightarrow>
   apply_challenges cs s = Inr (s\<lparr>sv_challenges := fold (\<lambda>c m. AList.update (ch_id c) c m) cs (sv_challenges s)\<rparr>)"
proof (induction cs arbitrary: s)
  case (Cons c cs)
  then have "c\<lparr>ch_status := or_default ''pending'' (ch_status c)\<rparr> = c"
    by (cases c) (simp add: or_default_def)
  with Cons show ?case by simp
qed simp

lemma authz_challenge_commute:
  "s\<lparr>sv_challenges := c, sv_authzs := a\<rparr> = s\<lparr>sv_authzs := a, sv_challenges := c\<rparr>"
  by simp

lemma apply_authzs_plain:
  "list_all (plain_authz st) azs \<Longrightarrow> st \<noteq> '''' \<Longrightarrow> apply_authzs azs s = Inr (fold put_authz azs s)"
proof (induction azs arbitrary: s)
  case (Cons ac azs)
  obtain a cs where ac: "ac = (a, cs)" by (cases ac)
  have p: "plain_authz st (a, cs)" using Cons.prems by (simp add: ac)
  then have "a\<lparr>az_status := or_default ''pending'' (az_status a), az_challenges := map ch_id cs\<rparr> = a"
    using Cons.prems(2) by (cases a) (auto simp: plain_authz_def or_default_def)
  then show ?case
    using Cons p apply_challenges_plain [of cs st s]
    by (simp add: ac plain_authz_def put_authz_def authz_challenge_commute)
qed simp

lemma fold_update_map_le:
  "map_of m \<subseteq>\<^sub>m map_of m' \<Longrightarrow>
   map_of (fold (\<lambda>x m. AList.update (f x) (g x) m) xs m) \<subseteq>\<^sub>m map_of (fold (\<lambda>x m. AList.update (f x) (g x) m) xs m')"
proof (induction xs arbitrary: m m')
  case (Cons x xs)
  have "map_of (AList.update (f x) (g x) m) \<subseteq>\<^sub>m map_of (AList.update (f x) (g x) m')"
    using Cons.prems by (auto simp: AList.update_conv' map_le_def)
  from Cons.IH [OF this] show ?case by simp
qed simp

lemma map_le_upd: "m \<subseteq>\<^sub>m m' \<Longrightarrow> m(k \<mapsto> v) \<subseteq>\<^sub>m m'(k \<mapsto> v)"
  by (auto simp: map_le_def)

lemma put_authz_other:
  "sv_accounts (fold put_authz azs s) = sv_accounts s" "sv_byKey (fold put_authz azs s) = sv_byKey s"
  "sv_certs (fold put_authz azs s) = sv_certs s" "sv_issued (fold put_authz azs s) = sv_issued s"
  "sv_revoked (fold put_authz azs s) = sv_revoked s" "sv_ariWindows (fold put_authz azs s) = sv_ariWindows s"
  "sv_earlyRenew (fold put_authz azs s) = sv_earlyRenew s" "sv_stateLog (fold put_authz azs s) = sv_stateLog s"
  "sv_stateTenantID (fold put_authz azs s) = sv_stateTenantID s" "sv_authMode (fold put_authz azs s) = sv_authMode s"
  by (induction azs arbitrary: s) (simp_all add: put_authz_def)

definition known_mode :: "string \<Rightarrow> bool" where
  "known_mode m = (m \<in> {''public_trust'', ''trust_authenticated''})"

lemma profile_modes:
  "profileACMEAuthMode ''public_trust'' = ''public_trust''"
  "profileACMEAuthMode ''trust_authenticated'' = ''trust_authenticated''"
  by code_simp+

lemma known_mode_profile: "known_mode m \<Longrightarrow> profileACMEAuthMode m = m"
  using profile_modes by (auto simp: known_mode_def)

lemma fold_update_dom:
  "dom (map_of (fold (\<lambda>x m. AList.update (f x) (g x) m) xs m)) = dom (map_of m) \<union> f ` set xs"
  by (induction xs arbitrary: m) (auto simp: AList.update_conv')

text \<open>The ids an order brings with it.\<close>

definition order_ids :: "(authorization \<times> challenge list) list \<Rightarrow> (table \<times> string) set" where
  "order_ids azs = {Authzs} \<times> (\<lambda>x. az_id (fst x)) ` set azs \<union> {Challenges} \<times> ch_id ` set (concat (map snd azs))"

lemma held_put_authzs: "held (fold put_authz azs s) = held s \<union> order_ids azs"
  by (auto simp: held_def put_authz_fields fold_update_dom order_ids_def)

lemma held_put_order: "held (s\<lparr>sv_orders := AList.update k ord os\<rparr>) = insert (Orders, k) (held (s\<lparr>sv_orders := os\<rparr>))"
  by (auto simp: held_def AList.update_conv')

lemma order_ids_known: "list_all (new_authz oid st n m) azs \<Longrightarrow> x \<in> order_ids azs \<Longrightarrow> known m (snd x)"
  using drawn_known by (fastforce simp: order_ids_def list_all_iff new_authz_def)

lemma order_ids_drawn:
  assumes "ids_drawn r" and "list_all (new_authz oid st n m) azs" and "known m oid"
  shows "ids_drawn (rememberSeq m (fold put_authz azs (r\<lparr>sv_orders := AList.update oid ord (sv_orders r)\<rparr>)))"
proof (rule ids_drawn_keep [OF assms(1)])
  fix x
  assume "x \<in> held (rememberSeq m (fold put_authz azs (r\<lparr>sv_orders := AList.update oid ord (sv_orders r)\<rparr>)))"
  then have "x \<in> held r \<or> x = (Orders, oid) \<or> x \<in> order_ids azs" by (auto simp: held_put_authzs held_put_order)
  then have "x \<in> held r \<or> known m (snd x)" using assms(3) order_ids_known [OF assms(2), of x] by auto
  then show "x \<in> held r \<or> known (sv_seq (rememberSeq m (fold put_authz azs (r\<lparr>sv_orders := AList.update oid ord (sv_orders r)\<rparr>)))) (snd x)"
    using known_mono by fastforce
qed (simp_all add: put_authz_fields put_authz_other)

lemma create_order_replays:
  assumes rep: "replays env tn s0 s I E" and tn: "tn \<noteq> ''''" and url: "url \<noteq> ''''" and mode: "known_mode mode"
  shows "replays env tn s0 (fst (create_order ok tok now url mode replaces types s)) I (E \<union> held (fst (create_order ok tok now url mode replaces types s)))"
proof -
  let ?st = "if mode = ''trust_authenticated'' then ''valid'' else ''pending''"
  let ?n = "Suc (sv_seq s)" and ?oid = "itoa (Suc (sv_seq s))"
  obtain azs m where mk: "mk_authzs tok ?oid ?st now types ?n = (azs, m)" by fastforce
  have plain: "list_all (plain_authz ?st) azs" using mk_authzs_plain [OF _ mk] by simp
  let ?s1 = "s\<lparr>sv_seq := m\<rparr>"
  have le: "sv_seq s \<le> m" and props: "list_all (new_authz ?oid ?st ?n m) azs" "known m ?oid"
    using mk_authzs_props [OF mk] by simp_all
  have rep1: "replays env tn s0 ?s1 I E" using rep le by (blast intro: replays_durable same_durable_seq)
  let ?ord = "\<lparr>od_id = ?oid, od_accountURL = url, od_domains = map fst types,
       od_authzIDs = map (az_id \<circ> fst) azs,
       od_status = (if mode = ''trust_authenticated'' then ''ready'' else ''pending''), od_authMode = mode,
       od_certID = '''', od_replaces = replaces, od_createdAt = now\<rparr>"
  let ?p = "\<lparr>oe_Seq = m, oe_Order = ?ord, oe_Authorizations = azs\<rparr>"
  show ?thesis
  proof (cases "appendStateEvent ok (POrder ?p) ?s1")
    case (Inl e)
    then show ?thesis using replays_more [OF rep1] by (simp add: create_order_def mk Let_def)
  next
    case (Inr s2)
    note flds = appendStateEvent_same [OF Inr, simplified]
    let ?s3 = "(fold put_authz azs s2)\<lparr>sv_orders := AList.update ?oid ?ord (sv_orders s2)\<rparr>"
    have "accounts_ok env s" using rep by (simp add: replays_def)
    then have acc: "accounts_ok env ?s3"
      by (rule accounts_ok_same) (simp_all add: put_authz_other put_authz_fields flds le)
    have "replays env tn s0 ?s3 I (E \<union> held ?s3)"
    proof (rule replays_append [OF rep1 tn _ Inr _ _ _ acc])
      fix r assume rs: "restores r ?s1"
      let ?r1 = "r\<lparr>sv_orders := AList.update ?oid ?ord (sv_orders r)\<rparr>"
      have app: "apply_authzs azs ?r1 = Inr (fold put_authz azs ?r1)"
        using plain by (rule apply_authzs_plain) simp
      have ordn: "?ord\<lparr>od_status := or_default ''pending'' (od_status ?ord), od_authMode := profileACMEAuthMode (od_authMode ?ord)\<rparr> = ?ord"
        using known_mode_profile [OF mode] by (simp add: or_default_def)
      show "\<exists>r'. applyStateEvent (en_KeyFromJWK env)
            \<lparr>le_TenantID = tn, le_SchemaVersion = 1, le_payload = POrder ?p\<rparr> r = Inr r'
          \<and> restores r' ?s3 \<and> grows r r' ?s3"
      proof (intro exI conjI)
        let ?r' = "rememberSeq m (fold put_authz azs ?r1)"
        show "applyStateEvent (en_KeyFromJWK env)
            \<lparr>le_TenantID = tn, le_SchemaVersion = 1, le_payload = POrder ?p\<rparr> r = Inr ?r'"
          using url app ordn by (simp add: applyStateEvent_def applyOrderCreatedEvent_def)
        have "ids_drawn ?r'" using rs by (intro order_ids_drawn [OF _ props]) (simp add: restores_def)
        then show "restores ?r' ?s3"
          using rs by (auto simp: restores_def put_authz_other put_authz_fields rememberSeq_core flds AList.update_conv'
              intro!: fold_update_map_le map_le_upd)
        have "held ?s3 = insert (Orders, ?oid) (held s) \<union> order_ids azs"
          using held_put_authzs [of azs s2] by (auto simp: held_def flds put_authz_fields AList.update_conv')
        moreover have "held ?r' = insert (Orders, ?oid) (held r) \<union> order_ids azs"
          by (simp add: held_put_authzs held_put_order)
        ultimately show "grows r ?r' ?s3"
          by (auto simp: grows_def put_authz_fields rememberSeq_core AList.update_conv')
      qed
    qed (simp_all add: put_authz_other)
    then show ?thesis using Inr by (simp add: create_order_def mk Let_def put_authz_fields)
  qed
qed

lemma newOrder_replays:
  assumes rep: "replays env tn s0 s I E" and tn: "tn \<noteq> ''''" and mode: "known_mode (sv_authMode s0)"
  shows "replays env tn s0 (fst (newOrder env ok tok limit now src msg acct s)) I (E \<union> held (fst (newOrder env ok tok limit now src msg acct s)))"
proof -
  have ok1: "accounts_ok env s" "sv_authMode s = sv_authMode s0" using rep by (simp_all add: replays_def)
  have con: "replays env tn s0 s2 I E" if "consumeSource src ''order'' now (pruneExpired now s) = (s2, b)" for s2 b
    using replays_durable [OF rep same_durable_trans [OF pruneExpired_durable consumeSource_durable [OF that]]] .
  have url: "ac_url a \<noteq> ''''" if b: "Option.bind acct (map_of (sv_accounts s)) = Some a" for a
  proof -
    obtain u where "map_of (sv_accounts s) u = Some a" using b by (cases acct) auto
    then have "account_ok env (sv_seq s) u a" using ok1 by (simp add: accounts_ok_def)
    then show ?thesis using account_url_ne by (auto simp: account_ok_def)
  qed
  have m: "known_mode (or_default ''public_trust'' (sv_authMode s))"
    using mode ok1(2) by (auto simp: known_mode_def or_default_def)
  have create: "replays env tn s0 (fst (create_order ok tok now (ac_url a) (or_default ''public_trust'' (sv_authMode s)) rep' types s2)) I (E \<union> held (fst (create_order ok tok now (ac_url a) (or_default ''public_trust'' (sv_authMode s)) rep' types s2)))"
    if "Option.bind acct (map_of (sv_accounts s)) = Some a"
      "consumeSource src ''order'' now (pruneExpired now s) = (s2, b)" for a s2 b rep' types
    using create_order_replays [OF con [OF that(2)] tn url [OF that(1)] m] .
  show ?thesis
    using replays_more [OF rep] replays_more [OF con] create
    by (auto simp: newOrder_def Let_def split: option.split prod.split sum.split)
qed

section \<open>Validation, issuance and revocation in the log\<close>

lemma set_validated_fields [simp]:
  "map_of (sv_challenges (set_validated ch i az j cs as s)) = (map_of (sv_challenges s))(i \<mapsto> ch\<lparr>ch_status := cs\<rparr>)"
  "map_of (sv_authzs (set_validated ch i az j cs as s)) = (map_of (sv_authzs s))(j \<mapsto> az\<lparr>az_status := as\<rparr>)"
  "sv_orders (set_validated ch i az j cs as s) = sv_orders s"
  "sv_accounts (set_validated ch i az j cs as s) = sv_accounts s" "sv_byKey (set_validated ch i az j cs as s) = sv_byKey s"
  "sv_certs (set_validated ch i az j cs as s) = sv_certs s" "sv_issued (set_validated ch i az j cs as s) = sv_issued s"
  "sv_revoked (set_validated ch i az j cs as s) = sv_revoked s" "sv_ariWindows (set_validated ch i az j cs as s) = sv_ariWindows s"
  "sv_earlyRenew (set_validated ch i az j cs as s) = sv_earlyRenew s" "sv_stateLog (set_validated ch i az j cs as s) = sv_stateLog s"
  "sv_stateTenantID (set_validated ch i az j cs as s) = sv_stateTenantID s" "sv_authMode (set_validated ch i az j cs as s) = sv_authMode s"
  "sv_seq (set_validated ch i az j cs as s) = sv_seq s"
  by (simp_all add: set_validated_def AList.update_conv')

lemma set_order_status_fields [simp]:
  "sv_authzs (set_order_status k st s) = sv_authzs s" "sv_challenges (set_order_status k st s) = sv_challenges s"
  "sv_accounts (set_order_status k st s) = sv_accounts s" "sv_byKey (set_order_status k st s) = sv_byKey s"
  "sv_certs (set_order_status k st s) = sv_certs s" "sv_issued (set_order_status k st s) = sv_issued s"
  "sv_revoked (set_order_status k st s) = sv_revoked s" "sv_ariWindows (set_order_status k st s) = sv_ariWindows s"
  "sv_earlyRenew (set_order_status k st s) = sv_earlyRenew s" "sv_stateLog (set_order_status k st s) = sv_stateLog s"
  "sv_stateTenantID (set_order_status k st s) = sv_stateTenantID s" "sv_authMode (set_order_status k st s) = sv_authMode s"
  "sv_seq (set_order_status k st s) = sv_seq s"
  by (simp_all add: set_order_status_def split: option.splits)

lemma set_status_held:
  "held (set_order_status k st s) = held s"
  "dom (map_of (sv_orders (set_order_status k st s))) = dom (map_of (sv_orders s))"
  "ids_drawn (set_order_status k st s) = ids_drawn s"
proof -
  show d: "dom (map_of (sv_orders (set_order_status k st s))) = dom (map_of (sv_orders s))"
    by (auto simp: set_order_status_def AList.update_conv' split: option.splits)
  then show "held (set_order_status k st s) = held s" by (simp add: held_def)
  then show "ids_drawn (set_order_status k st s) = ids_drawn s" by (simp add: ids_drawn_def)
qed

lemma set_validated_held:
  assumes "map_of (sv_challenges s) i \<noteq> None" and "map_of (sv_authzs s) j \<noteq> None"
  shows "held (set_validated ch i az j cs as s) = held s"
    and "ids_drawn (set_validated ch i az j cs as s) = ids_drawn s"
proof -
  show "held (set_validated ch i az j cs as s) = held s" using assms by (auto simp: held_def)
  then show "ids_drawn (set_validated ch i az j cs as s) = ids_drawn s" by (simp add: ids_drawn_def)
qed

lemma set_order_status_orders:
  "map_of (sv_orders s) k = Some ord \<Longrightarrow>
   map_of (sv_orders (set_order_status k st s)) = (map_of (sv_orders s))(k \<mapsto> ord\<lparr>od_status := st\<rparr>)"
  by (simp add: set_order_status_def AList.update_conv')

lemma map_leD: "m \<subseteq>\<^sub>m m' \<Longrightarrow> m k = Some v \<Longrightarrow> m' k = Some v"
  by (auto simp: map_le_def dom_def)

text \<open>The order's status in the event is the status the handler leaves.\<close>

lemma others_valid_iff:
  assumes "map_of (sv_authzs s2) = (map_of (sv_authzs s))(az_id az \<mapsto> az\<lparr>az_status := ''valid''\<rparr>)"
  shows "allAuthzValid ord s2 = others_valid ord (az_id az) s"
  unfolding allAuthzValid_def others_valid_def list_all_iff assms by auto

lemma known_ne: "known n i \<Longrightarrow> i \<noteq> ''''"
  using itoa_ne by (metis known_def)

lemma order_key:
  assumes "acme_inv s V I" and "map_of (sv_orders s) k = Some ord"
  shows "od_id ord = k" and "k \<noteq> ''''"
proof -
  have "order_ok (map_of (sv_authzs s)) (sv_seq s) V k ord"
    using assms by (simp add: acme_inv_def core_inv_def)
  then show "od_id ord = k" "k \<noteq> ''''" using known_ne by (auto simp: order_ok_def)
qed

lemma authz_key: "acme_inv s V I \<Longrightarrow> map_of (sv_authzs s) i = Some az \<Longrightarrow> az_id az = i"
  by (simp add: acme_inv_def core_inv_def)

lemma challenge_key: "acme_inv s V I \<Longrightarrow> map_of (sv_challenges s) i = Some ch \<Longrightarrow> ch_id ch = i"
  by (simp add: acme_inv_def core_inv_def challenge_ok_def)

lemma restores_order_status:
  assumes rs: "restores r s" and k: "map_of (sv_orders s) k = Some ord"
  shows "restores (set_order_status k st r) (set_order_status k st s)"
    and "st = od_status ord \<Longrightarrow> restores (set_order_status k st r) s"
proof -
  have sub: "map_of (sv_orders s) \<subseteq>\<^sub>m map_of (sv_orders r)" using rs by (simp add: restores_def)
  then have kr: "map_of (sv_orders r) k = Some ord" using k by (rule map_leD)
  show "restores (set_order_status k st r) (set_order_status k st s)"
    using rs by (simp add: restores_def set_order_status_orders [OF k] set_order_status_orders [OF kr] map_le_upd set_status_held)
  assume "st = od_status ord"
  then have "map_of (sv_orders (set_order_status k st r)) = map_of (sv_orders r)"
    using kr by (simp add: set_order_status_orders [OF kr] fun_upd_idem)
  with rs show "restores (set_order_status k st r) s" by (simp add: restores_def set_status_held)
qed

lemma restores_validated:
  assumes rs: "restores r s" and inv: "acme_inv s V I"
    and ch: "map_of (sv_challenges s) i = Some ch" and az: "map_of (sv_authzs s) (ch_authzID ch) = Some az"
    and s2: "s2 = set_validated ch i az (ch_authzID ch) ''valid'' ''valid'' (s\<lparr>sv_stateLog := lg\<rparr>)"
    and mo: "mo = map_of (sv_orders s) (az_orderID az)"
    and st: "st = (case mo of None \<Rightarrow> '''' | Some ord \<Rightarrow> if others_valid ord (az_id az) s then ''ready'' else od_status ord)"
    and s3: "s3 = (case map_of (sv_orders s2) (az_orderID az) of None \<Rightarrow> s2
       | Some ord \<Rightarrow> if allAuthzValid ord s2 then set_order_status (az_orderID az) ''ready'' s2 else s2)"
  shows "\<exists>r'. applyChallengeValidatedEvent (challengeValidatedEventFrom ch az mo st) r = Inr r'
     \<and> restores r' s3 \<and> grows r r' s3"
proof -
  have keys: "ch_id ch = i" "az_id az = ch_authzID ch"
    using challenge_key [OF inv ch] authz_key [OF inv az] by simp_all
  have r: "map_of (sv_challenges r) i = Some ch" "map_of (sv_authzs r) (ch_authzID ch) = Some az"
    using rs ch az by (auto simp: restores_def intro: map_leD)
  let ?r1 = "set_validated ch i az (ch_authzID ch) ''valid'' ''valid'' r"
  have same: "held ?r1 = held r" "ids_drawn ?r1 = ids_drawn r" using r by (simp_all add: set_validated_held)
  have rs1: "restores ?r1 s2" using rs by (simp add: restores_def s2 map_le_upd same)
  have run: "applyChallengeValidatedEvent (challengeValidatedEventFrom ch az mo st) r =
      Inr (case mo of None \<Rightarrow> ?r1 | Some ord \<Rightarrow> if od_id ord \<noteq> '''' \<and> st \<noteq> '''' then set_order_status (od_id ord) st ?r1 else ?r1)"
    using r keys by (simp add: applyChallengeValidatedEvent_def challengeValidatedEventFrom_def Let_def
        or_default_def split: option.split)
  show ?thesis
  proof (cases mo)
    case None
    then show ?thesis using run rs1 mo by (simp add: s3 s2 grows_def same)
  next
    case (Some ord)
    have k: "map_of (sv_orders s2) (az_orderID az) = Some ord" using mo Some by (simp add: s2)
    note okey = order_key [OF inv, of "az_orderID az" ord]
    have all: "allAuthzValid ord s2 = others_valid ord (az_id az) s"
      by (rule others_valid_iff) (simp add: s2 keys)
    have st_eq: "st = (if others_valid ord (az_id az) s then ''ready'' else od_status ord)"
      using st Some by simp
    show ?thesis
      using run Some okey mo k all st_eq rs1 restores_order_status [OF rs1 k, of st]
      by (auto simp: s3 grows_def same set_status_held)
  qed
qed

lemma accept_commit_replays:
  assumes rep: "replays env tn s0 s I E" and tn: "tn \<noteq> ''''" and inv: "acme_inv s V J"
  shows "replays env tn s0 (fst (accept_commit ok i s)) I (E \<union> held (fst (accept_commit ok i s)))"
proof -
  have "replays env tn s0 (case map_of (sv_orders s2) (az_orderID az) of None \<Rightarrow> s2
      | Some ord \<Rightarrow> if allAuthzValid ord s2 then set_order_status (az_orderID az) ''ready'' s2 else s2) I (E \<union> held (case map_of (sv_orders s2) (az_orderID az) of None \<Rightarrow> s2
      | Some ord \<Rightarrow> if allAuthzValid ord s2 then set_order_status (az_orderID az) ''ready'' s2 else s2))"
    if ch: "map_of (sv_challenges s) i = Some ch" and az: "map_of (sv_authzs s) (ch_authzID ch) = Some az"
      and st: "st = (case map_of (sv_orders s) (az_orderID az) of None \<Rightarrow> ''''
          | Some ord \<Rightarrow> if others_valid ord (az_id az) s then ''ready'' else od_status ord)"
      and app: "appendStateEvent ok (PValidated (challengeValidatedEventFrom ch az (map_of (sv_orders s) (az_orderID az)) st)) s = Inr s1"
      and s2: "s2 = set_validated ch i az (ch_authzID ch) ''valid'' ''valid'' s1" for ch az st s1 s2
  proof -
    let ?s3 = "case map_of (sv_orders s2) (az_orderID az) of None \<Rightarrow> s2
      | Some ord \<Rightarrow> if allAuthzValid ord s2 then set_order_status (az_orderID az) ''ready'' s2 else s2"
    have same: "sv_accounts ?s3 = sv_accounts s1" "sv_byKey ?s3 = sv_byKey s1" "sv_seq ?s3 = sv_seq s1"
      "sv_stateLog ?s3 = sv_stateLog s1" "sv_stateTenantID ?s3 = sv_stateTenantID s1" "sv_authMode ?s3 = sv_authMode s1"
      by (simp_all add: s2 split: option.split)
    have "accounts_ok env s" using rep by (simp add: replays_def)
    then have acc: "accounts_ok env ?s3"
      by (rule accounts_ok_same) (simp_all add: same appendStateEvent_same [OF app])
    have s2': "s2 = set_validated ch i az (ch_authzID ch) ''valid'' ''valid'' (s\<lparr>sv_stateLog := sv_stateLog s1\<rparr>)"
      using s2 appendStateEvent_fields [OF app] by simp
    show ?thesis
    proof (rule replays_append [OF rep tn _ app same(4-6) acc])
      fix r assume "restores r s"
      from restores_validated [OF this inv ch az s2' refl st refl]
      show "\<exists>r'. applyStateEvent (en_KeyFromJWK env) \<lparr>le_TenantID = tn, le_SchemaVersion = 1, le_payload =
            PValidated (challengeValidatedEventFrom ch az (map_of (sv_orders s) (az_orderID az)) st)\<rparr> r = Inr r'
          \<and> restores r' ?s3 \<and> grows r r' ?s3"
        by (simp add: applyStateEvent_def)
    qed simp
  qed
  with replays_more [OF rep] show ?thesis
    by (auto simp: accept_commit_def Let_def split: option.splits sum.splits)
qed

text \<open>The effect of a certificate on the state, once its order is found.\<close>

definition issue_effect :: "acmeCertificateIssuedEvent \<Rightarrow> acme_order \<Rightarrow> acme_server \<Rightarrow> acme_server" where
  "issue_effect p ord s =
     rememberSeq (ie_Seq p)
       (s\<lparr>sv_orders := AList.update (ie_OrderID p)
            (ord\<lparr>od_certID := ie_CertID p, od_status := ''valid''\<rparr>) (sv_orders s),
          sv_certs := AList.update (ie_CertID p) (ie_CertificatePEM p) (sv_certs s),
          sv_ariWindows := (if ie_ARICertID p \<noteq> ''''
             then AList.update (ie_ARICertID p) (ie_NotBefore p, ie_NotAfter p) (sv_ariWindows s) else sv_ariWindows s),
          sv_issued := (if ie_Fingerprint p \<noteq> ''''
             then AList.update (ie_Fingerprint p) (ie_Issued p) (sv_issued s) else sv_issued s)\<rparr>)"

lemma applyCertificateIssuedEvent_effect:
  "ie_OrderID p \<noteq> '''' \<Longrightarrow> ie_CertID p \<noteq> '''' \<Longrightarrow> map_of (sv_orders s) (ie_OrderID p) = Some ord \<Longrightarrow>
   applyCertificateIssuedEvent p s = Inr (issue_effect p ord s)"
  by (simp add: applyCertificateIssuedEvent_def issue_effect_def)

lemma issue_effect_fields:
  "map_of (sv_orders (issue_effect p ord s)) =
     (map_of (sv_orders s))(ie_OrderID p \<mapsto> ord\<lparr>od_certID := ie_CertID p, od_status := ''valid''\<rparr>)"
  "map_of (sv_certs (issue_effect p ord s)) = (map_of (sv_certs s))(ie_CertID p \<mapsto> ie_CertificatePEM p)"
  "map_of (sv_ariWindows (issue_effect p ord s)) = (if ie_ARICertID p \<noteq> ''''
     then (map_of (sv_ariWindows s))(ie_ARICertID p \<mapsto> (ie_NotBefore p, ie_NotAfter p)) else map_of (sv_ariWindows s))"
  "map_of (sv_issued (issue_effect p ord s)) = (if ie_Fingerprint p \<noteq> ''''
     then (map_of (sv_issued s))(ie_Fingerprint p \<mapsto> ie_Issued p) else map_of (sv_issued s))"
  "sv_accounts (issue_effect p ord s) = sv_accounts s" "sv_byKey (issue_effect p ord s) = sv_byKey s"
  "sv_authzs (issue_effect p ord s) = sv_authzs s" "sv_challenges (issue_effect p ord s) = sv_challenges s"
  "sv_revoked (issue_effect p ord s) = sv_revoked s" "sv_earlyRenew (issue_effect p ord s) = sv_earlyRenew s"
  by (simp_all add: issue_effect_def AList.update_conv')

lemma restores_issued:
  assumes rs: "restores r s" and p: "ie_OrderID p \<noteq> ''''" "ie_CertID p \<noteq> ''''"
    and drawn: "known (ie_Seq p) (ie_CertID p)"
    and ord: "map_of (sv_orders s) (ie_OrderID p) = Some ord"
    and app: "applyCertificateIssuedEvent p (s\<lparr>sv_stateLog := lg\<rparr>) = Inr s3"
  shows "\<exists>r'. applyCertificateIssuedEvent p r = Inr r' \<and> restores r' s3
     \<and> grows r r' s3"
proof -
  have ordr: "map_of (sv_orders r) (ie_OrderID p) = Some ord"
    using rs ord by (auto simp: restores_def intro: map_leD)
  then have r': "applyCertificateIssuedEvent p r = Inr (issue_effect p ord r)"
    using p by (simp add: applyCertificateIssuedEvent_effect)
  have s3: "s3 = issue_effect p ord (s\<lparr>sv_stateLog := lg\<rparr>)"
    using app p ord by (simp add: applyCertificateIssuedEvent_effect)
  have held: "held (issue_effect p ord r) = held r" using ordr by (auto simp: held_def issue_effect_fields)
  have seq: "sv_seq (issue_effect p ord r) = max (ie_Seq p) (sv_seq r)" by (simp add: issue_effect_def)
  have "ids_drawn (issue_effect p ord r)"
  proof (rule ids_drawn_keep [of r])
    show "ids_drawn r" using rs by (simp add: restores_def)
    show "i \<in> dom (map_of (sv_certs r)) \<or> known (sv_seq (issue_effect p ord r)) i"
      if "i \<in> dom (map_of (sv_certs (issue_effect p ord r)))" for i
      using that known_mono [OF drawn, of "max (ie_Seq p) (sv_seq r)"] by (auto simp: issue_effect_fields seq split: if_splits)
  qed (simp_all add: held issue_effect_fields seq)
  then have "restores (issue_effect p ord r) s3"
    using rs by (simp add: s3 restores_def issue_effect_fields map_le_upd)
  moreover have "grows r (issue_effect p ord r) s3"
    by (simp add: grows_def issue_effect_fields held subset_insertI)
  ultimately show ?thesis using r' by blast
qed

lemma applyCertificateIssuedEvent_same:
  assumes "applyCertificateIssuedEvent p s = Inr s3"
  shows "sv_accounts s3 = sv_accounts s" "sv_byKey s3 = sv_byKey s" "sv_seq s \<le> sv_seq s3"
    "sv_stateLog s3 = sv_stateLog s" "sv_stateTenantID s3 = sv_stateTenantID s" "sv_authMode s3 = sv_authMode s"
  using assms by (auto simp: applyCertificateIssuedEvent_def rememberSeq_def split: if_splits option.splits)

lemma finalize_commit_replays:
  assumes rep: "replays env tn s0 s I E" and tn: "tn \<noteq> ''''" and inv: "acme_inv s V J"
    and present: "map_of (sv_orders s) oid \<noteq> None"
  shows "replays env tn s0 (fst (finalize_commit env ok oid pem serial acct s)) I (E \<union> held (fst (finalize_commit env ok oid pem serial acct s)))"
proof -
  let ?n = "Suc (sv_seq s)" and ?s1 = "s\<lparr>sv_seq := Suc (sv_seq s)\<rparr>"
  obtain ord where ord: "map_of (sv_orders s) oid = Some ord" using present by blast
  have oid: "oid \<noteq> ''''" using order_key [OF inv ord] by simp
  have rep1: "replays env tn s0 ?s1 I E" using rep by (rule replays_durable) (simp add: same_durable_seq)
  have done1: "replays env tn s0 s3 I (E \<union> held s3)"
    if app: "appendStateEvent ok (PIssued p) ?s1 = Inr s2" and p: "p = certificateIssuedEventFrom env oid (itoa ?n) url pem serial ?n"
      and s3: "applyCertificateIssuedEvent p s2 = Inr s3" for p s2 s3 url
  proof -
    have s2: "s2 = ?s1\<lparr>sv_stateLog := sv_stateLog s2\<rparr>" using app by (rule appendStateEvent_fields)
    note same = applyCertificateIssuedEvent_same [OF s3]
    have "accounts_ok env ?s1" using rep1 by (simp add: replays_def)
    then have acc: "accounts_ok env s3"
      by (rule accounts_ok_same) (use same(3) in \<open>simp_all add: same appendStateEvent_same [OF app]\<close>)
    show ?thesis
    proof (rule replays_append [OF rep1 tn _ app same(4-6) acc])
      fix r assume rs: "restores r ?s1"
      have "\<exists>r'. applyCertificateIssuedEvent p r = Inr r' \<and> restores r' s3
          \<and> grows r r' s3"
      proof (rule restores_issued [OF rs])
        show "applyCertificateIssuedEvent p (?s1\<lparr>sv_stateLog := sv_stateLog s2\<rparr>) = Inr s3"
          using s3 s2 by simp
      qed (use oid ord in \<open>simp_all add: p\<close>)
      then show "\<exists>r'. applyStateEvent (en_KeyFromJWK env)
            \<lparr>le_TenantID = tn, le_SchemaVersion = 1, le_payload = PIssued p\<rparr> r = Inr r'
          \<and> restores r' s3 \<and> grows r r' s3"
        by (simp add: applyStateEvent_def)
    qed simp
  qed
  have total: "\<exists>s3. applyCertificateIssuedEvent (certificateIssuedEventFrom env oid (itoa ?n) url pem serial ?n) s2 = Inr s3"
    if "appendStateEvent ok q ?s1 = Inr s2" for q s2 url
    using ord oid appendStateEvent_same [OF that] by (simp add: applyCertificateIssuedEvent_def)
  show ?thesis
    using replays_more [OF rep1] done1 total
    by (fastforce simp: finalize_commit_def Let_def split: option.split sum.split)
qed

lemma marks_held [simp]:
  "held (s\<lparr>sv_revoked := rv\<rparr>) = held s" "ids_drawn (s\<lparr>sv_revoked := rv\<rparr>) = ids_drawn s"
  "held (s\<lparr>sv_earlyRenew := er\<rparr>) = held s" "ids_drawn (s\<lparr>sv_earlyRenew := er\<rparr>) = ids_drawn s"
  by (simp_all add: held_def ids_drawn_def)

lemma revoke_commit_replays:
  assumes rep: "replays env tn s0 s I E" and tn: "tn \<noteq> ''''" and fp: "fp \<noteq> ''''"
  shows "replays env tn s0 (fst (revoke_commit ok fp serial reason now s)) I (E \<union> held (fst (revoke_commit ok fp serial reason now s)))"
proof -
  let ?p = "\<lparr>re_Fingerprint = fp, re_Serial = serial, re_Reason = reason, re_At = now\<rparr>"
  let ?rv = "\<lparr>rv_serial = serial, rv_reason = reason, rv_at = now\<rparr>"
  have "replays env tn s0 (s1\<lparr>sv_revoked := AList.update fp ?rv (sv_revoked s1)\<rparr>) I (E \<union> held (s1\<lparr>sv_revoked := AList.update fp ?rv (sv_revoked s1)\<rparr>))"
    if app: "appendStateEvent ok (PRevoked ?p) s = Inr s1" for s1
  proof -
    note flds = appendStateEvent_same [OF app]
    have "accounts_ok env s" using rep by (simp add: replays_def)
    then have acc: "accounts_ok env (s1\<lparr>sv_revoked := AList.update fp ?rv (sv_revoked s1)\<rparr>)"
      by (rule accounts_ok_same) (simp_all add: flds)
    show ?thesis
      by (rule replays_append [OF rep tn _ app _ _ _ acc])
        (use fp in \<open>simp_all add: applyStateEvent_def applyCertificateRevokedEvent_def restores_def grows_def flds AList.update_conv'\<close>)
  qed
  with replays_more [OF rep] show ?thesis by (auto simp: revoke_commit_def split: sum.split)
qed

lemma MarkEarlyRenewal_replays:
  assumes rep: "replays env tn s0 s I E" and tn: "tn \<noteq> ''''" and c: "certID \<noteq> ''''"
    and mark: "MarkEarlyRenewal ok certID s = Inr s'"
  shows "replays env tn s0 s' I (E \<union> held s')"
proof (cases "certID \<in> set (sv_earlyRenew s)")
  case True
  with mark replays_more [OF rep] show ?thesis by (simp add: MarkEarlyRenewal_def)
next
  case False
  then obtain s1 where app: "appendStateEvent ok (PEarlyRenewal certID) s = Inr s1"
    and s': "s' = s1\<lparr>sv_earlyRenew := List.insert certID (sv_earlyRenew s1)\<rparr>"
    using mark by (auto simp: MarkEarlyRenewal_def split: sum.splits)
  note flds = appendStateEvent_same [OF app]
  have "accounts_ok env s" using rep by (simp add: replays_def)
  then have acc: "accounts_ok env s'" by (rule accounts_ok_same) (simp_all add: flds s')
  show ?thesis
    by (rule replays_append [OF rep tn _ app _ _ _ acc])
      (use c in \<open>simp_all add: applyStateEvent_def applyEarlyRenewalEvent_def restores_def grows_def flds s'\<close>)
qed

section \<open>Properties\<close>

lemma step_issue_replays:
  assumes rep: "replays env tn s0 s I E" and inv: "acme_inv s V J" and fin: "finalize_begin env i msg s = Inr c"
  shows "replays env tn s0 s (insert c I) (E \<union> held s)"
proof -
  obtain ord where ord: "map_of (sv_orders s) i = Some ord" "ic_order c = od_id ord"
    using fin by (auto simp: finalize_begin_def split: option.splits if_splits)
  then have "map_of (sv_orders s) (ic_order c) = Some ord" using order_key [OF inv ord(1)] by simp
  then have "ic_order c \<in> dom (map_of (sv_orders r))" if "restores r s" for r
    using that by (auto simp: restores_def intro: map_leD)
  then have add: "\<forall>c' \<in> insert c I. ic_order c' \<in> dom (map_of (sv_orders r))"
    if "restores r s" "\<forall>c' \<in> I. ic_order c' \<in> dom (map_of (sv_orders r))" for r using that by blast
  obtain log where log: "sv_stateLog s = Some log"
    and ex: "\<And>l. \<exists>r. replay_events (en_KeyFromJWK env) tn log (s0\<lparr>sv_stateLog := l\<rparr>) = Inr r \<and> restores r s
        \<and> held r \<subseteq> E \<union> held s \<and> (\<forall>c' \<in> I. ic_order c' \<in> dom (map_of (sv_orders r)))"
    using replays_more [OF rep, of "held s"] unfolding replays_def by blast
  have "\<exists>r. replay_events (en_KeyFromJWK env) tn log (s0\<lparr>sv_stateLog := l\<rparr>) = Inr r \<and> restores r s
      \<and> held r \<subseteq> E \<union> held s \<and> (\<forall>c' \<in> insert c I. ic_order c' \<in> dom (map_of (sv_orders r)))" for l
    using ex [of l] add by blast
  then show ?thesis using rep log unfolding replays_def by blast
qed

lemma acme_step_replays:
  assumes tn: "tn \<noteq> ''''" and H: "en_KeyFromJWK env [] = None" "\<And>k. en_Thumbprint env k \<noteq> ''''"
    and mode: "known_mode (sv_authMode s0)"
  shows "acme_step env True r r' \<Longrightarrow> acme_inv (rs_server r) (rs_checks r) (rs_calls r) \<Longrightarrow>
    replays env tn s0 (rs_server r) (rs_calls r) E \<Longrightarrow> replays env tn s0 (rs_server r') (rs_calls r') (E \<union> held (rs_server r'))"
proof (induction rule: acme_step.induct)
  case (step_nonce r now src drawn)
  then show ?case using replays_more [OF replays_durable [OF _ newNonce_durable]] by simp
next
  case (step_begin r now body)
  then show ?case using replays_more [OF replays_durable [OF _ jws_begin_durable]] by simp
next
  case (step_fresh r now drawn)
  then show ?case using replays_more [OF replays_durable [OF _ jws_nonce_durable]] by simp
next
  case (step_revoke msg acct s1 fp serial reason r ok now)
  then have "fp \<noteq> ''''" by (auto simp: revoke_begin_def Let_def split: option.splits if_splits)
  with step_revoke show ?case using revoke_commit_replays [OF _ tn] by simp
next
  case (step_early ok certID r s')
  then show ?case using MarkEarlyRenewal_replays [OF _ tn] by simp
qed (simp_all add: newAccount_replays [OF _ tn H] keyChange_replays [OF _ tn H] newOrder_replays [OF _ tn mode]
    accept_commit_replays [OF _ tn] step_issue_replays finalize_commit_replays [OF _ tn] replays_more)

definition no_state :: "acme_server \<Rightarrow> bool" where
  "no_state s = (sv_accounts s = [] \<and> sv_byKey s = [] \<and> sv_orders s = [] \<and> sv_authzs s = [] \<and> sv_challenges s = []
     \<and> sv_certs s = [] \<and> sv_issued s = [] \<and> sv_revoked s = [] \<and> sv_ariWindows s = [] \<and> sv_earlyRenew s = [])"

text \<open>A run together with everything the server ever held.\<close>

inductive acme_trace ::
  "acme_env \<Rightarrow> bool \<Rightarrow> acme_server \<Rightarrow> run_state \<Rightarrow> (table \<times> string) set \<Rightarrow> bool" for env timely s0 where
  trace_start: "acme_trace env timely s0 (initial_run s0) {}"
| trace_step: "acme_trace env timely s0 r E \<Longrightarrow> acme_step env timely r r' \<Longrightarrow>
    acme_trace env timely s0 r' (E \<union> held (rs_server r'))"

lemma acme_trace_steps: "acme_trace env timely s0 r E \<Longrightarrow> (acme_step env timely)\<^sup>*\<^sup>* (initial_run s0) r"
  by (induction rule: acme_trace.induct) (auto intro: rtranclp.rtrancl_into_rtrancl)



section \<open>A concrete run\<close>

definition witness_acme_env :: acme_env where
  "witness_acme_env =
     \<lparr>en_ParseJWS = (\<lambda>_. None), en_KeyFromJWK = (\<lambda>j. if j = [] then None else Some j),
      en_Thumbprint = (\<lambda>k. CHR ''t'' # k), en_Verify = (\<lambda>_ _. True), en_VerifyEAB = (\<lambda>_ _ _ _ _. True),
      en_account_json = (\<lambda>_. None), en_order_json = (\<lambda>_. Some ([(''dns'', ''a.example'')], '''')),
      en_finalize_json = (\<lambda>_. Some ''csr''), en_revoke_json = (\<lambda>_. None), en_keychange_json = (\<lambda>_. None),
      en_base64url = (\<lambda>s. Some s), en_pem_details = (\<lambda>_. None), en_certFingerprint = (\<lambda>_. ''''),
      en_dvPolicy = None\<rparr>"

definition witness_msg :: ACMEMessage where
  "witness_msg = \<lparr>am_Nonce = '''', am_Kid = '''', am_JWK = ''jwk'', am_Payload = []\<rparr>"

definition witness_url :: string where
  "witness_url = ''http://ca/acme/acct/1''"

definition witness_s1 :: acme_server where
  "witness_s1 = fst (newAccount witness_acme_env True 1 ''src'' ''http://ca'' witness_msg None
     (New\<lparr>sv_stateTenantID := ''t1'', sv_stateLog := Some []\<rparr>))"

definition witness_s2 :: acme_server where
  "witness_s2 = fst (newOrder witness_acme_env True (\<lambda>n. ''tok'') (Some (True, 0)) 1 ''src'' witness_msg
     (Some witness_url) witness_s1)"

definition witness_s3 :: acme_server where
  "witness_s3 = fst (accept_commit True ''4'' witness_s2)"

definition witness_validation :: validation where
  "witness_validation = (''http-01'', ''a.example'', ''tok'', ''tok.tjwk'')"

lemma witness_begin: "accept_begin witness_acme_env ''4'' (Some witness_url) witness_s2 = Inr witness_validation"
  by code_simp

lemma witness_finalize:
  "finalize_begin witness_acme_env ''2'' witness_msg witness_s3 = Inr (IssueCall ''2'' ''csr'' [''a.example''])"
  by code_simp

lemma witness_mode: "map_option od_authMode (map_of (sv_orders witness_s3) ''2'') = Some ''public_trust''"
  by code_simp

definition witness_cfg :: acme_server where
  "witness_cfg = New\<lparr>sv_stateTenantID := ''t1'', sv_stateLog := Some []\<rparr>"

definition witness_checks :: checks where
  "witness_checks = {(Begun, ''4'', witness_validation), (Accepted, ''4'', witness_validation), (Passed, ''4'', witness_validation)}"

lemma witness_trace:
  "acme_trace witness_acme_env True witness_cfg \<lparr>rs_server = witness_s3, rs_checks = witness_checks, rs_calls = {}\<rparr>
     (held witness_s1 \<union> held witness_s2 \<union> held witness_s3)"
proof -
  let ?r = "\<lambda>s V. \<lparr>rs_server = s, rs_checks = V, rs_calls = {}\<rparr>"
  let ?V = "{(Begun, ''4'', witness_validation)}"
  have "acme_trace witness_acme_env True witness_cfg (initial_run witness_cfg) {}" by (rule trace_start)
  then have "acme_trace witness_acme_env True witness_cfg (?r witness_s1 {}) ({} \<union> held witness_s1)"
    using trace_step acme_step.step_account [of witness_acme_env True "initial_run witness_cfg" True 1 "''src''" "''http://ca''" witness_msg None]
    by (fastforce simp: initial_run_def witness_s1_def witness_cfg_def)
  then have "acme_trace witness_acme_env True witness_cfg (?r witness_s2 {}) (held witness_s1 \<union> held witness_s2)"
    using trace_step acme_step.step_order [of witness_acme_env True "?r witness_s1 {}" True "\<lambda>n. ''tok''" "Some (True, 0)" 1 "''src''" witness_msg "Some witness_url"]
    by (fastforce simp: witness_s2_def)
  then have "acme_trace witness_acme_env True witness_cfg (?r witness_s2 ?V) (held witness_s1 \<union> held witness_s2 \<union> held witness_s2)"
    using trace_step acme_step.step_challenge [of witness_acme_env "''4''" "Some witness_url" "?r witness_s2 {}" witness_validation True]
      witness_begin by fastforce
  moreover have "acme_step witness_acme_env True (?r witness_s2 ?V) (?r witness_s2 witness_checks)"
  proof -
    have "witness_checks = ?V \<union> (if True then {(Accepted, ''4'', witness_validation)} else {})
        \<union> (if accept_checks None (\<lambda>_. True) witness_validation = None then {(Passed, ''4'', witness_validation)} else {})"
      by (auto simp: witness_checks_def accept_checks_def)
    then show ?thesis
      using acme_step.step_validate [where i = "''4''" and v = witness_validation and r = "?r witness_s2 ?V"
        and validate = "\<lambda>_. True" and present = None and env = witness_acme_env and timely = True] by simp
  qed
  ultimately have "acme_trace witness_acme_env True witness_cfg (?r witness_s2 witness_checks)
      (held witness_s1 \<union> held witness_s2 \<union> held witness_s2 \<union> held witness_s2)"
    using trace_step by fastforce
  then have "acme_trace witness_acme_env True witness_cfg (?r witness_s3 witness_checks)
      (held witness_s1 \<union> held witness_s2 \<union> held witness_s2 \<union> held witness_s2 \<union> held witness_s3)"
    using trace_step acme_step.step_accept [of "''4''" witness_validation "?r witness_s2 witness_checks" witness_acme_env True True]
    by (fastforce simp: witness_s3_def witness_checks_def)
  then show ?thesis by (simp add: Un_assoc)
qed

lemmas witness_steps = acme_trace_steps [OF witness_trace]



section \<open>What the checks leave open\<close>

text \<open>
  Accepting a challenge again reopens a finished order. In any run, when an order has its
  certificate and the client posts to one of its challenges a second time, the order goes from
  \<^verbatim>\<open>valid\<close> back to \<^verbatim>\<open>ready\<close>, and the next \<^verbatim>\<open>finalize\<close> asks the authority for another certificate,
  which no order quota counts.
\<close>

theorem revalidation_reopens_order:
  assumes "(acme_step env timely)\<^sup>*\<^sup>* (initial_run s0) r"
    and "sv_orders s0 = []" and "sv_authzs s0 = []" and "sv_challenges s0 = []"
    and "map_of (sv_challenges (rs_server r)) i = Some ch"
    and "map_of (sv_authzs (rs_server r)) (ch_authzID ch) = Some az"
    and "map_of (sv_orders (rs_server r)) (az_orderID az) = Some ord" and "od_status ord = ''valid''"
    and "sv_stateLog (rs_server r) = None \<or> sv_stateTenantID (rs_server r) \<noteq> ''''"
    and "ParseFinalizeRequest env (am_Payload msg) = Some csr"
  shows "map_of (sv_orders (fst (accept_commit True i (rs_server r)))) (od_id ord) = Some (ord\<lparr>od_status := ''ready''\<rparr>)
    \<and> finalize_begin env (od_id ord) msg (fst (accept_commit True i (rs_server r))) =
        Inr (IssueCall (od_id ord) csr (od_domains ord))"
proof -
  let ?s = "rs_server r"
  have inv: "acme_inv ?s (rs_checks r) (rs_calls r)" using acme_run_inv [OF assms(1-4)] by simp
  have keys: "od_id ord = az_orderID az" using order_key [OF inv assms(7)] by simp
  have "order_ok (map_of (sv_authzs ?s)) (sv_seq ?s) (rs_checks r) (az_orderID az) ord"
    using inv assms(7) by (simp add: acme_inv_def core_inv_def)
  then have valid: "\<forall>j \<in> set (od_authzIDs ord). \<exists>az. map_of (sv_authzs ?s) j = Some az \<and> az_status az = ''valid''"
    using assms(8) by (simp add: order_ok_def)
  let ?p = "PValidated (challengeValidatedEventFrom ch az (map_of (sv_orders ?s) (az_orderID az))
      (case map_of (sv_orders ?s) (az_orderID az) of None \<Rightarrow> '''' | Some ord \<Rightarrow> if others_valid ord (az_id az) ?s then ''ready'' else od_status ord))"
  obtain s1 where app: "appendStateEvent True ?p ?s = Inr s1"
    using assms(9) by (cases "sv_stateLog ?s") (auto simp: appendStateEvent_def)
  let ?s2 = "set_validated ch i az (ch_authzID ch) ''valid'' ''valid'' s1"
  note flds = appendStateEvent_same [OF app]
  have k: "map_of (sv_orders ?s2) (az_orderID az) = Some ord" using assms(7) by (simp add: flds)
  have "allAuthzValid ord ?s2" using valid by (auto simp: allAuthzValid_def list_all_iff flds split: option.splits)
  then have done1: "fst (accept_commit True i ?s) = set_order_status (az_orderID az) ''ready'' ?s2"
    using assms(5,6) app k by (simp add: accept_commit_def Let_def)
  then have "map_of (sv_orders (fst (accept_commit True i ?s))) (od_id ord) = Some (ord\<lparr>od_status := ''ready''\<rparr>)"
    using k by (simp add: set_order_status_orders keys)
  then show ?thesis using assms(10) by (simp add: finalize_begin_def)
qed

text \<open>C40: A request signed with a bare key crashes \<^verbatim>\<open>finalize\<close> after the certificate was issued. The
  wrapper passes no account for such a request, \<^verbatim>\<open>finalize\<close> does not ask for one, and it
  dereferences the missing account while it holds the server's mutex, which is never released.
\<close>

theorem finalize_without_account_panics:
  assumes "jws_begin env now body s = (s1, Inr (msg, acct, key))" and "am_Kid msg = ''''"
    and "finalize_begin env i msg s2 = Inr c" and "issue c = Some (pem, serial)"
  shows "snd (finalize env issue ok i msg acct s2) = Panic True"
proof -
  have "acct = None"
    using assms(1,2) by (auto simp: jws_begin_def Let_def split: option.splits if_splits)
  then show ?thesis using assms(3,4) by (simp add: finalize_def finalize_commit_def Let_def)
qed

text \<open>Any account may finalize any order, and the certificate is then recorded as its own.\<close>

theorem finalize_ignores_owner:
  assumes "finalize_begin env i msg s = Inr c" and "issue c = Some (pem, serial)" and "sv_stateLog s = None"
    and "map_of (sv_orders s) i = Some ord" and "od_id ord = i" and "i \<noteq> ''''"
    and "map_of (sv_accounts s) url = Some a"
    and "en_pem_details env pem = Some d" and "cd_Fingerprint d = Some fp" and "fp \<noteq> ''''"
  shows "map_option ic_accountURL (map_of (sv_issued (fst (finalize env issue ok i msg (Some url) s))) fp) = Some (ac_url a)
    \<and> map_option od_accountURL (map_of (sv_orders (fst (finalize env issue ok i msg (Some url) s))) i) = Some (od_accountURL ord)"
proof -
  have "ic_order c = i" using assms(1,4,5) by (auto simp: finalize_begin_def split: if_splits option.splits)
  then show ?thesis
    using assms
    by (simp add: finalize_def finalize_commit_def Let_def appendStateEvent_def applyCertificateIssuedEvent_effect
        issue_effect_fields) (simp add: certificateIssuedEventFrom_def)
qed

text \<open>An early-renewal mark for the empty name is logged, and the log can then no longer be replayed.\<close>

theorem empty_early_renewal_blocks_restart:
  assumes "MarkEarlyRenewal True '''' s = Inr s'" and "'''' \<notin> set (sv_earlyRenew s)"
    and "sv_stateLog s = Some log" and "sv_stateTenantID s = tn"
  shows "\<exists>e. WithStateLog key tn (sv_stateLog s') cfg = Inl e"
proof -
  have "tn \<noteq> ''''" "sv_stateLog s' = Some (log @ [\<lparr>le_TenantID = tn, le_SchemaVersion = 1, le_payload = PEarlyRenewal ''''\<rparr>])"
    using assms by (auto simp: MarkEarlyRenewal_def appendStateEvent_def split: if_splits)
  then show ?thesis
    by (auto simp: WithStateLog_def replay_events_append applyStateEvent_def applyEarlyRenewalEvent_def split: sum.split)
qed

definition witness_s4 :: acme_server where
  "witness_s4 = fst (finalize_commit witness_acme_env True ''2'' ''pem'' ''sn'' (Some witness_url) witness_s3)"

theorem revalidation_reopens_order_witness:
  "map_option od_status (map_of (sv_orders witness_s4) ''2'') = Some ''valid''
   \<and> map_option od_status (map_of (sv_orders (fst (accept_commit True ''4'' witness_s4))) ''2'') = Some ''ready''"
proof -
  let ?r = "\<lambda>s I. \<lparr>rs_server = s, rs_checks = witness_checks, rs_calls = I\<rparr>"
  let ?c = "IssueCall ''2'' ''csr'' [''a.example'']"
  have "acme_step witness_acme_env True (?r witness_s3 {}) (?r witness_s3 {?c})"
    using acme_step.step_issue [of witness_acme_env "''2''" witness_msg "?r witness_s3 {}" ?c True] witness_finalize by simp
  moreover have "acme_step witness_acme_env True (?r witness_s3 {?c}) (?r witness_s4 {?c})"
    using acme_step.step_finalize [of ?c "?r witness_s3 {?c}" True witness_acme_env True "''pem''" "''sn''" "Some witness_url"]
      witness_mode by (auto simp: witness_s4_def)
  ultimately have run: "(acme_step witness_acme_env True)\<^sup>*\<^sup>*
      (initial_run witness_cfg) (?r witness_s4 {?c})"
    using witness_steps by (meson rtranclp.rtrancl_into_rtrancl)
  have st: "map_option od_status (map_of (sv_orders witness_s4) ''2'') = Some ''valid''"
    "map_option od_id (map_of (sv_orders witness_s4) ''2'') = Some ''2''" by code_simp+
  have ch: "map_option ch_authzID (map_of (sv_challenges witness_s4) ''4'') = Some ''3''" by code_simp
  have az: "map_option az_orderID (map_of (sv_authzs witness_s4) ''3'') = Some ''2''" by code_simp
  have tn: "sv_stateTenantID witness_s4 = ''t1''" by code_simp
  have csr: "ParseFinalizeRequest witness_acme_env (am_Payload witness_msg) = Some ''csr''" by code_simp
  from ch obtain c0 where c0: "map_of (sv_challenges witness_s4) ''4'' = Some c0" "ch_authzID c0 = ''3''" by auto
  from az obtain a0 where a0: "map_of (sv_authzs witness_s4) ''3'' = Some a0" "az_orderID a0 = ''2''" by auto
  from st obtain o0 where o0: "map_of (sv_orders witness_s4) ''2'' = Some o0" "od_status o0 = ''valid''" "od_id o0 = ''2''" by auto
  from revalidation_reopens_order [OF run, of "''4''" c0 a0 o0 witness_msg "''csr''"] c0 a0 o0 tn csr st
  show ?thesis by (simp add: New_def witness_cfg_def)
qed

definition witness_env2 :: acme_env where
  "witness_env2 = witness_acme_env\<lparr>en_ParseJWS := (\<lambda>_. Some (witness_msg\<lparr>am_Nonce := ''n''\<rparr>))\<rparr>"

theorem finalize_without_account_panics_witness:
  "snd (finalize witness_env2 (\<lambda>c. Some (''pem'', ''sn'')) True ''2'' (witness_msg\<lparr>am_Nonce := ''n''\<rparr>) None witness_s3) = Panic True"
proof -
  obtain s1 where b: "jws_begin witness_env2 2 [] (witness_s3\<lparr>sv_nonces := [(''n'', 1)]\<rparr>) =
      (s1, Inr (witness_msg\<lparr>am_Nonce := ''n''\<rparr>, None, ''jwk''))"
  proof -
    have "snd (jws_begin witness_env2 2 [] (witness_s3\<lparr>sv_nonces := [(''n'', 1)]\<rparr>)) =
        Inr (witness_msg\<lparr>am_Nonce := ''n''\<rparr>, None, ''jwk'')" by code_simp
    then show ?thesis using that by (metis prod.collapse)
  qed
  have f: "finalize_begin witness_env2 ''2'' (witness_msg\<lparr>am_Nonce := ''n''\<rparr>) witness_s3 =
      Inr (IssueCall ''2'' ''csr'' [''a.example''])" by code_simp
  show ?thesis
    by (rule finalize_without_account_panics [OF b _ f]) (simp_all add: witness_msg_def)
qed

end
