(* ===== verification/CaCrypto.thy ===== *)
theory CaCrypto
  imports Profile
begin

text \<open>
  The certificate-authority half of the crypto boundary: \<^verbatim>\<open>internal/crypto/ca/hierarchy.go\<close> (the
  in-process CA), \<^verbatim>\<open>internal/crypto/hierarchy_ca.go\<close> (the signer-backed CA), \<^verbatim>\<open>internal/crypto/leafca.go\<close>
  (the end-entity signer and its profile) and the key-usage tables of \<^verbatim>\<open>internal/crypto/eku.go\<close>.

  Certificates and requests are the records their DER encodes: \<open>CertDER c\<close> is the encoding of \<open>c\<close>, and
  \<open>OtherDER\<close> is any other byte string. What \<^verbatim>\<open>crypto/x509\<close> adds when it encodes a template (the path
  length left out when it is 0 and not forced, times cut to whole seconds, the issuer's key identifier)
  is written out in \<open>CreateCertificate\<close>. A signature is represented by the public key it verifies under.
  Fresh keys, serial numbers, clock readings and encoder failures come from an environment record.
\<close>

section \<open>The part of crypto/x509 the boundary uses\<close>

datatype ext_key_usage =
    EKUAny | EKUServerAuth | EKUClientAuth | EKUCodeSigning | EKUEmailProtection | EKUTimeStamping | EKUOCSPSigning
  | EKUOther nat

datatype key_usage = KUDigitalSignature | KUKeyEncipherment | KUDataEncipherment | KUKeyAgreement | KUCertSign | KUCRLSign

type_synonym oid = "int list"
type_synonym public_key = bytes

record x509_Certificate =
  xc_SerialNumber :: nat
  xc_Subject :: string
  xc_NotBefore :: gotime
  xc_NotAfter :: gotime
  xc_KeyUsage :: "key_usage list"
  xc_IsCA :: bool
  xc_BasicConstraintsValid :: bool
  xc_MaxPathLen :: int
  xc_MaxPathLenZero :: bool
  xc_PermittedDNSDomains :: "string list"
  xc_ExtKeyUsage :: "ext_key_usage list"
  xc_UnknownExtKeyUsage :: "oid list"
  xc_DNSNames :: "string list"
  xc_IPAddresses :: "string list"
  xc_EmailAddresses :: "string list"
  xc_URIs :: "string list"
  xc_SubjectKeyId :: bytes
  xc_AuthorityKeyId :: bytes
  xc_CRLDistributionPoints :: "string list"
  xc_OCSPServer :: "string list"
  xc_IssuingCertificateURL :: "string list"
  xc_Policies :: "oid list"
  xc_ExtraExtensions :: "(oid \<times> bool \<times> bytes) list"
  xc_PublicKey :: public_key
  xc_SignedBy :: public_key

text \<open>The zero template.\<close>

definition x509_zero :: x509_Certificate where
  "x509_zero = \<lparr>xc_SerialNumber = 0, xc_Subject = [], xc_NotBefore = 0, xc_NotAfter = 0, xc_KeyUsage = [],
     xc_IsCA = False, xc_BasicConstraintsValid = False, xc_MaxPathLen = 0, xc_MaxPathLenZero = False,
     xc_PermittedDNSDomains = [], xc_ExtKeyUsage = [], xc_UnknownExtKeyUsage = [], xc_DNSNames = [],
     xc_IPAddresses = [], xc_EmailAddresses = [], xc_URIs = [], xc_SubjectKeyId = [], xc_AuthorityKeyId = [],
     xc_CRLDistributionPoints = [], xc_OCSPServer = [], xc_IssuingCertificateURL = [], xc_Policies = [],
     xc_ExtraExtensions = [], xc_PublicKey = [], xc_SignedBy = []\<rparr>"

record CertificateRequest =
  cr_Subject :: string
  cr_DNSNames :: "string list"
  cr_IPAddresses :: "string list"
  cr_EmailAddresses :: "string list"
  cr_URIs :: "string list"
  cr_PublicKey :: public_key
  cr_SignatureOK :: bool

datatype der = CertDER x509_Certificate | CSRDER CertificateRequest | OtherDER bytes

fun ParseCertificate :: "der \<Rightarrow> x509_Certificate option" where
  "ParseCertificate (CertDER c) = Some c"
| "ParseCertificate (CSRDER _) = None"
| "ParseCertificate (OtherDER _) = None"

fun ParseCertificateRequest :: "der \<Rightarrow> CertificateRequest option" where
  "ParseCertificateRequest (CSRDER r) = Some r"
| "ParseCertificateRequest (CertDER _) = None"
| "ParseCertificateRequest (OtherDER _) = None"

text \<open>
  What one call draws from outside: a generated key (\<open>None\<close> when generation or locking fails), a serial
  number, the successive readings of the clock, whether the encoder accepts a template, the key
  identifier of a public key (SHA-1 of its bits, \<open>None\<close> when the key does not marshal), whether bytes
  parse as a public key, and \<^verbatim>\<open>x509.ParseOID\<close>.
\<close>

record x509_env =
  xe_key :: "public_key option"
  xe_serial :: "nat option"
  xe_clock :: "nat \<Rightarrow> gotime"
  xe_encodes :: "x509_Certificate \<Rightarrow> bool"
  xe_keyid :: "public_key \<Rightarrow> bytes option"
  xe_parses_key :: "public_key \<Rightarrow> bool"
  xe_ParseOID :: "string \<Rightarrow> oid option"

abbreviation (input) second :: duration where "second \<equiv> 1000000000"

text \<open>A product of 64-bit integers, and a count of seconds as a duration.\<close>

definition wrap64 :: "int \<Rightarrow> int" where
  "wrap64 n = (n + 2 ^ 63) mod 2 ^ 64 - 2 ^ 63"

definition ttl_duration :: "int \<Rightarrow> duration" where
  "ttl_duration s = wrap64 (s * second)"

definition trunc_second :: "gotime \<Rightarrow> gotime" where
  "trunc_second t = t - t mod second"

text \<open>
  A signer holds a public key and answers a digest with a signature; \<open>ds_signs\<close> is the key the answer
  verifies under, \<open>None\<close> when it fails. An honest signer answers under its own key.
\<close>

record DigestSigner =
  ds_Public :: public_key
  ds_signs :: "public_key option"

definition honest_signer :: "public_key \<Rightarrow> DigestSigner" where
  "honest_signer k = \<lparr>ds_Public = k, ds_signs = Some k\<rparr>"

text \<open>
  \<^verbatim>\<open>x509.CreateCertificate\<close>: a parent with a public key must own the signer's key; the path length is
  left out (\<open>-1\<close> on parsing) unless positive or forced to zero and belongs to CAs only; the authority
  key identifier is the parent's key identifier unless the certificate names itself as issuer. The
  signature is checked against the signer's public key.
\<close>

definition CreateCertificate ::
  "x509_env \<Rightarrow> x509_Certificate \<Rightarrow> x509_Certificate \<Rightarrow> public_key \<Rightarrow> DigestSigner \<Rightarrow> der option" where
  "CreateCertificate env tmpl parent pub signer =
     (if xc_PublicKey parent \<noteq> [] \<and> xc_PublicKey parent \<noteq> ds_Public signer then None
      else if \<not> xc_IsCA tmpl \<and> (xc_MaxPathLen tmpl \<noteq> 0 \<or> xc_MaxPathLenZero tmpl) then None
      else if \<not> xe_encodes env tmpl then None
      else case ds_signs signer of
             None \<Rightarrow> None
           | Some k \<Rightarrow> if k \<noteq> ds_Public signer then None else
               (let pathLen = (if xc_MaxPathLen tmpl = 0 \<and> \<not> xc_MaxPathLenZero tmpl then -1 else xc_MaxPathLen tmpl);
                    ski = (if xc_SubjectKeyId tmpl = [] \<and> xc_IsCA tmpl
                           then (case xe_keyid env pub of None \<Rightarrow> [] | Some s \<Rightarrow> s) else xc_SubjectKeyId tmpl);
                    aki = (if xc_Subject parent \<noteq> xc_Subject tmpl \<and> xc_SubjectKeyId parent \<noteq> []
                           then xc_SubjectKeyId parent else xc_AuthorityKeyId tmpl)
                in Some (CertDER (tmpl\<lparr>xc_NotBefore := trunc_second (xc_NotBefore tmpl),
                                       xc_NotAfter := trunc_second (xc_NotAfter tmpl),
                                       xc_MaxPathLen := pathLen, xc_MaxPathLenZero := (pathLen = 0),
                                       xc_SubjectKeyId := ski, xc_AuthorityKeyId := aki,
                                       xc_PublicKey := pub, xc_SignedBy := k\<rparr>))))"

text \<open>\<^verbatim>\<open>Certificate.CheckSignatureFrom\<close>: the parent must be a CA allowed to sign, and the signature must be its own.\<close>

definition CheckSignatureFrom :: "x509_Certificate \<Rightarrow> x509_Certificate \<Rightarrow> bool" where
  "CheckSignatureFrom child parent =
     (xc_BasicConstraintsValid parent \<and> xc_IsCA parent
      \<and> (xc_KeyUsage parent = [] \<or> KUCertSign \<in> set (xc_KeyUsage parent))
      \<and> xc_SignedBy child = xc_PublicKey parent)"

section \<open>Extended key usages and object identifiers (eku.go)\<close>

definition extKeyUsageDefs :: "(string \<times> ext_key_usage) list" where
  "extKeyUsageDefs =
     [(''any'', EKUAny), (''serverAuth'', EKUServerAuth), (''clientAuth'', EKUClientAuth),
      (''codeSigning'', EKUCodeSigning), (''emailProtection'', EKUEmailProtection),
      (''timeStamping'', EKUTimeStamping), (''ocspSigning'', EKUOCSPSigning)]"

definition knownExtKeyUsage :: "string \<Rightarrow> ext_key_usage option" where
  "knownExtKeyUsage name = map_of extKeyUsageDefs name"

fun oid_arcs :: "string list \<Rightarrow> oid option" where
  "oid_arcs [] = Some []"
| "oid_arcs (p # ps) =
     (case atoi p of
        None \<Rightarrow> None
      | Some n \<Rightarrow> if n < 0 then None else map_option (\<lambda>ns. n # ns) (oid_arcs ps))"

definition parseDottedOID :: "string \<Rightarrow> oid option" where
  "parseDottedOID s =
     (let parts = split_byte CHR ''.'' (trim_prefix (trim_space s) ''oid:'')
      in if length parts < 2 then None
         else case oid_arcs parts of
                None \<Rightarrow> None
              | Some out \<Rightarrow> if out ! 0 > 2 \<or> (out ! 0 < 2 \<and> out ! 1 > 39) then None else Some out)"

definition parseOID :: "string \<Rightarrow> oid option" where
  "parseOID s =
     (let parts = split_byte CHR ''.'' (trim_space s) in if length parts < 2 then None else oid_arcs parts)"

datatype eku_error = UnsupportedEKU string | EmptyEKUSet

fun eku_loop :: "string list \<Rightarrow> eku_error + (ext_key_usage list \<times> oid list)" where
  "eku_loop [] = Inr ([], [])"
| "eku_loop (name # names) =
     (case knownExtKeyUsage name of
        Some usage \<Rightarrow> (case eku_loop names of Inl e \<Rightarrow> Inl e | Inr (known, custom) \<Rightarrow> Inr (usage # known, custom))
      | None \<Rightarrow>
          (case parseDottedOID name of
             None \<Rightarrow> Inl (UnsupportedEKU name)
           | Some oid \<Rightarrow> (case eku_loop names of Inl e \<Rightarrow> Inl e | Inr (known, custom) \<Rightarrow> Inr (known, oid # custom))))"

definition leafExtKeyUsage :: "string list \<Rightarrow> eku_error + (ext_key_usage list \<times> oid list)" where
  "leafExtKeyUsage names =
     (if names = [] then Inr ([EKUServerAuth, EKUClientAuth], [])
      else case eku_loop names of
             Inl e \<Rightarrow> Inl e
           | Inr (known, custom) \<Rightarrow> if known = [] \<and> custom = [] then Inl EmptyEKUSet else Inr (known, custom))"

definition caExtKeyUsage :: "string list \<Rightarrow> eku_error + (ext_key_usage list \<times> oid list)" where
  "caExtKeyUsage names = (if names = [] then Inr ([], []) else eku_loop names)"

section \<open>The end-entity signer (leafca.go)\<close>

record KeyUsages =
  ku_DigitalSignature :: bool
  ku_KeyEncipherment :: bool
  ku_KeyAgreement :: bool
  ku_DataEncipherment :: bool

record LeafProfile =
  lp_CRLDistributionPoints :: "string list"
  lp_OCSPServers :: "string list"
  lp_IssuingCertificateURL :: "string list"
  lp_CertificatePolicyOIDs :: "string list"
  lp_ExtraExtensions :: "(string \<times> bool \<times> bytes) list"
  lp_MaxValidity :: duration
  lp_AllowedKeyUsages :: "KeyUsages option"
  lp_AllowedExtKeyUsage :: "string list"
  lp_PermittedDNSSuffixes :: "string list"
  lp_PermittedIPCIDRs :: "string list"
  lp_PermittedEmailDomains :: "string list"
  lp_PermittedURIPrefixes :: "string list"

definition zero_LeafProfile :: LeafProfile where
  "zero_LeafProfile = \<lparr>lp_CRLDistributionPoints = [], lp_OCSPServers = [], lp_IssuingCertificateURL = [],
     lp_CertificatePolicyOIDs = [], lp_ExtraExtensions = [], lp_MaxValidity = 0, lp_AllowedKeyUsages = None,
     lp_AllowedExtKeyUsage = [], lp_PermittedDNSSuffixes = [], lp_PermittedIPCIDRs = [],
     lp_PermittedEmailDomains = [], lp_PermittedURIPrefixes = []\<rparr>"

datatype leafProfileError =
    ValidityExceedsCeiling duration duration | InvalidCIDRPrefix string
  | SANTypeNotPermitted string | SANOutsidePolicy string | EKUProfile eku_error

datatype leaf_error =
    ParseCAFailed | ParseCSRFailed | CSRSignatureInvalid | LeafProfileViolation leafProfileError
  | SerialFailed | KeyIDFailed | ExtensionOIDInvalid string | PolicyOIDInvalid string
  | SignFailed | ParseIssuedFailed | LeafVerificationFailed

fun IsLeafProfileViolation :: "leaf_error \<Rightarrow> bool" where
  "IsLeafProfileViolation (LeafProfileViolation _) = True"
| "IsLeafProfileViolation _ = False"

definition hasDotSuffix :: "string \<Rightarrow> string \<Rightarrow> bool" where
  "hasDotSuffix name suf = has_suffix name (''.'' @ suf)"

fun dns_suffix_loop :: "string \<Rightarrow> string list \<Rightarrow> bool" where
  "dns_suffix_loop name [] = False"
| "dns_suffix_loop name (s # ss) =
     (let suf = trim_suffix (to_lower (trim_space (trim_prefix s ''.''))) ''.''
      in if suf = '''' then dns_suffix_loop name ss
         else if name = suf \<or> hasDotSuffix name suf then True
         else dns_suffix_loop name ss)"

definition dnsSuffixPermitted :: "string \<Rightarrow> string list \<Rightarrow> bool" where
  "dnsSuffixPermitted name sufs = dns_suffix_loop (trim_suffix (to_lower (trim_space name)) ''.'') sufs"

definition leafSANPolicyConfigured :: "LeafProfile \<Rightarrow> bool" where
  "leafSANPolicyConfigured prof =
     (length (lp_PermittedDNSSuffixes prof) + length (lp_PermittedIPCIDRs prof)
      + length (lp_PermittedEmailDomains prof) + length (lp_PermittedURIPrefixes prof) > 0)"

text \<open>\<open>ni_ParsePrefix\<close> and \<open>ni_Contains\<close> stand for \<^verbatim>\<open>net.ParseCIDR\<close> and \<^verbatim>\<open>IPNet.Contains\<close>.\<close>

fun parseLeafCIDRs :: "(string, 'p) netip \<Rightarrow> string list \<Rightarrow> string + 'p list" where
  "parseLeafCIDRs ni [] = Inr []"
| "parseLeafCIDRs ni (raw # rs) =
     (case ni_ParsePrefix ni (trim_space raw) of
        None \<Rightarrow> Inl raw
      | Some p \<Rightarrow> (case parseLeafCIDRs ni rs of Inl e \<Rightarrow> Inl e | Inr ps \<Rightarrow> Inr (p # ps)))"

definition ipInCIDRs :: "(string, 'p) netip \<Rightarrow> string \<Rightarrow> 'p list \<Rightarrow> bool" where
  "ipInCIDRs ni ip cidrs = list_ex (\<lambda>p. ni_Contains ni p ip) cidrs"

definition emailDomainPermitted :: "string \<Rightarrow> string list \<Rightarrow> bool" where
  "emailDomainPermitted email domains =
     (case last_index_byte email CHR ''@'' of
        None \<Rightarrow> False
      | Some at \<Rightarrow> if at = 0 \<or> at = length email - 1 then False
                   else dnsSuffixPermitted (drop (at + 1) email) domains)"

definition uriPrefixPermitted :: "string \<Rightarrow> string list \<Rightarrow> bool" where
  "uriPrefixPermitted uri pfxs =
     list_ex (\<lambda>p. let pfx = trim_space p in pfx \<noteq> '''' \<and> has_prefix uri pfx) pfxs"

text \<open>The loop over the names of one kind: \<open>allowed\<close> is the kind's list, \<open>ok\<close> its membership test.\<close>

fun san_loop :: "bool \<Rightarrow> string list \<Rightarrow> (string \<Rightarrow> bool) \<Rightarrow> string list \<Rightarrow> leafProfileError option" where
  "san_loop policy allowed ok [] = None"
| "san_loop policy allowed ok (x # xs) =
     (if allowed = [] then (if policy then Some (SANTypeNotPermitted x) else san_loop policy allowed ok xs)
      else if \<not> ok x then Some (SANOutsidePolicy x)
      else san_loop policy allowed ok xs)"

definition enforceLeafProfile ::
  "(string, 'p) netip \<Rightarrow> CertificateRequest \<Rightarrow> duration \<Rightarrow> LeafProfile \<Rightarrow> leafProfileError option" where
  "enforceLeafProfile ni csr ttl prof =
     (if lp_MaxValidity prof > 0 \<and> ttl > lp_MaxValidity prof
      then Some (ValidityExceedsCeiling ttl (lp_MaxValidity prof))
      else case parseLeafCIDRs ni (lp_PermittedIPCIDRs prof) of
             Inl raw \<Rightarrow> Some (InvalidCIDRPrefix raw)
           | Inr cidrs \<Rightarrow>
               (let policy = leafSANPolicyConfigured prof
                in case san_loop policy (lp_PermittedDNSSuffixes prof)
                          (\<lambda>n. dnsSuffixPermitted n (lp_PermittedDNSSuffixes prof)) (cr_DNSNames csr) of
                     Some e \<Rightarrow> Some e
                   | None \<Rightarrow>
                 (case san_loop policy (lp_PermittedIPCIDRs prof) (\<lambda>ip. ipInCIDRs ni ip cidrs) (cr_IPAddresses csr) of
                     Some e \<Rightarrow> Some e
                   | None \<Rightarrow>
                 (case san_loop policy (lp_PermittedEmailDomains prof)
                          (\<lambda>m. emailDomainPermitted m (lp_PermittedEmailDomains prof)) (cr_EmailAddresses csr) of
                     Some e \<Rightarrow> Some e
                   | None \<Rightarrow>
                  san_loop policy (lp_PermittedURIPrefixes prof)
                          (\<lambda>u. uriPrefixPermitted u (lp_PermittedURIPrefixes prof)) (cr_URIs csr)))))"

definition leafKeyUsage :: "KeyUsages option \<Rightarrow> key_usage list" where
  "leafKeyUsage u =
     (case u of
        None \<Rightarrow> [KUDigitalSignature, KUKeyEncipherment]
      | Some k \<Rightarrow>
          (let ku = (if ku_DigitalSignature k then [KUDigitalSignature] else [])
                    @ (if ku_KeyEncipherment k then [KUKeyEncipherment] else [])
                    @ (if ku_KeyAgreement k then [KUKeyAgreement] else [])
                    @ (if ku_DataEncipherment k then [KUDataEncipherment] else [])
           in if ku = [] then [KUDigitalSignature] else ku))"

definition leafKeyUsageForProfile :: "LeafProfile \<Rightarrow> key_usage list" where
  "leafKeyUsageForProfile prof =
     (if lp_AllowedKeyUsages prof \<noteq> None then leafKeyUsage (lp_AllowedKeyUsages prof)
      else if lp_AllowedExtKeyUsage prof \<noteq> [] \<and> ''serverAuth'' \<notin> set (lp_AllowedExtKeyUsage prof)
      then [KUDigitalSignature]
      else leafKeyUsage None)"

fun policyOIDs :: "(string \<Rightarrow> oid option) \<Rightarrow> string list \<Rightarrow> string + oid list" where
  "policyOIDs parse [] = Inr []"
| "policyOIDs parse (s # ss) =
     (case parse s of
        None \<Rightarrow> Inl s
      | Some oid \<Rightarrow> (case policyOIDs parse ss of Inl e \<Rightarrow> Inl e | Inr os \<Rightarrow> Inr (oid # os)))"

fun x509Extensions :: "(string \<times> bool \<times> bytes) list \<Rightarrow> string + (oid \<times> bool \<times> bytes) list" where
  "x509Extensions [] = Inr []"
| "x509Extensions ((o', crit, v) # es) =
     (case parseOID o' of
        None \<Rightarrow> Inl o'
      | Some oid \<Rightarrow> (case x509Extensions es of Inl e \<Rightarrow> Inl e | Inr xs \<Rightarrow> Inr ((oid, crit, v) # xs)))"

definition leaf_policies :: "x509_env \<Rightarrow> LeafProfile \<Rightarrow> string + oid list" where
  "leaf_policies env prof =
     (if lp_CertificatePolicyOIDs prof = [] then Inr []
      else case policyOIDs parseOID (lp_CertificatePolicyOIDs prof) of
             Inl s \<Rightarrow> Inl s
           | Inr _ \<Rightarrow> policyOIDs (xe_ParseOID env) (lp_CertificatePolicyOIDs prof))"

definition leaf_template ::
  "x509_env \<Rightarrow> x509_Certificate \<Rightarrow> CertificateRequest \<Rightarrow> duration \<Rightarrow> LeafProfile \<Rightarrow> nat \<Rightarrow> bytes
     \<Rightarrow> ext_key_usage list \<times> oid list \<Rightarrow> (oid \<times> bool \<times> bytes) list \<Rightarrow> oid list \<Rightarrow> x509_Certificate" where
  "leaf_template env caCert csr ttl prof serial ski ekus extra pols =
     (let now = xe_clock env 0
      in x509_zero\<lparr>xc_SerialNumber := serial, xc_Subject := cr_Subject csr, xc_DNSNames := cr_DNSNames csr,
           xc_IPAddresses := cr_IPAddresses csr, xc_EmailAddresses := cr_EmailAddresses csr, xc_URIs := cr_URIs csr,
           xc_NotBefore := now - minute, xc_NotAfter := now + ttl, xc_KeyUsage := leafKeyUsageForProfile prof,
           xc_ExtKeyUsage := fst ekus, xc_UnknownExtKeyUsage := snd ekus, xc_BasicConstraintsValid := True,
           xc_SubjectKeyId := ski, xc_CRLDistributionPoints := lp_CRLDistributionPoints prof,
           xc_OCSPServer := lp_OCSPServers prof, xc_IssuingCertificateURL := lp_IssuingCertificateURL prof,
           xc_ExtraExtensions := extra, xc_AuthorityKeyId := xc_SubjectKeyId caCert, xc_Policies := pols\<rparr>)"

definition SignLeafFromCSRWithProfile ::
  "x509_env \<Rightarrow> (string, 'p) netip \<Rightarrow> der \<Rightarrow> DigestSigner \<Rightarrow> der \<Rightarrow> duration \<Rightarrow> LeafProfile \<Rightarrow> leaf_error + der" where
  "SignLeafFromCSRWithProfile env ni caCertDER caSigner csrDER ttl prof =
     (case ParseCertificate caCertDER of None \<Rightarrow> Inl ParseCAFailed | Some caCert \<Rightarrow>
     (case ParseCertificateRequest csrDER of None \<Rightarrow> Inl ParseCSRFailed | Some csr \<Rightarrow>
      if \<not> cr_SignatureOK csr then Inl CSRSignatureInvalid else
     (case enforceLeafProfile ni csr ttl prof of Some e \<Rightarrow> Inl (LeafProfileViolation e) | None \<Rightarrow>
     (case leafExtKeyUsage (lp_AllowedExtKeyUsage prof) of Inl e \<Rightarrow> Inl (LeafProfileViolation (EKUProfile e)) | Inr ekus \<Rightarrow>
     (case xe_serial env of None \<Rightarrow> Inl SerialFailed | Some serial \<Rightarrow>
     (case xe_keyid env (cr_PublicKey csr) of None \<Rightarrow> Inl KeyIDFailed | Some ski \<Rightarrow>
     (case x509Extensions (lp_ExtraExtensions prof) of Inl s \<Rightarrow> Inl (ExtensionOIDInvalid s) | Inr extra \<Rightarrow>
     (case leaf_policies env prof of Inl s \<Rightarrow> Inl (PolicyOIDInvalid s) | Inr pols \<Rightarrow>
     (case CreateCertificate env (leaf_template env caCert csr ttl prof serial ski ekus extra pols) caCert
             (cr_PublicKey csr) caSigner of None \<Rightarrow> Inl SignFailed | Some d \<Rightarrow>
     (case ParseCertificate d of None \<Rightarrow> Inl ParseIssuedFailed | Some issued \<Rightarrow>
      if \<not> CheckSignatureFrom issued caCert then Inl LeafVerificationFailed else Inr d))))))))))"

definition SignLeafFromCSR ::
  "x509_env \<Rightarrow> (string, 'p) netip \<Rightarrow> der \<Rightarrow> DigestSigner \<Rightarrow> der \<Rightarrow> duration \<Rightarrow> leaf_error + der" where
  "SignLeafFromCSR env ni caCertDER caSigner csrDER ttl =
     SignLeafFromCSRWithProfile env ni caCertDER caSigner csrDER ttl zero_LeafProfile"

section \<open>The in-process CA (crypto/ca/hierarchy.go)\<close>

record CASpec =
  cs_CommonName :: string
  cs_PermittedDNSDomains :: "string list"
  cs_MaxPathLen :: int
  cs_EKUs :: "string list"
  cs_TTL :: duration

text \<open>The signing key is the locked buffer: \<open>None\<close> after \<^verbatim>\<open>Destroy\<close>. The chain holds this certificate first.\<close>

record CA =
  ca_cert :: x509_Certificate
  ca_key :: "public_key option"
  ca_chain :: "x509_Certificate list"
  ca_permittedDNS :: "string list"
  ca_maxPathLen :: int
  ca_ekus :: "ext_key_usage list"

definition CA_Destroy :: "CA \<Rightarrow> CA" where
  "CA_Destroy c = c\<lparr>ca_key := None\<rparr>"

datatype ca_error =
    KeyGenerationFailed | CASerialFailed | CAKeyDestroyed | CreateCAFailed | ParseCACertFailed
  | PathLengthExhausted string | CAIssueLeaf leaf_error | CrossParseFailed | CrossNotCA string

abbreviation (input) defaultRootTTL :: duration where "defaultRootTTL \<equiv> 10 * 365 * 24 * hour"
abbreviation (input) defaultCATTL :: duration where "defaultCATTL \<equiv> 5 * 365 * 24 * hour"

fun eku_of_name :: "string \<Rightarrow> ext_key_usage option" where
  "eku_of_name n =
     (if n = ''serverAuth'' then Some EKUServerAuth else if n = ''clientAuth'' then Some EKUClientAuth
      else if n = ''codeSigning'' then Some EKUCodeSigning
      else if n = ''emailProtection'' then Some EKUEmailProtection
      else if n = ''any'' then Some EKUAny else None)"

definition ekusFromStrings :: "string list \<Rightarrow> ext_key_usage list" where
  "ekusFromStrings names = List.map_filter eku_of_name names"

fun name_of_eku :: "ext_key_usage \<Rightarrow> string option" where
  "name_of_eku EKUServerAuth = Some ''serverAuth''"
| "name_of_eku EKUClientAuth = Some ''clientAuth''"
| "name_of_eku EKUCodeSigning = Some ''codeSigning''"
| "name_of_eku EKUEmailProtection = Some ''emailProtection''"
| "name_of_eku EKUAny = Some ''any''"
| "name_of_eku EKUTimeStamping = None"
| "name_of_eku EKUOCSPSigning = None"
| "name_of_eku (EKUOther _) = None"

definition ekuStrings :: "ext_key_usage list \<Rightarrow> string list" where
  "ekuStrings ekus = List.map_filter name_of_eku ekus"

definition ca_template ::
  "x509_env \<Rightarrow> string \<Rightarrow> string list \<Rightarrow> int \<Rightarrow> string list \<Rightarrow> duration \<Rightarrow> nat \<Rightarrow> x509_Certificate" where
  "ca_template env commonName permitted maxPathLen ekus ttl serial =
     (let now = xe_clock env 0
      in x509_zero\<lparr>xc_SerialNumber := serial, xc_Subject := commonName, xc_NotBefore := now - minute,
           xc_NotAfter := now + ttl, xc_KeyUsage := [KUCertSign, KUCRLSign], xc_BasicConstraintsValid := True,
           xc_IsCA := True, xc_PermittedDNSDomains := permitted,
           xc_MaxPathLen := (if maxPathLen \<ge> 0 then maxPathLen else 0), xc_MaxPathLenZero := (maxPathLen = 0),
           xc_ExtKeyUsage := ekusFromStrings ekus\<rparr>)"

definition signCACert ::
  "x509_env \<Rightarrow> string \<Rightarrow> string list \<Rightarrow> int \<Rightarrow> string list \<Rightarrow> duration \<Rightarrow> x509_Certificate option
     \<Rightarrow> public_key option \<Rightarrow> public_key \<Rightarrow> ca_error + x509_Certificate" where
  "signCACert env commonName permitted maxPathLen ekus ttl parent signerKey pub =
     (case xe_serial env of
        None \<Rightarrow> Inl CASerialFailed
      | Some serial \<Rightarrow>
          (let tmpl = ca_template env commonName permitted maxPathLen ekus ttl serial;
               issuer = (case parent of None \<Rightarrow> tmpl | Some p \<Rightarrow> p)
           in case signerKey of
                None \<Rightarrow> Inl CAKeyDestroyed
              | Some k \<Rightarrow>
                  (case CreateCertificate env tmpl issuer pub (honest_signer k) of
                     None \<Rightarrow> Inl CreateCAFailed
                   | Some d \<Rightarrow> (case ParseCertificate d of None \<Rightarrow> Inl ParseCACertFailed | Some cert \<Rightarrow> Inr cert))))"

definition NewRoot :: "x509_env \<Rightarrow> CASpec \<Rightarrow> ca_error + CA" where
  "NewRoot env spec =
     (case xe_key env of
        None \<Rightarrow> Inl KeyGenerationFailed
      | Some key \<Rightarrow>
          (let ttl = (if cs_TTL spec \<le> 0 then defaultRootTTL else cs_TTL spec)
           in case signCACert env (cs_CommonName spec) (cs_PermittedDNSDomains spec) (cs_MaxPathLen spec)
                     (cs_EKUs spec) ttl None (Some key) key of
                Inl e \<Rightarrow> Inl e
              | Inr cert \<Rightarrow>
                  Inr \<lparr>ca_cert = cert, ca_key = Some key, ca_chain = [cert],
                       ca_permittedDNS = cs_PermittedDNSDomains spec, ca_maxPathLen = cs_MaxPathLen spec,
                       ca_ekus = ekusFromStrings (cs_EKUs spec)\<rparr>))"

definition CA_CreateIntermediate :: "x509_env \<Rightarrow> CA \<Rightarrow> CASpec \<Rightarrow> ca_error + CA" where
  "CA_CreateIntermediate env c spec =
     (if ca_maxPathLen c = 0 then Inl (PathLengthExhausted (xc_Subject (ca_cert c)))
      else case xe_key env of
             None \<Rightarrow> Inl KeyGenerationFailed
           | Some key \<Rightarrow>
               (let childPathLen = (if ca_maxPathLen c > 0 then ca_maxPathLen c - 1 else -1);
                    permitted = (if cs_PermittedDNSDomains spec = [] then ca_permittedDNS c
                                 else cs_PermittedDNSDomains spec);
                    ekus = (if cs_EKUs spec = [] then ekuStrings (ca_ekus c) else cs_EKUs spec);
                    ttl = (if cs_TTL spec \<le> 0 then defaultCATTL else cs_TTL spec)
                in case signCACert env (cs_CommonName spec) permitted childPathLen ekus ttl
                          (Some (ca_cert c)) (ca_key c) key of
                     Inl e \<Rightarrow> Inl e
                   | Inr cert \<Rightarrow>
                       Inr \<lparr>ca_cert = cert, ca_key = Some key, ca_chain = cert # ca_chain c,
                            ca_permittedDNS = permitted, ca_maxPathLen = childPathLen,
                            ca_ekus = ekusFromStrings ekus\<rparr>))"

text \<open>Name constraints.\<close>

definition dnsPermitted :: "string \<Rightarrow> string list \<Rightarrow> bool" where
  "dnsPermitted name permitted =
     list_ex (\<lambda>p. let q = trim_prefix p ''.'' in name = q \<or> has_suffix name (''.'' @ q)) permitted"

definition containsFold :: "string list \<Rightarrow> string \<Rightarrow> bool" where
  "containsFold ss v = list_ex (\<lambda>s. trim_prefix s ''.'' = trim_prefix v ''.'') ss"

definition intersectDNS :: "string list \<Rightarrow> string list \<Rightarrow> string list" where
  "intersectDNS target signer =
     (if signer = [] then target
      else if target = [] then signer
      else filter (\<lambda>t. dnsPermitted (trim_prefix t ''.'') signer \<or> containsFold signer t) target)"

definition applyCALane :: "CA \<Rightarrow> LeafProfile \<Rightarrow> LeafProfile" where
  "applyCALane c prof =
     (let prof1 = (if ca_permittedDNS c = [] then prof
                   else if lp_PermittedDNSSuffixes prof = [] then prof\<lparr>lp_PermittedDNSSuffixes := ca_permittedDNS c\<rparr>
                   else prof\<lparr>lp_PermittedDNSSuffixes := intersectDNS (lp_PermittedDNSSuffixes prof) (ca_permittedDNS c)\<rparr>)
      in if lp_AllowedExtKeyUsage prof1 = [] \<and> ekuStrings (ca_ekus c) \<noteq> []
         then prof1\<lparr>lp_AllowedExtKeyUsage := ekuStrings (ca_ekus c)\<rparr> else prof1)"

text \<open>The hexadecimal text of a serial number, as \<^verbatim>\<open>big.Int.Text(16)\<close> writes it.\<close>

definition hex_digit :: "nat \<Rightarrow> char" where
  "hex_digit d = (if d < 10 then char_of (48 + d) else char_of (87 + d))"

fun hex_text :: "nat \<Rightarrow> string" where
  "hex_text n = (if n < 16 then [hex_digit n] else hex_text (n div 16) @ [hex_digit (n mod 16)])"

declare hex_text.simps [simp del]

record Issued =
  is_CertificatePEM :: "x509_Certificate list"
  is_Serial :: string
  is_NotAfter :: gotime

definition IssueLeafWithProfile ::
  "x509_env \<Rightarrow> (string, 'p) netip \<Rightarrow> CA \<Rightarrow> der \<Rightarrow> duration \<Rightarrow> LeafProfile \<Rightarrow> ca_error + Issued" where
  "IssueLeafWithProfile env ni c csrDER ttl prof =
     (case ca_key c of
        None \<Rightarrow> Inl CAKeyDestroyed
      | Some k \<Rightarrow>
          (case SignLeafFromCSRWithProfile env ni (CertDER (ca_cert c)) (honest_signer k) csrDER ttl
                  (applyCALane c prof) of
             Inl e \<Rightarrow> Inl (CAIssueLeaf e)
           | Inr leafDER \<Rightarrow>
               (case ParseCertificate leafDER of
                  None \<Rightarrow> Inl ParseCACertFailed
                | Some leaf \<Rightarrow> Inr \<lparr>is_CertificatePEM = leaf # ca_chain c,
                                    is_Serial = hex_text (xc_SerialNumber leaf), is_NotAfter = xc_NotAfter leaf\<rparr>)))"

definition IssueLeaf :: "x509_env \<Rightarrow> (string, 'p) netip \<Rightarrow> CA \<Rightarrow> der \<Rightarrow> duration \<Rightarrow> ca_error + Issued" where
  "IssueLeaf env ni c csrDER ttl = IssueLeafWithProfile env ni c csrDER ttl zero_LeafProfile"

definition crossPathLen :: "x509_Certificate \<Rightarrow> int option" where
  "crossPathLen cert = (if xc_MaxPathLen cert > 0 \<or> xc_MaxPathLenZero cert then Some (xc_MaxPathLen cert) else None)"

definition cross_limit :: "CA \<Rightarrow> x509_Certificate \<Rightarrow> int option" where
  "cross_limit c other =
     (if ca_maxPathLen c \<ge> 0
      then (case crossPathLen other of
              None \<Rightarrow> Some (ca_maxPathLen c)
            | Some p \<Rightarrow> if ca_maxPathLen c < p then Some (ca_maxPathLen c) else Some p)
      else crossPathLen other)"

definition cross_template :: "CA \<Rightarrow> x509_Certificate \<Rightarrow> nat \<Rightarrow> x509_Certificate" where
  "cross_template c other serial =
     (let pathLen = cross_limit c other;
          permitted = intersectDNS (xc_PermittedDNSDomains other) (ca_permittedDNS c)
      in x509_zero\<lparr>xc_SerialNumber := serial, xc_Subject := xc_Subject other,
           xc_NotBefore := xc_NotBefore other, xc_NotAfter := xc_NotAfter other,
           xc_KeyUsage := [KUCertSign, KUCRLSign], xc_BasicConstraintsValid := True, xc_IsCA := True,
           xc_PermittedDNSDomains := permitted,
           xc_MaxPathLen := (case pathLen of None \<Rightarrow> 0 | Some p \<Rightarrow> p),
           xc_MaxPathLenZero := (pathLen = Some 0)\<rparr>)"

definition CA_CrossSign :: "x509_env \<Rightarrow> CA \<Rightarrow> der \<Rightarrow> ca_error + x509_Certificate" where
  "CA_CrossSign env c otherCertDER =
     (case ParseCertificate otherCertDER of
        None \<Rightarrow> Inl CrossParseFailed
      | Some other \<Rightarrow>
          if \<not> xc_IsCA other then Inl (CrossNotCA (xc_Subject other))
          else case xe_serial env of
                 None \<Rightarrow> Inl CASerialFailed
               | Some serial \<Rightarrow>
                   (case ca_key c of
                      None \<Rightarrow> Inl CAKeyDestroyed
                    | Some k \<Rightarrow>
                        (case CreateCertificate env (cross_template c other serial) (ca_cert c) (xc_PublicKey other)
                                (honest_signer k) of
                           None \<Rightarrow> Inl CreateCAFailed
                         | Some d \<Rightarrow> (case ParseCertificate d of None \<Rightarrow> Inl ParseCACertFailed | Some x \<Rightarrow> Inr x))))"

section \<open>The signer-backed CA (crypto/hierarchy_ca.go)\<close>

definition extKeyUsageStrings :: "ext_key_usage list \<Rightarrow> string list" where
  "extKeyUsageStrings usages = List.map_filter name_of_eku usages"

type_synonym HierarchyCAProfile = CASpec

record IssuedHierarchyCA =
  ih_CommonName :: string
  ih_Certificate :: x509_Certificate
  ih_Serial :: string
  ih_NotAfter :: gotime
  ih_MaxPathLen :: int
  ih_PermittedDNSDomains :: "string list"
  ih_EKUs :: "string list"

datatype hca_error =
    HParseParent | HPathLengthExhausted | HCommonNameRequired | HTTLNotPositive | HPublicKeyInvalid
  | HSerialFailed | HKeyIDFailed | HEKU eku_error | HSignFailed | HParseIssued | HVerificationFailed
  | HParseCSR | HCSRSignature | HParseCert | HNotCA | HNotCurrentlyValid | HNoCertSign | HNotSelfSigned
  | HNotSignedByParent | HMissingPathLen | HPathLenExceeds | HOutlives | HKeyMismatch | HEmptyChain
  | HNameMismatch | HProfileMissingPathLen | HPathLenMismatch | HDNSMismatch | HEKUMismatch

definition hierarchy_template ::
  "x509_env \<Rightarrow> HierarchyCAProfile \<Rightarrow> nat \<Rightarrow> bytes \<Rightarrow> ext_key_usage list \<times> oid list \<Rightarrow> bytes \<Rightarrow> x509_Certificate" where
  "hierarchy_template env profile serial ski ekus aki =
     (let now = xe_clock env 2
      in x509_zero\<lparr>xc_SerialNumber := serial, xc_Subject := cs_CommonName profile, xc_NotBefore := now - minute,
           xc_NotAfter := now + cs_TTL profile, xc_KeyUsage := [KUCertSign, KUCRLSign],
           xc_BasicConstraintsValid := True, xc_IsCA := True, xc_SubjectKeyId := ski,
           xc_PermittedDNSDomains := cs_PermittedDNSDomains profile,
           xc_ExtKeyUsage := fst ekus, xc_UnknownExtKeyUsage := snd ekus,
           xc_MaxPathLen := (if cs_MaxPathLen profile \<ge> 0 then cs_MaxPathLen profile else 0),
           xc_MaxPathLenZero := (cs_MaxPathLen profile = 0), xc_AuthorityKeyId := aki\<rparr>)"

text \<open>\<open>issuer\<close> is \<open>None\<close> for a self-signed certificate. Clock reading 2 is the one taken here; 0 and 1 are the caller's.\<close>

definition signHierarchyCA ::
  "x509_env \<Rightarrow> DigestSigner \<Rightarrow> public_key \<Rightarrow> x509_Certificate option \<Rightarrow> HierarchyCAProfile \<Rightarrow> hca_error + IssuedHierarchyCA" where
  "signHierarchyCA env signer subjectPublic issuer profile =
     (if cs_CommonName profile = '''' then Inl HCommonNameRequired
      else if cs_TTL profile \<le> 0 then Inl HTTLNotPositive
      else if subjectPublic = [] \<or> \<not> xe_parses_key env subjectPublic then Inl HPublicKeyInvalid
      else
     (case xe_serial env of None \<Rightarrow> Inl HSerialFailed | Some serial \<Rightarrow>
     (case xe_keyid env subjectPublic of None \<Rightarrow> Inl HKeyIDFailed | Some ski \<Rightarrow>
     (case caExtKeyUsage (cs_EKUs profile) of Inl e \<Rightarrow> Inl (HEKU e) | Inr ekus \<Rightarrow>
       (let tmpl = hierarchy_template env profile serial ski ekus
                     (case issuer of None \<Rightarrow> ski | Some p \<Rightarrow> xc_SubjectKeyId p)
        in case CreateCertificate env tmpl (case issuer of None \<Rightarrow> tmpl | Some p \<Rightarrow> p) subjectPublic signer of
             None \<Rightarrow> Inl HSignFailed
           | Some d \<Rightarrow>
               (case ParseCertificate d of
                  None \<Rightarrow> Inl HParseIssued
                | Some cert \<Rightarrow>
                    if \<not> CheckSignatureFrom cert (case issuer of None \<Rightarrow> cert | Some p \<Rightarrow> p)
                    then Inl HVerificationFailed
                    else Inr \<lparr>ih_CommonName = xc_Subject cert, ih_Certificate = cert,
                              ih_Serial = hex_text (xc_SerialNumber cert), ih_NotAfter = xc_NotAfter cert,
                              ih_MaxPathLen = cs_MaxPathLen profile,
                              ih_PermittedDNSDomains = cs_PermittedDNSDomains profile,
                              ih_EKUs = cs_EKUs profile\<rparr>))))))"

definition SelfSignedHierarchyCA :: "x509_env \<Rightarrow> DigestSigner \<Rightarrow> HierarchyCAProfile \<Rightarrow> hca_error + IssuedHierarchyCA" where
  "SelfSignedHierarchyCA env signer profile =
     signHierarchyCA env signer (ds_Public signer) None
       (if cs_TTL profile \<le> 0 then profile\<lparr>cs_TTL := defaultRootTTL\<rparr> else profile)"

definition has_path_len :: "x509_Certificate \<Rightarrow> bool" where
  "has_path_len c = (xc_MaxPathLen c > 0 \<or> xc_MaxPathLenZero c)"

text \<open>The profile after the parent's constraints have been folded in.\<close>

definition intermediate_profile :: "x509_env \<Rightarrow> x509_Certificate \<Rightarrow> HierarchyCAProfile \<Rightarrow> HierarchyCAProfile" where
  "intermediate_profile env parent profile =
     (let p1 = (if cs_PermittedDNSDomains profile = []
                then profile\<lparr>cs_PermittedDNSDomains := xc_PermittedDNSDomains parent\<rparr> else profile);
          p2 = (if cs_EKUs p1 = [] then p1\<lparr>cs_EKUs := extKeyUsageStrings (xc_ExtKeyUsage parent)\<rparr> else p1);
          p3 = (if has_path_len parent
                then p2\<lparr>cs_MaxPathLen :=
                         (let childPathLen = xc_MaxPathLen parent - 1
                          in if cs_MaxPathLen p2 \<ge> 0 \<and> cs_MaxPathLen p2 < childPathLen
                             then cs_MaxPathLen p2 else childPathLen)\<rparr> else p2);
          p4 = (if cs_TTL p3 \<le> 0 then p3\<lparr>cs_TTL := defaultCATTL\<rparr> else p3)
      in if xe_clock env 0 + cs_TTL p4 > xc_NotAfter parent
         then p4\<lparr>cs_TTL := xc_NotAfter parent - xe_clock env 1\<rparr> else p4)"

definition SignIntermediateHierarchyCA ::
  "x509_env \<Rightarrow> der \<Rightarrow> DigestSigner \<Rightarrow> public_key \<Rightarrow> HierarchyCAProfile \<Rightarrow> hca_error + IssuedHierarchyCA" where
  "SignIntermediateHierarchyCA env parentCertDER parentSigner childPublic profile =
     (case ParseCertificate parentCertDER of
        None \<Rightarrow> Inl HParseParent
      | Some parent \<Rightarrow>
          if has_path_len parent \<and> xc_MaxPathLen parent = 0 then Inl HPathLengthExhausted
          else signHierarchyCA env parentSigner childPublic (Some parent) (intermediate_profile env parent profile))"

definition SignIntermediateHierarchyCAFromCSR ::
  "x509_env \<Rightarrow> der \<Rightarrow> DigestSigner \<Rightarrow> der \<Rightarrow> HierarchyCAProfile \<Rightarrow> hca_error + IssuedHierarchyCA" where
  "SignIntermediateHierarchyCAFromCSR env parentCertDER parentSigner csrDER profile =
     (case ParseCertificateRequest csrDER of
        None \<Rightarrow> Inl HParseCSR
      | Some csr \<Rightarrow>
          if \<not> cr_SignatureOK csr then Inl HCSRSignature
          else SignIntermediateHierarchyCA env parentCertDER parentSigner (cr_PublicKey csr)
                 (if cs_CommonName profile = '''' then profile\<lparr>cs_CommonName := cr_Subject csr\<rparr> else profile))"

subsection \<open>Imported certificates\<close>

definition verifyCAUsable :: "gotime \<Rightarrow> x509_Certificate \<Rightarrow> hca_error option" where
  "verifyCAUsable now cert =
     (if \<not> xc_IsCA cert \<or> \<not> xc_BasicConstraintsValid cert then Some HNotCA
      else if now < xc_NotBefore cert \<or> now > xc_NotAfter cert then Some HNotCurrentlyValid
      else if KUCertSign \<notin> set (xc_KeyUsage cert) then Some HNoCertSign
      else None)"

definition verifyChildPathLen :: "x509_Certificate \<Rightarrow> x509_Certificate \<Rightarrow> hca_error option" where
  "verifyChildPathLen parent child =
     (if \<not> has_path_len parent then None
      else if xc_MaxPathLen parent = 0 then Some HPathLengthExhausted
      else if \<not> has_path_len child then Some HMissingPathLen
      else if xc_MaxPathLen child > xc_MaxPathLen parent - 1 then Some HPathLenExceeds
      else None)"

text \<open>\<^verbatim>\<open>sort.Strings\<close> orders strings by their bytes, which is the list order of \<open>string\<close>.\<close>

definition sameStringSet :: "string list \<Rightarrow> string list \<Rightarrow> bool" where
  "sameStringSet a b = (length a = length b \<and> sort a = sort b)"

definition verifyImportedProfile :: "x509_Certificate \<Rightarrow> HierarchyCAProfile \<Rightarrow> hca_error option" where
  "verifyImportedProfile cert profile =
     (if cs_CommonName profile \<noteq> '''' \<and> xc_Subject cert \<noteq> cs_CommonName profile then Some HNameMismatch
      else if cs_MaxPathLen profile \<ge> 0 \<and> \<not> has_path_len cert then Some HProfileMissingPathLen
      else if cs_MaxPathLen profile \<ge> 0 \<and> xc_MaxPathLen cert \<noteq> cs_MaxPathLen profile then Some HPathLenMismatch
      else if cs_PermittedDNSDomains profile \<noteq> []
              \<and> \<not> sameStringSet (cs_PermittedDNSDomains profile) (xc_PermittedDNSDomains cert) then Some HDNSMismatch
      else if cs_EKUs profile \<noteq> [] \<and> \<not> sameStringSet (cs_EKUs profile) (extKeyUsageStrings (xc_ExtKeyUsage cert))
      then Some HEKUMismatch
      else None)"

definition hierarchyResultFromCert :: "x509_Certificate \<Rightarrow> IssuedHierarchyCA" where
  "hierarchyResultFromCert cert =
     \<lparr>ih_CommonName = xc_Subject cert, ih_Certificate = cert, ih_Serial = hex_text (xc_SerialNumber cert),
      ih_NotAfter = xc_NotAfter cert,
      ih_MaxPathLen = (if xc_MaxPathLen cert = 0 \<and> \<not> xc_MaxPathLenZero cert then -1 else xc_MaxPathLen cert),
      ih_PermittedDNSDomains = xc_PermittedDNSDomains cert, ih_EKUs = extKeyUsageStrings (xc_ExtKeyUsage cert)\<rparr>"

definition VerifyImportedOfflineRoot :: "x509_env \<Rightarrow> der \<Rightarrow> HierarchyCAProfile \<Rightarrow> hca_error + IssuedHierarchyCA" where
  "VerifyImportedOfflineRoot env certDER profile =
     (case ParseCertificate certDER of
        None \<Rightarrow> Inl HParseCert
      | Some cert \<Rightarrow>
          (case verifyCAUsable (xe_clock env 0) cert of
             Some e \<Rightarrow> Inl e
           | None \<Rightarrow>
               if \<not> CheckSignatureFrom cert cert then Inl HNotSelfSigned
               else (case verifyImportedProfile cert profile of
                       Some e \<Rightarrow> Inl e
                     | None \<Rightarrow> Inr (hierarchyResultFromCert cert))))"

definition VerifyOfflineSignedIntermediate ::
  "x509_env \<Rightarrow> der \<Rightarrow> der \<Rightarrow> public_key \<Rightarrow> HierarchyCAProfile \<Rightarrow> hca_error + IssuedHierarchyCA" where
  "VerifyOfflineSignedIntermediate env parentCertDER certDER signerPublic profile =
     (case ParseCertificate parentCertDER of None \<Rightarrow> Inl HParseParent | Some parent \<Rightarrow>
     (case verifyCAUsable (xe_clock env 0) parent of Some e \<Rightarrow> Inl e | None \<Rightarrow>
     (case ParseCertificate certDER of None \<Rightarrow> Inl HParseCert | Some cert \<Rightarrow>
     (case verifyCAUsable (xe_clock env 1) cert of Some e \<Rightarrow> Inl e | None \<Rightarrow>
      if \<not> CheckSignatureFrom cert parent then Inl HNotSignedByParent else
     (case verifyChildPathLen parent cert of Some e \<Rightarrow> Inl e | None \<Rightarrow>
      if xc_NotAfter cert > xc_NotAfter parent then Inl HOutlives
      else if xc_PublicKey cert \<noteq> signerPublic then Inl HKeyMismatch
      else (case verifyImportedProfile cert profile of
              Some e \<Rightarrow> Inl e
            | None \<Rightarrow> Inr (hierarchyResultFromCert cert)))))))"

text \<open>The first loop of the chain import: every certificate parses and is a usable CA.\<close>

fun usable_certs :: "(nat \<Rightarrow> gotime) \<Rightarrow> der list \<Rightarrow> hca_error + x509_Certificate list" where
  "usable_certs clock [] = Inr []"
| "usable_certs clock (d # ds) =
     (case ParseCertificate d of
        None \<Rightarrow> Inl HParseCert
      | Some cert \<Rightarrow>
          (case verifyCAUsable (clock 0) cert of
             Some e \<Rightarrow> Inl e
           | None \<Rightarrow> (case usable_certs (\<lambda>i. clock (Suc i)) ds of Inl e \<Rightarrow> Inl e | Inr cs \<Rightarrow> Inr (cert # cs))))"

text \<open>The second: each certificate is signed by the next, within its path length and its lifetime.\<close>

fun check_links :: "x509_Certificate list \<Rightarrow> hca_error option" where
  "check_links [] = None"
| "check_links [root] = (if \<not> CheckSignatureFrom root root then Some HNotSelfSigned else None)"
| "check_links (child # parent # rest) =
     (if \<not> CheckSignatureFrom child parent then Some HNotSignedByParent
      else case verifyChildPathLen parent child of
             Some e \<Rightarrow> Some e
           | None \<Rightarrow> if xc_NotAfter child > xc_NotAfter parent then Some HOutlives
                     else check_links (parent # rest))"

definition VerifyImportedCAChain ::
  "x509_env \<Rightarrow> der list \<Rightarrow> public_key \<Rightarrow> HierarchyCAProfile \<Rightarrow> hca_error + IssuedHierarchyCA \<times> string" where
  "VerifyImportedCAChain env chainDER signerPublic profile =
     (if chainDER = [] then Inl HEmptyChain
      else case usable_certs (xe_clock env) chainDER of
             Inl e \<Rightarrow> Inl e
           | Inr certs \<Rightarrow>
               (let c0 = hd certs
                in if xc_PublicKey c0 \<noteq> signerPublic then Inl HKeyMismatch
                   else case verifyImportedProfile c0 profile of
                          Some e \<Rightarrow> Inl e
                        | None \<Rightarrow>
                            (case check_links certs of
                               Some e \<Rightarrow> Inl e
                             | None \<Rightarrow> Inr (hierarchyResultFromCert c0,
                                            if length certs = 1 then ''root'' else ''intermediate''))))"

section \<open>What the certificates guarantee\<close>

subsection \<open>Building blocks\<close>

lemma CreateCertificate_shape:
  assumes "CreateCertificate env tmpl parent pub signer = Some d"
  obtains cert where "d = CertDER cert" "xc_PublicKey cert = pub" "ds_signs signer = Some (xc_SignedBy cert)"
    "xc_IsCA cert = xc_IsCA tmpl" "xc_BasicConstraintsValid cert = xc_BasicConstraintsValid tmpl"
    "xc_KeyUsage cert = xc_KeyUsage tmpl" "xc_Subject cert = xc_Subject tmpl"
    "xc_SerialNumber cert = xc_SerialNumber tmpl"
    "xc_NotAfter cert = trunc_second (xc_NotAfter tmpl)" "xc_NotBefore cert = trunc_second (xc_NotBefore tmpl)"
    "xc_MaxPathLen cert = (if xc_MaxPathLen tmpl = 0 \<and> \<not> xc_MaxPathLenZero tmpl then -1 else xc_MaxPathLen tmpl)"
    "xc_MaxPathLenZero cert = (xc_MaxPathLen cert = 0)"
    "xc_PermittedDNSDomains cert = xc_PermittedDNSDomains tmpl"
    "xc_ExtKeyUsage cert = xc_ExtKeyUsage tmpl" "xc_UnknownExtKeyUsage cert = xc_UnknownExtKeyUsage tmpl"
    "xc_DNSNames cert = xc_DNSNames tmpl" "xc_IPAddresses cert = xc_IPAddresses tmpl"
    "xc_EmailAddresses cert = xc_EmailAddresses tmpl" "xc_URIs cert = xc_URIs tmpl"
    "xc_PublicKey parent \<noteq> [] \<longrightarrow> xc_PublicKey parent = ds_Public signer"
  using assms unfolding CreateCertificate_def Let_def
  by (auto split: if_splits option.splits simp: that)

lemma trunc_second_le: "trunc_second t \<le> t"
  by (simp add: trunc_second_def)

lemma trunc_second_mono: "s \<le> t \<Longrightarrow> trunc_second s \<le> trunc_second t"
proof -
  have eq: "trunc_second x = second * (x div second)" for x
    by (simp add: trunc_second_def minus_mod_eq_mult_div)
  assume "s \<le> t"
  then show ?thesis by (simp add: eq zdiv_mono1)
qed

lemma trunc_second_whole: "trunc_second (trunc_second t) = trunc_second t"
  by (simp add: trunc_second_def mod_diff_eq [symmetric])

lemma trunc_second_add:
  assumes "trunc_second x = x" and "0 \<le> d" and "d < second"
  shows "trunc_second (x + d) = x"
proof -
  have "x mod second = 0" using assms(1) by (simp add: trunc_second_def)
  moreover have "(x + d) mod second = (x mod second + d) mod second" by (rule mod_add_left_eq [symmetric])
  ultimately have "(x + d) mod second = d mod second" by (simp only: add_0)
  also have "\<dots> = d" using assms(2,3) by simp
  finally show ?thesis by (simp add: trunc_second_def)
qed

lemma san_loop_None:
  "san_loop policy allowed ok xs = None \<longleftrightarrow> (\<forall>x \<in> set xs. if allowed = [] then \<not> policy else ok x)"
  by (induction xs) auto

text \<open>The two implementations of the DNS suffix rule, here and in the profile package, agree.\<close>

lemma dns_suffix_loop_eq: "dns_suffix_loop name ss = suffix_loop name ss"
  by (induction ss) (auto simp: Let_def norm_suffix_def hasDotSuffix_def)

subsection \<open>Chains of the in-process CA\<close>

text \<open>
  A well-formed CA holds the key of its certificate, its certificate carries exactly the path length
  the CA remembers, and its chain verifies link by link up to a self-signed root.
\<close>

fun links_ok :: "x509_Certificate list \<Rightarrow> bool" where
  "links_ok [] = False"
| "links_ok [root] = CheckSignatureFrom root root"
| "links_ok (child # parent # rest) =
     (CheckSignatureFrom child parent \<and> verifyChildPathLen parent child = None \<and> links_ok (parent # rest))"

definition path_len_of :: "int \<Rightarrow> int" where
  "path_len_of n = (if n \<ge> 0 then n else -1)"

definition ca_wf :: "CA \<Rightarrow> bool" where
  "ca_wf c =
     (ca_chain c \<noteq> [] \<and> hd (ca_chain c) = ca_cert c \<and> links_ok (ca_chain c)
      \<and> (ca_key c = None \<or> ca_key c = Some (xc_PublicKey (ca_cert c)))
      \<and> xc_MaxPathLen (ca_cert c) = path_len_of (ca_maxPathLen c)
      \<and> xc_MaxPathLenZero (ca_cert c) = (ca_maxPathLen c = 0)
      \<and> xc_PermittedDNSDomains (ca_cert c) = ca_permittedDNS c
      \<and> xc_IsCA (ca_cert c) \<and> xc_BasicConstraintsValid (ca_cert c) \<and> KUCertSign \<in> set (xc_KeyUsage (ca_cert c)))"

lemma signCACert_shape:
  assumes "signCACert env cn permitted maxPathLen ekus ttl parent signerKey pub = Inr cert"
  obtains k where "signerKey = Some k" "xc_SignedBy cert = k" "xc_PublicKey cert = pub"
    "xc_MaxPathLen cert = path_len_of maxPathLen" "xc_MaxPathLenZero cert = (maxPathLen = 0)"
    "xc_PermittedDNSDomains cert = permitted" "xc_IsCA cert" "xc_BasicConstraintsValid cert"
    "KUCertSign \<in> set (xc_KeyUsage cert)" "xc_Subject cert = cn"
    "case parent of None \<Rightarrow> True | Some p \<Rightarrow> xc_PublicKey p \<noteq> [] \<longrightarrow> xc_PublicKey p = k"
proof -
  obtain serial k d where *: "signerKey = Some k" "ParseCertificate d = Some cert"
    "CreateCertificate env (ca_template env cn permitted maxPathLen ekus ttl serial)
       (case parent of None \<Rightarrow> ca_template env cn permitted maxPathLen ekus ttl serial | Some p \<Rightarrow> p) pub (honest_signer k) = Some d"
    using assms by (auto simp: signCACert_def Let_def split: option.splits)
  show thesis
    by (rule CreateCertificate_shape [OF *(3)], rule that) (use *(1,2) in \<open>auto simp: ca_template_def Let_def x509_zero_def path_len_of_def honest_signer_def split: option.splits\<close>)
qed

lemma NewRoot_wf:
  assumes "NewRoot env spec = Inr c"
  shows "ca_wf c" and "ca_maxPathLen c = cs_MaxPathLen spec"
proof -
  obtain key ttl cert where *: "signCACert env (cs_CommonName spec) (cs_PermittedDNSDomains spec) (cs_MaxPathLen spec)
      (cs_EKUs spec) ttl None (Some key) key = Inr cert"
    and c: "ca_cert c = cert" "ca_key c = Some key" "ca_chain c = [cert]"
      "ca_permittedDNS c = cs_PermittedDNSDomains spec" "ca_maxPathLen c = cs_MaxPathLen spec"
    using assms by (auto simp: NewRoot_def Let_def split: option.splits sum.splits)
  show "ca_maxPathLen c = cs_MaxPathLen spec" by (fact c(5))
  show "ca_wf c"
    by (rule signCACert_shape [OF *]) (use c in \<open>simp add: ca_wf_def CheckSignatureFrom_def\<close>)
qed

lemma CA_CreateIntermediate_wf:
  assumes "ca_wf p" and "CA_CreateIntermediate env p spec = Inr c"
  shows "ca_wf c" and "ca_maxPathLen p \<noteq> 0"
    and "ca_maxPathLen c = (if ca_maxPathLen p > 0 then ca_maxPathLen p - 1 else -1)"
    and "ca_chain c = ca_cert c # ca_chain p"
proof -
  let ?len = "if ca_maxPathLen p > 0 then ca_maxPathLen p - 1 else -1"
  obtain key permitted ekus ttl cert where
    *: "signCACert env (cs_CommonName spec) permitted ?len ekus ttl (Some (ca_cert p)) (ca_key p) key = Inr cert"
    and c: "ca_cert c = cert" "ca_key c = Some key" "ca_chain c = cert # ca_chain p"
      "ca_permittedDNS c = permitted" "ca_maxPathLen c = ?len" and nz: "ca_maxPathLen p \<noteq> 0"
    using assms(2) by (auto simp: CA_CreateIntermediate_def Let_def split: option.splits sum.splits if_splits)
  show "ca_maxPathLen p \<noteq> 0" "ca_maxPathLen c = ?len" "ca_chain c = ca_cert c # ca_chain p"
    using nz c by simp_all
  from assms(1) have p: "ca_chain p \<noteq> []" "hd (ca_chain p) = ca_cert p" "links_ok (ca_chain p)"
    "ca_key p = None \<or> ca_key p = Some (xc_PublicKey (ca_cert p))"
    "xc_MaxPathLen (ca_cert p) = path_len_of (ca_maxPathLen p)"
    "xc_MaxPathLenZero (ca_cert p) = (ca_maxPathLen p = 0)"
    by (auto simp: ca_wf_def)
  then obtain rest where rest: "ca_chain p = ca_cert p # rest" by (cases "ca_chain p") auto
  from assms(1) have can: "xc_IsCA (ca_cert p)" "xc_BasicConstraintsValid (ca_cert p)" "KUCertSign \<in> set (xc_KeyUsage (ca_cert p))"
    by (auto simp: ca_wf_def)
  show "ca_wf c"
  proof (rule signCACert_shape [OF *])
    fix k assume k: "ca_key p = Some k" "xc_SignedBy cert = k" "xc_PublicKey cert = key"
      "xc_MaxPathLen cert = path_len_of ?len" "xc_MaxPathLenZero cert = (?len = 0)"
      "xc_PermittedDNSDomains cert = permitted" "xc_IsCA cert" "xc_BasicConstraintsValid cert"
      "KUCertSign \<in> set (xc_KeyUsage cert)"
    have "CheckSignatureFrom cert (ca_cert p)" using k(1,2) p(4) can by (auto simp: CheckSignatureFrom_def)
    moreover have "verifyChildPathLen (ca_cert p) cert = None"
      using k(4,5) p(5,6) nz by (auto simp: verifyChildPathLen_def has_path_len_def path_len_of_def)
    ultimately show "ca_wf c" using c k p(3) rest by (simp add: ca_wf_def)
  qed
qed

text \<open>\<open>descends r n c\<close>: the CA \<open>c\<close> is reached from \<open>r\<close> by signing \<open>n\<close> intermediates, one under the other.\<close>

inductive descends :: "CA \<Rightarrow> nat \<Rightarrow> CA \<Rightarrow> bool" where
  descends_self: "descends r 0 r"
| descends_child: "descends r n p \<Longrightarrow> CA_CreateIntermediate env p spec = Inr c \<Longrightarrow> descends r (Suc n) c"

lemma descends_wf:
  assumes "descends r n c" and "ca_wf r"
  shows "ca_wf c \<and> length (ca_chain c) = length (ca_chain r) + n
    \<and> (ca_maxPathLen r \<ge> 0 \<longrightarrow> int n \<le> ca_maxPathLen r \<and> ca_maxPathLen c = ca_maxPathLen r - int n)"
  using assms
proof induction
  case (descends_child r n p env spec c)
  then have p: "ca_wf p" "length (ca_chain p) = length (ca_chain r) + n"
    "ca_maxPathLen r \<ge> 0 \<longrightarrow> int n \<le> ca_maxPathLen r \<and> ca_maxPathLen p = ca_maxPathLen r - int n" by auto
  note c = CA_CreateIntermediate_wf [OF p(1) descends_child.hyps(2)]
  from c p show ?case by auto
qed simp

text \<open>C23: The hierarchy the in-process CA builds stays within its root's path length. Every CA reached from
  a root by creating intermediates sits at a depth of at most the root's path length, its certificate
  carries exactly what is left of it, and its chain verifies link by link - each certificate signed by
  the next one, a CA entitled to sign, within that CA's path length - up to the self-signed root.
\<close>

theorem hierarchy_depth_bounded:
  assumes "NewRoot env spec = Inr r" and "descends r n c"
  shows "links_ok (ca_chain c) \<and> length (ca_chain c) = Suc n
    \<and> (cs_MaxPathLen spec \<ge> 0 \<longrightarrow> int n \<le> cs_MaxPathLen spec
        \<and> xc_MaxPathLen (ca_cert c) = cs_MaxPathLen spec - int n)"
proof -
  note r = NewRoot_wf [OF assms(1)]
  have "length (ca_chain r) = 1"
    using assms(1) by (auto simp: NewRoot_def Let_def split: option.splits sum.splits)
  with descends_wf [OF assms(2) r(1)] r(2) show ?thesis by (auto simp: ca_wf_def path_len_of_def)
qed

definition demo_x509 :: "public_key \<Rightarrow> nat \<Rightarrow> x509_env" where
  "demo_x509 k n = \<lparr>xe_key = Some k, xe_serial = Some n, xe_clock = (\<lambda>_. 100 * 365 * 24 * hour),
     xe_encodes = (\<lambda>_. True), xe_keyid = (\<lambda>p. Some (''id-'' @ p)), xe_parses_key = (\<lambda>p. p \<noteq> []),
     xe_ParseOID = parseOID\<rparr>"

definition demo_ca_spec :: "string \<Rightarrow> int \<Rightarrow> CASpec" where
  "demo_ca_spec cn n = \<lparr>cs_CommonName = cn, cs_PermittedDNSDomains = [''corp.example''], cs_MaxPathLen = n,
     cs_EKUs = [''serverAuth''], cs_TTL = 0\<rparr>"

definition demo_root :: CA where
  "demo_root = projr (NewRoot (demo_x509 ''root-key'' 1) (demo_ca_spec ''Root'' 1))"

definition demo_intermediate :: CA where
  "demo_intermediate = projr (CA_CreateIntermediate (demo_x509 ''sub-key'' 2) demo_root (demo_ca_spec ''Sub'' 0))"

lemma demo_root_ok: "NewRoot (demo_x509 ''root-key'' 1) (demo_ca_spec ''Root'' 1) = Inr demo_root"
proof -
  have "is_ok (NewRoot (demo_x509 ''root-key'' 1) (demo_ca_spec ''Root'' 1))" by code_simp
  then show ?thesis by (auto simp: is_ok_iff demo_root_def)
qed

lemma demo_intermediate_ok:
  "CA_CreateIntermediate (demo_x509 ''sub-key'' 2) demo_root (demo_ca_spec ''Sub'' 0) = Inr demo_intermediate"
proof -
  have "is_ok (CA_CreateIntermediate (demo_x509 ''sub-key'' 2) demo_root (demo_ca_spec ''Sub'' 0))" by code_simp
  then show ?thesis by (auto simp: is_ok_iff demo_intermediate_def)
qed

theorem hierarchy_depth_bounded_witness:
  "links_ok (ca_chain demo_intermediate) \<and> xc_MaxPathLen (ca_cert demo_intermediate) = 0"
  using hierarchy_depth_bounded [OF demo_root_ok descends_child [OF descends_self demo_intermediate_ok]]
  by (simp add: demo_ca_spec_def)

subsection \<open>End-entity certificates\<close>

lemma SignLeaf_accepts:
  assumes "SignLeafFromCSRWithProfile env ni caCertDER caSigner csrDER ttl prof = Inr d"
  obtains caCert csr ekus leaf where
    "caCertDER = CertDER caCert" "csrDER = CSRDER csr" "cr_SignatureOK csr" "d = CertDER leaf"
    "enforceLeafProfile ni csr ttl prof = None" "leafExtKeyUsage (lp_AllowedExtKeyUsage prof) = Inr ekus"
    "CheckSignatureFrom leaf caCert" "xc_ExtKeyUsage leaf = fst ekus" "xc_UnknownExtKeyUsage leaf = snd ekus"
    "xc_DNSNames leaf = cr_DNSNames csr" "xc_IPAddresses leaf = cr_IPAddresses csr"
    "xc_EmailAddresses leaf = cr_EmailAddresses csr" "xc_URIs leaf = cr_URIs csr"
    "xc_PublicKey leaf = cr_PublicKey csr" "\<not> xc_IsCA leaf"
    "xc_NotAfter leaf = trunc_second (xe_clock env 0 + ttl)"
    "xc_KeyUsage leaf = leafKeyUsageForProfile prof"
proof -
  obtain caCert csr ekus serial ski extra pols leaf where *:
    "ParseCertificate caCertDER = Some caCert" "ParseCertificateRequest csrDER = Some csr" "cr_SignatureOK csr"
    "enforceLeafProfile ni csr ttl prof = None" "leafExtKeyUsage (lp_AllowedExtKeyUsage prof) = Inr ekus"
    "CreateCertificate env (leaf_template env caCert csr ttl prof serial ski ekus extra pols) caCert
       (cr_PublicKey csr) caSigner = Some d"
    "ParseCertificate d = Some leaf" "CheckSignatureFrom leaf caCert"
    using assms unfolding SignLeafFromCSRWithProfile_def
    by (auto split: option.splits sum.splits if_splits simp del: ParseCertificate.simps)
  show thesis
    by (rule CreateCertificate_shape [OF *(6)], rule that [of caCert csr leaf ekus])
      (use * in \<open>auto simp: leaf_template_def Let_def x509_zero_def elim: ParseCertificate.elims ParseCertificateRequest.elims\<close>)
qed

lemma enforceLeafProfile_None:
  "enforceLeafProfile ni csr ttl prof = None \<Longrightarrow>
     (lp_MaxValidity prof > 0 \<longrightarrow> ttl \<le> lp_MaxValidity prof)
     \<and> (\<forall>n \<in> set (cr_DNSNames csr). if lp_PermittedDNSSuffixes prof = [] then \<not> leafSANPolicyConfigured prof
           else dnsSuffixPermitted n (lp_PermittedDNSSuffixes prof))
     \<and> (\<forall>m \<in> set (cr_EmailAddresses csr). if lp_PermittedEmailDomains prof = [] then \<not> leafSANPolicyConfigured prof
           else emailDomainPermitted m (lp_PermittedEmailDomains prof))
     \<and> (\<forall>u \<in> set (cr_URIs csr). if lp_PermittedURIPrefixes prof = [] then \<not> leafSANPolicyConfigured prof
           else uriPrefixPermitted u (lp_PermittedURIPrefixes prof))
     \<and> (\<exists>cidrs. parseLeafCIDRs ni (lp_PermittedIPCIDRs prof) = Inr cidrs
         \<and> (\<forall>ip \<in> set (cr_IPAddresses csr). if lp_PermittedIPCIDRs prof = [] then \<not> leafSANPolicyConfigured prof
              else ipInCIDRs ni ip cidrs))"
  unfolding enforceLeafProfile_def Let_def
  by (clarsimp split: if_splits sum.splits option.splits simp: san_loop_None)

lemma eku_loop_sound:
  "eku_loop names = Inr (known, custom) \<Longrightarrow>
     set known \<subseteq> {u. \<exists>n \<in> set names. knownExtKeyUsage n = Some u}
     \<and> set custom \<subseteq> {oid. \<exists>n \<in> set names. parseDottedOID n = Some oid}"
  by (induction names arbitrary: known custom) (fastforce split: option.splits sum.splits prod.splits)+


definition demo_netip :: "(string, string) netip" where
  "demo_netip = \<lparr>ni_ParseAddr = Some, ni_ParsePrefix = Some, ni_Contains = has_prefix\<rparr>"

definition demo_csr :: "string list \<Rightarrow> der" where
  "demo_csr names = CSRDER \<lparr>cr_Subject = ''leaf'', cr_DNSNames = names, cr_IPAddresses = [], cr_EmailAddresses = [],
     cr_URIs = [], cr_PublicKey = ''leaf-key'', cr_SignatureOK = True\<rparr>"

definition demo_leaf_profile :: "string list \<Rightarrow> LeafProfile" where
  "demo_leaf_profile sufs = zero_LeafProfile\<lparr>lp_MaxValidity := 24 * hour, lp_PermittedDNSSuffixes := sufs\<rparr>"

definition demo_sign_leaf :: "leaf_error + der" where
  "demo_sign_leaf = SignLeafFromCSRWithProfile (demo_x509 [] 7) demo_netip (CertDER (ca_cert demo_root))
     (honest_signer ''root-key'') (demo_csr [''www.corp.example'']) hour (demo_leaf_profile [''corp.example''])"


subsection \<open>The CA's own lane\<close>

text \<open>A configured suffix in normal form: lower case, no blanks around it, no dot at its end, not empty.\<close>

definition plain_suffix :: "string \<Rightarrow> bool" where
  "plain_suffix s = (norm_suffix s = trim_prefix s ''.'' \<and> trim_prefix s ''.'' \<noteq> '''')"

lemma dnsSuffixPermitted_iff: "dnsSuffixPermitted n sufs \<longleftrightarrow> dns_permitted sufs n"
  by (simp add: dnsSuffixPermitted_def dns_suffix_loop_eq suffix_loop_iff dns_permitted_def norm_dns_def)

lemma in_zone_trans: "in_zone a b \<Longrightarrow> in_zone b c \<Longrightarrow> in_zone a c"
  by (auto simp: in_zone_def)

lemma intersectDNS_confines:
  assumes "signer \<noteq> []" and "\<forall>s \<in> set signer \<union> set target. plain_suffix s"
    and "dns_permitted (intersectDNS target signer) n"
  shows "dns_permitted signer n \<and> (target = [] \<or> dns_permitted target n)"
proof (cases "target = []")
  case True
  with assms show ?thesis by (simp add: intersectDNS_def)
next
  case False
  with assms obtain t where t: "t \<in> set target" "dnsPermitted (trim_prefix t ''.'') signer \<or> containsFold signer t"
    "norm_suffix t \<noteq> ''''" "in_zone (norm_dns n) (norm_suffix t)"
    by (auto simp: intersectDNS_def dns_permitted_def)
  then obtain p where p: "p \<in> set signer" "in_zone (trim_prefix t ''.'') (trim_prefix p ''.'')"
    by (auto simp: dnsPermitted_def containsFold_def list_ex_iff Let_def in_zone_def has_suffix_iff)
  have "norm_suffix t = trim_prefix t ''.''" "norm_suffix p = trim_prefix p ''.''" "norm_suffix p \<noteq> ''''"
    using assms(2) t(1) p(1) by (auto simp: plain_suffix_def)
  with p t have "in_zone (norm_dns n) (norm_suffix p)" by (metis in_zone_trans)
  with p t \<open>norm_suffix p \<noteq> ''''\<close> show ?thesis unfolding dns_permitted_def by blast
qed

lemma IssueLeaf_accepts:
  assumes "IssueLeafWithProfile env ni c csrDER ttl prof = Inr issued"
  obtains csr leaf where "is_CertificatePEM issued = leaf # ca_chain c" "csrDER = CSRDER csr"
    "enforceLeafProfile ni csr ttl (applyCALane c prof) = None" "xc_DNSNames leaf = cr_DNSNames csr"
    "CheckSignatureFrom leaf (ca_cert c)" "is_Serial issued = hex_text (xc_SerialNumber leaf)"
proof -
  obtain k leaf where *: "SignLeafFromCSRWithProfile env ni (CertDER (ca_cert c)) (honest_signer k) csrDER ttl
      (applyCALane c prof) = Inr (CertDER leaf)" "is_CertificatePEM issued = leaf # ca_chain c"
      "is_Serial issued = hex_text (xc_SerialNumber leaf)"
    using assms by (auto simp: IssueLeafWithProfile_def split: option.splits sum.splits elim: ParseCertificate.elims)
  show thesis by (rule SignLeaf_accepts [OF *(1)], rule that) (use * in auto)
qed

text \<open>
  A CA with name constraints confines the leaves it issues, whatever the caller's profile says, as
  long as the two lists of suffixes have something in common: every DNS name of an issued certificate is
  within the CA's permitted domains, and within the profile's suffixes when it lists any. The suffixes
  are taken to be in normal form (lower case, without blanks or a trailing dot).
\<close>

theorem ca_lane_confines_leaf:
  assumes "IssueLeafWithProfile env ni c csrDER ttl prof = Inr issued"
    and "ca_permittedDNS c \<noteq> []"
    and "\<forall>s \<in> set (ca_permittedDNS c) \<union> set (lp_PermittedDNSSuffixes prof). plain_suffix s"
    and "intersectDNS (lp_PermittedDNSSuffixes prof) (ca_permittedDNS c) \<noteq> []"
  shows "\<forall>n \<in> set (xc_DNSNames (hd (is_CertificatePEM issued))).
    dnsSuffixPermitted n (ca_permittedDNS c)
    \<and> (lp_PermittedDNSSuffixes prof = [] \<or> dnsSuffixPermitted n (lp_PermittedDNSSuffixes prof))"
proof (rule IssueLeaf_accepts [OF assms(1)])
  fix csr leaf
  assume *: "is_CertificatePEM issued = leaf # ca_chain c" "csrDER = CSRDER csr"
    "enforceLeafProfile ni csr ttl (applyCALane c prof) = None" "xc_DNSNames leaf = cr_DNSNames csr"
  have lane: "lp_PermittedDNSSuffixes (applyCALane c prof)
      = intersectDNS (lp_PermittedDNSSuffixes prof) (ca_permittedDNS c)"
    using assms(2) by (auto simp: applyCALane_def Let_def intersectDNS_def)
  have "\<forall>n \<in> set (cr_DNSNames csr). dns_permitted (intersectDNS (lp_PermittedDNSSuffixes prof) (ca_permittedDNS c)) n"
    using enforceLeafProfile_None [OF *(3)] lane assms(4) by (auto simp: dnsSuffixPermitted_iff)
  with intersectDNS_confines [OF assms(2,3)] *(1,4) show ?thesis by (auto simp: dnsSuffixPermitted_iff)
qed

definition demo_lane_issue :: "string list \<Rightarrow> string list \<Rightarrow> ca_error + Issued" where
  "demo_lane_issue sufs names =
     IssueLeafWithProfile (demo_x509 [] 8) demo_netip demo_root (demo_csr names) hour (demo_leaf_profile sufs)"

theorem ca_lane_confines_leaf_witness:
  "\<exists>issued. demo_lane_issue [''web.corp.example''] [''a.web.corp.example''] = Inr issued
     \<and> (\<forall>n \<in> set (xc_DNSNames (hd (is_CertificatePEM issued))). dnsSuffixPermitted n [''corp.example''])"
proof -
  let ?i = "demo_lane_issue [''web.corp.example''] [''a.web.corp.example'']"
  have "is_ok ?i" by code_simp
  then obtain r where r: "?i = Inr r" by (auto simp: is_ok_iff)
  have perm: "ca_permittedDNS demo_root = [''corp.example'']" by code_simp
  have plain: "plain_suffix ''corp.example''" "plain_suffix ''web.corp.example''" by code_simp+
  have ne: "intersectDNS [''web.corp.example''] [''corp.example''] \<noteq> []" by code_simp
  from ca_lane_confines_leaf [OF r [unfolded demo_lane_issue_def]] perm plain ne r show ?thesis
    by (simp add: demo_leaf_profile_def)
qed

text \<open>
  When the two lists have nothing in common the intersection is the empty list, which the signer reads as
  no limit at all: the certificate is issued for any DNS name, inside neither list.
\<close>

theorem disjoint_lane_is_unconstrained:
  assumes "ca_permittedDNS c \<noteq> []" and "lp_PermittedDNSSuffixes prof \<noteq> []"
    and "intersectDNS (lp_PermittedDNSSuffixes prof) (ca_permittedDNS c) = []"
    and "lp_PermittedIPCIDRs prof = []" "lp_PermittedEmailDomains prof = []" "lp_PermittedURIPrefixes prof = []"
    and "lp_MaxValidity prof \<le> 0 \<or> ttl \<le> lp_MaxValidity prof"
  shows "enforceLeafProfile ni csr ttl (applyCALane c prof) = None"
proof -
  let ?p = "applyCALane c prof"
  have f: "lp_PermittedDNSSuffixes ?p = []" "lp_PermittedIPCIDRs ?p = []" "lp_PermittedEmailDomains ?p = []"
    "lp_PermittedURIPrefixes ?p = []" "lp_MaxValidity ?p = lp_MaxValidity prof"
    using assms by (simp_all add: applyCALane_def Let_def)
  then have "\<not> leafSANPolicyConfigured ?p" by (simp add: leafSANPolicyConfigured_def)
  moreover have "san_loop False [] ok xs = None" for ok xs by (induction xs) auto
  ultimately show ?thesis using assms(7) f by (auto simp: enforceLeafProfile_def Let_def)
qed

theorem disjoint_lane_issues_outside_both:
  "intersectDNS [''example''] [''corp.example''] = []
   \<and> is_ok (demo_lane_issue [''example''] [''www.attacker.test''])
   \<and> \<not> dnsSuffixPermitted ''www.attacker.test'' [''example'']
   \<and> \<not> dnsSuffixPermitted ''www.attacker.test'' (ca_permittedDNS demo_root)"
proof (intro conjI)
  show "intersectDNS [''example''] [''corp.example''] = []" by code_simp
  show "is_ok (demo_lane_issue [''example''] [''www.attacker.test''])" by code_simp
  show "\<not> dnsSuffixPermitted ''www.attacker.test'' [''example'']" by code_simp
  show "\<not> dnsSuffixPermitted ''www.attacker.test'' (ca_permittedDNS demo_root)" by code_simp
qed

subsection \<open>Cross-signing\<close>

lemma cross_template_fields [simp]:
  "xc_Subject (cross_template c other n) = xc_Subject other"
  "xc_MaxPathLen (cross_template c other n) = (case cross_limit c other of None \<Rightarrow> 0 | Some p \<Rightarrow> p)"
  "xc_MaxPathLenZero (cross_template c other n) = (cross_limit c other = Some 0)"
  "xc_PermittedDNSDomains (cross_template c other n) = intersectDNS (xc_PermittedDNSDomains other) (ca_permittedDNS c)"
  by (simp_all add: cross_template_def Let_def)

lemma CA_CrossSign_shape:
  assumes "CA_CrossSign env c otherDER = Inr x"
  obtains other k where "otherDER = CertDER other" "xc_IsCA other" "ca_key c = Some k" "xc_SignedBy x = k"
    "xc_Subject x = xc_Subject other" "xc_PublicKey x = xc_PublicKey other"
    "xc_MaxPathLen x = (case cross_limit c other of None \<Rightarrow> -1 | Some p \<Rightarrow> p)"
    "xc_MaxPathLenZero x = (xc_MaxPathLen x = 0)"
    "xc_PermittedDNSDomains x = intersectDNS (xc_PermittedDNSDomains other) (ca_permittedDNS c)"
proof -
  obtain other serial k d where *: "ParseCertificate otherDER = Some other" "xc_IsCA other" "ca_key c = Some k"
    "ParseCertificate d = Some x"
    "CreateCertificate env (cross_template c other serial) (ca_cert c) (xc_PublicKey other) (honest_signer k) = Some d"
    using assms unfolding CA_CrossSign_def
    by (auto split: option.splits if_splits simp del: ParseCertificate.simps)
  from *(1) have o: "otherDER = CertDER other" by (cases otherDER) auto
  show thesis
    by (rule CreateCertificate_shape [OF *(5)], rule that [OF o *(2,3)])
      (use *(4) in \<open>auto simp: honest_signer_def split: option.splits if_splits\<close>)
qed

text \<open>
  A cross-certificate never grants more depth than its signer has: when the signing CA's path length
  is bounded, the cross-certificate carries a path length that is at most the signer's, and at most the
  target's own when the target has one; it names the target's subject and key, and it verifies under the
  signing CA. The target's path-length flag is taken as the parser sets it.
\<close>

theorem cross_sign_within_depth:
  assumes "ca_wf c" and "CA_CrossSign env c (CertDER other) = Inr x"
    and "xc_MaxPathLenZero other = (xc_MaxPathLen other = 0)"
  shows "xc_IsCA other \<and> xc_Subject x = xc_Subject other \<and> xc_PublicKey x = xc_PublicKey other
    \<and> CheckSignatureFrom x (ca_cert c)
    \<and> (ca_maxPathLen c \<ge> 0 \<longrightarrow> has_path_len x \<and> 0 \<le> xc_MaxPathLen x \<and> xc_MaxPathLen x \<le> ca_maxPathLen c)
    \<and> (has_path_len other \<longrightarrow> has_path_len x \<and> xc_MaxPathLen x \<le> xc_MaxPathLen other)"
proof (rule CA_CrossSign_shape [OF assms(2)])
  fix o' k
  assume *: "CertDER other = CertDER o'" "xc_IsCA o'" "ca_key c = Some k" "xc_SignedBy x = k"
    "xc_Subject x = xc_Subject o'" "xc_PublicKey x = xc_PublicKey o'"
    and len: "xc_MaxPathLen x = (case cross_limit c o' of None \<Rightarrow> -1 | Some p \<Rightarrow> p)"
      "xc_MaxPathLenZero x = (xc_MaxPathLen x = 0)"
  have "CheckSignatureFrom x (ca_cert c)" using *(3,4) assms(1) by (auto simp: ca_wf_def CheckSignatureFrom_def)
  moreover have "ca_maxPathLen c \<ge> 0 \<Longrightarrow> has_path_len x \<and> 0 \<le> xc_MaxPathLen x \<and> xc_MaxPathLen x \<le> ca_maxPathLen c"
    using len *(1) assms(3) by (auto simp: cross_limit_def crossPathLen_def has_path_len_def split: if_splits)
  moreover have "has_path_len other \<Longrightarrow> has_path_len x \<and> xc_MaxPathLen x \<le> xc_MaxPathLen other"
    using len *(1) assms(3) by (auto simp: cross_limit_def crossPathLen_def has_path_len_def split: if_splits)
  ultimately show ?thesis using * by auto
qed

definition demo_peer :: "int \<Rightarrow> string list \<Rightarrow> x509_Certificate" where
  "demo_peer n permitted = ca_cert (projr (NewRoot (demo_x509 ''peer-key'' 9)
     ((demo_ca_spec ''Peer'' n)\<lparr>cs_PermittedDNSDomains := permitted\<rparr>)))"

definition demo_cross :: "int \<Rightarrow> string list \<Rightarrow> ca_error + x509_Certificate" where
  "demo_cross n permitted = CA_CrossSign (demo_x509 [] 10) demo_root (CertDER (demo_peer n permitted))"

theorem cross_sign_within_depth_witness:
  "\<exists>x. demo_cross 5 [] = Inr x \<and> CheckSignatureFrom x (ca_cert demo_root) \<and> xc_MaxPathLen x \<le> 1"
proof -
  have "is_ok (demo_cross 5 [])" by code_simp
  then obtain x where x: "demo_cross 5 [] = Inr x" by (auto simp: is_ok_iff)
  have wf: "ca_wf demo_root" by (rule NewRoot_wf [OF demo_root_ok])
  have len: "ca_maxPathLen demo_root = 1" by code_simp
  have flag: "xc_MaxPathLenZero (demo_peer 5 []) = (xc_MaxPathLen (demo_peer 5 []) = 0)" by code_simp
  from cross_sign_within_depth [OF wf x [unfolded demo_cross_def] flag] len x show ?thesis by simp
qed

text \<open>
  The name constraints of a cross-certificate are not narrowed the same way: a target whose permitted
  domains share nothing with the signer's gets a certificate with no name constraint at all.
\<close>

theorem cross_sign_disjoint_names_unconstrained:
  "\<exists>x. demo_cross 0 [''partner.test''] = Inr x \<and> xc_PermittedDNSDomains x = []
     \<and> ca_permittedDNS demo_root = [''corp.example''] \<and> xc_PermittedDNSDomains (demo_peer 0 [''partner.test'']) = [''partner.test'']"
proof -
  have "is_ok (demo_cross 0 [''partner.test''])" by code_simp
  then obtain x where x: "demo_cross 0 [''partner.test''] = Inr x" by (auto simp: is_ok_iff)
  have "xc_PermittedDNSDomains (projr (demo_cross 0 [''partner.test''])) = []" by code_simp
  moreover have "ca_permittedDNS demo_root = [''corp.example'']" by code_simp
  moreover have "xc_PermittedDNSDomains (demo_peer 0 [''partner.test'']) = [''partner.test'']" by code_simp
  ultimately show ?thesis using x by auto
qed

text \<open>
  An intermediate's own constraints replace its parent's instead of narrowing them: the specification may
  name domains and key usages the parent does not have.
\<close>

theorem intermediate_constraints_can_widen:
  "\<exists>c. CA_CreateIntermediate (demo_x509 ''k2'' 3) demo_root
          ((demo_ca_spec ''Wide'' 0)\<lparr>cs_PermittedDNSDomains := [''other.test''], cs_EKUs := [''codeSigning'']\<rparr>) = Inr c
     \<and> ca_permittedDNS c = [''other.test''] \<and> ca_permittedDNS demo_root = [''corp.example'']
     \<and> ca_ekus c = [EKUCodeSigning] \<and> ca_ekus demo_root = [EKUServerAuth]"
proof -
  let ?r = "CA_CreateIntermediate (demo_x509 ''k2'' 3) demo_root
          ((demo_ca_spec ''Wide'' 0)\<lparr>cs_PermittedDNSDomains := [''other.test''], cs_EKUs := [''codeSigning'']\<rparr>)"
  have "is_ok ?r" by code_simp
  moreover have "ca_permittedDNS (projr ?r) = [''other.test'']" by code_simp
  moreover have "ca_permittedDNS demo_root = [''corp.example'']" by code_simp
  moreover have "ca_ekus (projr ?r) = [EKUCodeSigning]" by code_simp
  moreover have "ca_ekus demo_root = [EKUServerAuth]" by code_simp
  ultimately show ?thesis by (auto simp: is_ok_iff)
qed

subsection \<open>Imported chains\<close>

lemma verifyCAUsable_None:
  "verifyCAUsable now cert = None \<longleftrightarrow>
     xc_IsCA cert \<and> xc_BasicConstraintsValid cert \<and> xc_NotBefore cert \<le> now \<and> now \<le> xc_NotAfter cert
     \<and> KUCertSign \<in> set (xc_KeyUsage cert)"
  by (auto simp: verifyCAUsable_def)

lemma usable_certs_sound:
  "usable_certs clock ds = Inr cs \<Longrightarrow>
     map CertDER cs = ds \<and> (\<forall>i < length cs. verifyCAUsable (clock i) (cs ! i) = None)"
proof (induction ds arbitrary: clock cs)
  case (Cons d ds)
  then obtain c cs' where *: "d = CertDER c" "verifyCAUsable (clock 0) c = None"
    "usable_certs (\<lambda>i. clock (Suc i)) ds = Inr cs'" "cs = c # cs'"
    by (cases d) (auto split: option.splits sum.splits)
  from Cons.IH [OF *(3)] * show ?case by (auto simp: less_Suc_eq_0_disj)
qed simp

lemma check_links_sound:
  "check_links cs = None \<Longrightarrow> cs \<noteq> [] \<Longrightarrow>
     links_ok cs \<and> sorted_wrt (\<lambda>child parent. xc_NotAfter child \<le> xc_NotAfter parent) cs"
proof (induction cs rule: check_links.induct)
  case (3 child parent rest)
  then have ih: "links_ok (parent # rest)"
    "sorted_wrt (\<lambda>child parent. xc_NotAfter child \<le> xc_NotAfter parent) (parent # rest)"
    and here: "CheckSignatureFrom child parent" "verifyChildPathLen parent child = None"
      "xc_NotAfter child \<le> xc_NotAfter parent"
    by (auto split: if_splits option.splits)
  then show ?case by (fastforce intro: order_trans)
qed (auto split: if_splits)

text \<open>
  An imported CA chain is accepted only when it is sound: every certificate in it is a CA certificate
  that may sign certificates and is valid at the moment it is checked; each is signed by the next, stays
  within the next one's path length and does not outlive any certificate above it; the last is
  self-signed; and the first carries the public key of the signer's handle and matches the profile the
  ceremony approved. The reported kind is root exactly for a chain of one.
\<close>

theorem imported_chain_sound:
  assumes "VerifyImportedCAChain env chainDER signerPublic profile = Inr (issued, kind)"
  shows "\<exists>certs. chainDER = map CertDER certs \<and> certs \<noteq> [] \<and> links_ok certs
    \<and> sorted_wrt (\<lambda>child parent. xc_NotAfter child \<le> xc_NotAfter parent) certs
    \<and> (\<forall>i < length certs. xc_IsCA (certs ! i) \<and> KUCertSign \<in> set (xc_KeyUsage (certs ! i))
         \<and> xc_NotBefore (certs ! i) \<le> xe_clock env i \<and> xe_clock env i \<le> xc_NotAfter (certs ! i))
    \<and> xc_PublicKey (hd certs) = signerPublic \<and> verifyImportedProfile (hd certs) profile = None
    \<and> ih_Certificate issued = hd certs
    \<and> (kind = ''root'' \<longleftrightarrow> length certs = 1)"
proof -
  obtain certs where c: "usable_certs (xe_clock env) chainDER = Inr certs" "chainDER \<noteq> []"
    "xc_PublicKey (hd certs) = signerPublic" "verifyImportedProfile (hd certs) profile = None"
    "check_links certs = None" "issued = hierarchyResultFromCert (hd certs)"
    "kind = (if length certs = 1 then ''root'' else ''intermediate'')"
    using assms by (auto simp: VerifyImportedCAChain_def Let_def split: if_splits sum.splits option.splits)
  note u = usable_certs_sound [OF c(1)]
  with c(2) have ne: "certs \<noteq> []" by auto
  have "\<forall>i < length certs. xc_IsCA (certs ! i) \<and> KUCertSign \<in> set (xc_KeyUsage (certs ! i))
         \<and> xc_NotBefore (certs ! i) \<le> xe_clock env i \<and> xe_clock env i \<le> xc_NotAfter (certs ! i)"
    using u by (simp add: verifyCAUsable_None)
  with u ne c(3-7) check_links_sound [OF c(5) ne] show ?thesis
    by (intro exI [of _ certs] conjI) (simp_all add: hierarchyResultFromCert_def)
qed

definition demo_import :: "hca_error + IssuedHierarchyCA \<times> string" where
  "demo_import = VerifyImportedCAChain (demo_x509 [] 0) (map CertDER (ca_chain demo_intermediate)) ''sub-key''
     (demo_ca_spec ''Sub'' 0)"

theorem imported_chain_sound_witness:
  "\<exists>issued. demo_import = Inr (issued, ''intermediate'') \<and> xc_PublicKey (ih_Certificate issued) = ''sub-key''"
proof -
  have "is_ok demo_import" by code_simp
  then obtain issued kind where i: "demo_import = Inr (issued, kind)" by (auto simp: is_ok_iff)
  have "snd (projr demo_import) = ''intermediate''" by code_simp
  with i have "kind = ''intermediate''" by (metis snd_conv sum.sel(2))
  with imported_chain_sound [OF i [unfolded demo_import_def]] i show ?thesis by auto
qed

subsection \<open>Intermediates of the signer-backed CA\<close>

lemma signHierarchyCA_shape:
  assumes "signHierarchyCA env signer pub issuer profile = Inr h"
  obtains cert ekus where "ih_Certificate h = cert" "xc_PublicKey cert = pub"
    "CheckSignatureFrom cert (case issuer of None \<Rightarrow> cert | Some p \<Rightarrow> p)"
    "xc_MaxPathLen cert = path_len_of (cs_MaxPathLen profile)" "xc_MaxPathLenZero cert = (cs_MaxPathLen profile = 0)"
    "xc_PermittedDNSDomains cert = cs_PermittedDNSDomains profile"
    "xc_NotAfter cert = trunc_second (xe_clock env 2 + cs_TTL profile)" "xc_IsCA cert"
    "ih_MaxPathLen h = cs_MaxPathLen profile" "ih_NotAfter h = xc_NotAfter cert" "ih_Serial h = hex_text (xc_SerialNumber cert)"
    "ih_PermittedDNSDomains h = cs_PermittedDNSDomains profile" "ih_EKUs h = cs_EKUs profile"
    "caExtKeyUsage (cs_EKUs profile) = Inr ekus" "xc_ExtKeyUsage cert = fst ekus"
    "xc_BasicConstraintsValid cert" "KUCertSign \<in> set (xc_KeyUsage cert)" "xc_Subject cert = cs_CommonName profile"
proof -
  obtain serial ski ekus d cert tmpl where *: "caExtKeyUsage (cs_EKUs profile) = Inr ekus"
    "tmpl = hierarchy_template env profile serial ski ekus (case issuer of None \<Rightarrow> ski | Some p \<Rightarrow> xc_SubjectKeyId p)"
    "CreateCertificate env tmpl (case issuer of None \<Rightarrow> tmpl | Some p \<Rightarrow> p) pub signer = Some d"
    "ParseCertificate d = Some cert" "CheckSignatureFrom cert (case issuer of None \<Rightarrow> cert | Some p \<Rightarrow> p)"
    "ih_Certificate h = cert" "ih_MaxPathLen h = cs_MaxPathLen profile" "ih_NotAfter h = xc_NotAfter cert"
    "ih_PermittedDNSDomains h = cs_PermittedDNSDomains profile" "ih_EKUs h = cs_EKUs profile"
    "ih_Serial h = hex_text (xc_SerialNumber cert)"
    using assms unfolding signHierarchyCA_def Let_def
    by (auto split: if_splits option.splits sum.splits simp del: ParseCertificate.simps)
  show thesis
    by (rule CreateCertificate_shape [OF *(3)], rule that [of cert ekus])
      (use * in \<open>auto simp: hierarchy_template_def Let_def x509_zero_def path_len_of_def\<close>)
qed

lemma intermediate_profile_fields:
  "has_path_len parent \<Longrightarrow> xc_MaxPathLen parent > 0 \<Longrightarrow>
     0 \<le> cs_MaxPathLen (intermediate_profile env parent profile)
     \<and> cs_MaxPathLen (intermediate_profile env parent profile) < xc_MaxPathLen parent"
  "xe_clock env 0 + cs_TTL (intermediate_profile env parent profile) \<le> xc_NotAfter parent
     \<or> cs_TTL (intermediate_profile env parent profile) = xc_NotAfter parent - xe_clock env 1"
  by (auto simp: intermediate_profile_def Let_def)

text \<open>
  An intermediate signed by the signer-backed CA stays below its parent: it verifies under the parent,
  its path length is strictly smaller when the parent's is bounded, and - when the clock advances by less
  than a second while it is signed, and the parent's expiry is a whole second as every encoded time is -
  it does not outlive the parent.
\<close>

theorem intermediate_within_parent:
  assumes "SignIntermediateHierarchyCA env (CertDER parent) signer pub profile = Inr h"
    and "trunc_second (xc_NotAfter parent) = xc_NotAfter parent"
    and "xe_clock env 2 < xe_clock env 1 + second" and "xe_clock env 2 < xe_clock env 0 + second"
    and "xc_MaxPathLenZero parent = (xc_MaxPathLen parent = 0)"
  shows "CheckSignatureFrom (ih_Certificate h) parent \<and> xc_NotAfter (ih_Certificate h) \<le> xc_NotAfter parent
    \<and> (has_path_len parent \<longrightarrow> has_path_len (ih_Certificate h)
         \<and> 0 \<le> xc_MaxPathLen (ih_Certificate h) \<and> xc_MaxPathLen (ih_Certificate h) < xc_MaxPathLen parent)
    \<and> verifyChildPathLen parent (ih_Certificate h) = None"
proof -
  let ?p = "intermediate_profile env parent profile"
  have sign: "signHierarchyCA env signer pub (Some parent) ?p = Inr h" and ex: "\<not> (has_path_len parent \<and> xc_MaxPathLen parent = 0)"
    using assms(1) by (auto simp: SignIntermediateHierarchyCA_def split: if_splits)
  show ?thesis
  proof (rule signHierarchyCA_shape [OF sign])
    fix cert ekus
    assume *: "ih_Certificate h = cert" "CheckSignatureFrom cert (case Some parent of None \<Rightarrow> cert | Some p \<Rightarrow> p)"
      "xc_MaxPathLen cert = path_len_of (cs_MaxPathLen ?p)" "xc_MaxPathLenZero cert = (cs_MaxPathLen ?p = 0)"
      "xc_NotAfter cert = trunc_second (xe_clock env 2 + cs_TTL ?p)"
    have "xe_clock env 2 + cs_TTL ?p < xc_NotAfter parent + second"
      using intermediate_profile_fields(2) [of env parent profile] assms(3,4) by linarith
    then have "xe_clock env 2 + cs_TTL ?p \<le> xc_NotAfter parent + (second - 1)" by simp
    then have "trunc_second (xe_clock env 2 + cs_TTL ?p) \<le> trunc_second (xc_NotAfter parent + (second - 1))"
      by (rule trunc_second_mono)
    also have "\<dots> = xc_NotAfter parent"
      by (rule trunc_second_add [OF assms(2)]) simp_all
    finally have "xc_NotAfter cert \<le> xc_NotAfter parent" using *(5) by simp
    moreover have "has_path_len parent \<Longrightarrow> has_path_len cert \<and> 0 \<le> xc_MaxPathLen cert \<and> xc_MaxPathLen cert < xc_MaxPathLen parent"
      using intermediate_profile_fields(1) [of parent env profile] ex *(3,4) assms(5)
      by (auto simp: has_path_len_def path_len_of_def)
    ultimately show ?thesis using * ex by (auto simp: verifyChildPathLen_def)
  qed
qed

definition demo_served_child :: "(nat \<Rightarrow> gotime) \<Rightarrow> hca_error + IssuedHierarchyCA" where
  "demo_served_child clock = SignIntermediateHierarchyCA ((demo_x509 [] 11)\<lparr>xe_clock := clock\<rparr>) (CertDER (ca_cert demo_root))
     (honest_signer ''root-key'') ''sub-key'' ((demo_ca_spec ''Sub'' 0)\<lparr>cs_TTL := 20 * 365 * 24 * hour\<rparr>)"

theorem intermediate_within_parent_witness:
  "\<exists>h. demo_served_child (\<lambda>_. 100 * 365 * 24 * hour) = Inr h
     \<and> xc_NotAfter (ih_Certificate h) \<le> xc_NotAfter (ca_cert demo_root)"
proof -
  let ?r = "demo_served_child (\<lambda>_. 100 * 365 * 24 * hour)"
  have "is_ok ?r" by code_simp
  then obtain h where h: "?r = Inr h" by (auto simp: is_ok_iff)
  have 1: "trunc_second (xc_NotAfter (ca_cert demo_root)) = xc_NotAfter (ca_cert demo_root)" by code_simp
  have 2: "xc_MaxPathLenZero (ca_cert demo_root) = (xc_MaxPathLen (ca_cert demo_root) = 0)" by code_simp
  from intermediate_within_parent [OF h [unfolded demo_served_child_def] 1 _ _ 2] h show ?thesis by simp
qed

text \<open>
  The three readings of the clock are independent: when a second or more passes between the reading that
  shortens the lifetime and the one that stamps the certificate, the intermediate outlives its parent.
\<close>

theorem slow_signing_outlives_parent:
  "\<exists>h. demo_served_child (\<lambda>i. 100 * 365 * 24 * hour + (if i = 2 then second else 0)) = Inr h
     \<and> xc_NotAfter (ih_Certificate h) = xc_NotAfter (ca_cert demo_root) + second"
proof -
  let ?r = "demo_served_child (\<lambda>i. 100 * 365 * 24 * hour + (if i = 2 then second else 0))"
  have "is_ok ?r" by code_simp
  moreover have "xc_NotAfter (ih_Certificate (projr ?r)) = xc_NotAfter (ca_cert demo_root) + second" by code_simp
  ultimately show ?thesis by (auto simp: is_ok_iff)
qed

subsection \<open>Serial numbers as text\<close>

text \<open>\<^verbatim>\<open>big.Int.SetString(s, 16)\<close> on unsigned text.\<close>

definition hex_val :: "char \<Rightarrow> nat option" where
  "hex_val c = (let n = (of_char c :: nat)
     in if 48 \<le> n \<and> n \<le> 57 then Some (n - 48)
        else if 97 \<le> n \<and> n \<le> 102 then Some (n - 87)
        else if 65 \<le> n \<and> n \<le> 70 then Some (n - 55) else None)"

fun hex_digits_val :: "nat \<Rightarrow> string \<Rightarrow> nat option" where
  "hex_digits_val acc [] = Some acc"
| "hex_digits_val acc (c # cs) = (case hex_val c of None \<Rightarrow> None | Some d \<Rightarrow> hex_digits_val (16 * acc + d) cs)"

definition parse_hex :: "string \<Rightarrow> nat option" where
  "parse_hex s = (if s = [] then None else hex_digits_val 0 s)"

lemma hex_val_digit: "d < 16 \<Longrightarrow> hex_val (hex_digit d) = Some d"
  by (auto simp: hex_val_def hex_digit_def Let_def)

lemma hex_digits_val_append:
  "hex_digits_val acc (xs @ ys) = Option.bind (hex_digits_val acc xs) (\<lambda>a. hex_digits_val a ys)"
  by (induction xs arbitrary: acc) (auto split: option.split)

lemma parse_hex_text: "parse_hex (hex_text n) = Some n"
proof -
  have "hex_digits_val 0 (hex_text n) = Some n"
  proof (induction n rule: hex_text.induct)
    case (1 n)
    then show ?case by (subst hex_text.simps) (auto simp: hex_digits_val_append hex_val_digit)
  qed
  moreover have "hex_text n \<noteq> []" by (subst hex_text.simps) simp
  ultimately show ?thesis by (simp add: parse_hex_def)
qed

lemma hex_text_inject: "hex_text m = hex_text n \<longleftrightarrow> m = n"
  using parse_hex_text by (metis option.inject)

end
