(* ===== verification/CaStore.thy ===== *)
theory CaStore
  imports CaCrypto "HOL-Library.Product_Lexorder"
begin

text \<open>
  The tables behind the certificate authorities and the projection that fills them: CA authorities and
  key ceremonies (\<^verbatim>\<open>internal/store/ca.go\<close>), issued serials and published CRLs
  (\<^verbatim>\<open>internal/store/revocation.go\<close>), the event log (\<^verbatim>\<open>internal/events/events.go\<close>) and the CA cases of the
  projector with its catch-up and its rebuild (\<^verbatim>\<open>internal/projections/projections.go\<close>).

  A table is the list of its rows in the order they were inserted; a transaction is a function from
  tables to an error or new tables, so that an error leaves the tables as they were. The key and
  foreign-key constraints the migrations declare are checked where a row is written. Row-level security
  restricts every statement to the tenant it names, which the conditions below spell out.
\<close>

section \<open>Rows\<close>

record CAAuthority =
  au_ID :: string
  au_TenantID :: string
  au_ParentID :: "string option"
  au_CommonName :: string
  au_Kind :: string
  au_Status :: string
  au_CertificatePEM :: "x509_Certificate list"
  au_SignerHandle :: string
  au_Serial :: string
  au_NotAfter :: "gotime option"
  au_MaxPathLen :: int
  au_PermittedDNSNames :: "string list"
  au_EKUs :: "string list"
  au_ReplacesID :: "string option"
  au_CreatedAt :: gotime

record KeyCeremony =
  kc_ID :: string
  kc_TenantID :: string
  kc_Purpose :: string
  kc_Threshold :: int
  kc_Status :: string
  kc_Opener :: string
  kc_CreatedAt :: gotime

record ceremony_approval =
  ap_TenantID :: string
  ap_CeremonyID :: string
  ap_Custodian :: string
  ap_ApprovedAt :: gotime
  ap_EventID :: "string option"
  ap_EventSequence :: "nat option"

record IssuedCert =
  ic_TenantID :: string
  ic_CAID :: string
  ic_Serial :: string
  ic_IssuedAt :: gotime
  ic_RevokedAt :: "gotime option"
  ic_ReasonCode :: int

definition Revoked :: "IssuedCert \<Rightarrow> bool" where
  "Revoked c = (ic_RevokedAt c \<noteq> None)"

text \<open>The content of a CRL, and its row. The row's bytes are the content they encode; \<open>None\<close> is no bytes.\<close>

record CRLContent =
  cl_Number :: int
  cl_ThisUpdate :: gotime
  cl_NextUpdate :: gotime
  cl_Entries :: "(int \<times> gotime \<times> int) list"
  cl_DeltaBase :: "int option"
  cl_SignedBy :: public_key

record CRL =
  crl_TenantID :: string
  crl_CAID :: string
  crl_Number :: int
  crl_DER :: "CRLContent option"
  crl_ThisUpdate :: gotime
  crl_NextUpdate :: gotime
  crl_CreatedAt :: gotime
  crl_Kind :: string
  crl_ShardIndex :: int
  crl_ShardCount :: int
  crl_DeltaBaseNumber :: "int option"
  crl_ParentNumber :: "int option"
  crl_RevokedCount :: int

record OCSPResponder =
  or_TenantID :: string
  or_CAID :: string
  or_Serial :: string
  or_CertDER :: "der option"
  or_NotBefore :: gotime
  or_NotAfter :: gotime
  or_RotatedFromSerial :: string
  or_CreatedAt :: gotime

record ca_db =
  db_authorities :: "CAAuthority list"
  db_ceremonies :: "KeyCeremony list"
  db_approvals :: "ceremony_approval list"
  db_issued :: "IssuedCert list"
  db_crls :: "CRL list"
  db_responders :: "OCSPResponder list"
  db_checkpoint :: nat

definition empty_ca_db :: ca_db where
  "empty_ca_db = \<lparr>db_authorities = [], db_ceremonies = [], db_approvals = [], db_issued = [], db_crls = [],
     db_responders = [], db_checkpoint = 0\<rparr>"

datatype store_error =
    NoRows | AnonymousApproval | SelfApproval | KeyCeremonyNotPending | KeyCeremonyPurposeMismatch
  | KeyCeremonyQuorumNotMet int int | EvidenceRequired | InvalidReasonCode int
  | UniqueViolation | ForeignKeyViolation | NotNullViolation
  | EventSchemaUnknown string int nat | EventDecodeFailed string | EventFieldsMissing string

section \<open>Authorities (store/ca.go)\<close>

definition same_row :: "string \<Rightarrow> string \<Rightarrow> CAAuthority \<Rightarrow> bool" where
  "same_row tn i a = (au_TenantID a = tn \<and> au_ID a = i)"

definition GetCAAuthority :: "ca_db \<Rightarrow> string \<Rightarrow> string \<Rightarrow> CAAuthority option" where
  "GetCAAuthority db tn i = List.find (same_row tn i) (db_authorities db)"

definition fk_ok :: "ca_db \<Rightarrow> string \<Rightarrow> string option \<Rightarrow> bool" where
  "fk_ok db tn ref = (case ref of None \<Rightarrow> True | Some i \<Rightarrow> list_ex (same_row tn i) (db_authorities db))"

definition handle_taken :: "ca_db \<Rightarrow> string \<Rightarrow> string \<Rightarrow> bool" where
  "handle_taken db tn h = (h \<noteq> '''' \<and> list_ex (\<lambda>a. au_TenantID a = tn \<and> au_SignerHandle a = h) (db_authorities db))"

definition insert_authority :: "CAAuthority \<Rightarrow> ca_db \<Rightarrow> store_error + ca_db" where
  "insert_authority c db =
     (if au_Serial c = '''' then Inl NotNullViolation
      else if list_ex (\<lambda>a. au_ID a = au_ID c) (db_authorities db) then Inl UniqueViolation
      else if handle_taken db (au_TenantID c) (au_SignerHandle c) then Inl UniqueViolation
      else if \<not> fk_ok db (au_TenantID c) (au_ParentID c) \<or> \<not> fk_ok db (au_TenantID c) (au_ReplacesID c)
      then Inl ForeignKeyViolation
      else Inr (db\<lparr>db_authorities := db_authorities db @ [c]\<rparr>))"

text \<open>\<open>fresh\<close> is the id PostgreSQL generates and \<open>now\<close> its \<^verbatim>\<open>created_at\<close> default.\<close>

definition InsertCAAuthorityTx :: "string \<Rightarrow> gotime \<Rightarrow> CAAuthority \<Rightarrow> ca_db \<Rightarrow> store_error + (ca_db \<times> CAAuthority)" where
  "InsertCAAuthorityTx fresh now c db =
     (let row = c\<lparr>au_ID := fresh, au_CreatedAt := now,
                   au_Status := (if au_Status c = '''' then ''active'' else au_Status c)\<rparr>
      in case insert_authority row db of Inl e \<Rightarrow> Inl e | Inr db1 \<Rightarrow> Inr (db1, row))"

definition ListCAAuthorities :: "ca_db \<Rightarrow> string \<Rightarrow> CAAuthority list" where
  "ListCAAuthorities db tn =
     sort_key (\<lambda>a. (au_CreatedAt a, au_ID a)) (filter (\<lambda>a. au_TenantID a = tn) (db_authorities db))"

definition FindActiveCAAuthoritySuccessor :: "ca_db \<Rightarrow> string \<Rightarrow> string \<Rightarrow> CAAuthority option" where
  "FindActiveCAAuthoritySuccessor db tn replaces =
     (case rev (sort_key (\<lambda>a. (au_CreatedAt a, au_ID a))
                  (filter (\<lambda>a. au_TenantID a = tn \<and> au_ReplacesID a = Some replaces \<and> au_Status a = ''active'')
                     (db_authorities db))) of
        [] \<Rightarrow> None
      | a # _ \<Rightarrow> Some a)"

definition update_authority :: "string \<Rightarrow> string \<Rightarrow> (CAAuthority \<Rightarrow> CAAuthority) \<Rightarrow> ca_db \<Rightarrow> ca_db" where
  "update_authority tn i f db =
     db\<lparr>db_authorities := map (\<lambda>a. if same_row tn i a then f a else a) (db_authorities db)\<rparr>"

definition SupersedeCAAuthorityTx :: "string \<Rightarrow> string \<Rightarrow> ca_db \<Rightarrow> store_error + ca_db" where
  "SupersedeCAAuthorityTx tn i db =
     (if GetCAAuthority db tn i = None then Inl NoRows
      else Inr (update_authority tn i (\<lambda>a. a\<lparr>au_Status := ''superseded''\<rparr>) db))"

definition ApplyCAAuthorityRotatedTx :: "string \<Rightarrow> string \<Rightarrow> string \<Rightarrow> ca_db \<Rightarrow> store_error + ca_db" where
  "ApplyCAAuthorityRotatedTx tn predecessor successor db =
     (case SupersedeCAAuthorityTx tn predecessor db of
        Inl e \<Rightarrow> Inl e
      | Inr db1 \<Rightarrow>
          if GetCAAuthority db1 tn successor = None then Inl NoRows
          else Inr (update_authority tn successor (\<lambda>a. a\<lparr>au_ReplacesID := Some predecessor\<rparr>) db1))"

text \<open>The insert of a re-keyed successor overwrites a row of the same tenant that already has its id.\<close>

definition rekeyed_row :: "gotime \<Rightarrow> CAAuthority \<Rightarrow> string \<Rightarrow> CAAuthority" where
  "rekeyed_row now successor predecessor =
     successor\<lparr>au_Status := (if au_Status successor = '''' then ''active'' else au_Status successor),
                au_CreatedAt := (if au_CreatedAt successor = 0 then now else au_CreatedAt successor),
                au_ReplacesID := (if au_ReplacesID successor = None then Some predecessor
                                  else au_ReplacesID successor)\<rparr>"

definition ApplyCAAuthorityRekeyedTx :: "gotime \<Rightarrow> CAAuthority \<Rightarrow> string \<Rightarrow> ca_db \<Rightarrow> store_error + ca_db" where
  "ApplyCAAuthorityRekeyedTx now successor predecessor db =
     (let tn = au_TenantID successor; row = rekeyed_row now successor predecessor
      in case SupersedeCAAuthorityTx tn predecessor db of
           Inl e \<Rightarrow> Inl e
         | Inr db1 \<Rightarrow>
             (if list_ex (\<lambda>a. au_ID a = au_ID row) (db_authorities db1)
              then (if GetCAAuthority db1 tn (au_ID row) = None then Inl NoRows
                    else Inr (update_authority tn (au_ID row) (\<lambda>_. row) db1))
              else insert_authority row db1))"

section \<open>Key ceremonies (store/ca.go)\<close>

definition ceremony_row :: "ca_db \<Rightarrow> string \<Rightarrow> string \<Rightarrow> KeyCeremony option" where
  "ceremony_row db tn i = List.find (\<lambda>c. kc_TenantID c = tn \<and> kc_ID c = i) (db_ceremonies db)"

definition evidenced :: "string \<Rightarrow> string \<Rightarrow> ceremony_approval \<Rightarrow> bool" where
  "evidenced tn i a = (ap_TenantID a = tn \<and> ap_CeremonyID a = i \<and> ap_EventID a \<noteq> None)"

definition approval_count :: "ca_db \<Rightarrow> string \<Rightarrow> string \<Rightarrow> int" where
  "approval_count db tn i = int (length (filter (evidenced tn i) (db_approvals db)))"

text \<open>A ceremony with its count of evidenced approvals.\<close>

definition GetKeyCeremony :: "ca_db \<Rightarrow> string \<Rightarrow> string \<Rightarrow> (KeyCeremony \<times> int) option" where
  "GetKeyCeremony db tn i = map_option (\<lambda>c. (c, approval_count db tn i)) (ceremony_row db tn i)"

definition CreateKeyCeremony :: "string \<Rightarrow> gotime \<Rightarrow> string \<Rightarrow> string \<Rightarrow> string \<Rightarrow> int \<Rightarrow> ca_db \<Rightarrow> store_error + ca_db" where
  "CreateKeyCeremony fresh now tn purpose opener threshold db =
     (if list_ex (\<lambda>c. kc_ID c = fresh) (db_ceremonies db) then Inl UniqueViolation
      else Inr (db\<lparr>db_ceremonies := db_ceremonies db @
                    [\<lparr>kc_ID = fresh, kc_TenantID = tn, kc_Purpose = purpose, kc_Threshold = threshold,
                      kc_Status = ''pending'', kc_Opener = opener, kc_CreatedAt = now\<rparr>]\<rparr>))"

definition ApplyKeyCeremonyStartedTx :: "gotime \<Rightarrow> KeyCeremony \<Rightarrow> ca_db \<Rightarrow> ca_db" where
  "ApplyKeyCeremonyStartedTx now c db =
     (let row = c\<lparr>kc_CreatedAt := (if kc_CreatedAt c = 0 then now else kc_CreatedAt c),
                   kc_Status := (if kc_Status c = '''' then ''pending'' else kc_Status c)\<rparr>
      in if list_ex (\<lambda>x. kc_ID x = kc_ID c) (db_ceremonies db) then db
         else db\<lparr>db_ceremonies := db_ceremonies db @ [row]\<rparr>)"

definition approval_key :: "ceremony_approval \<Rightarrow> string \<times> string \<times> string" where
  "approval_key a = (ap_TenantID a, ap_CeremonyID a, ap_Custodian a)"

definition find_approval :: "ca_db \<Rightarrow> string \<times> string \<times> string \<Rightarrow> ceremony_approval option" where
  "find_approval db k = List.find (\<lambda>a. approval_key a = k) (db_approvals db)"

definition KeyCeremonyApprovalEvidenced :: "ca_db \<Rightarrow> string \<Rightarrow> string \<Rightarrow> string \<Rightarrow> bool" where
  "KeyCeremonyApprovalEvidenced db tn i custodian =
     list_ex (\<lambda>a. approval_key a = (tn, i, custodian) \<and> ap_EventID a \<noteq> None) (db_approvals db)"

definition coalesce :: "'a option \<Rightarrow> 'a option \<Rightarrow> 'a option" where
  "coalesce a b = (case a of None \<Rightarrow> b | Some x \<Rightarrow> Some x)"

definition put_approval :: "ceremony_approval \<Rightarrow> ca_db \<Rightarrow> ca_db" where
  "put_approval r db =
     (if find_approval db (approval_key r) = None then db\<lparr>db_approvals := db_approvals db @ [r]\<rparr>
      else db\<lparr>db_approvals :=
                map (\<lambda>a. if approval_key a = approval_key r
                         then a\<lparr>ap_EventID := coalesce (ap_EventID a) (ap_EventID r),
                                ap_EventSequence := coalesce (ap_EventSequence a) (ap_EventSequence r)\<rparr>
                         else a) (db_approvals db)\<rparr>)"

definition ApplyKeyCeremonyApprovedTx ::
  "gotime \<Rightarrow> string \<Rightarrow> string \<Rightarrow> string \<Rightarrow> string \<Rightarrow> nat \<Rightarrow> gotime \<Rightarrow> ca_db \<Rightarrow> store_error + ca_db" where
  "ApplyKeyCeremonyApprovedTx now tn i custodian eventID eventSequence approvedAt db =
     (if custodian = '''' then Inl AnonymousApproval
      else if eventID = '''' \<or> eventSequence = 0 then Inl EvidenceRequired
      else case ceremony_row db tn i of
             None \<Rightarrow> Inl NoRows
           | Some c \<Rightarrow>
               if kc_Status c \<noteq> ''pending''
               then (case find_approval db (tn, i, custodian) of
                       None \<Rightarrow> Inl KeyCeremonyNotPending
                     | Some a \<Rightarrow> if ap_EventID a = Some eventID \<and> ap_EventSequence a = Some eventSequence
                                 then Inr db else Inl KeyCeremonyNotPending)
               else if kc_Opener c \<noteq> '''' \<and> kc_Opener c = custodian then Inl SelfApproval
               else Inr (put_approval \<lparr>ap_TenantID = tn, ap_CeremonyID = i, ap_Custodian = custodian,
                           ap_ApprovedAt = (if approvedAt = 0 then now else approvedAt),
                           ap_EventID = Some eventID, ap_EventSequence = Some eventSequence\<rparr> db))"

definition ReserveKeyCeremonyApproval ::
  "gotime \<Rightarrow> string \<Rightarrow> string \<Rightarrow> string \<Rightarrow> ca_db \<Rightarrow> store_error + (ca_db \<times> int \<times> bool)" where
  "ReserveKeyCeremonyApproval now tn i custodian db =
     (if custodian = '''' then Inl AnonymousApproval
      else case ceremony_row db tn i of
             None \<Rightarrow> Inl NoRows
           | Some c \<Rightarrow>
               if kc_Status c \<noteq> ''pending'' then Inl KeyCeremonyNotPending
               else if kc_Opener c \<noteq> '''' \<and> kc_Opener c = custodian then Inl SelfApproval
               else (let db1 = (if find_approval db (tn, i, custodian) = None
                                then db\<lparr>db_approvals := db_approvals db @
                                         [\<lparr>ap_TenantID = tn, ap_CeremonyID = i, ap_Custodian = custodian,
                                           ap_ApprovedAt = now, ap_EventID = None, ap_EventSequence = None\<rparr>]\<rparr>
                                else db)
                     in Inr (db1, approval_count db1 tn i, \<not> KeyCeremonyApprovalEvidenced db1 tn i custodian)))"

definition AttachKeyCeremonyApprovalEvidence ::
  "string \<Rightarrow> string \<Rightarrow> string \<Rightarrow> string \<Rightarrow> nat \<Rightarrow> ca_db \<Rightarrow> store_error + (ca_db \<times> int)" where
  "AttachKeyCeremonyApprovalEvidence tn i custodian eventID eventSequence db =
     (if eventID = '''' \<or> eventSequence = 0 then Inl EvidenceRequired
      else case find_approval db (tn, i, custodian) of
             None \<Rightarrow> Inl (KeyCeremonyQuorumNotMet 0 0)
           | Some a \<Rightarrow>
               (let db1 = put_approval (a\<lparr>ap_EventID := Some eventID, ap_EventSequence := Some eventSequence\<rparr>) db
                in Inr (db1, approval_count db1 tn i)))"

definition complete_row :: "string \<Rightarrow> string \<Rightarrow> ca_db \<Rightarrow> ca_db" where
  "complete_row tn i db =
     db\<lparr>db_ceremonies := map (\<lambda>c. if kc_TenantID c = tn \<and> kc_ID c = i \<and> kc_Status c = ''pending''
                                  then c\<lparr>kc_Status := ''completed''\<rparr> else c) (db_ceremonies db)\<rparr>"

definition CompleteKeyCeremony :: "string \<Rightarrow> string \<Rightarrow> ca_db \<Rightarrow> store_error + ca_db" where
  "CompleteKeyCeremony tn i db =
     (case ceremony_row db tn i of
        None \<Rightarrow> Inl KeyCeremonyNotPending
      | Some c \<Rightarrow> if kc_Status c \<noteq> ''pending'' then Inl KeyCeremonyNotPending else Inr (complete_row tn i db))"

definition ConsumeKeyCeremonyTx :: "string \<Rightarrow> string \<Rightarrow> string \<Rightarrow> ca_db \<Rightarrow> store_error + ca_db" where
  "ConsumeKeyCeremonyTx tn i expectedPurpose db =
     (case GetKeyCeremony db tn i of
        None \<Rightarrow> Inl NoRows
      | Some (c, approvals) \<Rightarrow>
          if kc_Status c \<noteq> ''pending'' then Inl KeyCeremonyNotPending
          else if kc_Purpose c \<noteq> expectedPurpose then Inl KeyCeremonyPurposeMismatch
          else if approvals < kc_Threshold c then Inl (KeyCeremonyQuorumNotMet approvals (kc_Threshold c))
          else Inr (complete_row tn i db))"

section \<open>Issued certificates and CRLs (store/revocation.go)\<close>

definition issued_key :: "IssuedCert \<Rightarrow> string \<times> string \<times> string" where
  "issued_key c = (ic_TenantID c, ic_CAID c, ic_Serial c)"

definition find_issued :: "ca_db \<Rightarrow> string \<times> string \<times> string \<Rightarrow> IssuedCert option" where
  "find_issued db k = List.find (\<lambda>c. issued_key c = k) (db_issued db)"

definition LookupIssuedCert :: "ca_db \<Rightarrow> string \<Rightarrow> string \<Rightarrow> string \<Rightarrow> IssuedCert option" where
  "LookupIssuedCert db tn ca serial = find_issued db (tn, ca, serial)"

definition HasIssuedCerts :: "ca_db \<Rightarrow> string \<Rightarrow> string \<Rightarrow> bool" where
  "HasIssuedCerts db tn ca = list_ex (\<lambda>c. ic_TenantID c = tn \<and> ic_CAID c = ca) (db_issued db)"

definition RecordIssuedCertTx :: "string \<Rightarrow> string \<Rightarrow> string \<Rightarrow> gotime \<Rightarrow> ca_db \<Rightarrow> ca_db" where
  "RecordIssuedCertTx tn ca serial issuedAt db =
     (if find_issued db (tn, ca, serial) \<noteq> None then db
      else db\<lparr>db_issued := db_issued db @
               [\<lparr>ic_TenantID = tn, ic_CAID = ca, ic_Serial = serial, ic_IssuedAt = issuedAt,
                 ic_RevokedAt = None, ic_ReasonCode = 0\<rparr>]\<rparr>)"

text \<open>The reason codes RFC 5280 assigns (\<^verbatim>\<open>crypto.ValidRevocationReasons\<close>): 7 is not among them.\<close>

definition ValidCRLReasonCode :: "int \<Rightarrow> bool" where
  "ValidCRLReasonCode code = (code \<in> set [0, 1, 2, 3, 4, 5, 6, 8, 9, 10])"

definition RevokeIssuedCertTx :: "string \<Rightarrow> string \<Rightarrow> string \<Rightarrow> int \<Rightarrow> gotime \<Rightarrow> ca_db \<Rightarrow> store_error + ca_db" where
  "RevokeIssuedCertTx tn ca serial reasonCode at db =
     (if \<not> ValidCRLReasonCode reasonCode then Inl (InvalidReasonCode reasonCode)
      else if find_issued db (tn, ca, serial) = None
      then Inr (db\<lparr>db_issued := db_issued db @
                     [\<lparr>ic_TenantID = tn, ic_CAID = ca, ic_Serial = serial, ic_IssuedAt = at,
                       ic_RevokedAt = Some at, ic_ReasonCode = reasonCode\<rparr>]\<rparr>)
      else Inr (db\<lparr>db_issued :=
                     map (\<lambda>c. if issued_key c = (tn, ca, serial) \<and> ic_RevokedAt c = None
                              then c\<lparr>ic_RevokedAt := Some at, ic_ReasonCode := reasonCode\<rparr> else c) (db_issued db)\<rparr>))"

text \<open>A sort on \<^verbatim>\<open>revoked_at\<close>; rows that tie keep their order here, which SQL leaves open.\<close>

definition ListRevokedCerts :: "ca_db \<Rightarrow> string \<Rightarrow> string \<Rightarrow> IssuedCert list" where
  "ListRevokedCerts db tn ca =
     sort_key (\<lambda>c. case ic_RevokedAt c of None \<Rightarrow> 0 | Some t \<Rightarrow> t)
       (filter (\<lambda>c. ic_TenantID c = tn \<and> ic_CAID c = ca \<and> ic_RevokedAt c \<noteq> None) (db_issued db))"

definition crls_of :: "ca_db \<Rightarrow> string \<Rightarrow> string \<Rightarrow> CRL list" where
  "crls_of db tn ca = filter (\<lambda>c. crl_TenantID c = tn \<and> crl_CAID c = ca) (db_crls db)"

definition NextCRLNumber :: "ca_db \<Rightarrow> string \<Rightarrow> string \<Rightarrow> int" where
  "NextCRLNumber db tn ca =
     (let ns = map crl_Number (crls_of db tn ca) in (if ns = [] then 0 else foldr max (tl ns) (hd ns)) + 1)"

definition normalizeCRL :: "CRL \<Rightarrow> CRL" where
  "normalizeCRL c =
     c\<lparr>crl_Kind := (if crl_Kind c = '''' then ''full'' else crl_Kind c),
       crl_ShardCount := (if crl_ShardCount c = 0 then 1 else crl_ShardCount c)\<rparr>"

definition crl_key :: "CRL \<Rightarrow> string \<times> string \<times> int" where
  "crl_key c = (crl_TenantID c, crl_CAID c, crl_Number c)"

definition InsertCRLTx :: "gotime \<Rightarrow> CRL \<Rightarrow> ca_db \<Rightarrow> ca_db" where
  "InsertCRLTx now c db =
     (let c1 = normalizeCRL c;
          created = (if crl_CreatedAt c1 \<noteq> 0 then crl_CreatedAt c1
                     else if crl_ThisUpdate c1 \<noteq> 0 then crl_ThisUpdate c1 else now);
          row = c1\<lparr>crl_CreatedAt := created\<rparr>
      in if list_ex (\<lambda>x. crl_key x = crl_key row) (db_crls db)
         then db\<lparr>db_crls := map (\<lambda>x. if crl_key x = crl_key row then row else x) (db_crls db)\<rparr>
         else db\<lparr>db_crls := db_crls db @ [row]\<rparr>)"

definition first_desc :: "('a \<Rightarrow> 'k :: linorder) \<Rightarrow> 'a list \<Rightarrow> 'a option" where
  "first_desc key xs = (case rev (sort_key key xs) of [] \<Rightarrow> None | x # _ \<Rightarrow> Some x)"

definition LatestCRL :: "ca_db \<Rightarrow> string \<Rightarrow> string \<Rightarrow> CRL option" where
  "LatestCRL db tn ca = first_desc crl_Number (filter (\<lambda>c. crl_Kind c = ''full'') (crls_of db tn ca))"

definition LatestDeltaCRL :: "ca_db \<Rightarrow> string \<Rightarrow> string \<Rightarrow> int \<Rightarrow> CRL option" where
  "LatestDeltaCRL db tn ca base =
     first_desc crl_Number
       (filter (\<lambda>c. crl_Kind c = ''delta'' \<and> crl_DeltaBaseNumber c = Some base) (crls_of db tn ca))"

text \<open>\<^verbatim>\<open>parent_crl_number DESC NULLS LAST\<close>: an unset parent sorts below every parent.\<close>

definition LatestCRLShard :: "ca_db \<Rightarrow> string \<Rightarrow> string \<Rightarrow> int \<Rightarrow> CRL option" where
  "LatestCRLShard db tn ca shard =
     first_desc (\<lambda>c. (case crl_ParentNumber c of None \<Rightarrow> (False, 0) | Some p \<Rightarrow> (True, p), crl_Number c))
       (filter (\<lambda>c. crl_Kind c = ''shard'' \<and> crl_ShardIndex c = shard) (crls_of db tn ca))"

definition CRLDueForRegeneration :: "ca_db \<Rightarrow> string \<Rightarrow> string \<Rightarrow> gotime \<Rightarrow> duration \<Rightarrow> bool" where
  "CRLDueForRegeneration db tn ca now lead =
     (case LatestCRL db tn ca of None \<Rightarrow> True | Some c \<Rightarrow> \<not> crl_NextUpdate c > now + lead)"

text \<open>The latest full CRL and the shards and deltas that name it as their parent: the full one, the shards
  by index, then the deltas, the newest first.\<close>

definition crl_rank :: "CRL \<Rightarrow> nat" where
  "crl_rank c = (if crl_Kind c = ''full'' then 0 else if crl_Kind c = ''shard'' then 1 else 2)"

definition ListLatestCRLArtifacts :: "ca_db \<Rightarrow> string \<Rightarrow> string \<Rightarrow> CRL list" where
  "ListLatestCRLArtifacts db tn ca =
     (case LatestCRL db tn ca of
        None \<Rightarrow> []
      | Some full \<Rightarrow>
          sort_key (\<lambda>c. (crl_rank c, crl_ShardIndex c, - crl_Number c))
            (filter (\<lambda>c. crl_Number c = crl_Number full \<or> crl_ParentNumber c = Some (crl_Number full)) (crls_of db tn ca)))"

definition responder_key :: "OCSPResponder \<Rightarrow> string \<times> string" where
  "responder_key r = (or_TenantID r, or_CAID r)"

definition ActiveOCSPResponder :: "ca_db \<Rightarrow> string \<Rightarrow> string \<Rightarrow> OCSPResponder option" where
  "ActiveOCSPResponder db tn ca = List.find (\<lambda>r. responder_key r = (tn, ca)) (db_responders db)"

definition UpsertOCSPResponderTx :: "gotime \<Rightarrow> OCSPResponder \<Rightarrow> ca_db \<Rightarrow> ca_db" where
  "UpsertOCSPResponderTx now r db =
     (let row = r\<lparr>or_CreatedAt := (if or_CreatedAt r = 0 then now else or_CreatedAt r)\<rparr>
      in if list_ex (\<lambda>x. responder_key x = responder_key row) (db_responders db)
         then db\<lparr>db_responders := map (\<lambda>x. if responder_key x = responder_key row then row else x) (db_responders db)\<rparr>
         else db\<lparr>db_responders := db_responders db @ [row]\<rparr>)"

definition TenantsWithIssuedCerts :: "ca_db \<Rightarrow> string \<Rightarrow> string list" where
  "TenantsWithIssuedCerts db ca = sort (remdups (map ic_TenantID (filter (\<lambda>c. ic_CAID c = ca) (db_issued db))))"

section \<open>Events (events/events.go)\<close>

record CACertificateRevoked =
  rv_CAID :: string
  rv_Serial :: string
  rv_Reason :: int
  rv_ReasonCode :: int
  rv_RevokedAt :: gotime
  rv_Source :: string

definition revoked_code :: "CACertificateRevoked \<Rightarrow> int" where
  "revoked_code r = (if rv_ReasonCode r \<noteq> 0 then rv_ReasonCode r else rv_Reason r)"

text \<open>The payloads the projector decodes for the CA tables; \<open>OtherPayload\<close> is a body it does not read.\<close>

datatype ca_payload =
    CACeremonyStarted string string int string
  | CACeremonyApproved string string int
  | CAIssuedCertificate string string gotime string
  | RevokedPayload CACertificateRevoked
  | CRLPublished string int "CRLContent option" gotime gotime int string int int "int option" "int option"
  | OCSPResponderRotated string string "der option" gotime gotime string
  | CAAuthorityRotated string string string
  | CAAuthorityRekeyed CAAuthority string string
  | OtherPayload "(string \<times> audit_val) list"

record ca_event =
  ce_ID :: string
  ce_Type :: string
  ce_TenantID :: string
  ce_Time :: gotime
  ce_SchemaVersion :: int
  ce_Data :: ca_payload
  ce_Sequence :: nat
  ce_Actor :: "string option"

record ca_log =
  lg_events :: "ca_event list"
  lg_last :: nat

definition empty_ca_log :: ca_log where
  "empty_ca_log = \<lparr>lg_events = [], lg_last = 0\<rparr>"

text \<open>
  What an append draws from outside: the id generator, the clock, the actor of the request context, and
  whether the stream accepts the message. The fields the caller leaves at zero are filled in.
\<close>

record append_env =
  pe_id :: string
  pe_now :: gotime
  pe_actor :: "string option"
  pe_ack :: bool

datatype append_error = EventTypeRequired | EventTenantRequired | PublishFailed

definition Append_event :: "append_env \<Rightarrow> ca_event \<Rightarrow> ca_log \<Rightarrow> append_error + (ca_log \<times> ca_event)" where
  "Append_event pe e lg =
     (if ce_Type e = '''' then Inl EventTypeRequired
      else if ce_TenantID e = '''' then Inl EventTenantRequired
      else (let e1 = e\<lparr>ce_Time := (if ce_Time e = 0 then pe_now pe else ce_Time e),
                        ce_ID := (if ce_ID e = '''' then pe_id pe else ce_ID e),
                        ce_SchemaVersion := (if ce_SchemaVersion e = 0 then 1 else ce_SchemaVersion e),
                        ce_Actor := coalesce (ce_Actor e) (pe_actor pe),
                        ce_Sequence := Suc (lg_last lg)\<rparr>
            in if \<not> pe_ack pe then Inl PublishFailed
               else Inr (lg\<lparr>lg_events := lg_events lg @ [e1], lg_last := Suc (lg_last lg)\<rparr>, e1)))"

definition new_event :: "string \<Rightarrow> string \<Rightarrow> ca_payload \<Rightarrow> ca_event" where
  "new_event tn ty d = \<lparr>ce_ID = '''', ce_Type = ty, ce_TenantID = tn, ce_Time = 0, ce_SchemaVersion = 0,
     ce_Data = d, ce_Sequence = 0, ce_Actor = None\<rparr>"

definition Replay :: "ca_log \<Rightarrow> nat \<Rightarrow> ca_event list" where
  "Replay lg from = filter (\<lambda>e. ce_Sequence e \<ge> from) (lg_events lg)"

section \<open>The projector (projections.go)\<close>

definition ca_schema_versions :: "(string \<times> int list) list" where
  "ca_schema_versions =
     [(''ca.certificate.issued'', [1]), (''ca.certificate.revoked'', [1]), (''ca.ceremony.started'', [1]),
      (''ca.ceremony.approved'', [1]), (''ca.endentity.issued'', [1]), (''ca.authority.rotated'', [1]),
      (''ca.authority.rekeyed'', [1]), (''ca.crl.published'', [1, 2, 3]), (''ca.ocsp_responder.rotated'', [1])]"

definition ca_ValidateSchemaVersion :: "ca_event \<Rightarrow> store_error option" where
  "ca_ValidateSchemaVersion e =
     (case map_of ca_schema_versions (ce_Type e) of
        None \<Rightarrow> None
      | Some vs \<Rightarrow>
          (let v = (if ce_SchemaVersion e = 0 then 1 else ce_SchemaVersion e)
           in if v \<in> set vs then None else Some (EventSchemaUnknown (ce_Type e) v (ce_Sequence e))))"

definition orZero :: "gotime \<Rightarrow> gotime \<Rightarrow> gotime" where
  "orZero t d = (if t = 0 then d else t)"

text \<open>One function per case of the dispatch; \<open>now\<close> is the clock a store writer may fall back to.\<close>

definition project_issued :: "ca_event \<Rightarrow> ca_db \<Rightarrow> store_error + ca_db" where
  "project_issued e db =
     (case ce_Data e of
        CAIssuedCertificate ca serial issuedAt _ \<Rightarrow>
          if ca = '''' \<or> serial = '''' then Inl (EventFieldsMissing (ce_Type e))
          else Inr (RecordIssuedCertTx (ce_TenantID e) ca serial (orZero issuedAt (ce_Time e)) db)
      | _ \<Rightarrow> Inl (EventDecodeFailed (ce_Type e)))"

definition project_revoked :: "ca_event \<Rightarrow> ca_db \<Rightarrow> store_error + ca_db" where
  "project_revoked e db =
     (case ce_Data e of
        RevokedPayload pl \<Rightarrow>
          if rv_CAID pl = '''' \<or> rv_Serial pl = '''' then Inl (EventFieldsMissing (ce_Type e))
          else RevokeIssuedCertTx (ce_TenantID e) (rv_CAID pl) (rv_Serial pl) (revoked_code pl)
                 (orZero (rv_RevokedAt pl) (ce_Time e)) db
      | _ \<Rightarrow> Inl (EventDecodeFailed (ce_Type e)))"

definition project_started :: "gotime \<Rightarrow> ca_event \<Rightarrow> ca_db \<Rightarrow> store_error + ca_db" where
  "project_started now e db =
     (case ce_Data e of
        CACeremonyStarted i purpose threshold opener \<Rightarrow>
          if i = '''' \<or> purpose = '''' \<or> threshold < 1 then Inl (EventFieldsMissing (ce_Type e))
          else Inr (ApplyKeyCeremonyStartedTx now
                      \<lparr>kc_ID = i, kc_TenantID = ce_TenantID e, kc_Purpose = purpose, kc_Threshold = threshold,
                       kc_Status = ''pending'', kc_Opener = opener, kc_CreatedAt = ce_Time e\<rparr> db)
      | _ \<Rightarrow> Inl (EventDecodeFailed (ce_Type e)))"

definition project_approved :: "gotime \<Rightarrow> ca_event \<Rightarrow> ca_db \<Rightarrow> store_error + ca_db" where
  "project_approved now e db =
     (case ce_Data e of
        CACeremonyApproved i custodian _ \<Rightarrow>
          if i = '''' \<or> custodian = '''' then Inl (EventFieldsMissing (ce_Type e))
          else ApplyKeyCeremonyApprovedTx now (ce_TenantID e) i custodian (ce_ID e) (ce_Sequence e) (ce_Time e) db
      | _ \<Rightarrow> Inl (EventDecodeFailed (ce_Type e)))"

definition project_rotated :: "ca_event \<Rightarrow> ca_db \<Rightarrow> store_error + ca_db" where
  "project_rotated e db =
     (case ce_Data e of
        CAAuthorityRotated predecessor successor _ \<Rightarrow>
          if predecessor = '''' \<or> successor = '''' then Inl (EventFieldsMissing (ce_Type e))
          else ApplyCAAuthorityRotatedTx (ce_TenantID e) predecessor successor db
      | _ \<Rightarrow> Inl (EventDecodeFailed (ce_Type e)))"

definition project_rekeyed :: "gotime \<Rightarrow> ca_event \<Rightarrow> ca_db \<Rightarrow> store_error + ca_db" where
  "project_rekeyed now e db =
     (case ce_Data e of
        CAAuthorityRekeyed a predecessor _ \<Rightarrow>
          if au_ID a = '''' \<or> predecessor = '''' \<or> au_CommonName a = '''' \<or> au_Kind a = '''' \<or> au_CertificatePEM a = []
             \<or> au_SignerHandle a = '''' \<or> au_Serial a = '''' \<or> au_NotAfter a = None \<or> au_NotAfter a = Some 0
          then Inl (EventFieldsMissing (ce_Type e))
          else ApplyCAAuthorityRekeyedTx now
                 (a\<lparr>au_TenantID := ce_TenantID e, au_Status := ''active'', au_ReplacesID := None, au_CreatedAt := ce_Time e\<rparr>)
                 predecessor db
      | _ \<Rightarrow> Inl (EventDecodeFailed (ce_Type e)))"

definition project_crl :: "gotime \<Rightarrow> ca_event \<Rightarrow> ca_db \<Rightarrow> store_error + ca_db" where
  "project_crl now e db =
     (case ce_Data e of
        CRLPublished ca number content thisUpdate nextUpdate revoked kind shard shards base parent \<Rightarrow>
          if (ce_SchemaVersion e = 0 \<or> ce_SchemaVersion e = 1) \<and> content = None then Inr db
          else if ca = '''' \<or> number = 0 \<or> content = None then Inl (EventFieldsMissing (ce_Type e))
          else if nextUpdate = 0 then Inl (EventFieldsMissing (ce_Type e))
          else Inr (InsertCRLTx now
                      \<lparr>crl_TenantID = ce_TenantID e, crl_CAID = ca, crl_Number = number, crl_DER = content,
                       crl_ThisUpdate = orZero thisUpdate (ce_Time e), crl_NextUpdate = nextUpdate,
                       crl_CreatedAt = ce_Time e, crl_Kind = kind, crl_ShardIndex = shard, crl_ShardCount = shards,
                       crl_DeltaBaseNumber = base, crl_ParentNumber = parent, crl_RevokedCount = revoked\<rparr> db)
      | _ \<Rightarrow> Inl (EventDecodeFailed (ce_Type e)))"

definition project_responder :: "gotime \<Rightarrow> ca_event \<Rightarrow> ca_db \<Rightarrow> store_error + ca_db" where
  "project_responder now e db =
     (case ce_Data e of
        OCSPResponderRotated ca serial cert notBefore notAfter from \<Rightarrow>
          if ca = '''' \<or> serial = '''' \<or> cert = None \<or> notAfter = 0 then Inl (EventFieldsMissing (ce_Type e))
          else Inr (UpsertOCSPResponderTx now
                      \<lparr>or_TenantID = ce_TenantID e, or_CAID = ca, or_Serial = serial, or_CertDER = cert,
                       or_NotBefore = orZero notBefore (ce_Time e), or_NotAfter = notAfter,
                       or_RotatedFromSerial = from, or_CreatedAt = ce_Time e\<rparr> db)
      | _ \<Rightarrow> Inl (EventDecodeFailed (ce_Type e)))"

definition ca_ApplyTx :: "gotime \<Rightarrow> ca_event \<Rightarrow> ca_db \<Rightarrow> store_error + ca_db" where
  "ca_ApplyTx now e db =
     (case ca_ValidateSchemaVersion e of
        Some err \<Rightarrow> Inl err
      | None \<Rightarrow>
          (let ty = ce_Type e
           in if ty = ''ca.certificate.issued'' \<or> ty = ''ca.endentity.issued'' then project_issued e db
              else if ty = ''ca.certificate.revoked'' then project_revoked e db
              else if ty = ''ca.ceremony.started'' then project_started now e db
              else if ty = ''ca.ceremony.approved'' then project_approved now e db
              else if ty = ''ca.authority.rotated'' then project_rotated e db
              else if ty = ''ca.authority.rekeyed'' then project_rekeyed now e db
              else if ty = ''ca.crl.published'' then project_crl now e db
              else if ty = ''ca.ocsp_responder.rotated'' then project_responder now e db
              else Inr db))"

text \<open>
  Catch-up applies, each in its own transaction, the events after the checkpoint, moving the checkpoint
  every 256 events and at the end; it stops at the first event that fails. A rebuild empties the tables
  that are projections and applies every event in one transaction. The authorities are not among the
  tables it empties. \<open>clock\<close> gives the time of each application.
\<close>

definition AdvanceProjectionCheckpoint :: "nat \<Rightarrow> ca_db \<Rightarrow> ca_db" where
  "AdvanceProjectionCheckpoint n db = db\<lparr>db_checkpoint := max (db_checkpoint db) n\<rparr>"

fun catch_up_loop :: "(nat \<Rightarrow> gotime) \<Rightarrow> ca_event list \<Rightarrow> nat \<Rightarrow> ca_db \<Rightarrow> ca_db \<times> store_error option" where
  "catch_up_loop clock [] since db = (db, None)"
| "catch_up_loop clock (e # es) since db =
     (case ca_ApplyTx (clock (ce_Sequence e)) e db of
        Inl err \<Rightarrow> (db, Some err)
      | Inr db1 \<Rightarrow>
          if Suc since \<ge> 256
          then catch_up_loop clock es 0 (AdvanceProjectionCheckpoint (ce_Sequence e) db1)
          else catch_up_loop clock es (Suc since) db1)"

definition ProjectCatchUp :: "(nat \<Rightarrow> gotime) \<Rightarrow> ca_log \<Rightarrow> ca_db \<Rightarrow> ca_db \<times> store_error option" where
  "ProjectCatchUp clock lg db =
     (let es = Replay lg (db_checkpoint db + 1)
      in case catch_up_loop clock es 0 db of
           (db1, Some err) \<Rightarrow> (db1, Some err)
         | (db1, None) \<Rightarrow> (if es = [] then db1 else AdvanceProjectionCheckpoint (ce_Sequence (last es)) db1, None))"

fun replay_loop :: "(nat \<Rightarrow> gotime) \<Rightarrow> ca_event list \<Rightarrow> ca_db \<Rightarrow> store_error + ca_db" where
  "replay_loop clock [] db = Inr db"
| "replay_loop clock (e # es) db =
     (case ca_ApplyTx (clock (ce_Sequence e)) e db of Inl err \<Rightarrow> Inl err | Inr db1 \<Rightarrow> replay_loop clock es db1)"

definition truncate_read_model :: "ca_db \<Rightarrow> ca_db" where
  "truncate_read_model db = db\<lparr>db_ceremonies := [], db_approvals := [], db_issued := [], db_crls := [], db_responders := []\<rparr>"

definition Rebuild :: "(nat \<Rightarrow> gotime) \<Rightarrow> ca_log \<Rightarrow> ca_db \<Rightarrow> store_error + ca_db" where
  "Rebuild clock lg db =
     (let es = Replay lg 0
      in case replay_loop clock es ((truncate_read_model db)\<lparr>db_checkpoint := 0\<rparr>) of
           Inl err \<Rightarrow> Inl err
         | Inr db1 \<Rightarrow> Inr (if es = [] then db1 else db1\<lparr>db_checkpoint := ce_Sequence (last es)\<rparr>))"

section \<open>Ceremonies and their approvals\<close>

text \<open>
  The invariant of the ceremony tables: ids and approval keys are unique, thresholds are positive, and
  every approval row names a custodian of an existing ceremony of its tenant who did not open it.
\<close>

definition approval_ok :: "KeyCeremony list \<Rightarrow> ceremony_approval \<Rightarrow> bool" where
  "approval_ok cs a =
     (ap_Custodian a \<noteq> '''' \<and>
      (\<exists>c \<in> set cs. kc_ID c = ap_CeremonyID a \<and> kc_TenantID c = ap_TenantID a
         \<and> (kc_Opener c = '''' \<or> kc_Opener c \<noteq> ap_Custodian a)))"

definition ceremony_inv :: "ca_db \<Rightarrow> bool" where
  "ceremony_inv db =
     (distinct (map kc_ID (db_ceremonies db)) \<and> distinct (map approval_key (db_approvals db))
      \<and> (\<forall>c \<in> set (db_ceremonies db). kc_Threshold c \<ge> 1 \<and> kc_Status c \<in> {''pending'', ''completed''})
      \<and> (\<forall>a \<in> set (db_approvals db). approval_ok (db_ceremonies db) a))"

lemma ceremony_inv_empty [simp]: "ceremony_inv empty_ca_db"
  by (simp add: ceremony_inv_def empty_ca_db_def)

lemma ceremony_inv_other_tables [simp]:
  "ceremony_inv (db\<lparr>db_authorities := x\<rparr>) = ceremony_inv db"
  "ceremony_inv (db\<lparr>db_issued := y\<rparr>) = ceremony_inv db"
  "ceremony_inv (db\<lparr>db_crls := z\<rparr>) = ceremony_inv db"
  "ceremony_inv (db\<lparr>db_responders := w\<rparr>) = ceremony_inv db"
  "ceremony_inv (db\<lparr>db_checkpoint := n\<rparr>) = ceremony_inv db"
  by (simp_all add: ceremony_inv_def)

lemma find_Some_iff: "List.find P xs = Some x \<Longrightarrow> x \<in> set xs \<and> P x"
  by (induction xs) (auto split: if_splits)

lemma ceremony_row_Some:
  "ceremony_row db tn i = Some c \<Longrightarrow> c \<in> set (db_ceremonies db) \<and> kc_TenantID c = tn \<and> kc_ID c = i"
  by (auto simp: ceremony_row_def dest: find_Some_iff)

lemma approval_ok_mono: "approval_ok cs a \<Longrightarrow> set cs \<subseteq> set ds \<Longrightarrow> approval_ok ds a"
  by (auto simp: approval_ok_def)

lemma ceremony_inv_started:
  assumes "ceremony_inv db" and "kc_Threshold c \<ge> 1" and "kc_Status c = ''pending''"
  shows "ceremony_inv (ApplyKeyCeremonyStartedTx now c db)"
proof (cases "list_ex (\<lambda>x. kc_ID x = kc_ID c) (db_ceremonies db)")
  case False
  then have fresh: "kc_ID c \<notin> kc_ID ` set (db_ceremonies db)" by (auto simp: list_ex_iff)
  from assms(1) have "\<forall>a \<in> set (db_approvals db). approval_ok (db_ceremonies db @ [r]) a" for r
    by (auto simp: ceremony_inv_def intro: approval_ok_mono)
  with assms fresh False show ?thesis
    by (auto simp: ApplyKeyCeremonyStartedTx_def Let_def ceremony_inv_def)
qed (use assms in \<open>simp add: ApplyKeyCeremonyStartedTx_def Let_def\<close>)

lemma put_approval_keys:
  "map approval_key (db_approvals (put_approval r db)) =
     map approval_key (db_approvals db) @ (if find_approval db (approval_key r) = None then [approval_key r] else [])"
  by (auto simp: put_approval_def approval_key_def)

lemma find_None_iff: "List.find P xs = None \<longleftrightarrow> (\<forall>x \<in> set xs. \<not> P x)"
  by (induction xs) auto

lemma ceremony_inv_put_approval:
  assumes "ceremony_inv db" and "approval_ok (db_ceremonies db) r"
  shows "ceremony_inv (put_approval r db)"
proof -
  have keys: "distinct (map approval_key (db_approvals (put_approval r db)))"
    using assms(1) unfolding put_approval_keys by (auto simp: ceremony_inv_def find_approval_def find_None_iff)
  have "approval_ok (db_ceremonies db) a" if "a \<in> set (db_approvals (put_approval r db))" for a
    using that assms unfolding put_approval_def ceremony_inv_def
    by (auto simp: approval_ok_def approval_key_def split: if_splits)
  moreover have "db_ceremonies (put_approval r db) = db_ceremonies db" by (simp add: put_approval_def)
  ultimately show ?thesis using assms(1) keys by (auto simp: ceremony_inv_def)
qed

lemma ceremony_inv_approved:
  assumes "ceremony_inv db"
    and "ApplyKeyCeremonyApprovedTx now tn i custodian eid eseq at db = Inr db'"
  shows "ceremony_inv db'"
proof -
  from assms(2) obtain c where c: "custodian \<noteq> ''''" "ceremony_row db tn i = Some c"
    "db' = db \<or> (\<not> (kc_Opener c \<noteq> '''' \<and> kc_Opener c = custodian) \<and>
       db' = put_approval \<lparr>ap_TenantID = tn, ap_CeremonyID = i, ap_Custodian = custodian,
                           ap_ApprovedAt = (if at = 0 then now else at),
                           ap_EventID = Some eid, ap_EventSequence = Some eseq\<rparr> db)"
    by (auto simp: ApplyKeyCeremonyApprovedTx_def split: if_splits option.splits)
  from ceremony_row_Some [OF c(2)] c(1,3) assms(1) show ?thesis
    by (auto intro!: ceremony_inv_put_approval simp: approval_ok_def)
qed

lemma complete_row_map:
  "map kc_ID (db_ceremonies (complete_row tn i db)) = map kc_ID (db_ceremonies db)"
  by (simp add: complete_row_def)

lemma ceremony_inv_complete: "ceremony_inv db \<Longrightarrow> ceremony_inv (complete_row tn i db)"
proof -
  assume inv: "ceremony_inv db"
  have "approval_ok (db_ceremonies (complete_row tn i db)) a" if "a \<in> set (db_approvals db)" for a
  proof -
    from inv that obtain c where c: "ap_Custodian a \<noteq> ''''" "c \<in> set (db_ceremonies db)" "kc_ID c = ap_CeremonyID a"
      "kc_TenantID c = ap_TenantID a" "kc_Opener c = '''' \<or> kc_Opener c \<noteq> ap_Custodian a"
      unfolding ceremony_inv_def approval_ok_def by blast
    let ?f = "\<lambda>c. if kc_TenantID c = tn \<and> kc_ID c = i \<and> kc_Status c = ''pending''
                  then c\<lparr>kc_Status := ''completed''\<rparr> else c"
    have "?f c \<in> set (db_ceremonies (complete_row tn i db))" using c(2) by (simp add: complete_row_def)
    then show ?thesis using c(1,3-5) unfolding approval_ok_def by (intro conjI bexI [of _ "?f c"]) simp_all
  qed
  moreover have "db_approvals (complete_row tn i db) = db_approvals db" by (simp add: complete_row_def)
  ultimately show ?thesis
    using inv by (auto simp: ceremony_inv_def complete_row_map) (auto simp: complete_row_def)
qed

lemma authority_writers_keep_ceremonies:
  "SupersedeCAAuthorityTx tn i db = Inr db' \<Longrightarrow> db' = db\<lparr>db_authorities := db_authorities db'\<rparr>"
  "insert_authority a db = Inr db' \<Longrightarrow> db' = db\<lparr>db_authorities := db_authorities db'\<rparr>"
  "ApplyCAAuthorityRotatedTx tn p s db = Inr db' \<Longrightarrow> db' = db\<lparr>db_authorities := db_authorities db'\<rparr>"
  "ApplyCAAuthorityRekeyedTx now a p db = Inr db' \<Longrightarrow> db' = db\<lparr>db_authorities := db_authorities db'\<rparr>"
proof -
  show sup: "SupersedeCAAuthorityTx tn i db = Inr db' \<Longrightarrow> db' = db\<lparr>db_authorities := db_authorities db'\<rparr>" for tn i db db'
    by (auto simp: SupersedeCAAuthorityTx_def update_authority_def split: if_splits)
  show ins: "insert_authority a db = Inr db' \<Longrightarrow> db' = db\<lparr>db_authorities := db_authorities db'\<rparr>" for a db db'
    by (auto simp: insert_authority_def split: if_splits)
  have upd: "update_authority tn i f db = db\<lparr>db_authorities := db_authorities (update_authority tn i f db)\<rparr>" for tn i f db
    by (simp add: update_authority_def)
  have two: "db2 = db\<lparr>db_authorities := db_authorities db2\<rparr>"
    if "db1 = db\<lparr>db_authorities := db_authorities db1\<rparr>" "db2 = db1\<lparr>db_authorities := db_authorities db2\<rparr>" for db1 db2 :: ca_db
    by (subst that(2), subst that(1)) simp
  show "db' = db\<lparr>db_authorities := db_authorities db'\<rparr>" if "ApplyCAAuthorityRotatedTx tn p s db = Inr db'"
  proof -
    from that obtain db1 f where "SupersedeCAAuthorityTx tn p db = Inr db1" "db' = update_authority tn s f db1"
      by (auto simp: ApplyCAAuthorityRotatedTx_def split: if_splits sum.splits)
    with sup upd two show ?thesis by metis
  qed
  show "db' = db\<lparr>db_authorities := db_authorities db'\<rparr>" if "ApplyCAAuthorityRekeyedTx now a p db = Inr db'"
  proof -
    let ?row = "rekeyed_row now a p"
    from that obtain db1 where "SupersedeCAAuthorityTx (au_TenantID a) p db = Inr db1"
      "db' = update_authority (au_TenantID a) (au_ID ?row) (\<lambda>_. ?row) db1 \<or> insert_authority ?row db1 = Inr db'"
      unfolding ApplyCAAuthorityRekeyedTx_def Let_def by (auto split: if_splits sum.splits)
    with sup ins upd two show ?thesis by metis
  qed
qed

lemma issued_writers_keep_ceremonies:
  "RecordIssuedCertTx tn ca s t db = db\<lparr>db_issued := db_issued (RecordIssuedCertTx tn ca s t db)\<rparr>"
  "RevokeIssuedCertTx tn ca s r t db = Inr db' \<Longrightarrow> db' = db\<lparr>db_issued := db_issued db'\<rparr>"
  "InsertCRLTx now c db = db\<lparr>db_crls := db_crls (InsertCRLTx now c db)\<rparr>"
  "UpsertOCSPResponderTx now rp db = db\<lparr>db_responders := db_responders (UpsertOCSPResponderTx now rp db)\<rparr>"
  by (auto simp: RecordIssuedCertTx_def RevokeIssuedCertTx_def InsertCRLTx_def UpsertOCSPResponderTx_def Let_def
      split: if_splits)

text \<open>Which tables each case of the dispatch may change.\<close>

lemma ca_ApplyTx_cases:
  assumes "ca_ApplyTx now e db = Inr db'"
  obtains (same) "db' = db"
  | (issued) ca serial at src where "ce_Data e = CAIssuedCertificate ca serial at src"
      "db' = RecordIssuedCertTx (ce_TenantID e) ca serial (orZero at (ce_Time e)) db"
  | (revoked) pl where "ce_Type e = ''ca.certificate.revoked''" "ce_Data e = RevokedPayload pl"
      "RevokeIssuedCertTx (ce_TenantID e) (rv_CAID pl) (rv_Serial pl) (revoked_code pl)
         (orZero (rv_RevokedAt pl) (ce_Time e)) db = Inr db'"
  | (started) i purpose threshold opener where "ce_Type e = ''ca.ceremony.started''"
      "ce_Data e = CACeremonyStarted i purpose threshold opener" "threshold \<ge> 1" "i \<noteq> ''''"
      "db' = ApplyKeyCeremonyStartedTx now \<lparr>kc_ID = i, kc_TenantID = ce_TenantID e, kc_Purpose = purpose,
               kc_Threshold = threshold, kc_Status = ''pending'', kc_Opener = opener, kc_CreatedAt = ce_Time e\<rparr> db"
  | (approved) i custodian n where "ce_Type e = ''ca.ceremony.approved''" "ce_Data e = CACeremonyApproved i custodian n"
      "ApplyKeyCeremonyApprovedTx now (ce_TenantID e) i custodian (ce_ID e) (ce_Sequence e) (ce_Time e) db = Inr db'"
  | (authorities) "ce_Type e \<in> {''ca.authority.rotated'', ''ca.authority.rekeyed''}" "db' = db\<lparr>db_authorities := db_authorities db'\<rparr>"
  | (crl) row where "ce_Type e = ''ca.crl.published''" "db' = InsertCRLTx now row db" "crl_TenantID row = ce_TenantID e"
  | (responder) r where "ce_Type e = ''ca.ocsp_responder.rotated''" "db' = UpsertOCSPResponderTx now r db"
proof -
  let ?ty = "ce_Type e"
  have v: "ca_ValidateSchemaVersion e = None" using assms by (auto simp: ca_ApplyTx_def split: option.splits)
  consider "?ty = ''ca.certificate.issued'' \<or> ?ty = ''ca.endentity.issued''" "project_issued e db = Inr db'"
    | "?ty = ''ca.certificate.revoked''" "project_revoked e db = Inr db'"
    | "?ty = ''ca.ceremony.started''" "project_started now e db = Inr db'"
    | "?ty = ''ca.ceremony.approved''" "project_approved now e db = Inr db'"
    | "?ty = ''ca.authority.rotated''" "project_rotated e db = Inr db'"
    | "?ty = ''ca.authority.rekeyed''" "project_rekeyed now e db = Inr db'"
    | "?ty = ''ca.crl.published''" "project_crl now e db = Inr db'"
    | "?ty = ''ca.ocsp_responder.rotated''" "project_responder now e db = Inr db'"
    | "db' = db"
    using assms v by (simp add: ca_ApplyTx_def Let_def split: if_splits)
  then show thesis
  proof cases
    case 1 then show thesis by (auto simp: project_issued_def split: ca_payload.splits if_splits intro: issued)
  next
    case 2 then show thesis by (auto simp: project_revoked_def split: ca_payload.splits if_splits intro: revoked)
  next
    case 3 then show thesis by (auto simp: project_started_def split: ca_payload.splits if_splits intro: started)
  next
    case 4 then show thesis by (auto simp: project_approved_def split: ca_payload.splits if_splits intro: approved)
  next
    case 5
    then show thesis
      by (auto simp: project_rotated_def split: ca_payload.splits if_splits
          intro!: authorities dest: authority_writers_keep_ceremonies)
  next
    case 6
    then show thesis
      by (auto simp: project_rekeyed_def split: ca_payload.splits if_splits
          intro!: authorities dest: authority_writers_keep_ceremonies)
  next
    case 7
    then show thesis by (auto simp: project_crl_def split: ca_payload.splits if_splits intro: crl same)
  next
    case 8
    then show thesis by (auto simp: project_responder_def split: ca_payload.splits if_splits intro: responder)
  qed (rule same)
qed

lemma ceremony_inv_ApplyTx:
  assumes "ceremony_inv db" and "ca_ApplyTx now e db = Inr db'"
  shows "ceremony_inv db'"
  using assms(2)
proof (cases rule: ca_ApplyTx_cases)
  case (issued ca serial at src)
  then show ?thesis using assms(1) ceremony_inv_other_tables(2) issued_writers_keep_ceremonies(1) by metis
next
  case (revoked pl)
  then show ?thesis using assms(1) ceremony_inv_other_tables(2) issued_writers_keep_ceremonies(2) by metis
next
  case (started i purpose threshold opener)
  then show ?thesis using assms(1) by (simp add: ceremony_inv_started)
next
  case (approved i custodian n)
  then show ?thesis using assms(1) ceremony_inv_approved by blast
next
  case authorities
  then show ?thesis using assms(1) ceremony_inv_other_tables(1) by metis
next
  case (crl row)
  then show ?thesis using assms(1) ceremony_inv_other_tables(3) issued_writers_keep_ceremonies(3) by metis
next
  case (responder r)
  then show ?thesis using assms(1) ceremony_inv_other_tables(4) issued_writers_keep_ceremonies(4) by metis
qed (use assms in simp)

section \<open>The status of a serial number\<close>

text \<open>
  What relying parties are told about a serial number, read from the table and, independently, from the
  log: a serial is revoked from its first revocation event on, with that event's time and reason, and
  known from its first event on.
\<close>

datatype cert_status = StUnknown | StGood | StRevoked gotime int

definition status_of :: "ca_db \<Rightarrow> string \<times> string \<times> string \<Rightarrow> cert_status" where
  "status_of db k =
     (case find_issued db k of
        None \<Rightarrow> StUnknown
      | Some c \<Rightarrow> (case ic_RevokedAt c of None \<Rightarrow> StGood | Some t \<Rightarrow> StRevoked t (ic_ReasonCode c)))"

fun issue_mark :: "cert_status \<Rightarrow> cert_status" where
  "issue_mark StUnknown = StGood"
| "issue_mark st = st"

fun revoke_mark :: "gotime \<Rightarrow> int \<Rightarrow> cert_status \<Rightarrow> cert_status" where
  "revoke_mark t r (StRevoked t' r') = StRevoked t' r'"
| "revoke_mark t r _ = StRevoked t r"

definition status_step :: "ca_event \<Rightarrow> string \<times> string \<times> string \<Rightarrow> cert_status \<Rightarrow> cert_status" where
  "status_step e k st =
     (case ce_Data e of
        CAIssuedCertificate ca serial _ _ \<Rightarrow>
          if ce_Type e \<in> {''ca.certificate.issued'', ''ca.endentity.issued''} \<and> k = (ce_TenantID e, ca, serial)
          then issue_mark st else st
      | RevokedPayload pl \<Rightarrow>
          if ce_Type e = ''ca.certificate.revoked'' \<and> k = (ce_TenantID e, rv_CAID pl, rv_Serial pl)
          then revoke_mark (orZero (rv_RevokedAt pl) (ce_Time e)) (revoked_code pl) st else st
      | _ \<Rightarrow> st)"

definition log_status :: "ca_event list \<Rightarrow> string \<times> string \<times> string \<Rightarrow> cert_status" where
  "log_status es k = fold (\<lambda>e. status_step e k) es StUnknown"

lemma find_append: "List.find P (xs @ ys) = (case List.find P xs of None \<Rightarrow> List.find P ys | Some x \<Rightarrow> Some x)"
  by (induction xs) auto

lemma find_map_keeps:
  "(\<And>x. P (f x) = P x) \<Longrightarrow> List.find P (map f xs) = map_option f (List.find P xs)"
  by (induction xs) auto

lemma status_RecordIssued:
  "status_of (RecordIssuedCertTx tn ca s t db) k = (if k = (tn, ca, s) then issue_mark (status_of db k) else status_of db k)"
  by (auto simp: RecordIssuedCertTx_def status_of_def find_issued_def find_append issued_key_def split: option.splits)

lemma status_RevokeIssued:
  assumes "RevokeIssuedCertTx tn ca s r t db = Inr db'"
  shows "status_of db' k = (if k = (tn, ca, s) then revoke_mark t r (status_of db k) else status_of db k)"
proof (cases "find_issued db (tn, ca, s) = None")
  case True
  with assms have "db_issued db' = db_issued db @ [\<lparr>ic_TenantID = tn, ic_CAID = ca, ic_Serial = s, ic_IssuedAt = t,
      ic_RevokedAt = Some t, ic_ReasonCode = r\<rparr>]"
    by (auto simp: RevokeIssuedCertTx_def split: if_splits)
  with True show ?thesis by (auto simp: status_of_def find_issued_def find_append issued_key_def split: option.splits)
next
  case False
  let ?f = "\<lambda>c. if issued_key c = (tn, ca, s) \<and> ic_RevokedAt c = None
                then c\<lparr>ic_RevokedAt := Some t, ic_ReasonCode := r\<rparr> else c"
  have key: "issued_key (?f c) = issued_key c" for c by (simp add: issued_key_def)
  from False assms have "db_issued db' = map ?f (db_issued db)"
    by (auto simp: RevokeIssuedCertTx_def split: if_splits)
  then have "find_issued db' k = map_option ?f (find_issued db k)" for k
    unfolding find_issued_def by (simp only: find_map_keeps [of "\<lambda>c. issued_key c = k" ?f, OF arg_cong [where f = "\<lambda>x. x = k", OF key]])
  moreover have "find_issued db k = Some c \<Longrightarrow> issued_key c = k" for c
    unfolding find_issued_def by (blast dest: find_Some_iff)
  ultimately show ?thesis using False by (auto simp: status_of_def split: option.splits)
qed

lemma status_unaffected:
  "db_issued db' = db_issued db \<Longrightarrow> status_of db' k = status_of db k"
  by (simp add: status_of_def find_issued_def)

lemma put_approval_issued [simp]: "db_issued (put_approval r db) = db_issued db"
  by (simp add: put_approval_def)

lemma InsertCRLTx_issued [simp]: "db_issued (InsertCRLTx now c db) = db_issued db"
  by (simp add: InsertCRLTx_def Let_def)

lemma UpsertOCSPResponderTx_issued [simp]: "db_issued (UpsertOCSPResponderTx now r db) = db_issued db"
  by (simp add: UpsertOCSPResponderTx_def Let_def)

lemma Approved_issued: "ApplyKeyCeremonyApprovedTx now tn i cu eid es at db = Inr db' \<Longrightarrow> db_issued db' = db_issued db"
  by (auto simp: ApplyKeyCeremonyApprovedTx_def split: if_splits option.splits)

lemma Started_issued: "db_issued (ApplyKeyCeremonyStartedTx now c db) = db_issued db"
  by (simp add: ApplyKeyCeremonyStartedTx_def Let_def)

text \<open>Every event the projector applies moves the table exactly as it moves the status read from the log.\<close>

lemma ApplyTx_status:
  assumes "ca_ApplyTx now e db = Inr db'"
  shows "status_of db' k = status_step e k (status_of db k)"
proof -
  have v: "ca_ValidateSchemaVersion e = None" using assms by (auto simp: ca_ApplyTx_def split: option.splits)
  note ap = assms [unfolded ca_ApplyTx_def v option.case Let_def]
  show ?thesis
  proof (cases "ce_Type e \<in> {''ca.certificate.issued'', ''ca.endentity.issued''}")
    case True
    then have "project_issued e db = Inr db'" using ap by auto
    with True show ?thesis
      by (auto simp: project_issued_def status_step_def status_RecordIssued split: ca_payload.splits if_splits)
  next
    case ty1: False
    show ?thesis
    proof (cases "ce_Type e = ''ca.certificate.revoked''")
      case True
      then have "project_revoked e db = Inr db'" using ap by auto
      with True show ?thesis
        by (auto simp: project_revoked_def status_step_def dest: status_RevokeIssued split: ca_payload.splits if_splits)
    next
      case False
      have "db_issued db' = db_issued db"
        using assms
      proof (cases rule: ca_ApplyTx_cases)
        case (issued ca serial at src)
        then show ?thesis using ap ty1 False
          by (auto simp: project_started_def project_approved_def project_rotated_def project_rekeyed_def project_crl_def project_responder_def split: if_splits)
      next
        case authorities
        then have "db_issued db' = db_issued (db\<lparr>db_authorities := db_authorities db'\<rparr>)" by (intro arg_cong [where f = db_issued])
        then show ?thesis by simp
      next
        case (approved i custodian n)
        show ?thesis by (rule Approved_issued [OF approved(3)])
      next
        case (started i purpose threshold opener)
        show ?thesis unfolding started(5) by (rule Started_issued)
      next
        case (crl row)
        show ?thesis unfolding crl(2) by (rule InsertCRLTx_issued)
      next
        case (responder r)
        show ?thesis unfolding responder(2) by (rule UpsertOCSPResponderTx_issued)
      next
        case (revoked pl)
        with False show ?thesis by simp
      qed simp
      then have "status_of db' k = status_of db k" by (rule status_unaffected)
      with ty1 False show ?thesis by (simp add: status_step_def split: ca_payload.splits)
    qed
  qed
qed

lemma replay_loop_status:
  "replay_loop clock es db = Inr db' \<Longrightarrow> status_of db' k = fold (\<lambda>e. status_step e k) es (status_of db k)"
  by (induction es arbitrary: db) (auto split: sum.splits simp: ApplyTx_status)

lemma fold_status_revoked [simp]: "fold (\<lambda>e. status_step e k) es (StRevoked t r) = StRevoked t r"
  by (induction es) (auto simp: status_step_def split: ca_payload.split)

lemma Replay_all [simp]: "Replay lg 0 = lg_events lg"
  by (simp add: Replay_def)

lemma status_of_checkpoint [simp]: "status_of (db\<lparr>db_checkpoint := n\<rparr>) k = status_of db k"
  by (simp add: status_of_def find_issued_def)

lemma status_of_advance [simp]: "status_of (AdvanceProjectionCheckpoint n db) k = status_of db k"
  by (simp add: AdvanceProjectionCheckpoint_def)

lemma status_of_truncated [simp]: "status_of (truncate_read_model db) k = StUnknown"
  by (simp add: status_of_def find_issued_def truncate_read_model_def)


lemma catch_up_loop_status:
  "\<exists>n. status_of (fst (catch_up_loop clock es since db)) k = fold (\<lambda>e. status_step e k) (take n es) (status_of db k)"
proof (induction es arbitrary: since db)
  case (Cons e es)
  show ?case
  proof (cases "ca_ApplyTx (clock (ce_Sequence e)) e db")
    case (Inl err)
    then show ?thesis by (intro exI [of _ 0]) simp
  next
    case (Inr db1)
    let ?s = "if Suc since \<ge> 256 then 0 else Suc since"
    let ?d = "if Suc since \<ge> 256 then AdvanceProjectionCheckpoint (ce_Sequence e) db1 else db1"
    have loop: "catch_up_loop clock (e # es) since db = catch_up_loop clock es ?s ?d" using Inr by simp
    obtain n where "status_of (fst (catch_up_loop clock es ?s ?d)) k = fold (\<lambda>e. status_step e k) (take n es) (status_of ?d k)"
      using Cons.IH by blast
    then show ?thesis unfolding loop by (intro exI [of _ "Suc n"]) (simp add: ApplyTx_status [OF Inr])
  qed
qed simp

lemma ProjectCatchUp_status:
  "\<exists>es. set es \<subseteq> set (lg_events lg)
      \<and> status_of (fst (ProjectCatchUp clock lg db)) k = fold (\<lambda>e. status_step e k) es (status_of db k)"
proof -
  let ?es = "Replay lg (db_checkpoint db + 1)"
  obtain n where n: "status_of (fst (catch_up_loop clock ?es 0 db)) k = fold (\<lambda>e. status_step e k) (take n ?es) (status_of db k)"
    using catch_up_loop_status by blast
  have "status_of (fst (ProjectCatchUp clock lg db)) k = status_of (fst (catch_up_loop clock ?es 0 db)) k"
    by (simp add: ProjectCatchUp_def Let_def split: prod.splits option.splits)
  moreover have "set (take n ?es) \<subseteq> set (lg_events lg)" by (auto simp: Replay_def dest: in_set_takeD)
  ultimately show ?thesis using n by (intro exI [of _ "take n ?es"]) simp
qed

lemma revocation_is_final_parts:
  assumes "status_of db k = StRevoked t r"
  shows "status_of (fst (ProjectCatchUp clock lg db)) k = StRevoked t r"
    and "status_of (RecordIssuedCertTx tn ca s t' db) k = StRevoked t r"
    and "RevokeIssuedCertTx tn ca s r' t' db = Inr db' \<Longrightarrow> status_of db' k = StRevoked t r"
proof -
  show "status_of (fst (ProjectCatchUp clock lg db)) k = StRevoked t r"
    using ProjectCatchUp_status [of lg clock db k] assms by auto
  show "status_of (RecordIssuedCertTx tn ca s t' db) k = StRevoked t r"
    using assms by (auto simp: status_RecordIssued)
  show "RevokeIssuedCertTx tn ca s r' t' db = Inr db' \<Longrightarrow> status_of db' k = StRevoked t r"
    using assms by (auto simp: status_RevokeIssued)
qed


section \<open>Quorum and single use\<close>

lemma ceremony_inv_reserve:
  assumes "ceremony_inv db" and "ReserveKeyCeremonyApproval now tn i custodian db = Inr (db', n, b)"
  shows "ceremony_inv db'"
proof -
  let ?r = "\<lparr>ap_TenantID = tn, ap_CeremonyID = i, ap_Custodian = custodian, ap_ApprovedAt = now,
             ap_EventID = None, ap_EventSequence = None\<rparr>"
  from assms(2) obtain c where c: "custodian \<noteq> ''''" "ceremony_row db tn i = Some c"
    "\<not> (kc_Opener c \<noteq> '''' \<and> kc_Opener c = custodian)" "db' = db \<or> db' = put_approval ?r db"
    unfolding ReserveKeyCeremonyApproval_def Let_def
    by (auto simp: put_approval_def approval_key_def split: if_splits option.splits)
  from ceremony_row_Some [OF c(2)] c(1,3,4) assms(1) show ?thesis
    by (auto intro!: ceremony_inv_put_approval simp: approval_ok_def)
qed

lemma ceremony_inv_attach:
  assumes "ceremony_inv db" and "AttachKeyCeremonyApprovalEvidence tn i custodian eid eseq db = Inr (db', n)"
  shows "ceremony_inv db'"
proof -
  from assms(2) obtain a where a: "find_approval db (tn, i, custodian) = Some a"
    "db' = put_approval (a\<lparr>ap_EventID := Some eid, ap_EventSequence := Some eseq\<rparr>) db"
    by (auto simp: AttachKeyCeremonyApprovalEvidence_def Let_def split: if_splits option.splits)
  from a(1) have "a \<in> set (db_approvals db)" by (auto simp: find_approval_def dest: find_Some_iff)
  with assms(1) have "approval_ok (db_ceremonies db) a" by (simp add: ceremony_inv_def)
  then show ?thesis unfolding a(2) by (intro ceremony_inv_put_approval assms(1)) (simp add: approval_ok_def)
qed

lemma ceremony_inv_create:
  assumes "ceremony_inv db" and "CreateKeyCeremony fresh now tn purpose opener threshold db = Inr db'" and "threshold \<ge> 1"
  shows "ceremony_inv db'"
proof -
  from assms(2) have fresh: "fresh \<notin> kc_ID ` set (db_ceremonies db)"
    and db': "db' = db\<lparr>db_ceremonies := db_ceremonies db @ [\<lparr>kc_ID = fresh, kc_TenantID = tn, kc_Purpose = purpose,
      kc_Threshold = threshold, kc_Status = ''pending'', kc_Opener = opener, kc_CreatedAt = now\<rparr>]\<rparr>"
    by (auto simp: CreateKeyCeremony_def list_ex_iff split: if_splits)
  from assms(1) have "\<forall>a \<in> set (db_approvals db). approval_ok (db_ceremonies db @ [r]) a" for r
    by (auto simp: ceremony_inv_def intro: approval_ok_mono)
  with assms(1,3) fresh show ?thesis unfolding db' by (auto simp: ceremony_inv_def)
qed

lemma consume_cases:
  assumes "ConsumeKeyCeremonyTx tn i p db = Inr db'"
  obtains c where "ceremony_row db tn i = Some c" "kc_Status c = ''pending''" "kc_Purpose c = p"
    "approval_count db tn i \<ge> kc_Threshold c" "db' = complete_row tn i db"
  using assms by (auto simp: ConsumeKeyCeremonyTx_def GetKeyCeremony_def split: option.splits if_splits)

lemma ceremony_inv_consume: "ceremony_inv db \<Longrightarrow> ConsumeKeyCeremonyTx tn i p db = Inr db' \<Longrightarrow> ceremony_inv db'"
  by (auto elim!: consume_cases intro: ceremony_inv_complete)

text \<open>The custodians whose approvals of a ceremony carry evidence.\<close>

definition custodians :: "ca_db \<Rightarrow> string \<Rightarrow> string \<Rightarrow> string list" where
  "custodians db tn i = map ap_Custodian (filter (evidenced tn i) (db_approvals db))"

lemma custodians_count: "approval_count db tn i = int (length (custodians db tn i))"
  by (simp add: approval_count_def custodians_def)

lemma custodians_distinct: "ceremony_inv db \<Longrightarrow> distinct (custodians db tn i)"
proof -
  assume "ceremony_inv db"
  then have d: "distinct (map approval_key (db_approvals db))" by (simp add: ceremony_inv_def)
  then have "distinct (map approval_key (filter (evidenced tn i) (db_approvals db)))" by (rule distinct_map_filter)
  moreover have "inj_on ap_Custodian (set (filter (evidenced tn i) (db_approvals db)))"
    using d by (fastforce simp: inj_on_def evidenced_def approval_key_def distinct_map)
  ultimately show ?thesis unfolding custodians_def by (simp add: distinct_map)
qed

lemma ceremony_unique:
  assumes "ceremony_inv db" "c \<in> set (db_ceremonies db)" "d \<in> set (db_ceremonies db)" "kc_ID c = kc_ID d"
  shows "c = d"
  using assms by (auto simp: ceremony_inv_def distinct_map inj_on_def)

lemma custodian_not_opener:
  assumes "ceremony_inv db" "ceremony_row db tn i = Some c" "u \<in> set (custodians db tn i)"
  shows "u \<noteq> ''''" and "u \<noteq> kc_Opener c"
proof -
  from assms(3) obtain a where a: "a \<in> set (db_approvals db)" "evidenced tn i a" "u = ap_Custodian a"
    by (auto simp: custodians_def)
  from a(1) assms(1) obtain d where d: "ap_Custodian a \<noteq> ''''" "d \<in> set (db_ceremonies db)" "kc_ID d = ap_CeremonyID a"
    "kc_Opener d = '''' \<or> kc_Opener d \<noteq> ap_Custodian a"
    unfolding ceremony_inv_def approval_ok_def by blast
  have "d = c" using ceremony_unique [OF assms(1) d(2)] ceremony_row_Some [OF assms(2)] d(3) a(2) by (auto simp: evidenced_def)
  with d(1,4) a(3) show "u \<noteq> ''''" "u \<noteq> kc_Opener c" by auto
qed

lemma complete_row_ceremony:
  "ceremony_row (complete_row tn i db) tn i =
     map_option (\<lambda>c. if kc_Status c = ''pending'' then c\<lparr>kc_Status := ''completed''\<rparr> else c) (ceremony_row db tn i)"
proof -
  let ?f = "\<lambda>c. if kc_TenantID c = tn \<and> kc_ID c = i \<and> kc_Status c = ''pending'' then c\<lparr>kc_Status := ''completed''\<rparr> else c"
  have "ceremony_row (complete_row tn i db) tn i = map_option ?f (ceremony_row db tn i)"
    unfolding ceremony_row_def complete_row_def by (simp add: find_map_keeps)
  then show ?thesis by (auto simp: ceremony_row_def option.map_comp dest: find_Some_iff intro!: option.map_cong)
qed

text \<open>
  consuming a ceremony requires that it is pending, that it was opened for exactly the purpose of
  the operation, and that at least as many distinct, named custodians as its threshold, none of them the
  principal who opened it, have approved it with evidence in the log; the ceremony is then spent, so that
  no operation can consume it again.\<close>

theorem consume_needs_quorum:
  assumes "ceremony_inv db" and "ConsumeKeyCeremonyTx tn i p db = Inr db'"
  shows "\<exists>c. ceremony_row db tn i = Some c \<and> kc_Status c = ''pending'' \<and> kc_Purpose c = p
            \<and> distinct (custodians db tn i) \<and> 1 \<le> kc_Threshold c \<and> kc_Threshold c \<le> int (length (custodians db tn i))
            \<and> '''' \<notin> set (custodians db tn i) \<and> kc_Opener c \<notin> set (custodians db tn i)"
    and "ConsumeKeyCeremonyTx tn i p' db' = Inl KeyCeremonyNotPending"
proof -
  from assms(2) obtain c where c: "ceremony_row db tn i = Some c" "kc_Status c = ''pending''" "kc_Purpose c = p"
    "approval_count db tn i \<ge> kc_Threshold c" "db' = complete_row tn i db" by (rule consume_cases)
  have "kc_Threshold c \<ge> 1" using assms(1) ceremony_row_Some [OF c(1)] by (simp add: ceremony_inv_def)
  moreover have "'''' \<notin> set (custodians db tn i)" "kc_Opener c \<notin> set (custodians db tn i)"
    using custodian_not_opener [OF assms(1) c(1)] by blast+
  ultimately show "\<exists>c. ceremony_row db tn i = Some c \<and> kc_Status c = ''pending'' \<and> kc_Purpose c = p
            \<and> distinct (custodians db tn i) \<and> 1 \<le> kc_Threshold c \<and> kc_Threshold c \<le> int (length (custodians db tn i))
            \<and> '''' \<notin> set (custodians db tn i) \<and> kc_Opener c \<notin> set (custodians db tn i)"
    using c custodians_distinct [OF assms(1)] by (auto simp: custodians_count)
  show "ConsumeKeyCeremonyTx tn i p' db' = Inl KeyCeremonyNotPending"
    using c(1,2,5) by (simp add: ConsumeKeyCeremonyTx_def GetKeyCeremony_def complete_row_ceremony)
qed

text \<open>A log that opens a two-person ceremony for \<^verbatim>\<open>root:r\<close> and approves it twice.\<close>

definition sample_ceremony_log :: ca_log where
  "sample_ceremony_log =
     (let ev = (\<lambda>n ty d. \<lparr>ce_ID = ''e'' @ replicate n CHR ''1'', ce_Type = ty, ce_TenantID = ''t1'', ce_Time = 5,
                  ce_SchemaVersion = 1, ce_Data = d, ce_Sequence = n, ce_Actor = None\<rparr>)
      in \<lparr>lg_events = [ev 1 ''ca.ceremony.started'' (CACeremonyStarted ''c1'' ''root:r'' 2 ''olga''),
                       ev 2 ''ca.ceremony.approved'' (CACeremonyApproved ''c1'' ''ann'' 1),
                       ev 3 ''ca.ceremony.approved'' (CACeremonyApproved ''c1'' ''bob'' 2)], lg_last = 3\<rparr>)"

definition sample_ceremony_db :: ca_db where
  "sample_ceremony_db = fst (ProjectCatchUp (\<lambda>_. 7) sample_ceremony_log empty_ca_db)"

lemmas ca_store_eval =
  ProjectCatchUp_def Rebuild_def Replay_def Let_def ca_ApplyTx_def ca_ValidateSchemaVersion_def ca_schema_versions_def
  project_started_def project_approved_def project_issued_def project_revoked_def
  ApplyKeyCeremonyStartedTx_def ApplyKeyCeremonyApprovedTx_def put_approval_def
  ceremony_row_def find_approval_def approval_key_def coalesce_def AdvanceProjectionCheckpoint_def empty_ca_db_def
  truncate_read_model_def ConsumeKeyCeremonyTx_def GetKeyCeremony_def approval_count_def evidenced_def complete_row_def

lemma sample_ceremony_db_eval:
  "sample_ceremony_db =
     \<lparr>db_authorities = [],
      db_ceremonies = [\<lparr>kc_ID = ''c1'', kc_TenantID = ''t1'', kc_Purpose = ''root:r'', kc_Threshold = 2,
        kc_Status = ''pending'', kc_Opener = ''olga'', kc_CreatedAt = 5\<rparr>],
      db_approvals = [\<lparr>ap_TenantID = ''t1'', ap_CeremonyID = ''c1'', ap_Custodian = ''ann'', ap_ApprovedAt = 5,
                       ap_EventID = Some ''e11'', ap_EventSequence = Some 2\<rparr>,
                      \<lparr>ap_TenantID = ''t1'', ap_CeremonyID = ''c1'', ap_Custodian = ''bob'', ap_ApprovedAt = 5,
                       ap_EventID = Some ''e111'', ap_EventSequence = Some 3\<rparr>],
      db_issued = [], db_crls = [], db_responders = [], db_checkpoint = 3\<rparr>"
  by (simp add: sample_ceremony_db_def sample_ceremony_log_def ca_store_eval numeral_nat)

theorem consume_needs_quorum_witness:
  "ConsumeKeyCeremonyTx ''t1'' ''c1'' ''root:r'' sample_ceremony_db = Inr (complete_row ''t1'' ''c1'' sample_ceremony_db)
   \<and> ConsumeKeyCeremonyTx ''t1'' ''c1'' ''root:r'' (complete_row ''t1'' ''c1'' sample_ceremony_db) = Inl KeyCeremonyNotPending"
proof -
  have ok: "ConsumeKeyCeremonyTx ''t1'' ''c1'' ''root:r'' sample_ceremony_db = Inr (complete_row ''t1'' ''c1'' sample_ceremony_db)"
    by (simp add: sample_ceremony_db_eval ca_store_eval)
  have "ceremony_inv sample_ceremony_db"
    by (simp add: sample_ceremony_db_eval ceremony_inv_def approval_key_def approval_ok_def)
  from consume_needs_quorum(2) [OF this ok] ok show ?thesis by simp
qed

text \<open>Whether a ceremony has been used is recorded in its row only. A rebuild, which empties the ceremony
  tables and replays the log, brings back every used ceremony as pending with its approvals, and the same
  approvals authorize a second operation.\<close>

theorem rebuild_revives_spent_ceremony:
  "\<exists>db1 db2 db3. ConsumeKeyCeremonyTx ''t1'' ''c1'' ''root:r'' sample_ceremony_db = Inr db1
     \<and> ConsumeKeyCeremonyTx ''t1'' ''c1'' ''root:r'' db1 = Inl KeyCeremonyNotPending
     \<and> Rebuild (\<lambda>_. 9) sample_ceremony_log db1 = Inr db2
     \<and> ConsumeKeyCeremonyTx ''t1'' ''c1'' ''root:r'' db2 = Inr db3"
proof -
  let ?db1 = "complete_row ''t1'' ''c1'' sample_ceremony_db"
  have 1: "ConsumeKeyCeremonyTx ''t1'' ''c1'' ''root:r'' sample_ceremony_db = Inr ?db1"
    by (simp add: sample_ceremony_db_eval ca_store_eval)
  have 2: "ConsumeKeyCeremonyTx ''t1'' ''c1'' ''root:r'' ?db1 = Inl KeyCeremonyNotPending"
    by (simp add: sample_ceremony_db_eval ca_store_eval)
  have 3: "Rebuild (\<lambda>_. 9) sample_ceremony_log ?db1 = Inr sample_ceremony_db"
    by (simp add: sample_ceremony_db_eval sample_ceremony_log_def ca_store_eval numeral_nat)
  show ?thesis using 1 2 3 by blast
qed

text \<open>The first event after the checkpoint that cannot be applied stops every later catch-up, whatever is
  appended to the log afterwards.\<close>

lemma catch_up_stuck:
  assumes "Replay lg (db_checkpoint db + 1) = e # es" and "\<And>now. ca_ApplyTx now e db = Inl err"
  shows "ProjectCatchUp clock (lg\<lparr>lg_events := lg_events lg @ rest, lg_last := n\<rparr>) db = (db, Some err)"
proof -
  have "Replay (lg\<lparr>lg_events := lg_events lg @ rest, lg_last := n\<rparr>) (db_checkpoint db + 1)
          = e # es @ filter (\<lambda>x. ce_Sequence x \<ge> db_checkpoint db + 1) rest"
    using assms(1) by (simp add: Replay_def)
  then show ?thesis by (simp add: ProjectCatchUp_def Let_def assms(2))
qed

definition late_approval :: ca_event where
  "late_approval = \<lparr>ce_ID = ''e4'', ce_Type = ''ca.ceremony.approved'', ce_TenantID = ''t1'', ce_Time = 6, ce_SchemaVersion = 1,
     ce_Data = CACeremonyApproved ''c1'' ''carol'' 3, ce_Sequence = 4, ce_Actor = None\<rparr>"

text \<open>An approval checks that the ceremony is pending, then appends its event. When the ceremony is used in
  between, the appended event can never be applied, and every catch-up from then on fails on it.\<close>

theorem late_approval_stops_catch_up:
  assumes "ConsumeKeyCeremonyTx ''t1'' ''c1'' ''root:r'' sample_ceremony_db = Inr db1"
  shows "ProjectCatchUp clock (sample_ceremony_log\<lparr>lg_events := lg_events sample_ceremony_log @ late_approval # rest, lg_last := n\<rparr>) db1
           = (db1, Some KeyCeremonyNotPending)"
proof -
  let ?lg = "sample_ceremony_log\<lparr>lg_events := lg_events sample_ceremony_log @ [late_approval]\<rparr>"
  have db1: "db1 = complete_row ''t1'' ''c1'' sample_ceremony_db"
    using assms by (simp add: sample_ceremony_db_eval ca_store_eval)
  have next_ev: "Replay ?lg (db_checkpoint db1 + 1) = late_approval # []"
    by (simp add: db1 sample_ceremony_db_eval sample_ceremony_log_def late_approval_def Replay_def complete_row_def Let_def)
  have fails: "ca_ApplyTx now late_approval db1 = Inl KeyCeremonyNotPending" for now
    by (simp add: db1 sample_ceremony_db_eval late_approval_def ca_store_eval)
  from catch_up_stuck [OF next_ev fails, where clock = clock and rest = rest and n = n] show ?thesis by simp
qed

text \<open>A revocation event carrying a reason code RFC 5280 does not assign is appended before the code is
  checked; it can never be applied, and neither catch-up nor a rebuild gets past it.\<close>

theorem bad_reason_stops_projection:
  assumes "ce_Type e = ''ca.certificate.revoked''" and "ce_SchemaVersion e = 1" and "ce_Data e = RevokedPayload pl"
    and "rv_CAID pl \<noteq> ''''" and "rv_Serial pl \<noteq> ''''" and "\<not> ValidCRLReasonCode (revoked_code pl)"
    and "Replay lg (db_checkpoint db + 1) = e # es"
  shows "ProjectCatchUp clock (lg\<lparr>lg_events := lg_events lg @ rest, lg_last := n\<rparr>) db = (db, Some (InvalidReasonCode (revoked_code pl)))"
proof -
  have "ca_ApplyTx now e db = Inl (InvalidReasonCode (revoked_code pl))" for now
    using assms(1-6) by (simp add: ca_ApplyTx_def ca_ValidateSchemaVersion_def ca_schema_versions_def Let_def
        project_revoked_def RevokeIssuedCertTx_def)
  then show ?thesis by (rule catch_up_stuck [OF assms(7)])
qed

section \<open>Witnesses\<close>

definition sample_status_log :: ca_log where
  "sample_status_log =
     (let ev = (\<lambda>n ty d. \<lparr>ce_ID = ''e'', ce_Type = ty, ce_TenantID = ''t1'', ce_Time = 5,
                  ce_SchemaVersion = 1, ce_Data = d, ce_Sequence = n, ce_Actor = None\<rparr>)
      in \<lparr>lg_events = [ev 1 ''ca.certificate.issued'' (CAIssuedCertificate ''ca1'' ''2a'' 0 ''x''),
                       ev 2 ''ca.certificate.revoked'' (RevokedPayload \<lparr>rv_CAID = ''ca1'', rv_Serial = ''2a'', rv_Reason = 0,
                             rv_ReasonCode = 1, rv_RevokedAt = 8, rv_Source = ''x''\<rparr>)], lg_last = 2\<rparr>)"

definition sample_status_db :: ca_db where
  "sample_status_db = empty_ca_db\<lparr>db_issued := [\<lparr>ic_TenantID = ''t1'', ic_CAID = ''ca1'', ic_Serial = ''2a'', ic_IssuedAt = 5,
     ic_RevokedAt = Some 8, ic_ReasonCode = 1\<rparr>], db_checkpoint := 2\<rparr>"

lemma sample_status_rebuild: "Rebuild clock sample_status_log empty_ca_db = Inr sample_status_db"
  by (simp add: sample_status_log_def sample_status_db_def ca_store_eval RecordIssuedCertTx_def RevokeIssuedCertTx_def
      find_issued_def issued_key_def orZero_def revoked_code_def ValidCRLReasonCode_def)



end
