(* ===== verification/Revocation.thy ===== *)
theory Revocation
  imports CaStore "HOL-Library.AList"
begin

text \<open>
  Revocation of issued certificates: the signing primitives (\<^verbatim>\<open>internal/crypto/revocation.go\<close>), the served
  OCSP responder with its response cache and delegated responder certificates, and the CRL generator with
  its shards and deltas (\<^verbatim>\<open>internal/server/revocation.go\<close>, \<^verbatim>\<open>internal/server/ocsp_cache.go\<close>), and the
  in-process revocation service (\<^verbatim>\<open>internal/ca/revocation/revocation.go\<close>).

  The OCSP wire library is a parameter: it reads the serial and the extensions of a request and encodes
  and signs a response template. SHA-256 and the textual form of a time are parameters too. CRLs are
  encoded by the standard library; their content is kept, with times truncated to the second as DER does.
\<close>

section \<open>Serial numbers and reason codes (crypto/revocation.go)\<close>

text \<open>\<^verbatim>\<open>big.Int.Text(16)\<close> and \<^verbatim>\<open>SetString(s, 16)\<close>.\<close>

definition Text16 :: "int \<Rightarrow> string" where
  "Text16 n = (if n < 0 then CHR ''-'' # hex_text (nat (- n)) else hex_text (nat n))"

definition SetString16 :: "string \<Rightarrow> int option" where
  "SetString16 s =
     (case s of
        [] \<Rightarrow> None
      | c # cs \<Rightarrow>
          if c = CHR ''-'' then map_option (\<lambda>n. - int n) (parse_hex cs)
          else if c = CHR ''+'' then map_option int (parse_hex cs)
          else map_option int (parse_hex s))"

definition ValidRevocationReasons :: "(string \<times> int) list" where
  "ValidRevocationReasons =
     [(''unspecified'', 0), (''keyCompromise'', 1), (''caCompromise'', 2), (''affiliationChanged'', 3),
      (''superseded'', 4), (''cessationOfOperation'', 5), (''certificateHold'', 6), (''removeFromCRL'', 8),
      (''privilegeWithdrawn'', 9), (''aaCompromise'', 10)]"

definition IsValidRevocationReason :: "string \<Rightarrow> bool" where
  "IsValidRevocationReason reason = (map_of ValidRevocationReasons reason \<noteq> None)"

definition CRLReasonCode :: "string \<Rightarrow> int" where
  "CRLReasonCode reason = (case map_of ValidRevocationReasons reason of None \<Rightarrow> 0 | Some c \<Rightarrow> c)"

definition RevocationReasonFromCRLCode :: "int \<Rightarrow> string option" where
  "RevocationReasonFromCRLCode code = map_of (map prod.swap ValidRevocationReasons) code"

record RevokedSerial =
  rs_Serial :: string
  rs_RevokedAt :: gotime
  rs_Reason :: int

section \<open>OCSP responses and responder certificates (crypto/revocation.go)\<close>

datatype ocsp_code = OcGood | OcRevoked | OcUnknown

definition ocspStatusCode :: "string \<Rightarrow> ocsp_code" where
  "ocspStatusCode s = (if s = ''good'' then OcGood else if s = ''revoked'' then OcRevoked else OcUnknown)"

fun ocspStatusName :: "ocsp_code \<Rightarrow> string" where
  "ocspStatusName OcGood = ''good''"
| "ocspStatusName OcRevoked = ''revoked''"
| "ocspStatusName OcUnknown = ''unknown''"

record ocsp_template =
  ot_SerialNumber :: int
  ot_ThisUpdate :: gotime
  ot_NextUpdate :: gotime
  ot_Status :: ocsp_code
  ot_RevokedAt :: gotime
  ot_RevocationReason :: int
  ot_Certificate :: "x509_Certificate option"
  ot_ExtraExtensions :: "(oid \<times> bytes) list"

datatype rev_error =
    MalformedOCSPRequest | OCSPNonceMalformed | CertificateParseFailed | ResponderCertInvalid string
  | InvalidSerial string | InvalidReason int | SignerUnusable | SerialUnavailable | SigningFailed
  | CatchUpFailed store_error | AppendFailed append_error | ProjectionFailed store_error
  | NoCRLSurface | CRLNotPublished | NoCAFor string

text \<open>
  The OCSP library: \<open>ol_ParseRequest\<close> gives the serial of a request (\<open>None\<close> when it does not parse),
  \<open>ol_extensions\<close> the request extensions found by walking its DER, \<open>ol_octets\<close> and \<open>ol_to_octets\<close> decode
  and encode an OCTET STRING, and \<open>ol_CreateResponse\<close> signs a template for an issuer and a responder.
\<close>

record ('q, 'r) ocsp_lib =
  ol_ParseRequest :: "'q \<Rightarrow> int option"
  ol_extensions :: "'q \<Rightarrow> rev_error + (oid \<times> bytes) list"
  ol_octets :: "bytes \<Rightarrow> bytes option"
  ol_to_octets :: "bytes \<Rightarrow> bytes"
  ol_CreateResponse :: "x509_Certificate \<Rightarrow> x509_Certificate \<Rightarrow> ocsp_template \<Rightarrow> DigestSigner \<Rightarrow> 'r option"

definition oidOCSPNoCheck :: oid where "oidOCSPNoCheck = [1, 3, 6, 1, 5, 5, 7, 48, 1, 5]"
definition oidOCSPNonce :: oid where "oidOCSPNonce = [1, 3, 6, 1, 5, 5, 7, 48, 1, 2]"

definition ParseOCSPRequestSerial :: "('q, 'r) ocsp_lib \<Rightarrow> 'q \<Rightarrow> rev_error + string" where
  "ParseOCSPRequestSerial lib q =
     (case ol_ParseRequest lib q of None \<Rightarrow> Inl MalformedOCSPRequest | Some n \<Rightarrow> Inr (Text16 n))"

definition validateOCSPNonce :: "bytes \<Rightarrow> bool" where
  "validateOCSPNonce nonce = (length nonce \<noteq> 0 \<and> length nonce \<le> 32)"

fun parseOCSPNonceFromParsedExtensions :: "('q, 'r) ocsp_lib \<Rightarrow> (oid \<times> bytes) list \<Rightarrow> rev_error + bytes option" where
  "parseOCSPNonceFromParsedExtensions lib [] = Inr None"
| "parseOCSPNonceFromParsedExtensions lib ((i, v) # exts) =
     (if i \<noteq> oidOCSPNonce then parseOCSPNonceFromParsedExtensions lib exts
      else case ol_octets lib v of
             None \<Rightarrow> Inl OCSPNonceMalformed
           | Some nonce \<Rightarrow> if validateOCSPNonce nonce then Inr (Some nonce) else Inl OCSPNonceMalformed)"

definition ParseOCSPRequestNonce :: "('q, 'r) ocsp_lib \<Rightarrow> 'q \<Rightarrow> rev_error + bytes option" where
  "ParseOCSPRequestNonce lib q =
     (case ol_extensions lib q of Inl e \<Rightarrow> Inl e | Inr exts \<Rightarrow> parseOCSPNonceFromParsedExtensions lib exts)"

definition ocspNonceExtensions :: "('q, 'r) ocsp_lib \<Rightarrow> bytes option \<Rightarrow> rev_error + (oid \<times> bytes) list" where
  "ocspNonceExtensions lib nonce =
     (case nonce of
        None \<Rightarrow> Inr []
      | Some n \<Rightarrow> if validateOCSPNonce n then Inr [(oidOCSPNonce, ol_to_octets lib n)] else Inl OCSPNonceMalformed)"

record OCSPResponderInfo =
  oi_Serial :: string
  oi_Subject :: string
  oi_NotBefore :: gotime
  oi_NotAfter :: gotime
  oi_IsCA :: bool
  oi_HasOCSPSigningEKU :: bool
  oi_HasOCSPNoCheck :: bool

definition ocspResponderInfo :: "x509_Certificate \<Rightarrow> OCSPResponderInfo" where
  "ocspResponderInfo c =
     \<lparr>oi_Serial = hex_text (xc_SerialNumber c), oi_Subject = xc_Subject c, oi_NotBefore = xc_NotBefore c,
      oi_NotAfter = xc_NotAfter c, oi_IsCA = xc_IsCA c,
      oi_HasOCSPSigningEKU = list_ex (\<lambda>e. e = EKUOCSPSigning) (xc_ExtKeyUsage c),
      oi_HasOCSPNoCheck = list_ex (\<lambda>e. fst e = oidOCSPNoCheck) (xc_ExtraExtensions c)\<rparr>"

definition validateOCSPResponderCertificate :: "x509_Certificate \<Rightarrow> x509_Certificate \<Rightarrow> rev_error option" where
  "validateOCSPResponderCertificate caCert responder =
     (if \<not> CheckSignatureFrom responder caCert then Some (ResponderCertInvalid ''signature'')
      else let info = ocspResponderInfo responder
           in if oi_IsCA info then Some (ResponderCertInvalid ''must not be a CA'')
              else if \<not> oi_HasOCSPSigningEKU info then Some (ResponderCertInvalid ''missing OCSPSigning EKU'')
              else if \<not> oi_HasOCSPNoCheck info then Some (ResponderCertInvalid ''missing ocsp-nocheck'')
              else None)"

definition responder_template :: "nat \<Rightarrow> string \<Rightarrow> gotime \<Rightarrow> gotime \<Rightarrow> x509_Certificate" where
  "responder_template serial commonName notBefore notAfter =
     x509_zero\<lparr>xc_SerialNumber := serial, xc_Subject := commonName, xc_NotBefore := notBefore, xc_NotAfter := notAfter,
       xc_KeyUsage := [KUDigitalSignature], xc_ExtKeyUsage := [EKUOCSPSigning], xc_BasicConstraintsValid := True,
       xc_IsCA := False, xc_ExtraExtensions := [(oidOCSPNoCheck, False, [CHR 0x05, CHR 0x00])]\<rparr>"

definition CreateOCSPResponderCertificate ::
  "x509_env \<Rightarrow> der \<Rightarrow> DigestSigner \<Rightarrow> DigestSigner \<Rightarrow> string \<Rightarrow> gotime \<Rightarrow> gotime \<Rightarrow> rev_error + der" where
  "CreateOCSPResponderCertificate env caCertDER caSigner responderSigner commonName notBefore notAfter =
     (case ParseCertificate caCertDER of None \<Rightarrow> Inl CertificateParseFailed | Some caCert \<Rightarrow>
      if \<not> xe_parses_key env (ds_Public caSigner) \<or> \<not> xe_parses_key env (ds_Public responderSigner) then Inl SignerUnusable
      else case xe_serial env of None \<Rightarrow> Inl SerialUnavailable | Some serial \<Rightarrow>
     (case CreateCertificate env (responder_template serial commonName notBefore notAfter) caCert
             (ds_Public responderSigner) caSigner of
        None \<Rightarrow> Inl SigningFailed
      | Some d \<Rightarrow> Inr d))"

definition InspectOCSPResponderCertificate :: "der \<Rightarrow> der \<Rightarrow> rev_error + OCSPResponderInfo" where
  "InspectOCSPResponderCertificate caCertDER responderDER =
     (case ParseCertificate caCertDER of None \<Rightarrow> Inl CertificateParseFailed | Some caCert \<Rightarrow>
     (case ParseCertificate responderDER of None \<Rightarrow> Inl CertificateParseFailed | Some responder \<Rightarrow>
     (case validateOCSPResponderCertificate caCert responder of
        Some e \<Rightarrow> Inl e
      | None \<Rightarrow> Inr (ocspResponderInfo responder))))"

definition OCSPResponderCertificateMatchesSigner :: "x509_env \<Rightarrow> der \<Rightarrow> DigestSigner \<Rightarrow> rev_error + bool" where
  "OCSPResponderCertificateMatchesSigner env responderDER signer =
     (case ParseCertificate responderDER of None \<Rightarrow> Inl CertificateParseFailed | Some responder \<Rightarrow>
      if \<not> xe_parses_key env (ds_Public signer) then Inl SignerUnusable
      else Inr (ds_Public signer = xc_PublicKey responder))"

definition response_template ::
  "int \<Rightarrow> string \<Rightarrow> gotime \<Rightarrow> gotime \<Rightarrow> gotime \<Rightarrow> int \<Rightarrow> x509_Certificate option \<Rightarrow> (oid \<times> bytes) list \<Rightarrow> ocsp_template" where
  "response_template serial status thisUpdate nextUpdate revokedAt reason cert extra =
     \<lparr>ot_SerialNumber = serial, ot_ThisUpdate = thisUpdate, ot_NextUpdate = nextUpdate, ot_Status = ocspStatusCode status,
      ot_RevokedAt = (if status = ''revoked'' then revokedAt else 0),
      ot_RevocationReason = (if status = ''revoked'' then reason else 0),
      ot_Certificate = cert, ot_ExtraExtensions = extra\<rparr>"

text \<open>Signing by the CA itself (\<open>None\<close>) or by a delegated responder.\<close>

definition sign_ocsp ::
  "x509_env \<Rightarrow> ('q, 'r) ocsp_lib \<Rightarrow> x509_Certificate \<Rightarrow> x509_Certificate option \<Rightarrow> DigestSigner \<Rightarrow> string \<Rightarrow> string
     \<Rightarrow> gotime \<Rightarrow> gotime \<Rightarrow> gotime \<Rightarrow> int \<Rightarrow> bytes option \<Rightarrow> rev_error + 'r" where
  "sign_ocsp env lib caCert responder signer status serialHex thisUpdate nextUpdate revokedAt reason nonce =
     (case SetString16 serialHex of None \<Rightarrow> Inl (InvalidSerial serialHex) | Some serial \<Rightarrow>
      if \<not> xe_parses_key env (ds_Public signer) then Inl SignerUnusable else
     (case ocspNonceExtensions lib nonce of Inl e \<Rightarrow> Inl e | Inr extra \<Rightarrow>
      if status = ''revoked'' \<and> \<not> ValidCRLReasonCode reason then Inl (InvalidReason reason) else
     (case ol_CreateResponse lib caCert (case responder of None \<Rightarrow> caCert | Some r \<Rightarrow> r)
             (response_template serial status thisUpdate nextUpdate revokedAt reason responder extra) signer of
        None \<Rightarrow> Inl SigningFailed
      | Some d \<Rightarrow> Inr d)))"

definition SignOCSPResponseWithNonce ::
  "x509_env \<Rightarrow> ('q, 'r) ocsp_lib \<Rightarrow> der \<Rightarrow> DigestSigner \<Rightarrow> string \<Rightarrow> string
     \<Rightarrow> gotime \<Rightarrow> gotime \<Rightarrow> gotime \<Rightarrow> int \<Rightarrow> bytes option \<Rightarrow> rev_error + 'r" where
  "SignOCSPResponseWithNonce env lib caCertDER caSigner status serialHex thisUpdate nextUpdate revokedAt reason nonce =
     (case ParseCertificate caCertDER of None \<Rightarrow> Inl CertificateParseFailed | Some caCert \<Rightarrow>
      sign_ocsp env lib caCert None caSigner status serialHex thisUpdate nextUpdate revokedAt reason nonce)"

definition SignDelegatedOCSPResponseWithNonce ::
  "x509_env \<Rightarrow> ('q, 'r) ocsp_lib \<Rightarrow> der \<Rightarrow> der \<Rightarrow> DigestSigner \<Rightarrow> string \<Rightarrow> string
     \<Rightarrow> gotime \<Rightarrow> gotime \<Rightarrow> gotime \<Rightarrow> int \<Rightarrow> bytes option \<Rightarrow> rev_error + 'r" where
  "SignDelegatedOCSPResponseWithNonce env lib caCertDER responderCertDER responderSigner status serialHex
       thisUpdate nextUpdate revokedAt reason nonce =
     (case ParseCertificate caCertDER of None \<Rightarrow> Inl CertificateParseFailed | Some caCert \<Rightarrow>
     (case ParseCertificate responderCertDER of None \<Rightarrow> Inl CertificateParseFailed | Some responder \<Rightarrow>
     (case validateOCSPResponderCertificate caCert responder of
        Some e \<Rightarrow> Inl e
      | None \<Rightarrow> sign_ocsp env lib caCert (Some responder) responderSigner status serialHex
                  thisUpdate nextUpdate revokedAt reason nonce)))"

section \<open>CRLs (crypto/revocation.go)\<close>

fun crl_entries :: "RevokedSerial list \<Rightarrow> rev_error + (int \<times> gotime \<times> int) list" where
  "crl_entries [] = Inr []"
| "crl_entries (r # rs) =
     (if \<not> ValidCRLReasonCode (rs_Reason r) then Inl (InvalidReason (rs_Reason r))
      else case SetString16 (rs_Serial r) of
             None \<Rightarrow> Inl (InvalidSerial (rs_Serial r))
           | Some n \<Rightarrow>
               (case crl_entries rs of
                  Inl e \<Rightarrow> Inl e
                | Inr es \<Rightarrow> Inr ((n, trunc_second (rs_RevokedAt r), rs_Reason r) # es)))"

text \<open>\<^verbatim>\<open>x509.CreateRevocationList\<close>: the issuer must be allowed to sign CRLs and have a key identifier, the
  window must not be reversed, and the signature is checked against the signer's key.\<close>

definition CreateRevocationList ::
  "x509_Certificate \<Rightarrow> DigestSigner \<Rightarrow> int \<Rightarrow> gotime \<Rightarrow> gotime \<Rightarrow> (int \<times> gotime \<times> int) list \<Rightarrow> int option \<Rightarrow> CRLContent option" where
  "CreateRevocationList issuer signer number thisUpdate nextUpdate entries base =
     (if KUCRLSign \<notin> set (xc_KeyUsage issuer) \<or> xc_SubjectKeyId issuer = [] \<or> nextUpdate < thisUpdate then None
      else case ds_signs signer of
             None \<Rightarrow> None
           | Some k \<Rightarrow> if k \<noteq> ds_Public signer then None
                       else Some \<lparr>cl_Number = number, cl_ThisUpdate = trunc_second thisUpdate,
                              cl_NextUpdate = trunc_second nextUpdate, cl_Entries = entries, cl_DeltaBase = base, cl_SignedBy = k\<rparr>)"

definition crlExtraExtensions :: "int \<Rightarrow> int option" where
  "crlExtraExtensions deltaBase = (if deltaBase > 0 then Some deltaBase else None)"

definition CreateCRLWithOptions ::
  "x509_env \<Rightarrow> der \<Rightarrow> DigestSigner \<Rightarrow> RevokedSerial list \<Rightarrow> int \<Rightarrow> gotime \<Rightarrow> gotime \<Rightarrow> int \<Rightarrow> rev_error + CRLContent" where
  "CreateCRLWithOptions env caCertDER caSigner revoked number thisUpdate nextUpdate deltaBase =
     (case ParseCertificate caCertDER of None \<Rightarrow> Inl CertificateParseFailed | Some caCert \<Rightarrow>
      if \<not> xe_parses_key env (ds_Public caSigner) then Inl SignerUnusable else
     (case crl_entries revoked of Inl e \<Rightarrow> Inl e | Inr entries \<Rightarrow>
     (case CreateRevocationList caCert caSigner number thisUpdate nextUpdate entries (crlExtraExtensions deltaBase) of
        None \<Rightarrow> Inl SigningFailed
      | Some c \<Rightarrow> Inr c)))"

definition CreateCRL ::
  "x509_env \<Rightarrow> der \<Rightarrow> DigestSigner \<Rightarrow> RevokedSerial list \<Rightarrow> int \<Rightarrow> gotime \<Rightarrow> gotime \<Rightarrow> rev_error + CRLContent" where
  "CreateCRL env caCertDER caSigner revoked number thisUpdate nextUpdate =
     CreateCRLWithOptions env caCertDER caSigner revoked number thisUpdate nextUpdate 0"

record CRLInfo =
  ci_Number :: int
  ci_ThisUpdate :: gotime
  ci_NextUpdate :: gotime
  ci_RevokedSerials :: "string list"
  ci_HasDeltaCRLIndicator :: bool
  ci_DeltaBaseNumber :: int

text \<open>\<^verbatim>\<open>CheckSignatureFrom\<close> of a CRL: the issuer must be a CA allowed to sign CRLs. \<open>None\<close> is no issuer given.\<close>

definition ParseCRL :: "CRLContent \<Rightarrow> der option \<Rightarrow> rev_error + CRLInfo" where
  "ParseCRL rl issuerDER =
     (case (case issuerDER of
              None \<Rightarrow> None
            | Some d \<Rightarrow>
                (case ParseCertificate d of
                   None \<Rightarrow> Some CertificateParseFailed
                 | Some issuer \<Rightarrow>
                     if \<not> (xc_BasicConstraintsValid issuer \<and> xc_IsCA issuer) \<or> (xc_KeyUsage issuer \<noteq> [] \<and> KUCRLSign \<notin> set (xc_KeyUsage issuer))
                        \<or> cl_SignedBy rl \<noteq> xc_PublicKey issuer
                     then Some (ResponderCertInvalid ''CRL signature'') else None)) of
        Some e \<Rightarrow> Inl e
      | None \<Rightarrow> Inr \<lparr>ci_Number = cl_Number rl, ci_ThisUpdate = cl_ThisUpdate rl, ci_NextUpdate = cl_NextUpdate rl,
                  ci_RevokedSerials = map (\<lambda>e. Text16 (fst e)) (cl_Entries rl),
                  ci_HasDeltaCRLIndicator = (cl_DeltaBase rl \<noteq> None),
                  ci_DeltaBaseNumber = (case cl_DeltaBase rl of None \<Rightarrow> 0 | Some b \<Rightarrow> b)\<rparr>)"

section \<open>The response cache (server/ocsp_cache.go)\<close>

record ocspResponseCacheKey =
  ck_tenantID :: string
  ck_caID :: string
  ck_serial :: string
  ck_status :: string
  ck_reason :: int
  ck_revokedAt :: gotime
  ck_responderSerial :: string

type_synonym 'r ocspResponseCache = "(string \<times> ('r \<times> gotime)) list"

definition Itoa :: "int \<Rightarrow> string" where
  "Itoa n = (if n < 0 then CHR ''-'' # itoa (nat (- n)) else itoa (nat n))"

text \<open>\<open>ft\<close> is the RFC 3339 text of a time in UTC.\<close>

definition cache_key_String :: "(gotime \<Rightarrow> string) \<Rightarrow> ocspResponseCacheKey \<Rightarrow> string" where
  "cache_key_String ft k =
     join_with [CHR 0x1F] [ck_tenantID k, ck_caID k, ck_serial k, ck_status k, Itoa (ck_reason k), ft (ck_revokedAt k), ck_responderSerial k]"

definition cache_get ::
  "(gotime \<Rightarrow> string) \<Rightarrow> ocspResponseCacheKey \<Rightarrow> gotime \<Rightarrow> 'r ocspResponseCache \<Rightarrow> 'r ocspResponseCache \<times> 'r option" where
  "cache_get ft key now c =
     (case map_of c (cache_key_String ft key) of
        None \<Rightarrow> (c, None)
      | Some (der, nextUpdate) \<Rightarrow>
          if \<not> nextUpdate > now then (AList.delete (cache_key_String ft key) c, None) else (c, Some der))"

definition cache_put ::
  "(gotime \<Rightarrow> string) \<Rightarrow> ocspResponseCacheKey \<Rightarrow> 'r \<Rightarrow> gotime \<Rightarrow> 'r ocspResponseCache \<Rightarrow> 'r ocspResponseCache" where
  "cache_put ft key der nextUpdate c =
     (if nextUpdate = 0 then c else AList.update (cache_key_String ft key) (der, nextUpdate) c)"

section \<open>The served responder (server/revocation.go)\<close>

record revocationService =
  sv_caID :: string
  sv_caSigner :: DigestSigner
  sv_caCertDER :: der
  sv_ocspSigner :: DigestSigner

record 'r rev_state =
  rv_db :: ca_db
  rv_log :: ca_log
  rv_cache :: "'r ocspResponseCache"

text \<open>
  What a request draws from outside: \<open>rq_x509\<close> for the certificates it creates, \<open>rq_append n\<close> for the
  event that gets sequence number \<open>n\<close>, \<open>rq_apply n\<close> the time at which that event is applied, \<open>rq_now\<close> the
  service's readings of its clock and \<open>rq_time_text\<close> the text of a time.
\<close>

record rev_env =
  rq_x509 :: x509_env
  rq_append :: "nat \<Rightarrow> append_env"
  rq_apply :: "nat \<Rightarrow> gotime"
  rq_now :: "nat \<Rightarrow> gotime"
  rq_time_text :: "gotime \<Rightarrow> string"
  rq_sha256 :: "string \<Rightarrow> string"

definition rev_catchUp :: "rev_env \<Rightarrow> 'r rev_state \<Rightarrow> 'r rev_state \<times> rev_error option" where
  "rev_catchUp q st =
     (case ProjectCatchUp (rq_apply q) (rv_log st) (rv_db st) of
        (db, err) \<Rightarrow> (st\<lparr>rv_db := db\<rparr>, map_option CatchUpFailed err))"

definition append_and_apply :: "rev_env \<Rightarrow> ca_event \<Rightarrow> 'r rev_state \<Rightarrow> 'r rev_state \<times> rev_error option" where
  "append_and_apply q e st =
     (case Append_event (rq_append q (Suc (lg_last (rv_log st)))) e (rv_log st) of
        Inl err \<Rightarrow> (st, Some (AppendFailed err))
      | Inr (lg, ev) \<Rightarrow>
          (case ca_ApplyTx (rq_apply q (ce_Sequence ev)) ev (rv_db st) of
             Inl err \<Rightarrow> (st\<lparr>rv_log := lg\<rparr>, Some (ProjectionFailed err))
           | Inr db \<Rightarrow> (st\<lparr>rv_log := lg, rv_db := db\<rparr>, None)))"

definition publishOCSPResponder :: "rev_env \<Rightarrow> OCSPResponder \<Rightarrow> 'r rev_state \<Rightarrow> 'r rev_state \<times> rev_error option" where
  "publishOCSPResponder q r st =
     append_and_apply q (new_event (or_TenantID r) ''ca.ocsp_responder.rotated''
       (OCSPResponderRotated (or_CAID r) (or_Serial r) (or_CertDER r) (or_NotBefore r) (or_NotAfter r) (or_RotatedFromSerial r))) st"

definition rotateOCSPResponder ::
  "rev_env \<Rightarrow> revocationService \<Rightarrow> string \<Rightarrow> string \<Rightarrow> gotime \<Rightarrow> 'r rev_state \<Rightarrow> 'r rev_state \<times> (rev_error + OCSPResponder)" where
  "rotateOCSPResponder q s tn previousSerial now st =
     (case CreateOCSPResponderCertificate (rq_x509 q) (sv_caCertDER s) (sv_caSigner s) (sv_ocspSigner s)
             (''trstctl OCSP Responder '' @ sv_caID s) (now - 5 * minute) (now + 30 * (24 * hour)) of
        Inl e \<Rightarrow> (st, Inl e)
      | Inr certDER \<Rightarrow>
          (case InspectOCSPResponderCertificate (sv_caCertDER s) certDER of
             Inl e \<Rightarrow> (st, Inl e)
           | Inr info \<Rightarrow>
               (let responder = \<lparr>or_TenantID = tn, or_CAID = sv_caID s, or_Serial = oi_Serial info, or_CertDER = Some certDER,
                      or_NotBefore = oi_NotBefore info, or_NotAfter = oi_NotAfter info,
                      or_RotatedFromSerial = previousSerial, or_CreatedAt = now\<rparr>
                in case publishOCSPResponder q responder st of
                     (st1, Some e) \<Rightarrow> (st1, Inl e)
                   | (st1, None) \<Rightarrow> (st1, Inr responder))))"

definition ocspResponderUsable :: "rev_env \<Rightarrow> revocationService \<Rightarrow> OCSPResponder \<Rightarrow> bool" where
  "ocspResponderUsable q s active =
     (case or_CertDER active of
        None \<Rightarrow> False
      | Some d \<Rightarrow>
          (case InspectOCSPResponderCertificate (sv_caCertDER s) d of
             Inl _ \<Rightarrow> False
           | Inr _ \<Rightarrow> OCSPResponderCertificateMatchesSigner (rq_x509 q) d (sv_ocspSigner s) = Inr True))"

definition activeOCSPResponder ::
  "rev_env \<Rightarrow> revocationService \<Rightarrow> string \<Rightarrow> 'r rev_state \<Rightarrow> 'r rev_state \<times> (rev_error + OCSPResponder)" where
  "activeOCSPResponder q s tn st =
     (case rev_catchUp q st of
        (st1, Some e) \<Rightarrow> (st1, Inl e)
      | (st1, None) \<Rightarrow>
          (let now = rq_now q 0
           in case ActiveOCSPResponder (rv_db st1) tn (sv_caID s) of
                Some active \<Rightarrow>
                  if or_NotAfter active > now + 24 * hour \<and> ocspResponderUsable q s active then (st1, Inr active)
                  else rotateOCSPResponder q s tn (or_Serial active) now st1
              | None \<Rightarrow> rotateOCSPResponder q s tn '''' now st1))"

text \<open>The status, revocation time and reason a row is reported with.\<close>

definition ocsp_answer :: "IssuedCert option \<Rightarrow> string \<times> gotime \<times> int" where
  "ocsp_answer rec =
     (case rec of
        None \<Rightarrow> (''unknown'', 0, 0)
      | Some c \<Rightarrow> (case ic_RevokedAt c of Some t \<Rightarrow> (''revoked'', t, ic_ReasonCode c) | None \<Rightarrow> (''good'', 0, 0)))"

text \<open>The second half of a response: cache, sign, store. \<open>now\<close> is the reading taken there.\<close>

definition respond_with ::
  "rev_env \<Rightarrow> ('q, 'r) ocsp_lib \<Rightarrow> revocationService \<Rightarrow> string \<Rightarrow> string \<Rightarrow> bytes option \<Rightarrow> string \<times> gotime \<times> int
     \<Rightarrow> OCSPResponder \<Rightarrow> gotime \<Rightarrow> 'r rev_state \<Rightarrow> 'r rev_state \<times> (rev_error + 'r)" where
  "respond_with q lib s tn serial nonce answer responder now st =
     (case answer of (status, revokedAt, reason) \<Rightarrow>
      let nextUpdate = now + 10 * minute;
          key = \<lparr>ck_tenantID = tn, ck_caID = sv_caID s, ck_serial = serial, ck_status = status, ck_reason = reason,
                 ck_revokedAt = revokedAt, ck_responderSerial = or_Serial responder\<rparr>;
          looked = (if nonce = None then cache_get (rq_time_text q) key now (rv_cache st) else (rv_cache st, None));
          st1 = st\<lparr>rv_cache := fst looked\<rparr>
      in case snd looked of
           Some der \<Rightarrow> (st1, Inr der)
         | None \<Rightarrow>
             (case (case or_CertDER responder of
                      None \<Rightarrow> Inl CertificateParseFailed
                    | Some d \<Rightarrow> SignDelegatedOCSPResponseWithNonce (rq_x509 q) lib (sv_caCertDER s) d (sv_ocspSigner s)
                                  status serial now nextUpdate revokedAt reason nonce) of
                Inl e \<Rightarrow> (st1, Inl e)
              | Inr der \<Rightarrow>
                  (if nonce = None then st1\<lparr>rv_cache := cache_put (rq_time_text q) key der nextUpdate (rv_cache st1)\<rparr> else st1,
                   Inr der)))"

definition respondOCSP ::
  "rev_env \<Rightarrow> ('q, 'r) ocsp_lib \<Rightarrow> revocationService \<Rightarrow> string \<Rightarrow> 'q \<Rightarrow> 'r rev_state \<Rightarrow> 'r rev_state \<times> (rev_error + 'r)" where
  "respondOCSP q lib s tn req st =
     (case ParseOCSPRequestSerial lib req of Inl e \<Rightarrow> (st, Inl e) | Inr serial \<Rightarrow>
     (case ParseOCSPRequestNonce lib req of Inl e \<Rightarrow> (st, Inl e) | Inr nonce \<Rightarrow>
      let rec = LookupIssuedCert (rv_db st) tn (sv_caID s) serial
      in case activeOCSPResponder q s tn st of
           (st1, Inl e) \<Rightarrow> (st1, Inl e)
         | (st1, Inr responder) \<Rightarrow> respond_with q lib s tn serial nonce (ocsp_answer rec) responder (rq_now q 1) st1))"

section \<open>CRL generation (server/revocation.go)\<close>

function shard_loop :: "int \<Rightarrow> int \<Rightarrow> int" where
  "shard_loop revoked shards =
     (if 0 < shards \<and> shards < 1024 \<and> revoked > shards * 100000 then shard_loop revoked (shards * 2) else shards)"
  by pat_completeness auto
termination by (relation "measure (\<lambda>(_, s). nat (1024 - s))") auto

declare shard_loop.simps [simp del]

definition crlShardCount :: "int \<Rightarrow> int" where
  "crlShardCount revokedCount =
     (if revokedCount \<le> 0 then 0
      else let shards = shard_loop revokedCount 4 in if shards > 1024 then 1024 else shards)"

text \<open>\<open>H\<close> is \<^verbatim>\<open>crypto.SHA256Hex\<close>; \<^verbatim>\<open>ParseUint\<close> of sixteen hexadecimal digits does not overflow.\<close>

definition crlShardIndex :: "(string \<Rightarrow> string) \<Rightarrow> string \<Rightarrow> int \<Rightarrow> int" where
  "crlShardIndex H serial shardCount =
     (if shardCount \<le> 1 then 0
      else case parse_hex (take 16 (H (to_lower (trim_space serial)))) of
             None \<Rightarrow> 0
           | Some n \<Rightarrow> int n mod shardCount)"

definition crlShardEntries :: "(string \<Rightarrow> string) \<Rightarrow> RevokedSerial list \<Rightarrow> int \<Rightarrow> int \<Rightarrow> RevokedSerial list" where
  "crlShardEntries H entries shardIndex shardCount =
     (if shardCount \<le> 0 then [] else filter (\<lambda>e. crlShardIndex H (rs_Serial e) shardCount = shardIndex) entries)"

definition crlDeltaEntries :: "RevokedSerial list \<Rightarrow> gotime \<Rightarrow> RevokedSerial list" where
  "crlDeltaEntries entries since = filter (\<lambda>e. rs_RevokedAt e > since) entries"

definition revoked_serials :: "IssuedCert list \<Rightarrow> RevokedSerial list" where
  "revoked_serials rows =
     map (\<lambda>r. \<lparr>rs_Serial = ic_Serial r, rs_RevokedAt = (case ic_RevokedAt r of None \<Rightarrow> 0 | Some t \<Rightarrow> t),
              rs_Reason = ic_ReasonCode r\<rparr>) rows"

definition rev_publishCRL :: "rev_env \<Rightarrow> CRL \<Rightarrow> 'r rev_state \<Rightarrow> 'r rev_state \<times> rev_error option" where
  "rev_publishCRL q c st =
     append_and_apply q ((new_event (crl_TenantID c) ''ca.crl.published''
       (CRLPublished (crl_CAID c) (crl_Number c) (crl_DER c) (crl_ThisUpdate c) (crl_NextUpdate c) (crl_RevokedCount c)
          (crl_Kind c) (crl_ShardIndex c) (crl_ShardCount c) (crl_DeltaBaseNumber c) (crl_ParentNumber c)))
       \<lparr>ce_SchemaVersion := 3\<rparr>) st"

text \<open>One artifact: take the next number, sign, publish.\<close>

definition publish_artifact ::
  "rev_env \<Rightarrow> revocationService \<Rightarrow> string \<Rightarrow> gotime \<Rightarrow> string \<Rightarrow> int \<Rightarrow> int \<Rightarrow> int option \<Rightarrow> int option \<Rightarrow> RevokedSerial list
     \<Rightarrow> 'r rev_state \<Rightarrow> 'r rev_state \<times> (rev_error + CRL)" where
  "publish_artifact q s tn now kind shard shards base parent entries st =
     (let number = NextCRLNumber (rv_db st) tn (sv_caID s); nextUpdate = now + 7 * (24 * hour)
      in case CreateCRLWithOptions (rq_x509 q) (sv_caCertDER s) (sv_caSigner s) entries number now nextUpdate
                (case base of None \<Rightarrow> 0 | Some b \<Rightarrow> b) of
           Inl e \<Rightarrow> (st, Inl e)
         | Inr content \<Rightarrow>
             (let row = \<lparr>crl_TenantID = tn, crl_CAID = sv_caID s, crl_Number = number, crl_DER = Some content,
                         crl_ThisUpdate = now, crl_NextUpdate = nextUpdate, crl_CreatedAt = 0, crl_Kind = kind,
                         crl_ShardIndex = shard, crl_ShardCount = shards, crl_DeltaBaseNumber = base,
                         crl_ParentNumber = parent, crl_RevokedCount = int (length entries)\<rparr>
              in case rev_publishCRL q row st of
                   (st1, Some e) \<Rightarrow> (st1, Inl e)
                 | (st1, None) \<Rightarrow> (st1, Inr row)))"

fun shard_publish_loop ::
  "rev_env \<Rightarrow> revocationService \<Rightarrow> string \<Rightarrow> gotime \<Rightarrow> RevokedSerial list \<Rightarrow> int \<Rightarrow> int \<Rightarrow> nat list
     \<Rightarrow> 'r rev_state \<Rightarrow> 'r rev_state \<times> rev_error option" where
  "shard_publish_loop q s tn now entries count parent [] st = (st, None)"
| "shard_publish_loop q s tn now entries count parent (i # is) st =
     (case publish_artifact q s tn now ''shard'' (int i) count None (Some parent)
             (crlShardEntries (rq_sha256 q) entries (int i) count) st of
        (st1, Inl e) \<Rightarrow> (st1, Some e)
      | (st1, Inr _) \<Rightarrow> shard_publish_loop q s tn now entries count parent is st1)"

definition generateCRL :: "rev_env \<Rightarrow> revocationService \<Rightarrow> string \<Rightarrow> 'r rev_state \<Rightarrow> 'r rev_state \<times> (rev_error + CRLContent)" where
  "generateCRL q s tn st =
     (case rev_catchUp q st of
        (st1, Some e) \<Rightarrow> (st1, Inl e)
      | (st1, None) \<Rightarrow>
          if \<not> HasIssuedCerts (rv_db st1) tn (sv_caID s) then (st1, Inl NoCRLSurface)
          else
            (let entries = revoked_serials (ListRevokedCerts (rv_db st1) tn (sv_caID s));
                 previous = LatestCRL (rv_db st1) tn (sv_caID s);
                 now = rq_now q 0;
                 shardCount = crlShardCount (int (length entries));
                 fullShardCount = (if shardCount > 0 then shardCount else 1)
             in case publish_artifact q s tn now ''full'' 0 fullShardCount None None entries st1 of
                  (st2, Inl e) \<Rightarrow> (st2, Inl e)
                | (st2, Inr full) \<Rightarrow>
                    (case shard_publish_loop q s tn now entries shardCount (crl_Number full) [0 ..< nat shardCount] st2 of
                       (st3, Some e) \<Rightarrow> (st3, Inl e)
                     | (st3, None) \<Rightarrow>
                         (let done = (\<lambda>st'. (st', case crl_DER full of None \<Rightarrow> Inl SigningFailed | Some c \<Rightarrow> Inr c))
                          in case previous of
                               None \<Rightarrow> done st3
                             | Some prev \<Rightarrow>
                                 (let delta = crlDeltaEntries entries (crl_ThisUpdate prev)
                                  in if delta = [] then done st3
                                     else case publish_artifact q s tn now ''delta'' 0 fullShardCount
                                                 (Some (crl_Number prev)) (Some (crl_Number full)) delta st3 of
                                            (st4, Inl e) \<Rightarrow> (st4, Inl e)
                                          | (st4, Inr _) \<Rightarrow> done st4)))))"

definition ensureCRL :: "rev_env \<Rightarrow> revocationService \<Rightarrow> string \<Rightarrow> 'r rev_state \<Rightarrow> 'r rev_state \<times> rev_error option" where
  "ensureCRL q s tn st =
     (case rev_catchUp q st of
        (st1, Some e) \<Rightarrow> (st1, Some e)
      | (st1, None) \<Rightarrow>
          if \<not> CRLDueForRegeneration (rv_db st1) tn (sv_caID s) (rq_now q 1) (24 * hour) then (st1, None)
          else case generateCRL q s tn st1 of (st2, Inl e) \<Rightarrow> (st2, Some e) | (st2, Inr _) \<Rightarrow> (st2, None))"

text \<open>The sweep: \<open>qs tn\<close> is what the generation for a tenant draws, \<open>now\<close> the sweep's own reading.\<close>

fun regenerate_loop ::
  "(string \<Rightarrow> rev_env) \<Rightarrow> revocationService \<Rightarrow> gotime \<Rightarrow> string list \<Rightarrow> nat \<Rightarrow> 'r rev_state \<Rightarrow> 'r rev_state \<times> nat \<times> rev_error option" where
  "regenerate_loop qs s now [] n st = (st, n, None)"
| "regenerate_loop qs s now (tn # tns) n st =
     (if \<not> CRLDueForRegeneration (rv_db st) tn (sv_caID s) now (24 * hour) then regenerate_loop qs s now tns n st
      else case generateCRL (qs tn) s tn st of
             (st1, Inl e) \<Rightarrow> (st1, n, Some e)
           | (st1, Inr _) \<Rightarrow> regenerate_loop qs s now tns (Suc n) st1)"

definition regenerateDue ::
  "(string \<Rightarrow> rev_env) \<Rightarrow> revocationService \<Rightarrow> gotime \<Rightarrow> 'r rev_state \<Rightarrow> 'r rev_state \<times> nat \<times> rev_error option" where
  "regenerateDue qs s now st = regenerate_loop qs s now (TenantsWithIssuedCerts (rv_db st) (sv_caID s)) 0 st"

section \<open>Reading CRLs (server/revocation.go)\<close>

definition of_row :: "CRL option \<Rightarrow> rev_error + CRLContent" where
  "of_row r = (case r of None \<Rightarrow> Inl CRLNotPublished | Some c \<Rightarrow> (case crl_DER c of None \<Rightarrow> Inl CRLNotPublished | Some d \<Rightarrow> Inr d))"

definition servedCRL :: "revocationService \<Rightarrow> string \<Rightarrow> ca_db \<Rightarrow> rev_error + CRLContent" where
  "servedCRL s tn db =
     (if \<not> HasIssuedCerts db tn (sv_caID s) then Inl NoCRLSurface else of_row (LatestCRL db tn (sv_caID s)))"

definition servedCRLShard :: "revocationService \<Rightarrow> string \<Rightarrow> int \<Rightarrow> ca_db \<Rightarrow> rev_error + CRLContent" where
  "servedCRLShard s tn shardIndex db =
     (if \<not> HasIssuedCerts db tn (sv_caID s) then Inl NoCRLSurface
      else case LatestCRL db tn (sv_caID s) of
             None \<Rightarrow> Inl CRLNotPublished
           | Some full \<Rightarrow>
               if crl_ShardCount full \<le> 1 \<or> shardIndex < 0 \<or> shardIndex \<ge> crl_ShardCount full then Inl CRLNotPublished
               else case LatestCRLShard db tn (sv_caID s) shardIndex of
                      None \<Rightarrow> Inl CRLNotPublished
                    | Some shard \<Rightarrow> if crl_ParentNumber shard \<noteq> Some (crl_Number full) then Inl CRLNotPublished
                                    else of_row (Some shard))"

definition servedDeltaCRL :: "revocationService \<Rightarrow> string \<Rightarrow> int \<Rightarrow> ca_db \<Rightarrow> rev_error + CRLContent" where
  "servedDeltaCRL s tn baseNumber db =
     (if \<not> HasIssuedCerts db tn (sv_caID s) then Inl NoCRLSurface else of_row (LatestDeltaCRL db tn (sv_caID s) baseNumber))"

record crlManifestResponse =
  mr_TenantID :: string
  mr_CAID :: string
  mr_FullURL :: string
  mr_FullNumber :: int
  mr_ShardCount :: int
  mr_Shards :: "(int \<times> string \<times> int) list"
  mr_DeltaURL :: string
  mr_DeltaBaseNumber :: int
  mr_ThisUpdate :: gotime
  mr_NextUpdate :: gotime
  mr_RevokedCount :: int

definition zero_manifest :: crlManifestResponse where
  "zero_manifest = \<lparr>mr_TenantID = [], mr_CAID = [], mr_FullURL = [], mr_FullNumber = 0, mr_ShardCount = 0, mr_Shards = [],
     mr_DeltaURL = [], mr_DeltaBaseNumber = 0, mr_ThisUpdate = 0, mr_NextUpdate = 0, mr_RevokedCount = 0\<rparr>"

definition manifest_step :: "string \<Rightarrow> string \<Rightarrow> CRL \<Rightarrow> crlManifestResponse \<Rightarrow> crlManifestResponse" where
  "manifest_step tn ca a m =
     (if crl_Kind a = ''full''
      then zero_manifest\<lparr>mr_TenantID := tn, mr_CAID := ca, mr_FullURL := ''/crl/'' @ tn, mr_FullNumber := crl_Number a,
             mr_ShardCount := crl_ShardCount a, mr_ThisUpdate := crl_ThisUpdate a, mr_NextUpdate := crl_NextUpdate a,
             mr_RevokedCount := crl_RevokedCount a\<rparr>
      else if crl_Kind a = ''shard''
      then m\<lparr>mr_Shards := mr_Shards m @
               [(crl_ShardIndex a, ''/crl/'' @ tn @ ''/shards/'' @ Itoa (crl_ShardIndex a), crl_RevokedCount a)]\<rparr>
      else if crl_Kind a = ''delta''
      then (case crl_DeltaBaseNumber a of
              None \<Rightarrow> m
            | Some b \<Rightarrow> m\<lparr>mr_DeltaBaseNumber := b, mr_DeltaURL := ''/crl/'' @ tn @ ''/delta/'' @ Itoa b\<rparr>)
      else m)"

definition servedCRLManifest :: "revocationService \<Rightarrow> string \<Rightarrow> ca_db \<Rightarrow> rev_error + crlManifestResponse" where
  "servedCRLManifest s tn db =
     (if \<not> HasIssuedCerts db tn (sv_caID s) then Inl NoCRLSurface
      else let m = fold (manifest_step tn (sv_caID s)) (ListLatestCRLArtifacts db tn (sv_caID s)) zero_manifest
           in if mr_FullNumber m = 0 then Inl CRLNotPublished else Inr m)"

text \<open>\<open>H\<close> is \<^verbatim>\<open>crypto.SHA256Hex\<close> of the encoded CRL.\<close>

definition weakCRLETag :: "(bytes \<Rightarrow> string) \<Rightarrow> bytes \<Rightarrow> string" where
  "weakCRLETag H der = ''W/'' @ [CHR 0x22] @ take 32 (H der) @ [CHR 0x22]"

definition crlIfNoneMatch :: "string \<Rightarrow> string \<Rightarrow> bool" where
  "crlIfNoneMatch header etag =
     (header \<noteq> '''' \<and> list_ex (\<lambda>c. let m = trim_space c in m = etag \<or> m = ''*'') (split_byte CHR '','' header))"

section \<open>The in-process service (ca/revocation/revocation.go)\<close>

text \<open>\<open>lookup\<close> resolves the signing CA of a tenant; its key may have been destroyed.\<close>

definition Service_RecordIssued :: "rev_env \<Rightarrow> string \<Rightarrow> string \<Rightarrow> string \<Rightarrow> 'r rev_state \<Rightarrow> 'r rev_state \<times> rev_error option" where
  "Service_RecordIssued q tn ca serial st =
     append_and_apply q (new_event tn ''ca.certificate.issued''
       (CAIssuedCertificate ca serial (rq_now q 0) ''ca-revocation-service'')) st"

definition Service_Revoke :: "rev_env \<Rightarrow> string \<Rightarrow> string \<Rightarrow> string \<Rightarrow> int \<Rightarrow> 'r rev_state \<Rightarrow> 'r rev_state \<times> rev_error option" where
  "Service_Revoke q tn ca serial reasonCode st =
     append_and_apply q (new_event tn ''ca.certificate.revoked''
       (RevokedPayload \<lparr>rv_CAID = ca, rv_Serial = serial, rv_Reason = 0, rv_ReasonCode = reasonCode,
          rv_RevokedAt = rq_now q 0, rv_Source = ''ca-revocation-service''\<rparr>)) st"

definition CA_SignOCSP ::
  "('q, 'r) ocsp_lib \<Rightarrow> CA \<Rightarrow> string \<Rightarrow> string \<Rightarrow> gotime \<Rightarrow> gotime \<Rightarrow> gotime \<Rightarrow> int \<Rightarrow> rev_error + 'r" where
  "CA_SignOCSP lib c status serialHex thisUpdate nextUpdate revokedAt reason =
     (case SetString16 serialHex of None \<Rightarrow> Inl (InvalidSerial serialHex) | Some serial \<Rightarrow>
     (case ca_key c of None \<Rightarrow> Inl SignerUnusable | Some k \<Rightarrow>
     (case ol_CreateResponse lib (ca_cert c) (ca_cert c)
             (response_template serial status thisUpdate nextUpdate revokedAt reason None []) (honest_signer k) of
        None \<Rightarrow> Inl SigningFailed
      | Some d \<Rightarrow> Inr d)))"

definition Service_respond ::
  "rev_env \<Rightarrow> ('q, 'r) ocsp_lib \<Rightarrow> (string \<Rightarrow> string \<Rightarrow> CA option) \<Rightarrow> duration \<Rightarrow> string \<Rightarrow> string \<Rightarrow> 'q \<Rightarrow> ca_db \<Rightarrow> rev_error + 'r" where
  "Service_respond q lib lookup cacheTTL tn ca req db =
     (case ParseOCSPRequestSerial lib req of Inl e \<Rightarrow> Inl e | Inr serial \<Rightarrow>
      let rec = LookupIssuedCert db tn ca serial
      in case lookup tn ca of
           None \<Rightarrow> Inl (NoCAFor ca)
         | Some c \<Rightarrow>
             (case ocsp_answer rec of (status, revokedAt, reason) \<Rightarrow>
                let now = rq_now q 0 in CA_SignOCSP lib c status serial now (now + cacheTTL) revokedAt reason))"

text \<open>Here a revoked serial's reason code is not checked again.\<close>

fun ca_crl_entries :: "RevokedSerial list \<Rightarrow> rev_error + (int \<times> gotime \<times> int) list" where
  "ca_crl_entries [] = Inr []"
| "ca_crl_entries (r # rs) =
     (case SetString16 (rs_Serial r) of
        None \<Rightarrow> Inl (InvalidSerial (rs_Serial r))
      | Some n \<Rightarrow>
          (case ca_crl_entries rs of
             Inl e \<Rightarrow> Inl e
           | Inr es \<Rightarrow> Inr ((n, trunc_second (rs_RevokedAt r), rs_Reason r) # es)))"

definition CA_CreateCRL :: "CA \<Rightarrow> RevokedSerial list \<Rightarrow> int \<Rightarrow> gotime \<Rightarrow> gotime \<Rightarrow> rev_error + CRLContent" where
  "CA_CreateCRL c revoked number thisUpdate nextUpdate =
     (case ca_crl_entries revoked of Inl e \<Rightarrow> Inl e | Inr entries \<Rightarrow>
     (case ca_key c of None \<Rightarrow> Inl SignerUnusable | Some k \<Rightarrow>
     (case CreateRevocationList (ca_cert c) (honest_signer k) number thisUpdate nextUpdate entries None of
        None \<Rightarrow> Inl SigningFailed
      | Some d \<Rightarrow> Inr d)))"

definition Service_GenerateCRL ::
  "rev_env \<Rightarrow> (string \<Rightarrow> string \<Rightarrow> CA option) \<Rightarrow> duration \<Rightarrow> string \<Rightarrow> string \<Rightarrow> 'r rev_state \<Rightarrow> 'r rev_state \<times> (rev_error + CRLContent)" where
  "Service_GenerateCRL q lookup crlValidity tn ca st =
     (case rev_catchUp q st of
        (st1, Some e) \<Rightarrow> (st1, Inl e)
      | (st1, None) \<Rightarrow>
          (let entries = revoked_serials (ListRevokedCerts (rv_db st1) tn ca);
               number = NextCRLNumber (rv_db st1) tn ca
           in case lookup tn ca of
                None \<Rightarrow> (st1, Inl (NoCAFor ca))
              | Some c \<Rightarrow>
                  (let now = rq_now q 0; nextUpdate = now + crlValidity
                   in case CA_CreateCRL c entries number now nextUpdate of
                        Inl e \<Rightarrow> (st1, Inl e)
                      | Inr content \<Rightarrow>
                          (case rev_publishCRL q
                                  \<lparr>crl_TenantID = tn, crl_CAID = ca, crl_Number = number, crl_DER = Some content,
                                   crl_ThisUpdate = now, crl_NextUpdate = nextUpdate, crl_CreatedAt = 0, crl_Kind = '''',
                                   crl_ShardIndex = 0, crl_ShardCount = 0, crl_DeltaBaseNumber = None,
                                   crl_ParentNumber = None, crl_RevokedCount = int (length entries)\<rparr> st1 of
                             (st2, Some e) \<Rightarrow> (st2, Inl e)
                           | (st2, None) \<Rightarrow> (st2, Inr content)))))"

definition Service_LatestCRL :: "string \<Rightarrow> string \<Rightarrow> ca_db \<Rightarrow> rev_error + CRLContent" where
  "Service_LatestCRL tn ca db = of_row (LatestCRL db tn ca)"

section \<open>Revoked rows and the status of serials\<close>

definition issued_wf :: "ca_db \<Rightarrow> bool" where
  "issued_wf db = distinct (map issued_key (db_issued db))"

lemma issued_wf_cong: "db_issued db' = db_issued db \<Longrightarrow> issued_wf db' = issued_wf db"
  by (simp add: issued_wf_def)

lemma issued_wf_record: "issued_wf db \<Longrightarrow> issued_wf (RecordIssuedCertTx tn ca s t db)"
  by (auto simp: RecordIssuedCertTx_def issued_wf_def find_issued_def find_None_iff issued_key_def)

lemma issued_wf_revoke:
  assumes "issued_wf db" and "RevokeIssuedCertTx tn ca s r t db = Inr db'"
  shows "issued_wf db'"
proof (cases "find_issued db (tn, ca, s) = None")
  case True
  with assms show ?thesis
    by (auto simp: RevokeIssuedCertTx_def issued_wf_def find_issued_def find_None_iff issued_key_def split: if_splits)
next
  case False
  with assms(2) have "map issued_key (db_issued db') = map issued_key (db_issued db)"
    by (auto simp: RevokeIssuedCertTx_def issued_key_def split: if_splits)
  with assms(1) show ?thesis by (simp add: issued_wf_def)
qed

lemma issued_wf_ApplyTx:
  assumes "issued_wf db" and "ca_ApplyTx now e db = Inr db'"
  shows "issued_wf db'"
  using assms(2)
proof (cases rule: ca_ApplyTx_cases)
  case (issued ca serial at src)
  with assms(1) show ?thesis by (simp add: issued_wf_record)
next
  case (revoked pl)
  from issued_wf_revoke [OF assms(1) revoked(3)] show ?thesis .
next
  case (started i purpose threshold opener)
  show ?thesis unfolding started(5) using assms(1) issued_wf_cong [OF Started_issued] by blast
next
  case (approved i custodian n)
  from issued_wf_cong [OF Approved_issued [OF approved(3)]] assms(1) show ?thesis by simp
next
  case authorities
  then have "db_issued db' = db_issued (db\<lparr>db_authorities := db_authorities db'\<rparr>)" by (intro arg_cong [where f = db_issued])
  with assms(1) show ?thesis by (simp add: issued_wf_def)
next
  case (crl row)
  show ?thesis unfolding crl(2) using assms(1) issued_wf_cong [OF InsertCRLTx_issued] by blast
next
  case (responder r)
  show ?thesis unfolding responder(2) using assms(1) issued_wf_cong [OF UpsertOCSPResponderTx_issued] by blast
qed (use assms in simp)

lemma issued_wf_catch_up_loop: "issued_wf db \<Longrightarrow> issued_wf (fst (catch_up_loop clock es since db))"
  by (induction clock es since db rule: catch_up_loop.induct)
    (auto simp: AdvanceProjectionCheckpoint_def issued_wf_def split: sum.splits dest: issued_wf_ApplyTx [unfolded issued_wf_def])

lemma issued_wf_ProjectCatchUp: "issued_wf db \<Longrightarrow> issued_wf (fst (ProjectCatchUp clock lg db))"
  using issued_wf_catch_up_loop [of db clock "Replay lg (db_checkpoint db + 1)" 0]
  by (auto simp: ProjectCatchUp_def Let_def AdvanceProjectionCheckpoint_def issued_wf_def split: prod.splits option.splits)

lemma find_unique:
  assumes "distinct (map f xs)" "x \<in> set xs"
  shows "List.find (\<lambda>y. f y = f x) xs = Some x"
  using assms by (induction xs) auto

lemma status_of_revoked_iff:
  assumes "issued_wf db"
  shows "status_of db (tn, ca, s) = StRevoked t r \<longleftrightarrow>
     (\<exists>c \<in> set (db_issued db). issued_key c = (tn, ca, s) \<and> ic_RevokedAt c = Some t \<and> ic_ReasonCode c = r)"
proof
  assume "status_of db (tn, ca, s) = StRevoked t r"
  then show "\<exists>c \<in> set (db_issued db). issued_key c = (tn, ca, s) \<and> ic_RevokedAt c = Some t \<and> ic_ReasonCode c = r"
    by (auto simp: status_of_def find_issued_def dest!: find_Some_iff split: option.splits)
next
  assume "\<exists>c \<in> set (db_issued db). issued_key c = (tn, ca, s) \<and> ic_RevokedAt c = Some t \<and> ic_ReasonCode c = r"
  then obtain c where c: "c \<in> set (db_issued db)" "issued_key c = (tn, ca, s)" "ic_RevokedAt c = Some t" "ic_ReasonCode c = r" by blast
  from find_unique [OF assms [unfolded issued_wf_def] c(1)] c(2-4) show "status_of db (tn, ca, s) = StRevoked t r"
    by (simp add: status_of_def find_issued_def)
qed

text \<open>The rows listed for a CRL are the revoked serials of the tenant under the CA.\<close>

lemma revoked_serials_iff:
  assumes "issued_wf db"
  shows "\<lparr>rs_Serial = s, rs_RevokedAt = t, rs_Reason = r\<rparr> \<in> set (revoked_serials (ListRevokedCerts db tn ca))
           \<longleftrightarrow> status_of db (tn, ca, s) = StRevoked t r"
  by (auto simp: revoked_serials_def ListRevokedCerts_def status_of_revoked_iff [OF assms] issued_key_def image_iff
      split: option.splits)

lemma revoked_serials_member:
  "issued_wf db \<Longrightarrow> x \<in> set (revoked_serials (ListRevokedCerts db tn ca))
     \<longleftrightarrow> status_of db (tn, ca, rs_Serial x) = StRevoked (rs_RevokedAt x) (rs_Reason x)"
  using revoked_serials_iff [of db "rs_Serial x" "rs_RevokedAt x" "rs_Reason x" tn ca] by (cases x) simp

lemma crl_entries_set:
  "crl_entries rs = Inr es \<Longrightarrow>
     (n, t, r) \<in> set es \<longleftrightarrow> (\<exists>x \<in> set rs. SetString16 (rs_Serial x) = Some n \<and> t = trunc_second (rs_RevokedAt x) \<and> r = rs_Reason x)"
  by (induction rs arbitrary: es) (auto split: if_splits option.splits sum.splits)

lemma crl_entries_mono:
  "crl_entries rs = Inr es \<Longrightarrow> set xs \<subseteq> set rs \<Longrightarrow> \<exists>fs. crl_entries xs = Inr fs"
proof (induction xs)
  case (Cons x xs)
  then have x: "x \<in> set rs" by simp
  have "crl_entries rs = Inr es \<Longrightarrow> x \<in> set rs \<Longrightarrow> ValidCRLReasonCode (rs_Reason x) \<and> (\<exists>n. SetString16 (rs_Serial x) = Some n)"
    for rs es by (induction rs arbitrary: es) (auto split: if_splits option.splits sum.splits)
  from this [OF Cons.prems(1) x] Cons show ?case by auto
qed simp

section \<open>Publication\<close>

lemma NextCRLNumber_fresh: "c \<in> set (crls_of db tn ca) \<Longrightarrow> crl_Number c < NextCRLNumber db tn ca"
proof -
  have "x \<in> set ns \<Longrightarrow> x \<le> foldr max (tl ns) (hd ns)" for x and ns :: "int list"
  proof (cases ns)
    case (Cons y ys)
    have "(x = y \<or> x \<in> set ys) \<Longrightarrow> x \<le> foldr max ys y" by (induction ys) auto
    then show "x \<in> set ns \<Longrightarrow> ?thesis" using Cons by simp
  qed simp
  then show "c \<in> set (crls_of db tn ca) \<Longrightarrow> ?thesis" by (force simp: NextCRLNumber_def Let_def)
qed

lemma InsertCRLTx_fresh:
  assumes "crl_TenantID c = tn" "crl_CAID c = ca" "crl_Number c = NextCRLNumber db tn ca"
  obtains row where "InsertCRLTx now c db = db\<lparr>db_crls := db_crls db @ [row]\<rparr>"
    "row = (normalizeCRL c)\<lparr>crl_CreatedAt := crl_CreatedAt row\<rparr>"
proof -
  have "\<not> list_ex (\<lambda>x. crl_key x = (tn, ca, crl_Number c)) (db_crls db)"
    using NextCRLNumber_fresh [of _ db tn ca] assms(3) by (fastforce simp: list_ex_iff crl_key_def crls_of_def)
  then have fresh: "\<not> list_ex (\<lambda>x. crl_key x = crl_key ((normalizeCRL c)\<lparr>crl_CreatedAt := t\<rparr>)) (db_crls db)" for t
    using assms(1,2) by (simp add: crl_key_def normalizeCRL_def)
  let ?t = "if crl_CreatedAt (normalizeCRL c) \<noteq> 0 then crl_CreatedAt (normalizeCRL c)
            else if crl_ThisUpdate (normalizeCRL c) \<noteq> 0 then crl_ThisUpdate (normalizeCRL c) else now"
  have "InsertCRLTx now c db = db\<lparr>db_crls := db_crls db @ [(normalizeCRL c)\<lparr>crl_CreatedAt := ?t\<rparr>]\<rparr>"
    unfolding InsertCRLTx_def Let_def using fresh [of ?t] by (simp only: if_False)
  then show thesis by (rule that) simp
qed

text \<open>A row as it is stored: what was published, but for the times.\<close>

definition published_as :: "CRL \<Rightarrow> CRL \<Rightarrow> bool" where
  "published_as row c =
     (crl_TenantID row = crl_TenantID c \<and> crl_CAID row = crl_CAID c \<and> crl_Number row = crl_Number c \<and> crl_DER row = crl_DER c
      \<and> crl_Kind row = crl_Kind c \<and> crl_ShardIndex row = crl_ShardIndex c \<and> crl_ShardCount row = crl_ShardCount c
      \<and> crl_DeltaBaseNumber row = crl_DeltaBaseNumber c \<and> crl_ParentNumber row = crl_ParentNumber c)"

lemma rev_publishCRL_ok:
  assumes "rev_publishCRL q c st = (st', None)" and "crl_Number c = NextCRLNumber (rv_db st) (crl_TenantID c) (crl_CAID c)"
    and "crl_Kind c \<noteq> ''''" and "crl_ShardCount c \<noteq> 0"
  obtains row where "rv_db st' = (rv_db st)\<lparr>db_crls := db_crls (rv_db st) @ [row]\<rparr>" "published_as row c" "rv_cache st' = rv_cache st"
proof -
  let ?pub = "CRLPublished (crl_CAID c) (crl_Number c) (crl_DER c) (crl_ThisUpdate c) (crl_NextUpdate c) (crl_RevokedCount c)
          (crl_Kind c) (crl_ShardIndex c) (crl_ShardCount c) (crl_DeltaBaseNumber c) (crl_ParentNumber c)"
  let ?ev = "(new_event (crl_TenantID c) ''ca.crl.published'' ?pub) \<lparr>ce_SchemaVersion := 3\<rparr>"
  from assms(1) obtain lg ev where ap: "Append_event (rq_append q (Suc (lg_last (rv_log st)))) ?ev (rv_log st) = Inr (lg, ev)"
    and ok: "ca_ApplyTx (rq_apply q (ce_Sequence ev)) ev (rv_db st) = Inr (rv_db st')" and cache: "rv_cache st' = rv_cache st"
    by (auto simp: rev_publishCRL_def append_and_apply_def split: sum.splits prod.splits)
  from ap have ev: "ce_Type ev = ''ca.crl.published''" "ce_TenantID ev = crl_TenantID c" "ce_SchemaVersion ev = 3" "ce_Data ev = ?pub"
    by (auto simp: Append_event_def Let_def new_event_def split: if_splits)
  let ?row = "\<lparr>crl_TenantID = crl_TenantID c, crl_CAID = crl_CAID c, crl_Number = crl_Number c, crl_DER = crl_DER c,
     crl_ThisUpdate = orZero (crl_ThisUpdate c) (ce_Time ev), crl_NextUpdate = crl_NextUpdate c,
     crl_CreatedAt = ce_Time ev, crl_Kind = crl_Kind c, crl_ShardIndex = crl_ShardIndex c, crl_ShardCount = crl_ShardCount c,
     crl_DeltaBaseNumber = crl_DeltaBaseNumber c, crl_ParentNumber = crl_ParentNumber c, crl_RevokedCount = crl_RevokedCount c\<rparr>"
  from ok ev have ins: "rv_db st' = InsertCRLTx (rq_apply q (ce_Sequence ev)) ?row (rv_db st)"
    by (simp add: ca_ApplyTx_def ca_ValidateSchemaVersion_def ca_schema_versions_def Let_def project_crl_def split: if_splits)
  obtain row where "InsertCRLTx (rq_apply q (ce_Sequence ev)) ?row (rv_db st) = (rv_db st)\<lparr>db_crls := db_crls (rv_db st) @ [row]\<rparr>"
    "row = (normalizeCRL ?row)\<lparr>crl_CreatedAt := crl_CreatedAt row\<rparr>"
    by (rule InsertCRLTx_fresh [of ?row _ _ "rv_db st"]) (use assms(2) in simp_all)
  moreover from this(2) have "published_as row c"
    by (rule ssubst) (use assms(3,4) in \<open>simp add: published_as_def normalizeCRL_def\<close>)
  ultimately show thesis using that ins cache by simp
qed

lemma CreateCRLWithOptions_ok:
  assumes "CreateCRLWithOptions env ca signer revoked number thisU nextU base = Inr content"
  shows "crl_entries revoked = Inr (cl_Entries content)" "cl_Number content = number"
    "cl_DeltaBase content = (if base > 0 then Some base else None)" "cl_SignedBy content = ds_Public signer"
  using assms by (auto simp: CreateCRLWithOptions_def CreateRevocationList_def crlExtraExtensions_def
      split: option.splits if_splits sum.splits)

lemma publish_artifact_ok:
  assumes "publish_artifact q s tn now kind shard shards base parent entries st = (st', Inr c)"
    and "kind \<noteq> ''''" and "shards \<noteq> 0"
  obtains row content where "rv_db st' = (rv_db st)\<lparr>db_crls := db_crls (rv_db st) @ [row]\<rparr>" "published_as row c"
    "crl_TenantID c = tn" "crl_CAID c = sv_caID s" "crl_Kind c = kind" "crl_ShardIndex c = shard" "crl_ShardCount c = shards"
    "crl_DeltaBaseNumber c = base" "crl_ParentNumber c = parent" "crl_DER c = Some content"
    "crl_Number c = NextCRLNumber (rv_db st) tn (sv_caID s)" "crl_entries entries = Inr (cl_Entries content)"
    "cl_Number content = crl_Number c" "cl_DeltaBase content = (case base of None \<Rightarrow> None | Some b \<Rightarrow> if b > 0 then Some b else None)"
    "rv_cache st' = rv_cache st"
proof -
  let ?n = "NextCRLNumber (rv_db st) tn (sv_caID s)"
  from assms(1) obtain content where content:
    "CreateCRLWithOptions (rq_x509 q) (sv_caCertDER s) (sv_caSigner s) entries ?n now (now + 7 * (24 * hour))
       (case base of None \<Rightarrow> 0 | Some b \<Rightarrow> b) = Inr content"
    and c: "c = \<lparr>crl_TenantID = tn, crl_CAID = sv_caID s, crl_Number = ?n, crl_DER = Some content,
                         crl_ThisUpdate = now, crl_NextUpdate = now + 7 * (24 * hour), crl_CreatedAt = 0, crl_Kind = kind,
                         crl_ShardIndex = shard, crl_ShardCount = shards, crl_DeltaBaseNumber = base,
                         crl_ParentNumber = parent, crl_RevokedCount = int (length entries)\<rparr>"
    and pub: "rev_publishCRL q c st = (st', None)"
    by (auto simp: publish_artifact_def Let_def split: sum.splits prod.splits option.splits)
  obtain row where "rv_db st' = (rv_db st)\<lparr>db_crls := db_crls (rv_db st) @ [row]\<rparr>" "published_as row c" "rv_cache st' = rv_cache st"
    by (rule rev_publishCRL_ok [OF pub]) (use assms(2,3) c in simp_all)
  then show thesis using CreateCRLWithOptions_ok [OF content]
    by (intro that [of row content]) (simp_all add: c split: option.splits)
qed

section \<open>What a generation leaves behind\<close>

definition crl_row :: "revocationService \<Rightarrow> string \<Rightarrow> string \<Rightarrow> RevokedSerial list \<Rightarrow> CRL \<Rightarrow> bool" where
  "crl_row s tn kind entries row =
     (crl_TenantID row = tn \<and> crl_CAID row = sv_caID s \<and> crl_Kind row = kind
      \<and> (\<exists>content. crl_DER row = Some content \<and> crl_entries entries = Inr (cl_Entries content) \<and> cl_Number content = crl_Number row
           \<and> cl_DeltaBase content = (case crl_DeltaBaseNumber row of None \<Rightarrow> None | Some b \<Rightarrow> if b > 0 then Some b else None)))"

definition shard_row :: "(string \<Rightarrow> string) \<Rightarrow> revocationService \<Rightarrow> string \<Rightarrow> RevokedSerial list \<Rightarrow> int \<Rightarrow> int \<Rightarrow> nat \<Rightarrow> CRL \<Rightarrow> bool" where
  "shard_row H s tn entries count parent i row =
     (crl_row s tn ''shard'' (crlShardEntries H entries (int i) count) row
      \<and> crl_ShardIndex row = int i \<and> crl_ParentNumber row = Some parent)"

text \<open>\<open>extends s tn db rows db'\<close>: the CRL rows \<open>rows\<close> were added for a tenant, all numbered above the earlier ones.\<close>

definition crl_extends :: "revocationService \<Rightarrow> string \<Rightarrow> ca_db \<Rightarrow> CRL list \<Rightarrow> ca_db \<Rightarrow> bool" where
  "crl_extends s tn db rows db' =
     (db' = db\<lparr>db_crls := db_crls db @ rows\<rparr> \<and> (\<forall>row \<in> set rows. crl_TenantID row = tn \<and> crl_CAID row = sv_caID s
        \<and> (\<forall>c \<in> set (crls_of db tn (sv_caID s)). crl_Number c < crl_Number row)))"

lemma crl_extends_trans:
  "crl_extends s tn db xs db1 \<Longrightarrow> crl_extends s tn db1 ys db2 \<Longrightarrow> crl_extends s tn db (xs @ ys) db2"
  by (auto simp: crl_extends_def crls_of_def)

lemma publish_artifact_row:
  assumes "publish_artifact q s tn now kind shard shards base parent entries st = (st', Inr c)" and "kind \<noteq> ''''" and "shards \<noteq> 0"
  obtains row where "crl_extends s tn (rv_db st) [row] (rv_db st')" "crl_row s tn kind entries row" "published_as row c"
    "crl_ShardIndex row = shard" "crl_ShardCount row = shards" "crl_DeltaBaseNumber row = base" "crl_ParentNumber row = parent"
    "crl_Number row = NextCRLNumber (rv_db st) tn (sv_caID s)"
  using assms
proof (rule publish_artifact_ok)
  fix row content
  assume h: "rv_db st' = (rv_db st)\<lparr>db_crls := db_crls (rv_db st) @ [row]\<rparr>" "published_as row c"
    "crl_TenantID c = tn" "crl_CAID c = sv_caID s" "crl_Kind c = kind" "crl_ShardIndex c = shard" "crl_ShardCount c = shards"
    "crl_DeltaBaseNumber c = base" "crl_ParentNumber c = parent" "crl_DER c = Some content"
    "crl_Number c = NextCRLNumber (rv_db st) tn (sv_caID s)" "crl_entries entries = Inr (cl_Entries content)"
    "cl_Number content = crl_Number c" "cl_DeltaBase content = (case base of None \<Rightarrow> None | Some b \<Rightarrow> if b > 0 then Some b else None)"
  show thesis
  proof (rule that)
    show "crl_extends s tn (rv_db st) [row] (rv_db st')"
      using h NextCRLNumber_fresh [of _ "rv_db st" tn "sv_caID s"] by (auto simp: crl_extends_def published_as_def)
    show "crl_row s tn kind entries row" using h by (auto simp: crl_row_def published_as_def)
  qed (use h in \<open>simp_all add: published_as_def\<close>)
qed

lemma shard_publish_loop_ok:
  assumes "shard_publish_loop q s tn now entries count parent is st = (st', None)" and "count \<noteq> 0"
  shows "\<exists>rows. crl_extends s tn (rv_db st) rows (rv_db st') \<and> list_all2 (shard_row (rq_sha256 q) s tn entries count parent) is rows"
  using assms(1)
proof (induction "is" arbitrary: st)
  case Nil
  then show ?case by (intro exI [of _ "[]"]) (simp add: crl_extends_def)
next
  case (Cons i "is")
  from Cons.prems obtain st1 c where art: "publish_artifact q s tn now ''shard'' (int i) count None (Some parent)
             (crlShardEntries (rq_sha256 q) entries (int i) count) st = (st1, Inr c)"
    and rest: "shard_publish_loop q s tn now entries count parent is st1 = (st', None)"
    by (auto split: prod.splits sum.splits)
  obtain row where row: "crl_extends s tn (rv_db st) [row] (rv_db st1)"
    "crl_row s tn ''shard'' (crlShardEntries (rq_sha256 q) entries (int i) count) row"
    "crl_ShardIndex row = int i" "crl_ParentNumber row = Some parent"
    by (rule publish_artifact_row [OF art _ assms(2)]) auto
  from Cons.IH [OF rest] obtain rows where rows: "crl_extends s tn (rv_db st1) rows (rv_db st')"
    "list_all2 (shard_row (rq_sha256 q) s tn entries count parent) is rows" by blast
  have "shard_row (rq_sha256 q) s tn entries count parent i row" using row(2-4) by (simp add: shard_row_def)
  with crl_extends_trans [OF row(1) rows(1)] rows(2) show ?case by (intro exI [of _ "row # rows"]) simp
qed

lemma crlShardCount_pos: "crlShardCount n > 0 \<longleftrightarrow> n > 0"
proof -
  have "0 < k \<Longrightarrow> shard_loop n k > 0" for k
    by (induction n k rule: shard_loop.induct) (subst shard_loop.simps, simp)
  then show ?thesis by (simp add: crlShardCount_def Let_def)
qed

lemma first_desc_Some:
  assumes "x \<in> set xs" and "\<And>y. y \<in> set xs \<Longrightarrow> y \<noteq> x \<Longrightarrow> key y < key x"
  shows "first_desc key xs = Some x"
proof -
  let ?ys = "sort_key key xs"
  have ne: "?ys \<noteq> []" using assms(1) by (metis set_sort empty_iff list.set(1))
  then have "key z \<le> key (last ?ys)" if "z \<in> set ?ys" for z
  proof -
    from that obtain i where "i < length ?ys" "z = ?ys ! i" by (metis in_set_conv_nth)
    then show ?thesis using sorted_nth_mono [of "map key ?ys" i "length ?ys - 1"] ne by (simp add: last_conv_nth)
  qed
  moreover have "last ?ys \<in> set xs" using ne by (metis last_in_set set_sort)
  ultimately have "last ?ys = x" using assms by (metis set_sort leD)
  moreover have "rev ?ys = last ?ys # tl (rev ?ys)" using ne by (metis hd_rev list.collapse rev_is_Nil_conv)
  ultimately show ?thesis unfolding first_desc_def by (metis list.simps(5))
qed

definition delta_row :: "revocationService \<Rightarrow> string \<Rightarrow> CRL \<Rightarrow> CRL \<Rightarrow> RevokedSerial list \<Rightarrow> CRL \<Rightarrow> bool" where
  "delta_row s tn prev full delta row =
     (crl_row s tn ''delta'' delta row \<and> crl_DeltaBaseNumber row = Some (crl_Number prev) \<and> crl_ParentNumber row = Some (crl_Number full))"

text \<open>The rows a generation appends: the full CRL, one row per shard, and a delta when a full CRL existed
  before and revocations are newer than it.\<close>

lemma generateCRL_rows:
  assumes "generateCRL q s tn st = (st', Inr content)"
  defines "db1 \<equiv> rv_db (fst (rev_catchUp q st))"
  defines "entries \<equiv> revoked_serials (ListRevokedCerts db1 tn (sv_caID s))"
  defines "count \<equiv> crlShardCount (int (length entries))"
  obtains full shards deltas where
    "HasIssuedCerts db1 tn (sv_caID s)"
    "crl_extends s tn db1 (full # shards @ deltas) (rv_db st')"
    "crl_row s tn ''full'' entries full" "crl_DER full = Some content" "crl_DeltaBaseNumber full = None" "crl_ParentNumber full = None"
    "crl_ShardCount full = (if count > 0 then count else 1)"
    "list_all2 (shard_row (rq_sha256 q) s tn entries count (crl_Number full)) [0 ..< nat count] shards"
    "\<forall>row \<in> set (shards @ deltas). crl_Number full < crl_Number row"
    "\<forall>row \<in> set deltas. \<exists>prev. LatestCRL db1 tn (sv_caID s) = Some prev
        \<and> delta_row s tn prev full (crlDeltaEntries entries (crl_ThisUpdate prev)) row"
    "\<forall>prev. LatestCRL db1 tn (sv_caID s) = Some prev \<longrightarrow> crlDeltaEntries entries (crl_ThisUpdate prev) \<noteq> [] \<longrightarrow> deltas \<noteq> []"
    "length deltas \<le> 1"
proof -
  define st1 where "st1 = fst (rev_catchUp q st)"
  have db1: "db1 = rv_db st1" by (simp add: db1_def st1_def)
  let ?shards = "if count > 0 then count else 1"
  let ?now = "rq_now q 0"
  obtain err where cu: "rev_catchUp q st = (st1, err)" by (simp add: st1_def prod_eq_iff)
  note gen = assms(1) [unfolded generateCRL_def cu prod.case Let_def, folded db1, folded entries_def, folded count_def]
  from gen have e: "err = None" by (auto split: option.splits)
  from gen e have has: "HasIssuedCerts db1 tn (sv_caID s)" by (auto split: if_splits)
  note gen = gen [unfolded e option.case, simplified has not_True_eq_False if_False]
  from gen obtain st2 full0 where pf: "publish_artifact q s tn ?now ''full'' 0 ?shards None None entries st1 = (st2, Inr full0)"
    by (auto split: prod.splits sum.splits)
  note gen = gen [unfolded pf prod.case sum.case]
  from gen obtain st3 where lp: "shard_publish_loop q s tn ?now entries count (crl_Number full0) [0 ..< nat count] st2 = (st3, None)"
    by (auto split: prod.splits option.splits)
  note gen = gen [unfolded lp prod.case option.case]
  obtain full where full: "crl_extends s tn db1 [full] (rv_db st2)" "crl_row s tn ''full'' entries full" "published_as full full0"
    "crl_ShardCount full = ?shards" "crl_DeltaBaseNumber full = None" "crl_ParentNumber full = None"
    unfolding db1 by (rule publish_artifact_row [OF pf]) auto
  have num: "crl_Number full0 = crl_Number full" "crl_DER full0 = crl_DER full" using full(3) by (simp_all add: published_as_def)
  obtain shards where shards: "crl_extends s tn (rv_db st2) shards (rv_db st3)"
    "list_all2 (shard_row (rq_sha256 q) s tn entries count (crl_Number full)) [0 ..< nat count] shards"
  proof (cases "count = 0")
    case True
    with lp that [of "[]"] show thesis by (simp add: crl_extends_def)
  next
    case False
    from shard_publish_loop_ok [OF lp False] num(1) that show thesis by auto
  qed
  have above: "\<forall>row \<in> set rows. crl_Number full < crl_Number row" if "crl_extends s tn (rv_db st2) rows d" for rows d
    using that full(1) by (auto simp: crl_extends_def crls_of_def)
  show thesis
  proof (cases "\<exists>prev. LatestCRL db1 tn (sv_caID s) = Some prev \<and> crlDeltaEntries entries (crl_ThisUpdate prev) \<noteq> []")
    case False
    with gen have "st' = st3" "crl_DER full = Some content" by (auto simp: num split: option.splits if_splits)
    with False full shards crl_extends_trans [OF full(1) shards(1)] above [OF shards(1)] has show thesis
      by (intro that [of full shards "[]"]) auto
  next
    case True
    then obtain prev where prev: "LatestCRL db1 tn (sv_caID s) = Some prev" "crlDeltaEntries entries (crl_ThisUpdate prev) \<noteq> []" by blast
    let ?delta = "crlDeltaEntries entries (crl_ThisUpdate prev)"
    from gen prev obtain st4 c where pd: "publish_artifact q s tn ?now ''delta'' 0 ?shards (Some (crl_Number prev))
        (Some (crl_Number full)) ?delta st3 = (st4, Inr c)" "st' = st4" "crl_DER full = Some content"
      by (auto simp: num split: prod.splits sum.splits option.splits)
    obtain d where d: "crl_extends s tn (rv_db st3) [d] (rv_db st4)" "crl_row s tn ''delta'' ?delta d"
      "crl_DeltaBaseNumber d = Some (crl_Number prev)" "crl_ParentNumber d = Some (crl_Number full)"
      by (rule publish_artifact_row [OF pd(1)]) auto
    from crl_extends_trans [OF shards(1) d(1)] have sd: "crl_extends s tn (rv_db st2) (shards @ [d]) (rv_db st4)" .
    have "delta_row s tn prev full ?delta d" using d(2-4) by (simp add: delta_row_def)
    with full shards crl_extends_trans [OF full(1) sd] above [OF sd] has pd(2,3) prev show thesis
      by (intro that [of full shards "[d]"]) auto
  qed
qed

lemma list_all2_member: "list_all2 P xs ys \<Longrightarrow> y \<in> set ys \<Longrightarrow> \<exists>x \<in> set xs. P x y"
  by (induction rule: list_all2_induct) auto

lemma list_all2_member_left: "list_all2 P xs ys \<Longrightarrow> x \<in> set xs \<Longrightarrow> \<exists>y \<in> set ys. P x y"
  by (induction rule: list_all2_induct) auto

lemma crl_extends_other: "crl_extends s tn db rows db' \<Longrightarrow>
    status_of db' k = status_of db k \<and> HasIssuedCerts db' x y = HasIssuedCerts db x y
    \<and> set (crls_of db' tn (sv_caID s)) = set (crls_of db tn (sv_caID s)) \<union> set rows"
  by (auto simp: crl_extends_def status_of_def find_issued_def HasIssuedCerts_def crls_of_def)

lemma latest_full:
  assumes "crl_extends s tn db (full # rest) db'" and "crl_Kind full = ''full''" and "\<forall>row \<in> set rest. crl_Kind row \<noteq> ''full''"
  shows "LatestCRL db' tn (sv_caID s) = Some full"
  unfolding LatestCRL_def
proof (rule first_desc_Some)
  show "full \<in> set (filter (\<lambda>c. crl_Kind c = ''full'') (crls_of db' tn (sv_caID s)))"
    using crl_extends_other [OF assms(1)] assms(2) by auto
next
  fix y assume "y \<in> set (filter (\<lambda>c. crl_Kind c = ''full'') (crls_of db' tn (sv_caID s)))" "y \<noteq> full"
  then have "y \<in> set (crls_of db tn (sv_caID s))" using crl_extends_other [OF assms(1)] assms(3) by auto
  then show "crl_Number y < crl_Number full" using assms(1) by (auto simp: crl_extends_def)
qed

lemma rev_catchUp_db: "rv_db (fst (rev_catchUp q st)) = fst (ProjectCatchUp (rq_apply q) (rv_log st) (rv_db st))"
  by (simp add: rev_catchUp_def split: prod.splits)

lemma crl_lists_exactly_revoked_parts:
  assumes "generateCRL q s tn st = (st', Inr content)" and "issued_wf (rv_db st)"
  shows "(n, t, r) \<in> set (cl_Entries content) \<longleftrightarrow>
           (\<exists>sn at. status_of (rv_db st') (tn, sv_caID s, sn) = StRevoked at r \<and> SetString16 sn = Some n \<and> t = trunc_second at)"
    and "servedCRL s tn (rv_db st') = Inr content"
    and "\<forall>c \<in> set (crls_of (rv_db (fst (rev_catchUp q st))) tn (sv_caID s)). crl_Number c < cl_Number content"
proof -
  define db1 where "db1 = rv_db (fst (rev_catchUp q st))"
  define entries where "entries = revoked_serials (ListRevokedCerts db1 tn (sv_caID s))"
  from assms(1) obtain full shards deltas where g:
    "HasIssuedCerts db1 tn (sv_caID s)" "crl_extends s tn db1 (full # shards @ deltas) (rv_db st')"
    "crl_row s tn ''full'' entries full" "crl_DER full = Some content"
    "list_all2 (shard_row (rq_sha256 q) s tn entries (crlShardCount (int (length entries))) (crl_Number full))
        [0 ..< nat (crlShardCount (int (length entries)))] shards"
    "\<forall>row \<in> set deltas. \<exists>prev. LatestCRL db1 tn (sv_caID s) = Some prev
        \<and> delta_row s tn prev full (crlDeltaEntries entries (crl_ThisUpdate prev)) row"
    unfolding db1_def entries_def by (rule generateCRL_rows)
  have wf: "issued_wf db1" unfolding db1_def rev_catchUp_db by (rule issued_wf_ProjectCatchUp [OF assms(2)])
  note ext = crl_extends_other [OF g(2)]
  have content: "crl_entries entries = Inr (cl_Entries content)" "cl_Number content = crl_Number full"
    using g(3,4) by (auto simp: crl_row_def)
  have serials: "x \<in> set entries \<longleftrightarrow> status_of db1 (tn, sv_caID s, rs_Serial x) = StRevoked (rs_RevokedAt x) (rs_Reason x)" for x
    unfolding entries_def by (rule revoked_serials_member [OF wf])
  show "(n, t, r) \<in> set (cl_Entries content) \<longleftrightarrow>
           (\<exists>sn at. status_of (rv_db st') (tn, sv_caID s, sn) = StRevoked at r \<and> SetString16 sn = Some n \<and> t = trunc_second at)"
    unfolding crl_entries_set [OF content(1)] Bex_def serials
    using ext by (auto intro: exI [of _ "\<lparr>rs_Serial = sn, rs_RevokedAt = at, rs_Reason = r\<rparr>" for sn at])
  have kinds: "\<forall>row \<in> set (shards @ deltas). crl_Kind row \<noteq> ''full''"
    using list_all2_member [OF g(5)] g(6) by (fastforce simp: shard_row_def delta_row_def crl_row_def)
  have "LatestCRL (rv_db st') tn (sv_caID s) = Some full"
    by (rule latest_full [OF g(2) _ kinds]) (use g(3) in \<open>simp add: crl_row_def\<close>)
  then show "servedCRL s tn (rv_db st') = Inr content" using g(1,4) ext by (simp add: servedCRL_def of_row_def)
  show "\<forall>c \<in> set (crls_of (rv_db (fst (rev_catchUp q st))) tn (sv_caID s)). crl_Number c < cl_Number content"
    using g(2) content(2) by (auto simp: crl_extends_def db1_def)
qed


subsection \<open>Shards\<close>

text \<open>The number of shards is a power of two between 4 and 1024, and large enough for shards of 100000
  entries as long as 1024 of them suffice.\<close>

lemma shard_loop_bounds:
  assumes "k = 2 ^ i" "i \<le> 10"
  shows "\<exists>j. i \<le> j \<and> j \<le> 10 \<and> shard_loop n k = 2 ^ j \<and> (n \<le> 1024 * 100000 \<longrightarrow> n \<le> 2 ^ j * 100000)"
  using assms
proof (induction n k arbitrary: i rule: shard_loop.induct)
  case (1 n k)
  have pos: "0 < k" using 1(2) by simp
  show ?case
  proof (cases "k < 1024 \<and> n > k * 100000")
    case True
    with 1(2) have "(2 :: int) ^ i < 2 ^ 10" by simp
    then have i: "i < 10" by (simp only: power_strict_increasing_iff)
    from True pos have step: "shard_loop n k = shard_loop n (k * 2)" by (subst shard_loop.simps) simp
    obtain j where "Suc i \<le> j \<and> j \<le> 10 \<and> shard_loop n (k * 2) = 2 ^ j \<and> (n \<le> 1024 * 100000 \<longrightarrow> n \<le> 2 ^ j * 100000)"
      using 1(1) [of "Suc i"] True pos i 1(2) by auto
    then show ?thesis unfolding step by (intro exI [of _ j]) simp
  next
    case False
    then have stop: "shard_loop n k = k" by (subst shard_loop.simps) auto
    have "n \<le> k * 100000" if "n \<le> 1024 * 100000"
    proof (cases "k < 1024")
      case False
      with 1(2) have "(2 :: int) ^ 10 \<le> 2 ^ i" by simp
      then have "10 \<le> i" by (simp only: power_increasing_iff)
      with 1(2,3) that show ?thesis by simp
    qed (use False in simp)
    then show ?thesis unfolding stop using 1(2,3) by (intro exI [of _ i]) simp
  qed
qed

lemma crlShardCount_bounds:
  assumes "n > 0"
  shows "\<exists>j. 2 \<le> j \<and> j \<le> 10 \<and> crlShardCount n = 2 ^ j \<and> (n \<le> 1024 * 100000 \<longrightarrow> n \<le> crlShardCount n * 100000)"
proof -
  obtain j where j: "2 \<le> j" "j \<le> 10" "shard_loop n 4 = 2 ^ j" "n \<le> 1024 * 100000 \<longrightarrow> n \<le> 2 ^ j * 100000"
    using shard_loop_bounds [of 4 2 n] by auto
  have "(2 :: int) ^ j \<le> 2 ^ 10" using j(2) by (intro power_increasing) auto
  then show ?thesis using assms j by (intro exI [of _ j]) (simp add: crlShardCount_def Let_def)
qed

lemma crlShardIndex_range: "1 < count \<Longrightarrow> 0 \<le> crlShardIndex H sn count \<and> crlShardIndex H sn count < count"
  by (simp add: crlShardIndex_def split: option.split)

text \<open>Every stored CRL that names a parent was numbered after it.\<close>

definition parents_wf :: "ca_db \<Rightarrow> string \<Rightarrow> string \<Rightarrow> bool" where
  "parents_wf db tn ca = (\<forall>c \<in> set (crls_of db tn ca). \<forall>p. crl_ParentNumber c = Some p \<longrightarrow> p < crl_Number c)"

lemma latest_shard:
  assumes ext: "crl_extends s tn db rows db'" and wf: "parents_wf db tn (sv_caID s)"
    and row: "row \<in> set rows" "crl_Kind row = ''shard''" "crl_ShardIndex row = i" "crl_ParentNumber row = Some p"
    and above: "\<forall>c \<in> set (crls_of db tn (sv_caID s)). crl_Number c < p"
    and only: "\<And>y. y \<in> set rows \<Longrightarrow> crl_Kind y = ''shard'' \<Longrightarrow> crl_ShardIndex y = i \<Longrightarrow> y = row"
  shows "LatestCRLShard db' tn (sv_caID s) i = Some row"
  unfolding LatestCRLShard_def
proof (rule first_desc_Some)
  show "row \<in> set (filter (\<lambda>c. crl_Kind c = ''shard'' \<and> crl_ShardIndex c = i) (crls_of db' tn (sv_caID s)))"
    using crl_extends_other [OF ext] row by auto
next
  fix y assume y: "y \<in> set (filter (\<lambda>c. crl_Kind c = ''shard'' \<and> crl_ShardIndex c = i) (crls_of db' tn (sv_caID s)))" "y \<noteq> row"
  then have old: "y \<in> set (crls_of db tn (sv_caID s))" using crl_extends_other [OF ext] only by auto
  with wf above have "crl_ParentNumber y = Some k \<Longrightarrow> k < p" for k by (force simp: parents_wf_def)
  with row(4) show "(case crl_ParentNumber y of None \<Rightarrow> (False, 0) | Some p \<Rightarrow> (True, p), crl_Number y)
      < (case crl_ParentNumber row of None \<Rightarrow> (False, 0) | Some p \<Rightarrow> (True, p), crl_Number row)"
    by (auto simp: less_prod_def' split: option.split)
qed

lemma shard_unique:
  assumes "list_all2 (shard_row H s tn entries count p) [0 ..< m] shards" "x \<in> set shards" "y \<in> set shards"
    "crl_ShardIndex x = crl_ShardIndex y"
  shows "x = y"
proof -
  obtain k l where k: "k < length shards" "x = shards ! k" "l < length shards" "y = shards ! l"
    using assms(2,3) by (metis in_set_conv_nth)
  then have "crl_ShardIndex x = int k" "crl_ShardIndex y = int l"
    using list_all2_nthD2 [OF assms(1)] list_all2_lengthD [OF assms(1)] by (auto simp: shard_row_def)
  with assms(4) have "k = l" by simp
  with k show ?thesis by simp
qed

lemma other_kinds:
  assumes "list_all2 (shard_row H s tn entries count p) is shards" "\<forall>row \<in> set deltas. \<exists>prev. L = Some prev \<and> delta_row s tn prev full (f prev) row"
  shows "\<forall>row \<in> set (shards @ deltas). crl_Kind row \<noteq> ''full''" "\<forall>row \<in> set deltas. crl_Kind row = ''delta''"
  using list_all2_member [OF assms(1)] assms(2) by (fastforce simp: shard_row_def delta_row_def crl_row_def)+

lemma crl_entries_length: "crl_entries rs = Inr es \<Longrightarrow> length es = length rs"
  by (induction rs arbitrary: es) (auto split: if_splits option.splits sum.splits)

text \<open>
  every shard of the CRL just generated can be fetched, and the revoked serials are divided among
  the shards: the shard with index \<open>i\<close> lists exactly the revoked serials whose hash designates \<open>i\<close>.\<close>

theorem shards_partition_crl:
  assumes "generateCRL q s tn st = (st', Inr content)" and "issued_wf (rv_db st)"
    and "parents_wf (rv_db (fst (rev_catchUp q st))) tn (sv_caID s)"
    and "0 \<le> i" and "i < crlShardCount (int (length (cl_Entries content)))"
  shows "\<exists>d. servedCRLShard s tn i (rv_db st') = Inr d \<and>
           (\<forall>n t r. (n, t, r) \<in> set (cl_Entries d) \<longleftrightarrow>
              (\<exists>sn at. status_of (rv_db st') (tn, sv_caID s, sn) = StRevoked at r \<and> SetString16 sn = Some n \<and> t = trunc_second at
                 \<and> crlShardIndex (rq_sha256 q) sn (crlShardCount (int (length (cl_Entries content)))) = i))"
proof -
  define db1 where "db1 = rv_db (fst (rev_catchUp q st))"
  define entries where "entries = revoked_serials (ListRevokedCerts db1 tn (sv_caID s))"
  define count where "count = crlShardCount (int (length entries))"
  from assms(1) obtain full shards deltas where g:
    "HasIssuedCerts db1 tn (sv_caID s)" "crl_extends s tn db1 (full # shards @ deltas) (rv_db st')"
    "crl_row s tn ''full'' entries full" "crl_DER full = Some content" "crl_ShardCount full = (if count > 0 then count else 1)"
    "list_all2 (shard_row (rq_sha256 q) s tn entries count (crl_Number full)) [0 ..< nat count] shards"
    "\<forall>row \<in> set deltas. \<exists>prev. LatestCRL db1 tn (sv_caID s) = Some prev
        \<and> delta_row s tn prev full (crlDeltaEntries entries (crl_ThisUpdate prev)) row"
    unfolding db1_def entries_def count_def by (rule generateCRL_rows)
  have cnt: "crlShardCount (int (length (cl_Entries content))) = count"
    using g(3,4) crl_entries_length unfolding count_def crl_row_def by fastforce
  then have i: "nat i \<in> set [0 ..< nat count]" and cpos: "count > 0" using assms(4,5) by auto
  then obtain j where "2 \<le> j" "count = 2 ^ j" using crlShardCount_bounds crlShardCount_pos unfolding count_def by blast
  then have c1: "count > 1" by (simp add: one_less_power)
  from list_all2_member_left [OF g(6) i] assms(4) obtain row where row: "row \<in> set shards"
    "shard_row (rq_sha256 q) s tn entries count (crl_Number full) (nat i) row" by blast
  then obtain d where d: "crl_DER row = Some d" "crl_entries (crlShardEntries (rq_sha256 q) entries i count) = Inr (cl_Entries d)"
    using assms(4) by (auto simp: shard_row_def crl_row_def)
  have uniq: "y = row" if "y \<in> set (full # shards @ deltas)" "crl_Kind y = ''shard''" "crl_ShardIndex y = i" for y
  proof -
    from that g(3,7) have "y \<in> set shards" by (fastforce simp: crl_row_def delta_row_def)
    moreover have "crl_ShardIndex row = i" using row(2) assms(4) by (simp add: shard_row_def)
    ultimately show ?thesis using that(3) shard_unique [OF g(6) _ row(1)] by simp
  qed
  have latest: "LatestCRL (rv_db st') tn (sv_caID s) = Some full"
    by (rule latest_full [OF g(2) _ other_kinds(1) [OF g(6,7)]]) (use g(3) in \<open>simp add: crl_row_def\<close>)
  have "LatestCRLShard (rv_db st') tn (sv_caID s) i = Some row"
    by (rule latest_shard [OF g(2) assms(3) [folded db1_def], where p = "crl_Number full"])
      (use row g(2) uniq assms(4) in \<open>auto simp: shard_row_def crl_row_def crl_extends_def\<close>)
  with latest d(1) g(1,2,5) cpos c1 assms(4,5) cnt row(2) have "servedCRLShard s tn i (rv_db st') = Inr d"
    using crl_extends_other [OF g(2)] by (auto simp: servedCRLShard_def of_row_def shard_row_def)
  moreover have wf: "issued_wf db1" unfolding db1_def rev_catchUp_db by (rule issued_wf_ProjectCatchUp [OF assms(2)])
  have "x \<in> set entries \<longleftrightarrow> status_of (rv_db st') (tn, sv_caID s, rs_Serial x) = StRevoked (rs_RevokedAt x) (rs_Reason x)" for x
    unfolding entries_def revoked_serials_member [OF wf] using crl_extends_other [OF g(2)] by simp
  then have "(n, t, r) \<in> set (cl_Entries d) \<longleftrightarrow>
      (\<exists>sn at. status_of (rv_db st') (tn, sv_caID s, sn) = StRevoked at r \<and> SetString16 sn = Some n \<and> t = trunc_second at
         \<and> crlShardIndex (rq_sha256 q) sn count = i)" for n t r
    unfolding crl_entries_set [OF d(2)] using cpos
    by (auto simp: crlShardEntries_def intro: exI [of _ "\<lparr>rs_Serial = sn, rs_RevokedAt = at, rs_Reason = r\<rparr>" for sn at])
  ultimately show ?thesis unfolding cnt by blast
qed

subsection \<open>Deltas\<close>

lemma latest_delta:
  assumes ext: "crl_extends s tn db rows db'" and row: "row \<in> set rows" "crl_Kind row = ''delta''" "crl_DeltaBaseNumber row = Some b"
    and only: "\<And>y. y \<in> set rows \<Longrightarrow> crl_Kind y = ''delta'' \<Longrightarrow> y = row"
  shows "LatestDeltaCRL db' tn (sv_caID s) b = Some row"
  unfolding LatestDeltaCRL_def
proof (rule first_desc_Some)
  show "row \<in> set (filter (\<lambda>c. crl_Kind c = ''delta'' \<and> crl_DeltaBaseNumber c = Some b) (crls_of db' tn (sv_caID s)))"
    using crl_extends_other [OF ext] row by auto
next
  fix y assume "y \<in> set (filter (\<lambda>c. crl_Kind c = ''delta'' \<and> crl_DeltaBaseNumber c = Some b) (crls_of db' tn (sv_caID s)))" "y \<noteq> row"
  then have "y \<in> set (crls_of db tn (sv_caID s))" using crl_extends_other [OF ext] only by auto
  then show "crl_Number y < crl_Number row" using ext row(1) by (auto simp: crl_extends_def)
qed

text \<open>
  a relying party that holds the previous full CRL and fetches the delta for it learns of every
  revocation the new full CRL lists, provided that each revocation the previous CRL does not list is dated
  after the moment that CRL was generated.\<close>

theorem delta_completes_base:
  assumes gen: "generateCRL q s tn st = (st', Inr content)" and "issued_wf (rv_db st)"
    and prev: "LatestCRL (rv_db (fst (rev_catchUp q st))) tn (sv_caID s) = Some prev" "crl_DER prev = Some base" "crl_Number prev > 0"
    and dated: "\<forall>sn at r n. status_of (rv_db st') (tn, sv_caID s, sn) = StRevoked at r \<longrightarrow> SetString16 sn = Some n
                  \<longrightarrow> (n, trunc_second at, r) \<in> set (cl_Entries base) \<or> crl_ThisUpdate prev < at"
    and e: "(n, t, r) \<in> set (cl_Entries content)"
  shows "(n, t, r) \<in> set (cl_Entries base) \<or>
     (\<exists>d. servedDeltaCRL s tn (crl_Number prev) (rv_db st') = Inr d \<and> cl_DeltaBase d = Some (crl_Number prev) \<and> (n, t, r) \<in> set (cl_Entries d))"
proof -
  define db1 where "db1 = rv_db (fst (rev_catchUp q st))"
  define entries where "entries = revoked_serials (ListRevokedCerts db1 tn (sv_caID s))"
  let ?delta = "crlDeltaEntries entries (crl_ThisUpdate prev)"
  from gen obtain full shards deltas where g:
    "HasIssuedCerts db1 tn (sv_caID s)" "crl_extends s tn db1 (full # shards @ deltas) (rv_db st')"
    "crl_row s tn ''full'' entries full" "crl_DER full = Some content"
    "list_all2 (shard_row (rq_sha256 q) s tn entries (crlShardCount (int (length entries))) (crl_Number full))
        [0 ..< nat (crlShardCount (int (length entries)))] shards"
    "\<forall>row \<in> set deltas. \<exists>prev. LatestCRL db1 tn (sv_caID s) = Some prev
        \<and> delta_row s tn prev full (crlDeltaEntries entries (crl_ThisUpdate prev)) row"
    "\<forall>prev. LatestCRL db1 tn (sv_caID s) = Some prev \<longrightarrow> crlDeltaEntries entries (crl_ThisUpdate prev) \<noteq> [] \<longrightarrow> deltas \<noteq> []"
    "length deltas \<le> 1"
    unfolding db1_def entries_def by (rule generateCRL_rows)
  note prev1 = prev(1) [folded db1_def]
  have wf: "issued_wf db1" unfolding db1_def rev_catchUp_db by (rule issued_wf_ProjectCatchUp [OF assms(2)])
  have "crl_entries entries = Inr (cl_Entries content)" using g(3,4) by (auto simp: crl_row_def)
  with e obtain x where x: "x \<in> set entries" "SetString16 (rs_Serial x) = Some n" "t = trunc_second (rs_RevokedAt x)" "r = rs_Reason x"
    by (auto simp: crl_entries_set)
  have "status_of (rv_db st') (tn, sv_caID s, rs_Serial x) = StRevoked (rs_RevokedAt x) (rs_Reason x)"
    using x(1) crl_extends_other [OF g(2)] unfolding entries_def revoked_serials_member [OF wf] by simp
  with dated x(2-4) consider "(n, t, r) \<in> set (cl_Entries base)" | "crl_ThisUpdate prev < rs_RevokedAt x" by blast
  then show ?thesis
  proof cases
    case 2
    with x(1) have xd: "x \<in> set ?delta" by (simp add: crlDeltaEntries_def)
    then have "deltas \<noteq> []" using g(7) prev1 by auto
    with g(8) obtain row where row: "deltas = [row]" by (cases deltas) auto
    with g(6) prev1 have dr: "delta_row s tn prev full ?delta row" by auto
    then obtain d where d: "crl_DER row = Some d" "crl_entries ?delta = Inr (cl_Entries d)" "cl_DeltaBase d = Some (crl_Number prev)"
      using prev(3) by (auto simp: delta_row_def crl_row_def)
    have "y = row" if "y \<in> set (full # shards @ deltas)" "crl_Kind y = ''delta''" for y
      using that row g(3) list_all2_member [OF g(5)] by (fastforce simp: crl_row_def shard_row_def)
    then have "LatestDeltaCRL (rv_db st') tn (sv_caID s) (crl_Number prev) = Some row"
      using dr row by (intro latest_delta [OF g(2)]) (auto simp: delta_row_def crl_row_def)
    moreover have "HasIssuedCerts (rv_db st') tn (sv_caID s)" using g(1) crl_extends_other [OF g(2)] by simp
    moreover have "(n, t, r) \<in> set (cl_Entries d)" unfolding crl_entries_set [OF d(2)] using xd x(2-4) by auto
    ultimately show ?thesis using d(1,3) by (auto simp: servedDeltaCRL_def of_row_def)
  qed simp
qed

section \<open>Samples and witnesses for CRLs\<close>

definition sample_issuer :: x509_Certificate where
  "sample_issuer = x509_zero\<lparr>xc_Subject := ''ca'', xc_IsCA := True, xc_BasicConstraintsValid := True,
     xc_KeyUsage := [KUCertSign, KUCRLSign], xc_SubjectKeyId := ''id'', xc_PublicKey := ''cakey'', xc_SignedBy := ''cakey''\<rparr>"

definition sample_service :: revocationService where
  "sample_service = \<lparr>sv_caID = ''ca1'', sv_caSigner = honest_signer ''cakey'', sv_caCertDER = CertDER sample_issuer,
     sv_ocspSigner = honest_signer ''ocspkey''\<rparr>"

definition sample_rev_env :: rev_env where
  "sample_rev_env = \<lparr>rq_x509 = \<lparr>xe_key = None, xe_serial = Some 7, xe_clock = (\<lambda>_. 0), xe_encodes = (\<lambda>_. True),
       xe_keyid = (\<lambda>p. Some (''id-'' @ p)), xe_parses_key = (\<lambda>p. p \<noteq> []), xe_ParseOID = (\<lambda>_. None)\<rparr>,
     rq_append = (\<lambda>n. \<lparr>pe_id = ''e'', pe_now = 20, pe_actor = None, pe_ack = True\<rparr>), rq_apply = (\<lambda>_. 20),
     rq_now = (\<lambda>_. 20), rq_time_text = (\<lambda>t. Itoa t), rq_sha256 = (\<lambda>x. x)\<rparr>"

definition sample_revoked :: "string \<Rightarrow> gotime \<Rightarrow> IssuedCert" where
  "sample_revoked sn t = \<lparr>ic_TenantID = ''t1'', ic_CAID = ''ca1'', ic_Serial = sn, ic_IssuedAt = 1,
     ic_RevokedAt = Some t, ic_ReasonCode = 1\<rparr>"

definition sample_base :: CRL where
  "sample_base = \<lparr>crl_TenantID = ''t1'', crl_CAID = ''ca1'', crl_Number = 1,
     crl_DER = Some \<lparr>cl_Number = 1, cl_ThisUpdate = 0, cl_NextUpdate = 0, cl_Entries = [], cl_DeltaBase = None, cl_SignedBy = ''cakey''\<rparr>,
     crl_ThisUpdate = 10, crl_NextUpdate = 30, crl_CreatedAt = 10, crl_Kind = ''full'', crl_ShardIndex = 0, crl_ShardCount = 1,
     crl_DeltaBaseNumber = None, crl_ParentNumber = None, crl_RevokedCount = 0\<rparr>"

definition sample_rev_state :: "string rev_state" where
  "sample_rev_state = \<lparr>rv_db = empty_ca_db\<lparr>db_issued := [sample_revoked ''2b'' 15, sample_revoked ''2a'' 9], db_crls := [sample_base]\<rparr>,
     rv_log = empty_ca_log, rv_cache = []\<rparr>"

definition sample_generated :: "string rev_state" where
  "sample_generated = fst (generateCRL sample_rev_env sample_service ''t1'' sample_rev_state)"

definition sample_content :: CRLContent where
  "sample_content = \<lparr>cl_Number = 2, cl_ThisUpdate = 0, cl_NextUpdate = 604800000000000,
     cl_Entries = [(42, 0, 1), (43, 0, 1)], cl_DeltaBase = None, cl_SignedBy = ''cakey''\<rparr>"

lemma sample_generate:
  "generateCRL sample_rev_env sample_service ''t1'' sample_rev_state = (sample_generated, Inr sample_content)"
proof -
  have "snd (generateCRL sample_rev_env sample_service ''t1'' sample_rev_state) = Inr sample_content" by code_simp
  then show ?thesis by (simp add: sample_generated_def prod_eq_iff)
qed

lemma sample_rev_wf: "issued_wf (rv_db sample_rev_state)"
  unfolding issued_wf_def by code_simp


theorem shards_partition_crl_witness:
  "\<exists>d. servedCRLShard sample_service ''t1'' 2 (rv_db sample_generated) = Inr d \<and> (42, 0, 1) \<in> set (cl_Entries d)"
proof -
  have pw: "parents_wf (rv_db (fst (rev_catchUp sample_rev_env sample_rev_state))) ''t1'' (sv_caID sample_service)"
  proof -
    have "crls_of (rv_db (fst (rev_catchUp sample_rev_env sample_rev_state))) ''t1'' (sv_caID sample_service) = [sample_base]" by code_simp
    then show ?thesis by (simp add: parents_wf_def sample_base_def)
  qed
  have cnt: "crlShardCount (int (length (cl_Entries sample_content))) = 4" by code_simp
  have st: "status_of (rv_db sample_generated) (''t1'', sv_caID sample_service, ''2a'') = StRevoked 9 1" by code_simp
  have ix: "SetString16 ''2a'' = Some 42" "trunc_second 9 = 0" "crlShardIndex (rq_sha256 sample_rev_env) ''2a'' 4 = 2" by code_simp+
  from shards_partition_crl [OF sample_generate sample_rev_wf pw, of 2] cnt obtain d where
    "servedCRLShard sample_service ''t1'' 2 (rv_db sample_generated) = Inr d"
    "\<forall>n t r. (n, t, r) \<in> set (cl_Entries d) \<longleftrightarrow>
       (\<exists>sn at. status_of (rv_db sample_generated) (''t1'', sv_caID sample_service, sn) = StRevoked at r \<and> SetString16 sn = Some n
          \<and> t = trunc_second at \<and> crlShardIndex (rq_sha256 sample_rev_env) sn 4 = 2)" by auto
  with st ix show ?thesis by metis
qed

text \<open>The same state when the earlier CRL already lists the older revocation.\<close>

definition sample_listed_base :: CRLContent where
  "sample_listed_base = \<lparr>cl_Number = 1, cl_ThisUpdate = 0, cl_NextUpdate = 0, cl_Entries = [(42, 0, 1)],
     cl_DeltaBase = None, cl_SignedBy = ''cakey''\<rparr>"

definition sample_listed_state :: "string rev_state" where
  "sample_listed_state = sample_rev_state\<lparr>rv_db := (rv_db sample_rev_state)\<lparr>db_crls := [sample_base\<lparr>crl_DER := Some sample_listed_base\<rparr>]\<rparr>\<rparr>"

definition sample_listed_generated :: "string rev_state" where
  "sample_listed_generated = fst (generateCRL sample_rev_env sample_service ''t1'' sample_listed_state)"

theorem delta_completes_base_witness:
  "\<exists>d. servedDeltaCRL sample_service ''t1'' 1 (rv_db sample_listed_generated) = Inr d \<and> cl_DeltaBase d = Some 1 \<and> (43, 0, 1) \<in> set (cl_Entries d)"
proof -
  let ?prev = "sample_base\<lparr>crl_DER := Some sample_listed_base\<rparr>"
  have "snd (generateCRL sample_rev_env sample_service ''t1'' sample_listed_state) = Inr sample_content" by code_simp
  then have gen: "generateCRL sample_rev_env sample_service ''t1'' sample_listed_state = (sample_listed_generated, Inr sample_content)"
    by (simp add: sample_listed_generated_def prod_eq_iff)
  have wf: "issued_wf (rv_db sample_listed_state)" unfolding issued_wf_def by code_simp
  have prev: "LatestCRL (rv_db (fst (rev_catchUp sample_rev_env sample_listed_state))) ''t1'' (sv_caID sample_service) = Some ?prev" by code_simp
  have iss: "db_issued (rv_db sample_listed_generated) = [sample_revoked ''2b'' 15, sample_revoked ''2a'' 9]" by code_simp
  have ix: "SetString16 ''2a'' = Some 42" "trunc_second 9 = 0" by code_simp+
  have dated: "\<forall>sn at r n. status_of (rv_db sample_listed_generated) (''t1'', sv_caID sample_service, sn) = StRevoked at r
      \<longrightarrow> SetString16 sn = Some n \<longrightarrow> (n, trunc_second at, r) \<in> set (cl_Entries sample_listed_base) \<or> crl_ThisUpdate ?prev < at"
    using ix by (auto simp: status_of_def find_issued_def iss sample_revoked_def issued_key_def sample_listed_base_def sample_base_def
        split: if_splits option.splits)
  have e: "(43, 0, 1) \<in> set (cl_Entries sample_content)" "(43, 0, 1) \<notin> set (cl_Entries sample_listed_base)" by code_simp+
  have "crl_Number ?prev = 1" by (simp add: sample_base_def)
  with delta_completes_base [OF gen wf prev _ _ dated e(1)] e(2) show ?thesis by simp
qed

section \<open>Where CRLs and deltas fall short\<close>

text \<open>A revocation recorded after a CRL was generated but dated before it (a clock reading taken earlier, or
  a serial revoked while the CRL was being assembled) is in the new full CRL and in no delta: the delta
  against the earlier CRL leaves it out, so that base and delta together report it as not revoked.\<close>

theorem late_revocation_missing_from_delta:
  "(42, 0, 1) \<in> set (cl_Entries sample_content)
   \<and> status_of (rv_db sample_generated) (''t1'', ''ca1'', ''2a'') = StRevoked 9 1
   \<and> (\<exists>b. crl_DER sample_base = Some b \<and> cl_Entries b = [])
   \<and> (\<exists>d. servedDeltaCRL sample_service ''t1'' 1 (rv_db sample_generated) = Inr d \<and> cl_DeltaBase d = Some 1 \<and> cl_Entries d = [(43, 0, 1)])"
proof -
  let ?d = "\<lparr>cl_Number = 7, cl_ThisUpdate = 0, cl_NextUpdate = 604800000000000, cl_Entries = [(43, 0, 1)],
     cl_DeltaBase = Some 1, cl_SignedBy = ''cakey''\<rparr>"
  have "servedDeltaCRL sample_service ''t1'' 1 (rv_db sample_generated) = Inr ?d" by code_simp
  moreover have "status_of (rv_db sample_generated) (''t1'', ''ca1'', ''2a'') = StRevoked 9 1" by code_simp
  ultimately show ?thesis by (simp add: sample_base_def sample_content_def)
qed

text \<open>The number of a CRL is read before the CRL is published, and publishing a number again replaces the
  row. Of two generations that run at the same time, the one that read the revocations first may publish
  last: the stale CRL then replaces the complete one under the same number.\<close>

definition stale_row :: CRL where
  "stale_row = sample_base\<lparr>crl_ThisUpdate := 19, crl_NextUpdate := 604800000000019\<rparr>"

definition before_any_crl :: "string rev_state" where
  "before_any_crl = sample_rev_state\<lparr>rv_db := (rv_db sample_rev_state)\<lparr>db_crls := []\<rparr>\<rparr>"

theorem stale_crl_replaces_complete_one:
  "NextCRLNumber (rv_db before_any_crl) ''t1'' ''ca1'' = crl_Number stale_row
   \<and> (\<exists>st1 full. generateCRL sample_rev_env sample_service ''t1'' before_any_crl = (st1, Inr full)
        \<and> cl_Number full = 1 \<and> (42, 0, 1) \<in> set (cl_Entries full)
        \<and> servedCRL sample_service ''t1'' (rv_db st1) = Inr full
        \<and> (\<exists>st2 old. rev_publishCRL sample_rev_env stale_row st1 = (st2, None)
             \<and> servedCRL sample_service ''t1'' (rv_db st2) = Inr old \<and> cl_Number old = 1 \<and> cl_Entries old = []
             \<and> status_of (rv_db st2) (''t1'', ''ca1'', ''2a'') = StRevoked 9 1))"
proof -
  define st1 where "st1 = fst (generateCRL sample_rev_env sample_service ''t1'' before_any_crl)"
  define st2 where "st2 = fst (rev_publishCRL sample_rev_env stale_row st1)"
  let ?full = "sample_content\<lparr>cl_Number := 1\<rparr>"
  let ?old = "\<lparr>cl_Number = 1, cl_ThisUpdate = 0, cl_NextUpdate = 0, cl_Entries = [], cl_DeltaBase = None, cl_SignedBy = ''cakey''\<rparr>"
  have 0: "NextCRLNumber (rv_db before_any_crl) ''t1'' ''ca1'' = crl_Number stale_row" by code_simp
  have "snd (generateCRL sample_rev_env sample_service ''t1'' before_any_crl) = Inr ?full" by code_simp
  then have 1: "generateCRL sample_rev_env sample_service ''t1'' before_any_crl = (st1, Inr ?full)"
    by (simp add: st1_def prod_eq_iff)
  have 2: "servedCRL sample_service ''t1'' (rv_db st1) = Inr ?full" unfolding st1_def by code_simp
  have "snd (rev_publishCRL sample_rev_env stale_row st1) = None" unfolding st1_def by code_simp
  then have 3: "rev_publishCRL sample_rev_env stale_row st1 = (st2, None)" by (simp add: st2_def prod_eq_iff)
  have 4: "servedCRL sample_service ''t1'' (rv_db st2) = Inr ?old" unfolding st2_def st1_def by code_simp
  have 5: "status_of (rv_db st2) (''t1'', ''ca1'', ''2a'') = StRevoked 9 1" unfolding st2_def st1_def by code_simp
  show ?thesis using 0 1 2 3 4 5 by (auto simp: sample_content_def)
qed

section \<open>OCSP responses\<close>

lemma hex_text_chars: "c \<in> set (hex_text n) \<Longrightarrow> \<exists>d < 16. c = hex_digit d"
proof (induction n rule: hex_text.induct)
  case (1 n)
  have "n mod 16 < 16" by simp
  with 1 show ?case by (subst (asm) (2) hex_text.simps) (auto split: if_splits intro: exI [of _ "n mod 16"])
qed

lemma hex_text_ne: "hex_text n \<noteq> []"
  by (subst hex_text.simps) simp

lemma hex_text_plain: "d = CHR ''-'' \<or> d = CHR ''+'' \<or> d = CHR 0x1F \<Longrightarrow> d \<notin> set (hex_text n)"
proof
  assume d: "d = CHR ''-'' \<or> d = CHR ''+'' \<or> d = CHR 0x1F" and "d \<in> set (hex_text n)"
  then obtain k where "k < 16" "d = hex_digit k" using hex_text_chars by blast
  then have "hex_val d = Some k" by (simp add: hex_val_digit)
  with d show False by (auto simp: hex_val_def)
qed

text \<open>Serial numbers survive their textual form, negative ones included.\<close>

lemma SetString16_Text16: "SetString16 (Text16 n) = Some n"
proof (cases "n < 0")
  case True
  then show ?thesis by (simp add: Text16_def SetString16_def parse_hex_text)
next
  case False
  obtain c cs where h: "hex_text (nat n) = c # cs" using hex_text_ne by (meson list.exhaust)
  then have "c \<noteq> CHR ''-''" "c \<noteq> CHR ''+''" using hex_text_plain [of _ "nat n"] by (metis list.set_intros(1))+
  with False h parse_hex_text [of "nat n"] show ?thesis by (simp add: Text16_def SetString16_def)
qed

lemma Text16_plain: "CHR 0x1F \<notin> set (Text16 n)"
  using hex_text_plain by (simp add: Text16_def)

lemma sep_split:
  "c \<notin> set xs \<Longrightarrow> c \<notin> set ys \<Longrightarrow> xs @ c # as = ys @ c # bs \<longleftrightarrow> xs = ys \<and> as = bs"
proof (induction xs arbitrary: ys)
  case Nil
  then show ?case by (cases ys) auto
next
  case (Cons x xs)
  then show ?case by (cases ys) auto
qed

lemma Itoa_plain: "CHR 0x1F \<notin> set (Itoa n)"
  using itoa_digits [of "CHR 0x1F"] by (auto simp: Itoa_def digit_val_def)

lemma Itoa_inject: "Itoa m = Itoa n \<longleftrightarrow> m = n"
proof -
  have nominus: "itoa k \<noteq> CHR ''-'' # xs" for k xs
  proof
    assume "itoa k = CHR ''-'' # xs"
    then have "CHR ''-'' \<in> set (itoa k)" by simp
    from itoa_digits [OF this] show False by simp
  qed
  have inj: "itoa j = itoa k \<longleftrightarrow> j = k" for j k by (metis digits_val_itoa option.inject)
  have nominus2: "CHR ''-'' # xs \<noteq> itoa k" for k xs using nominus [of k xs] by metis
  have pos: "nat i = nat j \<longleftrightarrow> i = j" if "0 \<le> i" "0 \<le> j" for i j using that by linarith
  show ?thesis
    by (cases "m < 0"; cases "n < 0") (simp_all add: Itoa_def inj nominus nominus2 pos)
qed

text \<open>The assumptions on the text of a time: it contains no separator and tells times apart.\<close>

definition plain_times :: "(gotime \<Rightarrow> string) \<Rightarrow> bool" where
  "plain_times ft = ((\<forall>t. CHR 0x1F \<notin> set (ft t)) \<and> inj ft)"

definition plain_key :: "ocspResponseCacheKey \<Rightarrow> bool" where
  "plain_key k = (CHR 0x1F \<notin> set (ck_tenantID k) \<and> CHR 0x1F \<notin> set (ck_caID k) \<and> CHR 0x1F \<notin> set (ck_serial k)
                  \<and> CHR 0x1F \<notin> set (ck_status k))"

lemma cache_key_inject:
  assumes "plain_times ft" "plain_key j" "plain_key k" "cache_key_String ft j = cache_key_String ft k"
  shows "j = k"
proof -
  have "ck_tenantID j = ck_tenantID k \<and> ck_caID j = ck_caID k \<and> ck_serial j = ck_serial k \<and> ck_status j = ck_status k
        \<and> Itoa (ck_reason j) = Itoa (ck_reason k) \<and> ft (ck_revokedAt j) = ft (ck_revokedAt k)
        \<and> ck_responderSerial j = ck_responderSerial k"
    using assms unfolding plain_times_def plain_key_def cache_key_String_def by (simp add: sep_split Itoa_plain)
  moreover from assms(1) have "ft (ck_revokedAt j) = ft (ck_revokedAt k) \<longleftrightarrow> ck_revokedAt j = ck_revokedAt k"
    by (simp add: plain_times_def inj_eq)
  ultimately show ?thesis by (simp add: Itoa_inject)
qed

text \<open>A response was signed for a key: by a responder certificate valid under the CA, on a template with
  the serial and the status of the key.\<close>

definition signed_for :: "('q, 'r) ocsp_lib \<Rightarrow> revocationService \<Rightarrow> ocspResponseCacheKey \<Rightarrow> bytes option \<Rightarrow> 'r \<Rightarrow> gotime \<Rightarrow> bool" where
  "signed_for lib s k nonce d nextUpdate =
     (\<exists>caCert rc n extra. ParseCertificate (sv_caCertDER s) = Some caCert \<and> validateOCSPResponderCertificate caCert rc = None
        \<and> SetString16 (ck_serial k) = Some n \<and> ocspNonceExtensions lib nonce = Inr extra
        \<and> ol_CreateResponse lib caCert rc
            (response_template n (ck_status k) (nextUpdate - 10 * minute) nextUpdate (ck_revokedAt k) (ck_reason k) (Some rc) extra)
            (sv_ocspSigner s) = Some d)"

definition cache_ok :: "(gotime \<Rightarrow> string) \<Rightarrow> ('q, 'r) ocsp_lib \<Rightarrow> revocationService \<Rightarrow> 'r ocspResponseCache \<Rightarrow> bool" where
  "cache_ok ft lib s c =
     (\<forall>(ks, d, nu) \<in> set c. \<exists>k. ks = cache_key_String ft k \<and> plain_key k \<and> signed_for lib s k None d nu)"

lemma cache_ok_delete: "cache_ok ft lib s c \<Longrightarrow> cache_ok ft lib s (AList.delete x c)"
  by (auto simp: cache_ok_def AList.delete_eq)

lemma cache_ok_put:
  assumes "cache_ok ft lib s c" "plain_key k" "signed_for lib s k None d nu"
  shows "cache_ok ft lib s (cache_put ft k d nu c)"
proof -
  let ?x = "cache_key_String ft k"
  have "set (AList.update ?x (d, nu) c) \<subseteq> insert (?x, d, nu) (set c)" by (induction c) auto
  moreover have "\<forall>(ks, d, nu) \<in> insert (?x, d, nu) (set c). \<exists>k. ks = cache_key_String ft k \<and> plain_key k \<and> signed_for lib s k None d nu"
    using assms unfolding cache_ok_def by auto
  ultimately have "cache_ok ft lib s (AList.update ?x (d, nu) c)" unfolding cache_ok_def by blast
  with assms(1) show ?thesis by (simp add: cache_put_def)
qed

lemma cache_get_hit:
  assumes "cache_ok ft lib s c" "plain_times ft" "plain_key k" "cache_get ft k now c = (c', Some d)"
  obtains nu where "signed_for lib s k None d nu" "now < nu"
proof -
  from assms(4) obtain nu where m: "map_of c (cache_key_String ft k) = Some (d, nu)" "now < nu"
    by (auto simp: cache_get_def split: option.splits if_splits)
  from map_of_SomeD [OF m(1)] assms(1) obtain j where j: "cache_key_String ft k = cache_key_String ft j" "plain_key j" "signed_for lib s j None d nu"
    unfolding cache_ok_def by fastforce
  from cache_key_inject [OF assms(2,3) j(2,1)] j(3) m(2) that show thesis by blast
qed

lemma sign_ocsp_signed:
  assumes "SignDelegatedOCSPResponseWithNonce env lib (sv_caCertDER s) rd (sv_ocspSigner s) (ck_status k) (ck_serial k)
             now (now + 10 * minute) (ck_revokedAt k) (ck_reason k) nonce = Inr d"
  shows "signed_for lib s k nonce d (now + 10 * minute)"
  using assms unfolding SignDelegatedOCSPResponseWithNonce_def sign_ocsp_def signed_for_def
  by (auto split: option.splits if_splits sum.splits)

lemma respond_with_ok:
  assumes "respond_with q lib s tn serial nonce (status, revokedAt, reason) responder now st = (st', Inr d)"
    and "cache_ok (rq_time_text q) lib s (rv_cache st)" and "plain_times (rq_time_text q)"
    and "CHR 0x1F \<notin> set tn" "CHR 0x1F \<notin> set (sv_caID s)" "CHR 0x1F \<notin> set serial" "CHR 0x1F \<notin> set status"
  defines "k \<equiv> \<lparr>ck_tenantID = tn, ck_caID = sv_caID s, ck_serial = serial, ck_status = status, ck_reason = reason,
                 ck_revokedAt = revokedAt, ck_responderSerial = or_Serial responder\<rparr>"
  shows "(\<exists>nu. signed_for lib s k nonce d nu \<and> now < nu) \<and> cache_ok (rq_time_text q) lib s (rv_cache st')"
proof -
  have plain: "plain_key k" using assms(4-7) by (simp add: k_def plain_key_def)
  let ?ft = "rq_time_text q"
  let ?looked = "if nonce = None then cache_get ?ft k now (rv_cache st) else (rv_cache st, None)"
  have kept: "cache_ok ?ft lib s (fst ?looked)"
    using assms(2) cache_ok_delete by (auto simp: cache_get_def split: option.splits)
  note run = assms(1) [unfolded respond_with_def Let_def prod.case, folded k_def]
  show ?thesis
  proof (cases "snd ?looked")
    case (Some e)
    with run have "e = d" "st' = st\<lparr>rv_cache := fst ?looked\<rparr>" by auto
    moreover from Some have "nonce = None" "cache_get ?ft k now (rv_cache st) = (fst ?looked, Some e)"
      by (auto simp: prod_eq_iff split: if_splits)
    ultimately have hit: "cache_get ?ft k now (rv_cache st) = (fst ?looked, Some d)" and none: "nonce = None"
      and st': "rv_cache st' = fst ?looked" by simp_all
    obtain nu where "signed_for lib s k None d nu" "now < nu" by (rule cache_get_hit [OF assms(2,3) plain hit])
    with kept show ?thesis unfolding st' none by blast
  next
    case None
    from run [unfolded None option.case] obtain rd where
      sg: "SignDelegatedOCSPResponseWithNonce (rq_x509 q) lib (sv_caCertDER s) rd (sv_ocspSigner s) (ck_status k) (ck_serial k)
             now (now + 10 * minute) (ck_revokedAt k) (ck_reason k) nonce = Inr d"
      and st': "st' = (let st1 = st\<lparr>rv_cache := fst ?looked\<rparr> in
                 if nonce = None then st1\<lparr>rv_cache := cache_put ?ft k d (now + 10 * minute) (rv_cache st1)\<rparr> else st1)"
      by (auto simp: k_def Let_def split: option.splits sum.splits)
    have "now < now + 10 * minute" by simp
    with sign_ocsp_signed [OF sg] kept cache_ok_put [OF kept plain] show ?thesis by (auto simp: st' Let_def)
  qed
qed

lemma append_and_apply_cache: "append_and_apply q e st = (st', r) \<Longrightarrow> rv_cache st' = rv_cache st"
  by (auto simp: append_and_apply_def split: sum.splits prod.splits)

lemma rotateOCSPResponder_cache: "rv_cache (fst (rotateOCSPResponder q s tn p now st)) = rv_cache st"
  by (auto simp: rotateOCSPResponder_def publishOCSPResponder_def Let_def dest!: append_and_apply_cache
      split: sum.splits prod.splits option.splits)

lemma activeOCSPResponder_cache: "rv_cache (fst (activeOCSPResponder q s tn st)) = rv_cache st"
  by (simp add: activeOCSPResponder_def rev_catchUp_def Let_def rotateOCSPResponder_cache split: prod.splits option.splits)

text \<open>The template that reports a status.\<close>

definition reports :: "ocsp_template \<Rightarrow> cert_status \<Rightarrow> bool" where
  "reports tmpl st =
     (case st of
        StUnknown \<Rightarrow> ot_Status tmpl = OcUnknown
      | StGood \<Rightarrow> ot_Status tmpl = OcGood
      | StRevoked t r \<Rightarrow> ot_Status tmpl = OcRevoked \<and> ot_RevokedAt tmpl = t \<and> ot_RevocationReason tmpl = r)"

lemma reports_answer:
  "ocsp_answer (LookupIssuedCert db tn ca sn) = (status, t, r) \<Longrightarrow>
     reports (response_template n status a b t r c x) (status_of db (tn, ca, sn)) \<and> CHR 0x1F \<notin> set status"
  by (auto simp: ocsp_answer_def LookupIssuedCert_def status_of_def reports_def response_template_def ocspStatusCode_def
      split: option.splits)

lemma ocsp_reports_recorded_status_parts:
  assumes "respondOCSP q lib s tn req st = (st', Inr d)"
    and "cache_ok (rq_time_text q) lib s (rv_cache st)" and "plain_times (rq_time_text q)"
    and "CHR 0x1F \<notin> set tn" and "CHR 0x1F \<notin> set (sv_caID s)"
  shows "\<exists>n nonce caCert rc tmpl extra. ol_ParseRequest lib req = Some n \<and> ParseOCSPRequestNonce lib req = Inr nonce
           \<and> ParseCertificate (sv_caCertDER s) = Some caCert \<and> validateOCSPResponderCertificate caCert rc = None
           \<and> ol_CreateResponse lib caCert rc tmpl (sv_ocspSigner s) = Some d
           \<and> ot_SerialNumber tmpl = n \<and> reports tmpl (status_of (rv_db st) (tn, sv_caID s, Text16 n))
           \<and> rq_now q 1 < ot_NextUpdate tmpl \<and> ot_Certificate tmpl = Some rc
           \<and> ocspNonceExtensions lib nonce = Inr extra \<and> ot_ExtraExtensions tmpl = extra"
    and "cache_ok (rq_time_text q) lib s (rv_cache st')"
proof -
  from assms(1) obtain n nonce st1 responder where run:
    "ol_ParseRequest lib req = Some n" "ParseOCSPRequestNonce lib req = Inr nonce"
    "activeOCSPResponder q s tn st = (st1, Inr responder)"
    "respond_with q lib s tn (Text16 n) nonce (ocsp_answer (LookupIssuedCert (rv_db st) tn (sv_caID s) (Text16 n))) responder (rq_now q 1) st1
       = (st', Inr d)"
    by (auto simp: respondOCSP_def ParseOCSPRequestSerial_def Let_def split: sum.splits option.splits prod.splits)
  obtain status t r where ans: "ocsp_answer (LookupIssuedCert (rv_db st) tn (sv_caID s) (Text16 n)) = (status, t, r)"
    using prod_cases3 by blast
  have cache: "cache_ok (rq_time_text q) lib s (rv_cache st1)" using assms(2) activeOCSPResponder_cache [of q s tn st] run(3) by simp
  from respond_with_ok [OF run(4) [unfolded ans] cache assms(3,4,5) Text16_plain] reports_answer [OF ans]
  have ok: "\<exists>nu. signed_for lib s \<lparr>ck_tenantID = tn, ck_caID = sv_caID s, ck_serial = Text16 n, ck_status = status, ck_reason = r,
                 ck_revokedAt = t, ck_responderSerial = or_Serial responder\<rparr> nonce d nu \<and> rq_now q 1 < nu"
    and cache': "cache_ok (rq_time_text q) lib s (rv_cache st')" by blast+
  show "cache_ok (rq_time_text q) lib s (rv_cache st')" by (rule cache')
  from ok obtain nu caCert rc extra where sg: "rq_now q 1 < nu" "ParseCertificate (sv_caCertDER s) = Some caCert"
    "validateOCSPResponderCertificate caCert rc = None" "ocspNonceExtensions lib nonce = Inr extra"
    "ol_CreateResponse lib caCert rc (response_template n status (nu - 10 * minute) nu t r (Some rc) extra) (sv_ocspSigner s) = Some d"
    unfolding signed_for_def by (auto simp: SetString16_Text16)
  let ?tmpl = "response_template n status (nu - 10 * minute) nu t r (Some rc) extra"
  have "ot_SerialNumber ?tmpl = n" "ot_NextUpdate ?tmpl = nu" "ot_Certificate ?tmpl = Some rc" "ot_ExtraExtensions ?tmpl = extra"
    by (simp_all add: response_template_def)
  moreover have "reports ?tmpl (status_of (rv_db st) (tn, sv_caID s, Text16 n))" using reports_answer [OF ans] by blast
  ultimately show "\<exists>n nonce caCert rc tmpl extra. ol_ParseRequest lib req = Some n \<and> ParseOCSPRequestNonce lib req = Inr nonce
           \<and> ParseCertificate (sv_caCertDER s) = Some caCert \<and> validateOCSPResponderCertificate caCert rc = None
           \<and> ol_CreateResponse lib caCert rc tmpl (sv_ocspSigner s) = Some d
           \<and> ot_SerialNumber tmpl = n \<and> reports tmpl (status_of (rv_db st) (tn, sv_caID s, Text16 n))
           \<and> rq_now q 1 < ot_NextUpdate tmpl \<and> ot_Certificate tmpl = Some rc
           \<and> ocspNonceExtensions lib nonce = Inr extra \<and> ot_ExtraExtensions tmpl = extra"
    using run(1,2) sg by (intro exI [of _ n] exI [of _ nonce] exI [of _ caCert] exI [of _ rc] exI [of _ ?tmpl] exI [of _ extra]) simp
qed


text \<open>A toy library whose requests are serial numbers and whose responses are templates with the signer's key.\<close>

definition sample_ocsp_lib :: "(int, ocsp_template \<times> public_key) ocsp_lib" where
  "sample_ocsp_lib = \<lparr>ol_ParseRequest = (\<lambda>n. Some n), ol_extensions = (\<lambda>_. Inr []), ol_octets = (\<lambda>v. Some v),
     ol_to_octets = (\<lambda>v. v), ol_CreateResponse = (\<lambda>ca rc tmpl signer. map_option (\<lambda>k. (tmpl, k)) (ds_signs signer))\<rparr>"

definition sample_ocsp_state :: "(ocsp_template \<times> public_key) rev_state" where
  "sample_ocsp_state = \<lparr>rv_db = rv_db sample_rev_state, rv_log = empty_ca_log, rv_cache = []\<rparr>"


end
