(* ===== verification/CaServed.thy ===== *)
theory CaServed
  imports CaStore "HOL-Library.Multiset"
begin

text \<open>
  The served CA hierarchy (\<^verbatim>\<open>internal/server/ca_hierarchy.go\<close>): key ceremonies, creation and import of
  authorities, intermediate and leaf issuance, rotation and re-key, over the CA tables, the event log and
  the signing process.

  The signing process holds keys by handle, for all tenants; a key answers or refuses a CA signature. A
  transaction restores the tables when it fails, but not the log or the signing process. PEM text is the
  sequence of blocks \<^verbatim>\<open>pem.Decode\<close> finds in it and what remains after the last one. SHA-256 of the
  canonical JSON of a CA specification and of DER bytes are parameters.
\<close>

section \<open>State and environment\<close>

record signer_key =
  sk_Public :: public_key
  sk_SignsCA :: bool

record hier_state =
  hs_db :: ca_db
  hs_log :: ca_log
  hs_keys :: "(string \<times> signer_key) list"
  hs_signers :: "(string \<times> DigestSigner) list"

text \<open>
  What a request draws from outside: certificate creation, the appends and applications of events by
  sequence number, generated identifiers and row times, the subject of the authenticated actor, a fresh
  signing key, whether the signing process can be reached, and whether a transaction commits.
\<close>

record hier_env =
  hx_x509 :: x509_env
  hx_append :: "nat \<Rightarrow> append_env"
  hx_apply :: "nat \<Rightarrow> gotime"
  hx_uuid :: string
  hx_rowid :: string
  hx_rowtime :: gotime
  hx_actor :: "string option"
  hx_newkey :: "public_key option"
  hx_client :: bool
  hx_commits :: bool

datatype hier_error =
    HierInvalid string | HierConflict string | HierConflictStore store_error | HierUnavailable
  | HierStore store_error | HierAppend append_error | SignerNotFound | SignerFailed | HierLeaf leaf_error | CommitFailed

text \<open>\<^verbatim>\<open>caHierarchyConflict\<close>: the ceremony errors of the store become conflicts.\<close>

fun caHierarchyConflict :: "hier_error \<Rightarrow> hier_error" where
  "caHierarchyConflict (HierStore e) =
     (case e of
        KeyCeremonyQuorumNotMet a b \<Rightarrow> HierConflictStore e
      | KeyCeremonyNotPending \<Rightarrow> HierConflictStore e
      | KeyCeremonyPurposeMismatch \<Rightarrow> HierConflictStore e
      | SelfApproval \<Rightarrow> HierConflictStore e
      | AnonymousApproval \<Rightarrow> HierConflictStore e
      | _ \<Rightarrow> HierStore e)"
| "caHierarchyConflict e = e"

definition with_tenant :: "hier_env \<Rightarrow> (hier_state \<Rightarrow> hier_state \<times> (hier_error + 'a)) \<Rightarrow> hier_state \<Rightarrow> hier_state \<times> (hier_error + 'a)" where
  "with_tenant env f st =
     (case f st of
        (st1, Inl e) \<Rightarrow> (st1\<lparr>hs_db := hs_db st\<rparr>, Inl (caHierarchyConflict e))
      | (st1, Inr a) \<Rightarrow> if hx_commits env then (st1, Inr a) else (st1\<lparr>hs_db := hs_db st\<rparr>, Inl CommitFailed))"

definition appendEvent :: "hier_env \<Rightarrow> string \<Rightarrow> string \<Rightarrow> ca_payload \<Rightarrow> hier_state \<Rightarrow> hier_state \<times> (hier_error + ca_event)" where
  "appendEvent env tn ty d st =
     (case Append_event (hx_append env (Suc (lg_last (hs_log st)))) (new_event tn ty d) (hs_log st) of
        Inl e \<Rightarrow> (st, Inl (HierAppend e))
      | Inr (lg, ev) \<Rightarrow> (st\<lparr>hs_log := lg\<rparr>, Inr ev))"

definition apply_hier :: "hier_env \<Rightarrow> ca_event \<Rightarrow> hier_state \<Rightarrow> hier_state \<times> hier_error option" where
  "apply_hier env ev st =
     (case ca_ApplyTx (hx_apply env (ce_Sequence ev)) ev (hs_db st) of
        Inl e \<Rightarrow> (st, Some (HierStore e))
      | Inr db \<Rightarrow> (st\<lparr>hs_db := db\<rparr>, None))"

section \<open>Specifications and purposes\<close>

record api_CASpec =
  as_CommonName :: string
  as_PermittedDNSDomains :: "string list"
  as_MaxPathLen :: int
  as_ExtendedKeyUsages :: "string list"
  as_TTLSeconds :: int
  as_SignatureAlgorithm :: string

definition cryptoProfile :: "api_CASpec \<Rightarrow> HierarchyCAProfile" where
  "cryptoProfile spec =
     \<lparr>cs_CommonName = as_CommonName spec, cs_PermittedDNSDomains = as_PermittedDNSDomains spec,
      cs_MaxPathLen = as_MaxPathLen spec, cs_EKUs = as_ExtendedKeyUsages spec, cs_TTL = ttl_duration (as_TTLSeconds spec)\<rparr>"

definition validateCASpec :: "api_CASpec \<Rightarrow> hier_error option" where
  "validateCASpec spec =
     (if as_CommonName spec = '''' then Some (HierInvalid ''common_name is required'')
      else if as_TTLSeconds spec < 0 then Some (HierInvalid ''ttl_seconds cannot be negative'')
      else if to_lower (as_SignatureAlgorithm spec) \<in> {'''', ''ecdsa-p256''} then None
      else Some (HierInvalid ''only ecdsa-p256 CA keys are supported by the served signer path''))"

text \<open>
  \<open>ph_spec\<close> is SHA-256 (in hexadecimal) of the JSON text of a specification's name, sorted domains, path
  length, sorted key usages and lifetime; \<open>ph_sha\<close> is SHA-256 (in hexadecimal) of bytes, \<open>ph_raw\<close> the bytes of a DER
  value, and \<open>ph_pem\<close> SHA-256 of the PEM text of certificates.
\<close>

record purpose_hash =
  ph_spec :: "string \<times> string list \<times> int \<times> string list \<times> duration \<Rightarrow> string"
  ph_raw :: "der \<Rightarrow> bytes"
  ph_sha :: "bytes \<Rightarrow> string"
  ph_pem :: "der list \<Rightarrow> string"

definition canonical_spec :: "api_CASpec \<Rightarrow> string \<times> string list \<times> int \<times> string list \<times> duration" where
  "canonical_spec spec =
     (as_CommonName spec, sort (as_PermittedDNSDomains spec), as_MaxPathLen spec, sort (as_ExtendedKeyUsages spec),
      ttl_duration (as_TTLSeconds spec))"

definition flattenDERChain :: "purpose_hash \<Rightarrow> der list \<Rightarrow> bytes" where
  "flattenDERChain H chain = concat (map (ph_raw H) chain)"

definition PurposeRoot :: "purpose_hash \<Rightarrow> api_CASpec \<Rightarrow> string" where
  "PurposeRoot H spec = ''root:'' @ ph_spec H (canonical_spec spec)"

definition PurposeIntermediate :: "purpose_hash \<Rightarrow> string \<Rightarrow> api_CASpec \<Rightarrow> string" where
  "PurposeIntermediate H parent spec = ''intermediate:'' @ parent @ '':'' @ ph_spec H (canonical_spec spec)"

definition PurposeRotate :: "string \<Rightarrow> string" where
  "PurposeRotate caID = ''rotation:'' @ caID"

definition hierarchyPurpose :: "purpose_hash \<Rightarrow> string \<Rightarrow> string \<Rightarrow> api_CASpec \<Rightarrow> hier_error + string" where
  "hierarchyPurpose H operation parentID spec =
     (case validateCASpec spec of
        Some e \<Rightarrow> Inl e
      | None \<Rightarrow>
          if operation = ''create_root'' then Inr (PurposeRoot H spec)
          else if operation = ''create_intermediate''
          then (if parentID = '''' then Inl (HierInvalid ''parent_id is required for create_intermediate'')
                else Inr (PurposeIntermediate H parentID spec))
          else Inl (HierInvalid ''unsupported ceremony operation''))"

definition offlineRootPurpose :: "purpose_hash \<Rightarrow> der \<Rightarrow> api_CASpec \<Rightarrow> hier_error + string" where
  "offlineRootPurpose H certDER spec =
     (case hierarchyPurpose H ''create_root'' '''' spec of
        Inl e \<Rightarrow> Inl e
      | Inr rootPurpose \<Rightarrow> Inr (''offline-root:'' @ ph_sha H (ph_raw H certDER) @ '':'' @ rootPurpose))"

definition existingCAPurpose :: "purpose_hash \<Rightarrow> der list \<Rightarrow> string \<Rightarrow> api_CASpec \<Rightarrow> hier_error + string" where
  "existingCAPurpose H chainDER signerHandle spec =
     (if signerHandle = '''' then Inl (HierInvalid ''signer_handle is required for import_existing_ca'')
      else case hierarchyPurpose H ''create_root'' '''' spec of
             Inl e \<Rightarrow> Inl e
           | Inr rootPurpose \<Rightarrow> Inr (''import-existing-ca:'' @ signerHandle @ '':'' @ ph_sha H (flattenDERChain H chainDER) @ '':'' @ rootPurpose))"

definition offlineIntermediatePurpose :: "purpose_hash \<Rightarrow> string \<Rightarrow> api_CASpec \<Rightarrow> hier_error + string" where
  "offlineIntermediatePurpose H parentID spec =
     (if parentID = '''' then Inl (HierInvalid ''parent_id is required for create_offline_intermediate'')
      else case hierarchyPurpose H ''create_intermediate'' parentID spec of
             Inl e \<Rightarrow> Inl e
           | Inr p \<Rightarrow> Inr (''offline-'' @ p))"

definition externalIntermediateCSRPurpose :: "purpose_hash \<Rightarrow> string \<Rightarrow> der option \<Rightarrow> api_CASpec \<Rightarrow> hier_error + string" where
  "externalIntermediateCSRPurpose H parentID csrDER spec =
     (if parentID = '''' then Inl (HierInvalid ''parent_id is required for issue_intermediate_csr'')
      else case csrDER of
             None \<Rightarrow> Inl (HierInvalid ''csr_pem is required for issue_intermediate_csr'')
           | Some csr \<Rightarrow>
               (case hierarchyPurpose H ''create_intermediate'' parentID spec of
                  Inl e \<Rightarrow> Inl e
                | Inr p \<Rightarrow> Inr (''intermediate-csr:'' @ parentID @ '':'' @ ph_sha H (ph_raw H csr) @ '':'' @ p)))"

definition rekeyCAPurpose :: "string \<Rightarrow> hier_error + string" where
  "rekeyCAPurpose authorityID =
     (let i = trim_space authorityID
      in if i = '''' then Inl (HierInvalid ''authority_id is required for rekey_ca'') else Inr (PurposeRotate i))"

section \<open>PEM text\<close>

record pem_text =
  pt_blocks :: "(string \<times> der) list"
  pt_rest :: string

definition contains :: "string \<Rightarrow> string \<Rightarrow> bool" where
  "contains s sub = list_ex (\<lambda>i. take (length sub) (drop i s) = sub) [0 ..< Suc (length s)]"

fun chain_loop :: "(string \<times> der) list \<Rightarrow> string \<Rightarrow> der list \<Rightarrow> hier_error + der list" where
  "chain_loop [] rest acc = (if trim_space rest \<noteq> '''' then Inl (HierInvalid ''trailing non-PEM data'') else Inr acc)"
| "chain_loop ((ty, d) # bs) rest acc =
     (if contains ty ''PRIVATE KEY'' then Inl (HierInvalid ''must not contain private key material'')
      else if ty \<noteq> ''CERTIFICATE'' then Inl (HierInvalid ''unsupported PEM block'')
      else chain_loop bs rest (acc @ [d]))"

definition certificateChainPEM :: "pem_text \<Rightarrow> hier_error + der list" where
  "certificateChainPEM raw =
     (case chain_loop (pt_blocks raw) (pt_rest raw) [] of
        Inl e \<Rightarrow> Inl e
      | Inr chain \<Rightarrow> if chain = [] then Inl (HierInvalid ''must contain at least one CERTIFICATE PEM block'') else Inr chain)"

fun single_loop :: "(string \<times> der) list \<Rightarrow> string \<Rightarrow> der option \<Rightarrow> hier_error + der option" where
  "single_loop [] rest acc = (if trim_space rest \<noteq> '''' then Inl (HierInvalid ''trailing non-PEM data'') else Inr acc)"
| "single_loop ((ty, d) # bs) rest acc =
     (if contains ty ''PRIVATE KEY'' then Inl (HierInvalid ''must not contain private key material'')
      else if ty \<noteq> ''CERTIFICATE'' then Inl (HierInvalid ''unsupported PEM block'')
      else if acc \<noteq> None then Inl (HierInvalid ''must contain exactly one CERTIFICATE block'')
      else single_loop bs rest (Some d))"

definition singleCertificatePEM :: "pem_text \<Rightarrow> hier_error + der" where
  "singleCertificatePEM raw =
     (case single_loop (pt_blocks raw) (pt_rest raw) None of
        Inl e \<Rightarrow> Inl e
      | Inr None \<Rightarrow> Inl (HierInvalid ''must contain one CERTIFICATE PEM block'')
      | Inr (Some d) \<Rightarrow> Inr d)"

definition csrDERFromPEM :: "pem_text \<Rightarrow> hier_error + der" where
  "csrDERFromPEM raw =
     (case pt_blocks raw of
        [] \<Rightarrow> Inl (HierInvalid ''csr_pem must contain one CERTIFICATE REQUEST PEM block'')
      | (ty, d) # _ \<Rightarrow> if ty \<noteq> ''CERTIFICATE REQUEST''
                       then Inl (HierInvalid ''csr_pem must contain one CERTIFICATE REQUEST PEM block'') else Inr d)"

text \<open>A stored chain is the certificates its PEM text encodes.\<close>

definition certs_of :: "der list \<Rightarrow> x509_Certificate list" where
  "certs_of ds = List.map_filter ParseCertificate ds"

definition firstCertDER :: "x509_Certificate list \<Rightarrow> hier_error + der" where
  "firstCertDER chain = (case chain of [] \<Rightarrow> Inl (HierInvalid ''CA certificate PEM is malformed'') | c # _ \<Rightarrow> Inr (CertDER c))"

section \<open>The signing process\<close>

definition hierarchySignerHandle :: "string \<Rightarrow> string" where
  "hierarchySignerHandle ceremonyID = ''ca-hierarchy-'' @ ceremonyID"

definition remote_signer :: "signer_key \<Rightarrow> DigestSigner" where
  "remote_signer k = \<lparr>ds_Public = sk_Public k, ds_signs = (if sk_SignsCA k then Some (sk_Public k) else None)\<rparr>"

definition SignerForDualControlHandle :: "hier_env \<Rightarrow> string \<Rightarrow> hier_state \<Rightarrow> hier_error + DigestSigner" where
  "SignerForDualControlHandle env handle st =
     (if \<not> hx_client env then Inl HierUnavailable
      else case map_of (hs_keys st) handle of None \<Rightarrow> Inl SignerNotFound | Some k \<Rightarrow> Inr (remote_signer k))"

text \<open>A key is generated under the handle unless the handle is taken, in which case its key is bound.\<close>

definition createOrBindSigner :: "hier_env \<Rightarrow> string \<Rightarrow> hier_state \<Rightarrow> hier_state \<times> (hier_error + DigestSigner)" where
  "createOrBindSigner env handle st =
     (if \<not> hx_client env then (st, Inl HierUnavailable)
      else case map_of (hs_keys st) handle of
             Some k \<Rightarrow> (st, Inr (remote_signer k))
           | None \<Rightarrow>
               (case hx_newkey env of
                  None \<Rightarrow> (st, Inl SignerFailed)
                | Some p \<Rightarrow> (let k = \<lparr>sk_Public = p, sk_SignsCA = True\<rparr>
                             in (st\<lparr>hs_keys := (handle, k) # hs_keys st\<rparr>, Inr (remote_signer k)))))"

definition rememberSigner :: "string \<Rightarrow> DigestSigner \<Rightarrow> hier_state \<Rightarrow> hier_state" where
  "rememberSigner caID signer st = (if caID = '''' then st else st\<lparr>hs_signers := (caID, signer) # hs_signers st\<rparr>)"

definition signerForAuthority :: "hier_env \<Rightarrow> CAAuthority \<Rightarrow> hier_state \<Rightarrow> hier_state \<times> (hier_error + DigestSigner)" where
  "signerForAuthority env ca st =
     (if au_SignerHandle ca = '''' then (st, Inl HierUnavailable)
      else case map_of (hs_signers st) (au_ID ca) of
             Some s \<Rightarrow> (st, Inr s)
           | None \<Rightarrow>
               (case SignerForDualControlHandle env (au_SignerHandle ca) st of
                  Inl e \<Rightarrow> (st, Inl e)
                | Inr s \<Rightarrow> (rememberSigner (au_ID ca) s st, Inr s)))"

section \<open>Sequencing\<close>

type_synonym 'a hier = "hier_state \<Rightarrow> hier_state \<times> (hier_error + 'a)"

definition hbind :: "'a hier \<Rightarrow> ('a \<Rightarrow> 'b hier) \<Rightarrow> 'b hier" where
  "hbind m f st = (case m st of (st1, Inl e) \<Rightarrow> (st1, Inl e) | (st1, Inr a) \<Rightarrow> f a st1)"

definition hret :: "hier_error + 'a \<Rightarrow> 'a hier" where
  "hret r st = (st, r)"

definition hdo :: "(hier_state \<Rightarrow> hier_state) \<Rightarrow> unit hier" where
  "hdo f st = (f st, Inr ())"

definition hread :: "(ca_db \<Rightarrow> hier_error + 'a) \<Rightarrow> 'a hier" where
  "hread f st = (st, f (hs_db st))"

definition hupdate :: "(ca_db \<Rightarrow> store_error + ca_db) \<Rightarrow> unit hier" where
  "hupdate f st = (case f (hs_db st) of Inl e \<Rightarrow> (st, Inl (HierStore e)) | Inr db \<Rightarrow> (st\<lparr>hs_db := db\<rparr>, Inr ()))"

definition happly :: "hier_env \<Rightarrow> ca_event \<Rightarrow> unit hier" where
  "happly env ev st = (case apply_hier env ev st of (st1, Some e) \<Rightarrow> (st1, Inl e) | (st1, None) \<Rightarrow> (st1, Inr ()))"

definition hcheck :: "hier_error option \<Rightarrow> unit hier" where
  "hcheck r st = (st, case r of None \<Rightarrow> Inr () | Some e \<Rightarrow> Inl e)"

definition get_authority :: "string \<Rightarrow> string \<Rightarrow> CAAuthority hier" where
  "get_authority tn i = hread (\<lambda>db. case GetCAAuthority db tn i of None \<Rightarrow> Inl (HierStore NoRows) | Some a \<Rightarrow> Inr a)"

definition get_ceremony :: "string \<Rightarrow> string \<Rightarrow> (KeyCeremony \<times> int) hier" where
  "get_ceremony tn i = hread (\<lambda>db. case GetKeyCeremony db tn i of None \<Rightarrow> Inl (HierStore NoRows) | Some c \<Rightarrow> Inr c)"

definition insert_row :: "hier_env \<Rightarrow> CAAuthority \<Rightarrow> CAAuthority hier" where
  "insert_row env a st =
     (case InsertCAAuthorityTx (hx_rowid env) (hx_rowtime env) a (hs_db st) of
        Inl e \<Rightarrow> (st, Inl (HierStore e))
      | Inr (db, row) \<Rightarrow> (st\<lparr>hs_db := db\<rparr>, Inr row))"

definition invalid_if :: "bool \<Rightarrow> string \<Rightarrow> unit hier" where
  "invalid_if b msg = hret (if b then Inl (HierInvalid msg) else Inr ())"

definition signed :: "hca_error + 'a \<Rightarrow> hier_error + 'a" where
  "signed r = (case r of Inl e \<Rightarrow> Inl (HierInvalid ''certificate'') | Inr a \<Rightarrow> Inr a)"

definition authority_row ::
  "string \<Rightarrow> string option \<Rightarrow> string \<Rightarrow> string \<Rightarrow> x509_Certificate list \<Rightarrow> string \<Rightarrow> IssuedHierarchyCA \<Rightarrow> CAAuthority" where
  "authority_row tn parent commonName kind chain handle issued =
     \<lparr>au_ID = '''', au_TenantID = tn, au_ParentID = parent, au_CommonName = commonName, au_Kind = kind, au_Status = ''active'',
      au_CertificatePEM = chain, au_SignerHandle = handle, au_Serial = ih_Serial issued, au_NotAfter = Some (ih_NotAfter issued),
      au_MaxPathLen = ih_MaxPathLen issued, au_PermittedDNSNames = ih_PermittedDNSDomains issued, au_EKUs = ih_EKUs issued,
      au_ReplacesID = None, au_CreatedAt = 0\<rparr>"

definition emit :: "hier_env \<Rightarrow> string \<Rightarrow> string \<Rightarrow> (string \<times> audit_val) list \<Rightarrow> unit hier" where
  "emit env tn ty d = hbind (appendEvent env tn ty (OtherPayload d)) (\<lambda>_. hret (Inr ()))"

section \<open>Ceremonies\<close>

record CACeremonyStartRequest =
  sr_Operation :: string
  sr_ParentID :: string
  sr_AuthorityID :: string
  sr_CSRPem :: pem_text
  sr_CertificatePEM :: pem_text
  sr_SignerHandle :: string
  sr_Threshold :: int
  sr_Spec :: api_CASpec

definition hierarchyPurposeFromStartRequest :: "purpose_hash \<Rightarrow> CACeremonyStartRequest \<Rightarrow> hier_error + string" where
  "hierarchyPurposeFromStartRequest H req =
     (if sr_Operation req = ''import_offline_root''
      then (case singleCertificatePEM (sr_CertificatePEM req) of Inl e \<Rightarrow> Inl e | Inr d \<Rightarrow> offlineRootPurpose H d (sr_Spec req))
      else if sr_Operation req = ''import_existing_ca''
      then (case certificateChainPEM (sr_CertificatePEM req) of
              Inl e \<Rightarrow> Inl e
            | Inr ds \<Rightarrow> existingCAPurpose H ds (sr_SignerHandle req) (sr_Spec req))
      else if sr_Operation req = ''create_offline_intermediate'' then offlineIntermediatePurpose H (sr_ParentID req) (sr_Spec req)
      else if sr_Operation req = ''issue_intermediate_csr''
      then (case csrDERFromPEM (sr_CSRPem req) of
              Inl e \<Rightarrow> Inl e
            | Inr d \<Rightarrow> externalIntermediateCSRPurpose H (sr_ParentID req) (Some d) (sr_Spec req))
      else if sr_Operation req = ''rekey_ca'' then rekeyCAPurpose (sr_AuthorityID req)
      else hierarchyPurpose H (sr_Operation req) (sr_ParentID req) (sr_Spec req))"

definition actor_subject :: "hier_env \<Rightarrow> string" where
  "actor_subject env = (case hx_actor env of None \<Rightarrow> '''' | Some a \<Rightarrow> a)"

definition StartCeremony :: "hier_env \<Rightarrow> purpose_hash \<Rightarrow> string \<Rightarrow> CACeremonyStartRequest \<Rightarrow> (KeyCeremony \<times> int) hier" where
  "StartCeremony env H tn req =
     hbind (invalid_if (sr_Threshold req < 1) ''threshold must be at least 1'') (\<lambda>_.
     hbind (hret (hierarchyPurposeFromStartRequest H req)) (\<lambda>purpose.
     hbind (appendEvent env tn ''ca.ceremony.started''
              (CACeremonyStarted (hx_uuid env) purpose (sr_Threshold req) (actor_subject env))) (\<lambda>ev.
     hbind (happly env ev) (\<lambda>_. get_ceremony tn (hx_uuid env)))))"

definition GetCeremony :: "string \<Rightarrow> string \<Rightarrow> (KeyCeremony \<times> int) hier" where
  "GetCeremony tn i = get_ceremony tn i"

definition ApproveCeremony :: "hier_env \<Rightarrow> string \<Rightarrow> string \<Rightarrow> (KeyCeremony \<times> int) hier" where
  "ApproveCeremony env tn i =
     (let custodian = actor_subject env
      in hbind (hcheck (if custodian = '''' then Some (HierStore AnonymousApproval) else None)) (\<lambda>_.
         hbind (get_ceremony tn i) (\<lambda>(current, approvals).
         hbind (hcheck (if kc_Status current \<noteq> ''pending'' then Some (HierStore KeyCeremonyNotPending)
                        else if kc_Opener current \<noteq> '''' \<and> kc_Opener current = custodian then Some (HierStore SelfApproval)
                        else None)) (\<lambda>_.
         hbind (hread (\<lambda>db. Inr (KeyCeremonyApprovalEvidenced db tn i custodian))) (\<lambda>evidenced.
           if evidenced then hret (Inr (current, approvals))
           else hbind (appendEvent env tn ''ca.ceremony.approved'' (CACeremonyApproved i custodian (approvals + 1))) (\<lambda>ev.
                hbind (happly env ev) (\<lambda>_. get_ceremony tn i)))))))"

definition requirePendingCeremonyQuorum :: "string \<Rightarrow> string \<Rightarrow> string \<Rightarrow> unit hier" where
  "requirePendingCeremonyQuorum tn i purpose =
     hbind (get_ceremony tn i) (\<lambda>(c, approvals).
       hcheck (if kc_Status c \<noteq> ''pending'' then Some (HierStore KeyCeremonyNotPending)
               else if kc_Purpose c \<noteq> purpose then Some (HierStore KeyCeremonyPurposeMismatch)
               else if approvals < kc_Threshold c then Some (HierStore (KeyCeremonyQuorumNotMet approvals (kc_Threshold c)))
               else None))"

section \<open>Creating and importing authorities\<close>

definition CreateRoot :: "hier_env \<Rightarrow> purpose_hash \<Rightarrow> string \<Rightarrow> string \<Rightarrow> api_CASpec \<Rightarrow> CAAuthority hier" where
  "CreateRoot env H tn ceremonyID spec =
     hbind (invalid_if (ceremonyID = '''') ''ceremony_id is required'') (\<lambda>_.
     hbind (hret (hierarchyPurpose H ''create_root'' '''' spec)) (\<lambda>purpose.
     let handle = hierarchySignerHandle ceremonyID
     in hbind (with_tenant env
          (hbind (hupdate (ConsumeKeyCeremonyTx tn ceremonyID purpose)) (\<lambda>_.
           hbind (createOrBindSigner env handle) (\<lambda>signer.
           hbind (hret (signed (SelfSignedHierarchyCA (hx_x509 env) signer (cryptoProfile spec)))) (\<lambda>issued.
           hbind (insert_row env (authority_row tn None (as_CommonName spec) ''root'' [ih_Certificate issued] handle issued)) (\<lambda>row.
           hret (Inr (row, signer)))))))) (\<lambda>(created, signer).
        hbind (hdo (rememberSigner (au_ID created) signer)) (\<lambda>_.
        hbind (emit env tn ''ca.root.created'' [(''ca_id'', AStr (au_ID created)), (''common_name'', AStr (au_CommonName created)),
                 (''ceremony_id'', AStr ceremonyID), (''signer_handle'', AStr handle)]) (\<lambda>_. hret (Inr created))))))"

definition ImportOfflineRoot :: "hier_env \<Rightarrow> purpose_hash \<Rightarrow> string \<Rightarrow> string \<Rightarrow> pem_text \<Rightarrow> api_CASpec \<Rightarrow> CAAuthority hier" where
  "ImportOfflineRoot env H tn ceremonyID certificatePEM spec =
     hbind (invalid_if (ceremonyID = '''') ''ceremony_id is required'') (\<lambda>_.
     hbind (hret (singleCertificatePEM certificatePEM)) (\<lambda>rootDER.
     hbind (hret (signed (VerifyImportedOfflineRoot (hx_x509 env) rootDER (cryptoProfile spec)))) (\<lambda>issued.
     hbind (hret (offlineRootPurpose H rootDER spec)) (\<lambda>purpose.
     hbind (with_tenant env
        (hbind (hupdate (ConsumeKeyCeremonyTx tn ceremonyID purpose)) (\<lambda>_.
         insert_row env (authority_row tn None (ih_CommonName issued) ''root'' (certs_of [rootDER]) '''' issued)))) (\<lambda>created.
     hbind (emit env tn ''ca.root.created'' [(''ca_id'', AStr (au_ID created)), (''common_name'', AStr (au_CommonName created)),
              (''ceremony_id'', AStr ceremonyID), (''offline_root'', AStr ''true'')]) (\<lambda>_. hret (Inr created)))))))"

definition ImportExisting ::
  "hier_env \<Rightarrow> purpose_hash \<Rightarrow> string \<Rightarrow> string \<Rightarrow> pem_text \<Rightarrow> string \<Rightarrow> api_CASpec \<Rightarrow> CAAuthority hier" where
  "ImportExisting env H tn ceremonyID certificatePEM signerHandle spec =
     hbind (invalid_if (ceremonyID = '''' \<or> signerHandle = '''') ''ceremony_id and signer_handle are required'') (\<lambda>_.
     hbind (hret (certificateChainPEM certificatePEM)) (\<lambda>chainDER.
     hbind (\<lambda>st. (st, SignerForDualControlHandle env signerHandle st)) (\<lambda>signer.
     hbind (hret (signed (VerifyImportedCAChain (hx_x509 env) chainDER (ds_Public signer) (cryptoProfile spec)))) (\<lambda>(issued, kind).
     hbind (hret (existingCAPurpose H chainDER signerHandle spec)) (\<lambda>purpose.
     hbind (with_tenant env
        (hbind (hupdate (ConsumeKeyCeremonyTx tn ceremonyID purpose)) (\<lambda>_.
         insert_row env (authority_row tn None (ih_CommonName issued) kind (certs_of chainDER) signerHandle issued)))) (\<lambda>created.
     hbind (hdo (rememberSigner (au_ID created) signer)) (\<lambda>_.
     hbind (emit env tn ''ca.authority.imported'' [(''ca_id'', AStr (au_ID created)), (''common_name'', AStr (au_CommonName created)),
              (''ceremony_id'', AStr ceremonyID), (''signer_handle'', AStr signerHandle), (''kind'', AStr kind),
              (''chain_sha256'', AStr (ph_pem H chainDER))]) (\<lambda>_. hret (Inr created)))))))))"

definition CreateIntermediate ::
  "hier_env \<Rightarrow> purpose_hash \<Rightarrow> string \<Rightarrow> string \<Rightarrow> string \<Rightarrow> api_CASpec \<Rightarrow> CAAuthority hier" where
  "CreateIntermediate env H tn ceremonyID parentID spec =
     hbind (invalid_if (ceremonyID = '''' \<or> parentID = '''') ''ceremony_id and parent_id are required'') (\<lambda>_.
     hbind (get_authority tn parentID) (\<lambda>parent.
     hbind (hret (firstCertDER (au_CertificatePEM parent))) (\<lambda>parentDER.
     hbind (signerForAuthority env parent) (\<lambda>parentSigner.
     hbind (hret (hierarchyPurpose H ''create_intermediate'' parentID spec)) (\<lambda>purpose.
     let handle = hierarchySignerHandle ceremonyID
     in hbind (with_tenant env
          (hbind (hupdate (ConsumeKeyCeremonyTx tn ceremonyID purpose)) (\<lambda>_.
           hbind (createOrBindSigner env handle) (\<lambda>child.
           hbind (hret (signed (SignIntermediateHierarchyCA (hx_x509 env) parentDER parentSigner (ds_Public child) (cryptoProfile spec)))) (\<lambda>issued.
           hbind (insert_row env (authority_row tn (Some parentID) (as_CommonName spec) ''intermediate''
                    (ih_Certificate issued # au_CertificatePEM parent) handle issued)) (\<lambda>row.
           hret (Inr (row, child)))))))) (\<lambda>(created, child).
        hbind (hdo (rememberSigner (au_ID created) child)) (\<lambda>_.
        hbind (emit env tn ''ca.intermediate.created'' [(''ca_id'', AStr (au_ID created)), (''parent_id'', AStr parentID),
                 (''ceremony_id'', AStr ceremonyID), (''signer_handle'', AStr handle)]) (\<lambda>_. hret (Inr created)))))))))"

section \<open>Offline intermediates and external requests\<close>

definition CreateCertificateRequest :: "string \<Rightarrow> DigestSigner \<Rightarrow> hier_error + der" where
  "CreateCertificateRequest commonName signer =
     (if ds_signs signer \<noteq> Some (ds_Public signer) then Inl (HierInvalid ''certificate request'')
      else Inr (CSRDER \<lparr>cr_Subject = commonName, cr_DNSNames = [], cr_IPAddresses = [], cr_EmailAddresses = [], cr_URIs = [],
                        cr_PublicKey = ds_Public signer, cr_SignatureOK = True\<rparr>))"

definition offline_parent :: "CAAuthority \<Rightarrow> bool" where
  "offline_parent parent = (au_Kind parent = ''root'' \<and> au_SignerHandle parent = '''')"

definition CreateOfflineIntermediateCSR ::
  "hier_env \<Rightarrow> purpose_hash \<Rightarrow> string \<Rightarrow> string \<Rightarrow> string \<Rightarrow> api_CASpec \<Rightarrow> (der \<times> string) hier" where
  "CreateOfflineIntermediateCSR env H tn caID ceremonyID spec =
     hbind (invalid_if (ceremonyID = '''') ''ceremony_id is required'') (\<lambda>_.
     hbind (get_authority tn caID) (\<lambda>parent.
     hbind (invalid_if (\<not> offline_parent parent) ''parent must be an imported offline root'') (\<lambda>_.
     hbind (hret (offlineIntermediatePurpose H caID spec)) (\<lambda>purpose.
     hbind (\<lambda>st. case requirePendingCeremonyQuorum tn ceremonyID purpose st of
                   (st1, Inl e) \<Rightarrow> (st1, Inl (caHierarchyConflict e)) | r \<Rightarrow> r) (\<lambda>_.
     let handle = hierarchySignerHandle ceremonyID
     in hbind (createOrBindSigner env handle) (\<lambda>signer.
        hbind (hret (CreateCertificateRequest (as_CommonName spec) signer)) (\<lambda>csrDER.
        hbind (emit env tn ''ca.intermediate_csr.issued'' [(''ca_id'', AStr caID), (''ceremony_id'', AStr ceremonyID),
                 (''signer_handle'', AStr handle), (''csr_sha256'', AStr (ph_sha H (ph_raw H csrDER))), (''offline_root'', AStr ''true'')])
          (\<lambda>_. hret (Inr (csrDER, handle))))))))))"

definition ImportOfflineIntermediate ::
  "hier_env \<Rightarrow> purpose_hash \<Rightarrow> string \<Rightarrow> string \<Rightarrow> string \<Rightarrow> pem_text \<Rightarrow> api_CASpec \<Rightarrow> CAAuthority hier" where
  "ImportOfflineIntermediate env H tn caID ceremonyID certificatePEM spec =
     hbind (invalid_if (ceremonyID = '''') ''ceremony_id is required'') (\<lambda>_.
     hbind (get_authority tn caID) (\<lambda>parent.
     hbind (invalid_if (\<not> offline_parent parent) ''parent must be an imported offline root'') (\<lambda>_.
     hbind (hret (firstCertDER (au_CertificatePEM parent))) (\<lambda>parentDER.
     hbind (hret (singleCertificatePEM certificatePEM)) (\<lambda>childDER.
     hbind (hret (offlineIntermediatePurpose H caID spec)) (\<lambda>purpose.
     let handle = hierarchySignerHandle ceremonyID
     in hbind (\<lambda>st. (st, case SignerForDualControlHandle env handle st of
                           Inl SignerNotFound \<Rightarrow> Inl (HierConflict ''offline intermediate CSR has not been generated'')
                         | r \<Rightarrow> r)) (\<lambda>child.
        hbind (hret (signed (VerifyOfflineSignedIntermediate (hx_x509 env) parentDER childDER (ds_Public child) (cryptoProfile spec)))) (\<lambda>issued.
        hbind (with_tenant env
           (hbind (hupdate (ConsumeKeyCeremonyTx tn ceremonyID purpose)) (\<lambda>_.
            insert_row env (authority_row tn (Some caID) (ih_CommonName issued) ''intermediate''
              (certs_of [childDER] @ au_CertificatePEM parent) handle issued)))) (\<lambda>created.
        hbind (hdo (rememberSigner (au_ID created) child)) (\<lambda>_.
        hbind (emit env tn ''ca.intermediate.created'' [(''ca_id'', AStr (au_ID created)), (''parent_id'', AStr caID),
                 (''ceremony_id'', AStr ceremonyID), (''signer_handle'', AStr handle), (''offline_root'', AStr ''true'')])
          (\<lambda>_. hret (Inr created))))))))))))"

text \<open>\<open>None\<close> is an empty request.\<close>

definition IssueIntermediateCSR ::
  "hier_env \<Rightarrow> purpose_hash \<Rightarrow> string \<Rightarrow> string \<Rightarrow> string \<Rightarrow> der option \<Rightarrow> api_CASpec
     \<Rightarrow> (x509_Certificate list \<times> string \<times> gotime) hier" where
  "IssueIntermediateCSR env H tn caID ceremonyID csrDER spec =
     hbind (invalid_if (ceremonyID = '''') ''ceremony_id is required'') (\<lambda>_.
     hbind (hret (case csrDER of None \<Rightarrow> Inl (HierInvalid ''CSR is required'') | Some d \<Rightarrow> Inr d)) (\<lambda>csr.
     hbind (invalid_if (as_TTLSeconds spec \<le> 0) ''spec.ttl_seconds must be positive'') (\<lambda>_.
     hbind (hcheck (validateCASpec spec)) (\<lambda>_.
     hbind (get_authority tn caID) (\<lambda>ca.
     hbind (signerForAuthority env ca) (\<lambda>signer.
     hbind (hret (firstCertDER (au_CertificatePEM ca))) (\<lambda>caDER.
     let profile = (let p = cryptoProfile spec
                    in if cs_PermittedDNSDomains p = [] then p\<lparr>cs_PermittedDNSDomains := au_PermittedDNSNames ca\<rparr> else p)
     in hbind (hret (externalIntermediateCSRPurpose H caID (Some csr) spec)) (\<lambda>purpose.
        hbind (with_tenant env
           (hbind (hupdate (ConsumeKeyCeremonyTx tn ceremonyID purpose)) (\<lambda>_.
            hret (signed (SignIntermediateHierarchyCAFromCSR (hx_x509 env) caDER signer csr profile))))) (\<lambda>issued.
        let cert = ih_Certificate issued; serial = hex_text (xc_SerialNumber cert)
        in hbind (emit env tn ''ca.intermediate_csr.issued'' [(''ca_id'', AStr caID), (''serial'', AStr serial),
                    (''subject'', AStr (xc_Subject cert)), (''ceremony_id'', AStr ceremonyID)])
             (\<lambda>_. hret (Inr (cert # au_CertificatePEM ca, serial, xc_NotAfter cert))))))))))))"

section \<open>Leaves\<close>

definition dnsSuffixWithin :: "string \<Rightarrow> string \<Rightarrow> bool" where
  "dnsSuffixWithin name suf =
     (let n = trim_prefix (to_lower name) ''.''; s = trim_prefix (to_lower suf) ''.'' in n = s \<or> has_suffix n (''.'' @ s))"

definition intersectDNSSuffixes :: "string list \<Rightarrow> string list \<Rightarrow> string list" where
  "intersectDNSSuffixes a b =
     concat (map (\<lambda>x. concat (map (\<lambda>y. if dnsSuffixWithin x y \<or> dnsSuffixWithin y x
                                        then [if length x \<ge> length y then x else y] else []) b)) a)"

definition applyAuthorityLane :: "LeafProfile \<Rightarrow> CAAuthority \<Rightarrow> LeafProfile" where
  "applyAuthorityLane profile ca =
     (let p1 = (if au_PermittedDNSNames ca \<noteq> []
                then profile\<lparr>lp_PermittedDNSSuffixes :=
                       (if lp_PermittedDNSSuffixes profile = [] then au_PermittedDNSNames ca
                        else intersectDNSSuffixes (lp_PermittedDNSSuffixes profile) (au_PermittedDNSNames ca))\<rparr>
                else profile)
      in if lp_AllowedExtKeyUsage p1 = [] \<and> au_EKUs ca \<noteq> [] then p1\<lparr>lp_AllowedExtKeyUsage := au_EKUs ca\<rparr> else p1)"

text \<open>The authority asked for, and the one that issues.\<close>

definition issuingAuthority :: "string \<Rightarrow> string \<Rightarrow> (CAAuthority \<times> CAAuthority) hier" where
  "issuingAuthority tn caID =
     hbind (get_authority tn caID) (\<lambda>ca.
       if au_Status ca = ''active'' then hret (Inr (ca, ca))
       else if au_Status ca = ''superseded''
       then hread (\<lambda>db. case FindActiveCAAuthoritySuccessor db tn (au_ID ca) of
                          None \<Rightarrow> Inl (HierConflict ''superseded CA has no active successor'')
                        | Some s \<Rightarrow> Inr (ca, s))
       else if au_Status ca = ''revoked'' then hret (Inl (HierConflict ''revoked CA cannot issue''))
       else hret (Inl (HierConflict ''CA status cannot issue'')))"

definition Served_IssueLeaf ::
  "hier_env \<Rightarrow> (string, 'p) netip \<Rightarrow> LeafProfile \<Rightarrow> string \<Rightarrow> string \<Rightarrow> der option \<Rightarrow> int
     \<Rightarrow> (x509_Certificate list \<times> string \<times> gotime) hier" where
  "Served_IssueLeaf env ni leafProfile tn caID csrDER ttlSeconds =
     hbind (hret (case csrDER of None \<Rightarrow> Inl (HierInvalid ''CSR is required'') | Some d \<Rightarrow> Inr d)) (\<lambda>csr.
     hbind (invalid_if (ttlSeconds \<le> 0) ''ttl_seconds must be positive'') (\<lambda>_.
     hbind (issuingAuthority tn caID) (\<lambda>(requested, ca).
     hbind (signerForAuthority env ca) (\<lambda>signer.
     hbind (hret (firstCertDER (au_CertificatePEM ca))) (\<lambda>caDER.
     hbind (hret (case SignLeafFromCSRWithProfile (hx_x509 env) ni caDER signer csr (ttl_duration ttlSeconds)
                         (applyAuthorityLane leafProfile ca) of
                    Inl e \<Rightarrow> if IsLeafProfileViolation e then Inl (HierInvalid ''leaf profile violation'') else Inl (HierLeaf e)
                  | Inr d \<Rightarrow> (case ParseCertificate d of None \<Rightarrow> Inl (HierLeaf ParseIssuedFailed) | Some leaf \<Rightarrow> Inr leaf))) (\<lambda>leaf.
     let serial = hex_text (xc_SerialNumber leaf)
     in hbind (appendEvent env tn ''ca.endentity.issued'' (CAIssuedCertificate (au_ID ca) serial 0 '''')) (\<lambda>ev.
        hbind (happly env ev) (\<lambda>_. hret (Inr (leaf # au_CertificatePEM ca, serial, xc_NotAfter leaf))))))))))"

section \<open>Rotation and re-key\<close>

definition fold_label :: "string \<Rightarrow> string" where
  "fold_label v = to_lower (trim_space v)"

text \<open>Equality as multisets up to case and surrounding blanks.\<close>

definition server_sameStringSet :: "string list \<Rightarrow> string list \<Rightarrow> bool" where
  "server_sameStringSet a b = (length a = length b \<and> sort (map fold_label a) = sort (map fold_label b))"

definition validateAuthorityRotation :: "CAAuthority \<Rightarrow> CAAuthority \<Rightarrow> hier_error option" where
  "validateAuthorityRotation predecessor successor =
     (if au_Status predecessor \<noteq> ''active'' then Some (HierConflict ''predecessor CA must be active'')
      else if au_Status successor \<noteq> ''active'' then Some (HierConflict ''successor CA must be active'')
      else if au_SignerHandle predecessor = '''' \<or> au_SignerHandle successor = '''' then Some (HierInvalid ''signer-backed'')
      else if au_Kind predecessor \<noteq> au_Kind successor then Some (HierInvalid ''successor kind must match predecessor kind'')
      else if au_ParentID predecessor \<noteq> au_ParentID successor then Some (HierInvalid ''successor must share the predecessor parent authority'')
      else if au_ReplacesID successor \<noteq> None \<and> au_ReplacesID successor \<noteq> Some (au_ID predecessor)
      then Some (HierConflict ''successor already replaces a different CA'')
      else if au_MaxPathLen predecessor \<noteq> au_MaxPathLen successor then Some (HierInvalid ''successor max_path_len must match predecessor'')
      else if \<not> server_sameStringSet (au_PermittedDNSNames predecessor) (au_PermittedDNSNames successor)
      then Some (HierInvalid ''successor DNS constraints must match predecessor'')
      else if \<not> server_sameStringSet (au_EKUs predecessor) (au_EKUs successor) then Some (HierInvalid ''successor EKUs must match predecessor'')
      else None)"

definition validateAuthorityRekey :: "CAAuthority \<Rightarrow> hier_error option" where
  "validateAuthorityRekey ca =
     (if au_Status ca \<noteq> ''active'' then Some (HierConflict ''CA authority must be active to re-key'')
      else if au_SignerHandle ca = '''' then Some (HierInvalid ''CA authority must be signer-backed to re-key'')
      else if au_Kind ca \<in> {''root'', ''intermediate''} then None
      else Some (HierInvalid ''unsupported CA kind''))"

definition rekeyAuthoritySpec :: "CAAuthority \<Rightarrow> int \<Rightarrow> api_CASpec" where
  "rekeyAuthoritySpec ca ttlSeconds =
     \<lparr>as_CommonName = au_CommonName ca, as_PermittedDNSDomains = au_PermittedDNSNames ca, as_MaxPathLen = au_MaxPathLen ca,
      as_ExtendedKeyUsages = au_EKUs ca, as_TTLSeconds = ttlSeconds, as_SignatureAlgorithm = ''ecdsa-p256''\<rparr>"

definition RotateAuthority :: "hier_env \<Rightarrow> string \<Rightarrow> string \<Rightarrow> string \<Rightarrow> string \<Rightarrow> (CAAuthority \<times> CAAuthority) hier" where
  "RotateAuthority env tn caID successorID0 reason =
     (let successorID = trim_space successorID0
      in hbind (invalid_if (caID = '''' \<or> successorID = '''') ''predecessor and successor_id are required'') (\<lambda>_.
         hbind (invalid_if (caID = successorID) ''successor_id must be a different CA authority'') (\<lambda>_.
         with_tenant env
           (hbind (get_authority tn caID) (\<lambda>predecessor.
            hbind (get_authority tn successorID) (\<lambda>successor.
            hbind (hcheck (validateAuthorityRotation predecessor successor)) (\<lambda>_.
            hbind (appendEvent env tn ''ca.authority.rotated''
                     (CAAuthorityRotated (au_ID predecessor) (au_ID successor) (trim_space reason))) (\<lambda>ev.
            hbind (happly env ev) (\<lambda>_.
            hret (Inr (predecessor\<lparr>au_Status := ''superseded''\<rparr>, successor\<lparr>au_ReplacesID := Some (au_ID predecessor)\<rparr>)))))))))))"

definition issueRekeyedCA ::
  "hier_env \<Rightarrow> string \<Rightarrow> CAAuthority \<Rightarrow> DigestSigner \<Rightarrow> api_CASpec \<Rightarrow> (IssuedHierarchyCA \<times> x509_Certificate list) hier" where
  "issueRekeyedCA env tn predecessor signer spec =
     (if au_Kind predecessor = ''root''
      then hbind (hret (signed (SelfSignedHierarchyCA (hx_x509 env) signer (cryptoProfile spec)))) (\<lambda>issued.
             hret (Inr (issued, [ih_Certificate issued])))
      else if au_Kind predecessor = ''intermediate''
      then (case au_ParentID predecessor of
              None \<Rightarrow> hret (Inl (HierInvalid ''intermediate CA has no parent authority''))
            | Some pid \<Rightarrow>
                hbind (invalid_if (pid = '''') ''intermediate CA has no parent authority'') (\<lambda>_.
                hbind (get_authority tn pid) (\<lambda>parent.
                hbind (invalid_if (au_Status parent \<noteq> ''active'' \<or> au_SignerHandle parent = '''')
                         ''parent CA must be active and signer-backed for served re-key'') (\<lambda>_.
                hbind (hret (firstCertDER (au_CertificatePEM parent))) (\<lambda>parentDER.
                hbind (signerForAuthority env parent) (\<lambda>parentSigner.
                hbind (hret (signed (SignIntermediateHierarchyCA (hx_x509 env) parentDER parentSigner (ds_Public signer) (cryptoProfile spec)))) (\<lambda>issued.
                hret (Inr (issued, ih_Certificate issued # au_CertificatePEM parent)))))))))
      else hret (Inl (HierInvalid ''unsupported CA kind'')))"

definition RekeyAuthority :: "hier_env \<Rightarrow> string \<Rightarrow> string \<Rightarrow> string \<Rightarrow> int \<Rightarrow> string \<Rightarrow> (CAAuthority \<times> CAAuthority) hier" where
  "RekeyAuthority env tn caID ceremonyID0 ttlSeconds reason =
     (let ceremonyID = trim_space ceremonyID0
      in hbind (invalid_if (caID = '''' \<or> ceremonyID = '''') ''authority id and ceremony_id are required'') (\<lambda>_.
         hbind (invalid_if (ttlSeconds < 0) ''ttl_seconds cannot be negative'') (\<lambda>_.
         hbind (hret (rekeyCAPurpose caID)) (\<lambda>purpose.
         let handle = hierarchySignerHandle ceremonyID
         in hbind (with_tenant env
              (hbind (get_authority tn caID) (\<lambda>predecessor.
               hbind (hcheck (validateAuthorityRekey predecessor)) (\<lambda>_.
               hbind (hupdate (ConsumeKeyCeremonyTx tn ceremonyID purpose)) (\<lambda>_.
               hbind (createOrBindSigner env handle) (\<lambda>signer.
               let spec = rekeyAuthoritySpec predecessor ttlSeconds
               in hbind (issueRekeyedCA env tn predecessor signer spec) (\<lambda>(issued, chain).
                  let successor = (authority_row tn (au_ParentID predecessor) (as_CommonName spec) (au_Kind predecessor) chain handle issued)
                                    \<lparr>au_ID := hx_uuid env\<rparr>
                  in hbind (appendEvent env tn ''ca.authority.rekeyed'' (CAAuthorityRekeyed successor (au_ID predecessor) ceremonyID)) (\<lambda>ev.
                     hbind (happly env ev) (\<lambda>_.
                     hret (Inr (predecessor\<lparr>au_Status := ''superseded''\<rparr>,
                                successor\<lparr>au_ReplacesID := Some (au_ID predecessor), au_CreatedAt := ce_Time ev\<rparr>, signer)))))))))))
              (\<lambda>(predecessor, successor, signer).
                 hbind (hdo (rememberSigner (au_ID successor) signer)) (\<lambda>_. hret (Inr (predecessor, successor))))))))"

section \<open>What every operation keeps\<close>

text \<open>
  The invariant: the ceremony tables are well formed, and every approval that counts towards a quorum has
  its event in the log, recorded for that tenant, ceremony and custodian.
\<close>

definition approval_event :: "string \<Rightarrow> string \<Rightarrow> string \<Rightarrow> ca_event \<Rightarrow> bool" where
  "approval_event tn i custodian e =
     (ce_Type e = ''ca.ceremony.approved'' \<and> ce_TenantID e = tn \<and> (\<exists>n. ce_Data e = CACeremonyApproved i custodian n))"

definition evidence_ok :: "ca_log \<Rightarrow> ca_db \<Rightarrow> bool" where
  "evidence_ok lg db =
     (\<forall>a \<in> set (db_approvals db). ap_EventID a \<noteq> None \<longrightarrow>
        (\<exists>e \<in> set (lg_events lg). approval_event (ap_TenantID a) (ap_CeremonyID a) (ap_Custodian a) e))"

definition hier_inv :: "hier_state \<Rightarrow> bool" where
  "hier_inv st = (ceremony_inv (hs_db st) \<and> evidence_ok (hs_log st) (hs_db st))"

definition log_grows :: "hier_state \<Rightarrow> hier_state \<Rightarrow> bool" where
  "log_grows st st' = (set (lg_events (hs_log st)) \<subseteq> set (lg_events (hs_log st')))"

definition kept :: "'a hier \<Rightarrow> bool" where
  "kept m = (\<forall>st. hier_inv st \<longrightarrow> hier_inv (fst (m st)) \<and> log_grows st (fst (m st)))"

lemma evidence_ok_mono: "evidence_ok lg db \<Longrightarrow> set (lg_events lg) \<subseteq> set (lg_events lg') \<Longrightarrow> evidence_ok lg' db"
  by (auto simp: evidence_ok_def)

lemma evidence_ok_cong: "db_approvals db' = db_approvals db \<Longrightarrow> evidence_ok lg db' = evidence_ok lg db"
  by (simp add: evidence_ok_def)

lemma log_grows_refl [simp]: "log_grows st st"
  by (simp add: log_grows_def)

lemma log_grows_trans: "log_grows a b \<Longrightarrow> log_grows b c \<Longrightarrow> log_grows a c"
  by (auto simp: log_grows_def)

named_theorems kept_intros

lemma kept_hbind [kept_intros]:
  assumes "kept m" and "\<And>a. kept (f a)"
  shows "kept (hbind m f)"
  unfolding kept_def
proof (intro allI impI)
  fix st assume "hier_inv st"
  with assms(1) have m: "hier_inv (fst (m st))" "log_grows st (fst (m st))" by (auto simp: kept_def)
  show "hier_inv (fst (hbind m f st)) \<and> log_grows st (fst (hbind m f st))"
  proof (cases "snd (m st)")
    case (Inl e)
    with m show ?thesis by (simp add: hbind_def split_beta)
  next
    case (Inr a)
    with m assms(2) log_grows_trans show ?thesis by (fastforce simp: hbind_def split_beta kept_def)
  qed
qed

lemma kept_same [kept_intros]:
  "kept (hret r)" "kept (hread g)" "kept (hcheck c)" "kept (get_authority tn i)" "kept (get_ceremony tn i)" "kept (invalid_if b s)"
  "kept (hdo (rememberSigner j ds))" "kept (\<lambda>st. (st, h st))"
  by (simp_all add: kept_def hret_def hread_def hcheck_def get_authority_def get_ceremony_def invalid_if_def hdo_def rememberSigner_def
      hier_inv_def log_grows_def)

lemma kept_createOrBindSigner [kept_intros]: "kept (createOrBindSigner env h)"
  by (auto simp: kept_def createOrBindSigner_def Let_def hier_inv_def log_grows_def split: option.splits)

lemma kept_signerForAuthority [kept_intros]: "kept (signerForAuthority env ca)"
  by (auto simp: kept_def signerForAuthority_def rememberSigner_def hier_inv_def log_grows_def split: option.splits sum.splits)

lemma kept_with_tenant [kept_intros]:
  assumes "kept f"
  shows "kept (with_tenant env f)"
  unfolding kept_def
proof (intro allI impI)
  fix st assume st: "hier_inv st"
  with assms have f: "hier_inv (fst (f st))" "log_grows st (fst (f st))" by (auto simp: kept_def)
  with st have undone: "hier_inv ((fst (f st))\<lparr>hs_db := hs_db st\<rparr>)"
    by (auto simp: hier_inv_def log_grows_def intro: evidence_ok_mono)
  with f show "hier_inv (fst (with_tenant env f st)) \<and> log_grows st (fst (with_tenant env f st))"
    by (auto simp: with_tenant_def log_grows_def split: prod.splits sum.splits)
qed

lemma kept_consume [kept_intros]: "kept (hupdate (ConsumeKeyCeremonyTx tn i p))"
proof -
  have "evidence_ok lg db'" if "ConsumeKeyCeremonyTx tn i p db = Inr db'" and "evidence_ok lg db" for lg db db'
    using that by (auto elim!: consume_cases simp: complete_row_def evidence_ok_def)
  then show ?thesis
    by (auto simp: kept_def hupdate_def hier_inv_def log_grows_def dest: ceremony_inv_consume split: sum.splits)
qed

lemma insert_authority_tables:
  assumes "InsertCAAuthorityTx i t a db = Inr (db', row)"
  shows "db' = db\<lparr>db_authorities := db_authorities db'\<rparr>"
proof -
  from assms obtain r where "insert_authority r db = Inr db'" by (auto simp: InsertCAAuthorityTx_def Let_def split: sum.splits)
  then show ?thesis by (rule authority_writers_keep_ceremonies(2))
qed

lemma hier_inv_authorities: "hier_inv st \<Longrightarrow> hier_inv (st\<lparr>hs_db := (hs_db st)\<lparr>db_authorities := x\<rparr>\<rparr>)"
  by (simp add: hier_inv_def evidence_ok_def)

lemma kept_insert_row [kept_intros]: "kept (insert_row env a)"
  unfolding kept_def
proof (intro allI impI)
  fix st assume st: "hier_inv st"
  show "hier_inv (fst (insert_row env a st)) \<and> log_grows st (fst (insert_row env a st))"
  proof (cases "InsertCAAuthorityTx (hx_rowid env) (hx_rowtime env) a (hs_db st)")
    case (Inr r)
    then obtain db row where r: "InsertCAAuthorityTx (hx_rowid env) (hx_rowtime env) a (hs_db st) = Inr (db, row)" by (cases r) auto
    have "hier_inv (st\<lparr>hs_db := db\<rparr>)"
      by (subst insert_authority_tables [OF r]) (rule hier_inv_authorities [OF st])
    with r show ?thesis by (simp add: insert_row_def log_grows_def)
  qed (use st in \<open>simp add: insert_row_def\<close>)
qed

lemma appendEvent_cases:
  assumes "appendEvent env tn ty d st = (st', r)"
  obtains (failed) e where "st' = st" "r = Inl e"
  | (appended) ev where "r = Inr ev" "hs_db st' = hs_db st" "hs_keys st' = hs_keys st" "hs_signers st' = hs_signers st"
      "lg_events (hs_log st') = lg_events (hs_log st) @ [ev]" "ce_Type ev = ty" "ce_TenantID ev = tn" "ce_Data ev = d"
  using assms by (auto simp: appendEvent_def Append_event_def new_event_def Let_def split: if_splits)

lemma kept_appendEvent: "kept (appendEvent env tn ty d)"
  unfolding kept_def
proof (intro allI impI)
  fix st assume st: "hier_inv st"
  obtain st' r where run: "appendEvent env tn ty d st = (st', r)" by (meson surj_pair)
  then show "hier_inv (fst (appendEvent env tn ty d st)) \<and> log_grows st (fst (appendEvent env tn ty d st))"
  proof (cases rule: appendEvent_cases)
    case (appended ev)
    with st have "hier_inv st'" by (auto simp: hier_inv_def intro: evidence_ok_mono)
    with appended run show ?thesis by (auto simp: log_grows_def)
  qed (use st run in simp)
qed

lemma kept_emit [kept_intros]: "kept (emit env tn ty d)"
  unfolding emit_def by (intro kept_hbind kept_appendEvent kept_same)

lemma put_approval_members:
  "a \<in> set (db_approvals (put_approval r db)) \<Longrightarrow> approval_key a = approval_key r \<or> a \<in> set (db_approvals db)"
  by (auto simp: put_approval_def approval_key_def split: if_splits)

text \<open>Applying an event that is in the log keeps the evidence of every approval.\<close>

lemma evidence_ok_ApplyTx:
  assumes "evidence_ok lg db" and "ev \<in> set (lg_events lg)" and "ca_ApplyTx now ev db = Inr db'"
  shows "evidence_ok lg db'"
  using assms(3)
proof (cases rule: ca_ApplyTx_cases)
  case (issued ca serial at src)
  then show ?thesis using assms(1) evidence_ok_cong [of db' db lg] by (simp add: RecordIssuedCertTx_def)
next
  case (revoked pl)
  from arg_cong [OF issued_writers_keep_ceremonies(2) [OF revoked(3)], of db_approvals] show ?thesis
    using assms(1) evidence_ok_cong [of db' db lg] by simp
next
  case (started i purpose threshold opener)
  then show ?thesis using assms(1) evidence_ok_cong [of db' db lg] by (simp add: ApplyKeyCeremonyStartedTx_def Let_def)
next
  case authorities
  from arg_cong [OF authorities(2), of db_approvals] show ?thesis using assms(1) evidence_ok_cong [of db' db lg] by simp
next
  case (crl row)
  then show ?thesis using assms(1) evidence_ok_cong [of db' db lg] by (simp add: InsertCRLTx_def Let_def)
next
  case (responder r)
  then show ?thesis using assms(1) evidence_ok_cong [of db' db lg] by (simp add: UpsertOCSPResponderTx_def Let_def)
next
  case (approved i custodian n)
  let ?r = "\<lparr>ap_TenantID = ce_TenantID ev, ap_CeremonyID = i, ap_Custodian = custodian,
     ap_ApprovedAt = (if ce_Time ev = 0 then now else ce_Time ev), ap_EventID = Some (ce_ID ev), ap_EventSequence = Some (ce_Sequence ev)\<rparr>"
  from approved(3) consider "db' = db" | "db' = put_approval ?r db"
    by (auto simp: ApplyKeyCeremonyApprovedTx_def split: if_splits option.splits)
  then show ?thesis
  proof cases
    case 2
    have new: "\<exists>e \<in> set (lg_events lg). approval_event (ce_TenantID ev) i custodian e"
      using assms(2) approved(1,2) by (auto simp: approval_event_def)
    show ?thesis unfolding evidence_ok_def
    proof (intro ballI impI)
      fix a assume a: "a \<in> set (db_approvals db')" "ap_EventID a \<noteq> None"
      from put_approval_members [OF a(1) [unfolded 2]] a(2) consider "approval_key a = approval_key ?r"
        | "a \<in> set (db_approvals db)" "ap_EventID a \<noteq> None" by blast
      then show "\<exists>e \<in> set (lg_events lg). approval_event (ap_TenantID a) (ap_CeremonyID a) (ap_Custodian a) e"
        by cases (use new assms(1) in \<open>auto simp: approval_key_def evidence_ok_def\<close>)
    qed
  qed (use assms(1) in simp)
qed (use assms(1) in simp)

lemma kept_append_apply:
  assumes "\<And>ev. kept (k ev)"
  shows "kept (hbind (appendEvent env tn ty d) (\<lambda>ev. hbind (happly env ev) (\<lambda>_. k ev)))"
  unfolding kept_def
proof (intro allI impI)
  fix st assume st: "hier_inv st"
  let ?m = "hbind (appendEvent env tn ty d) (\<lambda>ev. hbind (happly env ev) (\<lambda>_. k ev))"
  obtain st1 r where run: "appendEvent env tn ty d st = (st1, r)" by (meson surj_pair)
  from kept_appendEvent [of env tn ty d] st run have st1: "hier_inv st1" "log_grows st st1" by (auto simp: kept_def)
  from run show "hier_inv (fst (?m st)) \<and> log_grows st (fst (?m st))"
  proof (cases rule: appendEvent_cases)
    case (failed e)
    with st run show ?thesis by (simp add: hbind_def)
  next
    case (appended ev)
    show ?thesis
    proof (cases "ca_ApplyTx (hx_apply env (ce_Sequence ev)) ev (hs_db st1)")
      case (Inl e)
      with st1 run appended(1) show ?thesis by (simp add: hbind_def happly_def apply_hier_def)
    next
      case (Inr db)
      let ?st2 = "st1\<lparr>hs_db := db\<rparr>"
      have "hier_inv ?st2" using st1(1) appended(5) ceremony_inv_ApplyTx [OF _ Inr] evidence_ok_ApplyTx [OF _ _ Inr]
        by (auto simp: hier_inv_def)
      with assms have "hier_inv (fst (k ev ?st2))" "log_grows ?st2 (fst (k ev ?st2))" by (auto simp: kept_def)
      moreover have "?m st = k ev ?st2" using run appended(1) Inr by (simp add: hbind_def happly_def apply_hier_def)
      ultimately show ?thesis using st1(2) by (auto simp: log_grows_def)
    qed
  qed
qed

lemma kept_if [kept_intros]: "kept a \<Longrightarrow> kept b \<Longrightarrow> kept (if c then a else b)"
  by simp

lemma kept_case_option [kept_intros]: "kept a \<Longrightarrow> (\<And>x. kept (b x)) \<Longrightarrow> kept (case m of None \<Rightarrow> a | Some x \<Rightarrow> b x)"
  by (cases m) simp_all

lemma kept_case_prod [kept_intros]: "(\<And>x y. kept (b x y)) \<Longrightarrow> kept (case p of (x, y) \<Rightarrow> b x y)"
  by (cases p) simp

lemma kept_conflict_map [kept_intros]: "kept m \<Longrightarrow> kept (\<lambda>st. case m st of (st1, Inl e) \<Rightarrow> (st1, Inl (f e)) | (st1, Inr a) \<Rightarrow> (st1, Inr a))"
  by (auto simp: kept_def split_beta split: sum.split)

lemma kept_requirePending [kept_intros]: "kept (requirePendingCeremonyQuorum tn i p)"
  unfolding requirePendingCeremonyQuorum_def by (rule kept_intros)+

lemma kept_issuingAuthority [kept_intros]: "kept (issuingAuthority tn i)"
  unfolding issuingAuthority_def by (rule kept_intros)+

lemma kept_issueRekeyedCA [kept_intros]: "kept (issueRekeyedCA env tn p s spec)"
  unfolding issueRekeyedCA_def by (rule kept_intros)+

lemma kept_ceremonies: "kept (StartCeremony env H tn req)" "kept (ApproveCeremony env tn i)"
  unfolding StartCeremony_def ApproveCeremony_def Let_def by (rule kept_append_apply kept_intros)+

lemma kept_creations:
  "kept (CreateRoot env H tn c spec)" "kept (ImportOfflineRoot env H tn c pem spec)" "kept (ImportExisting env H tn c pem h spec)"
  "kept (CreateIntermediate env H tn c p spec)" "kept (CreateOfflineIntermediateCSR env H tn ca c spec)"
  "kept (ImportOfflineIntermediate env H tn ca c pem spec)" "kept (IssueIntermediateCSR env H tn ca c csr spec)"
  unfolding CreateRoot_def ImportOfflineRoot_def ImportExisting_def CreateIntermediate_def CreateOfflineIntermediateCSR_def
    ImportOfflineIntermediate_def IssueIntermediateCSR_def Let_def
  by (rule kept_intros)+

lemma kept_issuance: "kept (Served_IssueLeaf env ni lp tn ca csr ttl)" "kept (RotateAuthority env tn ca s r)" "kept (RekeyAuthority env tn ca c ttl r)"
  unfolding Served_IssueLeaf_def RotateAuthority_def RekeyAuthority_def Let_def by (rule kept_append_apply kept_intros)+

section \<open>Every gated operation spends an approved ceremony\<close>

text \<open>The operations that take a ceremony, with the request that opens a ceremony for each.\<close>

datatype ca_op =
    OpRoot api_CASpec
  | OpOfflineRoot pem_text api_CASpec
  | OpExisting pem_text string api_CASpec
  | OpIntermediate string api_CASpec
  | OpOfflineIntermediate string pem_text api_CASpec
  | OpIntermediateCSR string der api_CASpec
  | OpRekey string int string

definition start_request :: "string \<Rightarrow> string \<Rightarrow> string \<Rightarrow> pem_text \<Rightarrow> pem_text \<Rightarrow> string \<Rightarrow> api_CASpec \<Rightarrow> CACeremonyStartRequest" where
  "start_request operation parent authority csr cert handle spec =
     \<lparr>sr_Operation = operation, sr_ParentID = parent, sr_AuthorityID = authority, sr_CSRPem = csr, sr_CertificatePEM = cert,
      sr_SignerHandle = handle, sr_Threshold = 1, sr_Spec = spec\<rparr>"

definition no_pem :: pem_text where
  "no_pem = \<lparr>pt_blocks = [], pt_rest = ''''\<rparr>"

definition no_spec :: api_CASpec where
  "no_spec = \<lparr>as_CommonName = '''', as_PermittedDNSDomains = [], as_MaxPathLen = 0, as_ExtendedKeyUsages = [],
              as_TTLSeconds = 0, as_SignatureAlgorithm = ''''\<rparr>"

fun op_request :: "ca_op \<Rightarrow> CACeremonyStartRequest" where
  "op_request (OpRoot spec) = start_request ''create_root'' '''' '''' no_pem no_pem '''' spec"
| "op_request (OpOfflineRoot pem spec) = start_request ''import_offline_root'' '''' '''' no_pem pem '''' spec"
| "op_request (OpExisting pem handle spec) = start_request ''import_existing_ca'' '''' '''' no_pem pem handle spec"
| "op_request (OpIntermediate parent spec) = start_request ''create_intermediate'' parent '''' no_pem no_pem '''' spec"
| "op_request (OpOfflineIntermediate parent pem spec) = start_request ''create_offline_intermediate'' parent '''' no_pem no_pem '''' spec"
| "op_request (OpIntermediateCSR parent csr spec) =
     start_request ''issue_intermediate_csr'' parent '''' \<lparr>pt_blocks = [(''CERTIFICATE REQUEST'', csr)], pt_rest = ''''\<rparr> no_pem '''' spec"
| "op_request (OpRekey ca ttl reason) = start_request ''rekey_ca'' '''' ca no_pem no_pem '''' no_spec"

fun op_ceremony :: "ca_op \<Rightarrow> string \<Rightarrow> string" where
  "op_ceremony (OpRekey ca ttl reason) i = trim_space i"
| "op_ceremony _ i = i"

definition hvoid :: "'a hier \<Rightarrow> unit hier" where
  "hvoid m = hbind m (\<lambda>_. hret (Inr ()))"

fun run_op :: "hier_env \<Rightarrow> purpose_hash \<Rightarrow> string \<Rightarrow> string \<Rightarrow> ca_op \<Rightarrow> unit hier" where
  "run_op env H tn i (OpRoot spec) = hvoid (CreateRoot env H tn i spec)"
| "run_op env H tn i (OpOfflineRoot pem spec) = hvoid (ImportOfflineRoot env H tn i pem spec)"
| "run_op env H tn i (OpExisting pem handle spec) = hvoid (ImportExisting env H tn i pem handle spec)"
| "run_op env H tn i (OpIntermediate parent spec) = hvoid (CreateIntermediate env H tn i parent spec)"
| "run_op env H tn i (OpOfflineIntermediate parent pem spec) = hvoid (ImportOfflineIntermediate env H tn parent i pem spec)"
| "run_op env H tn i (OpIntermediateCSR parent csr spec) = hvoid (IssueIntermediateCSR env H tn parent i (Some csr) spec)"
| "run_op env H tn i (OpRekey ca ttl reason) = hvoid (RekeyAuthority env tn ca i ttl reason)"

text \<open>
  \<open>consumes tn i r m\<close>: when \<open>m\<close> succeeds, \<open>r\<close> is a purpose for which the ceremony \<open>i\<close> could be consumed in
  the tables it started from, and it leaves the ceremonies as consuming it does. \<open>quiet\<close> steps leave the tables alone,
  \<open>steady\<close> ones leave the ceremonies alone.
\<close>

definition consumes :: "string \<Rightarrow> string \<Rightarrow> hier_error + string \<Rightarrow> 'a hier \<Rightarrow> bool" where
  "consumes tn i r m =
     (\<forall>st st' a. m st = (st', Inr a) \<longrightarrow>
        (\<exists>p db. r = Inr p \<and> ConsumeKeyCeremonyTx tn i p (hs_db st) = Inr db \<and> db_ceremonies (hs_db st') = db_ceremonies db))"

definition quiet :: "'a hier \<Rightarrow> bool" where
  "quiet m = (\<forall>st. hs_db (fst (m st)) = hs_db st)"

definition steady :: "'a hier \<Rightarrow> bool" where
  "steady m = (\<forall>st. db_ceremonies (hs_db (fst (m st))) = db_ceremonies (hs_db st))"

named_theorems quiet_intros
named_theorems steady_intros

lemma quiet_hbind [quiet_intros]: "quiet m \<Longrightarrow> (\<And>a. quiet (f a)) \<Longrightarrow> quiet (hbind m f)"
  by (simp add: quiet_def hbind_def split_beta split: sum.split)

lemma quiet_basic [quiet_intros]:
  "quiet (hret r)" "quiet (hread g)" "quiet (hcheck c)" "quiet (get_authority tn i)" "quiet (get_ceremony tn i)"
  "quiet (invalid_if b s)" "quiet (hdo (rememberSigner j ds))" "quiet (\<lambda>st. (st, h st))"
  by (simp_all add: quiet_def hret_def hread_def hcheck_def get_authority_def get_ceremony_def invalid_if_def hdo_def rememberSigner_def)

lemma quiet_signers [quiet_intros]: "quiet (createOrBindSigner env h)" "quiet (signerForAuthority env ca)"
  by (auto simp: quiet_def createOrBindSigner_def signerForAuthority_def rememberSigner_def Let_def split: option.splits sum.splits)

lemma quiet_appendEvent [quiet_intros]: "quiet (appendEvent env tn ty d)"
  by (auto simp: quiet_def appendEvent_def split: sum.splits prod.splits)

lemma quiet_emit [quiet_intros]: "quiet (emit env tn ty d)"
  unfolding emit_def by (intro quiet_intros)

lemma quiet_choice [quiet_intros]:
  "quiet a \<Longrightarrow> quiet b \<Longrightarrow> quiet (if c then a else b)"
  "quiet a \<Longrightarrow> (\<And>x. quiet (g x)) \<Longrightarrow> quiet (case m of None \<Rightarrow> a | Some x \<Rightarrow> g x)"
  "(\<And>x y. quiet (k x y)) \<Longrightarrow> quiet (case p of (x, y) \<Rightarrow> k x y)"
  by (simp, cases m, simp_all, cases p, simp)

lemma quiet_issueRekeyedCA [quiet_intros]: "quiet (issueRekeyedCA env tn p s spec)"
  unfolding issueRekeyedCA_def by (rule quiet_intros)+

lemma steady_quiet [steady_intros]: "quiet m \<Longrightarrow> steady m"
  by (simp add: quiet_def steady_def)

lemma steady_hbind [steady_intros]: "steady m \<Longrightarrow> (\<And>a. steady (f a)) \<Longrightarrow> steady (hbind m f)"
  by (simp add: steady_def hbind_def split_beta split: sum.split)

lemma steady_case_prod [steady_intros]: "(\<And>x y. steady (k x y)) \<Longrightarrow> steady (case p of (x, y) \<Rightarrow> k x y)"
  by (cases p) simp

lemma steady_insert_row [steady_intros]: "steady (insert_row env a)"
  unfolding steady_def
proof
  fix st
  show "db_ceremonies (hs_db (fst (insert_row env a st))) = db_ceremonies (hs_db st)"
    using arg_cong [OF insert_authority_tables, of _ _ _ _ _ _ db_ceremonies]
    by (auto simp: insert_row_def split: sum.splits prod.splits)
qed

lemma ApplyTx_rekeyed_ceremonies:
  assumes "ca_ApplyTx now e db = Inr db'" and "ce_Type e = ''ca.authority.rekeyed''"
  shows "db_ceremonies db' = db_ceremonies db"
  using assms(1)
proof (cases rule: ca_ApplyTx_cases)
  case authorities
  from arg_cong [OF authorities(2), of db_ceremonies] show ?thesis by simp
qed (use assms(2) in \<open>simp_all add: RecordIssuedCertTx_def\<close>)

lemma steady_rekeyed [steady_intros]:
  assumes "\<And>ev. quiet (k ev)"
  shows "steady (hbind (appendEvent env tn ''ca.authority.rekeyed'' d) (\<lambda>ev. hbind (happly env ev) (\<lambda>_. k ev)))"
  unfolding steady_def
proof
  fix st
  let ?m = "hbind (appendEvent env tn ''ca.authority.rekeyed'' d) (\<lambda>ev. hbind (happly env ev) (\<lambda>_. k ev))"
  obtain st1 r where run: "appendEvent env tn ''ca.authority.rekeyed'' d st = (st1, r)" by (meson surj_pair)
  then show "db_ceremonies (hs_db (fst (?m st))) = db_ceremonies (hs_db st)"
  proof (cases rule: appendEvent_cases)
    case (appended ev)
    with run assms ApplyTx_rekeyed_ceremonies [OF _ appended(6)] show ?thesis
      by (auto simp: hbind_def happly_def apply_hier_def quiet_def split: sum.split)
  qed (use run in \<open>simp add: hbind_def\<close>)
qed

named_theorems consumes_intros

lemma hbind_InrE:
  assumes "hbind m f st = (st', Inr b)"
  obtains st1 a where "m st = (st1, Inr a)" "f a st1 = (st', Inr b)"
  using assms by (auto simp: hbind_def split: prod.splits sum.splits)

lemma with_tenant_InrE:
  assumes "with_tenant env m st = (st', Inr b)"
  obtains "m st = (st', Inr b)"
  using assms by (auto simp: with_tenant_def split: prod.splits sum.splits if_splits)

lemma steadyD: "steady m \<Longrightarrow> m st = (st', r) \<Longrightarrow> db_ceremonies (hs_db st') = db_ceremonies (hs_db st)"
  by (metis steady_def fst_conv)

lemma quietD: "quiet m \<Longrightarrow> m st = (st', r) \<Longrightarrow> hs_db st' = hs_db st"
  by (metis quiet_def fst_conv)

lemma consumes_then: "consumes tn i r m \<Longrightarrow> (\<And>a. steady (f a)) \<Longrightarrow> consumes tn i r (hbind m f)"
  unfolding consumes_def by (intro allI impI, erule hbind_InrE) (metis steadyD)

lemma consumes_skip: "quiet m \<Longrightarrow> (\<And>a. consumes tn i r (f a)) \<Longrightarrow> consumes tn i r (hbind m f)"
  unfolding consumes_def by (intro allI impI, erule hbind_InrE) (metis quietD)

lemma consumes_hupdate [consumes_intros]:
  "r = Inr p \<Longrightarrow> (\<And>a. steady (f a)) \<Longrightarrow> consumes tn i r (hbind (hupdate (ConsumeKeyCeremonyTx tn i p)) f)"
  by (rule consumes_then) (auto simp: consumes_def hupdate_def split: sum.splits)

lemma consumes_with_tenant [consumes_intros]:
  "consumes tn i r m \<Longrightarrow> (\<And>a. steady (f a)) \<Longrightarrow> consumes tn i r (hbind (with_tenant env m) f)"
  by (rule consumes_then) (auto simp: consumes_def elim!: with_tenant_InrE)

lemma consumes_known [consumes_intros]: "(\<And>a. q = Inr a \<Longrightarrow> consumes tn i r (f a)) \<Longrightarrow> consumes tn i r (hbind (hret q) f)"
  unfolding consumes_def hbind_def hret_def by (cases q) auto

lemma consumes_check [consumes_intros]: "(\<not> b \<Longrightarrow> consumes tn i r (f ())) \<Longrightarrow> consumes tn i r (hbind (invalid_if b s) f)"
  unfolding invalid_if_def by (rule consumes_known) (auto split: if_splits)

lemmas consumes_reads [consumes_intros] =
  consumes_skip [OF quiet_basic(3)] consumes_skip [OF quiet_basic(4)] consumes_skip [OF quiet_basic(8)]
  consumes_skip [OF quiet_signers(2)]

lemma consumes_case_prod [consumes_intros]:
  "(\<And>x y. consumes tn i r (k x y)) \<Longrightarrow> consumes tn i r (case p of (x, y) \<Rightarrow> k x y)"
  by (cases p) simp

lemma consumes_hvoid: "consumes tn i r m \<Longrightarrow> consumes tn i r (hvoid m)"
  unfolding hvoid_def by (intro consumes_then steady_quiet quiet_intros)

lemmas purpose_eval = hierarchyPurposeFromStartRequest_def start_request_def csrDERFromPEM_def

lemma run_op_consumes: "consumes tn (op_ceremony opn i) (hierarchyPurposeFromStartRequest H (op_request opn)) (run_op env H tn i opn)"
proof (cases opn)
  case (OpRoot spec)
  show ?thesis unfolding OpRoot run_op.simps op_ceremony.simps CreateRoot_def Let_def
    by (intro consumes_hvoid consumes_intros steady_intros quiet_intros) (simp add: purpose_eval)
next
  case (OpOfflineRoot pem spec)
  show ?thesis unfolding OpOfflineRoot run_op.simps op_ceremony.simps ImportOfflineRoot_def Let_def
    by (intro consumes_hvoid consumes_intros steady_intros quiet_intros) (simp add: purpose_eval)
next
  case (OpExisting pem handle spec)
  show ?thesis unfolding OpExisting run_op.simps op_ceremony.simps ImportExisting_def Let_def
    by (intro consumes_hvoid consumes_intros steady_intros quiet_intros) (simp add: purpose_eval)
next
  case (OpIntermediate parent spec)
  show ?thesis unfolding OpIntermediate run_op.simps op_ceremony.simps CreateIntermediate_def Let_def
    by (intro consumes_hvoid consumes_intros steady_intros quiet_intros) (simp add: purpose_eval)
next
  case (OpOfflineIntermediate parent pem spec)
  show ?thesis unfolding OpOfflineIntermediate run_op.simps op_ceremony.simps ImportOfflineIntermediate_def Let_def
    by (intro consumes_hvoid consumes_intros steady_intros quiet_intros) (simp add: purpose_eval)
next
  case (OpIntermediateCSR parent csr spec)
  show ?thesis unfolding OpIntermediateCSR run_op.simps op_ceremony.simps IssueIntermediateCSR_def Let_def
    by (intro consumes_hvoid consumes_intros steady_intros quiet_intros) (simp add: purpose_eval)
next
  case (OpRekey ca ttl reason)
  show ?thesis unfolding OpRekey run_op.simps op_ceremony.simps RekeyAuthority_def Let_def
    by (intro consumes_hvoid consumes_intros steady_intros quiet_intros) (simp add: purpose_eval)
qed

text \<open>Catch-up and rebuild apply events of the log only.\<close>

lemma hier_inv_apply:
  assumes "ceremony_inv db \<and> evidence_ok lg db" and "e \<in> set (lg_events lg)" and "ca_ApplyTx now e db = Inr db'"
  shows "ceremony_inv db' \<and> evidence_ok lg db'"
  using assms ceremony_inv_ApplyTx evidence_ok_ApplyTx by blast

lemma evidence_ok_checkpoint [simp]: "evidence_ok lg (db\<lparr>db_checkpoint := n\<rparr>) = evidence_ok lg db"
  by (simp add: evidence_ok_def)

lemma ceremony_inv_checkpoint [simp]: "ceremony_inv (db\<lparr>db_checkpoint := n\<rparr>) = ceremony_inv db"
  by (simp add: ceremony_inv_def)

lemma catch_up_loop_inv:
  "ceremony_inv db \<and> evidence_ok lg db \<Longrightarrow> set es \<subseteq> set (lg_events lg) \<Longrightarrow>
     ceremony_inv (fst (catch_up_loop clock es n db)) \<and> evidence_ok lg (fst (catch_up_loop clock es n db))"
proof (induction es arbitrary: n db)
  case (Cons e es)
  show ?case
  proof (cases "ca_ApplyTx (clock (ce_Sequence e)) e db")
    case (Inr db1)
    have "ceremony_inv db1 \<and> evidence_ok lg db1" by (rule hier_inv_apply [OF Cons.prems(1) _ Inr]) (use Cons.prems(2) in simp)
    with Cons.IH Cons.prems(2) Inr show ?thesis by (auto simp: Let_def AdvanceProjectionCheckpoint_def split: if_splits)
  qed (use Cons.prems in simp)
qed simp

lemma replay_loop_inv:
  "ceremony_inv db \<and> evidence_ok lg db \<Longrightarrow> set es \<subseteq> set (lg_events lg) \<Longrightarrow> replay_loop clock es db = Inr db'
     \<Longrightarrow> ceremony_inv db' \<and> evidence_ok lg db'"
proof (induction es arbitrary: db)
  case (Cons e es)
  from Cons.prems(3) obtain db1 where "ca_ApplyTx (clock (ce_Sequence e)) e db = Inr db1" "replay_loop clock es db1 = Inr db'"
    by (auto split: sum.splits)
  moreover from this(1) Cons.prems(2) have "ceremony_inv db1 \<and> evidence_ok lg db1"
    using hier_inv_apply [OF Cons.prems(1), of e] by simp
  ultimately show ?case using Cons.IH Cons.prems(2) by simp
qed simp

lemma hier_inv_catch_up: "hier_inv st \<Longrightarrow> hier_inv (st\<lparr>hs_db := fst (ProjectCatchUp clock (hs_log st) (hs_db st))\<rparr>)"
  using catch_up_loop_inv [of "hs_db st" "hs_log st" "Replay (hs_log st) (db_checkpoint (hs_db st) + 1)" clock 0]
  by (auto simp: hier_inv_def ProjectCatchUp_def Let_def Replay_def AdvanceProjectionCheckpoint_def split: prod.splits option.splits)

lemma truncated_inv: "ceremony_inv ((truncate_read_model db)\<lparr>db_checkpoint := 0\<rparr>) \<and> evidence_ok lg ((truncate_read_model db)\<lparr>db_checkpoint := 0\<rparr>)"
  by (simp add: truncate_read_model_def ceremony_inv_def evidence_ok_def)

lemma hier_inv_rebuild: "Rebuild clock (hs_log st) (hs_db st) = Inr db \<Longrightarrow> hier_inv (st\<lparr>hs_db := db\<rparr>)"
  using replay_loop_inv [OF truncated_inv, of "lg_events (hs_log st)" "hs_log st"]
  by (auto simp: hier_inv_def Rebuild_def Let_def split: sum.splits)

text \<open>
  The states of a deployment: it starts empty and serves requests of any tenant in any environment, events
  of other parts are appended to the log, and the tables catch up with the log or are rebuilt from it.
\<close>

definition hier_init :: hier_state where
  "hier_init = \<lparr>hs_db = empty_ca_db, hs_log = \<lparr>lg_events = [], lg_last = 0\<rparr>, hs_keys = [], hs_signers = []\<rparr>"

inductive hier_reach :: "purpose_hash \<Rightarrow> hier_state \<Rightarrow> bool" for H where
  init: "hier_reach H hier_init"
| start: "hier_reach H st \<Longrightarrow> hier_reach H (fst (StartCeremony env H tn req st))"
| approve: "hier_reach H st \<Longrightarrow> hier_reach H (fst (ApproveCeremony env tn i st))"
| operation: "hier_reach H st \<Longrightarrow> hier_reach H (fst (run_op env H tn i opn st))"
| offline_csr: "hier_reach H st \<Longrightarrow> hier_reach H (fst (CreateOfflineIntermediateCSR env H tn ca i spec st))"
| leaf: "hier_reach H st \<Longrightarrow> hier_reach H (fst (Served_IssueLeaf env (ni :: (string, string) netip) lp tn ca csr ttl st))"
| rotate: "hier_reach H st \<Longrightarrow> hier_reach H (fst (RotateAuthority env tn ca s reason st))"
| other_event: "hier_reach H st \<Longrightarrow> hier_reach H (fst (appendEvent env tn ty d st))"
| catch_up: "hier_reach H st \<Longrightarrow> hier_reach H (st\<lparr>hs_db := fst (ProjectCatchUp clock (hs_log st) (hs_db st))\<rparr>)"
| rebuild: "hier_reach H st \<Longrightarrow> Rebuild clock (hs_log st) (hs_db st) = Inr db \<Longrightarrow> hier_reach H (st\<lparr>hs_db := db\<rparr>)"

lemma kept_run_op: "kept (run_op env H tn i opn)"
  by (cases opn) (simp_all add: hvoid_def kept_hbind kept_same kept_creations kept_issuance)

lemma keptD: "kept m \<Longrightarrow> hier_inv st \<Longrightarrow> hier_inv (fst (m st))"
  by (simp add: kept_def)

lemma hier_inv_init: "hier_inv hier_init"
  by (simp add: hier_inv_def hier_init_def evidence_ok_def empty_ca_db_def ceremony_inv_def)

lemma hier_reach_inv: "hier_reach H st \<Longrightarrow> hier_inv st"
  by (induction rule: hier_reach.induct)
    (intro hier_inv_init keptD [OF kept_ceremonies(1)] keptD [OF kept_ceremonies(2)] keptD [OF kept_run_op] keptD [OF kept_creations(5)]
      keptD [OF kept_issuance(1)] keptD [OF kept_issuance(2)] keptD [OF kept_appendEvent] hier_inv_catch_up hier_inv_rebuild; assumption)+

text \<open>C9: in every reachable state of the served CA hierarchy, over all tenants, requests, failed transactions,
  catch-ups and rebuilds, the ceremony tables are well formed (unique ceremonies and approvals, positive
  thresholds, no approval without a name or by the opener), and each approval that counts has its event in
  the log.\<close>

theorem reachable_hierarchy_well_formed: "hier_reach H st \<Longrightarrow> ceremony_inv (hs_db st) \<and> evidence_ok (hs_log st) (hs_db st)"
proof -
  assume "hier_reach H st"
  then have "hier_inv st" by (rule hier_reach_inv)
  then show ?thesis by (simp add: hier_inv_def)
qed

lemma custodians_evidence:
  assumes "evidence_ok lg db" and "u \<in> set (custodians db tn i)"
  shows "\<exists>e \<in> set (lg_events lg). approval_event tn i u e"
  using assms by (auto simp: evidence_ok_def custodians_def evidenced_def)

text \<open>C4: an operation that creates, imports or re-keys an authority, or signs an intermediate for an external
  request, succeeds only if a pending ceremony of the same tenant was opened for exactly the request it
  carries out, and at least as many distinct custodians as its threshold, none of them the principal who
  opened it, have each approved it in an event of the log; and the ceremony is completed when it returns.\<close>

theorem ca_operation_needs_quorum:
  assumes "hier_reach H st" and "run_op env H tn i opn st = (st', Inr ())"
  shows "\<exists>c us. ceremony_row (hs_db st) tn (op_ceremony opn i) = Some c \<and> kc_Status c = ''pending''
            \<and> hierarchyPurposeFromStartRequest H (op_request opn) = Inr (kc_Purpose c)
            \<and> 1 \<le> kc_Threshold c \<and> kc_Threshold c \<le> int (length us) \<and> distinct us \<and> '''' \<notin> set us \<and> kc_Opener c \<notin> set us
            \<and> (\<forall>u \<in> set us. \<exists>e \<in> set (lg_events (hs_log st)). approval_event tn (op_ceremony opn i) u e)
            \<and> ceremony_row (hs_db st') tn (op_ceremony opn i) = Some (c\<lparr>kc_Status := ''completed''\<rparr>)"
proof -
  let ?i = "op_ceremony opn i"
  from hier_reach_inv [OF assms(1)] have inv: "ceremony_inv (hs_db st)" "evidence_ok (hs_log st) (hs_db st)" by (simp_all add: hier_inv_def)
  from run_op_consumes [of tn opn i H env] assms(2) obtain p db
    where p: "hierarchyPurposeFromStartRequest H (op_request opn) = Inr p" and use: "ConsumeKeyCeremonyTx tn ?i p (hs_db st) = Inr db"
      and after: "db_ceremonies (hs_db st') = db_ceremonies db" unfolding consumes_def by blast
  from use obtain c where c: "ceremony_row (hs_db st) tn ?i = Some c" "kc_Status c = ''pending''" "kc_Purpose c = p"
    "approval_count (hs_db st) tn ?i \<ge> kc_Threshold c" "db = complete_row tn ?i (hs_db st)" by (rule consume_cases)
  have "ceremony_row (hs_db st') tn ?i = Some (c\<lparr>kc_Status := ''completed''\<rparr>)"
    using complete_row_ceremony [of tn ?i "hs_db st"] c(1,2,5) after by (simp add: ceremony_row_def)
  moreover have "1 \<le> kc_Threshold c" using inv(1) ceremony_row_Some [OF c(1)] by (simp add: ceremony_inv_def)
  ultimately show ?thesis
    using p c custodians_distinct [OF inv(1), of tn ?i] custodian_not_opener [OF inv(1) c(1)] custodians_evidence [OF inv(2), of _ tn ?i]
    by (intro exI [of _ c] exI [of _ "custodians (hs_db st) tn ?i"]) (auto simp: custodians_count)
qed

section \<open>A deployment with one root\<close>

definition demo_hash :: purpose_hash where
  "demo_hash = \<lparr>ph_spec = (\<lambda>(cn, ds, n, us, ttl). cn), ph_raw = (\<lambda>d. ''d''), ph_sha = (\<lambda>b. b), ph_pem = (\<lambda>ds. ''pem'')\<rparr>"

definition demo_env :: "string \<Rightarrow> public_key \<Rightarrow> string \<Rightarrow> hier_env" where
  "demo_env new key actor =
     \<lparr>hx_x509 = demo_x509 key 1,
      hx_append = (\<lambda>n. \<lparr>pe_id = replicate n CHR ''e'', pe_now = int n, pe_actor = Some actor, pe_ack = True\<rparr>),
      hx_apply = int, hx_uuid = new, hx_rowid = ''row-'' @ new, hx_rowtime = 9, hx_actor = Some actor,
      hx_newkey = Some key, hx_client = True, hx_commits = True\<rparr>"

definition demo_spec :: "string \<Rightarrow> int \<Rightarrow> api_CASpec" where
  "demo_spec cn n = \<lparr>as_CommonName = cn, as_PermittedDNSDomains = [''corp.example''], as_MaxPathLen = n,
     as_ExtendedKeyUsages = [], as_TTLSeconds = 86400, as_SignatureAlgorithm = ''ecdsa-p256''\<rparr>"

text \<open>Opening a ceremony for an operation with two approvals, by \<^verbatim>\<open>olga\<close>, approved by \<^verbatim>\<open>ann\<close> and \<^verbatim>\<open>bob\<close>.\<close>

definition demo_ceremony :: "string \<Rightarrow> ca_op \<Rightarrow> hier_state \<Rightarrow> hier_state" where
  "demo_ceremony i opn st =
     fst (ApproveCeremony (demo_env i '''' ''bob'') ''t1'' i
       (fst (ApproveCeremony (demo_env i '''' ''ann'') ''t1'' i
         (fst (StartCeremony (demo_env i '''' ''olga'') demo_hash ''t1'' ((op_request opn)\<lparr>sr_Threshold := 2\<rparr>) st)))))"

definition demo_root_run :: "hier_state \<times> (hier_error + unit)" where
  "demo_root_run = run_op (demo_env ''c1'' ''k1'' ''olga'') demo_hash ''t1'' ''c1'' (OpRoot (demo_spec ''R'' 1))
     (demo_ceremony ''c1'' (OpRoot (demo_spec ''R'' 1)) hier_init)"

lemma demo_ceremony_reach: "hier_reach demo_hash st \<Longrightarrow> hier_reach demo_hash (demo_ceremony i opn st)"
  unfolding demo_ceremony_def by (intro hier_reach.approve hier_reach.start)

lemma demo_root_run_ok: "demo_root_run = (fst demo_root_run, Inr ())"
proof -
  have "snd demo_root_run = Inr ()" by code_simp
  then show ?thesis by (simp add: prod_eq_iff)
qed

theorem ca_operation_needs_quorum_witness:
  "\<exists>c us. ceremony_row (hs_db (demo_ceremony ''c1'' (OpRoot (demo_spec ''R'' 1)) hier_init)) ''t1'' ''c1'' = Some c
     \<and> kc_Threshold c \<le> int (length us) \<and> kc_Opener c \<notin> set us
     \<and> ceremony_row (hs_db (fst demo_root_run)) ''t1'' ''c1'' = Some (c\<lparr>kc_Status := ''completed''\<rparr>)"
  using ca_operation_needs_quorum [OF demo_ceremony_reach [OF hier_reach.init] demo_root_run_ok [unfolded demo_root_run_def]]
  unfolding demo_root_run_def [symmetric] by auto

theorem reachable_hierarchy_well_formed_witness:
  "ceremony_inv (hs_db (fst demo_root_run)) \<and> length (db_approvals (hs_db (fst demo_root_run))) = 2"
proof -
  have "hier_reach demo_hash (fst demo_root_run)"
    unfolding demo_root_run_def by (intro hier_reach.operation demo_ceremony_reach hier_reach.init)
  moreover have "length (db_approvals (hs_db (fst demo_root_run))) = 2" by code_simp
  ultimately show ?thesis using reachable_hierarchy_well_formed by blast
qed

section \<open>Purposes\<close>

text \<open>What a ceremony is opened for, apart from the text that encodes it.\<close>

datatype purpose_key =
    KRoot "string \<times> string list \<times> int \<times> string list \<times> duration"
  | KOfflineRoot bytes "string \<times> string list \<times> int \<times> string list \<times> duration"
  | KExisting string bytes "string \<times> string list \<times> int \<times> string list \<times> duration"
  | KIntermediate string "string \<times> string list \<times> int \<times> string list \<times> duration"
  | KOfflineIntermediate string "string \<times> string list \<times> int \<times> string list \<times> duration"
  | KIntermediateCSR string bytes "string \<times> string list \<times> int \<times> string list \<times> duration"
  | KRekey string

fun purpose_key_text :: "purpose_hash \<Rightarrow> purpose_key \<Rightarrow> string" where
  "purpose_key_text H (KRoot s) = ''root:'' @ ph_spec H s"
| "purpose_key_text H (KOfflineRoot d s) = ''offline-root:'' @ ph_sha H d @ '':root:'' @ ph_spec H s"
| "purpose_key_text H (KExisting h ds s) = ''import-existing-ca:'' @ h @ '':'' @ ph_sha H ds @ '':root:'' @ ph_spec H s"
| "purpose_key_text H (KIntermediate p s) = ''intermediate:'' @ p @ '':'' @ ph_spec H s"
| "purpose_key_text H (KOfflineIntermediate p s) = ''offline-intermediate:'' @ p @ '':'' @ ph_spec H s"
| "purpose_key_text H (KIntermediateCSR p d s) =
     ''intermediate-csr:'' @ p @ '':'' @ ph_sha H d @ '':intermediate:'' @ p @ '':'' @ ph_spec H s"
| "purpose_key_text H (KRekey ca) = ''rotation:'' @ ca"

fun key_specs :: "purpose_key \<Rightarrow> (string \<times> string list \<times> int \<times> string list \<times> duration) set" where
  "key_specs (KRoot s) = {s}"
| "key_specs (KOfflineRoot d s) = {s}"
| "key_specs (KExisting h ds s) = {s}"
| "key_specs (KIntermediate p s) = {s}"
| "key_specs (KOfflineIntermediate p s) = {s}"
| "key_specs (KIntermediateCSR p d s) = {s}"
| "key_specs (KRekey ca) = {}"

fun key_ders :: "purpose_key \<Rightarrow> bytes set" where
  "key_ders (KOfflineRoot d s) = {d}"
| "key_ders (KExisting h ds s) = {ds}"
| "key_ders (KIntermediateCSR p d s) = {d}"
| "key_ders _ = {}"

text \<open>SHA-256 in hexadecimal has 64 digits and has not collided on the values of two requests.\<close>

definition digests_sound :: "purpose_hash \<Rightarrow> purpose_key \<Rightarrow> purpose_key \<Rightarrow> bool" where
  "digests_sound H k l =
     ((\<forall>s \<in> key_specs k \<union> key_specs l. length (ph_spec H s) = 64) \<and> inj_on (ph_spec H) (key_specs k \<union> key_specs l)
      \<and> (\<forall>d \<in> key_ders k \<union> key_ders l. length (ph_sha H d) = 64) \<and> inj_on (ph_sha H) (key_ders k \<union> key_ders l))"

lemma append_eq_suffix:
  assumes "x @ a = y @ b" and "length (a :: 'a list) = length b"
  shows "x = y" and "a = b"
  using assms by simp_all

lemma same_prefix_length:
  assumes "p @ a @ p @ b = q @ c @ q @ d" and "length a = length c" and "length b = length d"
  shows "p = q"
proof -
  have "length p = length q" using arg_cong [OF assms(1), of length] assms(2,3) by simp
  with assms(1) show ?thesis by simp
qed

fun key_kind :: "purpose_key \<Rightarrow> nat" where
  "key_kind (KRoot s) = 0"
| "key_kind (KOfflineRoot d s) = 1"
| "key_kind (KExisting h ds s) = 2"
| "key_kind (KIntermediate p s) = 3"
| "key_kind (KOfflineIntermediate p s) = 4"
| "key_kind (KIntermediateCSR p d s) = 5"
| "key_kind (KRekey ca) = 6"

lemma purpose_key_kind: "purpose_key_text H k = purpose_key_text H l \<Longrightarrow> key_kind k = key_kind l"
  by (cases k; cases l; simp)

lemma digests_soundD:
  assumes "digests_sound H k l"
  shows "s \<in> key_specs k \<Longrightarrow> t \<in> key_specs l \<Longrightarrow> length (ph_spec H s) = length (ph_spec H t)"
    and "s \<in> key_specs k \<Longrightarrow> t \<in> key_specs l \<Longrightarrow> ph_spec H s = ph_spec H t \<Longrightarrow> s = t"
    and "d \<in> key_ders k \<Longrightarrow> e \<in> key_ders l \<Longrightarrow> length (ph_sha H d) = length (ph_sha H e)"
    and "d \<in> key_ders k \<Longrightarrow> e \<in> key_ders l \<Longrightarrow> ph_sha H d = ph_sha H e \<Longrightarrow> d = e"
  using assms unfolding digests_sound_def by (simp_all add: inj_on_def)

lemma purpose_key_text_inj:
  assumes sound: "digests_sound H k l" and eq: "purpose_key_text H k = purpose_key_text H l"
  shows "k = l"
proof (cases k)
  case k: (KRoot s)
  with purpose_key_kind [OF eq] obtain t where l: "l = KRoot t" by (cases l) simp_all
  show ?thesis using eq digests_soundD(2) [OF sound, of s t] by (simp add: k l)
next
  case k: (KOfflineRoot d s)
  with purpose_key_kind [OF eq] obtain e t where l: "l = KOfflineRoot e t" by (cases l) simp_all
  show ?thesis using eq digests_soundD(2) [OF sound, of s t] digests_soundD(3,4) [OF sound, of d e] by (simp add: k l)
next
  case k: (KExisting h d s)
  with purpose_key_kind [OF eq] obtain g e t where l: "l = KExisting g e t" by (cases l) simp_all
  have st: "length (ph_spec H s) = length (ph_spec H t)" "length (ph_sha H d) = length (ph_sha H e)"
    using digests_soundD(1) [OF sound, of s t] digests_soundD(3) [OF sound, of d e] by (simp_all add: k l)
  have "(h @ '':'' @ ph_sha H d) @ '':root:'' @ ph_spec H s = (g @ '':'' @ ph_sha H e) @ '':root:'' @ ph_spec H t"
    using eq by (simp add: k l)
  from append_eq_suffix [OF this] st(1) have "h @ '':'' @ ph_sha H d = g @ '':'' @ ph_sha H e" "ph_spec H s = ph_spec H t" by simp_all
  with append_eq_suffix [OF this(1)] st(2) show ?thesis
    using digests_soundD(2) [OF sound, of s t] digests_soundD(4) [OF sound, of d e] by (simp add: k l)
next
  case k: (KIntermediate p s)
  with purpose_key_kind [OF eq] obtain q t where l: "l = KIntermediate q t" by (cases l) simp_all
  have "p @ '':'' @ ph_spec H s = q @ '':'' @ ph_spec H t" using eq by (simp add: k l)
  from append_eq_suffix [OF this] show ?thesis using digests_soundD(1,2) [OF sound, of s t] by (simp add: k l)
next
  case k: (KOfflineIntermediate p s)
  with purpose_key_kind [OF eq] obtain q t where l: "l = KOfflineIntermediate q t" by (cases l) simp_all
  have "p @ '':'' @ ph_spec H s = q @ '':'' @ ph_spec H t" using eq by (simp add: k l)
  from append_eq_suffix [OF this] show ?thesis using digests_soundD(1,2) [OF sound, of s t] by (simp add: k l)
next
  case k: (KIntermediateCSR p d s)
  with purpose_key_kind [OF eq] obtain q e t where l: "l = KIntermediateCSR q e t" by (cases l) simp_all
  let ?a = "\<lambda>d. '':'' @ ph_sha H d @ '':intermediate:''" and ?b = "\<lambda>s. '':'' @ ph_spec H s"
  have all: "p @ ?a d @ p @ ?b s = q @ ?a e @ q @ ?b t" using eq by (simp add: k l)
  have st: "length (ph_spec H s) = length (ph_spec H t)" "length (ph_sha H d) = length (ph_sha H e)"
    using digests_soundD(1) [OF sound, of s t] digests_soundD(3) [OF sound, of d e] by (simp_all add: k l)
  have "p = q" by (rule same_prefix_length [OF all]) (simp_all add: st)
  with all st have "ph_sha H d = ph_sha H e" "ph_spec H s = ph_spec H t" by simp_all
  with \<open>p = q\<close> show ?thesis using digests_soundD(2) [OF sound, of s t] digests_soundD(4) [OF sound, of d e] by (simp add: k l)
next
  case k: (KRekey ca)
  with purpose_key_kind [OF eq] obtain cb where l: "l = KRekey cb" by (cases l) simp_all
  show ?thesis using eq by (simp add: k l)
qed

text \<open>What a request asks for, apart from its threshold and the fields its operation does not use.\<close>

definition request_key :: "purpose_hash \<Rightarrow> CACeremonyStartRequest \<Rightarrow> purpose_key" where
  "request_key H req =
     (let spec = canonical_spec (sr_Spec req)
      in if sr_Operation req = ''import_offline_root'' then KOfflineRoot (ph_raw H (projr (singleCertificatePEM (sr_CertificatePEM req)))) spec
         else if sr_Operation req = ''import_existing_ca''
         then KExisting (sr_SignerHandle req) (flattenDERChain H (projr (certificateChainPEM (sr_CertificatePEM req)))) spec
         else if sr_Operation req = ''create_offline_intermediate'' then KOfflineIntermediate (sr_ParentID req) spec
         else if sr_Operation req = ''issue_intermediate_csr''
         then KIntermediateCSR (sr_ParentID req) (ph_raw H (projr (csrDERFromPEM (sr_CSRPem req)))) spec
         else if sr_Operation req = ''rekey_ca'' then KRekey (trim_space (sr_AuthorityID req))
         else if sr_Operation req = ''create_root'' then KRoot spec
         else KIntermediate (sr_ParentID req) spec)"

lemma hierarchyPurpose_Inr:
  "hierarchyPurpose H ''create_root'' parent spec = Inr p \<Longrightarrow> p = ''root:'' @ ph_spec H (canonical_spec spec)"
  "hierarchyPurpose H ''create_intermediate'' parent spec = Inr p \<Longrightarrow> p = ''intermediate:'' @ parent @ '':'' @ ph_spec H (canonical_spec spec)"
  by (auto simp: hierarchyPurpose_def PurposeRoot_def PurposeIntermediate_def split: option.splits if_splits)

lemma purposes_Inr:
  "offlineRootPurpose H d spec = Inr p \<Longrightarrow> p = purpose_key_text H (KOfflineRoot (ph_raw H d) (canonical_spec spec))"
  "existingCAPurpose H ds h spec = Inr p \<Longrightarrow> p = purpose_key_text H (KExisting h (flattenDERChain H ds) (canonical_spec spec))"
  "offlineIntermediatePurpose H parent spec = Inr p \<Longrightarrow> p = purpose_key_text H (KOfflineIntermediate parent (canonical_spec spec))"
  "externalIntermediateCSRPurpose H parent (Some d) spec = Inr p \<Longrightarrow> p = purpose_key_text H (KIntermediateCSR parent (ph_raw H d) (canonical_spec spec))"
  "rekeyCAPurpose ca = Inr p \<Longrightarrow> p = purpose_key_text H (KRekey (trim_space ca))"
  by (auto simp: offlineRootPurpose_def existingCAPurpose_def offlineIntermediatePurpose_def externalIntermediateCSRPurpose_def
      rekeyCAPurpose_def PurposeRotate_def Let_def dest!: hierarchyPurpose_Inr split: sum.splits if_splits)

lemma request_purpose: "hierarchyPurposeFromStartRequest H req = Inr p \<Longrightarrow> p = purpose_key_text H (request_key H req)"
proof -
  assume p: "hierarchyPurposeFromStartRequest H req = Inr p"
  consider "sr_Operation req \<in> {''import_offline_root'', ''import_existing_ca'', ''create_offline_intermediate'',
      ''issue_intermediate_csr'', ''rekey_ca''}"
    | "sr_Operation req = ''create_root''" | "sr_Operation req = ''create_intermediate''"
    using p by (auto simp: hierarchyPurposeFromStartRequest_def hierarchyPurpose_def split: option.splits if_splits)
  then show ?thesis
  proof cases
    case 1
    then show ?thesis using p
      by (auto simp: hierarchyPurposeFromStartRequest_def request_key_def split: sum.splits dest!: purposes_Inr(1,2,3,4) purposes_Inr(5) [of _ _ H])
  qed (use p in \<open>auto simp: hierarchyPurposeFromStartRequest_def request_key_def dest!: hierarchyPurpose_Inr\<close>)
qed

text \<open>
  The same specification: every field that the certificate takes from it, the lists up to order. The only
  other field, the signature algorithm, has one permitted value.
\<close>

definition same_spec :: "api_CASpec \<Rightarrow> api_CASpec \<Rightarrow> bool" where
  "same_spec s t =
     (as_CommonName s = as_CommonName t \<and> mset (as_PermittedDNSDomains s) = mset (as_PermittedDNSDomains t)
      \<and> as_MaxPathLen s = as_MaxPathLen t \<and> mset (as_ExtendedKeyUsages s) = mset (as_ExtendedKeyUsages t)
      \<and> ttl_duration (as_TTLSeconds s) = ttl_duration (as_TTLSeconds t))"

text \<open>Well-formed DER is self-delimiting: no value is a prefix of another, and none is empty.\<close>

definition self_delimiting :: "purpose_hash \<Rightarrow> der set \<Rightarrow> bool" where
  "self_delimiting H D =
     (\<forall>x \<in> D. ph_raw H x \<noteq> [] \<and> (\<forall>y \<in> D. \<forall>u v. ph_raw H x @ u = ph_raw H y @ v \<longrightarrow> x = y))"

text \<open>Two requests for the same thing, in the fields their operation uses.\<close>

definition same_request :: "purpose_hash \<Rightarrow> CACeremonyStartRequest \<Rightarrow> CACeremonyStartRequest \<Rightarrow> bool" where
  "same_request H r r' =
     (sr_Operation r = sr_Operation r'
      \<and> (sr_Operation r = ''rekey_ca'' \<longrightarrow> trim_space (sr_AuthorityID r) = trim_space (sr_AuthorityID r'))
      \<and> (sr_Operation r \<noteq> ''rekey_ca'' \<longrightarrow> same_spec (sr_Spec r) (sr_Spec r'))
      \<and> (sr_Operation r \<in> {''create_intermediate'', ''create_offline_intermediate'', ''issue_intermediate_csr''} \<longrightarrow>
           sr_ParentID r = sr_ParentID r')
      \<and> (sr_Operation r = ''issue_intermediate_csr'' \<longrightarrow>
           (\<exists>d d'. csrDERFromPEM (sr_CSRPem r) = Inr d \<and> csrDERFromPEM (sr_CSRPem r') = Inr d' \<and> ph_raw H d = ph_raw H d'))
      \<and> (sr_Operation r = ''import_offline_root'' \<longrightarrow>
           (\<exists>d d'. singleCertificatePEM (sr_CertificatePEM r) = Inr d \<and> singleCertificatePEM (sr_CertificatePEM r') = Inr d'
              \<and> ph_raw H d = ph_raw H d'))
      \<and> (sr_Operation r = ''import_existing_ca'' \<longrightarrow>
           sr_SignerHandle r = sr_SignerHandle r' \<and>
           (\<exists>ds ds'. certificateChainPEM (sr_CertificatePEM r) = Inr ds \<and> certificateChainPEM (sr_CertificatePEM r') = Inr ds'
              \<and> concat (map (ph_raw H) ds) = concat (map (ph_raw H) ds')
              \<and> (self_delimiting H (set ds \<union> set ds') \<longrightarrow> ds = ds'))))"

lemma canonical_spec_same: "canonical_spec s = canonical_spec t \<Longrightarrow> same_spec s t"
proof -
  assume eq: "canonical_spec s = canonical_spec t"
  have "mset xs = mset ys" if "sort xs = sort ys" for xs ys :: "string list"
    using arg_cong [OF that, of mset] by simp
  with eq show ?thesis unfolding canonical_spec_def same_spec_def by blast
qed

lemma self_delimiting_chain:
  "self_delimiting H (set xs \<union> set ys) \<Longrightarrow> concat (map (ph_raw H) xs) = concat (map (ph_raw H) ys) \<Longrightarrow> xs = ys"
proof (induction xs arbitrary: ys)
  case Nil
  then show ?case by (cases ys) (auto simp: self_delimiting_def)
next
  case (Cons x xs)
  have ne: "ph_raw H x \<noteq> []" using Cons.prems(1) by (simp add: self_delimiting_def)
  have "ys \<noteq> []" using Cons.prems(2) ne by (cases ys) simp_all
  then obtain y zs where ys: "ys = y # zs" by (cases ys) simp_all
  have eq: "ph_raw H x @ concat (map (ph_raw H) xs) = ph_raw H y @ concat (map (ph_raw H) zs)" using Cons.prems(2) by (simp add: ys)
  moreover have "x \<in> set (x # xs) \<union> set ys" "y \<in> set (x # xs) \<union> set ys" by (simp_all add: ys)
  ultimately have "x = y" using Cons.prems(1) unfolding self_delimiting_def by blast
  moreover have "self_delimiting H (set xs \<union> set zs)"
    using Cons.prems(1) unfolding self_delimiting_def ys by simp
  ultimately show ?case using Cons.IH [of zs] eq by (simp add: ys)
qed

definition start_ops :: "string set" where
  "start_ops = {''create_root'', ''create_intermediate'', ''import_offline_root'', ''import_existing_ca'',
     ''create_offline_intermediate'', ''issue_intermediate_csr'', ''rekey_ca''}"

lemma purpose_needs_op:
  "hierarchyPurposeFromStartRequest H r = Inr p \<Longrightarrow> sr_Operation r \<in> start_ops"
  by (auto simp: hierarchyPurposeFromStartRequest_def hierarchyPurpose_def start_ops_def split: option.splits if_splits)

lemma purpose_needs_pem:
  assumes "hierarchyPurposeFromStartRequest H r = Inr p"
  shows "sr_Operation r = ''import_offline_root'' \<Longrightarrow> \<exists>d. singleCertificatePEM (sr_CertificatePEM r) = Inr d"
    and "sr_Operation r = ''import_existing_ca'' \<Longrightarrow> \<exists>ds. certificateChainPEM (sr_CertificatePEM r) = Inr ds"
    and "sr_Operation r = ''issue_intermediate_csr'' \<Longrightarrow> \<exists>d. csrDERFromPEM (sr_CSRPem r) = Inr d"
  using assms by (auto simp: hierarchyPurposeFromStartRequest_def split: sum.splits)

lemma same_key_request:
  assumes p: "hierarchyPurposeFromStartRequest H r = Inr p" "hierarchyPurposeFromStartRequest H r' = Inr p"
    and eq: "request_key H r = request_key H r'"
  shows "same_request H r r'"
proof -
  note ops = purpose_needs_op [OF p(1)] purpose_needs_op [OF p(2)]
  have opn: "sr_Operation r = sr_Operation r'"
    using eq ops unfolding start_ops_def by (auto simp: request_key_def)
  have spec: "same_spec (sr_Spec r) (sr_Spec r')" if "sr_Operation r \<noteq> ''rekey_ca''"
    using eq that opn by (intro canonical_spec_same) (auto simp: request_key_def Let_def split: if_splits)
  have existing: "sr_SignerHandle r = sr_SignerHandle r' \<and>
      (\<exists>ds ds'. certificateChainPEM (sr_CertificatePEM r) = Inr ds \<and> certificateChainPEM (sr_CertificatePEM r') = Inr ds'
         \<and> concat (map (ph_raw H) ds) = concat (map (ph_raw H) ds') \<and> (self_delimiting H (set ds \<union> set ds') \<longrightarrow> ds = ds'))"
    if o: "sr_Operation r = ''import_existing_ca''"
  proof -
    obtain ds ds' where ds: "certificateChainPEM (sr_CertificatePEM r) = Inr ds" "certificateChainPEM (sr_CertificatePEM r') = Inr ds'"
      using purpose_needs_pem(2) [OF p(1)] purpose_needs_pem(2) [OF p(2)] o opn by auto
    have h: "sr_SignerHandle r = sr_SignerHandle r'" "concat (map (ph_raw H) ds) = concat (map (ph_raw H) ds')"
      using eq o opn ds by (simp_all add: request_key_def flattenDERChain_def)
    then show ?thesis using ds self_delimiting_chain [OF _ h(2)] by blast
  qed
  have csr: "\<exists>d d'. csrDERFromPEM (sr_CSRPem r) = Inr d \<and> csrDERFromPEM (sr_CSRPem r') = Inr d' \<and> ph_raw H d = ph_raw H d'"
    if o: "sr_Operation r = ''issue_intermediate_csr''"
    using purpose_needs_pem(3) [OF p(1)] purpose_needs_pem(3) [OF p(2)] eq o opn by (auto simp: request_key_def)
  have offline: "\<exists>d d'. singleCertificatePEM (sr_CertificatePEM r) = Inr d \<and> singleCertificatePEM (sr_CertificatePEM r') = Inr d'
      \<and> ph_raw H d = ph_raw H d'" if o: "sr_Operation r = ''import_offline_root''"
    using purpose_needs_pem(1) [OF p(1)] purpose_needs_pem(1) [OF p(2)] eq o opn by (auto simp: request_key_def)
  have "sr_ParentID r = sr_ParentID r'"
    if "sr_Operation r \<in> {''create_intermediate'', ''create_offline_intermediate'', ''issue_intermediate_csr''}"
    using that eq opn by (auto simp: request_key_def)
  moreover have "trim_space (sr_AuthorityID r) = trim_space (sr_AuthorityID r')" if "sr_Operation r = ''rekey_ca''"
    using that eq opn by (simp add: request_key_def)
  ultimately show ?thesis using opn spec existing csr offline unfolding same_request_def by blast
qed

text \<open>C8: a ceremony authorises one request only: two requests whose ceremonies get the same purpose are for the
  same operation on the same parent or authority, the same certificate or signing request, the same signer
  handle and the same specification (name, domains, path length, key usages, lifetime; lists up to order), as
  long as SHA-256 does not collide on the values involved. The chain of an imported authority is hashed as the
  plain concatenation of its blocks, which are not parsed yet: the concatenations agree, and the chains agree
  when their blocks are self-delimiting, as well-formed DER is. Parent identifiers and handles are arbitrary
  text, also text containing the separator.\<close>

theorem purpose_binds_request:
  assumes "hierarchyPurposeFromStartRequest H r = Inr p" and "hierarchyPurposeFromStartRequest H r' = Inr p"
    and "digests_sound H (request_key H r) (request_key H r')"
  shows "same_request H r r'"
  using same_key_request [OF assms(1,2)] request_purpose [OF assms(1)] request_purpose [OF assms(2)]
    purpose_key_text_inj [OF assms(3)] by simp

text \<open>Without that, the purpose does not fix the chain: two splits of the same bytes into blocks share it.\<close>

lemma chain_split_shares_purpose:
  assumes "ph_raw H a = ph_raw H b @ ph_raw H c"
  shows "existingCAPurpose H [a] h spec = existingCAPurpose H [b, c] h spec"
proof -
  have "flattenDERChain H [a] = flattenDERChain H [b, c]" using assms by (simp add: flattenDERChain_def)
  then show ?thesis by (simp only: existingCAPurpose_def)
qed

definition long_hash :: purpose_hash where
  "long_hash = \<lparr>ph_spec = (\<lambda>(cn, ds, n, us, ttl). replicate 63 CHR ''0'' @ (if ds = sort ds then ''a'' else ''b'')),
     ph_raw = (\<lambda>d. ''r''), ph_sha = (\<lambda>b. replicate 64 CHR ''1''), ph_pem = (\<lambda>ds. '''')\<rparr>"

theorem purpose_binds_request_witness:
  "same_request long_hash (op_request (OpIntermediate ''p:1'' ((demo_spec ''S'' 0)\<lparr>as_PermittedDNSDomains := [''b'', ''a'']\<rparr>)))
     (op_request (OpIntermediate ''p:1'' ((demo_spec ''S'' 0)\<lparr>as_PermittedDNSDomains := [''a'', ''b'']\<rparr>)))"
proof (rule purpose_binds_request)
  let ?p = "''intermediate:p:1:'' @ replicate 63 CHR ''0'' @ ''a''"
  show "hierarchyPurposeFromStartRequest long_hash
      (op_request (OpIntermediate ''p:1'' ((demo_spec ''S'' 0)\<lparr>as_PermittedDNSDomains := [''b'', ''a'']\<rparr>))) = Inr ?p" by code_simp
  show "hierarchyPurposeFromStartRequest long_hash
      (op_request (OpIntermediate ''p:1'' ((demo_spec ''S'' 0)\<lparr>as_PermittedDNSDomains := [''a'', ''b'']\<rparr>))) = Inr ?p" by code_simp
  have "sort [''b'', ''a''] = sort [''a'', ''b'']" by code_simp
  then show "digests_sound long_hash
      (request_key long_hash (op_request (OpIntermediate ''p:1'' ((demo_spec ''S'' 0)\<lparr>as_PermittedDNSDomains := [''b'', ''a'']\<rparr>))))
      (request_key long_hash (op_request (OpIntermediate ''p:1'' ((demo_spec ''S'' 0)\<lparr>as_PermittedDNSDomains := [''a'', ''b'']\<rparr>))))"
    by (simp add: digests_sound_def request_key_def start_request_def canonical_spec_def long_hash_def demo_spec_def)
qed

section \<open>Issued leaves\<close>

lemma hret_Inr: "hret r st = (st', Inr a) \<longleftrightarrow> st' = st \<and> r = Inr a"
  by (auto simp: hret_def)

lemma issuingAuthority_active:
  assumes "issuingAuthority tn caID st = (st1, Inr (requested, ca))"
  shows "st1 = st" and "ca \<in> set (db_authorities (hs_db st))" and "au_TenantID ca = tn" and "au_Status ca = ''active''"
    and "au_ID ca = caID \<or> au_ReplacesID ca = Some caID"
proof -
  have succ: "s \<in> set (db_authorities db) \<and> au_TenantID s = tn \<and> au_ReplacesID s = Some i \<and> au_Status s = ''active''"
    if "FindActiveCAAuthoritySuccessor db tn i = Some s" for s i db
  proof -
    from that obtain ss where "rev (sort_key (\<lambda>a. (au_CreatedAt a, au_ID a))
        (filter (\<lambda>a. au_TenantID a = tn \<and> au_ReplacesID a = Some i \<and> au_Status a = ''active'') (db_authorities db))) = s # ss"
      by (auto simp: FindActiveCAAuthoritySuccessor_def split: list.splits)
    from arg_cong [OF this, of set] show ?thesis by auto
  qed
  have found: "GetCAAuthority db tn i = Some a \<Longrightarrow> a \<in> set (db_authorities db) \<and> au_TenantID a = tn \<and> au_ID a = i" for db i a
    by (auto simp: GetCAAuthority_def same_row_def dest: find_Some_iff)
  from assms show "st1 = st" "ca \<in> set (db_authorities (hs_db st))" "au_TenantID ca = tn" "au_Status ca = ''active''"
      "au_ID ca = caID \<or> au_ReplacesID ca = Some caID"
    by (auto simp: issuingAuthority_def hbind_def get_authority_def hread_def hret_def dest!: found succ split: option.splits if_splits)
qed

lemma signerForAuthority_db: "signerForAuthority env ca st = (st1, r) \<Longrightarrow> hs_db st1 = hs_db st \<and> hs_log st1 = hs_log st"
  by (auto simp: signerForAuthority_def rememberSigner_def split: if_splits option.splits sum.splits)

lemma append_apply_Inr:
  assumes "appendEvent env tn ty d st = (st1, Inr ev)" and "happly env ev st1 = (st', Inr ())"
  shows "lg_events (hs_log st') = lg_events (hs_log st) @ [ev]" and "ce_Type ev = ty" and "ce_TenantID ev = tn" and "ce_Data ev = d"
    and "ca_ApplyTx (hx_apply env (ce_Sequence ev)) ev (hs_db st) = Inr (hs_db st')"
  using assms(2) by (cases rule: appendEvent_cases [OF assms(1)]; auto simp: happly_def apply_hier_def split: sum.splits)+

text \<open>
  a leaf is issued only by an active authority of the tenant, the one asked for or its successor; its chain
  is that authority's, its key is the request's, and its names are those the authority's lane admits; and its
  issuance is on record: the event is in the log and, for a serial number the tables did not know, the status
  is good, so that revocation and the CRL find it.\<close>

theorem served_leaf_recorded:
  assumes "Served_IssueLeaf env ni profile tn caID csrDER ttlSeconds st = (st', Inr (chain, serial, notAfter))"
  shows "\<exists>ca leaf csr ev. ca \<in> set (db_authorities (hs_db st)) \<and> au_TenantID ca = tn \<and> au_Status ca = ''active''
           \<and> (au_ID ca = caID \<or> au_ReplacesID ca = Some caID)
           \<and> chain = leaf # au_CertificatePEM ca \<and> chain \<noteq> [leaf] \<and> CheckSignatureFrom leaf (chain ! 1)
           \<and> csrDER = Some (CSRDER csr) \<and> xc_PublicKey leaf = cr_PublicKey csr \<and> \<not> xc_IsCA leaf
           \<and> enforceLeafProfile ni csr (ttl_duration ttlSeconds) (applyAuthorityLane profile ca) = None
           \<and> serial = hex_text (xc_SerialNumber leaf)
           \<and> lg_events (hs_log st') = lg_events (hs_log st) @ [ev] \<and> ce_Type ev = ''ca.endentity.issued''
           \<and> ce_Data ev = CAIssuedCertificate (au_ID ca) serial 0 ''''
           \<and> (status_of (hs_db st) (tn, au_ID ca, serial) = StUnknown \<longrightarrow> status_of (hs_db st') (tn, au_ID ca, serial) = StGood)"
proof -
  from assms obtain csr0 st1 requested ca signer st2 caDER leaf st3 ev where
    csr: "csrDER = Some csr0" and auth: "issuingAuthority tn caID st = (st1, Inr (requested, ca))"
    and signer: "signerForAuthority env ca st1 = (st2, Inr signer)"
    and caDER: "firstCertDER (au_CertificatePEM ca) = Inr caDER"
    and sign: "SignLeafFromCSRWithProfile (hx_x509 env) ni caDER signer csr0 (ttl_duration ttlSeconds) (applyAuthorityLane profile ca) = Inr (CertDER leaf)"
    and append: "appendEvent env tn ''ca.endentity.issued'' (CAIssuedCertificate (au_ID ca) (hex_text (xc_SerialNumber leaf)) 0 '''') st2 = (st3, Inr ev)"
    and apply_ev: "happly env ev st3 = (st', Inr ())"
    and result: "chain = leaf # au_CertificatePEM ca" "serial = hex_text (xc_SerialNumber leaf)"
    unfolding Served_IssueLeaf_def Let_def
    by (auto elim!: hbind_InrE ParseCertificate.elims simp: hret_Inr invalid_if_def split: option.splits if_splits sum.splits)
  from caDER obtain issuer others where chain: "au_CertificatePEM ca = issuer # others" "caDER = CertDER issuer"
    by (auto simp: firstCertDER_def split: list.splits)
  from sign obtain csr where c: "csr0 = CSRDER csr" "CheckSignatureFrom leaf issuer" "xc_PublicKey leaf = cr_PublicKey csr" "\<not> xc_IsCA leaf"
    "enforceLeafProfile ni csr (ttl_duration ttlSeconds) (applyAuthorityLane profile ca) = None"
    by (rule SignLeaf_accepts) (auto simp: chain(2))
  note ev = append_apply_Inr [OF append apply_ev]
  note ids = issuingAuthority_active [OF auth]
  from signerForAuthority_db [OF signer] ids(1) have same: "hs_db st2 = hs_db st" "hs_log st2 = hs_log st" by simp_all
  have "status_of (hs_db st') (tn, au_ID ca, serial) = StGood" if "status_of (hs_db st) (tn, au_ID ca, serial) = StUnknown"
    using ApplyTx_status [OF ev(5), of "(tn, au_ID ca, serial)"] that ev(2,3,4) result by (simp add: status_step_def same)
  with ids csr chain c ev same result show ?thesis
    by (intro exI [of _ ca] exI [of _ leaf] exI [of _ csr] exI [of _ ev]) auto
qed

definition demo_leaf_run :: "string \<Rightarrow> string list \<Rightarrow> string list \<Rightarrow> hier_state \<Rightarrow> hier_state \<times> (hier_error + x509_Certificate list \<times> string \<times> gotime)" where
  "demo_leaf_run ca sufs names st =
     Served_IssueLeaf ((demo_env ''l'' ''k'' ''olga'')\<lparr>hx_x509 := demo_x509 ''k'' 7\<rparr>) demo_netip (demo_leaf_profile sufs) ''t1'' ca
       (Some (demo_csr names)) 3600 st"

definition issued_ok :: "hier_error + 'a \<Rightarrow> bool" where
  "issued_ok r = (case r of Inl e \<Rightarrow> False | Inr a \<Rightarrow> True)"

lemma issued_okD: "issued_ok (snd r) \<Longrightarrow> \<exists>a. r = (fst r, Inr a)"
  by (cases "snd r") (simp_all add: issued_ok_def prod_eq_iff)

theorem served_leaf_recorded_witness:
  "\<exists>chain serial notAfter. snd (demo_leaf_run ''row-c1'' [] [''www.corp.example''] (fst demo_root_run)) = Inr (chain, serial, notAfter)
     \<and> (\<exists>(ca :: CAAuthority) leaf. au_Status ca = ''active'' \<and> chain = leaf # au_CertificatePEM ca \<and> CheckSignatureFrom leaf (chain ! 1))"
proof -
  let ?r = "demo_leaf_run ''row-c1'' [] [''www.corp.example''] (fst demo_root_run)"
  have "issued_ok (snd ?r)" by code_simp
  then obtain chain serial notAfter where r: "?r = (fst ?r, Inr (chain, serial, notAfter))" using issued_okD by (metis prod_cases3)
  from arg_cong [OF r, of snd] have s: "snd ?r = Inr (chain, serial, notAfter)" by simp
  from served_leaf_recorded [OF r [unfolded demo_leaf_run_def]] obtain ca :: CAAuthority and leaf
    where "au_Status ca = ''active''" "chain = leaf # au_CertificatePEM ca" "CheckSignatureFrom leaf (chain ! 1)"
    by blast
  with s show ?thesis by blast
qed

section \<open>Shown by the model\<close>

text \<open>
  When the transaction of a re-key does not commit after its event was appended, the request fails and the
  ceremony stays pending, but catching up with the log installs the successor and supersedes the
  predecessor; the successor's key was created under the ceremony's handle.
\<close>

definition demo_rekey :: "bool \<Rightarrow> string \<Rightarrow> string \<Rightarrow> hier_state \<Rightarrow> hier_state \<times> (hier_error + unit)" where
  "demo_rekey commits i ca st =
     run_op ((demo_env i i ''olga'')\<lparr>hx_commits := commits, hx_uuid := ''ca-'' @ i\<rparr>) demo_hash ''t1'' i (OpRekey ca 0 '''')
       (demo_ceremony i (OpRekey ca 0 '''') st)"

theorem rekey_survives_rollback:
  "let r = demo_rekey False ''c2'' ''row-c1'' (fst demo_root_run);
       db = fst (ProjectCatchUp int (hs_log (fst r)) (hs_db (fst r)))
   in snd r = Inl CommitFailed
      \<and> map_option kc_Status (ceremony_row db ''t1'' ''c2'') = Some ''pending''
      \<and> map_option au_Status (GetCAAuthority db ''t1'' ''row-c1'') = Some ''superseded''
      \<and> map_option au_Status (GetCAAuthority db ''t1'' ''ca-c2'') = Some ''active''"
  unfolding Let_def by (intro conjI; code_simp)

text \<open>After a second rotation the first authority no longer leads to an active one.\<close>

theorem second_rotation_breaks_first_authority:
  "let st = fst (demo_rekey True ''c2'' ''row-c1'' (fst demo_root_run)); st2 = fst (demo_rekey True ''c3'' ''ca-c2'' st)
   in issued_ok (snd (demo_leaf_run ''row-c1'' [] [''www.corp.example''] st))
      \<and> issued_ok (snd (demo_leaf_run ''ca-c3'' [] [''www.corp.example''] st2))
      \<and> snd (demo_leaf_run ''row-c1'' [] [''www.corp.example''] st2) = Inl (HierConflict ''superseded CA has no active successor'')"
  unfolding Let_def by (intro conjI; code_simp)

text \<open>A superseded authority still signs new intermediates.\<close>

theorem superseded_authority_signs_intermediate:
  "let st = fst (demo_rekey True ''c2'' ''row-c1'' (fst demo_root_run)); sub = OpIntermediate ''row-c1'' (demo_spec ''S'' 0)
   in map_option au_Status (GetCAAuthority (hs_db st) ''t1'' ''row-c1'') = Some ''superseded''
      \<and> snd (run_op (demo_env ''c4'' ''k4'' ''olga'') demo_hash ''t1'' ''c4'' sub (demo_ceremony ''c4'' sub st)) = Inr ()"
  unfolding Let_def by (intro conjI; code_simp)

text \<open>With a profile whose suffixes are disjoint from the authority's, a name outside both is issued.\<close>

theorem served_disjoint_lane_issues_outside_both:
  "issued_ok (snd (demo_leaf_run ''row-c1'' [''other.example''] [''www.evil.test''] (fst demo_root_run)))
   \<and> \<not> issued_ok (snd (demo_leaf_run ''row-c1'' [] [''www.evil.test''] (fst demo_root_run)))"
  by (intro conjI; code_simp)

text \<open>The lifetime of a specification wraps around in 64 bits: a positive count of seconds can become negative.\<close>

theorem lifetime_wraps: "ttl_duration 9223372037 < 0" "ttl_duration 18446744074 = 290448384"
  by code_simp+

end
