(* ===== verification/Issuance.thy ===== *)
theory Issuance
  imports CaCrypto Idempotency Outbox
begin

text \<open>
  Issuance through external authorities: the issuance service (\<^verbatim>\<open>internal/ca/issuance.go\<close>) and the
  registry that serves it (\<^verbatim>\<open>internal/server/external_ca.go\<close>). The service composes the profile check,
  the idempotency table and the outbox. An external authority is a function on a state of its own that
  answers a request with a certificate or an error.

  Certificates and payloads are JSON; a payload here is the value its text stands for, and decoding it as
  an issue payload keeps the fields the two JSON objects share. A message is the entry of its outbox row.
\<close>

section \<open>Requests, certificates and payloads\<close>

record IssueRequest =
  ir_TenantID :: string
  ir_CSR :: der
  ir_DNSNames :: "string list"
  ir_TTL :: duration
  ir_ProviderIdempotencyKey :: string
  ir_ProfileName :: string
  ir_Protocol :: string
  ir_RequestedEKUs :: "string list"

record Certificate =
  ct_CertificatePEM :: bytes
  ct_Serial :: string
  ct_NotAfter :: gotime
  ct_Issuer :: string

record ExternalIssuePayload =
  ep_AuthorityID :: string
  ep_TenantID :: string
  ep_CSR :: der
  ep_DNSNames :: "string list"
  ep_TTLNanos :: int
  ep_ProviderIdempotencyKey :: string
  ep_ProfileName :: string
  ep_Protocol :: string
  ep_RequestedEKUs :: "string list"

text \<open>What the rows carry: an issue, the bare intent of a synchronous issue, the record of a certificate, or other text.\<close>

datatype issue_payload =
    IssuePayload ExternalIssuePayload
  | IntentPayload string "string list" string string
  | RecordPayload string string
  | OtherPayload bytes

definition zero_payload :: ExternalIssuePayload where
  "zero_payload = \<lparr>ep_AuthorityID = '''', ep_TenantID = '''', ep_CSR = OtherDER [], ep_DNSNames = [], ep_TTLNanos = 0,
     ep_ProviderIdempotencyKey = '''', ep_ProfileName = '''', ep_Protocol = '''', ep_RequestedEKUs = []\<rparr>"

fun decode_payload :: "issue_payload \<Rightarrow> ExternalIssuePayload option" where
  "decode_payload (IssuePayload p) = Some p"
| "decode_payload (IntentPayload providerKey names prof protocol) =
     Some (zero_payload\<lparr>ep_ProviderIdempotencyKey := providerKey, ep_DNSNames := names, ep_Protocol := protocol\<rparr>)"
| "decode_payload (RecordPayload serial issuer) = Some zero_payload"
| "decode_payload (OtherPayload b) = None"

definition newExternalIssuePayload :: "string \<Rightarrow> IssueRequest \<Rightarrow> ExternalIssuePayload" where
  "newExternalIssuePayload authorityID req =
     \<lparr>ep_AuthorityID = authorityID, ep_TenantID = ir_TenantID req, ep_CSR = ir_CSR req, ep_DNSNames = ir_DNSNames req,
      ep_TTLNanos = ir_TTL req, ep_ProviderIdempotencyKey = ir_ProviderIdempotencyKey req, ep_ProfileName = ir_ProfileName req,
      ep_Protocol = ir_Protocol req, ep_RequestedEKUs = ir_RequestedEKUs req\<rparr>"

definition payload_IssueRequest :: "ExternalIssuePayload \<Rightarrow> IssueRequest" where
  "payload_IssueRequest p =
     \<lparr>ir_TenantID = ep_TenantID p, ir_CSR = ep_CSR p, ir_DNSNames = ep_DNSNames p, ir_TTL = ep_TTLNanos p,
      ir_ProviderIdempotencyKey = ep_ProviderIdempotencyKey p, ir_ProfileName = ep_ProfileName p, ir_Protocol = ep_Protocol p,
      ir_RequestedEKUs = ep_RequestedEKUs p\<rparr>"

definition externalIssueResultKey :: "string \<Rightarrow> string" where
  "externalIssueResultKey key = ''external-ca.issue:'' @ key"

definition IssueRecordIdempotencyKey :: "string \<Rightarrow> string" where
  "IssueRecordIdempotencyKey key = key @ '':ca.issue''"

text \<open>\<open>hex\<close> is SHA-256 in hexadecimal.\<close>

definition ProviderIdempotencyKey :: "(string \<Rightarrow> string) \<Rightarrow> string \<Rightarrow> string" where
  "ProviderIdempotencyKey hex key = (let sum = hex key in if length sum \<le> 32 then sum else take 32 sum)"

section \<open>State, environment and errors\<close>

record ProfileRecord =
  pf_TenantID :: string
  pf_Name :: string
  pf_Version :: int
  pf_Spec :: "CertificateProfile option"
  pf_Active :: bool

record profile_decision =
  pd_TenantID :: string
  pd_Profile :: string
  pd_Version :: int
  pd_Decision :: string
  pd_Protocol :: string

text \<open>
  The authority's state and the outbox are what the guarded operation changes. \<open>iw_minted\<close> is a history
  variable: the tenant and key of the idempotency table under which an authority answered with a
  certificate. \<open>iw_faults\<close> is another: the tenant and key each time a guarded call could not store its record or
  could not commit, or the retention sweep removed a stored result.
\<close>

record 'c issue_world =
  iw_outbox :: "issue_payload outbox_table"
  iw_ca :: 'c
  iw_minted :: "(string \<times> string) list"
  iw_faults :: "(string \<times> string) list"

record 'c issue_state =
  is_keys :: idempotency_keys
  is_world :: "'c issue_world"
  is_profiles :: "ProfileRecord list"
  is_audit :: "profile_decision list"

text \<open>Decoding failures of a profile, the CSR inspector's view of key and extensions, JSON of a certificate and SHA-256.\<close>

record issue_lib =
  il_key :: "CertificateRequest \<Rightarrow> (string \<times> int) option"
  il_hex :: "string \<Rightarrow> string"
  il_marshal :: "Certificate \<Rightarrow> bytes"
  il_unmarshal :: "bytes \<Rightarrow> Certificate option"

text \<open>The clock of the database, and whether the profile lookup, the audit append, the enqueue, the record and the commit of
  the idempotency table go through.\<close>

record issue_env =
  ie_now :: gotime
  ie_lookup_ok :: bool
  ie_append_ok :: bool
  ie_enqueue_ok :: bool
  ie_record_ok :: bool
  ie_commit_ok :: bool

datatype issue_error =
    ProfileDecode string | ProfileViolation profile_error | StoreFailed | AuditFailed | AuthorityFailed string
  | IssueInProgress | CertificateDecode | IssueIncomplete | UnsupportedDestination string | PayloadDecode
  | WrongAuthority string string | TenantMismatch | ExternalCANotFound string | ExternalCAInvalid string | AuthorityNotConfigured string
  | ExternalCAUpstream | DrainFailed

record 'c IssuanceService =
  sv_ca :: "IssueRequest \<Rightarrow> 'c \<Rightarrow> 'c \<times> (string + Certificate)"
  sv_audited :: bool
  sv_outboxAuthorityID :: string

section \<open>The profile gate\<close>

definition GetActiveProfile :: "string \<Rightarrow> string \<Rightarrow> ProfileRecord list \<Rightarrow> ProfileRecord option" where
  "GetActiveProfile tn name ps = List.find (\<lambda>r. pf_TenantID r = tn \<and> pf_Name r = name \<and> pf_Active r) ps"

definition auditDecision ::
  "issue_env \<Rightarrow> 'c IssuanceService \<Rightarrow> IssueRequest \<Rightarrow> int \<Rightarrow> string \<Rightarrow> 'c issue_state \<Rightarrow> 'c issue_state \<times> issue_error option" where
  "auditDecision env s req version decision st =
     (if \<not> sv_audited s then (st, None)
      else if \<not> ie_append_ok env then (st, Some AuditFailed)
      else (st\<lparr>is_audit := is_audit st @ [\<lparr>pd_TenantID = ir_TenantID req, pd_Profile = ir_ProfileName req, pd_Version = version,
                pd_Decision = decision, pd_Protocol = ir_Protocol req\<rparr>]\<rparr>, None))"

record CSRInfo =
  ci_KeyAlgorithm :: string
  ci_KeyBits :: int
  ci_DNSNames :: "string list"
  ci_IPAddresses :: "string list"
  ci_EmailAddresses :: "string list"
  ci_URIs :: "string list"
  ci_CommonName :: string

text \<open>The key's algorithm and size; \<open>None\<close> when the extensions of the request do not decode.\<close>

definition InspectCSR :: "issue_lib \<Rightarrow> der \<Rightarrow> CSRInfo option" where
  "InspectCSR lib d =
     (case ParseCertificateRequest d of
        None \<Rightarrow> None
      | Some csr \<Rightarrow>
          if \<not> cr_SignatureOK csr then None
          else case il_key lib csr of
                 None \<Rightarrow> None
               | Some (alg, bits) \<Rightarrow>
                   Some \<lparr>ci_KeyAlgorithm = alg, ci_KeyBits = bits, ci_DNSNames = cr_DNSNames csr, ci_IPAddresses = cr_IPAddresses csr,
                         ci_EmailAddresses = cr_EmailAddresses csr, ci_URIs = cr_URIs csr, ci_CommonName = cr_Subject csr\<rparr>)"

definition profileDNSNames :: "CSRInfo \<Rightarrow> string list \<Rightarrow> string list" where
  "profileDNSNames info fallback = (if ci_DNSNames info \<noteq> [] then ci_DNSNames info else fallback)"

definition profile_request :: "CSRInfo \<Rightarrow> IssueRequest \<Rightarrow> Request" where
  "profile_request info req =
     \<lparr>pr_KeyAlgorithm = ci_KeyAlgorithm info, pr_KeyBits = ci_KeyBits info, pr_RequestedEKUs = ir_RequestedEKUs req, pr_TTL = ir_TTL req,
      pr_DNSNames = profileDNSNames info (ir_DNSNames req), pr_IPAddresses = ci_IPAddresses info,
      pr_EmailAddresses = ci_EmailAddresses info, pr_URIs = ci_URIs info, pr_Protocol = ir_Protocol req\<rparr>"

definition enforceProfile ::
  "issue_env \<Rightarrow> issue_lib \<Rightarrow> ('a, 'p) netip \<Rightarrow> 'c IssuanceService \<Rightarrow> IssueRequest \<Rightarrow> 'c issue_state \<Rightarrow> 'c issue_state \<times> issue_error option" where
  "enforceProfile env lib ni s req st =
     (if ir_ProfileName req = '''' then (st, None)
      else if \<not> ie_lookup_ok env then (st, Some StoreFailed)
      else case GetActiveProfile (ir_TenantID req) (ir_ProfileName req) (is_profiles st) of
             None \<Rightarrow> auditDecision env s req 0 ''deny'' st
           | Some rec \<Rightarrow>
               (case pf_Spec rec of
                  None \<Rightarrow> (st, Some (ProfileDecode (ir_ProfileName req)))
                | Some prof \<Rightarrow>
                    (case InspectCSR lib (ir_CSR req) of
                       None \<Rightarrow> auditDecision env s req (pf_Version rec) ''deny'' st
                     | Some info \<Rightarrow>
                         (case Validate ni prof (profile_request info req) of
                            Some verr \<Rightarrow>
                              (case auditDecision env s req (pf_Version rec) ''deny'' st of
                                 (st1, Some aerr) \<Rightarrow> (st1, Some aerr)
                               | (st1, None) \<Rightarrow> (st1, Some (ProfileViolation verr)))
                          | None \<Rightarrow> auditDecision env s req (pf_Version rec) ''allow'' st))))"

section \<open>Issuing\<close>

definition record_issue :: "issue_env \<Rightarrow> string \<Rightarrow> string \<Rightarrow> Certificate \<Rightarrow> 'c issue_world \<Rightarrow> 'c issue_world \<times> issue_error option" where
  "record_issue env tn key cert w =
     (if \<not> ie_record_ok env then (w, Some StoreFailed)
      else (w\<lparr>iw_outbox := fst (EnqueueIfAbsent (ie_now env) \<lparr>en_TenantID = tn, en_Destination = ''ca.issue'',
               en_IdempotencyKey = IssueRecordIdempotencyKey key, en_Payload = RecordPayload (ct_Serial cert) (ct_Issuer cert)\<rparr> (iw_outbox w))\<rparr>,
            None))"

text \<open>The guarded operation: ask the authority, record the certificate, return its JSON.\<close>

definition mint ::
  "issue_env \<Rightarrow> issue_lib \<Rightarrow> 'c IssuanceService \<Rightarrow> string \<Rightarrow> string \<Rightarrow> string \<Rightarrow> IssueRequest \<Rightarrow> ('c issue_world, issue_error) op" where
  "mint env lib s tn tableKey key req w =
     (case sv_ca s req (iw_ca w) of
        (c, Inl e) \<Rightarrow> (w\<lparr>iw_ca := c\<rparr>, Inl (AuthorityFailed e))
      | (c, Inr cert) \<Rightarrow>
          (case record_issue env tn key cert (w\<lparr>iw_ca := c, iw_minted := iw_minted w @ [(tn, tableKey)]\<rparr>) of
             (w1, Some e) \<Rightarrow> (w1, Inl e)
           | (w1, None) \<Rightarrow> (w1, Inr (il_marshal lib cert))))"

definition note_fault :: "issue_env \<Rightarrow> string \<times> string \<Rightarrow> 'c issue_world \<Rightarrow> 'c issue_world" where
  "note_fault env k w = (if ie_record_ok env \<and> ie_commit_ok env then w else w\<lparr>iw_faults := iw_faults w @ [k]\<rparr>)"

definition guarded ::
  "issue_env \<Rightarrow> string \<Rightarrow> string \<Rightarrow> ('c issue_world, issue_error) op \<Rightarrow> 'c issue_state \<Rightarrow> 'c issue_state \<times> (issue_error + bytes)" where
  "guarded env tn tableKey fn st =
     (case Do (ie_commit_ok env) tn tableKey fn (is_keys st, is_world st) of
        ((keys, w), r) \<Rightarrow>
          (st\<lparr>is_keys := keys, is_world := note_fault env (tn, tableKey) w\<rparr>,
           case r of Inl (OpError e) \<Rightarrow> Inl e | Inl CommitError \<Rightarrow> Inl StoreFailed | Inl _ \<Rightarrow> Inl IssueInProgress | Inr raw \<Rightarrow> Inr raw))"

definition enqueue_issue ::
  "issue_env \<Rightarrow> string \<Rightarrow> string \<Rightarrow> issue_payload \<Rightarrow> 'c issue_state \<Rightarrow> 'c issue_state \<times> issue_error option" where
  "enqueue_issue env tn key payload st =
     (if \<not> ie_enqueue_ok env then (st, Some StoreFailed)
      else (st\<lparr>is_world := (is_world st)\<lparr>iw_outbox := fst (EnqueueIfAbsent (ie_now env)
               \<lparr>en_TenantID = tn, en_Destination = ''external-ca.issue'', en_IdempotencyKey = key, en_Payload = payload\<rparr>
               (iw_outbox (is_world st)))\<rparr>\<rparr>, None))"

definition recordIntent :: "issue_env \<Rightarrow> string \<Rightarrow> string \<Rightarrow> IssueRequest \<Rightarrow> 'c issue_state \<Rightarrow> 'c issue_state \<times> issue_error option" where
  "recordIntent env tn key req st =
     enqueue_issue env tn key (IntentPayload (ir_ProviderIdempotencyKey req) (ir_DNSNames req) (ir_ProfileName req) (ir_Protocol req)) st"

definition unmarshal_certificate :: "issue_lib \<Rightarrow> bytes \<Rightarrow> issue_error + Certificate" where
  "unmarshal_certificate lib raw = (case il_unmarshal lib raw of None \<Rightarrow> Inl CertificateDecode | Some cert \<Rightarrow> Inr cert)"

text \<open>\<open>drain\<close> waits for the worker; \<open>None\<close> when the service has none.\<close>

type_synonym 'c drain = "('c issue_state \<Rightarrow> 'c issue_state \<times> issue_error option) option"

definition issueViaOutbox ::
  "issue_env \<Rightarrow> issue_lib \<Rightarrow> 'c IssuanceService \<Rightarrow> 'c drain \<Rightarrow> IssueRequest \<Rightarrow> string \<Rightarrow> 'c issue_state
     \<Rightarrow> 'c issue_state \<times> (issue_error + Certificate)" where
  "issueViaOutbox env lib s drain req key st =
     (case enqueue_issue env (ir_TenantID req) key (IssuePayload (newExternalIssuePayload (sv_outboxAuthorityID s) req)) st of
        (st1, Some e) \<Rightarrow> (st1, Inl e)
      | (st1, None) \<Rightarrow>
          (case (case drain of None \<Rightarrow> (st1, None) | Some d \<Rightarrow> d st1) of
             (st2, Some e) \<Rightarrow> (st2, Inl e)
           | (st2, None) \<Rightarrow>
               (case (Result (ir_TenantID req) (externalIssueResultKey key) (is_keys st2) :: unit idem_error + bytes) of
                  Inl e \<Rightarrow> (st2, Inl IssueIncomplete)
                | Inr raw \<Rightarrow> (st2, unmarshal_certificate lib raw))))"

definition Issue ::
  "issue_env \<Rightarrow> issue_lib \<Rightarrow> ('a, 'p) netip \<Rightarrow> 'c IssuanceService \<Rightarrow> 'c drain \<Rightarrow> IssueRequest \<Rightarrow> string \<Rightarrow> 'c issue_state
     \<Rightarrow> 'c issue_state \<times> (issue_error + Certificate)" where
  "Issue env lib ni s drain req0 key st =
     (case enforceProfile env lib ni s req0 st of
        (st1, Some e) \<Rightarrow> (st1, Inl e)
      | (st1, None) \<Rightarrow>
          (let req = (if ir_ProviderIdempotencyKey req0 = ''''
                      then req0\<lparr>ir_ProviderIdempotencyKey := ProviderIdempotencyKey (il_hex lib) key\<rparr> else req0)
           in if sv_outboxAuthorityID s \<noteq> '''' then issueViaOutbox env lib s drain req key st1
              else case recordIntent env (ir_TenantID req) key req st1 of
                     (st2, Some e) \<Rightarrow> (st2, Inl e)
                   | (st2, None) \<Rightarrow>
                       (case guarded env (ir_TenantID req) key (mint env lib s (ir_TenantID req) key key req) st2 of
                          (st3, Inl e) \<Rightarrow> (st3, Inl e)
                        | (st3, Inr raw) \<Rightarrow> (st3, unmarshal_certificate lib raw))))"

definition DeliverExternalIssue ::
  "issue_env \<Rightarrow> issue_lib \<Rightarrow> 'c IssuanceService \<Rightarrow> issue_payload entry \<Rightarrow> 'c issue_state \<Rightarrow> 'c issue_state \<times> issue_error option" where
  "DeliverExternalIssue env lib s m st =
     (if en_Destination m \<noteq> ''external-ca.issue'' then (st, Some (UnsupportedDestination (en_Destination m)))
      else case decode_payload (en_Payload m) of
             None \<Rightarrow> (st, Some PayloadDecode)
           | Some payload \<Rightarrow>
               if ep_AuthorityID payload \<noteq> sv_outboxAuthorityID s
               then (st, Some (WrongAuthority (ep_AuthorityID payload) (sv_outboxAuthorityID s)))
               else (let req1 = payload_IssueRequest payload;
                         req2 = (if ir_TenantID req1 = '''' then req1\<lparr>ir_TenantID := en_TenantID m\<rparr> else req1)
                     in if ir_TenantID req2 \<noteq> en_TenantID m then (st, Some TenantMismatch)
                        else (let req = (if ir_ProviderIdempotencyKey req2 = ''''
                                         then req2\<lparr>ir_ProviderIdempotencyKey := ProviderIdempotencyKey (il_hex lib) (en_IdempotencyKey m)\<rparr>
                                         else req2);
                                  tableKey = externalIssueResultKey (en_IdempotencyKey m)
                              in case guarded env (en_TenantID m) tableKey (mint env lib s (en_TenantID m) tableKey (en_IdempotencyKey m) req) st of
                                   (st1, Inl e) \<Rightarrow> (st1, Some e)
                                 | (st1, Inr raw) \<Rightarrow> (st1, None))))"

section \<open>The registry\<close>

record ExternalCA_meta =
  xm_ID :: string
  xm_Type :: string
  xm_Name :: string
  xm_Status :: string

text \<open>A configured authority: its selector, its kind, and its implementation with its own name, if any.\<close>

record 'c ExternalCA =
  xa_ID :: string
  xa_Type :: string
  xa_CA :: "(string \<times> (IssueRequest \<Rightarrow> 'c \<Rightarrow> 'c \<times> (string + Certificate))) option"

record 'c externalCARegistry =
  xr_items :: "ExternalCA_meta list"
  xr_byID :: "(string \<times> ExternalCA_meta \<times> 'c IssuanceService) list"

datatype registry_error = EmptyID | NoImplementation string | DuplicateID string

fun register_all :: "bool \<Rightarrow> 'c ExternalCA list \<Rightarrow> 'c externalCARegistry \<Rightarrow> registry_error + 'c externalCARegistry" where
  "register_all audited [] reg = Inr reg"
| "register_all audited (cfg # cfgs) reg =
     (let i = trim_space (xa_ID cfg)
      in if i = '''' then Inl EmptyID
         else case xa_CA cfg of
                None \<Rightarrow> Inl (NoImplementation i)
              | Some (name, issue) \<Rightarrow>
                  if map_of (xr_byID reg) i \<noteq> None then Inl (DuplicateID i)
                  else (let typ = (if trim_space (xa_Type cfg) = '''' then name else trim_space (xa_Type cfg));
                            meta = \<lparr>xm_ID = i, xm_Type = typ, xm_Name = name, xm_Status = ''available''\<rparr>;
                            svc = \<lparr>sv_ca = issue, sv_audited = audited, sv_outboxAuthorityID = i\<rparr>
                        in register_all audited cfgs
                             (reg\<lparr>xr_byID := (i, meta, svc) # xr_byID reg, xr_items := xr_items reg @ [meta]\<rparr>)))"

definition buildExternalCAService :: "bool \<Rightarrow> 'c ExternalCA list \<Rightarrow> registry_error + 'c externalCARegistry" where
  "buildExternalCAService audited cfgs =
     (case register_all audited cfgs \<lparr>xr_items = [], xr_byID = []\<rparr> of
        Inl e \<Rightarrow> Inl e
      | Inr reg \<Rightarrow> Inr (reg\<lparr>xr_items := sort_key xm_ID (xr_items reg)\<rparr>))"

definition ListExternalCAs :: "'c externalCARegistry \<Rightarrow> ExternalCA_meta list" where
  "ListExternalCAs reg = xr_items reg"

record ExternalCAIssueRequest =
  xq_CSRDER :: "der option"
  xq_DNSNames :: "string list"
  xq_TTLSeconds :: int
  xq_ProfileName :: string
  xq_RequestedEKUs :: "string list"

definition service_key :: "string \<Rightarrow> string \<Rightarrow> string" where
  "service_key key i = key @ '':external-ca:'' @ i"

definition IssueExternalCA ::
  "issue_env \<Rightarrow> issue_lib \<Rightarrow> ('a, 'p) netip \<Rightarrow> 'c externalCARegistry \<Rightarrow> 'c drain \<Rightarrow> string \<Rightarrow> string \<Rightarrow> string
     \<Rightarrow> ExternalCAIssueRequest \<Rightarrow> 'c issue_state \<Rightarrow> 'c issue_state \<times> (issue_error + Certificate)" where
  "IssueExternalCA env lib ni reg drain tn i0 key req st =
     (let i = trim_space i0
      in case map_of (xr_byID reg) i of
           None \<Rightarrow> (st, Inl (ExternalCANotFound i))
         | Some (meta, svc) \<Rightarrow>
             if tn = '''' then (st, Inl (ExternalCAInvalid ''missing tenant''))
             else if key = '''' then (st, Inl (ExternalCAInvalid ''missing idempotency key''))
             else case xq_CSRDER req of
                    None \<Rightarrow> (st, Inl (ExternalCAInvalid ''csr_pem is required''))
                  | Some csr \<Rightarrow>
                      if xq_DNSNames req = [] then (st, Inl (ExternalCAInvalid ''dns_names is required''))
                      else if xq_TTLSeconds req < 0 then (st, Inl (ExternalCAInvalid ''ttl_seconds cannot be negative''))
                      else (case Issue env lib ni svc drain
                                   \<lparr>ir_TenantID = tn, ir_CSR = csr, ir_DNSNames = xq_DNSNames req, ir_TTL = ttl_duration (xq_TTLSeconds req),
                                    ir_ProviderIdempotencyKey = '''', ir_ProfileName = xq_ProfileName req, ir_Protocol = ''api'',
                                    ir_RequestedEKUs = xq_RequestedEKUs req\<rparr> (service_key key i) st of
                              (st1, Inl e) \<Rightarrow> (st1, Inl ExternalCAUpstream)
                            | (st1, Inr cert) \<Rightarrow> (st1, Inr cert)))"

definition DeliverExternalCAIssue ::
  "issue_env \<Rightarrow> issue_lib \<Rightarrow> 'c externalCARegistry \<Rightarrow> issue_payload entry \<Rightarrow> 'c issue_state \<Rightarrow> 'c issue_state \<times> issue_error option" where
  "DeliverExternalCAIssue env lib reg m st =
     (case decode_payload (en_Payload m) of
        None \<Rightarrow> (st, Some PayloadDecode)
      | Some payload \<Rightarrow>
          (case map_of (xr_byID reg) (ep_AuthorityID payload) of
             None \<Rightarrow> (st, Some (AuthorityNotConfigured (ep_AuthorityID payload)))
           | Some (meta, svc) \<Rightarrow> DeliverExternalIssue env lib svc m st))"

section \<open>At most one certificate per key\<close>

definition on_record :: "'c issue_state \<Rightarrow> string \<times> string \<Rightarrow> bool" where
  "on_record st k = (\<exists>r. is_keys st k = Some (KeyCompleted r))"

definition issue_inv :: "'c issue_state \<Rightarrow> bool" where
  "issue_inv st =
     (\<forall>k. count_list (iw_minted (is_world st)) k \<le> count_list (iw_faults (is_world st)) k + (if on_record st k then 1 else 0))"

text \<open>What every step of the service keeps: the invariant, and each result once recorded, except where a fault is noted.\<close>

definition keeps :: "'c issue_state \<Rightarrow> 'c issue_state \<Rightarrow> bool" where
  "keeps st st' =
     ((issue_inv st \<longrightarrow> issue_inv st')
      \<and> (\<exists>fs. iw_faults (is_world st') = iw_faults (is_world st) @ fs
           \<and> (\<forall>k r. k \<notin> set fs \<longrightarrow> is_keys st k = Some (KeyCompleted r) \<longrightarrow> is_keys st' k = Some (KeyCompleted r))))"

lemma keeps_same:
  "is_keys st' = is_keys st \<Longrightarrow> iw_minted (is_world st') = iw_minted (is_world st) \<Longrightarrow>
   iw_faults (is_world st') = iw_faults (is_world st) \<Longrightarrow> keeps st st'"
  by (simp add: keeps_def issue_inv_def on_record_def)

lemma keeps_refl [simp]: "keeps st st"
  by (simp add: keeps_same)

lemma keeps_trans:
  assumes "keeps a b" and "keeps b c"
  shows "keeps a c"
proof -
  obtain fs where fs: "iw_faults (is_world b) = iw_faults (is_world a) @ fs"
    "\<And>k r. k \<notin> set fs \<Longrightarrow> is_keys a k = Some (KeyCompleted r) \<Longrightarrow> is_keys b k = Some (KeyCompleted r)"
    using assms(1) unfolding keeps_def by blast
  obtain gs where gs: "iw_faults (is_world c) = iw_faults (is_world b) @ gs"
    "\<And>k r. k \<notin> set gs \<Longrightarrow> is_keys b k = Some (KeyCompleted r) \<Longrightarrow> is_keys c k = Some (KeyCompleted r)"
    using assms(2) unfolding keeps_def by blast
  have "iw_faults (is_world c) = iw_faults (is_world a) @ (fs @ gs)"
    "\<forall>k r. k \<notin> set (fs @ gs) \<longrightarrow> is_keys a k = Some (KeyCompleted r) \<longrightarrow> is_keys c k = Some (KeyCompleted r)"
    using fs gs by simp_all
  then show ?thesis using assms unfolding keeps_def by blast
qed

lemma auditDecision_keeps: "auditDecision env s req v d st = (st', r) \<Longrightarrow> keeps st st'"
  by (auto simp: auditDecision_def intro: keeps_same split: if_splits)

lemma enforceProfile_keeps: "enforceProfile env lib ni s req st = (st', r) \<Longrightarrow> keeps st st'"
  by (auto simp: enforceProfile_def dest: auditDecision_keeps split: if_splits option.splits prod.splits)

lemma enqueue_issue_keeps: "enqueue_issue env tn key p st = (st', r) \<Longrightarrow> keeps st st'"
  by (auto simp: enqueue_issue_def intro: keeps_same split: if_splits)

lemma mint_minted:
  assumes "mint env lib s tn tk key req w = (w', r)"
  shows "iw_faults w' = iw_faults w"
    and "(\<exists>b. r = Inr b) \<and> iw_minted w' = iw_minted w @ [(tn, tk)]
      \<or> (\<exists>e. r = Inl e) \<and> (iw_minted w' = iw_minted w \<or> \<not> ie_record_ok env \<and> iw_minted w' = iw_minted w @ [(tn, tk)])"
  using assms by (auto simp: mint_def record_issue_def split: prod.splits sum.splits if_splits)

lemma note_fault_fields [simp]:
  "iw_minted (note_fault env k w) = iw_minted w"
  "iw_faults (note_fault env k w) = iw_faults w @ (if ie_record_ok env \<and> ie_commit_ok env then [] else [k])"
  by (simp_all add: note_fault_def)

text \<open>One guarded call: it mints at most once, only while no result is stored, and without a fault it stores the result.\<close>

lemma guarded_effect:
  assumes "guarded env tn tk (mint env lib s tn tk key req) st = (st', r)"
  shows "\<exists>ms fs. iw_minted (is_world st') = iw_minted (is_world st) @ ms \<and> iw_faults (is_world st') = iw_faults (is_world st) @ fs
    \<and> (ms = [] \<or> ms = [(tn, tk)] \<and> \<not> on_record st (tn, tk)) \<and> (fs = [] \<or> fs = [(tn, tk)])
    \<and> (ms \<noteq> [] \<and> fs = [] \<longrightarrow> on_record st' (tn, tk))
    \<and> (\<forall>k r. is_keys st k = Some (KeyCompleted r) \<longrightarrow> is_keys st' k = Some (KeyCompleted r))"
proof (cases "is_keys st (tn, tk)")
  case None
  let ?fs = "if ie_record_ok env \<and> ie_commit_ok env then [] else [(tn, tk)]"
  obtain w' res where m: "mint env lib s tn tk key req (is_world st) = (w', res)" by (meson surj_pair)
  have no: "\<not> on_record st (tn, tk)" by (simp add: on_record_def None)
  from mint_minted [OF m] show ?thesis
  proof (elim disjE conjE exE)
    fix b assume b: "iw_faults w' = iw_faults (is_world st)" "res = Inr b" "iw_minted w' = iw_minted (is_world st) @ [(tn, tk)]"
    have st': "st' = st\<lparr>is_keys := (if ie_commit_ok env then (is_keys st)((tn, tk) \<mapsto> KeyCompleted b) else is_keys st),
        is_world := note_fault env (tn, tk) w'\<rparr>"
      using None m assms b(2) by (auto simp: guarded_def Do_def)
    show ?thesis
      by (intro exI [of _ "[(tn, tk)]"] exI [of _ ?fs]) (use b no None in \<open>auto simp: st' on_record_def\<close>)
  next
    fix e assume e: "iw_faults w' = iw_faults (is_world st)" "res = Inl e" "iw_minted w' = iw_minted (is_world st)"
    have "st' = st\<lparr>is_world := note_fault env (tn, tk) w'\<rparr>" using None m assms e(2) by (auto simp: guarded_def Do_def)
    then show ?thesis by (intro exI [of _ "[]"] exI [of _ ?fs]) (use e in auto)
  next
    fix e assume e: "iw_faults w' = iw_faults (is_world st)" "res = Inl e" "\<not> ie_record_ok env" "iw_minted w' = iw_minted (is_world st) @ [(tn, tk)]"
    have "st' = st\<lparr>is_world := note_fault env (tn, tk) w'\<rparr>" using None m assms e(2) by (auto simp: guarded_def Do_def)
    then show ?thesis by (intro exI [of _ "[(tn, tk)]"] exI [of _ ?fs]) (use e no in auto)
  qed
next
  case (Some k)
  let ?fs = "if ie_record_ok env \<and> ie_commit_ok env then [] else [(tn, tk)]"
  have "st' = st\<lparr>is_world := note_fault env (tn, tk) (is_world st)\<rparr>"
    using Some assms by (cases k) (auto simp: guarded_def Do_def)
  then show ?thesis by (intro exI [of _ "[]"] exI [of _ ?fs]) auto
qed

lemma guarded_keeps:
  assumes "guarded env tn tk (mint env lib s tn tk key req) st = (st', r)"
  shows "keeps st st'"
proof -
  from guarded_effect [OF assms] obtain ms fs where
    ms: "iw_minted (is_world st') = iw_minted (is_world st) @ ms" "ms = [] \<or> ms = [(tn, tk)] \<and> \<not> on_record st (tn, tk)"
    and fs: "iw_faults (is_world st') = iw_faults (is_world st) @ fs" "fs = [] \<or> fs = [(tn, tk)]"
    and rec: "ms \<noteq> [] \<and> fs = [] \<longrightarrow> on_record st' (tn, tk)"
    and keep: "\<And>k r. is_keys st k = Some (KeyCompleted r) \<Longrightarrow> is_keys st' k = Some (KeyCompleted r)" by blast
  have mono: "on_record st k \<Longrightarrow> on_record st' k" for k using keep unfolding on_record_def by blast
  have "issue_inv st'" if inv: "issue_inv st"
    unfolding issue_inv_def
  proof
    fix k
    have old: "count_list (iw_minted (is_world st)) k \<le> count_list (iw_faults (is_world st)) k + (if on_record st k then 1 else 0)"
      using inv unfolding issue_inv_def by blast
    have "count_list ms k + (if on_record st k then 1 else 0) \<le> count_list fs k + (if on_record st' k then 1 else 0)"
      using ms(2) fs(2) rec mono [of k] by (cases "k = (tn, tk)") auto
    with old show "count_list (iw_minted (is_world st')) k \<le> count_list (iw_faults (is_world st')) k + (if on_record st' k then 1 else 0)"
      unfolding ms(1) fs(1) count_list_append by linarith
  qed
  with fs(1) keep show ?thesis unfolding keeps_def by blast
qed

lemma Deliver_keeps: "DeliverExternalIssue env lib s m st = (st', r) \<Longrightarrow> keeps st st'"
  by (auto simp: DeliverExternalIssue_def Let_def dest: guarded_keeps split: if_splits option.splits prod.splits sum.splits)

lemma DeliverCA_keeps: "DeliverExternalCAIssue env lib reg m st = (st', r) \<Longrightarrow> keeps st st'"
  by (auto simp: DeliverExternalCAIssue_def dest: Deliver_keeps split: option.splits)

text \<open>A drain delivers some messages, each in its own environment, and may report a failure.\<close>

definition deliver_all ::
  "issue_lib \<Rightarrow> 'c externalCARegistry \<Rightarrow> (issue_env \<times> issue_payload entry) list \<Rightarrow> bool \<Rightarrow> 'c issue_state \<Rightarrow> 'c issue_state \<times> issue_error option" where
  "deliver_all lib reg ms ok st =
     (fold (\<lambda>(env, m) s. fst (DeliverExternalCAIssue env lib reg m s)) ms st, if ok then None else Some DrainFailed)"

lemma deliver_all_keeps: "keeps st (fst (deliver_all lib reg ms ok st))"
proof (induction ms arbitrary: st)
  case (Cons em ms)
  obtain env m where em: "em = (env, m)" by (cases em)
  let ?st1 = "fst (DeliverExternalCAIssue env lib reg m st)"
  have "keeps st ?st1" by (rule DeliverCA_keeps [OF prod.collapse [symmetric]])
  moreover have "keeps ?st1 (fst (deliver_all lib reg ms ok ?st1))" by (rule Cons.IH)
  moreover have "fst (deliver_all lib reg (em # ms) ok st) = fst (deliver_all lib reg ms ok ?st1)" by (simp add: deliver_all_def em)
  ultimately show ?case using keeps_trans by metis
qed (simp add: deliver_all_def)

lemma issueViaOutbox_keeps:
  assumes "issueViaOutbox env lib s (Some (deliver_all lib reg ms ok)) req key st = (st', r)"
  shows "keeps st st'"
proof -
  obtain st1 q where e: "enqueue_issue env (ir_TenantID req) key (IssuePayload (newExternalIssuePayload (sv_outboxAuthorityID s) req)) st = (st1, q)"
    by (meson surj_pair)
  have "keeps st st1" by (rule enqueue_issue_keeps [OF e])
  moreover have "st' = st1 \<or> st' = fst (deliver_all lib reg ms ok st1)"
    using assms e by (auto simp: issueViaOutbox_def split: option.splits prod.splits sum.splits)
  ultimately show ?thesis using deliver_all_keeps keeps_trans by metis
qed

lemma Issue_keeps:
  assumes "Issue env lib ni s (Some (deliver_all lib reg ms ok)) req key st = (st', r)"
  shows "keeps st st'"
proof -
  obtain st1 q where e: "enforceProfile env lib ni s req st = (st1, q)" by (meson surj_pair)
  have "keeps st1 st'"
    using assms e
    by (auto simp: Issue_def Let_def recordIntent_def split: option.splits if_splits prod.splits sum.splits
        dest!: issueViaOutbox_keeps guarded_keeps enqueue_issue_keeps intro: keeps_trans)
  with enforceProfile_keeps [OF e] show ?thesis by (rule keeps_trans)
qed

lemma IssueExternalCA_keeps:
  "IssueExternalCA env lib ni reg (Some (deliver_all lib reg ms ok)) tn i key req st = (st', r) \<Longrightarrow> keeps st st'"
  by (auto simp: IssueExternalCA_def Let_def dest!: Issue_keeps split: option.splits if_splits prod.splits sum.splits)

text \<open>
  Runs of the deployment: requests with the deliveries their drains perform, deliveries by other workers,
  anything that happens to the rows of the outbox (claims, retries, the retention sweep) and to the
  profiles, and the retention sweep of the idempotency table, in any order. Records and commits may fail at any time.
\<close>

inductive issue_step :: "issue_lib \<Rightarrow> ('a, 'p) netip \<Rightarrow> 'c externalCARegistry \<Rightarrow> 'c issue_state \<Rightarrow> 'c issue_state \<Rightarrow> bool"
  for lib ni reg where
  request: "IssueExternalCA env lib ni reg (Some (deliver_all lib reg ms ok)) tn i key req st = (st', r) \<Longrightarrow> issue_step lib ni reg st st'"
| delivery: "DeliverExternalCAIssue env lib reg m st = (st', r) \<Longrightarrow> issue_step lib ni reg st st'"
| rows: "issue_step lib ni reg st (st\<lparr>is_world := (is_world st)\<lparr>iw_outbox := t\<rparr>\<rparr>)"
| profiles: "issue_step lib ni reg st (st\<lparr>is_profiles := ps\<rparr>)"
| retention: "issue_step lib ni reg st
    (st\<lparr>is_keys := (is_keys st)(k := None), is_world := (is_world st)\<lparr>iw_faults := iw_faults (is_world st) @ [k]\<rparr>\<rparr>)"

lemma retention_keeps:
  "keeps st (st\<lparr>is_keys := (is_keys st)(k := None), is_world := (is_world st)\<lparr>iw_faults := iw_faults (is_world st) @ [k]\<rparr>\<rparr>)"
proof -
  let ?st = "st\<lparr>is_keys := (is_keys st)(k := None), is_world := (is_world st)\<lparr>iw_faults := iw_faults (is_world st) @ [k]\<rparr>\<rparr>"
  have "issue_inv ?st" if inv: "issue_inv st"
    unfolding issue_inv_def
  proof
    fix j
    have "count_list (iw_minted (is_world st)) j \<le> count_list (iw_faults (is_world st)) j + (if on_record st j then 1 else 0)"
      using inv unfolding issue_inv_def by blast
    moreover have "on_record ?st j = (j \<noteq> k \<and> on_record st j)" by (auto simp: on_record_def)
    ultimately show "count_list (iw_minted (is_world ?st)) j \<le> count_list (iw_faults (is_world ?st)) j + (if on_record ?st j then 1 else 0)"
      by (auto split: if_splits)
  qed
  then show ?thesis unfolding keeps_def by (intro conjI exI [of _ "[k]"]) auto
qed

lemma issue_step_keeps: "issue_step lib ni reg st st' \<Longrightarrow> keeps st st'"
  by (induction rule: issue_step.induct) (auto intro: keeps_same retention_keeps dest: IssueExternalCA_keeps DeliverCA_keeps)

lemma issue_run_keeps: "(issue_step lib ni reg)\<^sup>*\<^sup>* st st' \<Longrightarrow> keeps st st'"
  by (induction rule: rtranclp_induct) (auto intro: keeps_trans issue_step_keeps)

definition issue_init :: "'c \<Rightarrow> 'c issue_state" where
  "issue_init c = \<lparr>is_keys = Map.empty, is_world = \<lparr>iw_outbox = empty_outbox, iw_ca = c, iw_minted = [], iw_faults = []\<rparr>, is_profiles = [], is_audit = []\<rparr>"


section \<open>Replays and profiles\<close>

definition registry_ok :: "bool \<Rightarrow> 'c externalCARegistry \<Rightarrow> bool" where
  "registry_ok audited reg =
     (\<forall>(i, meta, svc) \<in> set (xr_byID reg). sv_outboxAuthorityID svc = i \<and> i \<noteq> '''' \<and> sv_audited svc = audited)"

lemma register_all_authority: "register_all audited cfgs reg = Inr reg' \<Longrightarrow> registry_ok audited reg \<Longrightarrow> registry_ok audited reg'"
proof (induction cfgs arbitrary: reg)
  case (Cons cfg cfgs)
  let ?i = "trim_space (xa_ID cfg)"
  from Cons.prems(1) obtain name issue where ca: "xa_CA cfg = Some (name, issue)" "?i \<noteq> ''''" "map_of (xr_byID reg) ?i = None"
    by (cases "map_of (xr_byID reg) ?i") (auto simp: Let_def split: if_splits option.splits)
  define meta where "meta = \<lparr>xm_ID = ?i, xm_Type = (if trim_space (xa_Type cfg) = '''' then name else trim_space (xa_Type cfg)),
    xm_Name = name, xm_Status = ''available''\<rparr>"
  define svc where "svc = \<lparr>sv_ca = issue, sv_audited = audited, sv_outboxAuthorityID = ?i\<rparr>"
  have "register_all audited cfgs (reg\<lparr>xr_byID := (?i, meta, svc) # xr_byID reg, xr_items := xr_items reg @ [meta]\<rparr>) = Inr reg'"
    using Cons.prems(1) ca unfolding meta_def svc_def by (simp add: Let_def cong: if_cong)
  then show ?case by (rule Cons.IH) (use Cons.prems(2) ca(2) in \<open>simp add: registry_ok_def svc_def\<close>)
qed simp

lemma registry_authority:
  assumes "buildExternalCAService audited cfgs = Inr reg" and "map_of (xr_byID reg) i = Some (meta, svc)"
  shows "sv_outboxAuthorityID svc = i" and "i \<noteq> ''''" and "sv_audited svc = audited"
proof -
  obtain reg0 where r: "register_all audited cfgs \<lparr>xr_items = [], xr_byID = []\<rparr> = Inr reg0" "xr_byID reg = xr_byID reg0"
    using assms(1) by (auto simp: buildExternalCAService_def split: sum.splits)
  have "registry_ok audited reg0" by (rule register_all_authority [OF r(1)]) (simp add: registry_ok_def)
  with map_of_SomeD [OF assms(2)] r(2) show "sv_outboxAuthorityID svc = i" "i \<noteq> ''''" "sv_audited svc = audited" by (auto simp: registry_ok_def)
qed

text \<open>A successful request of a served authority has passed the profile gate and returns the recorded result.\<close>

lemma IssueExternalCA_Inr:
  assumes "IssueExternalCA env lib ni reg drain tn i key req st = (st', Inr cert)" and "buildExternalCAService audited cfgs = Inr reg"
  obtains svc csr st1 raw where "xq_CSRDER req = Some csr"
    "enforceProfile env lib ni svc \<lparr>ir_TenantID = tn, ir_CSR = csr, ir_DNSNames = xq_DNSNames req, ir_TTL = ttl_duration (xq_TTLSeconds req),
       ir_ProviderIdempotencyKey = '''', ir_ProfileName = xq_ProfileName req, ir_Protocol = ''api'',
       ir_RequestedEKUs = xq_RequestedEKUs req\<rparr> st = (st1, None)"
    "is_keys st' (tn, externalIssueResultKey (service_key key (trim_space i))) = Some (KeyCompleted raw)" "il_unmarshal lib raw = Some cert"
proof -
  let ?req = "\<lambda>csr. \<lparr>ir_TenantID = tn, ir_CSR = csr, ir_DNSNames = xq_DNSNames req, ir_TTL = ttl_duration (xq_TTLSeconds req),
       ir_ProviderIdempotencyKey = '''', ir_ProfileName = xq_ProfileName req, ir_Protocol = ''api'', ir_RequestedEKUs = xq_RequestedEKUs req\<rparr>"
  let ?key = "service_key key (trim_space i)"
  from assms(1) obtain meta svc csr where svc: "map_of (xr_byID reg) (trim_space i) = Some (meta, svc)" "xq_CSRDER req = Some csr"
    "Issue env lib ni svc drain (?req csr) ?key st = (st', Inr cert)"
    by (auto simp: IssueExternalCA_def Let_def split: option.splits if_splits prod.splits sum.splits)
  note authority = registry_authority [OF assms(2) svc(1)]
  from svc(3) authority obtain st1 where gate: "enforceProfile env lib ni svc (?req csr) st = (st1, None)"
    and out: "issueViaOutbox env lib svc drain ((?req csr)\<lparr>ir_ProviderIdempotencyKey := ProviderIdempotencyKey (il_hex lib) ?key\<rparr>) ?key st1 = (st', Inr cert)"
    by (auto simp: Issue_def Let_def split: option.splits prod.splits)
  from out obtain raw where "(Result tn (externalIssueResultKey ?key) (is_keys st') :: unit idem_error + bytes) = Inr raw" "il_unmarshal lib raw = Some cert"
    by (auto simp: issueViaOutbox_def unmarshal_certificate_def split: option.splits prod.splits sum.splits)
  then show thesis using that [OF svc(2) gate] by (auto simp: Result_def split: option.splits key_status.splits)
qed

text \<open>once a request for a tenant, authority and key has returned a certificate, every later request with the
  same tenant, authority and key that returns a certificate returns the same one, whatever else it asks
  for and whatever happened in between, unless a record or commit failed or a result was swept.\<close>

theorem external_issue_stable:
  assumes "buildExternalCAService audited cfgs = Inr reg"
    and "IssueExternalCA env lib ni reg drain tn i key req st = (st1, Inr cert)"
    and "(issue_step lib ni reg)\<^sup>*\<^sup>* st1 st2"
    and "IssueExternalCA env' lib ni reg (Some (deliver_all lib reg ms ok)) tn i key req' st2 = (st3, Inr cert')"
    and "iw_faults (is_world st3) = iw_faults (is_world st1)"
  shows "cert' = cert"
proof -
  let ?k = "(tn, externalIssueResultKey (service_key key (trim_space i)))"
  obtain raw where raw: "is_keys st1 ?k = Some (KeyCompleted raw)" "il_unmarshal lib raw = Some cert"
    by (rule IssueExternalCA_Inr [OF assms(2,1)])
  obtain raw' where raw': "is_keys st3 ?k = Some (KeyCompleted raw')" "il_unmarshal lib raw' = Some cert'"
    by (rule IssueExternalCA_Inr [OF assms(4,1)])
  have "keeps st1 st3" using keeps_trans [OF issue_run_keeps [OF assms(3)] IssueExternalCA_keeps [OF assms(4)]] .
  with raw(1) assms(5) have "is_keys st3 ?k = Some (KeyCompleted raw)" by (auto simp: keeps_def)
  with raw raw' show ?thesis by simp
qed

lemma guarded_audit: "guarded env tn tk fn st = (st', r) \<Longrightarrow> is_audit st' = is_audit st"
  by (auto simp: guarded_def split: prod.splits)

lemma DeliverExternalCAIssue_audit: "DeliverExternalCAIssue env lib reg m st = (st', r) \<Longrightarrow> is_audit st' = is_audit st"
  by (auto simp: DeliverExternalCAIssue_def DeliverExternalIssue_def Let_def dest: guarded_audit
      split: if_splits option.splits prod.splits sum.splits)

lemma deliver_all_audit: "is_audit (fst (deliver_all lib reg ms ok st)) = is_audit st"
proof (induction ms arbitrary: st)
  case (Cons em ms)
  obtain env m where em: "em = (env, m)" by (cases em)
  show ?case
    using Cons [of "fst (DeliverExternalCAIssue env lib reg m st)"] DeliverExternalCAIssue_audit [OF prod.collapse [symmetric]]
    by (simp add: deliver_all_def em)
qed (simp add: deliver_all_def)

lemma issueViaOutbox_audit:
  assumes "issueViaOutbox env lib s (Some (deliver_all lib reg ms ok)) req key st = (st', r)"
  shows "is_audit st' = is_audit st"
proof -
  obtain st1 q where e: "enqueue_issue env (ir_TenantID req) key (IssuePayload (newExternalIssuePayload (sv_outboxAuthorityID s) req)) st = (st1, q)"
    by (meson surj_pair)
  then have "is_audit st1 = is_audit st" by (auto simp: enqueue_issue_def split: if_splits)
  moreover have "st' = st1 \<or> st' = fst (deliver_all lib reg ms ok st1)"
    using assms e by (auto simp: issueViaOutbox_def split: option.splits prod.splits sum.splits)
  ultimately show ?thesis using deliver_all_audit by metis
qed

text \<open>A served request that returns a certificate leaves in the audit log what its profile gate decided.\<close>

lemma IssueExternalCA_gate:
  assumes "buildExternalCAService audited cfgs = Inr reg"
    and "IssueExternalCA env lib ni reg (Some (deliver_all lib reg ms ok)) tn i key req st = (st', Inr cert)"
  obtains svc csr st1 where "xq_CSRDER req = Some csr" "sv_audited svc = audited" "is_audit st' = is_audit st1"
    "enforceProfile env lib ni svc \<lparr>ir_TenantID = tn, ir_CSR = csr, ir_DNSNames = xq_DNSNames req, ir_TTL = ttl_duration (xq_TTLSeconds req),
       ir_ProviderIdempotencyKey = '''', ir_ProfileName = xq_ProfileName req, ir_Protocol = ''api'',
       ir_RequestedEKUs = xq_RequestedEKUs req\<rparr> st = (st1, None)"
proof -
  let ?req = "\<lambda>csr. \<lparr>ir_TenantID = tn, ir_CSR = csr, ir_DNSNames = xq_DNSNames req, ir_TTL = ttl_duration (xq_TTLSeconds req),
       ir_ProviderIdempotencyKey = '''', ir_ProfileName = xq_ProfileName req, ir_Protocol = ''api'', ir_RequestedEKUs = xq_RequestedEKUs req\<rparr>"
  let ?key = "service_key key (trim_space i)"
  from assms(2) obtain meta svc csr where svc: "map_of (xr_byID reg) (trim_space i) = Some (meta, svc)" "xq_CSRDER req = Some csr"
    "Issue env lib ni svc (Some (deliver_all lib reg ms ok)) (?req csr) ?key st = (st', Inr cert)"
    by (auto simp: IssueExternalCA_def Let_def split: option.splits if_splits prod.splits sum.splits)
  note authority = registry_authority [OF assms(1) svc(1)]
  from svc(3) authority obtain st1 where gate: "enforceProfile env lib ni svc (?req csr) st = (st1, None)"
    and out: "issueViaOutbox env lib svc (Some (deliver_all lib reg ms ok))
      ((?req csr)\<lparr>ir_ProviderIdempotencyKey := ProviderIdempotencyKey (il_hex lib) ?key\<rparr>) ?key st1 = (st', Inr cert)"
    by (auto simp: Issue_def Let_def split: option.splits prod.splits)
  show thesis by (rule that [OF svc(2) authority(3) issueViaOutbox_audit [OF out] gate])
qed

text \<open>What the gate audits when it lets a request pass.\<close>

definition audited_as :: "bool \<Rightarrow> string \<Rightarrow> string \<Rightarrow> int \<Rightarrow> string \<Rightarrow> 'c issue_state \<Rightarrow> 'c issue_state \<Rightarrow> bool" where
  "audited_as audited tn name version decision st st' =
     (is_audit st' = is_audit st @ (if audited then [\<lparr>pd_TenantID = tn, pd_Profile = name, pd_Version = version,
        pd_Decision = decision, pd_Protocol = ''api''\<rparr>] else []))"

lemma auditDecision_passes:
  "auditDecision env s req v d st = (st1, None) \<Longrightarrow> ir_Protocol req = ''api'' \<Longrightarrow>
   audited_as (sv_audited s) (ir_TenantID req) (ir_ProfileName req) v d st st1"
  by (auto simp: auditDecision_def audited_as_def split: if_splits)


section \<open>A deployment\<close>

definition demo_lib :: issue_lib where
  "demo_lib = \<lparr>il_key = (\<lambda>_. Some (''ECDSA'', 256)), il_hex = (\<lambda>k. k), il_marshal = ct_Serial,
     il_unmarshal = (\<lambda>b. Some \<lparr>ct_CertificatePEM = [], ct_Serial = b, ct_NotAfter = 0, ct_Issuer = ''x''\<rparr>)\<rparr>"

definition demo_authority :: "IssueRequest \<Rightarrow> nat \<Rightarrow> nat \<times> (string + Certificate)" where
  "demo_authority req n =
     (Suc n, Inr \<lparr>ct_CertificatePEM = [], ct_Serial = ''s'' @ replicate n CHR ''1'', ct_NotAfter = 0, ct_Issuer = ''x''\<rparr>)"

definition demo_cfg :: "nat ExternalCA list" where
  "demo_cfg = [\<lparr>xa_ID = ''x'', xa_Type = '''', xa_CA = Some (''X'', demo_authority)\<rparr>]"

definition demo_registry :: "nat externalCARegistry" where
  "demo_registry = projr (buildExternalCAService True demo_cfg)"

definition demo_issue_env :: "bool \<Rightarrow> issue_env" where
  "demo_issue_env recorded = \<lparr>ie_now = 5, ie_lookup_ok = True, ie_append_ok = True, ie_enqueue_ok = True, ie_record_ok = recorded,
     ie_commit_ok = True\<rparr>"

definition demo_request :: "string \<Rightarrow> int \<Rightarrow> ExternalCAIssueRequest" where
  "demo_request prof ttl = \<lparr>xq_CSRDER = Some (demo_csr [''www.corp.example'']), xq_DNSNames = [''www.corp.example''],
     xq_TTLSeconds = ttl, xq_ProfileName = prof, xq_RequestedEKUs = []\<rparr>"

text \<open>The message of a request's row.\<close>

definition demo_message :: "string \<Rightarrow> int \<Rightarrow> issue_payload entry" where
  "demo_message key ttl = \<lparr>en_TenantID = ''t1'', en_Destination = ''external-ca.issue'', en_IdempotencyKey = service_key key ''x'',
     en_Payload = IssuePayload \<lparr>ep_AuthorityID = ''x'', ep_TenantID = ''t1'', ep_CSR = demo_csr [''www.corp.example''],
       ep_DNSNames = [''www.corp.example''], ep_TTLNanos = ttl_duration ttl, ep_ProviderIdempotencyKey = '''', ep_ProfileName = '''',
       ep_Protocol = ''api'', ep_RequestedEKUs = []\<rparr>\<rparr>"

definition demo_issue :: "string \<Rightarrow> int \<Rightarrow> nat issue_state \<Rightarrow> nat issue_state \<times> (issue_error + Certificate)" where
  "demo_issue prof ttl st =
     IssueExternalCA (demo_issue_env True) demo_lib demo_netip demo_registry
       (Some (deliver_all demo_lib demo_registry [(demo_issue_env True, demo_message ''k'' ttl)] True)) ''t1'' ''x'' ''k'' (demo_request prof ttl) st"

definition demo_profile :: ProfileRecord where
  "demo_profile = \<lparr>pf_TenantID = ''t1'', pf_Name = ''day'', pf_Version = 1,
     pf_Spec = Some \<lparr>cp_Name = ''day'', cp_Version = 1, cp_RequiresApproval = False, cp_AllowedKeyAlgorithms = [], cp_MinRSABits = 0,
       cp_MinECDSABits = 0, cp_AllowedEKUs = [], cp_MaxValidity = 24 * hour, cp_AllowedProtocols = [], cp_ACMEAuthMode = '''',
       cp_AllowedDNSSuffixes = [], cp_AllowedIPCIDRs = [], cp_AllowedEmailDomains = [], cp_AllowedURIPrefixes = []\<rparr>,
     pf_Active = True\<rparr>"

definition demo_issue_state :: "nat issue_state" where
  "demo_issue_state = (issue_init 0)\<lparr>is_profiles := [demo_profile]\<rparr>"

lemma demo_registry_built: "buildExternalCAService True demo_cfg = Inr demo_registry"
proof -
  have "is_ok (buildExternalCAService True demo_cfg)" by code_simp
  then show ?thesis by (auto simp: is_ok_iff demo_registry_def)
qed

lemma demo_issue_step: "issue_step demo_lib demo_netip demo_registry st (fst (demo_issue prof ttl st))"
  unfolding demo_issue_def
  by (rule issue_step.request [OF prod.collapse [symmetric]])

definition first_cert :: Certificate where
  "first_cert = \<lparr>ct_CertificatePEM = [], ct_Serial = ''s'', ct_NotAfter = 0, ct_Issuer = ''x''\<rparr>"


theorem external_issue_stable_witness:
  "snd (demo_issue '''' 60 (issue_init 0)) = Inr first_cert
   \<and> snd (demo_issue '''' 90 (fst (demo_issue '''' 60 (issue_init 0)))) = Inr first_cert"
proof -
  let ?r = "demo_issue '''' 60 (issue_init 0)" and ?q = "demo_issue '''' 90 (fst (demo_issue '''' 60 (issue_init 0)))"
  have one: "snd ?r = Inr first_cert" by code_simp
  have "is_ok (snd ?q)" by code_simp
  then obtain c where two: "snd ?q = Inr c" by (auto simp: is_ok_iff)
  from one have run1: "?r = (fst ?r, Inr first_cert)" by (simp add: prod_eq_iff)
  from two have run2: "?q = (fst ?q, Inr c)" by (simp add: prod_eq_iff)
  have ok: "iw_faults (is_world (fst ?q)) = iw_faults (is_world (fst ?r))" by code_simp
  have "c = first_cert"
    by (rule external_issue_stable [OF demo_registry_built run1 [unfolded demo_issue_def] rtranclp.rtrancl_refl
          run2 [unfolded demo_issue_def] ok [unfolded demo_issue_def]])
  with one two show ?thesis by simp
qed


section \<open>Shown by the model\<close>

text \<open>
  A request that names a profile the tenant does not have is audited as denied, and the certificate is
  issued: \<^verbatim>\<open>enforceProfile\<close> returns the outcome of the audit append.
\<close>

theorem missing_profile_is_ignored:
  "snd (demo_issue ''absent'' 60 demo_issue_state) = Inr first_cert
   \<and> map pd_Decision (is_audit (fst (demo_issue ''absent'' 60 demo_issue_state))) = [''deny'']"
  by (intro conjI; code_simp)

text \<open>A lifetime that overflows 64 bits passes the ceiling of a one-day profile.\<close>

theorem overflowing_ttl_passes_profile:
  "snd (demo_issue ''day'' 9223372037 demo_issue_state) = Inr first_cert
   \<and> snd (demo_issue ''day'' 86401 demo_issue_state) = Inl ExternalCAUpstream"
  by (intro conjI; code_simp)

text \<open>When the commit fails after the authority has answered, the redelivery mints another certificate.\<close>

theorem failed_commit_mints_twice:
  "let st = fst (DeliverExternalCAIssue ((demo_issue_env True)\<lparr>ie_commit_ok := False\<rparr>) demo_lib demo_registry (demo_message ''k'' 60) (issue_init 0));
       st2 = fst (DeliverExternalCAIssue (demo_issue_env True) demo_lib demo_registry (demo_message ''k'' 60) st)
   in iw_minted (is_world st2) = replicate 2 (''t1'', ''external-ca.issue:k:external-ca:x'') \<and> iw_ca (is_world st2) = 2"
  unfolding Let_def by (intro conjI; code_simp)

text \<open>When the record of a minted certificate cannot be stored, the redelivery mints another one.\<close>

theorem failed_record_mints_twice:
  "let st = fst (DeliverExternalCAIssue (demo_issue_env False) demo_lib demo_registry (demo_message ''k'' 60) (issue_init 0));
       st2 = fst (DeliverExternalCAIssue (demo_issue_env True) demo_lib demo_registry (demo_message ''k'' 60) st)
   in iw_minted (is_world st2) = replicate 2 (''t1'', ''external-ca.issue:k:external-ca:x'') \<and> iw_ca (is_world st2) = 2"
  unfolding Let_def by (intro conjI; code_simp)

end
