(* ===== verification/Signer.thy ===== *)
theory Signer
  imports Prelude "HOL-Library.AList"
begin

text \<open>
  The signing process (\<^verbatim>\<open>internal/signing\<close>) and the dual-control authorizer (\<^verbatim>\<open>internal/crypto/signauth.go\<close>):
  keys held by handle with the uses they are limited to, their sealed files, the checks before a
  signature, and the client that signs through the process.

  Enumerations of the wire protocol are integers, as unknown values pass through them. Handles are valid
  UTF-8 text, which the protocol requires. Key formats, sealing, signing and HMAC are parameters. Each
  call that takes the mutex more than once is one function; its environment says whether the file system
  answers.
\<close>

section \<open>Enumerations\<close>

abbreviation (input) KEY_PURPOSE_UNSPECIFIED :: int where "KEY_PURPOSE_UNSPECIFIED \<equiv> 0"
abbreviation (input) HASH_UNSPECIFIED :: int where "HASH_UNSPECIFIED \<equiv> 0"
abbreviation (input) RSA_PADDING_PSS :: int where "RSA_PADDING_PSS \<equiv> 2"
abbreviation (input) ALGORITHM_UNSPECIFIED :: int where "ALGORITHM_UNSPECIFIED \<equiv> 0"

definition algorithm_table :: "(int \<times> string) list" where
  "algorithm_table =
     [(1, ''RSA-2048''), (2, ''RSA-3072''), (3, ''RSA-4096''), (4, ''ECDSA-P256''), (5, ''ECDSA-P384''), (6, ''ECDSA-P521''),
      (7, ''ML-DSA-44''), (8, ''ML-DSA-65''), (9, ''ML-DSA-87''), (10, ''SLH-DSA-SHA2-128s''), (11, ''SLH-DSA-SHA2-128f''),
      (12, ''SLH-DSA-SHA2-192s''), (13, ''SLH-DSA-SHA2-256s'')]"

datatype signer_error =
    InvalidArgument string | AlreadyExists | NotFoundHandle | FailedPrecondition string | PermissionDenied string | InternalError string
  | NoSignAuthorizer | SecretTooShort

definition algorithmFromProto :: "int \<Rightarrow> signer_error + string" where
  "algorithmFromProto a = (case map_of algorithm_table a of None \<Rightarrow> Inl (InvalidArgument ''unsupported algorithm'') | Some s \<Rightarrow> Inr s)"

definition algorithmToProto :: "string \<Rightarrow> int" where
  "algorithmToProto s =
     (case map_of (map prod.swap algorithm_table) s of None \<Rightarrow> ALGORITHM_UNSPECIFIED | Some a \<Rightarrow> a)"

definition hashFromProto :: "int \<Rightarrow> signer_error + string \<times> nat" where
  "hashFromProto h =
     (if h = 1 then Inr (''SHA-256'', 32) else if h = 2 then Inr (''SHA-384'', 48) else if h = 3 then Inr (''SHA-512'', 64)
      else Inl (InvalidArgument ''unsupported hash''))"

definition paddingFromProto :: "int \<Rightarrow> string" where
  "paddingFromProto p = (if p = RSA_PADDING_PSS then ''PSS'' else ''PKCS1v15'')"

definition hashToProto :: "string \<Rightarrow> int" where
  "hashToProto h = (if h = ''SHA-384'' then 2 else if h = ''SHA-512'' then 3 else 1)"

definition paddingToProto :: "string \<Rightarrow> int" where
  "paddingToProto p = (if p = ''PSS'' then 2 else 1)"

section \<open>Dual-control authorization\<close>

record SignIntent =
  si_KeyHandle :: string
  si_Purpose :: int
  si_Hash :: string
  si_Padding :: string
  si_Digest :: bytes

text \<open>\<^verbatim>\<open>binary.BigEndian.PutUint32\<close>; \<open>char_of\<close> keeps the low eight bits.\<close>

definition be32 :: "nat \<Rightarrow> bytes" where
  "be32 n = [char_of (n div 2 ^ 24), char_of (n div 2 ^ 16), char_of (n div 2 ^ 8), char_of n]"

definition appendLenPrefixed :: "bytes \<Rightarrow> bytes \<Rightarrow> bytes" where
  "appendLenPrefixed dst b = dst @ be32 (length b) @ b"

definition uint32 :: "int \<Rightarrow> nat" where
  "uint32 p = nat (p mod 2 ^ 32)"

definition canonicalBytes :: "SignIntent \<Rightarrow> bytes" where
  "canonicalBytes si =
     (let out1 = appendLenPrefixed (''trstctl/sign-intent/v1'' @ [CHR 0x00]) (si_KeyHandle si);
          out2 = out1 @ be32 (uint32 (si_Purpose si));
          out3 = appendLenPrefixed out2 (si_Hash si);
          out4 = appendLenPrefixed out3 (si_Padding si)
      in appendLenPrefixed out4 (si_Digest si))"

definition NewSignAuthorizer :: "bytes \<Rightarrow> signer_error + bytes" where
  "NewSignAuthorizer sharedSecret = (if length sharedSecret < 16 then Inl SecretTooShort else Inr sharedSecret)"

text \<open>\<open>hmac\<close> is HMAC-SHA-256; an authorizer is its secret.\<close>

definition Authorize :: "(bytes \<Rightarrow> bytes \<Rightarrow> bytes) \<Rightarrow> bytes option \<Rightarrow> SignIntent \<Rightarrow> signer_error + bytes" where
  "Authorize hmac a intent = (case a of None \<Rightarrow> Inl NoSignAuthorizer | Some k \<Rightarrow> Inr (hmac k (canonicalBytes intent)))"

definition Authorizer_Verify :: "(bytes \<Rightarrow> bytes \<Rightarrow> bytes) \<Rightarrow> bytes option \<Rightarrow> SignIntent \<Rightarrow> bytes \<Rightarrow> bool" where
  "Authorizer_Verify hmac a intent token =
     (if a = None \<or> token = '''' then False
      else case Authorize hmac a intent of Inl _ \<Rightarrow> False | Inr want \<Rightarrow> want = token)"

section \<open>Requests, keys and constraints\<close>

record GenerateKeyRequest =
  gr_Algorithm :: int
  gr_RequestedId :: string
  gr_AllowedPurposes :: "int list"
  gr_AllowedHashes :: "int list"

record SignRequest =
  sq_Handle :: string
  sq_Digest :: bytes
  sq_Hash :: int
  sq_RsaPadding :: int
  sq_Purpose :: int

record key_material =
  km_Algorithm :: string
  km_Private :: bytes

text \<open>An empty set means any value.\<close>

record keyConstraints =
  kc_purposes :: "int set"
  kc_hashes :: "int set"
  kc_requireAuth :: bool

definition no_constraints :: keyConstraints where
  "no_constraints = \<lparr>kc_purposes = {}, kc_hashes = {}, kc_requireAuth = False\<rparr>"

record heldKey =
  hk_signer :: key_material
  hk_constraints :: keyConstraints

definition constraintsFromGenerate :: "GenerateKeyRequest \<Rightarrow> signer_error + keyConstraints" where
  "constraintsFromGenerate req =
     (if KEY_PURPOSE_UNSPECIFIED \<in> set (gr_AllowedPurposes req)
      then Inl (InvalidArgument ''allowed_purposes must not contain KEY_PURPOSE_UNSPECIFIED'')
      else if HASH_UNSPECIFIED \<in> set (gr_AllowedHashes req)
      then Inl (InvalidArgument ''allowed_hashes must not contain HASH_UNSPECIFIED'')
      else Inr \<lparr>kc_purposes = set (gr_AllowedPurposes req), kc_hashes = set (gr_AllowedHashes req), kc_requireAuth = False\<rparr>)"

definition check_constraints :: "keyConstraints \<Rightarrow> SignRequest \<Rightarrow> signer_error option" where
  "check_constraints kc req =
     (if kc_purposes kc \<noteq> {} \<and> sq_Purpose req = KEY_PURPOSE_UNSPECIFIED
      then Some (FailedPrecondition ''key requires an explicit purpose; none was asserted'')
      else if kc_purposes kc \<noteq> {} \<and> sq_Purpose req \<notin> kc_purposes kc
      then Some (FailedPrecondition ''purpose is not permitted for this key'')
      else if kc_hashes kc \<noteq> {} \<and> sq_Hash req \<notin> kc_hashes kc
      then Some (FailedPrecondition ''hash is not permitted for this key'')
      else None)"

definition purposeList :: "keyConstraints \<Rightarrow> int list" where
  "purposeList kc = sorted_list_of_set (kc_purposes kc)"

definition hashList :: "keyConstraints \<Rightarrow> int list" where
  "hashList kc = sorted_list_of_set (kc_hashes kc)"

definition validateSignRequest :: "SignRequest \<Rightarrow> signer_error option" where
  "validateSignRequest req =
     (if sq_Handle req = '''' then Some (InvalidArgument ''missing key handle'')
      else if sq_Digest req = [] then Some (InvalidArgument ''missing digest'')
      else if length (sq_Digest req) > 64 then Some (InvalidArgument ''digest too long'')
      else case hashFromProto (sq_Hash req) of
             Inl e \<Rightarrow> Some e
           | Inr (_, wantLen) \<Rightarrow>
               if length (sq_Digest req) \<noteq> wantLen then Some (InvalidArgument ''digest length does not match hash'') else None)"

definition mustHashForIntent :: "int \<Rightarrow> string" where
  "mustHashForIntent h = (case hashFromProto h of Inl _ \<Rightarrow> ''SHA-256'' | Inr (ch, _) \<Rightarrow> ch)"

definition intentFor :: "SignRequest \<Rightarrow> SignIntent" where
  "intentFor req =
     \<lparr>si_KeyHandle = sq_Handle req, si_Purpose = sq_Purpose req, si_Hash = mustHashForIntent (sq_Hash req),
      si_Padding = paddingFromProto (sq_RsaPadding req), si_Digest = sq_Digest req\<rparr>"

section \<open>Sealed files\<close>

definition metaMagic :: bytes where
  "metaMagic = ''CSKM''"

definition byte_of :: "int \<Rightarrow> char" where
  "byte_of n = char_of (nat (n mod 256))"

definition encodeConstraintMeta :: "keyConstraints \<Rightarrow> int \<Rightarrow> bytes" where
  "encodeConstraintMeta kc algorithm =
     metaMagic @ [byte_of 3]
     @ [byte_of (int (length (purposeList kc)))] @ map byte_of (purposeList kc)
     @ [byte_of (int (length (hashList kc)))] @ map byte_of (hashList kc)
     @ [byte_of (if kc_requireAuth kc then 1 else 0)] @ [byte_of algorithm]"

definition read_list :: "bytes \<Rightarrow> signer_error + bytes \<times> bytes" where
  "read_list bs =
     (case bs of
        [] \<Rightarrow> Inl (InternalError ''truncated key metadata (count)'')
      | c # rest \<Rightarrow>
          (let n = of_char c in if n > length rest then Inl (InternalError ''truncated key metadata (values)'')
             else Inr (take n rest, drop n rest)))"

definition values_of :: "bytes \<Rightarrow> int set" where
  "values_of bs = set (map of_char bs)"

definition decodeConstraintMeta :: "bytes \<Rightarrow> signer_error + keyConstraints \<times> int \<times> bytes" where
  "decodeConstraintMeta plaintext =
     (if take 4 plaintext \<noteq> metaMagic then Inr (no_constraints, ALGORITHM_UNSPECIFIED, plaintext)
      else case drop 4 plaintext of
             [] \<Rightarrow> Inl (InternalError ''truncated key metadata (version)'')
           | v # r0 \<Rightarrow>
               (let ver = (of_char v :: nat)
                in if ver < 1 \<or> ver > 3 then Inl (InternalError ''unsupported key metadata version'')
                   else case read_list r0 of
                          Inl e \<Rightarrow> Inl e
                        | Inr (pvals, r1) \<Rightarrow>
                            (case read_list r1 of
                               Inl e \<Rightarrow> Inl e
                             | Inr (hvals, r2) \<Rightarrow>
                                 (let kc = \<lparr>kc_purposes = values_of pvals, kc_hashes = values_of hvals, kc_requireAuth = False\<rparr>
                                  in if ver < 2 then Inr (kc, ALGORITHM_UNSPECIFIED, r2)
                                     else case r2 of
                                            [] \<Rightarrow> Inl (InternalError ''truncated key metadata (flags)'')
                                          | f # r3 \<Rightarrow>
                                              (let kc2 = kc\<lparr>kc_requireAuth := odd (of_char f :: nat)\<rparr>
                                               in if ver < 3 then Inr (kc2, ALGORITHM_UNSPECIFIED, r3)
                                                  else case r3 of
                                                         [] \<Rightarrow> Inl (InternalError ''truncated key metadata (algorithm)'')
                                                       | a # r4 \<Rightarrow> Inr (kc2, of_char a, r4))))))"

definition safe_char :: "char \<Rightarrow> bool" where
  "safe_char c =
     (let n = (of_char c :: nat) in 97 \<le> n \<and> n \<le> 122 \<or> 65 \<le> n \<and> n \<le> 90 \<or> 48 \<le> n \<and> n \<le> 57 \<or> c = CHR ''-'' \<or> c = CHR ''_'')"

text \<open>One underscore for each character outside the set; the continuation bytes of a character write nothing.\<close>

definition continuation_byte :: "char \<Rightarrow> bool" where
  "continuation_byte c = (let n = (of_char c :: nat) in 128 \<le> n \<and> n < 192)"

definition sanitizeHandle :: "string \<Rightarrow> string" where
  "sanitizeHandle h = map (\<lambda>c. if safe_char c then c else CHR ''_'') (filter (\<lambda>c. \<not> continuation_byte c) h)"

text \<open>
  What the process uses of other packages: exporting and importing private keys (with the algorithm they
  were saved with, or inferred from the older format), sealing bound to a name, public keys, signatures,
  HMAC. \<^verbatim>\<open>Open\<close> fails on other names and on altered text.
\<close>

record signer_lib =
  lb_export :: "key_material \<Rightarrow> bytes option"
  lb_import :: "string \<Rightarrow> bytes \<Rightarrow> key_material option"
  lb_import_pkcs8 :: "bytes \<Rightarrow> key_material option"
  lb_seal :: "bytes \<Rightarrow> string \<Rightarrow> bytes option"
  lb_open :: "bytes \<Rightarrow> string \<Rightarrow> bytes option"
  lb_public :: "key_material \<Rightarrow> bytes"
  lb_sign :: "key_material \<Rightarrow> bytes \<Rightarrow> string \<Rightarrow> string \<Rightarrow> bytes option"
  lb_hmac :: "bytes \<Rightarrow> bytes \<Rightarrow> bytes"

type_synonym key_files = "(string \<times> bytes) list"

definition signingKeyFromSealedBytes :: "signer_lib \<Rightarrow> int \<Rightarrow> bytes \<Rightarrow> signer_error + key_material" where
  "signingKeyFromSealedBytes lib protoAlg privateKey =
     (case (if protoAlg = ALGORITHM_UNSPECIFIED then Inr (lb_import_pkcs8 lib privateKey)
            else case algorithmFromProto protoAlg of Inl e \<Rightarrow> Inl e | Inr alg \<Rightarrow> Inr (lb_import lib alg privateKey)) of
        Inl e \<Rightarrow> Inl e
      | Inr None \<Rightarrow> Inl (InternalError ''load key'')
      | Inr (Some k) \<Rightarrow> Inr k)"

definition Save :: "signer_lib \<Rightarrow> bool \<Rightarrow> string \<Rightarrow> key_material \<Rightarrow> keyConstraints \<Rightarrow> key_files \<Rightarrow> signer_error + key_files" where
  "Save lib written handle key constraints files =
     (let stem = sanitizeHandle handle
      in case lb_export lib key of
           None \<Rightarrow> Inl (InternalError ''persist key'')
         | Some keyBytes \<Rightarrow>
             (case lb_seal lib (encodeConstraintMeta constraints (algorithmToProto (km_Algorithm key)) @ keyBytes) stem of
                None \<Rightarrow> Inl (InternalError ''persist key'')
              | Some sealed \<Rightarrow> if \<not> written then Inl (InternalError ''persist key'') else Inr (AList.update stem sealed files)))"

definition open_key :: "signer_lib \<Rightarrow> string \<Rightarrow> bytes \<Rightarrow> signer_error + heldKey" where
  "open_key lib stem sealed =
     (case lb_open lib sealed stem of
        None \<Rightarrow> Inl (InternalError ''open sealed key'')
      | Some plaintext \<Rightarrow>
          (case decodeConstraintMeta plaintext of
             Inl e \<Rightarrow> Inl e
           | Inr (constraints, alg, privateKey) \<Rightarrow>
               (case signingKeyFromSealedBytes lib alg privateKey of
                  Inl e \<Rightarrow> Inl e
                | Inr k \<Rightarrow> Inr \<lparr>hk_signer = k, hk_constraints = constraints\<rparr>)))"

fun Load :: "signer_lib \<Rightarrow> key_files \<Rightarrow> signer_error + (string \<times> heldKey) list" where
  "Load lib [] = Inr []"
| "Load lib ((stem, sealed) # files) =
     (case open_key lib stem sealed of
        Inl e \<Rightarrow> Inl e
      | Inr held \<Rightarrow> (case Load lib files of Inl e \<Rightarrow> Inl e | Inr keys \<Rightarrow> Inr ((stem, held) # keys)))"

definition LoadHandle :: "signer_lib \<Rightarrow> string \<Rightarrow> key_files \<Rightarrow> signer_error + heldKey option" where
  "LoadHandle lib handle files =
     (let stem = sanitizeHandle handle
      in case map_of files stem of
           None \<Rightarrow> Inr None
         | Some sealed \<Rightarrow> (case open_key lib stem sealed of Inl e \<Rightarrow> Inl e | Inr held \<Rightarrow> Inr (Some held)))"

definition Remove :: "bool \<Rightarrow> string \<Rightarrow> key_files \<Rightarrow> signer_error + key_files" where
  "Remove removed handle files =
     (if map_of files (sanitizeHandle handle) = None then Inr files
      else if \<not> removed then Inl (InternalError ''remove persisted key'')
      else Inr (AList.delete (sanitizeHandle handle) files))"

section \<open>The server\<close>

text \<open>\<open>ss_files\<close> is \<open>None\<close> for a server without a key store.\<close>

record signer_server =
  ss_keys :: "(string \<times> heldKey) list"
  ss_serving :: bool
  ss_files :: "key_files option"
  ss_authorizer :: "bytes option"

record signer_call =
  sc_newkey :: "key_material option"
  sc_random :: "string option"
  sc_require :: "string list"
  sc_tokens :: "bytes list"
  sc_written :: bool
  sc_removed :: bool

text \<open>\<open>sc_require\<close> and \<open>sc_tokens\<close> are the values of the two metadata keys a call carries.\<close>

definition requireAuthFromGenerateMD :: "string list \<Rightarrow> bool" where
  "requireAuthFromGenerateMD md = list_ex (\<lambda>v. v \<noteq> '''') md"

definition signAuthTokenFromMD :: "bytes list \<Rightarrow> bytes" where
  "signAuthTokenFromMD md = (case md of [] \<Rightarrow> [] | v # _ \<Rightarrow> v)"

lemma signAuthTokenFromMD_simps [simp]: "signAuthTokenFromMD [] = []" "signAuthTokenFromMD (v # vs) = v"
  by (simp_all add: signAuthTokenFromMD_def)

definition NewServer :: "bytes option \<Rightarrow> signer_server" where
  "NewServer authorizer = \<lparr>ss_keys = [], ss_serving = True, ss_files = None, ss_authorizer = authorizer\<rparr>"

definition NewPersistentServer :: "signer_lib \<Rightarrow> key_files \<Rightarrow> bytes option \<Rightarrow> signer_error + signer_server" where
  "NewPersistentServer lib files authorizer =
     (case Load lib files of
        Inl e \<Rightarrow> Inl e
      | Inr keys \<Rightarrow> Inr \<lparr>ss_keys = keys, ss_serving = True, ss_files = Some files, ss_authorizer = authorizer\<rparr>)"

definition lookup_handle :: "signer_lib \<Rightarrow> string \<Rightarrow> signer_server \<Rightarrow> signer_server \<times> (signer_error + heldKey)" where
  "lookup_handle lib h s =
     (if h = '''' then (s, Inl (InvalidArgument ''missing key handle''))
      else case map_of (ss_keys s) h of
             Some held \<Rightarrow> (s, Inr held)
           | None \<Rightarrow>
               (case ss_files s of
                  None \<Rightarrow> (s, Inl NotFoundHandle)
                | Some files \<Rightarrow>
                    (case LoadHandle lib h files of
                       Inl e \<Rightarrow> (s, Inl (InternalError ''reload key handle''))
                     | Inr None \<Rightarrow> (s, Inl NotFoundHandle)
                     | Inr (Some held) \<Rightarrow> (s\<lparr>ss_keys := (h, held) # ss_keys s\<rparr>, Inr held))))"

definition GenerateKey ::
  "signer_lib \<Rightarrow> signer_call \<Rightarrow> GenerateKeyRequest \<Rightarrow> signer_server \<Rightarrow> signer_server \<times> (signer_error + string \<times> int \<times> bytes)" where
  "GenerateKey lib call req s =
     (case algorithmFromProto (gr_Algorithm req) of
        Inl e \<Rightarrow> (s, Inl e)
      | Inr alg \<Rightarrow>
          (case constraintsFromGenerate req of
             Inl e \<Rightarrow> (s, Inl e)
           | Inr kc0 \<Rightarrow>
               if requireAuthFromGenerateMD (sc_require call) \<and> ss_authorizer s = None
               then (s, Inl (FailedPrecondition ''dual-control key requested but this signer has no authorizer configured''))
               else (let kc = (if requireAuthFromGenerateMD (sc_require call) then kc0\<lparr>kc_requireAuth := True\<rparr> else kc0)
                     in case sc_newkey call of
                          None \<Rightarrow> (s, Inl (InternalError ''generate key''))
                        | Some key0 \<Rightarrow>
                            (let key = key0\<lparr>km_Algorithm := alg\<rparr>
                             in case (if gr_RequestedId req = '''' then sc_random call else Some (gr_RequestedId req)) of
                                  None \<Rightarrow> (s, Inl (InternalError ''generate handle''))
                                | Some i \<Rightarrow>
                                    if map_of (ss_keys s) i \<noteq> None then (s, Inl AlreadyExists)
                                    else (let held = \<lparr>hk_signer = key, hk_constraints = kc\<rparr>;
                                              s1 = s\<lparr>ss_keys := (i, held) # ss_keys s\<rparr>;
                                              answer = (i, algorithmToProto alg, lb_public lib key)
                                          in case ss_files s of
                                               None \<Rightarrow> (s1, Inr answer)
                                             | Some files \<Rightarrow>
                                                 (case Save lib (sc_written call) i key kc files of
                                                    Inl e \<Rightarrow> (s1\<lparr>ss_keys := AList.delete i (ss_keys s1)\<rparr>, Inl e)
                                                  | Inr files1 \<Rightarrow> (s1\<lparr>ss_files := Some files1\<rparr>, Inr answer)))))))"

definition GetPublicKey :: "signer_lib \<Rightarrow> string \<Rightarrow> signer_server \<Rightarrow> signer_server \<times> (signer_error + int \<times> bytes)" where
  "GetPublicKey lib h s =
     (case lookup_handle lib h s of
        (s1, Inl e) \<Rightarrow> (s1, Inl e)
      | (s1, Inr held) \<Rightarrow> (s1, Inr (algorithmToProto (km_Algorithm (hk_signer held)), lb_public lib (hk_signer held))))"

definition enforceDualControl :: "signer_lib \<Rightarrow> signer_call \<Rightarrow> SignRequest \<Rightarrow> signer_server \<Rightarrow> signer_error option" where
  "enforceDualControl lib call req s =
     (if ss_authorizer s = None
      then Some (FailedPrecondition ''key requires dual-control authorization but this signer has no authorizer configured'')
      else if signAuthTokenFromMD (sc_tokens call) = '''' then Some (PermissionDenied ''key requires a dual-control authorization token; none was presented'')
      else if \<not> Authorizer_Verify (lb_hmac lib) (ss_authorizer s) (intentFor req) (signAuthTokenFromMD (sc_tokens call))
      then Some (PermissionDenied ''dual-control authorization token is invalid for this signing request'')
      else None)"

definition Sign :: "signer_lib \<Rightarrow> signer_call \<Rightarrow> SignRequest \<Rightarrow> signer_server \<Rightarrow> signer_server \<times> (signer_error + bytes)" where
  "Sign lib call req s =
     (case validateSignRequest req of
        Some e \<Rightarrow> (s, Inl e)
      | None \<Rightarrow>
          (case lookup_handle lib (sq_Handle req) s of
             (s1, Inl e) \<Rightarrow> (s1, Inl e)
           | (s1, Inr held) \<Rightarrow>
               (case check_constraints (hk_constraints held) req of
                  Some e \<Rightarrow> (s1, Inl e)
                | None \<Rightarrow>
                    (case (if kc_requireAuth (hk_constraints held) then enforceDualControl lib call req s1 else None) of
                       Some e \<Rightarrow> (s1, Inl e)
                     | None \<Rightarrow>
                         (case lb_sign lib (hk_signer held) (sq_Digest req) (mustHashForIntent (sq_Hash req)) (paddingFromProto (sq_RsaPadding req)) of
                            None \<Rightarrow> (s1, Inl (InternalError ''sign''))
                          | Some sig \<Rightarrow> (s1, Inr sig))))))"

definition DestroyKey :: "signer_call \<Rightarrow> string \<Rightarrow> signer_server \<Rightarrow> signer_server \<times> signer_error option" where
  "DestroyKey call h s =
     (if h = '''' then (s, Some (InvalidArgument ''missing key handle''))
      else if map_of (ss_keys s) h = None then (s, None)
      else (let s1 = s\<lparr>ss_keys := AList.delete h (ss_keys s)\<rparr>
            in case ss_files s of
                 None \<Rightarrow> (s1, None)
               | Some files \<Rightarrow>
                   (case Remove (sc_removed call) h files of
                      Inl e \<Rightarrow> (s1, Some e)
                    | Inr files1 \<Rightarrow> (s1\<lparr>ss_files := Some files1\<rparr>, None))))"

definition Health :: "signer_server \<Rightarrow> bool" where
  "Health s = ss_serving s"

definition Shutdown :: "signer_server \<Rightarrow> signer_server" where
  "Shutdown s = s\<lparr>ss_serving := False, ss_keys := []\<rparr>"

section \<open>The client\<close>

record RemoteSigner =
  rs_handle :: string
  rs_algorithm :: string
  rs_public :: bytes
  rs_purpose :: int
  rs_authorizer :: "bytes option"

definition PurposeGeneric :: int where
  "PurposeGeneric = 5"

definition Healthy :: "signer_server \<Rightarrow> bool" where
  "Healthy s = Health s"

definition generate_remote ::
  "signer_lib \<Rightarrow> signer_call \<Rightarrow> string \<Rightarrow> string \<Rightarrow> int list \<Rightarrow> int \<Rightarrow> bytes option \<Rightarrow> signer_server \<Rightarrow> signer_server \<times> (signer_error + RemoteSigner)" where
  "generate_remote lib call algorithm handle allowed declared authorizer s =
     (case GenerateKey lib call \<lparr>gr_Algorithm = algorithmToProto algorithm, gr_RequestedId = handle, gr_AllowedPurposes = allowed, gr_AllowedHashes = []\<rparr> s of
        (s1, Inl e) \<Rightarrow> (s1, Inl e)
      | (s1, Inr (i, _, der)) \<Rightarrow>
          (s1, Inr \<lparr>rs_handle = i, rs_algorithm = algorithm, rs_public = der, rs_purpose = declared, rs_authorizer = authorizer\<rparr>))"

definition GenerateConstrainedKeyHandle ::
  "signer_lib \<Rightarrow> signer_call \<Rightarrow> string \<Rightarrow> string \<Rightarrow> int list \<Rightarrow> int \<Rightarrow> signer_server \<Rightarrow> signer_server \<times> (signer_error + RemoteSigner)" where
  "GenerateConstrainedKeyHandle lib call algorithm handle allowed declared s =
     generate_remote lib (call\<lparr>sc_require := []\<rparr>) algorithm handle allowed declared None s"

definition GenerateKeyHandle :: "signer_lib \<Rightarrow> signer_call \<Rightarrow> string \<Rightarrow> string \<Rightarrow> signer_server \<Rightarrow> signer_server \<times> (signer_error + RemoteSigner)" where
  "GenerateKeyHandle lib call algorithm handle s = GenerateConstrainedKeyHandle lib call algorithm handle [] PurposeGeneric s"

definition Client_GenerateKey :: "signer_lib \<Rightarrow> signer_call \<Rightarrow> string \<Rightarrow> signer_server \<Rightarrow> signer_server \<times> (signer_error + RemoteSigner)" where
  "Client_GenerateKey lib call algorithm s = GenerateConstrainedKeyHandle lib call algorithm '''' [] PurposeGeneric s"

definition GenerateDualControlKeyHandle ::
  "signer_lib \<Rightarrow> signer_call \<Rightarrow> string \<Rightarrow> string \<Rightarrow> int list \<Rightarrow> int \<Rightarrow> bytes option \<Rightarrow> signer_server \<Rightarrow> signer_server \<times> (signer_error + RemoteSigner)" where
  "GenerateDualControlKeyHandle lib call algorithm handle allowed declared authorizer s =
     generate_remote lib (call\<lparr>sc_require := [''1'']\<rparr>) algorithm handle allowed declared authorizer s"

definition SignerForHandleWithPurpose ::
  "signer_lib \<Rightarrow> string \<Rightarrow> int \<Rightarrow> signer_server \<Rightarrow> signer_server \<times> (signer_error + RemoteSigner)" where
  "SignerForHandleWithPurpose lib handle purpose s =
     (case GetPublicKey lib handle s of
        (s1, Inl e) \<Rightarrow> (s1, Inl e)
      | (s1, Inr (protoAlg, der)) \<Rightarrow>
          (s1, case algorithmFromProto protoAlg of
                 Inl e \<Rightarrow> Inl e
               | Inr alg \<Rightarrow> Inr \<lparr>rs_handle = handle, rs_algorithm = alg, rs_public = der, rs_purpose = purpose, rs_authorizer = None\<rparr>))"

definition Client_SignerForDualControlHandle ::
  "signer_lib \<Rightarrow> string \<Rightarrow> int \<Rightarrow> bytes option \<Rightarrow> signer_server \<Rightarrow> signer_server \<times> (signer_error + RemoteSigner)" where
  "Client_SignerForDualControlHandle lib handle purpose authorizer s =
     (case SignerForHandleWithPurpose lib handle purpose s of
        (s1, Inl e) \<Rightarrow> (s1, Inl e)
      | (s1, Inr rs) \<Rightarrow> (s1, Inr (rs\<lparr>rs_authorizer := authorizer\<rparr>)))"

definition SignerForHandle :: "signer_lib \<Rightarrow> string \<Rightarrow> signer_server \<Rightarrow> signer_server \<times> (signer_error + RemoteSigner)" where
  "SignerForHandle lib handle s = SignerForHandleWithPurpose lib handle PurposeGeneric s"

definition RemoteSigner_Destroy :: "signer_call \<Rightarrow> RemoteSigner \<Rightarrow> signer_server \<Rightarrow> signer_server \<times> signer_error option" where
  "RemoteSigner_Destroy call r s = DestroyKey call (rs_handle r) s"

definition remote_request :: "RemoteSigner \<Rightarrow> bytes \<Rightarrow> string \<Rightarrow> string \<Rightarrow> SignRequest" where
  "remote_request r digest hash padding =
     \<lparr>sq_Handle = rs_handle r, sq_Digest = digest, sq_Hash = hashToProto hash, sq_RsaPadding = paddingToProto padding, sq_Purpose = rs_purpose r\<rparr>"

definition SignDigest ::
  "signer_lib \<Rightarrow> signer_call \<Rightarrow> RemoteSigner \<Rightarrow> bytes \<Rightarrow> string \<Rightarrow> string \<Rightarrow> signer_server \<Rightarrow> signer_server \<times> (signer_error + bytes)" where
  "SignDigest lib call r digest hash padding s =
     (let req = remote_request r digest hash padding
      in case rs_authorizer r of
           None \<Rightarrow> Sign lib (call\<lparr>sc_tokens := []\<rparr>) req s
         | Some k \<Rightarrow>
             (case Authorize (lb_hmac lib) (Some k) (intentFor req) of
                Inl e \<Rightarrow> (s, Inl e)
              | Inr token \<Rightarrow> Sign lib (call\<lparr>sc_tokens := [token]\<rparr>) req s))"

section \<open>What a signature requires\<close>

lemma Sign_Inr:
  assumes "Sign lib call req s = (s', Inr sig)"
  obtains held where "validateSignRequest req = None" "lookup_handle lib (sq_Handle req) s = (s', Inr held)"
    "check_constraints (hk_constraints held) req = None"
    "kc_requireAuth (hk_constraints held) \<Longrightarrow> enforceDualControl lib call req s' = None"
    "lb_sign lib (hk_signer held) (sq_Digest req) (mustHashForIntent (sq_Hash req)) (paddingFromProto (sq_RsaPadding req)) = Some sig"
  using assms by (auto simp: Sign_def split: option.splits prod.splits sum.splits if_splits)

lemma lookup_authorizer: "lookup_handle lib h s = (s', r) \<Longrightarrow> ss_authorizer s' = ss_authorizer s"
  by (auto simp: lookup_handle_def split: if_splits option.splits sum.splits)

text \<open>C13: the process signs only within the mandate of a key: the digest has the length of the named hash, the
  asserted purpose and the hash are among those the key is limited to, if any, and for a dual-control key
  the request carries the token that the authorizer's secret yields for exactly this handle, purpose, hash,
  padding and digest.\<close>

theorem sign_within_mandate:
  assumes "Sign lib call req s = (s', Inr sig)"
  shows "\<exists>held hash. lookup_handle lib (sq_Handle req) s = (s', Inr held)
    \<and> hashFromProto (sq_Hash req) = Inr (hash, length (sq_Digest req))
    \<and> (kc_purposes (hk_constraints held) = {} \<or> sq_Purpose req \<noteq> 0 \<and> sq_Purpose req \<in> kc_purposes (hk_constraints held))
    \<and> (kc_hashes (hk_constraints held) = {} \<or> sq_Hash req \<in> kc_hashes (hk_constraints held))
    \<and> (kc_requireAuth (hk_constraints held) \<longrightarrow> (\<exists>secret. ss_authorizer s = Some secret \<and> signAuthTokenFromMD (sc_tokens call) = lb_hmac lib secret
         (canonicalBytes \<lparr>si_KeyHandle = sq_Handle req, si_Purpose = sq_Purpose req, si_Hash = hash,
            si_Padding = paddingFromProto (sq_RsaPadding req), si_Digest = sq_Digest req\<rparr>)))
    \<and> lb_sign lib (hk_signer held) (sq_Digest req) hash (paddingFromProto (sq_RsaPadding req)) = Some sig"
proof (rule Sign_Inr [OF assms])
  fix held
  assume *: "validateSignRequest req = None" "lookup_handle lib (sq_Handle req) s = (s', Inr held)"
    "check_constraints (hk_constraints held) req = None"
    "kc_requireAuth (hk_constraints held) \<Longrightarrow> enforceDualControl lib call req s' = None"
    "lb_sign lib (hk_signer held) (sq_Digest req) (mustHashForIntent (sq_Hash req)) (paddingFromProto (sq_RsaPadding req)) = Some sig"
  from *(1) obtain hash where hash: "hashFromProto (sq_Hash req) = Inr (hash, length (sq_Digest req))" "mustHashForIntent (sq_Hash req) = hash"
    by (auto simp: validateSignRequest_def mustHashForIntent_def split: if_splits sum.splits)
  have "\<exists>secret. ss_authorizer s = Some secret \<and> signAuthTokenFromMD (sc_tokens call) = lb_hmac lib secret
         (canonicalBytes \<lparr>si_KeyHandle = sq_Handle req, si_Purpose = sq_Purpose req, si_Hash = hash,
            si_Padding = paddingFromProto (sq_RsaPadding req), si_Digest = sq_Digest req\<rparr>)" if "kc_requireAuth (hk_constraints held)"
    using *(4) [OF that] lookup_authorizer [OF *(2)] hash(2)
    by (auto simp: enforceDualControl_def Authorizer_Verify_def Authorize_def intentFor_def split: if_splits option.splits sum.splits)
  with * hash show ?thesis
    by (intro exI [of _ held] exI [of _ hash]) (auto simp: check_constraints_def split: if_splits)
qed

section \<open>Tokens bind requests\<close>

lemma be32_inject: "m < 2 ^ 32 \<Longrightarrow> n < 2 ^ 32 \<Longrightarrow> be32 m = be32 n \<longleftrightarrow> m = n"
proof -
  assume mn: "m < 2 ^ 32" "n < 2 ^ 32"
  have digits: "k = (k div 16777216) * 16777216 + (k div 65536 mod 256) * 65536 + (k div 256 mod 256) * 256 + k mod 256" for k :: nat
  proof -
    have "k = 256 * (k div 256) + k mod 256" "k div 256 = 256 * (k div 65536) + k div 256 mod 256"
      "k div 65536 = 256 * (k div 16777216) + k div 65536 mod 256"
      using mult_div_mod_eq [of 256 k] mult_div_mod_eq [of 256 "k div 256"] mult_div_mod_eq [of 256 "k div 65536"]
      by (simp_all add: div_mult2_eq [symmetric])
    then show ?thesis by linarith
  qed
  have top: "k div 16777216 mod 256 = k div 16777216" if "k < 2 ^ 32" for k :: nat
    using that by (simp add: less_mult_imp_div_less)
  have "m = n" if "be32 m = be32 n"
  proof -
    have "m div 16777216 mod 256 = n div 16777216 mod 256" "m div 65536 mod 256 = n div 65536 mod 256"
      "m div 256 mod 256 = n div 256 mod 256" "m mod 256 = n mod 256"
      using that by (simp_all add: be32_def char_of_eq_iff of_char_of take_bit_eq_mod)
    then show ?thesis
      using digits [of m] digits [of n] top [OF mn(1)] top [OF mn(2)] by simp
  qed
  then show ?thesis by auto
qed

lemma len_prefixed_inject:
  assumes "be32 (length a) @ a @ x = be32 (length b) @ b @ y" and "length a < 2 ^ 32" and "length b < 2 ^ 32"
  shows "a = b" and "x = y"
proof -
  have "be32 (length a) = be32 (length b)" "a @ x = b @ y"
    using assms(1) by (auto simp: be32_def)
  with be32_inject [OF assms(2,3)] show "a = b" "x = y" by auto
qed

definition intent_ok :: "SignIntent \<Rightarrow> bool" where
  "intent_ok si =
     (length (si_KeyHandle si) < 2 ^ 32 \<and> length (si_Hash si) < 2 ^ 32 \<and> length (si_Padding si) < 2 ^ 32 \<and> length (si_Digest si) < 2 ^ 32
      \<and> - (2 ^ 31) \<le> si_Purpose si \<and> si_Purpose si < 2 ^ 31)"

lemma uint32_inject: "- (2 ^ 31) \<le> p \<Longrightarrow> p < 2 ^ 31 \<Longrightarrow> - (2 ^ 31) \<le> q \<Longrightarrow> q < 2 ^ 31 \<Longrightarrow> uint32 p = uint32 q \<longleftrightarrow> p = q"
proof -
  assume b: "- (2 ^ 31) \<le> p" "p < 2 ^ 31" "- (2 ^ 31) \<le> q" "q < 2 ^ 31"
  have val: "nat (x mod 4294967296) = nat (if x < 0 then x + 4294967296 else x)" if "- 2147483648 \<le> x" "x < 2147483648" for x :: int
  proof (cases "x < 0")
    case True
    then have "(x + 4294967296) mod 4294967296 = x + 4294967296" using that by (intro mod_pos_pos_trivial) auto
    then show ?thesis using True by (simp only: mod_add_self2 if_True)
  qed (use that in simp)
  let ?v = "\<lambda>x :: int. if x < 0 then x + 4294967296 else x"
  have "uint32 p = nat (?v p)" "uint32 q = nat (?v q)" using b val by (auto simp only: uint32_def) simp_all
  moreover have "0 \<le> ?v p" "0 \<le> ?v q" "?v p = ?v q \<longleftrightarrow> p = q" using b by auto
  moreover have "a = nat x \<Longrightarrow> b = nat y \<Longrightarrow> 0 \<le> x \<Longrightarrow> 0 \<le> y \<Longrightarrow> x = y \<longleftrightarrow> P \<Longrightarrow> a = b \<longleftrightarrow> P" for a b :: nat and x y :: int and P
    by auto
  ultimately show ?thesis by blast
qed

lemma canonicalBytes_inject:
  assumes "canonicalBytes i = canonicalBytes j" and "intent_ok i" and "intent_ok j"
  shows "i = j"
proof -
  let ?rest = "\<lambda>k. be32 (length (si_Hash k)) @ si_Hash k @ be32 (length (si_Padding k)) @ si_Padding k @ be32 (length (si_Digest k)) @ si_Digest k"
  have "be32 (length (si_KeyHandle i)) @ si_KeyHandle i @ be32 (uint32 (si_Purpose i)) @ ?rest i
      = be32 (length (si_KeyHandle j)) @ si_KeyHandle j @ be32 (uint32 (si_Purpose j)) @ ?rest j"
    using assms(1) by (simp add: canonicalBytes_def appendLenPrefixed_def Let_def)
  note h = len_prefixed_inject [OF this]
  have handle: "si_KeyHandle i = si_KeyHandle j" and "be32 (uint32 (si_Purpose i)) @ ?rest i = be32 (uint32 (si_Purpose j)) @ ?rest j"
    using h assms(2,3) by (simp_all add: intent_ok_def)
  then have "be32 (uint32 (si_Purpose i)) = be32 (uint32 (si_Purpose j))" and r: "?rest i = ?rest j" by (auto simp: be32_def)
  moreover have "uint32 p < 2 ^ 32" for p by (simp add: uint32_def nat_less_iff)
  ultimately have purpose: "si_Purpose i = si_Purpose j"
    using assms(2,3) be32_inject [of "uint32 (si_Purpose i)" "uint32 (si_Purpose j)"]
      uint32_inject [of "si_Purpose i" "si_Purpose j"] by (simp add: intent_ok_def)
  have hash: "si_Hash i = si_Hash j"
    and r2: "be32 (length (si_Padding i)) @ si_Padding i @ be32 (length (si_Digest i)) @ si_Digest i
       = be32 (length (si_Padding j)) @ si_Padding j @ be32 (length (si_Digest j)) @ si_Digest j"
    using len_prefixed_inject [OF r] assms(2,3) by (simp_all add: intent_ok_def)
  have padding: "si_Padding i = si_Padding j"
    and r3: "be32 (length (si_Digest i)) @ si_Digest i @ [] = be32 (length (si_Digest j)) @ si_Digest j @ []"
    using len_prefixed_inject [OF r2] assms(2,3) by (simp_all add: intent_ok_def)
  have "si_Digest i = si_Digest j" using len_prefixed_inject [OF r3] assms(2,3) by (simp add: intent_ok_def)
  with handle purpose hash padding show ?thesis by (cases i, cases j) simp
qed

text \<open>C18: a token authorizes one signing operation: a token that verifies for two intents, of different handles,
  purposes, hashes, paddings or digests, is a collision of the HMAC under the authorizer's secret on two
  different texts.\<close>

theorem token_binds_intent:
  assumes "Authorizer_Verify hmac (Some k) i token" and "Authorizer_Verify hmac (Some k) j token"
    and "intent_ok i" and "intent_ok j" and "i \<noteq> j"
  shows "\<exists>x y. x \<noteq> y \<and> hmac k x = hmac k y \<and> hmac k x = token"
proof -
  have "hmac k (canonicalBytes i) = token" "hmac k (canonicalBytes j) = token"
    using assms(1,2) by (auto simp: Authorizer_Verify_def Authorize_def split: if_splits)
  moreover have "canonicalBytes i \<noteq> canonicalBytes j" using canonicalBytes_inject assms(3,4,5) by blast
  ultimately show ?thesis by (intro exI [of _ "canonicalBytes i"] exI [of _ "canonicalBytes j"]) simp
qed

section \<open>Sealed metadata\<close>

lemma of_char_byte_of: "0 \<le> n \<Longrightarrow> n < 256 \<Longrightarrow> (of_char (byte_of n) :: nat) = nat n"
  by (simp add: byte_of_def nat_less_iff)

definition small_enum :: "int set \<Rightarrow> bool" where
  "small_enum s = (s \<subseteq> {1 .. 255})"

lemma small_enum_finite: "small_enum s \<Longrightarrow> finite s"
  using finite_subset [of s "{1 .. 255}"] by (simp add: small_enum_def)

lemma small_enum_card: "small_enum s \<Longrightarrow> card s \<le> 255"
  using card_mono [of "{1 .. 255}" s] by (simp add: small_enum_def)

lemma of_char_int: "(of_char c :: int) = int (of_char c)"
  by (rule of_nat_of_char [symmetric])

lemma values_of_encoded:
  assumes "small_enum s"
  shows "values_of (map byte_of (sorted_list_of_set s)) = s"
proof -
  have "(of_char (byte_of n) :: int) = n" if "n \<in> s" for n
    using that assms of_char_byte_of [of n] by (subst of_char_int) (auto simp: small_enum_def)
  then show ?thesis using small_enum_finite [OF assms] by (force simp: values_of_def)
qed

lemma read_list_encoded:
  assumes "small_enum s"
  shows "read_list (byte_of (int (card s)) # map byte_of (sorted_list_of_set s) @ rest)
    = Inr (map byte_of (sorted_list_of_set s), rest)"
proof -
  have "(of_char (byte_of (int (card s))) :: nat) = card s"
    using small_enum_card [OF assms] of_char_byte_of [of "int (card s)"] by simp
  then show ?thesis by (simp add: read_list_def)
qed

lemma meta_round_trip:
  assumes "small_enum (kc_purposes kc)" and "small_enum (kc_hashes kc)" and "0 \<le> alg" and "alg < 256"
  shows "decodeConstraintMeta (encodeConstraintMeta kc alg @ der) = Inr (kc, alg, der)"
proof -
  have three: "(of_char (byte_of 3) :: nat) = 3" and alg: "(of_char (byte_of alg) :: int) = alg"
    using of_char_byte_of [of 3] of_char_byte_of [of alg] assms(3,4) by (simp_all add: of_char_int del: of_nat_of_char)
  have flag: "odd (of_char (byte_of (if kc_requireAuth kc then 1 else 0)) :: nat) = kc_requireAuth kc"
    using of_char_byte_of [of 0] of_char_byte_of [of 1] by simp
  show ?thesis
    using assms three alg flag
    by (simp add: decodeConstraintMeta_def encodeConstraintMeta_def metaMagic_def purposeList_def hashList_def read_list_encoded
        values_of_encoded Let_def)
qed

text \<open>the header of a sealed key restores the limits of the key, its dual-control flag, its algorithm and the
  key bytes that follow it, as long as the enumeration values fit in a byte.\<close>

theorem constraint_meta_round_trip:
  assumes "small_enum (kc_purposes kc)" and "small_enum (kc_hashes kc)" and "0 \<le> alg" and "alg < 256"
  shows "decodeConstraintMeta (encodeConstraintMeta kc alg @ der) = Inr (kc, alg, der)"
  using assms by (rule meta_round_trip)

section \<open>Restarts\<close>

text \<open>What the process relies on: an exported key is imported again under its algorithm, and sealed text
  opens under the name it was sealed for.\<close>

definition lib_ok :: "signer_lib \<Rightarrow> bool" where
  "lib_ok lib =
     ((\<forall>k b. lb_export lib k = Some b \<longrightarrow> lb_import lib (km_Algorithm k) b = Some k)
      \<and> (\<forall>p n c. lb_seal lib p n = Some c \<longrightarrow> lb_open lib c n = Some p))"

definition plain_handle :: "string \<Rightarrow> bool" where
  "plain_handle h = (h \<noteq> '''' \<and> list_all safe_char h)"

lemma sanitize_plain:
  assumes "plain_handle h"
  shows "sanitizeHandle h = h"
proof -
  have "safe_char c \<Longrightarrow> \<not> continuation_byte c" for c
    by (auto simp: safe_char_def continuation_byte_def Let_def)
  then show ?thesis using assms by (auto simp: sanitizeHandle_def plain_handle_def list_all_iff intro!: map_idI)
qed

text \<open>The runs of a signing process over one key directory: every request that succeeds or fails, with
  handles over the file name alphabet and limits within a byte, and restarts.\<close>

inductive signer_reach :: "signer_lib \<Rightarrow> bytes option \<Rightarrow> signer_server \<Rightarrow> bool" for lib a where
  start: "NewPersistentServer lib [] a = Inr s \<Longrightarrow> signer_reach lib a s"
| generate: "signer_reach lib a s \<Longrightarrow> \<forall>i. (if gr_RequestedId req = '''' then sc_random call else Some (gr_RequestedId req)) = Some i \<longrightarrow> plain_handle i
     \<Longrightarrow> small_enum (set (gr_AllowedPurposes req)) \<Longrightarrow> small_enum (set (gr_AllowedHashes req))
     \<Longrightarrow> signer_reach lib a (fst (GenerateKey lib call req s))"
| public_key: "signer_reach lib a s \<Longrightarrow> plain_handle h \<Longrightarrow> signer_reach lib a (fst (GetPublicKey lib h s))"
| sign: "signer_reach lib a s \<Longrightarrow> plain_handle (sq_Handle sreq) \<Longrightarrow> signer_reach lib a (fst (Sign lib call sreq s))"
| destroy: "signer_reach lib a s \<Longrightarrow> plain_handle h \<Longrightarrow> signer_reach lib a (fst (DestroyKey call h s))"
| shutdown: "signer_reach lib a s \<Longrightarrow> signer_reach lib a (Shutdown s)"
| restart: "signer_reach lib a s \<Longrightarrow> ss_files s = Some files \<Longrightarrow> NewPersistentServer lib files a = Inr s' \<Longrightarrow> signer_reach lib a s'"

definition opens :: "signer_lib \<Rightarrow> string \<times> bytes \<Rightarrow> bool" where
  "opens lib f = (plain_handle (fst f) \<and> (\<exists>held. open_key lib (fst f) (snd f) = Inr held))"

definition backed :: "signer_lib \<Rightarrow> key_files \<Rightarrow> (string \<times> heldKey) list \<Rightarrow> bool" where
  "backed lib files keys =
     ((\<forall>f \<in> set files. opens lib f)
      \<and> (\<forall>h held. map_of keys h = Some held \<longrightarrow>
           plain_handle h \<and> (\<exists>sealed. map_of files h = Some sealed \<and> open_key lib h sealed = Inr held)))"

lemma Load_opens:
  "\<forall>f \<in> set files. opens lib f \<Longrightarrow> \<exists>keys. Load lib files = Inr keys
     \<and> (\<forall>h. map_of keys h = (case map_of files h of None \<Rightarrow> None
          | Some sealed \<Rightarrow> (case open_key lib h sealed of Inl _ \<Rightarrow> None | Inr held \<Rightarrow> Some held)))"
  by (induction files) (auto simp: opens_def)

lemma Load_backed:
  assumes "\<forall>f \<in> set files. opens lib f"
  shows "\<exists>keys. Load lib files = Inr keys \<and> backed lib files keys"
proof -
  obtain keys where keys: "Load lib files = Inr keys"
    "\<And>h. map_of keys h = (case map_of files h of None \<Rightarrow> None
       | Some sealed \<Rightarrow> (case open_key lib h sealed of Inl _ \<Rightarrow> None | Inr held \<Rightarrow> Some held))"
    using Load_opens [OF assms] by blast
  have "plain_handle h \<and> (\<exists>sealed. map_of files h = Some sealed \<and> open_key lib h sealed = Inr held)" if h: "map_of keys h = Some held" for h held
  proof -
    obtain sealed where "map_of files h = Some sealed" "open_key lib h sealed = Inr held"
      using h by (auto simp: keys(2) split: option.splits sum.splits)
    moreover from this(1) have "plain_handle h" using assms by (force simp: opens_def dest: map_of_SomeD)
    ultimately show ?thesis by blast
  qed
  with assms keys(1) show ?thesis by (auto simp: backed_def)
qed

lemma set_alist_update: "set (AList.update k v al) \<subseteq> insert (k, v) (set al)"
  by (induction al) auto

lemma set_alist_delete: "set (AList.delete k al) \<subseteq> set al"
  by (auto simp: AList.delete_eq)

lemma algorithm_round_trip:
  assumes "algorithmFromProto a = Inr alg"
  shows "algorithmFromProto (algorithmToProto alg) = Inr alg" and "0 < algorithmToProto alg" and "algorithmToProto alg < 256"
  using assms by (auto simp: algorithmFromProto_def algorithmToProto_def algorithm_table_def split: if_splits option.splits)

lemma Save_opens:
  assumes "lib_ok lib" and "Save lib written h key kc files = Inr files'" and "algorithmFromProto a = Inr (km_Algorithm key)"
    and "small_enum (kc_purposes kc)" and "small_enum (kc_hashes kc)" and "plain_handle h"
  obtains sealed where "files' = AList.update h sealed files" "open_key lib h sealed = Inr \<lparr>hk_signer = key, hk_constraints = kc\<rparr>"
proof -
  let ?alg = "algorithmToProto (km_Algorithm key)"
  obtain der sealed where s: "lb_export lib key = Some der" "lb_seal lib (encodeConstraintMeta kc ?alg @ der) h = Some sealed"
    "files' = AList.update h sealed files"
    using assms(2) by (auto simp: Save_def sanitize_plain [OF assms(6)] Let_def split: option.splits if_splits)
  note alg = algorithm_round_trip [OF assms(3)]
  have "decodeConstraintMeta (encodeConstraintMeta kc ?alg @ der) = Inr (kc, ?alg, der)"
    using meta_round_trip assms(4,5) alg by simp
  then have "open_key lib h sealed = Inr \<lparr>hk_signer = key, hk_constraints = kc\<rparr>"
    using assms(1) s(1,2) alg by (auto simp: open_key_def signingKeyFromSealedBytes_def lib_ok_def)
  with s(3) that show thesis by blast
qed

lemma backed_save:
  assumes "backed lib files keys" and "open_key lib h sealed = Inr held" and "plain_handle h"
  shows "backed lib (AList.update h sealed files) ((h, held) # keys)"
  using assms set_alist_update [of h sealed files] unfolding backed_def
  by (fastforce simp: opens_def update_conv' split: if_splits)

lemma backed_delete:
  assumes "backed lib files keys"
  shows "backed lib files (AList.delete h keys)" and "backed lib (AList.delete h files) (AList.delete h keys)"
  using assms set_alist_delete [of h files] unfolding backed_def
  by (auto simp: delete_conv' split: if_splits)

lemma lookup_backed:
  assumes "backed lib files (ss_keys s)" and "ss_files s = Some files" and "plain_handle h" and "lookup_handle lib h s = (s', r)"
  shows "ss_files s' = Some files" and "backed lib files (ss_keys s')"
  using assms by (auto simp: lookup_handle_def LoadHandle_def sanitize_plain backed_def Let_def
      split: if_splits option.splits sum.splits)

lemma Generate_backed:
  assumes "lib_ok lib" and "backed lib files (ss_keys s)" and "ss_files s = Some files"
    and "\<forall>i. (if gr_RequestedId req = '''' then sc_random call else Some (gr_RequestedId req)) = Some i \<longrightarrow> plain_handle i"
    and "small_enum (set (gr_AllowedPurposes req))" and "small_enum (set (gr_AllowedHashes req))"
  shows "\<exists>files'. ss_files (fst (GenerateKey lib call req s)) = Some files' \<and> backed lib files' (ss_keys (fst (GenerateKey lib call req s)))"
proof -
  consider "fst (GenerateKey lib call req s) = s"
    | h where "fst (GenerateKey lib call req s) = s\<lparr>ss_keys := AList.delete h (ss_keys s)\<rparr>"
    | h key kc files' where "algorithmFromProto (gr_Algorithm req) = Inr (km_Algorithm key)" "plain_handle h"
        "small_enum (kc_purposes kc)" "small_enum (kc_hashes kc)" "Save lib (sc_written call) h key kc files = Inr files'"
        "fst (GenerateKey lib call req s) = s\<lparr>ss_keys := (h, \<lparr>hk_signer = key, hk_constraints = kc\<rparr>) # ss_keys s, ss_files := Some files'\<rparr>"
  proof (cases "\<exists>alg kc0 key0 h. algorithmFromProto (gr_Algorithm req) = Inr alg \<and> constraintsFromGenerate req = Inr kc0
      \<and> \<not> (requireAuthFromGenerateMD (sc_require call) \<and> ss_authorizer s = None) \<and> sc_newkey call = Some key0
      \<and> (if gr_RequestedId req = '''' then sc_random call else Some (gr_RequestedId req)) = Some h \<and> map_of (ss_keys s) h = None")
    case True
    then obtain alg kc0 key0 h where g: "algorithmFromProto (gr_Algorithm req) = Inr alg" "constraintsFromGenerate req = Inr kc0"
      "\<not> (requireAuthFromGenerateMD (sc_require call) \<and> ss_authorizer s = None)" "sc_newkey call = Some key0"
      "(if gr_RequestedId req = '''' then sc_random call else Some (gr_RequestedId req)) = Some h" "map_of (ss_keys s) h = None" by blast
    let ?key = "key0\<lparr>km_Algorithm := alg\<rparr>" and ?kc = "if requireAuthFromGenerateMD (sc_require call) then kc0\<lparr>kc_requireAuth := True\<rparr> else kc0"
    from g(2) have kc: "kc_purposes kc0 = set (gr_AllowedPurposes req)" "kc_hashes kc0 = set (gr_AllowedHashes req)"
      by (auto simp: constraintsFromGenerate_def split: if_splits)
    show thesis
    proof (cases "Save lib (sc_written call) h ?key ?kc files")
      case (Inl e)
      then show thesis using g assms(3) by (intro that(2) [of h]) (auto simp: GenerateKey_def Let_def)
    next
      case (Inr files')
      then show thesis using g kc assms(3-6)
        by (intro that(3) [of ?key h ?kc files']) (auto simp: GenerateKey_def Let_def)
    qed
  next
    case False
    have "fst (GenerateKey lib call req s) = s"
      using False unfolding GenerateKey_def Let_def
      by (cases "algorithmFromProto (gr_Algorithm req)"; cases "constraintsFromGenerate req"; cases "sc_newkey call";
          cases "if gr_RequestedId req = '''' then sc_random call else Some (gr_RequestedId req)"; auto)
    then show thesis by (rule that(1))
  qed
  then show ?thesis
  proof cases
    case 1
    with assms show ?thesis by auto
  next
    case 2
    with assms(2,3) backed_delete(1) [OF assms(2), of h] show ?thesis by simp
  next
    case 3
    obtain sealed where "files' = AList.update h sealed files" "open_key lib h sealed = Inr \<lparr>hk_signer = key, hk_constraints = kc\<rparr>"
      using Save_opens [OF assms(1) 3(5,1,3,4,2)] by blast
    with backed_save [OF assms(2) _ 3(2)] 3(6) show ?thesis by simp
  qed
qed

lemma reach_backed:
  assumes "lib_ok lib" and "signer_reach lib a s"
  shows "ss_authorizer s = a \<and> (\<exists>files. ss_files s = Some files \<and> backed lib files (ss_keys s))"
  using assms(2)
proof induction
  case (start s)
  then show ?case by (auto simp: NewPersistentServer_def backed_def)
next
  case (generate s req call)
  then obtain files where f: "ss_files s = Some files" "backed lib files (ss_keys s)" by blast
  have "ss_authorizer (fst (GenerateKey lib call req s)) = ss_authorizer s"
    by (auto simp: GenerateKey_def Let_def split: sum.splits option.splits)
  with Generate_backed [OF assms(1) f(2,1) generate(2,3,4)] generate.IH show ?case by simp
next
  case (public_key s h)
  then obtain files where f: "ss_files s = Some files" "backed lib files (ss_keys s)" by blast
  obtain s' r where l: "lookup_handle lib h s = (s', r)" by fastforce
  then have "fst (GetPublicKey lib h s) = s'" by (simp add: GetPublicKey_def split: sum.splits)
  with lookup_backed [OF f(2,1) public_key(2) l] lookup_authorizer [OF l] public_key.IH show ?case by simp
next
  case (sign s sreq call)
  then obtain files where f: "ss_files s = Some files" "backed lib files (ss_keys s)" by blast
  obtain s' r where l: "lookup_handle lib (sq_Handle sreq) s = (s', r)" by fastforce
  then have "fst (Sign lib call sreq s) \<in> {s, s'}" by (auto simp: Sign_def split: sum.splits option.splits)
  with lookup_backed [OF f(2,1) sign(2) l] lookup_authorizer [OF l] f sign.IH show ?case by auto
next
  case (destroy s h call)
  then show ?case
    by (auto simp: DestroyKey_def Remove_def sanitize_plain Let_def backed_delete split: option.splits)
next
  case (shutdown s)
  then show ?case by (auto simp: Shutdown_def backed_def)
next
  case (restart s files s')
  then have b: "backed lib files (ss_keys s)" by auto
  from Load_backed [of files lib] b obtain keys where "Load lib files = Inr keys" "backed lib files keys" by (auto simp: backed_def)
  with restart(3) show ?case by (auto simp: NewPersistentServer_def)
qed


section \<open>The client is served\<close>

text \<open>a client that shares the authorizer's secret is served: when the handle resolves to a key whose limits
  permit the purpose and the hash, and the digest has the length of the hash, the process accepts the
  token of the client and answers with the key's signature, for dual-control keys too.\<close>

theorem dual_control_signer_served:
  assumes "lookup_handle lib (rs_handle r) s = (s', Inr held)" and "rs_handle r \<noteq> ''''"
    and "rs_authorizer r = Some secret" and "ss_authorizer s = Some secret" and "\<And>m. lb_hmac lib secret m \<noteq> ''''"
    and "(hash, length digest) \<in> {(''SHA-256'', 32), (''SHA-384'', 48), (''SHA-512'', 64)}" and "padding \<in> {''PSS'', ''PKCS1v15''}"
    and "kc_purposes (hk_constraints held) = {} \<or> rs_purpose r \<noteq> 0 \<and> rs_purpose r \<in> kc_purposes (hk_constraints held)"
    and "kc_hashes (hk_constraints held) = {} \<or> hashToProto hash \<in> kc_hashes (hk_constraints held)"
    and "lb_sign lib (hk_signer held) digest hash padding = Some sig"
  shows "SignDigest lib call r digest hash padding s = (s', Inr sig)"
proof -
  let ?req = "remote_request r digest hash padding"
  have valid: "validateSignRequest ?req = None" and hash: "mustHashForIntent (hashToProto hash) = hash"
    and pad: "paddingFromProto (paddingToProto padding) = padding"
    using assms(2,6,7) by (auto simp: validateSignRequest_def remote_request_def hashToProto_def hashFromProto_def
        mustHashForIntent_def paddingFromProto_def paddingToProto_def)
  have "check_constraints (hk_constraints held) ?req = None"
    using assms(8,9) by (auto simp: check_constraints_def remote_request_def)
  moreover have "enforceDualControl lib (call\<lparr>sc_tokens := [lb_hmac lib secret (canonicalBytes (intentFor ?req))]\<rparr>) ?req s' = None"
    using assms(4,5) lookup_authorizer [OF assms(1)] by (simp add: enforceDualControl_def Authorizer_Verify_def Authorize_def)
  ultimately show ?thesis
    using valid assms(1,3,10) hash pad by (simp add: SignDigest_def Let_def Authorize_def Sign_def) (simp add: remote_request_def)
qed

section \<open>Examples\<close>

definition sample_lib :: signer_lib where
  "sample_lib = \<lparr>lb_export = \<lambda>k. Some (km_Private k), lb_import = \<lambda>alg b. Some \<lparr>km_Algorithm = alg, km_Private = b\<rparr>,
     lb_import_pkcs8 = \<lambda>b. Some \<lparr>km_Algorithm = ''RSA-2048'', km_Private = b\<rparr>,
     lb_seal = \<lambda>p n. Some (n @ CHR ''|'' # p), lb_open = \<lambda>c n. if take (length n + 1) c = n @ ''|'' then Some (drop (length n + 1) c) else None,
     lb_public = \<lambda>k. ''pub '' @ km_Private k, lb_sign = \<lambda>k d h p. Some (km_Private k @ '' signs''), lb_hmac = \<lambda>k m. k\<rparr>"

lemma sample_lib_ok: "lib_ok sample_lib"
  by (simp add: lib_ok_def sample_lib_def)

definition sample_call :: "string \<Rightarrow> signer_call" where
  "sample_call k = \<lparr>sc_newkey = Some \<lparr>km_Algorithm = '''', km_Private = k\<rparr>, sc_random = None, sc_require = [], sc_tokens = [],
     sc_written = True, sc_removed = True\<rparr>"

definition sample_generate :: "string \<Rightarrow> int list \<Rightarrow> GenerateKeyRequest" where
  "sample_generate i ps = \<lparr>gr_Algorithm = 4, gr_RequestedId = i, gr_AllowedPurposes = ps, gr_AllowedHashes = [1]\<rparr>"

definition sample_secret :: bytes where
  "sample_secret = ''0123456789abcdef''"

definition sample_server :: signer_server where
  "sample_server = \<lparr>ss_keys = [], ss_serving = True, ss_files = Some [], ss_authorizer = Some sample_secret\<rparr>"

definition sample_sign :: "string \<Rightarrow> int \<Rightarrow> SignRequest" where
  "sample_sign h p = \<lparr>sq_Handle = h, sq_Digest = replicate 32 (CHR ''d''), sq_Hash = 1, sq_RsaPadding = 0, sq_Purpose = p\<rparr>"

definition sample_ca :: signer_server where
  "sample_ca = fst (GenerateKey sample_lib ((sample_call ''k1'')\<lparr>sc_require := [''1'']\<rparr>) (sample_generate ''issuing-ca'' [1]) sample_server)"



lemma sample_ca_eq: "sample_ca = \<lparr>ss_keys = [(''issuing-ca'', \<lparr>hk_signer = \<lparr>km_Algorithm = ''ECDSA-P256'', km_Private = ''k1''\<rparr>,
    hk_constraints = \<lparr>kc_purposes = {1}, kc_hashes = {1}, kc_requireAuth = True\<rparr>\<rparr>)], ss_serving = True,
    ss_files = ss_files sample_ca, ss_authorizer = Some sample_secret\<rparr>"
  by code_simp

theorem sign_within_mandate_witness:
  "\<exists>held hash. lookup_handle sample_lib ''issuing-ca'' sample_ca = (sample_ca, Inr held)
     \<and> hashFromProto 1 = Inr (hash, 32)
     \<and> (kc_purposes (hk_constraints held) = {} \<or> 1 \<in> kc_purposes (hk_constraints held))
     \<and> (kc_requireAuth (hk_constraints held) \<longrightarrow> (\<exists>secret. ss_authorizer sample_ca = Some secret))"
proof -
  have "lookup_handle sample_lib ''issuing-ca'' sample_ca = (sample_ca, Inr \<lparr>hk_signer = \<lparr>km_Algorithm = ''ECDSA-P256'', km_Private = ''k1''\<rparr>,
      hk_constraints = \<lparr>kc_purposes = {1}, kc_hashes = {1}, kc_requireAuth = True\<rparr>\<rparr>)" "ss_authorizer sample_ca = Some sample_secret"
    by code_simp+
  then have "Sign sample_lib ((sample_call ''k1'')\<lparr>sc_tokens := [sample_secret]\<rparr>) (sample_sign ''issuing-ca'' 1) sample_ca = (sample_ca, Inr ''k1 signs'')"
    by (simp add: Sign_def validateSignRequest_def hashFromProto_def check_constraints_def enforceDualControl_def Authorizer_Verify_def
        Authorize_def sample_sign_def sample_secret_def) (simp add: sample_lib_def)
  from sign_within_mandate [OF this] show ?thesis by (auto simp: sample_sign_def)
qed

theorem token_binds_intent_witness:
  "\<exists>x y. x \<noteq> y \<and> lb_hmac sample_lib sample_secret x = lb_hmac sample_lib sample_secret y \<and> lb_hmac sample_lib sample_secret x = sample_secret"
proof -
  let ?i = "intentFor (sample_sign ''issuing-ca'' 1)"
  have "Authorizer_Verify (lb_hmac sample_lib) (Some sample_secret) ?i sample_secret"
    "Authorizer_Verify (lb_hmac sample_lib) (Some sample_secret) (?i\<lparr>si_Purpose := 2\<rparr>) sample_secret"
    "intent_ok ?i" "intent_ok (?i\<lparr>si_Purpose := 2\<rparr>)" "?i \<noteq> ?i\<lparr>si_Purpose := 2\<rparr>"
    by (simp_all add: Authorizer_Verify_def Authorize_def sample_lib_def sample_secret_def intent_ok_def intentFor_def sample_sign_def
        mustHashForIntent_def hashFromProto_def paddingFromProto_def)
  from token_binds_intent [OF this] show ?thesis .
qed

theorem constraint_meta_round_trip_witness:
  "decodeConstraintMeta (encodeConstraintMeta \<lparr>kc_purposes = {1, 3}, kc_hashes = {2}, kc_requireAuth = True\<rparr> 8 @ ''der'')
   = Inr (\<lparr>kc_purposes = {1, 3}, kc_hashes = {2}, kc_requireAuth = True\<rparr>, 8, ''der'')"
  by (rule constraint_meta_round_trip) (simp_all add: small_enum_def)


theorem dual_control_signer_served_witness:
  "SignDigest sample_lib (sample_call ''k1'') \<lparr>rs_handle = ''issuing-ca'', rs_algorithm = ''ECDSA-P256'', rs_public = '''', rs_purpose = 1,
      rs_authorizer = Some sample_secret\<rparr> (replicate 32 (CHR ''d'')) ''SHA-256'' ''PKCS1v15'' sample_ca = (sample_ca, Inr ''k1 signs'')"
proof (rule dual_control_signer_served [where secret = sample_secret])
  show "lookup_handle sample_lib (rs_handle \<lparr>rs_handle = ''issuing-ca'', rs_algorithm = ''ECDSA-P256'', rs_public = '''', rs_purpose = 1,
      rs_authorizer = Some sample_secret\<rparr>) sample_ca = (sample_ca, Inr \<lparr>hk_signer = \<lparr>km_Algorithm = ''ECDSA-P256'', km_Private = ''k1''\<rparr>,
         hk_constraints = \<lparr>kc_purposes = {1}, kc_hashes = {1}, kc_requireAuth = True\<rparr>\<rparr>)"
    by code_simp
  show "ss_authorizer sample_ca = Some sample_secret" by code_simp
qed (simp_all add: sample_lib_def sample_secret_def hashToProto_def)

section \<open>Divergences\<close>

text \<open>Two handles that differ only outside the file name alphabet share one file: after a restart the second
  key answers for the first handle, and the first key is lost.\<close>

definition alias_run :: "signer_server \<Rightarrow> signer_error + signer_server" where
  "alias_run s =
     (let s1 = fst (GenerateKey sample_lib (sample_call ''k1'') (sample_generate ''ca.1'' [1]) s);
          s2 = fst (GenerateKey sample_lib (sample_call ''k2'') (sample_generate ''ca_1'' [1]) s1)
      in NewPersistentServer sample_lib (the (ss_files s2)) (ss_authorizer s2))"

theorem aliased_handle_signs_with_other_key:
  "snd (GenerateKey sample_lib (sample_call ''k1'') (sample_generate ''ca.1'' [1]) sample_server) = Inr (''ca.1'', 4, ''pub k1'')
   \<and> (case alias_run sample_server of Inl _ \<Rightarrow> False
      | Inr s \<Rightarrow> snd (Sign sample_lib (sample_call '''') (sample_sign ''ca.1'' 1) s) = Inr ''k2 signs'')"
  by code_simp

text \<open>Purposes above one byte are kept in memory and truncated in the file: a key limited to purpose 257 signs
  for purpose 1 after a restart, and for it only.\<close>

definition wide_run :: "signer_server \<Rightarrow> signer_server" where
  "wide_run s = fst (GenerateKey sample_lib (sample_call ''k1'') (sample_generate ''wide'' [257]) s)"

theorem wide_purpose_changes_on_restart:
  "snd (Sign sample_lib (sample_call '''') (sample_sign ''wide'' 1) (wide_run sample_server)) =
     Inl (FailedPrecondition ''purpose is not permitted for this key'')
   \<and> (case NewPersistentServer sample_lib (the (ss_files (wide_run sample_server))) None of Inl _ \<Rightarrow> False
      | Inr s \<Rightarrow> snd (Sign sample_lib (sample_call '''') (sample_sign ''wide'' 1) s) = Inr ''k1 signs'')"
  by code_simp

text \<open>A destruction whose file removal fails leaves the file; the retry finds no key in memory, reports success,
  and the next request loads the key again.\<close>

definition destroy_run :: "signer_server \<Rightarrow> signer_server" where
  "destroy_run s =
     (let s1 = fst (GenerateKey sample_lib (sample_call ''k1'') (sample_generate ''gone'' [1]) s)
      in fst (DestroyKey ((sample_call '''')\<lparr>sc_removed := False\<rparr>) ''gone'' s1))"

theorem destroyed_key_signs_again:
  "DestroyKey (sample_call '''') ''gone'' (destroy_run sample_server) = (destroy_run sample_server, None)
   \<and> snd (Sign sample_lib (sample_call '''') (sample_sign ''gone'' 1) (destroy_run sample_server)) = Inr ''k1 signs''"
  by code_simp

end
