(* ===== verification/SignerHost.thy ===== *)
theory SignerHost
  imports Signer
begin

text \<open>
  The signing process around its server: admission of requests (\<^verbatim>\<open>signing/bulkhead.go\<close>, \<^verbatim>\<open>serve.go\<close>),
  admission of connections (\<^verbatim>\<open>peer.go\<close>), and the supervisor in the control plane that keeps the process
  running (\<^verbatim>\<open>supervisor.go\<close>).

  Requests and child processes interleave freely: both are step relations. A handler is one step between
  the admission of its request and its end. A summary of an exit is ASCII text.
\<close>

section \<open>Admission of requests\<close>

record limiter =
  lm_capacity :: nat
  lm_slots :: nat

definition newLimiter :: "int \<Rightarrow> limiter" where
  "newLimiter capacity = \<lparr>lm_capacity = nat (if capacity < 1 then 1 else capacity), lm_slots = 0\<rparr>"

definition tryAcquire :: "limiter \<Rightarrow> limiter \<times> bool" where
  "tryAcquire l = (if lm_slots l < lm_capacity l then (l\<lparr>lm_slots := lm_slots l + 1\<rparr>, True) else (l, False))"

text \<open>\<open>None\<close> is a receive that blocks.\<close>

definition release :: "limiter \<Rightarrow> limiter option" where
  "release l = (if lm_slots l = 0 then None else Some (l\<lparr>lm_slots := lm_slots l - 1\<rparr>))"

datatype rpc =
    RGenerateKey signer_call GenerateKeyRequest
  | RGetPublicKey string
  | RSign signer_call SignRequest
  | RDestroyKey signer_call string
  | RHealth

fun FullMethod :: "rpc \<Rightarrow> string" where
  "FullMethod (RGenerateKey _ _) = ''/trstctl.signing.v1.SignerService/GenerateKey''"
| "FullMethod (RGetPublicKey _) = ''/trstctl.signing.v1.SignerService/GetPublicKey''"
| "FullMethod (RSign _ _) = ''/trstctl.signing.v1.SignerService/Sign''"
| "FullMethod (RDestroyKey _ _) = ''/trstctl.signing.v1.SignerService/DestroyKey''"
| "FullMethod RHealth = ''/trstctl.signing.v1.SignerService/Health''"

definition expensiveMethods :: "string set" where
  "expensiveMethods = {''/trstctl.signing.v1.SignerService/Sign'', ''/trstctl.signing.v1.SignerService/GenerateKey''}"

datatype rpc_answer =
    AGenerated "signer_error + string \<times> int \<times> bytes"
  | APublic "signer_error + int \<times> bytes"
  | ASigned "signer_error + bytes"
  | ADestroyed "signer_error option"
  | AHealth bool
  | AResourceExhausted nat string

fun handler :: "signer_lib \<Rightarrow> rpc \<Rightarrow> signer_server \<Rightarrow> signer_server \<times> rpc_answer" where
  "handler lib (RGenerateKey call req) s = map_prod id AGenerated (GenerateKey lib call req s)"
| "handler lib (RGetPublicKey h) s = map_prod id APublic (GetPublicKey lib h s)"
| "handler lib (RSign call req) s = map_prod id ASigned (Sign lib call req s)"
| "handler lib (RDestroyKey call h) s = map_prod id ADestroyed (DestroyKey call h s)"
| "handler lib RHealth s = (s, AHealth (Health s))"

text \<open>The interceptor before the handler (a refusal, or nothing) and after it.\<close>

definition method_name :: "string \<Rightarrow> string" where
  "method_name m = (case last_index_byte m (CHR ''/'') of None \<Rightarrow> m | Some i \<Rightarrow> drop (i + 1) m)"

definition bulkhead_enter :: "rpc \<Rightarrow> limiter \<Rightarrow> limiter \<times> rpc_answer option" where
  "bulkhead_enter r l =
     (if FullMethod r \<notin> expensiveMethods then (l, None)
      else case tryAcquire l of
             (l1, True) \<Rightarrow> (l1, None)
           | (l1, False) \<Rightarrow> (l1, Some (AResourceExhausted (lm_capacity l1) (method_name (FullMethod r)))))"

definition bulkhead_exit :: "rpc \<Rightarrow> limiter \<Rightarrow> limiter option" where
  "bulkhead_exit r l = (if FullMethod r \<notin> expensiveMethods then Some l else release l)"

record serve_host =
  ho_server :: signer_server
  ho_limiter :: limiter
  ho_running :: "rpc list"

definition inflight_limit :: "int \<Rightarrow> int" where
  "inflight_limit maxInflight = (if maxInflight \<le> 0 then 32 else maxInflight)"

definition serveGRPC :: "int \<Rightarrow> signer_server \<Rightarrow> serve_host" where
  "serveGRPC maxInflight svc = \<lparr>ho_server = svc, ho_limiter = newLimiter (inflight_limit maxInflight), ho_running = []\<rparr>"

inductive host_reach :: "signer_lib \<Rightarrow> int \<Rightarrow> signer_server \<Rightarrow> serve_host \<Rightarrow> bool" for lib maxInflight svc where
  start: "host_reach lib maxInflight svc (serveGRPC maxInflight svc)"
| enter: "host_reach lib maxInflight svc h \<Longrightarrow> bulkhead_enter r (ho_limiter h) = (l, None)
     \<Longrightarrow> host_reach lib maxInflight svc (h\<lparr>ho_limiter := l, ho_running := r # ho_running h\<rparr>)"
| refuse: "host_reach lib maxInflight svc h \<Longrightarrow> bulkhead_enter r (ho_limiter h) = (l, Some e)
     \<Longrightarrow> host_reach lib maxInflight svc (h\<lparr>ho_limiter := l\<rparr>)"
| finish: "host_reach lib maxInflight svc h \<Longrightarrow> ho_running h = rs1 @ r # rs2 \<Longrightarrow> handler lib r (ho_server h) = (s, a)
     \<Longrightarrow> bulkhead_exit r (ho_limiter h) = Some l
     \<Longrightarrow> host_reach lib maxInflight svc (h\<lparr>ho_server := s, ho_limiter := l, ho_running := rs1 @ rs2\<rparr>)"

section \<open>Admission of connections\<close>

text \<open>A connection is the user id of its peer, if the system tells it.\<close>

fun Accept :: "int \<Rightarrow> bool \<Rightarrow> int option list \<Rightarrow> (int option \<times> int option list) option" where
  "Accept allowedUID allowUndetermined [] = None"
| "Accept allowedUID allowUndetermined (c # cs) =
     (if c = Some allowedUID then Some (c, cs)
      else if c = None \<and> allowUndetermined then Some (c, cs)
      else Accept allowedUID allowUndetermined cs)"

section \<open>The supervisor\<close>

datatype ExitKind = ExitUnexpected | ExitStartFailure | ExitReadinessFailure

record ExitSummary =
  ex_Kind :: ExitKind
  ex_Summary :: string
  ex_At :: gotime

definition control_char :: "char \<Rightarrow> bool" where
  "control_char c = ((of_char c :: nat) < 32 \<or> (of_char c :: nat) = 127)"

definition blank_char :: "char \<Rightarrow> bool" where
  "blank_char c = (c \<in> {CHR 0x0A, CHR 0x0D, CHR 0x09})"

text \<open>After the first step a space is the only white space left, so \<^verbatim>\<open>strings.Fields\<close> splits there.\<close>

definition fields_at_spaces :: "string \<Rightarrow> string list" where
  "fields_at_spaces s = filter (\<lambda>f. f \<noteq> []) (split_byte (CHR '' '') s)"

definition sanitizeExitSummary :: "string \<Rightarrow> string" where
  "sanitizeExitSummary summary =
     (let s1 = map (\<lambda>c. if blank_char c then CHR '' '' else c) (filter (\<lambda>c. blank_char c \<or> \<not> control_char c) summary);
          s2 = join_with '' '' (fields_at_spaces s1)
      in if s2 = '''' then ''unknown'' else if length s2 \<le> 240 then s2 else trim_space (take 240 s2))"

datatype sup_phase = Launching | Serving | Stopped

text \<open>
  \<open>sv_first\<close> and \<open>sv_backoff\<close> are the variables of the loop, \<open>sv_ready\<close> what it sent to the starter
  (\<open>Some None\<close> for a healthy start), \<open>sv_sleeps\<close> and \<open>sv_launches\<close> record the delays and launches, the
  last one first. A client is known by the process it is connected to.
\<close>

record Supervisor =
  sv_client :: "nat option"
  sv_pid :: nat
  sv_lastExit :: "ExitSummary option"
  sv_restarts :: nat
  sv_phase :: sup_phase
  sv_first :: bool
  sv_backoff :: duration
  sv_ready :: "string option option"
  sv_sleeps :: "duration list"
  sv_launches :: nat

abbreviation (input) millisecond :: duration where "millisecond \<equiv> 1000000"

definition maxBackoff :: duration where
  "maxBackoff = 5000 * millisecond"

definition new_supervisor :: Supervisor where
  "new_supervisor = \<lparr>sv_client = None, sv_pid = 0, sv_lastExit = None, sv_restarts = 0, sv_phase = Launching, sv_first = True,
     sv_backoff = 100 * millisecond, sv_ready = None, sv_sleeps = [], sv_launches = 0\<rparr>"

definition set_child :: "nat option \<Rightarrow> nat \<Rightarrow> Supervisor \<Rightarrow> Supervisor" where
  "set_child c pid s = s\<lparr>sv_client := c, sv_pid := pid\<rparr>"

definition recordLastExit :: "ExitKind \<Rightarrow> string option \<Rightarrow> gotime \<Rightarrow> Supervisor \<Rightarrow> Supervisor" where
  "recordLastExit kind err now s =
     s\<lparr>sv_lastExit := Some \<lparr>ex_Kind = kind,
         ex_Summary = sanitizeExitSummary (case err of None \<Rightarrow> ''process exited cleanly'' | Some e \<Rightarrow> e), ex_At = now\<rparr>\<rparr>"

definition backoffSleep :: "Supervisor \<Rightarrow> Supervisor" where
  "backoffSleep s =
     s\<lparr>sv_sleeps := sv_backoff s # sv_sleeps s, sv_backoff := (if sv_backoff s < maxBackoff then sv_backoff s * 2 else sv_backoff s)\<rparr>"

text \<open>One turn of the loop up to the wait for the child, and what follows the wait.\<close>

datatype launch_result = StartFails string | NeverReady string | HealthyChild nat

definition launch :: "launch_result \<Rightarrow> gotime \<Rightarrow> Supervisor \<Rightarrow> Supervisor" where
  "launch result now s0 =
     (let s = s0\<lparr>sv_restarts := (if sv_first s0 then sv_restarts s0 else (sv_restarts s0 + 1) mod 2 ^ 64), sv_launches := sv_launches s0 + 1\<rparr>
      in case result of
           StartFails e \<Rightarrow>
             if sv_first s then s\<lparr>sv_ready := Some (Some (''start signer: '' @ e)), sv_phase := Stopped\<rparr>
             else backoffSleep (recordLastExit ExitStartFailure (Some (''start signer: '' @ e)) now s)
         | NeverReady e \<Rightarrow>
             if sv_first s then s\<lparr>sv_ready := Some (Some e), sv_phase := Stopped\<rparr>
             else backoffSleep (recordLastExit ExitReadinessFailure (Some e) now s)
         | HealthyChild pid \<Rightarrow>
             (let s1 = set_child (Some pid) pid s;
                  s2 = (if sv_first s1 then s1\<lparr>sv_ready := Some None, sv_first := False\<rparr> else s1)
              in s2\<lparr>sv_backoff := 100 * millisecond, sv_phase := Serving\<rparr>))"

definition child_exit :: "string option \<Rightarrow> bool \<Rightarrow> gotime \<Rightarrow> Supervisor \<Rightarrow> Supervisor" where
  "child_exit waitErr cancelled now s0 =
     (let s = set_child None 0 s0
      in if cancelled then s\<lparr>sv_phase := Stopped\<rparr>
         else (backoffSleep (recordLastExit ExitUnexpected waitErr now s))\<lparr>sv_phase := Launching\<rparr>)"

inductive sup_reach :: "Supervisor \<Rightarrow> bool" where
  start: "sup_reach new_supervisor"
| cancelled: "sup_reach s \<Longrightarrow> sv_phase s = Launching \<Longrightarrow> sup_reach (s\<lparr>sv_phase := Stopped\<rparr>)"
| launch: "sup_reach s \<Longrightarrow> sv_phase s = Launching \<Longrightarrow> (\<forall>pid. r = HealthyChild pid \<longrightarrow> 0 < pid) \<Longrightarrow> sup_reach (launch r now s)"
| child_exit: "sup_reach s \<Longrightarrow> sv_phase s = Serving \<Longrightarrow> sup_reach (child_exit waitErr c now s)"

definition Supervisor_Client :: "Supervisor \<Rightarrow> nat option" where
  "Supervisor_Client s = sv_client s"

definition Supervisor_Pid :: "Supervisor \<Rightarrow> nat" where
  "Supervisor_Pid s = sv_pid s"

definition Restarts :: "Supervisor \<Rightarrow> nat" where
  "Restarts s = sv_restarts s"

definition LastExit :: "Supervisor \<Rightarrow> ExitSummary option" where
  "LastExit s = sv_lastExit s"

text \<open>The answer of \<^verbatim>\<open>Supervise\<close>, once the loop has one.\<close>

definition Supervise_answer :: "Supervisor \<Rightarrow> (string + Supervisor) option" where
  "Supervise_answer s = (case sv_ready s of None \<Rightarrow> None | Some (Some e) \<Rightarrow> Some (Inl e) | Some None \<Rightarrow> Some (Inr s))"

text \<open>The probes of a new child: whether it answered as serving, whether the deadline had passed after the
  probe, whether the caller gave up before the next one.\<close>

fun waitReady :: "(bool \<times> bool \<times> bool) list \<Rightarrow> (string + unit) option" where
  "waitReady [] = None"
| "waitReady ((ok, late, cancelled) # ps) =
     (if ok then Some (Inr ())
      else if late then Some (Inl ''signer not ready'')
      else if cancelled then Some (Inl ''context canceled'')
      else waitReady ps)"

section \<open>Load stays bounded\<close>

definition expensive :: "rpc \<Rightarrow> bool" where
  "expensive r = (FullMethod r \<in> expensiveMethods)"

lemma host_accounting:
  assumes "host_reach lib n svc h"
  shows "lm_slots (ho_limiter h) = length (filter expensive (ho_running h))
    \<and> lm_slots (ho_limiter h) \<le> lm_capacity (ho_limiter h) \<and> lm_capacity (ho_limiter h) = nat (inflight_limit n)"
  using assms
proof induction
  case start
  show ?case by (auto simp: serveGRPC_def newLimiter_def inflight_limit_def)
next
  case (enter h r l)
  then show ?case by (auto simp: bulkhead_enter_def tryAcquire_def expensive_def split: if_splits)
next
  case (refuse h r l e)
  then show ?case by (auto simp: bulkhead_enter_def tryAcquire_def split: if_splits)
next
  case (finish h rs1 r rs2 s a l)
  then show ?case by (auto simp: bulkhead_exit_def release_def expensive_def split: if_splits)
qed

text \<open>the signing process never runs more key operations at once than its limit, whatever requests arrive and in
  whatever order they end; below the limit a request is admitted at once, probes, public keys and
  destructions are admitted always, and no admitted request is stuck when it returns its slot.\<close>

theorem signer_load_bounded:
  assumes "host_reach lib n svc h"
  shows "length (filter expensive (ho_running h)) \<le> nat (inflight_limit n)
    \<and> (\<forall>r. snd (bulkhead_enter r (ho_limiter h)) = None \<longleftrightarrow>
         \<not> expensive r \<or> length (filter expensive (ho_running h)) < nat (inflight_limit n))
    \<and> list_all (\<lambda>r. bulkhead_exit r (ho_limiter h) \<noteq> None) (ho_running h)"
proof -
  note acc = host_accounting [OF assms]
  have "bulkhead_exit r (ho_limiter h) \<noteq> None" if "r \<in> set (ho_running h)" for r
    using that acc by (auto simp: bulkhead_exit_def release_def expensive_def filter_empty_conv)
  then show ?thesis
    using acc by (auto simp: list_all_iff bulkhead_enter_def tryAcquire_def expensive_def)
qed

section \<open>Only the control plane connects\<close>

lemma Accept_peer: "Accept uid dev cs = Some (c, rest) \<Longrightarrow> c = Some uid \<or> c = None \<and> dev"
  by (induction cs) (auto split: if_splits)

section \<open>The supervisor fails closed\<close>

lemma backoff_values: "b \<in> (\<lambda>k. 100 * millisecond * 2 ^ k) ` {.. 6} \<Longrightarrow>
    (if b < maxBackoff then b * 2 else b) \<in> (\<lambda>k :: nat. 100 * millisecond * 2 ^ k) ` {.. 6}"
  by (simp add: maxBackoff_def atMost_nat_numeral atMost_Suc numeral_eq_Suc) auto

definition sup_inv :: "Supervisor \<Rightarrow> bool" where
  "sup_inv s =
     ((sv_phase s = Serving \<longrightarrow> 0 < sv_pid s \<and> sv_client s = Some (sv_pid s) \<and> \<not> sv_first s)
      \<and> (sv_phase s \<noteq> Serving \<longrightarrow> sv_pid s = 0 \<and> sv_client s = None)
      \<and> (sv_first s \<longrightarrow> sv_restarts s = 0 \<and> sv_ready s \<noteq> Some None \<and> (sv_phase s = Launching \<longrightarrow> sv_launches s = 0))
      \<and> (\<not> sv_first s \<longrightarrow> sv_ready s = Some None \<and> 0 < sv_launches s \<and> sv_restarts s = (sv_launches s - 1) mod 2 ^ 64)
      \<and> insert (sv_backoff s) (set (sv_sleeps s)) \<subseteq> (\<lambda>k :: nat. 100 * millisecond * 2 ^ k) ` {.. 6})"

lemma sup_reach_inv: "sup_reach s \<Longrightarrow> sup_inv s"
proof (induction rule: sup_reach.induct)
  case start
  show ?case by (auto simp: sup_inv_def new_supervisor_def intro!: image_eqI [of _ _ 0])
next
  case (cancelled s)
  then show ?case by (auto simp: sup_inv_def)
next
  case (launch s r now)
  have base: "100 * millisecond \<in> (\<lambda>k :: nat. 100 * millisecond * 2 ^ k) ` {.. 6}" by (auto intro!: image_eqI [of _ _ 0])
  have count: "0 < n \<Longrightarrow> Suc ((n - Suc 0) mod 18446744073709551616) mod 18446744073709551616 = n mod 18446744073709551616" for n :: nat
    using mod_Suc_eq [of "n - 1" 18446744073709551616] by simp
  show ?case
    using launch backoff_values [of "sv_backoff s"] base count [of "sv_launches s"]
    by (cases r) (auto simp: sup_inv_def launch_def set_child_def recordLastExit_def backoffSleep_def Let_def simp del: image_iff)
next
  case (child_exit s waitErr c now)
  then show ?case
    using backoff_values [of "sv_backoff s"]
    by (auto simp: sup_inv_def child_exit_def set_child_def recordLastExit_def backoffSleep_def Let_def simp del: image_iff)
qed


section \<open>Summaries of exits\<close>

lemma set_join_with: "set (join_with sep xs) \<subseteq> set sep \<union> (\<Union>x \<in> set xs. set x)"
  by (induction sep xs rule: join_with.induct) auto

lemma set_split_byte: "x \<in> set (split_byte c s) \<Longrightarrow> set x \<subseteq> set s"
proof (induction c s arbitrary: x rule: split_byte.induct)
  case (2 c y ys)
  then have "set p \<subseteq> set ys" if "p \<in> set (split_byte c ys)" for p using that by (cases "y = c") auto
  with 2(3) show ?case by (fastforce split: if_splits list.splits)
qed simp

lemma split_byte_parts: "x \<in> set (split_byte c s) \<Longrightarrow> c \<notin> set x"
  by (induction c s arbitrary: x rule: split_byte.induct) (auto split: if_splits list.splits)

lemma join_with_hd: "fs \<noteq> [] \<Longrightarrow> hd fs \<noteq> [] \<Longrightarrow> join_with sep fs \<noteq> [] \<and> hd (join_with sep fs) = hd (hd fs)"
  by (induction sep fs rule: join_with.induct) auto

lemma trim_space_set: "set (trim_space s) \<subseteq> set s"
  by (auto simp: trim_space_def trim_func_def dest!: set_dropWhileD)

lemma trim_space_length: "length (trim_space s) \<le> length s"
  by (simp add: trim_space_def trim_func_def) (metis dual_order.trans length_dropWhile_le length_rev)

lemma trim_space_nonempty: "s \<noteq> [] \<Longrightarrow> \<not> is_space (hd s) \<Longrightarrow> trim_space s \<noteq> []"
  by (cases s) (auto simp: trim_space_def trim_func_def dropWhile_append)

text \<open>A stored summary is one short line: never empty, at most 240 characters, no control character.\<close>

theorem exit_summary_is_one_line:
  "sanitizeExitSummary summary \<noteq> '''' \<and> length (sanitizeExitSummary summary) \<le> 240
   \<and> list_all (\<lambda>c. \<not> control_char c) (sanitizeExitSummary summary)"
proof -
  define s1 where "s1 = map (\<lambda>c. if blank_char c then CHR '' '' else c) (filter (\<lambda>c. blank_char c \<or> \<not> control_char c) summary)"
  define s2 where "s2 = join_with '' '' (fields_at_spaces s1)"
  have san: "sanitizeExitSummary summary = (if s2 = '''' then ''unknown'' else if length s2 \<le> 240 then s2 else trim_space (take 240 s2))"
    by (simp add: sanitizeExitSummary_def s1_def s2_def Let_def)
  have "\<forall>c \<in> set s1. \<not> control_char c" by (auto simp: s1_def control_char_def)
  moreover have "set s2 \<subseteq> insert (CHR '' '') (set s1)"
    using set_join_with [of "'' ''" "fields_at_spaces s1"] set_split_byte [of _ "CHR '' ''" s1] by (auto simp: s2_def fields_at_spaces_def)
  moreover have "\<not> control_char (CHR '' '')" by (simp add: control_char_def)
  ultimately have clean: "\<forall>c \<in> set s2. \<not> control_char c" by blast
  have first: "\<not> is_space (hd s2)" if "s2 \<noteq> ''''"
  proof -
    have ne: "fields_at_spaces s1 \<noteq> []" using that by (auto simp: s2_def)
    then have h: "hd (fields_at_spaces s1) \<in> set (split_byte (CHR '' '') s1)" "hd (fields_at_spaces s1) \<noteq> []"
      using hd_in_set [OF ne] by (auto simp: fields_at_spaces_def)
    then have "hd s2 \<noteq> CHR '' ''"
      using split_byte_parts [OF h(1)] join_with_hd [OF ne h(2)] hd_in_set [OF h(2)] by (metis s2_def)
    moreover have "\<not> control_char (hd s2)" using clean that by simp
    ultimately show ?thesis by (auto simp: is_space_def control_char_def)
  qed
  have long: "trim_space (take 240 s2) \<noteq> ''''" if "s2 \<noteq> ''''"
    using first [OF that] that by (intro trim_space_nonempty) auto
  have "list_all (\<lambda>c. \<not> control_char c) (trim_space (take 240 s2))"
    using clean trim_space_set [of "take 240 s2"] set_take_subset [of 240 s2] by (auto simp: list_all_iff)
  moreover have "length (trim_space (take 240 s2)) \<le> 240" using trim_space_length [of "take 240 s2"] by simp
  moreover have "list_all (\<lambda>c. \<not> control_char c) ''unknown''" by (simp add: control_char_def)
  ultimately show ?thesis using long clean by (simp add: san list_all_iff)
qed

section \<open>Examples and divergences\<close>

definition sample_host :: serve_host where
  "sample_host = (let h = serveGRPC 1 sample_ca; r = RSign (sample_call '''') (sample_sign ''issuing-ca'' 1)
     in h\<lparr>ho_limiter := fst (bulkhead_enter r (ho_limiter h)), ho_running := r # ho_running h\<rparr>)"

theorem signer_load_bounded_witness:
  "length (filter expensive (ho_running sample_host)) \<le> 1
   \<and> snd (bulkhead_enter (RSign (sample_call '''') (sample_sign ''issuing-ca'' 1)) (ho_limiter sample_host)) \<noteq> None
   \<and> snd (bulkhead_enter RHealth (ho_limiter sample_host)) = None"
proof -
  have "host_reach sample_lib 1 sample_ca sample_host"
    unfolding sample_host_def Let_def
    by (rule host_reach.enter [OF host_reach.start])
      (simp add: serveGRPC_def newLimiter_def inflight_limit_def bulkhead_enter_def tryAcquire_def)
  note bounded = signer_load_bounded [OF this]
  have "length (filter expensive (ho_running sample_host)) = 1" "expensive (RSign (sample_call '''') (sample_sign ''issuing-ca'' 1))" "\<not> expensive RHealth"
    by (simp_all add: sample_host_def serveGRPC_def expensive_def expensiveMethods_def Let_def)
  with bounded show ?thesis by (simp add: inflight_limit_def)
qed

definition failing_child :: "nat \<Rightarrow> Supervisor" where
  "failing_child n = ((launch (StartFails ''no such file'') 0) ^^ n) (child_exit None False 0 (launch (HealthyChild 7) 0 new_supervisor))"

lemma failing_child_reach: "sup_reach (failing_child n) \<and> sv_phase (failing_child n) = Launching \<and> \<not> sv_first (failing_child n)"
proof (induction n)
  case 0
  have "sup_reach (launch (HealthyChild 7) 0 new_supervisor)"
    by (rule sup_reach.launch [OF sup_reach.start]) (simp_all add: new_supervisor_def)
  then have "sup_reach (failing_child 0)"
    by (simp add: failing_child_def) (rule sup_reach.child_exit, assumption, simp add: launch_def set_child_def Let_def new_supervisor_def)
  then show ?case
    by (simp add: failing_child_def child_exit_def launch_def set_child_def new_supervisor_def recordLastExit_def backoffSleep_def Let_def)
next
  case (Suc n)
  have "failing_child (Suc n) = launch (StartFails ''no such file'') 0 (failing_child n)" by (simp add: failing_child_def)
  with Suc sup_reach.launch [of "failing_child n" "StartFails ''no such file''" 0] show ?case
    by (simp add: launch_def recordLastExit_def backoffSleep_def Let_def)
qed

lemma failing_child_0 [simp]:
  "sv_backoff (failing_child 0) = 200 * millisecond" "sv_sleeps (failing_child 0) = [100 * millisecond]" "sv_launches (failing_child 0) = 1"
  "sv_ready (failing_child 0) = Some None"
  by (simp_all add: failing_child_def child_exit_def launch_def set_child_def new_supervisor_def recordLastExit_def backoffSleep_def
      maxBackoff_def Let_def)

lemma failing_child_Suc [simp]:
  "sv_backoff (failing_child (Suc n)) =
     (if sv_backoff (failing_child n) < maxBackoff then sv_backoff (failing_child n) * 2 else sv_backoff (failing_child n))"
  "sv_sleeps (failing_child (Suc n)) = sv_backoff (failing_child n) # sv_sleeps (failing_child n)"
  "sv_launches (failing_child (Suc n)) = Suc (sv_launches (failing_child n))" "sv_ready (failing_child (Suc n)) = sv_ready (failing_child n)"
proof -
  have "failing_child (Suc n) = launch (StartFails ''no such file'') 0 (failing_child n)" by (simp add: failing_child_def)
  with failing_child_reach [of n]
  show "sv_backoff (failing_child (Suc n)) =
     (if sv_backoff (failing_child n) < maxBackoff then sv_backoff (failing_child n) * 2 else sv_backoff (failing_child n))"
    "sv_sleeps (failing_child (Suc n)) = sv_backoff (failing_child n) # sv_sleeps (failing_child n)"
    "sv_launches (failing_child (Suc n)) = Suc (sv_launches (failing_child n))" "sv_ready (failing_child (Suc n)) = sv_ready (failing_child n)"
    by (simp_all add: launch_def recordLastExit_def backoffSleep_def Let_def)
qed


text \<open>The delay between launches passes the limit it is compared with: it is checked before it is doubled.\<close>

theorem backoff_passes_its_limit:
  "sup_reach (failing_child 6) \<and> hd (sv_sleeps (failing_child 6)) = 6400 * millisecond \<and> hd (sv_sleeps (failing_child 6)) > maxBackoff"
proof -
  have "failing_child 6 = failing_child (Suc (Suc (Suc (Suc (Suc (Suc 0))))))" by (simp add: eval_nat_numeral)
  then have "hd (sv_sleeps (failing_child 6)) = 6400 * millisecond \<and> hd (sv_sleeps (failing_child 6)) > maxBackoff"
    by (simp add: maxBackoff_def)
  with failing_child_reach show ?thesis by blast
qed

end
