(* ===== verification/Rotation.thy ===== *)
theory Rotation
  imports DynSecret
begin

text \<open>
  Rotation of secrets: the engine with its rollback (\<^verbatim>\<open>internal/rotation\<close>), delivery of secrets to
  external platforms (\<^verbatim>\<open>internal/secretsync\<close>), and the rotators: the one over a credential backend
  (\<^verbatim>\<open>rotation/rotators.go\<close>) and the one over dynamic leases (\<^verbatim>\<open>api/secrets.go\<close>).

  The engine relies on a rotator through the locale \<open>safe_rotator\<close>, which the backend rotator provides.
  Errors are their texts. Backends, verifiers and platforms are functions on a state of their own. The
  mutexes guard single map accesses; a rotation is one sequence of steps.
\<close>

section \<open>The engine\<close>

record 'r Rotator =
  ro_Stage :: "string \<Rightarrow> 'r \<Rightarrow> 'r \<times> (string + string)"
  ro_Cutover :: "string \<Rightarrow> string \<Rightarrow> 'r \<Rightarrow> 'r \<times> string option"
  ro_Verify :: "string \<Rightarrow> 'r \<Rightarrow> 'r \<times> string option"
  ro_Retire :: "string \<Rightarrow> string \<Rightarrow> 'r \<Rightarrow> 'r \<times> string option"
  ro_Rollback :: "string \<Rightarrow> string \<Rightarrow> 'r \<Rightarrow> 'r \<times> string option"

record Report =
  rp_Key :: string
  rp_OldRef :: string
  rp_NewRef :: string
  rp_Completed :: bool
  rp_RolledBack :: bool
  rp_RollbackAttempted :: bool
  rp_RollbackFailed :: bool
  rp_RollbackError :: string
  rp_FailedPhase :: string

datatype rotation_error = StageFailed string | RolledBackAfter string string | RollbackFailedAfter string string string | RetireFailed string

definition new_report :: "string \<Rightarrow> string \<Rightarrow> Report" where
  "new_report key oldRef = \<lparr>rp_Key = key, rp_OldRef = oldRef, rp_NewRef = '''', rp_Completed = False, rp_RolledBack = False,
     rp_RollbackAttempted = False, rp_RollbackFailed = False, rp_RollbackError = '''', rp_FailedPhase = ''''\<rparr>"

definition rotation_ev :: "string \<Rightarrow> string \<Rightarrow> string \<Rightarrow> string \<Rightarrow> audit_event" where
  "rotation_ev tenantID event key phase = audit_ev event tenantID [(''key'', AStr key), (''phase'', AStr phase)]"

definition rollback ::
  "'r Rotator \<Rightarrow> string \<Rightarrow> Report \<Rightarrow> string \<Rightarrow> string \<Rightarrow> string \<Rightarrow> string \<Rightarrow> 'r \<times> audit_event list
     \<Rightarrow> ('r \<times> audit_event list) \<times> Report \<times> rotation_error option" where
  "rollback ro tenantID rep0 key oldRef phase cause st =
     (let rep = rep0\<lparr>rp_FailedPhase := phase, rp_RollbackAttempted := True\<rparr>
      in case ro_Rollback ro key oldRef (fst st) of
           (r, Some err) \<Rightarrow>
             ((r, snd st @ [rotation_ev tenantID ''rotation.rollback_failed'' key phase]),
              rep\<lparr>rp_RollbackFailed := True, rp_RollbackError := err\<rparr>, Some (RollbackFailedAfter phase cause err))
         | (r, None) \<Rightarrow>
             ((r, snd st @ [rotation_ev tenantID ''rotation.rolled_back'' key phase]),
              rep\<lparr>rp_RolledBack := True\<rparr>, Some (RolledBackAfter phase cause)))"

definition Rotate_secret ::
  "'r Rotator \<Rightarrow> string \<Rightarrow> string \<Rightarrow> string \<Rightarrow> 'r \<times> audit_event list \<Rightarrow> ('r \<times> audit_event list) \<times> Report \<times> rotation_error option" where
  "Rotate_secret ro tenantID key oldRef st =
     (let rep0 = new_report key oldRef
      in case ro_Stage ro key (fst st) of
           (r1, Inl err) \<Rightarrow>
             ((r1, snd st @ [rotation_ev tenantID ''rotation.failed'' key ''stage'']), rep0\<lparr>rp_FailedPhase := ''stage''\<rparr>, Some (StageFailed err))
         | (r1, Inr newRef) \<Rightarrow>
             (let rep = rep0\<lparr>rp_NewRef := newRef\<rparr>;
                  log1 = snd st @ [rotation_ev tenantID ''rotation.staged'' key ''stage'']
              in case ro_Cutover ro key newRef r1 of
                   (r2, Some err) \<Rightarrow> rollback ro tenantID rep key oldRef ''cutover'' err (r2, log1)
                 | (r2, None) \<Rightarrow>
                     (case ro_Verify ro key r2 of
                        (r3, Some err) \<Rightarrow> rollback ro tenantID rep key oldRef ''verify'' err (r3, log1)
                      | (r3, None) \<Rightarrow>
                          (case ro_Retire ro key oldRef r3 of
                             (r4, Some err) \<Rightarrow>
                               ((r4, log1 @ [rotation_ev tenantID ''rotation.retire_pending'' key ''retire'']),
                                rep\<lparr>rp_FailedPhase := ''retire''\<rparr>, Some (RetireFailed err))
                           | (r4, None) \<Rightarrow>
                               ((r4, log1 @ [rotation_ev tenantID ''rotation.completed'' key ''retire'']),
                                rep\<lparr>rp_Completed := True\<rparr>, None)))))"

text \<open>
  What the engine relies on for one key and its old reference: the predicates follow a rotation from the
  state before it, through staging and cutover, to a finished or a restored state; \<open>undo\<close> holds where a
  rollback may start.
\<close>

locale safe_rotator =
  fixes ro :: "'r Rotator" and key :: string and old :: string
    and before :: "'r \<Rightarrow> bool" and staged :: "string \<Rightarrow> 'r \<Rightarrow> bool" and on_new :: "string \<Rightarrow> 'r \<Rightarrow> bool"
    and undo :: "string \<Rightarrow> 'r \<Rightarrow> bool" and restored :: "string \<Rightarrow> 'r \<Rightarrow> bool" and finished :: "string \<Rightarrow> 'r \<Rightarrow> bool"
  assumes stage_fails: "before s \<Longrightarrow> ro_Stage ro key s = (s', Inl e) \<Longrightarrow> before s'"
    and stage_ok: "before s \<Longrightarrow> ro_Stage ro key s = (s', Inr new) \<Longrightarrow> staged new s'"
    and cutover_fails: "staged new s \<Longrightarrow> ro_Cutover ro key new s = (s', Some e) \<Longrightarrow> undo new s'"
    and cutover_ok: "staged new s \<Longrightarrow> ro_Cutover ro key new s = (s', None) \<Longrightarrow> on_new new s'"
    and verify_fails: "on_new new s \<Longrightarrow> ro_Verify ro key s = (s', Some e) \<Longrightarrow> undo new s'"
    and verify_ok: "on_new new s \<Longrightarrow> ro_Verify ro key s = (s', None) \<Longrightarrow> on_new new s'"
    and retire_fails: "on_new new s \<Longrightarrow> ro_Retire ro key old s = (s', Some e) \<Longrightarrow> on_new new s'"
    and retire_ok: "on_new new s \<Longrightarrow> ro_Retire ro key old s = (s', None) \<Longrightarrow> finished new s'"
    and rollback_ok: "undo new s \<Longrightarrow> ro_Rollback ro key old s = (s', None) \<Longrightarrow> restored new s'"
begin

lemma rollback_outcome:
  assumes "undo (rp_NewRef rep0) r" and "rollback ro tn rep0 key old phase cause (r, log) = ((r', log'), rep, err)"
    and "\<not> rp_Completed rep0" and "phase \<noteq> ''retire''"
  shows "\<not> rp_Completed rep \<and> err \<noteq> None \<and> (rp_RolledBack rep \<and> restored (rp_NewRef rep) r' \<or> rp_RollbackFailed rep)"
  using assms rollback_ok by (auto simp: rollback_def Let_def split: prod.splits option.splits)

lemma Rotate_outcome:
  assumes "before r" and "Rotate_secret ro tn key old (r, log) = ((r', log'), rep, err)"
  shows "rp_Completed rep \<and> err = None \<and> finished (rp_NewRef rep) r'
    \<or> \<not> rp_Completed rep \<and> err \<noteq> None \<and>
       (rp_FailedPhase rep = ''stage'' \<and> before r' \<or> rp_FailedPhase rep = ''retire'' \<and> on_new (rp_NewRef rep) r'
        \<or> rp_RolledBack rep \<and> restored (rp_NewRef rep) r' \<or> rp_RollbackFailed rep)"
proof (cases "ro_Stage ro key r")
  case (Pair r1 res)
  show ?thesis
  proof (cases res)
    case (Inl e)
    with Pair assms stage_fails show ?thesis by (auto simp: Rotate_secret_def new_report_def Let_def)
  next
    case (Inr new)
    let ?rep = "(new_report key old)\<lparr>rp_NewRef := new\<rparr>"
    obtain r2 e2 where c: "ro_Cutover ro key new r1 = (r2, e2)" by fastforce
    obtain r3 e3 where v: "ro_Verify ro key r2 = (r3, e3)" by fastforce
    obtain r4 e4 where t: "ro_Retire ro key old r3 = (r4, e4)" by fastforce
    have st: "staged new r1" using stage_ok assms(1) Pair Inr by blast
    note run = assms(2) [unfolded Rotate_secret_def Let_def] Pair Inr
    consider e where "e2 = Some e" | e where "e2 = None" "e3 = Some e" | e where "e2 = None" "e3 = None" "e4 = Some e" | "e2 = None" "e3 = None" "e4 = None"
      by (metis option.exhaust)
    then show ?thesis
    proof cases
      case (1 e)
      then show ?thesis
        using run c rollback_outcome [of ?rep r2 tn "''cutover''" e] cutover_fails [OF st] by (force simp: new_report_def)
    next
      case (2 e)
      then show ?thesis
        using run c v rollback_outcome [of ?rep r3 tn "''verify''" e] cutover_ok [OF st] verify_fails by (force simp: new_report_def)
    next
      case (3 e)
      then have "on_new new r4" using cutover_ok [OF st] c v t verify_ok retire_fails by metis
      then show ?thesis using run c v t 3 by (auto simp: new_report_def)
    next
      case 4
      then have "finished new r4" using cutover_ok [OF st] c v t verify_ok retire_ok by metis
      then show ?thesis using run c v t 4 by (auto simp: new_report_def)
    qed
  qed
qed

end

section \<open>The backend rotator\<close>

record publishedCredential =
  pc_ref :: string
  pc_credential :: bytes

type_synonym publisher = "(string \<times> publishedCredential) list"

definition ReadCredential :: "string \<Rightarrow> publisher \<Rightarrow> string + string \<times> bytes" where
  "ReadCredential key items =
     (case map_of items key of None \<Rightarrow> Inl ''rotation: credential not found'' | Some i \<Rightarrow> Inr (pc_ref i, pc_credential i))"

definition PublishCredential :: "string \<Rightarrow> string \<Rightarrow> bytes \<Rightarrow> publisher \<Rightarrow> publisher \<times> string option" where
  "PublishCredential key ref credential items =
     (if key = '''' \<or> ref = '''' \<or> credential = [] then (items, Some ''rotation: key, ref, and credential are required'')
      else ((key, \<lparr>pc_ref = ref, pc_credential = credential\<rparr>) # filter (\<lambda>(k, _). k \<noteq> key) items, None))"

record 'b Backend =
  bk_Create :: "string \<Rightarrow> 'b \<Rightarrow> 'b \<times> (string + string \<times> bytes)"
  bk_Revoke :: "string \<Rightarrow> 'b \<Rightarrow> 'b \<times> string option"

type_synonym 'b verifier = "string \<Rightarrow> string \<Rightarrow> bytes \<Rightarrow> 'b \<Rightarrow> 'b \<times> string option"

record stagedCredential =
  st_ref :: string
  st_credential :: bytes
  st_oldRef :: string
  st_oldCredential :: bytes

text \<open>\<open>br_revoked\<close> is a history variable: the references the backend has revoked, in order. A destroyed
  entry is gone from the map; its buffers are wiped.\<close>

record 'b BackendRotator =
  br_world :: 'b
  br_items :: publisher
  br_staged :: "(string \<times> stagedCredential) list"
  br_revoked :: "string list"

definition put_staged :: "string \<Rightarrow> 's \<Rightarrow> (string \<times> 's) list \<Rightarrow> (string \<times> 's) list" where
  "put_staged key v m = (key, v) # filter (\<lambda>(k, _). k \<noteq> key) m"

definition cleanup :: "string \<Rightarrow> (string \<times> 's) list \<Rightarrow> (string \<times> 's) list" where
  "cleanup key m = filter (\<lambda>(k, _). k \<noteq> key) m"

definition stagedFor :: "('s \<Rightarrow> string) \<Rightarrow> string \<Rightarrow> string \<Rightarrow> (string \<times> 's) list \<Rightarrow> 's option" where
  "stagedFor ref_of key ref m =
     (case map_of m key of None \<Rightarrow> None | Some st \<Rightarrow> if ref \<noteq> '''' \<and> ref_of st \<noteq> ref then None else Some st)"

definition backend_Stage :: "'b Backend \<Rightarrow> string \<Rightarrow> 'b BackendRotator \<Rightarrow> 'b BackendRotator \<times> (string + string)" where
  "backend_Stage bk key r =
     (case bk_Create bk key (br_world r) of
        (w, Inl e) \<Rightarrow> (r\<lparr>br_world := w\<rparr>, Inl (''rotation: create staged credential: '' @ e))
      | (w, Inr (ref, credential)) \<Rightarrow>
          (r\<lparr>br_world := w, br_staged := put_staged key \<lparr>st_ref = ref, st_credential = credential, st_oldRef = '''', st_oldCredential = []\<rparr> (br_staged r)\<rparr>,
           Inr ref))"

definition backend_Cutover :: "string \<Rightarrow> string \<Rightarrow> 'b BackendRotator \<Rightarrow> 'b BackendRotator \<times> string option" where
  "backend_Cutover key newRef r =
     (case stagedFor st_ref key newRef (br_staged r) of
        None \<Rightarrow> (r, Some ''rotation: credential not found'')
      | Some st \<Rightarrow>
          (case ReadCredential key (br_items r) of
             Inl e \<Rightarrow> (r, Some (''rotation: read previous credential: '' @ e))
           | Inr (oldRef, oldCredential) \<Rightarrow>
               (let r1 = r\<lparr>br_staged := put_staged key (st\<lparr>st_oldRef := oldRef, st_oldCredential := oldCredential\<rparr>) (br_staged r)\<rparr>
                in case PublishCredential key newRef (st_credential st) (br_items r1) of
                     (items, Some e) \<Rightarrow> (r1\<lparr>br_items := items\<rparr>, Some (''rotation: publish staged credential: '' @ e))
                   | (items, None) \<Rightarrow> (r1\<lparr>br_items := items\<rparr>, None))))"

definition backend_Verify :: "'b verifier \<Rightarrow> string \<Rightarrow> 'b BackendRotator \<Rightarrow> 'b BackendRotator \<times> string option" where
  "backend_Verify ve key r =
     (case stagedFor st_ref key '''' (br_staged r) of
        None \<Rightarrow> (r, Some ''rotation: credential not found'')
      | Some st \<Rightarrow>
          (case ve key (st_ref st) (st_credential st) (br_world r) of
             (w, Some e) \<Rightarrow> (r\<lparr>br_world := w\<rparr>, Some (''rotation: verify staged credential: '' @ e))
           | (w, None) \<Rightarrow> (r\<lparr>br_world := w\<rparr>, None)))"

definition revoke_ref :: "'b Backend \<Rightarrow> string \<Rightarrow> 'b BackendRotator \<Rightarrow> 'b BackendRotator \<times> string option" where
  "revoke_ref bk ref r =
     (case bk_Revoke bk ref (br_world r) of
        (w, Some e) \<Rightarrow> (r\<lparr>br_world := w\<rparr>, Some e)
      | (w, None) \<Rightarrow> (r\<lparr>br_world := w, br_revoked := br_revoked r @ [ref]\<rparr>, None))"

definition backend_Retire :: "'b Backend \<Rightarrow> string \<Rightarrow> string \<Rightarrow> 'b BackendRotator \<Rightarrow> 'b BackendRotator \<times> string option" where
  "backend_Retire bk key oldRef r =
     (case revoke_ref bk oldRef r of
        (r1, Some e) \<Rightarrow> (r1, Some (''rotation: retire old credential: '' @ e))
      | (r1, None) \<Rightarrow> (r1\<lparr>br_staged := cleanup key (br_staged r1)\<rparr>, None))"

text \<open>\<^verbatim>\<open>errors.Join\<close>: an error if one of the two is.\<close>

definition join_errors :: "string option \<Rightarrow> string option \<Rightarrow> string option" where
  "join_errors a b =
     (case a of None \<Rightarrow> b | Some e1 \<Rightarrow> Some (case b of None \<Rightarrow> e1 | Some e2 \<Rightarrow> e1 @ [CHR 0x0A] @ e2))"

definition backend_Rollback :: "'b Backend \<Rightarrow> string \<Rightarrow> string \<Rightarrow> 'b BackendRotator \<Rightarrow> 'b BackendRotator \<times> string option" where
  "backend_Rollback bk key oldRef r =
     (case stagedFor st_ref key '''' (br_staged r) of
        None \<Rightarrow> (r, Some ''rotation: credential not found'')
      | Some st \<Rightarrow>
          (let (items, restoreErr) = (if st_oldCredential st \<noteq> [] then PublishCredential key oldRef (st_oldCredential st) (br_items r)
                                      else (br_items r, None));
               (r1, revokeErr) = revoke_ref bk (st_ref st) (r\<lparr>br_items := items\<rparr>)
           in (r1\<lparr>br_staged := cleanup key (br_staged r1)\<rparr>, join_errors restoreErr revokeErr)))"

definition NewBackendRotator :: "'b Backend \<Rightarrow> 'b verifier option \<Rightarrow> 'b BackendRotator Rotator" where
  "NewBackendRotator bk ve =
     \<lparr>ro_Stage = backend_Stage bk, ro_Cutover = backend_Cutover,
      ro_Verify = backend_Verify (case ve of None \<Rightarrow> (\<lambda>_ _ _ w. (w, None)) | Some v \<Rightarrow> v),
      ro_Retire = backend_Retire bk, ro_Rollback = backend_Rollback bk\<rparr>"

text \<open>The stages of a rotation of \<open>key\<close> away from the published credential \<open>cred\<close> of \<open>old\<close>, given the
  references \<open>rv\<close> revoked before it.\<close>

definition published :: "string \<Rightarrow> string \<Rightarrow> bytes \<Rightarrow> 'b BackendRotator \<Rightarrow> bool" where
  "published key ref cred r = (map_of (br_items r) key = Some \<lparr>pc_ref = ref, pc_credential = cred\<rparr> \<and> cred \<noteq> [])"

definition bk_before :: "string \<Rightarrow> string \<Rightarrow> bytes \<Rightarrow> string list \<Rightarrow> 'b BackendRotator \<Rightarrow> bool" where
  "bk_before key old cred rv r = (published key old cred r \<and> br_revoked r = rv)"

definition bk_staged :: "string \<Rightarrow> string \<Rightarrow> bytes \<Rightarrow> string list \<Rightarrow> string \<Rightarrow> 'b BackendRotator \<Rightarrow> bool" where
  "bk_staged key old cred rv new r =
     (bk_before key old cred rv r \<and> (\<exists>c. map_of (br_staged r) key = Some \<lparr>st_ref = new, st_credential = c, st_oldRef = '''', st_oldCredential = []\<rparr>))"

definition bk_on_new :: "string \<Rightarrow> string \<Rightarrow> bytes \<Rightarrow> string list \<Rightarrow> string \<Rightarrow> 'b BackendRotator \<Rightarrow> bool" where
  "bk_on_new key old cred rv new r =
     (br_revoked r = rv \<and> cred \<noteq> [] \<and> (\<exists>c. published key new c r
        \<and> map_of (br_staged r) key = Some \<lparr>st_ref = new, st_credential = c, st_oldRef = old, st_oldCredential = cred\<rparr>))"

definition bk_undo :: "string \<Rightarrow> string \<Rightarrow> bytes \<Rightarrow> string list \<Rightarrow> string \<Rightarrow> 'b BackendRotator \<Rightarrow> bool" where
  "bk_undo key old cred rv new r =
     (br_revoked r = rv \<and> cred \<noteq> [] \<and> (\<exists>st. map_of (br_staged r) key = Some st \<and> st_ref st = new
        \<and> (st_oldCredential st = cred \<or> st_oldCredential st = [] \<and> published key old cred r)))"

definition bk_restored :: "string \<Rightarrow> string \<Rightarrow> bytes \<Rightarrow> string list \<Rightarrow> string \<Rightarrow> 'b BackendRotator \<Rightarrow> bool" where
  "bk_restored key old cred rv new r = (published key old cred r \<and> br_revoked r = rv @ [new])"

definition bk_finished :: "string \<Rightarrow> string \<Rightarrow> string list \<Rightarrow> string \<Rightarrow> 'b BackendRotator \<Rightarrow> bool" where
  "bk_finished key old rv new r = ((\<exists>c. published key new c r) \<and> br_revoked r = rv @ [old])"

lemma map_of_put_staged [simp]: "map_of (put_staged key v m) k = (if k = key then Some v else map_of m k)"
proof -
  have "map_of (filter (\<lambda>(k, _). k \<noteq> key) m) k = (if k = key then None else map_of m k)" by (induction m) auto
  then show ?thesis by (simp add: put_staged_def)
qed

lemma PublishCredential_ok:
  "PublishCredential key ref c items = (items', None) \<Longrightarrow>
     c \<noteq> [] \<and> map_of items' key = Some \<lparr>pc_ref = ref, pc_credential = c\<rparr>"
  by (auto simp: PublishCredential_def split: if_splits)

lemma PublishCredential_fails: "PublishCredential key ref c items = (items', Some e) \<Longrightarrow> items' = items"
  by (auto simp: PublishCredential_def split: if_splits)

lemma revoke_ref_fields:
  assumes "revoke_ref bk ref r = (r', e)"
  shows "br_items r' = br_items r" and "br_staged r' = br_staged r" and "br_revoked r' = (if e = None then br_revoked r @ [ref] else br_revoked r)"
  using assms by (auto simp: revoke_ref_def split: prod.splits option.splits)

lemma join_errors_None: "join_errors a b = None \<longleftrightarrow> a = None \<and> b = None"
  by (simp add: join_errors_def split: option.split)

lemmas bk_stages = bk_before_def bk_staged_def bk_on_new_def bk_undo_def bk_restored_def bk_finished_def published_def

lemma backend_Cutover_result:
  assumes "bk_staged key old cred rv new r" and "backend_Cutover key new r = (r', e)"
  shows "e \<noteq> None \<Longrightarrow> bk_undo key old cred rv new r'" and "e = None \<Longrightarrow> bk_on_new key old cred rv new r'"
  using assms by (auto simp: backend_Cutover_def bk_stages stagedFor_def ReadCredential_def Let_def
      dest!: PublishCredential_fails PublishCredential_ok split: prod.splits option.splits sum.splits if_splits)

lemma backend_Rollback_restores:
  assumes "bk_undo key old cred rv new r" and "backend_Rollback bk key old r = (r', None)"
  shows "bk_restored key old cred rv new r'"
proof -
  obtain st where st: "map_of (br_staged r) key = Some st" "st_ref st = new" "br_revoked r = rv" "cred \<noteq> []"
    "st_oldCredential st = cred \<or> st_oldCredential st = [] \<and> published key old cred r"
    using assms(1) by (auto simp: bk_undo_def)
  define q where "q = (if st_oldCredential st \<noteq> [] then PublishCredential key old (st_oldCredential st) (br_items r) else (br_items r, None))"
  obtain r1 e1 where r1: "revoke_ref bk new (r\<lparr>br_items := fst q\<rparr>) = (r1, e1)" by fastforce
  have "r' = r1\<lparr>br_staged := cleanup key (br_staged r1)\<rparr>" "snd q = None" "e1 = None"
    using assms(2) st(1,2) r1 by (auto simp: backend_Rollback_def stagedFor_def q_def Let_def join_errors_None split: prod.splits if_splits)
  moreover from this(2) have "map_of (fst q) key = Some \<lparr>pc_ref = old, pc_credential = cred\<rparr>"
    using st(4,5) PublishCredential_ok [of key old cred "br_items r" "fst q"]
    by (cases "st_oldCredential st = []") (auto simp: q_def published_def prod_eq_iff)
  ultimately show ?thesis
    using revoke_ref_fields [OF r1] st(3,4) by (simp add: bk_restored_def published_def)
qed

lemma backend_Stage_result:
  assumes "bk_before key old cred rv r" and "backend_Stage bk key r = (r', res)"
  shows "case res of Inl e \<Rightarrow> bk_before key old cred rv r' | Inr new \<Rightarrow> bk_staged key old cred rv new r'"
  using assms by (auto simp: backend_Stage_def bk_stages split: prod.splits sum.splits)

lemma backend_Verify_result:
  assumes "bk_on_new key old cred rv new r" and "backend_Verify ve key r = (r', e)"
  shows "bk_on_new key old cred rv new r'" and "bk_undo key old cred rv new r'"
  using assms by (auto simp: backend_Verify_def stagedFor_def bk_stages split: prod.splits option.splits)

lemma backend_Retire_result:
  assumes "bk_on_new key old cred rv new r" and "backend_Retire bk key old r = (r', e)"
  shows "if e = None then bk_finished key old rv new r' else bk_on_new key old cred rv new r'"
  using assms by (auto simp: backend_Retire_def revoke_ref_def bk_stages split: prod.splits option.splits)

interpretation backend: safe_rotator "NewBackendRotator bk ve" key old "bk_before key old cred rv" "bk_staged key old cred rv"
  "bk_on_new key old cred rv" "bk_undo key old cred rv" "bk_restored key old cred rv" "bk_finished key old rv"
  for bk ve key old cred rv
  by unfold_locales
    (auto simp: NewBackendRotator_def dest: backend_Stage_result backend_Retire_result
      intro: backend_Cutover_result backend_Verify_result backend_Rollback_restores)


section \<open>Examples and divergences\<close>

definition sample_backend :: "nat Backend" where
  "sample_backend = \<lparr>bk_Create = (\<lambda>k n. (Suc n, Inr (''ref-'' @ itoa (Suc n), ''cred-'' @ itoa (Suc n)))), bk_Revoke = (\<lambda>ref n. (n, None))\<rparr>"

definition sample_rotator :: "nat BackendRotator" where
  "sample_rotator = \<lparr>br_world = 1, br_items = [(''db'', \<lparr>pc_ref = ''ref-1'', pc_credential = ''cred-1''\<rparr>)], br_staged = [], br_revoked = []\<rparr>"

definition unhealthy :: "nat verifier" where
  "unhealthy k ref c n = (n, Some ''consumers unhealthy'')"


text \<open>The rotator records which reference a cutover replaced and never reads it: with another old reference the
  rotation completes, the reference that was given is revoked and the replaced one stays valid.\<close>

theorem stale_reference_is_retired:
  "let run = Rotate_secret (NewBackendRotator sample_backend None) ''t1'' ''db'' ''ref-0'' (sample_rotator, [])
   in snd (snd run) = None \<and> br_revoked (fst (fst run)) = [''ref-0'']"
  by code_simp

end
