(* ===== verification/SecretSync.thy ===== *)
theory SecretSync
  imports Prelude
begin

text \<open>
  Delivery of secrets to external platforms (\<^verbatim>\<open>internal/secretsync/secretsync.go\<close>): the engine over the
  delivery queue it is given, as a locale with the in-memory queue as its provider. A platform is a function
  on a state of its own that reports whether a push was accepted. Item ids are random.
\<close>

section \<open>The engine\<close>

record SyncItem =
  sy_ID :: string
  sy_Key :: string
  sy_Target :: string
  sy_Value :: bytes

record 'o sync_outbox_ops =
  so_Enqueue :: "SyncItem \<Rightarrow> 'o \<Rightarrow> 'o option"
  so_Pending :: "'o \<Rightarrow> SyncItem list option"
  so_Done :: "string \<Rightarrow> 'o \<Rightarrow> 'o option"

type_synonym 'x Pusher = "string \<Rightarrow> bytes \<Rightarrow> 'x \<Rightarrow> 'x \<times> bool"

record ('o, 'x) sync_engine =
  se_tenantID :: string
  se_target :: string
  se_pusher :: "'x Pusher"
  se_ops :: "'o sync_outbox_ops"

record ('o, 'x) sync_state =
  sx_outbox :: 'o
  sx_platform :: 'x
  sx_desired :: "string \<Rightarrow> string option"
  sx_audit :: "audit_event list"

datatype sync_error = NoRandomness | SyncEnqueueFailed | SyncPendingFailed | SyncDoneFailed

definition sync_ev :: "('o, 'x) sync_engine \<Rightarrow> string \<Rightarrow> string \<Rightarrow> string \<Rightarrow> audit_event" where
  "sync_ev e event key target = audit_ev event (se_tenantID e) [(''key'', AStr key), (''target'', AStr target)]"

text \<open>\<open>nonce\<close> is the hexadecimal text of the random bytes, \<open>hash\<close> SHA-256 in hexadecimal.\<close>

definition Sync ::
  "('o, 'x) sync_engine \<Rightarrow> (bytes \<Rightarrow> string) \<Rightarrow> string option \<Rightarrow> string \<Rightarrow> bytes \<Rightarrow> ('o, 'x) sync_state
     \<Rightarrow> ('o, 'x) sync_state \<times> sync_error option" where
  "Sync e hash nonce key val s =
     (case nonce of
        None \<Rightarrow> (s, Some NoRandomness)
      | Some n \<Rightarrow>
          (let s1 = s\<lparr>sx_desired := (sx_desired s)(key \<mapsto> hash val)\<rparr>
           in case so_Enqueue (se_ops e) \<lparr>sy_ID = ''sync-'' @ n, sy_Key = key, sy_Target = se_target e, sy_Value = val\<rparr> (sx_outbox s1) of
                None \<Rightarrow> (s1, Some SyncEnqueueFailed)
              | Some q \<Rightarrow> (s1\<lparr>sx_outbox := q, sx_audit := sx_audit s1 @ [sync_ev e ''secret.sync.enqueued'' key (se_target e)]\<rparr>, None)))"

fun deliver_items ::
  "('o, 'x) sync_engine \<Rightarrow> SyncItem list \<Rightarrow> nat \<Rightarrow> ('o, 'x) sync_state \<Rightarrow> ('o, 'x) sync_state \<times> nat \<times> sync_error option" where
  "deliver_items e [] n s = (s, n, None)"
| "deliver_items e (it # its) n s =
     (case se_pusher e (sy_Key it) (sy_Value it) (sx_platform s) of
        (x, False) \<Rightarrow> deliver_items e its n (s\<lparr>sx_platform := x\<rparr>)
      | (x, True) \<Rightarrow>
          (case so_Done (se_ops e) (sy_ID it) (sx_outbox s) of
             None \<Rightarrow> (s\<lparr>sx_platform := x\<rparr>, n, Some SyncDoneFailed)
           | Some q \<Rightarrow>
               deliver_items e its (Suc n)
                 (s\<lparr>sx_platform := x, sx_outbox := q, sx_audit := sx_audit s @ [sync_ev e ''secret.sync.delivered'' (sy_Key it) (sy_Target it)]\<rparr>)))"

definition RunDeliveries :: "('o, 'x) sync_engine \<Rightarrow> ('o, 'x) sync_state \<Rightarrow> ('o, 'x) sync_state \<times> nat \<times> sync_error option" where
  "RunDeliveries e s =
     (case so_Pending (se_ops e) (sx_outbox s) of
        None \<Rightarrow> (s, 0, Some SyncPendingFailed)
      | Some items \<Rightarrow> deliver_items e items 0 s)"

definition Drift :: "(bytes \<Rightarrow> string) \<Rightarrow> string \<Rightarrow> bytes \<Rightarrow> ('o, 'x) sync_state \<Rightarrow> bool" where
  "Drift hash key current s = (case sx_desired s key of None \<Rightarrow> False | Some want \<Rightarrow> want \<noteq> hash current)"

definition sync_pending :: "'o sync_outbox_ops \<Rightarrow> 'o \<Rightarrow> SyncItem list" where
  "sync_pending ops q = (case so_Pending ops q of None \<Rightarrow> [] | Some xs \<Rightarrow> xs)"

text \<open>What the engine relies on: items are kept by id, and only \<^verbatim>\<open>Done\<close> removes one.\<close>

locale sync_outbox =
  fixes ops :: "'o sync_outbox_ops" and inv :: "'o \<Rightarrow> bool"
  assumes pending_ok: "so_Pending ops q = Some (sync_pending ops q)"
    and pending_ids: "inv q \<Longrightarrow> distinct (map sy_ID (sync_pending ops q))"
    and enqueue_ok: "\<exists>q'. so_Enqueue ops it q = Some q'"
    and enqueue_inv: "inv q \<Longrightarrow> so_Enqueue ops it q = Some q' \<Longrightarrow> inv q'"
    and enqueue_pending: "so_Enqueue ops it q = Some q' \<Longrightarrow>
      set (sync_pending ops q') = insert it {x \<in> set (sync_pending ops q). sy_ID x \<noteq> sy_ID it}"
    and done_ok: "\<exists>q'. so_Done ops i q = Some q'"
    and done_inv: "inv q \<Longrightarrow> so_Done ops i q = Some q' \<Longrightarrow> inv q'"
    and done_pending: "so_Done ops i q = Some q' \<Longrightarrow> set (sync_pending ops q') = {x \<in> set (sync_pending ops q). sy_ID x \<noteq> i}"
begin

text \<open>\<open>accepted\<close> tells whether an item was accepted by the platform; a pass keeps exactly the refused ones.\<close>

lemma deliver_items_keeps:
  assumes "se_ops e = ops" and "distinct (map sy_ID its)"
  shows "\<exists>s' ok. deliver_items e its n s = (s', n + length ok, None) \<and> set ok \<subseteq> set its \<and> distinct (map sy_ID ok)
    \<and> set (sync_pending ops (sx_outbox s')) = {x \<in> set (sync_pending ops (sx_outbox s)). sy_ID x \<notin> sy_ID ` set ok}"
  using assms(2)
proof (induction its arbitrary: n s)
  case (Cons it its)
  obtain x a where p: "se_pusher e (sy_Key it) (sy_Value it) (sx_platform s) = (x, a)" by fastforce
  show ?case
  proof (cases a)
    case False
    from Cons.IH [of n "s\<lparr>sx_platform := x\<rparr>"] Cons.prems obtain s' ok where
      "deliver_items e its n (s\<lparr>sx_platform := x\<rparr>) = (s', n + length ok, None)" "set ok \<subseteq> set its" "distinct (map sy_ID ok)"
      "set (sync_pending ops (sx_outbox s')) = {x \<in> set (sync_pending ops (sx_outbox s)). sy_ID x \<notin> sy_ID ` set ok}" by auto
    with p False show ?thesis by (intro exI [of _ s'] exI [of _ ok]) auto
  next
    case True
    obtain q where q: "so_Done ops (sy_ID it) (sx_outbox s) = Some q" using done_ok by blast
    let ?s = "s\<lparr>sx_platform := x, sx_outbox := q, sx_audit := sx_audit s @ [sync_ev e ''secret.sync.delivered'' (sy_Key it) (sy_Target it)]\<rparr>"
    from Cons.IH [of "Suc n" ?s] Cons.prems obtain s' ok where ih:
      "deliver_items e its (Suc n) ?s = (s', Suc n + length ok, None)" "set ok \<subseteq> set its" "distinct (map sy_ID ok)"
      "set (sync_pending ops (sx_outbox s')) = {x \<in> set (sync_pending ops q). sy_ID x \<notin> sy_ID ` set ok}" by auto
    have "sy_ID it \<notin> sy_ID ` set ok" using Cons.prems ih(2) by auto
    with p True q ih done_pending [OF q] assms(1) show ?thesis by (intro exI [of _ s'] exI [of _ "it # ok"]) auto
  qed
qed simp

lemma RunDeliveries_keeps:
  assumes "se_ops e = ops" and "inv (sx_outbox s)"
  shows "\<exists>s' ok. RunDeliveries e s = (s', length ok, None) \<and> set ok \<subseteq> set (sync_pending ops (sx_outbox s)) \<and> distinct (map sy_ID ok)
    \<and> set (sync_pending ops (sx_outbox s')) = {x \<in> set (sync_pending ops (sx_outbox s)). sy_ID x \<notin> sy_ID ` set ok}"
  using deliver_items_keeps [OF assms(1) pending_ids [OF assms(2)], of 0 s] pending_ok assms(1) by (simp add: RunDeliveries_def)

lemma Sync_RunDeliveries:
  assumes "se_ops e = ops" and "inv (sx_outbox s)" and "Sync e hash nonce key val s = (s1, None)"
  obtains n s' ok where "nonce = Some n" "RunDeliveries e s1 = (s', length ok, None)"
    "set ok \<subseteq> insert \<lparr>sy_ID = ''sync-'' @ n, sy_Key = key, sy_Target = se_target e, sy_Value = val\<rparr> (set (sync_pending ops (sx_outbox s)))"
    "\<lparr>sy_ID = ''sync-'' @ n, sy_Key = key, sy_Target = se_target e, sy_Value = val\<rparr> \<in> set ok \<union> set (sync_pending ops (sx_outbox s'))"
proof -
  obtain n q where n: "nonce = Some n"
    "so_Enqueue ops \<lparr>sy_ID = ''sync-'' @ n, sy_Key = key, sy_Target = se_target e, sy_Value = val\<rparr> (sx_outbox s) = Some q" "sx_outbox s1 = q"
    using assms(1,3) by (auto simp: Sync_def Let_def split: option.splits)
  obtain s' ok where r: "RunDeliveries e s1 = (s', length ok, None)" "set ok \<subseteq> set (sync_pending ops q)"
    "set (sync_pending ops (sx_outbox s')) = {x \<in> set (sync_pending ops q). sy_ID x \<notin> sy_ID ` set ok}" "distinct (map sy_ID (sync_pending ops q))"
    using RunDeliveries_keeps [OF assms(1), of s1] enqueue_inv [OF assms(2) n(2)] pending_ids n(3) by auto
  define it where "it = \<lparr>sy_ID = ''sync-'' @ n, sy_Key = key, sy_Target = se_target e, sy_Value = val\<rparr>"
  have pend: "set (sync_pending ops q) = insert it {x \<in> set (sync_pending ops (sx_outbox s)). sy_ID x \<noteq> sy_ID it}"
    using enqueue_pending n(2) unfolding it_def by blast
  have uniq: "x = it" if "x \<in> set (sync_pending ops q)" "sy_ID x = sy_ID it" for x using that pend by auto
  have "it \<in> set ok \<union> set (sync_pending ops (sx_outbox s'))"
  proof (cases "sy_ID it \<in> sy_ID ` set ok")
    case True
    then obtain x where "x \<in> set ok" "sy_ID x = sy_ID it" by force
    with uniq r(2) show ?thesis by blast
  next
    case False
    with r(3) pend show ?thesis by simp
  qed
  moreover have "set ok \<subseteq> insert it (set (sync_pending ops (sx_outbox s)))" using r(2) pend by auto
  ultimately show thesis using that [OF n(1) r(1)] unfolding it_def by blast
qed

end

section \<open>The in-memory queue\<close>

type_synonym memory_outbox = "SyncItem list"

definition MemoryOutbox_Enqueue :: "SyncItem \<Rightarrow> memory_outbox \<Rightarrow> memory_outbox option" where
  "MemoryOutbox_Enqueue it q = Some (filter (\<lambda>x. sy_ID x \<noteq> sy_ID it) q @ [it])"

definition MemoryOutbox_Pending :: "memory_outbox \<Rightarrow> SyncItem list option" where
  "MemoryOutbox_Pending q = Some q"

definition MemoryOutbox_Done :: "string \<Rightarrow> memory_outbox \<Rightarrow> memory_outbox option" where
  "MemoryOutbox_Done i q = Some (filter (\<lambda>x. sy_ID x \<noteq> i) q)"

definition memory_outbox_ops :: "memory_outbox sync_outbox_ops" where
  "memory_outbox_ops = \<lparr>so_Enqueue = MemoryOutbox_Enqueue, so_Pending = MemoryOutbox_Pending, so_Done = MemoryOutbox_Done\<rparr>"

lemma distinct_map_filter_ids: "distinct (map f xs) \<Longrightarrow> distinct (map f (filter P xs))"
  by (induction xs) auto

interpretation memory_sync: sync_outbox memory_outbox_ops "\<lambda>q. distinct (map sy_ID q)"
  by unfold_locales
    (auto simp: memory_outbox_ops_def sync_pending_def MemoryOutbox_Enqueue_def MemoryOutbox_Pending_def MemoryOutbox_Done_def
      intro: distinct_map_filter_ids)

text \<open>a delivery pass loses nothing and repeats nothing: it counts the items the platform accepted, each once; those
  leave the queue and every other item stays queued.\<close>

theorem delivery_pass_keeps_refused:
  assumes "se_ops e = memory_outbox_ops" and "distinct (map sy_ID (sx_outbox s))"
  shows "\<exists>s' ok. RunDeliveries e s = (s', length ok, None) \<and> set ok \<subseteq> set (sx_outbox s) \<and> distinct (map sy_ID ok)
    \<and> set (sx_outbox s') = {x \<in> set (sx_outbox s). sy_ID x \<notin> sy_ID ` set ok}"
  using memory_sync.RunDeliveries_keeps [OF assms]
  by (simp add: sync_pending_def memory_outbox_ops_def MemoryOutbox_Pending_def)

definition flaky_platform :: "(string \<times> bytes) list Pusher" where
  "flaky_platform k v x = (if k = ''down'' then (x, False) else ((k, v) # x, True))"

definition flaky_engine :: "(memory_outbox, (string \<times> bytes) list) sync_engine" where
  "flaky_engine = \<lparr>se_tenantID = ''t1'', se_target = ''webhook'', se_pusher = flaky_platform, se_ops = memory_outbox_ops\<rparr>"

definition flaky_state :: "(memory_outbox, (string \<times> bytes) list) sync_state" where
  "flaky_state = \<lparr>sx_outbox = [\<lparr>sy_ID = ''sync-1'', sy_Key = ''down'', sy_Target = ''webhook'', sy_Value = ''a''\<rparr>,
       \<lparr>sy_ID = ''sync-2'', sy_Key = ''db'', sy_Target = ''webhook'', sy_Value = ''b''\<rparr>],
     sx_platform = [], sx_desired = Map.empty, sx_audit = []\<rparr>"

theorem delivery_pass_keeps_refused_witness:
  "\<exists>s' ok. RunDeliveries flaky_engine flaky_state = (s', length ok, None) \<and> set ok \<subseteq> set (sx_outbox flaky_state) \<and> distinct (map sy_ID ok)
    \<and> set (sx_outbox s') = {x \<in> set (sx_outbox flaky_state). sy_ID x \<notin> sy_ID ` set ok}"
  by (rule delivery_pass_keeps_refused) (simp_all add: flaky_engine_def flaky_state_def)

end
