(* ===== verification/ServedRotation.thy ===== *)
theory ServedRotation
  imports Rotation SecretSync
begin

text \<open>
  The rotations the API serves (\<^verbatim>\<open>api/secrets.go\<close>): new values of a stored secret pushed to a platform,
  and dynamic leases replaced at a platform, both through the engine of \<open>Rotation\<close>, the delivery queue of
  \<open>SecretSync\<close> and the lease engine of \<open>DynSecret\<close>; the choice of a rotator and the outcome of a schedule.

  An environment holds what one rotation draws: the clock, random ids, whether sealing goes through.
\<close>

section \<open>Delivery of a rotated credential\<close>

definition finish_tracked :: "('o, 'x) sync_engine \<Rightarrow> string option \<Rightarrow> ('o, 'x) sync_state \<Rightarrow> ('o, 'x) sync_state" where
  "finish_tracked e nonce s =
     (case nonce of
        None \<Rightarrow> s
      | Some n \<Rightarrow> (case so_Done (se_ops e) (''sync-'' @ n) (sx_outbox s) of None \<Rightarrow> s | Some q \<Rightarrow> s\<lparr>sx_outbox := q\<rparr>))"

definition syncRotationCredential ::
  "('o, 'x) sync_engine \<Rightarrow> (bytes \<Rightarrow> string) \<Rightarrow> string option \<Rightarrow> string \<Rightarrow> bytes \<Rightarrow> ('o, 'x) sync_state
     \<Rightarrow> ('o, 'x) sync_state \<times> nat \<times> string option" where
  "syncRotationCredential e hash nonce remoteKey val s =
     (case Sync e hash nonce remoteKey val (s\<lparr>sx_desired := Map.empty\<rparr>) of
        (s1, Some err) \<Rightarrow> (s1, 0, Some ''secret sync'')
      | (s1, None) \<Rightarrow>
          (case RunDeliveries e s1 of
             (s2, delivered, err) \<Rightarrow>
               (if delivered = 0 then finish_tracked e nonce s2 else s2, delivered, map_option (\<lambda>_. ''secret sync delivery'') err)))"

definition remoteKeyFor :: "string \<Rightarrow> string \<Rightarrow> string" where
  "remoteKeyFor remoteKey key = (if remoteKey \<noteq> '''' then remoteKey else key)"

definition push_result :: "string \<Rightarrow> ('o, 'x) sync_state \<times> nat \<times> string option \<Rightarrow> ('o, 'x) sync_state \<times> string option" where
  "push_result none r =
     (case r of (s, delivered, Some e) \<Rightarrow> (s, Some e) | (s, delivered, None) \<Rightarrow> (s, if delivered = 0 then Some none else None))"

section \<open>Dynamic leases\<close>

record dynamicLeaseRotationState =
  dl_newLeaseID :: string
  dl_credential :: bytes

record ('q, 'w, 'o, 'x) lease_env =
  le_cfg :: "('q, 'w) engine_cfg"
  le_provider :: string
  le_targetID :: string
  le_ttl :: duration
  le_remoteKey :: string
  le_sync :: "('o, 'x) sync_engine"
  le_hash :: "bytes \<Rightarrow> string"
  le_now :: gotime
  le_hexid :: string
  le_nonce :: "string option"

record ('q, 'w, 'o, 'x) dynamicLeaseRotationRotator =
  dr_engine :: "('q, 'w) engine"
  dr_sync :: "('o, 'x) sync_state"
  dr_staged :: "(string \<times> dynamicLeaseRotationState) list"

fun dynamicLeaseError :: "dyn_error \<Rightarrow> string" where
  "dynamicLeaseError (UnknownProvider p) = ''dynsecret: unknown provider'' @ p"
| "dynamicLeaseError (LeaseNotFound _) = ''no such dynamic secret lease''"
| "dynamicLeaseError (LeaseNotActive _) = ''dynamic secret lease is not active''"
| "dynamicLeaseError _ = ''dynsecret''"

definition lease_Stage ::
  "('q, 'w, 'o, 'x) lease_env \<Rightarrow> string \<Rightarrow> ('q, 'w, 'o, 'x) dynamicLeaseRotationRotator
     \<Rightarrow> ('q, 'w, 'o, 'x) dynamicLeaseRotationRotator \<times> (string + string)" where
  "lease_Stage env key r =
     (case Issue (le_cfg env) (le_now env) (le_hexid env) (le_provider env) key (le_ttl env) '''' (dr_engine r) of
        (e, Inr (Some lease, Some credential)) \<Rightarrow>
          (r\<lparr>dr_engine := e, dr_staged := put_staged key \<lparr>dl_newLeaseID = ls_ID lease, dl_credential = credential\<rparr> (dr_staged r)\<rparr>, Inr (ls_ID lease))
      | (e, Inr _) \<Rightarrow> (r\<lparr>dr_engine := e\<rparr>, Inl ''unreachable: a lease without an idempotency key is new'')
      | (e, Inl err) \<Rightarrow> (r\<lparr>dr_engine := e\<rparr>, Inl (dynamicLeaseError err)))"

definition lease_Cutover ::
  "('q, 'w, 'o, 'x) lease_env \<Rightarrow> string \<Rightarrow> string \<Rightarrow> ('q, 'w, 'o, 'x) dynamicLeaseRotationRotator
     \<Rightarrow> ('q, 'w, 'o, 'x) dynamicLeaseRotationRotator \<times> string option" where
  "lease_Cutover env key newRef r =
     (case stagedFor dl_newLeaseID key newRef (dr_staged r) of
        None \<Rightarrow> (r, Some ''rotation: credential not found'')
      | Some st \<Rightarrow>
          (case push_result ''rotation: dynamic lease connector delivery did not complete''
                  (syncRotationCredential (le_sync env) (le_hash env) (le_nonce env) (remoteKeyFor (le_remoteKey env) key) (dl_credential st) (dr_sync r)) of
             (s, Some e) \<Rightarrow> (r\<lparr>dr_sync := s\<rparr>, Some e)
           | (s, None) \<Rightarrow>
               (r\<lparr>dr_sync := s\<lparr>sx_audit := sx_audit s @ [audit_ev ''secret.rotation.dynamic_cutover'' (se_tenantID (le_sync env))
                    [(''role'', AStr key), (''provider'', AStr (le_provider env)), (''target'', AStr (le_targetID env)), (''new_ref'', AStr newRef)]]\<rparr>\<rparr>,
                None)))"

definition revoke_and_run :: "('q, 'w) engine_cfg \<Rightarrow> string \<Rightarrow> ('q, 'w) engine \<Rightarrow> ('q, 'w) engine \<times> dyn_error option" where
  "revoke_and_run cfg leaseID e =
     (case Revoke cfg leaseID e of
        (e1, Some err) \<Rightarrow> (e1, Some err)
      | (e1, None) \<Rightarrow> (case RunRevocations cfg e1 of (e2, _, err) \<Rightarrow> (e2, err)))"

definition lease_Retire ::
  "('q, 'w, 'o, 'x) lease_env \<Rightarrow> string \<Rightarrow> string \<Rightarrow> ('q, 'w, 'o, 'x) dynamicLeaseRotationRotator
     \<Rightarrow> ('q, 'w, 'o, 'x) dynamicLeaseRotationRotator \<times> string option" where
  "lease_Retire env key oldRef r =
     (case revoke_and_run (le_cfg env) oldRef (dr_engine r) of
        (e, Some err) \<Rightarrow> (r\<lparr>dr_engine := e\<rparr>, Some (dynamicLeaseError err))
      | (e, None) \<Rightarrow> (r\<lparr>dr_engine := e, dr_staged := cleanup key (dr_staged r)\<rparr>, None))"

definition lease_Rollback ::
  "('q, 'w, 'o, 'x) lease_env \<Rightarrow> string \<Rightarrow> string \<Rightarrow> ('q, 'w, 'o, 'x) dynamicLeaseRotationRotator
     \<Rightarrow> ('q, 'w, 'o, 'x) dynamicLeaseRotationRotator \<times> string option" where
  "lease_Rollback env key oldRef r =
     (case stagedFor dl_newLeaseID key '''' (dr_staged r) of
        None \<Rightarrow> (r, Some ''rotation: credential not found'')
      | Some st \<Rightarrow>
          (case revoke_and_run (le_cfg env) (dl_newLeaseID st) (dr_engine r) of
             (e, err) \<Rightarrow> (r\<lparr>dr_engine := e, dr_staged := cleanup key (dr_staged r)\<rparr>, map_option dynamicLeaseError err)))"

definition lease_rotator :: "('q, 'w, 'o, 'x) lease_env \<Rightarrow> ('q, 'w, 'o, 'x) dynamicLeaseRotationRotator Rotator" where
  "lease_rotator env =
     \<lparr>ro_Stage = lease_Stage env, ro_Cutover = lease_Cutover env, ro_Verify = (\<lambda>_ r. (r, None)),
      ro_Retire = lease_Retire env, ro_Rollback = lease_Rollback env\<rparr>"

section \<open>Stored secrets\<close>

record secret_row =
  sr_Version :: int
  sr_Sealed :: bytes

text \<open>The current rows and the history of a tenant, by name and by name and version.\<close>

record secret_tables =
  tb_secrets :: "string \<Rightarrow> secret_row option"
  tb_versions :: "string \<times> int \<Rightarrow> bytes option"

definition RotateSecret :: "string \<Rightarrow> bytes \<Rightarrow> secret_tables \<Rightarrow> secret_tables \<times> int option" where
  "RotateSecret name sealed t =
     (case tb_secrets t name of
        None \<Rightarrow> (t, None)
      | Some row \<Rightarrow>
          (t\<lparr>tb_secrets := (tb_secrets t)(name \<mapsto> \<lparr>sr_Version = sr_Version row + 1, sr_Sealed = sealed\<rparr>),
             tb_versions := (tb_versions t)((name, sr_Version row + 1) \<mapsto> sealed)\<rparr>, Some (sr_Version row + 1)))"

definition itoa_int :: "int \<Rightarrow> string" where
  "itoa_int n = (if n < 0 then ''-'' @ itoa (nat (- n)) else itoa (nat n))"

definition version_ref :: "int \<Rightarrow> string" where
  "version_ref n = ''version:'' @ itoa_int n"

definition parseSecretVersionRef :: "string \<Rightarrow> string + int" where
  "parseSecretVersionRef ref =
     (if \<not> has_prefix ref ''version:'' then Inl ''connector rotation old_ref must be version:<n>''
      else case atoi (trim_prefix ref ''version:'') of
             None \<Rightarrow> Inl ''connector rotation old_ref must be version:<n>''
           | Some n \<Rightarrow> if n \<le> 0 then Inl ''connector rotation old_ref must be version:<n>'' else Inr n)"

record connectorRotationState =
  cs_newRef :: string
  cs_newValue :: bytes
  cs_oldVersion :: int

text \<open>\<open>ce_seal\<close> and \<open>ce_open\<close> are envelope encryption under the KEK with associated data.\<close>

record ('o, 'x) connector_env =
  ce_tenantID :: string
  ce_targetID :: string
  ce_remoteKey :: string
  ce_sync :: "('o, 'x) sync_engine"
  ce_hash :: "bytes \<Rightarrow> string"
  ce_seal :: "bytes \<Rightarrow> string \<Rightarrow> bytes option"
  ce_open :: "bytes \<Rightarrow> string \<Rightarrow> bytes option"
  ce_random :: "string option"
  ce_nonce :: "string option"
  ce_rollback_nonce :: "string option"

record ('o, 'x) connectorSecretRotator =
  co_tables :: secret_tables
  co_sync :: "('o, 'x) sync_state"
  co_staged :: "(string \<times> connectorRotationState) list"

definition connector_Stage ::
  "('o, 'x) connector_env \<Rightarrow> string \<Rightarrow> ('o, 'x) connectorSecretRotator \<Rightarrow> ('o, 'x) connectorSecretRotator \<times> (string + string)" where
  "connector_Stage env key r =
     (case tb_secrets (co_tables r) key of
        None \<Rightarrow> (r, Inl ''no such secret'')
      | Some row \<Rightarrow>
          (case ce_random env of
             None \<Rightarrow> (r, Inl ''random'')
           | Some hex \<Rightarrow>
               (let st = \<lparr>cs_newRef = version_ref (sr_Version row + 1), cs_newValue = ''rotated-'' @ hex, cs_oldVersion = sr_Version row\<rparr>
                in (r\<lparr>co_staged := put_staged key st (co_staged r)\<rparr>, Inr (cs_newRef st)))))"

definition auditSecret :: "string \<Rightarrow> string \<Rightarrow> string \<Rightarrow> int \<Rightarrow> ('o, 'x) sync_state \<Rightarrow> ('o, 'x) sync_state" where
  "auditSecret event tn name version s =
     s\<lparr>sx_audit := sx_audit s @ [audit_ev event tn [(''name'', AStr name), (''version'', AInt version)]]\<rparr>"

text \<open>The time of the database is left out of the event.\<close>

definition auditSecretVersion :: "string \<Rightarrow> string \<Rightarrow> int \<Rightarrow> bytes \<Rightarrow> int option \<Rightarrow> ('o, 'x) sync_state \<Rightarrow> ('o, 'x) sync_state" where
  "auditSecretVersion tn name version sealed recoveredFrom s =
     s\<lparr>sx_audit := sx_audit s @ [audit_ev ''secret.version.written'' tn
         ([(''name'', AStr name), (''version'', AInt version), (''sealed'', AStr sealed)]
          @ (case recoveredFrom of None \<Rightarrow> [] | Some v \<Rightarrow> [(''recovered_from_version'', AInt v)]))]\<rparr>"

definition connector_ev :: "('o, 'x) connector_env \<Rightarrow> string \<Rightarrow> string \<Rightarrow> string \<Rightarrow> string \<Rightarrow> ('o, 'x) sync_state \<Rightarrow> ('o, 'x) sync_state" where
  "connector_ev env event key field ref s =
     s\<lparr>sx_audit := sx_audit s @ [audit_ev event (ce_tenantID env) [(''key'', AStr key), (''target'', AStr (ce_targetID env)), (field, AStr ref)]]\<rparr>"

definition connector_aad :: "('o, 'x) connector_env \<Rightarrow> string \<Rightarrow> string" where
  "connector_aad env key = ce_tenantID env @ ''/secret-store/'' @ key"

text \<open>Write a value as the next version and push it.\<close>

definition connector_Cutover ::
  "('o, 'x) connector_env \<Rightarrow> string \<Rightarrow> string \<Rightarrow> ('o, 'x) connectorSecretRotator \<Rightarrow> ('o, 'x) connectorSecretRotator \<times> string option" where
  "connector_Cutover env key newRef r =
     (case stagedFor cs_newRef key newRef (co_staged r) of
        None \<Rightarrow> (r, Some ''rotation: credential not found'')
      | Some st \<Rightarrow>
          (case ce_seal env (cs_newValue st) (connector_aad env key) of
             None \<Rightarrow> (r, Some ''seal'')
           | Some sealed \<Rightarrow>
               (case RotateSecret key sealed (co_tables r) of
                  (t, None) \<Rightarrow> (r\<lparr>co_tables := t\<rparr>, Some ''store: secret not found'')
                | (t, Some v) \<Rightarrow>
                    (let r1 = r\<lparr>co_tables := t\<rparr>
                     in if version_ref v \<noteq> newRef then (r1, Some ''rotation: connector version advanced'')
                        else (let s = auditSecret ''secret.rotated'' (ce_tenantID env) key v (auditSecretVersion (ce_tenantID env) key v sealed None (co_sync r1))
                              in case push_result ''rotation: connector delivery did not complete''
                                   (syncRotationCredential (ce_sync env) (ce_hash env) (ce_nonce env) (remoteKeyFor (ce_remoteKey env) key) (cs_newValue st) s) of
                                   (s1, Some e) \<Rightarrow> (r1\<lparr>co_sync := s1\<rparr>, Some e)
                                 | (s1, None) \<Rightarrow> (r1\<lparr>co_sync := connector_ev env ''secret.rotation.connector_cutover'' key ''new_ref'' newRef s1\<rparr>, None))))))"

definition connector_Retire :: "string \<Rightarrow> string \<Rightarrow> ('o, 'x) connectorSecretRotator \<Rightarrow> ('o, 'x) connectorSecretRotator \<times> string option" where
  "connector_Retire key oldRef r = (r\<lparr>co_staged := cleanup key (co_staged r)\<rparr>, None)"

definition connector_Rollback ::
  "('o, 'x) connector_env \<Rightarrow> string \<Rightarrow> string \<Rightarrow> ('o, 'x) connectorSecretRotator \<Rightarrow> ('o, 'x) connectorSecretRotator \<times> string option" where
  "connector_Rollback env key oldRef r0 =
     (let r = r0\<lparr>co_staged := cleanup key (co_staged r0)\<rparr>
      in case parseSecretVersionRef oldRef of
           Inl e \<Rightarrow> (r, Some e)
         | Inr version \<Rightarrow>
             (case tb_versions (co_tables r) (key, version) of
                None \<Rightarrow> (r, Some ''store: secret not found'')
              | Some old \<Rightarrow>
                  (case ce_open env old (connector_aad env key) of
                     None \<Rightarrow> (r, Some ''open'')
                   | Some val \<Rightarrow>
                       (case ce_seal env val (connector_aad env key) of
                          None \<Rightarrow> (r, Some ''seal'')
                        | Some sealed \<Rightarrow>
                            (case RotateSecret key sealed (co_tables r) of
                               (t, None) \<Rightarrow> (r\<lparr>co_tables := t\<rparr>, Some ''store: secret not found'')
                             | (t, Some v) \<Rightarrow>
                                 (let s = auditSecret ''secret.recovered'' (ce_tenantID env) key v
                                            (auditSecretVersion (ce_tenantID env) key v sealed (Some version) (co_sync r))
                                  in case push_result ''rotation: connector rollback delivery did not complete''
                                       (syncRotationCredential (ce_sync env) (ce_hash env) (ce_rollback_nonce env) (remoteKeyFor (ce_remoteKey env) key) val s) of
                                       (s1, Some e) \<Rightarrow> (r\<lparr>co_tables := t, co_sync := s1\<rparr>, Some e)
                                     | (s1, None) \<Rightarrow>
                                         (r\<lparr>co_tables := t, co_sync := connector_ev env ''secret.rotation.connector_rolled_back'' key ''old_ref'' oldRef s1\<rparr>, None)))))))"

definition connector_rotator :: "('o, 'x) connector_env \<Rightarrow> ('o, 'x) connectorSecretRotator Rotator" where
  "connector_rotator env =
     \<lparr>ro_Stage = connector_Stage env, ro_Cutover = connector_Cutover env, ro_Verify = (\<lambda>_ r. (r, None)),
      ro_Retire = connector_Retire, ro_Rollback = connector_Rollback env\<rparr>"

section \<open>Choosing a rotator\<close>

record secretRotationRequest =
  rq_Provider :: string
  rq_Key :: string
  rq_OldRef :: string
  rq_Target :: string
  rq_RemoteKey :: string
  rq_TTLSeconds :: int

datatype rotator_choice =
    Registered string
  | Connector string string
  | DynamicLease string string string duration

text \<open>An error is its HTTP status and text. The backend tells which rotators, targets and lease providers are
  configured, and whether the delivery queue is.\<close>

record secrets_backend =
  sb_SecretRotators :: "string list"
  sb_SecretSyncTargets :: "string list"
  sb_SecretSyncOutbox :: bool
  sb_DynamicProviders :: "string list"

definition seconds_duration :: "int \<Rightarrow> duration" where
  "seconds_duration n = (n * 1000000000 + 2 ^ 63) mod 2 ^ 64 - 2 ^ 63"

definition connectorSecretRotator_for :: "secrets_backend \<Rightarrow> string \<Rightarrow> string \<Rightarrow> (nat \<times> string) + rotator_choice" where
  "connectorSecretRotator_for be targetID0 remoteKey =
     (let targetID = trim_space targetID0
      in if targetID = '''' then Inl (400, ''connector rotation target is required'')
         else if targetID \<notin> set (sb_SecretSyncTargets be) then Inl (503, ''secret sync target is not configured'')
         else if \<not> sb_SecretSyncOutbox be then Inl (503, ''secret sync outbox is not configured'')
         else Inr (Connector targetID (trim_space remoteKey)))"

definition dynamicLeaseSecretRotator :: "secrets_backend \<Rightarrow> string \<Rightarrow> secretRotationRequest \<Rightarrow> (nat \<times> string) + rotator_choice" where
  "dynamicLeaseSecretRotator be provider req =
     (let targetID = trim_space (rq_Target req)
      in if provider = '''' then Inl (400, ''dynamic-lease rotation provider is required'')
         else if targetID = '''' then Inl (400, ''target is required for dynamic-lease rotation'')
         else if targetID \<notin> set (sb_SecretSyncTargets be) then Inl (503, ''secret sync target is not configured'')
         else if \<not> sb_SecretSyncOutbox be then Inl (503, ''secret sync outbox is not configured'')
         else if sb_DynamicProviders be = [] then Inl (503, ''dynamic secret lease providers are not configured'')
         else Inr (DynamicLease provider targetID (trim_space (rq_RemoteKey req))
                     (if rq_TTLSeconds req > 0 then seconds_duration (rq_TTLSeconds req) else hour)))"

definition secretRotatorFor :: "secrets_backend \<Rightarrow> secretRotationRequest \<Rightarrow> (nat \<times> string) + rotator_choice" where
  "secretRotatorFor be req =
     (let provider = trim_space (rq_Provider req); key = trim_space (rq_Key req); oldRef = trim_space (rq_OldRef req)
      in if provider = '''' \<or> key = '''' \<or> oldRef = '''' then Inl (400, ''provider, key, and old_ref are required'')
         else if provider \<in> set (sb_SecretRotators be) then Inr (Registered provider)
         else if has_prefix provider ''connector:'' \<or> provider = ''connector''
         then connectorSecretRotator_for be
                (if has_prefix provider ''connector:'' then trim_space (trim_prefix provider ''connector:'') else trim_space (rq_Target req)) (rq_RemoteKey req)
         else if has_prefix provider ''dynamic-lease:''
         then dynamicLeaseSecretRotator be (trim_space (trim_prefix provider ''dynamic-lease:'')) req
         else Inl (503, ''secret rotation provider is not configured''))"

text \<open>\<open>run\<close> runs the engine with the rotator that was chosen.\<close>

definition executeSecretRotation ::
  "secrets_backend \<Rightarrow> (rotator_choice \<Rightarrow> string \<Rightarrow> string \<Rightarrow> 's \<Rightarrow> 's \<times> Report \<times> rotation_error option) \<Rightarrow> secretRotationRequest \<Rightarrow> 's
     \<Rightarrow> 's \<times> Report \<times> ((nat \<times> string) + rotation_error) option" where
  "executeSecretRotation be run req s =
     (case secretRotatorFor be req of
        Inl e \<Rightarrow> (s, new_report (trim_space (rq_Key req)) (trim_space (rq_OldRef req)), Some (Inl e))
      | Inr c \<Rightarrow>
          (case run c (trim_space (rq_Key req)) (trim_space (rq_OldRef req)) s of
             (s1, rep, err) \<Rightarrow> (s1, rep, map_option Inr err)))"

definition schedule_status :: "Report \<Rightarrow> 'e option \<Rightarrow> string" where
  "schedule_status rep err =
     (if err \<noteq> None then (if rp_RollbackFailed rep then ''rollback_failed''
                          else if rp_RollbackAttempted rep \<and> rp_RolledBack rep then ''rolled_back'' else ''failed'')
      else if rp_Completed rep then ''completed'' else ''failed'')"

section \<open>A delivered credential\<close>

lemma one_item_delivery:
  assumes "se_ops e = memory_outbox_ops" and "sx_outbox s = []"
    and "push_result none (syncRotationCredential e hash nonce rk val s) = (s', None)"
  shows "snd (se_pusher e rk val (sx_platform s)) \<and> sx_platform s' = fst (se_pusher e rk val (sx_platform s)) \<and> sx_outbox s' = []"
  using assms
  by (cases "se_pusher e rk val (sx_platform s)"; cases "snd (se_pusher e rk val (sx_platform s))")
    (auto simp: push_result_def syncRotationCredential_def Sync_def RunDeliveries_def memory_outbox_ops_def MemoryOutbox_Enqueue_def
      MemoryOutbox_Pending_def MemoryOutbox_Done_def Let_def split: option.splits prod.splits if_splits)

lemma run_items_leases: "run_items cfg its n e = (e', m, err) \<Longrightarrow> en_leases e' = en_leases e"
  by (induction cfg its n e rule: run_items.induct) (auto split: option.splits prod.splits bool.splits)

lemma revoke_and_run_revokes:
  assumes "revoke_and_run cfg i e = (e', None)"
  shows "\<exists>l. map_of (en_leases e) i = Some l \<and> map_of (en_leases e') i = Some (l\<lparr>ls_State := LeaseRevoked\<rparr>)
    \<and> (\<forall>j. j \<noteq> i \<longrightarrow> map_of (en_leases e') j = map_of (en_leases e) j)"
proof -
  obtain e1 n where r: "Revoke cfg i e = (e1, None)" "RunRevocations cfg e1 = (e', n, None)"
    using assms by (auto simp: revoke_and_run_def split: prod.splits option.splits)
  have "en_leases e' = en_leases e1" using r(2) run_items_leases by (auto simp: RunRevocations_def split: option.splits)
  moreover from r(1) obtain l where "map_of (en_leases e) i = Some l" "ls_State l = LeaseRevoked \<and> e1 = e \<or> en_leases e1 = put_lease i (l\<lparr>ls_State := LeaseRevoked\<rparr>) (en_leases e)"
    by (auto simp: Revoke_def Let_def split: option.splits if_splits)
  ultimately show ?thesis by (auto simp: map_of_put_lease)
qed

lemma Rotate_completed:
  assumes "Rotate_secret ro tn key old (r, log) = ((r', log'), rep, None)"
  obtains r1 r2 r3 new where "ro_Stage ro key r = (r1, Inr new)" "ro_Cutover ro key new r1 = (r2, None)" "ro_Verify ro key r2 = (r3, None)"
    "ro_Retire ro key old r3 = (r', None)" "rp_NewRef rep = new"
  using assms by (auto simp: Rotate_secret_def rollback_def Let_def split: prod.splits sum.splits option.splits)

lemma lease_Stage_ok:
  assumes "lease_Stage env key r = (r1, Inr new)"
  obtains cred lease e where "Issue (le_cfg env) (le_now env) (le_hexid env) (le_provider env) key (le_ttl env) '''' (dr_engine r) = (e, Inr (Some lease, Some cred))"
    "new = ''lease-'' @ le_hexid env" "ls_ID lease = new" "ls_State lease = LeaseActive"
    "en_leases e = put_lease new lease (en_leases (dr_engine r))" "dr_engine r1 = e" "dr_sync r1 = dr_sync r"
    "map_of (dr_staged r1) key = Some \<lparr>dl_newLeaseID = new, dl_credential = cred\<rparr>"
proof -
  obtain e lease cred where i: "Issue (le_cfg env) (le_now env) (le_hexid env) (le_provider env) key (le_ttl env) '''' (dr_engine r) = (e, Inr (Some lease, Some cred))"
    "new = ls_ID lease" "r1 = r\<lparr>dr_engine := e, dr_staged := put_staged key \<lparr>dl_newLeaseID = ls_ID lease, dl_credential = cred\<rparr> (dr_staged r)\<rparr>"
    using assms by (auto simp: lease_Stage_def split: prod.splits sum.splits option.splits)
  from i(1) have "ls_ID lease = ''lease-'' @ le_hexid env" "ls_State lease = LeaseActive"
    "en_leases e = put_lease (''lease-'' @ le_hexid env) lease (en_leases (dr_engine r))"
    by (auto simp: Issue_def Let_def split: option.splits prod.splits if_splits)
  with i show thesis by (intro that [of e lease cred]) auto
qed


section \<open>Examples and divergences\<close>

definition pw_provider :: "string list provider" where
  "pw_provider = \<lparr>pv_Generate = (\<lambda>role ttl i w. ((''user-'' @ i) # w, Some (''user-'' @ i, ''pw-'' @ i))), pv_Revoke = (\<lambda>ref w. (removeAll ref w, True))\<rparr>"

definition pw_cfg :: "(memory_queue, string list) engine_cfg" where
  "pw_cfg = \<lparr>ec_TenantID = ''t1'', ec_Providers = (\<lambda>p. if p = ''pg'' then Some pw_provider else None), ec_Queue = memory_queue_ops, ec_Gate = None\<rparr>"

definition pw_lease :: Lease where
  "pw_lease = \<lparr>ls_ID = ''lease-0'', ls_TenantID = ''t1'', ls_Provider = ''pg'', ls_Role = ''app'', ls_BackendRef = ''user-lease-0'',
     ls_State = LeaseActive, ls_IssuedAt = 0, ls_ExpiresAt = 3600\<rparr>"

definition pw_engine :: "(memory_queue, string list) engine" where
  "pw_engine = \<lparr>en_leases = [(''lease-0'', pw_lease)], en_idem = Map.empty, en_queue = [], en_world = [''user-lease-0''], en_audit = []\<rparr>"

definition pw_env :: "string \<Rightarrow> memory_outbox sync_outbox_ops \<Rightarrow> (memory_queue, string list, memory_outbox, (string \<times> bytes) list) lease_env" where
  "pw_env remote ops = \<lparr>le_cfg = pw_cfg, le_provider = ''pg'', le_targetID = ''webhook'', le_ttl = 3600, le_remoteKey = remote,
     le_sync = flaky_engine\<lparr>se_ops := ops\<rparr>, le_hash = id, le_now = 5, le_hexid = ''1'', le_nonce = Some ''n1''\<rparr>"

definition pw_rotator :: "memory_outbox \<Rightarrow> (memory_queue, string list, memory_outbox, (string \<times> bytes) list) dynamicLeaseRotationRotator" where
  "pw_rotator queue = \<lparr>dr_engine = pw_engine,
     dr_sync = \<lparr>sx_outbox = queue, sx_platform = [(''app'', ''pw-lease-0'')], sx_desired = Map.empty, sx_audit = []\<rparr>, dr_staged = []\<rparr>"


text \<open>Any accepted delivery counts: with an older item in the queue that the platform takes, a rotation whose new
  credential the platform refuses completes and revokes the old lease, which the consumers still use.\<close>

definition stale_item :: SyncItem where
  "stale_item = \<lparr>sy_ID = ''sync-old'', sy_Key = ''other'', sy_Target = ''webhook'', sy_Value = ''x''\<rparr>"

theorem undelivered_rotation_completes:
  "let run = Rotate_secret (lease_rotator (pw_env ''down'' memory_outbox_ops)) ''t1'' ''app'' ''lease-0'' (pw_rotator [stale_item], [])
   in snd (snd run) = None \<and> sx_platform (dr_sync (fst (fst run))) = [(''other'', ''x''), (''app'', ''pw-lease-0'')]
      \<and> en_world (dr_engine (fst (fst run))) = [''user-lease-1'']"
  by code_simp

text \<open>A rollback of a lease rotation does not restore the old credential at the platform: when the platform took the new
  credential and the queue could not be updated, the report says rolled back and the platform holds a
  credential that was revoked.\<close>

definition stuck_outbox_ops :: "memory_outbox sync_outbox_ops" where
  "stuck_outbox_ops = memory_outbox_ops\<lparr>so_Done := (\<lambda>_ _. None)\<rparr>"

theorem rolled_back_lease_is_revoked:
  "let run = Rotate_secret (lease_rotator (pw_env '''' stuck_outbox_ops)) ''t1'' ''app'' ''lease-0'' (pw_rotator [], [])
   in rp_RolledBack (fst (snd run)) \<and> hd (sx_platform (dr_sync (fst (fst run)))) = (''app'', ''pw-lease-1'')
      \<and> en_world (dr_engine (fst (fst run))) = [''user-lease-0'']"
  by code_simp

section \<open>The recorded outcome\<close>

text \<open>The status of a scheduled run tells what happened: completed exactly when the engine finished without an error, rolled
  back exactly when its rollback succeeded, rollback failed exactly when it did not.\<close>

theorem schedule_status_sound:
  assumes "Rotate_secret ro tn key old st = (st', rep, err)"
  shows "schedule_status rep err = (if err = None then ''completed'' else if rp_RollbackFailed rep then ''rollback_failed''
      else if rp_RolledBack rep then ''rolled_back'' else ''failed'')
    \<and> (rp_Completed rep \<longleftrightarrow> err = None)"
proof -
  have "(rp_Completed rep \<longleftrightarrow> err = None) \<and> (rp_RolledBack rep \<longrightarrow> rp_RollbackAttempted rep)"
    using assms by (auto simp: Rotate_secret_def new_report_def rollback_def Let_def split: prod.splits sum.splits option.splits)
  then show ?thesis by (auto simp: schedule_status_def)
qed

end
