(* ===== verification/Login.thy ===== *)
theory Login
  imports Authz
begin

text \<open>
  Browser login (\<^verbatim>\<open>internal/auth\<close>, \<^verbatim>\<open>api/auth.go\<close>, \<^verbatim>\<open>api/oidc_prelogin.go\<close>): the OIDC flow with its
  pre-login store, the checks of identity tokens and logout tokens, the mapping of users to tenants,
  server-side sessions behind signed cookies, CSRF, and the principals of API tokens.

  Signed tokens are opened by parameters, which return the decoded claims. Random values, the clock and the
  answer of the token endpoint are arguments. A header, or a cookie of the login flow, that is absent is the
  empty string, which the code treats alike. Times are nanoseconds, the fields of tokens seconds, far from
  overflow. The handlers start after the rate limit of their route has admitted the request.
\<close>

section \<open>Sessions\<close>

definition Unix :: "gotime \<Rightarrow> int" where
  "Unix t = t div 1000000000"

record Session =
  se_ID :: string
  se_Subject :: string
  se_TenantID :: string
  se_Email :: string
  se_Roles :: "string list"
  se_ExpiresAt :: int

record SessionRecord =
  sr_Session :: Session
  sr_CreatedAt :: gotime
  sr_LastSeenAt :: gotime
  sr_RevokedAt :: "gotime option"

record sessionCookie =
  sk_ID :: string
  sk_ExpiresAt :: int

datatype session_error = BadSignature | ErrSessionNotFound | ErrSessionRevoked | ErrSessionExpired | NoSessionID | SessionStoreFailed

record 's SessionStore =
  so_Create :: "SessionRecord \<Rightarrow> 's \<Rightarrow> 's \<times> session_error option"
  so_Get :: "string \<Rightarrow> 's \<Rightarrow> session_error + SessionRecord"
  so_Revoke :: "string \<Rightarrow> gotime \<Rightarrow> 's \<Rightarrow> 's \<times> session_error option"
  so_RevokeSubject :: "string \<Rightarrow> gotime \<Rightarrow> 's \<Rightarrow> 's \<times> session_error option"
  so_Touch :: "string \<Rightarrow> gotime \<Rightarrow> 's \<Rightarrow> 's \<times> session_error option"

type_synonym session_rows = "(string \<times> SessionRecord) list"

definition Session_Create :: "SessionRecord \<Rightarrow> session_rows \<Rightarrow> session_rows \<times> session_error option" where
  "Session_Create rec rows = ((se_ID (sr_Session rec), rec) # filter (\<lambda>(i, _). i \<noteq> se_ID (sr_Session rec)) rows, None)"

definition Session_Get :: "string \<Rightarrow> session_rows \<Rightarrow> session_error + SessionRecord" where
  "Session_Get i rows = (case map_of rows i of None \<Rightarrow> Inl ErrSessionNotFound | Some rec \<Rightarrow> Inr rec)"

definition update_row :: "string \<Rightarrow> (SessionRecord \<Rightarrow> SessionRecord) \<Rightarrow> session_rows \<Rightarrow> session_rows" where
  "update_row i f rows = map (\<lambda>(j, rec). (j, if j = i then f rec else rec)) rows"

definition Session_Revoke :: "string \<Rightarrow> gotime \<Rightarrow> session_rows \<Rightarrow> session_rows \<times> session_error option" where
  "Session_Revoke i t rows =
     (if map_of rows i = None then (rows, Some ErrSessionNotFound) else (update_row i (\<lambda>rec. rec\<lparr>sr_RevokedAt := Some t\<rparr>) rows, None))"

definition Session_RevokeSubject :: "string \<Rightarrow> gotime \<Rightarrow> session_rows \<Rightarrow> session_rows \<times> session_error option" where
  "Session_RevokeSubject subject t rows =
     (map (\<lambda>(j, rec). (j, if se_Subject (sr_Session rec) = subject \<and> sr_RevokedAt rec = None then rec\<lparr>sr_RevokedAt := Some t\<rparr> else rec)) rows, None)"

definition Session_Touch :: "string \<Rightarrow> gotime \<Rightarrow> session_rows \<Rightarrow> session_rows \<times> session_error option" where
  "Session_Touch i t rows =
     (if map_of rows i = None then (rows, Some ErrSessionNotFound) else (update_row i (\<lambda>rec. rec\<lparr>sr_LastSeenAt := t\<rparr>) rows, None))"

definition MemorySessionStore :: "session_rows SessionStore" where
  "MemorySessionStore = \<lparr>so_Create = Session_Create, so_Get = Session_Get, so_Revoke = Session_Revoke,
     so_RevokeSubject = Session_RevokeSubject, so_Touch = Session_Touch\<rparr>"

text \<open>\<open>si_sign\<close> and \<open>si_open\<close> are HMAC signing of a cookie under the secret of the deployment, and its check.\<close>

record 's SessionIssuer =
  si_sign :: "sessionCookie \<Rightarrow> string"
  si_open :: "string \<Rightarrow> sessionCookie option"
  si_ttl :: duration
  si_idleTimeout :: duration
  si_store :: "'s SessionStore"

definition NewSessionIssuer :: "(sessionCookie \<Rightarrow> string) \<Rightarrow> (string \<Rightarrow> sessionCookie option) \<Rightarrow> duration \<Rightarrow> session_rows SessionIssuer" where
  "NewSessionIssuer sign opn ttl = \<lparr>si_sign = sign, si_open = opn, si_ttl = ttl, si_idleTimeout = ttl, si_store = MemorySessionStore\<rparr>"

definition Session_Issue ::
  "'s SessionIssuer \<Rightarrow> gotime \<Rightarrow> string option \<Rightarrow> string \<Rightarrow> string \<Rightarrow> string \<Rightarrow> string list \<Rightarrow> 's \<Rightarrow> 's \<times> (session_error + string)" where
  "Session_Issue iss now rnd subject tenantID email roles s =
     (case rnd of
        None \<Rightarrow> (s, Inl NoSessionID)
      | Some i \<Rightarrow>
          (let expiresAt = now + si_ttl iss
           in case so_Create (si_store iss) \<lparr>sr_Session = \<lparr>se_ID = i, se_Subject = subject, se_TenantID = tenantID, se_Email = email,
                  se_Roles = roles, se_ExpiresAt = Unix expiresAt\<rparr>, sr_CreatedAt = now, sr_LastSeenAt = now, sr_RevokedAt = None\<rparr> s of
                (s1, Some e) \<Rightarrow> (s1, Inl e)
              | (s1, None) \<Rightarrow> (s1, Inr (si_sign iss \<lparr>sk_ID = i, sk_ExpiresAt = Unix expiresAt\<rparr>))))"

text \<open>The zero time, of a record that was never seen, is far in the past of any clock.\<close>

definition zero_time :: gotime where
  "zero_time = - 62135596800000000000"

definition Session_Verify :: "'s SessionIssuer \<Rightarrow> gotime \<Rightarrow> string \<Rightarrow> 's \<Rightarrow> 's \<times> (session_error + Session)" where
  "Session_Verify iss now token s =
     (case si_open iss token of
        None \<Rightarrow> (s, Inl BadSignature)
      | Some c \<Rightarrow>
          if sk_ID c = '''' \<or> sk_ExpiresAt c \<le> Unix now then (s, Inl ErrSessionExpired)
          else case so_Get (si_store iss) (sk_ID c) s of
                 Inl e \<Rightarrow> (s, Inl e)
               | Inr rec \<Rightarrow>
                   if sr_RevokedAt rec \<noteq> None then (s, Inl ErrSessionRevoked)
                   else if se_ExpiresAt (sr_Session rec) \<le> Unix now then (s, Inl ErrSessionExpired)
                   else if si_idleTimeout iss > 0 \<and> sr_LastSeenAt rec \<noteq> zero_time \<and> \<not> sr_LastSeenAt rec + si_idleTimeout iss > now
                   then (s, Inl ErrSessionExpired)
                   else (fst (so_Touch (si_store iss) (sk_ID c) now s), Inr (sr_Session rec)))"

section \<open>Pre-login state\<close>

record oidcPreLoginEntry =
  pe_State :: string
  pe_Nonce :: string
  pe_PKCEVerifier :: string
  pe_ClientIP :: string
  pe_UserAgent :: string
  pe_ExpiresAt :: gotime

record oidcPreLoginStore =
  ps_ttl :: duration
  ps_MaxEntries :: nat
  ps_MaxPerSource :: nat
  ps_entries :: "(string \<times> oidcPreLoginEntry) list"
  ps_sourceCounts :: "string \<Rightarrow> nat"

definition newOIDCPreLoginStore :: "duration \<Rightarrow> int \<Rightarrow> int \<Rightarrow> oidcPreLoginStore" where
  "newOIDCPreLoginStore ttl maxEntries maxPerSource =
     \<lparr>ps_ttl = (if ttl \<le> 0 then 10 * minute else ttl), ps_MaxEntries = (if maxEntries \<le> 0 then 10000 else nat maxEntries),
      ps_MaxPerSource = (if maxPerSource \<le> 0 then 100 else nat maxPerSource), ps_entries = [], ps_sourceCounts = (\<lambda>_. 0)\<rparr>"

definition normalizePreLoginSource :: "string \<Rightarrow> string" where
  "normalizePreLoginSource source = (let s = trim_space source in if s = '''' then ''unknown'' else s)"

definition decrementSource :: "string \<Rightarrow> oidcPreLoginStore \<Rightarrow> oidcPreLoginStore" where
  "decrementSource source0 s =
     (let source = normalizePreLoginSource source0; count = ps_sourceCounts s source
      in s\<lparr>ps_sourceCounts := (ps_sourceCounts s)(source := if count \<le> 1 then 0 else count - 1)\<rparr>)"

definition delete_entry :: "string \<Rightarrow> oidcPreLoginStore \<Rightarrow> oidcPreLoginStore" where
  "delete_entry i s =
     (case map_of (ps_entries s) i of
        None \<Rightarrow> s
      | Some e \<Rightarrow> decrementSource (pe_ClientIP e) (s\<lparr>ps_entries := filter (\<lambda>(j, _). j \<noteq> i) (ps_entries s)\<rparr>))"

definition prune :: "gotime \<Rightarrow> oidcPreLoginStore \<Rightarrow> oidcPreLoginStore" where
  "prune now s = fold (\<lambda>(i, e) s. if \<not> pe_ExpiresAt e > now then delete_entry i s else s) (ps_entries s) s"

definition retryAfterFor :: "gotime \<Rightarrow> string \<Rightarrow> oidcPreLoginStore \<Rightarrow> duration" where
  "retryAfterFor now source s =
     (let times = map (\<lambda>(_, e). pe_ExpiresAt e) (filter (\<lambda>(_, e). source = '''' \<or> normalizePreLoginSource (pe_ClientIP e) = source) (ps_entries s))
      in case times of
           [] \<Rightarrow> ps_ttl s
         | t # ts \<Rightarrow> (let d = fold min ts t - now in if d \<le> 0 then 1000000000 else d))"

definition capacityRetryAfter :: "gotime \<Rightarrow> string \<Rightarrow> oidcPreLoginStore \<Rightarrow> duration option" where
  "capacityRetryAfter now source s =
     (let r1 = (if length (ps_entries s) \<ge> ps_MaxEntries s then max 0 (retryAfterFor now '''' s) else 0);
          r2 = (if ps_sourceCounts s source \<ge> ps_MaxPerSource s then max r1 (retryAfterFor now source s) else r1)
      in if r2 \<le> 0 then None else Some r2)"

datatype prelogin_error = NoRandomState | OverCapacity duration

definition prelogin_create ::
  "gotime \<Rightarrow> string option \<Rightarrow> string \<Rightarrow> string \<Rightarrow> string \<Rightarrow> string \<Rightarrow> string \<Rightarrow> oidcPreLoginStore \<Rightarrow> oidcPreLoginStore \<times> (prelogin_error + string)" where
  "prelogin_create now rnd state nonce verifier clientIP userAgent s0 =
     (case rnd of
        None \<Rightarrow> (s0, Inl NoRandomState)
      | Some i \<Rightarrow>
          (let source = normalizePreLoginSource clientIP; s = prune now s0
           in case capacityRetryAfter now source s of
                Some r \<Rightarrow> (s, Inl (OverCapacity r))
              | None \<Rightarrow>
                  (let s1 = delete_entry i s
                   in (s1\<lparr>ps_entries := (i, \<lparr>pe_State = state, pe_Nonce = nonce, pe_PKCEVerifier = verifier, pe_ClientIP = source,
                            pe_UserAgent = userAgent, pe_ExpiresAt = now + ps_ttl s1\<rparr>) # ps_entries s1,
                          ps_sourceCounts := (ps_sourceCounts s1)(source := ps_sourceCounts s1 source + 1)\<rparr>, Inr i))))"

definition prelogin_consume :: "gotime \<Rightarrow> string \<Rightarrow> oidcPreLoginStore \<Rightarrow> oidcPreLoginStore \<times> oidcPreLoginEntry option" where
  "prelogin_consume now i s =
     (if i = '''' then (s, None)
      else (let entry = map_of (ps_entries s) i; s1 = prune now (delete_entry i s)
            in (s1, case entry of None \<Rightarrow> None | Some e \<Rightarrow> if pe_ExpiresAt e > now then Some e else None)))"

section \<open>Identity tokens\<close>

datatype aud = AudString string | AudList "string list" | AudOther

datatype claim_json = JString string | JStrings "string list" | JOther

text \<open>A verified payload: the fields the code decodes, and every field by name.\<close>

record idTokenClaims =
  ic_Iss :: string
  ic_Aud :: aud
  ic_Sub :: string
  ic_Email :: string
  ic_Nonce :: string
  ic_Exp :: int
  ic_Iat :: int
  ic_Nbf :: int
  ic_raw :: "string \<Rightarrow> claim_json option"

record Claims =
  cl_Subject :: string
  cl_Email :: string
  cl_Issuer :: string
  cl_Audience :: string
  cl_Nonce :: string
  cl_ExpiresAt :: int
  cl_IssuedAt :: int
  cl_Tenant :: string
  cl_Groups :: "string list"

definition stringClaim :: "claim_json option \<Rightarrow> string" where
  "stringClaim raw = (case raw of Some (JString s) \<Rightarrow> s | _ \<Rightarrow> '''')"

definition stringsClaim :: "claim_json option \<Rightarrow> string list" where
  "stringsClaim raw =
     (case raw of Some (JStrings arr) \<Rightarrow> arr | _ \<Rightarrow> (if stringClaim raw \<noteq> '''' then [stringClaim raw] else []))"

fun audienceMatches :: "aud \<Rightarrow> string \<Rightarrow> bool" where
  "audienceMatches (AudString a) clientID = (a = clientID)"
| "audienceMatches (AudList xs) clientID = list_ex (\<lambda>x. x = clientID) xs"
| "audienceMatches AudOther clientID = False"

record OIDCVerifier =
  ov_Issuer :: string
  ov_ClientID :: string
  ov_Keys :: "string \<Rightarrow> idTokenClaims option"
  ov_TenantClaim :: string
  ov_GroupsClaim :: string

datatype oidc_error = BadTokenSignature | WrongIssuer | WrongAudience | MissingExp | TokenExpired | NotYetValid | IssuedInFuture | NonceRequired | NonceMismatch

definition OIDC_Verify :: "OIDCVerifier \<Rightarrow> gotime \<Rightarrow> string \<Rightarrow> string \<Rightarrow> oidc_error + Claims" where
  "OIDC_Verify v time rawIDToken expectedNonce =
     (case ov_Keys v rawIDToken of
        None \<Rightarrow> Inl BadTokenSignature
      | Some c \<Rightarrow>
          (let now = Unix time; leeway = 60
           in if ic_Iss c \<noteq> ov_Issuer v then Inl WrongIssuer
              else if \<not> audienceMatches (ic_Aud c) (ov_ClientID v) then Inl WrongAudience
              else if ic_Exp c = 0 then Inl MissingExp
              else if ic_Exp c + leeway \<le> now then Inl TokenExpired
              else if ic_Nbf c \<noteq> 0 \<and> now + leeway < ic_Nbf c then Inl NotYetValid
              else if ic_Iat c \<noteq> 0 \<and> ic_Iat c > now + leeway then Inl IssuedInFuture
              else if expectedNonce = '''' then Inl NonceRequired
              else if ic_Nonce c \<noteq> expectedNonce then Inl NonceMismatch
              else Inr \<lparr>cl_Subject = ic_Sub c, cl_Email = ic_Email c, cl_Issuer = ic_Iss c, cl_Audience = ov_ClientID v, cl_Nonce = ic_Nonce c,
                        cl_ExpiresAt = ic_Exp c, cl_IssuedAt = ic_Iat c,
                        cl_Tenant = (if ov_TenantClaim v \<noteq> '''' then stringClaim (ic_raw c (ov_TenantClaim v)) else ''''),
                        cl_Groups = (if ov_GroupsClaim v \<noteq> '''' then stringsClaim (ic_raw c (ov_GroupsClaim v)) else [])\<rparr>))"

section \<open>Tenants\<close>

record TenantMapping =
  tm_Subject :: string
  tm_Claim :: string
  tm_Group :: string
  tm_TenantID :: string
  tm_Roles :: "string list"

record TenantMapper =
  mp_Mappings :: "TenantMapping list"
  mp_ClaimIsTenant :: bool
  mp_DefaultTenant :: string
  mp_DefaultRoles :: "string list"
  mp_AllowDefault :: bool

definition mapper_roles :: "TenantMapper \<Rightarrow> string list \<Rightarrow> string list" where
  "mapper_roles m rs = (if rs \<noteq> [] then rs else mp_DefaultRoles m)"

definition mapper_bind :: "TenantMapper \<Rightarrow> TenantMapping \<Rightarrow> (string \<times> string list) option" where
  "mapper_bind m mp = (if tm_TenantID mp = '''' then None else Some (tm_TenantID mp, mapper_roles m (tm_Roles mp)))"

fun group_mapping :: "TenantMapping list \<Rightarrow> string list \<Rightarrow> TenantMapping option" where
  "group_mapping ms [] = None"
| "group_mapping ms (g # gs) =
     (case List.find (\<lambda>mp. tm_Group mp \<noteq> '''' \<and> tm_Group mp = g) ms of Some mp \<Rightarrow> Some mp | None \<Rightarrow> group_mapping ms gs)"

text \<open>\<open>None\<close> is \<^verbatim>\<open>ErrNoTenant\<close>.\<close>

definition ResolveTenant :: "TenantMapper \<Rightarrow> Claims \<Rightarrow> (string \<times> string list) option" where
  "ResolveTenant m c =
     (case List.find (\<lambda>mp. tm_Subject mp \<noteq> '''' \<and> tm_Subject mp = cl_Subject c) (mp_Mappings m) of
        Some mp \<Rightarrow> mapper_bind m mp
      | None \<Rightarrow>
          (let by_group = (case group_mapping (mp_Mappings m) (cl_Groups c) of
                             Some mp \<Rightarrow> mapper_bind m mp
                           | None \<Rightarrow> if mp_AllowDefault m \<and> mp_DefaultTenant m \<noteq> '''' then Some (mp_DefaultTenant m, mapper_roles m []) else None)
           in if cl_Tenant c \<noteq> ''''
              then (case List.find (\<lambda>mp. tm_Claim mp \<noteq> '''' \<and> tm_Claim mp = cl_Tenant c) (mp_Mappings m) of
                      Some mp \<Rightarrow> mapper_bind m mp
                    | None \<Rightarrow> if mp_ClaimIsTenant m then Some (cl_Tenant c, mapper_roles m []) else by_group)
              else by_group))"

definition mapping_valid :: "TenantMapping \<Rightarrow> bool" where
  "mapping_valid mp =
     (length (filter (\<lambda>k. trim_space k \<noteq> '''') [tm_Subject mp, tm_Claim mp, tm_Group mp]) = 1 \<and> trim_space (tm_TenantID mp) \<noteq> '''')"

definition mapper_Validate :: "TenantMapper \<Rightarrow> bool" where
  "mapper_Validate m =
     (list_all mapping_valid (mp_Mappings m)
      \<and> \<not> (mp_Mappings m = [] \<and> \<not> mp_ClaimIsTenant m \<and> (\<not> mp_AllowDefault m \<or> mp_DefaultTenant m = '''')))"

definition resolveLoginTenantWith :: "(Claims \<Rightarrow> (string \<times> string list) option) option \<Rightarrow> Claims \<Rightarrow> (string \<times> string list) option" where
  "resolveLoginTenantWith resolve claims =
     (case resolve of
        None \<Rightarrow> None
      | Some f \<Rightarrow> (case f claims of None \<Rightarrow> None | Some (tenantID, roles) \<Rightarrow> if tenantID = '''' then None else Some (tenantID, roles)))"

section \<open>Logout tokens\<close>

record logoutTokenClaims =
  lc_Iss :: string
  lc_Aud :: aud
  lc_Sub :: string
  lc_SID :: string
  lc_JTI :: string
  lc_Nonce :: string
  lc_Exp :: int
  lc_Iat :: int
  lc_Events :: "string list"

record LogoutTokenClaims =
  lt_Subject :: string
  lt_SID :: string
  lt_JTI :: string

datatype logout_error = LogoutBadSignature | ErrLogoutTokenInvalid | ErrLogoutTokenReplay

type_synonym replay_cache = "(string \<times> gotime) list"

definition Replay_Accept :: "string \<Rightarrow> gotime \<Rightarrow> gotime \<Rightarrow> replay_cache \<Rightarrow> replay_cache \<times> bool" where
  "Replay_Accept jti expiresAt now seen0 =
     (let seen = filter (\<lambda>(_, exp). exp > now) seen0
      in if map_of seen jti \<noteq> None then (seen, False) else ((jti, expiresAt) # seen, True))"

definition Logout_Verify ::
  "string \<Rightarrow> string \<Rightarrow> (string \<Rightarrow> logoutTokenClaims option) \<Rightarrow> gotime \<Rightarrow> string \<Rightarrow> replay_cache \<Rightarrow> replay_cache \<times> (logout_error + LogoutTokenClaims)" where
  "Logout_Verify issuer clientID keys time raw seen =
     (case keys raw of
        None \<Rightarrow> (seen, Inl LogoutBadSignature)
      | Some c \<Rightarrow>
          (let now = Unix time
           in if lc_Iss c \<noteq> issuer \<or> \<not> audienceMatches (lc_Aud c) clientID then (seen, Inl ErrLogoutTokenInvalid)
              else if ''http://schemas.openid.net/event/backchannel-logout'' \<notin> set (lc_Events c) \<or> lc_Nonce c \<noteq> '''' \<or> lc_JTI c = ''''
                      \<or> (lc_Sub c = '''' \<and> lc_SID c = '''') then (seen, Inl ErrLogoutTokenInvalid)
              else if lc_Exp c = 0 \<or> lc_Exp c \<le> now \<or> lc_Iat c > now + 60 then (seen, Inl ErrLogoutTokenInvalid)
              else case Replay_Accept (lc_JTI c) (lc_Exp c * 1000000000) time seen of
                     (seen1, False) \<Rightarrow> (seen1, Inl ErrLogoutTokenReplay)
                   | (seen1, True) \<Rightarrow> (seen1, Inr \<lparr>lt_Subject = lc_Sub c, lt_SID = lc_SID c, lt_JTI = lc_JTI c\<rparr>)))"

section \<open>Handlers\<close>

record login_cfg =
  lg_Issuer :: string
  lg_IssParamSupported :: bool
  lg_DisableUserAgentBinding :: bool
  lg_DisableIPBinding :: bool
  lg_Verifier :: OIDCVerifier
  lg_Resolve :: "(Claims \<Rightarrow> (string \<times> string list) option) option"
  lg_Sessions :: "session_rows SessionIssuer"
  lg_LogoutKeys :: "string \<Rightarrow> logoutTokenClaims option"
  lg_challenge :: "string \<Rightarrow> string"

record login_state =
  ls_pre :: oidcPreLoginStore
  ls_sessions :: session_rows
  ls_replay :: replay_cache

record login_request =
  lr_prelogin :: string
  lr_stateCookie :: string
  lr_nonceCookie :: string
  lr_pkceCookie :: string
  lr_sessionCookie :: "string option"
  lr_csrfCookie :: string
  lr_csrfHeader :: string
  lr_Authorization :: string
  lr_Method :: string
  lr_state :: string
  lr_iss :: string
  lr_code :: string
  lr_UserAgent :: string
  lr_ClientIP :: string

datatype login_error =
    RateLimited duration | NoRandom | InvalidPreLogin | InvalidState | BindingMismatch | InvalidIssuerParam | MissingCode | InvalidPKCE
  | ExchangeFailed | MissingNonce | TokenVerificationFailed | NoTenantForUser | SessionFailed

text \<open>What a login sets: the four transient cookies and the redirect's state, nonce and challenge.\<close>

record login_redirect =
  lo_prelogin :: string
  lo_state :: string
  lo_nonce :: string
  lo_verifier :: string
  lo_challenge :: string

record login_env =
  le_now :: gotime
  le_state :: "string option"
  le_nonce :: "string option"
  le_verifier :: "string option"
  le_id :: "string option"
  le_session :: "string option"
  le_csrf :: "string option"
  le_exchange :: "string \<Rightarrow> string \<Rightarrow> string option"

definition authLogin :: "login_cfg \<Rightarrow> login_env \<Rightarrow> login_request \<Rightarrow> login_state \<Rightarrow> login_state \<times> (login_error + login_redirect)" where
  "authLogin cfg env r st =
     (case (le_state env, le_nonce env, le_verifier env) of
        (Some state, Some nonce, Some verifier) \<Rightarrow>
          (case prelogin_create (le_now env) (le_id env) state nonce verifier (lr_ClientIP r) (lr_UserAgent r) (ls_pre st) of
             (p, Inl NoRandomState) \<Rightarrow> (st\<lparr>ls_pre := p\<rparr>, Inl NoRandom)
           | (p, Inl (OverCapacity d)) \<Rightarrow> (st\<lparr>ls_pre := p\<rparr>, Inl (RateLimited d))
           | (p, Inr i) \<Rightarrow>
               (st\<lparr>ls_pre := p\<rparr>,
                Inr \<lparr>lo_prelogin = i, lo_state = state, lo_nonce = nonce, lo_verifier = verifier, lo_challenge = lg_challenge cfg verifier\<rparr>))
      | _ \<Rightarrow> (st, Inl NoRandom))"

definition checkPreLoginBinding :: "login_cfg \<Rightarrow> login_request \<Rightarrow> oidcPreLoginEntry \<Rightarrow> bool" where
  "checkPreLoginBinding cfg r e =
     (\<not> (\<not> lg_DisableUserAgentBinding cfg \<and> pe_UserAgent e \<noteq> '''' \<and> lr_UserAgent r \<noteq> pe_UserAgent e)
      \<and> \<not> (\<not> lg_DisableIPBinding cfg \<and> pe_ClientIP e \<noteq> '''' \<and> lr_ClientIP r \<noteq> pe_ClientIP e))"

definition checkAuthorizationResponseIssuer :: "login_cfg \<Rightarrow> string \<Rightarrow> bool" where
  "checkAuthorizationResponseIssuer cfg iss =
     (\<not> lg_IssParamSupported cfg \<or> iss \<noteq> '''' \<and> lg_Issuer cfg \<noteq> '''' \<and> iss = lg_Issuer cfg)"

text \<open>The session cookie and the CSRF cookie of a login.\<close>

definition issueLoginSession ::
  "login_cfg \<Rightarrow> login_env \<Rightarrow> Claims \<Rightarrow> string \<Rightarrow> string list \<Rightarrow> login_state \<Rightarrow> login_state \<times> (login_error + string \<times> string)" where
  "issueLoginSession cfg env claims tenantID roles st =
     (case Session_Issue (lg_Sessions cfg) (le_now env) (le_session env) (cl_Subject claims) tenantID (cl_Email claims) roles (ls_sessions st) of
        (s, Inl _) \<Rightarrow> (st\<lparr>ls_sessions := s\<rparr>, Inl SessionFailed)
      | (s, Inr token) \<Rightarrow>
          (st\<lparr>ls_sessions := s\<rparr>, case le_csrf env of None \<Rightarrow> Inl NoRandom | Some csrf \<Rightarrow> Inr (token, csrf)))"

definition authCallback :: "login_cfg \<Rightarrow> login_env \<Rightarrow> login_request \<Rightarrow> login_state \<Rightarrow> login_state \<times> (login_error + string \<times> string)" where
  "authCallback cfg env r st0 =
     (if lr_prelogin r = '''' then (st0, Inl InvalidPreLogin)
      else case prelogin_consume (le_now env) (lr_prelogin r) (ls_pre st0) of
             (p, None) \<Rightarrow> (st0\<lparr>ls_pre := p\<rparr>, Inl InvalidPreLogin)
           | (p, Some e) \<Rightarrow>
               (let st = st0\<lparr>ls_pre := p\<rparr>
                in if lr_stateCookie r = '''' \<or> lr_stateCookie r \<noteq> lr_state r \<or> pe_State e \<noteq> lr_state r then (st, Inl InvalidState)
                   else if \<not> checkPreLoginBinding cfg r e then (st, Inl BindingMismatch)
                   else if \<not> checkAuthorizationResponseIssuer cfg (lr_iss r) then (st, Inl InvalidIssuerParam)
                   else if lr_code r = '''' then (st, Inl MissingCode)
                   else if lr_pkceCookie r = '''' \<or> lr_pkceCookie r \<noteq> pe_PKCEVerifier e then (st, Inl InvalidPKCE)
                   else case le_exchange env (lr_code r) (pe_PKCEVerifier e) of
                          None \<Rightarrow> (st, Inl ExchangeFailed)
                        | Some idToken \<Rightarrow>
                            if lr_nonceCookie r = '''' \<or> lr_nonceCookie r \<noteq> pe_Nonce e then (st, Inl MissingNonce)
                            else (case OIDC_Verify (lg_Verifier cfg) (le_now env) idToken (pe_Nonce e) of
                                    Inl _ \<Rightarrow> (st, Inl TokenVerificationFailed)
                                  | Inr claims \<Rightarrow>
                                      (case resolveLoginTenantWith (lg_Resolve cfg) claims of
                                         None \<Rightarrow> (st, Inl NoTenantForUser)
                                       | Some (tenantID, roles) \<Rightarrow> issueLoginSession cfg env claims tenantID roles st))))"

text \<open>Logout clears the cookies of the browser; the server's state is untouched.\<close>

definition authLogout :: "login_state \<Rightarrow> login_state \<times> string list" where
  "authLogout st = (st, [''__Host-trstctl_session'', ''trstctl_csrf''])"

text \<open>The other two ways in. The SAML library and the directory are the parameters \<open>verify\<close>; both end in the
  same session.\<close>

record saml_request =
  sq_RelayState :: string
  sq_stateCookie :: string
  sq_requestIDCookie :: string
  sq_Response :: string

datatype other_login_error = InvalidSAMLState | MissingSAMLRequestID | VerificationFailed | OtherNoTenant | OtherFailed login_error

definition finish_login ::
  "login_cfg \<Rightarrow> login_env \<Rightarrow> (Claims \<Rightarrow> (string \<times> string list) option) option \<Rightarrow> Claims \<Rightarrow> login_state
     \<Rightarrow> login_state \<times> (other_login_error + string \<times> string)" where
  "finish_login cfg env own claims st =
     (case resolveLoginTenantWith (if own = None then lg_Resolve cfg else own) claims of
        None \<Rightarrow> (st, Inl OtherNoTenant)
      | Some (tenantID, roles) \<Rightarrow>
          (case issueLoginSession cfg env claims tenantID roles st of
             (st1, Inl e) \<Rightarrow> (st1, Inl (OtherFailed e))
           | (st1, Inr out) \<Rightarrow> (st1, Inr out)))"

definition authSAMLACS ::
  "login_cfg \<Rightarrow> login_env \<Rightarrow> (Claims \<Rightarrow> (string \<times> string list) option) option \<Rightarrow> (string \<Rightarrow> string list \<Rightarrow> Claims option)
     \<Rightarrow> saml_request \<Rightarrow> login_state \<Rightarrow> login_state \<times> (other_login_error + string \<times> string)" where
  "authSAMLACS cfg env own verify r st =
     (if sq_RelayState r \<noteq> '''' \<and> (sq_stateCookie r = '''' \<or> sq_stateCookie r \<noteq> sq_RelayState r) then (st, Inl InvalidSAMLState)
      else if sq_RelayState r \<noteq> '''' \<and> sq_requestIDCookie r = '''' then (st, Inl MissingSAMLRequestID)
      else case verify (sq_Response r) (if sq_RelayState r \<noteq> '''' then [sq_requestIDCookie r] else []) of
             None \<Rightarrow> (st, Inl VerificationFailed)
           | Some claims \<Rightarrow> finish_login cfg env own claims st)"

definition authLDAPLogin ::
  "login_cfg \<Rightarrow> login_env \<Rightarrow> (Claims \<Rightarrow> (string \<times> string list) option) option \<Rightarrow> (string \<Rightarrow> string \<Rightarrow> Claims option)
     \<Rightarrow> string \<Rightarrow> string \<Rightarrow> login_state \<Rightarrow> login_state \<times> (other_login_error + string \<times> string)" where
  "authLDAPLogin cfg env own verify username password st =
     (case verify username password of
        None \<Rightarrow> (st, Inl VerificationFailed)
      | Some claims \<Rightarrow> finish_login cfg env own claims st)"

definition authOIDCBackChannelLogout :: "login_cfg \<Rightarrow> gotime \<Rightarrow> string \<Rightarrow> login_state \<Rightarrow> login_state \<times> nat" where
  "authOIDCBackChannelLogout cfg now raw st =
     (if raw = '''' then (st, 400)
      else case Logout_Verify (ov_Issuer (lg_Verifier cfg)) (ov_ClientID (lg_Verifier cfg)) (lg_LogoutKeys cfg) now raw (ls_replay st) of
             (seen, Inl LogoutBadSignature) \<Rightarrow> (st\<lparr>ls_replay := seen\<rparr>, 401)
           | (seen, Inl _) \<Rightarrow> (st\<lparr>ls_replay := seen\<rparr>, 400)
           | (seen, Inr c) \<Rightarrow>
               (let ops = si_store (lg_Sessions cfg);
                    s1 = (if lt_SID c \<noteq> '''' then fst (so_Revoke ops (lt_SID c) now (ls_sessions st)) else ls_sessions st);
                    s2 = (if lt_Subject c \<noteq> '''' then fst (so_RevokeSubject ops (lt_Subject c) now s1) else s1)
                in (st\<lparr>ls_replay := seen, ls_sessions := s2\<rparr>, 200)))"

definition sessionFrom :: "login_cfg \<Rightarrow> gotime \<Rightarrow> login_request \<Rightarrow> login_state \<Rightarrow> login_state \<times> Session option" where
  "sessionFrom cfg now r st =
     (case lr_sessionCookie r of
        None \<Rightarrow> (st, None)
      | Some token \<Rightarrow>
          (case Session_Verify (lg_Sessions cfg) now token (ls_sessions st) of
             (s, Inl _) \<Rightarrow> (st\<lparr>ls_sessions := s\<rparr>, None)
           | (s, Inr sess) \<Rightarrow> (st\<lparr>ls_sessions := s\<rparr>, Some sess)))"

definition enforceCSRF :: "login_request \<Rightarrow> bool" where
  "enforceCSRF r =
     (if lr_Method r \<in> {''GET'', ''HEAD'', ''OPTIONS'', ''TRACE''} then True
      else if lr_Authorization r \<noteq> '''' then True
      else if lr_sessionCookie r = None then True
      else \<not> (lr_csrfCookie r = '''' \<or> lr_csrfHeader r = '''' \<or> lr_csrfCookie r \<noteq> lr_csrfHeader r))"

section \<open>API tokens\<close>

record APIToken =
  at_ID :: string
  at_TenantID :: string
  at_Subject :: string
  at_Scopes :: "string list"
  at_ExpiresAt :: gotime

definition APIToken_Principal :: "APIToken \<Rightarrow> Principal" where
  "APIToken_Principal t =
     \<lparr>pr_TenantID = at_TenantID t, pr_Subject = at_Subject t,
      pr_Grants = [\<lparr>gr_Role = \<lparr>ro_Name = ''api-token'', ro_Permissions = at_Scopes t\<rparr>,
                    gr_Scope = \<lparr>sc_TenantID = at_TenantID t, sc_Project = '''', sc_Profile = '''', sc_Issuer = ''''\<rparr>\<rparr>]\<rparr>"

section \<open>Roles of a session\<close>

text \<open>\<open>member\<close> is the tenant member row of the session's user: its status and its roles.\<close>

definition mergeRoleNames :: "string list \<Rightarrow> string list \<Rightarrow> string list" where
  "mergeRoleNames base extra =
     rev (fold (\<lambda>role0 out. let role = trim_space role0 in if role = '''' \<or> role \<in> set out then out else role # out) (base @ extra) [])"

definition sessionRoleNames :: "(string \<Rightarrow> string \<Rightarrow> (string \<times> string list) option) \<Rightarrow> Session \<Rightarrow> string list" where
  "sessionRoleNames member sess =
     (if se_TenantID sess \<noteq> '''' \<and> se_Subject sess \<noteq> ''''
      then (case member (se_TenantID sess) (se_Subject sess) of
              None \<Rightarrow> se_Roles sess
            | Some (status, roles) \<Rightarrow> if status = ''offboarded'' then [] else mergeRoleNames (se_Roles sess) roles)
      else se_Roles sess)"

section \<open>A login belongs to its attempt\<close>

lemma map_of_filter_ne: "map_of (filter (\<lambda>(j, _). j \<noteq> i) xs) k = (if k = i then None else map_of xs k)"
  by (induction xs) auto

lemma delete_entry_lookup: "map_of (ps_entries (delete_entry i s)) k = (if k = i then None else map_of (ps_entries s) k)"
  by (auto simp: delete_entry_def decrementSource_def Let_def map_of_filter_ne split: option.splits)

lemma fold_delete_absent:
  "map_of (ps_entries s) k = None \<Longrightarrow>
     map_of (ps_entries (fold (\<lambda>(i, e) s. if \<not> pe_ExpiresAt e > now then delete_entry i s else s) es s)) k = None"
  by (induction es arbitrary: s) (auto simp: delete_entry_lookup)

lemma consume_single_use:
  assumes "prelogin_consume now i s = (s', Some e)"
  shows "map_of (ps_entries s) i = Some e" and "pe_ExpiresAt e > now" and "map_of (ps_entries s') i = None"
  using assms fold_delete_absent [of "delete_entry i s" i] 
  by (auto simp: prelogin_consume_def prune_def delete_entry_lookup Let_def split: if_splits option.splits)

text \<open>What an accepted identity token says, read off the token.\<close>

definition token_accepted :: "OIDCVerifier \<Rightarrow> gotime \<Rightarrow> string \<Rightarrow> idTokenClaims \<Rightarrow> bool" where
  "token_accepted v time nonce c =
     (ic_Iss c = ov_Issuer v
      \<and> (ic_Aud c = AudString (ov_ClientID v) \<or> (\<exists>xs. ic_Aud c = AudList xs \<and> ov_ClientID v \<in> set xs))
      \<and> ic_Exp c \<noteq> 0 \<and> Unix time < ic_Exp c + 60 \<and> (ic_Nbf c = 0 \<or> ic_Nbf c \<le> Unix time + 60)
      \<and> (ic_Iat c = 0 \<or> ic_Iat c \<le> Unix time + 60) \<and> nonce \<noteq> '''' \<and> ic_Nonce c = nonce)"

text \<open>The tenant and group claims are the fields the deployment names; an absent field, or one of another type, is
  empty, and a single group may be a string.\<close>

definition tenant_of_token :: "OIDCVerifier \<Rightarrow> idTokenClaims \<Rightarrow> string \<Rightarrow> bool" where
  "tenant_of_token v c tn =
     (if ov_TenantClaim v \<noteq> '''' \<and> (\<exists>s. ic_raw c (ov_TenantClaim v) = Some (JString s))
      then ic_raw c (ov_TenantClaim v) = Some (JString tn) else tn = '''')"

definition groups_of_token :: "OIDCVerifier \<Rightarrow> idTokenClaims \<Rightarrow> string list \<Rightarrow> bool" where
  "groups_of_token v c gs =
     (if ov_GroupsClaim v = '''' then gs = []
      else (\<forall>arr. ic_raw c (ov_GroupsClaim v) = Some (JStrings arr) \<longrightarrow> gs = arr)
         \<and> (\<forall>g. ic_raw c (ov_GroupsClaim v) = Some (JString g) \<longrightarrow> gs = (if g = '''' then [] else [g]))
         \<and> (ic_raw c (ov_GroupsClaim v) \<in> {None, Some JOther} \<longrightarrow> gs = []))"

lemma audienceMatches_iff: "audienceMatches a i \<longleftrightarrow> a = AudString i \<or> (\<exists>xs. a = AudList xs \<and> i \<in> set xs)"
  by (cases a) (auto simp: list_ex_iff)

lemma tenant_of_token_claim: "tenant_of_token v c (if ov_TenantClaim v \<noteq> '''' then stringClaim (ic_raw c (ov_TenantClaim v)) else '''')"
  by (simp add: tenant_of_token_def stringClaim_def split: option.split claim_json.split)

lemma groups_of_token_claim: "groups_of_token v c (if ov_GroupsClaim v \<noteq> '''' then stringsClaim (ic_raw c (ov_GroupsClaim v)) else [])"
  by (simp add: groups_of_token_def stringsClaim_def stringClaim_def split: option.split claim_json.split)

lemma OIDC_Verify_Inr:
  assumes "OIDC_Verify v time tok nonce = Inr claims"
  shows "\<exists>c. ov_Keys v tok = Some c \<and> token_accepted v time nonce c \<and> cl_Subject claims = ic_Sub c \<and> cl_Email claims = ic_Email c
    \<and> tenant_of_token v c (cl_Tenant claims) \<and> groups_of_token v c (cl_Groups claims)"
proof (cases "ov_Keys v tok")
  case (Some c)
  have "token_accepted v time nonce c"
    using assms by (simp add: Some OIDC_Verify_def Let_def token_accepted_def audienceMatches_iff split: if_splits) linarith+
  moreover have "cl_Subject claims = ic_Sub c \<and> cl_Email claims = ic_Email c
      \<and> cl_Tenant claims = (if ov_TenantClaim v \<noteq> '''' then stringClaim (ic_raw c (ov_TenantClaim v)) else '''')
      \<and> cl_Groups claims = (if ov_GroupsClaim v \<noteq> '''' then stringsClaim (ic_raw c (ov_GroupsClaim v)) else [])"
    using assms unfolding OIDC_Verify_def Let_def Some option.case
    by (simp only: if_distribR if_cancel sum.inject sum.distinct split: if_splits) (drule sym [of _ claims], simp only: Claims.select_convs simp_thms)+
  ultimately show ?thesis using Some tenant_of_token_claim [of v c] groups_of_token_claim [of v c] by auto
qed (use assms in \<open>simp add: OIDC_Verify_def\<close>)

text \<open>A run of the server from its start, with the login attempts that were begun: the values drawn for each and
  the request that began it.\<close>

inductive login_trace ::
  "login_cfg \<Rightarrow> duration \<Rightarrow> int \<Rightarrow> int \<Rightarrow> login_state \<Rightarrow> (login_env \<times> login_request) set \<Rightarrow> bool" for cfg ttl m n where
  trace_init: "login_trace cfg ttl m n \<lparr>ls_pre = newOIDCPreLoginStore ttl m n, ls_sessions = [], ls_replay = []\<rparr> {}"
| trace_login: "login_trace cfg ttl m n st L \<Longrightarrow> login_trace cfg ttl m n (fst (authLogin cfg env r st)) (insert (env, r) L)"
| trace_callback: "login_trace cfg ttl m n st L \<Longrightarrow> login_trace cfg ttl m n (fst (authCallback cfg env r st)) L"
| trace_saml: "login_trace cfg ttl m n st L \<Longrightarrow> login_trace cfg ttl m n (fst (authSAMLACS cfg env own verify q st)) L"
| trace_ldap: "login_trace cfg ttl m n st L \<Longrightarrow> login_trace cfg ttl m n (fst (authLDAPLogin cfg env own bind u pw st)) L"
| trace_use: "login_trace cfg ttl m n st L \<Longrightarrow> login_trace cfg ttl m n (fst (sessionFrom cfg now r st)) L"
| trace_logout: "login_trace cfg ttl m n st L \<Longrightarrow> login_trace cfg ttl m n (fst (authLogout st)) L"
| trace_backchannel: "login_trace cfg ttl m n st L \<Longrightarrow> login_trace cfg ttl m n (fst (authOIDCBackChannelLogout cfg now raw st)) L"

definition started_by :: "duration \<Rightarrow> string \<Rightarrow> oidcPreLoginEntry \<Rightarrow> login_env \<times> login_request \<Rightarrow> bool" where
  "started_by ttl i e a =
     (le_id (fst a) = Some i \<and> le_state (fst a) = Some (pe_State e) \<and> le_nonce (fst a) = Some (pe_Nonce e)
      \<and> le_verifier (fst a) = Some (pe_PKCEVerifier e) \<and> pe_UserAgent e = lr_UserAgent (snd a)
      \<and> pe_ClientIP e = (if trim_space (lr_ClientIP (snd a)) = '''' then ''unknown'' else trim_space (lr_ClientIP (snd a)))
      \<and> pe_ExpiresAt e = le_now (fst a) + ttl)"

definition all_started :: "duration \<Rightarrow> oidcPreLoginStore \<Rightarrow> (login_env \<times> login_request) set \<Rightarrow> bool" where
  "all_started ttl s L =
     (ps_ttl s = (if ttl \<le> 0 then 10 * minute else ttl)
      \<and> (\<forall>i e. map_of (ps_entries s) i = Some e \<longrightarrow> (\<exists>a \<in> L. started_by (ps_ttl s) i e a)))"

lemma delete_entry_ttl: "ps_ttl (delete_entry i s) = ps_ttl s"
  by (simp add: delete_entry_def decrementSource_def Let_def split: option.splits)

lemma fold_delete_keeps:
  "map_of (ps_entries (fold (\<lambda>(i, e) s. if \<not> pe_ExpiresAt e > now then delete_entry i s else s) es s)) k = Some x \<Longrightarrow>
     map_of (ps_entries s) k = Some x"
proof (induction es arbitrary: s)
  case (Cons a es)
  obtain i e where a: "a = (i, e)" by (cases a)
  have "map_of (ps_entries (if \<not> pe_ExpiresAt e > now then delete_entry i s else s)) k = Some x"
    using Cons.IH Cons.prems by (simp only: a fold_Cons comp_apply prod.case)
  then show ?case by (cases "k = i") (simp_all add: delete_entry_lookup split: if_splits)
qed simp

lemma fold_delete_ttl: "ps_ttl (fold (\<lambda>(i, e) s. if \<not> pe_ExpiresAt e > now then delete_entry i s else s) es s) = ps_ttl s"
  by (induction es arbitrary: s) (simp_all add: delete_entry_ttl split_def)

lemma all_started_delete: "all_started ttl s L \<Longrightarrow> all_started ttl (delete_entry i s) L"
  by (auto simp: all_started_def delete_entry_lookup delete_entry_ttl split: if_splits)

lemma all_started_prune: "all_started ttl s L \<Longrightarrow> all_started ttl (prune now s) L"
proof -
  assume st: "all_started ttl s L"
  have "map_of (ps_entries (prune now s)) i = Some e \<Longrightarrow> map_of (ps_entries s) i = Some e" for i e
    unfolding prune_def by (rule fold_delete_keeps)
  moreover have "ps_ttl (prune now s) = ps_ttl s" by (simp add: prune_def fold_delete_ttl)
  ultimately show ?thesis using st unfolding all_started_def by metis
qed

lemma all_started_consume: "all_started ttl s L \<Longrightarrow> all_started ttl (fst (prelogin_consume now i s)) L"
  by (simp add: prelogin_consume_def Let_def all_started_prune all_started_delete)

lemma all_started_more: "all_started ttl s L \<Longrightarrow> all_started ttl s (insert a L)"
  unfolding all_started_def by blast

lemma all_started_create:
  assumes "all_started ttl s L" and "le_state env = Some x" and "le_nonce env = Some y" and "le_verifier env = Some z"
  shows "all_started ttl (fst (prelogin_create (le_now env) (le_id env) x y z (lr_ClientIP r) (lr_UserAgent r) s)) (insert (env, r) L)"
proof (cases "le_id env")
  case None
  then show ?thesis using all_started_more [OF assms(1)] by (simp add: prelogin_create_def)
next
  case (Some i)
  let ?p = "prune (le_now env) s" and ?src = "normalizePreLoginSource (lr_ClientIP r)"
  let ?d = "delete_entry i ?p"
  let ?e = "\<lparr>pe_State = x, pe_Nonce = y, pe_PKCEVerifier = z, pe_ClientIP = ?src, pe_UserAgent = lr_UserAgent r, pe_ExpiresAt = le_now env + ps_ttl ?d\<rparr>"
  show ?thesis
  proof (cases "capacityRetryAfter (le_now env) ?src ?p")
    case None
    have d: "all_started ttl ?d L" by (intro all_started_delete all_started_prune assms(1))
    have "started_by (ps_ttl ?d) i ?e (env, r)"
      using assms(2-4) Some by (simp add: started_by_def normalizePreLoginSource_def Let_def)
    with d have "all_started ttl (?d\<lparr>ps_entries := (i, ?e) # ps_entries ?d, ps_sourceCounts := c\<rparr>) (insert (env, r) L)" for c
      unfolding all_started_def by auto
    then show ?thesis by (simp add: prelogin_create_def Some None Let_def)
  next
    case (Some d)
    then show ?thesis using all_started_more [OF all_started_prune [OF assms(1)]]
      by (simp add: prelogin_create_def \<open>le_id env = Some i\<close> Let_def)
  qed
qed

lemma issueLoginSession_pre: "ls_pre (fst (issueLoginSession cfg env claims tn roles st)) = ls_pre st"
  by (auto simp: issueLoginSession_def split: prod.splits sum.splits option.splits)

lemma finish_login_pre: "ls_pre (fst (finish_login cfg env own claims st)) = ls_pre st"
  using issueLoginSession_pre [of cfg env claims _ _ st]
  by (auto simp: finish_login_def split: option.splits prod.splits sum.splits) (metis fst_conv)+

lemma authCallback_pre:
  "ls_pre (fst (authCallback cfg env r st)) \<in> {ls_pre st, fst (prelogin_consume (le_now env) (lr_prelogin r) (ls_pre st))}"
  unfolding authCallback_def Let_def by (auto simp: issueLoginSession_pre split: prod.splits option.splits sum.splits)

lemma login_trace_started: "login_trace cfg ttl m n st L \<Longrightarrow> all_started ttl (ls_pre st) L"
proof (induction rule: login_trace.induct)
  case trace_init
  show ?case by (simp add: all_started_def newOIDCPreLoginStore_def)
next
  case (trace_login st L env r)
  show ?case
    using trace_login.IH all_started_more [OF trace_login.IH] all_started_create [OF trace_login.IH]
    by (auto simp: authLogin_def split: option.splits prod.splits sum.splits prelogin_error.splits) (metis fst_conv)+
next
  case (trace_callback st L env r)
  then show ?case using authCallback_pre [of cfg env r st] all_started_consume by auto
next
  case (trace_saml st L env own verify q)
  then show ?case by (simp add: authSAMLACS_def finish_login_pre split: option.splits)
next
  case (trace_ldap st L env own bind u pw)
  then show ?case by (simp add: authLDAPLogin_def finish_login_pre split: option.splits)
qed (auto simp: sessionFrom_def authLogout_def authOIDCBackChannelLogout_def Let_def
      split: option.splits prod.splits sum.splits logout_error.splits)

lemma authCallback_Inr:
  assumes "authCallback cfg env r st = (st', Inr (token, csrf))"
  obtains p e tok claims tn roles where "prelogin_consume (le_now env) (lr_prelogin r) (ls_pre st) = (p, Some e)"
    "lr_state r \<noteq> ''''" "lr_stateCookie r = lr_state r" "pe_State e = lr_state r" "checkPreLoginBinding cfg r e"
    "checkAuthorizationResponseIssuer cfg (lr_iss r)" "lr_pkceCookie r = pe_PKCEVerifier e"
    "le_exchange env (lr_code r) (pe_PKCEVerifier e) = Some tok" "lr_nonceCookie r = pe_Nonce e"
    "OIDC_Verify (lg_Verifier cfg) (le_now env) tok (pe_Nonce e) = Inr claims"
    "resolveLoginTenantWith (lg_Resolve cfg) claims = Some (tn, roles)"
    "issueLoginSession cfg env claims tn roles (st\<lparr>ls_pre := p\<rparr>) = (st', Inr (token, csrf))"
  using assms unfolding authCallback_def Let_def by (auto split: if_splits prod.splits option.splits sum.splits)

lemma issueLoginSession_Inr:
  assumes "issueLoginSession cfg env claims tn roles st = (st', Inr (token, csrf))" and "si_store (lg_Sessions cfg) = MemorySessionStore"
  obtains i where "le_session env = Some i" "ls_pre st' = ls_pre st"
    "map_of (ls_sessions st') i = Some \<lparr>sr_Session = \<lparr>se_ID = i, se_Subject = cl_Subject claims, se_TenantID = tn, se_Email = cl_Email claims,
       se_Roles = roles, se_ExpiresAt = Unix (le_now env + si_ttl (lg_Sessions cfg))\<rparr>, sr_CreatedAt = le_now env, sr_LastSeenAt = le_now env,
       sr_RevokedAt = None\<rparr>"
    "token = si_sign (lg_Sessions cfg) \<lparr>sk_ID = i, sk_ExpiresAt = Unix (le_now env + si_ttl (lg_Sessions cfg))\<rparr>"
  using assms by (auto simp: issueLoginSession_def Session_Issue_def MemorySessionStore_def Session_Create_def Let_def
      split: option.splits prod.splits sum.splits)

text \<open>The callback completes the attempt \<open>a\<close>: it carries the attempt's id, state, nonce and PKCE verifier before the
  attempt has expired, and comes from the browser and the address that began it (each binding unless the deployment has
  switched it off; the browser's also when the attempt named none).\<close>

definition completes :: "login_cfg \<Rightarrow> duration \<Rightarrow> login_env \<Rightarrow> login_request \<Rightarrow> login_env \<times> login_request \<Rightarrow> bool" where
  "completes cfg ttl env r a =
     (le_id (fst a) = Some (lr_prelogin r) \<and> lr_state r \<noteq> '''' \<and> lr_stateCookie r = lr_state r \<and> le_state (fst a) = Some (lr_state r)
      \<and> le_nonce (fst a) = Some (lr_nonceCookie r) \<and> le_verifier (fst a) = Some (lr_pkceCookie r)
      \<and> le_now env < le_now (fst a) + (if ttl \<le> 0 then 10 * minute else ttl)
      \<and> (lg_DisableUserAgentBinding cfg \<or> lr_UserAgent (snd a) = '''' \<or> lr_UserAgent r = lr_UserAgent (snd a))
      \<and> (lg_DisableIPBinding cfg
         \<or> lr_ClientIP r = (if trim_space (lr_ClientIP (snd a)) = '''' then ''unknown'' else trim_space (lr_ClientIP (snd a)))))"

text \<open>C10: an OIDC login gives a session only to a browser that completes its own login attempt. In any run of the server,
  a callback that succeeds carries the id, state, nonce and PKCE verifier of an unexpired attempt that was begun from the
  same browser and address (unless that binding is switched off), and the attempt is spent. The identity token was
  fetched with the attempt's verifier, is from the provider, for this client, in its validity period and has the nonce of the
  attempt; the session is for the token's subject and email, in the tenant and with the roles that the configured
  mapping gives for the token's subject, tenant claim and groups, and that tenant is not empty. (SAML and LDAP
  logins have no attempt and are not concerned.)\<close>

theorem login_needs_own_attempt:
  assumes "login_trace cfg ttl m n st L" and "authCallback cfg env r st = (st', Inr (token, csrf))"
    and "si_store (lg_Sessions cfg) = MemorySessionStore"
  shows "\<exists>a \<in> L. completes cfg ttl env r a \<and> map_of (ps_entries (ls_pre st')) (lr_prelogin r) = None
    \<and> (lg_IssParamSupported cfg \<longrightarrow> lr_iss r = lg_Issuer cfg)
    \<and> (\<exists>tok c. le_exchange env (lr_code r) (lr_pkceCookie r) = Some tok \<and> ov_Keys (lg_Verifier cfg) tok = Some c
        \<and> token_accepted (lg_Verifier cfg) (le_now env) (lr_nonceCookie r) c
        \<and> (\<exists>f claims tn roles i. lg_Resolve cfg = Some f \<and> f claims = Some (tn, roles) \<and> tn \<noteq> ''''
            \<and> cl_Subject claims = ic_Sub c \<and> tenant_of_token (lg_Verifier cfg) c (cl_Tenant claims)
            \<and> groups_of_token (lg_Verifier cfg) c (cl_Groups claims)
            \<and> le_session env = Some i
            \<and> map_of (ls_sessions st') i = Some \<lparr>sr_Session = \<lparr>se_ID = i, se_Subject = ic_Sub c, se_TenantID = tn, se_Email = ic_Email c,
                 se_Roles = roles, se_ExpiresAt = Unix (le_now env + si_ttl (lg_Sessions cfg))\<rparr>, sr_CreatedAt = le_now env,
                 sr_LastSeenAt = le_now env, sr_RevokedAt = None\<rparr>
            \<and> token = si_sign (lg_Sessions cfg) \<lparr>sk_ID = i, sk_ExpiresAt = Unix (le_now env + si_ttl (lg_Sessions cfg))\<rparr>))"
proof -
  from authCallback_Inr [OF assms(2)] obtain p e tok claims tn roles where
    cb: "prelogin_consume (le_now env) (lr_prelogin r) (ls_pre st) = (p, Some e)"
    "lr_state r \<noteq> ''''" "lr_stateCookie r = lr_state r" "pe_State e = lr_state r" "checkPreLoginBinding cfg r e"
    "checkAuthorizationResponseIssuer cfg (lr_iss r)" "lr_pkceCookie r = pe_PKCEVerifier e"
    "le_exchange env (lr_code r) (pe_PKCEVerifier e) = Some tok" "lr_nonceCookie r = pe_Nonce e"
    "OIDC_Verify (lg_Verifier cfg) (le_now env) tok (pe_Nonce e) = Inr claims"
    and tn: "resolveLoginTenantWith (lg_Resolve cfg) claims = Some (tn, roles)"
    and iss: "issueLoginSession cfg env claims tn roles (st\<lparr>ls_pre := p\<rparr>) = (st', Inr (token, csrf))" .
  note e = consume_single_use [OF cb(1)]
  obtain a where a: "a \<in> L" "started_by (ps_ttl (ls_pre st)) (lr_prelogin r) e a" "ps_ttl (ls_pre st) = (if ttl \<le> 0 then 10 * minute else ttl)"
    using login_trace_started [OF assms(1)] e(1) unfolding all_started_def by blast
  have "pe_ClientIP e \<noteq> ''''" using a(2) by (simp add: started_by_def split: if_splits)
  then have "completes cfg ttl env r a"
    using a cb e(2) by (auto simp: completes_def started_by_def checkPreLoginBinding_def)
  moreover have "lg_IssParamSupported cfg \<longrightarrow> lr_iss r = lg_Issuer cfg"
    using cb(6) by (auto simp: checkAuthorizationResponseIssuer_def)
  moreover obtain f where f: "lg_Resolve cfg = Some f" "f claims = Some (tn, roles)" "tn \<noteq> ''''"
    using tn by (auto simp: resolveLoginTenantWith_def split: option.splits prod.splits if_splits)
  moreover obtain c where c: "ov_Keys (lg_Verifier cfg) tok = Some c" "token_accepted (lg_Verifier cfg) (le_now env) (lr_nonceCookie r) c"
    "cl_Subject claims = ic_Sub c" "cl_Email claims = ic_Email c" "tenant_of_token (lg_Verifier cfg) c (cl_Tenant claims)"
    "groups_of_token (lg_Verifier cfg) c (cl_Groups claims)"
    using OIDC_Verify_Inr [OF cb(10)] cb(9) by auto
  moreover obtain i where "le_session env = Some i" "ls_pre st' = p"
    "map_of (ls_sessions st') i = Some \<lparr>sr_Session = \<lparr>se_ID = i, se_Subject = ic_Sub c, se_TenantID = tn, se_Email = ic_Email c,
       se_Roles = roles, se_ExpiresAt = Unix (le_now env + si_ttl (lg_Sessions cfg))\<rparr>, sr_CreatedAt = le_now env, sr_LastSeenAt = le_now env,
       sr_RevokedAt = None\<rparr>"
    "token = si_sign (lg_Sessions cfg) \<lparr>sk_ID = i, sk_ExpiresAt = Unix (le_now env + si_ttl (lg_Sessions cfg))\<rparr>"
    using issueLoginSession_Inr [OF iss assms(3)] c(3,4) by auto
  moreover have "map_of (ps_entries (ls_pre st')) (lr_prelogin r) = None" using e(3) \<open>ls_pre st' = p\<close> by simp
  moreover have "le_exchange env (lr_code r) (lr_pkceCookie r) = Some tok" using cb(7,8) by simp
  ultimately show ?thesis
    by (intro bexI [OF _ a(1)] conjI exI [of _ tok] exI [of _ c] exI [of _ f] exI [of _ claims] exI [of _ tn] exI [of _ roles] exI [of _ i])
qed

section \<open>Revoked sessions\<close>

definition revoked :: "'s SessionStore \<Rightarrow> string \<Rightarrow> 's \<Rightarrow> bool" where
  "revoked ops i s = (case so_Get ops i s of Inl _ \<Rightarrow> False | Inr rec \<Rightarrow> sr_RevokedAt rec \<noteq> None)"

text \<open>What the issuer relies on: a revoked record stays revoked, unless a record is created under its id.\<close>

locale session_store =
  fixes ops :: "'s SessionStore"
  assumes create_keeps: "revoked ops i s \<Longrightarrow> se_ID (sr_Session rec) \<noteq> i \<Longrightarrow> revoked ops i (fst (so_Create ops rec s))"
    and revoke_keeps: "revoked ops i s \<Longrightarrow> revoked ops i (fst (so_Revoke ops j t s))"
    and revoke_subject_keeps: "revoked ops i s \<Longrightarrow> revoked ops i (fst (so_RevokeSubject ops sub t s))"
    and touch_keeps: "revoked ops i s \<Longrightarrow> revoked ops i (fst (so_Touch ops j t s))"
    and revoke_ok: "so_Revoke ops i t s = (s', None) \<Longrightarrow> revoked ops i s'"
begin

lemma session_Issue_keeps:
  assumes "si_store iss = ops" and "revoked ops i s" and "rnd \<noteq> Some i"
  shows "revoked ops i (fst (Session_Issue iss now rnd sub tn email roles s))"
proof (cases rnd)
  case (Some j)
  define rec where "rec = \<lparr>sr_Session = \<lparr>se_ID = j, se_Subject = sub, se_TenantID = tn, se_Email = email, se_Roles = roles,
    se_ExpiresAt = Unix (now + si_ttl iss)\<rparr>, sr_CreatedAt = now, sr_LastSeenAt = now, sr_RevokedAt = None\<rparr>"
  have "fst (Session_Issue iss now rnd sub tn email roles s) = fst (so_Create ops rec s)"
    using assms(1) Some by (auto simp: Session_Issue_def rec_def Let_def split: prod.splits option.splits)
  with create_keeps [OF assms(2), of rec] Some assms(3) show ?thesis by (simp add: rec_def)
qed (use assms in \<open>simp add: Session_Issue_def\<close>)

lemma session_Verify_keeps: "si_store iss = ops \<Longrightarrow> revoked ops i s \<Longrightarrow> revoked ops i (fst (Session_Verify iss now token s))"
  using touch_keeps by (auto simp: Session_Verify_def split: option.splits sum.splits)

lemma session_Verify_refuses:
  assumes "si_store iss = ops" and "revoked ops i s" and "si_open iss token = Some c" and "sk_ID c = i"
  shows "snd (Session_Verify iss now token s) \<in> {Inl ErrSessionExpired, Inl ErrSessionRevoked}"
  using assms by (auto simp: Session_Verify_def revoked_def split: sum.splits)

end

lemma map_of_update_row: "map_of (update_row i f rows) j = map_option (\<lambda>rec. if j = i then f rec else rec) (map_of rows j)"
  by (induction rows) (auto simp: update_row_def)

lemma map_of_map_snd: "map_of (map (\<lambda>(j, rec). (j, g rec)) rows) i = map_option g (map_of rows i)"
  by (induction rows) auto

interpretation memory_sessions: session_store MemorySessionStore
  by unfold_locales
    (auto simp: MemorySessionStore_def revoked_def Session_Create_def Session_Get_def Session_Revoke_def Session_RevokeSubject_def
      Session_Touch_def map_of_filter_ne map_of_update_row map_of_map_snd split: option.splits if_splits)

section \<open>Runs\<close>

text \<open>Any sequence of requests. The one assumption on random values is that a session id is new: no record has
  it yet.\<close>

inductive login_step :: "login_cfg \<Rightarrow> login_state \<Rightarrow> login_state \<Rightarrow> bool" for cfg :: login_cfg where
  login_start: "login_step cfg st (fst (authLogin cfg env r st))"
| login_callback: "\<forall>i. le_session env = Some i \<longrightarrow> map_of (ls_sessions st) i = None \<Longrightarrow> login_step cfg st (fst (authCallback cfg env r st))"
| login_saml: "\<forall>i. le_session env = Some i \<longrightarrow> map_of (ls_sessions st) i = None \<Longrightarrow> login_step cfg st (fst (authSAMLACS cfg env own verify q st))"
| login_ldap: "\<forall>i. le_session env = Some i \<longrightarrow> map_of (ls_sessions st) i = None \<Longrightarrow> login_step cfg st (fst (authLDAPLogin cfg env own bind u pw st))"
| login_use: "login_step cfg st (fst (sessionFrom cfg now r st))"
| login_logout: "login_step cfg st (fst (authLogout st))"
| login_backchannel: "login_step cfg st (fst (authOIDCBackChannelLogout cfg now raw st))"

lemma revoked_known: "revoked MemorySessionStore i rows \<Longrightarrow> map_of rows i \<noteq> None"
  by (auto simp: revoked_def MemorySessionStore_def Session_Get_def split: option.splits)

lemma issueLoginSession_keeps:
  assumes "si_store (lg_Sessions cfg) = MemorySessionStore" and "revoked MemorySessionStore i (ls_sessions st)" and "le_session env \<noteq> Some i"
  shows "revoked MemorySessionStore i (ls_sessions (fst (issueLoginSession cfg env claims tn roles st)))"
  using memory_sessions.session_Issue_keeps [OF assms, of "le_now env" "cl_Subject claims" tn "cl_Email claims" roles]
  by (auto simp: issueLoginSession_def split: prod.splits sum.splits option.splits)

lemma authCallback_sessions:
  "ls_sessions (fst (authCallback cfg env r st)) = ls_sessions st
   \<or> (\<exists>p claims tn roles. fst (authCallback cfg env r st) = fst (issueLoginSession cfg env claims tn roles (st\<lparr>ls_pre := p\<rparr>)))"
  unfolding authCallback_def Let_def by (auto split: if_splits prod.splits option.splits sum.splits)

lemma finish_login_sessions:
  "ls_sessions (fst (finish_login cfg env own claims st)) = ls_sessions st
   \<or> (\<exists>tn roles. fst (finish_login cfg env own claims st) = fst (issueLoginSession cfg env claims tn roles st))"
  unfolding finish_login_def by (auto split: prod.splits option.splits sum.splits) (metis fst_conv)+

lemma finish_login_keeps:
  assumes "si_store (lg_Sessions cfg) = MemorySessionStore" and "revoked MemorySessionStore i (ls_sessions st)" and "le_session env \<noteq> Some i"
  shows "revoked MemorySessionStore i (ls_sessions (fst (finish_login cfg env own claims st)))"
  using finish_login_sessions [of cfg env own claims st] issueLoginSession_keeps [OF assms] assms(2) by metis

lemma authCallback_keeps:
  assumes "si_store (lg_Sessions cfg) = MemorySessionStore" and "revoked MemorySessionStore i (ls_sessions st)" and "le_session env \<noteq> Some i"
  shows "revoked MemorySessionStore i (ls_sessions (fst (authCallback cfg env r st)))"
proof -
  have "revoked MemorySessionStore i (ls_sessions (st\<lparr>ls_pre := p\<rparr>))" for p using assms(2) by simp
  from issueLoginSession_keeps [OF assms(1) this assms(3)] show ?thesis
    using authCallback_sessions [of cfg env r st] assms(2) by metis
qed

lemma authLogin_sessions: "ls_sessions (fst (authLogin cfg env r st)) = ls_sessions st"
  by (auto simp: authLogin_def split: option.splits prod.splits sum.splits prelogin_error.splits)

lemma sessionFrom_keeps:
  assumes "si_store (lg_Sessions cfg) = MemorySessionStore" and "revoked MemorySessionStore i (ls_sessions st)"
  shows "revoked MemorySessionStore i (ls_sessions (fst (sessionFrom cfg now r st)))"
proof (cases "lr_sessionCookie r")
  case (Some token)
  with memory_sessions.session_Verify_keeps [OF assms, of now token] assms(2) show ?thesis
    by (auto simp: sessionFrom_def split: prod.splits sum.splits)
qed (use assms in \<open>simp add: sessionFrom_def\<close>)

lemma backchannel_keeps:
  assumes "si_store (lg_Sessions cfg) = MemorySessionStore" and "revoked MemorySessionStore i (ls_sessions st)"
  shows "revoked MemorySessionStore i (ls_sessions (fst (authOIDCBackChannelLogout cfg now raw st)))"
  using assms memory_sessions.revoke_keeps memory_sessions.revoke_subject_keeps
  by (auto simp: authOIDCBackChannelLogout_def Let_def split: prod.splits sum.splits logout_error.splits)

lemma login_step_keeps_revoked:
  assumes "login_step cfg st st'" and "si_store (lg_Sessions cfg) = MemorySessionStore" and "revoked MemorySessionStore i (ls_sessions st)"
  shows "revoked MemorySessionStore i (ls_sessions st')"
  using assms(1)
proof cases
  case (login_callback env r)
  with revoked_known [OF assms(3)] authCallback_keeps [OF assms(2,3)] show ?thesis by metis
next
  case (login_saml env own verify q)
  then have "le_session env \<noteq> Some i" using revoked_known [OF assms(3)] by auto
  with login_saml finish_login_keeps [OF assms(2,3), of env own] assms(3) show ?thesis
    by (simp add: authSAMLACS_def split: option.splits)
next
  case (login_ldap env own bind u pw)
  then have "le_session env \<noteq> Some i" using revoked_known [OF assms(3)] by auto
  with login_ldap finish_login_keeps [OF assms(2,3), of env own] assms(3) show ?thesis
    by (simp add: authLDAPLogin_def split: option.splits)
qed (use assms sessionFrom_keeps backchannel_keeps in \<open>simp_all add: authLogin_sessions authLogout_def\<close>)

lemma sessionFrom_refuses:
  assumes "si_store (lg_Sessions cfg) = MemorySessionStore" and "revoked MemorySessionStore i (ls_sessions st)"
    and "lr_sessionCookie r = Some token" and "si_open (lg_Sessions cfg) token = Some c" and "sk_ID c = i"
  shows "snd (sessionFrom cfg now r st) = None"
  using memory_sessions.session_Verify_refuses [OF assms(1,2,4,5), of now] assms(3)
  by (auto simp: sessionFrom_def split: prod.splits sum.splits)

lemma backchannel_revokes:
  assumes "authOIDCBackChannelLogout cfg now raw st = (st1, 200)" and "si_store (lg_Sessions cfg) = MemorySessionStore"
    and "lg_LogoutKeys cfg raw = Some lc" and "lc_Sub lc \<noteq> ''''"
    and "map_of (ls_sessions st) i = Some rec" and "se_Subject (sr_Session rec) = lc_Sub lc"
  shows "revoked MemorySessionStore i (ls_sessions st1)"
proof -
  obtain seen c where v: "Logout_Verify (ov_Issuer (lg_Verifier cfg)) (ov_ClientID (lg_Verifier cfg)) (lg_LogoutKeys cfg) now raw (ls_replay st) = (seen, Inr c)"
    using assms(1) by (auto simp: authOIDCBackChannelLogout_def split: if_splits prod.splits sum.splits logout_error.splits)
  then have sub: "lt_Subject c = lc_Sub lc"
    using assms(3) by (auto simp: Logout_Verify_def Let_def split: if_splits prod.splits bool.splits)
  define s1 where "s1 = (if lt_SID c \<noteq> '''' then fst (Session_Revoke (lt_SID c) now (ls_sessions st)) else ls_sessions st)"
  have "ls_sessions st1 = fst (Session_RevokeSubject (lc_Sub lc) now s1)"
    using assms(1,2,4) v sub
    by (auto simp: authOIDCBackChannelLogout_def s1_def MemorySessionStore_def Let_def split: if_splits)
  moreover have "\<exists>rec'. map_of s1 i = Some rec' \<and> se_Subject (sr_Session rec') = lc_Sub lc"
    using assms(5,6) by (auto simp: s1_def Session_Revoke_def map_of_update_row)
  ultimately show ?thesis
    by (auto simp: revoked_def MemorySessionStore_def Session_Get_def Session_RevokeSubject_def map_of_map_snd)
qed

text \<open>C11: a back-channel logout that the server accepts ends every session the subject has: in any later state, after
  any further requests and logins, a request with the cookie of such a session is not authenticated by it.\<close>

theorem backchannel_logout_ends_sessions:
  assumes "authOIDCBackChannelLogout cfg now raw st = (st1, 200)" and "si_store (lg_Sessions cfg) = MemorySessionStore"
    and "lg_LogoutKeys cfg raw = Some lc" and "lc_Sub lc \<noteq> ''''"
    and "map_of (ls_sessions st) i = Some rec" and "se_Subject (sr_Session rec) = lc_Sub lc"
    and "(login_step cfg)\<^sup>*\<^sup>* st1 st2"
    and "lr_sessionCookie r = Some token" and "si_open (lg_Sessions cfg) token = Some c" and "sk_ID c = i"
  shows "snd (sessionFrom cfg later r st2) = None"
proof -
  have "revoked MemorySessionStore i (ls_sessions st2)"
    using assms(7) backchannel_revokes [OF assms(1-6)] by induction (auto intro: login_step_keeps_revoked [OF _ assms(2)])
  from sessionFrom_refuses [OF assms(2) this assms(8-10)] show ?thesis .
qed

section \<open>An example deployment\<close>

definition ex_verifier :: OIDCVerifier where
  "ex_verifier = \<lparr>ov_Issuer = ''idp'', ov_ClientID = ''app'',
     ov_Keys = (\<lambda>t. if t = ''idtok'' then Some \<lparr>ic_Iss = ''idp'', ic_Aud = AudList [''app''], ic_Sub = ''alice'', ic_Email = ''a@x'', ic_Nonce = ''n'',
        ic_Exp = 1000, ic_Iat = 0, ic_Nbf = 0, ic_raw = (\<lambda>_. None)\<rparr> else None),
     ov_TenantClaim = '''', ov_GroupsClaim = ''''\<rparr>"

definition ex_mapper :: TenantMapper where
  "ex_mapper = \<lparr>mp_Mappings = [\<lparr>tm_Subject = ''alice'', tm_Claim = '''', tm_Group = '''', tm_TenantID = ''t1'', tm_Roles = [''viewer'']\<rparr>],
     mp_ClaimIsTenant = False, mp_DefaultTenant = '''', mp_DefaultRoles = [], mp_AllowDefault = False\<rparr>"

definition ex_logout :: "string \<Rightarrow> logoutTokenClaims option" where
  "ex_logout t =
     (if t = ''bysub'' then Some \<lparr>lc_Iss = ''idp'', lc_Aud = AudString ''app'', lc_Sub = ''alice'', lc_SID = '''', lc_JTI = ''j1'', lc_Nonce = '''', lc_Exp = 1000,
        lc_Iat = 0, lc_Events = [''http://schemas.openid.net/event/backchannel-logout'']\<rparr>
      else if t = ''bysid'' then Some \<lparr>lc_Iss = ''idp'', lc_Aud = AudString ''app'', lc_Sub = '''', lc_SID = ''idp-session-1'', lc_JTI = ''j2'', lc_Nonce = '''', lc_Exp = 1000,
        lc_Iat = 0, lc_Events = [''http://schemas.openid.net/event/backchannel-logout'']\<rparr>
      else None)"

text \<open>The example signature prefixes the id of the session; every cookie carries the same expiry.\<close>

definition ex_cfg :: login_cfg where
  "ex_cfg = \<lparr>lg_Issuer = ''idp'', lg_IssParamSupported = False, lg_DisableUserAgentBinding = False, lg_DisableIPBinding = False,
     lg_Verifier = ex_verifier, lg_Resolve = Some (ResolveTenant ex_mapper),
     lg_Sessions = NewSessionIssuer (\<lambda>c. ''sig.'' @ sk_ID c)
        (\<lambda>t. if take 4 t = ''sig.'' then Some \<lparr>sk_ID = drop 4 t, sk_ExpiresAt = 3601\<rparr> else None) 3600000000000,
     lg_LogoutKeys = ex_logout, lg_challenge = (\<lambda>v. v)\<rparr>"

definition ex_env :: "string \<Rightarrow> login_env" where
  "ex_env sid = \<lparr>le_now = 1000000000, le_state = Some ''s'', le_nonce = Some ''n'', le_verifier = Some ''v'', le_id = Some ''p1'', le_session = Some sid,
     le_csrf = Some ''c'', le_exchange = (\<lambda>code ver. if code = ''code'' then Some ''idtok'' else None)\<rparr>"

definition ex_request :: login_request where
  "ex_request = \<lparr>lr_prelogin = ''p1'', lr_stateCookie = ''s'', lr_nonceCookie = ''n'', lr_pkceCookie = ''v'', lr_sessionCookie = Some ''sig.sid1'', lr_csrfCookie = '''',
     lr_csrfHeader = '''', lr_Authorization = '''', lr_Method = ''GET'', lr_state = ''s'', lr_iss = '''', lr_code = ''code'', lr_UserAgent = ''ua'', lr_ClientIP = ''10.0.0.1''\<rparr>"

definition ex_start :: login_state where
  "ex_start = \<lparr>ls_pre = newOIDCPreLoginStore 0 5 5, ls_sessions = [], ls_replay = []\<rparr>"

definition ex_attempt :: login_state where
  "ex_attempt = fst (authLogin ex_cfg (ex_env ''sid1'') ex_request ex_start)"

definition ex_logged_in :: login_state where
  "ex_logged_in = fst (authCallback ex_cfg (ex_env ''sid1'') ex_request ex_attempt)"

lemma ex_token: "snd (authCallback ex_cfg (ex_env ''sid1'') ex_request ex_attempt) = Inr (''sig.sid1'', ''c'')"
  by code_simp

lemma ex_callback: "authCallback ex_cfg (ex_env ''sid1'') ex_request ex_attempt = (ex_logged_in, Inr (''sig.sid1'', ''c''))"
  by (rule prod_eqI) (simp_all add: ex_token ex_logged_in_def)

lemma ex_sessions: "si_store (lg_Sessions ex_cfg) = MemorySessionStore"
  by (simp add: ex_cfg_def NewSessionIssuer_def)

lemma ex_trace: "login_trace ex_cfg 0 5 5 ex_attempt {(ex_env ''sid1'', ex_request)}"
  unfolding ex_attempt_def ex_start_def by (rule trace_login) (rule trace_init)

theorem login_needs_own_attempt_witness:
  "completes ex_cfg 0 (ex_env ''sid1'') ex_request (ex_env ''sid1'', ex_request)
   \<and> map_of (ps_entries (ls_pre ex_logged_in)) ''p1'' = None"
  using login_needs_own_attempt [OF ex_trace ex_callback ex_sessions] by (simp add: ex_request_def)

definition ex_logged_out :: login_state where
  "ex_logged_out = fst (authOIDCBackChannelLogout ex_cfg 1000000000 ''bysub'' ex_logged_in)"

lemma ex_logout_accepted: "snd (authOIDCBackChannelLogout ex_cfg 1000000000 ''bysub'' ex_logged_in) = 200"
  by code_simp

lemma ex_row: "map_option (\<lambda>rec. se_Subject (sr_Session rec)) (map_of (ls_sessions ex_logged_in) ''sid1'') = Some ''alice''"
  by code_simp

theorem backchannel_logout_ends_sessions_witness:
  "snd (sessionFrom ex_cfg 2000000000 ex_request (fst (authLogin ex_cfg (ex_env ''sid2'') ex_request ex_logged_out))) = None"
proof -
  obtain rec where rec: "map_of (ls_sessions ex_logged_in) ''sid1'' = Some rec" "se_Subject (sr_Session rec) = ''alice''"
    using ex_row by auto
  obtain lc where lc: "lg_LogoutKeys ex_cfg ''bysub'' = Some lc" "lc_Sub lc = ''alice''"
    by (auto simp: ex_cfg_def ex_logout_def)
  have out: "authOIDCBackChannelLogout ex_cfg 1000000000 ''bysub'' ex_logged_in = (ex_logged_out, 200)"
    by (rule prod_eqI) (simp_all add: ex_logout_accepted ex_logged_out_def)
  have run: "(login_step ex_cfg)\<^sup>*\<^sup>* ex_logged_out (fst (authLogin ex_cfg (ex_env ''sid2'') ex_request ex_logged_out))"
    by (rule r_into_rtranclp) (rule login_start)
  show ?thesis
    by (rule backchannel_logout_ends_sessions [OF out ex_sessions lc(1) _ rec(1) _ run, of _ "''sig.sid1''" "\<lparr>sk_ID = ''sid1'', sk_ExpiresAt = 3601\<rparr>"])
      (simp_all add: lc(2) rec(2) ex_request_def ex_cfg_def NewSessionIssuer_def)
qed

section \<open>Where the sessions differ from what is said of them\<close>

text \<open>The logout of the browser leaves the session on the server as it is: a copy of the cookie goes on working.\<close>

lemma logout_keeps_session: "sessionFrom cfg now r (fst (authLogout st)) = sessionFrom cfg now r st"
  by (simp add: authLogout_def)

text \<open>A logout token that names the provider's session only is accepted and ends nothing: the ids of sessions are
  drawn by the server and the provider's are never stored.\<close>

lemma sid_logout_revokes_nothing:
  assumes "lg_LogoutKeys cfg raw = Some lc" and "lc_Sub lc = ''''" and "map_of (ls_sessions st) (lc_SID lc) = None"
    and "si_store (lg_Sessions cfg) = MemorySessionStore"
  shows "ls_sessions (fst (authOIDCBackChannelLogout cfg now raw st)) = ls_sessions st"
  using assms
  by (auto simp: authOIDCBackChannelLogout_def Logout_Verify_def MemorySessionStore_def Session_Revoke_def Let_def
      split: if_splits prod.splits bool.splits sum.splits logout_error.splits)

lemma sid_logout_accepted:
  "snd (authOIDCBackChannelLogout ex_cfg 1000000000 ''bysid'' ex_logged_in) = 200
   \<and> snd (sessionFrom ex_cfg 2000000000 ex_request (fst (authOIDCBackChannelLogout ex_cfg 1000000000 ''bysid'' ex_logged_in))) \<noteq> None"
  by code_simp

text \<open>A process that has just started, or another replica with the same secret, refuses every cookie.\<close>

lemma fresh_process_refuses:
  assumes "si_store (lg_Sessions cfg) = MemorySessionStore" and "ls_sessions st = []"
  shows "snd (sessionFrom cfg now r st) = None"
  using assms by (auto simp: sessionFrom_def Session_Verify_def MemorySessionStore_def Session_Get_def split: option.splits prod.splits sum.splits)

section \<open>The pre-login store is bounded\<close>

lemma normalize_idem: "normalizePreLoginSource (normalizePreLoginSource s) = normalizePreLoginSource s"
  by (simp add: normalizePreLoginSource_def Let_def trim_space_idem) (simp add: trim_space_def trim_func_def is_space_def)

text \<open>Ids are distinct, the counters count the attempts of each source, and neither limit is exceeded.\<close>

definition source_entries :: "string \<Rightarrow> (string \<times> oidcPreLoginEntry) list \<Rightarrow> nat" where
  "source_entries src es = length (filter (\<lambda>(_, e). pe_ClientIP e = src) es)"

definition prelogin_ok :: "oidcPreLoginStore \<Rightarrow> bool" where
  "prelogin_ok s =
     (0 < ps_ttl s \<and> distinct (map fst (ps_entries s)) \<and> list_all (\<lambda>(_, e). normalizePreLoginSource (pe_ClientIP e) = pe_ClientIP e) (ps_entries s)
      \<and> (\<forall>src. ps_sourceCounts s src = source_entries src (ps_entries s)) \<and> length (ps_entries s) \<le> ps_MaxEntries s
      \<and> (\<forall>src. ps_sourceCounts s src \<le> ps_MaxPerSource s))"

lemma source_entries_delete:
  "distinct (map fst es) \<Longrightarrow> map_of es i = Some e \<Longrightarrow>
     source_entries src (filter (\<lambda>(j, _). j \<noteq> i) es) = source_entries src es - (if src = pe_ClientIP e then 1 else 0)"
proof (induction es)
  case (Cons x es)
  obtain j f where x: "x = (j, f)" by (cases x)
  show ?case
  proof (cases "j = i")
    case True
    with Cons.prems x have "filter (\<lambda>(j, _). j \<noteq> i) es = es" by (force simp: filter_id_conv)
    with True Cons.prems x show ?thesis by (auto simp: source_entries_def)
  next
    case False
    with Cons x have IH: "source_entries src (filter (\<lambda>(j, _). j \<noteq> i) es) = source_entries src es - (if src = pe_ClientIP e then 1 else 0)"
      and mem: "(i, e) \<in> set es" by (auto dest: map_of_SomeD)
    from mem have "0 < source_entries (pe_ClientIP e) es" by (auto simp: source_entries_def filter_empty_conv)
    with IH False x show ?thesis by (auto simp: source_entries_def)
  qed
qed simp

lemma delete_entry_limits [simp]:
  "ps_MaxEntries (delete_entry i s) = ps_MaxEntries s" "ps_MaxPerSource (delete_entry i s) = ps_MaxPerSource s" "ps_ttl (delete_entry i s) = ps_ttl s"
  by (simp_all add: delete_entry_def decrementSource_def Let_def split: option.splits)

lemma delete_entry_le: "length (ps_entries (delete_entry i s)) \<le> length (ps_entries s)" "ps_sourceCounts (delete_entry i s) src \<le> ps_sourceCounts s src"
  by (simp_all add: delete_entry_def decrementSource_def Let_def split: option.splits)

lemma delete_entry_ok:
  assumes "prelogin_ok s" shows "prelogin_ok (delete_entry i s)"
proof (cases "map_of (ps_entries s) i")
  case (Some e)
  with assms have n: "normalizePreLoginSource (pe_ClientIP e) = pe_ClientIP e" by (auto simp: prelogin_ok_def list_all_iff dest: map_of_SomeD)
  have es: "ps_entries (delete_entry i s) = filter (\<lambda>(j, _). j \<noteq> i) (ps_entries s)"
    using Some by (simp add: delete_entry_def decrementSource_def Let_def)
  have "ps_sourceCounts (delete_entry i s) src = source_entries src (ps_entries (delete_entry i s))" for src
    using assms Some by (auto simp: prelogin_ok_def es source_entries_delete n delete_entry_def decrementSource_def Let_def)
  moreover have "distinct (map fst (ps_entries (delete_entry i s)))"
    using assms by (auto simp: prelogin_ok_def es intro: distinct_map_filter)
  moreover have "list_all (\<lambda>(_, e). normalizePreLoginSource (pe_ClientIP e) = pe_ClientIP e) (ps_entries (delete_entry i s))"
    using assms by (auto simp: prelogin_ok_def es list_all_iff)
  ultimately show ?thesis using assms delete_entry_le(1) [of i s] order_trans [OF delete_entry_le(2) [of i s]] unfolding prelogin_ok_def
    by (metis delete_entry_limits order_trans)
qed (use assms in \<open>simp add: delete_entry_def\<close>)

lemma prune_ok: "prelogin_ok s \<Longrightarrow> prelogin_ok (prune now s)"
proof -
  have "prelogin_ok s \<Longrightarrow> prelogin_ok (fold (\<lambda>(i, e) s. if \<not> pe_ExpiresAt e > now then delete_entry i s else s) es s)" for es
    by (induction es arbitrary: s) (auto simp: delete_entry_ok)
  then show "prelogin_ok s \<Longrightarrow> prelogin_ok (prune now s)" by (simp add: prune_def)
qed

lemma retryAfterFor_pos: "0 < ps_ttl s \<Longrightarrow> 0 < retryAfterFor now source s"
  by (auto simp: retryAfterFor_def Let_def split: list.splits)

lemma below_capacity:
  "0 < ps_ttl s \<Longrightarrow> capacityRetryAfter now source s = None \<Longrightarrow> length (ps_entries s) < ps_MaxEntries s \<and> ps_sourceCounts s source < ps_MaxPerSource s"
  using retryAfterFor_pos [of s now "''''"] retryAfterFor_pos [of s now source]
  by (auto simp: capacityRetryAfter_def Let_def not_le split: if_splits)

lemma prelogin_create_ok:
  assumes "prelogin_ok s" shows "prelogin_ok (fst (prelogin_create now rnd state nonce verifier clientIP ua s))"
proof (cases rnd)
  case (Some i)
  let ?src = "normalizePreLoginSource clientIP" and ?p = "prune now s"
  note ok = prune_ok [OF assms, of now]
  show ?thesis
  proof (cases "capacityRetryAfter now ?src ?p")
    case None
    let ?d = "delete_entry i ?p"
    have cap: "length (ps_entries ?d) < ps_MaxEntries ?p" "ps_sourceCounts ?d ?src < ps_MaxPerSource ?p"
      using below_capacity [OF _ None] ok delete_entry_le [of i ?p] by (auto simp: prelogin_ok_def intro: le_less_trans)
    have "i \<notin> fst ` set (ps_entries ?d)" using delete_entry_lookup [of i ?p i] by (simp add: map_of_eq_None_iff)
    with cap delete_entry_ok [OF ok, of i] show ?thesis
      by (auto simp: prelogin_create_def Some None Let_def prelogin_ok_def source_entries_def normalize_idem)
  qed (use ok in \<open>simp add: prelogin_create_def Some Let_def\<close>)
qed (use assms in \<open>simp add: prelogin_create_def\<close>)

lemma prelogin_consume_ok: "prelogin_ok s \<Longrightarrow> prelogin_ok (fst (prelogin_consume now i s))"
  by (simp add: prelogin_consume_def Let_def prune_ok delete_entry_ok)

lemma authLogin_pre:
  "\<exists>now rnd a b c ip ua. ls_pre (fst (authLogin cfg env r st)) \<in> {ls_pre st, fst (prelogin_create now rnd a b c ip ua (ls_pre st))}"
  unfolding authLogin_def by (auto split: option.splits prod.splits sum.splits prelogin_error.splits) (metis fst_conv)+

lemma login_step_pre:
  assumes "login_step cfg st st'"
  shows "\<exists>now i rnd a b c ip ua. ls_pre st' \<in> {ls_pre st, fst (prelogin_create now rnd a b c ip ua (ls_pre st)), fst (prelogin_consume now i (ls_pre st))}"
  using assms
proof cases
  case (login_start env r)
  with authLogin_pre [of cfg env r st] show ?thesis by blast
next
  case (login_callback env r)
  with authCallback_pre [of cfg env r st] show ?thesis by blast
next
  case (login_saml env own verify q)
  then show ?thesis by (auto simp: authSAMLACS_def finish_login_pre split: option.splits)
next
  case (login_ldap env own bind u pw)
  then show ?thesis by (auto simp: authLDAPLogin_def finish_login_pre split: option.splits)
qed (auto simp: sessionFrom_def authLogout_def authOIDCBackChannelLogout_def Let_def
      split: option.splits prod.splits sum.splits logout_error.splits)

definition limits :: "oidcPreLoginStore \<Rightarrow> nat \<times> nat" where
  "limits s = (ps_MaxEntries s, ps_MaxPerSource s)"

lemma prune_limits: "limits (prune now s) = limits s"
proof -
  have "limits (fold (\<lambda>(i, e) s. if \<not> pe_ExpiresAt e > now then delete_entry i s else s) es s) = limits s" for es s
    by (induction es arbitrary: s) (auto simp: limits_def)
  then show ?thesis by (simp add: prune_def)
qed

lemma create_limits: "limits (fst (prelogin_create now rnd a b c ip ua s)) = limits s"
  using prune_limits [of now s] by (simp add: prelogin_create_def limits_def Let_def split: option.splits)

lemma consume_limits: "limits (fst (prelogin_consume now i s)) = limits s"
  using prune_limits [of now "delete_entry i s"] by (simp add: prelogin_consume_def limits_def Let_def)

lemma login_step_prelogin:
  assumes "login_step cfg st st'" and "prelogin_ok (ls_pre st)"
  shows "prelogin_ok (ls_pre st') \<and> limits (ls_pre st') = limits (ls_pre st)"
  using login_step_pre [OF assms(1)] prelogin_create_ok [OF assms(2)] prelogin_consume_ok [OF assms(2)] assms(2) create_limits consume_limits
  by auto

lemma new_prelogin_ok: "prelogin_ok (newOIDCPreLoginStore ttl m n)"
  by (simp add: prelogin_ok_def newOIDCPreLoginStore_def source_entries_def)

text \<open>C12: no sequence of requests makes the store of login attempts grow past its limits: every reachable store holds at
  most the configured number of attempts in all and per source address, and its counters are exact, so that an
  address below its limit is never refused because of stale counts.\<close>

theorem prelogin_store_bounded:
  assumes "(login_step cfg)\<^sup>*\<^sup>* \<lparr>ls_pre = newOIDCPreLoginStore ttl m n, ls_sessions = [], ls_replay = []\<rparr> st"
  shows "prelogin_ok (ls_pre st) \<and> limits (ls_pre st) = limits (newOIDCPreLoginStore ttl m n)"
  using assms by induction (auto simp: new_prelogin_ok dest: login_step_prelogin)

theorem prelogin_store_bounded_witness: "prelogin_ok (ls_pre ex_attempt) \<and> limits (ls_pre ex_attempt) = limits (newOIDCPreLoginStore 0 5 5)"
  by (rule prelogin_store_bounded [of ex_cfg 0 5 5])
    (unfold ex_attempt_def ex_start_def, rule r_into_rtranclp, rule login_start)

end
