(* ===== verification/Spec2Isabelle.thy ===== *)
theory Spec2Isabelle
  imports Orchestrator Idempotency Authz Approval AuditChain Graph KmipTtlv DynSecret SecretShare SecretAccess Transit Breakglass Bulkhead Dispatch AcmeReplay Revocation CaServed Issuance SignerHost ServedRotation Login
begin

text \<open>
  A verification library for \<^verbatim>\<open>trustctl\<close>, a control plane for machine identities: it
  issues, rotates and revokes certificates and secrets, records every change in an append-only
  event log, and performs external calls through an outbox.

  \<^bold>\<open>How the program is put together.\<close> A command changes state by appending an event; a projection
  of the event updates the read tables in the same transaction that enqueues the external call in
  the outbox (\<^verbatim>\<open>internal/orchestrator\<close>). A worker claims outbox rows under a lease, calls the
  destination and finalizes the row; after a crash, reconciliation compares the log with the
  outbox and enqueues what is missing. Requests are authorized (\<^verbatim>\<open>internal/authz\<close>), may need
  approvals (\<^verbatim>\<open>internal/approval\<close>), are made idempotent by key (\<^verbatim>\<open>internal/idem\<close>,
  \<^verbatim>\<open>orchestrator/idempotency.go\<close>) and run in bounded pools (\<^verbatim>\<open>internal/bulkhead\<close>). The audit
  service chains the events of each tenant by hashes (\<^verbatim>\<open>internal/audit\<close>). Protocol servers (ACME
  here) keep their own view of the log. Certificate authorities are created by key ceremonies that
  several custodians approve, keep their keys in a separate signing process, and publish revocations
  as CRLs and OCSP responses. The secret side consists of a versioned store, one-time
  sharing, transit encryption, dynamic leases and rotation; break-glass covers operation without the
  control plane, and the graph package answers reachability questions about credentials.

  \<^bold>\<open>Theories.\<close>
  \<^item> \<open>Prelude\<close>: Go strings, times and audit events as HOL types, Go string functions, decimal
    numbers, tenant keys, and the lemmas the components share.
  \<^item> \<open>Lifecycle\<close> (\<^verbatim>\<open>orchestrator/lifecycle.go\<close>): the identity state machine. A revoked identity
    can only be retired.
  \<^item> \<open>Outbox\<close> (\<^verbatim>\<open>orchestrator/outbox.go\<close>, \<^verbatim>\<open>outboxgc\<close>): the table, enqueue, claim, finalize,
    circuit breaker, backoff and retention sweep, each SQL statement as a function on the table.
    No undelivered call is lost in any interleaving; a claim respects every admission rule.
    The locale \<open>idempotent_enqueue\<close> states what reconciliation relies on.
  \<^item> \<open>Dispatch\<close> (the worker side of \<^verbatim>\<open>outbox.go\<close>): options, delivery with its deadline, the dispatch
    loop. A pass terminates whatever the handler, the clock and the jitter do, and leaves only
    rows that a cap or a circuit holds back.
  \<^item> \<open>Orchestrator\<close> (\<^verbatim>\<open>orchestrator.go\<close>, parts of \<^verbatim>\<open>events\<close>, \<^verbatim>\<open>projections\<close> and \<^verbatim>\<open>store\<close>): a transition
    in its two halves, the projection, history, and the whole reconciliation loop. Serial
    transitions refine the lifecycle relation, and reconciliation restores each missing effect
    exactly once from any crash point.
  \<^item> \<open>Idempotency\<close>: the database and in-memory idempotency stores as two interpretations of the
    locale \<open>idempotencer\<close>; single flight under any interleaving.
  \<^item> \<open>Authz\<close>, \<open>Approval\<close>: decisions against grants and roles; requests, approvals and denials over
    the locale \<open>approval_store\<close>. Issuance needs the quorum of distinct approvers.
  \<^item> \<open>AuditChain\<close>: sealing, verifying, search, export and archiving. Altering a sealed chain needs a
    hash collision; exports verify; search stays within a tenant.
  \<^item> \<open>Graph\<close>: the credential graph and its breadth-first search, proved equal to reachability.
  \<^item> \<open>KmipTtlv\<close> (\<^verbatim>\<open>ee/kmip\<close>): parser and encoder of the TTLV wire format on 32-bit words; round trip
    and limits.
  \<^item> \<open>DynSecret\<close>, \<open>SecretStore\<close>, \<open>SecretAccess\<close>, \<open>SecretShare\<close>, \<open>Transit\<close>: leases and their
    revocation worker (locale \<open>revoke_queue\<close>), versions, rollback and replay, references and the
    dotenv format, the HTTP surface, one-time links, key rings and ciphertexts.
  \<^item> \<open>Breakglass\<close>: offline issuance by quorum, bundle verification, reconciliation and the
    emergency login.
  \<^item> \<open>Profile\<close>, \<open>AcmePolicy\<close>: certificate profiles; CAA, wildcard and validation-method policies.
  \<^item> \<open>Bulkhead\<close>: worker pools as state machines with their accounting.
  \<^item> \<open>AcmeState\<close>, \<open>AcmeServer\<close>, \<open>AcmeSafety\<close>, \<open>AcmeReplay\<close> (\<^verbatim>\<open>protocols/acme\<close>): the ACME server. Its
    state is a record of association lists, one per Go map; a handler is a function from the state
    to the state and a response, and one that gives up the mutex around a call to the outside is
    split there. Runs interleave the sections of any number of requests. Certificates are
    requested only for validated names, and replaying the event log rebuilds the state.
  \<^item> \<open>CaCrypto\<close> (\<^verbatim>\<open>crypto/ca/hierarchy.go\<close>, \<^verbatim>\<open>hierarchy_ca.go\<close>, \<^verbatim>\<open>leafca.go\<close>, \<^verbatim>\<open>eku.go\<close>): X.509 signing.
    A certificate is a record of the fields the code reads and the key that signed it; what
    \<^verbatim>\<open>x509.CreateCertificate\<close> checks and fills in is a definition. Hierarchies stay within their
    root's path length, leaves within their profile and their CA's names, imported chains are sound.
  \<^item> \<open>CaStore\<close> (\<^verbatim>\<open>store/ca.go\<close>, \<^verbatim>\<open>store/revocation.go\<close>, the CA cases of \<^verbatim>\<open>projections\<close>): the tables of
    authorities, key ceremonies, approvals, issued certificates, CRLs and responders, the projection of
    their events, catch-up and rebuild. A rebuild yields what the log defines; a revocation is final;
    consuming a ceremony needs its quorum.
  \<^item> \<open>Revocation\<close> (\<^verbatim>\<open>server/revocation.go\<close>, \<^verbatim>\<open>ocsp_cache.go\<close>, \<^verbatim>\<open>crypto/revocation.go\<close>,
    \<^verbatim>\<open>ca/revocation\<close>): full, shard and delta CRLs and the OCSP responder with its cache. A CRL lists
    exactly the revoked serials, shards divide them, deltas complete their base, and OCSP reports the
    recorded status.
  \<^item> \<open>CaServed\<close> (\<^verbatim>\<open>server/ca_hierarchy.go\<close>): the served hierarchy over these tables, the event log and
    the signing process, every operation as a sequence of failing steps around a transaction. In
    every reachable state an operation on an authority needs a pending ceremony opened for exactly
    its request and approved in the log by enough custodians; purposes identify requests; issued
    leaves are on record.
  \<^item> \<open>Rotation\<close>, \<open>SecretSync\<close>, \<open>ServedRotation\<close> (\<^verbatim>\<open>internal/rotation\<close>, \<^verbatim>\<open>internal/secretsync\<close>, the rotators of
    \<^verbatim>\<open>api/secrets.go\<close>): rotation with rollback over the locale \<open>safe_rotator\<close>, which the backend rotator
    provides; delivery to platforms over the locale \<open>sync_outbox\<close>; rotation of stored secrets and of the
    leases of \<open>DynSecret\<close>. A rotation never strands its consumers, and a completed one has delivered.
  \<^item> \<open>Issuance\<close> (\<^verbatim>\<open>ca/issuance.go\<close>, \<^verbatim>\<open>server/external_ca.go\<close>): certificates from external authorities, over
    the outbox of \<open>Outbox\<close> and the idempotency table of \<open>Idempotency\<close>, gated by the profiles of \<open>Profile\<close>.
    An authority mints at most once per request key; a key keeps its certificate; a certificate under a
    profile is within it.
  \<^item> \<open>Signer\<close> (\<^verbatim>\<open>internal/signing\<close>, \<^verbatim>\<open>crypto/signauth.go\<close>): the process that holds the keys, its sealed
    files and its client. A signature needs the purpose and hash of the key and, under dual control, the
    token of exactly this request; tokens identify requests; keys and their limits survive restarts.
  \<^item> \<open>SignerHost\<close> (\<^verbatim>\<open>signing/bulkhead.go\<close>, \<^verbatim>\<open>serve.go\<close>, \<^verbatim>\<open>peer.go\<close>, \<^verbatim>\<open>supervisor.go\<close>): requests admitted to
    the process, and the supervisor loop, as step relations. Load stays within its limit, and a client is
    handed out only while its child runs.
  \<^item> \<open>Login\<close> (\<^verbatim>\<open>internal/auth\<close>, \<^verbatim>\<open>api/auth.go\<close>, \<^verbatim>\<open>api/oidc_prelogin.go\<close>): browser login, its requests as a step
    relation over login attempts, sessions (the locale \<open>session_store\<close>) and seen logout tokens. A session needs
    the browser's own attempt, a back-channel logout ends the sessions of its subject for good, and the store
    of attempts stays within its limits.

  \<^bold>\<open>Modelling decisions.\<close> Times and durations are unbounded integers of nanoseconds; the code only
  compares and adds them (except that the lifetime of a CA is multiplied in 64 bits, where it wraps).
  PostgreSQL rounds stored times to microseconds; the tables here keep them exactly. Strings are byte
  lists. A Go map is an association list or a HOL map, and
  its iteration order is never observed. A database transaction is the composition of its
  statements; database faults, which roll it back, are left out, except for the commit of the CA
  operations, which append to the log before it. Random draws, clock readings,
  the outcome of an append and the answers of external services are arguments of the functions
  that use them. Hashes, signatures, encryption, JSON, base64, JOSE and certificate parsing are
  parameters; where a theorem needs one of their documented laws it is a hypothesis of the
  theorem, and the witness instantiates it.

  \<^bold>\<open>Bounds.\<close> The dispatch loop runs on fuel; twice the remaining attempts plus one are shown to be
  enough. Reference resolution stops at the source's depth of sixteen and recurs on the rest of
  it. Version numbers are parsed with the 63-bit limit of the source. The TTLV parser keeps the
  configured depth, item and length limits. The graph search terminates because the unvisited nodes
  decrease.

  \<^bold>\<open>Not modelled.\<close> HTTP routing and JSON rendering, SQL text and migrations, the web console, the
  host agent, adapters to third-party services, the SAML and LDAP clients, cryptographic primitives, the Rego policy engine,
  and the EST, SCEP, CMP, SPIFFE and SSH servers. Of the modelled packages the audit retention
  loop over all tenants, the KMIP request handlers, the ACME network validators and the in-process
  hierarchy manager of \<^verbatim>\<open>ca/hierarchy\<close>, which repeats the served operations for tests, are left out, as are
  the sockets and the memory protection of the signing process.
\<close>

end
